(* ===== verification/Prelude.thy ===== *)
theory Prelude
  imports Main "HOL-Library.Word" "HOL-Library.Multiset"
begin

text \<open>
  Shared vocabulary of the development: the machine integer types of
  \<^verbatim>\<open>include/types.h\<close>, the status codes of \<^verbatim>\<open>include/status.h\<close>, the
  outcome type of kernel code, the lemma collections, and the generic lemmas on
  words, lists and multisets that the components share.
\<close>

unbundle bit_operations_syntax

section \<open>Machine integers and status codes\<close>

type_synonym u8 = "8 word"

type_synonym u16 = "16 word"

type_synonym u32 = "32 word"

type_synonym u64 = "64 word"

type_synonym status_t = "32 word"

text \<open>
  The codes are abbreviations, so that the simplifier compares them as numerals.
  \<^verbatim>\<open>E_WARNING\<close>, \<^verbatim>\<open>E_INFO\<close> and \<^verbatim>\<open>E_ERROR\<close> are severity bits in the two top bits.
\<close>

abbreviation E_SUCCESS :: status_t where
  "E_SUCCESS \<equiv> 0"

abbreviation E_BAD_PARAM :: status_t where
  "E_BAD_PARAM \<equiv> 1"

abbreviation E_EMPTY :: status_t where
  "E_EMPTY \<equiv> 2"

abbreviation E_NOT_FOUND :: status_t where
  "E_NOT_FOUND \<equiv> 3"

abbreviation E_NOT_IMPLEMENTED :: status_t where
  "E_NOT_IMPLEMENTED \<equiv> 5"

abbreviation E_TIMEOUT :: status_t where
  "E_TIMEOUT \<equiv> 6"

abbreviation E_INSUFFICIENT_RESOURCES :: status_t where
  "E_INSUFFICIENT_RESOURCES \<equiv> 7"

abbreviation E_NO_QNODES :: status_t where
  "E_NO_QNODES \<equiv> 8"

abbreviation E_TOO_MANY_TRIES :: status_t where
  "E_TOO_MANY_TRIES \<equiv> 9"

abbreviation E_ERROR :: status_t where
  "E_ERROR \<equiv> 0xC0000000"

section \<open>Outcomes of kernel code\<close>

text \<open>
  \<^verbatim>\<open>_kpanic\<close> and \<^verbatim>\<open>__panic\<close> never return, so a panic is an error value; so are a
  dereference of a null pointer or of a pointer outside every object (the C program
  has no defined behaviour there) and a loop that does not end.
\<close>

datatype kerr =
    Panic string
  | Fault string
  | Diverges

type_synonym 'a outcome = "kerr + 'a"

definition andThen :: "'a outcome \<Rightarrow> ('a \<Rightarrow> 'b outcome) \<Rightarrow> 'b outcome" where
  "andThen x f = (case x of Inl e \<Rightarrow> Inl e | Inr v \<Rightarrow> f v)"

lemma andThen_Inl [simp]: "andThen (Inl e) f = Inl e"
  by (simp add: andThen_def)

lemma andThen_Inr [simp]: "andThen (Inr v) f = f v"
  by (simp add: andThen_def)

lemma andThen_eq_Inr: "andThen x f = Inr r \<longleftrightarrow> (\<exists>v. x = Inr v \<and> f v = Inr r)"
  by (cases x) auto

lemma andThen_eq_InrE:
  assumes "andThen x f = Inr r"
  obtains v where "x = Inr v" and "f v = Inr r"
  using assms by (auto simp: andThen_eq_Inr)

text \<open>An outcome \<open>x\<close> that, if it is a value, is one that satisfies \<open>P\<close>.\<close>

definition holdsOn :: "('a \<Rightarrow> bool) \<Rightarrow> 'a outcome \<Rightarrow> bool" where
  "holdsOn P x = (case x of Inl _ \<Rightarrow> True | Inr v \<Rightarrow> P v)"

lemma holdsOn_Inl [simp]: "holdsOn P (Inl e)"
  by (simp add: holdsOn_def)

lemma holdsOn_Inr [simp]: "holdsOn P (Inr v) = P v"
  by (simp add: holdsOn_def)

lemma holdsOn_andThen:
  "holdsOn P (andThen x f) \<longleftrightarrow> (case x of Inl _ \<Rightarrow> True | Inr v \<Rightarrow> holdsOn P (f v))"
  by (cases x) auto

lemma holdsOn_andThenI:
  assumes "holdsOn Q x" and "\<And>v. x = Inr v \<Longrightarrow> Q v \<Longrightarrow> holdsOn P (f v)"
  shows "holdsOn P (andThen x f)"
  using assms by (cases x) auto

lemma holdsOnD: "holdsOn P x \<Longrightarrow> x = Inr v \<Longrightarrow> P v"
  by simp

lemma holdsOnI: "(\<And>v. x = Inr v \<Longrightarrow> P v) \<Longrightarrow> holdsOn P x"
  by (cases x) auto

section \<open>Generic lemmas\<close>

named_theorems frame_simps \<open>what an update leaves alone\<close>

lemma unat_of_nat_u32: "n < 2 ^ 32 \<Longrightarrow> unat (of_nat n :: u32) = n"
  by (simp add: unat_of_nat take_bit_nat_eq_self)

lemma uint_of_nat_small: "x < 2 ^ 32 \<Longrightarrow> uint (of_nat x :: u32) = int x"
  by (simp add: uint_nat unat_of_nat_u32 del: unat_of_nat)

lemma sint_of_nat_small:
  assumes "x < 2 ^ 31"
  shows "sint (of_nat x :: u32) = int x"
proof -
  have "sint (of_nat x :: u32) = signed_take_bit 31 (uint (of_nat x :: u32))"
    by (simp add: sint_uint)
  also have "\<dots> = signed_take_bit 31 (int x)" using assms by (simp add: uint_of_nat_small)
  also have "\<dots> = int x" using assms by (intro signed_take_bit_int_eq_self) simp_all
  finally show ?thesis .
qed

lemma sint_word_of_int_small:
  assumes "0 \<le> x" and "x < 2 ^ 31"
  shows "sint (word_of_int x :: u32) = x"
proof -
  have "(word_of_int x :: u32) = of_nat (nat x)" using assms(1) by simp
  then show ?thesis using assms sint_of_nat_small [of "nat x"] by (simp add: nat_less_iff)
qed

lemma sint_nonneg_uint:
  fixes w :: u32
  assumes "0 \<le> sint w"
  shows "uint w = sint w"
proof -
  have "sint w < 2 ^ 31" using sint_lt [of w] by simp
  then have "take_bit 32 (sint w) = sint w" using assms by (intro take_bit_int_eq_self) simp_all
  then show ?thesis using uint_sint [of w] by simp
qed

lemma of_nat_unat_id: "of_nat (unat (x :: 'a::len word)) = x"
  by simp

lemma of_nat_Suc_minus_one [simp]: "(of_nat (Suc n) :: 'a::len word) - 1 = of_nat n"
  by simp

lemma of_nat_u32_less_1: "n < 2 ^ 32 \<Longrightarrow> (of_nat n :: u32) < 1 \<longleftrightarrow> n = 0"
  by (simp add: word_less_nat_alt unat_of_nat_u32)

lemma of_nat_u32_eq_0:
  assumes "n < 2 ^ 32"
  shows "(of_nat n :: u32) = 0 \<longleftrightarrow> n = 0"
proof
  assume h: "(of_nat n :: u32) = 0"
  have "n = unat (of_nat n :: u32)" by (simp only: unat_of_nat_u32 [OF assms])
  also have "\<dots> = 0" by (simp only: h unat_0)
  finally show "n = 0" .
qed simp

lemma last_notin: "xs \<noteq> [] \<Longrightarrow> set xs \<inter> set ys = {} \<Longrightarrow> last xs \<notin> set ys"
  by (meson disjoint_iff last_in_set)

lemma hd_notin: "ys \<noteq> [] \<Longrightarrow> set xs \<inter> set ys = {} \<Longrightarrow> hd ys \<notin> set xs"
  by (meson disjoint_iff hd_in_set)

text \<open>Every element of a multiset occurs at most once.\<close>

definition mset_once :: "'a multiset \<Rightarrow> bool" where
  "mset_once M \<longleftrightarrow> (\<forall>x. count M x \<le> 1)"

lemma mset_once_mset [simp]: "mset_once (mset xs) \<longleftrightarrow> distinct xs"
  unfolding mset_once_def distinct_count_atmost_1 by (auto simp: le_Suc_eq count_eq_zero_iff)

lemma mset_once_subset: "mset_once N \<Longrightarrow> M \<subseteq># N \<Longrightarrow> mset_once M"
  unfolding mset_once_def by (meson le_trans mset_subset_eq_count)

lemma mset_once_unionD1: "mset_once (M + N) \<Longrightarrow> mset_once M"
  by (rule mset_once_subset) auto

lemma mset_once_unionD2: "mset_once (M + N) \<Longrightarrow> mset_once N"
  by (rule mset_once_subset) auto

lemma mset_once_add_mset: "mset_once (add_mset x M) \<longleftrightarrow> x \<notin># M \<and> mset_once M"
proof
  assume h: "mset_once (add_mset x M)"
  have "count (add_mset x M) x \<le> 1" using h by (simp add: mset_once_def del: count_add_mset)
  then have "x \<notin># M" by (simp add: count_eq_zero_iff [symmetric])
  moreover have "mset_once M" using h by (rule mset_once_subset) simp
  ultimately show "x \<notin># M \<and> mset_once M" by simp
next
  assume "x \<notin># M \<and> mset_once M"
  then show "mset_once (add_mset x M)"
    by (auto simp: mset_once_def count_eq_zero_iff [symmetric])
qed

lemma mset_once_disjoint:
  assumes "mset_once (M + N)" and "x \<in># M"
  shows "x \<notin># N"
proof
  assume "x \<in># N"
  with assms(2) have "Suc 0 \<le> count M x" and "Suc 0 \<le> count N x"
    by (simp_all add: Suc_le_eq)
  then have "2 \<le> count (M + N) x" by (simp only: count_union)
  moreover have "count (M + N) x \<le> 1" using assms(1) unfolding mset_once_def by blast
  ultimately show False by simp
qed

lemma mset_once_size_le:
  assumes "mset_once M" and "set_mset M \<subseteq> {..<n::nat}"
  shows "size M \<le> n"
proof -
  obtain xs where M: "M = mset xs" using ex_mset [of M] by auto
  with assms(1) have "distinct xs" by simp
  then have "size M = card (set_mset M)" by (simp add: M distinct_card)
  also have "\<dots> \<le> n" using assms(2) by (metis card_lessThan card_mono finite_lessThan)
  finally show ?thesis .
qed

end
