(* ===== verification/Queue_Heap.thy ===== *)
theory Queue_Heap
  imports Queue
begin

text \<open>
  The shape of the queue module's memory: linked segments of nodes, the representation
  invariant \<open>q_rep\<close> of the pool and its queues, and what the link manipulations of
  \<^verbatim>\<open>queue.c\<close> do to the segments.
\<close>

section \<open>Segments\<close>

text \<open>
  \<open>dseg nd p h xs l e\<close>: starting at pointer \<open>h\<close>, with \<open>p\<close> the previous pointer of the
  first node, the nodes \<open>xs\<close> are doubly linked; \<open>l\<close> points to the last of them (\<open>p\<close> if
  there is none) and \<open>e\<close> is the next pointer that leaves the segment.
\<close>

fun dseg ::
  "(nat \<Rightarrow> qnode) \<Rightarrow> nat option \<Rightarrow> nat option \<Rightarrow> nat list \<Rightarrow> nat option \<Rightarrow> nat option \<Rightarrow> bool" where
  "dseg nd p h [] l e \<longleftrightarrow> h = e \<and> l = p"
| "dseg nd p h (x # xs) l e \<longleftrightarrow>
     h = Some x \<and> qn_prev (nd x) = p \<and> dseg nd (Some x) (qn_next (nd x)) xs l e"

fun sseg :: "(nat \<Rightarrow> qnode) \<Rightarrow> nat option \<Rightarrow> nat list \<Rightarrow> bool" where
  "sseg nd h [] \<longleftrightarrow> h = None"
| "sseg nd h (x # xs) \<longleftrightarrow> h = Some x \<and> sseg nd (qn_next (nd x)) xs"

lemma dseg_cong:
  assumes "\<And>x. x \<in> set xs \<Longrightarrow> qn_prev (nd' x) = qn_prev (nd x) \<and> qn_next (nd' x) = qn_next (nd x)"
  shows "dseg nd' p h xs l e = dseg nd p h xs l e"
  using assms by (induction xs arbitrary: p h) auto

lemma sseg_cong:
  assumes "\<And>x. x \<in> set xs \<Longrightarrow> qn_next (nd' x) = qn_next (nd x)"
  shows "sseg nd' h xs = sseg nd h xs"
  using assms by (induction xs arbitrary: h) auto

lemma dseg_upd [frame_simps]: "x \<notin> set xs \<Longrightarrow> dseg (nd(x := v)) p h xs l e = dseg nd p h xs l e"
  by (rule dseg_cong) auto

lemma sseg_upd [frame_simps]: "x \<notin> set xs \<Longrightarrow> sseg (nd(x := v)) h xs = sseg nd h xs"
  by (rule sseg_cong) auto

lemma dseg_append:
  "dseg nd p h (xs @ ys) l e \<longleftrightarrow> (\<exists>l' h'. dseg nd p h xs l' h' \<and> dseg nd l' h' ys l e)"
  by (induction xs arbitrary: p h) auto

lemma dseg_snoc:
  "dseg nd p h (xs @ [x]) l e \<longleftrightarrow>
     dseg nd p h xs (qn_prev (nd x)) (Some x) \<and> l = Some x \<and> qn_next (nd x) = e"
  by (auto simp: dseg_append)

lemma dseg_last: "dseg nd p h xs l e \<Longrightarrow> xs \<noteq> [] \<Longrightarrow> l = Some (last xs) \<and> qn_next (nd (last xs)) = e"
  by (induction xs arbitrary: p h) auto

lemma dseg_last_eq: "dseg nd p h xs l e \<Longrightarrow> l = (if xs = [] then p else Some (last xs))"
  by (induction xs arbitrary: p h) auto

lemma dseg_hd_eq: "dseg nd p h xs l e \<Longrightarrow> h = (if xs = [] then e else Some (hd xs))"
  by (cases xs) auto

lemma dseg_sseg: "dseg nd p h xs l None \<Longrightarrow> sseg nd h xs"
  by (induction xs arbitrary: p h) auto

text \<open>Redirecting the pointer that leaves a segment, or the one that enters it.\<close>

lemma dseg_set_exit:
  assumes "dseg nd p h xs l e" and "distinct xs" and "xs \<noteq> []"
  shows "dseg (nd(last xs := (nd (last xs))\<lparr>qn_next := e'\<rparr>)) p h xs l e'"
proof -
  obtain ys x where xs: "xs = ys @ [x]" using \<open>xs \<noteq> []\<close> by (cases xs rule: rev_cases) auto
  with assms have "x \<notin> set ys" and "dseg nd p h ys (qn_prev (nd x)) (Some x)" and "l = Some x"
    by (auto simp: dseg_snoc)
  then show ?thesis by (simp add: xs dseg_snoc frame_simps)
qed

lemma dseg_set_entry:
  assumes "dseg nd p h xs l e" and "distinct xs" and "xs \<noteq> []"
  shows "dseg (nd(hd xs := (nd (hd xs))\<lparr>qn_prev := p'\<rparr>)) p' h xs l e"
  using assms by (cases xs) (auto simp: frame_simps)

section \<open>Walking a list\<close>

fun walk :: "nat \<Rightarrow> (nat \<Rightarrow> qnode) \<Rightarrow> nat option \<Rightarrow> nat list" where
  "walk fuel nd None = []"
| "walk 0 nd (Some n) = []"
| "walk (Suc fuel) nd (Some n) = n # walk fuel nd (qn_next (nd n))"

lemma walk_sseg: "sseg nd h xs \<Longrightarrow> length xs \<le> fuel \<Longrightarrow> walk fuel nd h = xs"
proof (induction xs arbitrary: h fuel)
  case (Cons x xs)
  then show ?case by (cases fuel) auto
qed simp

lemma find_by_key_sseg:
  "sseg nd h xs \<Longrightarrow> length xs \<le> fuel \<Longrightarrow>
   find_by_key fuel nd p h =
     Inr (case dropWhile (\<lambda>x. \<not> p (qn_key (nd x))) xs of [] \<Rightarrow> None | y # _ \<Rightarrow> Some y)"
proof (induction xs arbitrary: h fuel)
  case (Cons x xs)
  then show ?case by (cases fuel) auto
qed simp

lemma find_insert_sseg:
  "sseg nd h xs \<Longrightarrow> length xs \<le> fuel \<Longrightarrow>
   find_insert fuel nd cmp n h =
     Inr (case dropWhile (\<lambda>x. call_compare cmp (nd x) (nd n) \<le> 0) xs of [] \<Rightarrow> None | y # _ \<Rightarrow> Some y)"
proof (induction xs arbitrary: h fuel)
  case (Cons x xs)
  then show ?case by (cases fuel) auto
qed simp

section \<open>The representation invariant\<close>

text \<open>
  \<open>q_rep s A F\<close>: queue \<open>q\<close> consists of the nodes \<open>A q\<close>, the free list of the nodes \<open>F\<close>;
  all these lists are disjoint, without repetition and inside the node array, and every
  queue records its length, head and tail.
\<close>

definition queue_rep :: "(nat \<Rightarrow> qnode) \<Rightarrow> queue_t \<Rightarrow> nat list \<Rightarrow> bool" where
  "queue_rep nd u xs \<longleftrightarrow>
     dseg nd None (q_head u) xs (q_tail u) None \<and> q_length u = of_nat (length xs) \<and>
     distinct xs \<and> set xs \<subseteq> {..<N_QNODES}"

definition q_rep :: "qsys \<Rightarrow> (nat \<Rightarrow> nat list) \<Rightarrow> nat list \<Rightarrow> bool" where
  "q_rep s A F \<longleftrightarrow>
     (\<forall>q. queue_rep (qnodes s) (queues s q) (A q)) \<and>
     (\<forall>q. set (A q) \<inter> set F = {}) \<and>
     (\<forall>q r. q \<noteq> r \<longrightarrow> set (A q) \<inter> set (A r) = {}) \<and>
     sseg (qnodes s) (qnode_avail s) F \<and> distinct F \<and> set F \<subseteq> {..<N_QNODES}"

text \<open>Node \<open>n\<close> is in no list: the state of a node between the free list and a queue.\<close>

definition detached :: "nat \<Rightarrow> (nat \<Rightarrow> nat list) \<Rightarrow> nat list \<Rightarrow> bool" where
  "detached n A F \<longleftrightarrow> n < N_QNODES \<and> n \<notin> set F \<and> (\<forall>q. n \<notin> set (A q))"

lemma distinct_bounded_length: "distinct xs \<Longrightarrow> set xs \<subseteq> {..<n} \<Longrightarrow> length xs \<le> n"
  by (metis card_lessThan card_mono distinct_card finite_lessThan)

lemma queue_rep_length: "queue_rep nd u xs \<Longrightarrow> length xs \<le> N_QNODES"
  by (auto simp: queue_rep_def intro: distinct_bounded_length)

lemma queue_rep_length_small: "queue_rep nd u xs \<Longrightarrow> length xs < 2 ^ 32"
  using queue_rep_length [of nd u xs] by (simp add: N_QNODES_65)

lemma queue_rep_empty: "queue_rep nd u xs \<Longrightarrow> q_empty u \<longleftrightarrow> xs = []"
  using queue_rep_length_small [of nd u xs]
  by (simp add: q_empty_def queue_rep_def of_nat_u32_eq_0)

lemma queue_rep_cong:
  assumes "\<And>x. x \<in> set xs \<Longrightarrow> qn_prev (nd' x) = qn_prev (nd x) \<and> qn_next (nd' x) = qn_next (nd x)"
  shows "queue_rep nd' u xs = queue_rep nd u xs"
  by (simp add: queue_rep_def dseg_cong [OF assms])

lemma queue_rep_upd [frame_simps]: "x \<notin> set xs \<Longrightarrow> queue_rep (nd(x := v)) u xs = queue_rep nd u xs"
  by (rule queue_rep_cong) auto

lemma q_repD:
  assumes "q_rep s A F"
  shows "queue_rep (qnodes s) (queues s q) (A q)" and "set (A q) \<inter> set F = {}"
    and "q \<noteq> r \<Longrightarrow> set (A q) \<inter> set (A r) = {}" and "sseg (qnodes s) (qnode_avail s) F"
    and "distinct F" and "set F \<subseteq> {..<N_QNODES}"
  using assms by (auto simp: q_rep_def)

lemma q_rep_detached_upd:
  "q_rep s A F \<Longrightarrow> detached n A F \<Longrightarrow> q_rep (upd_node n f s) A F"
  by (auto simp: q_rep_def detached_def frame_simps)

text \<open>
  Changing one queue: if the new state has the nodes \<open>xs\<close> in \<open>q\<close>, took no node from the
  other lists and changed no link of theirs, it represents \<open>A(q := xs)\<close>.
\<close>

lemma q_rep_change_queue:
  assumes rep: "q_rep s A F"
    and q: "queue_rep (qnodes s') (queues s' q) xs"
    and others: "\<And>r. r \<noteq> q \<Longrightarrow> queues s' r = queues s r"
    and avail: "qnode_avail s' = qnode_avail s"
    and frame: "\<And>x. x \<notin> set (A q) \<Longrightarrow> x \<noteq> n \<Longrightarrow> qnodes s' x = qnodes s x"
    and nF: "n \<notin> set F"
    and nA: "\<And>r. r \<noteq> q \<Longrightarrow> n \<notin> set (A r)"
    and sub: "set xs \<subseteq> insert n (set (A q))"
  shows "q_rep s' (A(q := xs)) F"
proof -
  have F: "x \<in> set F \<Longrightarrow> qnodes s' x = qnodes s x" for x
    using frame [of x] nF q_repD(2) [OF rep, of q] by auto
  have R: "r \<noteq> q \<Longrightarrow> x \<in> set (A r) \<Longrightarrow> qnodes s' x = qnodes s x" for r x
    using frame [of x] nA [of r] q_repD(3) [OF rep, of r q] by auto
  have "sseg (qnodes s') (qnode_avail s') F"
    using q_repD(4) [OF rep] sseg_cong [of F "qnodes s'" "qnodes s"] F by (simp add: avail)
  moreover have "queue_rep (qnodes s') (queues s' r) ((A(q := xs)) r)" for r
  proof (cases "r = q")
    case False
    then show ?thesis
      using q_repD(1) [OF rep, of r] queue_rep_cong [of "A r" "qnodes s'" "qnodes s"] R [of r]
      by (simp add: others)
  qed (use q in simp)
  moreover have "set xs \<inter> set F = {}"
    using sub nF q_repD(2) [OF rep, of q] by auto
  moreover have "set xs \<inter> set (A r) = {}" if "r \<noteq> q" for r
    using sub nA [of r] q_repD(3) [OF rep, of q r] that by auto
  ultimately show ?thesis
    using rep by (auto simp: q_rep_def)
qed

section \<open>Taking a node out of a segment and putting one in\<close>

lemma dseg_bypass:
  assumes xs: "dseg nd p h xs l e1" and ys: "dseg nd p2 h2 ys t e" and dist: "distinct (xs @ ys)"
    and nd1: "nd1 = (if xs = [] then nd else nd(last xs := (nd (last xs))\<lparr>qn_next := h2\<rparr>))"
    and nd2: "nd2 = (if ys = [] then nd1 else nd1(hd ys := (nd1 (hd ys))\<lparr>qn_prev := l\<rparr>))"
  shows "dseg nd2 p (if xs = [] then h2 else h) (xs @ ys) (if ys = [] then l else t) e"
proof -
  have "dseg nd1 p (if xs = [] then h2 else h) xs l h2"
    using dseg_set_exit [OF xs, of h2] xs dist by (auto simp: nd1)
  then have 1: "dseg nd2 p (if xs = [] then h2 else h) xs l h2"
    using dist by (cases ys) (auto simp: nd2 frame_simps)
  have "xs \<noteq> [] \<Longrightarrow> last xs \<notin> set ys"
    using dist by (simp add: last_notin)
  then have "dseg nd1 p2 h2 ys t e"
    using ys by (auto simp: nd1 frame_simps)
  then have 2: "dseg nd2 l h2 ys (if ys = [] then l else t) e"
    using dseg_set_entry [of nd1 p2 h2 ys t e l] dist by (auto simp: nd2)
  show ?thesis
    using 1 2 by (subst dseg_append) blast
qed

lemma dseg_splice:
  assumes xs: "dseg nd p h xs l (Some c)" and ys: "dseg nd l (Some c) (c # ys) t e"
    and dist: "distinct (xs @ n # c # ys)"
    and n: "qn_prev (nd1 n) = l" "qn_next (nd1 n) = Some c"
    and nd1: "\<And>x. x \<in> set (xs @ c # ys) \<Longrightarrow> nd1 x =
                ((if xs = [] then nd else nd(last xs := (nd (last xs))\<lparr>qn_next := Some n\<rparr>))
                   (c := (nd c)\<lparr>qn_prev := Some n\<rparr>)) x"
  shows "dseg nd1 p (if xs = [] then Some n else h) (xs @ n # c # ys) t e"
proof -
  let ?m = "if xs = [] then nd else nd(last xs := (nd (last xs))\<lparr>qn_next := Some n\<rparr>)"
  have "dseg ?m p (if xs = [] then Some n else h) xs l (Some n)"
    using dseg_set_exit [OF xs, of "Some n"] xs dist by auto
  moreover have "nd1 x = ?m x" if "x \<in> set xs" for x
    using nd1 [of x] that dist by (cases "x = c") auto
  ultimately have 1: "dseg nd1 p (if xs = [] then Some n else h) xs l (Some n)"
    by (subst dseg_cong [where nd = ?m]) simp_all
  have c: "nd1 c = (nd c)\<lparr>qn_prev := Some n\<rparr>" using nd1 [of c] by simp
  have "nd1 x = nd x" if "x \<in> set ys" for x
  proof -
    have "x \<noteq> c" and "xs \<noteq> [] \<Longrightarrow> x \<noteq> last xs"
      using that dist last_notin [of xs ys] by auto
    then show ?thesis using nd1 [of x] that by (auto split: if_splits)
  qed
  then have "dseg nd1 p' h' ys l' e' = dseg nd p' h' ys l' e'" for p' h' l' e'
    by (intro dseg_cong) simp
  then have 2: "dseg nd1 (Some n) (Some c) (c # ys) t e"
    using ys c by simp
  show ?thesis
    using 1 2 n by (auto simp: dseg_append)
qed

end
