(* ===== verification/Queue_Lists.thy ===== *)
theory Queue_Lists
  imports Queue
begin

text \<open>
  The contract of the queue module: a state of lists.  Each queue is the list of its
  (key, data) pairs, with its ordering and removal routines; the pool is the number of
  its free nodes.  The four operations below say what \<^verbatim>\<open>_q_append\<close>, \<^verbatim>\<open>_q_insert\<close>,
  \<^verbatim>\<open>_q_remove\<close> and \<^verbatim>\<open>_q_remove_by_key\<close> promise; the kernel components are built on them,
  and \<open>Queue_Refinement\<close> shows that the pointer code keeps the promise.  The locale
  \<open>queue_module\<close> is the interface, with the consequences a client relies on.
\<close>

section \<open>The list state and its operations\<close>

type_synonym qitem = "u32 \<times> nat"

record qlists =
  ql_items :: "nat \<Rightarrow> qitem list"
  ql_free :: nat
  ql_compare :: "nat \<Rightarrow> q_compare_t option"
  ql_remover :: "nat \<Rightarrow> q_remove_t option"

definition set_items :: "nat \<Rightarrow> qitem list \<Rightarrow> nat \<Rightarrow> qlists \<Rightarrow> qlists" where
  "set_items q xs f v = v\<lparr>ql_items := (ql_items v)(q := xs), ql_free := f\<rparr>"

text \<open>The position that \<^verbatim>\<open>_q_insert\<close> chooses: before the first item with a larger key.\<close>

fun key_le :: "q_compare_t \<Rightarrow> u32 \<Rightarrow> u32 \<Rightarrow> bool" where
  "key_le Compare_uint_asc k1 k2 \<longleftrightarrow> k1 \<le> k2"

fun insert_item :: "q_compare_t option \<Rightarrow> qitem \<Rightarrow> qitem list \<Rightarrow> qitem list" where
  "insert_item None x xs = xs @ [x]"
| "insert_item (Some c) x xs =
     takeWhile (\<lambda>y. key_le c (fst y) (fst x)) xs @ x # dropWhile (\<lambda>y. key_le c (fst y) (fst x)) xs"

text \<open>The first item whose key satisfies \<open>p\<close>, and the list without it.\<close>

fun extract_key :: "(u32 \<Rightarrow> bool) \<Rightarrow> qitem list \<Rightarrow> (nat \<times> qitem list) option" where
  "extract_key p [] = None"
| "extract_key p ((k, d) # xs) =
     (if p k then Some (d, xs)
      else map_option (\<lambda>(e, ys). (e, (k, d) # ys)) (extract_key p xs))"

definition lq_append :: "nat \<Rightarrow> nat \<Rightarrow> u32 \<Rightarrow> qlists \<Rightarrow> status_t \<times> qlists" where
  "lq_append q d k v =
     (if ql_free v = 0 then (E_NO_QNODES, v)
      else (E_SUCCESS, set_items q (ql_items v q @ [(k, d)]) (ql_free v - 1) v))"

definition lq_insert :: "nat \<Rightarrow> nat \<Rightarrow> u32 \<Rightarrow> qlists \<Rightarrow> status_t \<times> qlists" where
  "lq_insert q d k v =
     (if ql_free v = 0 then (E_NO_QNODES, v)
      else (E_SUCCESS,
            set_items q (insert_item (ql_compare v q) (k, d) (ql_items v q)) (ql_free v - 1) v))"

definition lq_remove :: "nat \<Rightarrow> qlists \<Rightarrow> status_t \<times> nat option \<times> qlists" where
  "lq_remove q v =
     (case ql_items v q of
        [] \<Rightarrow> (E_EMPTY, None, v)
      | (k, d) # xs \<Rightarrow> (E_SUCCESS, Some d, set_items q xs (ql_free v + 1) v))"

definition lq_remove_by_key :: "nat \<Rightarrow> u32 \<Rightarrow> qlists \<Rightarrow> status_t \<times> nat option \<times> qlists" where
  "lq_remove_by_key q key v =
     (if ql_items v q = [] then (E_EMPTY, None, v)
      else case ql_remover v q of
        None \<Rightarrow> lq_remove q v
      | Some r \<Rightarrow>
          (case extract_key (\<lambda>k. call_remove r k key) (ql_items v q) of
             None \<Rightarrow> (E_NOT_FOUND, None, v)
           | Some (d, xs) \<Rightarrow> (E_SUCCESS, Some d, set_items q xs (ql_free v + 1) v)))"

definition lq_reset :: "nat \<Rightarrow> q_compare_t option \<Rightarrow> q_remove_t option \<Rightarrow> qlists \<Rightarrow> qlists" where
  "lq_reset q c r v =
     v\<lparr>ql_items := (ql_items v)(q := []), ql_compare := (ql_compare v)(q := c),
       ql_remover := (ql_remover v)(q := r)\<rparr>"

section \<open>Lemmas on the list operations\<close>

lemma set_items_simps [simp]:
  "ql_items (set_items q xs f v) = (ql_items v)(q := xs)"
  "ql_free (set_items q xs f v) = f"
  "ql_compare (set_items q xs f v) = ql_compare v"
  "ql_remover (set_items q xs f v) = ql_remover v"
  by (simp_all add: set_items_def)

lemma insert_item_Nil [simp]: "insert_item c x [] = [x]"
  by (cases c) auto

lemma insert_item_Cons [simp]:
  "insert_item (Some c) x (y # ys) =
     (if key_le c (fst y) (fst x) then y # insert_item (Some c) x ys else x # y # ys)"
  by simp

declare insert_item.simps(2) [simp del]

lemma insert_item_mset [simp]: "mset (insert_item c x xs) = add_mset x (mset xs)"
proof (cases c)
  case (Some r)
  then show ?thesis by (induction xs) auto
qed simp

lemma insert_item_set [simp]: "set (insert_item c x xs) = insert x (set xs)"
  by (metis insert_item_mset set_mset_add_mset_insert set_mset_mset)

lemma insert_item_sorted:
  "sorted (map fst xs) \<Longrightarrow> sorted (map fst (insert_item (Some Compare_uint_asc) x xs))"
  by (induction xs) auto

text \<open>Equal keys keep their order of arrival: the new item is the last with its key.\<close>

lemma insert_item_stable:
  assumes "sorted (map fst xs)"
  shows "filter (\<lambda>y. fst y = k) (insert_item (Some Compare_uint_asc) (k, d) xs) =
           filter (\<lambda>y. fst y = k) xs @ [(k, d)]"
  using assms
proof (induction xs)
  case (Cons y ys)
  show ?case
  proof (cases "fst y \<le> k")
    case False
    then have "\<forall>z \<in> set (y # ys). fst z \<noteq> k" using Cons.prems by auto
    then have "filter (\<lambda>z. fst z = k) (y # ys) = []" by (simp add: filter_empty_conv)
    with False show ?thesis by auto
  qed (use Cons in auto)
qed simp

lemma extract_key_mset:
  "extract_key p xs = Some (d, ys) \<Longrightarrow> \<exists>k. p k \<and> mset xs = add_mset (k, d) (mset ys)"
proof (induction xs arbitrary: ys)
  case (Cons x xs)
  then show ?case by (cases x) (auto split: if_splits)
qed simp

lemma extract_key_sublist:
  "extract_key p xs = Some (d, ys) \<Longrightarrow>
   \<exists>as k bs. xs = as @ (k, d) # bs \<and> ys = as @ bs \<and> p k \<and> (\<forall>a \<in> set as. \<not> p (fst a))"
proof (induction xs arbitrary: ys)
  case (Cons x xs)
  obtain k' d' where x: "x = (k', d')" by (cases x)
  show ?case
  proof (cases "p k'")
    case True
    then show ?thesis using Cons.prems by (auto simp: x intro!: exI [of _ "[]"])
  next
    case False
    then obtain zs where "extract_key p xs = Some (d, zs)" and ys: "ys = x # zs"
      using Cons.prems by (auto simp: x)
    from Cons.IH [OF this(1)] obtain as k bs
      where "xs = as @ (k, d) # bs" "zs = as @ bs" "p k" "\<forall>a \<in> set as. \<not> p (fst a)" by blast
    then show ?thesis using False by (intro exI [of _ "x # as"]) (auto simp: x ys)
  qed
qed simp

lemma extract_key_None: "extract_key p xs = None \<longleftrightarrow> (\<forall>x \<in> set xs. \<not> p (fst x))"
  by (induction p xs rule: extract_key.induct) auto

lemma extract_key_Some_iff: "(\<exists>d ys. extract_key p xs = Some (d, ys)) \<longleftrightarrow> (\<exists>x \<in> set xs. p (fst x))"
  using extract_key_None [of p xs] by (cases "extract_key p xs") auto

end
