(* ===== verification/Queue_Refinement.thy ===== *)
theory Queue_Refinement
  imports Queue_Heap Queue_Lists
begin

text \<open>
  The pointer code of \<^verbatim>\<open>queue.c\<close> implements the list contract of \<open>Queue_Lists\<close>:
  under the representation invariant each operation returns, with the status and the
  data the contract gives, a state that represents the contract's new lists.
\<close>

section \<open>The lists that a memory represents\<close>

definition item :: "(nat \<Rightarrow> qnode) \<Rightarrow> nat \<Rightarrow> qitem" where
  "item nd x = (qn_key (nd x), qn_data (nd x))"

definition q_view :: "qsys \<Rightarrow> qlists" where
  "q_view s =
     \<lparr>ql_items = (\<lambda>q. map (item (qnodes s)) (walk N_QNODES (qnodes s) (q_head (queues s q)))),
      ql_free = length (walk N_QNODES (qnodes s) (qnode_avail s)),
      ql_compare = (\<lambda>q. q_compare (queues s q)),
      ql_remover = (\<lambda>q. q_remover (queues s q))\<rparr>"

definition q_wf :: "qsys \<Rightarrow> bool" where
  "q_wf s \<longleftrightarrow> (\<exists>A F. q_rep s A F)"

lemma queue_rep_sseg: "queue_rep nd u xs \<Longrightarrow> sseg nd (q_head u) xs"
  by (auto simp: queue_rep_def dest: dseg_sseg)

lemma q_view_rep:
  assumes "q_rep s A F"
  shows "q_view s =
     \<lparr>ql_items = (\<lambda>q. map (item (qnodes s)) (A q)), ql_free = length F,
      ql_compare = (\<lambda>q. q_compare (queues s q)), ql_remover = (\<lambda>q. q_remover (queues s q))\<rparr>"
proof -
  have "walk N_QNODES (qnodes s) (q_head (queues s q)) = A q" for q
    using q_repD(1) [OF assms, of q] by (intro walk_sseg queue_rep_sseg queue_rep_length)
  moreover have "walk N_QNODES (qnodes s) (qnode_avail s) = F"
    using q_repD(4-6) [OF assms] by (intro walk_sseg distinct_bounded_length)
  ultimately show ?thesis by (simp add: q_view_def)
qed

lemma q_rep_q_wf [intro]: "q_rep s A F \<Longrightarrow> q_wf s"
  by (auto simp: q_wf_def)

text \<open>Link updates keep what a node holds and the routines of the queues.\<close>

definition payload_eq :: "qsys \<Rightarrow> qsys \<Rightarrow> bool" where
  "payload_eq s s' \<longleftrightarrow>
     (\<forall>x. qn_key (qnodes s' x) = qn_key (qnodes s x) \<and> qn_data (qnodes s' x) = qn_data (qnodes s x)) \<and>
     (\<forall>q. q_compare (queues s' q) = q_compare (queues s q) \<and>
          q_remover (queues s' q) = q_remover (queues s q))"

lemma payload_eq_item: "payload_eq s s' \<Longrightarrow> item (qnodes s') = item (qnodes s)"
  by (auto simp: payload_eq_def item_def)

lemma payload_eq_trans [trans]: "payload_eq s s' \<Longrightarrow> payload_eq s' s'' \<Longrightarrow> payload_eq s s''"
  by (simp add: payload_eq_def)

section \<open>The free list\<close>

lemma qnode_alloc_empty: "q_rep s A [] \<Longrightarrow> qnode_alloc True s = (E_NO_QNODES, None, s)"
  by (simp add: qnode_alloc_def q_rep_def)

lemma qnode_alloc_rep:
  assumes "q_rep s A (n # F)"
  obtains s' where "qnode_alloc True s = (E_SUCCESS, Some n, s')" and "q_rep s' A F"
    and "detached n A F" and "payload_eq s s'" and "queues s' = queues s"
proof -
  let ?s = "s\<lparr>qnode_avail := qn_next (qnodes s n)\<rparr>"
  have "qnode_avail s = Some n" using q_repD(4) [OF assms] by simp
  then have "qnode_alloc True s = (E_SUCCESS, Some n, ?s)" by (simp add: qnode_alloc_def)
  moreover have "q_rep ?s A F" using assms by (auto simp: q_rep_def)
  moreover have "detached n A F" using assms by (auto simp: q_rep_def detached_def)
  ultimately show ?thesis by (intro that [of ?s]) (auto simp: payload_eq_def)
qed

lemma qnode_free_rep:
  assumes rep: "q_rep s A F" and n: "detached n A F"
  obtains s' where "qnode_free (Some n) s = (E_SUCCESS, s')" and "q_rep s' A (n # F)"
    and "payload_eq s s'" and "qn_data (qnodes s' n) = qn_data (qnodes s n)"
proof -
  let ?s = "(upd_node n (qn_next_update (\<lambda>_. qnode_avail s)) s)\<lparr>qnode_avail := Some n\<rparr>"
  have "q_rep ?s A (n # F)"
    using rep n by (auto simp: q_rep_def detached_def frame_simps)
  then show ?thesis
    by (intro that [of ?s]) (auto simp: qnode_free_def payload_eq_def)
qed

section \<open>Removing the first node\<close>

lemma q_unlink_head_simps:
  "qn_next (qnodes s n) = None \<Longrightarrow> q_unlink_head q n s =
     s\<lparr>queues := (queues s)(q := (queues s q)\<lparr>q_length := q_length (queues s q) - 1,
         q_head := None, q_tail := None\<rparr>)\<rparr>"
  "qn_next (qnodes s n) = Some h \<Longrightarrow> q_unlink_head q n s =
     upd_node h (qn_prev_update (\<lambda>_. None))
       (s\<lparr>queues := (queues s)(q := (queues s q)\<lparr>q_length := q_length (queues s q) - 1,
         q_head := Some h\<rparr>)\<rparr>)"
  by (simp_all add: q_unlink_head_def Let_def)

lemma q_unlink_head_rep:
  assumes rep: "q_rep s A F" and q: "A q = n # ys"
  shows "q_rep (q_unlink_head q n s) (A(q := ys)) F" and "payload_eq s (q_unlink_head q n s)"
proof -
  note R = q_repD(1) [OF rep, of q, unfolded q]
  let ?t = "q_unlink_head q n s"
  from R have seg: "dseg (qnodes s) (Some n) (qn_next (qnodes s n)) ys (q_tail (queues s q)) None"
    and len: "q_length (queues s q) - 1 = of_nat (length ys)"
    and dist: "n \<notin> set ys" "distinct ys" "n < N_QNODES" "set ys \<subseteq> {..<N_QNODES}"
    by (auto simp: queue_rep_def)
  have nx: "qn_next (qnodes s n) = (if ys = [] then None else Some (hd ys))"
    using dseg_hd_eq [OF seg] by simp
  note eqs = q_unlink_head_simps
  have R': "queue_rep (qnodes ?t) (queues ?t q) ys"
  proof (cases "ys = []")
    case True
    then show ?thesis using len nx by (simp add: eqs queue_rep_def)
  next
    case False
    then show ?thesis
      using seg len dist nx dseg_set_entry [OF seg, of None] by (simp add: eqs queue_rep_def)
  qed
  show "payload_eq s ?t"
    using nx by (cases "ys = []") (auto simp: eqs payload_eq_def)
  show "q_rep ?t (A(q := ys)) F"
  proof (rule q_rep_change_queue [OF rep R', where n = n])
    fix x
    assume "x \<notin> set (A q)"
    then have "ys \<noteq> [] \<Longrightarrow> x \<noteq> hd ys" by (auto simp: q)
    then show "qnodes ?t x = qnodes s x"
      using nx by (cases "ys = []") (simp_all add: eqs)
  next
    show "n \<notin> set F" using q_repD(2) [OF rep, of q] by (simp add: q)
    show "set ys \<subseteq> insert n (set (A q))" by (auto simp: q)
  next
    fix r
    assume "r \<noteq> q"
    then show "n \<notin> set (A r)" using q_repD(3) [OF rep, of q r] by (auto simp: q)
    show "queues ?t r = queues s r"
      using nx \<open>r \<noteq> q\<close> by (cases "ys = []") (simp_all add: eqs)
  next
    show "qnode_avail ?t = qnode_avail s"
      using nx by (cases "ys = []") (simp_all add: eqs)
  qed
qed

lemma detached_removed:
  assumes rep: "q_rep s A F" and q: "n \<in> set (A q)" and "n \<notin> set xs"
  shows "detached n (A(q := xs)) F"
proof -
  have "n \<notin> set (A r)" if "r \<noteq> q" for r
    using q_repD(3) [OF rep, of q r] that q by auto
  then show ?thesis
    using q_repD(1) [OF rep, of q] q_repD(2) [OF rep, of q] assms
    by (auto simp: detached_def queue_rep_def)
qed

lemma q_remove_rep:
  assumes rep: "q_rep s A F" and q: "A q = n # ys"
  shows "\<exists>s'. q_remove (Some q) True s = Inr (E_SUCCESS, Some (qn_data (qnodes s n)), s') \<and>
           q_rep s' (A(q := ys)) (n # F) \<and> payload_eq s s'"
proof -
  note R = q_repD(1) [OF rep, of q, unfolded q] and U = q_unlink_head_rep [OF rep q]
  have ne: "\<not> q_empty (queues s q)" and hd: "q_head (queues s q) = Some n"
    using queue_rep_empty [OF R] R by (simp_all add: queue_rep_def)
  have "detached n (A(q := ys)) F"
    using R by (intro detached_removed [OF rep]) (auto simp: q queue_rep_def)
  then obtain s' where s': "qnode_free (Some n) (q_unlink_head q n s) = (E_SUCCESS, s')"
    "q_rep s' (A(q := ys)) (n # F)" "payload_eq (q_unlink_head q n s) s'"
    by (rule qnode_free_rep [OF U(1)])
  have "q_remove (Some q) True s = Inr (E_SUCCESS, Some (qn_data (qnodes s n)), s')"
    using s'(1) U(2) by (simp add: q_remove_def ne hd payload_eq_def)
  then show ?thesis
    using s' payload_eq_trans [OF U(2)] by blast
qed

section \<open>Removing any node\<close>

lemma q_unlink_simps:
  assumes "qn_prev (qnodes s n) = (if xs = [] then None else Some (last xs))"
    and "qn_next (qnodes s n) = (if ys = [] then None else Some (hd ys))"
    and "n \<notin> set xs" and "n \<notin> set ys"
  shows "qnodes (q_unlink q n s) =
           (let nd1 = (if xs = [] then qnodes s
                       else (qnodes s)(last xs := (qnodes s (last xs))\<lparr>qn_next := qn_next (qnodes s n)\<rparr>))
            in if ys = [] then nd1
               else nd1(hd ys := (nd1 (hd ys))\<lparr>qn_prev := qn_prev (qnodes s n)\<rparr>))"
    and "queues (q_unlink q n s) =
           (queues s)(q := (queues s q)\<lparr>q_length := q_length (queues s q) - 1,
              q_head := (if xs = [] then qn_next (qnodes s n) else q_head (queues s q)),
              q_tail := (if ys = [] then qn_prev (qnodes s n) else q_tail (queues s q))\<rparr>)"
    and "qnode_avail (q_unlink q n s) = qnode_avail s"
  using assms last_in_set [of xs] by (auto simp: q_unlink_def Let_def fun_eq_iff)

lemma q_unlink_rep:
  assumes rep: "q_rep s A F" and q: "A q = xs @ n # ys"
  shows "q_rep (q_unlink q n s) (A(q := xs @ ys)) F" and "payload_eq s (q_unlink q n s)"
proof -
  note R = q_repD(1) [OF rep, of q, unfolded q]
  let ?t = "q_unlink q n s" and ?nd = "qnodes s"
  from R obtain l where xs: "dseg ?nd None (q_head (queues s q)) xs l (Some n)"
    and l: "qn_prev (?nd n) = l"
    and ys: "dseg ?nd (Some n) (qn_next (?nd n)) ys (q_tail (queues s q)) None"
    by (auto simp: queue_rep_def dseg_append)
  from R have len: "q_length (queues s q) - 1 = of_nat (length (xs @ ys))"
    and dist: "distinct (xs @ ys)" "n \<notin> set xs" "n \<notin> set ys" "set (xs @ ys) \<subseteq> {..<N_QNODES}"
    by (auto simp: queue_rep_def)
  have pv: "qn_prev (?nd n) = (if xs = [] then None else Some (last xs))"
    using dseg_last_eq [OF xs] l by simp
  have nx: "qn_next (?nd n) = (if ys = [] then None else Some (hd ys))"
    using dseg_hd_eq [OF ys] by simp
  note eqs = q_unlink_simps [OF pv nx dist(2,3)]
  have R': "queue_rep (qnodes ?t) (queues ?t q) (xs @ ys)"
  proof -
    have "xs \<noteq> [] \<Longrightarrow> ys \<noteq> [] \<Longrightarrow> hd ys \<noteq> last xs"
      using dist(1) by (metis distinct_append hd_in_set last_notin)
    then have "dseg (qnodes ?t) None (q_head (queues ?t q)) (xs @ ys) (q_tail (queues ?t q)) None"
      using dseg_bypass [OF xs ys dist(1) refl refl] l
      by (cases "xs = []"; cases "ys = []") (simp_all add: eqs Let_def)
    then show ?thesis
      using dist len by (simp add: queue_rep_def eqs)
  qed
  show "payload_eq s ?t"
    by (auto simp: payload_eq_def eqs Let_def)
  show "q_rep ?t (A(q := xs @ ys)) F"
  proof (rule q_rep_change_queue [OF rep R', where n = n])
    fix x
    assume "x \<notin> set (A q)"
    then have "xs \<noteq> [] \<Longrightarrow> x \<noteq> last xs" and "ys \<noteq> [] \<Longrightarrow> x \<noteq> hd ys" by (auto simp: q)
    then show "qnodes ?t x = qnodes s x" by (simp add: eqs Let_def)
  qed (use q_repD(2) [OF rep, of q] q_repD(3) [OF rep, of q] in \<open>auto simp: q eqs\<close>)
qed

lemma q_remove_at_rep:
  assumes rep: "q_rep s A F" and q: "A q = xs @ n # ys"
  shows "\<exists>s'. qnode_free (Some n) (q_unlink q n s) = (E_SUCCESS, s') \<and>
           q_rep s' (A(q := xs @ ys)) (n # F) \<and> payload_eq s s'"
proof -
  note U = q_unlink_rep [OF rep q]
  have "detached n (A(q := xs @ ys)) F"
    using q_repD(1) [OF rep, of q] by (intro detached_removed [OF rep]) (auto simp: q queue_rep_def)
  then obtain s' where "qnode_free (Some n) (q_unlink q n s) = (E_SUCCESS, s')"
    "q_rep s' (A(q := xs @ ys)) (n # F)" "payload_eq (q_unlink q n s) s'"
    by (rule qnode_free_rep [OF U(1)])
  then show ?thesis
    using payload_eq_trans [OF U(2)] by blast
qed

section \<open>Adding a detached node\<close>

lemma q_rep_upd_payload:
  assumes "q_rep s A F" and "detached n A F"
  shows "q_rep (upd_node n f s) A F"
  using q_rep_detached_upd [OF assms] .

lemma q_link_last_rep:
  assumes rep: "q_rep s A F" and n: "detached n A F" and ne: "A q \<noteq> []"
    and nx: "qn_next (qnodes s n) = None"
  shows "\<exists>s'. q_link_last q n s = Inr (E_SUCCESS, s') \<and> q_rep s' (A(q := A q @ [n])) F \<and>
           payload_eq s s'"
proof -
  note R = q_repD(1) [OF rep, of q]
  let ?z = "last (A q)"
  let ?t = "s\<lparr>qnodes := (qnodes s)(?z := (qnodes s ?z)\<lparr>qn_next := Some n\<rparr>,
                n := (qnodes s n)\<lparr>qn_prev := Some ?z\<rparr>),
              queues := (queues s)(q := (queues s q)\<lparr>q_tail := Some n,
                q_length := q_length (queues s q) + 1\<rparr>)\<rparr>"
  from R have seg: "dseg (qnodes s) None (q_head (queues s q)) (A q) (q_tail (queues s q)) None"
    and d: "distinct (A q)" by (auto simp: queue_rep_def)
  have tl: "q_tail (queues s q) = Some ?z" using dseg_last [OF seg ne] by simp
  have nz: "n \<noteq> ?z" using n last_in_set [OF ne] by (auto simp: detached_def)
  have "q_link_last q n s = Inr (E_SUCCESS, ?t)"
    using nz by (simp add: q_link_last_def tl Let_def fun_upd_twist)
  moreover have R': "queue_rep (qnodes ?t) (queues ?t q) (A q @ [n])"
    using R n ne nz nx dseg_set_exit [OF seg d ne, of "Some n"] tl
    by (auto simp: queue_rep_def dseg_snoc detached_def frame_simps)
  have "q_rep ?t (A(q := A q @ [n])) F"
    by (rule q_rep_change_queue [OF rep R', where n = n]) (use n ne in \<open>auto simp: detached_def\<close>)
  moreover have "payload_eq s ?t" by (auto simp: payload_eq_def)
  ultimately show ?thesis by blast
qed

lemma q_link_single_rep:
  assumes rep: "q_rep s A F" and n: "detached n A F" and e: "A q = []"
    and nx: "qn_next (qnodes s n) = None" "qn_prev (qnodes s n) = None"
  shows "q_rep (upd_queue q (\<lambda>u. u\<lparr>q_head := Some n, q_tail := Some n, q_length := 1\<rparr>) s) (A(q := [n])) F"
    (is "q_rep ?t _ _")
proof (rule q_rep_change_queue [OF rep, where n = n])
  show "queue_rep (qnodes ?t) (queues ?t q) [n]"
    using n nx by (simp add: queue_rep_def detached_def)
qed (use n e in \<open>auto simp: detached_def\<close>)

lemma q_link_before_simps:
  assumes "qn_prev (qnodes s c) = (if xs = [] then None else Some (last xs))" and "c \<noteq> n"
    and "c \<notin> set xs" and "n \<notin> set xs" and "qn_prev (qnodes s n) = None"
  shows "q_link_before q n c s =
     (E_SUCCESS,
      s\<lparr>qnodes := (if xs = [] then qnodes s
                   else (qnodes s)(last xs := (qnodes s (last xs))\<lparr>qn_next := Some n\<rparr>))
                  (n := (qnodes s n)\<lparr>qn_next := Some c, qn_prev := qn_prev (qnodes s c)\<rparr>,
                   c := (qnodes s c)\<lparr>qn_prev := Some n\<rparr>),
        queues := (queues s)(q := (queues s q)\<lparr>
                  q_head := (if xs = [] then Some n else q_head (queues s q)),
                  q_length := q_length (queues s q) + 1\<rparr>)\<rparr>)"
proof (cases "xs = []")
  case True
  then show ?thesis using assms by (auto simp: q_link_before_def Let_def fun_eq_iff)
next
  case False
  then have "last xs \<noteq> c" and "last xs \<noteq> n" using assms last_in_set [of xs] by auto
  with False show ?thesis using assms by (auto simp: q_link_before_def Let_def fun_eq_iff)
qed

lemma q_link_before_rep:
  assumes rep: "q_rep s A F" and n: "detached n A F" and q: "A q = xs @ c # ys"
    and pv: "qn_prev (qnodes s n) = None"
  shows "\<exists>s'. q_link_before q n c s = (E_SUCCESS, s') \<and> q_rep s' (A(q := xs @ n # c # ys)) F \<and>
           payload_eq s s'"
proof -
  note R = q_repD(1) [OF rep, of q, unfolded q]
  let ?nd = "qnodes s" and ?t = "snd (q_link_before q n c s)"
  from R obtain l where xs: "dseg ?nd None (q_head (queues s q)) xs l (Some c)"
    and l: "qn_prev (?nd c) = l"
    and ys: "dseg ?nd l (Some c) (c # ys) (q_tail (queues s q)) None"
    by (auto simp: queue_rep_def dseg_append)
  have dist: "distinct (xs @ n # c # ys)" and sub: "set (xs @ n # c # ys) \<subseteq> {..<N_QNODES}"
    using R n by (auto simp: queue_rep_def detached_def q dest!: spec [of _ q])
  have pvc: "qn_prev (?nd c) = (if xs = [] then None else Some (last xs))"
    using dseg_last_eq [OF xs] l by simp
  have eqs: "q_link_before q n c s = (E_SUCCESS, ?t)"
    "qnodes ?t = (if xs = [] then ?nd else ?nd(last xs := (?nd (last xs))\<lparr>qn_next := Some n\<rparr>))
                  (n := (?nd n)\<lparr>qn_next := Some c, qn_prev := l\<rparr>, c := (?nd c)\<lparr>qn_prev := Some n\<rparr>)"
    "queues ?t = (queues s)(q := (queues s q)\<lparr>
                  q_head := (if xs = [] then Some n else q_head (queues s q)),
                  q_length := q_length (queues s q) + 1\<rparr>)"
    "qnode_avail ?t = qnode_avail s"
    using q_link_before_simps [OF pvc, of n q] dist pv l by auto
  have "dseg (qnodes ?t) None (if xs = [] then Some n else q_head (queues s q)) (xs @ n # c # ys)
          (q_tail (queues s q)) None"
  proof (rule dseg_splice [OF xs ys dist])
    show "qn_prev (qnodes ?t n) = l" and "qn_next (qnodes ?t n) = Some c"
      using dist by (simp_all add: eqs(2))
  next
    fix x
    assume "x \<in> set (xs @ c # ys)"
    then have "x \<noteq> n" using dist by auto
    then show "qnodes ?t x = ((if xs = [] then ?nd
        else ?nd(last xs := (?nd (last xs))\<lparr>qn_next := Some n\<rparr>))(c := (?nd c)\<lparr>qn_prev := Some n\<rparr>)) x"
      by (simp add: eqs(2))
  qed
  then have R': "queue_rep (qnodes ?t) (queues ?t q) (xs @ n # c # ys)"
    using R dist sub by (auto simp: queue_rep_def eqs(3))
  have "q_rep ?t (A(q := xs @ n # c # ys)) F"
  proof (rule q_rep_change_queue [OF rep R', where n = n])
    fix x
    assume "x \<notin> set (A q)" and "x \<noteq> n"
    then have "x \<noteq> c" and "xs \<noteq> [] \<Longrightarrow> x \<noteq> last xs" by (auto simp: q)
    then show "qnodes ?t x = ?nd x" using \<open>x \<noteq> n\<close> by (simp add: eqs(2))
  qed (use n q in \<open>auto simp: detached_def eqs(3,4)\<close>)
  moreover have "payload_eq s ?t" by (auto simp: payload_eq_def eqs(2,3))
  ultimately show ?thesis using eqs(1) by blast
qed

section \<open>The operations implement their contracts\<close>

lemma view_step:
  assumes "q_rep s A F" and "q_rep s' (A(q := xs)) F'" and "payload_eq s s'"
  shows "q_view s' = set_items q (map (item (qnodes s)) xs) (length F') (q_view s)"
  using assms(3) payload_eq_item [OF assms(3)]
  by (auto simp: q_view_rep [OF assms(1)] q_view_rep [OF assms(2)] set_items_def payload_eq_def)

lemma view_items: "q_rep s A F \<Longrightarrow> ql_items (q_view s) q = map (item (qnodes s)) (A q)"
  by (simp add: q_view_rep)

lemma view_free: "q_rep s A F \<Longrightarrow> ql_free (q_view s) = length F"
  by (simp add: q_view_rep)

lemma view_routines [simp]:
  "ql_compare (q_view s) q = q_compare (queues s q)"
  "ql_remover (q_view s) q = q_remover (queues s q)"
  by (simp_all add: q_view_def)

lemma alloc_write:
  assumes rep: "q_rep s A (n # F)"
  obtains s0 where "qnode_alloc True s = (E_SUCCESS, Some n, s0)"
    and "q_rep (upd_node n f s0) A F" and "detached n A F" and "queues s0 = queues s"
    and "q_view (upd_node n f s0) = (q_view s)\<lparr>ql_free := length F\<rparr>"
proof -
  obtain s0 where s0: "qnode_alloc True s = (E_SUCCESS, Some n, s0)" "q_rep s0 A F"
    "detached n A F" "payload_eq s s0" "queues s0 = queues s"
    by (rule qnode_alloc_rep [OF rep])
  let ?t = "upd_node n f s0"
  have rep': "q_rep ?t A F" using s0(2,3) by (rule q_rep_detached_upd)
  have same: "item (qnodes ?t) x = item (qnodes s) x" if "x \<noteq> n" for x
    using that payload_eq_item [OF s0(4)] by (simp add: item_def fun_eq_iff)
  have "(\<lambda>q. map (item (qnodes ?t)) (A q)) = (\<lambda>q. map (item (qnodes s)) (A q))"
  proof (intro ext map_cong [OF refl])
    fix q x
    assume "x \<in> set (A q)"
    then have "x \<noteq> n" using s0(3) by (auto simp: detached_def)
    then show "item (qnodes ?t) x = item (qnodes s) x" by (rule same)
  qed
  then have "q_view ?t = (q_view s)\<lparr>ql_free := length F\<rparr>"
    by (simp only: q_view_rep [OF rep'] q_view_rep [OF rep] s0(5)) (simp add: s0(5))
  then show ?thesis using that s0 rep' by blast
qed

lemma view_add:
  assumes rep: "q_rep s A (n # F)" and n: "detached n A F"
    and s1: "q_rep s1 A F" "q_view s1 = (q_view s)\<lparr>ql_free := length F\<rparr>"
    and s': "q_rep s' (A(q := xs)) F" "payload_eq s1 s'"
  shows "q_view s' = set_items q (map (item (qnodes s1)) xs) (ql_free (q_view s) - 1) (q_view s)"
  using view_step [OF s1(1) s'] s1(2) view_free [OF rep] by (simp add: set_items_def)

text \<open>\<^verbatim>\<open>_q_append\<close>: the item goes to the end; the pool loses a node or is empty.\<close>

lemma q_append_linked:
  assumes rep: "q_rep s A F" and n: "detached n A F"
  shows "\<exists>s'. q_append_link q n s = Inr (E_SUCCESS, s') \<and> q_rep s' (A(q := A q @ [n])) F \<and> payload_eq s s'"
proof (cases "A q = []")
  case True
  note R = q_repD(1) [OF rep, of q, unfolded True]
  let ?s = "upd_node n (\<lambda>x. x\<lparr>qn_next := None, qn_prev := None\<rparr>) s"
  let ?t = "upd_queue q (\<lambda>u. u\<lparr>q_head := Some n, q_tail := Some n, q_length := 1\<rparr>) ?s"
  have E: "q_empty (queues s q)" "q_tail (queues s q) = None" "q_length (queues s q) = 0"
    using queue_rep_empty [OF R] R by (simp_all add: queue_rep_def)
  have "q_rep ?t (A(q := [n])) F"
    using q_link_single_rep [OF q_rep_detached_upd [OF rep n, of "\<lambda>x. x\<lparr>qn_next := None, qn_prev := None\<rparr>"]
      n True] by simp
  moreover have "payload_eq s ?t" by (simp add: payload_eq_def)
  ultimately show ?thesis by (intro exI [of _ ?t]) (simp add: q_append_link_def E True Let_def)
next
  case False
  note R = q_repD(1) [OF rep, of q]
  let ?z = "last (A q)"
  let ?s = "upd_node n (qn_next_update (\<lambda>_. None)) s"
  have tl: "q_tail (queues s q) = Some ?z"
    using R dseg_last [of "qnodes s" None _ "A q"] False by (auto simp: queue_rep_def)
  have ne: "\<not> q_empty (queues s q)" using queue_rep_empty [OF R] False by simp
  have nz: "n \<noteq> ?z" using n last_in_set [OF False] by (auto simp: detached_def)
  obtain s' where s': "q_link_last q n ?s = Inr (E_SUCCESS, s')" "q_rep s' (A(q := A q @ [n])) F"
    "payload_eq ?s s'"
    using q_link_last_rep [OF q_rep_detached_upd [OF rep n] n False, of "qn_next_update (\<lambda>_. None)"]
    by auto
  have "payload_eq s s'" using s'(3) by (auto simp: payload_eq_def split: if_splits)
  moreover have "s' = s\<lparr>qnodes := (qnodes s)(?z := (qnodes s ?z)\<lparr>qn_next := Some n\<rparr>,
                n := (qnodes s n)\<lparr>qn_next := None, qn_prev := Some ?z\<rparr>),
              queues := (queues s)(q := (queues s q)\<lparr>q_tail := Some n,
                q_length := q_length (queues s q) + 1\<rparr>)\<rparr>"
    using s'(1) nz by (auto simp: q_link_last_def tl Let_def fun_upd_twist)
  ultimately show ?thesis
    using s'(2) nz by (intro exI [of _ s']) (simp add: q_append_link_def ne tl Let_def fun_upd_twist)
qed


lemma q_append_refines:
  assumes "q_wf s"
  shows "\<exists>st s'. q_append (Some q) d k s = Inr (st, s') \<and> q_wf s' \<and>
           lq_append q d k (q_view s) = (st, q_view s')"
proof -
  obtain A F where rep: "q_rep s A F" using assms by (auto simp: q_wf_def)
  show ?thesis
  proof (cases F)
    case Nil
    then show ?thesis
      using rep assms view_free [OF rep] qnode_alloc_empty [of s A]
      by (simp add: q_append_def lq_append_def)
  next
    case (Cons n F')
    define s1 where "s1 = (\<lambda>s0. upd_node n (\<lambda>nd. nd\<lparr>qn_key := k, qn_data := d\<rparr>) s0)"
    obtain s0 where s0: "qnode_alloc True s = (E_SUCCESS, Some n, s0)" "q_rep (s1 s0) A F'"
      "detached n A F'" "queues s0 = queues s" "q_view (s1 s0) = (q_view s)\<lparr>ql_free := length F'\<rparr>"
      unfolding s1_def by (rule alloc_write [OF rep [unfolded Cons]])
    obtain s' where s': "q_append (Some q) d k s = Inr (E_SUCCESS, s')"
      "q_rep s' (A(q := A q @ [n])) F'" "payload_eq (s1 s0) s'"
      using q_append_linked [OF s0(2,3), of q]
      by (auto simp: q_append_def s0(1) s1_def)
    have "item (qnodes (s1 s0)) n = (k, d)" by (simp add: s1_def item_def)
    moreover have "map (item (qnodes (s1 s0))) (A q) = ql_items (q_view s) q"
      using view_items [OF s0(2), of q] s0(5) by simp
    ultimately have "q_view s' =
        set_items q (ql_items (q_view s) q @ [(k, d)]) (ql_free (q_view s) - 1) (q_view s)"
      using view_add [OF rep [unfolded Cons] s0(3,2,5) s'(2,3)] by simp
    then show ?thesis
      using s' view_free [OF rep] by (auto simp: lq_append_def Cons)
  qed
qed

text \<open>\<^verbatim>\<open>_q_insert\<close>: the walk stops where the contract inserts.\<close>

lemma call_compare_le:
  "call_compare c x y \<le> 0 \<longleftrightarrow> key_le c (qn_key x) (qn_key y)"
  by (cases c) (auto simp: compare_uint_asc_def)


lemma find_insert_rep:
  assumes rep: "q_rep s A F" and n: "detached n A F"
  shows "find_insert N_QNODES (qnodes s) c n (q_head (queues s q)) =
     Inr (case dropWhile (\<lambda>x. key_le c (qn_key (qnodes s x)) (qn_key (qnodes s n))) (A q) of
            [] \<Rightarrow> None | y # _ \<Rightarrow> Some y)"
proof -
  note R = q_repD(1) [OF rep, of q]
  show ?thesis
    using find_insert_sseg [OF queue_rep_sseg [OF R] queue_rep_length [OF R], of c n]
    by (simp add: call_compare_le)
qed

lemma insert_item_map:
  "insert_item (Some c) (item nd n) (map (item nd) xs) =
     map (item nd) (takeWhile (\<lambda>x. key_le c (qn_key (nd x)) (qn_key (nd n))) xs @ n #
                    dropWhile (\<lambda>x. key_le c (qn_key (nd x)) (qn_key (nd n))) xs)"
  by (induction xs) (auto simp: item_def)

definition insert_pos :: "qsys \<Rightarrow> nat \<Rightarrow> nat \<Rightarrow> nat list \<Rightarrow> nat list" where
  "insert_pos s q n xs =
     (case q_compare (queues s q) of
        None \<Rightarrow> xs @ [n]
      | Some c \<Rightarrow>
          takeWhile (\<lambda>x. key_le c (qn_key (qnodes s x)) (qn_key (qnodes s n))) xs @ n #
          dropWhile (\<lambda>x. key_le c (qn_key (qnodes s x)) (qn_key (qnodes s n))) xs)"

lemma insert_pos_item:
  "map (item (qnodes s)) (insert_pos s q n xs) =
     insert_item (q_compare (queues s q)) (item (qnodes s) n) (map (item (qnodes s)) xs)"
  by (auto simp: insert_pos_def insert_item_map split: option.splits)

lemma q_insert_linked:
  assumes rep: "q_rep s A F" and n: "detached n A F"
    and nx: "qn_next (qnodes s n) = None" "qn_prev (qnodes s n) = None"
  shows "\<exists>s'. q_insert_link q n s = Inr (E_SUCCESS, s') \<and>
           q_rep s' (A(q := insert_pos s q n (A q))) F \<and> payload_eq s s'"
proof (cases "A q = []")
  case True
  note R = q_repD(1) [OF rep, of q, unfolded True]
  let ?t = "upd_queue q (\<lambda>u. u\<lparr>q_head := Some n, q_tail := Some n, q_length := 1\<rparr>) s"
  have "q_rep ?t (A(q := [n])) F" by (rule q_link_single_rep [OF rep n True nx])
  moreover have "insert_pos s q n [] = [n]"
    by (simp add: insert_pos_def split: option.split)
  ultimately show ?thesis
    using queue_rep_empty [OF R]
    by (intro exI [of _ ?t]) (simp add: q_insert_link_def True payload_eq_def)
next
  case False
  have ne: "\<not> q_empty (queues s q)" using queue_rep_empty [OF q_repD(1) [OF rep, of q]] False by simp
  note last = q_link_last_rep [OF rep n False nx(1)]
  show ?thesis
  proof (cases "q_compare (queues s q)")
    case None
    then show ?thesis using last by (simp add: q_insert_link_def ne insert_pos_def)
  next
    case (Some c)
    let ?P = "\<lambda>x. key_le c (qn_key (qnodes s x)) (qn_key (qnodes s n))"
    show ?thesis
    proof (cases "dropWhile ?P (A q)")
      case Nil
      then have "takeWhile ?P (A q) = A q"
        by (metis append_Nil2 takeWhile_dropWhile_id)
      then have "insert_pos s q n (A q) = A q @ [n]"
        by (simp only: insert_pos_def Some option.case Nil)
      then show ?thesis
        using last Nil find_insert_rep [OF rep n, of c q]
        by (simp add: q_insert_link_def ne Some del: dropWhile_eq_Nil_conv)
    next
      case (Cons y ys)
      then have "A q = takeWhile ?P (A q) @ y # ys" by (metis takeWhile_dropWhile_id)
      from q_link_before_rep [OF rep n this nx(2)] show ?thesis
        using Cons find_insert_rep [OF rep n, of c q]
        by (auto simp: q_insert_link_def ne insert_pos_def Some)
    qed
  qed
qed

lemma q_insert_refines:
  assumes "q_wf s"
  shows "\<exists>st s'. q_insert (Some q) d k s = Inr (st, s') \<and> q_wf s' \<and>
           lq_insert q d k (q_view s) = (st, q_view s')"
proof -
  obtain A F where rep: "q_rep s A F" using assms by (auto simp: q_wf_def)
  show ?thesis
  proof (cases F)
    case Nil
    then show ?thesis
      using rep assms view_free [OF rep] qnode_alloc_empty [of s A]
      by (simp add: q_insert_def lq_insert_def)
  next
    case (Cons n F')
    define s1 where "s1 = (\<lambda>s0. upd_node n
      (\<lambda>_. \<lparr>qn_key = k, qn_data = d, qn_prev = None, qn_next = None\<rparr>) s0)"
    obtain s0 where s0: "qnode_alloc True s = (E_SUCCESS, Some n, s0)" "q_rep (s1 s0) A F'"
      "detached n A F'" "queues s0 = queues s" "q_view (s1 s0) = (q_view s)\<lparr>ql_free := length F'\<rparr>"
      unfolding s1_def by (rule alloc_write [OF rep [unfolded Cons]])
    have null: "qn_next (qnodes (s1 s0) n) = None" "qn_prev (qnodes (s1 s0) n) = None"
      by (simp_all add: s1_def)
    obtain s' where s': "q_insert (Some q) d k s = Inr (E_SUCCESS, s')"
      "q_rep s' (A(q := insert_pos (s1 s0) q n (A q))) F'" "payload_eq (s1 s0) s'"
      using q_insert_linked [OF s0(2,3) null, of q] by (auto simp: q_insert_def s0(1) s1_def)
    have "item (qnodes (s1 s0)) n = (k, d)" by (simp add: s1_def item_def)
    moreover have "map (item (qnodes (s1 s0))) (A q) = ql_items (q_view s) q"
      using view_items [OF s0(2), of q] s0(5) by simp
    moreover have "q_compare (queues (s1 s0) q) = ql_compare (q_view s) q"
      by (simp add: s1_def s0(4))
    ultimately have "q_view s' =
        set_items q (insert_item (ql_compare (q_view s) q) (k, d) (ql_items (q_view s) q))
          (ql_free (q_view s) - 1) (q_view s)"
      using view_add [OF rep [unfolded Cons] s0(3,2,5) s'(2,3)] by (simp add: insert_pos_item)
    then show ?thesis
      using s' view_free [OF rep] by (auto simp: lq_insert_def Cons)
  qed
qed

text \<open>\<^verbatim>\<open>_q_remove\<close> and \<^verbatim>\<open>_q_remove_by_key\<close>.\<close>

lemma q_remove_refines:
  assumes "q_wf s"
  shows "\<exists>st d s'. q_remove (Some q) True s = Inr (st, d, s') \<and> q_wf s' \<and>
           lq_remove q (q_view s) = (st, d, q_view s')"
proof -
  obtain A F where rep: "q_rep s A F" using assms by (auto simp: q_wf_def)
  show ?thesis
  proof (cases "A q")
    case Nil
    then have "q_empty (queues s q)" using queue_rep_empty [OF q_repD(1) [OF rep, of q]] by simp
    then show ?thesis
      using assms Nil by (simp add: q_remove_def lq_remove_def view_items [OF rep])
  next
    case (Cons n ys)
    obtain s' where s': "q_remove (Some q) True s = Inr (E_SUCCESS, Some (qn_data (qnodes s n)), s')"
      "q_rep s' (A(q := ys)) (n # F)" "payload_eq s s'"
      using q_remove_rep [OF rep Cons] by blast
    then show ?thesis
      using view_step [OF rep s'(2,3)] view_items [OF rep, of q] view_free [OF rep]
      by (auto simp: lq_remove_def Cons item_def)
  qed
qed

lemma extract_key_map:
  "extract_key p (map (item nd) xs) =
     (case dropWhile (\<lambda>x. \<not> p (qn_key (nd x))) xs of
        [] \<Rightarrow> None
      | y # ys \<Rightarrow> Some (qn_data (nd y),
          map (item nd) (takeWhile (\<lambda>x. \<not> p (qn_key (nd x))) xs @ ys)))"
proof (induction xs)
  case (Cons x xs)
  then show ?case
    by (cases "dropWhile (\<lambda>x. \<not> p (qn_key (nd x))) xs")
      (simp_all add: item_def del: dropWhile_eq_Nil_conv)
qed simp

lemma q_remove_by_key_refines:
  assumes "q_wf s"
  shows "\<exists>st d s'. q_remove_by_key (Some q) True key s = Inr (st, d, s') \<and> q_wf s' \<and>
           lq_remove_by_key q key (q_view s) = (st, d, q_view s')"
proof -
  obtain A F where rep: "q_rep s A F" using assms by (auto simp: q_wf_def)
  note R = q_repD(1) [OF rep, of q]
  show ?thesis
  proof (cases "A q = []")
    case True
    then show ?thesis
      using queue_rep_empty [OF R] assms
      by (simp add: q_remove_by_key_def lq_remove_by_key_def view_items [OF rep])
  next
    case ne: False
    then have ne': "\<not> q_empty (queues s q)" "ql_items (q_view s) q \<noteq> []"
      using queue_rep_empty [OF R] by (simp_all add: view_items [OF rep])
    show ?thesis
    proof (cases "q_remover (queues s q)")
      case None
      then show ?thesis
        using q_remove_refines [OF assms, of q] ne'
        by (simp add: q_remove_by_key_def lq_remove_by_key_def)
    next
      case (Some r)
      let ?p = "\<lambda>k. call_remove r k key"
      let ?P = "\<lambda>x. \<not> ?p (qn_key (qnodes s x))"
      note find = find_by_key_sseg [OF queue_rep_sseg [OF R] queue_rep_length [OF R], of ?p]
      show ?thesis
      proof (cases "dropWhile ?P (A q)")
        case Nil
        then show ?thesis
          using find assms ne' Some
          by (simp add: q_remove_by_key_def lq_remove_by_key_def view_items [OF rep] extract_key_map
            del: dropWhile_eq_Nil_conv)
      next
        case (Cons n ys)
        then have "A q = takeWhile ?P (A q) @ n # ys" by (metis takeWhile_dropWhile_id)
        then obtain s' where s': "qnode_free (Some n) (q_unlink q n s) = (E_SUCCESS, s')"
          "q_rep s' (A(q := takeWhile ?P (A q) @ ys)) (n # F)" "payload_eq s s'"
          and U: "payload_eq s (q_unlink q n s)"
          using q_remove_at_rep [OF rep] q_unlink_rep(2) [OF rep] by blast
        have "q_remove_by_key (Some q) True key s = Inr (E_SUCCESS, Some (qn_data (qnodes s n)), s')"
          using find Cons ne'(1) Some s'(1) U by (simp add: q_remove_by_key_def payload_eq_def)
        moreover have "extract_key ?p (ql_items (q_view s) q) =
            Some (qn_data (qnodes s n), map (item (qnodes s)) (takeWhile ?P (A q) @ ys))"
          using Cons by (simp add: view_items [OF rep] extract_key_map)
        then have "lq_remove_by_key q key (q_view s) =
            (E_SUCCESS, Some (qn_data (qnodes s n)), q_view s')"
          using ne'(2) Some view_step [OF rep s'(2,3)] view_free [OF rep]
          by (simp add: lq_remove_by_key_def)
        ultimately show ?thesis using s'(2) by blast
      qed
    qed
  qed
qed


section \<open>Reset and initialisation\<close>

text \<open>
  \<^verbatim>\<open>_q_reset\<close> empties the queue and sets its routines; the nodes the queue held are
  not returned to the pool.
\<close>

lemma q_reset_refines:
  assumes "q_wf s"
  shows "\<exists>s'. q_reset (Some q) c r s = Inr s' \<and> q_wf s' \<and> q_view s' = lq_reset q c r (q_view s)"
proof -
  obtain A F where rep: "q_rep s A F" using assms by (auto simp: q_wf_def)
  define s' where "s' = upd_queue q
    (\<lambda>_. \<lparr>q_compare = c, q_remover = r, q_length = 0, q_head = None, q_tail = None\<rparr>) s"
  have s': "q_reset (Some q) c r s = Inr s'" and eqs: "qnodes s' = qnodes s"
    "qnode_avail s' = qnode_avail s"
    "queues s' = (queues s)(q := \<lparr>q_compare = c, q_remover = r, q_length = 0, q_head = None, q_tail = None\<rparr>)"
    by (simp_all add: q_reset_def s'_def)
  have "q_rep s' (A(q := [])) F"
    using rep by (auto simp: q_rep_def eqs queue_rep_def)
  moreover from this have "q_view s' = lq_reset q c r (q_view s)"
    by (auto simp: q_view_rep [OF rep] q_view_rep lq_reset_def eqs)
  ultimately show ?thesis using s' by blast
qed

definition free_upto :: "nat \<Rightarrow> qsys \<Rightarrow> qsys" where
  "free_upto n s =
     fold (\<lambda>i t. (upd_node i (qn_next_update (\<lambda>_. qnode_avail t)) t)\<lparr>qnode_avail := Some i\<rparr>)
       [0..<n] (s\<lparr>qnode_avail := None\<rparr>)"

lemma free_upto_Suc:
  "free_upto (Suc n) s =
     (upd_node n (qn_next_update (\<lambda>_. qnode_avail (free_upto n s))) (free_upto n s))\<lparr>qnode_avail := Some n\<rparr>"
  by (simp add: free_upto_def)

lemma free_upto_rep:
  "sseg (qnodes (free_upto n s)) (qnode_avail (free_upto n s)) (rev [0..<n]) \<and>
   queues (free_upto n s) = queues s"
proof (induction n)
  case (Suc n)
  have "sseg (qnodes (free_upto (Suc n) s)) h (rev [0..<n]) =
      sseg (qnodes (free_upto n s)) h (rev [0..<n])" for h
    by (rule sseg_cong) (simp add: free_upto_Suc)
  moreover have "qnode_avail (free_upto (Suc n) s) = Some n"
    "qn_next (qnodes (free_upto (Suc n) s) n) = qnode_avail (free_upto n s)"
    "queues (free_upto (Suc n) s) = queues (free_upto n s)"
    by (simp_all add: free_upto_Suc)
  ultimately show ?case using Suc by simp
qed (simp add: free_upto_def)

definition q_blank :: "qsys \<Rightarrow> bool" where
  "q_blank s \<longleftrightarrow> (\<forall>q. q_length (queues s q) = 0 \<and> q_head (queues s q) = None \<and> q_tail (queues s q) = None)"

lemma q_init_rep:
  assumes "q_blank s"
  shows "q_rep (q_init s) (\<lambda>_. []) (rev [0..<N_QNODES])"
proof -
  have "q_init s = free_upto N_QNODES s" by (simp add: q_init_def free_upto_def)
  then show ?thesis
    using free_upto_rep [of N_QNODES s] assms
    by (auto simp: q_rep_def queue_rep_def q_blank_def)
qed

lemma q_init_refines:
  assumes "q_blank s"
  shows "q_wf (q_init s)" and "ql_items (q_view (q_init s)) q = []"
    and "ql_free (q_view (q_init s)) = N_QNODES"
  using q_init_rep [OF assms] by (auto simp: view_items view_free)

end
