(* ===== verification/Queue_Interface.thy ===== *)
theory Queue_Interface
  imports Queue_Refinement
begin

text \<open>
  The interface of the queue module.  The locale \<open>queue_module\<close> has the four operations
  a client calls and, as assumptions, the promise that each of them returns what the list
  contract says; from these follow the facts that clients use: no run of operations
  faults or loops, nodes are conserved, an unordered queue is first-in first-out and an
  ordered one gives a stable sort.  The pointer code is one instance, the list operations
  themselves, on which the kernel model is built, are another.
\<close>

section \<open>Runs of operations\<close>

datatype queue_op =
    Append nat nat u32
  | Insert nat nat u32
  | Remove nat
  | Remove_by_key nat u32

fun lq_step :: "queue_op \<Rightarrow> qlists \<Rightarrow> (status_t \<times> nat option) \<times> qlists" where
  "lq_step (Append q d k) v = (let (st, v') = lq_append q d k v in ((st, None), v'))"
| "lq_step (Insert q d k) v = (let (st, v') = lq_insert q d k v in ((st, None), v'))"
| "lq_step (Remove q) v = (let (st, d, v') = lq_remove q v in ((st, d), v'))"
| "lq_step (Remove_by_key q k) v = (let (st, d, v') = lq_remove_by_key q k v in ((st, d), v'))"

fun lq_run :: "queue_op list \<Rightarrow> qlists \<Rightarrow> (status_t \<times> nat option) list \<times> qlists" where
  "lq_run [] v = ([], v)"
| "lq_run (p # ps) v =
     (let (r, v') = lq_step p v; (rs, v'') = lq_run ps v' in (r # rs, v''))"

fun q_step :: "queue_op \<Rightarrow> qsys \<Rightarrow> ((status_t \<times> nat option) \<times> qsys) outcome" where
  "q_step (Append q d k) s = andThen (q_append (Some q) d k s) (\<lambda>(st, s'). Inr ((st, None), s'))"
| "q_step (Insert q d k) s = andThen (q_insert (Some q) d k s) (\<lambda>(st, s'). Inr ((st, None), s'))"
| "q_step (Remove q) s = andThen (q_remove (Some q) True s) (\<lambda>(st, d, s'). Inr ((st, d), s'))"
| "q_step (Remove_by_key q k) s =
     andThen (q_remove_by_key (Some q) True k s) (\<lambda>(st, d, s'). Inr ((st, d), s'))"

fun run_ops :: "(queue_op \<Rightarrow> 's \<Rightarrow> ('r \<times> 's) outcome) \<Rightarrow> queue_op list \<Rightarrow> 's \<Rightarrow> ('r list \<times> 's) outcome" where
  "run_ops f [] s = Inr ([], s)"
| "run_ops f (p # ps) s =
     andThen (f p s) (\<lambda>(r, s'). andThen (run_ops f ps s') (\<lambda>(rs, s''). Inr (r # rs, s'')))"

lemma lq_run_append:
  "lq_run (ps @ qs) v =
     (let (rs, v') = lq_run ps v; (ts, v'') = lq_run qs v' in (rs @ ts, v''))"
  by (induction ps arbitrary: v) (simp_all add: Let_def split: prod.splits)

section \<open>What runs do to the lists\<close>

text \<open>The nodes in the queues below \<open>n\<close> and on the free list.\<close>

definition lq_nodes :: "nat \<Rightarrow> qlists \<Rightarrow> nat" where
  "lq_nodes n v = ql_free v + (\<Sum>q<n. length (ql_items v q))"

fun op_queue :: "queue_op \<Rightarrow> nat" where
  "op_queue (Append q d k) = q"
| "op_queue (Insert q d k) = q"
| "op_queue (Remove q) = q"
| "op_queue (Remove_by_key q k) = q"

lemma lq_nodes_set_items:
  assumes "q < n" and "f + length xs = ql_free v + length (ql_items v q)"
  shows "lq_nodes n (set_items q xs f v) = lq_nodes n v"
proof -
  have split: "(\<Sum>r<n. g r) = g q + (\<Sum>r\<in>{..<n} - {q}. g r)" for g :: "nat \<Rightarrow> nat"
    using assms(1) by (simp add: sum.remove)
  have "(\<Sum>r\<in>{..<n} - {q}. length (((ql_items v)(q := xs)) r)) =
        (\<Sum>r\<in>{..<n} - {q}. length (ql_items v r))"
    by (rule sum.cong) auto
  then show ?thesis
    using assms(2) split [of "\<lambda>r. length (ql_items v r)"]
      split [of "\<lambda>r. length (((ql_items v)(q := xs)) r)"]
    by (simp add: lq_nodes_def)
qed

lemma length_insert_item [simp]: "length (insert_item c x xs) = Suc (length xs)"
  by (metis insert_item_mset size_add_mset size_mset)

lemma extract_key_length: "extract_key p xs = Some (d, ys) \<Longrightarrow> length xs = Suc (length ys)"
  using extract_key_mset [of p xs d ys] by (metis size_add_mset size_mset)

lemma lq_remove_nodes: "q < n \<Longrightarrow> lq_remove q v = (st, d, v') \<Longrightarrow> lq_nodes n v' = lq_nodes n v"
  by (auto simp: lq_remove_def intro!: lq_nodes_set_items split: list.splits)

lemma lq_step_nodes:
  assumes "op_queue p < n"
  shows "lq_nodes n (snd (lq_step p v)) = lq_nodes n v"
  using assms
  by (cases p)
    (auto simp: lq_append_def lq_insert_def lq_remove_by_key_def extract_key_length
      intro!: lq_nodes_set_items dest: lq_remove_nodes split: prod.splits option.splits if_splits)

lemma lq_run_nodes:
  "(\<forall>p \<in> set ps. op_queue p < n) \<Longrightarrow> lq_nodes n (snd (lq_run ps v)) = lq_nodes n v"
proof (induction ps arbitrary: v)
  case (Cons p ps)
  then show ?case
    using lq_step_nodes [of p n v] Cons.IH [of "snd (lq_step p v)"]
    by (simp add: Let_def case_prod_unfold)
qed simp

lemma set_items_same: "ql_items v q = xs \<Longrightarrow> set_items q xs (ql_free v) v = v"
  by (auto simp: set_items_def)

lemma lq_run_appends:
  "length xs \<le> ql_free v \<Longrightarrow>
   lq_run (map (\<lambda>(k, d). Append q d k) xs) v =
     (replicate (length xs) (E_SUCCESS, None), set_items q (ql_items v q @ xs) (ql_free v - length xs) v)"
proof (induction xs arbitrary: v)
  case (Cons x xs)
  then show ?case by (cases x) (simp add: lq_append_def set_items_def)
qed (simp add: set_items_def)

lemma lq_run_removes:
  "ql_items v q = xs @ ys \<Longrightarrow>
   lq_run (replicate (length xs) (Remove q)) v =
     (map (\<lambda>x. (E_SUCCESS, Some (snd x))) xs, set_items q ys (ql_free v + length xs) v)"
proof (induction xs arbitrary: v)
  case (Cons x xs)
  then show ?case by (cases x) (simp add: lq_remove_def set_items_def)
qed (simp add: set_items_same)

lemma lq_run_inserts:
  "length xs \<le> ql_free v \<Longrightarrow>
   lq_run (map (\<lambda>(k, d). Insert q d k) xs) v =
     (replicate (length xs) (E_SUCCESS, None),
      set_items q (fold (insert_item (ql_compare v q)) xs (ql_items v q)) (ql_free v - length xs) v)"
proof (induction xs arbitrary: v)
  case (Cons x xs)
  then show ?case by (cases x) (simp add: lq_insert_def set_items_def)
qed (simp add: set_items_def)

lemma fold_insert_item_sorted:
  "sorted (map fst ys) \<Longrightarrow> sorted (map fst (fold (insert_item (Some Compare_uint_asc)) xs ys))"
  by (induction xs arbitrary: ys) (auto intro: insert_item_sorted simp del: insert_item.simps)

lemma insert_item_stable_other:
  "fst x \<noteq> k \<Longrightarrow> filter (\<lambda>y. fst y = k) (insert_item c x xs) = filter (\<lambda>y. fst y = k) xs"
proof (cases c)
  case (Some r)
  assume "fst x \<noteq> k"
  then show ?thesis unfolding Some by (induction xs) auto
qed simp

lemma fold_insert_item_stable:
  "sorted (map fst ys) \<Longrightarrow>
   filter (\<lambda>y. fst y = k) (fold (insert_item (Some Compare_uint_asc)) xs ys) =
     filter (\<lambda>y. fst y = k) ys @ filter (\<lambda>y. fst y = k) xs"
proof (induction xs arbitrary: ys)
  case (Cons x xs)
  note IH = Cons.IH [OF insert_item_sorted [OF Cons.prems]]
  show ?case
  proof (cases "fst x = k")
    case True
    then show ?thesis
      using IH insert_item_stable [OF Cons.prems, of k "snd x"] by (cases x) simp
  qed (simp add: IH insert_item_stable_other)
qed simp

lemma fold_insert_item_mset:
  "mset (fold (insert_item c) xs ys) = mset xs + mset ys"
  by (induction xs arbitrary: ys) auto

lemma fold_insert_item_sort:
  "fold (insert_item (Some Compare_uint_asc)) xs [] = sort_key fst xs"
proof (rule properties_for_sort_key [symmetric])
  show "mset (fold (insert_item (Some Compare_uint_asc)) xs []) = mset xs"
    by (simp add: fold_insert_item_mset)
  show "sorted (map fst (fold (insert_item (Some Compare_uint_asc)) xs []))"
    by (rule fold_insert_item_sorted) simp
  fix k
  show "filter (\<lambda>x. fst k = fst x) (fold (insert_item (Some Compare_uint_asc)) xs []) =
        filter (\<lambda>x. fst k = fst x) xs"
    using fold_insert_item_stable [of "[]" "fst k" xs] by (simp add: eq_commute)
qed

section \<open>The interface\<close>

locale queue_module =
  fixes view :: "'s \<Rightarrow> qlists"
    and wf :: "'s \<Rightarrow> bool"
    and step :: "queue_op \<Rightarrow> 's \<Rightarrow> ((status_t \<times> nat option) \<times> 's) outcome"
  assumes step_law:
    "wf s \<Longrightarrow> \<exists>r s'. step p s = Inr (r, s') \<and> wf s' \<and> lq_step p (view s) = (r, view s')"
begin

lemma run_refines:
  "wf s \<Longrightarrow> \<exists>rs s'. run_ops step ps s = Inr (rs, s') \<and> wf s' \<and> lq_run ps (view s) = (rs, view s')"
proof (induction ps arbitrary: s)
  case (Cons p ps)
  obtain r s1 where 1: "step p s = Inr (r, s1)" "wf s1" "lq_step p (view s) = (r, view s1)"
    using step_law [OF Cons.prems] by blast
  obtain rs s2 where "run_ops step ps s1 = Inr (rs, s2)" "wf s2" "lq_run ps (view s1) = (rs, view s2)"
    using Cons.IH [OF 1(2)] by blast
  with 1 show ?case by simp
qed simp

lemma run_total: "wf s \<Longrightarrow> \<exists>rs s'. run_ops step ps s = Inr (rs, s') \<and> wf s'"
  using run_refines by blast

lemma run_nodes:
  assumes "wf s" and "run_ops step ps s = Inr (rs, s')" and "\<forall>p \<in> set ps. op_queue p < n"
  shows "lq_nodes n (view s') = lq_nodes n (view s)"
  using run_refines [OF assms(1), of ps] assms(2) lq_run_nodes [OF assms(3), of "view s"] by auto

text \<open>Items appended to an empty queue come out in the order they went in.\<close>

lemma run_fifo:
  assumes "wf s" and "ql_items (view s) q = []" and "length xs \<le> ql_free (view s)"
  shows "\<exists>s'. run_ops step (map (\<lambda>(k, d). Append q d k) xs @ replicate (length xs) (Remove q)) s =
           Inr (replicate (length xs) (E_SUCCESS, None) @ map (\<lambda>x. (E_SUCCESS, Some (snd x))) xs, s') \<and>
           wf s' \<and> view s' = view s"
proof -
  let ?ps = "map (\<lambda>(k, d). Append q d k) xs @ replicate (length xs) (Remove q)"
  have "lq_run ?ps (view s) = (replicate (length xs) (E_SUCCESS, None) @
      map (\<lambda>x. (E_SUCCESS, Some (snd x))) xs, set_items q [] (ql_free (view s)) (view s))"
    using assms(2,3) by (simp add: lq_run_append lq_run_appends lq_run_removes [where ys = "[]"] set_items_def)
  moreover have "set_items q [] (ql_free (view s)) (view s) = view s"
    using assms(2) by (rule set_items_same)
  ultimately show ?thesis using run_refines [OF assms(1), of ?ps] by auto
qed

text \<open>An ordered queue gives its items by increasing key, equal keys in order of arrival.\<close>

lemma run_sorted:
  assumes "wf s" and "ql_items (view s) q = []" and "length xs \<le> ql_free (view s)"
    and "ql_compare (view s) q = Some Compare_uint_asc"
  shows "\<exists>s'. run_ops step (map (\<lambda>(k, d). Insert q d k) xs @ replicate (length xs) (Remove q)) s =
           Inr (replicate (length xs) (E_SUCCESS, None) @
                map (\<lambda>x. (E_SUCCESS, Some (snd x))) (sort_key fst xs), s') \<and>
           wf s' \<and> view s' = view s"
proof -
  let ?ps = "map (\<lambda>(k, d). Insert q d k) xs @ replicate (length xs) (Remove q)"
  have "lq_run ?ps (view s) = (replicate (length xs) (E_SUCCESS, None) @
      map (\<lambda>x. (E_SUCCESS, Some (snd x))) (sort_key fst xs), set_items q [] (ql_free (view s)) (view s))"
    using assms(2-4) lq_run_removes [where ys = "[]" and xs = "sort_key fst xs" and q = q]
    by (simp add: lq_run_append lq_run_inserts fold_insert_item_sort set_items_def)
  moreover have "set_items q [] (ql_free (view s)) (view s) = view s"
    using assms(2) by (rule set_items_same)
  ultimately show ?thesis using run_refines [OF assms(1), of ?ps] by auto
qed

end

section \<open>The instances\<close>

interpretation pointer_queues: queue_module q_view q_wf q_step
proof unfold_locales
  fix s p
  assume wf: "q_wf s"
  show "\<exists>r s'. q_step p s = Inr (r, s') \<and> q_wf s' \<and> lq_step p (q_view s) = (r, q_view s')"
  proof (cases p)
    case (Append q d k)
    then show ?thesis using q_append_refines [OF wf, of q d k] by auto
  next
    case (Insert q d k)
    then show ?thesis using q_insert_refines [OF wf, of q d k] by auto
  next
    case (Remove q)
    then show ?thesis using q_remove_refines [OF wf, of q] by auto
  next
    case (Remove_by_key q k)
    then show ?thesis using q_remove_by_key_refines [OF wf, of q k] by auto
  qed
qed

interpretation list_queues: queue_module "\<lambda>v. v" "\<lambda>_. True" "\<lambda>p v. Inr (lq_step p v)"
  by unfold_locales auto

end
