(* ===== verification/Memory.thy ===== *)
theory Memory
  imports Prelude
begin

text \<open>
  Byte-addressed memory and the memory and string routines of the kernel,
  \<^verbatim>\<open>kernel/utils.c\<close> (strlen, memset, memcmp, memcpy, strcpy, strcmp) and
  \<^verbatim>\<open>kernel/klibc.c\<close> (_memclr, _memcpy), as the byte loops that they are.  The
  machine is little-endian; addresses wrap at 32 bits.
\<close>

type_synonym memory = "u32 \<Rightarrow> u8"

section \<open>Loads and stores\<close>

definition load16 :: "memory \<Rightarrow> u32 \<Rightarrow> u16" where
  "load16 m a = ucast (m a) OR push_bit 8 (ucast (m (a + 1)))"

definition load32 :: "memory \<Rightarrow> u32 \<Rightarrow> u32" where
  "load32 m a =
     ucast (m a) OR push_bit 8 (ucast (m (a + 1))) OR push_bit 16 (ucast (m (a + 2))) OR
     push_bit 24 (ucast (m (a + 3)))"

definition store16 :: "u32 \<Rightarrow> u16 \<Rightarrow> memory \<Rightarrow> memory" where
  "store16 a v m = m(a := ucast v, a + 1 := ucast (drop_bit 8 v))"

definition store32 :: "u32 \<Rightarrow> u32 \<Rightarrow> memory \<Rightarrow> memory" where
  "store32 a v m =
     m(a := ucast v, a + 1 := ucast (drop_bit 8 v), a + 2 := ucast (drop_bit 16 v),
       a + 3 := ucast (drop_bit 24 v))"

lemma offset_neq: "(x::u32) \<noteq> y \<Longrightarrow> a + x \<noteq> a + y"
  by simp

lemma load32_store32 [simp]: "load32 (store32 a v m) a = v"
  unfolding load32_def store32_def
  by (rule bit_word_eqI, rename_tac n, case_tac "n < 16"; case_tac "n < 24") (auto simp: bit_simps)

lemma load16_store16 [simp]: "load16 (store16 a v m) a = v"
  unfolding load16_def store16_def
  by (rule bit_word_eqI) (auto simp: bit_simps)

lemma store32_other:
  assumes "x \<notin> {a, a + 1, a + 2, a + 3}"
  shows "store32 a v m x = m x"
  using assms by (auto simp: store32_def)

lemma store16_other:
  assumes "x \<notin> {a, a + 1}"
  shows "store16 a v m x = m x"
  using assms by (auto simp: store16_def)

lemma load32_cong:
  assumes "\<And>x. x \<in> {a, a + 1, a + 2, a + 3} \<Longrightarrow> m x = m' x"
  shows "load32 m a = load32 m' a"
  using assms by (simp add: load32_def)

lemma load16_cong:
  assumes "\<And>x. x \<in> {a, a + 1} \<Longrightarrow> m x = m' x"
  shows "load16 m a = load16 m' a"
  using assms by (simp add: load16_def)

text \<open>
  Two fields at different offsets of one object do not interfere; the offsets of a
  context are far below the wrap-around, so distinct multiples of four are apart.
\<close>

lemma load32_store32_offset:
  assumes "{x, x + 1, x + 2, x + 3} \<inter> {y, y + 1, y + 2, y + 3} = {}"
  shows "load32 (store32 (a + x) v m) (a + y) = load32 m (a + y)"
  using assms by (intro load32_cong store32_other) (auto simp: add.assoc)

section \<open>The loops of klibc.c\<close>

text \<open>\<^verbatim>\<open>while( num-- ) *buf++ = 0\<close>\<close>

fun memclr_loop :: "nat \<Rightarrow> u32 \<Rightarrow> memory \<Rightarrow> memory" where
  "memclr_loop 0 buf m = m"
| "memclr_loop (Suc num) buf m = memclr_loop num (buf + 1) (m(buf := 0))"

definition memclr :: "u32 \<Rightarrow> u32 \<Rightarrow> memory \<Rightarrow> memory" where
  "memclr buffer len m = memclr_loop (unat len) buffer m"

text \<open>\<^verbatim>\<open>while( num-- ) *dst++ = *src++\<close>: each byte is read after the earlier writes.\<close>

fun memcpy_loop :: "nat \<Rightarrow> u32 \<Rightarrow> u32 \<Rightarrow> memory \<Rightarrow> memory" where
  "memcpy_loop 0 dst src m = m"
| "memcpy_loop (Suc num) dst src m = memcpy_loop num (dst + 1) (src + 1) (m(dst := m src))"

definition k_memcpy :: "u32 \<Rightarrow> u32 \<Rightarrow> u32 \<Rightarrow> memory \<Rightarrow> memory" where
  "k_memcpy dst src len m = memcpy_loop (unat len) dst src m"

text \<open>Addresses in a block of \<open>n\<close> bytes at \<open>a\<close>.\<close>

definition in_block :: "u32 \<Rightarrow> nat \<Rightarrow> u32 \<Rightarrow> bool" where
  "in_block a n x \<longleftrightarrow> unat (x - a) < n"

lemma in_block_0 [simp]: "\<not> in_block a 0 x"
  by (simp add: in_block_def)

lemma in_block_Suc:
  assumes "n < 2 ^ 32"
  shows "in_block a (Suc n) x \<longleftrightarrow> x = a \<or> in_block (a + 1) n x"
proof (cases "x = a")
  case False
  then have "x - a \<noteq> 0" by simp
  then have "unat (x - a - 1) = unat (x - a) - 1" and "0 < unat (x - a)"
    by (simp_all only: unat_minus_one unat_gt_0 not_False_eq_True)
  then have "unat (x - a) = Suc (unat (x - (a + 1)))"
    by (simp add: diff_diff_add)
  with False show ?thesis by (simp add: in_block_def)
qed (simp add: in_block_def)

lemma in_block_self_Suc:
  assumes "Suc n < 2 ^ 32"
  shows "\<not> in_block (a + 1) n a"
proof -
  have "a - (a + 1) = (-1 :: u32)" by simp
  then have "unat (a - (a + 1)) = 2 ^ 32 - 1" by (simp only: unsigned_minus_1_eq_mask mask_eq_exp_minus_1) simp
  then show ?thesis using assms by (simp add: in_block_def)
qed

lemma memclr_loop_eq:
  "n < 2 ^ 32 \<Longrightarrow> memclr_loop n a m = (\<lambda>x. if in_block a n x then 0 else m x)"
proof (induction n arbitrary: a m)
  case (Suc n)
  then show ?case by (auto simp: in_block_Suc fun_eq_iff)
qed simp

text \<open>A copy between blocks that do not overlap.\<close>

definition disjoint_blocks :: "u32 \<Rightarrow> u32 \<Rightarrow> nat \<Rightarrow> bool" where
  "disjoint_blocks dst src n \<longleftrightarrow> (\<forall>x. \<not> (in_block dst n x \<and> in_block src n x))"

lemma memcpy_loop_eq:
  "n < 2 ^ 32 \<Longrightarrow> disjoint_blocks dst src n \<Longrightarrow>
   memcpy_loop n dst src m = (\<lambda>x. if in_block dst n x then m (src + (x - dst)) else m x)"
proof (induction n arbitrary: dst src m)
  case (Suc n)
  from Suc.prems have n: "n < 2 ^ 32" by simp
  have d: "disjoint_blocks (dst + 1) (src + 1) n"
    using Suc.prems by (auto simp: disjoint_blocks_def in_block_Suc)
  have not_src: "\<not> in_block src (Suc n) dst"
    using Suc.prems by (auto simp: disjoint_blocks_def in_block_Suc)
  have "memcpy_loop (Suc n) dst src m =
      (\<lambda>x. if in_block (dst + 1) n x then (m(dst := m src)) (src + 1 + (x - (dst + 1)))
           else (m(dst := m src)) x)"
    using Suc.IH [OF n d] by simp
  also have "\<dots> = (\<lambda>x. if in_block dst (Suc n) x then m (src + (x - dst)) else m x)"
  proof (rule ext)
    fix x
    have "in_block (dst + 1) n x \<Longrightarrow> src + (x - dst) \<noteq> dst"
    proof
      assume x: "in_block (dst + 1) n x" and eq: "src + (x - dst) = dst"
      then have "x - dst = dst - src" by (simp add: algebra_simps)
      moreover have "in_block dst (Suc n) x" using x n by (simp add: in_block_Suc)
      ultimately have "in_block src (Suc n) dst" by (simp add: in_block_def)
      with not_src show False by simp
    qed
    then show "(if in_block (dst + 1) n x then (m(dst := m src)) (src + 1 + (x - (dst + 1)))
           else (m(dst := m src)) x) =
        (if in_block dst (Suc n) x then m (src + (x - dst)) else m x)"
      using n in_block_self_Suc [of n dst] Suc.prems(1)
      by (auto simp: in_block_Suc algebra_simps)
  qed
  finally show ?case .
qed simp

end
