(* ===== verification/Klib.thy ===== *)
theory Klib
  imports Memory
begin

text \<open>
  \<^verbatim>\<open>kernel/utils.c\<close>: memset, memcpy and memcmp as loops over an index, strlen, strcpy
  and strcmp as loops that end at a zero byte.  A string loop over a memory without a
  zero byte never ends, so these are partial functions and returning is a theorem.
  The two objects that \<^verbatim>\<open>memcmp\<close> compares are given by their bytes, because the kernel
  applies it to fields of its own structures.
\<close>

section \<open>memset and memcpy\<close>

definition u_memset :: "u32 \<Rightarrow> u8 \<Rightarrow> int \<Rightarrow> memory \<Rightarrow> memory" where
  "u_memset buf value sz m = fold (\<lambda>i m. m(buf + of_nat i := value)) [0..<nat sz] m"

definition u_memcpy :: "u32 \<Rightarrow> u32 \<Rightarrow> int \<Rightarrow> memory \<Rightarrow> memory" where
  "u_memcpy dst src sz m =
     fold (\<lambda>i m. m(dst + of_nat i := m (src + of_nat i))) [0..<nat sz] m"

lemma fold_memcpy_loop:
  "fold (\<lambda>i m. m(dst + of_nat i := m (src + of_nat i))) [k..<k + n] m =
     memcpy_loop n (dst + of_nat k) (src + of_nat k) m"
proof (induction n arbitrary: k m)
  case (Suc n)
  have "[k..<k + Suc n] = k # [Suc k..<Suc k + n]" by (simp add: upt_conv_Cons del: upt_Suc)
  then show ?case
    using Suc.IH [of "Suc k"] by (simp add: algebra_simps del: fun_upd_apply upt_Suc)
qed simp

lemma fold_memset:
  "n < 2 ^ 32 \<Longrightarrow> fold (\<lambda>i m. m(buf + of_nat i := v)) [0..<n] m =
     (\<lambda>x. if in_block buf n x then v else m x)"
proof (induction n)
  case (Suc n)
  have "in_block buf (Suc n) x \<longleftrightarrow> in_block buf n x \<or> x = buf + of_nat n" for x
  proof -
    have "unat (x - buf) = n \<longleftrightarrow> x = buf + of_nat n"
    proof
      assume "unat (x - buf) = n"
      then have "x - buf = of_nat n" by (metis of_nat_unat_id)
      then show "x = buf + of_nat n" by (simp add: algebra_simps)
    qed (use Suc.prems in \<open>simp add: unat_of_nat_u32\<close>)
    then show ?thesis by (auto simp: in_block_def less_Suc_eq)
  qed
  with Suc show ?case by (auto simp: fun_eq_iff)
qed simp

lemma u_memcpy_eq_k_memcpy:
  assumes "0 \<le> sz" and "sz < 2 ^ 32"
  shows "u_memcpy dst src sz m = k_memcpy dst src (of_int sz) m"
proof -
  have "unat (of_int sz :: u32) = nat sz"
  proof -
    obtain n where sz: "sz = int n" using assms(1) by (metis nonneg_int_cases)
    then have "n < 2 ^ 32" using assms(2) by simp
    then show ?thesis by (simp add: sz unat_of_nat_u32 del: unat_of_nat)
  qed
  then show ?thesis
    using fold_memcpy_loop [of dst src 0 "nat sz" m]
    unfolding u_memcpy_def k_memcpy_def by (simp only: of_nat_0 add_0 add_0_right semiring_1_class.of_nat_0)
qed

section \<open>memcmp\<close>

text \<open>
  The result of the first difference, as \<^verbatim>\<open>int\<close>: bytes are compared as signed
  characters, words of four bytes as signed integers.
\<close>

definition word_at :: "(nat \<Rightarrow> u8) \<Rightarrow> nat \<Rightarrow> u32" where
  "word_at f i =
     ucast (f (4 * i)) OR push_bit 8 (ucast (f (4 * i + 1))) OR
     push_bit 16 (ucast (f (4 * i + 2))) OR push_bit 24 (ucast (f (4 * i + 3)))"

fun cmp_bytes :: "(nat \<Rightarrow> u8) \<Rightarrow> (nat \<Rightarrow> u8) \<Rightarrow> nat list \<Rightarrow> u32" where
  "cmp_bytes f g [] = 0"
| "cmp_bytes f g (i # is) = (if f i \<noteq> g i then scast (f i) - scast (g i) else cmp_bytes f g is)"

fun cmp_words :: "(nat \<Rightarrow> u8) \<Rightarrow> (nat \<Rightarrow> u8) \<Rightarrow> nat list \<Rightarrow> u32 option" where
  "cmp_words f g [] = None"
| "cmp_words f g (i # is) =
     (if word_at f i \<noteq> word_at g i then Some (word_at f i - word_at g i) else cmp_words f g is)"

definition u_memcmp :: "(nat \<Rightarrow> u8) \<Rightarrow> (nat \<Rightarrow> u8) \<Rightarrow> int \<Rightarrow> u32" where
  "u_memcmp s1 s2 sz =
     (if sz < 4 then cmp_bytes s1 s2 [0..<nat sz]
      else case cmp_words s1 s2 [0..<nat (sz div 4)] of
             Some d \<Rightarrow> d
           | None \<Rightarrow> cmp_bytes s1 s2 [0..<nat sz])"

lemma scast_u8_eq_iff: "(scast (a :: u8) :: u32) = scast b \<longleftrightarrow> a = b"
proof
  assume "(scast a :: u32) = scast b"
  then have "(ucast (scast a :: u32) :: u8) = ucast (scast b :: u32)" by simp
  moreover have "(ucast (scast x :: u32) :: u8) = x" for x :: u8
    by (rule bit_word_eqI) (auto simp: bit_simps)
  ultimately show "a = b" by simp
qed simp

lemma scast_u8_eq_0: "(scast (a :: u8) :: u32) = 0 \<longleftrightarrow> a = 0"
  using scast_u8_eq_iff [of a 0] by simp

lemma cmp_bytes_zero: "cmp_bytes f g is = 0 \<longleftrightarrow> (\<forall>i \<in> set is. f i = g i)"
  by (induction "is") (auto simp: scast_u8_eq_iff)

lemma cmp_words_Some: "cmp_words f g is = Some d \<Longrightarrow> d \<noteq> 0 \<and> (\<exists>i \<in> set is. word_at f i \<noteq> word_at g i)"
  by (induction "is") (auto split: if_splits)

lemma word_at_neq: "word_at f i \<noteq> word_at g i \<Longrightarrow> \<exists>j. 4 * i \<le> j \<and> j < 4 * i + 4 \<and> f j \<noteq> g j"
proof (rule ccontr)
  assume neq: "word_at f i \<noteq> word_at g i" and "\<not> ?thesis"
  then have "f j = g j" if "4 * i \<le> j" "j < 4 * i + 4" for j using that by blast
  then have "word_at f i = word_at g i" by (simp add: word_at_def)
  with neq show False by simp
qed

lemma memcmp_zero: "u_memcmp f g sz = 0 \<longleftrightarrow> (\<forall>i < nat sz. f i = g i)"
proof (cases "cmp_words f g [0..<nat (sz div 4)]")
  case None
  then show ?thesis by (auto simp: u_memcmp_def cmp_bytes_zero)
next
  case (Some d)
  show ?thesis
  proof (cases "sz < 4")
    case False
    obtain i where "i < nat (sz div 4)" and "word_at f i \<noteq> word_at g i"
      using cmp_words_Some [OF Some] by auto
    then obtain j where "j < 4 * i + 4" and j: "f j \<noteq> g j"
      using word_at_neq by blast
    moreover have "4 * i + 4 \<le> nat sz" using \<open>i < nat (sz div 4)\<close> by linarith
    ultimately have "j < nat sz" by simp
    with j have "\<not> (\<forall>i < nat sz. f i = g i)" by blast
    then show ?thesis using False Some cmp_words_Some [OF Some] by (simp add: u_memcmp_def)
  qed (auto simp: u_memcmp_def cmp_bytes_zero)
qed

section \<open>Strings\<close>

partial_function (option) strlen_loop :: "memory \<Rightarrow> u32 \<Rightarrow> u32 \<Rightarrow> u32 option" where
  "strlen_loop m str i = (if m (str + i) \<noteq> 0 then strlen_loop m str (i + 1) else Some i)"

definition u_strlen :: "memory \<Rightarrow> u32 \<Rightarrow> u32 option" where
  "u_strlen m str = strlen_loop m str 0"

partial_function (option) strcpy_loop :: "u32 \<Rightarrow> u32 \<Rightarrow> u32 \<Rightarrow> memory \<Rightarrow> memory option" where
  "strcpy_loop dst src i m =
     (let m' = m(dst + i := m (src + i))
      in if m' (dst + i) \<noteq> 0 then strcpy_loop dst src (i + 1) m' else Some m')"

definition u_strcpy :: "u32 \<Rightarrow> u32 \<Rightarrow> memory \<Rightarrow> memory option" where
  "u_strcpy dst src m = strcpy_loop dst src 0 m"

partial_function (option) strcmp_loop :: "memory \<Rightarrow> u32 \<Rightarrow> u32 \<Rightarrow> u32 \<Rightarrow> u32 option" where
  "strcmp_loop m dst src i =
     (if m (dst + i) \<noteq> 0 \<and> m (src + i) \<noteq> 0 \<and> m (dst + i) = m (src + i)
      then strcmp_loop m dst src (i + 1)
      else Some (scast (m (dst + i)) - scast (m (src + i))))"

definition u_strcmp :: "memory \<Rightarrow> u32 \<Rightarrow> u32 \<Rightarrow> u32 option" where
  "u_strcmp m dst src = strcmp_loop m dst src 0"

text \<open>Memory holds the zero-terminated string \<open>s\<close> at \<open>a\<close>.\<close>

fun c_string :: "memory \<Rightarrow> u32 \<Rightarrow> u8 list \<Rightarrow> bool" where
  "c_string m a [] \<longleftrightarrow> m a = 0"
| "c_string m a (c # s) \<longleftrightarrow> c \<noteq> 0 \<and> m a = c \<and> c_string m (a + 1) s"

lemma strlen_loop_string: "c_string m (a + i) s \<Longrightarrow> strlen_loop m a i = Some (i + of_nat (length s))"
proof (induction s arbitrary: i)
  case Nil
  then show ?case by (subst strlen_loop.simps) simp
next
  case (Cons c s)
  then have "strlen_loop m a (i + 1) = Some (i + 1 + of_nat (length s))"
    by (intro Cons.IH) (simp add: add.assoc)
  with Cons.prems show ?case by (subst strlen_loop.simps) (simp add: algebra_simps)
qed

lemma strlen_loop_zero:
  assumes "strlen_loop m a i = Some r"
  shows "m (a + r) = 0"
  using assms
  by (rule strlen_loop.raw_induct [of "\<lambda>m a i r. m (a + r) = 0", rotated]) (auto split: if_splits)

lemma strcmp_loop_string:
  "c_string m (a + i) s \<Longrightarrow> c_string m (b + i) t \<Longrightarrow>
   \<exists>r. strcmp_loop m a b i = Some r \<and> (r = 0 \<longleftrightarrow> s = t)"
proof (induction s arbitrary: i t)
  case Nil
  then show ?case
    by (cases t; subst strcmp_loop.simps) (auto simp: scast_u8_eq_iff scast_u8_eq_0)
next
  case (Cons c s)
  show ?case
  proof (cases t)
    case Nil
    with Cons.prems show ?thesis by (subst strcmp_loop.simps) (auto simp: scast_u8_eq_iff scast_u8_eq_0)
  next
    case (Cons d t')
    note t = this
    show ?thesis
    proof (cases "c = d")
      case True
      with Cons.prems t obtain r where "strcmp_loop m a b (i + 1) = Some r" "r = 0 \<longleftrightarrow> s = t'"
        using Cons.IH [of "i + 1" t'] by (auto simp: add.assoc)
      with True Cons.prems t show ?thesis by (subst strcmp_loop.simps) auto
    next
      case False
      with Cons.prems t show ?thesis by (subst strcmp_loop.simps) (auto simp: scast_u8_eq_iff scast_u8_eq_0)
    qed
  qed
qed


lemma c_string_cong:
  "(\<And>x. in_block a (Suc (length s)) x \<Longrightarrow> m' x = m x) \<Longrightarrow> length s < 2 ^ 32 - 1 \<Longrightarrow>
   c_string m' a s = c_string m a s"
proof (induction s arbitrary: a)
  case Nil
  then show ?case by (simp add: in_block_def)
next
  case (Cons c s)
  have "m' x = m x" if "in_block (a + 1) (Suc (length s)) x" for x
    using that Cons.prems in_block_Suc [of "Suc (length s)" a x] by simp
  moreover have "m' a = m a" using Cons.prems by (simp add: in_block_def)
  ultimately show ?case using Cons by simp
qed

text \<open>The loop that copies a string of length \<open>n\<close> is the copy of its \<open>n + 1\<close> bytes.\<close>

lemma strcpy_loop_memcpy:
  "c_string m (src + i) s \<Longrightarrow> disjoint_blocks (dst + i) (src + i) (Suc (length s)) \<Longrightarrow>
   length s < 2 ^ 32 - 1 \<Longrightarrow>
   strcpy_loop dst src i m = Some (memcpy_loop (Suc (length s)) (dst + i) (src + i) m)"
proof (induction s arbitrary: i m)
  case Nil
  then show ?case by (subst strcpy_loop.simps) (simp add: Let_def)
next
  case (Cons c s)
  let ?m = "m(dst + i := m (src + i))"
  have D: "\<not> in_block (src + i) (Suc (Suc (length s))) (dst + i)"
    using Cons.prems by (auto simp: disjoint_blocks_def in_block_Suc)
  have "c_string ?m (src + i + 1) s = c_string m (src + i + 1) s"
    using D Cons.prems by (intro c_string_cong) (auto simp: in_block_Suc [of "Suc (length s)"])
  moreover have "disjoint_blocks (dst + i + 1) (src + i + 1) (Suc (length s))"
    using Cons.prems by (auto simp: disjoint_blocks_def in_block_Suc [of "Suc (length s)"])
  ultimately have "strcpy_loop dst src (i + 1) ?m =
      Some (memcpy_loop (Suc (length s)) (dst + (i + 1)) (src + (i + 1)) ?m)"
    using Cons.prems Cons.IH [of "?m" "i + 1"] by (simp add: add.assoc del: fun_upd_apply)
  with Cons.prems show ?case
    by (subst strcpy_loop.simps) (simp add: Let_def add.assoc del: fun_upd_apply, simp)
qed

end
