(* ===== verification/Sio.thy ===== *)
theory Sio
  imports Klib
begin

text \<open>
  The serial line module, \<^verbatim>\<open>kernel/sio.c\<close>, apart from its interrupt handler, which
  works on the process queues and is in \<open>Interrupts\<close>.  A pointer into a buffer is an
  index; a write outside the buffer is a fault.  Writes to the device's ports are
  recorded in order.  The routine \<^verbatim>\<open>_sio_dump\<close>, which only prints, is left out.
\<close>

section \<open>State\<close>

definition BUF_SIZE :: nat where
  "BUF_SIZE = 2048"

record sio =
  sio_inbuffer :: "nat \<Rightarrow> u8"
  sio_inlast :: nat
  sio_innext :: nat
  sio_incount :: u32
  sio_outbuffer :: "nat \<Rightarrow> u8"
  sio_outlast :: nat
  sio_outnext :: nat
  sio_outcount :: u32
  sio_sending :: bool
  sio_ier :: u8
  sio_ports :: "(u16 \<times> u8) list"

abbreviation UA4_TXD :: u16 where "UA4_TXD \<equiv> 0x3f8"
abbreviation UA4_IER :: u16 where "UA4_IER \<equiv> 0x3f9"
abbreviation UA4_FCR :: u16 where "UA4_FCR \<equiv> 0x3fa"
abbreviation UA4_LCR :: u16 where "UA4_LCR \<equiv> 0x3fb"
abbreviation UA4_MCR :: u16 where "UA4_MCR \<equiv> 0x3fc"
abbreviation UA4_IER_RX_INT_ENABLE :: u8 where "UA4_IER_RX_INT_ENABLE \<equiv> 1"
abbreviation UA4_IER_TX_INT_ENABLE :: u8 where "UA4_IER_TX_INT_ENABLE \<equiv> 2"
abbreviation SIO_TX :: u8 where "SIO_TX \<equiv> 1"
abbreviation SIO_RX :: u8 where "SIO_RX \<equiv> 2"

definition sio_outb :: "u16 \<Rightarrow> u8 \<Rightarrow> sio \<Rightarrow> sio" where
  "sio_outb p v s = s\<lparr>sio_ports := sio_ports s @ [(p, v)]\<rparr>"

section \<open>Operations\<close>

definition sio_init :: "sio \<Rightarrow> sio" where
  "sio_init s =
     fold (\<lambda>(p, v). sio_outb p v)
       [(UA4_LCR, 0x80), (0x3f8, 12), (0x3f9, 0), (UA4_LCR, 0x03), (UA4_MCR, 0x0b)]
       ((fold (\<lambda>(p, v). sio_outb p v)
          [(UA4_FCR, 0x20), (UA4_FCR, 0x00), (UA4_FCR, 0x01), (UA4_FCR, 0x03), (UA4_FCR, 0x07),
           (UA4_IER, 0)]
          (s\<lparr>sio_inbuffer := \<lambda>_. 0, sio_inlast := 0, sio_innext := 0, sio_incount := 0,
             sio_outbuffer := \<lambda>_. 0, sio_outlast := 0, sio_outnext := 0, sio_outcount := 0,
             sio_sending := False\<rparr>))\<lparr>sio_ier := 0\<rparr>)"

definition sio_set_ier :: "u8 \<Rightarrow> sio \<Rightarrow> sio" where
  "sio_set_ier v s =
     (if sio_ier s \<noteq> v then sio_outb UA4_IER v (s\<lparr>sio_ier := v\<rparr>) else s\<lparr>sio_ier := v\<rparr>)"

definition sio_enable :: "u8 \<Rightarrow> sio \<Rightarrow> u8 \<times> sio" where
  "sio_enable which s =
     (let ier1 = (if which AND SIO_TX \<noteq> 0 then sio_ier s OR UA4_IER_TX_INT_ENABLE else sio_ier s);
          ier2 = (if which AND SIO_RX \<noteq> 0 then ier1 OR UA4_IER_RX_INT_ENABLE else ier1)
      in (sio_ier s, sio_set_ier ier2 s))"

definition sio_disable :: "u8 \<Rightarrow> sio \<Rightarrow> u8 \<times> sio" where
  "sio_disable which s =
     (let ier1 = (if which AND SIO_TX \<noteq> 0 then sio_ier s AND NOT UA4_IER_TX_INT_ENABLE else sio_ier s);
          ier2 = (if which AND SIO_RX \<noteq> 0 then ier1 AND NOT UA4_IER_RX_INT_ENABLE else ier1)
      in (sio_ier s, sio_set_ier ier2 s))"

text \<open>Reading one character: \<open>None\<close> stands for the result \<open>-1\<close>.\<close>

definition sio_reset_in :: "sio \<Rightarrow> sio" where
  "sio_reset_in s = (if sio_incount s < 1 then s\<lparr>sio_inlast := 0, sio_innext := 0\<rparr> else s)"

definition sio_readc :: "sio \<Rightarrow> (u8 option \<times> sio) outcome" where
  "sio_readc s =
     (if 0 < sio_incount s then
        if BUF_SIZE \<le> sio_innext s then Inl (Fault ''_sio_readc: read outside _inbuffer'')
        else
          let ch = sio_inbuffer s (sio_innext s);
              s1 = s\<lparr>sio_innext := sio_innext s + 1, sio_incount := sio_incount s - 1\<rparr>
          in Inr (Some ch, sio_reset_in s1)
      else Inr (None, s))"

text \<open>
  \<^verbatim>\<open>_sio_reads\<close>: the user buffer is the list of the characters copied.  The wrap-around
  test compares with \<^verbatim>\<open>>\<close>, one past the first address outside the buffer.
\<close>

fun sio_reads_loop :: "nat \<Rightarrow> u8 list \<Rightarrow> sio \<Rightarrow> (u8 list \<times> sio) outcome" where
  "sio_reads_loop 0 acc s = Inr (acc, s)"
| "sio_reads_loop (Suc room) acc s =
     (if 0 < sio_incount s then
        if BUF_SIZE \<le> sio_innext s then Inl (Fault ''_sio_reads: read outside _inbuffer'')
        else
          let ch = sio_inbuffer s (sio_innext s);
              nxt = sio_innext s + 1
          in sio_reads_loop room (acc @ [ch])
               (s\<lparr>sio_innext := (if nxt > BUF_SIZE then 0 else nxt),
                  sio_incount := sio_incount s - 1\<rparr>)
      else Inr (acc, s))"

definition sio_reads :: "int \<Rightarrow> sio \<Rightarrow> (u8 list \<times> sio) outcome" where
  "sio_reads len s =
     (if sio_incount s < 1 then Inr ([], s)
      else andThen (sio_reads_loop (nat len) [] s) (\<lambda>(cs, s1). Inr (cs, sio_reset_in s1)))"

text \<open>The part of \<^verbatim>\<open>_sio_writec\<close> after the mapping of line feeds.\<close>

definition sio_put :: "u32 \<Rightarrow> sio \<Rightarrow> sio outcome" where
  "sio_put ch s =
     (if sio_sending s then
        if BUF_SIZE \<le> sio_outlast s then Inl (Fault ''_sio_writec: write outside _outbuffer'')
        else Inr (s\<lparr>sio_outbuffer := (sio_outbuffer s)(sio_outlast s := ucast ch),
                    sio_outlast := sio_outlast s + 1, sio_outcount := sio_outcount s + 1\<rparr>)
      else Inr (snd (sio_enable SIO_TX (sio_outb UA4_TXD (ucast ch) (s\<lparr>sio_sending := True\<rparr>)))))"

definition sio_writec :: "u32 \<Rightarrow> sio \<Rightarrow> sio outcome" where
  "sio_writec ch s =
     (if ch = 10 then andThen (sio_put 13 s) (sio_put ch) else sio_put ch s)"

text \<open>\<^verbatim>\<open>_sio_writes\<close>, on the bytes of the buffer that is written.\<close>

fun sio_writes_loop :: "nat \<Rightarrow> nat \<Rightarrow> (nat \<Rightarrow> u8) \<Rightarrow> sio \<Rightarrow> (nat \<times> sio) outcome" where
  "sio_writes_loop 0 i buf s = Inr (0, s)"
| "sio_writes_loop (Suc n) i buf s =
     (if sio_outcount s < of_nat BUF_SIZE then
        if BUF_SIZE \<le> sio_outlast s then Inl (Fault ''_sio_writes: write outside _outbuffer'')
        else
          let l = sio_outlast s + 1
          in andThen (sio_writes_loop n (i + 1) buf
               (s\<lparr>sio_outbuffer := (sio_outbuffer s)(sio_outlast s := buf i),
                  sio_outlast := (if l \<ge> BUF_SIZE then 0 else l), sio_outcount := sio_outcount s + 1\<rparr>))
               (\<lambda>(k, s1). Inr (k + 1, s1))
      else Inr (0, s))"

definition sio_writes :: "(nat \<Rightarrow> u8) \<Rightarrow> int \<Rightarrow> sio \<Rightarrow> (nat \<times> sio) outcome" where
  "sio_writes buf len s =
     (if sio_sending s then sio_writes_loop (nat len) 0 buf s
      else andThen (sio_writes_loop (nat (len - 1)) 1 buf s)
             (\<lambda>(k, s1). andThen (sio_writec (scast (buf 0)) s1) (\<lambda>s2. Inr (k + 1, s2))))"

text \<open>The receive and transmit branches of the interrupt handler.\<close>

definition sio_rx_store :: "u8 \<Rightarrow> sio \<Rightarrow> sio outcome" where
  "sio_rx_store ch s =
     (if sio_incount s < of_nat BUF_SIZE then
        if BUF_SIZE \<le> sio_inlast s then Inl (Fault ''_isr_sio: write outside _inbuffer'')
        else Inr (s\<lparr>sio_inbuffer := (sio_inbuffer s)(sio_inlast s := ch),
                    sio_inlast := sio_inlast s + 1, sio_incount := sio_incount s + 1\<rparr>)
      else Inr s)"

definition sio_tx_next :: "sio \<Rightarrow> sio outcome" where
  "sio_tx_next s =
     (if sio_sending s \<and> 0 < sio_outcount s then
        if BUF_SIZE \<le> sio_outnext s then Inl (Fault ''_isr_sio: read outside _outbuffer'')
        else
          let s1 = sio_outb UA4_TXD (sio_outbuffer s (sio_outnext s)) s;
              n = sio_outnext s + 1
          in Inr (s1\<lparr>sio_outnext := (if n \<ge> BUF_SIZE then 0 else n),
                     sio_outcount := sio_outcount s - 1\<rparr>)
      else Inr (snd (sio_disable SIO_TX
                  (s\<lparr>sio_outcount := 0, sio_outlast := 0, sio_outnext := 0, sio_sending := False\<rparr>))))"

end
