(* ===== verification/Pids.thy ===== *)
theory Pids
  imports Klib
begin

text \<open>
  Process identifiers, \<^verbatim>\<open>pid_t\<close> of \<^verbatim>\<open>kernel/process.h\<close> with the routines of
  \<^verbatim>\<open>kernel/process.c\<close> on them, and the table of known hosts of \<^verbatim>\<open>kernel/hosts.c\<close>.  A hardware
  address of six bytes is a word of 48 bits, least significant byte first.
\<close>

type_synonym mac_address_t = "48 word"

record pid_t =
  pid_id :: u32
  pid_host :: mac_address_t
  pid_reserved :: u16

definition mac_byte :: "mac_address_t \<Rightarrow> nat \<Rightarrow> u8" where
  "mac_byte a i = ucast (drop_bit (8 * i) a)"

definition id_byte :: "u32 \<Rightarrow> nat \<Rightarrow> u8" where
  "id_byte x i = ucast (drop_bit (8 * i) x)"

definition pid_clear :: "pid_t" where
  "pid_clear = \<lparr>pid_id = 0, pid_host = 0, pid_reserved = 0\<rparr>"

definition pid_cmp :: "pid_t \<Rightarrow> pid_t \<Rightarrow> u32" where
  "pid_cmp p1 p2 =
     (let ret = u_memcmp (mac_byte (pid_host p1)) (mac_byte (pid_host p2)) 6
      in if ret = 0 then u_memcmp (id_byte (pid_id p1)) (id_byte (pid_id p2)) 4 else ret)"

lemma bytes_eq_imp:
  fixes a b :: "'a::len word"
  assumes "\<And>i. i < n \<Longrightarrow> (ucast (drop_bit (8 * i) a) :: u8) = ucast (drop_bit (8 * i) b)"
    and "LENGTH('a) = 8 * n"
  shows "a = b"
proof (rule bit_word_eqI)
  fix k
  assume k: "k < LENGTH('a)"
  let ?i = "k div 8" and ?j = "k mod 8"
  have "?i < n" using k assms(2) by auto
  then have "bit (ucast (drop_bit (8 * ?i) a) :: u8) ?j = bit (ucast (drop_bit (8 * ?i) b) :: u8) ?j"
    using assms(1) by simp
  then show "bit a k = bit b k" by (simp add: bit_simps)
qed

lemma mac_bytes_eq: "(\<forall>i < 6. mac_byte a i = mac_byte b i) \<longleftrightarrow> a = b"
  using bytes_eq_imp [of 6 a b] by (auto simp: mac_byte_def)

lemma id_bytes_eq: "(\<forall>i < 4. id_byte a i = id_byte b i) \<longleftrightarrow> a = b"
  using bytes_eq_imp [of 4 a b] by (auto simp: id_byte_def)

text \<open>The comparison is zero exactly for the same process on the same host.\<close>

lemma pid_cmp_zero [simp]: "pid_cmp p q = 0 \<longleftrightarrow> pid_host p = pid_host q \<and> pid_id p = pid_id q"
  by (simp add: pid_cmp_def memcmp_zero mac_bytes_eq id_bytes_eq Let_def)

section \<open>Process identifiers in memory\<close>

definition load48 :: "memory \<Rightarrow> u32 \<Rightarrow> mac_address_t" where
  "load48 m a = ucast (load32 m a) OR push_bit 32 (ucast (load16 m (a + 4)))"

definition store48 :: "u32 \<Rightarrow> mac_address_t \<Rightarrow> memory \<Rightarrow> memory" where
  "store48 a v m = store16 (a + 4) (ucast (drop_bit 32 v)) (store32 a (ucast v) m)"

definition load_pid :: "memory \<Rightarrow> u32 \<Rightarrow> pid_t" where
  "load_pid m a =
     \<lparr>pid_id = load32 m a, pid_host = load48 m (a + 4), pid_reserved = load16 m (a + 10)\<rparr>"

definition store_pid :: "u32 \<Rightarrow> pid_t \<Rightarrow> memory \<Rightarrow> memory" where
  "store_pid a p m =
     store16 (a + 10) (pid_reserved p) (store48 (a + 4) (pid_host p) (store32 a (pid_id p) m))"

lemma load48_store48 [simp]: "load48 (store48 a v m) a = v"
proof -
  have "load32 (store48 a v m) a = load32 (store32 a (ucast v) m) a"
    by (rule load32_cong) (auto simp: store48_def store16_def)
  then have "load32 (store48 a v m) a = ucast v" by simp
  moreover have "load16 (store48 a v m) (a + 4) = ucast (drop_bit 32 v)"
    by (simp add: store48_def)
  ultimately show ?thesis
    unfolding load48_def by (simp, intro bit_word_eqI) (auto simp: bit_simps)
qed

lemma load_store_pid [simp]: "load_pid (store_pid a p m) a = p"
proof -
  let ?m = "store32 a (pid_id p) m"
  have "load32 (store_pid a p m) a = load32 ?m a"
    by (rule load32_cong) (auto simp: store_pid_def store48_def store16_def store32_def)
  moreover have "load48 (store_pid a p m) (a + 4) = load48 (store48 (a + 4) (pid_host p) ?m) (a + 4)"
    unfolding load48_def store_pid_def
    by (intro arg_cong2 [where f = "\<lambda>x y. ucast x OR push_bit 32 (ucast y)"] load32_cong load16_cong)
      (auto simp: store16_def)
  moreover have "load16 (store_pid a p m) (a + 10) = pid_reserved p"
    by (simp add: store_pid_def)
  ultimately show ?thesis by (simp add: load_pid_def)
qed

section \<open>Known hosts\<close>

type_synonym hostname_map_t = "mac_address_t \<times> string"

definition mac_of :: "u8 list \<Rightarrow> mac_address_t" where
  "mac_of bs = foldr (\<lambda>b acc. push_bit 8 acc OR ucast b) bs 0"

text \<open>The rows of the table before its terminator, whose name is empty.\<close>

definition dsl_hosts :: "hostname_map_t list" where
  "dsl_hosts =
     [(mac_of [0x00, 0x90, 0x27, 0x90, 0x29, 0x9d], ''lestrade''),
      (mac_of [0x00, 0x90, 0x27, 0xbb, 0xd9, 0x6a], ''addler''),
      (mac_of [0x00, 0x90, 0x27, 0xbb, 0xd9, 0x90], ''baskerville''),
      (mac_of [0x00, 0x90, 0x27, 0xbb, 0xd9, 0xbd], ''slaney''),
      (mac_of [0x00, 0x90, 0x27, 0xbb, 0xd9, 0xcd], ''beppo''),
      (mac_of [0x00, 0x90, 0x27, 0xbb, 0xd9, 0xf8], ''milverton''),
      (mac_of [0x00, 0x90, 0x27, 0xbb, 0xda, 0x28], ''wilson''),
      (mac_of [0x00, 0x90, 0x27, 0xbb, 0xda, 0xc0], ''moriarty''),
      (mac_of [0x00, 0x90, 0x27, 0xbb, 0xda, 0xd9], ''sholto'')]"

fun hosts_scan :: "(hostname_map_t \<Rightarrow> bool) \<Rightarrow> hostname_map_t list \<Rightarrow> hostname_map_t option" where
  "hosts_scan p [] = None"
| "hosts_scan p (h # hs) = (if p h then Some h else hosts_scan p hs)"

definition mac_matches :: "mac_address_t \<Rightarrow> hostname_map_t \<Rightarrow> bool" where
  "mac_matches mac h \<longleftrightarrow> u_memcmp (mac_byte mac) (mac_byte (fst h)) 6 = 0"

definition hosts_isknown :: "mac_address_t \<Rightarrow> bool" where
  "hosts_isknown mac \<longleftrightarrow> hosts_scan (mac_matches mac) dsl_hosts \<noteq> None"

definition hosts_get_hostname :: "mac_address_t \<Rightarrow> string option" where
  "hosts_get_hostname mac = map_option snd (hosts_scan (mac_matches mac) dsl_hosts)"

definition hosts_get_address :: "string \<Rightarrow> mac_address_t option" where
  "hosts_get_address name = map_option fst (hosts_scan (\<lambda>h. snd h = name) dsl_hosts)"

lemma hosts_scan_find: "hosts_scan p hs = List.find p hs"
  by (induction hs) auto

lemma hosts_known_hostname: "hosts_isknown mac \<longleftrightarrow> hosts_get_hostname mac \<noteq> None"
  by (simp add: hosts_isknown_def hosts_get_hostname_def)

lemma dsl_hosts_distinct: "distinct (map fst dsl_hosts)" "distinct (map snd dsl_hosts)"
  by code_simp+

lemma hosts_scan_unique:
  "distinct (map f hs) \<Longrightarrow> h \<in> set hs \<Longrightarrow> hosts_scan (\<lambda>g. f g = f h) hs = Some h"
  by (induction hs) (auto simp: image_iff)

text \<open>Names and addresses of the table determine each other.\<close>

lemma hosts_roundtrip:
  assumes "(mac, name) \<in> set dsl_hosts"
  shows "hosts_get_hostname mac = Some name" and "hosts_get_address name = Some mac"
proof -
  have "mac_matches mac = (\<lambda>g. fst g = fst (mac, name))"
    by (auto simp: mac_matches_def fun_eq_iff memcmp_zero mac_bytes_eq)
  then show "hosts_get_hostname mac = Some name"
    using hosts_scan_unique [OF dsl_hosts_distinct(1) assms] by (simp add: hosts_get_hostname_def)
  show "hosts_get_address name = Some mac"
    using hosts_scan_unique [OF dsl_hosts_distinct(2) assms] by (simp add: hosts_get_address_def)
qed

end
