(* ===== verification/Screens.thy ===== *)
theory Screens
  imports Pids
begin

text \<open>
  The screen module, \<^verbatim>\<open>kernel/screen.c\<close>: sixteen screens, each with a node of a singly
  linked list, and two queues of nodes, the unused and the active screens.  A node pointer
  is \<open>None\<close> or an index.  A screen holds its frame buffer (as bytes), its owner, and ring
  buffers for the keyboard and the mouse; a handle is a signed integer of 32 bits.
\<close>

section \<open>State\<close>

definition NUM_SCREENS :: nat where
  "NUM_SCREENS = 16"

definition BUFSIZE :: nat where
  "BUFSIZE = 200"

type_synonym handle_t = "32 word"

type_synonym framebuffer = "nat \<Rightarrow> u8"

record input_buffer =
  ib_buffer :: "nat \<Rightarrow> u8"
  ib_next_char :: "nat option"
  ib_next_space :: "nat option"

record screen_t =
  scr_fb :: framebuffer
  scr_draw_mode :: u32
  scr_owner :: pid_t
  scr_kb :: input_buffer
  scr_mouse :: input_buffer

record screen_qnode =
  sqn_handle :: handle_t
  sqn_next :: "nat option"

record screen_queue =
  sq_first :: "nat option"
  sq_last :: "nat option"
  sq_length :: u32

record screens =
  screen_tab :: "nat \<Rightarrow> screen_t"
  screen_nodes :: "nat \<Rightarrow> screen_qnode"
  unused_screens :: screen_queue
  active_screens :: screen_queue
  active_screen :: handle_t

section \<open>Queues of screens\<close>

text \<open>The queue routines work on the node array and one queue.\<close>

type_synonym snodes = "nat \<Rightarrow> screen_qnode"

definition s_dequeue :: "snodes \<Rightarrow> screen_queue \<Rightarrow> (nat option \<times> screen_queue) outcome" where
  "s_dequeue nd q =
     (if sq_length q = 0 then Inr (None, q)
      else case sq_first q of
        None \<Rightarrow> Inl (Fault ''_dequeue: null first'')
      | Some n \<Rightarrow>
          let q1 = q\<lparr>sq_length := sq_length q - 1\<rparr>;
              q2 = q1\<lparr>sq_first := sqn_next (nd n)\<rparr>;
              q3 = (if Some n = sq_last q2 then q2\<lparr>sq_last := None\<rparr> else q2)
          in Inr (Some n, q3))"

text \<open>
  The walk of \<^verbatim>\<open>_remove_node\<close>: the node with the handle and its predecessor, or \<open>None\<close>.
\<close>

fun s_find :: "nat \<Rightarrow> snodes \<Rightarrow> handle_t \<Rightarrow> nat option \<Rightarrow> nat option \<Rightarrow> (nat option \<times> nat option) outcome" where
  "s_find fuel nd sd prev None = Inr (prev, None)"
| "s_find 0 nd sd prev (Some n) = Inl Diverges"
| "s_find (Suc fuel) nd sd prev (Some n) =
     (if sqn_handle (nd n) = sd then Inr (prev, Some n)
      else s_find fuel nd sd (Some n) (sqn_next (nd n)))"

definition s_remove_node ::
  "handle_t \<Rightarrow> snodes \<Rightarrow> screen_queue \<Rightarrow> (nat option \<times> snodes \<times> screen_queue) outcome" where
  "s_remove_node sd nd q =
     andThen (s_find NUM_SCREENS nd sd None (sq_first q))
       (\<lambda>(prev, node).
         case node of
           None \<Rightarrow> Inr (None, nd, q\<lparr>sq_length := sq_length q - 1\<rparr>)
         | Some n \<Rightarrow>
             let nxt = sqn_next (nd n);
                 nd1 = (case prev of Some p \<Rightarrow> nd(p := (nd p)\<lparr>sqn_next := nxt\<rparr>) | None \<Rightarrow> nd);
                 q1 = (case prev of Some p \<Rightarrow> q | None \<Rightarrow> q\<lparr>sq_first := nxt\<rparr>);
                 q2 = (if sqn_next (nd1 n) = None then q1\<lparr>sq_last := prev\<rparr> else q1)
             in Inr (Some n, nd1, q2\<lparr>sq_length := sq_length q2 - 1\<rparr>))"

definition s_enqueue :: "nat \<Rightarrow> snodes \<Rightarrow> screen_queue \<Rightarrow> (snodes \<times> screen_queue) outcome" where
  "s_enqueue n nd q =
     (let nd1 = nd(n := (nd n)\<lparr>sqn_next := None\<rparr>)
      in if sq_length q \<noteq> 0 then
           case sq_last q of
             None \<Rightarrow> Inl (Fault ''_enqueue: null last'')
           | Some l \<Rightarrow>
               Inr (nd1(l := (nd1 l)\<lparr>sqn_next := Some n\<rparr>),
                    q\<lparr>sq_last := Some n, sq_length := sq_length q + 1\<rparr>)
         else Inr (nd1, q\<lparr>sq_first := Some n, sq_last := Some n, sq_length := sq_length q + 1\<rparr>))"

definition clear_screen :: "screen_t \<Rightarrow> screen_t" where
  "clear_screen s =
     \<lparr>scr_fb = \<lambda>_. 0, scr_draw_mode = 0, scr_owner = pid_clear,
      scr_kb = \<lparr>ib_buffer = \<lambda>_. 0, ib_next_char = None, ib_next_space = None\<rparr>,
      scr_mouse = \<lparr>ib_buffer = \<lambda>_. 0, ib_next_char = None, ib_next_space = None\<rparr>\<rparr>"

definition screen_init :: "screens \<Rightarrow> screens" where
  "screen_init s =
     (let s1 = fold (\<lambda>i s. s\<lparr>screen_nodes := (screen_nodes s)(i := (screen_nodes s i)\<lparr>sqn_handle := of_nat i\<rparr>),
                             screen_tab := (screen_tab s)(i := (screen_tab s i)\<lparr>scr_owner := pid_clear\<rparr>)\<rparr>)
                [0..<NUM_SCREENS] s;
          s2 = s1\<lparr>unused_screens := \<lparr>sq_first = Some 0, sq_last = Some (NUM_SCREENS - 1),
                                     sq_length = of_nat NUM_SCREENS\<rparr>,
                 active_screens := \<lparr>sq_first = None, sq_last = None, sq_length = 0\<rparr>\<rparr>
      in fold (\<lambda>i s. s\<lparr>screen_nodes := (screen_nodes s)
                         (i := \<lparr>sqn_handle = of_nat i, sqn_next = Some (i + 1)\<rparr>)\<rparr>)
           [0..<NUM_SCREENS - 1] s2)"

definition screen_dequeue :: "screens \<Rightarrow> (handle_t \<times> screens) outcome" where
  "screen_dequeue s =
     andThen (s_dequeue (screen_nodes s) (unused_screens s))
       (\<lambda>(node, uq).
         case node of
           None \<Rightarrow> Inr (E_EMPTY, s\<lparr>unused_screens := uq\<rparr>)
         | Some n \<Rightarrow>
             andThen (s_enqueue n (screen_nodes s) (active_screens s))
               (\<lambda>(nd, aq).
                 let h = sqn_handle (nd n)
                 in Inr (h, s\<lparr>screen_nodes := nd, unused_screens := uq, active_screens := aq,
                              screen_tab := (screen_tab s)(unat h := clear_screen (screen_tab s (unat h)))\<rparr>)))"

definition screen_enqueue :: "handle_t \<Rightarrow> screens \<Rightarrow> (status_t \<times> screens) outcome" where
  "screen_enqueue sd s =
     andThen (s_remove_node sd (screen_nodes s) (active_screens s))
       (\<lambda>(node, nd, aq).
         case node of
           None \<Rightarrow> Inr (E_BAD_PARAM, s\<lparr>screen_nodes := nd, active_screens := aq\<rparr>)
         | Some n \<Rightarrow>
             andThen (s_enqueue n nd (unused_screens s))
               (\<lambda>(nd1, uq). Inr (E_SUCCESS, s\<lparr>screen_nodes := nd1, active_screens := aq,
                                            unused_screens := uq\<rparr>)))"

section \<open>The lists of the two queues\<close>

fun s_list :: "snodes \<Rightarrow> nat option \<Rightarrow> nat list \<Rightarrow> bool" where
  "s_list nd h [] \<longleftrightarrow> h = None"
| "s_list nd h (x # xs) \<longleftrightarrow> h = Some x \<and> s_list nd (sqn_next (nd x)) xs"

definition sq_rep :: "snodes \<Rightarrow> screen_queue \<Rightarrow> nat list \<Rightarrow> bool" where
  "sq_rep nd q xs \<longleftrightarrow>
     s_list nd (sq_first q) xs \<and> (xs \<noteq> [] \<longrightarrow> sq_last q = Some (last xs)) \<and>
     sq_length q = of_nat (length xs) \<and> distinct xs \<and> set xs \<subseteq> {..<NUM_SCREENS}"

lemma s_list_cong:
  "(\<And>x. x \<in> set xs \<Longrightarrow> sqn_next (nd' x) = sqn_next (nd x)) \<Longrightarrow> s_list nd' h xs = s_list nd h xs"
  by (induction xs arbitrary: h) auto

lemma s_list_upd: "x \<notin> set xs \<Longrightarrow> s_list (nd(x := v)) h xs = s_list nd h xs"
  by (rule s_list_cong) auto

lemma s_list_link:
  assumes "s_list nd h xs" and "xs \<noteq> []" and "distinct (xs @ [n])" and "sqn_next (nd n) = None"
  shows "s_list (nd(last xs := (nd (last xs))\<lparr>sqn_next := Some n\<rparr>)) h (xs @ [n])"
  using assms
proof (induction xs arbitrary: h)
  case (Cons x xs)
  show ?case
  proof (cases "xs = []")
    case False
    then have "last xs \<noteq> x" using Cons.prems(3) last_in_set by fastforce
    moreover have "s_list (nd(last xs := (nd (last xs))\<lparr>sqn_next := Some n\<rparr>)) (sqn_next (nd x)) (xs @ [n])"
      using Cons.prems False by (intro Cons.IH) auto
    ultimately show ?thesis
      using False Cons.prems(1) by (simp add: fun_upd_other del: fun_upd_apply)
  qed (use Cons.prems in auto)
qed simp

lemma sq_rep_length: "sq_rep nd q xs \<Longrightarrow> length xs \<le> NUM_SCREENS"
  unfolding sq_rep_def by (metis card_lessThan card_mono distinct_card finite_lessThan)

lemma sq_rep_empty:
  assumes "sq_rep nd q xs"
  shows "sq_length q = 0 \<longleftrightarrow> xs = []"
proof -
  have "length xs < 2 ^ 32" using sq_rep_length [OF assms] by (simp add: NUM_SCREENS_def)
  then show ?thesis using assms by (simp add: sq_rep_def of_nat_u32_eq_0)
qed

lemma s_dequeue_rep:
  assumes "sq_rep nd q xs"
  shows "case xs of
      [] \<Rightarrow> s_dequeue nd q = Inr (None, q)
    | n # ys \<Rightarrow> \<exists>q'. s_dequeue nd q = Inr (Some n, q') \<and> sq_rep nd q' ys"
proof (cases xs)
  case Nil
  then show ?thesis using sq_rep_empty [OF assms] by (simp add: s_dequeue_def)
next
  case (Cons n ys)
  then have "sq_length q \<noteq> 0" using sq_rep_empty [OF assms] by simp
  moreover have "last ys \<noteq> n" if "ys \<noteq> []"
    using assms Cons last_in_set [OF that] by (auto simp: sq_rep_def)
  ultimately show ?thesis
    using assms Cons by (auto simp: s_dequeue_def sq_rep_def Let_def)
qed

lemma s_enqueue_rep:
  assumes rep: "sq_rep nd q xs" and n: "n \<notin> set xs" "n < NUM_SCREENS"
  shows "\<exists>nd' q'. s_enqueue n nd q = Inr (nd', q') \<and> sq_rep nd' q' (xs @ [n]) \<and>
           (\<forall>x. x \<notin> insert n (set xs) \<longrightarrow> nd' x = nd x) \<and>
           (\<forall>x. sqn_handle (nd' x) = sqn_handle (nd x))"
proof (cases "xs = []")
  case True
  then show ?thesis
    using sq_rep_empty [OF rep] rep n by (auto simp: s_enqueue_def sq_rep_def Let_def)
next
  case False
  let ?nd = "nd(n := (nd n)\<lparr>sqn_next := None\<rparr>)"
  let ?nd' = "?nd(last xs := (?nd (last xs))\<lparr>sqn_next := Some n\<rparr>)"
  have "last xs \<noteq> n" using n(1) last_in_set [OF False] by auto
  have "s_list ?nd (sq_first q) xs" using rep n by (simp add: s_list_upd sq_rep_def)
  then have "s_list ?nd' (sq_first q) (xs @ [n])"
    using False n rep by (intro s_list_link) (auto simp: sq_rep_def)
  then have "sq_rep ?nd' (q\<lparr>sq_last := Some n, sq_length := sq_length q + 1\<rparr>) (xs @ [n])"
    using rep n by (auto simp: sq_rep_def)
  moreover have "s_enqueue n nd q = Inr (?nd', q\<lparr>sq_last := Some n, sq_length := sq_length q + 1\<rparr>)"
    using False sq_rep_empty [OF rep] rep by (simp add: s_enqueue_def sq_rep_def Let_def)
  moreover have "\<forall>x. x \<notin> insert n (set xs) \<longrightarrow> ?nd' x = nd x"
    using last_in_set [OF False] by auto
  ultimately show ?thesis by auto
qed


text \<open>The walk stops at the first node with the handle.\<close>

lemma s_find_list:
  "s_list nd h xs \<Longrightarrow> length xs \<le> fuel \<Longrightarrow>
   s_find fuel nd sd prev h =
     Inr (case dropWhile (\<lambda>x. sqn_handle (nd x) \<noteq> sd) xs of
            [] \<Rightarrow> (if xs = [] then prev else Some (last xs), None)
          | y # ys \<Rightarrow>
              (let as = takeWhile (\<lambda>x. sqn_handle (nd x) \<noteq> sd) xs
               in if as = [] then prev else Some (last as), Some y))"
proof (induction xs arbitrary: h fuel prev)
  case (Cons x xs)
  then obtain k where k: "fuel = Suc k" by (cases fuel) auto
  show ?case
  proof (cases "sqn_handle (nd x) = sd")
    case False
    then have "s_find fuel nd sd prev h = s_find k nd sd (Some x) (sqn_next (nd x))"
      using Cons.prems k by simp
    also note Cons.IH [of "sqn_next (nd x)" k "Some x"]
    finally show ?thesis
      using Cons.prems k False
      by (cases "dropWhile (\<lambda>x. sqn_handle (nd x) \<noteq> sd) xs")
        (simp_all add: Let_def del: dropWhile_eq_Nil_conv)
  qed (use Cons.prems k in simp)
qed simp

lemma s_list_split:
  "s_list nd h (xs @ n # ys) \<Longrightarrow> distinct (xs @ n # ys) \<Longrightarrow>
   (if xs = [] then s_list nd (sqn_next (nd n)) ys
    else s_list (nd(last xs := (nd (last xs))\<lparr>sqn_next := sqn_next (nd n)\<rparr>)) h (xs @ ys))"
proof (induction xs arbitrary: h)
  case (Cons x xs)
  show ?case
  proof (cases "xs = []")
    case True
    then show ?thesis using Cons.prems by (auto simp: s_list_upd)
  next
    case False
    then have "last xs \<noteq> x" using Cons.prems(2) last_in_set by fastforce
    then show ?thesis
      using False Cons.prems Cons.IH [of "sqn_next (nd x)"]
      by (simp add: fun_upd_other del: fun_upd_apply)
  qed
qed simp

lemma s_remove_node_absent:
  assumes rep: "sq_rep nd q xs" and "\<forall>x \<in> set xs. sqn_handle (nd x) \<noteq> sd"
  shows "s_remove_node sd nd q = Inr (None, nd, q\<lparr>sq_length := sq_length q - 1\<rparr>)"
proof -
  have drop: "dropWhile (\<lambda>x. sqn_handle (nd x) \<noteq> sd) xs = []" using assms(2) by simp
  have "s_list nd (sq_first q) xs" using rep by (simp add: sq_rep_def)
  then obtain prev where "s_find NUM_SCREENS nd sd None (sq_first q) = Inr (prev, None)"
    using s_find_list [of nd "sq_first q" xs NUM_SCREENS sd None] sq_rep_length [OF rep]
    by (auto simp only: drop list.case)
  then show ?thesis by (simp add: s_remove_node_def)
qed

lemma s_remove_node_rep:
  assumes rep: "sq_rep nd q (xs @ n # ys)" and h: "sqn_handle (nd n) = sd"
    and first: "\<forall>x \<in> set xs. sqn_handle (nd x) \<noteq> sd"
  shows "\<exists>nd' q'. s_remove_node sd nd q = Inr (Some n, nd', q') \<and> sq_rep nd' q' (xs @ ys) \<and>
           (\<forall>x. x \<notin> set (xs @ n # ys) \<longrightarrow> nd' x = nd x) \<and>
           (\<forall>x. sqn_handle (nd' x) = sqn_handle (nd x))"
proof -
  let ?prev = "if xs = [] then None else Some (last xs)"
  let ?nd = "if xs = [] then nd else nd(last xs := (nd (last xs))\<lparr>sqn_next := sqn_next (nd n)\<rparr>)"
  let ?q = "q\<lparr>sq_first := (if xs = [] then sqn_next (nd n) else sq_first q),
              sq_last := (if ys = [] then ?prev else sq_last q), sq_length := sq_length q - 1\<rparr>"
  have seg: "s_list nd (sq_first q) (xs @ n # ys)" and dist: "distinct (xs @ n # ys)"
    using rep by (auto simp: sq_rep_def)
  have nx: "sqn_next (nd n) = None \<longleftrightarrow> ys = []"
  proof -
    have "s_list nd h (xs @ n # ys) \<Longrightarrow> s_list nd (sqn_next (nd n)) ys" for h
      by (induction xs arbitrary: h) auto
    from this [OF seg] have "s_list nd (sqn_next (nd n)) ys" .
    then show ?thesis by (cases ys) auto
  qed
  have find: "s_find NUM_SCREENS nd sd None (sq_first q) = Inr (?prev, Some n)"
    using s_find_list [OF seg sq_rep_length [OF rep], of sd None] h first by (simp add: Let_def)
  have neq: "xs \<noteq> [] \<Longrightarrow> last xs \<noteq> n" using dist last_in_set by fastforce
  have "s_remove_node sd nd q = Inr (Some n, ?nd, ?q)"
    unfolding s_remove_node_def find using neq nx by (auto simp: Let_def)
  moreover have "s_list ?nd (sq_first ?q) (xs @ ys)"
    using s_list_split [OF seg dist] by auto
  then have "sq_rep ?nd ?q (xs @ ys)"
    using rep by (auto simp: sq_rep_def)
  moreover have "\<forall>x. x \<notin> set (xs @ n # ys) \<longrightarrow> ?nd x = nd x"
    using last_in_set [of xs] by auto
  ultimately show ?thesis by auto
qed

section \<open>The pool of screens\<close>

text \<open>
  \<open>screens_rep s U A\<close>: the unused queue lists the screens \<open>U\<close>, the active queue the
  screens \<open>A\<close>, each screen is in one of the two, and node \<open>i\<close> has handle \<open>i\<close>.
\<close>

definition screens_rep :: "screens \<Rightarrow> nat list \<Rightarrow> nat list \<Rightarrow> bool" where
  "screens_rep s U A \<longleftrightarrow>
     sq_rep (screen_nodes s) (unused_screens s) U \<and> sq_rep (screen_nodes s) (active_screens s) A \<and>
     set U \<inter> set A = {} \<and> set U \<union> set A = {..<NUM_SCREENS} \<and>
     (\<forall>i < NUM_SCREENS. sqn_handle (screen_nodes s i) = of_nat i)"

lemma sq_rep_cong:
  "(\<And>x. x \<in> set xs \<Longrightarrow> nd' x = nd x) \<Longrightarrow> sq_rep nd' q xs = sq_rep nd q xs"
  unfolding sq_rep_def by (metis s_list_cong)

lemma handle_eq_iff:
  assumes "x < NUM_SCREENS" and "i < NUM_SCREENS"
  shows "(of_nat x :: handle_t) = of_nat i \<longleftrightarrow> x = i"
proof
  assume "(of_nat x :: handle_t) = of_nat i"
  then have "unat (of_nat x :: handle_t) = unat (of_nat i :: handle_t)" by simp
  then show "x = i" using assms by (simp add: NUM_SCREENS_def unat_of_nat_u32 del: unat_of_nat)
qed simp

lemma screen_dequeue_rep:
  assumes rep: "screens_rep s U A"
  shows "case U of
      [] \<Rightarrow> \<exists>s'. screen_dequeue s = Inr (E_EMPTY, s') \<and> screens_rep s' U A \<and>
             screen_tab s' = screen_tab s \<and> active_screen s' = active_screen s
    | n # U' \<Rightarrow> \<exists>s'. screen_dequeue s = Inr (of_nat n, s') \<and> screens_rep s' U' (A @ [n]) \<and>
             screen_tab s' = (screen_tab s)(n := clear_screen (screen_tab s n)) \<and>
             active_screen s' = active_screen s"
proof (cases U)
  case Nil
  then show ?thesis
    using s_dequeue_rep [of "screen_nodes s" "unused_screens s" U] rep
    by (auto simp: screen_dequeue_def screens_rep_def)
next
  case (Cons n U')
  obtain uq where uq: "s_dequeue (screen_nodes s) (unused_screens s) = Inr (Some n, uq)"
    "sq_rep (screen_nodes s) uq U'"
    using s_dequeue_rep [of "screen_nodes s" "unused_screens s" U] rep Cons
    by (auto simp: screens_rep_def)
  have n: "n < NUM_SCREENS" "n \<notin> set A" "n \<notin> set U'"
    using rep Cons by (auto simp: screens_rep_def sq_rep_def)
  obtain nd aq where aq: "s_enqueue n (screen_nodes s) (active_screens s) = Inr (nd, aq)"
    "sq_rep nd aq (A @ [n])" "\<And>x. x \<notin> insert n (set A) \<Longrightarrow> nd x = screen_nodes s x"
    "\<And>x. sqn_handle (nd x) = sqn_handle (screen_nodes s x)"
    using s_enqueue_rep [of "screen_nodes s" "active_screens s" A n] rep n
    by (auto simp: screens_rep_def)
  have handle: "sqn_handle (nd n) = of_nat n" using aq(4) rep n by (simp add: screens_rep_def)
  have nat: "unat (of_nat n :: handle_t) = n"
    using n(1) by (simp add: NUM_SCREENS_def unat_of_nat_u32 del: unat_of_nat)
  let ?s = "s\<lparr>screen_nodes := nd, unused_screens := uq, active_screens := aq,
      screen_tab := (screen_tab s)(n := clear_screen (screen_tab s n))\<rparr>"
  have "screen_dequeue s = Inr (of_nat n, ?s)"
    by (simp add: screen_dequeue_def uq(1) aq(1) Let_def handle nat del: unat_of_nat)
  moreover have "nd x = screen_nodes s x" if "x \<in> set U'" for x
    using that n rep Cons by (intro aq(3)) (auto simp: screens_rep_def)
  then have "sq_rep nd uq U'"
    using uq(2) sq_rep_cong [of U' nd "screen_nodes s" uq] by blast
  then have "screens_rep ?s U' (A @ [n])"
    using rep Cons aq n by (auto simp: screens_rep_def)
  ultimately show ?thesis using Cons by auto
qed

lemma screen_enqueue_rep:
  assumes rep: "screens_rep s U A" and i: "i \<in> set A"
  shows "\<exists>s'. screen_enqueue (of_nat i) s = Inr (E_SUCCESS, s') \<and>
           screens_rep s' (U @ [i]) (remove1 i A) \<and>
           screen_tab s' = screen_tab s \<and> active_screen s' = active_screen s"
proof -
  obtain xs ys where A: "A = xs @ i # ys" and first: "i \<notin> set xs"
    using i by (metis split_list_first)
  have sub: "set A \<subseteq> {..<NUM_SCREENS}" and dist: "distinct A" and iU: "i \<notin> set U"
    using rep i by (auto simp: screens_rep_def sq_rep_def)
  have H: "sqn_handle (screen_nodes s x) = of_nat x" if "x < NUM_SCREENS" for x
    using rep that by (simp add: screens_rep_def)
  have iN: "i < NUM_SCREENS" using sub i by blast
  have "sqn_handle (screen_nodes s x) \<noteq> of_nat i" if "x \<in> set xs" for x
  proof -
    have "x < NUM_SCREENS" and "x \<noteq> i" using that first sub A by auto
    then show ?thesis using H [of x] handle_eq_iff [of x i] iN by simp
  qed
  then obtain nd aq where aq: "s_remove_node (of_nat i) (screen_nodes s) (active_screens s) = Inr (Some i, nd, aq)"
    "sq_rep nd aq (xs @ ys)" "\<And>x. x \<notin> set A \<Longrightarrow> nd x = screen_nodes s x"
    "\<And>x. sqn_handle (nd x) = sqn_handle (screen_nodes s x)"
    using s_remove_node_rep [of "screen_nodes s" "active_screens s" xs i ys "of_nat i"] H [OF iN]
      rep [unfolded screens_rep_def A] unfolding A by blast
  have "nd x = screen_nodes s x" if "x \<in> set U" for x
    using that rep by (intro aq(3)) (auto simp: screens_rep_def)
  then have "sq_rep nd (unused_screens s) U"
    using rep sq_rep_cong [of U nd "screen_nodes s" "unused_screens s"]
    by (simp add: screens_rep_def)
  then obtain nd1 uq where uq: "s_enqueue i nd (unused_screens s) = Inr (nd1, uq)"
    "sq_rep nd1 uq (U @ [i])" "\<And>x. x \<notin> insert i (set U) \<Longrightarrow> nd1 x = nd x"
    "\<And>x. sqn_handle (nd1 x) = sqn_handle (nd x)"
    using s_enqueue_rep [of nd "unused_screens s" U i] iU sub i by auto
  let ?s = "s\<lparr>screen_nodes := nd1, active_screens := aq, unused_screens := uq\<rparr>"
  have "screen_enqueue (of_nat i) s = Inr (E_SUCCESS, ?s)"
    by (simp add: screen_enqueue_def aq(1) uq(1))
  moreover have "remove1 i A = xs @ ys" using first by (simp add: A remove1_append)
  moreover have "sq_rep nd1 aq (xs @ ys)"
  proof -
    have "x \<notin> insert i (set U)" if "x \<in> set (xs @ ys)" for x
      using that dist rep A by (auto simp: screens_rep_def)
    then show ?thesis using aq(2) uq(3) sq_rep_cong [of "xs @ ys" nd1 nd aq] by blast
  qed
  then have "screens_rep ?s (U @ [i]) (xs @ ys)"
    using rep A dist aq(4) uq(2,4) by (auto simp: screens_rep_def)
  ultimately show ?thesis by auto
qed


lemma fold_nodes:
  "screen_nodes (fold (\<lambda>i s. s\<lparr>screen_nodes := (screen_nodes s)(i := f i)\<rparr>) [0..<n] s) =
     (\<lambda>i. if i < n then f i else screen_nodes s i)"
  by (induction n) (auto simp: fun_eq_iff)

lemma fold_nodes_frame:
  "unused_screens (fold (\<lambda>i s. s\<lparr>screen_nodes := (screen_nodes s)(i := f i)\<rparr>) xs s) = unused_screens s"
  "active_screens (fold (\<lambda>i s. s\<lparr>screen_nodes := (screen_nodes s)(i := f i)\<rparr>) xs s) = active_screens s"
  "screen_tab (fold (\<lambda>i s. s\<lparr>screen_nodes := (screen_nodes s)(i := f i)\<rparr>) xs s) = screen_tab s"
  by (induction xs arbitrary: s) simp_all

lemma fold_handles:
  "screen_nodes (fold (\<lambda>i s. s\<lparr>screen_nodes := (screen_nodes s)(i := (screen_nodes s i)\<lparr>sqn_handle := of_nat i\<rparr>),
       screen_tab := (screen_tab s)(i := (screen_tab s i)\<lparr>scr_owner := pid_clear\<rparr>)\<rparr>) [0..<n] s) =
     (\<lambda>i. if i < n then (screen_nodes s i)\<lparr>sqn_handle := of_nat i\<rparr> else screen_nodes s i)"
  "screen_tab (fold (\<lambda>i s. s\<lparr>screen_nodes := (screen_nodes s)(i := (screen_nodes s i)\<lparr>sqn_handle := of_nat i\<rparr>),
       screen_tab := (screen_tab s)(i := (screen_tab s i)\<lparr>scr_owner := pid_clear\<rparr>)\<rparr>) [0..<n] s) =
     (\<lambda>i. if i < n then (screen_tab s i)\<lparr>scr_owner := pid_clear\<rparr> else screen_tab s i)"
  by (induction n) (auto simp: fun_eq_iff)

lemma s_list_upt:
  "(\<And>i. i < n \<Longrightarrow> sqn_next (nd i) = Some (i + 1)) \<Longrightarrow> sqn_next (nd n) = None \<Longrightarrow> k \<le> n \<Longrightarrow>
   s_list nd (Some k) [k..<Suc n]"
proof (induction "n - k" arbitrary: k)
  case (Suc d)
  then have "s_list nd (Some (Suc k)) [Suc k..<Suc n]" by (intro Suc(1)) auto
  then show ?case using Suc by (simp add: upt_conv_Cons [of k] del: upt_Suc)
qed simp

lemma screen_init_rep:
  assumes "sqn_next (screen_nodes s (NUM_SCREENS - 1)) = None"
  shows "screens_rep (screen_init s) [0..<NUM_SCREENS] []"
    and "i < NUM_SCREENS \<Longrightarrow> scr_owner (screen_tab (screen_init s) i) = pid_clear"
proof -
  have nodes: "screen_nodes (screen_init s) =
      (\<lambda>i. if i < NUM_SCREENS - 1 then \<lparr>sqn_handle = of_nat i, sqn_next = Some (i + 1)\<rparr>
           else if i < NUM_SCREENS then (screen_nodes s i)\<lparr>sqn_handle := of_nat i\<rparr>
           else screen_nodes s i)"
    by (simp add: screen_init_def Let_def fold_nodes fold_handles fun_eq_iff)
  have queues: "unused_screens (screen_init s) =
      \<lparr>sq_first = Some 0, sq_last = Some (NUM_SCREENS - 1), sq_length = of_nat NUM_SCREENS\<rparr>"
    "active_screens (screen_init s) = \<lparr>sq_first = None, sq_last = None, sq_length = 0\<rparr>"
    by (simp_all add: screen_init_def Let_def fold_nodes_frame)
  have N: "Suc (NUM_SCREENS - 1) = NUM_SCREENS" by (simp add: NUM_SCREENS_def)
  have "s_list (screen_nodes (screen_init s)) (Some 0) [0..<Suc (NUM_SCREENS - 1)]"
    using assms by (intro s_list_upt) (auto simp: nodes NUM_SCREENS_def)
  then have "sq_rep (screen_nodes (screen_init s)) (unused_screens (screen_init s)) [0..<NUM_SCREENS]"
    unfolding N by (auto simp: sq_rep_def queues NUM_SCREENS_def)
  then show "screens_rep (screen_init s) [0..<NUM_SCREENS] []"
    by (auto simp: screens_rep_def queues nodes sq_rep_def)
  show "i < NUM_SCREENS \<Longrightarrow> scr_owner (screen_tab (screen_init s) i) = pid_clear"
    by (simp add: screen_init_def Let_def fold_nodes_frame fold_handles)
qed

end
