(* ===== verification/Kernel_State.thy ===== *)
theory Kernel_State
  imports Queue_Interface Sio Screens
begin

text \<open>
  The state of the kernel: process control blocks, the queues (by the lists of the queue
  contract), memory, the clock, the serial line, the screens and the table of system
  calls.  A pointer to a process control block is \<open>None\<close> or its index in \<^verbatim>\<open>_pcbs\<close>, a pointer to
  a stack \<open>None\<close> or its index in \<^verbatim>\<open>_stacks\<close>; contexts, stacks and user data are in memory.
\<close>

section \<open>Process states, priorities and queues\<close>

abbreviation FREE :: u8 where "FREE \<equiv> 0"
abbreviation READY :: u8 where "READY \<equiv> 2"
abbreviation RUNNING :: u8 where "RUNNING \<equiv> 3"
abbreviation SLEEPING :: u8 where "SLEEPING \<equiv> 4"
abbreviation BLOCKED :: u32 where "BLOCKED \<equiv> 5"
abbreviation WAITING :: u8 where "WAITING \<equiv> 6"
abbreviation KILLED :: u8 where "KILLED \<equiv> 8"
abbreviation ZOMBIE :: u8 where "ZOMBIE \<equiv> 9"

abbreviation PRIO_MAXIMUM :: u8 where "PRIO_MAXIMUM \<equiv> 0"
abbreviation PID_INIT :: u32 where "PID_INIT \<equiv> 1"

definition N_PRIORITIES :: nat where
  "N_PRIORITIES = 4"

abbreviation Q_PCB_AVAIL :: nat where "Q_PCB_AVAIL \<equiv> 0"
abbreviation Q_STACK_AVAIL :: nat where "Q_STACK_AVAIL \<equiv> 1"
abbreviation Q_SLEEP :: nat where "Q_SLEEP \<equiv> 2"
abbreviation Q_READING :: nat where "Q_READING \<equiv> 3"
abbreviation Q_WAITING :: nat where "Q_WAITING \<equiv> 4"
abbreviation Q_ZOMBIE :: nat where "Q_ZOMBIE \<equiv> 5"
abbreviation Q_READY :: "nat \<Rightarrow> nat" where "Q_READY i \<equiv> 6 + i"

section \<open>Records\<close>

record pcb_t =
  p_context :: u32
  p_stack :: "nat option"
  p_pid :: pid_t
  p_ppid :: pid_t
  p_status :: u32
  p_sleeptime :: u32
  p_state :: u8
  p_prio :: u8
  p_screen :: u32

definition pcb_clear :: pcb_t where
  "pcb_clear =
     \<lparr>p_context = 0, p_stack = None, p_pid = pid_clear, p_ppid = pid_clear, p_status = 0,
      p_sleeptime = 0, p_state = FREE, p_prio = 0, p_screen = 0\<rparr>"

text \<open>The entries of the system call table.  \<open>Sys_installed\<close> is a handler of a driver.\<close>

datatype syscall_t =
    Sys_exit | Sys_fork | Sys_exec | Sys_wait | Sys_kill | Sys_sleep | Sys_readc | Sys_reads
  | Sys_writec | Sys_writes | Sys_getpid | Sys_getppid | Sys_getprio | Sys_gettime | Sys_setprio
  | Sys_settime | Sys_yield | Sys_setscreen | Sys_getscreen | Sys_switchscreen | Sys_openscreen
  | Sys_closescreen | Sys_installed nat

text \<open>
  What the linker and the processor fix: the addresses of \<^verbatim>\<open>_stacks\<close> and of \<^verbatim>\<open>exit\<close>, the
  image that \<^verbatim>\<open>fsave\<close> writes after \<^verbatim>\<open>finit\<close>, the control registers.
\<close>

record machine =
  mc_stacks :: u32
  mc_exit :: u32
  mc_fpu :: "nat \<Rightarrow> u8"
  mc_cr0 :: u32
  mc_cr2 :: u32
  mc_cr3 :: u32
  mc_cr4 :: u32

record kernel =
  k_q :: qlists
  k_pcbs :: "nat \<Rightarrow> pcb_t"
  k_current :: "nat option"
  k_next_pid :: pid_t
  k_local_mac :: mac_address_t
  k_mem :: memory
  k_time :: u32
  k_pinwheel :: u32
  k_pindex :: u32
  k_syscalls :: "nat \<Rightarrow> syscall_t option"
  k_sio :: sio
  k_screens :: screens
  k_video :: framebuffer
  k_machine :: machine
  k_ports :: "(u16 \<times> u8) list"

section \<open>Access to the state\<close>

definition upd_pcb :: "nat \<Rightarrow> (pcb_t \<Rightarrow> pcb_t) \<Rightarrow> kernel \<Rightarrow> kernel" where
  "upd_pcb p f k = k\<lparr>k_pcbs := (k_pcbs k)(p := f (k_pcbs k p))\<rparr>"

definition upd_mem :: "(memory \<Rightarrow> memory) \<Rightarrow> kernel \<Rightarrow> kernel" where
  "upd_mem f k = k\<lparr>k_mem := f (k_mem k)\<rparr>"

definition set_q :: "qlists \<Rightarrow> kernel \<Rightarrow> kernel" where
  "set_q v k = k\<lparr>k_q := v\<rparr>"

definition k_outb :: "u16 \<Rightarrow> u8 \<Rightarrow> kernel \<Rightarrow> kernel" where
  "k_outb p v k = k\<lparr>k_ports := k_ports k @ [(p, v)]\<rparr>"

text \<open>The dereference of \<^verbatim>\<open>_current\<close>.\<close>

definition current :: "kernel \<Rightarrow> nat outcome" where
  "current k = (case k_current k of None \<Rightarrow> Inl (Fault ''null _current'') | Some c \<Rightarrow> Inr c)"

lemma upd_pcb_simps [simp]:
  "k_pcbs (upd_pcb p f k) = (k_pcbs k)(p := f (k_pcbs k p))"
  "k_q (upd_pcb p f k) = k_q k" "k_current (upd_pcb p f k) = k_current k"
  "k_next_pid (upd_pcb p f k) = k_next_pid k" "k_local_mac (upd_pcb p f k) = k_local_mac k"
  "k_mem (upd_pcb p f k) = k_mem k" "k_time (upd_pcb p f k) = k_time k"
  "k_sio (upd_pcb p f k) = k_sio k" "k_screens (upd_pcb p f k) = k_screens k"
  "k_machine (upd_pcb p f k) = k_machine k" "k_syscalls (upd_pcb p f k) = k_syscalls k"
  by (simp_all add: upd_pcb_def)

lemma upd_mem_simps [simp]:
  "k_mem (upd_mem g k) = g (k_mem k)" "k_pcbs (upd_mem g k) = k_pcbs k"
  "k_q (upd_mem g k) = k_q k" "k_current (upd_mem g k) = k_current k"
  "k_next_pid (upd_mem g k) = k_next_pid k" "k_local_mac (upd_mem g k) = k_local_mac k"
  "k_time (upd_mem g k) = k_time k" "k_sio (upd_mem g k) = k_sio k"
  "k_screens (upd_mem g k) = k_screens k" "k_machine (upd_mem g k) = k_machine k"
  "k_syscalls (upd_mem g k) = k_syscalls k"
  by (simp_all add: upd_mem_def)

lemma set_q_simps [simp]:
  "k_q (set_q v k) = v" "k_pcbs (set_q v k) = k_pcbs k" "k_current (set_q v k) = k_current k"
  "k_next_pid (set_q v k) = k_next_pid k" "k_local_mac (set_q v k) = k_local_mac k"
  "k_mem (set_q v k) = k_mem k" "k_time (set_q v k) = k_time k" "k_sio (set_q v k) = k_sio k"
  "k_screens (set_q v k) = k_screens k" "k_machine (set_q v k) = k_machine k"
  "k_syscalls (set_q v k) = k_syscalls k"
  by (simp_all add: set_q_def)

section \<open>Contexts and stacks in memory\<close>

text \<open>
  The layout of \<^verbatim>\<open>context_t\<close> with the FPU area: seventeen registers, 108 bytes of FPU
  state, then vector, code, eip, cs and eflags.
\<close>

definition CONTEXT_SIZE :: u32 where
  "CONTEXT_SIZE = 196"

definition STACK_BYTES :: u32 where
  "STACK_BYTES = 0x40000"

abbreviation CTX_SS :: u32 where "CTX_SS \<equiv> 0"
abbreviation CTX_GS :: u32 where "CTX_GS \<equiv> 4"
abbreviation CTX_FS :: u32 where "CTX_FS \<equiv> 8"
abbreviation CTX_ES :: u32 where "CTX_ES \<equiv> 12"
abbreviation CTX_DS :: u32 where "CTX_DS \<equiv> 16"
abbreviation CTX_CR0 :: u32 where "CTX_CR0 \<equiv> 20"
abbreviation CTX_CR2 :: u32 where "CTX_CR2 \<equiv> 24"
abbreviation CTX_CR3 :: u32 where "CTX_CR3 \<equiv> 28"
abbreviation CTX_CR4 :: u32 where "CTX_CR4 \<equiv> 32"
abbreviation CTX_EBP :: u32 where "CTX_EBP \<equiv> 44"
abbreviation CTX_ESP :: u32 where "CTX_ESP \<equiv> 48"
abbreviation CTX_EAX :: u32 where "CTX_EAX \<equiv> 64"
abbreviation CTX_FPU :: u32 where "CTX_FPU \<equiv> 68"
abbreviation CTX_EIP :: u32 where "CTX_EIP \<equiv> 184"
abbreviation CTX_CS :: u32 where "CTX_CS \<equiv> 188"
abbreviation CTX_EFLAGS :: u32 where "CTX_EFLAGS \<equiv> 192"

definition stack_ptr :: "kernel \<Rightarrow> nat option \<Rightarrow> u32" where
  "stack_ptr k st =
     (case st of None \<Rightarrow> 0 | Some i \<Rightarrow> mc_stacks (k_machine k) + of_nat i * STACK_BYTES)"

definition arg_addr :: "u32 \<Rightarrow> u32 \<Rightarrow> u32" where
  "arg_addr context n = context + CONTEXT_SIZE + 4 * n"

definition ARG :: "kernel \<Rightarrow> u32 \<Rightarrow> u32 \<Rightarrow> u32" where
  "ARG k context n = load32 (k_mem k) (arg_addr context n)"

definition get_reg :: "u32 \<Rightarrow> u32 \<Rightarrow> kernel \<Rightarrow> u32" where
  "get_reg context r k = load32 (k_mem k) (context + r)"

definition set_reg :: "u32 \<Rightarrow> u32 \<Rightarrow> u32 \<Rightarrow> kernel \<Rightarrow> kernel" where
  "set_reg context r v k = upd_mem (store32 (context + r) v) k"

abbreviation set_eax :: "u32 \<Rightarrow> u32 \<Rightarrow> kernel \<Rightarrow> kernel" where
  "set_eax context v k \<equiv> set_reg context CTX_EAX v k"

lemma set_reg_simps [simp]:
  "k_mem (set_reg c r v k) = store32 (c + r) v (k_mem k)" "k_pcbs (set_reg c r v k) = k_pcbs k"
  "k_q (set_reg c r v k) = k_q k" "k_current (set_reg c r v k) = k_current k"
  "k_next_pid (set_reg c r v k) = k_next_pid k" "k_local_mac (set_reg c r v k) = k_local_mac k"
  "k_time (set_reg c r v k) = k_time k" "k_sio (set_reg c r v k) = k_sio k"
  "k_screens (set_reg c r v k) = k_screens k" "k_machine (set_reg c r v k) = k_machine k"
  "k_syscalls (set_reg c r v k) = k_syscalls k"
  by (simp_all add: set_reg_def)

lemma get_set_reg [simp]: "get_reg c r (set_reg c r v k) = v"
  by (simp add: get_reg_def)

text \<open>The bytes of \<open>f\<close> at \<open>a\<close>, as an instruction stores them.\<close>

definition store_bytes :: "u32 \<Rightarrow> nat \<Rightarrow> (nat \<Rightarrow> u8) \<Rightarrow> memory \<Rightarrow> memory" where
  "store_bytes a n f m = (\<lambda>x. if in_block a n x then f (unat (x - a)) else m x)"

end
