(* ===== verification/Process.thy ===== *)
theory Process
  imports Kernel_State
begin

text \<open>
  Process control blocks and stacks: \<^verbatim>\<open>kernel/process.c\<close>, \<^verbatim>\<open>kernel/stack.c\<close> and
  \<^verbatim>\<open>_setup_stack\<close> of \<^verbatim>\<open>kernel/system.c\<close>.  Free blocks and free stacks wait in queues of
  their own; a block that is freed is cleared, so its state is \<^verbatim>\<open>FREE\<close>.
\<close>

section \<open>Process identifiers\<close>

definition pid_next :: "kernel \<Rightarrow> pid_t \<Rightarrow> pid_t \<times> kernel" where
  "pid_next k pid =
     (pid\<lparr>pid_host := k_local_mac k, pid_id := pid_id (k_next_pid k)\<rparr>,
      k\<lparr>k_next_pid := (k_next_pid k)\<lparr>pid_id := pid_id (k_next_pid k) + 1\<rparr>\<rparr>)"

section \<open>Process control blocks\<close>

definition pcb_alloc :: "kernel \<Rightarrow> status_t \<times> nat option \<times> kernel" where
  "pcb_alloc k = (let (st, d, v) = lq_remove Q_PCB_AVAIL (k_q k) in (st, d, set_q v k))"

definition pcb_free :: "nat option \<Rightarrow> kernel \<Rightarrow> status_t \<times> kernel" where
  "pcb_free pcb k =
     (case pcb of
        None \<Rightarrow> (E_BAD_PARAM, k)
      | Some p \<Rightarrow>
          let k1 = upd_pcb p (\<lambda>_. pcb_clear) k;
              (st, v) = lq_append Q_PCB_AVAIL p 0 (k_q k1)
          in (st, set_q v k1))"

fun pcb_find_loop :: "kernel \<Rightarrow> pid_t \<Rightarrow> nat list \<Rightarrow> nat option" where
  "pcb_find_loop k pid [] = None"
| "pcb_find_loop k pid (i # is) =
     (if p_state (k_pcbs k i) \<noteq> FREE \<and> pid_cmp (p_pid (k_pcbs k i)) pid = 0 then Some i
      else pcb_find_loop k pid is)"

definition pcb_find :: "pid_t \<Rightarrow> kernel \<Rightarrow> nat option" where
  "pcb_find pid k = pcb_find_loop k pid [0..<N_PCBS]"

section \<open>Stacks\<close>

definition stack_alloc :: "kernel \<Rightarrow> status_t \<times> nat option \<times> kernel" where
  "stack_alloc k = (let (st, d, v) = lq_remove Q_STACK_AVAIL (k_q k) in (st, d, set_q v k))"

definition stack_free :: "nat option \<Rightarrow> kernel \<Rightarrow> status_t \<times> kernel" where
  "stack_free old k =
     (case old of
        None \<Rightarrow> (E_BAD_PARAM, k)
      | Some s \<Rightarrow>
          let k1 = upd_mem (memclr (stack_ptr k old) STACK_BYTES) k;
              (st, v) = lq_append Q_STACK_AVAIL s 0 (k_q k1)
          in (st, set_q v k1))"

section \<open>The initial contents of a stack\<close>

definition setup_stack :: "nat option \<Rightarrow> u32 \<Rightarrow> kernel \<Rightarrow> u32 \<times> kernel" where
  "setup_stack stack entry k =
     (let mc = k_machine k;
          tmp = stack_ptr k stack + STACK_BYTES - 12;
          m1 = store32 (tmp - 8) (mc_exit mc) (store32 (tmp - 4) 0 (store32 tmp 0 (k_mem k)));
          context = tmp - 8 - CONTEXT_SIZE;
          m2 = memclr context CONTEXT_SIZE m1;
          m3 = fold (\<lambda>(r, v). store32 (context + r) v)
                 [(CTX_CS, 0x10), (CTX_SS, 0x20), (CTX_DS, 0x18), (CTX_ES, 0x18), (CTX_FS, 0x18),
                  (CTX_GS, 0x18), (CTX_EIP, entry), (CTX_EFLAGS, 0x202)] m2;
          m4 = store_bytes (context + CTX_FPU) 108 (mc_fpu mc) m3;
          m5 = fold (\<lambda>(r, v). store32 (context + r) v)
                 [(CTX_CR0, mc_cr0 mc), (CTX_CR2, mc_cr2 mc), (CTX_CR3, mc_cr3 mc), (CTX_CR4, mc_cr4 mc)] m4
      in (context, k\<lparr>k_mem := m5\<rparr>))"

section \<open>Initialisation\<close>

fun free_all :: "(nat option \<Rightarrow> kernel \<Rightarrow> status_t \<times> kernel) \<Rightarrow> string \<Rightarrow> nat list \<Rightarrow> kernel \<Rightarrow> kernel outcome" where
  "free_all f msg [] k = Inr k"
| "free_all f msg (i # is) k =
     (let (st, k1) = f (Some i) k
      in if st \<noteq> E_SUCCESS then Inl (Panic msg) else free_all f msg is k1)"

definition pcb_init :: "kernel \<Rightarrow> kernel outcome" where
  "pcb_init k =
     (let k1 = k\<lparr>k_next_pid := \<lparr>pid_id = PID_INIT, pid_host = k_local_mac k, pid_reserved = 0\<rparr>\<rparr>;
          v = lq_reset Q_ZOMBIE (Some Compare_uint_asc) (Some Remove_if_equal)
                (lq_reset Q_WAITING (Some Compare_uint_asc) (Some Remove_if_equal)
                  (lq_reset Q_READING (Some Compare_uint_asc) (Some Remove_if_equal)
                    (lq_reset Q_SLEEP (Some Compare_uint_asc) (Some Remove_if_le_u)
                      (lq_reset Q_PCB_AVAIL None None (k_q k1)))))
      in free_all pcb_free ''_pcb_init: _pcb_free status'' [0..<N_PCBS] (set_q v k1))"

definition stack_init :: "kernel \<Rightarrow> kernel outcome" where
  "stack_init k =
     free_all stack_free ''_stack_init: _stack_free status'' [0..<N_STACKS]
       (set_q (lq_reset Q_STACK_AVAIL None None (k_q k)) k)"

end
