(* ===== verification/Scheduler.thy ===== *)
theory Scheduler
  imports Process
begin

text \<open>
  The scheduler, \<^verbatim>\<open>kernel/scheduler.c\<close>, and \<^verbatim>\<open>_zombify\<close> of \<^verbatim>\<open>kernel/system.c\<close>, which the
  dispatcher calls for a killed process.  The dispatcher's loop is given fuel; a loop that
  used it up would be \<open>Diverges\<close>, which \<open>Kernel_Safety\<close> excludes.
\<close>

definition schedule :: "nat option \<Rightarrow> u8 \<Rightarrow> kernel \<Rightarrow> kernel outcome" where
  "schedule pcb prio k =
     (case pcb of
        None \<Rightarrow> Inl (Panic ''_schedule: null PCB'')
      | Some p \<Rightarrow>
          let prio' = (if unat prio \<ge> N_PRIORITIES then N_PRIORITIES - 1 else unat prio);
              k1 = upd_pcb p (\<lambda>b. b\<lparr>p_state := READY\<rparr>) k;
              (st, v) = lq_append (Q_READY prio') p 0 (k_q k1)
          in if st \<noteq> E_SUCCESS then Inl (Panic ''_schedule: append status'')
             else Inr (set_q v k1))"

section \<open>The end of a process\<close>

text \<open>The parent is waiting for this process: give it the result and clean up.\<close>

definition zombify_wake :: "nat \<Rightarrow> nat \<Rightarrow> nat \<Rightarrow> u32 \<Rightarrow> kernel \<Rightarrow> kernel outcome" where
  "zombify_wake p c parent info k =
     (case lq_remove_by_key Q_WAITING (pid_id (p_pid (k_pcbs k parent))) (k_q k) of
        (st, d, v) \<Rightarrow>
          if st \<noteq> E_SUCCESS then Inl (Panic ''_zombify: wait remove status'')
          else
            let k1 = set_q v k;
                k2 = upd_mem (store_pid info (p_pid (k_pcbs k1 c))) k1;
                k3 = upd_mem (store32 (info + 12) (ARG k2 (p_context (k_pcbs k2 c)) 1)) k2;
                (st1, k4) = stack_free (p_stack (k_pcbs k3 p)) k3
            in if st1 \<noteq> E_SUCCESS then Inl (Panic ''_zombify: stack free status'')
               else let (st2, k5) = pcb_free (Some p) k4
                    in if st2 \<noteq> E_SUCCESS then Inl (Panic ''_zombify: pcb free status'')
                       else schedule d PRIO_MAXIMUM k5)"

definition zombify_park :: "nat \<Rightarrow> kernel \<Rightarrow> kernel outcome" where
  "zombify_park c k =
     (let k1 = upd_pcb c (\<lambda>b. b\<lparr>p_state := ZOMBIE\<rparr>) k;
          (st, v) = lq_insert Q_ZOMBIE c (pid_id (p_pid (k_pcbs k c))) (k_q k1)
      in if st \<noteq> E_SUCCESS then Inl (Panic ''_zombify: zombie insert status'')
         else Inr (set_q v k1))"

definition zombify :: "nat option \<Rightarrow> kernel \<Rightarrow> kernel outcome" where
  "zombify pcb k =
     (case pcb of
        None \<Rightarrow> Inl (Panic ''_zombify: null pcb'')
      | Some p \<Rightarrow>
          (case pcb_find (p_ppid (k_pcbs k p)) k of
             None \<Rightarrow> Inl (Panic ''_zombify: no process parent'')
           | Some parent \<Rightarrow>
               andThen (current k) (\<lambda>c.
                 if p_state (k_pcbs k parent) = WAITING then
                   let info = ARG k (p_context (k_pcbs k parent)) 1;
                       pid = load_pid (k_mem k) info
                   in if pid_id pid = 0 \<or> pid_cmp pid (p_pid (k_pcbs k c)) = 0
                      then zombify_wake p c parent info k
                      else zombify_park c k
                 else zombify_park c k)))"

section \<open>Dispatching\<close>

fun first_ready :: "kernel \<Rightarrow> nat list \<Rightarrow> nat option" where
  "first_ready k [] = None"
| "first_ready k (i # is) =
     (if ql_items (k_q k) (Q_READY i) \<noteq> [] then Some i else first_ready k is)"

fun dispatch_loop :: "nat \<Rightarrow> kernel \<Rightarrow> kernel outcome" where
  "dispatch_loop 0 k = Inl Diverges"
| "dispatch_loop (Suc fuel) k =
     (case first_ready k [0..<N_PRIORITIES] of
        None \<Rightarrow> Inl (Panic ''_dispatch: all queues empty'')
      | Some i \<Rightarrow>
          (case lq_remove (Q_READY i) (k_q k) of
             (st, d, v) \<Rightarrow>
               if st \<noteq> E_SUCCESS then Inl (Panic ''_dispatch: queue remove status'')
               else
                 let k1 = (set_q v k)\<lparr>k_current := d\<rparr>
                 in andThen (current k1) (\<lambda>c.
                      if p_state (k_pcbs k1 c) = READY
                      then Inr (upd_pcb c (\<lambda>b. b\<lparr>p_state := RUNNING\<rparr>) k1)
                      else if p_state (k_pcbs k1 c) = KILLED
                      then andThen (zombify (Some c) k1) (dispatch_loop fuel)
                      else Inl (Panic ''_dispatch: non-ready''))))"

definition dispatch :: "kernel \<Rightarrow> kernel outcome" where
  "dispatch k = dispatch_loop (N_QNODES + 1) k"

definition sched_init :: "kernel \<Rightarrow> kernel" where
  "sched_init k = set_q (fold (\<lambda>i. lq_reset (Q_READY i) None None) [0..<N_PRIORITIES] (k_q k)) k"

end
