(* ===== verification/Syscalls.thy ===== *)
theory Syscalls
  imports Scheduler
begin

text \<open>
  The system calls, \<^verbatim>\<open>kernel/syscall.c\<close>: one definition per handler, each a function of the
  address of the caller's context and of the kernel state, then the table of handlers and
  \<^verbatim>\<open>_isr_syscall\<close>.  Results go to the register \<^verbatim>\<open>eax\<close> of the saved context.  What a handler
  installed by a driver does is the parameter \<open>drv\<close>.
\<close>

section \<open>Simple queries and settings\<close>

definition sys_getpid :: "u32 \<Rightarrow> kernel \<Rightarrow> kernel outcome" where
  "sys_getpid context k =
     andThen (current k) (\<lambda>c.
       let k1 = set_eax context (pid_id (p_pid (k_pcbs k c))) k;
           ptr = ARG k1 context 1
       in Inr (if ptr \<noteq> 0 then upd_mem (store_pid ptr (p_pid (k_pcbs k1 c))) k1 else k1))"

definition sys_getppid :: "u32 \<Rightarrow> kernel \<Rightarrow> kernel outcome" where
  "sys_getppid context k =
     andThen (current k) (\<lambda>c.
       let k1 = set_eax context (pid_id (p_ppid (k_pcbs k c))) k;
           ptr = ARG k1 context 1
       in Inr (if ptr \<noteq> 0 then upd_mem (store_pid ptr (p_ppid (k_pcbs k1 c))) k1 else k1))"

definition sys_getprio :: "u32 \<Rightarrow> kernel \<Rightarrow> kernel outcome" where
  "sys_getprio context k =
     andThen (current k) (\<lambda>c. Inr (set_eax context (ucast (p_prio (k_pcbs k c))) k))"

definition sys_gettime :: "u32 \<Rightarrow> kernel \<Rightarrow> kernel outcome" where
  "sys_gettime context k = Inr (set_eax context (k_time k) k)"

definition sys_setprio :: "u32 \<Rightarrow> kernel \<Rightarrow> kernel outcome" where
  "sys_setprio context k =
     andThen (current k) (\<lambda>c.
       let k1 = set_eax context (ucast (p_prio (k_pcbs k c))) k
       in Inr (upd_pcb c (\<lambda>b. b\<lparr>p_prio := ucast (ARG k1 context 1)\<rparr>) k1))"

definition sys_settime :: "u32 \<Rightarrow> kernel \<Rightarrow> kernel outcome" where
  "sys_settime context k =
     (let k1 = set_eax context (k_time k) k in Inr (k1\<lparr>k_time := ARG k1 context 1\<rparr>))"

section \<open>Sleeping\<close>

definition sys_sleep :: "u32 \<Rightarrow> kernel \<Rightarrow> kernel outcome" where
  "sys_sleep context k =
     andThen (current k) (\<lambda>c.
       let key = k_time k + ARG k context 1;
           k1 = upd_pcb c (\<lambda>b. b\<lparr>p_sleeptime := k_time k, p_state := SLEEPING\<rparr>) k;
           (st, v) = lq_insert Q_SLEEP c key (k_q k1)
       in if st \<noteq> E_SUCCESS then Inr (set_eax context 0 (set_q v k1))
          else dispatch (set_q v k1))"

section \<open>Creating and replacing processes\<close>

text \<open>The part of \<^verbatim>\<open>_sys_fork\<close> after the allocations.\<close>

definition fork_child :: "nat \<Rightarrow> nat \<Rightarrow> nat option \<Rightarrow> kernel \<Rightarrow> kernel" where
  "fork_child c p stack k =
     (let (pid, k1) = pid_next k (p_pid (k_pcbs k p));
          k2 = upd_pcb p (\<lambda>b. b\<lparr>p_pid := pid, p_ppid := p_pid (k_pcbs k1 c), p_prio := p_prio (k_pcbs k1 c),
                                p_stack := stack, p_screen := p_screen (k_pcbs k1 c)\<rparr>) k1;
          dst = stack_ptr k stack;
          src = stack_ptr k (p_stack (k_pcbs k2 c));
          k3 = upd_mem (k_memcpy dst src STACK_BYTES) k2;
          off = dst - src;
          ctx = p_context (k_pcbs k3 c) + off;
          k4 = upd_pcb p (\<lambda>b. b\<lparr>p_context := ctx\<rparr>) k3;
          k5 = set_reg ctx CTX_ESP (get_reg ctx CTX_ESP k4 + off) k4
      in set_reg ctx CTX_EBP (get_reg ctx CTX_EBP k5 + off) k5)"

definition sys_fork :: "u32 \<Rightarrow> kernel \<Rightarrow> kernel outcome" where
  "sys_fork context k =
     (case pcb_alloc k of
        (st, pcb, k1) \<Rightarrow>
          if st \<noteq> E_SUCCESS then Inr (set_eax context (-1) k1)
          else case stack_alloc k1 of
            (st1, stack, k2) \<Rightarrow>
              if st1 \<noteq> E_SUCCESS then
                (let (st2, k3) = pcb_free pcb k2
                 in if st2 \<noteq> E_SUCCESS then Inl (Panic ''_sys_fork: free pcb status'')
                    else Inr (set_eax context (-1) k3))
              else
                andThen (current k2) (\<lambda>c.
                  case pcb of
                    None \<Rightarrow> Inl (Fault ''_sys_fork: null pcb'')
                  | Some p \<Rightarrow>
                      let k3 = fork_child c p stack k2;
                          k4 = set_eax (p_context (k_pcbs k3 p)) 0 k3;
                          k5 = set_eax context (pid_id (p_pid (k_pcbs k4 p))) k4
                      in schedule pcb (p_prio (k_pcbs k5 p)) k5))"

definition sys_exec :: "u32 \<Rightarrow> kernel \<Rightarrow> kernel outcome" where
  "sys_exec context k =
     andThen (current k) (\<lambda>c.
       let prio = ARG k context 1;
           entry = ARG k context 2;
           (ctx, k1) = setup_stack (p_stack (k_pcbs k c)) entry k;
           k2 = upd_pcb c (\<lambda>b. b\<lparr>p_context := ctx, p_prio := ucast prio\<rparr>) k1
       in andThen (schedule (Some c) (ucast prio) k2) dispatch)"

section \<open>Serial input and output\<close>

definition sys_readc :: "u32 \<Rightarrow> kernel \<Rightarrow> kernel outcome" where
  "sys_readc context k =
     andThen (sio_readc (k_sio k)) (\<lambda>(ch, sio).
       let k1 = k\<lparr>k_sio := sio\<rparr>
       in case ch of
            Some x \<Rightarrow> Inr (set_eax context (ucast x) k1)
          | None \<Rightarrow>
              andThen (current k1) (\<lambda>c.
                let k2 = upd_pcb c (\<lambda>b. b\<lparr>p_status := BLOCKED\<rparr>) k1;
                    (st, v) = lq_insert Q_READING c (pid_id (p_pid (k_pcbs k2 c))) (k_q k2)
                in if st \<noteq> E_SUCCESS then Inl (Panic ''_sys_read: insert status'')
                   else dispatch (set_q v k2)))"

definition sys_writec :: "u32 \<Rightarrow> kernel \<Rightarrow> kernel outcome" where
  "sys_writec context k =
     andThen (sio_writec (ARG k context 1) (k_sio k)) (\<lambda>sio.
       let k1 = k\<lparr>k_sio := sio\<rparr>
       in andThen (current k1) (\<lambda>c. Inr (set_eax (p_context (k_pcbs k1 c)) E_SUCCESS k1)))"

definition sys_reads :: "u32 \<Rightarrow> kernel \<Rightarrow> kernel outcome" where
  "sys_reads context k = Inr (set_eax context E_NOT_IMPLEMENTED k)"

definition sys_writes :: "u32 \<Rightarrow> kernel \<Rightarrow> kernel outcome" where
  "sys_writes context k = Inr (set_eax context E_NOT_IMPLEMENTED k)"

section \<open>Killing, waiting and exiting\<close>

definition sys_kill :: "u32 \<Rightarrow> kernel \<Rightarrow> kernel outcome" where
  "sys_kill context k =
     (let pid = load_pid (k_mem k) (arg_addr context 1)
      in case pcb_find pid k of
           None \<Rightarrow> Inr (set_eax context E_NOT_FOUND k)
         | Some p \<Rightarrow>
             let k1 = upd_pcb p (\<lambda>b. b\<lparr>p_state := KILLED\<rparr>) k
             in if Some p = k_current k1
                then andThen (schedule (Some p) (p_prio (k_pcbs k1 p)) k1) dispatch
                else Inr k1)"

text \<open>
  The search for a child: the index at which the loop ends, and the child found last.
\<close>

fun wait_scan :: "kernel \<Rightarrow> pid_t \<Rightarrow> nat \<Rightarrow> nat \<Rightarrow> nat option \<Rightarrow> nat \<times> nat option" where
  "wait_scan k me i 0 found = (i, found)"
| "wait_scan k me i (Suc n) found =
     (if pid_cmp (p_ppid (k_pcbs k i)) me = 0 then
        if p_state (k_pcbs k i) = ZOMBIE then (i, Some i)
        else wait_scan k me (i + 1) n (Some i)
      else wait_scan k me (i + 1) n found)"

text \<open>A zombie is found: report it and release what it holds.\<close>

definition wait_reap :: "nat \<Rightarrow> u32 \<Rightarrow> kernel \<Rightarrow> kernel outcome" where
  "wait_reap p info k =
     (let k1 = upd_mem (store_pid info (p_pid (k_pcbs k p))) k;
          k2 = upd_mem (store32 (info + 12) (p_status (k_pcbs k1 p))) k1
      in case lq_remove_by_key Q_ZOMBIE (pid_id (p_pid (k_pcbs k2 p))) (k_q k2) of
           (st, d, v) \<Rightarrow>
             if st \<noteq> E_SUCCESS then Inl (Panic ''_sys_wait: zombie not on queue'')
             else case d of
               None \<Rightarrow> Inl (Fault ''_sys_wait: null pcb'')
             | Some q \<Rightarrow>
                 let k3 = set_q v k2;
                     (st1, k4) = stack_free (p_stack (k_pcbs k3 q)) k3
                 in if st1 \<noteq> E_SUCCESS then Inl (Panic ''_sys_wait: stack free status'')
                    else let (st2, k5) = pcb_free d k4
                         in if st2 \<noteq> E_SUCCESS then Inl (Panic ''_sys_wait: pcb free status'')
                            else Inr k5)"

definition wait_block :: "nat \<Rightarrow> kernel \<Rightarrow> kernel outcome" where
  "wait_block c k =
     (let k1 = upd_pcb c (\<lambda>b. b\<lparr>p_state := WAITING\<rparr>) k;
          (st, v) = lq_insert Q_WAITING c (pid_id (p_pid (k_pcbs k c))) (k_q k1)
      in if st \<noteq> E_SUCCESS then Inl (Panic ''_sys_wait: waiting insert status'')
         else dispatch (set_q v k1))"

definition wait_for :: "nat \<Rightarrow> nat \<Rightarrow> u32 \<Rightarrow> kernel \<Rightarrow> kernel outcome" where
  "wait_for c p info k =
     (if p_state (k_pcbs k p) = ZOMBIE then wait_reap p info k else wait_block c k)"

definition sys_wait :: "u32 \<Rightarrow> kernel \<Rightarrow> kernel outcome" where
  "sys_wait context k =
     (let info = ARG k context 1
      in if info = 0 then Inr (set_eax context E_BAD_PARAM k)
         else andThen (current k) (\<lambda>c.
           if 0 < pid_id (load_pid (k_mem k) info) then
             (case pcb_find (load_pid (k_mem k) info) k of
                None \<Rightarrow> Inr (upd_mem (store32 (info + 12) E_NOT_FOUND) k)
              | Some p \<Rightarrow> wait_for c p info k)
           else
             let (i, found) = wait_scan k (p_pid (k_pcbs k c)) 0 N_PCBS None;
                 pcb = (if i < N_PCBS then i else N_PCBS - 1)
             in if i > N_PCBS then
                  (case found of
                     None \<Rightarrow> Inr (upd_mem (store32 (info + 12) E_NOT_FOUND) k)
                   | Some p \<Rightarrow> wait_for c p info k)
                else wait_for c pcb info k))"

definition reparent :: "pid_t \<Rightarrow> kernel \<Rightarrow> kernel" where
  "reparent me k =
     fold (\<lambda>i k. if pid_cmp (p_ppid (k_pcbs k i)) me = 0
                 then upd_pcb i (\<lambda>b. b\<lparr>p_ppid := (p_ppid b)\<lparr>pid_id := PID_INIT\<rparr>\<rparr>) k else k)
       [0..<N_PCBS] k"

definition sys_exit :: "u32 \<Rightarrow> kernel \<Rightarrow> kernel outcome" where
  "sys_exit context k =
     andThen (current k) (\<lambda>c.
       andThen (zombify (Some c) (reparent (p_pid (k_pcbs k c)) k)) dispatch)"

definition sys_yield :: "u32 \<Rightarrow> kernel \<Rightarrow> kernel outcome" where
  "sys_yield context k = dispatch k"

section \<open>Screens\<close>

text \<open>A handle names a screen: \<^verbatim>\<open>sh >= 0 && sh < NUM_SCREENS\<close> on a signed integer.\<close>

definition valid_handle :: "handle_t \<Rightarrow> bool" where
  "valid_handle sh \<longleftrightarrow> 0 \<le> sint sh \<and> sint sh < int NUM_SCREENS"

definition sys_setscreen :: "u32 \<Rightarrow> kernel \<Rightarrow> kernel outcome" where
  "sys_setscreen context k =
     (let sh = ARG k context 1
      in if valid_handle sh \<and> pid_id (scr_owner (screen_tab (k_screens k) (unat sh))) \<noteq> 0
         then andThen (current k) (\<lambda>c.
           let k1 = set_eax context (p_screen (k_pcbs k c)) k
           in Inr (upd_pcb c (\<lambda>b. b\<lparr>p_screen := sh\<rparr>) k1))
         else Inr (set_eax context E_BAD_PARAM k))"

definition sys_getscreen :: "u32 \<Rightarrow> kernel \<Rightarrow> kernel outcome" where
  "sys_getscreen context k =
     andThen (current k) (\<lambda>c. Inr (set_eax context (p_screen (k_pcbs k c)) k))"

definition sys_switchscreen :: "u32 \<Rightarrow> kernel \<Rightarrow> kernel outcome" where
  "sys_switchscreen context k =
     (let sh = ARG k context 1;
          scr = k_screens k;
          old = active_screen scr
      in if valid_handle sh \<and> sh \<noteq> old then
           let tab = (screen_tab scr)(unat old := (screen_tab scr (unat old))\<lparr>scr_fb := k_video k\<rparr>);
               k1 = k\<lparr>k_video := scr_fb (tab (unat sh)),
                      k_screens := scr\<lparr>screen_tab := tab, active_screen := sh\<rparr>\<rparr>
           in Inr (set_eax context old k1)
         else Inr (set_eax context E_BAD_PARAM k))"

definition open_screen :: "pid_t \<Rightarrow> screen_t \<Rightarrow> screen_t" where
  "open_screen pid s =
     s\<lparr>scr_owner := pid,
       scr_kb := (scr_kb s)\<lparr>ib_next_char := Some 0, ib_next_space := Some 0\<rparr>,
       scr_mouse := (scr_mouse s)\<lparr>ib_next_char := Some 0, ib_next_space := Some 0\<rparr>\<rparr>"

definition sys_openscreen :: "u32 \<Rightarrow> kernel \<Rightarrow> kernel outcome" where
  "sys_openscreen context k =
     andThen (screen_dequeue (k_screens k)) (\<lambda>(sh, scr).
       andThen
         (if 0 \<le> sint sh then
            andThen (current k) (\<lambda>c.
              Inr (k\<lparr>k_screens := scr\<lparr>screen_tab := (screen_tab scr)
                (unat sh := open_screen (p_pid (k_pcbs k c)) (screen_tab scr (unat sh)))\<rparr>\<rparr>))
          else Inr (k\<lparr>k_screens := scr\<rparr>))
         (\<lambda>k1. Inr (set_eax context sh k1)))"

definition sys_closescreen :: "u32 \<Rightarrow> kernel \<Rightarrow> kernel outcome" where
  "sys_closescreen context k =
     (let sh = ARG k context 1;
          scr = k_screens k
      in if valid_handle sh \<and> pid_id (scr_owner (screen_tab scr (unat sh))) \<noteq> 0 then
           let scr1 = scr\<lparr>screen_tab := (screen_tab scr)
                 (unat sh := (screen_tab scr (unat sh))\<lparr>scr_owner := pid_clear\<rparr>)\<rparr>
           in andThen (screen_enqueue sh scr1) (\<lambda>(st, scr2).
                Inr (set_eax context st (k\<lparr>k_screens := scr2\<rparr>)))
         else Inr (set_eax context E_BAD_PARAM k))"

section \<open>The table and the interrupt handler\<close>

definition N_SYSCALLS :: nat where
  "N_SYSCALLS = 256"

fun handler :: "(nat \<Rightarrow> u32 \<Rightarrow> kernel \<Rightarrow> kernel outcome) \<Rightarrow> syscall_t \<Rightarrow> u32 \<Rightarrow> kernel \<Rightarrow> kernel outcome" where
  "handler drv Sys_exit = sys_exit"
| "handler drv Sys_fork = sys_fork"
| "handler drv Sys_exec = sys_exec"
| "handler drv Sys_wait = sys_wait"
| "handler drv Sys_kill = sys_kill"
| "handler drv Sys_sleep = sys_sleep"
| "handler drv Sys_readc = sys_readc"
| "handler drv Sys_reads = sys_reads"
| "handler drv Sys_writec = sys_writec"
| "handler drv Sys_writes = sys_writes"
| "handler drv Sys_getpid = sys_getpid"
| "handler drv Sys_getppid = sys_getppid"
| "handler drv Sys_getprio = sys_getprio"
| "handler drv Sys_gettime = sys_gettime"
| "handler drv Sys_setprio = sys_setprio"
| "handler drv Sys_settime = sys_settime"
| "handler drv Sys_yield = sys_yield"
| "handler drv Sys_setscreen = sys_setscreen"
| "handler drv Sys_getscreen = sys_getscreen"
| "handler drv Sys_switchscreen = sys_switchscreen"
| "handler drv Sys_openscreen = sys_openscreen"
| "handler drv Sys_closescreen = sys_closescreen"
| "handler drv (Sys_installed n) = drv n"

definition isr_syscall :: "(nat \<Rightarrow> u32 \<Rightarrow> kernel \<Rightarrow> kernel outcome) \<Rightarrow> kernel \<Rightarrow> kernel outcome" where
  "isr_syscall drv k =
     (case k_current k of
        None \<Rightarrow> Inl (Panic ''_isr_syscall: null _current'')
      | Some c \<Rightarrow>
          let context = p_context (k_pcbs k c)
          in if context = 0 then Inl (Panic ''_isr_syscall: null _current context'')
             else
               let code = get_reg context CTX_EAX k;
                   syscode = (if sint code < 0 \<or> int N_SYSCALLS \<le> sint code then 0 else unat code)
               in case k_syscalls k syscode of
                    None \<Rightarrow> Inl (Fault ''_isr_syscall: call of a null handler'')
                  | Some h \<Rightarrow> andThen (handler drv h context k) (\<lambda>k1. Inr (k_outb 0x20 0x20 k1)))"

definition syscall_init :: "kernel \<Rightarrow> kernel" where
  "syscall_init k =
     k\<lparr>k_syscalls := fold (\<lambda>(n, h) t. t(n := Some h))
        [(0, Sys_exit), (1, Sys_fork), (2, Sys_exec), (3, Sys_wait), (4, Sys_kill), (5, Sys_sleep),
         (6, Sys_readc), (7, Sys_reads), (8, Sys_writec), (9, Sys_writes), (10, Sys_getpid),
         (11, Sys_getppid), (12, Sys_getprio), (13, Sys_gettime), (14, Sys_setprio),
         (15, Sys_settime), (30, Sys_yield), (16, Sys_setscreen), (17, Sys_getscreen),
         (18, Sys_switchscreen), (19, Sys_openscreen), (20, Sys_closescreen)]
        (\<lambda>n. if n < N_SYSCALLS then None else k_syscalls k n)\<rparr>"

definition syscall_install :: "syscall_t \<Rightarrow> u8 \<Rightarrow> kernel \<Rightarrow> status_t \<times> kernel" where
  "syscall_install func num k =
     (if unat num > N_SYSCALLS then (E_BAD_PARAM, k)
      else if k_syscalls k (unat num) \<noteq> None then (E_INSUFFICIENT_RESOURCES, k)
      else (E_SUCCESS, k\<lparr>k_syscalls := (k_syscalls k)(unat num := Some func)\<rparr>))"

definition syscall_clear :: "u8 \<Rightarrow> kernel \<Rightarrow> status_t \<times> kernel" where
  "syscall_clear num k =
     (if unat num > N_SYSCALLS then (E_BAD_PARAM, k)
      else (E_SUCCESS, k\<lparr>k_syscalls := (k_syscalls k)(unat num := None)\<rparr>))"

end
