(* ===== verification/Interrupts.thy ===== *)
theory Interrupts
  imports Syscalls
begin

text \<open>
  The clock and serial interrupt handlers, \<^verbatim>\<open>kernel/clock.c\<close> and \<^verbatim>\<open>_isr_sio\<close> of
  \<^verbatim>\<open>kernel/sio.c\<close>, and the boot sequence of \<^verbatim>\<open>_init\<close> in \<^verbatim>\<open>kernel/system.c\<close> as far as it
  sets up the modelled state.  The values that the serial device returns are a list that
  the handler consumes; the pinwheel that the clock draws is its counters.
\<close>

section \<open>The clock\<close>

text \<open>Each turn takes a process from the sleep queue, so \<open>N_QNODES\<close> turns are enough.\<close>

fun wake_loop :: "nat \<Rightarrow> kernel \<Rightarrow> kernel outcome" where
  "wake_loop 0 k = Inl Diverges"
| "wake_loop (Suc fuel) k =
     (case lq_remove_by_key Q_SLEEP (k_time k) (k_q k) of
        (st, d, v) \<Rightarrow>
          if st = E_SUCCESS then andThen (schedule d PRIO_MAXIMUM (set_q v k)) (wake_loop fuel)
          else Inr (set_q v k))"

definition tick :: "kernel \<Rightarrow> kernel" where
  "tick k =
     (let k1 = k\<lparr>k_time := k_time k + 1, k_pinwheel := k_pinwheel k + 1\<rparr>
      in if k_pinwheel k1 = 10 then k1\<lparr>k_pinwheel := 0, k_pindex := k_pindex k1 + 1\<rparr> else k1)"

definition isr_clock :: "kernel \<Rightarrow> kernel outcome" where
  "isr_clock k =
     andThen (wake_loop (N_QNODES + 1) (tick k)) (\<lambda>k1.
       andThen (current k1) (\<lambda>c.
         andThen (schedule (Some c) (p_prio (k_pcbs k1 c)) k1) (\<lambda>k2.
           andThen (dispatch k2) (\<lambda>k3. Inr (k_outb 0x20 0x20 k3)))))"

definition clock_init :: "kernel \<Rightarrow> kernel" where
  "clock_init k =
     k_outb 0x40 (ucast ((1193182 div 100 :: u32) div 256))
       (k_outb 0x40 (ucast (1193182 div 100 :: u32))
         (k_outb 0x43 0x36 (k\<lparr>k_pinwheel := 0, k_pindex := 0, k_time := 0\<rparr>)))"

section \<open>The serial line\<close>

text \<open>A character arrives: it goes to the first process that waits for input, or is kept.\<close>

definition sio_receive :: "u8 \<Rightarrow> kernel \<Rightarrow> kernel outcome" where
  "sio_receive rxd k =
     (let ch = (if rxd = 13 then 10 else rxd)
      in if ql_items (k_q k) Q_READING \<noteq> [] then
           case lq_remove Q_READING (k_q k) of
             (st, d, v) \<Rightarrow>
               if st \<noteq> E_SUCCESS then Inl (Panic ''_isr_sio: serial wakeup status'')
               else case d of
                 None \<Rightarrow> Inl (Fault ''_isr_sio: null pcb'')
               | Some p \<Rightarrow>
                   let k1 = set_q v k;
                       k2 = set_eax (p_context (k_pcbs k1 p)) (ucast ch) k1
                   in schedule d (p_prio (k_pcbs k2 p)) k2
         else andThen (sio_rx_store ch (k_sio k)) (\<lambda>s. Inr (k\<lparr>k_sio := s\<rparr>)))"

fun isr_sio :: "u8 list \<Rightarrow> kernel \<Rightarrow> kernel outcome" where
  "isr_sio [] k = Inl Diverges"
| "isr_sio (e # ins) k =
     (let eir = e AND 0x0f
      in if eir = 0x06 \<or> eir = 0x0c \<or> eir = 0x00 then
           case ins of [] \<Rightarrow> Inl Diverges | x # ins' \<Rightarrow> isr_sio ins' k
         else if eir = 0x04 then
           case ins of [] \<Rightarrow> Inl Diverges | x # ins' \<Rightarrow> andThen (sio_receive x k) (isr_sio ins')
         else if eir = 0x02 then
           andThen (sio_tx_next (k_sio k)) (\<lambda>s. isr_sio ins (k\<lparr>k_sio := s\<rparr>))
         else if eir = 0x01 then Inr (k_outb 0x20 0x20 k)
         else Inl (Panic ''_isr_sio: unknown device status''))"

section \<open>Boot\<close>

definition kq_init :: "kernel \<Rightarrow> kernel" where
  "kq_init k = set_q ((k_q k)\<lparr>ql_items := \<lambda>_. [], ql_free := N_QNODES\<rparr>) k"

text \<open>The creation of the first process, whose code is at \<open>entry\<close>.\<close>

definition first_process :: "u32 \<Rightarrow> kernel \<Rightarrow> kernel outcome" where
  "first_process entry k =
     (case pcb_alloc k of
        (st, pcb, k1) \<Rightarrow>
          if st \<noteq> E_SUCCESS then Inl (Panic ''_init: first pcb alloc status'')
          else case pcb of
            None \<Rightarrow> Inl (Fault ''_init: null pcb'')
          | Some p \<Rightarrow>
              (case stack_alloc k1 of
                 (st1, stack, k2) \<Rightarrow>
                   if st1 \<noteq> E_SUCCESS then Inl (Panic ''_init: first stack alloc status'')
                   else
                     let (pid, k3) = pid_next k2 (p_pid (k_pcbs k2 p));
                         k4 = upd_pcb p (\<lambda>b. b\<lparr>p_stack := stack, p_pid := pid, p_ppid := pid,
                                               p_prio := PRIO_MAXIMUM, p_screen := 0\<rparr>) k3;
                         (ctx, k5) = setup_stack stack entry k4;
                         k6 = set_reg ctx CTX_ESP ctx k5;
                         k7 = upd_pcb p (\<lambda>b. b\<lparr>p_context := ctx\<rparr>) (k6\<lparr>k_current := pcb\<rparr>)
                     in Inr (k7\<lparr>k_sio := snd (sio_enable SIO_RX (k_sio k7))\<rparr>)))"

definition boot :: "u32 \<Rightarrow> kernel \<Rightarrow> kernel outcome" where
  "boot entry k =
     andThen (pcb_init (kq_init k)) (\<lambda>k1.
       andThen (stack_init k1) (\<lambda>k2.
         let k3 = k2\<lparr>k_sio := sio_init (k_sio k2)\<rparr>;
             k4 = syscall_init k3;
             k5 = k4\<lparr>k_screens := screen_init (k_screens k4)\<rparr>;
             k6 = sched_init k5;
             k7 = clock_init k6
         in first_process entry k7))"

end
