(* ===== verification/Kernel_Invariant.thy ===== *)
theory Kernel_Invariant
  imports Interrupts
begin

text \<open>
  The invariant of the kernel.  Every process control block is in at most one queue, every
  stack is free or belongs to one process, the queue nodes are accounted for, the state of
  a block agrees with its queue.  It is stated with two sets of exceptions, for the blocks
  that a handler has in hand: \<open>X\<close>, blocks whose state need not agree yet, and \<open>Y\<close>, blocks
  that have no stack yet.
\<close>

section \<open>The entries of the queues\<close>

definition elems :: "qlists \<Rightarrow> nat list \<Rightarrow> nat multiset" where
  "elems v Qs = sum_list (map (\<lambda>q. mset (map snd (ql_items v q))) Qs)"

definition qset :: "qlists \<Rightarrow> nat \<Rightarrow> nat set" where
  "qset v q = snd ` set (ql_items v q)"

text \<open>The queues that hold process control blocks.\<close>

definition PQ :: "nat list" where
  "PQ = [Q_PCB_AVAIL, Q_SLEEP, Q_READING, Q_WAITING, Q_ZOMBIE, 6, 7, 8, 9]"

lemma elems_set_items_notin: "q \<notin> set Qs \<Longrightarrow> elems (set_items q xs f v) Qs = elems v Qs"
  unfolding elems_def by (intro arg_cong [where f = sum_list] map_cong) auto

lemma elems_set_items:
  "distinct Qs \<Longrightarrow> q \<in> set Qs \<Longrightarrow>
   elems (set_items q xs f v) Qs + mset (map snd (ql_items v q)) = elems v Qs + mset (map snd xs)"
proof (induction Qs)
  case (Cons r Qs)
  show ?case
  proof (cases "q = r")
    case True
    then have "elems (set_items q xs f v) Qs = elems v Qs"
      using Cons.prems by (intro elems_set_items_notin) simp
    with True show ?thesis by (simp add: elems_def ac_simps)
  next
    case False
    then have "elems (set_items q xs f v) Qs + mset (map snd (ql_items v q)) =
        elems v Qs + mset (map snd xs)"
      using Cons by simp
    with False show ?thesis by (simp add: elems_def ac_simps)
  qed
qed simp

lemma elems_add:
  assumes "distinct Qs" and "q \<in> set Qs" and "mset xs = add_mset (k, p) (mset (ql_items v q))"
  shows "elems (set_items q xs f v) Qs = add_mset p (elems v Qs)"
  using elems_set_items [OF assms(1,2), of xs f v] assms(3) by simp

lemma elems_del:
  assumes "distinct Qs" and "q \<in> set Qs" and "mset (ql_items v q) = add_mset (k, p) (mset xs)"
  shows "elems v Qs = add_mset p (elems (set_items q xs f v) Qs)"
  using elems_set_items [OF assms(1,2), of xs f v] assms(3) by simp

lemma qset_elems: "q \<in> set Qs \<Longrightarrow> p \<in> qset v q \<Longrightarrow> p \<in># elems v Qs"
  by (induction Qs) (auto simp: elems_def qset_def)

lemma elems_once_distinct:
  "mset_once (elems v Qs) \<Longrightarrow> q \<in> set Qs \<Longrightarrow> distinct (map snd (ql_items v q))"
proof (induction Qs)
  case (Cons s Qs)
  have split: "elems v (s # Qs) = mset (map snd (ql_items v s)) + elems v Qs"
    by (simp add: elems_def)
  have "mset_once (mset (map snd (ql_items v s)))" "mset_once (elems v Qs)"
    using Cons.prems(1) unfolding split by (rule mset_once_unionD1, rule mset_once_unionD2)
  then show ?case using Cons by (auto simp del: mset_map)
qed simp

lemma elems_once_queue:
  "mset_once (elems v Qs) \<Longrightarrow> distinct Qs \<Longrightarrow> q \<in> set Qs \<Longrightarrow> r \<in> set Qs \<Longrightarrow>
   p \<in> qset v q \<Longrightarrow> p \<in> qset v r \<Longrightarrow> q = r"
proof (induction Qs)
  case (Cons s Qs)
  have split: "elems v (s # Qs) = mset (map snd (ql_items v s)) + elems v Qs"
    by (simp add: elems_def)
  have disj: "p \<notin># elems v Qs" if "p \<in> qset v s"
    using mset_once_disjoint [OF Cons.prems(1) [unfolded split]] that by (auto simp: qset_def)
  have once: "mset_once (elems v Qs)" using Cons.prems(1) unfolding split by (rule mset_once_unionD2)
  consider "q = s" "r = s" | "q = s" "r \<in> set Qs" | "r = s" "q \<in> set Qs" | "q \<in> set Qs" "r \<in> set Qs"
    using Cons.prems by auto
  then show ?case
  proof cases
    case 2
    then show ?thesis using disj Cons.prems qset_elems [of r Qs p v] by blast
  next
    case 3
    then show ?thesis using disj Cons.prems qset_elems [of q Qs p v] by blast
  next
    case 4
    then show ?thesis using Cons.IH [OF once] Cons.prems by simp
  qed simp
qed simp

section \<open>Well-formed queues\<close>

definition wfq :: "qlists \<Rightarrow> bool" where
  "wfq v \<longleftrightarrow>
     mset_once (elems v PQ) \<and> set_mset (elems v PQ) \<subseteq> {..<N_PCBS} \<and>
     mset_once (elems v [Q_STACK_AVAIL]) \<and> set_mset (elems v [Q_STACK_AVAIL]) \<subseteq> {..<N_STACKS} \<and>
     lq_nodes 10 v = N_QNODES \<and>
     ql_remover v Q_SLEEP = Some Remove_if_le_u \<and> ql_compare v Q_SLEEP = Some Compare_uint_asc \<and>
     ql_remover v Q_READING = Some Remove_if_equal \<and> ql_compare v Q_READING = Some Compare_uint_asc \<and>
     ql_remover v Q_WAITING = Some Remove_if_equal \<and> ql_compare v Q_WAITING = Some Compare_uint_asc \<and>
     ql_remover v Q_ZOMBIE = Some Remove_if_equal \<and> ql_compare v Q_ZOMBIE = Some Compare_uint_asc"

lemma PQ_simps [simp]: "distinct PQ" "set PQ = {0, 2, 3, 4, 5, 6, 7, 8, 9}"
  by (auto simp: PQ_def)

lemma lq_nodes_elems: "lq_nodes 10 v = ql_free v + size (elems v PQ) + size (elems v [Q_STACK_AVAIL])"
  by (simp add: lq_nodes_def elems_def PQ_def eval_nat_numeral)

lemma wfq_free:
  assumes "wfq v"
  shows "0 < ql_free v"
proof -
  have "size (elems v PQ) \<le> N_PCBS" and "size (elems v [Q_STACK_AVAIL]) \<le> N_STACKS"
    using assms by (auto simp: wfq_def intro!: mset_once_size_le)
  then show ?thesis
    using assms lq_nodes_elems [of v] by (simp add: wfq_def N_QNODES_def)
qed

lemma wfq_add:
  assumes "wfq v" and "q \<in> set PQ" and "mset xs = add_mset (k, p) (mset (ql_items v q))"
    and "p \<notin># elems v PQ" and "p < N_PCBS"
  shows "wfq (set_items q xs (ql_free v - 1) v)"
    and "elems (set_items q xs (ql_free v - 1) v) PQ = add_mset p (elems v PQ)"
proof -
  have len: "length xs = Suc (length (ql_items v q))"
    using assms(3) by (metis size_add_mset size_mset)
  have q: "q < 10" "q \<noteq> 1" using assms(2) by auto
  show E: "elems (set_items q xs (ql_free v - 1) v) PQ = add_mset p (elems v PQ)"
    using assms(2,3) by (intro elems_add) auto
  have "lq_nodes 10 (set_items q xs (ql_free v - 1) v) = lq_nodes 10 v"
    using q len wfq_free [OF assms(1)] by (intro lq_nodes_set_items) auto
  moreover have "elems (set_items q xs (ql_free v - 1) v) [Q_STACK_AVAIL] = elems v [Q_STACK_AVAIL]"
    using q by (intro elems_set_items_notin) auto
  ultimately show "wfq (set_items q xs (ql_free v - 1) v)"
    using assms E by (simp add: wfq_def mset_once_add_mset)
qed

lemma wfq_del:
  assumes "wfq v" and "q \<in> set PQ" and "mset (ql_items v q) = add_mset (k, p) (mset xs)"
  shows "wfq (set_items q xs (ql_free v + 1) v)"
    and "elems v PQ = add_mset p (elems (set_items q xs (ql_free v + 1) v) PQ)"
    and "p \<notin># elems (set_items q xs (ql_free v + 1) v) PQ" and "p < N_PCBS"
proof -
  let ?v = "set_items q xs (ql_free v + 1) v"
  have len: "Suc (length xs) = length (ql_items v q)"
    using assms(3) by (metis size_add_mset size_mset)
  have q: "q < 10" "q \<noteq> 1" using assms(2) by auto
  show E: "elems v PQ = add_mset p (elems ?v PQ)"
    using assms(2,3) by (intro elems_del) auto
  have once: "mset_once (add_mset p (elems ?v PQ))"
    and sub: "set_mset (add_mset p (elems ?v PQ)) \<subseteq> {..<N_PCBS}"
    unfolding E [symmetric] using assms(1) by (simp_all add: wfq_def)
  then show "p \<notin># elems ?v PQ" and "p < N_PCBS" by (simp_all add: mset_once_add_mset)
  have "lq_nodes 10 ?v = lq_nodes 10 v"
    using q len by (intro lq_nodes_set_items) auto
  moreover have "elems ?v [Q_STACK_AVAIL] = elems v [Q_STACK_AVAIL]"
    using q by (intro elems_set_items_notin) auto
  ultimately show "wfq ?v"
    using assms(1) once sub by (simp add: wfq_def mset_once_add_mset)
qed

lemma wfq_stack_add:
  assumes "wfq v" and "mset xs = add_mset (k, s) (mset (ql_items v Q_STACK_AVAIL))"
    and "s \<notin> qset v Q_STACK_AVAIL" and "s < N_STACKS"
  shows "wfq (set_items Q_STACK_AVAIL xs (ql_free v - 1) v)"
    and "elems (set_items Q_STACK_AVAIL xs (ql_free v - 1) v) PQ = elems v PQ"
proof -
  let ?v = "set_items Q_STACK_AVAIL xs (ql_free v - 1) v"
  have len: "length xs = Suc (length (ql_items v Q_STACK_AVAIL))"
    using assms(2) by (metis size_add_mset size_mset)
  show E: "elems ?v PQ = elems v PQ" by (intro elems_set_items_notin) simp
  have S: "elems ?v [Q_STACK_AVAIL] = add_mset s (elems v [Q_STACK_AVAIL])"
    using assms(2) by (intro elems_add) auto
  have "s \<notin># elems v [Q_STACK_AVAIL]" using assms(3) by (auto simp: elems_def qset_def)
  moreover have "lq_nodes 10 ?v = lq_nodes 10 v"
    using len wfq_free [OF assms(1)] by (intro lq_nodes_set_items) auto
  ultimately show "wfq ?v"
    using assms(1,4) E S by (simp add: wfq_def mset_once_add_mset)
qed

lemma wfq_stack_del:
  assumes "wfq v" and "mset (ql_items v Q_STACK_AVAIL) = add_mset (k, s) (mset xs)"
  shows "wfq (set_items Q_STACK_AVAIL xs (ql_free v + 1) v)"
    and "elems (set_items Q_STACK_AVAIL xs (ql_free v + 1) v) PQ = elems v PQ"
    and "s \<notin> qset (set_items Q_STACK_AVAIL xs (ql_free v + 1) v) Q_STACK_AVAIL" and "s < N_STACKS"
proof -
  let ?v = "set_items Q_STACK_AVAIL xs (ql_free v + 1) v"
  have len: "Suc (length xs) = length (ql_items v Q_STACK_AVAIL)"
    using assms(2) by (metis size_add_mset size_mset)
  show E: "elems ?v PQ = elems v PQ" by (intro elems_set_items_notin) simp
  have S: "elems v [Q_STACK_AVAIL] = add_mset s (elems ?v [Q_STACK_AVAIL])"
    using assms(2) by (intro elems_del) auto
  have once: "mset_once (add_mset s (elems ?v [Q_STACK_AVAIL]))"
    and sub: "set_mset (add_mset s (elems ?v [Q_STACK_AVAIL])) \<subseteq> {..<N_STACKS}"
    unfolding S [symmetric] using assms(1) by (simp_all only: wfq_def)
  then have "s \<notin># elems ?v [Q_STACK_AVAIL]" by (simp add: mset_once_add_mset)
  then show "s \<notin> qset ?v Q_STACK_AVAIL" by (auto simp: elems_def qset_def)
  show "s < N_STACKS" using sub by simp
  have "lq_nodes 10 ?v = lq_nodes 10 v"
    using len by (intro lq_nodes_set_items) auto
  then show "wfq ?v"
    using assms(1) once sub E by (simp add: wfq_def mset_once_add_mset)
qed


section \<open>The invariant\<close>

definition states_ok :: "nat set \<Rightarrow> qlists \<Rightarrow> (nat \<Rightarrow> pcb_t) \<Rightarrow> bool" where
  "states_ok X v P \<longleftrightarrow>
     (\<forall>p \<in> qset v Q_PCB_AVAIL. p_state (P p) = FREE) \<and>
     (\<forall>i < N_PRIORITIES. \<forall>p \<in> qset v (Q_READY i). p_state (P p) = READY \<or> p_state (P p) = KILLED) \<and>
     (\<forall>p < N_PCBS. p \<notin> X \<longrightarrow>
        (p_state (P p) = WAITING \<longrightarrow> (pid_id (p_pid (P p)), p) \<in> set (ql_items v Q_WAITING)) \<and>
        (p_state (P p) = ZOMBIE \<longrightarrow> (pid_id (p_pid (P p)), p) \<in> set (ql_items v Q_ZOMBIE)))"

definition used :: "nat set \<Rightarrow> qlists \<Rightarrow> nat set" where
  "used Y v = {..<N_PCBS} - qset v Q_PCB_AVAIL - Y"

definition stacks_ok :: "nat set \<Rightarrow> qlists \<Rightarrow> (nat \<Rightarrow> pcb_t) \<Rightarrow> bool" where
  "stacks_ok Y v P \<longleftrightarrow>
     inj_on (\<lambda>p. p_stack (P p)) (used Y v) \<and>
     (\<lambda>p. p_stack (P p)) ` used Y v \<subseteq> Some ` ({..<N_STACKS} - qset v Q_STACK_AVAIL)"

definition kinv :: "nat set \<Rightarrow> nat set \<Rightarrow> qlists \<Rightarrow> (nat \<Rightarrow> pcb_t) \<Rightarrow> bool" where
  "kinv X Y v P \<longleftrightarrow> wfq v \<and> states_ok X v P \<and> stacks_ok Y v P"

text \<open>Between two handlers there is a current process, in no queue.\<close>

definition kernel_ok :: "kernel \<Rightarrow> bool" where
  "kernel_ok k \<longleftrightarrow>
     kinv {} {} (k_q k) (k_pcbs k) \<and>
     (\<exists>c < N_PCBS. k_current k = Some c \<and> c \<notin># elems (k_q k) PQ)"

lemma kinvD [dest]:
  assumes "kinv X Y v P"
  shows "wfq v" and "states_ok X v P" and "stacks_ok Y v P"
  using assms by (auto simp: kinv_def)

lemma qset_set_items [simp]:
  "qset (set_items q xs f v) r = (if r = q then snd ` set xs else qset v r)"
  by (simp add: qset_def)

lemma notin_elems_qset: "p \<notin># elems v PQ \<Longrightarrow> q \<in> set PQ \<Longrightarrow> p \<notin> qset v q"
  using qset_elems [of q PQ p v] by blast

lemma ready_in_PQ: "i < N_PRIORITIES \<Longrightarrow> Q_READY i \<in> set PQ"
  by (auto simp: N_PRIORITIES_def)

text \<open>A block leaves the set of exceptions when its state agrees.\<close>

lemma kinv_settle:
  assumes "kinv X Y v P" and "p_state (P p) \<noteq> WAITING" and "p_state (P p) \<noteq> ZOMBIE"
  shows "kinv (X - {p}) Y v P"
  using assms by (auto simp: kinv_def states_ok_def)

lemma kinv_weaken: "kinv X Y v P \<Longrightarrow> X \<subseteq> X' \<Longrightarrow> kinv X' Y v P"
  by (auto simp: kinv_def states_ok_def)

text \<open>Changing a block that is not free, but not its stack.\<close>

lemma kinv_upd:
  assumes inv: "kinv X Y v P" and "p \<notin> qset v Q_PCB_AVAIL"
    and "\<And>i. i < N_PRIORITIES \<Longrightarrow> p \<in> qset v (Q_READY i) \<Longrightarrow> p_state b = READY \<or> p_state b = KILLED"
    and "p_stack b = p_stack (P p)"
  shows "kinv (insert p X) Y v (P(p := b))"
proof -
  have "(\<lambda>q. p_stack ((P(p := b)) q)) = (\<lambda>q. p_stack (P q))" using assms(4) by auto
  then have "stacks_ok Y v (P(p := b))" using inv by (simp only: kinv_def stacks_ok_def)
  moreover have "states_ok (insert p X) v (P(p := b))"
    using inv assms(2,3) unfolding kinv_def states_ok_def by auto
  ultimately show ?thesis using inv by (simp add: kinv_def)
qed

text \<open>
  What the states of a new queue state follow from: the free and ready queues have members
  in the right states, and entries of other blocks stay.
\<close>

lemma states_ok_change:
  assumes ok: "states_ok X v P"
    and avail: "\<And>p. p \<in> qset v' Q_PCB_AVAIL \<Longrightarrow> p_state (P p) = FREE"
    and ready: "\<And>i p. i < N_PRIORITIES \<Longrightarrow> p \<in> qset v' (Q_READY i) \<Longrightarrow>
      p_state (P p) = READY \<or> p_state (P p) = KILLED"
    and keep: "\<And>q k p. (k, p) \<in> set (ql_items v q) \<Longrightarrow> p \<notin> X' \<Longrightarrow> (k, p) \<in> set (ql_items v' q)"
    and X: "X \<subseteq> X'"
  shows "states_ok X' v' P"
  unfolding states_ok_def
proof (intro conjI ballI allI impI)
  fix p
  assume p: "p < N_PCBS" "p \<notin> X'"
  then have "p \<notin> X" using X by auto
  then show "p_state (P p) = WAITING \<Longrightarrow> (pid_id (p_pid (P p)), p) \<in> set (ql_items v' Q_WAITING)"
    and "p_state (P p) = ZOMBIE \<Longrightarrow> (pid_id (p_pid (P p)), p) \<in> set (ql_items v' Q_ZOMBIE)"
    using ok p keep unfolding states_ok_def by simp_all
qed (use avail ready in auto)

lemma states_okD:
  assumes "states_ok X v P"
  shows "p \<in> qset v Q_PCB_AVAIL \<Longrightarrow> p_state (P p) = FREE"
    and "i < N_PRIORITIES \<Longrightarrow> p \<in> qset v (Q_READY i) \<Longrightarrow> p_state (P p) = READY \<or> p_state (P p) = KILLED"
    and "p < N_PCBS \<Longrightarrow> p \<notin> X \<Longrightarrow> p_state (P p) = WAITING \<Longrightarrow>
      (pid_id (p_pid (P p)), p) \<in> set (ql_items v Q_WAITING)"
    and "p < N_PCBS \<Longrightarrow> p \<notin> X \<Longrightarrow> p_state (P p) = ZOMBIE \<Longrightarrow>
      (pid_id (p_pid (P p)), p) \<in> set (ql_items v Q_ZOMBIE)"
  using assms unfolding states_ok_def by auto

text \<open>A block in no queue enters one, other than that of the free blocks.\<close>

lemma kinv_enqueue:
  assumes inv: "kinv X Y v P" and p: "p < N_PCBS" "p \<notin># elems v PQ"
    and q: "q \<in> set PQ" "q \<noteq> Q_PCB_AVAIL"
    and xs: "mset xs = add_mset (key, p) (mset (ql_items v q))"
    and ready: "\<And>i. i < N_PRIORITIES \<Longrightarrow> q = Q_READY i \<Longrightarrow> p_state (P p) = READY \<or> p_state (P p) = KILLED"
  shows "kinv X Y (set_items q xs (ql_free v - 1) v) P"
    and "elems (set_items q xs (ql_free v - 1) v) PQ = add_mset p (elems v PQ)"
proof -
  note wf = wfq_add [OF kinvD(1) [OF inv] q(1) xs p(2,1)]
  show "elems (set_items q xs (ql_free v - 1) v) PQ = add_mset p (elems v PQ)" by (rule wf(2))
  let ?v = "set_items q xs (ql_free v - 1) v"
  have set: "set xs = insert (key, p) (set (ql_items v q))"
    using xs by (metis set_mset_add_mset_insert set_mset_mset)
  then have members: "b \<in> qset ?v r \<Longrightarrow> b \<in> qset v r \<or> b = p \<and> r = q" for b r
    by (auto simp: qset_def split: if_splits)
  have "states_ok X ?v P"
  proof (rule states_ok_change [OF kinvD(2) [OF inv] _ _ _ subset_refl])
    fix b
    assume "b \<in> qset ?v Q_PCB_AVAIL"
    then show "p_state (P b) = FREE"
      using members [of b Q_PCB_AVAIL] states_okD(1) [OF kinvD(2) [OF inv]] q(2) by auto
  next
    fix i b
    assume i: "i < N_PRIORITIES" and "b \<in> qset ?v (Q_READY i)"
    then show "p_state (P b) = READY \<or> p_state (P b) = KILLED"
      using members [of b "Q_READY i"] states_okD(2) [OF kinvD(2) [OF inv] i] ready [OF i] by blast
  qed (use set in auto)
  moreover have "stacks_ok Y (set_items q xs (ql_free v - 1) v) P"
    using inv q by (auto simp: kinv_def stacks_ok_def used_def)
  ultimately show "kinv X Y (set_items q xs (ql_free v - 1) v) P"
    using wf(1) by (simp add: kinv_def)
qed

text \<open>A block leaves a queue, other than that of the free blocks.\<close>

lemma kinv_dequeue:
  assumes inv: "kinv X Y v P" and q: "q \<in> set PQ" "q \<noteq> Q_PCB_AVAIL"
    and xs: "mset (ql_items v q) = add_mset (key, p) (mset xs)"
  shows "kinv (insert p X) Y (set_items q xs (ql_free v + 1) v) P"
    and "p \<notin># elems (set_items q xs (ql_free v + 1) v) PQ"
    and "elems v PQ = add_mset p (elems (set_items q xs (ql_free v + 1) v) PQ)" and "p < N_PCBS"
proof -
  note wf = wfq_del [OF kinvD(1) [OF inv] q(1) xs]
  show "p \<notin># elems (set_items q xs (ql_free v + 1) v) PQ"
    and "elems v PQ = add_mset p (elems (set_items q xs (ql_free v + 1) v) PQ)" and "p < N_PCBS"
    by (rule wf)+
  have set: "set (ql_items v q) = insert (key, p) (set xs)"
    using xs by (metis set_mset_add_mset_insert set_mset_mset)
  then have sub: "qset (set_items q xs (ql_free v + 1) v) r \<subseteq> qset v r" for r
    by (auto simp: qset_def)
  have "states_ok (insert p X) (set_items q xs (ql_free v + 1) v) P"
    using states_okD(1,2) [OF kinvD(2) [OF inv]] subsetD [OF sub] set
    by (intro states_ok_change [OF kinvD(2) [OF inv]]) (blast, blast, auto)
  moreover have "stacks_ok Y (set_items q xs (ql_free v + 1) v) P"
    using inv q by (auto simp: kinv_def stacks_ok_def used_def)
  ultimately show "kinv (insert p X) Y (set_items q xs (ql_free v + 1) v) P"
    using wf(1) by (simp add: kinv_def)
qed


section \<open>Blocks and stacks that are taken and returned\<close>

lemma used_insert: "used (insert p Y) v = used Y v - {p}"
  by (auto simp: used_def)

text \<open>A free block is taken.\<close>

lemma kinv_take_pcb:
  assumes inv: "kinv X Y v P" and xs: "mset (ql_items v Q_PCB_AVAIL) = add_mset (key, p) (mset xs)"
  defines "v' \<equiv> set_items Q_PCB_AVAIL xs (ql_free v + 1) v"
  shows "kinv X (insert p Y) v' P" and "p \<notin># elems v' PQ" and "p < N_PCBS"
    and "elems v PQ = add_mset p (elems v' PQ)" and "p_state (P p) = FREE"
proof -
  note wf = wfq_del [OF kinvD(1) [OF inv] _ xs, folded v'_def]
  show "p \<notin># elems v' PQ" and "p < N_PCBS" and "elems v PQ = add_mset p (elems v' PQ)"
    using wf by simp_all
  have set: "set (ql_items v Q_PCB_AVAIL) = insert (key, p) (set xs)"
    using xs by (metis set_mset_add_mset_insert set_mset_mset)
  have sub: "qset v' r \<subseteq> qset v r" for r
    using set by (auto simp: qset_def v'_def)
  have pin: "p \<in> qset v Q_PCB_AVAIL" using set by (auto simp: qset_def)
  then show free: "p_state (P p) = FREE" using states_okD(1) [OF kinvD(2) [OF inv]] by simp
  have "states_ok X v' P"
    unfolding states_ok_def
  proof (intro conjI ballI allI impI)
    fix b
    assume b: "b < N_PCBS" "b \<notin> X"
    show "p_state (P b) = WAITING \<Longrightarrow> (pid_id (p_pid (P b)), b) \<in> set (ql_items v' Q_WAITING)"
      and "p_state (P b) = ZOMBIE \<Longrightarrow> (pid_id (p_pid (P b)), b) \<in> set (ql_items v' Q_ZOMBIE)"
      using states_okD(3,4) [OF kinvD(2) [OF inv]] b by (auto simp: v'_def)
  qed (use states_okD(1,2) [OF kinvD(2) [OF inv]] subsetD [OF sub] in blast)+
  moreover have "qset v' Q_PCB_AVAIL = qset v Q_PCB_AVAIL - {p}"
    using set wf(3) notin_elems_qset [of p v' Q_PCB_AVAIL] by (auto simp: qset_def v'_def)
  then have "used (insert p Y) v' = used Y v"
    using pin by (auto simp: used_def)
  then have "stacks_ok (insert p Y) v' P"
    using inv by (simp add: kinv_def stacks_ok_def v'_def)
  ultimately show "kinv X (insert p Y) v' P" using wf(1) by (simp add: kinv_def)
qed

text \<open>A free stack is taken; it belongs to nobody.\<close>

lemma kinv_take_stack:
  assumes inv: "kinv X Y v P" and xs: "mset (ql_items v Q_STACK_AVAIL) = add_mset (key, s) (mset xs)"
  defines "v' \<equiv> set_items Q_STACK_AVAIL xs (ql_free v + 1) v"
  shows "kinv X Y v' P" and "s \<notin> qset v' Q_STACK_AVAIL" and "s < N_STACKS"
    and "\<And>q. q \<in> used Y v' \<Longrightarrow> p_stack (P q) \<noteq> Some s" and "elems v' PQ = elems v PQ"
proof -
  note wf = wfq_stack_del [OF kinvD(1) [OF inv] xs, folded v'_def]
  show "s \<notin> qset v' Q_STACK_AVAIL" and "s < N_STACKS" and "elems v' PQ = elems v PQ"
    using wf by simp_all
  have set: "set (ql_items v Q_STACK_AVAIL) = insert (key, s) (set xs)"
    using xs by (metis set_mset_add_mset_insert set_mset_mset)
  then have S: "qset v' Q_STACK_AVAIL \<subseteq> qset v Q_STACK_AVAIL" "s \<in> qset v Q_STACK_AVAIL"
    by (auto simp: qset_def v'_def)
  have Q: "qset v' r = qset v r" if "r \<noteq> Q_STACK_AVAIL" for r
    using that by (simp add: v'_def)
  then have U: "used Y v' = used Y v" by (simp add: used_def)
  show "p_stack (P q) \<noteq> Some s" if "q \<in> used Y v'" for q
    using inv that S(2) by (auto simp: kinv_def stacks_ok_def U)
  have "states_ok X v' P"
    using kinvD(2) [OF inv] by (simp add: states_ok_def v'_def)
  moreover have "Some ` ({..<N_STACKS} - qset v Q_STACK_AVAIL) \<subseteq> Some ` ({..<N_STACKS} - qset v' Q_STACK_AVAIL)"
    using S(1) by blast
  then have "stacks_ok Y v' P"
    using inv unfolding kinv_def stacks_ok_def U by (meson subset_trans)
  ultimately show "kinv X Y v' P" using wf(1) by (simp add: kinv_def)
qed

text \<open>A block without a stack gets one.\<close>

lemma kinv_give_stack:
  assumes inv: "kinv X {p} v P" and p: "p \<notin># elems v PQ"
    and s: "s < N_STACKS" "s \<notin> qset v Q_STACK_AVAIL" "\<And>q. q \<in> used {p} v \<Longrightarrow> p_stack (P q) \<noteq> Some s"
    and b: "p_stack b = Some s"
  shows "kinv (insert p X) {} v (P(p := b))"
proof -
  have out: "p \<notin> qset v q" if "q \<in> set PQ" for q using notin_elems_qset [OF p that] .
  have "states_ok (insert p X) v (P(p := b))"
    unfolding states_ok_def
  proof (intro conjI ballI allI impI)
    fix q
    assume q: "q < N_PCBS" "q \<notin> insert p X"
    show "p_state ((P(p := b)) q) = WAITING \<Longrightarrow>
        (pid_id (p_pid ((P(p := b)) q)), q) \<in> set (ql_items v Q_WAITING)"
      and "p_state ((P(p := b)) q) = ZOMBIE \<Longrightarrow>
        (pid_id (p_pid ((P(p := b)) q)), q) \<in> set (ql_items v Q_ZOMBIE)"
      using states_okD(3,4) [OF kinvD(2) [OF inv]] q by auto
  next
    fix q
    assume "q \<in> qset v Q_PCB_AVAIL"
    then show "p_state ((P(p := b)) q) = FREE"
      using out [of Q_PCB_AVAIL] states_okD(1) [OF kinvD(2) [OF inv]] by auto
  next
    fix i q
    assume i: "i < N_PRIORITIES" and "q \<in> qset v (Q_READY i)"
    then show "p_state ((P(p := b)) q) = READY \<or> p_state ((P(p := b)) q) = KILLED"
      using out [OF ready_in_PQ [OF i]] states_okD(2) [OF kinvD(2) [OF inv] i] by auto
  qed
  moreover have "stacks_ok {} v (P(p := b))"
  proof -
    have U: "used {} v \<subseteq> insert p (used {p} v)" and pU: "p \<notin> used {p} v"
      by (auto simp: used_def)
    have "inj_on (\<lambda>q. p_stack (P q)) (used {p} v)"
      and im: "(\<lambda>q. p_stack (P q)) ` used {p} v \<subseteq> Some ` ({..<N_STACKS} - qset v Q_STACK_AVAIL)"
      using inv by (auto simp: kinv_def stacks_ok_def)
    moreover have "(\<lambda>q. p_stack ((P(p := b)) q)) ` used {p} v = (\<lambda>q. p_stack (P q)) ` used {p} v"
      using pU by (intro image_cong) auto
    moreover have "inj_on (\<lambda>q. p_stack ((P(p := b)) q)) (used {p} v) = inj_on (\<lambda>q. p_stack (P q)) (used {p} v)"
      using pU by (intro inj_on_cong) auto
    ultimately have "inj_on (\<lambda>q. p_stack ((P(p := b)) q)) (insert p (used {p} v))"
      using b s(3) pU by (auto simp: inj_on_insert)
    then have "inj_on (\<lambda>q. p_stack ((P(p := b)) q)) (used {} v)" using U by (rule inj_on_subset)
    moreover have "(\<lambda>q. p_stack ((P(p := b)) q)) ` used {} v \<subseteq> Some ` ({..<N_STACKS} - qset v Q_STACK_AVAIL)"
    proof
      fix x
      assume "x \<in> (\<lambda>q. p_stack ((P(p := b)) q)) ` used {} v"
      then obtain q where q: "q \<in> used {} v" "x = p_stack ((P(p := b)) q)" by blast
      show "x \<in> Some ` ({..<N_STACKS} - qset v Q_STACK_AVAIL)"
      proof (cases "q = p")
        case False
        then have "q \<in> used {p} v" using U q(1) by auto
        then show ?thesis using im q(2) False by auto
      qed (use q b s in simp)
    qed
    ultimately show ?thesis by (simp add: stacks_ok_def)
  qed
  ultimately show ?thesis using inv by (simp add: kinv_def)
qed

text \<open>A block returns its stack.\<close>

lemma kinv_return_stack:
  assumes inv: "kinv X {} v P" and p: "p < N_PCBS" "p \<notin> qset v Q_PCB_AVAIL"
  obtains s where "p_stack (P p) = Some s" and "s < N_STACKS" and "s \<notin> qset v Q_STACK_AVAIL"
    and "\<And>xs k. mset xs = add_mset (k, s) (mset (ql_items v Q_STACK_AVAIL)) \<Longrightarrow>
      kinv X {p} (set_items Q_STACK_AVAIL xs (ql_free v - 1) v) P \<and>
      elems (set_items Q_STACK_AVAIL xs (ql_free v - 1) v) PQ = elems v PQ"
proof -
  have pU: "p \<in> used {} v" using p by (simp add: used_def)
  then obtain s where s: "p_stack (P p) = Some s" "s < N_STACKS" "s \<notin> qset v Q_STACK_AVAIL"
    using inv by (auto simp: kinv_def stacks_ok_def)
  have "kinv X {p} (set_items Q_STACK_AVAIL xs (ql_free v - 1) v) P \<and>
      elems (set_items Q_STACK_AVAIL xs (ql_free v - 1) v) PQ = elems v PQ"
    if xs: "mset xs = add_mset (k, s) (mset (ql_items v Q_STACK_AVAIL))" for xs k
  proof -
    let ?v = "set_items Q_STACK_AVAIL xs (ql_free v - 1) v"
    note wf = wfq_stack_add [OF kinvD(1) [OF inv] xs s(3,2)]
    have set: "set xs = insert (k, s) (set (ql_items v Q_STACK_AVAIL))"
      using xs by (metis set_mset_add_mset_insert set_mset_mset)
    have states: "states_ok X ?v P"
      using kinvD(2) [OF inv] by (simp add: states_ok_def)
    have U: "used {p} ?v = used {} v - {p}" by (auto simp: used_def)
    have "p_stack (P q) \<noteq> Some s" if "q \<in> used {} v - {p}" for q
    proof
      assume "p_stack (P q) = Some s"
      then have "q = p"
        using inv pU that s(1) unfolding kinv_def stacks_ok_def by (metis DiffD1 inj_onD)
      with that show False by simp
    qed
    note other = this
    have "(\<lambda>q. p_stack (P q)) ` (used {} v - {p}) \<subseteq> Some ` ({..<N_STACKS} - insert s (qset v Q_STACK_AVAIL))"
    proof
      fix x
      assume "x \<in> (\<lambda>q. p_stack (P q)) ` (used {} v - {p})"
      then obtain q where q: "q \<in> used {} v - {p}" "x = p_stack (P q)" by blast
      then have "x \<in> Some ` ({..<N_STACKS} - qset v Q_STACK_AVAIL)"
        using inv unfolding kinv_def stacks_ok_def by blast
      then show "x \<in> Some ` ({..<N_STACKS} - insert s (qset v Q_STACK_AVAIL))"
        using other [OF q(1)] q(2) by auto
    qed
    moreover have "qset ?v Q_STACK_AVAIL = insert s (qset v Q_STACK_AVAIL)"
      using set by (auto simp: qset_def)
    ultimately have "stacks_ok {p} ?v P"
      using inv unfolding kinv_def stacks_ok_def U by (metis Diff_subset inj_on_subset)
    with states wf show ?thesis by (simp add: kinv_def)
  qed
  with s show ?thesis by (rule that)
qed

text \<open>A block without a stack is cleared and becomes free.\<close>

lemma kinv_free_pcb:
  assumes inv: "kinv X {p} v P" and p: "p < N_PCBS" "p \<notin># elems v PQ"
    and xs: "mset xs = add_mset (key, p) (mset (ql_items v Q_PCB_AVAIL))"
  defines "v' \<equiv> set_items Q_PCB_AVAIL xs (ql_free v - 1) v"
  shows "kinv (X - {p}) {} v' (P(p := pcb_clear))" and "elems v' PQ = add_mset p (elems v PQ)"
proof -
  note wf = wfq_add [OF kinvD(1) [OF inv] _ xs p(2,1), folded v'_def]
  show "elems v' PQ = add_mset p (elems v PQ)" using wf by simp
  have set: "set xs = insert (key, p) (set (ql_items v Q_PCB_AVAIL))"
    using xs by (metis set_mset_add_mset_insert set_mset_mset)
  then have A: "qset v' Q_PCB_AVAIL = insert p (qset v Q_PCB_AVAIL)"
    by (auto simp: qset_def v'_def)
  have Q: "qset v' r = qset v r" if "r \<noteq> Q_PCB_AVAIL" for r using that by (simp add: v'_def)
  have clear: "p_state pcb_clear = FREE" by (simp add: pcb_clear_def)
  have out: "p \<notin> qset v q" if "q \<in> set PQ" for q using notin_elems_qset [OF p(2) that] .
  have "states_ok (X - {p}) v' (P(p := pcb_clear))"
    unfolding states_ok_def
  proof (intro conjI ballI allI impI)
    fix q
    assume q: "q < N_PCBS" "q \<notin> X - {p}"
    show "p_state ((P(p := pcb_clear)) q) = WAITING \<Longrightarrow>
        (pid_id (p_pid ((P(p := pcb_clear)) q)), q) \<in> set (ql_items v' Q_WAITING)"
      and "p_state ((P(p := pcb_clear)) q) = ZOMBIE \<Longrightarrow>
        (pid_id (p_pid ((P(p := pcb_clear)) q)), q) \<in> set (ql_items v' Q_ZOMBIE)"
      using states_okD(3,4) [OF kinvD(2) [OF inv]] q clear by (auto simp: v'_def split: if_splits)
  next
    fix q
    assume "q \<in> qset v' Q_PCB_AVAIL"
    then show "p_state ((P(p := pcb_clear)) q) = FREE"
      using states_okD(1) [OF kinvD(2) [OF inv]] clear by (auto simp: A)
  next
    fix i q
    assume i: "i < N_PRIORITIES" and "q \<in> qset v' (Q_READY i)"
    then show "p_state ((P(p := pcb_clear)) q) = READY \<or> p_state ((P(p := pcb_clear)) q) = KILLED"
      using out [OF ready_in_PQ [OF i]] states_okD(2) [OF kinvD(2) [OF inv] i] by (auto simp: Q)
  qed
  moreover have "stacks_ok {} v' (P(p := pcb_clear))"
  proof -
    have U: "used {} v' = used {p} v" by (auto simp: used_def A)
    have "inj_on (\<lambda>q. p_stack ((P(p := pcb_clear)) q)) (used {p} v) = inj_on (\<lambda>q. p_stack (P q)) (used {p} v)"
      and "(\<lambda>q. p_stack ((P(p := pcb_clear)) q)) ` used {p} v = (\<lambda>q. p_stack (P q)) ` used {p} v"
      by (intro inj_on_cong image_cong; auto simp: used_def)+
    then show ?thesis
      using inv Q [of Q_STACK_AVAIL] unfolding kinv_def stacks_ok_def U by (simp del: One_nat_def)
  qed
  ultimately show "kinv (X - {p}) {} v' (P(p := pcb_clear))" using wf(1) by (simp add: kinv_def)
qed

end
