(* ===== verification/Kernel_Safety.thy ===== *)
theory Kernel_Safety
  imports Kernel_Invariant
begin

text \<open>
  Every system call and both interrupt handlers keep the invariant of
  \<open>Kernel_Invariant\<close>.  The only ways in which they fail are the two panics that the
  invariant cannot exclude: there is no ready process, or a process that ends has no
  parent; and the faults of the serial buffers.
\<close>

section \<open>Outcomes\<close>

definition expected_panic :: "kerr \<Rightarrow> bool" where
  "expected_panic e \<longleftrightarrow>
     e = Panic ''_dispatch: all queues empty'' \<or> e = Panic ''_zombify: no process parent''"

definition safe :: "(kernel \<Rightarrow> bool) \<Rightarrow> kernel outcome \<Rightarrow> bool" where
  "safe P x = (case x of Inl e \<Rightarrow> expected_panic e | Inr k \<Rightarrow> P k)"

lemma safe_simps [simp]:
  "safe P (Inr k) = P k"
  "safe P (Inl e) = expected_panic e"
  by (simp_all add: safe_def)

lemma safe_andThen: "safe Q x \<Longrightarrow> (\<And>k. Q k \<Longrightarrow> safe P (f k)) \<Longrightarrow> safe P (andThen x f)"
  by (cases x) auto

lemma safe_weaken: "safe Q x \<Longrightarrow> (\<And>k. Q k \<Longrightarrow> P k) \<Longrightarrow> safe P x"
  by (cases x) auto

section \<open>Queue operations under the invariant\<close>

abbreviation kinvk :: "nat set \<Rightarrow> nat set \<Rightarrow> kernel \<Rightarrow> bool" where
  "kinvk X Y k \<equiv> kinv X Y (k_q k) (k_pcbs k)"

abbreviation kelems :: "kernel \<Rightarrow> nat multiset" where
  "kelems k \<equiv> elems (k_q k) PQ"

lemma lq_append_free:
  "0 < ql_free v \<Longrightarrow>
   lq_append q p k v = (E_SUCCESS, set_items q (ql_items v q @ [(k, p)]) (ql_free v - 1) v)"
  by (simp add: lq_append_def)

lemma lq_insert_free:
  "0 < ql_free v \<Longrightarrow>
   lq_insert q p k v =
     (E_SUCCESS, set_items q (insert_item (ql_compare v q) (k, p) (ql_items v q)) (ql_free v - 1) v)"
  by (simp add: lq_insert_def)

lemma kinv_free: "kinv X Y v P \<Longrightarrow> 0 < ql_free v"
  by (auto intro: wfq_free)

lemma kinv_cong:
  assumes "\<And>p. p_state (P' p) = p_state (P p)" and "\<And>p. p_pid (P' p) = p_pid (P p)"
    and "\<And>p. p_stack (P' p) = p_stack (P p)"
  shows "kinv X Y v P' = kinv X Y v P"
  by (simp add: kinv_def states_ok_def stacks_ok_def assms)

text \<open>The number of blocks that are ready or waiting; no turn of the dispatcher adds to it.\<close>

definition runnable :: "qlists \<Rightarrow> nat" where
  "runnable v = (\<Sum>i<N_PRIORITIES. length (ql_items v (Q_READY i))) + length (ql_items v Q_WAITING)"

lemma runnable_set_items_other:
  "q \<noteq> Q_WAITING \<Longrightarrow> q < 6 \<Longrightarrow> runnable (set_items q xs f v) = runnable v"
  by (auto simp: runnable_def)

lemma runnable_simp:
  "runnable v = length (ql_items v 6) + length (ql_items v 7) + length (ql_items v 8) +
     length (ql_items v 9) + length (ql_items v Q_WAITING)"
  by (simp add: runnable_def N_PRIORITIES_def eval_nat_numeral)

lemma runnable_set_ready:
  "i < N_PRIORITIES \<Longrightarrow> runnable (set_items (Q_READY i) xs f v) + length (ql_items v (Q_READY i)) =
     runnable v + length xs"
  by (auto simp: runnable_simp N_PRIORITIES_def less_Suc_eq eval_nat_numeral)

lemma runnable_set_waiting:
  "runnable (set_items Q_WAITING xs f v) + length (ql_items v Q_WAITING) = runnable v + length xs"
  by (simp add: runnable_simp)

lemma runnable_le: "wfq v \<Longrightarrow> runnable v \<le> N_PCBS"
proof -
  assume "wfq v"
  then have "size (elems v PQ) \<le> N_PCBS" by (auto simp: wfq_def intro!: mset_once_size_le)
  then show ?thesis by (simp add: elems_def PQ_def runnable_simp)
qed

section \<open>Scheduling\<close>

definition clamp_prio :: "u8 \<Rightarrow> nat" where
  "clamp_prio prio = (if unat prio \<ge> N_PRIORITIES then N_PRIORITIES - 1 else unat prio)"

lemma clamp_prio_less: "clamp_prio prio < N_PRIORITIES"
  by (simp add: clamp_prio_def N_PRIORITIES_def)

definition scheduled :: "nat \<Rightarrow> u8 \<Rightarrow> kernel \<Rightarrow> kernel" where
  "scheduled p prio k =
     (let q = Q_READY (clamp_prio prio)
      in set_q (set_items q (ql_items (k_q k) q @ [(0, p)]) (ql_free (k_q k) - 1) (k_q k))
           (upd_pcb p (\<lambda>b. b\<lparr>p_state := READY\<rparr>) k))"

lemma schedule_free: "0 < ql_free (k_q k) \<Longrightarrow> schedule (Some p) prio k = Inr (scheduled p prio k)"
  by (simp add: schedule_def scheduled_def clamp_prio_def lq_append_free Let_def)

lemma scheduled_frame [simp]:
  "k_current (scheduled p prio k) = k_current k" "k_mem (scheduled p prio k) = k_mem k"
  "k_pcbs (scheduled p prio k) = (k_pcbs k)(p := (k_pcbs k p)\<lparr>p_state := READY\<rparr>)"
  "k_time (scheduled p prio k) = k_time k" "k_sio (scheduled p prio k) = k_sio k"
  "k_syscalls (scheduled p prio k) = k_syscalls k" "k_screens (scheduled p prio k) = k_screens k"
  by (simp_all add: scheduled_def Let_def)

lemma scheduled_ok:
  assumes inv: "kinvk X Y k" and p: "p < N_PCBS" "p \<notin># kelems k"
  shows "kinvk (X - {p}) Y (scheduled p prio k)" and "kelems (scheduled p prio k) = add_mset p (kelems k)"
    and "runnable (k_q (scheduled p prio k)) = runnable (k_q k) + 1"
proof -
  let ?q = "Q_READY (clamp_prio prio)"
  note i = clamp_prio_less [of prio]
  let ?P = "(k_pcbs k)(p := (k_pcbs k p)\<lparr>p_state := READY\<rparr>)"
  let ?xs = "ql_items (k_q k) ?q @ [(0, p)]"
  have "kinv (insert p X) Y (k_q k) ?P"
    using notin_elems_qset [OF p(2)] by (intro kinv_upd [OF inv]) simp_all
  then have "kinv (insert p X - {p}) Y (k_q k) ?P"
    by (rule kinv_settle) simp_all
  then have P: "kinv (X - {p}) Y (k_q k) ?P" by simp
  have q: "?q \<in> set PQ" "?q \<noteq> Q_PCB_AVAIL" using ready_in_PQ [OF i] by auto
  have xs: "mset ?xs = add_mset (0, p) (mset (ql_items (k_q k) ?q))" by simp
  have "p_state (?P p) = READY \<or> p_state (?P p) = KILLED" by simp
  note E = kinv_enqueue [OF P p q xs this]
  show "kinvk (X - {p}) Y (scheduled p prio k)"
    and "kelems (scheduled p prio k) = add_mset p (kelems k)"
    using E by (simp_all add: scheduled_def Let_def del: fun_upd_apply)
  show "runnable (k_q (scheduled p prio k)) = runnable (k_q k) + 1"
    using runnable_set_ready [OF i, of ?xs _ "k_q k"] by (simp add: scheduled_def Let_def)
qed

section \<open>Returning a block and its stack\<close>

definition released :: "nat \<Rightarrow> nat \<Rightarrow> kernel \<Rightarrow> kernel" where
  "released p s k =
     (let v = k_q k;
          v1 = set_items Q_STACK_AVAIL (ql_items v Q_STACK_AVAIL @ [(0, s)]) (ql_free v - 1) v;
          v2 = set_items Q_PCB_AVAIL (ql_items v1 Q_PCB_AVAIL @ [(0, p)]) (ql_free v1 - 1) v1
      in set_q v2 (upd_pcb p (\<lambda>_. pcb_clear)
           (upd_mem (memclr (stack_ptr k (Some s)) STACK_BYTES) k)))"

lemma stack_ptr_frame [simp]:
  "stack_ptr (set_q v k) st = stack_ptr k st" "stack_ptr (upd_mem f k) st = stack_ptr k st"
  "stack_ptr (upd_pcb p g k) st = stack_ptr k st"
  by (simp_all add: stack_ptr_def split: option.split)

lemma release_ok:
  assumes inv: "kinvk X {} k" and p: "p < N_PCBS" "p \<notin># kelems k"
  obtains s k4 where "p_stack (k_pcbs k p) = Some s" and "s < N_STACKS"
    and "stack_free (p_stack (k_pcbs k p)) k = (E_SUCCESS, k4)"
    and "pcb_free (Some p) k4 = (E_SUCCESS, released p s k)"
    and "kinvk (X - {p}) {} (released p s k)" and "kelems (released p s k) = add_mset p (kelems k)"
proof -
  have pa: "p \<notin> qset (k_q k) Q_PCB_AVAIL" using notin_elems_qset [OF p(2)] by simp
  obtain s where s: "p_stack (k_pcbs k p) = Some s" "s < N_STACKS"
    and "s \<notin> qset (k_q k) Q_STACK_AVAIL"
    and S: "\<And>xs k'. mset xs = add_mset (k', s) (mset (ql_items (k_q k) Q_STACK_AVAIL)) \<Longrightarrow>
      kinv X {p} (set_items Q_STACK_AVAIL xs (ql_free (k_q k) - 1) (k_q k)) (k_pcbs k) \<and>
      elems (set_items Q_STACK_AVAIL xs (ql_free (k_q k) - 1) (k_q k)) PQ = kelems k"
    using kinv_return_stack [OF inv p(1) pa] by blast
  define v1 where "v1 = set_items Q_STACK_AVAIL (ql_items (k_q k) Q_STACK_AVAIL @ [(0, s)])
    (ql_free (k_q k) - 1) (k_q k)"
  have v1: "kinv X {p} v1 (k_pcbs k)" "elems v1 PQ = kelems k"
    using S [of "ql_items (k_q k) Q_STACK_AVAIL @ [(0, s)]" 0] by (simp_all add: v1_def)
  define k4 where "k4 = set_q v1 (upd_mem (memclr (stack_ptr k (Some s)) STACK_BYTES) k)"
  have "stack_free (p_stack (k_pcbs k p)) k = (E_SUCCESS, k4)"
    using kinv_free [OF inv] by (simp add: stack_free_def s(1) lq_append_free k4_def v1_def Let_def)
  moreover have "pcb_free (Some p) k4 = (E_SUCCESS, released p s k)"
    using kinv_free [OF v1(1)]
    by (simp add: pcb_free_def k4_def lq_append_free released_def Let_def v1_def upd_pcb_def set_q_def)
  moreover have xs: "mset (ql_items v1 Q_PCB_AVAIL @ [(0, p)]) = add_mset (0, p) (mset (ql_items v1 Q_PCB_AVAIL))"
    by simp
  have pn: "p \<notin># elems v1 PQ" using p(2) v1(2) by simp
  note F = kinv_free_pcb [OF v1(1) p(1) pn xs]
  have R: "k_q (released p s k) = set_items Q_PCB_AVAIL (ql_items v1 Q_PCB_AVAIL @ [(0, p)]) (ql_free v1 - 1) v1"
    "k_pcbs (released p s k) = (k_pcbs k)(p := pcb_clear)"
    by (simp_all add: released_def Let_def v1_def)
  have "kinvk (X - {p}) {} (released p s k)" and "kelems (released p s k) = add_mset p (kelems k)"
    unfolding R using F v1(2) by simp_all
  ultimately show ?thesis using s by (intro that)
qed

lemma released_frame [simp]:
  "k_current (released p s k) = k_current k"
  "k_pcbs (released p s k) = (k_pcbs k)(p := pcb_clear)"
  "q \<noteq> Q_PCB_AVAIL \<Longrightarrow> q \<noteq> Q_STACK_AVAIL \<Longrightarrow> ql_items (k_q (released p s k)) q = ql_items (k_q k) q"
  "runnable (k_q (released p s k)) = runnable (k_q k)"
  by (simp_all add: released_def Let_def runnable_def)

section \<open>Taking a process from a queue by its key\<close>

lemma extract_key_find:
  assumes "(key, p) \<in> set xs"
  obtains d ys where "extract_key (\<lambda>k. k = key) xs = Some (d, ys)" and
    "mset xs = add_mset (key, d) (mset ys)"
proof -
  obtain d ys where e: "extract_key (\<lambda>k. k = key) xs = Some (d, ys)"
    using extract_key_Some_iff [of "\<lambda>k. k = key" xs] assms by fastforce
  then have "mset xs = add_mset (key, d) (mset ys)"
    using extract_key_mset [OF e] by auto
  with e show ?thesis by (rule that)
qed

lemma lq_remove_equal:
  assumes "(key, p) \<in> set (ql_items v q)" and "ql_remover v q = Some Remove_if_equal"
  obtains d ys where "lq_remove_by_key q key v = (E_SUCCESS, Some d, set_items q ys (ql_free v + 1) v)"
    and "mset (ql_items v q) = add_mset (key, d) (mset ys)"
proof -
  obtain d ys where e: "extract_key (\<lambda>k. k = key) (ql_items v q) = Some (d, ys)"
    and m: "mset (ql_items v q) = add_mset (key, d) (mset ys)"
    by (rule extract_key_find [OF assms(1)])
  have "ql_items v q \<noteq> []" using assms(1) by auto
  moreover have "call_remove Remove_if_equal = (\<lambda>k1 k2. k1 = k2)"
    by (simp add: remove_if_equal_def fun_eq_iff)
  ultimately have "lq_remove_by_key q key v = (E_SUCCESS, Some d, set_items q ys (ql_free v + 1) v)"
    using e assms(2) by (simp add: lq_remove_by_key_def)
  then show ?thesis using m by (rule that)
qed


section \<open>The end of a process\<close>

lemma pcb_find_loop_Some:
  "pcb_find_loop k pid is = Some p \<Longrightarrow>
   p \<in> set is \<and> p_state (k_pcbs k p) \<noteq> FREE \<and> pid_cmp (p_pid (k_pcbs k p)) pid = 0"
  by (induction "is") (auto split: if_splits simp del: pid_cmp_zero)

lemma pcb_find_Some:
  assumes "pcb_find pid k = Some p"
  shows "p < N_PCBS" and "p_state (k_pcbs k p) \<noteq> FREE" and "pid_cmp (p_pid (k_pcbs k p)) pid = 0"
  using pcb_find_loop_Some [OF assms [unfolded pcb_find_def]] by auto

lemma pcb_find_loop_None:
  "pcb_find_loop k pid is = None \<longleftrightarrow>
   (\<forall>p \<in> set is. p_state (k_pcbs k p) = FREE \<or> pid_cmp (p_pid (k_pcbs k p)) pid \<noteq> 0)"
  by (induction "is") (auto simp del: pid_cmp_zero)

lemma zombify_park_ok:
  assumes inv: "kinvk {} {} k" and p: "p < N_PCBS" "p \<notin># kelems k"
  shows "\<exists>k'. zombify_park p k = Inr k' \<and> kinvk {} {} k' \<and> kelems k' = add_mset p (kelems k) \<and>
           runnable (k_q k') = runnable (k_q k) \<and> k_current k' = k_current k \<and>
           p_state (k_pcbs k' p) = ZOMBIE \<and> p \<in> qset (k_q k') Q_ZOMBIE"
proof -
  let ?P = "(k_pcbs k)(p := (k_pcbs k p)\<lparr>p_state := ZOMBIE\<rparr>)"
  let ?key = "pid_id (p_pid (k_pcbs k p))"
  let ?xs = "insert_item (ql_compare (k_q k) Q_ZOMBIE) (?key, p) (ql_items (k_q k) Q_ZOMBIE)"
  let ?v = "set_items Q_ZOMBIE ?xs (ql_free (k_q k) - 1) (k_q k)"
  let ?k = "set_q ?v (upd_pcb p (\<lambda>b. b\<lparr>p_state := ZOMBIE\<rparr>) k)"
  have "kinv (insert p {}) {} (k_q k) ?P"
    using notin_elems_qset [OF p(2)] ready_in_PQ by (intro kinv_upd [OF inv]) auto
  then have P: "kinv {p} {} (k_q k) ?P" by simp
  have xs: "mset ?xs = add_mset (?key, p) (mset (ql_items (k_q k) Q_ZOMBIE))" by simp
  have E: "kinv {p} {} ?v ?P" and els: "elems ?v PQ = add_mset p (kelems k)"
    using kinv_enqueue [OF P p _ _ xs] by (auto simp: N_PRIORITIES_def)
  have "kinv {} {} ?v ?P"
    using E by (auto simp: kinv_def states_ok_def)
  moreover have "zombify_park p k = Inr ?k"
    using kinv_free [OF inv] by (simp add: zombify_park_def lq_insert_free Let_def)
  moreover have "runnable ?v = runnable (k_q k)" by (simp add: runnable_set_items_other)
  ultimately show ?thesis using els by (intro exI [of _ ?k]) (simp del: fun_upd_apply, simp)
qed

lemma kinv_mem [simp]: "k_q (upd_mem f k) = k_q k" "k_pcbs (upd_mem f k) = k_pcbs k"
  by simp_all

lemma zombify_wake_ok:
  assumes inv: "kinvk {} {} k" and p: "p < N_PCBS" "p \<notin># kelems k" and cur: "k_current k = Some p"
    and par: "parent < N_PCBS" "p_state (k_pcbs k parent) = WAITING"
  shows "\<exists>k' d. zombify_wake p p parent info k = Inr k' \<and> kinvk {} {} k' \<and>
           kelems k' = add_mset p (kelems k) \<and> runnable (k_q k') = runnable (k_q k) \<and>
           d \<in> qset (k_q k) Q_WAITING \<and> k_pcbs k' = (k_pcbs k)(p := pcb_clear, d := (k_pcbs k d)\<lparr>p_state := READY\<rparr>)"
proof -
  let ?key = "pid_id (p_pid (k_pcbs k parent))"
  have "(?key, parent) \<in> set (ql_items (k_q k) Q_WAITING)"
    using states_okD(3) [OF kinvD(2) [OF inv] par(1) _ par(2)] by simp
  moreover have "ql_remover (k_q k) Q_WAITING = Some Remove_if_equal"
    using kinvD(1) [OF inv] by (simp add: wfq_def)
  ultimately obtain d ys where
    rm: "lq_remove_by_key Q_WAITING ?key (k_q k) =
      (E_SUCCESS, Some d, set_items Q_WAITING ys (ql_free (k_q k) + 1) (k_q k))" and
    ys: "mset (ql_items (k_q k) Q_WAITING) = add_mset (?key, d) (mset ys)"
    by (rule lq_remove_equal)
  define v where "v = set_items Q_WAITING ys (ql_free (k_q k) + 1) (k_q k)"
  have D: "kinv {d} {} v (k_pcbs k)" "d \<notin># elems v PQ" "kelems k = add_mset d (elems v PQ)" "d < N_PCBS"
    using kinv_dequeue [OF inv _ _ ys] by (simp_all add: v_def)
  have rv: "runnable v + 1 = runnable (k_q k)"
    using runnable_set_waiting [of ys "ql_free (k_q k) + 1" "k_q k"] arg_cong [OF ys, of size]
    by (simp add: v_def)
  have dw: "d \<in> qset (k_q k) Q_WAITING"
    using ys by (metis fst_conv image_eqI qset_def set_mset_add_mset_insert set_mset_mset insertI1 snd_conv)
  have pd: "p \<noteq> d" using notin_elems_qset [OF p(2), of Q_WAITING] dw by auto
  define k3 where "k3 = upd_mem (store32 (info + 12) (ARG (upd_mem (store_pid info (p_pid (k_pcbs k p))) (set_q v k))
      (p_context (k_pcbs k p)) 1)) (upd_mem (store_pid info (p_pid (k_pcbs k p))) (set_q v k))"
  have k3: "k_q k3 = v" "k_pcbs k3 = k_pcbs k" "k_current k3 = Some p" by (simp_all add: k3_def cur)
  have inv3: "kinvk {d} {} k3" and p3: "p \<notin># kelems k3"
    using D p by (simp_all add: k3)
  obtain s k4 where R: "stack_free (p_stack (k_pcbs k3 p)) k3 = (E_SUCCESS, k4)"
    "pcb_free (Some p) k4 = (E_SUCCESS, released p s k3)" "kinvk ({d} - {p}) {} (released p s k3)"
    "kelems (released p s k3) = add_mset p (kelems k3)"
    using release_ok [OF inv3 p(1) p3] by metis
  let ?k5 = "released p s k3"
  have inv5: "kinvk {d} {} ?k5" and d5: "d \<notin># kelems ?k5"
    using R(3) D(2) pd by (simp_all add: R(4) k3)
  note S = scheduled_ok [OF inv5 D(4) d5, of PRIO_MAXIMUM]
  let ?k' = "scheduled d PRIO_MAXIMUM ?k5"
  have "zombify_wake p p parent info k = schedule (Some d) PRIO_MAXIMUM ?k5"
    using R(1,2) by (simp add: zombify_wake_def rm [folded v_def] k3_def Let_def)
  also have "\<dots> = Inr ?k'" by (rule schedule_free [OF kinv_free [OF inv5]])
  finally have "zombify_wake p p parent info k = Inr ?k'" .
  moreover have "kelems ?k' = add_mset p (kelems k)" using S(2) by (simp add: R(4) k3 D(3))
  moreover have "runnable (k_q ?k') = runnable (k_q k)" using S(3) rv by (simp add: k3)
  moreover have "k_pcbs ?k' = (k_pcbs k)(p := pcb_clear, d := (k_pcbs k d)\<lparr>p_state := READY\<rparr>)"
    using pd by (simp add: k3)
  ultimately show ?thesis using S(1) dw by (intro exI [of _ ?k'] exI [of _ d]) (simp del: fun_upd_apply)
qed


text \<open>The whole of \<^verbatim>\<open>_zombify\<close>, for the current process.\<close>

lemma zombify_ok:
  assumes inv: "kinvk {} {} k" and p: "p < N_PCBS" "p \<notin># kelems k" and cur: "k_current k = Some p"
  shows "safe (\<lambda>k'. kinvk {} {} k' \<and> kelems k' = add_mset p (kelems k) \<and>
           runnable (k_q k') = runnable (k_q k)) (zombify (Some p) k)"
proof (cases "pcb_find (p_ppid (k_pcbs k p)) k")
  case None
  then show ?thesis by (simp add: zombify_def expected_panic_def)
next
  case (Some parent)
  note par = pcb_find_Some [OF Some]
  have "zombify (Some p) k \<in> {zombify_park p k} \<union>
      (if p_state (k_pcbs k parent) = WAITING
       then {zombify_wake p p parent (ARG k (p_context (k_pcbs k parent)) 1) k} else {})"
    by (simp add: zombify_def Some current_def cur Let_def)
  then consider "zombify (Some p) k = zombify_park p k"
    | "p_state (k_pcbs k parent) = WAITING"
      "zombify (Some p) k = zombify_wake p p parent (ARG k (p_context (k_pcbs k parent)) 1) k"
    by (auto split: if_splits)
  then show ?thesis
  proof cases
    case 1
    then show ?thesis using zombify_park_ok [OF inv p] by auto
  next
    case 2
    let ?info = "ARG k (p_context (k_pcbs k parent)) 1"
    obtain k' where "zombify_wake p p parent ?info k = Inr k'" "kinvk {} {} k'"
      "kelems k' = add_mset p (kelems k)" "runnable (k_q k') = runnable (k_q k)"
      using zombify_wake_ok [OF inv p cur par(1) 2(1), of ?info] by blast
    then show ?thesis by (simp add: 2(2))
  qed
qed

section \<open>Dispatching\<close>

lemma first_ready_Some: "first_ready k is = Some i \<Longrightarrow> i \<in> set is \<and> ql_items (k_q k) (Q_READY i) \<noteq> []"
  by (induction "is") (auto split: if_splits)

text \<open>A dispatch takes one process out of the queues and makes it the current one.\<close>

definition dispatched :: "nat multiset \<Rightarrow> kernel \<Rightarrow> bool" where
  "dispatched M k \<longleftrightarrow>
     kinvk {} {} k \<and>
     (\<exists>c < N_PCBS. k_current k = Some c \<and> p_state (k_pcbs k c) = RUNNING \<and> M = add_mset c (kelems k))"

lemma dispatched_ok: "mset_once M \<Longrightarrow> dispatched M k \<Longrightarrow> kernel_ok k"
  by (auto simp: dispatched_def kernel_ok_def mset_once_add_mset)

lemma kinv_once: "kinv X Y v P \<Longrightarrow> mset_once (elems v PQ)"
  by (auto simp: kinv_def wfq_def)

lemma dispatch_loop_ok:
  "kinvk {} {} k \<Longrightarrow> runnable (k_q k) < fuel \<Longrightarrow>
   safe (dispatched (kelems k)) (dispatch_loop fuel k)"
proof (induction fuel arbitrary: k)
  case (Suc fuel)
  show ?case
  proof (cases "first_ready k [0..<N_PRIORITIES]")
    case None
    then show ?thesis by (simp add: expected_panic_def)
  next
    case (Some i)
    from first_ready_Some [OF Some] have i: "i < N_PRIORITIES" and ne: "ql_items (k_q k) (Q_READY i) \<noteq> []"
      by auto
    obtain key c xs where items: "ql_items (k_q k) (Q_READY i) = (key, c) # xs"
      using ne by (cases "ql_items (k_q k) (Q_READY i)") auto
    define v where "v = set_items (Q_READY i) xs (ql_free (k_q k) + 1) (k_q k)"
    have rm: "lq_remove (Q_READY i) (k_q k) = (E_SUCCESS, Some c, v)"
      by (simp add: lq_remove_def items v_def)
    have q: "Q_READY i \<in> set PQ" "Q_READY i \<noteq> Q_PCB_AVAIL" using ready_in_PQ [OF i] by auto
    have "mset (ql_items (k_q k) (Q_READY i)) = add_mset (key, c) (mset xs)" by (simp add: items)
    note D = kinv_dequeue [OF Suc.prems(1) q this, folded v_def]
    have r: "runnable v + 1 = runnable (k_q k)"
      using runnable_set_ready [OF i, of xs "ql_free (k_q k) + 1" "k_q k"] by (simp add: v_def items)
    let ?k1 = "(set_q v k)\<lparr>k_current := Some c\<rparr>"
    have cst: "p_state (k_pcbs k c) = READY \<or> p_state (k_pcbs k c) = KILLED"
      using states_okD(2) [OF kinvD(2) [OF Suc.prems(1)] i, of c] items by (simp add: qset_def)
    then have "kinv ({c} - {c}) {} v (k_pcbs k)"
      using D(1) by (intro kinv_settle) auto
    then have inv1: "kinvk {} {} ?k1" by simp
    show ?thesis
    proof (cases "p_state (k_pcbs k c) = READY")
      case True
      let ?P = "(k_pcbs k)(c := (k_pcbs k c)\<lparr>p_state := RUNNING\<rparr>)"
      have "kinv (insert c {}) {} v ?P"
        using inv1 notin_elems_qset [OF D(2)] ready_in_PQ by (intro kinv_upd) auto
      then have "kinv (insert c {} - {c}) {} v ?P" by (rule kinv_settle) simp_all
      then have "dispatched (kelems k) (upd_pcb c (\<lambda>b. b\<lparr>p_state := RUNNING\<rparr>) ?k1)"
        using D(3,4) by (auto simp: dispatched_def simp del: fun_upd_apply) simp
      moreover have "dispatch_loop (Suc fuel) k = Inr (upd_pcb c (\<lambda>b. b\<lparr>p_state := RUNNING\<rparr>) ?k1)"
        using Some rm True by (simp add: current_def Let_def)
      ultimately show ?thesis by simp
    next
      case False
      have "dispatch_loop (Suc fuel) k = andThen (zombify (Some c) ?k1) (dispatch_loop fuel)"
        using Some rm False cst by (simp add: current_def Let_def)
      moreover have "safe (dispatched (kelems k)) (andThen (zombify (Some c) ?k1) (dispatch_loop fuel))"
      proof (rule safe_andThen)
        show "safe (\<lambda>k'. kinvk {} {} k' \<and> kelems k' = add_mset c (kelems ?k1) \<and>
            runnable (k_q k') = runnable (k_q ?k1)) (zombify (Some c) ?k1)"
          using D(2,4) by (intro zombify_ok inv1) simp_all
        fix k'
        assume k': "kinvk {} {} k' \<and> kelems k' = add_mset c (kelems ?k1) \<and> runnable (k_q k') = runnable (k_q ?k1)"
        then have "kelems k' = kelems k" using D(3) by simp
        moreover have "safe (dispatched (kelems k')) (dispatch_loop fuel k')"
          using k' r Suc.prems(2) by (intro Suc.IH) simp_all
        ultimately show "safe (dispatched (kelems k)) (dispatch_loop fuel k')" by simp
      qed
      ultimately show ?thesis by simp
    qed
  qed
qed simp

lemma dispatch_ok:
  assumes "kinvk {} {} k"
  shows "safe (dispatched (kelems k)) (dispatch k)"
  unfolding dispatch_def
proof (rule dispatch_loop_ok [OF assms])
  show "runnable (k_q k) < N_QNODES + 1"
    using runnable_le [OF kinvD(1) [OF assms]] by (simp add: N_QNODES_def)
qed

lemma dispatch_kernel_ok:
  assumes "kinvk {} {} k"
  shows "safe kernel_ok (dispatch k)"
  using dispatch_ok [OF assms] by (rule safe_weaken) (rule dispatched_ok [OF kinv_once [OF assms]])

end
