(* ===== verification/Kernel_Handlers.thy ===== *)
theory Kernel_Handlers
  imports Kernel_Safety
begin

text \<open>
  The handlers one by one: each keeps \<open>kernel_ok\<close> or stops in an expected way.
\<close>

section \<open>Expected ends\<close>

text \<open>
  Apart from the two panics, a handler can only stop at a serial buffer, at an empty slot of
  the system call table, for a process without a context, or for an unknown device status.
\<close>

definition expected_fault :: "kerr \<Rightarrow> bool" where
  "expected_fault e \<longleftrightarrow>
     e \<in> set [Fault ''_sio_readc: read outside _inbuffer'',
              Fault ''_sio_writec: write outside _outbuffer'',
              Fault ''_isr_sio: write outside _inbuffer'',
              Fault ''_isr_sio: read outside _outbuffer'',
              Fault ''_isr_syscall: call of a null handler'',
              Panic ''_isr_syscall: null _current context'',
              Panic ''_isr_sio: unknown device status'']"

definition keeps :: "kernel outcome \<Rightarrow> bool" where
  "keeps x = (case x of Inl e \<Rightarrow> expected_panic e \<or> expected_fault e | Inr k \<Rightarrow> kernel_ok k)"

lemma keeps_simps [simp]:
  "keeps (Inr k) = kernel_ok k"
  "keeps (Inl e) = (expected_panic e \<or> expected_fault e)"
  by (simp_all add: keeps_def)

lemma keeps_safe: "safe kernel_ok x \<Longrightarrow> keeps x"
  by (cases x) auto

lemma keeps_andThen:
  "(\<And>e. x = Inl e \<Longrightarrow> expected_panic e \<or> expected_fault e) \<Longrightarrow> (\<And>v. x = Inr v \<Longrightarrow> keeps (f v)) \<Longrightarrow>
   keeps (andThen x f)"
  by (cases x) auto

text \<open>What the invariant looks at.\<close>

lemma kernel_ok_cong:
  assumes "k_q k' = k_q k" and "k_current k' = k_current k"
    and "\<And>p. p_state (k_pcbs k' p) = p_state (k_pcbs k p)"
    and "\<And>p. p_pid (k_pcbs k' p) = p_pid (k_pcbs k p)"
    and "\<And>p. p_stack (k_pcbs k' p) = p_stack (k_pcbs k p)"
  shows "kernel_ok k' = kernel_ok k"
  using kinv_cong [of "k_pcbs k'" "k_pcbs k" "{}" "{}" "k_q k"] assms by (simp add: kernel_ok_def)

lemma kernel_ok_simps [simp]:
  "kernel_ok (upd_mem f k) = kernel_ok k" "kernel_ok (set_reg c r v k) = kernel_ok k"
  "kernel_ok (k\<lparr>k_time := t\<rparr>) = kernel_ok k" "kernel_ok (k\<lparr>k_sio := s\<rparr>) = kernel_ok k"
  "kernel_ok (k\<lparr>k_screens := x\<rparr>) = kernel_ok k" "kernel_ok (k\<lparr>k_video := z\<rparr>) = kernel_ok k"
  "kernel_ok (k_outb p w k) = kernel_ok k"
  by (simp_all add: kernel_ok_def k_outb_def)

lemma kernel_ok_upd_pcb:
  assumes "p_state (f (k_pcbs k p)) = p_state (k_pcbs k p)"
    and "p_pid (f (k_pcbs k p)) = p_pid (k_pcbs k p)"
    and "p_stack (f (k_pcbs k p)) = p_stack (k_pcbs k p)"
  shows "kernel_ok (upd_pcb p f k) = kernel_ok k"
  by (rule kernel_ok_cong) (simp_all add: assms)

lemma kinvk_upd_field:
  assumes "kinvk X Y k" and "p_state (f (k_pcbs k p)) = p_state (k_pcbs k p)"
    and "p_pid (f (k_pcbs k p)) = p_pid (k_pcbs k p)"
    and "p_stack (f (k_pcbs k p)) = p_stack (k_pcbs k p)"
  shows "kinvk X Y (upd_pcb p f k)"
  using kinv_cong [of "k_pcbs (upd_pcb p f k)" "k_pcbs k" X Y "k_q k"] assms by auto

lemma kinvk_upd_out:
  assumes inv: "kinvk X Y k" and p: "p \<notin># kelems k"
    and st: "p_stack (f (k_pcbs k p)) = p_stack (k_pcbs k p)"
  shows "kinvk (insert p X) Y (upd_pcb p f k)"
proof -
  have "kinv (insert p X) Y (k_q k) ((k_pcbs k)(p := f (k_pcbs k p)))"
    using notin_elems_qset [OF p] ready_in_PQ by (intro kinv_upd [OF inv _ _ st]) auto
  then show ?thesis by (simp only: upd_pcb_simps)
qed

lemma kernel_okE:
  assumes "kernel_ok k"
  obtains c where "k_current k = Some c" and "current k = Inr c" and "c < N_PCBS"
    and "c \<notin># kelems k" and "kinvk {} {} k" and "p_state (k_pcbs k c) \<noteq> WAITING"
    and "p_state (k_pcbs k c) \<noteq> ZOMBIE"
proof -
  obtain c where c: "k_current k = Some c" "c < N_PCBS" "c \<notin># kelems k" "kinvk {} {} k"
    using assms by (auto simp: kernel_ok_def)
  have out: "(key, c) \<notin> set (ql_items (k_q k) q)" if "q \<in> set PQ" for key q
    using notin_elems_qset [OF c(3) that] by (force simp: qset_def)
  have "p_state (k_pcbs k c) \<noteq> WAITING" and "p_state (k_pcbs k c) \<noteq> ZOMBIE"
    using states_okD(3,4) [OF kinvD(2) [OF c(4)] c(2)] out by auto
  then show ?thesis using c by (intro that) (simp_all add: current_def)
qed

section \<open>Handlers that only touch memory and fields\<close>

lemma simple_handlers_keep:
  assumes ok: "kernel_ok k"
  shows "keeps (sys_getpid ctx k)" and "keeps (sys_getppid ctx k)" and "keeps (sys_getprio ctx k)"
    and "keeps (sys_gettime ctx k)" and "keeps (sys_setprio ctx k)" and "keeps (sys_settime ctx k)"
    and "keeps (sys_reads ctx k)" and "keeps (sys_writes ctx k)" and "keeps (sys_getscreen ctx k)"
    and "keeps (sys_setscreen ctx k)" and "keeps (sys_switchscreen ctx k)"
proof -
  obtain c where "current k = Inr c" using ok by (rule kernel_okE)
  then show "keeps (sys_getpid ctx k)" and "keeps (sys_getppid ctx k)" and "keeps (sys_getprio ctx k)"
    and "keeps (sys_gettime ctx k)" and "keeps (sys_setprio ctx k)" and "keeps (sys_settime ctx k)"
    and "keeps (sys_reads ctx k)" and "keeps (sys_writes ctx k)" and "keeps (sys_getscreen ctx k)"
    and "keeps (sys_setscreen ctx k)" and "keeps (sys_switchscreen ctx k)"
    using ok
    by (auto simp: sys_getpid_def sys_getppid_def sys_getprio_def sys_gettime_def sys_setprio_def
        sys_settime_def sys_reads_def sys_writes_def sys_getscreen_def sys_setscreen_def
        sys_switchscreen_def Let_def kernel_ok_upd_pcb)
qed

lemma sys_writec_keeps:
  assumes ok: "kernel_ok k"
  shows "keeps (sys_writec ctx k)"
proof -
  obtain c where c: "k_current k = Some c" using ok by (rule kernel_okE)
  show ?thesis
    unfolding sys_writec_def
  proof (rule keeps_andThen)
    fix e
    assume "sio_writec (ARG k ctx 1) (k_sio k) = Inl e"
    then have "e = Fault ''_sio_writec: write outside _outbuffer''"
      by (auto simp: sio_writec_def sio_put_def andThen_def split: if_splits sum.splits)
    then show "expected_panic e \<or> expected_fault e" by (simp add: expected_fault_def)
  qed (use c ok in \<open>simp add: current_def Let_def\<close>)
qed

section \<open>Handlers that give up the processor\<close>

text \<open>The current process enters a queue and another is dispatched.\<close>

lemma enqueue_dispatch:
  assumes inv: "kinvk X {} k" and p: "p < N_PCBS" "p \<notin># kelems k" and X: "X \<subseteq> {p}"
    and q: "q \<in> set PQ" "q < 6" "q \<noteq> Q_PCB_AVAIL"
    and key: "p_state (k_pcbs k p) = WAITING \<Longrightarrow> q = Q_WAITING \<and> key = pid_id (p_pid (k_pcbs k p))"
    and nz: "p_state (k_pcbs k p) \<noteq> ZOMBIE"
  shows "\<exists>v. lq_insert q p key (k_q k) = (E_SUCCESS, v) \<and> safe kernel_ok (dispatch (set_q v k))"
proof -
  let ?xs = "insert_item (ql_compare (k_q k) q) (key, p) (ql_items (k_q k) q)"
  let ?v = "set_items q ?xs (ql_free (k_q k) - 1) (k_q k)"
  have xs: "mset ?xs = add_mset (key, p) (mset (ql_items (k_q k) q))" by simp
  have E: "kinv X {} ?v (k_pcbs k)"
    using q by (intro kinv_enqueue(1) [OF inv p q(1,3) xs]) auto
  have "states_ok {} ?v (k_pcbs k)"
    unfolding states_ok_def
  proof (intro conjI ballI allI impI)
    fix b
    assume b: "b < N_PCBS"
    show "(pid_id (p_pid (k_pcbs k b)), b) \<in> set (ql_items ?v Q_WAITING)" if "p_state (k_pcbs k b) = WAITING"
    proof (cases "b = p")
      case True
      then show ?thesis using key that by simp
    next
      case False
      then have "b \<notin> X" using X by auto
      then show ?thesis using states_okD(3) [OF kinvD(2) [OF E] b] that by blast
    qed
    show "(pid_id (p_pid (k_pcbs k b)), b) \<in> set (ql_items ?v Q_ZOMBIE)" if "p_state (k_pcbs k b) = ZOMBIE"
    proof -
      have "b \<notin> X" using X nz that by auto
      then show ?thesis using states_okD(4) [OF kinvD(2) [OF E] b] that by blast
    qed
  qed (use states_okD(1,2) [OF kinvD(2) [OF E]] in blast)+
  then have "kinvk {} {} (set_q ?v k)" using E by (simp add: kinv_def)
  then have "safe kernel_ok (dispatch (set_q ?v k))" by (rule dispatch_kernel_ok)
  then show ?thesis using kinv_free [OF inv] by (simp add: lq_insert_free)
qed

lemma sys_sleep_keeps:
  assumes ok: "kernel_ok k"
  shows "keeps (sys_sleep ctx k)"
proof -
  obtain c where c: "current k = Inr c" "c < N_PCBS" "c \<notin># kelems k" "kinvk {} {} k"
    using ok by (rule kernel_okE)
  let ?k = "upd_pcb c (\<lambda>b. b\<lparr>p_sleeptime := k_time k, p_state := SLEEPING\<rparr>) k"
  have "kinvk (insert c {}) {} ?k"
    using c(4,3) by (rule kinvk_upd_out) simp
  then have "\<exists>v. lq_insert Q_SLEEP c (k_time k + ARG k ctx 1) (k_q ?k) = (E_SUCCESS, v) \<and>
      safe kernel_ok (dispatch (set_q v ?k))"
    by (rule enqueue_dispatch) (use c in simp_all)
  then obtain v where "lq_insert Q_SLEEP c (k_time k + ARG k ctx 1) (k_q ?k) = (E_SUCCESS, v)"
    "safe kernel_ok (dispatch (set_q v ?k))" by blast
  then show ?thesis by (simp add: sys_sleep_def c(1) keeps_safe)
qed

lemma sys_readc_keeps:
  assumes ok: "kernel_ok k"
  shows "keeps (sys_readc ctx k)"
  unfolding sys_readc_def
proof (rule keeps_andThen)
  fix e
  assume "sio_readc (k_sio k) = Inl e"
  then have "e = Fault ''_sio_readc: read outside _inbuffer''"
    by (auto simp: sio_readc_def Let_def split: if_splits)
  then show "expected_panic e \<or> expected_fault e" by (simp add: expected_fault_def)
next
  fix r
  assume "sio_readc (k_sio k) = Inr r"
  obtain ch sio where r: "r = (ch, sio)" by (cases r)
  have ok1: "kernel_ok (k\<lparr>k_sio := sio\<rparr>)"
    using ok by simp
  show "keeps (case r of (ch, sio) \<Rightarrow> let k1 = k\<lparr>k_sio := sio\<rparr>
       in case ch of
            Some x \<Rightarrow> Inr (set_eax ctx (ucast x) k1)
          | None \<Rightarrow>
              andThen (current k1) (\<lambda>c.
                let k2 = upd_pcb c (\<lambda>b. b\<lparr>p_status := BLOCKED\<rparr>) k1;
                    (st, v) = lq_insert Q_READING c (pid_id (p_pid (k_pcbs k2 c))) (k_q k2)
                in if st \<noteq> E_SUCCESS then Inl (Panic ''_sys_read: insert status'')
                   else dispatch (set_q v k2)))"
  proof (cases ch)
    case (Some x)
    then show ?thesis using r ok1 by (simp add: Let_def)
  next
    case None
    let ?k1 = "k\<lparr>k_sio := sio\<rparr>"
    obtain c where c: "current ?k1 = Inr c" "c < N_PCBS" "c \<notin># kelems ?k1" "kinvk {} {} ?k1"
      "p_state (k_pcbs ?k1 c) \<noteq> WAITING" "p_state (k_pcbs ?k1 c) \<noteq> ZOMBIE"
      using ok1 by (rule kernel_okE)
    let ?k = "upd_pcb c (\<lambda>b. b\<lparr>p_status := BLOCKED\<rparr>) ?k1"
    have "kinvk {} {} ?k"
      using c(4) by (rule kinvk_upd_field) simp_all
    then have "\<exists>v. lq_insert Q_READING c (pid_id (p_pid (k_pcbs ?k c))) (k_q ?k) = (E_SUCCESS, v) \<and>
        safe kernel_ok (dispatch (set_q v ?k))"
      by (rule enqueue_dispatch) (use c in simp_all)
    then obtain v where "lq_insert Q_READING c (pid_id (p_pid (k_pcbs ?k c))) (k_q ?k) = (E_SUCCESS, v)"
      "safe kernel_ok (dispatch (set_q v ?k))" by blast
    then show ?thesis using r None c(1) by (simp add: Let_def keeps_safe)
  qed
qed

lemma wait_block_keeps:
  assumes ok: "kernel_ok k" and cur: "k_current k = Some c"
  shows "keeps (wait_block c k)"
proof -
  have c: "c < N_PCBS" "c \<notin># kelems k" "kinvk {} {} k"
    using ok cur by (auto elim: kernel_okE)
  let ?k = "upd_pcb c (\<lambda>b. b\<lparr>p_state := WAITING\<rparr>) k"
  have "kinvk (insert c {}) {} ?k"
    using c(3,2) by (rule kinvk_upd_out) simp
  then have "\<exists>v. lq_insert Q_WAITING c (pid_id (p_pid (k_pcbs k c))) (k_q ?k) = (E_SUCCESS, v) \<and>
      safe kernel_ok (dispatch (set_q v ?k))"
    by (rule enqueue_dispatch) (use c in simp_all)
  then obtain v where "lq_insert Q_WAITING c (pid_id (p_pid (k_pcbs k c))) (k_q ?k) = (E_SUCCESS, v)"
    "safe kernel_ok (dispatch (set_q v ?k))" by blast
  then show ?thesis by (simp add: wait_block_def Let_def keeps_safe)
qed

lemma schedule_dispatch:
  assumes inv: "kinvk X {} k" and p: "p < N_PCBS" "p \<notin># kelems k" and X: "X \<subseteq> {p}"
  shows "keeps (andThen (schedule (Some p) prio k) dispatch)"
proof -
  have "X - {p} = {}" using X by auto
  then have "kinvk {} {} (scheduled p prio k)"
    using scheduled_ok(1) [OF inv p, of prio] by (simp only:)
  then show ?thesis
    using schedule_free [OF kinv_free [OF inv], of p prio] by (simp add: dispatch_kernel_ok keeps_safe)
qed

lemma setup_stack_frame [simp]:
  "k_q (snd (setup_stack st e k)) = k_q k" "k_pcbs (snd (setup_stack st e k)) = k_pcbs k"
  "k_current (snd (setup_stack st e k)) = k_current k"
  by (simp_all add: setup_stack_def Let_def)

lemma sys_exec_keeps:
  assumes ok: "kernel_ok k"
  shows "keeps (sys_exec ctx k)"
proof -
  obtain c where c: "current k = Inr c" "c < N_PCBS" "c \<notin># kelems k" "kinvk {} {} k"
    using ok by (rule kernel_okE)
  obtain ctx' k1 where S: "setup_stack (p_stack (k_pcbs k c)) (ARG k ctx 2) k = (ctx', k1)"
    by (cases "setup_stack (p_stack (k_pcbs k c)) (ARG k ctx 2) k")
  then have k1: "k_q k1 = k_q k" "k_pcbs k1 = k_pcbs k"
    using setup_stack_frame(1,2) [of "p_stack (k_pcbs k c)" "ARG k ctx 2" k] by simp_all
  let ?k = "upd_pcb c (\<lambda>b. b\<lparr>p_context := ctx', p_prio := ucast (ARG k ctx 1)\<rparr>) k1"
  have "kinvk {} {} ?k"
    using c(4) by (intro kinvk_upd_field) (simp_all add: k1)
  then have "keeps (andThen (schedule (Some c) (ucast (ARG k ctx 1)) ?k) dispatch)"
    using c by (intro schedule_dispatch [where X = "{}"]) (simp_all add: k1)
  then show ?thesis by (simp add: sys_exec_def c(1) S Let_def)
qed

text \<open>
  \<^verbatim>\<open>_sys_yield\<close> does not put the caller into a queue, so it is lost; the queues are intact.
\<close>

lemma sys_yield_keeps: "kernel_ok k \<Longrightarrow> keeps (sys_yield ctx k)"
  unfolding sys_yield_def by (intro keeps_safe dispatch_kernel_ok) (auto elim: kernel_okE)

lemma sys_kill_keeps:
  assumes ok: "kernel_ok k"
  shows "keeps (sys_kill ctx k)"
proof (cases "pcb_find (load_pid (k_mem k) (arg_addr ctx 1)) k")
  case None
  then show ?thesis
    using ok by (simp add: sys_kill_def)
next
  case (Some p)
  note p = pcb_find_Some [OF Some]
  obtain c where c: "k_current k = Some c" "c < N_PCBS" "c \<notin># kelems k" "kinvk {} {} k"
    using ok by (rule kernel_okE)
  let ?k = "upd_pcb p (\<lambda>b. b\<lparr>p_state := KILLED\<rparr>) k"
  have "p \<notin> qset (k_q k) Q_PCB_AVAIL"
    using states_okD(1) [OF kinvD(2) [OF c(4)]] p(2) by auto
  then have "kinv (insert p {}) {} (k_q k) ((k_pcbs k)(p := (k_pcbs k p)\<lparr>p_state := KILLED\<rparr>))"
    by (intro kinv_upd [OF c(4)]) simp_all
  then have "kinvk (insert p {}) {} ?k" by (simp only: upd_pcb_simps)
  then have "kinvk (insert p {} - {p}) {} ?k" by (rule kinv_settle) simp_all
  then have inv: "kinvk {} {} ?k" by simp
  show ?thesis
  proof (cases "p = c")
    case True
    then have "keeps (andThen (schedule (Some p) (p_prio (k_pcbs ?k p)) ?k) dispatch)"
      using inv c by (intro schedule_dispatch [where X = "{}"]) simp_all
    then show ?thesis using Some c(1) True by (simp add: sys_kill_def Let_def)
  next
    case False
    have "kernel_ok ?k" using inv c by (auto simp: kernel_ok_def simp del: fun_upd_apply)
    then show ?thesis using Some c(1) False by (simp add: sys_kill_def Let_def)
  qed
qed


section \<open>Waiting, exiting and forking\<close>

lemma mset_once_move: "mset_once M \<Longrightarrow> M = add_mset d N \<Longrightarrow> d \<notin># N"
  by (simp add: mset_once_add_mset)

lemma wait_reap_keeps:
  assumes ok: "kernel_ok k" and p: "p < N_PCBS" "p_state (k_pcbs k p) = ZOMBIE"
  shows "keeps (wait_reap p info k)"
proof -
  obtain c where c: "k_current k = Some c" "c < N_PCBS" "c \<notin># kelems k" "kinvk {} {} k"
    using ok by (rule kernel_okE)
  let ?key = "pid_id (p_pid (k_pcbs k p))"
  have "(?key, p) \<in> set (ql_items (k_q k) Q_ZOMBIE)"
    using states_okD(4) [OF kinvD(2) [OF c(4)] p(1) _ p(2)] by simp
  moreover have "ql_remover (k_q k) Q_ZOMBIE = Some Remove_if_equal"
    using kinvD(1) [OF c(4)] by (simp add: wfq_def)
  ultimately obtain d ys where
    rm: "lq_remove_by_key Q_ZOMBIE ?key (k_q k) =
      (E_SUCCESS, Some d, set_items Q_ZOMBIE ys (ql_free (k_q k) + 1) (k_q k))" and
    ys: "mset (ql_items (k_q k) Q_ZOMBIE) = add_mset (?key, d) (mset ys)"
    by (rule lq_remove_equal)
  define v where "v = set_items Q_ZOMBIE ys (ql_free (k_q k) + 1) (k_q k)"
  have D: "kinv {d} {} v (k_pcbs k)" "d \<notin># elems v PQ" "kelems k = add_mset d (elems v PQ)" "d < N_PCBS"
    using kinv_dequeue [OF c(4) _ _ ys] by (simp_all add: v_def)
  define k3 where "k3 = set_q v (upd_mem (store32 (info + 12) (p_status (k_pcbs k p)))
      (upd_mem (store_pid info (p_pid (k_pcbs k p))) k))"
  have k3: "k_q k3 = v" "k_pcbs k3 = k_pcbs k" "k_current k3 = Some c" by (simp_all add: k3_def c)
  have inv3: "kinvk {d} {} k3" and d3: "d \<notin># kelems k3"
    using D by (simp_all add: k3)
  obtain s k4 where R: "stack_free (p_stack (k_pcbs k3 d)) k3 = (E_SUCCESS, k4)"
    "pcb_free (Some d) k4 = (E_SUCCESS, released d s k3)" "kinvk ({d} - {d}) {} (released d s k3)"
    "kelems (released d s k3) = add_mset d (kelems k3)"
    using release_ok [OF inv3 D(4) d3] by metis
  have "wait_reap p info k = Inr (released d s k3)"
    using R(1,2) by (simp add: wait_reap_def rm [folded v_def] k3_def Let_def)
  moreover have "kelems (released d s k3) = kelems k" using R(4) D(3) by (simp add: k3)
  then have "kernel_ok (released d s k3)"
    using R(3) c by (simp add: kernel_ok_def k3 del: released_frame(2))
  ultimately show ?thesis by simp
qed

lemma wait_for_keeps:
  assumes "kernel_ok k" and "k_current k = Some c" and "p < N_PCBS"
  shows "keeps (wait_for c p info k)"
  using assms wait_reap_keeps wait_block_keeps by (simp add: wait_for_def)

lemma wait_scan_bound: "i + n \<le> N_PCBS \<Longrightarrow> wait_scan k me i n f = (j, g) \<Longrightarrow> j \<le> N_PCBS"
  by (induction k me i n f rule: wait_scan.induct) (auto split: if_splits simp del: pid_cmp_zero)

lemma sys_wait_keeps:
  assumes ok: "kernel_ok k"
  shows "keeps (sys_wait ctx k)"
proof -
  obtain c where c: "current k = Inr c" "k_current k = Some c" using ok by (rule kernel_okE)
  let ?info = "ARG k ctx 1" and ?pid = "load_pid (k_mem k) (ARG k ctx 1)"
  consider "?info = 0" | "?info \<noteq> 0" "0 < pid_id ?pid" | "?info \<noteq> 0" "\<not> 0 < pid_id ?pid" by blast
  then show ?thesis
  proof cases
    case 1
    then show ?thesis using ok by (simp add: sys_wait_def)
  next
    case 2
    then show ?thesis
      using ok c wait_for_keeps pcb_find_Some(1)
      by (cases "pcb_find ?pid k") (simp_all add: sys_wait_def)
  next
    case 3
    obtain i f where s: "wait_scan k (p_pid (k_pcbs k c)) 0 N_PCBS None = (i, f)"
      by (cases "wait_scan k (p_pid (k_pcbs k c)) 0 N_PCBS None")
    have "i \<le> N_PCBS" by (rule wait_scan_bound [OF _ s]) simp
    then have "sys_wait ctx k = wait_for c (if i < N_PCBS then i else N_PCBS - 1) ?info k"
      using 3 by (simp add: sys_wait_def c(1) s)
    moreover have "(if i < N_PCBS then i else N_PCBS - 1) < N_PCBS" by (simp add: N_PCBS_def)
    ultimately show ?thesis using wait_for_keeps [OF ok c(2)] by simp
  qed
qed

lemma fold_frame:
  assumes "\<And>x s. g (f x s) = g s"
  shows "g (fold f xs s) = g s"
  by (induction xs arbitrary: s) (simp_all add: assms)

lemma reparent_frame:
  "k_q (reparent me k) = k_q k" "k_current (reparent me k) = k_current k"
  "p_state (k_pcbs (reparent me k) p) = p_state (k_pcbs k p)"
  "p_pid (k_pcbs (reparent me k) p) = p_pid (k_pcbs k p)"
  "p_stack (k_pcbs (reparent me k) p) = p_stack (k_pcbs k p)"
  unfolding reparent_def by (rule fold_frame, simp add: if_distrib)+

lemma sys_exit_keeps:
  assumes ok: "kernel_ok k"
  shows "keeps (sys_exit ctx k)"
proof -
  obtain c where c: "current k = Inr c" "k_current k = Some c" "c < N_PCBS" "c \<notin># kelems k" "kinvk {} {} k"
    using ok by (rule kernel_okE)
  let ?k = "reparent (p_pid (k_pcbs k c)) k"
  have "kinvk {} {} ?k"
    using c(5) kinv_cong [of "k_pcbs ?k" "k_pcbs k"] by (simp add: reparent_frame)
  then have Z: "safe (\<lambda>k'. kinvk {} {} k' \<and> kelems k' = add_mset c (kelems ?k) \<and>
      runnable (k_q k') = runnable (k_q ?k)) (zombify (Some c) ?k)"
    using c by (intro zombify_ok) (simp_all add: reparent_frame)
  have "safe kernel_ok (andThen (zombify (Some c) ?k) dispatch)"
    using Z by (rule safe_andThen) (auto intro: dispatch_kernel_ok)
  then show ?thesis by (simp add: sys_exit_def c(1) keeps_safe)
qed

lemma fork_child_frame:
  "k_q (fork_child c p st k) = k_q k" "k_current (fork_child c p st k) = k_current k"
  by (simp_all add: fork_child_def Let_def pid_next_def)

lemma fork_child_pcb:
  "\<exists>b. p_stack b = st \<and> p_state b = p_state (k_pcbs k p) \<and>
       k_pcbs (fork_child c p st k) = (k_pcbs k)(p := b)"
  by (rule exI [of _ "k_pcbs (fork_child c p st k) p"])
    (simp add: fork_child_def Let_def pid_next_def)

lemma lq_remove_cases:
  obtains "ql_items v q = []" and "lq_remove q v = (E_EMPTY, None, v)"
  | key d xs where "ql_items v q = (key, d) # xs" and
      "lq_remove q v = (E_SUCCESS, Some d, set_items q xs (ql_free v + 1) v)"
proof (cases "ql_items v q")
  case Nil
  then show ?thesis by (intro that(1)) (simp_all add: lq_remove_def)
next
  case (Cons x xs)
  then show ?thesis by (cases x) (intro that(2); simp add: lq_remove_def)
qed

lemma sys_fork_keeps:
  assumes ok: "kernel_ok k"
  shows "keeps (sys_fork ctx k)"
proof -
  obtain c where c: "k_current k = Some c" "c < N_PCBS" "c \<notin># kelems k" "kinvk {} {} k"
    using ok by (rule kernel_okE)
  have setq: "set_q (k_q k) k = k" by (simp add: set_q_def)
  show ?thesis
  proof (cases rule: lq_remove_cases [of "k_q k" Q_PCB_AVAIL])
    case 1
    then show ?thesis using ok setq by (simp add: sys_fork_def pcb_alloc_def)
  next
    case (2 key p xs)
    define v where "v = set_items Q_PCB_AVAIL xs (ql_free (k_q k) + 1) (k_q k)"
    have "mset (ql_items (k_q k) Q_PCB_AVAIL) = add_mset (key, p) (mset xs)" by (simp add: 2(1))
    note T = kinv_take_pcb [OF c(4) this, folded v_def]
    have pa: "pcb_alloc k = (E_SUCCESS, Some p, set_q v k)"
      using 2(2) by (simp add: pcb_alloc_def v_def)
    have pc: "p \<noteq> c" and cv: "c \<notin># elems v PQ" using c(3) T(4) by auto
    show ?thesis
    proof (cases rule: lq_remove_cases [of v Q_STACK_AVAIL])
      case 1
      let ?xs = "ql_items v Q_PCB_AVAIL @ [(0, p)]"
      let ?v = "set_items Q_PCB_AVAIL ?xs (ql_free v - 1) v"
      let ?k = "set_q ?v (upd_pcb p (\<lambda>_. pcb_clear) (set_q v k))"
      have xs: "mset ?xs = add_mset (0, p) (mset (ql_items v Q_PCB_AVAIL))" by simp
      note F = kinv_free_pcb [OF T(1) T(3,2) xs]
      have sa: "stack_alloc (set_q v k) = (E_EMPTY, None, set_q v k)"
        using 1(2) by (simp add: stack_alloc_def) (simp add: set_q_def)
      have "sys_fork ctx k = Inr (set_eax ctx (-1) ?k)"
        using kinv_free [OF T(1)]
        by (simp add: sys_fork_def pa sa pcb_free_def lq_append_free Let_def)
      moreover have "kernel_ok ?k"
        using F c pc cv by (simp add: kernel_ok_def del: fun_upd_apply)
      ultimately show ?thesis by simp
    next
      case (2 skey s ys)
      define w where "w = set_items Q_STACK_AVAIL ys (ql_free v + 1) v"
      have "mset (ql_items v Q_STACK_AVAIL) = add_mset (skey, s) (mset ys)" using 2(1) by simp
      note S = kinv_take_stack [OF T(1) this, folded w_def]
      have sa: "stack_alloc (set_q v k) = (E_SUCCESS, Some s, set_q w (set_q v k))"
        using 2(2) by (simp add: stack_alloc_def w_def)
      let ?k2 = "set_q w (set_q v k)"
      let ?k3 = "fork_child c p (Some s) ?k2"
      obtain b where b: "p_stack b = Some s" "p_state b = FREE" "k_pcbs ?k3 = (k_pcbs k)(p := b)"
        using fork_child_pcb [of "Some s" ?k2 p c] T(5) by auto
      have pw: "p \<notin># elems w PQ" using S(5) T(2) by simp
      have "kinv {p} {} w ((k_pcbs k)(p := b))"
        using S(2-4) b by (intro kinv_give_stack [OF S(1) pw, of s]) auto
      then have "kinv ({p} - {p}) {} w ((k_pcbs k)(p := b))"
        by (rule kinv_settle) (simp_all add: b)
      then have inv3: "kinvk {} {} ?k3" by (simp add: fork_child_frame b(3) del: fun_upd_apply)
      let ?k5 = "set_eax ctx (pid_id (p_pid (k_pcbs ?k3 p))) (set_eax (p_context (k_pcbs ?k3 p)) 0 ?k3)"
      have k5: "kinvk {} {} ?k5" "p \<notin># kelems ?k5" "k_current ?k5 = Some c"
        using inv3 pw c by (simp_all add: fork_child_frame)
      have "sys_fork ctx k = schedule (Some p) (p_prio (k_pcbs ?k5 p)) ?k5"
        by (simp add: sys_fork_def pa sa current_def c(1) Let_def)
      also have "\<dots> = Inr (scheduled p (p_prio (k_pcbs ?k5 p)) ?k5)"
        by (rule schedule_free [OF kinv_free [OF k5(1)]])
      finally have "sys_fork ctx k = Inr (scheduled p (p_prio (k_pcbs ?k5 p)) ?k5)" .
      moreover have "kernel_ok (scheduled p (p_prio (k_pcbs ?k5 p)) ?k5)"
        using scheduled_ok(1,2) [OF k5(1) T(3) k5(2), of "p_prio (k_pcbs ?k5 p)"] k5(3) c pc cv S(5)
        unfolding kernel_ok_def by (simp add: fork_child_frame del: scheduled_frame(3))
      ultimately show ?thesis by simp
    qed
  qed
qed

end
