(* ===== verification/Kernel_Steps.thy ===== *)
theory Kernel_Steps
  imports Kernel_Handlers
begin

text \<open>
  The kernel as a state machine: after boot, system calls, clock and serial interrupts and
  user code (which may change memory in any way) follow one another.  Every reachable state
  satisfies the invariant, and every step that fails does so in an expected way.
\<close>

section \<open>Screens\<close>

text \<open>A screen that has an owner is in the queue of the active screens.\<close>

definition screen_inv :: "screens \<Rightarrow> bool" where
  "screen_inv s \<longleftrightarrow>
     (\<exists>U A. screens_rep s U A \<and>
        (\<forall>i < NUM_SCREENS. pid_id (scr_owner (screen_tab s i)) \<noteq> 0 \<longrightarrow> i \<in> set A))"

definition keeps_screens :: "kernel \<Rightarrow> kernel outcome \<Rightarrow> bool" where
  "keeps_screens k x \<longleftrightarrow> holdsOn (\<lambda>k'. k_screens k' = k_screens k) x"

lemma keeps_screens_Inr [simp]: "keeps_screens k (Inr k') \<longleftrightarrow> k_screens k' = k_screens k"
  by (simp add: keeps_screens_def)

lemma keeps_screens_Inl [simp]: "keeps_screens k (Inl e)"
  by (simp add: keeps_screens_def)

lemma keeps_screens_andThen:
  "keeps_screens k x \<Longrightarrow> (\<And>k'. k_screens k' = k_screens k \<Longrightarrow> keeps_screens k (f k')) \<Longrightarrow>
   keeps_screens k (andThen x f)"
  by (cases x) auto

lemma keeps_screens_start: "k_screens k1 = k_screens k \<Longrightarrow> keeps_screens k1 x \<Longrightarrow> keeps_screens k x"
  by (simp add: keeps_screens_def)

lemma schedule_screens: "keeps_screens k (schedule p prio k)"
  by (auto simp: schedule_def Let_def split: option.splits prod.splits)

lemma pcb_free_screens [simp]: "k_screens (snd (pcb_free p k)) = k_screens k"
  by (simp add: pcb_free_def Let_def split: option.splits prod.splits)

lemma stack_free_screens [simp]: "k_screens (snd (stack_free p k)) = k_screens k"
  by (simp add: stack_free_def Let_def split: option.splits prod.splits)

lemma stack_free_screens_eq: "stack_free p k = (st, k') \<Longrightarrow> k_screens k' = k_screens k"
  by (metis snd_conv stack_free_screens)

lemma pcb_free_screens_eq: "pcb_free p k = (st, k') \<Longrightarrow> k_screens k' = k_screens k"
  by (metis snd_conv pcb_free_screens)

lemma zombify_screens: "keeps_screens k (zombify p k)"
proof -
  have park: "keeps_screens k (zombify_park c k)" for c
    by (simp add: zombify_park_def Let_def split: prod.splits)
  have wake: "keeps_screens k (zombify_wake p' c par info k)" for p' c par info
    by (auto simp: zombify_wake_def Let_def split: prod.splits
        dest!: stack_free_screens_eq pcb_free_screens_eq intro: keeps_screens_start [OF _ schedule_screens])
  show ?thesis
    using park wake by (auto simp: zombify_def current_def Let_def split: option.splits)
qed

lemma dispatch_loop_screens: "keeps_screens k (dispatch_loop fuel k)"
proof (induction fuel arbitrary: k)
  case (Suc fuel)
  have "keeps_screens k (andThen (zombify (Some c) k1) (dispatch_loop fuel))"
    if "k_screens k1 = k_screens k" for c k1
  proof (rule keeps_screens_andThen)
    show "keeps_screens k (zombify (Some c) k1)"
      using that zombify_screens by (rule keeps_screens_start)
    show "k_screens k' = k_screens k \<Longrightarrow> keeps_screens k (dispatch_loop fuel k')" for k'
      by (rule keeps_screens_start [OF _ Suc.IH])
  qed
  then show ?case by (auto simp: current_def Let_def split: option.splits prod.splits)
qed simp

lemma dispatch_screens: "k_screens k1 = k_screens k \<Longrightarrow> keeps_screens k (dispatch k1)"
  unfolding dispatch_def using dispatch_loop_screens by (rule keeps_screens_start [rotated])

lemma schedule_screens': "k_screens k1 = k_screens k \<Longrightarrow> keeps_screens k (schedule p prio k1)"
  by (rule keeps_screens_start [OF _ schedule_screens])

lemmas screens_intros = dispatch_screens schedule_screens' keeps_screens_andThen

lemma simple_screens:
  "keeps_screens k (sys_getpid ctx k)" "keeps_screens k (sys_getppid ctx k)"
  "keeps_screens k (sys_getprio ctx k)" "keeps_screens k (sys_gettime ctx k)"
  "keeps_screens k (sys_setprio ctx k)" "keeps_screens k (sys_settime ctx k)"
  "keeps_screens k (sys_reads ctx k)" "keeps_screens k (sys_writes ctx k)"
  "keeps_screens k (sys_getscreen ctx k)" "keeps_screens k (sys_setscreen ctx k)"
  by (simp_all add: sys_getpid_def sys_getppid_def sys_getprio_def sys_gettime_def sys_setprio_def
      sys_settime_def sys_reads_def sys_writes_def sys_getscreen_def sys_setscreen_def
      current_def Let_def split: option.splits)

lemma sleep_screens: "keeps_screens k (sys_sleep ctx k)"
  by (auto simp: sys_sleep_def current_def Let_def split: option.splits prod.splits
      intro: screens_intros)

lemma exec_screens: "keeps_screens k (sys_exec ctx k)"
proof -
  have "k_screens (snd (setup_stack st e k)) = k_screens k" for st e
    by (simp add: setup_stack_def Let_def)
  then show ?thesis
    by (auto simp: sys_exec_def current_def case_prod_unfold Let_def split: option.splits
        intro!: screens_intros)
qed

lemma serial_screens: "keeps_screens k (sys_readc ctx k)" "keeps_screens k (sys_writec ctx k)"
proof -
  show "keeps_screens k (sys_readc ctx k)"
    by (cases "sio_readc (k_sio k)")
      (auto simp: sys_readc_def current_def Let_def split: option.splits prod.splits intro: screens_intros)
  show "keeps_screens k (sys_writec ctx k)"
    by (cases "sio_writec (ARG k ctx 1) (k_sio k)")
      (auto simp: sys_writec_def current_def Let_def split: option.splits)
qed

lemma kill_screens: "keeps_screens k (sys_kill ctx k)"
  by (auto simp: sys_kill_def Let_def split: option.splits intro!: screens_intros)

lemma wait_screens: "keeps_screens k (sys_wait ctx k)"
proof -
  have reap: "keeps_screens k (wait_reap p info k)" for p info
    by (auto simp: wait_reap_def Let_def split: prod.splits option.splits
        dest!: stack_free_screens_eq pcb_free_screens_eq)
  have "keeps_screens k (wait_block c k)" for c
    by (auto simp: wait_block_def Let_def split: prod.splits intro: screens_intros)
  with reap have "keeps_screens k (wait_for c p info k)" for c p info
    by (simp add: wait_for_def)
  then show ?thesis
    by (auto simp: sys_wait_def current_def Let_def split: option.splits prod.splits)
qed

lemma exit_screens: "keeps_screens k (sys_exit ctx k)"
proof -
  have R: "k_screens (reparent me k) = k_screens k" for me
    unfolding reparent_def by (rule fold_frame) simp
  then show ?thesis
    by (auto simp: sys_exit_def current_def split: option.splits
        intro!: screens_intros keeps_screens_start [OF R zombify_screens])
qed

lemma fork_screens: "keeps_screens k (sys_fork ctx k)"
proof -
  have F: "k_screens (fork_child c p st k') = k_screens k'" for c p st k'
    by (simp add: fork_child_def Let_def pid_next_def)
  show ?thesis
    by (auto simp: sys_fork_def pcb_alloc_def stack_alloc_def current_def Let_def F
        split: prod.splits option.splits dest!: pcb_free_screens_eq intro: screens_intros)
qed


section \<open>The screen calls\<close>

lemma valid_handle_nat:
  assumes "valid_handle sh"
  shows "unat sh < NUM_SCREENS" and "sh = of_nat (unat sh)"
proof -
  have "int (unat sh) = sint sh"
    using assms sint_nonneg_uint [of sh] by (simp add: valid_handle_def)
  then have "int (unat sh) < int NUM_SCREENS" using assms by (simp only: valid_handle_def)
  then show "unat sh < NUM_SCREENS" by (simp only: of_nat_less_iff)
  show "sh = of_nat (unat sh)" by (simp only: of_nat_unat_id)
qed

definition kernel_inv :: "kernel \<Rightarrow> bool" where
  "kernel_inv k \<longleftrightarrow> kernel_ok k \<and> screen_inv (k_screens k)"

text \<open>The outcome of a step: the invariant holds again, or an expected end.\<close>

definition preserves :: "kernel outcome \<Rightarrow> bool" where
  "preserves x = (case x of Inl e \<Rightarrow> expected_panic e \<or> expected_fault e | Inr k \<Rightarrow> kernel_inv k)"

lemma preserves_simps [simp]:
  "preserves (Inr k) = kernel_inv k"
  "preserves (Inl e) = (expected_panic e \<or> expected_fault e)"
  by (simp_all add: preserves_def)

lemma preservesI: "keeps x \<Longrightarrow> keeps_screens k x \<Longrightarrow> kernel_inv k \<Longrightarrow> preserves x"
  by (cases x) (auto simp: kernel_inv_def keeps_screens_def)

lemma preserves_andThen:
  "preserves x \<Longrightarrow> (\<And>k. kernel_inv k \<Longrightarrow> preserves (f k)) \<Longrightarrow> preserves (andThen x f)"
  by (cases x) auto

lemma kernel_inv_simps [simp]:
  "kernel_inv (upd_mem f k) = kernel_inv k" "kernel_inv (set_reg c r v k) = kernel_inv k"
  "kernel_inv (k\<lparr>k_sio := s\<rparr>) = kernel_inv k" "kernel_inv (k_outb p w k) = kernel_inv k"
  by (simp_all add: kernel_inv_def) (simp add: k_outb_def)

lemma screen_inv_tab:
  assumes "screen_inv s" and "\<And>i. pid_id (scr_owner (t i)) = pid_id (scr_owner (screen_tab s i))"
  shows "screen_inv (s\<lparr>screen_tab := t, active_screen := a\<rparr>)"
  using assms by (auto simp: screen_inv_def screens_rep_def)

lemma sys_switchscreen_inv:
  assumes "kernel_inv k"
  shows "preserves (sys_switchscreen ctx k)"
proof -
  have "keeps (sys_switchscreen ctx k)" using assms by (simp add: kernel_inv_def simple_handlers_keep)
  moreover have "holdsOn (\<lambda>k'. screen_inv (k_screens k')) (sys_switchscreen ctx k)"
    using assms by (auto simp: sys_switchscreen_def Let_def kernel_inv_def intro!: screen_inv_tab)
  ultimately show ?thesis by (cases "sys_switchscreen ctx k") (auto simp: kernel_inv_def)
qed

text \<open>
  \<^verbatim>\<open>_sys_openscreen\<close>: with no unused screen the result \<^verbatim>\<open>E_EMPTY\<close> is taken for a handle; that
  screen is active, so the invariant survives, but it changes its owner.
\<close>

lemma sys_openscreen_inv:
  assumes inv: "kernel_inv k"
  shows "preserves (sys_openscreen ctx k)"
proof -
  obtain c where c: "current k = Inr c" using inv by (auto simp: kernel_inv_def elim: kernel_okE)
  obtain U A where rep: "screens_rep (k_screens k) U A"
    and own: "\<And>i. i < NUM_SCREENS \<Longrightarrow> pid_id (scr_owner (screen_tab (k_screens k) i)) \<noteq> 0 \<Longrightarrow> i \<in> set A"
    using inv by (auto simp: kernel_inv_def screen_inv_def)
  obtain n s' U' A' where deq: "screen_dequeue (k_screens k) = Inr (of_nat n, s')" "n < NUM_SCREENS"
    "screens_rep s' U' A'" "n \<in> set A'" "set A \<subseteq> set A'"
    "\<And>i. i \<noteq> n \<Longrightarrow> screen_tab s' i = screen_tab (k_screens k) i"
  proof (cases U)
    case Nil
    then obtain s' where s': "screen_dequeue (k_screens k) = Inr (E_EMPTY, s')" "screens_rep s' U A"
      "screen_tab s' = screen_tab (k_screens k)"
      using screen_dequeue_rep [OF rep] by auto
    have "set A = {..<NUM_SCREENS}" using rep Nil by (simp add: screens_rep_def)
    then show ?thesis using s' by (intro that [of 2 s' U A]) (auto simp: NUM_SCREENS_def)
  next
    case (Cons n U')
    then obtain s' where s': "screen_dequeue (k_screens k) = Inr (of_nat n, s')" "screens_rep s' U' (A @ [n])"
      "screen_tab s' = (screen_tab (k_screens k))(n := clear_screen (screen_tab (k_screens k) n))"
      using screen_dequeue_rep [OF rep] by auto
    moreover have "n < NUM_SCREENS" using rep Cons by (auto simp: screens_rep_def)
    ultimately show ?thesis by (intro that [of n s' U' "A @ [n]"]) auto
  qed
  have n: "0 \<le> sint (of_nat n :: handle_t)" "unat (of_nat n :: handle_t) = n"
    using deq(2) by (simp_all add: NUM_SCREENS_def sint_of_nat_small unat_of_nat_u32 del: unat_of_nat)
  let ?s = "s'\<lparr>screen_tab := (screen_tab s')(n := open_screen (p_pid (k_pcbs k c)) (screen_tab s' n))\<rparr>"
  have "sys_openscreen ctx k = Inr (set_eax ctx (of_nat n) (k\<lparr>k_screens := ?s\<rparr>))"
    by (simp add: sys_openscreen_def deq(1) n c del: unat_of_nat)
  moreover have "screens_rep ?s U' A'" using deq(3) by (simp add: screens_rep_def)
  moreover have "i \<in> set A'" if "i < NUM_SCREENS" "pid_id (scr_owner (screen_tab ?s i)) \<noteq> 0" for i
    using that deq(4-6) own by (cases "i = n") auto
  ultimately have "sys_openscreen ctx k = Inr (set_eax ctx (of_nat n) (k\<lparr>k_screens := ?s\<rparr>))"
    and "screen_inv ?s" unfolding screen_inv_def by blast+
  then show ?thesis using inv by (simp add: kernel_inv_def)
qed

lemma sys_closescreen_inv:
  assumes inv: "kernel_inv k"
  shows "preserves (sys_closescreen ctx k)"
proof -
  let ?sh = "ARG k ctx 1" and ?scr = "k_screens k"
  show ?thesis
  proof (cases "valid_handle ?sh \<and> pid_id (scr_owner (screen_tab ?scr (unat ?sh))) \<noteq> 0")
    case False
    then have "sys_closescreen ctx k = Inr (set_eax ctx E_BAD_PARAM k)"
      by (auto simp: sys_closescreen_def Let_def)
    then show ?thesis using inv by simp
  next
    case True
    define i where "i = unat ?sh"
    have i: "i < NUM_SCREENS" "?sh = of_nat i" using True valid_handle_nat by (auto simp: i_def)
    have nat: "unat (of_nat i :: handle_t) = i"
      using i(1) by (simp add: NUM_SCREENS_def unat_of_nat_u32 del: unat_of_nat)
    obtain U A where rep: "screens_rep ?scr U A"
      and own: "\<And>j. j < NUM_SCREENS \<Longrightarrow> pid_id (scr_owner (screen_tab ?scr j)) \<noteq> 0 \<Longrightarrow> j \<in> set A"
      using inv by (auto simp: kernel_inv_def screen_inv_def)
    let ?s1 = "?scr\<lparr>screen_tab := (screen_tab ?scr)(i := (screen_tab ?scr i)\<lparr>scr_owner := pid_clear\<rparr>)\<rparr>"
    have "screens_rep ?s1 U A" using rep by (simp add: screens_rep_def)
    moreover have "i \<in> set A" using own i(1) True by (simp add: i_def)
    ultimately obtain s2 where s2: "screen_enqueue (of_nat i) ?s1 = Inr (E_SUCCESS, s2)"
      "screens_rep s2 (U @ [i]) (remove1 i A)" "screen_tab s2 = screen_tab ?s1"
      using screen_enqueue_rep [of ?s1 U A i] by blast
    have "pid_id pid_clear = 0" by (simp add: pid_clear_def)
    then have "screen_inv s2"
      using s2(2,3) own by (fastforce simp: screen_inv_def)
    moreover have "sys_closescreen ctx k = Inr (set_eax ctx E_SUCCESS (k\<lparr>k_screens := s2\<rparr>))"
      using True s2(1) i(2) by (simp add: sys_closescreen_def Let_def nat del: unat_of_nat)
    ultimately show ?thesis using inv by (simp add: kernel_inv_def)
  qed
qed

section \<open>The interrupt handlers\<close>

text \<open>The handlers of drivers keep the invariant; they are not part of this theory.\<close>

definition drivers_ok :: "(nat \<Rightarrow> u32 \<Rightarrow> kernel \<Rightarrow> kernel outcome) \<Rightarrow> bool" where
  "drivers_ok drv \<longleftrightarrow> (\<forall>n ctx k. kernel_inv k \<longrightarrow> preserves (drv n ctx k))"

lemma handler_inv:
  assumes drv: "drivers_ok drv" and inv: "kernel_inv k"
  shows "preserves (handler drv h ctx k)"
proof -
  have ok: "kernel_ok k" using inv by (simp add: kernel_inv_def)
  note keep = simple_handlers_keep [OF ok] sys_writec_keeps [OF ok] sys_readc_keeps [OF ok]
    sys_sleep_keeps [OF ok] sys_exec_keeps [OF ok] sys_kill_keeps [OF ok] sys_wait_keeps [OF ok]
    sys_exit_keeps [OF ok] sys_fork_keeps [OF ok] sys_yield_keeps [OF ok]
  note scr = simple_screens serial_screens sleep_screens exec_screens kill_screens wait_screens
    exit_screens fork_screens
  have yield: "keeps_screens k (sys_yield ctx k)" by (simp add: sys_yield_def dispatch_screens)
  show ?thesis
    by (cases h)
      (use drv inv in \<open>simp_all add: drivers_ok_def sys_switchscreen_inv sys_openscreen_inv
        sys_closescreen_inv preservesI [OF _ _ inv] keep scr yield\<close>)
qed

lemma isr_syscall_inv:
  assumes "drivers_ok drv" and inv: "kernel_inv k"
  shows "preserves (isr_syscall drv k)"
proof -
  obtain c where c: "k_current k = Some c" using inv by (auto simp: kernel_inv_def elim: kernel_okE)
  show ?thesis
    using handler_inv [OF assms]
    by (auto simp: isr_syscall_def c Let_def expected_fault_def split: option.splits
        intro!: preserves_andThen)
qed


text \<open>Awake processes: each turn takes one block from the sleep queue.\<close>

lemma wake_loop_ok:
  "kernel_ok k \<Longrightarrow> length (ql_items (k_q k) Q_SLEEP) < fuel \<Longrightarrow>
   \<exists>k'. wake_loop fuel k = Inr k' \<and> kernel_ok k' \<and> k_current k' = k_current k \<and>
        k_screens k' = k_screens k \<and> k_time k' = k_time k"
proof (induction fuel arbitrary: k)
  case (Suc fuel)
  obtain c where c: "k_current k = Some c" "c < N_PCBS" "c \<notin># kelems k" "kinvk {} {} k"
    using Suc.prems(1) by (rule kernel_okE)
  have rm: "ql_remover (k_q k) Q_SLEEP = Some Remove_if_le_u" using kinvD(1) [OF c(4)] by (simp add: wfq_def)
  let ?p = "\<lambda>key. call_remove Remove_if_le_u key (k_time k)"
  show ?case
  proof (cases "ql_items (k_q k) Q_SLEEP = [] \<or> extract_key ?p (ql_items (k_q k) Q_SLEEP) = None")
    case True
    then have "\<exists>st. lq_remove_by_key Q_SLEEP (k_time k) (k_q k) = (st, None, k_q k) \<and> st \<noteq> E_SUCCESS"
      using rm by (auto simp: lq_remove_by_key_def)
    then have "wake_loop (Suc fuel) k = Inr k" by (auto simp: set_q_def)
    then show ?thesis using Suc.prems(1) by simp
  next
    case False
    then obtain d ys where e: "extract_key ?p (ql_items (k_q k) Q_SLEEP) = Some (d, ys)" by auto
    define v where "v = set_items Q_SLEEP ys (ql_free (k_q k) + 1) (k_q k)"
    have lq: "lq_remove_by_key Q_SLEEP (k_time k) (k_q k) = (E_SUCCESS, Some d, v)"
      using False e rm by (simp add: lq_remove_by_key_def v_def)
    obtain key where m: "mset (ql_items (k_q k) Q_SLEEP) = add_mset (key, d) (mset ys)"
      using extract_key_mset [OF e] by blast
    have D: "kinv {d} {} v (k_pcbs k)" "d \<notin># elems v PQ" "kelems k = add_mset d (elems v PQ)" "d < N_PCBS"
      using kinv_dequeue [OF c(4) _ _ m] by (simp_all add: v_def)
    let ?k = "scheduled d PRIO_MAXIMUM (set_q v k)"
    have inv: "kinvk {d} {} (set_q v k)" "d \<notin># kelems (set_q v k)" using D by simp_all
    note S = scheduled_ok [OF inv(1) D(4) inv(2), of PRIO_MAXIMUM]
    have "kernel_ok ?k"
      using S(1,2) c D(3) by (simp add: kernel_ok_def del: scheduled_frame(3))
    moreover have "ql_items (k_q ?k) Q_SLEEP = ys"
      by (simp add: scheduled_def v_def Let_def)
    then have "length (ql_items (k_q ?k) Q_SLEEP) < fuel"
      using Suc.prems(2) arg_cong [OF m, of size] by simp
    ultimately obtain k' where "wake_loop fuel ?k = Inr k'" "kernel_ok k'" "k_current k' = k_current ?k"
      "k_screens k' = k_screens ?k" "k_time k' = k_time ?k"
      using Suc.IH [of ?k] by blast
    moreover have "schedule (Some d) PRIO_MAXIMUM (set_q v k) = Inr ?k"
      by (rule schedule_free [OF kinv_free [OF inv(1)]])
    ultimately show ?thesis using lq by simp
  qed
qed simp

lemma wfq_length: "wfq v \<Longrightarrow> q \<in> set PQ \<Longrightarrow> length (ql_items v q) \<le> N_PCBS"
proof -
  assume "wfq v" and q: "q \<in> set PQ"
  then have "size (elems v PQ) \<le> N_PCBS" by (auto simp: wfq_def intro!: mset_once_size_le)
  moreover have "length (ql_items v q) \<le> size (elems v PQ)"
    using q by (auto simp: elems_def PQ_def)
  ultimately show ?thesis by simp
qed

lemma tick_ok: "kernel_ok (tick k) = kernel_ok k" "k_screens (tick k) = k_screens k"
  "k_q (tick k) = k_q k" "k_time (tick k) = k_time k + 1"
  by (simp_all add: tick_def Let_def kernel_ok_def)

lemma isr_clock_inv:
  assumes inv: "kernel_inv k"
  shows "preserves (isr_clock k)"
proof -
  have ok: "kernel_ok (tick k)" using inv by (simp add: tick_ok kernel_inv_def)
  have "wfq (k_q (tick k))" using ok by (auto simp: kernel_ok_def)
  then have "length (ql_items (k_q (tick k)) Q_SLEEP) \<le> N_PCBS" by (rule wfq_length) simp
  then have fuel: "length (ql_items (k_q (tick k)) Q_SLEEP) < N_QNODES + 1" by (simp add: N_QNODES_def)
  obtain k1 where k1: "wake_loop (N_QNODES + 1) (tick k) = Inr k1" "kernel_ok k1"
    "k_screens k1 = k_screens k"
    using wake_loop_ok [OF ok fuel] tick_ok(2) [of k] by metis
  obtain c where c: "current k1 = Inr c" "c < N_PCBS" "c \<notin># kelems k1" "kinvk {} {} k1"
    using k1(2) by (rule kernel_okE)
  let ?x = "andThen (schedule (Some c) (p_prio (k_pcbs k1 c)) k1) dispatch"
  have "keeps ?x" using c by (intro schedule_dispatch [where X = "{}"]) simp_all
  moreover have "keeps_screens k ?x" by (intro screens_intros k1(3))
  ultimately have "preserves ?x" using inv by (rule preservesI)
  moreover have "isr_clock k = andThen ?x (\<lambda>k3. Inr (k_outb 0x20 0x20 k3))"
    unfolding isr_clock_def k1(1)
    by (cases "schedule (Some c) (p_prio (k_pcbs k1 c)) k1") (simp_all add: c(1))
  ultimately show ?thesis by (simp add: preserves_andThen)
qed

lemma sio_receive_inv:
  assumes inv: "kernel_inv k"
  shows "preserves (sio_receive rxd k)"
proof (cases rule: lq_remove_cases [of "k_q k" Q_READING])
  case 1
  have "preserves (andThen (sio_rx_store ch (k_sio k)) (\<lambda>s. Inr (k\<lparr>k_sio := s\<rparr>)))" for ch
    using inv by (auto simp: sio_rx_store_def expected_fault_def)
  then show ?thesis using 1 by (simp add: sio_receive_def Let_def)
next
  case (2 key d xs)
  obtain c where c: "k_current k = Some c" "c < N_PCBS" "c \<notin># kelems k" "kinvk {} {} k"
    using inv by (auto simp: kernel_inv_def elim: kernel_okE)
  define v where "v = set_items Q_READING xs (ql_free (k_q k) + 1) (k_q k)"
  have "mset (ql_items (k_q k) Q_READING) = add_mset (key, d) (mset xs)" by (simp add: 2(1))
  then have D: "kinv {d} {} v (k_pcbs k)" "d \<notin># elems v PQ" "kelems k = add_mset d (elems v PQ)" "d < N_PCBS"
    using kinv_dequeue [OF c(4), of Q_READING key d xs] by (simp_all add: v_def)
  have rm: "lq_remove Q_READING (k_q k) = (E_SUCCESS, Some d, v)" using 2(2) by (simp add: v_def)
  let ?k2 = "set_eax (p_context (k_pcbs k d)) (ucast (if rxd = 13 then 10 else rxd)) (set_q v k)"
  let ?k3 = "scheduled d (p_prio (k_pcbs k d)) ?k2"
  have inv2: "kinvk {d} {} ?k2" "d \<notin># kelems ?k2" using D by simp_all
  note S = scheduled_ok [OF inv2(1) D(4) inv2(2), of "p_prio (k_pcbs k d)"]
  have "kernel_ok ?k3" using S(1,2) c D(3) by (simp add: kernel_ok_def del: scheduled_frame(3))
  moreover have "sio_receive rxd k = Inr ?k3"
    using 2(1) rm schedule_free [OF kinv_free [OF inv2(1)], of d "p_prio (k_pcbs k d)"]
    by (simp add: sio_receive_def Let_def)
  ultimately show ?thesis using inv by (simp add: kernel_inv_def)
qed

text \<open>The serial handler returns when the device reports that it has nothing more to say.\<close>

lemma isr_sio_inv:
  "kernel_inv k \<Longrightarrow> isr_sio ins k = Inl Diverges \<or> preserves (isr_sio ins k)"
proof (induction ins k rule: isr_sio.induct)
  case (2 e ins k)
  let ?eir = "e AND 0x0f"
  consider "?eir = 0x06 \<or> ?eir = 0x0c \<or> ?eir = 0x00"
    | "?eir = 0x04" | "?eir = 0x02" | "?eir = 0x01"
    | "\<not> (?eir = 0x06 \<or> ?eir = 0x0c \<or> ?eir = 0x00)" "?eir \<noteq> 0x04" "?eir \<noteq> 0x02" "?eir \<noteq> 0x01"
    by blast
  then show ?case
  proof cases
    case 1
    then show ?thesis using 2 by (cases ins) auto
  next
    case 2: 2
    show ?thesis
    proof (cases ins)
      case (Cons x xs)
      show ?thesis
      proof (cases "sio_receive x k")
        case (Inl err)
        then show ?thesis using 2 Cons sio_receive_inv [OF \<open>kernel_inv k\<close>, of x] by simp
      next
        case (Inr k1)
        then have "kernel_inv k1" using sio_receive_inv [OF \<open>kernel_inv k\<close>, of x] by simp
        then show ?thesis
          using 2 Cons Inr "2.IH"(2) [OF refl _ 2 Cons] by simp
      qed
    qed (use 2 in simp)
  next
    case 3
    show ?thesis
    proof (cases "sio_tx_next (k_sio k)")
      case (Inl err)
      then have "err = Fault ''_isr_sio: read outside _outbuffer''"
        by (auto simp: sio_tx_next_def Let_def split: if_splits)
      then show ?thesis using 3 Inl by (simp add: expected_fault_def)
    next
      case (Inr s)
      then show ?thesis using 3 2 by simp
    qed
  next
    case 4
    then show ?thesis using 2 by simp
  next
    case 5
    then show ?thesis by (simp add: expected_fault_def)
  qed
qed simp


end
