(* ===== verification/Kernel_Boot.thy ===== *)
theory Kernel_Boot
  imports Kernel_Steps
begin

text \<open>
  Boot: \<^verbatim>\<open>_init\<close> of \<^verbatim>\<open>kernel/system.c\<close> never panics in the modelled steps, and the state in
  which it starts the first process satisfies the invariant.  Then the kernel as a
  transition system: the reachable states, and the invariant for all of them.
\<close>

section \<open>Boot\<close>

text \<open>Freeing the blocks or stacks of a list puts them into their queue in order.\<close>

lemma free_pcbs:
  "length is \<le> ql_free (k_q k) \<Longrightarrow>
   \<exists>k'. free_all pcb_free msg is k = Inr k' \<and>
     k_q k' = set_items Q_PCB_AVAIL (ql_items (k_q k) Q_PCB_AVAIL @ map (Pair 0) is)
       (ql_free (k_q k) - length is) (k_q k) \<and>
     (\<forall>p. k_pcbs k' p = (if p \<in> set is then pcb_clear else k_pcbs k p)) \<and>
     k_screens k' = k_screens k \<and> k_next_pid k' = k_next_pid k"
proof (induction "is" arbitrary: k)
  case Nil
  then show ?case by (simp add: set_items_same)
next
  case (Cons i "is")
  let ?k = "snd (pcb_free (Some i) k)"
  have free: "0 < ql_free (k_q k)" using Cons.prems by auto
  have f: "fst (pcb_free (Some i) k) = E_SUCCESS"
    "k_q ?k = set_items Q_PCB_AVAIL (ql_items (k_q k) Q_PCB_AVAIL @ [(0, i)]) (ql_free (k_q k) - 1) (k_q k)"
    "k_pcbs ?k = (k_pcbs k)(i := pcb_clear)" "k_screens ?k = k_screens k" "k_next_pid ?k = k_next_pid k"
    using free by (simp_all add: pcb_free_def lq_append_free Let_def)
  have "length is \<le> ql_free (k_q ?k)" using Cons.prems by (simp add: f(2))
  from Cons.IH [OF this] obtain k' where "free_all pcb_free msg is ?k = Inr k'"
    "k_q k' = set_items Q_PCB_AVAIL (ql_items (k_q ?k) Q_PCB_AVAIL @ map (Pair 0) is)
       (ql_free (k_q ?k) - length is) (k_q ?k)"
    "\<forall>p. k_pcbs k' p = (if p \<in> set is then pcb_clear else k_pcbs ?k p)" "k_screens k' = k_screens ?k" "k_next_pid k' = k_next_pid ?k"
    by blast
  then show ?case using f by (simp add: case_prod_unfold Let_def)
qed

lemma free_stacks:
  "length is \<le> ql_free (k_q k) \<Longrightarrow>
   \<exists>k'. free_all stack_free msg is k = Inr k' \<and>
     k_q k' = set_items Q_STACK_AVAIL (ql_items (k_q k) Q_STACK_AVAIL @ map (Pair 0) is)
       (ql_free (k_q k) - length is) (k_q k) \<and>
     k_pcbs k' = k_pcbs k \<and> k_screens k' = k_screens k \<and> k_next_pid k' = k_next_pid k"
proof (induction "is" arbitrary: k)
  case Nil
  then show ?case by (simp add: set_items_same)
next
  case (Cons i "is")
  let ?k = "snd (stack_free (Some i) k)"
  have free: "0 < ql_free (k_q k)" using Cons.prems by auto
  have f: "fst (stack_free (Some i) k) = E_SUCCESS"
    "k_q ?k = set_items Q_STACK_AVAIL (ql_items (k_q k) Q_STACK_AVAIL @ [(0, i)]) (ql_free (k_q k) - 1) (k_q k)"
    "k_pcbs ?k = k_pcbs k" "k_screens ?k = k_screens k" "k_next_pid ?k = k_next_pid k"
    using free by (simp_all add: stack_free_def lq_append_free Let_def)
  have "length is \<le> ql_free (k_q ?k)" using Cons.prems by (simp add: f(2))
  from Cons.IH [OF this] obtain k' where "free_all stack_free msg is ?k = Inr k'"
    "k_q k' = set_items Q_STACK_AVAIL (ql_items (k_q ?k) Q_STACK_AVAIL @ map (Pair 0) is)
       (ql_free (k_q ?k) - length is) (k_q ?k)"
    "k_pcbs k' = k_pcbs ?k" "k_screens k' = k_screens ?k" "k_next_pid k' = k_next_pid ?k"
    by blast
  then show ?case using f by (simp add: case_prod_unfold Let_def)
qed


text \<open>The queues during boot: free blocks and free stacks, and the routines of the others.\<close>

definition boot_queues :: "nat list \<Rightarrow> nat list \<Rightarrow> qlists" where
  "boot_queues ps ss =
     \<lparr>ql_items = (\<lambda>_. [])(Q_PCB_AVAIL := map (Pair 0) ps, Q_STACK_AVAIL := map (Pair 0) ss),
      ql_free = N_QNODES - length ps - length ss,
      ql_compare = (\<lambda>q. if q \<in> {Q_SLEEP, Q_READING, Q_WAITING, Q_ZOMBIE} then Some Compare_uint_asc else None),
      ql_remover = (\<lambda>q. if q = Q_SLEEP then Some Remove_if_le_u
                       else if q \<in> {Q_READING, Q_WAITING, Q_ZOMBIE} then Some Remove_if_equal else None)\<rparr>"

text \<open>Two queue states with the same lists, pool and routines, on the queues of the kernel.\<close>

definition same_queues :: "qlists \<Rightarrow> qlists \<Rightarrow> bool" where
  "same_queues v w \<longleftrightarrow>
     ql_free v = ql_free w \<and> (\<forall>q < 10. ql_items v q = ql_items w q \<and>
       ql_compare v q = ql_compare w q \<and> ql_remover v q = ql_remover w q)"

lemma map_snd_Pair: "map snd (map (Pair k) xs) = xs"
  by (simp add: comp_def)

lemma boot_elems:
  "elems (boot_queues ps ss) PQ = mset ps" "elems (boot_queues ps ss) [Q_STACK_AVAIL] = mset ss"
  by (simp_all add: elems_def PQ_def boot_queues_def comp_def del: mset_map)

lemma wfq_boot: "wfq (boot_queues [1..<N_PCBS] [1..<N_STACKS])"
proof -
  have "lq_nodes 10 (boot_queues [1..<N_PCBS] [1..<N_STACKS]) = N_QNODES"
    unfolding lq_nodes_elems boot_elems by (simp add: boot_queues_def N_QNODES_def N_PCBS_def N_STACKS_def)
  then show ?thesis
    unfolding wfq_def boot_elems mset_once_mset by (auto simp: boot_queues_def)
qed

lemma same_queues_inv:
  assumes "same_queues v w"
  shows "elems v PQ = elems w PQ" and "wfq v = wfq w" and "states_ok X v P = states_ok X w P"
    and "stacks_ok Y v P = stacks_ok Y w P"
proof -
  have I: "ql_items v q = ql_items w q" "ql_compare v q = ql_compare w q" "ql_remover v q = ql_remover w q"
    if "q < 10" for q using assms that by (auto simp: same_queues_def)
  have F: "ql_free v = ql_free w" using assms by (simp add: same_queues_def)
  show E: "elems v PQ = elems w PQ" by (simp add: elems_def PQ_def I)
  have S: "elems v [Q_STACK_AVAIL] = elems w [Q_STACK_AVAIL]" using I [of 1] by (simp add: elems_def)
  show "wfq v = wfq w" unfolding wfq_def lq_nodes_elems E S by (simp add: I F)
  have "Q_READY i < 10" if "i < N_PRIORITIES" for i using that by (simp add: N_PRIORITIES_def)
  then show "states_ok X v P = states_ok X w P" by (simp add: states_ok_def qset_def I)
  show "stacks_ok Y v P = stacks_ok Y w P" using I [of 1] by (simp add: stacks_ok_def used_def qset_def I)
qed

lemma pcb_init_boot:
  "\<exists>k'. pcb_init (kq_init k) = Inr k' \<and> ql_items (k_q k') = ql_items (boot_queues [0..<N_PCBS] []) \<and>
     ql_free (k_q k') = N_QNODES - N_PCBS \<and>
     (\<forall>q < 6. q \<noteq> Q_STACK_AVAIL \<longrightarrow> ql_compare (k_q k') q = ql_compare (boot_queues [] []) q \<and>
        ql_remover (k_q k') q = ql_remover (boot_queues [] []) q) \<and>
     k_next_pid k' = \<lparr>pid_id = PID_INIT, pid_host = k_local_mac k, pid_reserved = 0\<rparr> \<and>
     k_screens k' = k_screens k \<and> (\<forall>p < N_PCBS. k_pcbs k' p = pcb_clear)"
proof -
  let ?k = "(kq_init k)\<lparr>k_next_pid := \<lparr>pid_id = PID_INIT, pid_host = k_local_mac (kq_init k), pid_reserved = 0\<rparr>\<rparr>"
  let ?v = "lq_reset Q_ZOMBIE (Some Compare_uint_asc) (Some Remove_if_equal)
                (lq_reset Q_WAITING (Some Compare_uint_asc) (Some Remove_if_equal)
                  (lq_reset Q_READING (Some Compare_uint_asc) (Some Remove_if_equal)
                    (lq_reset Q_SLEEP (Some Compare_uint_asc) (Some Remove_if_le_u)
                      (lq_reset Q_PCB_AVAIL None None (k_q ?k)))))"
  have v: "ql_items ?v = (\<lambda>_. [])" "ql_free ?v = N_QNODES"
    by (simp_all add: lq_reset_def kq_init_def fun_eq_iff)
  have c: "\<forall>q < 6. q \<noteq> Q_STACK_AVAIL \<longrightarrow> ql_compare ?v q = ql_compare (boot_queues [] []) q \<and>
        ql_remover ?v q = ql_remover (boot_queues [] []) q"
    by (simp add: lq_reset_def boot_queues_def less_Suc_eq numeral_eq_Suc)
  have "length [0..<N_PCBS] \<le> ql_free (k_q (set_q ?v ?k))"
    unfolding set_q_simps v by (simp add: N_QNODES_def)
  from free_pcbs [OF this, of "''_pcb_init: _pcb_free status''"] obtain k' where
    k': "free_all pcb_free ''_pcb_init: _pcb_free status'' [0..<N_PCBS] (set_q ?v ?k) = Inr k'"
    "k_q k' = set_items Q_PCB_AVAIL (ql_items ?v Q_PCB_AVAIL @ map (Pair 0) [0..<N_PCBS])
       (ql_free ?v - length [0..<N_PCBS]) ?v"
    "\<forall>p. k_pcbs k' p = (if p \<in> set [0..<N_PCBS] then pcb_clear else k_pcbs (set_q ?v ?k) p)"
    "k_screens k' = k_screens (set_q ?v ?k)" "k_next_pid k' = k_next_pid (set_q ?v ?k)"
    unfolding set_q_simps by blast
  have "pcb_init (kq_init k) = Inr k'" unfolding pcb_init_def Let_def using k'(1) by simp
  moreover have "ql_items (k_q k') = ql_items (boot_queues [0..<N_PCBS] [])"
    unfolding k'(2) set_items_simps v by (simp add: boot_queues_def fun_eq_iff)
  moreover have "ql_free (k_q k') = N_QNODES - N_PCBS"
    unfolding k'(2) set_items_simps v by simp
  moreover have "k_screens k' = k_screens k" "k_next_pid k' =
      \<lparr>pid_id = PID_INIT, pid_host = k_local_mac k, pid_reserved = 0\<rparr>"
    using k'(4,5) by (simp_all add: kq_init_def)
  moreover have "\<forall>p < N_PCBS. k_pcbs k' p = pcb_clear" using k'(3) by simp
  moreover have "ql_compare (k_q k') = ql_compare ?v" "ql_remover (k_q k') = ql_remover ?v"
    unfolding k'(2) by simp_all
  ultimately show ?thesis using c by metis
qed

lemma stack_init_boot:
  assumes "ql_items (k_q k) = ql_items (boot_queues [0..<N_PCBS] [])" and "ql_free (k_q k) = N_QNODES - N_PCBS"
  shows "\<exists>k'. stack_init k = Inr k' \<and> ql_items (k_q k') = ql_items (boot_queues [0..<N_PCBS] [0..<N_STACKS]) \<and>
     ql_free (k_q k') = N_QNODES - N_PCBS - N_STACKS \<and>
     ql_compare (k_q k') = (ql_compare (k_q k))(Q_STACK_AVAIL := None) \<and>
     ql_remover (k_q k') = (ql_remover (k_q k))(Q_STACK_AVAIL := None) \<and>
     k_next_pid k' = k_next_pid k \<and> k_screens k' = k_screens k \<and> k_pcbs k' = k_pcbs k"
proof -
  let ?v = "lq_reset Q_STACK_AVAIL None None (k_q k)"
  have v: "ql_items ?v = ql_items (boot_queues [0..<N_PCBS] [])" "ql_free ?v = N_QNODES - N_PCBS"
    using assms by (simp_all add: lq_reset_def boot_queues_def fun_eq_iff)
  have "length [0..<N_STACKS] \<le> ql_free (k_q (set_q ?v k))"
    unfolding set_q_simps v by (simp add: N_QNODES_def N_STACKS_def N_PCBS_def)
  from free_stacks [OF this, of "''_stack_init: _stack_free status''"] obtain k' where
    k': "free_all stack_free ''_stack_init: _stack_free status'' [0..<N_STACKS] (set_q ?v k) = Inr k'"
    "k_q k' = set_items Q_STACK_AVAIL (ql_items ?v Q_STACK_AVAIL @ map (Pair 0) [0..<N_STACKS])
       (ql_free ?v - length [0..<N_STACKS]) ?v"
    "k_pcbs k' = k_pcbs k" "k_screens k' = k_screens k" "k_next_pid k' = k_next_pid k"
    unfolding set_q_simps by blast
  have "stack_init k = Inr k'" unfolding stack_init_def using k'(1) by simp
  moreover have "ql_items (k_q k') = ql_items (boot_queues [0..<N_PCBS] [0..<N_STACKS])"
    unfolding k'(2) set_items_simps v by (simp add: boot_queues_def fun_eq_iff)
  moreover have "ql_free (k_q k') = N_QNODES - N_PCBS - N_STACKS"
    unfolding k'(2) set_items_simps v by simp
  moreover have "ql_compare (k_q k') = (ql_compare (k_q k))(Q_STACK_AVAIL := None)"
    "ql_remover (k_q k') = (ql_remover (k_q k))(Q_STACK_AVAIL := None)"
    unfolding k'(2) by (simp_all add: lq_reset_def)
  ultimately show ?thesis using k'(3-5) by blast
qed

lemma sched_init_boot:
  assumes "ql_items (k_q k) = ql_items (boot_queues ps ss)" and "ql_free (k_q k) = ql_free (boot_queues ps ss)"
    and "\<forall>q < 6. ql_compare (k_q k) q = ql_compare (boot_queues [] []) q \<and>
        ql_remover (k_q k) q = ql_remover (boot_queues [] []) q"
  shows "same_queues (k_q (sched_init k)) (boot_queues ps ss)"
proof -
  have "[0..<N_PRIORITIES] = [0, 1, 2, 3]" by (simp add: N_PRIORITIES_def upt_rec)
  then have "k_q (sched_init k) = (k_q k)\<lparr>
      ql_items := (ql_items (k_q k))(6 := [], 7 := [], 8 := [], 9 := []),
      ql_compare := (ql_compare (k_q k))(6 := None, 7 := None, 8 := None, 9 := None),
      ql_remover := (ql_remover (k_q k))(6 := None, 7 := None, 8 := None, 9 := None)\<rparr>"
    by (simp add: sched_init_def lq_reset_def)
  moreover have "q < 6 \<or> q \<in> {6, 7, 8, 9}" if "q < 10" for q :: nat using that by auto
  ultimately show ?thesis using assms by (auto simp: same_queues_def boot_queues_def)
qed

text \<open>The first process takes block 0 and stack 0.\<close>

lemma first_process_boot:
  assumes q: "same_queues (k_q k) (boot_queues [0..<N_PCBS] [0..<N_STACKS])"
    and pcbs: "\<forall>p < N_PCBS. k_pcbs k p = pcb_clear" and pid: "pid_id (k_next_pid k) = PID_INIT"
  shows "\<exists>k'. first_process entry k = Inr k' \<and> kernel_ok k' \<and> k_current k' = Some 0 \<and>
     pid_id (p_pid (k_pcbs k' 0)) = PID_INIT \<and> p_ppid (k_pcbs k' 0) = p_pid (k_pcbs k' 0) \<and>
     same_queues (k_q k') (boot_queues [1..<N_PCBS] [1..<N_STACKS]) \<and> k_screens k' = k_screens k"
proof -
  have head: "[0..<N_PCBS] = 0 # [1..<N_PCBS]" "[0..<N_STACKS] = 0 # [1..<N_STACKS]"
    by (simp_all add: upt_rec N_PCBS_def N_STACKS_def)
  have items: "ql_items (k_q k) 0 = (0, 0) # map (Pair 0) [1..<N_PCBS]"
    "ql_items (k_q k) 1 = (0, 0) # map (Pair 0) [1..<N_STACKS]"
    and free: "ql_free (k_q k) = N_QNODES - N_PCBS - N_STACKS"
    using q head by (simp_all add: same_queues_def boot_queues_def N_PCBS_def N_STACKS_def)
  let ?v = "set_items 1 (map (Pair 0) [1..<N_STACKS]) (ql_free (k_q k) + 1 + 1)
      (set_items 0 (map (Pair 0) [1..<N_PCBS]) (ql_free (k_q k) + 1) (k_q k))"
  let ?v1 = "set_items 0 (map (Pair 0) [1..<N_PCBS]) (ql_free (k_q k) + 1) (k_q k)"
  have p: "pcb_alloc k = (E_SUCCESS, Some 0, set_q ?v1 k)"
    unfolding pcb_alloc_def lq_remove_def items by simp
  have s: "stack_alloc (set_q ?v1 k) = (E_SUCCESS, Some 0, set_q ?v k)"
    unfolding stack_alloc_def lq_remove_def set_q_simps set_items_simps using items(2) by (simp add: set_q_def)
  have same: "same_queues ?v (boot_queues [1..<N_PCBS] [1..<N_STACKS])"
    using q free by (simp add: same_queues_def boot_queues_def N_QNODES_def N_PCBS_def N_STACKS_def)
  obtain k' where k': "first_process entry k = Inr k'" "k_q k' = ?v" "k_current k' = Some 0"
    "\<forall>q. q \<noteq> 0 \<longrightarrow> k_pcbs k' q = k_pcbs k q" "p_stack (k_pcbs k' 0) = Some 0"
    "p_state (k_pcbs k' 0) = p_state (k_pcbs k 0)" "pid_id (p_pid (k_pcbs k' 0)) = PID_INIT"
    "p_ppid (k_pcbs k' 0) = p_pid (k_pcbs k' 0)" "k_screens k' = k_screens k"
    by (simp only: first_process_def p s prod.case option.case simp_thms if_False)
      (simp add: Let_def pid_next_def setup_stack_def pid)
  have nin: "0 \<notin># mset [1..<N_PCBS]" by simp
  have avail: "qset ?v Q_PCB_AVAIL = {1..<N_PCBS}" "qset ?v Q_STACK_AVAIL = {1..<N_STACKS}"
    by (simp_all add: image_image)
  have used: "used {} ?v = {0}" unfolding used_def avail by (auto simp: N_PCBS_def)
  have "stacks_ok {} ?v (k_pcbs k')"
    unfolding stacks_ok_def used avail using k'(5) by (auto simp: N_STACKS_def)
  moreover have st: "p_state (k_pcbs k' p) = FREE" if "p < N_PCBS" for p
    using that pcbs k'(4,6) by (cases "p = 0") (auto simp: pcb_clear_def)
  have "states_ok {} ?v (k_pcbs k')"
    unfolding same_queues_inv(3) [OF same] by (auto simp: states_ok_def qset_def boot_queues_def st)
  ultimately have "kinv {} {} (k_q k') (k_pcbs k')"
    unfolding kinv_def k'(2) using wfq_boot same_queues_inv(2) [OF same] by blast
  then have "kernel_ok k'"
    unfolding kernel_ok_def k'(2) same_queues_inv(1) [OF same] boot_elems using k'(3) nin
    by (simp add: N_PCBS_def)
  then show ?thesis using k' same by metis
qed

text \<open>Boot never panics, and the first state satisfies the invariant.\<close>

lemma boot_inv:
  assumes "sqn_next (screen_nodes (k_screens k) (NUM_SCREENS - 1)) = None"
  shows "\<exists>k'. boot entry k = Inr k' \<and> kernel_inv k' \<and> k_current k' = Some 0 \<and>
     pid_id (p_pid (k_pcbs k' 0)) = PID_INIT \<and> p_ppid (k_pcbs k' 0) = p_pid (k_pcbs k' 0) \<and>
     same_queues (k_q k') (boot_queues [1..<N_PCBS] [1..<N_STACKS])"
proof -
  from pcb_init_boot [of k] obtain k1 where
    k1: "pcb_init (kq_init k) = Inr k1" "ql_items (k_q k1) = ql_items (boot_queues [0..<N_PCBS] [])"
    "ql_free (k_q k1) = N_QNODES - N_PCBS"
    "\<forall>q < 6. q \<noteq> Q_STACK_AVAIL \<longrightarrow> ql_compare (k_q k1) q = ql_compare (boot_queues [] []) q \<and>
        ql_remover (k_q k1) q = ql_remover (boot_queues [] []) q"
    "k_next_pid k1 = \<lparr>pid_id = PID_INIT, pid_host = k_local_mac k, pid_reserved = 0\<rparr>"
    "k_screens k1 = k_screens k" "\<forall>p < N_PCBS. k_pcbs k1 p = pcb_clear"
    by blast
  from stack_init_boot [OF k1(2,3)] obtain k2 where
    k2: "stack_init k1 = Inr k2" "ql_items (k_q k2) = ql_items (boot_queues [0..<N_PCBS] [0..<N_STACKS])"
    "ql_free (k_q k2) = N_QNODES - N_PCBS - N_STACKS"
    "ql_compare (k_q k2) = (ql_compare (k_q k1))(Q_STACK_AVAIL := None)"
    "ql_remover (k_q k2) = (ql_remover (k_q k1))(Q_STACK_AVAIL := None)"
    "k_next_pid k2 = k_next_pid k1" "k_screens k2 = k_screens k1" "k_pcbs k2 = k_pcbs k1"
    by blast
  let ?k4 = "syscall_init (k2\<lparr>k_sio := sio_init (k_sio k2)\<rparr>)"
  let ?k5 = "?k4\<lparr>k_screens := screen_init (k_screens ?k4)\<rparr>"
  have k5: "k_q ?k5 = k_q k2" "k_screens ?k5 = screen_init (k_screens k)" "k_pcbs ?k5 = k_pcbs k1"
    "k_next_pid ?k5 = k_next_pid k1"
    by (simp_all add: syscall_init_def k2 k1(6))
  have "ql_free (k_q ?k5) = ql_free (boot_queues [0..<N_PCBS] [0..<N_STACKS])"
    unfolding k5 k2(3) by (simp add: boot_queues_def)
  moreover have "\<forall>q < 6. ql_compare (k_q ?k5) q = ql_compare (boot_queues [] []) q \<and>
        ql_remover (k_q ?k5) q = ql_remover (boot_queues [] []) q"
    unfolding k5 k2 using k1(4) by (simp add: boot_queues_def)
  ultimately have same: "same_queues (k_q (sched_init ?k5)) (boot_queues [0..<N_PCBS] [0..<N_STACKS])"
    using k2(2) by (intro sched_init_boot) (simp_all only: k5)
  let ?k7 = "clock_init (sched_init ?k5)"
  have c: "k_q (clock_init k') = k_q k'" "k_pcbs (clock_init k') = k_pcbs k'"
    "k_next_pid (clock_init k') = k_next_pid k'" "k_screens (clock_init k') = k_screens k'" for k'
    by (simp_all add: clock_init_def k_outb_def)
  have s: "k_pcbs (sched_init k') = k_pcbs k'" "k_next_pid (sched_init k') = k_next_pid k'"
    "k_screens (sched_init k') = k_screens k'" for k'
    by (simp_all add: sched_init_def)
  have "same_queues (k_q ?k7) (boot_queues [0..<N_PCBS] [0..<N_STACKS])" unfolding c by (rule same)
  moreover have "\<forall>p < N_PCBS. k_pcbs ?k7 p = pcb_clear" unfolding c s k5 by (rule k1(7))
  moreover have "pid_id (k_next_pid ?k7) = PID_INIT" unfolding c s k5 by (simp add: k1(5))
  ultimately obtain k' where k': "first_process entry ?k7 = Inr k'" "kernel_ok k'" "k_current k' = Some 0"
    "pid_id (p_pid (k_pcbs k' 0)) = PID_INIT" "p_ppid (k_pcbs k' 0) = p_pid (k_pcbs k' 0)"
    "same_queues (k_q k') (boot_queues [1..<N_PCBS] [1..<N_STACKS])" "k_screens k' = k_screens ?k7"
    using first_process_boot by blast
  have "boot entry k = Inr k'" unfolding boot_def k1(1) andThen_Inr k2(1) Let_def by (rule k'(1))
  moreover have "screen_inv (k_screens k')"
    unfolding k'(7) c s k5 screen_inv_def using screen_init_rep [OF assms] by (auto simp: pid_clear_def)
  ultimately show ?thesis using k' by (auto simp: kernel_inv_def)
qed

section \<open>The kernel as a transition system\<close>

text \<open>
  Between interrupts user code runs, which may change memory in any way.  A serial interrupt
  carries the values that the device returns, up to the one that ends the handler.
\<close>

inductive kstep :: "(nat \<Rightarrow> u32 \<Rightarrow> kernel \<Rightarrow> kernel outcome) \<Rightarrow> kernel \<Rightarrow> kernel outcome \<Rightarrow> bool" for drv where
  syscall: "kstep drv k (isr_syscall drv k)"
| clock: "kstep drv k (isr_clock k)"
| serial: "isr_sio ins k \<noteq> Inl Diverges \<Longrightarrow> kstep drv k (isr_sio ins k)"
| user: "kstep drv k (Inr (upd_mem f k))"

inductive_cases kstepE: "kstep drv k x"

inductive kreach :: "(nat \<Rightarrow> u32 \<Rightarrow> kernel \<Rightarrow> kernel outcome) \<Rightarrow> u32 \<Rightarrow> kernel \<Rightarrow> bool" for drv entry where
  start: "sqn_next (screen_nodes (k_screens k0) (NUM_SCREENS - 1)) = None \<Longrightarrow>
    boot entry k0 = Inr k \<Longrightarrow> kreach drv entry k"
| step: "kreach drv entry k \<Longrightarrow> kstep drv k (Inr k') \<Longrightarrow> kreach drv entry k'"

lemma kstep_inv:
  assumes "drivers_ok drv" and "kernel_inv k" and "kstep drv k x"
  shows "preserves x"
  using assms(3)
proof (rule kstepE)
  show "x = isr_syscall drv k \<Longrightarrow> preserves x" using isr_syscall_inv [OF assms(1,2)] by simp
  show "x = isr_clock k \<Longrightarrow> preserves x" using isr_clock_inv [OF assms(2)] by simp
  show "x = isr_sio ins k \<Longrightarrow> isr_sio ins k \<noteq> Inl Diverges \<Longrightarrow> preserves x" for ins
    using isr_sio_inv [OF assms(2)] by blast
  show "x = Inr (upd_mem f k) \<Longrightarrow> preserves x" for f using assms(2) by simp
qed

lemma kreach_inv: "kreach drv entry k \<Longrightarrow> drivers_ok drv \<Longrightarrow> kernel_inv k"
proof (induction rule: kreach.induct)
  case (start k0 k)
  then show ?case using boot_inv [of k0 entry] by auto
next
  case (step k k')
  then show ?case using kstep_inv [of drv k "Inr k'"] by simp
qed

text \<open>The memory of the machine at power on, for the witnesses: everything is zero.\<close>

definition screens_blank :: screens where
  "screens_blank =
     \<lparr>screen_tab = \<lambda>_. \<lparr>scr_fb = \<lambda>_. 0, scr_draw_mode = 0, scr_owner = pid_clear,
        scr_kb = \<lparr>ib_buffer = \<lambda>_. 0, ib_next_char = None, ib_next_space = None\<rparr>,
        scr_mouse = \<lparr>ib_buffer = \<lambda>_. 0, ib_next_char = None, ib_next_space = None\<rparr>\<rparr>,
      screen_nodes = \<lambda>_. \<lparr>sqn_handle = 0, sqn_next = None\<rparr>,
      unused_screens = \<lparr>sq_first = None, sq_last = None, sq_length = 0\<rparr>,
      active_screens = \<lparr>sq_first = None, sq_last = None, sq_length = 0\<rparr>,
      active_screen = 0\<rparr>"

definition sio_blank :: sio where
  "sio_blank =
     \<lparr>sio_inbuffer = \<lambda>_. 0, sio_inlast = 0, sio_innext = 0, sio_incount = 0,
      sio_outbuffer = \<lambda>_. 0, sio_outlast = 0, sio_outnext = 0, sio_outcount = 0,
      sio_sending = False, sio_ier = 0, sio_ports = []\<rparr>"

definition power_on :: kernel where
  "power_on =
     \<lparr>k_q = \<lparr>ql_items = \<lambda>_. [], ql_free = 0, ql_compare = \<lambda>_. None, ql_remover = \<lambda>_. None\<rparr>,
      k_pcbs = \<lambda>_. pcb_clear, k_current = None, k_next_pid = pid_clear, k_local_mac = 0,
      k_mem = \<lambda>_. 0, k_time = 0, k_pinwheel = 0, k_pindex = 0, k_syscalls = \<lambda>_. None,
      k_sio = sio_blank, k_screens = screens_blank, k_video = \<lambda>_. 0,
      k_machine = \<lparr>mc_stacks = 0x100000, mc_exit = 0x20000, mc_fpu = \<lambda>_. 0, mc_cr0 = 1, mc_cr2 = 0,
        mc_cr3 = 0, mc_cr4 = 0\<rparr>,
      k_ports = []\<rparr>"

lemma power_on_nodes: "sqn_next (screen_nodes (k_screens power_on) i) = None"
  by (simp add: power_on_def screens_blank_def)

text \<open>A driver that installs calls which do nothing but return 0.\<close>

definition idle_driver :: "nat \<Rightarrow> u32 \<Rightarrow> kernel \<Rightarrow> kernel outcome" where
  "idle_driver n ctx k = Inr (set_eax ctx 0 k)"

lemma idle_driver_ok: "drivers_ok idle_driver"
  by (simp add: drivers_ok_def idle_driver_def)

end
