(* ===== verification/Kernel_Fork.thy ===== *)
theory Kernel_Fork
  imports Kernel_Steps
begin

text \<open>
  What \<^verbatim>\<open>_sys_fork\<close> does to memory: the stack of the parent is copied to the stack of the
  child, which starts from the same context, moved to its own stack.
\<close>

section \<open>Words inside blocks\<close>

definition in_word :: "u32 \<Rightarrow> nat \<Rightarrow> u32 \<Rightarrow> bool" where
  "in_word a n x \<longleftrightarrow> unat (x - a) + 4 \<le> n"

lemma unat_add_small: "unat (x::u32) + j < 2 ^ 32 \<Longrightarrow> unat (x + of_nat j) = unat x + j"
  by (simp add: unat_word_ariths take_bit_nat_eq_self unat_of_nat)

lemma in_word_block:
  assumes "in_word a n x" and "n < 2 ^ 32" and "j < 4"
  shows "in_block a n (x + of_nat j)"
proof -
  have "unat (x - a + of_nat j) = unat (x - a) + j"
    using assms by (intro unat_add_small) (simp add: in_word_def)
  moreover have eq: "x + of_nat j - a = x - a + of_nat j" by simp
  ultimately show ?thesis unfolding in_block_def eq using assms by (simp add: in_word_def)
qed

lemma in_word_quad:
  assumes "in_word a n x" and "n < 2 ^ 32" and "y \<in> {x, x + 1, x + 2, x + 3}"
  shows "in_block a n y"
  using assms(3) in_word_block [OF assms(1,2), of 0] in_word_block [OF assms(1,2), of 1]
    in_word_block [OF assms(1,2), of 2] in_word_block [OF assms(1,2), of 3] by auto

lemma disjoint_blocks_sym: "disjoint_blocks a b n = disjoint_blocks b a n"
  by (auto simp: disjoint_blocks_def)

lemma load_store_apart:
  assumes "disjoint_blocks a b n" and "n < 2 ^ 32" and "in_word a n x" and "in_word b n y"
  shows "load32 (store32 x v m) y = load32 m y"
proof (intro load32_cong store32_other notI)
  fix z
  assume "z \<in> {y, y + 1, y + 2, y + 3}" and "z \<in> {x, x + 1, x + 2, x + 3}"
  then show False
    using assms(1) in_word_quad [OF assms(3,2)] in_word_quad [OF assms(4,2)]
    by (auto simp only: disjoint_blocks_def)
qed

lemma load_memcpy_dst:
  assumes "disjoint_blocks dst src (unat len)" and "in_word dst (unat len) x"
  shows "load32 (k_memcpy dst src len m) x = load32 m (src + (x - dst))"
proof -
  have l: "unat len < 2 ^ 32" using unsigned_less [of len] by simp
  have m: "k_memcpy dst src len m y = m (src + (y - dst))" if "y \<in> {x, x + 1, x + 2, x + 3}" for y
    using in_word_quad [OF assms(2) l that] memcpy_loop_eq [OF l assms(1)] by (simp add: k_memcpy_def)
  show ?thesis unfolding load32_def by (simp add: m) (simp add: algebra_simps)
qed

lemma load_memcpy_src:
  assumes "disjoint_blocks dst src (unat len)" and "in_word src (unat len) y"
  shows "load32 (k_memcpy dst src len m) y = load32 m y"
proof (rule load32_cong)
  fix x
  assume x: "x \<in> {y, y + 1, y + 2, y + 3}"
  have l: "unat len < 2 ^ 32" using unsigned_less [of len] by simp
  have "\<not> in_block dst (unat len) x"
    using assms(1) in_word_quad [OF assms(2) l x] by (auto simp: disjoint_blocks_def)
  then show "k_memcpy dst src len m x = m x"
    using memcpy_loop_eq [OF l assms(1)] by (simp add: k_memcpy_def)
qed

section \<open>Stacks\<close>

text \<open>The array of stacks does not wrap around the end of memory.\<close>

definition stacks_fit :: "kernel \<Rightarrow> bool" where
  "stacks_fit k \<longleftrightarrow> unat (mc_stacks (k_machine k)) + N_STACKS * unat STACK_BYTES \<le> 2 ^ 32"

lemma unat_stack_ptr:
  assumes "stacks_fit k" and "i < N_STACKS"
  shows "unat (stack_ptr k (Some i)) = unat (mc_stacks (k_machine k)) + i * unat STACK_BYTES"
proof -
  have "i * unat STACK_BYTES < N_STACKS * unat STACK_BYTES" using assms(2) by (simp add: STACK_BYTES_def)
  then have s: "unat (mc_stacks (k_machine k)) + i * unat STACK_BYTES < 2 ^ 32"
    using assms(1) unfolding stacks_fit_def by linarith
  have "of_nat i * STACK_BYTES = of_nat (i * unat STACK_BYTES)" by simp
  then show ?thesis using unat_add_small [OF s] by (simp add: stack_ptr_def)
qed

lemma in_block_range:
  assumes "unat (a::u32) + n \<le> 2 ^ 32" and "in_block a n x"
  shows "unat a \<le> unat x \<and> unat x < unat a + n"
proof -
  have "unat (a + of_nat (unat (x - a))) = unat a + unat (x - a)"
    using assms by (intro unat_add_small) (simp add: in_block_def)
  then show ?thesis using assms(2) by (simp add: in_block_def)
qed

lemma stacks_disjoint:
  assumes "stacks_fit k" and "i < N_STACKS" and "j < N_STACKS" and "i \<noteq> j"
  shows "disjoint_blocks (stack_ptr k (Some i)) (stack_ptr k (Some j)) (unat STACK_BYTES)"
proof -
  let ?S = "unat STACK_BYTES"
  have R: "unat (stack_ptr k (Some l)) \<le> unat x \<and> unat x < unat (stack_ptr k (Some l)) + ?S"
    if "l < N_STACKS" "in_block (stack_ptr k (Some l)) ?S x" for l x
  proof (rule in_block_range [OF _ that(2)])
    have "(l + 1) * ?S \<le> N_STACKS * ?S" using that(1) by (intro mult_le_mono1) simp
    then show "unat (stack_ptr k (Some l)) + ?S \<le> 2 ^ 32"
      using assms(1) unat_stack_ptr [OF assms(1) that(1)] unfolding stacks_fit_def by simp
  qed
  have "i * ?S + ?S \<le> j * ?S \<or> j * ?S + ?S \<le> i * ?S"
  proof (cases "i < j")
    case True
    then have "(i + 1) * ?S \<le> j * ?S" by (intro mult_le_mono1) simp
    then show ?thesis by simp
  next
    case False
    then have "(j + 1) * ?S \<le> i * ?S" using assms(4) by (intro mult_le_mono1) simp
    then show ?thesis by simp
  qed
  then have apart: "unat (stack_ptr k (Some i)) + ?S \<le> unat (stack_ptr k (Some j)) \<or>
      unat (stack_ptr k (Some j)) + ?S \<le> unat (stack_ptr k (Some i))"
    by (simp add: unat_stack_ptr assms)
  show ?thesis
    unfolding disjoint_blocks_def using apart R [OF assms(2)] R [OF assms(3)] by (meson leD order.strict_trans1 order_trans)
qed

section \<open>The fork call\<close>

text \<open>The registers of a context, by offset.\<close>

definition context_regs :: "u32 list" where
  "context_regs =
     [0, 4, 8, 12, 16, 20, 24, 28, 32, 36, 40, 44, 48, 52, 56, 60, 64, 176, 180, 184, 188, 192]"

lemma context_regs_aligned: "r \<in> set context_regs \<Longrightarrow> unat r mod 4 = 0 \<and> unat r + 4 \<le> 196"
  by (auto simp: context_regs_def)

lemma aligned_apart:
  assumes "unat (r::u32) mod 4 = 0" "unat r + 4 \<le> 196" "unat s mod 4 = 0" "unat s + 4 \<le> 196" "r \<noteq> s"
  shows "{s, s + 1, s + 2, s + 3} \<inter> {r, r + 1, r + 2, r + 3} = {}"
proof -
  have Q: "\<exists>j < 4. unat y = unat x + j" if "unat x + 4 \<le> 196" "y \<in> {x, x + 1, x + 2, x + 3}" for x y :: u32
    using that unat_add_small [of x 1] unat_add_small [of x 2] unat_add_small [of x 3] by auto
  have False if y: "y \<in> {s, s + 1, s + 2, s + 3}" "y \<in> {r, r + 1, r + 2, r + 3}" for y
  proof -
    obtain i j where "i < 4" "j < 4" "unat s + i = unat r + j"
      using Q [OF assms(4) y(1)] Q [OF assms(2) y(2)] by auto
    then have "unat s = unat r" using assms(1,3) by presburger
    with assms(5) show False by (simp only: word_unat_eq_iff)
  qed
  then show ?thesis by blast
qed

lemma context_regs_apart:
  assumes "r \<in> set context_regs" and "s \<in> {CTX_EAX, CTX_ESP, CTX_EBP}" and "r \<noteq> s"
  shows "{s, s + 1, s + 2, s + 3} \<inter> {r, r + 1, r + 2, r + 3} = {}"
proof -
  have "s \<in> set context_regs" using assms(2) by (auto simp: context_regs_def)
  then show ?thesis using assms(1,3) context_regs_aligned by (intro aligned_apart) auto
qed

text \<open>A context at offset \<open>off\<close> of a stack holds all its registers in that stack.\<close>

lemma context_in_word:
  assumes "unat off + unat CONTEXT_SIZE \<le> n" and "n < 2 ^ 32" and "r \<in> set context_regs"
  shows "in_word b n (b + off + r)"
proof -
  have r: "unat r + 4 \<le> 196" using context_regs_aligned [OF assms(3)] by simp
  then have "unat off + unat r < 2 ^ 32" using assms(1,2) by (simp add: CONTEXT_SIZE_def)
  then have "unat (off + r) = unat off + unat r" using unat_add_small [of off "unat r"] by simp
  moreover have eq: "b + off + r - b = off + r" by simp
  ultimately show ?thesis unfolding in_word_def eq using r assms(1) by (simp add: CONTEXT_SIZE_def)
qed

lemma fork_child_effect:
  assumes fit: "stacks_fit k" and ss: "s < N_STACKS" "sc < N_STACKS" "s \<noteq> sc"
    and stack: "p_stack (k_pcbs k c) = Some sc" and pc: "p \<noteq> c"
    and ctx: "p_context (k_pcbs k c) = stack_ptr k (Some sc) + off"
    and off: "unat off + unat CONTEXT_SIZE \<le> unat STACK_BYTES"
    and k': "k' = fork_child c p (Some s) k"
    and d: "d = stack_ptr k (Some s) - stack_ptr k (Some sc)"
  shows "p_context (k_pcbs k' p) = p_context (k_pcbs k c) + d"
    and "r \<in> set context_regs \<Longrightarrow> get_reg (p_context (k_pcbs k c)) r k' = get_reg (p_context (k_pcbs k c)) r k"
    and "r \<in> set context_regs \<Longrightarrow> get_reg (p_context (k_pcbs k c) + d) r k' =
      (if r = CTX_ESP \<or> r = CTX_EBP then get_reg (p_context (k_pcbs k c)) r k + d
       else get_reg (p_context (k_pcbs k c)) r k)"
proof -
  let ?S = "unat STACK_BYTES" and ?dst = "stack_ptr k (Some s)" and ?src = "stack_ptr k (Some sc)"
  let ?ctx = "p_context (k_pcbs k c)"
  have S: "?S < 2 ^ 32" by (simp add: STACK_BYTES_def)
  have dis: "disjoint_blocks ?dst ?src ?S" using stacks_disjoint [OF fit ss] .
  have dctx: "?ctx + d = ?dst + off" by (simp add: ctx d)
  let ?m1 = "k_memcpy ?dst ?src STACK_BYTES (k_mem k)"
  have sp: "stack_ptr (upd_pcb p f k1) st = stack_ptr k1 st" for f k1 st
    by (simp add: stack_ptr_def split: option.split)
  have pn: "pid_next k pid = (pid1, k1) \<Longrightarrow> stack_ptr k1 = stack_ptr k \<and> k_pcbs k1 = k_pcbs k \<and> k_mem k1 = k_mem k"
    for pid pid1 k1 by (auto simp: pid_next_def stack_ptr_def fun_eq_iff split: option.split)
  obtain pid1 k1 where n: "pid_next k (p_pid (k_pcbs k p)) = (pid1, k1)" by fastforce
  have c': "(?ctx + d) = p_context (k_pcbs k' p)"
    unfolding k' fork_child_def using pn [OF n] pc by (simp add: n stack sp d Let_def)
  then show "p_context (k_pcbs k' p) = ?ctx + d" by simp
  have m: "k_mem k' = store32 (?ctx + d + CTX_EBP) (load32 (store32 (?ctx + d + CTX_ESP)
        (load32 ?m1 (?ctx + d + CTX_ESP) + d) ?m1) (?ctx + d + CTX_EBP) + d)
      (store32 (?ctx + d + CTX_ESP) (load32 ?m1 (?ctx + d + CTX_ESP) + d) ?m1)"
    unfolding k' fork_child_def using pn [OF n] pc by (simp add: n stack sp d Let_def get_reg_def)
  have regs: "CTX_ESP \<in> set context_regs" "CTX_EBP \<in> set context_regs" by (simp_all add: context_regs_def)
  note inw = context_in_word [OF off S]
  show "get_reg ?ctx r k' = get_reg ?ctx r k" if r: "r \<in> set context_regs"
  proof -
    have "load32 (k_mem k') (?src + off + r) = load32 ?m1 (?src + off + r)"
      unfolding m dctx using inw [OF regs(1)] inw [OF regs(2)] inw [OF r]
      by (simp only: load_store_apart [OF dis S])
    also have "\<dots> = load32 (k_mem k) (?src + off + r)" using dis inw [OF r] by (rule load_memcpy_src)
    finally show ?thesis by (simp only: get_reg_def ctx)
  qed
  have cp: "load32 ?m1 (?dst + off + r) = load32 (k_mem k) (?src + off + r)" if "r \<in> set context_regs" for r
  proof -
    have e: "?src + (?dst + off + r - ?dst) = ?src + off + r" by (simp add: algebra_simps)
    show ?thesis using load_memcpy_dst [OF dis inw [OF that]] unfolding e .
  qed
  have ap: "load32 (store32 (a + t) v n) (a + r) = load32 n (a + r)"
    if "r \<in> set context_regs" "t \<in> {CTX_EAX, CTX_ESP, CTX_EBP}" "r \<noteq> t" for a t v n r
    using context_regs_apart [OF that] by (rule load32_store32_offset)
  show "get_reg (?ctx + d) r k' = (if r = CTX_ESP \<or> r = CTX_EBP then get_reg ?ctx r k + d else get_reg ?ctx r k)"
    if r: "r \<in> set context_regs"
  proof -
    consider "r = CTX_ESP" | "r = CTX_EBP" | "r \<noteq> CTX_ESP" "r \<noteq> CTX_EBP" by blast
    then show ?thesis
      unfolding get_reg_def m dctx using cp [OF r] ap r regs
      by cases (simp_all add: ctx)
  qed
qed

text \<open>The child and the parent return from the call with different results in \<^verbatim>\<open>eax\<close>.\<close>

lemma sys_fork_effect:
  assumes inv: "kernel_inv k" and cur: "k_current k = Some c" and fit: "stacks_fit k"
    and ctx: "context = p_context (k_pcbs k c)" and at: "context = stack_ptr k (p_stack (k_pcbs k c)) + off"
    and off: "unat off + unat CONTEXT_SIZE \<le> unat STACK_BYTES"
    and pcb: "ql_items (k_q k) Q_PCB_AVAIL = (kp, p) # ps"
    and stk: "ql_items (k_q k) Q_STACK_AVAIL = (ks, s) # ss"
  shows "\<exists>k'. sys_fork context k = Inr k' \<and> p \<noteq> c \<and>
     p_state (k_pcbs k' p) = READY \<and> p_stack (k_pcbs k' p) = Some s \<and>
     pid_id (p_pid (k_pcbs k' p)) = pid_id (k_next_pid k) \<and> p_ppid (k_pcbs k' p) = p_pid (k_pcbs k c) \<and>
     p_prio (k_pcbs k' p) = p_prio (k_pcbs k c) \<and>
     p_context (k_pcbs k' p) = stack_ptr k (Some s) + off \<and>
     get_reg context CTX_EAX k' = pid_id (k_next_pid k) \<and>
     get_reg (p_context (k_pcbs k' p)) CTX_EAX k' = 0 \<and>
     (\<forall>r \<in> set context_regs. r \<noteq> CTX_EAX \<longrightarrow> get_reg context r k' = get_reg context r k \<and>
        get_reg (p_context (k_pcbs k' p)) r k' =
          (if r = CTX_ESP \<or> r = CTX_EBP then get_reg context r k + (p_context (k_pcbs k' p) - context)
           else get_reg context r k))"
proof -
  have c: "c < N_PCBS" "c \<notin># kelems k" "kinvk {} {} k"
    using inv cur by (auto simp: kernel_inv_def kernel_ok_def)
  have wf: "wfq (k_q k)" using c(3) by auto
  have "p \<in># kelems k" using pcb by (intro qset_elems [of Q_PCB_AVAIL]) (auto simp: qset_def)
  then have pc: "p \<noteq> c" using c(2) by auto
  have free: "s \<in> qset (k_q k) Q_STACK_AVAIL" using stk by (simp add: qset_def)
  then have sN: "s < N_STACKS" using wf by (auto simp: wfq_def elems_def qset_def)
  have "c \<in> used {} (k_q k)" using c notin_elems_qset [OF c(2)] by (simp add: used_def)
  then have "p_stack (k_pcbs k c) \<in> Some ` ({..<N_STACKS} - qset (k_q k) Q_STACK_AVAIL)"
    using c(3) by (auto simp: kinv_def stacks_ok_def)
  then obtain sc where sc: "p_stack (k_pcbs k c) = Some sc" "sc < N_STACKS" "sc \<notin> qset (k_q k) Q_STACK_AVAIL"
    by auto
  then have ssc: "s \<noteq> sc" using free by auto
  define v where "v = set_items Q_PCB_AVAIL ps (ql_free (k_q k) + 1) (k_q k)"
  define w where "w = set_items Q_STACK_AVAIL ss (ql_free v + 1) v"
  let ?k2 = "set_q w (set_q v k)"
  let ?k3 = "fork_child c p (Some s) ?k2"
  define d where "d = stack_ptr ?k2 (Some s) - stack_ptr ?k2 (Some sc)"
  have sp: "stack_ptr (set_q x k1) y = stack_ptr k1 y" for x k1 y
    by (simp add: stack_ptr_def split: option.split)
  have pa: "pcb_alloc k = (E_SUCCESS, Some p, set_q v k)" by (simp add: pcb_alloc_def lq_remove_def pcb v_def)
  have sa: "stack_alloc (set_q v k) = (E_SUCCESS, Some s, ?k2)"
    using stk by (simp add: stack_alloc_def lq_remove_def v_def w_def)
  have fit2: "stacks_fit ?k2" using fit by (simp add: stacks_fit_def)
  have st2: "p_stack (k_pcbs ?k2 c) = Some sc" by (simp add: sc)
  have at2: "p_context (k_pcbs ?k2 c) = stack_ptr ?k2 (Some sc) + off" using ctx at sc by (simp add: sp)
  note F = fork_child_effect [OF fit2 sN sc(2) ssc st2 pc at2 off refl d_def]
  let ?cc = "p_context (k_pcbs ?k3 p)"
  have cc: "?cc = context + d" using F(1) ctx by simp
  have cc2: "?cc = stack_ptr k (Some s) + off" using cc at2 ctx by (simp add: sp d_def)
  have dis: "disjoint_blocks (stack_ptr k (Some s)) (stack_ptr k (Some sc)) (unat STACK_BYTES)"
    using stacks_disjoint [OF fit sN sc(2) ssc] .
  have S: "unat STACK_BYTES < 2 ^ 32" by (simp add: STACK_BYTES_def)
  note inw = context_in_word [OF off S]
  have eax: "CTX_EAX \<in> set context_regs" by (simp add: context_regs_def)
  let ?pid = "pid_id (p_pid (k_pcbs ?k3 p))"
  let ?k5 = "set_eax context ?pid (set_eax ?cc 0 ?k3)"
  have pid: "?pid = pid_id (k_next_pid k)" and b: "p_stack (k_pcbs ?k3 p) = Some s"
    "p_ppid (k_pcbs ?k3 p) = p_pid (k_pcbs k c)" "p_prio (k_pcbs ?k3 p) = p_prio (k_pcbs k c)"
    using pc by (simp_all add: fork_child_def pid_next_def Let_def)
  have "0 < ql_free (k_q ?k5)" by (simp add: fork_child_frame w_def)
  then have "sys_fork context k = Inr (scheduled p (p_prio (k_pcbs ?k5 p)) ?k5)"
    using schedule_free [of ?k5 p] cur by (simp add: sys_fork_def pa sa current_def Let_def)
  moreover have at': "context = stack_ptr k (Some sc) + off" using at sc by simp
  have child: "load32 (store32 (context + CTX_EAX) x m) (?cc + r) = load32 m (?cc + r)"
    if "r \<in> set context_regs" for x m r
    unfolding cc2 at' using dis
    by (intro load_store_apart [OF _ S inw [OF eax] inw [OF that]]) (simp only: disjoint_blocks_sym)
  have parent: "load32 (store32 (?cc + CTX_EAX) x m) (context + r) = load32 m (context + r)"
    if "r \<in> set context_regs" for x m r
    unfolding cc2 at' by (rule load_store_apart [OF dis S inw [OF eax] inw [OF that]])
  have same: "load32 (store32 (a + CTX_EAX) x m) (a + r) = load32 m (a + r)"
    if "r \<in> set context_regs" "r \<noteq> CTX_EAX" for a x m r
    using context_regs_apart [OF that(1) _ that(2)] by (intro load32_store32_offset) simp
  have P: "get_reg context r ?k5 = get_reg context r k" if "r \<in> set context_regs" "r \<noteq> CTX_EAX" for r
    using F(2) [OF that(1)] by (simp add: get_reg_def same that parent ctx [symmetric])
  have C: "get_reg ?cc r ?k5 = (if r = CTX_ESP \<or> r = CTX_EBP then get_reg context r k + d
      else get_reg context r k)" if r: "r \<in> set context_regs" "r \<noteq> CTX_EAX" for r
  proof -
    have "get_reg ?cc r ?k5 = get_reg ?cc r ?k3"
      by (simp add: get_reg_def child [OF r(1)] same [OF r])
    also have "\<dots> = (if r = CTX_ESP \<or> r = CTX_EBP then get_reg context r ?k2 + d else get_reg context r ?k2)"
      using F(3) [OF r(1)] unfolding F(1) [symmetric] by (simp add: ctx)
    finally show ?thesis by (simp add: get_reg_def)
  qed
  have E: "get_reg context CTX_EAX ?k5 = pid_id (k_next_pid k)" "get_reg ?cc CTX_EAX ?k5 = 0"
    using child [OF eax] by (simp_all add: get_reg_def pid)
  have fr: "get_reg a r (scheduled p q k1) = get_reg a r k1" for a r q k1 by (simp add: get_reg_def)
  have cd: "?cc - context = d" using cc by simp
  ultimately show ?thesis
    using pc b pid cc2 P C E
    by (intro exI [of _ "scheduled p (p_prio (k_pcbs ?k5 p)) ?k5"]) (simp add: fr cd)
qed

end
