(* ===== verification/Kernel_Scheduling.thy ===== *)
theory Kernel_Scheduling
  imports Kernel_Steps
begin

text \<open>
  What the scheduler, the clock and the sleep call do: which process runs next, who wakes
  up at a tick, and that the processes of one priority take turns.
\<close>

section \<open>The next process\<close>

lemma first_ready_split:
  "(\<And>j. j \<in> set js \<Longrightarrow> ql_items (k_q k) (Q_READY j) = []) \<Longrightarrow> ql_items (k_q k) (Q_READY i) \<noteq> [] \<Longrightarrow>
   first_ready k (js @ i # is) = Some i"
  by (induction js) auto

lemma first_ready_least:
  assumes "i < N_PRIORITIES" and "\<And>j. j < i \<Longrightarrow> ql_items (k_q k) (Q_READY j) = []"
    and "ql_items (k_q k) (Q_READY i) \<noteq> []"
  shows "first_ready k [0..<N_PRIORITIES] = Some i"
proof -
  have "[0..<N_PRIORITIES] = [0..<i] @ i # [Suc i..<N_PRIORITIES]"
    using assms(1) upt_add_eq_append [of 0 i "N_PRIORITIES - i"] by (simp add: upt_conv_Cons)
  then show ?thesis using assms(2,3) first_ready_split [of "[0..<i]" k i] by simp
qed

text \<open>The kernel after it has made the process \<open>p\<close>, first in the queue of priority \<open>i\<close>, current.\<close>

definition running :: "nat \<Rightarrow> nat \<Rightarrow> qitem list \<Rightarrow> kernel \<Rightarrow> kernel" where
  "running i p xs k =
     upd_pcb p (\<lambda>b. b\<lparr>p_state := RUNNING\<rparr>)
       ((set_q (set_items (Q_READY i) xs (ql_free (k_q k) + 1) (k_q k)) k)\<lparr>k_current := Some p\<rparr>)"

lemma running_frame [simp]:
  "k_current (running i p xs k) = Some p"
  "k_pcbs (running i p xs k) = (k_pcbs k)(p := (k_pcbs k p)\<lparr>p_state := RUNNING\<rparr>)"
  "k_q (running i p xs k) = set_items (Q_READY i) xs (ql_free (k_q k) + 1) (k_q k)"
  "k_time (running i p xs k) = k_time k" "k_mem (running i p xs k) = k_mem k"
  "k_screens (running i p xs k) = k_screens k"
  by (simp_all add: running_def)

lemma dispatch_first:
  assumes "i < N_PRIORITIES" and "\<And>j. j < i \<Longrightarrow> ql_items (k_q k) (Q_READY j) = []"
    and "ql_items (k_q k) (Q_READY i) = (key, p) # xs" and "p_state (k_pcbs k p) = READY"
  shows "dispatch k = Inr (running i p xs k)"
proof -
  have "first_ready k [0..<N_PRIORITIES] = Some i" using assms(1-3) by (intro first_ready_least) auto
  then show ?thesis
    using assms(3,4) by (simp add: dispatch_def lq_remove_def current_def running_def)
qed

section \<open>Waking up\<close>

lemma extract_key_filter:
  assumes "extract_key p xs = Some (d, ys)"
  obtains k where "filter (\<lambda>x. p (fst x)) xs = (k, d) # filter (\<lambda>x. p (fst x)) ys"
    and "filter (\<lambda>x. \<not> p (fst x)) ys = filter (\<lambda>x. \<not> p (fst x)) xs"
proof -
  obtain as k bs where "xs = as @ (k, d) # bs" "ys = as @ bs" "p k" "\<forall>a \<in> set as. \<not> p (fst a)"
    using extract_key_sublist [OF assms] by blast
  then show ?thesis by (intro that [of k]) (auto simp: filter_empty_conv)
qed

text \<open>The processes of a list, in its order, appended to a ready queue.\<close>

definition wake_all :: "nat list \<Rightarrow> kernel \<Rightarrow> kernel" where
  "wake_all ps k = fold (\<lambda>p k. upd_pcb p (\<lambda>b. b\<lparr>p_state := READY\<rparr>) k) ps k"

lemma wake_all_pcbs:
  "k_pcbs (wake_all ps k) q = (if q \<in> set ps then (k_pcbs k q)\<lparr>p_state := READY\<rparr> else k_pcbs k q)"
  unfolding wake_all_def by (induction ps arbitrary: k) auto

definition due :: "kernel \<Rightarrow> qitem list" where
  "due k = filter (\<lambda>x. fst x \<le> k_time k) (ql_items (k_q k) Q_SLEEP)"

lemma wake_loop_effect:
  "ql_remover (k_q k) Q_SLEEP = Some Remove_if_le_u \<Longrightarrow> length (due k) < fuel \<Longrightarrow>
   \<exists>k'. wake_loop fuel k = Inr k' \<and>
     k_q k' = (k_q k)\<lparr>ql_items := (ql_items (k_q k))
       (Q_SLEEP := filter (\<lambda>x. \<not> fst x \<le> k_time k) (ql_items (k_q k) Q_SLEEP),
        Q_READY 0 := ql_items (k_q k) (Q_READY 0) @ map (\<lambda>x. (0, snd x)) (due k))\<rparr> \<and>
     (\<forall>q. k_pcbs k' q = (if q \<in> snd ` set (due k) then (k_pcbs k q)\<lparr>p_state := READY\<rparr> else k_pcbs k q)) \<and>
     k_time k' = k_time k \<and> k_current k' = k_current k"
proof (induction fuel arbitrary: k)
  case (Suc fuel)
  let ?p = "\<lambda>key. call_remove Remove_if_le_u key (k_time k)"
  have P: "?p = (\<lambda>key. key \<le> k_time k)" by (simp add: remove_if_le_u_def fun_eq_iff)
  let ?xs = "ql_items (k_q k) Q_SLEEP"
  show ?case
  proof (cases "extract_key ?p ?xs")
    case None
    then have none: "due k = []" "filter (\<lambda>x. \<not> fst x \<le> k_time k) ?xs = ?xs"
      unfolding P extract_key_None by (auto simp: due_def filter_empty_conv filter_id_conv)
    have "\<exists>st. lq_remove_by_key Q_SLEEP (k_time k) (k_q k) = (st, None, k_q k) \<and> st \<noteq> E_SUCCESS"
      using None Suc.prems(1) by (simp add: lq_remove_by_key_def)
    then have "wake_loop (Suc fuel) k = Inr k" by (auto simp: set_q_def)
    moreover have "(k_q k)\<lparr>ql_items := (ql_items (k_q k))(Q_SLEEP := ?xs,
        Q_READY 0 := ql_items (k_q k) (Q_READY 0) @ [])\<rparr> = k_q k"
      by simp
    ultimately show ?thesis unfolding none by simp
  next
    case (Some r)
    then obtain d ys where e: "extract_key ?p ?xs = Some (d, ys)" by (cases r) auto
    obtain key where f: "due k = (key, d) # filter (\<lambda>x. fst x \<le> k_time k) ys"
      "filter (\<lambda>x. \<not> fst x \<le> k_time k) ys = filter (\<lambda>x. \<not> fst x \<le> k_time k) ?xs"
      unfolding due_def by (rule extract_key_filter [OF e [unfolded P]])
    define v where "v = set_items Q_SLEEP ys (ql_free (k_q k) + 1) (k_q k)"
    have ne: "?xs \<noteq> []" using e by auto
    then have lq: "lq_remove_by_key Q_SLEEP (k_time k) (k_q k) = (E_SUCCESS, Some d, v)"
      using e Suc.prems(1) by (simp add: lq_remove_by_key_def v_def)
    let ?k = "scheduled d PRIO_MAXIMUM (set_q v k)"
    have clamp: "clamp_prio PRIO_MAXIMUM = 0" by (simp add: clamp_prio_def N_PRIORITIES_def)
    have kq: "k_q ?k = (k_q k)\<lparr>ql_items := (ql_items (k_q k))
       (Q_SLEEP := ys, Q_READY 0 := ql_items (k_q k) (Q_READY 0) @ [(0, d)])\<rparr>"
      by (simp add: scheduled_def clamp v_def set_items_def)
    have dk: "due ?k = filter (\<lambda>x. fst x \<le> k_time k) ys" by (simp add: due_def kq)
    have w: "wake_loop (Suc fuel) k = wake_loop fuel ?k"
      using lq schedule_free [of "set_q v k" d PRIO_MAXIMUM] by (simp add: v_def)
    obtain k' where k': "wake_loop fuel ?k = Inr k'"
      "k_q k' = (k_q ?k)\<lparr>ql_items := (ql_items (k_q ?k))
       (Q_SLEEP := filter (\<lambda>x. \<not> fst x \<le> k_time ?k) (ql_items (k_q ?k) Q_SLEEP),
        Q_READY 0 := ql_items (k_q ?k) (Q_READY 0) @ map (\<lambda>x. (0, snd x)) (due ?k))\<rparr>"
      "\<forall>q. k_pcbs k' q = (if q \<in> snd ` set (due ?k) then (k_pcbs ?k q)\<lparr>p_state := READY\<rparr> else k_pcbs ?k q)"
      "k_time k' = k_time ?k" "k_current k' = k_current ?k"
      using Suc.IH [of ?k] Suc.prems f(1) unfolding dk kq by fastforce
    have "wake_loop (Suc fuel) k = Inr k'" using w k'(1) by simp
    moreover have "k_q k' = (k_q k)\<lparr>ql_items := (ql_items (k_q k))
       (Q_SLEEP := filter (\<lambda>x. \<not> fst x \<le> k_time k) ?xs,
        Q_READY 0 := ql_items (k_q k) (Q_READY 0) @ map (\<lambda>x. (0, snd x)) (due k))\<rparr>"
      unfolding k'(2) dk f(1) by (simp add: kq f(2) fun_eq_iff)
    moreover have "\<forall>q. k_pcbs k' q =
        (if q \<in> snd ` set (due k) then (k_pcbs k q)\<lparr>p_state := READY\<rparr> else k_pcbs k q)"
      unfolding f(1) using k'(3) unfolding dk by simp
    moreover have "k_time k' = k_time k" "k_current k' = k_current k" using k'(4,5) by simp_all
    ultimately show ?thesis by blast
  qed
qed simp

section \<open>What a dispatch leaves alone\<close>

text \<open>A dispatch, which may end killed processes on its way, does not look at sleepers.\<close>

definition same_sleep :: "kernel \<Rightarrow> kernel \<Rightarrow> bool" where
  "same_sleep k k' \<longleftrightarrow>
     ql_items (k_q k') Q_SLEEP = ql_items (k_q k) Q_SLEEP \<and>
     ql_items (k_q k') Q_READING = ql_items (k_q k) Q_READING \<and> k_time k' = k_time k"

lemma same_sleep_trans: "same_sleep k k1 \<Longrightarrow> same_sleep k1 k2 \<Longrightarrow> same_sleep k k2"
  by (simp add: same_sleep_def)

lemma same_sleep_free:
  "same_sleep k (snd (pcb_free p k))" "same_sleep k (snd (stack_free s k))"
  by (auto simp: same_sleep_def pcb_free_def stack_free_def lq_append_def Let_def split: option.splits)

lemma same_sleep_schedule: "holdsOn (same_sleep k) (schedule p prio k)"
  by (auto simp: schedule_def same_sleep_def lq_append_def Let_def split: option.splits)

lemma same_sleep_remove_key:
  "lq_remove_by_key q key (k_q k) = (st, d, v) \<Longrightarrow> q \<noteq> Q_SLEEP \<Longrightarrow> q \<noteq> Q_READING \<Longrightarrow> same_sleep k (set_q v k)"
  by (auto simp: lq_remove_by_key_def lq_remove_def same_sleep_def split: if_splits option.splits list.splits)

lemma holdsOn_same_sleep:
  "same_sleep k k1 \<Longrightarrow> holdsOn (same_sleep k1) x \<Longrightarrow> holdsOn (same_sleep k) x"
  by (cases x) (auto intro: same_sleep_trans)

lemma same_sleep_zombify: "holdsOn (same_sleep k) (zombify p k)"
proof -
  have park: "holdsOn (same_sleep k) (zombify_park c k)" for c
    by (simp add: zombify_park_def lq_insert_def same_sleep_def Let_def)
  have wake: "holdsOn (same_sleep k) (zombify_wake q c par info k)" for q c par info
  proof -
    obtain st d v where r: "lq_remove_by_key Q_WAITING (pid_id (p_pid (k_pcbs k par))) (k_q k) = (st, d, v)"
      by (metis prod_cases3)
    let ?k1 = "set_q v k"
    let ?k2 = "upd_mem (store_pid info (p_pid (k_pcbs ?k1 c))) ?k1"
    let ?k3 = "upd_mem (store32 (info + 12) (ARG ?k2 (p_context (k_pcbs ?k2 c)) 1)) ?k2"
    have "same_sleep k ?k1" using r by (rule same_sleep_remove_key) simp_all
    then have "same_sleep k ?k3" by (simp add: same_sleep_def)
    then have s: "same_sleep k (snd (pcb_free (Some q) (snd (stack_free (p_stack (k_pcbs ?k3 q)) ?k3))))"
      by (intro same_sleep_trans [OF _ same_sleep_free(1)] same_sleep_trans [OF _ same_sleep_free(2)])
    show ?thesis
      using holdsOn_same_sleep [OF s same_sleep_schedule]
      by (simp add: zombify_wake_def r case_prod_unfold Let_def)
  qed
  show ?thesis
    using park wake by (auto simp: zombify_def current_def Let_def split: option.splits)
qed

lemma same_sleep_dispatch_loop: "holdsOn (same_sleep k) (dispatch_loop fuel k)"
proof (induction fuel arbitrary: k)
  case (Suc fuel)
  have "holdsOn (same_sleep k) (andThen (zombify (Some c) k1) (dispatch_loop fuel))"
    if "same_sleep k k1" for c k1
  proof (rule holdsOn_andThenI)
    show "holdsOn (same_sleep k) (zombify (Some c) k1)"
      using that same_sleep_zombify by (rule holdsOn_same_sleep)
    show "same_sleep k k' \<Longrightarrow> holdsOn (same_sleep k) (dispatch_loop fuel k')" for k'
      using Suc.IH by (rule holdsOn_same_sleep [rotated])
  qed
  moreover have "same_sleep k ((set_q (set_items (Q_READY i) xs f (k_q k)) k)\<lparr>k_current := d\<rparr>)" for i xs f d
    by (simp add: same_sleep_def)
  moreover have "same_sleep k (upd_pcb c g k1)" if "same_sleep k k1" for c g k1
    using that by (simp add: same_sleep_def)
  ultimately show ?case
    by (auto simp: current_def Let_def lq_remove_def split: option.splits prod.splits list.splits)
qed simp

lemma same_sleep_dispatch: "holdsOn (same_sleep k) (dispatch k)"
  unfolding dispatch_def by (rule same_sleep_dispatch_loop)

section \<open>A clock tick\<close>

text \<open>What a tick does before the dispatch: wake up, then queue the interrupted process.\<close>

lemma isr_clock_split:
  assumes inv: "kernel_inv k"
  obtains k1 k2 c where "k_current k = Some c" and "wake_loop (N_QNODES + 1) (tick k) = Inr k1"
    and "k2 = scheduled c (p_prio (k_pcbs k1 c)) k1"
    and "isr_clock k = andThen (dispatch k2) (\<lambda>k3. Inr (k_outb 0x20 0x20 k3))"
    and "k_q k1 = (k_q k)\<lparr>ql_items := (ql_items (k_q k))
       (Q_SLEEP := filter (\<lambda>x. \<not> fst x \<le> k_time k + 1) (ql_items (k_q k) Q_SLEEP),
        Q_READY 0 := ql_items (k_q k) (Q_READY 0) @ map (\<lambda>x. (0, snd x)) (due (tick k)))\<rparr>"
    and "\<forall>q. k_pcbs k1 q = (if q \<in> snd ` set (due (tick k)) then (k_pcbs k q)\<lparr>p_state := READY\<rparr> else k_pcbs k q)"
    and "k_time k1 = k_time k + 1" and "kernel_ok k1" and "0 < ql_free (k_q k1)"
proof -
  obtain c where c: "k_current k = Some c" using inv by (auto simp: kernel_inv_def elim: kernel_okE)
  have ok: "kernel_ok (tick k)" using inv by (simp add: tick_ok kernel_inv_def)
  then have wf: "wfq (k_q (tick k))" by (auto simp: kernel_ok_def)
  then have len: "length (ql_items (k_q (tick k)) Q_SLEEP) < N_QNODES + 1"
    using wfq_length [of "k_q (tick k)" Q_SLEEP] by (simp add: N_QNODES_def)
  have "length (due (tick k)) \<le> length (ql_items (k_q (tick k)) Q_SLEEP)" by (simp add: due_def)
  then have d: "length (due (tick k)) < N_QNODES + 1" using len by linarith
  have rm: "ql_remover (k_q (tick k)) Q_SLEEP = Some Remove_if_le_u" using wf by (simp add: wfq_def)
  have tp: "k_pcbs (tick k) = k_pcbs k" "k_current (tick k) = k_current k" by (simp_all add: tick_def Let_def)
  obtain k1 where k1: "wake_loop (N_QNODES + 1) (tick k) = Inr k1"
     "k_q k1 = (k_q (tick k))\<lparr>ql_items := (ql_items (k_q (tick k)))
       (Q_SLEEP := filter (\<lambda>x. \<not> fst x \<le> k_time (tick k)) (ql_items (k_q (tick k)) Q_SLEEP),
        Q_READY 0 := ql_items (k_q (tick k)) (Q_READY 0) @ map (\<lambda>x. (0, snd x)) (due (tick k)))\<rparr>"
     "\<forall>q. k_pcbs k1 q = (if q \<in> snd ` set (due (tick k)) then (k_pcbs (tick k) q)\<lparr>p_state := READY\<rparr>
        else k_pcbs (tick k) q)"
     "k_time k1 = k_time (tick k)" "k_current k1 = k_current (tick k)"
    using wake_loop_effect [OF rm d] by blast
  have ok1: "kernel_ok k1" using wake_loop_ok [OF ok len] k1(1) by auto
  then have free: "0 < ql_free (k_q k1)" by (auto simp: kernel_ok_def dest: kinv_free)
  let ?k2 = "scheduled c (p_prio (k_pcbs k1 c)) k1"
  have "isr_clock k = andThen (dispatch ?k2) (\<lambda>k3. Inr (k_outb 0x20 0x20 k3))"
    unfolding isr_clock_def k1(1) using k1(5) c tp schedule_free [OF free] by (simp add: current_def)
  then show ?thesis using that [OF c k1(1) refl] k1 ok1 free unfolding tick_ok tp by blast
qed

lemma k_outb_frame [simp]:
  "k_q (k_outb p v k) = k_q k" "k_pcbs (k_outb p v k) = k_pcbs k" "k_current (k_outb p v k) = k_current k"
  "k_time (k_outb p v k) = k_time k" "k_mem (k_outb p v k) = k_mem k"
  by (simp_all add: k_outb_def)

text \<open>After a tick no process sleeps past its time, and nobody else was woken up.\<close>

lemma isr_clock_sleepers:
  assumes inv: "kernel_inv k" and ret: "isr_clock k = Inr k'"
  shows "k_time k' = k_time k + 1"
    and "ql_items (k_q k') Q_SLEEP = filter (\<lambda>x. k_time k' < fst x) (ql_items (k_q k) Q_SLEEP)"
proof -
  obtain k1 k2 c where k: "k2 = scheduled c (p_prio (k_pcbs k1 c)) k1"
    "isr_clock k = andThen (dispatch k2) (\<lambda>k3. Inr (k_outb 0x20 0x20 k3))"
    "k_q k1 = (k_q k)\<lparr>ql_items := (ql_items (k_q k))
       (Q_SLEEP := filter (\<lambda>x. \<not> fst x \<le> k_time k + 1) (ql_items (k_q k) Q_SLEEP),
        Q_READY 0 := ql_items (k_q k) (Q_READY 0) @ map (\<lambda>x. (0, snd x)) (due (tick k)))\<rparr>"
    "k_time k1 = k_time k + 1"
    by (rule isr_clock_split [OF inv])
  obtain k3 where k3: "dispatch k2 = Inr k3" "k' = k_outb 0x20 0x20 k3"
    using ret unfolding k(2) by (auto elim: andThen_eq_InrE)
  have s: "same_sleep k2 k3" by (rule holdsOnD [OF same_sleep_dispatch k3(1)])
  have q2: "ql_items (k_q k2) Q_SLEEP = ql_items (k_q k1) Q_SLEEP" "k_time k2 = k_time k1"
    by (simp_all add: k(1) scheduled_def Let_def)
  show t: "k_time k' = k_time k + 1" using s q2 k(4) by (simp add: k3(2) same_sleep_def)
  show "ql_items (k_q k') Q_SLEEP = filter (\<lambda>x. k_time k' < fst x) (ql_items (k_q k) Q_SLEEP)"
    using s q2 unfolding t by (simp add: k3(2) same_sleep_def k(3) not_le)
qed

text \<open>Processes of one priority take turns: the first in the queue runs, the other goes last.\<close>

lemma isr_clock_round_robin:
  assumes inv: "kernel_inv k" and cur: "k_current k = Some c" and due: "due (tick k) = []"
    and i: "i = clamp_prio (p_prio (k_pcbs k c))"
    and above: "\<And>j. j < i \<Longrightarrow> ql_items (k_q k) (Q_READY j) = []"
    and items: "ql_items (k_q k) (Q_READY i) = (key, p) # xs" and st: "p_state (k_pcbs k p) = READY"
  shows "\<exists>k'. isr_clock k = Inr k' \<and> k_current k' = Some p \<and> p_state (k_pcbs k' p) = RUNNING \<and>
     p_state (k_pcbs k' c) = READY \<and> ql_items (k_q k') (Q_READY i) = xs @ [(0, c)]"
proof -
  obtain k1 k2 c' where k: "k_current k = Some c'" "k2 = scheduled c' (p_prio (k_pcbs k1 c')) k1"
    "isr_clock k = andThen (dispatch k2) (\<lambda>k3. Inr (k_outb 0x20 0x20 k3))"
    "k_q k1 = (k_q k)\<lparr>ql_items := (ql_items (k_q k))
       (Q_SLEEP := filter (\<lambda>x. \<not> fst x \<le> k_time k + 1) (ql_items (k_q k) Q_SLEEP),
        Q_READY 0 := ql_items (k_q k) (Q_READY 0) @ map (\<lambda>x. (0, snd x)) (due (tick k)))\<rparr>"
    "\<forall>q. k_pcbs k1 q = (if q \<in> snd ` set (due (tick k)) then (k_pcbs k q)\<lparr>p_state := READY\<rparr> else k_pcbs k q)"
    by (rule isr_clock_split [OF inv])
  have c': "c' = c" using k(1) cur by simp
  have P: "k_pcbs k1 = k_pcbs k" using k(5) by (simp add: due fun_eq_iff)
  have R: "ql_items (k_q k1) (Q_READY j) = ql_items (k_q k) (Q_READY j)" for j
    unfolding k(4) by (simp add: due)
  have k2: "ql_items (k_q k2) (Q_READY j) = (if j = i then (key, p) # xs @ [(0, c)] else ql_items (k_q k) (Q_READY j))"
    for j unfolding k(2) c' using i items by (simp add: scheduled_def Let_def P R)
  have il: "i < N_PRIORITIES" using clamp_prio_less i by simp
  have "ql_items (k_q k) (Q_READY i) \<noteq> []" using items by simp
  have pc: "p \<noteq> c"
  proof
    assume "p = c"
    then have "c \<in> qset (k_q k) (Q_READY i)" using items by (simp add: qset_def)
    moreover have "c \<notin># kelems k" using inv cur by (auto simp: kernel_inv_def kernel_ok_def)
    ultimately show False using notin_elems_qset ready_in_PQ [OF il] by blast
  qed
  have d: "dispatch k2 = Inr (running i p (xs @ [(0, c)]) k2)"
    using il above k2 st pc P by (intro dispatch_first [where key = key]) (simp_all add: k(2) c')
  show ?thesis using pc unfolding k(3) d by (simp add: k(2) c')
qed

section \<open>Going to sleep\<close>

lemma sys_sleep_effect:
  assumes inv: "kernel_inv k" and cur: "k_current k = Some c" and ret: "sys_sleep ctx k = Inr k'"
  shows "ql_items (k_q k') Q_SLEEP =
     insert_item (Some Compare_uint_asc) (k_time k + ARG k ctx 1, c) (ql_items (k_q k) Q_SLEEP)"
    and "k_time k' = k_time k"
proof -
  have wf: "wfq (k_q k)" using inv by (auto simp: kernel_inv_def kernel_ok_def)
  then have cmp: "ql_compare (k_q k) Q_SLEEP = Some Compare_uint_asc" by (simp add: wfq_def)
  let ?v = "set_items Q_SLEEP (insert_item (Some Compare_uint_asc) (k_time k + ARG k ctx 1, c)
      (ql_items (k_q k) Q_SLEEP)) (ql_free (k_q k) - 1) (k_q k)"
  let ?k1 = "upd_pcb c (\<lambda>b. b\<lparr>p_sleeptime := k_time k, p_state := SLEEPING\<rparr>) k"
  have "lq_insert Q_SLEEP c (k_time k + ARG k ctx 1) (k_q ?k1) = (E_SUCCESS, ?v)"
    using wfq_free [OF wf] by (simp add: lq_insert_def cmp)
  then have "sys_sleep ctx k = dispatch (set_q ?v ?k1)"
    by (simp add: sys_sleep_def current_def cur)
  with ret have "same_sleep (set_q ?v ?k1) k'" using holdsOnD [OF same_sleep_dispatch] by simp
  then show "ql_items (k_q k') Q_SLEEP =
     insert_item (Some Compare_uint_asc) (k_time k + ARG k ctx 1, c) (ql_items (k_q k) Q_SLEEP)"
    and "k_time k' = k_time k"
    by (simp_all add: same_sleep_def)
qed

section \<open>Giving up the processor\<close>

lemma dispatched_current:
  assumes inv: "kernel_inv k" and ret: "dispatch k = Inr k'" and p: "p \<notin># kelems k"
  shows "p \<notin># kelems k'" and "k_current k' \<noteq> Some p"
proof -
  have "kinvk {} {} k" using inv by (simp add: kernel_inv_def kernel_ok_def)
  then have "dispatched (kelems k) k'" using dispatch_ok [of k] ret by simp
  then show "p \<notin># kelems k'" and "k_current k' \<noteq> Some p"
    using p by (auto simp: dispatched_def)
qed

text \<open>
  \<^verbatim>\<open>_sys_yield\<close> only dispatches: it does not put the current process into a ready queue, so
  the process is neither current nor in any queue afterwards.
\<close>

lemma sys_yield_drops:
  assumes inv: "kernel_inv k" and cur: "k_current k = Some c" and ret: "sys_yield ctx k = Inr k'"
  shows "k_current k' \<noteq> Some c \<and> (\<forall>q \<in> set PQ. c \<notin> qset (k_q k') q)"
proof -
  have "c \<notin># kelems k" using inv cur by (auto simp: kernel_inv_def kernel_ok_def)
  then show ?thesis
    using dispatched_current [OF inv ret [unfolded sys_yield_def]] notin_elems_qset by blast
qed

text \<open>
  \<^verbatim>\<open>_sys_kill\<close> of the calling process marks it and then schedules it, which overwrites the
  mark: the call is a plain yield.
\<close>

lemma sys_kill_self:
  assumes "kernel_inv k" and "pcb_find (load_pid (k_mem k) (arg_addr ctx 1)) k = Some c"
    and "k_current k = Some c"
  shows "sys_kill ctx k = dispatch (scheduled c (p_prio (k_pcbs k c)) k)"
proof -
  have free: "0 < ql_free (k_q k)" using assms(1) by (auto simp: kernel_inv_def kernel_ok_def dest: kinv_free)
  let ?k = "upd_pcb c (\<lambda>b. b\<lparr>p_state := KILLED\<rparr>) k"
  have "schedule (Some c) (p_prio (k_pcbs k c)) ?k = Inr (scheduled c (p_prio (k_pcbs k c)) ?k)"
    using free by (intro schedule_free) simp
  moreover have "scheduled c prio ?k = scheduled c prio k" for prio
    by (simp add: scheduled_def upd_pcb_def set_q_def Let_def)
  ultimately show ?thesis using assms(2,3) by (simp add: sys_kill_def Let_def)
qed

end
