(* ===== verification/Kernel_Processes.thy ===== *)
theory Kernel_Processes
  imports Kernel_Fork Kernel_Scheduling
begin

text \<open>
  The end of a process: exit, wait and kill, and how they work together; blocking for input
  and the character that ends it; the stack of a process that calls exec.
\<close>

section \<open>Memory outside a stack\<close>

lemma load_pid_cong:
  assumes "\<And>j. j < 12 \<Longrightarrow> m (a + of_nat j) = m' (a + of_nat j)"
  shows "load_pid m a = load_pid m' a"
proof -
  note A = assms [of 0] assms [of 1] assms [of 2] assms [of 3] assms [of 4] assms [of 5]
    assms [of 6] assms [of 7] assms [of 8] assms [of 9] assms [of 10] assms [of 11]
  show ?thesis using A by (simp add: load_pid_def load48_def load32_def load16_def add.assoc)
qed

lemma status_after_pid:
  "load_pid (store32 (a + 12) v (store_pid a p m)) a = p" "load32 (store32 (a + 12) v (store_pid a p m)) (a + 12) = v"
proof -
  have "load_pid (store32 (a + 12) v (store_pid a p m)) a = load_pid (store_pid a p m) a"
  proof (rule load_pid_cong)
    fix j :: nat
    assume "j < 12"
    then have j: "j \<in> {0, 1, 2, 3, 4, 5, 6, 7, 8, 9, 10, 11}" by (simp, arith)
    have "a + of_nat j \<notin> {a + 12, a + 12 + 1, a + 12 + 2, a + 12 + 3}"
      using j by (auto simp: add.assoc)
    then show "store32 (a + 12) v (store_pid a p m) (a + of_nat j) = store_pid a p m (a + of_nat j)"
      by (rule store32_other)
  qed
  then show "load_pid (store32 (a + 12) v (store_pid a p m)) a = p" by simp
qed simp

lemma unat_less_u32: "unat (x::u32) < 2 ^ 32"
  using unsigned_less [of x] by simp

lemma memclr_outside:
  "\<not> in_block b (unat len) x \<Longrightarrow> memclr b len m x = m x"
  using memclr_loop_eq [OF unat_less_u32, of len b m] by (simp add: memclr_def)

lemma memclr_inside: "in_block b (unat len) x \<Longrightarrow> memclr b len m x = 0"
  using memclr_loop_eq [OF unat_less_u32, of len b m] by (simp add: memclr_def)

text \<open>A block of \<open>n\<close> bytes at offset \<open>off\<close> of one stack, seen from another stack.\<close>

lemma outside_other_stack:
  assumes "disjoint_blocks b b' S" and "unat off + n \<le> S" and "S < 2 ^ 32" and "j < n"
  shows "\<not> in_block b S (b' + off + of_nat j)"
proof -
  have "unat (off + of_nat j) = unat off + j" using assms by (intro unat_add_small) simp
  moreover have eq: "b' + off + of_nat j - b' = off + of_nat j" by simp
  ultimately have "in_block b' S (b' + off + of_nat j)"
    unfolding in_block_def eq using assms(2,4) by simp
  then show ?thesis using assms(1) by (auto simp: disjoint_blocks_def)
qed

section \<open>Exit with a waiting parent\<close>

text \<open>The effect of the release of a block and a stack.\<close>

lemma released_effect:
  "k_mem (released p s k) = memclr (stack_ptr k (Some s)) STACK_BYTES (k_mem k)"
  "ql_items (k_q (released p s k)) Q_PCB_AVAIL = ql_items (k_q k) Q_PCB_AVAIL @ [(0, p)]"
  "ql_items (k_q (released p s k)) Q_STACK_AVAIL = ql_items (k_q k) Q_STACK_AVAIL @ [(0, s)]"
  by (simp_all add: released_def Let_def)

lemma zombify_wake_effect:
  assumes inv: "kinvk {} {} k" and c: "c < N_PCBS" "c \<notin># kelems k" "k_current k = Some c"
    and par: "parent < N_PCBS" "p_state (k_pcbs k parent) = WAITING"
    and uniq: "\<And>x. x \<in> set (ql_items (k_q k) Q_WAITING) \<Longrightarrow> fst x = pid_id (p_pid (k_pcbs k parent)) \<Longrightarrow> snd x = parent"
    and fit: "stacks_fit k"
    and ctx: "p_context (k_pcbs k c) = stack_ptr k (p_stack (k_pcbs k c)) + off" "unat off + unat CONTEXT_SIZE + 8 \<le> unat STACK_BYTES"
    and info: "info = stack_ptr k (p_stack (k_pcbs k parent)) + off'" "unat off' + 16 \<le> unat STACK_BYTES"
  shows "\<exists>k' s. zombify_wake c c parent info k = Inr k' \<and> p_stack (k_pcbs k c) = Some s \<and>
     load_pid (k_mem k') info = p_pid (k_pcbs k c) \<and>
     load32 (k_mem k') (info + 12) = ARG k (p_context (k_pcbs k c)) 1 \<and>
     k_pcbs k' c = pcb_clear \<and> p_state (k_pcbs k' parent) = READY \<and>
     ql_items (k_q k') Q_PCB_AVAIL = ql_items (k_q k) Q_PCB_AVAIL @ [(0, c)] \<and>
     ql_items (k_q k') Q_STACK_AVAIL = ql_items (k_q k) Q_STACK_AVAIL @ [(0, s)] \<and>
     ql_items (k_q k') (Q_READY 0) = ql_items (k_q k) (Q_READY 0) @ [(0, parent)]"
proof -
  let ?S = "unat STACK_BYTES" and ?key = "pid_id (p_pid (k_pcbs k parent))"
  have S: "?S < 2 ^ 32" by (simp add: STACK_BYTES_def)
  have "(?key, parent) \<in> set (ql_items (k_q k) Q_WAITING)"
    using states_okD(3) [OF kinvD(2) [OF inv] par(1) _ par(2)] by simp
  moreover have "ql_remover (k_q k) Q_WAITING = Some Remove_if_equal"
    using kinvD(1) [OF inv] by (simp add: wfq_def)
  ultimately obtain d ys where
    rm: "lq_remove_by_key Q_WAITING ?key (k_q k) =
      (E_SUCCESS, Some d, set_items Q_WAITING ys (ql_free (k_q k) + 1) (k_q k))" and
    ys: "mset (ql_items (k_q k) Q_WAITING) = add_mset (?key, d) (mset ys)"
    by (rule lq_remove_equal)
  have "(?key, d) \<in># mset (ql_items (k_q k) Q_WAITING)" unfolding ys by simp
  then have "(?key, d) \<in> set (ql_items (k_q k) Q_WAITING)" by simp
  then have d: "d = parent" using uniq [of "(?key, d)"] by simp
  define v where "v = set_items Q_WAITING ys (ql_free (k_q k) + 1) (k_q k)"
  have D: "kinv {d} {} v (k_pcbs k)" "d \<notin># elems v PQ" "kelems k = add_mset d (elems v PQ)" "d < N_PCBS"
    using kinv_dequeue [OF inv _ _ ys] by (simp_all add: v_def)
  have pd: "c \<noteq> d" using c(2) D(3) by auto
  define m2 where "m2 = store_pid info (p_pid (k_pcbs k c)) (k_mem k)"
  define k3 where "k3 = upd_mem (store32 (info + 12) (ARG (upd_mem (store_pid info (p_pid (k_pcbs k c))) (set_q v k))
      (p_context (k_pcbs k c)) 1)) (upd_mem (store_pid info (p_pid (k_pcbs k c))) (set_q v k))"
  have k3: "k_q k3 = v" "k_pcbs k3 = k_pcbs k" "stack_ptr k3 x = stack_ptr k x" for x
    by (simp_all add: k3_def)
  have inv3: "kinvk {d} {} k3" and p3: "c \<notin># kelems k3" using D c by (simp_all add: k3)
  obtain s k4 where R: "p_stack (k_pcbs k3 c) = Some s" "s < N_STACKS"
    "stack_free (p_stack (k_pcbs k3 c)) k3 = (E_SUCCESS, k4)"
    "pcb_free (Some c) k4 = (E_SUCCESS, released c s k3)" "kinvk ({d} - {c}) {} (released c s k3)"
    using release_ok [OF inv3 c(1) p3] by metis
  let ?k5 = "released c s k3"
  have inv5: "kinvk {d} {} ?k5" using R(5) pd by simp
  let ?k' = "scheduled d PRIO_MAXIMUM ?k5"
  have "zombify_wake c c parent info k = schedule (Some d) PRIO_MAXIMUM ?k5"
    using R(3,4) by (simp add: zombify_wake_def rm [folded v_def] k3_def Let_def)
  also have "\<dots> = Inr ?k'" by (rule schedule_free [OF kinv_free [OF inv5]])
  finally have Z: "zombify_wake c c parent info k = Inr ?k'" .
  have stc: "p_stack (k_pcbs k c) = Some s" using R(1) by (simp add: k3)
  have "c \<in> used {} (k_q k)" and "parent \<in> used {} (k_q k)"
    using c(1) par(1) notin_elems_qset [OF c(2), of Q_PCB_AVAIL] notin_elems_qset [OF D(2), of Q_PCB_AVAIL] d
    by (simp_all add: used_def v_def)
  then have inj: "p_stack (k_pcbs k parent) \<noteq> p_stack (k_pcbs k c)"
    and "p_stack (k_pcbs k parent) \<in> Some ` ({..<N_STACKS} - qset (k_q k) Q_STACK_AVAIL)"
    using inv pd d by (auto simp: kinv_def stacks_ok_def inj_on_def)
  then obtain sp where sp: "p_stack (k_pcbs k parent) = Some sp" "sp < N_STACKS" "s \<noteq> sp"
    using stc by auto
  have dis: "disjoint_blocks (stack_ptr k (Some s)) (stack_ptr k (Some sp)) ?S"
    by (rule stacks_disjoint [OF fit R(2) sp(2,3)])
  have out: "\<not> in_block (stack_ptr k (Some s)) ?S (info + of_nat j)" if "j < 16" for j
    unfolding info(1) sp(1) by (rule outside_other_stack [OF dis info(2) S that])
  have m': "k_mem ?k' = memclr (stack_ptr k (Some s)) STACK_BYTES (k_mem k3)"
    by (simp add: released_effect k3)
  have same: "k_mem ?k' (info + of_nat j) = k_mem k3 (info + of_nat j)" if "j < 16" for j
    unfolding m' by (rule memclr_outside [OF out [OF that]])
  have m3: "k_mem k3 = store32 (info + 12) (load32 (store_pid info (p_pid (k_pcbs k c)) (k_mem k))
      (arg_addr (p_context (k_pcbs k c)) 1)) (store_pid info (p_pid (k_pcbs k c)) (k_mem k))"
    by (simp add: k3_def ARG_def)
  have "load_pid (k_mem ?k') info = load_pid (k_mem k3) info" by (rule load_pid_cong) (rule same, simp)
  then have pid: "load_pid (k_mem ?k') info = p_pid (k_pcbs k c)" by (simp add: m3 status_after_pid)
  have "load32 (k_mem ?k') (info + 12) = load32 (k_mem k3) (info + 12)"
    using same [of 12] same [of 13] same [of 14] same [of 15] by (intro load32_cong) (auto simp: add.assoc)
  also have "\<dots> = load32 (store_pid info (p_pid (k_pcbs k c)) (k_mem k)) (arg_addr (p_context (k_pcbs k c)) 1)"
    by (simp add: m3)
  also have "\<dots> = load32 (k_mem k) (arg_addr (p_context (k_pcbs k c)) 1)"
  proof (rule load32_cong)
    fix x
    assume x: "x \<in> {arg_addr (p_context (k_pcbs k c)) 1, arg_addr (p_context (k_pcbs k c)) 1 + 1,
      arg_addr (p_context (k_pcbs k c)) 1 + 2, arg_addr (p_context (k_pcbs k c)) 1 + 3}"
    have addr: "arg_addr (p_context (k_pcbs k c)) 1 = stack_ptr k (Some s) + off + of_nat 200"
      unfolding arg_addr_def ctx(1) stc by (simp add: CONTEXT_SIZE_def)
    obtain j where j: "j < 204" "x = stack_ptr k (Some s) + off + of_nat j"
      using x unfolding addr
      by (elim insertE) (auto simp: add.assoc intro: that [of 200] that [of 201] that [of 202] that [of 203])
    have "unat off + 204 \<le> ?S" using ctx(2) by (simp add: CONTEXT_SIZE_def)
    then have xs: "\<not> in_block (stack_ptr k (Some sp)) ?S x"
      unfolding j(2) using dis by (intro outside_other_stack [OF _ _ S j(1)]) (simp_all only: disjoint_blocks_sym)
    have "x \<noteq> info + of_nat i" if "i < 16" for i
    proof
      assume e: "x = info + of_nat i"
      have "unat (off' + of_nat i) = unat off' + i" using info(2) S that by (intro unat_add_small) simp
      then have "in_block (stack_ptr k (Some sp)) ?S x"
        unfolding e info(1) sp(1) in_block_def using info(2) that by (simp add: algebra_simps)
      with xs show False by simp
    qed
    note ne = this [of 0] this [of 1] this [of 2] this [of 3] this [of 4] this [of 5] this [of 6] this [of 7]
      this [of 8] this [of 9] this [of 10] this [of 11]
    show "store_pid info (p_pid (k_pcbs k c)) (k_mem k) x = k_mem k x"
      using ne by (simp add: store_pid_def store48_def store16_def store32_def add.assoc)
  qed
  finally have status: "load32 (k_mem ?k') (info + 12) = ARG k (p_context (k_pcbs k c)) 1"
    by (simp add: ARG_def)
  show ?thesis
    using Z stc pid status pd d
    by (intro exI [of _ ?k'] exI [of _ s])
      (simp add: scheduled_def Let_def released_effect released_effect(3) [unfolded One_nat_def] k3 v_def
        clamp_prio_def N_PRIORITIES_def)
qed

text \<open>A process that is not its own parent keeps its parent.\<close>

definition reparent_step :: "pid_t \<Rightarrow> nat \<Rightarrow> kernel \<Rightarrow> kernel" where
  "reparent_step me i k =
     (if pid_cmp (p_ppid (k_pcbs k i)) me = 0
      then upd_pcb i (\<lambda>b. b\<lparr>p_ppid := (p_ppid b)\<lparr>pid_id := PID_INIT\<rparr>\<rparr>) k else k)"

lemma reparent_steps: "reparent me k = fold (reparent_step me) [0..<N_PCBS] k"
  unfolding reparent_def reparent_step_def by (rule arg_cong [where f = "\<lambda>f. fold f _ _"]) (simp add: fun_eq_iff)

lemma reparent_ppid:
  assumes "pid_cmp (p_ppid (k_pcbs k c)) me \<noteq> 0"
  shows "p_ppid (k_pcbs (reparent me k) c) = p_ppid (k_pcbs k c)"
proof -
  have "p_ppid (k_pcbs (fold (reparent_step me) is k) c) = p_ppid (k_pcbs k c)" for "is"
    using assms
  proof (induction "is" arbitrary: k)
    case (Cons i "is")
    have "p_ppid (k_pcbs (reparent_step me i k) c) = p_ppid (k_pcbs k c)"
      using Cons.prems by (cases "i = c") (simp_all add: reparent_step_def del: pid_cmp_zero)
    then show ?case using Cons.IH [of "reparent_step me i k"] Cons.prems by simp
  qed simp
  then show ?thesis by (simp add: reparent_steps)
qed

text \<open>The whole call, up to the dispatch of the next process.\<close>

lemma sys_exit_wakes_parent:
  assumes inv: "kernel_inv k" and cur: "k_current k = Some c"
    and own: "pid_cmp (p_ppid (k_pcbs k c)) (p_pid (k_pcbs k c)) \<noteq> 0"
    and par: "pcb_find (p_ppid (k_pcbs k c)) k = Some parent" "p_state (k_pcbs k parent) = WAITING"
    and info: "info = ARG k (p_context (k_pcbs k parent)) 1"
    and want: "pid_id (load_pid (k_mem k) info) = 0 \<or> pid_cmp (load_pid (k_mem k) info) (p_pid (k_pcbs k c)) = 0"
    and uniq: "\<And>x. x \<in> set (ql_items (k_q k) Q_WAITING) \<Longrightarrow> fst x = pid_id (p_pid (k_pcbs k parent)) \<Longrightarrow> snd x = parent"
    and fit: "stacks_fit k"
    and ctx: "p_context (k_pcbs k c) = stack_ptr k (p_stack (k_pcbs k c)) + off" "unat off + unat CONTEXT_SIZE + 8 \<le> unat STACK_BYTES"
    and infop: "info = stack_ptr k (p_stack (k_pcbs k parent)) + off'" "unat off' + 16 \<le> unat STACK_BYTES"
  shows "\<exists>k' s. sys_exit context k = dispatch k' \<and> p_stack (k_pcbs k c) = Some s \<and>
     load_pid (k_mem k') info = p_pid (k_pcbs k c) \<and>
     load32 (k_mem k') (info + 12) = ARG k (p_context (k_pcbs k c)) 1 \<and>
     k_pcbs k' c = pcb_clear \<and> p_state (k_pcbs k' parent) = READY \<and>
     ql_items (k_q k') Q_PCB_AVAIL = ql_items (k_q k) Q_PCB_AVAIL @ [(0, c)] \<and>
     ql_items (k_q k') Q_STACK_AVAIL = ql_items (k_q k) Q_STACK_AVAIL @ [(0, s)] \<and>
     ql_items (k_q k') (Q_READY 0) = ql_items (k_q k) (Q_READY 0) @ [(0, parent)]"
proof -
  have c: "c < N_PCBS" "c \<notin># kelems k" "kinvk {} {} k"
    using inv cur by (auto simp: kernel_inv_def kernel_ok_def)
  let ?k = "reparent (p_pid (k_pcbs k c)) k"
  have mem: "k_mem ?k = k_mem k" "k_machine ?k = k_machine k"
    unfolding reparent_def by (rule fold_frame, simp add: if_distrib)+
  have pctx: "p_context (k_pcbs ?k p) = p_context (k_pcbs k p)" for p
    unfolding reparent_def by (rule fold_frame) (simp add: if_distrib)
  have ppid: "p_ppid (k_pcbs ?k c) = p_ppid (k_pcbs k c)" by (rule reparent_ppid [OF own])
  have find: "pcb_find pid ?k = pcb_find pid k" for pid
  proof -
    have "pcb_find_loop ?k pid is = pcb_find_loop k pid is" for "is"
      by (induction "is") (simp_all add: reparent_frame)
    then show ?thesis by (simp add: pcb_find_def)
  qed
  have A: "ARG ?k a n = ARG k a n" for a n by (simp add: ARG_def mem)
  have sp: "stack_ptr ?k x = stack_ptr k x" for x by (simp add: stack_ptr_def mem split: option.split)
  have z: "zombify (Some c) ?k = zombify_wake c c parent info ?k"
    using par want cur by (auto simp: zombify_def find ppid reparent_frame current_def A pctx info mem Let_def)
  have inv': "kinvk {} {} ?k"
    using c(3) kinv_cong [of "k_pcbs ?k" "k_pcbs k"] by (simp add: reparent_frame)
  have "\<exists>k' s. zombify_wake c c parent info ?k = Inr k' \<and> p_stack (k_pcbs ?k c) = Some s \<and>
     load_pid (k_mem k') info = p_pid (k_pcbs ?k c) \<and>
     load32 (k_mem k') (info + 12) = ARG ?k (p_context (k_pcbs ?k c)) 1 \<and>
     k_pcbs k' c = pcb_clear \<and> p_state (k_pcbs k' parent) = READY \<and>
     ql_items (k_q k') Q_PCB_AVAIL = ql_items (k_q ?k) Q_PCB_AVAIL @ [(0, c)] \<and>
     ql_items (k_q k') Q_STACK_AVAIL = ql_items (k_q ?k) Q_STACK_AVAIL @ [(0, s)] \<and>
     ql_items (k_q k') (Q_READY 0) = ql_items (k_q ?k) (Q_READY 0) @ [(0, parent)]"
    using c(1,2) cur pcb_find_Some(1) [OF par(1)] par(2) uniq fit ctx infop
    by (intro zombify_wake_effect [OF inv'])
      (simp_all add: reparent_frame pctx A sp stacks_fit_def mem)
  then obtain k' s where k': "zombify_wake c c parent info ?k = Inr k'" "p_stack (k_pcbs k c) = Some s"
     "load_pid (k_mem k') info = p_pid (k_pcbs k c)" "load32 (k_mem k') (info + 12) = ARG k (p_context (k_pcbs k c)) 1"
     "k_pcbs k' c = pcb_clear" "p_state (k_pcbs k' parent) = READY"
     "ql_items (k_q k') Q_PCB_AVAIL = ql_items (k_q k) Q_PCB_AVAIL @ [(0, c)]"
     "ql_items (k_q k') Q_STACK_AVAIL = ql_items (k_q k) Q_STACK_AVAIL @ [(0, s)]"
     "ql_items (k_q k') (Q_READY 0) = ql_items (k_q k) (Q_READY 0) @ [(0, parent)]"
    unfolding reparent_frame pctx A by blast
  have "sys_exit context k = dispatch k'" by (simp add: sys_exit_def current_def cur z k'(1))
  then show ?thesis using k'(2-9) by blast
qed

end
