(* ===== verification/Kernel_Calls.thy ===== *)
theory Kernel_Calls
  imports Kernel_Processes
begin

text \<open>
  More of the system calls: zombies and waiting, killing, blocking for input and the
  character that ends it, the number of a call that is out of range.
\<close>

section \<open>Zombies\<close>

text \<open>A process that ends while its parent does not wait is kept in the zombie queue.\<close>

definition parked :: "nat \<Rightarrow> kernel \<Rightarrow> kernel" where
  "parked c k =
     set_q (set_items Q_ZOMBIE (insert_item (ql_compare (k_q k) Q_ZOMBIE) (pid_id (p_pid (k_pcbs k c)), c)
              (ql_items (k_q k) Q_ZOMBIE)) (ql_free (k_q k) - 1) (k_q k))
       (upd_pcb c (\<lambda>b. b\<lparr>p_state := ZOMBIE\<rparr>) k)"

lemma zombify_park_parked: "0 < ql_free (k_q k) \<Longrightarrow> zombify_park c k = Inr (parked c k)"
  by (simp add: zombify_park_def parked_def lq_insert_free Let_def)

lemma parked_frame [simp]:
  "k_pcbs (parked c k) = (k_pcbs k)(c := (k_pcbs k c)\<lparr>p_state := ZOMBIE\<rparr>)"
  "k_current (parked c k) = k_current k" "k_mem (parked c k) = k_mem k"
  "q \<noteq> Q_ZOMBIE \<Longrightarrow> ql_items (k_q (parked c k)) q = ql_items (k_q k) q"
  "(pid_id (p_pid (k_pcbs k c)), c) \<in> set (ql_items (k_q (parked c k)) Q_ZOMBIE)"
  by (simp_all add: parked_def)

lemma zombify_parks:
  assumes "0 < ql_free (k_q k)" and "k_current k = Some c"
    and "pcb_find (p_ppid (k_pcbs k c)) k = Some parent" and "p_state (k_pcbs k parent) \<noteq> WAITING"
  shows "zombify (Some c) k = Inr (parked c k)"
  using assms by (simp add: zombify_def current_def zombify_park_parked)

text \<open>
  The status that the process passes to \<^verbatim>\<open>exit\<close> is not stored: the block of the zombie has
  the status it had before the call, and that is what \<^verbatim>\<open>_sys_wait\<close> will report.
\<close>

lemma reparent_status: "p_status (k_pcbs (reparent me k) p) = p_status (k_pcbs k p)"
  unfolding reparent_def by (rule fold_frame) (simp add: if_distrib)

lemma sys_exit_parks:
  assumes inv: "kernel_inv k" and cur: "k_current k = Some c"
    and own: "pid_cmp (p_ppid (k_pcbs k c)) (p_pid (k_pcbs k c)) \<noteq> 0"
    and par: "pcb_find (p_ppid (k_pcbs k c)) k = Some parent" "p_state (k_pcbs k parent) \<noteq> WAITING"
  shows "\<exists>k'. sys_exit ctx k = dispatch k' \<and> p_state (k_pcbs k' c) = ZOMBIE \<and>
     p_status (k_pcbs k' c) = p_status (k_pcbs k c) \<and>
     (pid_id (p_pid (k_pcbs k c)), c) \<in> set (ql_items (k_q k') Q_ZOMBIE)"
proof -
  let ?k = "reparent (p_pid (k_pcbs k c)) k"
  have free: "0 < ql_free (k_q ?k)"
    using inv by (auto simp: kernel_inv_def kernel_ok_def reparent_frame dest: kinv_free)
  have "pcb_find_loop ?k pid is = pcb_find_loop k pid is" for pid "is"
    by (induction "is") (simp_all add: reparent_frame)
  then have "pcb_find (p_ppid (k_pcbs ?k c)) ?k = Some parent"
    using par(1) by (simp add: pcb_find_def reparent_ppid [OF own])
  then have "zombify (Some c) ?k = Inr (parked c ?k)"
    using cur par(2) by (intro zombify_parks [OF free]) (simp_all add: reparent_frame)
  then have "sys_exit ctx k = dispatch (parked c ?k)" by (simp add: sys_exit_def current_def cur)
  moreover have "(pid_id (p_pid (k_pcbs k c)), c) \<in> set (ql_items (k_q (parked c ?k)) Q_ZOMBIE)"
    using parked_frame(5) [of ?k c] by (simp add: reparent_frame)
  ultimately show ?thesis
    by (intro exI [of _ "parked c ?k"]) (simp add: reparent_status)
qed

section \<open>Waiting\<close>

lemma wait_scan_no_child:
  "(\<And>p. i \<le> p \<Longrightarrow> p < i + n \<Longrightarrow> pid_cmp (p_ppid (k_pcbs k p)) me \<noteq> 0) \<Longrightarrow> wait_scan k me i n f = (i + n, f)"
  by (induction n arbitrary: i) (simp_all del: pid_cmp_zero)

text \<open>
  A process without children that waits for any child: the test \<^verbatim>\<open>i > N_PCBS\<close> fails, because
  the loop ends with \<open>i = N_PCBS\<close>, so the call treats the last block as the child.
\<close>

lemma sys_wait_no_child:
  assumes cur: "k_current k = Some c" and info: "ARG k ctx 1 \<noteq> 0"
    and any: "pid_id (load_pid (k_mem k) (ARG k ctx 1)) = 0"
    and none: "\<And>p. p < N_PCBS \<Longrightarrow> pid_cmp (p_ppid (k_pcbs k p)) (p_pid (k_pcbs k c)) \<noteq> 0"
  shows "sys_wait ctx k = wait_for c (N_PCBS - 1) (ARG k ctx 1) k"
proof -
  have s: "wait_scan k (p_pid (k_pcbs k c)) 0 N_PCBS None = (N_PCBS, None)"
    using wait_scan_no_child [of 0 N_PCBS k "p_pid (k_pcbs k c)" None] none by simp
  have "\<not> 0 < pid_id (load_pid (k_mem k) (ARG k ctx 1))" using any by simp
  then show ?thesis using info by (simp add: sys_wait_def current_def cur s Let_def)
qed

text \<open>The first zombie child is found.\<close>

lemma wait_scan_zombie:
  "p < i + n \<Longrightarrow> i \<le> p \<Longrightarrow> p_state (k_pcbs k p) = ZOMBIE \<Longrightarrow> pid_cmp (p_ppid (k_pcbs k p)) me = 0 \<Longrightarrow>
   (\<And>q. i \<le> q \<Longrightarrow> q < p \<Longrightarrow> pid_cmp (p_ppid (k_pcbs k q)) me \<noteq> 0 \<or> p_state (k_pcbs k q) \<noteq> ZOMBIE) \<Longrightarrow>
   wait_scan k me i n f = (p, Some p)"
proof (induction n arbitrary: i f)
  case (Suc n)
  show ?case
  proof (cases "i = p")
    case True
    then show ?thesis using Suc.prems by (simp del: pid_cmp_zero)
  next
    case False
    then have "wait_scan k me (i + 1) n g = (p, Some p)" for g
      using Suc.prems by (intro Suc.IH) auto
    then show ?thesis using Suc.prems(5) [of i] Suc.prems(2) False by (auto simp del: pid_cmp_zero)
  qed
qed simp

lemma sys_wait_reaps:
  assumes inv: "kernel_inv k" and cur: "k_current k = Some c" and info: "ARG k ctx 1 \<noteq> 0"
    and any: "pid_id (load_pid (k_mem k) (ARG k ctx 1)) = 0"
    and p: "p < N_PCBS" "p_state (k_pcbs k p) = ZOMBIE" "pid_cmp (p_ppid (k_pcbs k p)) (p_pid (k_pcbs k c)) = 0"
    and first: "\<And>q. q < p \<Longrightarrow> pid_cmp (p_ppid (k_pcbs k q)) (p_pid (k_pcbs k c)) \<noteq> 0 \<or> p_state (k_pcbs k q) \<noteq> ZOMBIE"
    and uniq: "\<And>x. x \<in> set (ql_items (k_q k) Q_ZOMBIE) \<Longrightarrow> fst x = pid_id (p_pid (k_pcbs k p)) \<Longrightarrow> snd x = p"
    and fit: "stacks_fit k"
    and infop: "ARG k ctx 1 = stack_ptr k (p_stack (k_pcbs k c)) + off" "unat off + 16 \<le> unat STACK_BYTES"
  shows "\<exists>k'. sys_wait ctx k = Inr k' \<and> k_current k' = Some c \<and> k_pcbs k' p = pcb_clear \<and>
     ql_items (k_q k') Q_PCB_AVAIL = ql_items (k_q k) Q_PCB_AVAIL @ [(0, p)] \<and>
     p \<notin> qset (k_q k') Q_ZOMBIE \<and>
     load_pid (k_mem k') (ARG k ctx 1) = p_pid (k_pcbs k p) \<and>
     load32 (k_mem k') (ARG k ctx 1 + 12) = p_status (k_pcbs k p)"
proof -
  let ?info = "ARG k ctx 1" and ?key = "pid_id (p_pid (k_pcbs k p))" and ?S = "unat STACK_BYTES"
  have c: "c < N_PCBS" "c \<notin># kelems k" "kinvk {} {} k"
    using inv cur by (auto simp: kernel_inv_def kernel_ok_def)
  have S: "?S < 2 ^ 32" by (simp add: STACK_BYTES_def)
  have s: "wait_scan k (p_pid (k_pcbs k c)) 0 N_PCBS None = (p, Some p)"
    using p first by (intro wait_scan_zombie) auto
  have "\<not> 0 < pid_id (load_pid (k_mem k) ?info)" using any by simp
  then have w: "sys_wait ctx k = wait_reap p ?info k"
    using info p by (simp add: sys_wait_def current_def cur s wait_for_def Let_def)
  have "(?key, p) \<in> set (ql_items (k_q k) Q_ZOMBIE)"
    using states_okD(4) [OF kinvD(2) [OF c(3)] p(1) _ p(2)] by simp
  moreover have "ql_remover (k_q k) Q_ZOMBIE = Some Remove_if_equal"
    using kinvD(1) [OF c(3)] by (simp add: wfq_def)
  ultimately obtain d ys where
    rm: "lq_remove_by_key Q_ZOMBIE ?key (k_q k) =
      (E_SUCCESS, Some d, set_items Q_ZOMBIE ys (ql_free (k_q k) + 1) (k_q k))" and
    ys: "mset (ql_items (k_q k) Q_ZOMBIE) = add_mset (?key, d) (mset ys)"
    by (rule lq_remove_equal)
  have "(?key, d) \<in># mset (ql_items (k_q k) Q_ZOMBIE)" unfolding ys by simp
  then have "(?key, d) \<in> set (ql_items (k_q k) Q_ZOMBIE)" by simp
  then have d: "d = p" using uniq [of "(?key, d)"] by simp
  define v where "v = set_items Q_ZOMBIE ys (ql_free (k_q k) + 1) (k_q k)"
  have D: "kinv {p} {} v (k_pcbs k)" "p \<notin># elems v PQ" "kelems k = add_mset p (elems v PQ)"
    using kinv_dequeue [OF c(3) _ _ ys] by (simp_all add: v_def d)
  have pc: "c \<noteq> p" using c(2) D(3) by auto
  define k3 where "k3 = set_q v (upd_mem (store32 (?info + 12) (p_status (k_pcbs k p)))
      (upd_mem (store_pid ?info (p_pid (k_pcbs k p))) k))"
  have k3: "k_q k3 = v" "k_pcbs k3 = k_pcbs k" "stack_ptr k3 x = stack_ptr k x" for x
    by (simp_all add: k3_def)
  have inv3: "kinvk {p} {} k3" and p3: "p \<notin># kelems k3" using D by (simp_all add: k3)
  obtain st k4 where R: "p_stack (k_pcbs k3 p) = Some st" "st < N_STACKS"
    "stack_free (p_stack (k_pcbs k3 p)) k3 = (E_SUCCESS, k4)"
    "pcb_free (Some p) k4 = (E_SUCCESS, released p st k3)"
    using release_ok [OF inv3 p(1) p3] by metis
  let ?k' = "released p st k3"
  have W: "sys_wait ctx k = Inr ?k'"
    using R(3,4) unfolding w by (simp add: wait_reap_def rm [folded v_def] k3_def d Let_def)
  have stp: "p_stack (k_pcbs k p) = Some st" using R(1) by (simp add: k3)
  have "c \<in> used {} (k_q k)" and "p \<in> used {} (k_q k)"
    using c(1) p(1) notin_elems_qset [OF c(2), of Q_PCB_AVAIL] notin_elems_qset [OF D(2), of Q_PCB_AVAIL]
    by (simp_all add: used_def v_def)
  then have "p_stack (k_pcbs k c) \<noteq> p_stack (k_pcbs k p)"
    and "p_stack (k_pcbs k c) \<in> Some ` ({..<N_STACKS} - qset (k_q k) Q_STACK_AVAIL)"
    using c(3) pc by (auto simp: kinv_def stacks_ok_def inj_on_def)
  then obtain sc where sc: "p_stack (k_pcbs k c) = Some sc" "sc < N_STACKS" "st \<noteq> sc"
    using stp by auto
  have dis: "disjoint_blocks (stack_ptr k (Some st)) (stack_ptr k (Some sc)) ?S"
    by (rule stacks_disjoint [OF fit R(2) sc(2,3)])
  have out: "\<not> in_block (stack_ptr k (Some st)) ?S (?info + of_nat j)" if "j < 16" for j
    unfolding infop(1) sc(1) by (rule outside_other_stack [OF dis infop(2) S that])
  have same: "k_mem ?k' (?info + of_nat j) = k_mem k3 (?info + of_nat j)" if "j < 16" for j
    unfolding released_effect(1) k3(3) by (rule memclr_outside [OF out [OF that]])
  have m3: "k_mem k3 = store32 (?info + 12) (p_status (k_pcbs k p)) (store_pid ?info (p_pid (k_pcbs k p)) (k_mem k))"
    by (simp add: k3_def)
  have "load_pid (k_mem ?k') ?info = load_pid (k_mem k3) ?info" by (rule load_pid_cong) (rule same, simp)
  moreover have "load32 (k_mem ?k') (?info + 12) = load32 (k_mem k3) (?info + 12)"
    using same [of 12] same [of 13] same [of 14] same [of 15] by (intro load32_cong) (auto simp: add.assoc)
  moreover have "qset v Q_ZOMBIE = qset (k_q ?k') Q_ZOMBIE" by (simp add: released_def Let_def qset_def k3)
  moreover have "p \<notin> qset v Q_ZOMBIE" using notin_elems_qset [OF D(2)] by simp
  ultimately show ?thesis
    using W cur by (intro exI [of _ ?k']) (simp add: m3 status_after_pid released_effect k3 v_def, simp add: k3_def)
qed

section \<open>Killing\<close>

lemma dispatch_loop_fuel: "dispatch_loop m k \<noteq> Inl Diverges \<Longrightarrow> m \<le> n \<Longrightarrow> dispatch_loop n k = dispatch_loop m k"
proof (induction m arbitrary: n k)
  case (Suc m)
  then obtain n' where n: "n = Suc n'" "m \<le> n'" by (cases n) auto
  have step: "andThen (zombify (Some c) k1) (dispatch_loop n') = andThen (zombify (Some c) k1) (dispatch_loop m)"
    if "andThen (zombify (Some c) k1) (dispatch_loop m) \<noteq> Inl Diverges" for c k1
    using that Suc.IH [OF _ n(2)] by (cases "zombify (Some c) k1") simp_all
  show ?case
    using Suc.prems(1) step unfolding n(1)
    by (auto simp: current_def Let_def split: option.splits prod.splits if_splits)
qed simp

lemma dispatch_loop_enough:
  assumes "kinvk {} {} k" and "runnable (k_q k) < m"
  shows "dispatch_loop m k = dispatch k"
proof -
  have ne: "dispatch_loop j k \<noteq> Inl Diverges" if "runnable (k_q k) < j" for j
    using dispatch_loop_ok [OF assms(1) that] by (auto simp: expected_panic_def)
  have r: "runnable (k_q k) < N_QNODES + 1"
    using runnable_le [OF kinvD(1) [OF assms(1)]] by (simp add: N_QNODES_def)
  show ?thesis
    using dispatch_loop_fuel [OF ne [OF assms(2)], of "max m (N_QNODES + 1)"]
      dispatch_loop_fuel [OF ne [OF r], of "max m (N_QNODES + 1)"]
    by (simp add: dispatch_def)
qed

text \<open>
  A killed process that reaches the head of the queue is not run: it becomes a zombie, and
  the dispatcher goes on with the rest.
\<close>

lemma dispatch_killed:
  assumes inv: "kinvk {} {} k"
    and i: "i < N_PRIORITIES" "\<And>j. j < i \<Longrightarrow> ql_items (k_q k) (Q_READY j) = []"
    and items: "ql_items (k_q k) (Q_READY i) = (key, p) # xs" and st: "p_state (k_pcbs k p) = KILLED"
    and par: "pcb_find (p_ppid (k_pcbs k p)) k = Some parent" "p_state (k_pcbs k parent) \<noteq> WAITING"
    and k1: "k1 = (set_q (set_items (Q_READY i) xs (ql_free (k_q k) + 1) (k_q k)) k)\<lparr>k_current := Some p\<rparr>"
  shows "dispatch k = dispatch (parked p k1)"
proof -
  have f: "first_ready k [0..<N_PRIORITIES] = Some i" using i items by (intro first_ready_least) auto
  have m: "mset (ql_items (k_q k) (Q_READY i)) = add_mset (key, p) (mset xs)" by (simp add: items)
  have q: "Q_READY i \<in> set PQ" "Q_READY i \<noteq> Q_PCB_AVAIL" using ready_in_PQ [OF i(1)] by auto
  note D = kinv_dequeue [OF inv q m]
  have r: "runnable (k_q k1) + 1 = runnable (k_q k)"
    using runnable_set_ready [OF i(1), of xs "ql_free (k_q k) + 1" "k_q k"] by (simp add: items k1)
  have inv1: "kinvk {} {} k1"
    using kinv_settle [OF D(1), of p] st by (simp add: k1)
  have p1: "p < N_PCBS" "p \<notin># kelems k1" using D(2,4) by (simp_all add: k1)
  have find: "pcb_find_loop k1 pid is = pcb_find_loop k pid is" for pid "is" by (induction "is") (simp_all add: k1)
  have find': "pcb_find pid k1 = pcb_find pid k" for pid by (simp only: pcb_find_def find)
  have fr: "k_pcbs k1 = k_pcbs k" "k_current k1 = Some p" by (simp_all add: k1)
  have z: "zombify (Some p) k1 = Inr (parked p k1)"
    using par by (intro zombify_parks [where parent = parent] kinv_free [OF inv1]) (simp_all add: fr find')
  obtain k' where k': "zombify_park p k1 = Inr k'" "kinvk {} {} k'" "runnable (k_q k') = runnable (k_q k1)"
    using zombify_park_ok [OF inv1 p1] by blast
  then have "k' = parked p k1" using zombify_park_parked [OF kinv_free [OF inv1]] by simp
  with k' have P: "kinvk {} {} (parked p k1)" "runnable (k_q (parked p k1)) = runnable (k_q k1)" by simp_all
  have "dispatch k = dispatch_loop N_QNODES (parked p k1)"
    using f st z by (simp add: dispatch_def lq_remove_def items current_def k1)
  also have "\<dots> = dispatch (parked p k1)"
    using runnable_le [OF kinvD(1) [OF P(1)]] by (intro dispatch_loop_enough P) (simp add: N_QNODES_def)
  finally show ?thesis .
qed

text \<open>
  A sleeper that was killed is made \<^verbatim>\<open>READY\<close> by the clock like any other sleeper: the mark is
  lost and the process runs on.
\<close>

lemma kill_sleeper_lost:
  assumes inv: "kernel_inv k" and cur: "k_current k \<noteq> Some p"
    and find: "pcb_find (load_pid (k_mem k) (arg_addr ctx 1)) k = Some p"
    and due: "(key, p) \<in> set (ql_items (k_q k) Q_SLEEP)" "key \<le> k_time k + 1"
  shows "\<exists>k1 k2. sys_kill ctx k = Inr k1 \<and> p_state (k_pcbs k1 p) = KILLED \<and>
     wake_loop (N_QNODES + 1) (tick k1) = Inr k2 \<and> p_state (k_pcbs k2 p) = READY"
proof -
  let ?k1 = "upd_pcb p (\<lambda>b. b\<lparr>p_state := KILLED\<rparr>) k"
  have r: "sys_kill ctx k = Inr ?k1" using find cur by (auto simp: sys_kill_def Let_def)
  have inv1: "kernel_inv ?k1"
    using sys_kill_keeps [of k ctx] kill_screens [of k ctx] inv r by (auto simp: kernel_inv_def)
  obtain k2 where "wake_loop (N_QNODES + 1) (tick ?k1) = Inr k2"
    "\<forall>q. k_pcbs k2 q = (if q \<in> snd ` set (due (tick ?k1)) then (k_pcbs ?k1 q)\<lparr>p_state := READY\<rparr> else k_pcbs ?k1 q)"
    by (rule isr_clock_split [OF inv1])
  moreover have "(key, p) \<in> set (due (tick ?k1))"
    using due by (simp add: due_def tick_def upd_pcb_def Let_def)
  then have "p \<in> snd ` set (due (tick ?k1))" by force
  ultimately show ?thesis using r by (intro exI [of _ ?k1] exI [of _ k2]) simp
qed

section \<open>Input\<close>

text \<open>
  Without input the reader joins the queue of readers.  The handler means to mark it as
  blocked, but writes the mark to the field \<^verbatim>\<open>status\<close>: the state stays as it was.
\<close>

lemma sys_readc_blocks:
  assumes inv: "kernel_inv k" and cur: "k_current k = Some c"
    and empty: "sio_readc (k_sio k) = Inr (None, s)"
  shows "\<exists>k'. sys_readc ctx k = dispatch k' \<and> (pid_id (p_pid (k_pcbs k c)), c) \<in> set (ql_items (k_q k') Q_READING) \<and>
     p_status (k_pcbs k' c) = BLOCKED \<and> p_state (k_pcbs k' c) = p_state (k_pcbs k c)"
proof -
  have free: "0 < ql_free (k_q k)" using inv by (auto simp: kernel_inv_def kernel_ok_def dest: kinv_free)
  let ?v = "set_items Q_READING (insert_item (ql_compare (k_q k) Q_READING) (pid_id (p_pid (k_pcbs k c)), c)
      (ql_items (k_q k) Q_READING)) (ql_free (k_q k) - 1) (k_q k)"
  let ?k = "set_q ?v (upd_pcb c (\<lambda>b. b\<lparr>p_status := BLOCKED\<rparr>) (k\<lparr>k_sio := s\<rparr>))"
  have "sys_readc ctx k = dispatch ?k"
    using free by (simp add: sys_readc_def empty current_def cur lq_insert_free Let_def)
  then show ?thesis by (intro exI [of _ ?k]) simp
qed

text \<open>A character that arrives goes to the first reader, whose call returns it.\<close>

lemma sio_receive_reader:
  assumes inv: "kernel_inv k" and items: "ql_items (k_q k) Q_READING = (key, p) # xs"
  shows "\<exists>k'. sio_receive rxd k = Inr k' \<and>
     get_reg (p_context (k_pcbs k p)) CTX_EAX k' = ucast (if rxd = 13 then 10 else rxd :: u8) \<and>
     p_state (k_pcbs k' p) = READY \<and> ql_items (k_q k') Q_READING = xs \<and>
     ql_items (k_q k') (Q_READY (clamp_prio (p_prio (k_pcbs k p)))) =
       ql_items (k_q k) (Q_READY (clamp_prio (p_prio (k_pcbs k p)))) @ [(0, p)] \<and> k_sio k' = k_sio k"
proof -
  let ?v = "set_items Q_READING xs (ql_free (k_q k) + 1) (k_q k)"
  let ?k = "set_eax (p_context (k_pcbs k p)) (ucast (if rxd = 13 then 10 else rxd)) (set_q ?v k)"
  have "sio_receive rxd k = Inr (scheduled p (p_prio (k_pcbs k p)) ?k)"
    using schedule_free [of ?k p] by (simp add: sio_receive_def items lq_remove_def Let_def)
  then show ?thesis
    by (intro exI [of _ "scheduled p (p_prio (k_pcbs k p)) ?k"])
      (simp add: scheduled_def Let_def get_reg_def clamp_prio_def)
qed

section \<open>Calls out of range\<close>

text \<open>A call number outside the table is the exit call.\<close>

lemma isr_syscall_out_of_range:
  assumes "k_current k = Some c" and "p_context (k_pcbs k c) \<noteq> 0"
    and "sint (get_reg (p_context (k_pcbs k c)) CTX_EAX k) < 0 \<or>
         int N_SYSCALLS \<le> sint (get_reg (p_context (k_pcbs k c)) CTX_EAX k)"
    and "k_syscalls k 0 = Some Sys_exit"
  shows "isr_syscall drv k = andThen (sys_exit (p_context (k_pcbs k c)) k) (\<lambda>k1. Inr (k_outb 0x20 0x20 k1))"
  using assms by (simp add: isr_syscall_def Let_def)

section \<open>The stack of a new program\<close>

text \<open>
  The initial stack: the context that the interrupt return restores starts at the entry
  point with interrupts enabled, and the return address of the program is \<^verbatim>\<open>exit\<close>.
\<close>

lemma load32_store32_base:
  "{0, 1, 2, 3} \<inter> {y, y + 1, y + 2, y + 3} = {} \<Longrightarrow> load32 (store32 a v m) (a + y) = load32 m (a + y)"
  using load32_store32_offset [of 0 y a v m] by simp

lemma setup_stack_effect:
  assumes "setup_stack stack entry k = (ctx, k')"
  shows "ctx = stack_ptr k stack + STACK_BYTES - 216"
    and "get_reg ctx CTX_EIP k' = entry" and "get_reg ctx CTX_EFLAGS k' = 0x202"
    and "get_reg ctx CTX_CS k' = 0x10" and "get_reg ctx CTX_DS k' = 0x18"
    and "get_reg ctx CTX_EAX k' = 0"
    and "load32 (k_mem k') (ctx + CONTEXT_SIZE) = mc_exit (k_machine k)"
    and "k_pcbs k' = k_pcbs k" and "k_q k' = k_q k" and "k_current k' = k_current k"
proof -
  let ?mc = "k_machine k"
  have ctx: "ctx = stack_ptr k stack + STACK_BYTES - 216"
    using assms by (auto simp: setup_stack_def Let_def CONTEXT_SIZE_def)
  then show "ctx = stack_ptr k stack + STACK_BYTES - 216" .
  have k': "k_pcbs k' = k_pcbs k" "k_q k' = k_q k" "k_current k' = k_current k"
    using assms by (auto simp: setup_stack_def Let_def)
  then show "k_pcbs k' = k_pcbs k" "k_q k' = k_q k" "k_current k' = k_current k" by auto
  define m1 where "m1 = store32 (ctx + 196) (mc_exit ?mc) (store32 (ctx + 200) 0 (store32 (ctx + 204) 0 (k_mem k)))"
  define m2 where "m2 = memclr ctx CONTEXT_SIZE m1"
  define m3 where "m3 = fold (\<lambda>(r, v). store32 (ctx + r) v)
     [(CTX_CS, 0x10), (CTX_SS, 0x20), (CTX_DS, 0x18), (CTX_ES, 0x18), (CTX_FS, 0x18),
      (CTX_GS, 0x18), (CTX_EIP, entry), (CTX_EFLAGS, 0x202)] m2"
  define m4 where "m4 = store_bytes (ctx + CTX_FPU) 108 (mc_fpu ?mc) m3"
  have m: "k_mem k' = fold (\<lambda>(r, v). store32 (ctx + r) v)
      [(CTX_CR0, mc_cr0 ?mc), (CTX_CR2, mc_cr2 ?mc), (CTX_CR3, mc_cr3 ?mc), (CTX_CR4, mc_cr4 ?mc)] m4"
    using assms unfolding m4_def m3_def m2_def m1_def
    by (auto simp: setup_stack_def Let_def CONTEXT_SIZE_def add.commute)
  have cr: "load32 (k_mem k') (ctx + r) = load32 m4 (ctx + r)" if "r \<in> {CTX_EIP, CTX_EFLAGS, CTX_CS, CTX_DS, CTX_EAX, 196}" for r
    unfolding m using that by (elim insertE) (simp_all add: load32_store32_offset)
  have fpu: "load32 m4 (ctx + r) = load32 m3 (ctx + r)" if r: "r \<in> {CTX_EIP, CTX_EFLAGS, CTX_CS, CTX_DS, CTX_EAX, 196}" for r
  proof (rule load32_cong)
    fix x
    assume "x \<in> {ctx + r, ctx + r + 1, ctx + r + 2, ctx + r + 3}"
    then obtain j where j: "j \<in> {0, 1, 2, 3}" "x = ctx + r + j"
      by (elim insertE emptyE) (auto intro: that [of 0] that [of 1] that [of 2] that [of 3])
    have e: "x - (ctx + CTX_FPU) = r + j - CTX_FPU" by (simp add: j(2))
    have "\<not> in_block (ctx + CTX_FPU) 108 x"
      unfolding in_block_def e using r j(1) by (auto simp: unsigned_minus_1_eq_mask mask_eq_exp_minus_1)
    then show "m4 x = m3 x" by (simp add: m4_def store_bytes_def)
  qed
  have regs: "load32 m3 (ctx + CTX_EIP) = entry" "load32 m3 (ctx + CTX_EFLAGS) = 0x202"
    "load32 m3 (ctx + CTX_CS) = 0x10" "load32 m3 (ctx + CTX_DS) = 0x18"
    "load32 m3 (ctx + CTX_EAX) = load32 m2 (ctx + CTX_EAX)" "load32 m3 (ctx + 196) = load32 m2 (ctx + 196)"
    unfolding m3_def by (simp_all add: load32_store32_offset load32_store32_base)
  have z: "m2 (ctx + 64) = 0" "m2 (ctx + 65) = 0" "m2 (ctx + 66) = 0" "m2 (ctx + 67) = 0"
    by (simp_all add: m2_def memclr_inside in_block_def CONTEXT_SIZE_def)
  have "load32 m2 (ctx + CTX_EAX) = 0" using z by (simp add: load32_def add.assoc)
  moreover have "load32 m2 (ctx + 196) = load32 m1 (ctx + 196)"
    by (rule load32_cong) (auto simp: m2_def in_block_def CONTEXT_SIZE_def add.assoc intro!: memclr_outside)
  moreover have "load32 m1 (ctx + 196) = mc_exit ?mc" by (simp add: m1_def)
  ultimately show "get_reg ctx CTX_EIP k' = entry" "get_reg ctx CTX_EFLAGS k' = 0x202"
    "get_reg ctx CTX_CS k' = 0x10" "get_reg ctx CTX_DS k' = 0x18" "get_reg ctx CTX_EAX k' = 0"
    "load32 (k_mem k') (ctx + CONTEXT_SIZE) = mc_exit (k_machine k)"
    by (simp_all add: get_reg_def cr fpu regs CONTEXT_SIZE_def)
qed

end
