(* ===== verification/Kernel_Samples.thy ===== *)
theory Kernel_Samples
  imports Kernel_Boot Kernel_Calls
begin

text \<open>
  Sample states of the kernel, at which the theorems about the handlers are applied.  A
  sample is given by the contents of the queues and by the blocks; every process in use has
  the stack with its own number.
\<close>

section \<open>States by their queues\<close>

definition sample_queues :: "nat list \<Rightarrow> qitem list \<Rightarrow> qitem list \<Rightarrow> qitem list \<Rightarrow> qitem list \<Rightarrow>
    (nat \<Rightarrow> nat list) \<Rightarrow> qlists" where
  "sample_queues av sl rd wt zb rdy =
     \<lparr>ql_items = (\<lambda>q. if q = Q_PCB_AVAIL \<or> q = Q_STACK_AVAIL then map (Pair 0) av
        else if q = Q_SLEEP then sl else if q = Q_READING then rd else if q = Q_WAITING then wt
        else if q = Q_ZOMBIE then zb else if q < 10 then map (Pair 0) (rdy (q - 6)) else []),
      ql_free = N_QNODES - (2 * length av + length sl + length rd + length wt + length zb +
        (length (rdy 0) + length (rdy 1) + length (rdy 2) + length (rdy 3))),
      ql_compare = ql_compare (boot_queues [] []),
      ql_remover = ql_remover (boot_queues [] [])\<rparr>"

definition sample_kernel :: "nat \<Rightarrow> qlists \<Rightarrow> (nat \<Rightarrow> pcb_t) \<Rightarrow> memory \<Rightarrow> kernel" where
  "sample_kernel c v P m =
     (syscall_init power_on)\<lparr>k_q := v, k_pcbs := P, k_current := Some c, k_mem := m,
       k_screens := screen_init (k_screens power_on), k_sio := sio_init sio_blank\<rparr>"

lemma sample_kernel_simps [simp]:
  "k_q (sample_kernel c v P m) = v" "k_pcbs (sample_kernel c v P m) = P"
  "k_current (sample_kernel c v P m) = Some c" "k_mem (sample_kernel c v P m) = m"
  "k_time (sample_kernel c v P m) = 0" "k_machine (sample_kernel c v P m) = k_machine power_on"
  "k_screens (sample_kernel c v P m) = screen_init (k_screens power_on)"
  "k_syscalls (sample_kernel c v P m) = k_syscalls (syscall_init power_on)"
  "k_sio (sample_kernel c v P m) = sio_init sio_blank" "k_next_pid (sample_kernel c v P m) = pid_clear"
  by (simp_all add: sample_kernel_def syscall_init_def power_on_def)

lemma sample_elems:
  "elems (sample_queues av sl rd wt zb rdy) PQ =
     mset (av @ map snd (sl @ rd @ wt @ zb) @ rdy 0 @ rdy 1 @ rdy 2 @ rdy 3)"
  "elems (sample_queues av sl rd wt zb rdy) [Q_STACK_AVAIL] = mset av"
  by (simp_all add: elems_def PQ_def sample_queues_def comp_def ac_simps del: mset_map)

lemma sample_kernel_inv:
  assumes d: "distinct (c # av @ map snd (sl @ rd @ wt @ zb) @ rdy 0 @ rdy 1 @ rdy 2 @ rdy 3)"
    and b: "\<forall>p \<in> set (c # av @ map snd (sl @ rd @ wt @ zb) @ rdy 0 @ rdy 1 @ rdy 2 @ rdy 3). p < N_PCBS"
    and free: "\<forall>p \<in> set av. p_state (P p) = FREE"
    and ready: "\<forall>i \<in> {0, 1, 2, 3}. \<forall>p \<in> set (rdy i). p_state (P p) = READY \<or> p_state (P p) = KILLED"
    and waiting: "\<forall>p < N_PCBS. p_state (P p) = WAITING \<longrightarrow> (pid_id (p_pid (P p)), p) \<in> set wt"
    and zombie: "\<forall>p < N_PCBS. p_state (P p) = ZOMBIE \<longrightarrow> (pid_id (p_pid (P p)), p) \<in> set zb"
    and stack: "\<forall>p < N_PCBS. p \<notin> set av \<longrightarrow> p_stack (P p) = Some p"
  shows "kernel_inv (sample_kernel c (sample_queues av sl rd wt zb rdy) P m)"
proof -
  let ?v = "sample_queues av sl rd wt zb rdy"
  let ?all = "av @ map snd (sl @ rd @ wt @ zb) @ rdy 0 @ rdy 1 @ rdy 2 @ rdy 3"
  have len: "length ?all \<le> N_PCBS"
  proof -
    have "card (set ?all) \<le> card {..<N_PCBS}" using b by (intro card_mono) auto
    then show ?thesis using d by (simp only: distinct_card distinct.simps) simp
  qed
  then have l2: "length av \<le> N_PCBS" by simp
  have free': "ql_free ?v = N_QNODES - (length ?all + length av)"
    by (simp add: sample_queues_def)
  have nodes: "lq_nodes 10 ?v = N_QNODES"
    unfolding lq_nodes_elems sample_elems free' size_mset
    using len l2 by (simp add: N_QNODES_def N_PCBS_def N_STACKS_def)
  have "wfq ?v"
    unfolding wfq_def sample_elems mset_once_mset nodes
    using d b by (auto simp: sample_queues_def boot_queues_def N_PCBS_def N_STACKS_def)
  moreover have "states_ok {} ?v P"
  proof -
    have q: "qset ?v Q_PCB_AVAIL = set av" "ql_items ?v Q_WAITING = wt" "ql_items ?v Q_ZOMBIE = zb"
      by (simp_all add: qset_def sample_queues_def image_image)
    have r: "qset ?v (Q_READY i) = set (rdy i)" "i \<in> {0, 1, 2, 3}" if "i < N_PRIORITIES" for i
      using that by (auto simp: qset_def sample_queues_def image_image N_PRIORITIES_def)
    show ?thesis
      unfolding states_ok_def q using free ready waiting zombie r by metis
  qed
  moreover have "stacks_ok {} ?v P"
  proof -
    have q: "qset ?v Q_PCB_AVAIL = set av" "qset ?v Q_STACK_AVAIL = set av"
      by (simp_all add: qset_def sample_queues_def image_image)
    have u: "p_stack (P p) = Some p" if "p \<in> {..<N_PCBS} - set av" for p using that stack by auto
    show ?thesis
      unfolding stacks_ok_def used_def q using u by (auto simp: inj_on_def N_PCBS_def N_STACKS_def)
  qed
  moreover have "c < N_PCBS" "c \<notin># elems ?v PQ" unfolding sample_elems using d b by auto
  ultimately have "kernel_ok (sample_kernel c ?v P m)" by (simp add: kernel_ok_def kinv_def)
  moreover have "screen_inv (screen_init (k_screens power_on))"
    unfolding screen_inv_def using screen_init_rep [OF power_on_nodes] by (auto simp: pid_clear_def)
  ultimately show ?thesis by (simp add: kernel_inv_def)
qed

text \<open>A block in use: process \<open>n\<close>, its parent, its state, its priority and its context.\<close>

definition sample_pcb :: "nat \<Rightarrow> u32 \<Rightarrow> u32 \<Rightarrow> u8 \<Rightarrow> u8 \<Rightarrow> pcb_t" where
  "sample_pcb p pid ppid st prio =
     pcb_clear\<lparr>p_stack := Some p, p_pid := pid_clear\<lparr>pid_id := pid\<rparr>, p_ppid := pid_clear\<lparr>pid_id := ppid\<rparr>,
       p_state := st, p_prio := prio, p_context := stack_ptr power_on (Some p) + 0x1000\<rparr>"

lemma sample_pcb_simps [simp]:
  "p_stack (sample_pcb p pid ppid st prio) = Some p" "p_pid (sample_pcb p pid ppid st prio) = pid_clear\<lparr>pid_id := pid\<rparr>"
  "p_ppid (sample_pcb p pid ppid st prio) = pid_clear\<lparr>pid_id := ppid\<rparr>"
  "p_state (sample_pcb p pid ppid st prio) = st" "p_prio (sample_pcb p pid ppid st prio) = prio"
  "p_context (sample_pcb p pid ppid st prio) = stack_ptr power_on (Some p) + 0x1000"
  by (simp_all add: sample_pcb_def)

lemma pcb_clear_state [simp]: "p_state pcb_clear = FREE"
  by (simp add: pcb_clear_def)

lemma N_PCBS_large: "0 < N_PCBS" "Suc 0 < N_PCBS" "2 < N_PCBS"
  by (simp_all add: N_PCBS_def)

text \<open>The first process runs, nobody else is there.\<close>

definition alone :: kernel where
  "alone = sample_kernel 0 (sample_queues [1..<N_PCBS] [] [] [] [] (\<lambda>_. []))
     (\<lambda>p. if p = 0 then sample_pcb 0 1 1 RUNNING 0 else pcb_clear) (\<lambda>_. 0)"

lemma alone_inv: "kernel_inv alone"
  unfolding alone_def by (rule sample_kernel_inv) (auto simp: N_PCBS_large)

text \<open>
  Two processes of priority 1: the first runs, its child (block 1) has the state \<open>st\<close> and is in the
  queue of its state.
\<close>

definition pair_state :: "u8 \<Rightarrow> qitem list \<Rightarrow> qitem list \<Rightarrow> qitem list \<Rightarrow> qitem list \<Rightarrow> nat list \<Rightarrow> memory \<Rightarrow> kernel" where
  "pair_state st sl rd wt zb rdy m =
     sample_kernel 0 (sample_queues [2..<N_PCBS] sl rd wt zb (\<lambda>i. if i = 1 then rdy else []))
       (\<lambda>p. if p = 0 then sample_pcb 0 1 1 RUNNING 1 else if p = 1 then sample_pcb 1 2 1 st 1 else pcb_clear) m"

lemma pair_ready_inv: "kernel_inv (pair_state READY [] [] [] [] [1] m)"
  unfolding pair_state_def by (rule sample_kernel_inv) (auto simp: N_PCBS_large)

lemma pair_sleeping_inv: "kernel_inv (pair_state SLEEPING [(t, 1)] [] [] [] [] m)"
  unfolding pair_state_def by (rule sample_kernel_inv) (auto simp: N_PCBS_large)

lemma pair_reading_inv: "kernel_inv (pair_state RUNNING [] [(2, 1)] [] [] [] m)"
  unfolding pair_state_def by (rule sample_kernel_inv) (auto simp: N_PCBS_large)

lemma pair_zombie_inv: "kernel_inv (pair_state ZOMBIE [] [] [] [(2, 1)] [] m)"
  unfolding pair_state_def by (rule sample_kernel_inv) (auto simp: N_PCBS_large)

text \<open>The child runs, its parent waits or is ready.\<close>

definition child_state :: "u8 \<Rightarrow> qitem list \<Rightarrow> nat list \<Rightarrow> memory \<Rightarrow> kernel" where
  "child_state st wt rdy m =
     sample_kernel 1 (sample_queues [2..<N_PCBS] [] [] wt [] (\<lambda>i. if i = 1 then rdy else []))
       (\<lambda>p. if p = 0 then sample_pcb 0 1 1 st 1 else if p = 1 then sample_pcb 1 2 1 RUNNING 1 else pcb_clear) m"

lemma child_waiting_inv: "kernel_inv (child_state WAITING [(1, 0)] [] m)"
  unfolding child_state_def by (rule sample_kernel_inv) (auto simp: N_PCBS_large)

lemma child_ready_inv: "kernel_inv (child_state READY [] [0] m)"
  unfolding child_state_def by (rule sample_kernel_inv) (auto simp: N_PCBS_large)

lemma sample_fit: "k_machine k = k_machine power_on \<Longrightarrow> stacks_fit k"
  by (simp add: stacks_fit_def power_on_def N_STACKS_def STACK_BYTES_def)

end
