(* ===== verification/Sio_Lemmas.thy ===== *)
theory Sio_Lemmas
  imports Sio
begin

text \<open>
  What the serial module promises: the input buffer is a queue of the characters
  received, the output buffer a queue of the characters still to be sent, and the
  transmitter interrupt is on exactly while a transmission is under way.  The two
  buffers are used in a straight line; the lemmas say where that line ends.
\<close>

section \<open>The input queue\<close>

definition sio_in_chars :: "sio \<Rightarrow> u8 list" where
  "sio_in_chars s = map (sio_inbuffer s) [sio_innext s..<sio_innext s + unat (sio_incount s)]"

definition sio_in_ok :: "sio \<Rightarrow> bool" where
  "sio_in_ok s \<longleftrightarrow> sio_inlast s = sio_innext s + unat (sio_incount s) \<and> sio_inlast s \<le> BUF_SIZE"

lemma u32_pos_iff: "0 < (x :: u32) \<longleftrightarrow> x \<noteq> 0"
  using word_gt_0 [of x] by auto

lemma unat_dec: "(x :: u32) \<noteq> 0 \<Longrightarrow> unat (x - 1) = unat x - 1"
  by (rule unat_minus_one)

lemma unat_inc:
  assumes "unat (x :: u32) < 2 ^ 32 - 1"
  shows "unat (x + 1) = Suc (unat x)"
proof -
  have "unat x + unat (1 :: u32) < 2 ^ LENGTH(32)" using assms by simp
  then show ?thesis by (subst unat_add_lem [THEN iffD1]) auto
qed

lemma u32_lt_1 [simp]: "(x :: u32) < 1 \<longleftrightarrow> x = 0"
  by (simp add: word_less_nat_alt unat_eq_0)

lemma upt_Cons: "0 < n \<Longrightarrow> [k..<k + n] = k # [Suc k..<k + n]"
  by (simp add: upt_conv_Cons)

lemma sio_in_chars_Cons:
  assumes "sio_incount s \<noteq> 0"
  shows "sio_in_chars s = sio_inbuffer s (sio_innext s) #
     map (sio_inbuffer s) [Suc (sio_innext s)..<sio_innext s + unat (sio_incount s)]"
  using assms by (simp add: sio_in_chars_def upt_Cons unat_gt_0 del: upt_Suc)

lemma sio_in_chars_Nil: "sio_in_chars s = [] \<longleftrightarrow> sio_incount s = 0"
  by (auto simp: sio_in_chars_def unat_eq_0)

lemma sio_in_chars_length: "length (sio_in_chars s) = unat (sio_incount s)"
  by (simp add: sio_in_chars_def)

definition sio_in_take :: "sio \<Rightarrow> sio" where
  "sio_in_take s = s\<lparr>sio_innext := sio_innext s + 1, sio_incount := sio_incount s - 1\<rparr>"

lemma sio_in_take:
  assumes "sio_in_ok s" and "sio_incount s \<noteq> 0"
  shows "sio_in_ok (sio_in_take s)" and "sio_in_chars (sio_in_take s) = tl (sio_in_chars s)"
proof -
  have "0 < unat (sio_incount s)" using assms(2) by (simp add: unat_gt_0)
  then show "sio_in_ok (sio_in_take s)" and "sio_in_chars (sio_in_take s) = tl (sio_in_chars s)"
    using assms
    by (auto simp: sio_in_ok_def sio_in_take_def sio_in_chars_Cons)
      (simp_all add: sio_in_chars_def unat_dec)
qed

lemma sio_reset_in_ok:
  assumes "sio_in_ok s"
  shows "sio_in_ok (sio_reset_in s)" and "sio_in_chars (sio_reset_in s) = sio_in_chars s"
  using assms by (auto simp: sio_reset_in_def sio_in_ok_def sio_in_chars_def)

lemma sio_readc_empty: "sio_incount s = 0 \<Longrightarrow> sio_readc s = Inr (None, s)"
  by (simp add: sio_readc_def)

lemma sio_in_ok_inside: "sio_in_ok s \<Longrightarrow> sio_incount s \<noteq> 0 \<Longrightarrow> sio_innext s < BUF_SIZE"
  by (simp add: sio_in_ok_def unat_gt_0 [symmetric])

lemma sio_readc_take:
  assumes "sio_in_ok s" and "sio_in_chars s = c # cs"
  shows "\<exists>s'. sio_readc s = Inr (Some c, s') \<and> sio_in_ok s' \<and> sio_in_chars s' = cs"
proof -
  have ne: "sio_incount s \<noteq> 0" using assms(2) by (metis list.distinct(1) sio_in_chars_Nil)
  have c: "c = sio_inbuffer s (sio_innext s)" using assms(2) sio_in_chars_Cons [OF ne] by simp
  have "sio_readc s = Inr (Some c, sio_reset_in (sio_in_take s))"
    using ne sio_in_ok_inside [OF assms(1) ne]
    by (simp add: sio_readc_def sio_in_take_def c Let_def u32_pos_iff)
  then show ?thesis
    using sio_in_take [OF assms(1) ne] sio_reset_in_ok assms(2) by simp
qed

text \<open>A character received with room in the line is the last of the queue.\<close>

lemma sio_rx_store_room:
  assumes "sio_in_ok s" and "sio_inlast s < BUF_SIZE"
  shows "\<exists>s'. sio_rx_store c s = Inr s' \<and> sio_in_ok s' \<and> sio_in_chars s' = sio_in_chars s @ [c] \<and>
           sio_inlast s' = sio_inlast s + 1 \<and> sio_innext s' = sio_innext s"
proof -
  have small: "unat (sio_incount s) < BUF_SIZE" using assms by (simp add: sio_in_ok_def)
  then have "sio_incount s < of_nat BUF_SIZE"
    by (simp add: word_less_nat_alt BUF_SIZE_def)
  moreover have "unat (sio_incount s + 1) = Suc (unat (sio_incount s))"
    using small by (intro unat_inc) (simp add: BUF_SIZE_def)
  ultimately show ?thesis
    using assms
    by (auto simp: sio_rx_store_def sio_in_ok_def sio_in_chars_def intro!: map_cong)
qed

lemma sio_rx_store_full:
  assumes "of_nat BUF_SIZE \<le> sio_incount s"
  shows "sio_rx_store c s = Inr s"
  using assms by (simp add: sio_rx_store_def not_less [symmetric])

text \<open>
  The line ends at the end of the buffer although there is room in front: after any
  read from a full buffer the next character is written outside it.
\<close>

lemma sio_rx_store_overrun:
  assumes "sio_in_ok s" and "sio_inlast s = BUF_SIZE" and "0 < sio_innext s"
  shows "sio_rx_store c s = Inl (Fault ''_isr_sio: write outside _inbuffer'')"
proof -
  have "unat (sio_incount s) < BUF_SIZE" using assms by (simp add: sio_in_ok_def)
  then have "sio_incount s < of_nat BUF_SIZE"
    by (simp add: word_less_nat_alt BUF_SIZE_def)
  then show ?thesis using assms by (simp add: sio_rx_store_def)
qed

fun sio_rx_all :: "u8 list \<Rightarrow> sio \<Rightarrow> sio outcome" where
  "sio_rx_all [] s = Inr s"
| "sio_rx_all (c # cs) s = andThen (sio_rx_store c s) (sio_rx_all cs)"

lemma sio_rx_all_room:
  "sio_in_ok s \<Longrightarrow> sio_inlast s + length cs \<le> BUF_SIZE \<Longrightarrow>
   \<exists>s'. sio_rx_all cs s = Inr s' \<and> sio_in_ok s' \<and> sio_in_chars s' = sio_in_chars s @ cs \<and>
        sio_inlast s' = sio_inlast s + length cs \<and> sio_innext s' = sio_innext s"
proof (induction cs arbitrary: s)
  case (Cons c cs)
  then obtain s1 where 1: "sio_rx_store c s = Inr s1" "sio_in_ok s1" "sio_in_chars s1 = sio_in_chars s @ [c]"
    "sio_inlast s1 = sio_inlast s + 1" "sio_innext s1 = sio_innext s"
    using sio_rx_store_room [of s c] by auto
  with Cons.prems obtain s2 where "sio_rx_all cs s1 = Inr s2" "sio_in_ok s2"
    "sio_in_chars s2 = sio_in_chars s1 @ cs" "sio_inlast s2 = sio_inlast s1 + length cs"
    "sio_innext s2 = sio_innext s1"
    using Cons.IH [OF 1(2)] by auto
  with 1 show ?case by simp
qed simp

lemma sio_init_in: "sio_in_ok (sio_init s)" "sio_in_chars (sio_init s) = []" "sio_inlast (sio_init s) = 0"
  by (simp_all add: sio_init_def sio_in_ok_def sio_outb_def sio_in_chars_Nil)

text \<open>Reading into a user buffer.\<close>

lemma sio_reads_loop_take:
  "sio_in_ok s \<Longrightarrow>
   \<exists>s'. sio_reads_loop n acc s = Inr (acc @ take n (sio_in_chars s), s') \<and> sio_in_ok s' \<and>
        sio_in_chars s' = drop n (sio_in_chars s)"
proof (induction n arbitrary: acc s)
  case (Suc n)
  show ?case
  proof (cases "sio_incount s = 0")
    case True
    then have "sio_in_chars s = []" by (simp add: sio_in_chars_Nil)
    then show ?thesis using Suc.prems True by simp
  next
    case False
    note inside = sio_in_ok_inside [OF Suc.prems False]
    let ?c = "sio_inbuffer s (sio_innext s)"
    obtain s' where s': "sio_reads_loop n (acc @ [?c]) (sio_in_take s) =
        Inr ((acc @ [?c]) @ take n (tl (sio_in_chars s)), s')" "sio_in_ok s'"
      "sio_in_chars s' = drop n (tl (sio_in_chars s))"
      using Suc.IH [OF sio_in_take(1) [OF Suc.prems False], of "acc @ [?c]"]
      unfolding sio_in_take(2) [OF Suc.prems False] by blast
    have "sio_reads_loop (Suc n) acc s = sio_reads_loop n (acc @ [?c]) (sio_in_take s)"
      using inside False by (simp add: Let_def sio_in_take_def u32_pos_iff)
    then show ?thesis
      using s' sio_in_chars_Cons [OF False] by (cases "sio_in_chars s") auto
  qed
qed simp

lemma sio_reads_take:
  assumes "sio_in_ok s"
  shows "\<exists>s'. sio_reads len s = Inr (take (nat len) (sio_in_chars s), s') \<and> sio_in_ok s' \<and>
           sio_in_chars s' = drop (nat len) (sio_in_chars s)"
proof (cases "sio_incount s = 0")
  case True
  then have "sio_in_chars s = []" by (simp add: sio_in_chars_Nil)
  then show ?thesis using True assms by (simp add: sio_reads_def)
next
  case False
  then show ?thesis
    using sio_reads_loop_take [OF assms, of "nat len" "[]"] sio_reset_in_ok
    by (auto simp: sio_reads_def)
qed

section \<open>The output queue\<close>

definition sio_out_chars :: "sio \<Rightarrow> u8 list" where
  "sio_out_chars s =
     map (\<lambda>i. sio_outbuffer s ((sio_outnext s + i) mod BUF_SIZE)) [0..<unat (sio_outcount s)]"

definition sio_out_ok :: "sio \<Rightarrow> bool" where
  "sio_out_ok s \<longleftrightarrow>
     sio_outnext s < BUF_SIZE \<and> sio_outlast s \<le> BUF_SIZE \<and> unat (sio_outcount s) \<le> BUF_SIZE \<and>
     (sio_outnext s + unat (sio_outcount s)) mod BUF_SIZE = sio_outlast s mod BUF_SIZE \<and>
     (\<not> sio_sending s \<longrightarrow> sio_outcount s = 0) \<and>
     (sio_sending s \<longleftrightarrow> sio_ier s AND UA4_IER_TX_INT_ENABLE \<noteq> 0)"

text \<open>The characters given to the transmitter so far.\<close>

definition sio_sent :: "sio \<Rightarrow> u8 list" where
  "sio_sent s = map snd (filter (\<lambda>(p, v). p = UA4_TXD) (sio_ports s))"

lemma sio_out_store:
  assumes n: "unat (sio_outcount s) < BUF_SIZE" and l: "sio_outlast s < BUF_SIZE"
    and eq: "(sio_outnext s + unat (sio_outcount s)) mod BUF_SIZE = sio_outlast s mod BUF_SIZE"
    and s': "sio_outbuffer s' = (sio_outbuffer s)(sio_outlast s := c)" "sio_outnext s' = sio_outnext s"
      "sio_outcount s' = sio_outcount s + 1"
  shows "sio_out_chars s' = sio_out_chars s @ [c]"
proof -
  let ?n = "unat (sio_outcount s)"
  have cnt: "unat (sio_outcount s + 1) = Suc ?n"
    using n by (intro unat_inc) (simp add: BUF_SIZE_def)
  have at: "(sio_outnext s + ?n) mod BUF_SIZE = sio_outlast s" using eq l by simp
  have "(sio_outnext s + i) mod BUF_SIZE \<noteq> sio_outlast s" if "i < ?n" for i
  proof
    assume "(sio_outnext s + i) mod BUF_SIZE = sio_outlast s"
    then have "(sio_outnext s + i) mod BUF_SIZE = (sio_outnext s + ?n) mod BUF_SIZE" using at by simp
    then have "BUF_SIZE dvd ?n - i"
      using that mod_eq_dvd_iff_nat [of "sio_outnext s + i" "sio_outnext s + ?n" BUF_SIZE] by simp
    moreover have "0 < ?n - i" and "?n - i < BUF_SIZE" using that n by simp_all
    ultimately show False using nat_dvd_not_less by blast
  qed
  then show ?thesis
    using s' at by (auto simp: sio_out_chars_def cnt intro!: map_cong)
qed

lemma sio_sent_outb [simp]:
  "sio_sent (sio_outb p v s) = sio_sent s @ (if p = UA4_TXD then [v] else [])"
  by (simp add: sio_sent_def sio_outb_def)

lemma sio_outb_frame [simp]:
  "sio_outbuffer (sio_outb p v s) = sio_outbuffer s" "sio_outnext (sio_outb p v s) = sio_outnext s"
  "sio_outlast (sio_outb p v s) = sio_outlast s" "sio_outcount (sio_outb p v s) = sio_outcount s"
  "sio_sending (sio_outb p v s) = sio_sending s" "sio_ier (sio_outb p v s) = sio_ier s"
  "sio_out_chars (sio_outb p v s) = sio_out_chars s"
  by (simp_all add: sio_outb_def sio_out_chars_def)

lemma sio_set_ier_frame [simp]:
  "sio_outbuffer (sio_set_ier v s) = sio_outbuffer s" "sio_outnext (sio_set_ier v s) = sio_outnext s"
  "sio_outlast (sio_set_ier v s) = sio_outlast s" "sio_outcount (sio_set_ier v s) = sio_outcount s"
  "sio_sending (sio_set_ier v s) = sio_sending s" "sio_ier (sio_set_ier v s) = v"
  "sio_sent (sio_set_ier v s) = sio_sent s"
  by (simp_all add: sio_set_ier_def) (simp add: sio_sent_def)

lemma ier_tx_on: "(ier OR UA4_IER_TX_INT_ENABLE) AND UA4_IER_TX_INT_ENABLE \<noteq> 0"
proof -
  have "bit ((ier OR 2) AND 2 :: u8) 1" by (simp add: bit_simps)
  then show ?thesis by (metis bit_0_eq bot_apply bot_bool_def)
qed

lemma ier_tx_off: "(ier AND NOT UA4_IER_TX_INT_ENABLE) AND UA4_IER_TX_INT_ENABLE = 0"
  by (rule bit_word_eqI) (auto simp: bit_simps)

text \<open>Writing a character adds it to what is sent or queued, and loses none.\<close>

lemma sio_put_queue:
  assumes ok: "sio_out_ok s" and room: "sio_outlast s < BUF_SIZE" "unat (sio_outcount s) < BUF_SIZE"
  shows "\<exists>s'. sio_put ch s = Inr s' \<and> sio_out_ok s' \<and> sio_sending s' \<and>
           sio_sent s' @ sio_out_chars s' = sio_sent s @ sio_out_chars s @ [ucast ch] \<and>
           sio_outlast s' \<le> sio_outlast s + 1"
proof (cases "sio_sending s")
  case True
  let ?s = "s\<lparr>sio_outbuffer := (sio_outbuffer s)(sio_outlast s := ucast ch),
              sio_outlast := sio_outlast s + 1, sio_outcount := sio_outcount s + 1\<rparr>"
  have cnt: "unat (sio_outcount s + 1) = Suc (unat (sio_outcount s))"
    using room by (intro unat_inc) (simp add: BUF_SIZE_def)
  have eq: "(sio_outnext s + unat (sio_outcount s)) mod BUF_SIZE = sio_outlast s mod BUF_SIZE"
    using ok by (simp add: sio_out_ok_def)
  have "sio_out_chars ?s = sio_out_chars s @ [ucast ch]"
    by (rule sio_out_store [OF room(2,1) eq]) simp_all
  moreover have "(sio_outnext s + Suc (unat (sio_outcount s))) mod BUF_SIZE = Suc (sio_outlast s) mod BUF_SIZE"
    using eq by (metis add_Suc_right mod_Suc_eq)
  then have "sio_out_ok ?s" using ok room cnt True by (auto simp: sio_out_ok_def)
  moreover have "sio_sent ?s = sio_sent s" by (simp add: sio_sent_def)
  ultimately show ?thesis using True room by (simp add: sio_put_def)
next
  case False
  then have "sio_outcount s = 0" using ok by (simp add: sio_out_ok_def)
  then show ?thesis
    using False ok ier_tx_on
    by (simp add: sio_put_def sio_enable_def sio_out_ok_def sio_out_chars_def)
      (simp add: sio_sent_def)
qed

text \<open>An interrupt of the transmitter sends the head of the queue, or ends the transmission.\<close>

lemma sio_tx_next_queue:
  assumes ok: "sio_out_ok s"
  shows "\<exists>s'. sio_tx_next s = Inr s' \<and> sio_out_ok s' \<and>
           sio_sent s' @ sio_out_chars s' = sio_sent s @ sio_out_chars s \<and>
           (if sio_out_chars s = [] then \<not> sio_sending s' else sio_sending s' \<and>
              length (sio_out_chars s') < length (sio_out_chars s))"
proof (cases "sio_outcount s = 0")
  case True
  then show ?thesis
    using ok ier_tx_off
    by (simp add: sio_tx_next_def sio_disable_def sio_out_ok_def sio_out_chars_def BUF_SIZE_def)
      (simp add: sio_sent_def)
next
  case False
  let ?n = "unat (sio_outcount s)"
  have sending: "sio_sending s" and inside: "sio_outnext s < BUF_SIZE"
    using ok False by (auto simp: sio_out_ok_def)
  have n: "0 < ?n" and dec: "unat (sio_outcount s - 1) = ?n - 1"
    using False by (simp_all add: unat_gt_0 unat_dec)
  let ?nx = "if sio_outnext s + 1 \<ge> BUF_SIZE then 0 else sio_outnext s + 1"
  have nx: "?nx = (sio_outnext s + 1) mod BUF_SIZE" using inside by (auto simp: mod_if)
  let ?s = "(sio_outb UA4_TXD (sio_outbuffer s (sio_outnext s)) s)\<lparr>sio_outnext := ?nx,
      sio_outcount := sio_outcount s - 1\<rparr>"
  have "[0..<?n] = 0 # map Suc [0..<?n - 1]"
    using n by (metis One_nat_def Suc_pred map_Suc_upt upt_conv_Cons)
  then have chars: "sio_out_chars s = sio_outbuffer s (sio_outnext s) #
      map (\<lambda>i. sio_outbuffer s ((sio_outnext s + Suc i) mod BUF_SIZE)) [0..<?n - 1]"
    using inside by (simp add: sio_out_chars_def)
  have chars': "sio_out_chars ?s =
      map (\<lambda>i. sio_outbuffer s ((sio_outnext s + Suc i) mod BUF_SIZE)) [0..<?n - 1]"
    unfolding nx by (simp add: sio_out_chars_def dec mod_add_left_eq)
  have "sio_tx_next s = Inr ?s"
    using sending inside False by (simp add: sio_tx_next_def u32_pos_iff Let_def)
  moreover have "(?nx + (?n - 1)) mod BUF_SIZE = (sio_outnext s + ?n) mod BUF_SIZE"
    unfolding nx mod_add_left_eq using n by (simp add: add.assoc)
  then have "sio_out_ok ?s"
    using ok inside dec sending by (auto simp: sio_out_ok_def)
  moreover have "sio_sent ?s = sio_sent s @ [sio_outbuffer s (sio_outnext s)]"
    using sio_sent_outb [of UA4_TXD "sio_outbuffer s (sio_outnext s)" s]
    by (simp add: sio_sent_def)
  ultimately show ?thesis
    using chars chars' sending by simp
qed

end
