(* ===== verification/Module_Properties.thy ===== *)
theory Module_Properties
  imports Kernel_Samples Sio_Lemmas
begin

text \<open>
  The properties of the modules below the scheduler: the queues, the serial buffers, the
  screens, the process identifiers and the routines on bytes.
\<close>

section \<open>Queues\<close>

text \<open>C13 The queue module keeps its contract: any sequence of operations on the linked queues
  and their pool of nodes ends without a fault, gives the results that the lists of the contract
  give, and leaves a well-formed heap that represents the resulting lists.\<close>

theorem queue_code_refines_lists:
  assumes "q_wf s"
  shows "\<exists>rs s'. run_ops q_step ps s = Inr (rs, s') \<and> q_wf s' \<and> lq_run ps (q_view s) = (rs, q_view s') \<and>
     ((\<forall>p \<in> set ps. op_queue p < n) \<longrightarrow> lq_nodes n (q_view s') = lq_nodes n (q_view s))"
proof -
  obtain rs s' where "run_ops q_step ps s = Inr (rs, s')" "q_wf s'" "lq_run ps (q_view s) = (rs, q_view s')"
    using pointer_queues.run_refines [OF assms] by blast
  then show ?thesis using pointer_queues.run_nodes [OF assms] by blast
qed

definition queue_sample :: qsys where
  "queue_sample =
     \<lparr>qnodes = \<lambda>_. \<lparr>qn_key = 0, qn_data = 0, qn_prev = None, qn_next = None\<rparr>, qnode_avail = None,
      queues = \<lambda>_. \<lparr>q_compare = Some Compare_uint_asc, q_remover = None, q_length = 0, q_head = None, q_tail = None\<rparr>\<rparr>"

lemma queue_sample_wf: "q_wf (q_init queue_sample)" "ql_items (q_view (q_init queue_sample)) q = []"
  "ql_free (q_view (q_init queue_sample)) = N_QNODES"
proof -
  have "q_blank queue_sample" by (simp add: q_blank_def queue_sample_def)
  then show "q_wf (q_init queue_sample)" "ql_items (q_view (q_init queue_sample)) q = []"
    "ql_free (q_view (q_init queue_sample)) = N_QNODES" by (rule q_init_refines)+
qed

theorem queue_code_refines_lists_witness:
  "\<exists>rs s'. run_ops q_step [Insert 3 7 20, Insert 3 8 10, Remove 3, Remove 4] (q_init queue_sample) = Inr (rs, s') \<and> q_wf s'"
  using queue_code_refines_lists [OF queue_sample_wf(1)] by blast

text \<open>An ordered queue: items inserted into an empty queue come out by increasing key, those
  with equal keys in the order of arrival, and the queue state is what it was before.\<close>

theorem queue_inserts_sort:
  assumes "q_wf s" and "ql_items (q_view s) q = []" and "length xs \<le> ql_free (q_view s)"
    and "ql_compare (q_view s) q = Some Compare_uint_asc"
  shows "\<exists>s'. run_ops q_step (map (\<lambda>(k, d). Insert q d k) xs @ replicate (length xs) (Remove q)) s =
     Inr (replicate (length xs) (E_SUCCESS, None) @ map (\<lambda>x. (E_SUCCESS, Some (snd x))) (sort_key fst xs), s') \<and>
     q_wf s' \<and> q_view s' = q_view s"
  by (rule pointer_queues.run_sorted [OF assms])

theorem queue_inserts_sort_witness:
  "\<exists>s'. run_ops q_step [Insert 3 7 20, Insert 3 8 10, Insert 3 9 20, Remove 3, Remove 3, Remove 3] (q_init queue_sample) =
     Inr ([(E_SUCCESS, None), (E_SUCCESS, None), (E_SUCCESS, None), (E_SUCCESS, Some 8), (E_SUCCESS, Some 7),
       (E_SUCCESS, Some 9)], s')"
proof -
  have c: "ql_compare (q_view (q_init queue_sample)) 3 = Some Compare_uint_asc"
  proof -
    have "queues (fold (\<lambda>i t. (upd_node i (qn_next_update (\<lambda>_. qnode_avail t)) t)\<lparr>qnode_avail := Some i\<rparr>) is s) = queues s"
      for "is" s by (induction "is" arbitrary: s) simp_all
    then show ?thesis by (simp add: q_view_def q_init_def queue_sample_def)
  qed
  have l: "length [(20, 7), (10, 8), (20, 9)] \<le> ql_free (q_view (q_init queue_sample))"
    unfolding queue_sample_wf by (simp add: N_QNODES_def)
  have s: "sort_key fst [(20 :: u32, 7 :: nat), (10, 8), (20, 9)] = [(10, 8), (20, 7), (20, 9)]" by simp
  from queue_inserts_sort [OF queue_sample_wf(1,2) l c] show ?thesis unfolding s by auto
qed

section \<open>The serial line\<close>





text \<open>The writes and the transmitter interrupts, in the order in which they happen.\<close>

datatype out_event = Put u32 | Transmitted

fun out_step :: "out_event \<Rightarrow> sio \<Rightarrow> sio outcome" where
  "out_step (Put ch) s = sio_put ch s"
| "out_step Transmitted s = sio_tx_next s"

fun out_events :: "out_event list \<Rightarrow> sio \<Rightarrow> sio outcome" where
  "out_events [] s = Inr s"
| "out_events (e # es) s = andThen (out_step e s) (out_events es)"

fun written :: "out_event list \<Rightarrow> u8 list" where
  "written [] = []"
| "written (Put ch # es) = ucast ch # written es"
| "written (Transmitted # es) = written es"

lemma sio_put_bounds:
  assumes "sio_put ch s = Inr s'"
  shows "unat (sio_outcount s') \<le> unat (sio_outcount s) + 1"
  using assms unat_plus_if_size [of "sio_outcount s" 1]
  by (auto simp: sio_put_def sio_enable_def split: if_splits)

lemma sio_tx_next_bounds:
  assumes "sio_tx_next s = Inr s'"
  shows "unat (sio_outcount s') \<le> unat (sio_outcount s)" and "sio_outlast s' \<le> sio_outlast s"
  using assms by (auto simp: sio_tx_next_def sio_disable_def Let_def unat_dec u32_pos_iff split: if_splits)

lemma out_events_order:
  "sio_out_ok s \<Longrightarrow> sio_outlast s + length (written es) \<le> BUF_SIZE \<Longrightarrow>
   unat (sio_outcount s) + length (written es) \<le> BUF_SIZE \<Longrightarrow>
   \<exists>s'. out_events es s = Inr s' \<and> sio_out_ok s' \<and>
     sio_sent s' @ sio_out_chars s' = sio_sent s @ sio_out_chars s @ written es"
proof (induction es arbitrary: s)
  case (Cons e es)
  show ?case
  proof (cases e)
    case (Put ch)
    obtain s1 where 1: "sio_put ch s = Inr s1" "sio_out_ok s1"
      "sio_sent s1 @ sio_out_chars s1 = sio_sent s @ sio_out_chars s @ [ucast ch]" "sio_outlast s1 \<le> sio_outlast s + 1"
      using sio_put_queue [OF Cons.prems(1), of ch] Cons.prems(2,3) Put by auto
    obtain s2 where "out_events es s1 = Inr s2" "sio_out_ok s2"
      "sio_sent s2 @ sio_out_chars s2 = (sio_sent s1 @ sio_out_chars s1) @ written es"
      using Cons.IH [OF 1(2)] 1(4) sio_put_bounds [OF 1(1)] Cons.prems(2,3) Put by auto
    then show ?thesis using 1 Put by simp
  next
    case Transmitted
    obtain s1 where 1: "sio_tx_next s = Inr s1" "sio_out_ok s1"
      "sio_sent s1 @ sio_out_chars s1 = sio_sent s @ sio_out_chars s"
      using sio_tx_next_queue [OF Cons.prems(1)] by blast
    obtain s2 where "out_events es s1 = Inr s2" "sio_out_ok s2"
      "sio_sent s2 @ sio_out_chars s2 = (sio_sent s1 @ sio_out_chars s1) @ written es"
      using Cons.IH [OF 1(2)] sio_tx_next_bounds [OF 1(1)] Cons.prems(2,3) Transmitted by auto
    then show ?thesis using 1 Transmitted by simp
  qed
qed simp

text \<open>Output: characters are sent in the order in which they are written.  Whatever the order of
  writes and transmitter interrupts, the characters sent followed by those still queued are the
  characters written, as long as no more are written than the buffer holds; the transmitter
  interrupt is on exactly while characters are being sent.\<close>

theorem serial_output_order:
  assumes "sio_out_ok s" and "sio_outlast s + length (written es) \<le> BUF_SIZE"
    and "unat (sio_outcount s) + length (written es) \<le> BUF_SIZE"
  shows "\<exists>s'. out_events es s = Inr s' \<and>
     sio_sent s' @ sio_out_chars s' = sio_sent s @ sio_out_chars s @ written es \<and>
     (sio_sending s' \<longleftrightarrow> sio_ier s' AND UA4_IER_TX_INT_ENABLE \<noteq> 0)"
  using out_events_order [OF assms] by (auto simp: sio_out_ok_def)

theorem serial_output_order_witness:
  "\<exists>s'. out_events [Put 104, Put 105, Transmitted, Put 33, Transmitted] (sio_init sio_blank) = Inr s' \<and>
     sio_sent s' @ sio_out_chars s' = sio_sent (sio_init sio_blank) @ [104, 105, 33]"
proof -
  have ok: "sio_out_ok (sio_init sio_blank)" "sio_out_chars (sio_init sio_blank) = []"
    by (simp_all add: sio_init_def sio_out_ok_def sio_outb_def sio_out_chars_def BUF_SIZE_def)
  have b: "sio_outlast (sio_init sio_blank) + length (written [Put 104, Put 105, Transmitted, Put 33, Transmitted]) \<le> BUF_SIZE"
    "unat (sio_outcount (sio_init sio_blank)) + length (written [Put 104, Put 105, Transmitted, Put 33, Transmitted]) \<le> BUF_SIZE"
    by (simp_all add: sio_init_def sio_outb_def BUF_SIZE_def)
  show ?thesis using serial_output_order [OF ok(1) b] ok(2) by auto
qed

section \<open>Screens\<close>

text \<open>The pool of screens: opening takes the first unused screen, clears its ring buffers' owner
  data and makes it active; closing an active screen makes it the last of the unused ones; when no
  screen is unused, the result is the status \<^verbatim>\<open>E_EMPTY\<close>, which is the positive number 2.\<close>

theorem screen_pool:
  assumes "screens_rep s U A"
  shows "(case U of
      [] \<Rightarrow> \<exists>s'. screen_dequeue s = Inr (2, s') \<and> screens_rep s' U A \<and> screen_tab s' = screen_tab s
    | n # U' \<Rightarrow> \<exists>s'. screen_dequeue s = Inr (of_nat n, s') \<and> screens_rep s' U' (A @ [n]) \<and>
             screen_tab s' = (screen_tab s)(n := clear_screen (screen_tab s n))) \<and>
    (\<forall>i \<in> set A. \<exists>s'. screen_enqueue (of_nat i) s = Inr (E_SUCCESS, s') \<and>
       screens_rep s' (U @ [i]) (remove1 i A) \<and> screen_tab s' = screen_tab s)"
proof -
  have "case U of
      [] \<Rightarrow> \<exists>s'. screen_dequeue s = Inr (2, s') \<and> screens_rep s' U A \<and> screen_tab s' = screen_tab s
    | n # U' \<Rightarrow> \<exists>s'. screen_dequeue s = Inr (of_nat n, s') \<and> screens_rep s' U' (A @ [n]) \<and>
             screen_tab s' = (screen_tab s)(n := clear_screen (screen_tab s n))"
    using screen_dequeue_rep [OF assms] by (cases U) auto
  then show ?thesis using screen_enqueue_rep [OF assms] by blast
qed

theorem screen_pool_witness:
  "\<exists>s'. screen_dequeue (screen_init screens_blank) = Inr (0, s') \<and> screens_rep s' [1..<NUM_SCREENS] [0]"
proof -
  have "screens_rep (screen_init screens_blank) (0 # [1..<NUM_SCREENS]) []"
    using screen_init_rep(1) [of screens_blank] by (simp add: screens_blank_def upt_conv_Cons NUM_SCREENS_def)
  from screen_pool [OF this] show ?thesis by auto
qed

text \<open>When all screens are in use, the call that opens a screen does not fail: it hands out screen
  2, whose owner it replaces by the caller.\<close>

theorem open_screen_hijack:
  assumes "screens_rep (k_screens k) [] A" and "k_current k = Some c"
  shows "\<exists>k'. sys_openscreen ctx k = Inr k' \<and> get_reg ctx CTX_EAX k' = 2 \<and>
     scr_owner (screen_tab (k_screens k') 2) = p_pid (k_pcbs k c) \<and>
     scr_fb (screen_tab (k_screens k') 2) = scr_fb (screen_tab (k_screens k) 2)"
proof -
  obtain s' where s': "screen_dequeue (k_screens k) = Inr (E_EMPTY, s')" "screen_tab s' = screen_tab (k_screens k)"
    using screen_dequeue_rep [OF assms(1)] by auto
  have "0 \<le> sint (2 :: handle_t)" by simp
  then show ?thesis
    using s' assms(2) by (simp add: sys_openscreen_def current_def open_screen_def get_reg_def)
qed

lemma screens_exhaust: "screens_rep s U A \<Longrightarrow> \<exists>s'. screens_rep s' [] (A @ U)"
proof (induction U arbitrary: s A)
  case (Cons n U)
  obtain s' where "screens_rep s' U (A @ [n])" using screen_dequeue_rep [OF Cons.prems] by auto
  from Cons.IH [OF this] show ?case by simp
qed auto

theorem open_screen_hijack_witness:
  "\<exists>k k'. screens_rep (k_screens k) [] [0..<NUM_SCREENS] \<and> sys_openscreen 0 k = Inr k' \<and>
     get_reg 0 CTX_EAX k' = 2 \<and> pid_id (scr_owner (screen_tab (k_screens k') 2)) = 1"
proof -
  have "screens_rep (screen_init screens_blank) [0..<NUM_SCREENS] []"
    by (rule screen_init_rep(1)) (simp add: screens_blank_def)
  then obtain s where s: "screens_rep s [] [0..<NUM_SCREENS]" using screens_exhaust by fastforce
  let ?k = "alone\<lparr>k_screens := s\<rparr>"
  have "k_current ?k = Some 0" "p_pid (k_pcbs ?k 0) = pid_clear\<lparr>pid_id := 1\<rparr>" "k_screens ?k = s"
    by (simp_all add: alone_def)
  moreover from this s open_screen_hijack [of ?k "[0..<NUM_SCREENS]" 0 0]
  obtain k' where "sys_openscreen 0 ?k = Inr k'" "get_reg 0 CTX_EAX k' = 2"
    "scr_owner (screen_tab (k_screens k') 2) = pid_clear\<lparr>pid_id := 1\<rparr>" by auto
  ultimately show ?thesis using s by (intro exI [of _ ?k] exI [of _ k']) simp
qed

section \<open>Identifiers and bytes\<close>

text \<open>A process identifier that is stored to memory is read back unchanged, whatever its
  address, and two identifiers compare as equal exactly when host and number agree.\<close>

theorem pid_memory_roundtrip:
  "load_pid (store_pid a p m) a = p \<and> (pid_cmp p q = 0 \<longleftrightarrow> pid_host p = pid_host q \<and> pid_id p = pid_id q)"
  by simp

text \<open>The table of known hosts: the name of each address and the address of each name are found,
  and an address is known exactly when it has a name.\<close>

theorem host_table_roundtrip:
  "(\<forall>(mac, name) \<in> set dsl_hosts. hosts_get_hostname mac = Some name \<and> hosts_get_address name = Some mac) \<and>
   (\<forall>mac. hosts_isknown mac \<longleftrightarrow> mac \<in> fst ` set dsl_hosts)"
proof -
  have "hosts_isknown mac \<longleftrightarrow> mac \<in> fst ` set dsl_hosts" for mac
  proof
    assume "hosts_isknown mac"
    then obtain h where "hosts_scan (mac_matches mac) dsl_hosts = Some h" by (auto simp: hosts_isknown_def)
    then have "h \<in> set dsl_hosts \<and> mac_matches mac h"
      unfolding hosts_scan_find by (metis find_Some_iff nth_mem)
    then show "mac \<in> fst ` set dsl_hosts" by (auto simp: mac_matches_def memcmp_zero mac_bytes_eq)
  next
    assume "mac \<in> fst ` set dsl_hosts"
    then obtain name where "(mac, name) \<in> set dsl_hosts" by auto
    from hosts_roundtrip(1) [OF this] show "hosts_isknown mac" by (simp add: hosts_known_hostname)
  qed
  then show ?thesis using hosts_roundtrip by blast
qed

theorem host_table_roundtrip_witness:
  "hosts_get_address ''moriarty'' = Some (mac_of [0x00, 0x90, 0x27, 0xbb, 0xda, 0xc0])"
  using host_table_roundtrip by (simp add: dsl_hosts_def)

lemma c_string_shift:
  "c_string m b s \<Longrightarrow> (\<And>j. j \<le> length s \<Longrightarrow> m' (a + of_nat j) = m (b + of_nat j)) \<Longrightarrow> c_string m' a s"
proof (induction s arbitrary: a b)
  case Nil
  then show ?case using Nil.prems(2) [of 0] by simp
next
  case (Cons c s)
  have "m' (a + 1 + of_nat j) = m (b + 1 + of_nat j)" if "j \<le> length s" for j
    using Cons.prems(2) [of "Suc j"] that by (simp add: add.assoc)
  then have "c_string m' (a + 1) s" using Cons.prems(1) by (intro Cons.IH) auto
  then show ?case using Cons.prems(1) Cons.prems(2) [of 0] by simp
qed

lemma c_string_copied:
  assumes "c_string m src s" and "length s < 2 ^ 32 - 1" and "disjoint_blocks dst src (Suc (length s))"
  shows "c_string (memcpy_loop (Suc (length s)) dst src m) dst s"
proof (rule c_string_shift [OF assms(1)])
  fix j
  assume j: "j \<le> length s"
  have "unat (of_nat j :: u32) = j" using j assms(2) by (intro unat_of_nat_u32) simp
  then have "in_block dst (Suc (length s)) (dst + of_nat j)" using j by (simp add: in_block_def)
  moreover have "src + (dst + of_nat j - dst) = src + of_nat j" by simp
  ultimately show "memcpy_loop (Suc (length s)) dst src m (dst + of_nat j) = m (src + of_nat j)"
    using memcpy_loop_eq [OF _ assms(3), of m] assms(2) by simp
qed

text \<open>The byte routines of the two C libraries agree: the indexed copy of \<^verbatim>\<open>ulibc\<close> is the pointer
  copy of \<^verbatim>\<open>klibc\<close>, overlapping blocks included, and \<^verbatim>\<open>u_strcpy\<close> of a string that ends
  terminates and copies the string with its end.\<close>

theorem copies_agree:
  assumes "0 \<le> sz" and "sz < 2 ^ 32" and "c_string m src s" and "length s < 2 ^ 32 - 1"
    and "disjoint_blocks dst src (Suc (length s))"
  shows "u_memcpy dst src sz m = k_memcpy dst src (of_int sz) m \<and>
     (\<exists>m'. u_strcpy dst src m = Some m' \<and> c_string m' dst s)"
proof -
  have "u_strcpy dst src m = Some (memcpy_loop (Suc (length s)) dst src m)"
    using strcpy_loop_memcpy [of m src 0 s dst] assms(3-5) by (simp add: u_strcpy_def)
  moreover have "c_string (memcpy_loop (Suc (length s)) dst src m) dst s"
    by (rule c_string_copied [OF assms(3-5)])
  ultimately show ?thesis using u_memcpy_eq_k_memcpy [OF assms(1,2)] by blast
qed

theorem copies_agree_witness:
  "u_memcpy 0x2000 0x1000 3 ((\<lambda>_. 0)(0x1000 := 104, 0x1001 := 105)) =
     k_memcpy 0x2000 0x1000 3 ((\<lambda>_. 0)(0x1000 := 104, 0x1001 := 105)) \<and>
   (\<exists>m'. u_strcpy 0x2000 0x1000 ((\<lambda>_. 0)(0x1000 := 104, 0x1001 := 105)) = Some m' \<and> c_string m' 0x2000 [104, 105])"
proof -
  let ?m = "(\<lambda>_. 0)(0x1000 := 104, 0x1001 := 105) :: memory"
  have s: "c_string ?m 0x1000 [104, 105]" by simp
  have d: "disjoint_blocks 0x2000 0x1000 (Suc (length [104, 105 :: u8]))"
  proof -
    have "unat (x - 0x1000) < 3 \<Longrightarrow> unat (x - 0x2000) < 3 \<Longrightarrow> False" for x :: u32
    proof -
      assume a: "unat (x - 0x1000) < 3" and b: "unat (x - 0x2000) < 3"
      have "unat (x - 0x2000 + of_nat 0x1000) = unat (x - 0x2000) + 0x1000"
        using b by (intro unat_add_small) simp
      then show False using a by simp
    qed
    then show ?thesis by (auto simp: disjoint_blocks_def in_block_def numeral_3_eq_3)
  qed
  from copies_agree [OF _ _ s _ d, of 3] show ?thesis by simp
qed

end
