(* ===== verification/Disk.thy ===== *)
theory Disk
  imports Prelude
begin

text \<open>
  Byte buffers and the sectors of a disk, as the file system of
  \<^verbatim>\<open>drivers/fat64/fat64.c\<close> uses them: a buffer is a function from offsets to bytes,
  a disk a function from sector numbers to the 512 bytes of the sector.  The fields of
  the structures that the code lays over a buffer are read and written at their
  offsets, the machine being little-endian.  \<^verbatim>\<open>ide_read\<close> and \<^verbatim>\<open>ide_write\<close>, system
  calls into the IDE driver, copy one sector; the theory \<open>Ide_Disk\<close> shows that the
  driver's register protocol does that.
\<close>

type_synonym bytes = "nat \<Rightarrow> u8"

type_synonym disk = "u32 \<Rightarrow> bytes"

section \<open>Fields of a buffer\<close>

definition get32 :: "bytes \<Rightarrow> nat \<Rightarrow> u32" where
  "get32 b a =
     ucast (b a) OR push_bit 8 (ucast (b (a + 1))) OR push_bit 16 (ucast (b (a + 2))) OR
     push_bit 24 (ucast (b (a + 3)))"

definition put32 :: "nat \<Rightarrow> u32 \<Rightarrow> bytes \<Rightarrow> bytes" where
  "put32 a v b =
     b(a := ucast v, a + 1 := ucast (drop_bit 8 v), a + 2 := ucast (drop_bit 16 v),
       a + 3 := ucast (drop_bit 24 v))"

definition get64 :: "bytes \<Rightarrow> nat \<Rightarrow> u64" where
  "get64 b a = ucast (get32 b a) OR push_bit 32 (ucast (get32 b (a + 4)))"

definition put64 :: "nat \<Rightarrow> u64 \<Rightarrow> bytes \<Rightarrow> bytes" where
  "put64 a v b = put32 (a + 4) (ucast (drop_bit 32 v)) (put32 a (ucast v) b)"

lemma get32_cong: "(\<And>i. i < 4 \<Longrightarrow> b (a + i) = b' (a' + i)) \<Longrightarrow> get32 b a = get32 b' a'"
proof -
  assume *: "\<And>i. i < 4 \<Longrightarrow> b (a + i) = b' (a' + i)"
  show ?thesis using * [of 0] * [of 1] * [of 2] * [of 3] by (simp add: get32_def)
qed

lemma get64_cong: "(\<And>i. i < 8 \<Longrightarrow> b (a + i) = b' (a' + i)) \<Longrightarrow> get64 b a = get64 b' a'"
proof -
  assume *: "\<And>i. i < 8 \<Longrightarrow> b (a + i) = b' (a' + i)"
  have "get32 b a = get32 b' a'" by (rule get32_cong) (simp add: *)
  moreover have "get32 b (a + 4) = get32 b' (a' + 4)"
    by (rule get32_cong) (use * in \<open>simp add: add.assoc\<close>)
  ultimately show ?thesis by (simp add: get64_def)
qed

lemma put32_other: "x < a \<or> a + 4 \<le> x \<Longrightarrow> put32 a v b x = b x"
  by (auto simp: put32_def)

lemma put64_other: "x < a \<or> a + 8 \<le> x \<Longrightarrow> put64 a v b x = b x"
  by (auto simp: put64_def put32_other)

lemma get32_put32 [simp]: "get32 (put32 a v b) a = v"
  unfolding get32_def put32_def
  by (rule bit_word_eqI, rename_tac n, case_tac "n < 16"; case_tac "n < 24") (auto simp: bit_simps)

lemma get32_put32_other: "a' + 4 \<le> a \<or> a + 4 \<le> a' \<Longrightarrow> get32 (put32 a v b) a' = get32 b a'"
  by (rule get32_cong) (auto simp: put32_other)

lemma get64_put64 [simp]: "get64 (put64 a v b) a = v"
proof -
  have "get32 (put64 a v b) a = ucast v" by (simp add: put64_def get32_put32_other)
  moreover have "get32 (put64 a v b) (a + 4) = ucast (drop_bit 32 v)" by (simp add: put64_def)
  ultimately show ?thesis
    unfolding get64_def by (simp, intro bit_word_eqI) (auto simp: bit_simps)
qed

lemma get64_put64_other: "a' + 8 \<le> a \<or> a + 8 \<le> a' \<Longrightarrow> get64 (put64 a v b) a' = get64 b a'"
  by (rule get64_cong) (auto simp: put64_other)

lemma get64_put32_other: "a' + 8 \<le> a \<or> a + 4 \<le> a' \<Longrightarrow> get64 (put32 a v b) a' = get64 b a'"
  by (rule get64_cong) (auto simp: put32_other)

lemma get32_put64_other: "a' + 4 \<le> a \<or> a + 8 \<le> a' \<Longrightarrow> get32 (put64 a v b) a' = get32 b a'"
  by (rule get32_cong) (auto simp: put64_other)

lemmas get_put_other = get32_put32_other get64_put64_other get64_put32_other get32_put64_other

text \<open>\<open>blit a n s b\<close>: the \<open>n\<close> bytes of \<open>s\<close> copied to offset \<open>a\<close> of \<open>b\<close>.\<close>

definition blit :: "nat \<Rightarrow> nat \<Rightarrow> bytes \<Rightarrow> bytes \<Rightarrow> bytes" where
  "blit a n s b = (\<lambda>x. if a \<le> x \<and> x < a + n then s (x - a) else b x)"

lemma blit_in [simp]: "i < n \<Longrightarrow> blit a n s b (a + i) = s i"
  by (simp add: blit_def)

lemma blit_out: "x < a \<or> a + n \<le> x \<Longrightarrow> blit a n s b x = b x"
  by (auto simp: blit_def)

section \<open>Sectors\<close>

definition SECTOR_SIZE :: nat where
  "SECTOR_SIZE = 512"

text \<open>One sector is read to offset \<open>a\<close> of a buffer, or written from there.\<close>

definition ide_read :: "u32 \<Rightarrow> nat \<Rightarrow> disk \<Rightarrow> bytes \<Rightarrow> bytes" where
  "ide_read sector a d b = blit a SECTOR_SIZE (d sector) b"

definition ide_write :: "u32 \<Rightarrow> nat \<Rightarrow> bytes \<Rightarrow> disk \<Rightarrow> disk" where
  "ide_write sector a b d = d(sector := blit 0 SECTOR_SIZE (\<lambda>i. b (a + i)) (d sector))"

lemma ide_write_other [simp]: "s' \<noteq> s \<Longrightarrow> ide_write s a b d s' = d s'"
  by (simp add: ide_write_def)

lemma ide_write_same: "i < SECTOR_SIZE \<Longrightarrow> ide_write s a b d s i = b (a + i)"
  by (simp add: ide_write_def blit_def)

lemma ide_read_in: "i < SECTOR_SIZE \<Longrightarrow> ide_read s a d b (a + i) = d s i"
  by (simp add: ide_read_def)

lemma ide_write_offset: "ide_write s a b d = ide_write s 0 (\<lambda>j. b (a + j)) d"
  by (simp add: ide_write_def)

section \<open>The interface to the file system\<close>

text \<open>
  What the file system relies on: a written sector is read back, and no other sector
  changes.  Its clusters are runs of sectors with different numbers.
\<close>

locale sector_store =
  fixes rd :: "u32 \<Rightarrow> 'd \<Rightarrow> bytes"
    and wr :: "u32 \<Rightarrow> bytes \<Rightarrow> 'd \<Rightarrow> 'd"
  assumes rd_wr_same: "j < SECTOR_SIZE \<Longrightarrow> rd s (wr s b d) j = b j"
    and rd_wr_other: "s' \<noteq> s \<Longrightarrow> rd s' (wr s b d) = rd s' d"
begin

lemma run_other:
  assumes "\<And>i. i < n \<Longrightarrow> s \<noteq> f i"
  shows "rd s (fold (\<lambda>i. wr (f i) (g i)) [0..<n] d) = rd s d"
  using assms by (induction n) (simp_all add: rd_wr_other)

lemma run_same:
  assumes "i < n" and "inj_on f {..<n}" and "j < SECTOR_SIZE"
  shows "rd (f i) (fold (\<lambda>i. wr (f i) (g i)) [0..<n] d) j = g i j"
  using assms(1,2)
proof (induction n)
  case (Suc n)
  have inj: "inj_on f {..<n}" by (rule inj_on_subset [OF Suc.prems(2)]) auto
  show ?case
  proof (cases "i = n")
    case False
    then have "f i \<noteq> f n" using Suc.prems by (auto simp: inj_on_def)
    then show ?thesis using Suc.IH [OF _ inj] Suc.prems(1) False by (simp add: rd_wr_other)
  qed (simp add: rd_wr_same assms(3))
qed simp

end

interpretation disk_sectors: sector_store "\<lambda>s d. d s" "\<lambda>s b d. ide_write s 0 b d"
  by unfold_locales (simp_all add: ide_write_same)

end
