(* ===== verification/Fat64.thy ===== *)
theory Fat64
  imports Disk
begin

text \<open>
  The file system of \<^verbatim>\<open>drivers/fat64/fat64.c\<close>: cluster tags, directory entries, file
  handles and the operations on them, over a disk of sectors.

  A handle is a pointer to a \<^verbatim>\<open>fat64_file_t\<close> of the caller; here the structure itself is
  passed and returned.  The directory and the file of \<^verbatim>\<open>fat64_dir_entry\<close> are different
  handles.  The global \<^verbatim>\<open>fat64_partition\<close> is the argument \<open>part\<close>.  An access outside
  the buffer of a handle is a fault.
\<close>

section \<open>Data\<close>

abbreviation FAT64_CLUSTER_SIZE :: nat where
  "FAT64_CLUSTER_SIZE \<equiv> 4096"

abbreviation FAT64_CLUSTER_TAG_EOF :: u64 where
  "FAT64_CLUSTER_TAG_EOF \<equiv> 0xFFFFFFFF"

abbreviation FAT64_CLUSTER_TAG_FREE :: u64 where
  "FAT64_CLUSTER_TAG_FREE \<equiv> 0"

abbreviation FAT64_VALID_FLAG :: u32 where
  "FAT64_VALID_FLAG \<equiv> 1"

abbreviation FAT64_DIRECTORY_FLAG :: u32 where
  "FAT64_DIRECTORY_FLAG \<equiv> 2"

abbreviation FAT64_EOF :: u32 where
  "FAT64_EOF \<equiv> 0xFFFFFFFF"

abbreviation FAT64_BAD_HANDLE :: status_t where
  "FAT64_BAD_HANDLE \<equiv> 2"

record fat64_partition_t =
  root_dir :: u64
  cluster_tags :: u64
  part_size :: u64
  cluster_size :: u64
  partition_location :: u64

record fat64_cluster_tags_t =
  tag_prev :: u64
  tag_next :: u64

record fat64_dir_entry_t =
  de_name :: bytes
  de_file :: u64
  de_parent :: u64
  de_size :: u64
  de_created :: u64
  de_accessed :: u64
  de_modified :: u64
  de_flags :: u32
  de_num :: u32
  de_unused :: bytes

record fat64_file_t =
  f_entry :: fat64_dir_entry_t
  f_tags :: fat64_cluster_tags_t
  f_cluster :: u64
  f_abs :: u64
  f_loc :: u32
  f_buf :: bytes
  f_dirty :: bool

text \<open>A handle after \<^verbatim>\<open>memset(f, 0, sizeof(fat64_file_t))\<close>.\<close>

definition zero_entry :: fat64_dir_entry_t where
  "zero_entry =
     \<lparr>de_name = \<lambda>_. 0, de_file = 0, de_parent = 0, de_size = 0, de_created = 0, de_accessed = 0,
      de_modified = 0, de_flags = 0, de_num = 0, de_unused = \<lambda>_. 0\<rparr>"

definition zero_file :: fat64_file_t where
  "zero_file =
     \<lparr>f_entry = zero_entry, f_tags = \<lparr>tag_prev = 0, tag_next = 0\<rparr>, f_cluster = 0, f_abs = 0,
      f_loc = 0, f_buf = \<lambda>_. 0, f_dirty = False\<rparr>"

text \<open>A directory entry in the 512 bytes at an offset of a buffer, and its bytes.\<close>

definition get_entry :: "bytes \<Rightarrow> nat \<Rightarrow> fat64_dir_entry_t" where
  "get_entry b a =
     \<lparr>de_name = (\<lambda>j. if j < 256 then b (a + j) else 0),
      de_file = get64 b (a + 256), de_parent = get64 b (a + 264), de_size = get64 b (a + 272),
      de_created = get64 b (a + 280), de_accessed = get64 b (a + 288), de_modified = get64 b (a + 296),
      de_flags = get32 b (a + 304), de_num = get32 b (a + 308),
      de_unused = (\<lambda>j. if j < 200 then b (a + 312 + j) else 0)\<rparr>"

definition entry_bytes :: "fat64_dir_entry_t \<Rightarrow> bytes" where
  "entry_bytes e =
     put32 308 (de_num e) (put32 304 (de_flags e) (put64 296 (de_modified e) (put64 288 (de_accessed e)
       (put64 280 (de_created e) (put64 272 (de_size e) (put64 264 (de_parent e) (put64 256 (de_file e)
         (\<lambda>j. if j < 256 then de_name e j else if 312 \<le> j then de_unused e (j - 312) else 0))))))))"

section \<open>Sectors of clusters and of cluster tags\<close>

text \<open>
  The sums are formed in 64 bits, except \<^verbatim>\<open>(uint32_t)cluster / tags_per_sector\<close>, and
  truncated to the 32 bits of a sector number.
\<close>

definition tag_sector :: "fat64_partition_t \<Rightarrow> u64 \<Rightarrow> u32" where
  "tag_sector part c =
     ucast (ucast ((ucast c :: u32) div 32) + cluster_tags part * 8 + partition_location part)"

definition which_tag :: "u64 \<Rightarrow> nat" where
  "which_tag c = unat ((ucast c :: u32) mod 32)"

definition get_tag :: "bytes \<Rightarrow> nat \<Rightarrow> fat64_cluster_tags_t" where
  "get_tag b i = \<lparr>tag_prev = get64 b (16 * i), tag_next = get64 b (16 * i + 8)\<rparr>"

definition put_tag :: "nat \<Rightarrow> fat64_cluster_tags_t \<Rightarrow> bytes \<Rightarrow> bytes" where
  "put_tag i t b = put64 (16 * i + 8) (tag_next t) (put64 (16 * i) (tag_prev t) b)"

definition cluster_sector :: "fat64_partition_t \<Rightarrow> u64 \<Rightarrow> nat \<Rightarrow> u32" where
  "cluster_sector part c i = ucast (8 * c + of_nat i + partition_location part)"

section \<open>Helper functions\<close>

definition load_cluster :: "fat64_partition_t \<Rightarrow> disk \<Rightarrow> fat64_file_t \<Rightarrow> fat64_file_t" where
  "load_cluster part d f =
     f\<lparr>f_buf := fold (\<lambda>i b. ide_read (cluster_sector part (f_cluster f) i) (SECTOR_SIZE * i) d b) [0..<8] (f_buf f)\<rparr>"

definition save_cluster :: "fat64_partition_t \<Rightarrow> fat64_file_t \<Rightarrow> disk \<Rightarrow> fat64_file_t \<times> disk" where
  "save_cluster part f d =
     (if \<not> f_dirty f then (f, d)
      else (f\<lparr>f_dirty := False\<rparr>,
        fold (\<lambda>i d. ide_write (cluster_sector part (f_cluster f) i) (SECTOR_SIZE * i) (f_buf f) d) [0..<8] d))"

definition load_cluster_tags :: "fat64_partition_t \<Rightarrow> disk \<Rightarrow> fat64_file_t \<Rightarrow> fat64_file_t" where
  "load_cluster_tags part d f =
     (let buf = ide_read (tag_sector part (f_cluster f)) 0 d (\<lambda>_. 0)
      in f\<lparr>f_tags := get_tag buf (which_tag (f_cluster f))\<rparr>)"

definition save_cluster_tags :: "fat64_partition_t \<Rightarrow> fat64_file_t \<Rightarrow> disk \<Rightarrow> disk" where
  "save_cluster_tags part f d =
     (let buf = ide_read (tag_sector part (f_cluster f)) 0 d (\<lambda>_. 0);
          buf' = put_tag (which_tag (f_cluster f)) (f_tags f) buf
      in ide_write (tag_sector part (f_cluster f)) 0 buf' d)"

definition mark_cluster :: "fat64_partition_t \<Rightarrow> u64 \<Rightarrow> u64 \<Rightarrow> u64 \<Rightarrow> disk \<Rightarrow> disk" where
  "mark_cluster part c prev next d =
     (let buf = ide_read (tag_sector part c) 0 d (\<lambda>_. 0);
          buf' = put_tag (which_tag c) \<lparr>tag_prev = prev, tag_next = next\<rparr> buf
      in ide_write (tag_sector part c) 0 buf' d)"

definition open_cluster :: "fat64_partition_t \<Rightarrow> disk \<Rightarrow> fat64_file_t \<Rightarrow> fat64_file_t" where
  "open_cluster part d f = load_cluster_tags part d (load_cluster part d f)"

text \<open>
  The search of \<^verbatim>\<open>get_free_cluster\<close>: \<open>buf\<close> holds the sector of tags that was read at
  the last multiple of 32.
\<close>

function free_scan :: "fat64_partition_t \<Rightarrow> disk \<Rightarrow> u64 \<Rightarrow> bytes \<Rightarrow> u64" where
  "free_scan part d c buf =
     (if c < part_size part then
        let buf' = (if which_tag c = 0 then ide_read (tag_sector part c) 0 d buf else buf);
            t = get_tag buf' (which_tag c)
        in if tag_prev t = FAT64_CLUSTER_TAG_FREE \<and> tag_next t = FAT64_CLUSTER_TAG_FREE then c
           else free_scan part d (c + 1) buf'
      else c)"
  by auto
termination
proof (relation "measure (\<lambda>(part, d, c, buf). unat (part_size part) - unat c)", goal_cases)
  case (2 part d c buf buf' t)
  then have lt: "unat c < unat (part_size part)" by (simp add: word_less_nat_alt)
  moreover have "unat (c + 1) = unat c + 1"
  proof -
    have "1 + c \<noteq> 0"
    proof
      assume "1 + c = 0"
      then have "c = - 1" by (simp add: eq_neg_iff_add_eq_0 add.commute)
      with 2 show False by simp
    qed
    then show ?thesis by (simp add: unatSuc add.commute)
  qed
  ultimately show ?case by simp
qed simp

declare free_scan.simps [simp del]

definition get_free_cluster :: "fat64_partition_t \<Rightarrow> u64 \<Rightarrow> u64 \<Rightarrow> disk \<Rightarrow> u64 \<times> disk" where
  "get_free_cluster part prev next d =
     (let c = free_scan part d 0 (\<lambda>_. 0)
      in if part_size part \<le> c then (FAT64_CLUSTER_TAG_EOF, d)
         else (c, mark_cluster part c prev next d))"

text \<open>
  Both directory entry functions work on a local handle of which only the cluster is set;
  \<^verbatim>\<open>open_cluster\<close> fills its buffer and tags, and nothing else of it is used.
\<close>

definition open_parent :: "fat64_partition_t \<Rightarrow> disk \<Rightarrow> fat64_file_t \<Rightarrow> fat64_file_t" where
  "open_parent part d f = open_cluster part d (zero_file\<lparr>f_cluster := de_parent (f_entry f)\<rparr>)"

definition load_dir_entry :: "fat64_partition_t \<Rightarrow> disk \<Rightarrow> fat64_file_t \<Rightarrow> fat64_file_t outcome" where
  "load_dir_entry part d f =
     (let dir = open_parent part d f; n = unat (de_num (f_entry f))
      in if 8 \<le> n then Inl (Fault ''load_dir_entry: entry outside the buffer'')
         else Inr (f\<lparr>f_entry := get_entry (f_buf dir) (512 * n)\<rparr>))"

definition save_dir_entry :: "fat64_partition_t \<Rightarrow> fat64_file_t \<Rightarrow> disk \<Rightarrow> disk outcome" where
  "save_dir_entry part f d =
     (let dir = open_parent part d f; n = unat (de_num (f_entry f))
      in if 8 \<le> n then Inl (Fault ''save_dir_entry: entry outside the buffer'')
         else Inr (snd (save_cluster part
           (dir\<lparr>f_buf := blit (512 * n) 512 (entry_bytes (f_entry f)) (f_buf dir), f_dirty := True\<rparr>) d)))"

fun free_entry_scan :: "bytes \<Rightarrow> nat \<Rightarrow> nat \<Rightarrow> nat" where
  "free_entry_scan b i 0 = i"
| "free_entry_scan b i (Suc n) =
     (if de_flags (get_entry b (512 * i)) AND FAT64_VALID_FLAG = 0 then i else free_entry_scan b (i + 1) n)"

definition get_free_dir_entry :: "fat64_file_t \<Rightarrow> u64" where
  "get_free_dir_entry dir =
     (let i = free_entry_scan (f_buf dir) 0 8 in if i = 8 then ucast FAT64_EOF else of_nat i)"

definition open_root :: "fat64_partition_t \<Rightarrow> disk \<Rightarrow> fat64_file_t" where
  "open_root part d =
     open_cluster part d (zero_file\<lparr>f_entry := zero_entry\<lparr>de_name := (\<lambda>_. 0)(0 := 0x2F),
       de_file := root_dir part, de_parent := root_dir part, de_size := of_nat FAT64_CLUSTER_SIZE,
       de_flags := FAT64_VALID_FLAG OR FAT64_DIRECTORY_FLAG\<rparr>, f_cluster := root_dir part\<rparr>)"

section \<open>Operations on handles\<close>

text \<open>\<^verbatim>\<open>fat64_open\<close> ignores the path and opens the root directory.\<close>

definition fat64_open :: "fat64_partition_t \<Rightarrow> disk \<Rightarrow> status_t \<times> fat64_file_t" where
  "fat64_open part d = (E_SUCCESS, open_root part d)"

definition fat64_reopen :: "fat64_partition_t \<Rightarrow> disk \<Rightarrow> fat64_file_t \<Rightarrow> fat64_file_t" where
  "fat64_reopen part d f = load_cluster part d f"

definition fat64_close :: "fat64_partition_t \<Rightarrow> fat64_file_t \<Rightarrow> disk \<Rightarrow> status_t \<times> fat64_file_t \<times> disk" where
  "fat64_close part f d = (case save_cluster part f d of (f', d') \<Rightarrow> (E_SUCCESS, zero_file, d'))"

definition fat64_flush :: "fat64_partition_t \<Rightarrow> fat64_file_t \<Rightarrow> disk \<Rightarrow> fat64_file_t \<times> disk" where
  "fat64_flush part f d = save_cluster part f d"

definition fat64_is_directory :: "fat64_file_t \<Rightarrow> status_t \<times> u8 option" where
  "fat64_is_directory f =
     (if f_cluster f = 0 then (FAT64_BAD_HANDLE, None)
      else (E_SUCCESS, Some (if de_flags (f_entry f) AND FAT64_DIRECTORY_FLAG \<noteq> 0 then 1 else 0)))"

text \<open>
  The byte that \<^verbatim>\<open>fat64_getc\<close> stores is \<open>None\<close> when it stores none.  At the end of the
  last cluster the code compares \<^verbatim>\<open>f->location == FAT64_EOF\<close> and discards the result, so
  the location stays behind the buffer.
\<close>

definition fat64_getc ::
  "fat64_partition_t \<Rightarrow> fat64_file_t \<Rightarrow> disk \<Rightarrow> (status_t \<times> u8 option \<times> fat64_file_t \<times> disk) outcome" where
  "fat64_getc part f d =
     (if f_cluster f = 0 then Inr (FAT64_BAD_HANDLE, None, f, d)
      else if f_loc f = FAT64_EOF then Inr (FAT64_EOF, None, f, d)
      else if FAT64_CLUSTER_SIZE \<le> unat (f_loc f) then Inl (Fault ''fat64_getc: read outside the buffer'')
      else
        let ch = f_buf f (unat (f_loc f));
            f1 = f\<lparr>f_loc := f_loc f + 1, f_abs := f_abs f + 1\<rparr>
        in if f_loc f1 = of_nat FAT64_CLUSTER_SIZE then
             (case save_cluster part f1 d of
                (f2, d2) \<Rightarrow>
                  if tag_next (f_tags f2) \<noteq> FAT64_CLUSTER_TAG_EOF then
                    Inr (E_SUCCESS, Some ch,
                      (open_cluster part d2 (f2\<lparr>f_cluster := tag_next (f_tags f2)\<rparr>))\<lparr>f_loc := 0\<rparr>, d2)
                  else Inr (E_SUCCESS, Some ch, f2, d2))
           else Inr (E_SUCCESS, Some ch, f1, d))"

text \<open>The part of \<^verbatim>\<open>fat64_putc\<close> after the end-of-file handling.\<close>

definition putc_store ::
  "fat64_partition_t \<Rightarrow> u8 \<Rightarrow> fat64_file_t \<Rightarrow> disk \<Rightarrow> (status_t \<times> fat64_file_t \<times> disk) outcome" where
  "putc_store part data f d =
     (if FAT64_CLUSTER_SIZE \<le> unat (f_loc f) then Inl (Fault ''fat64_putc: write outside the buffer'')
      else
        let f1 = f\<lparr>f_buf := (f_buf f)(unat (f_loc f) := data), f_loc := f_loc f + 1,
                   f_abs := f_abs f + 1, f_dirty := True\<rparr>;
            f2 = (if de_size (f_entry f1) < f_abs f1
                  then f1\<lparr>f_entry := (f_entry f1)\<lparr>de_size := de_size (f_entry f1) + 1\<rparr>\<rparr> else f1)
        in andThen (if de_size (f_entry f1) < f_abs f1 then save_dir_entry part f2 d else Inr d) (\<lambda>d2.
           if f_loc f2 = of_nat FAT64_CLUSTER_SIZE then
             (case save_cluster part f2 d2 of
                (f3, d3) \<Rightarrow>
                  if tag_next (f_tags f3) \<noteq> FAT64_CLUSTER_TAG_EOF then
                    Inr (E_SUCCESS,
                      (open_cluster part d3 (f3\<lparr>f_cluster := tag_next (f_tags f3)\<rparr>))\<lparr>f_loc := 0\<rparr>, d3)
                  else Inr (E_SUCCESS, f3\<lparr>f_loc := FAT64_EOF\<rparr>, d3))
           else Inr (E_SUCCESS, f2, d2)))"

definition fat64_putc ::
  "fat64_partition_t \<Rightarrow> u8 \<Rightarrow> fat64_file_t \<Rightarrow> disk \<Rightarrow> (status_t \<times> fat64_file_t \<times> disk) outcome" where
  "fat64_putc part data f d =
     (if f_cluster f = 0 then Inr (FAT64_BAD_HANDLE, f, d)
      else if f_loc f = FAT64_EOF then
        if de_flags (f_entry f) AND FAT64_DIRECTORY_FLAG \<noteq> 0 then Inr (FAT64_EOF, f, d)
        else
          case get_free_cluster part (f_cluster f) FAT64_CLUSTER_TAG_EOF d of
            (new, d1) \<Rightarrow>
              if new = FAT64_CLUSTER_TAG_EOF then Inr (FAT64_EOF, f, d1)
              else
                let f1 = f\<lparr>f_tags := (f_tags f)\<lparr>tag_next := new\<rparr>\<rparr>;
                    d2 = save_cluster_tags part f1 d1
                in case save_cluster part f1 d2 of
                     (f2, d3) \<Rightarrow>
                       putc_store part data
                         ((open_cluster part d3 (f2\<lparr>f_cluster := tag_next (f_tags f2)\<rparr>))\<lparr>f_loc := 0\<rparr>) d3
      else putc_store part data f d)"

text \<open>
  The loops of \<^verbatim>\<open>fat64_read\<close> and \<^verbatim>\<open>fat64_write\<close>: a 32-bit index counts to a 64-bit amount,
  so they are partial; the user's buffer is indexed by the index.
\<close>

partial_function (option) read_loop ::
  "fat64_partition_t \<Rightarrow> u64 \<Rightarrow> u32 \<Rightarrow> (u32 \<Rightarrow> u8) \<Rightarrow> fat64_file_t \<Rightarrow> disk \<Rightarrow>
   (status_t \<times> (u32 \<Rightarrow> u8) \<times> fat64_file_t \<times> disk) outcome option" where
  "read_loop part amount i buf f d =
     (if ucast i < amount then
        case fat64_getc part f d of
          Inl e \<Rightarrow> Some (Inl e)
        | Inr (stat, ch, f', d') \<Rightarrow>
            let buf' = (case ch of None \<Rightarrow> buf | Some c \<Rightarrow> buf(i := c))
            in if stat \<noteq> 0 then Some (Inr (stat, buf', f', d'))
               else read_loop part amount (i + 1) buf' f' d'
      else Some (Inr (E_SUCCESS, buf, f, d)))"

definition fat64_read ::
  "fat64_partition_t \<Rightarrow> u64 \<Rightarrow> (u32 \<Rightarrow> u8) \<Rightarrow> fat64_file_t \<Rightarrow> disk \<Rightarrow>
   (status_t \<times> (u32 \<Rightarrow> u8) \<times> fat64_file_t \<times> disk) outcome option" where
  "fat64_read part amount buf f d = read_loop part amount 0 buf f d"

partial_function (option) write_loop ::
  "fat64_partition_t \<Rightarrow> u64 \<Rightarrow> u32 \<Rightarrow> (u32 \<Rightarrow> u8) \<Rightarrow> fat64_file_t \<Rightarrow> disk \<Rightarrow>
   (status_t \<times> fat64_file_t \<times> disk) outcome option" where
  "write_loop part amount i buf f d =
     (if ucast i < amount then
        case fat64_putc part (buf i) f d of
          Inl e \<Rightarrow> Some (Inl e)
        | Inr (stat, f', d') \<Rightarrow>
            if stat \<noteq> 0 then Some (Inr (stat, f', d'))
            else write_loop part amount (i + 1) buf f' d'
      else Some (Inr (E_SUCCESS, f, d)))"

definition fat64_write ::
  "fat64_partition_t \<Rightarrow> u64 \<Rightarrow> (u32 \<Rightarrow> u8) \<Rightarrow> fat64_file_t \<Rightarrow> disk \<Rightarrow>
   (status_t \<times> fat64_file_t \<times> disk) outcome option" where
  "fat64_write part amount buf f d = write_loop part amount 0 buf f d"

text \<open>\<^verbatim>\<open>fat64_rm\<close> frees the clusters that it meets on the way from the first one.\<close>

partial_function (option) rm_loop ::
  "fat64_partition_t \<Rightarrow> fat64_file_t \<Rightarrow> disk \<Rightarrow> (fat64_file_t \<times> disk) option" where
  "rm_loop part f d =
     (if f_cluster f \<noteq> FAT64_CLUSTER_TAG_EOF then
        let d' = mark_cluster part (f_cluster f) FAT64_CLUSTER_TAG_FREE FAT64_CLUSTER_TAG_FREE d
        in rm_loop part (load_cluster_tags part d' (f\<lparr>f_cluster := tag_next (f_tags f)\<rparr>)) d'
      else Some (f, d))"

definition fat64_rm ::
  "fat64_partition_t \<Rightarrow> fat64_file_t \<Rightarrow> disk \<Rightarrow> (status_t \<times> fat64_file_t \<times> disk) outcome option" where
  "fat64_rm part f d =
     (if f_cluster f = 0 then Some (Inr (FAT64_BAD_HANDLE, f, d))
      else
        let f1 = f\<lparr>f_entry := (f_entry f)\<lparr>de_flags := 0\<rparr>\<rparr>
        in case save_dir_entry part f1 d of
             Inl e \<Rightarrow> Some (Inl e)
           | Inr d1 \<Rightarrow>
               (case rm_loop part (f1\<lparr>f_cluster := de_file (f_entry f1)\<rparr>) d1 of
                  None \<Rightarrow> None
                | Some (f2, d2) \<Rightarrow> Some (Inr (E_SUCCESS, f2, d2))))"

section \<open>Directories\<close>

text \<open>Index 8 passes the test \<^verbatim>\<open>index > 8\<close> and names an entry behind the buffer.\<close>

definition fat64_dir_entry ::
  "fat64_partition_t \<Rightarrow> fat64_file_t \<Rightarrow> u64 \<Rightarrow> fat64_file_t \<Rightarrow> disk \<Rightarrow>
   (status_t \<times> fat64_file_t \<times> fat64_file_t) outcome" where
  "fat64_dir_entry part dir index f d =
     (let dir' = load_cluster part d dir
      in if 8 < index then Inr (FAT64_EOF, dir', f)
         else if index = 8 then Inl (Fault ''fat64_dir_entry: entry outside the buffer'')
         else
           let e = get_entry (f_buf dir') (512 * unat index)
           in if de_flags e AND FAT64_VALID_FLAG = 0 then Inr (FAT64_EOF, dir', f)
              else Inr (E_SUCCESS, dir',
                open_cluster part d (zero_file\<lparr>f_entry := e, f_cluster := de_file e\<rparr>)))"

text \<open>
  \<^verbatim>\<open>strcpy(f.entry.name, name)\<close> for a name given by its characters; the terminating
  zero must fit as well.
\<close>

definition set_name :: "u8 list \<Rightarrow> fat64_dir_entry_t \<Rightarrow> fat64_dir_entry_t outcome" where
  "set_name name e =
     (if 256 \<le> length name then Inl (Fault ''strcpy: name too long'')
      else Inr (e\<lparr>de_name := (\<lambda>j. if j < length name then name ! j
                              else if j = length name then 0 else de_name e j)\<rparr>))"

text \<open>
  In \<^verbatim>\<open>fat64_touch\<close> and \<^verbatim>\<open>fat64_mkdir\<close> the test \<^verbatim>\<open>d == FAT64_EOF\<close> compares the pointer,
  not the entry number, and is false for a handle; so it does not appear.  The entry
  number is chosen from the buffer before \<^verbatim>\<open>fat64_touch\<close> reloads it.
\<close>

definition fat64_touch ::
  "fat64_partition_t \<Rightarrow> fat64_file_t \<Rightarrow> u8 list \<Rightarrow> disk \<Rightarrow> (status_t \<times> fat64_file_t \<times> disk) outcome" where
  "fat64_touch part dir name d =
     (let entry_num = get_free_dir_entry dir;
          dir' = load_cluster part d dir
      in case get_free_cluster part FAT64_CLUSTER_TAG_EOF FAT64_CLUSTER_TAG_EOF d of
           (c, d1) \<Rightarrow>
             andThen (set_name name zero_entry) (\<lambda>e.
               andThen (save_dir_entry part (zero_file\<lparr>f_cluster := c, f_entry :=
                   e\<lparr>de_file := c, de_parent := de_file (f_entry dir'), de_size := 0,
                     de_flags := FAT64_VALID_FLAG, de_num := ucast entry_num\<rparr>\<rparr>) d1) (\<lambda>d2.
                 Inr (E_SUCCESS, dir', d2))))"

definition fat64_mkdir ::
  "fat64_partition_t \<Rightarrow> fat64_file_t \<Rightarrow> u8 list \<Rightarrow> disk \<Rightarrow> (status_t \<times> disk) outcome" where
  "fat64_mkdir part dir name d =
     (let entry_num = get_free_dir_entry dir
      in case get_free_cluster part FAT64_CLUSTER_TAG_EOF FAT64_CLUSTER_TAG_EOF d of
           (c, d1) \<Rightarrow>
             andThen (set_name name zero_entry) (\<lambda>e.
               let f = zero_file\<lparr>f_cluster := c, f_dirty := True, f_entry :=
                   e\<lparr>de_file := c, de_parent := de_file (f_entry dir), de_size := of_nat FAT64_CLUSTER_SIZE,
                     de_flags := FAT64_VALID_FLAG OR FAT64_DIRECTORY_FLAG, de_num := ucast entry_num\<rparr>\<rparr>
               in andThen (save_dir_entry part f d1) (\<lambda>d2.
                    Inr (E_SUCCESS, snd (save_cluster part f d2)))))"

end
