(* ===== verification/Fat64_Layout.thy ===== *)
theory Fat64_Layout
  imports Fat64
begin

text \<open>
  The disk of a partition seen as cluster tags and clusters of data: which sectors hold
  them, and what the helper functions of the file system do to this view.
\<close>

section \<open>The layout of a partition\<close>

text \<open>
  The superblock, then the table of cluster tags (256 tags in a cluster), then the data
  clusters; all sector numbers fit in 32 bits.
\<close>

definition first_data :: "fat64_partition_t \<Rightarrow> nat" where
  "first_data part = unat (cluster_tags part) + (unat (part_size part) + 255) div 256"

definition layout_ok :: "fat64_partition_t \<Rightarrow> bool" where
  "layout_ok part \<longleftrightarrow>
     8 * unat (part_size part) + unat (partition_location part) < 2 ^ 32 \<and>
     first_data part \<le> unat (part_size part)"

definition valid_cluster :: "fat64_partition_t \<Rightarrow> u64 \<Rightarrow> bool" where
  "valid_cluster part c \<longleftrightarrow> c < part_size part"

definition data_cluster :: "fat64_partition_t \<Rightarrow> u64 \<Rightarrow> bool" where
  "data_cluster part c \<longleftrightarrow> first_data part \<le> unat c \<and> c < part_size part"

lemma data_cluster_valid: "data_cluster part c \<Longrightarrow> valid_cluster part c"
  by (simp add: data_cluster_def valid_cluster_def)

lemma valid_cluster_less: "valid_cluster part c \<Longrightarrow> unat c < unat (part_size part)"
  by (simp add: valid_cluster_def word_less_nat_alt)

lemma data_cluster_not_0: "data_cluster part c \<Longrightarrow> c \<noteq> 0"
  by (auto simp: data_cluster_def first_data_def word_less_nat_alt)

lemma layout_ok_size: "layout_ok part \<Longrightarrow> unat (part_size part) < 2 ^ 29"
  by (simp add: layout_ok_def)

lemma valid_cluster_not_EOF: "layout_ok part \<Longrightarrow> valid_cluster part c \<Longrightarrow> c \<noteq> FAT64_CLUSTER_TAG_EOF"
  using valid_cluster_less [of part c] layout_ok_size [of part] by auto

lemma unat_ucast_low: "unat (c :: u64) < 2 ^ 32 \<Longrightarrow> unat (ucast c :: u32) = unat c"
  by (simp add: unsigned_ucast_eq take_bit_nat_eq_self)

lemma unat_ucast_high: "unat (ucast (c :: u32) :: u64) = unat c"
  by (simp add: unsigned_ucast_eq take_bit_nat_eq_self unsigned_less [THEN order_less_le_trans])

lemma unat_add_low: "unat a + unat b < 2 ^ LENGTH('a) \<Longrightarrow> unat (a + b :: 'a::len word) = unat a + unat b"
  by (simp add: unat_word_ariths)

lemma unat_mult_low: "unat a * unat b < 2 ^ LENGTH('a) \<Longrightarrow> unat (a * b :: 'a::len word) = unat a * unat b"
  by (simp add: unat_word_ariths)

lemma which_tag_less: "which_tag c < 32"
  by (simp add: which_tag_def unat_mod)

lemma which_tag_eq:
  assumes "layout_ok part" and "valid_cluster part c"
  shows "which_tag c = unat c mod 32"
proof -
  have "unat c < 2 ^ 32" using valid_cluster_less [OF assms(2)] layout_ok_size [OF assms(1)] by simp
  from unat_ucast_low [OF this] show ?thesis by (simp add: which_tag_def unat_mod)
qed

lemma unat_tag_sector:
  assumes l: "layout_ok part" and v: "valid_cluster part c"
  shows "unat (tag_sector part c) = unat c div 32 + 8 * unat (cluster_tags part) + unat (partition_location part)"
proof -
  let ?q = "ucast ((ucast c :: u32) div 32) :: u64"
  have c: "unat c < unat (part_size part)" by (rule valid_cluster_less [OF v])
  then have "unat c < 2 ^ 32" using layout_ok_size [OF l] by simp
  from unat_ucast_low [OF this] have q: "unat ?q = unat c div 32" by (simp add: unat_ucast_high unat_div)
  have t: "unat (cluster_tags part) + (unat (part_size part) + 255) div 256 \<le> unat (part_size part)"
    "8 * unat (part_size part) + unat (partition_location part) < 2 ^ 32"
    using l by (simp_all add: layout_ok_def first_data_def)
  have m: "unat (cluster_tags part * 8) = unat (cluster_tags part) * 8"
    using t by (subst unat_mult_low) simp_all
  have b: "unat c div 32 + unat (cluster_tags part) * 8 + unat (partition_location part) < 2 ^ 32"
    using t c by simp
  have a1: "unat (?q + cluster_tags part * 8) = unat c div 32 + unat (cluster_tags part) * 8"
    using b by (subst unat_add_low) (simp_all add: q m)
  have a: "unat (?q + cluster_tags part * 8 + partition_location part) =
      unat c div 32 + unat (cluster_tags part) * 8 + unat (partition_location part)"
    using b by (subst unat_add_low) (simp_all add: a1)
  have "unat (tag_sector part c) = unat (?q + cluster_tags part * 8 + partition_location part)"
    unfolding tag_sector_def by (rule unat_ucast_low) (use a b in simp)
  with a show ?thesis by simp
qed

lemma unat_cluster_sector:
  assumes l: "layout_ok part" and v: "valid_cluster part c" and i: "i < 8"
  shows "unat (cluster_sector part c i) = 8 * unat c + i + unat (partition_location part)"
proof -
  have c: "unat c < unat (part_size part)" by (rule valid_cluster_less [OF v])
  have b: "8 * unat c + i + unat (partition_location part) < 2 ^ 32"
    using l c i by (simp add: layout_ok_def)
  have n: "unat (of_nat i :: u64) = i" using i by (simp add: unat_of_nat)
  have m: "unat (8 * c) = 8 * unat c" using b by (subst unat_mult_low) simp_all
  have a1: "unat (8 * c + of_nat i) = 8 * unat c + i" using b by (subst unat_add_low) (simp_all add: m n)
  have a: "unat (8 * c + of_nat i + partition_location part) = 8 * unat c + i + unat (partition_location part)"
    using b by (subst unat_add_low) (simp_all add: a1)
  have "unat (cluster_sector part c i) = unat (8 * c + of_nat i + partition_location part)"
    unfolding cluster_sector_def by (rule unat_ucast_low) (use a b in simp)
  with a show ?thesis by simp
qed

lemma cluster_sector_eq_iff:
  assumes "layout_ok part" "valid_cluster part c" "valid_cluster part c'" "i < 8" "j < 8"
  shows "cluster_sector part c i = cluster_sector part c' j \<longleftrightarrow> c = c' \<and> i = j"
proof
  assume "cluster_sector part c i = cluster_sector part c' j"
  then have "unat (cluster_sector part c i) = unat (cluster_sector part c' j)" by simp
  then have "8 * unat c + i = 8 * unat c' + j"
    using assms by (simp add: unat_cluster_sector)
  moreover from this have "unat c = unat c'" using assms(4,5) by linarith
  ultimately have "unat c = unat c'" "i = j" by simp_all
  then show "c = c' \<and> i = j" by (simp add: word_unat_eq_iff)
qed simp

lemma tag_sector_not_data:
  assumes l: "layout_ok part" and v: "valid_cluster part c" and d: "data_cluster part c'" and i: "i < 8"
  shows "tag_sector part c \<noteq> cluster_sector part c' i"
proof
  assume "tag_sector part c = cluster_sector part c' i"
  then have "unat (tag_sector part c) = unat (cluster_sector part c' i)" by simp
  then have "unat c div 32 + 8 * unat (cluster_tags part) = 8 * unat c' + i"
    using unat_tag_sector [OF l v] unat_cluster_sector [OF l data_cluster_valid [OF d] i] by simp
  moreover have "unat c div 32 < 8 * ((unat (part_size part) + 255) div 256)"
    by (rule less_mult_imp_div_less) (use valid_cluster_less [OF v] in simp)
  ultimately show False using d by (simp add: data_cluster_def first_data_def)
qed

section \<open>Tags and data\<close>

definition tag_of :: "fat64_partition_t \<Rightarrow> disk \<Rightarrow> u64 \<Rightarrow> fat64_cluster_tags_t" where
  "tag_of part d c = get_tag (d (tag_sector part c)) (which_tag c)"

definition cdata :: "fat64_partition_t \<Rightarrow> disk \<Rightarrow> u64 \<Rightarrow> bytes" where
  "cdata part d c =
     (\<lambda>i. if i < FAT64_CLUSTER_SIZE then d (cluster_sector part c (i div 512)) (i mod 512) else 0)"

lemma get_tag_cong: "i < 32 \<Longrightarrow> (\<And>x. x < 512 \<Longrightarrow> b x = b' x) \<Longrightarrow> get_tag b i = get_tag b' i"
  unfolding get_tag_def by (intro arg_cong2 [where f = "\<lambda>x y. \<lparr>tag_prev = x, tag_next = y\<rparr>"] get64_cong) auto

lemma get_tag_ide_read: "i < 32 \<Longrightarrow> get_tag (ide_read s 0 d b) i = get_tag (d s) i"
  by (rule get_tag_cong) (use ide_read_in [of _ s 0 d b] in \<open>simp_all add: SECTOR_SIZE_def\<close>)

lemma get_tag_ide_write: "i < 32 \<Longrightarrow> get_tag (ide_write s 0 b d s) i = get_tag b i"
  by (rule get_tag_cong) (simp_all add: ide_write_same SECTOR_SIZE_def)

lemma get_put_tag [simp]: "get_tag (put_tag i t b) i = t"
  by (simp add: get_tag_def put_tag_def get_put_other)

lemma get_put_tag_other: "i \<noteq> j \<Longrightarrow> get_tag (put_tag i t b) j = get_tag b j"
proof -
  assume "i \<noteq> j"
  then consider "i < j" | "j < i" by linarith
  then show ?thesis by cases (simp_all add: get_tag_def put_tag_def get_put_other)
qed

lemma load_cluster_tags_eq: "load_cluster_tags part d f = f\<lparr>f_tags := tag_of part d (f_cluster f)\<rparr>"
  by (simp add: load_cluster_tags_def tag_of_def get_tag_ide_read which_tag_less Let_def)

lemma tags_eta [simp]: "\<lparr>tag_prev = tag_prev t, tag_next = tag_next t\<rparr> = t"
  by (cases t) simp

lemma save_cluster_tags_eq:
  "save_cluster_tags part f d = mark_cluster part (f_cluster f) (tag_prev (f_tags f)) (tag_next (f_tags f)) d"
  by (simp add: save_cluster_tags_def mark_cluster_def)

lemma mark_cluster_other_sector: "s \<noteq> tag_sector part c \<Longrightarrow> mark_cluster part c p n d s = d s"
  by (simp add: mark_cluster_def Let_def)

lemma tag_of_mark_same [simp]: "tag_of part (mark_cluster part c p n d) c = \<lparr>tag_prev = p, tag_next = n\<rparr>"
  by (simp add: tag_of_def mark_cluster_def Let_def get_tag_ide_write which_tag_less)

lemma tag_of_mark_other:
  assumes l: "layout_ok part" and v: "valid_cluster part c" "valid_cluster part c'" and n: "c' \<noteq> c"
  shows "tag_of part (mark_cluster part c p q d) c' = tag_of part d c'"
proof (cases "tag_sector part c' = tag_sector part c")
  case True
  then have "unat (tag_sector part c') = unat (tag_sector part c)" by simp
  then have "unat c' div 32 = unat c div 32"
    using unat_tag_sector [OF l v(1)] unat_tag_sector [OF l v(2)] by simp
  moreover have "unat c' \<noteq> unat c" using n by (simp add: word_unat_eq_iff)
  ultimately have "unat c mod 32 \<noteq> unat c' mod 32" by (metis div_mult_mod_eq)
  then have w: "which_tag c \<noteq> which_tag c'"
    using which_tag_eq [OF l v(1)] which_tag_eq [OF l v(2)] by simp
  show ?thesis
    by (simp add: tag_of_def mark_cluster_def Let_def True get_tag_ide_write get_tag_ide_read
        which_tag_less get_put_tag_other [OF w])
qed (simp add: tag_of_def mark_cluster_other_sector)

lemma cdata_mark:
  assumes "layout_ok part" and "valid_cluster part c" and "data_cluster part c'"
  shows "cdata part (mark_cluster part c p q d) c' = cdata part d c'"
  using tag_sector_not_data [OF assms, symmetric]
  by (intro ext) (simp add: cdata_def mark_cluster_other_sector less_mult_imp_div_less)

text \<open>Reading and writing a whole cluster.\<close>

lemma fold_blit:
  "fold (\<lambda>i b. blit (512 * i) 512 (g i) b) [0..<n] b = blit 0 (512 * n) (\<lambda>x. g (x div 512) (x mod 512)) b"
proof (induction n)
  case 0
  show ?case by (simp add: blit_def fun_eq_iff)
next
  case (Suc n)
  have "blit (512 * n) 512 (g n) (blit 0 (512 * n) (\<lambda>x. g (x div 512) (x mod 512)) b) x =
      blit 0 (512 * Suc n) (\<lambda>x. g (x div 512) (x mod 512)) b x" for x
  proof (cases "512 * n \<le> x \<and> x < 512 * n + 512")
    case True
    then have "x div 512 = n" "x mod 512 = x - 512 * n" by (auto simp: div_nat_eqI modulo_nat_def)
    with True show ?thesis by (simp add: blit_def)
  qed (auto simp: blit_def)
  then show ?case by (intro ext) (simp add: Suc)
qed

lemma load_cluster_eq:
  "load_cluster part d f = f\<lparr>f_buf := blit 0 FAT64_CLUSTER_SIZE (cdata part d (f_cluster f)) (f_buf f)\<rparr>"
proof -
  have "blit 0 FAT64_CLUSTER_SIZE (\<lambda>x. d (cluster_sector part (f_cluster f) (x div 512)) (x mod 512)) (f_buf f) =
      blit 0 FAT64_CLUSTER_SIZE (cdata part d (f_cluster f)) (f_buf f)"
    by (simp add: blit_def cdata_def fun_eq_iff)
  then show ?thesis
    using fold_blit [of "\<lambda>i. d (cluster_sector part (f_cluster f) i)" 8 "f_buf f"]
    by (simp add: load_cluster_def ide_read_def SECTOR_SIZE_def)
qed

lemma open_cluster_eq:
  "open_cluster part d f =
     f\<lparr>f_buf := blit 0 FAT64_CLUSTER_SIZE (cdata part d (f_cluster f)) (f_buf f),
       f_tags := tag_of part d (f_cluster f)\<rparr>"
  by (simp add: open_cluster_def load_cluster_tags_eq load_cluster_eq)

definition write_cluster :: "fat64_partition_t \<Rightarrow> u64 \<Rightarrow> bytes \<Rightarrow> disk \<Rightarrow> disk" where
  "write_cluster part c b d =
     fold (\<lambda>i d. ide_write (cluster_sector part c i) (SECTOR_SIZE * i) b d) [0..<8] d"

lemma save_cluster_eq:
  "save_cluster part f d =
     (if f_dirty f then (f\<lparr>f_dirty := False\<rparr>, write_cluster part (f_cluster f) (f_buf f) d) else (f, d))"
  by (simp add: save_cluster_def write_cluster_def)

lemma write_cluster_run:
  "write_cluster part c b d =
     fold (\<lambda>i. ide_write (cluster_sector part c i) 0 (\<lambda>j. b (SECTOR_SIZE * i + j))) [0..<8] d"
proof -
  have "ide_write s (SECTOR_SIZE * i) b = ide_write s 0 (\<lambda>j. b (SECTOR_SIZE * i + j))" for s i
    by (rule ext) (rule ide_write_offset)
  then show ?thesis by (simp add: write_cluster_def)
qed

lemma write_cluster_other:
  assumes "\<And>i. i < 8 \<Longrightarrow> s \<noteq> cluster_sector part c i"
  shows "write_cluster part c b d s = d s"
  unfolding write_cluster_run by (rule disk_sectors.run_other) (rule assms)

lemma write_cluster_same:
  assumes l: "layout_ok part" and v: "valid_cluster part c" and i: "i < 8" and j: "j < 512"
  shows "write_cluster part c b d (cluster_sector part c i) j = b (512 * i + j)"
proof -
  have "inj_on (cluster_sector part c) {..<8}" by (simp add: inj_on_def cluster_sector_eq_iff [OF l v v])
  then show ?thesis
    using disk_sectors.run_same [OF i, of "cluster_sector part c" j] j
    unfolding write_cluster_run by (simp add: SECTOR_SIZE_def)
qed

lemma cdata_write_same:
  assumes "layout_ok part" and "valid_cluster part c"
  shows "cdata part (write_cluster part c b d) c = (\<lambda>i. if i < FAT64_CLUSTER_SIZE then b i else 0)"
  by (rule ext) (simp add: cdata_def write_cluster_same [OF assms] less_mult_imp_div_less)

lemma cdata_write_other:
  assumes "layout_ok part" and "valid_cluster part c" "valid_cluster part c'" and "c' \<noteq> c"
  shows "cdata part (write_cluster part c b d) c' = cdata part d c'"
proof
  fix i
  have "write_cluster part c b d (cluster_sector part c' (i div 512)) = d (cluster_sector part c' (i div 512))"
    if "i < FAT64_CLUSTER_SIZE"
    by (rule write_cluster_other) (use assms that in \<open>simp add: cluster_sector_eq_iff less_mult_imp_div_less\<close>)
  then show "cdata part (write_cluster part c b d) c' i = cdata part d c' i" by (simp add: cdata_def)
qed

lemma tag_of_write:
  assumes "layout_ok part" and "data_cluster part c" and "valid_cluster part c'"
  shows "tag_of part (write_cluster part c b d) c' = tag_of part d c'"
proof -
  have "write_cluster part c b d (tag_sector part c') = d (tag_sector part c')"
    by (rule write_cluster_other) (rule tag_sector_not_data [OF assms(1,3,2)])
  then show ?thesis by (simp add: tag_of_def)
qed

end
