(* ===== verification/Fat64_Chains.thy ===== *)
theory Fat64_Chains
  imports Fat64_Layout
begin

text \<open>
  The clusters of a file as a chain of tags, the bytes of the file along the chain, the
  search for a free cluster, and the effect of the helper functions on an open file: the
  buffer of the handle holds one cluster of the chain, possibly not yet saved.
\<close>

section \<open>Free clusters\<close>

abbreviation free_tag :: fat64_cluster_tags_t where
  "free_tag \<equiv> \<lparr>tag_prev = FAT64_CLUSTER_TAG_FREE, tag_next = FAT64_CLUSTER_TAG_FREE\<rparr>"

definition free_clusters :: "fat64_partition_t \<Rightarrow> disk \<Rightarrow> u64 set" where
  "free_clusters part d = {c. valid_cluster part c \<and> tag_of part d c = free_tag}"

text \<open>The superblock and the tag table are marked as used.\<close>

definition fs_ok :: "fat64_partition_t \<Rightarrow> disk \<Rightarrow> bool" where
  "fs_ok part d \<longleftrightarrow> layout_ok part \<and> (\<forall>c \<in> free_clusters part d. data_cluster part c)"

lemma fs_ok_layout: "fs_ok part d \<Longrightarrow> layout_ok part"
  by (simp add: fs_ok_def)

lemma next_cluster:
  assumes "valid_cluster part c"
  shows "unat (c + 1) = unat c + 1"
proof -
  have "1 + c \<noteq> 0"
  proof
    assume "1 + c = 0"
    then have "c = - 1" by (simp add: eq_neg_iff_add_eq_0 add.commute)
    with assms show False by (simp add: valid_cluster_def)
  qed
  then show ?thesis by (simp add: unatSuc add.commute)
qed

lemma tag_sector_next:
  assumes l: "layout_ok part" and v: "valid_cluster part c" "valid_cluster part (c + 1)"
    and w: "which_tag (c + 1) \<noteq> 0"
  shows "tag_sector part (c + 1) = tag_sector part c"
proof -
  have "(unat c + 1) mod 32 \<noteq> 0" using w which_tag_eq [OF l v(2)] next_cluster [OF v(1)] by simp
  then have "(unat c + 1) div 32 = unat c div 32" by (simp add: div_Suc)
  then have "unat (tag_sector part (c + 1)) = unat (tag_sector part c)"
    using unat_tag_sector [OF l v(1)] unat_tag_sector [OF l v(2)] next_cluster [OF v(1)] by simp
  then show ?thesis by (simp add: word_unat_eq_iff)
qed

lemma free_scan_spec:
  assumes "layout_ok part"
    and "valid_cluster part c \<Longrightarrow> which_tag c \<noteq> 0 \<Longrightarrow> \<forall>x < 512. buf x = d (tag_sector part c) x"
  shows "(valid_cluster part (free_scan part d c buf) \<longrightarrow>
            tag_of part d (free_scan part d c buf) = free_tag) \<and>
         (\<forall>c'. c \<le> c' \<and> c' < free_scan part d c buf \<and> valid_cluster part c' \<longrightarrow> tag_of part d c' \<noteq> free_tag)"
  using assms
proof (induction part d c buf rule: free_scan.induct)
  case (1 part d c buf)
  let ?buf = "if which_tag c = 0 then ide_read (tag_sector part c) 0 d buf else buf"
  show ?case
  proof (cases "valid_cluster part c")
    case False
    then show ?thesis using free_scan.simps [of part d c buf] by (auto simp: valid_cluster_def)
  next
    case True
    have b: "\<forall>x < 512. ?buf x = d (tag_sector part c) x"
      using 1(3) [OF True] ide_read_in [of _ "tag_sector part c" 0 d buf] by (auto simp: SECTOR_SIZE_def)
    have t: "get_tag ?buf (which_tag c) = tag_of part d c"
      unfolding tag_of_def by (rule get_tag_cong [OF which_tag_less]) (use b in blast)
    show ?thesis
    proof (cases "tag_of part d c = free_tag")
      case f: True
      then have "free_scan part d c buf = c"
        using free_scan.simps [of part d c buf] True t by (simp add: valid_cluster_def Let_def)
      then show ?thesis using f by (auto simp: not_less)
    next
      case f: False
      then have nf: "\<not> (tag_prev (tag_of part d c) = 0 \<and> tag_next (tag_of part d c) = 0)"
        using tags_eta [of "tag_of part d c"] by force
      then have r: "free_scan part d c buf = free_scan part d (c + 1) ?buf"
        by (subst free_scan.simps) (simp only: Let_def t True [unfolded valid_cluster_def] if_True if_False)
      have c1: "c' = c \<or> c + 1 \<le> c'" if "c \<le> c'" for c'
        using that next_cluster [OF True] by (auto simp: word_le_nat_alt word_unat_eq_iff)
      have "valid_cluster part (c + 1) \<Longrightarrow> which_tag (c + 1) \<noteq> 0 \<Longrightarrow> \<forall>x < 512. ?buf x = d (tag_sector part (c + 1)) x"
        using tag_sector_next [OF 1(2) True] b by simp
      from 1(1) [OF True [unfolded valid_cluster_def] refl refl nf [folded t] 1(2) this]
      show ?thesis unfolding r using f c1 by blast
    qed
  qed
qed

lemma get_free_cluster_some:
  assumes l: "layout_ok part" and f: "free_clusters part d \<noteq> {}"
  obtains c where "c \<in> free_clusters part d" and "\<forall>c' \<in> free_clusters part d. c \<le> c'"
    and "get_free_cluster part p n d = (c, mark_cluster part c p n d)"
proof -
  let ?r = "free_scan part d 0 (\<lambda>_. 0)"
  have "which_tag 0 = 0" by (simp add: which_tag_def)
  then have s: "valid_cluster part ?r \<longrightarrow> tag_of part d ?r = free_tag"
    "\<And>c'. c' < ?r \<Longrightarrow> valid_cluster part c' \<Longrightarrow> tag_of part d c' \<noteq> free_tag"
    using free_scan_spec [OF l, of 0 "\<lambda>_. 0" d] by auto
  obtain c0 where c0: "c0 \<in> free_clusters part d" using f by blast
  then have "\<not> c0 < ?r" using s(2) by (auto simp: free_clusters_def)
  then have v: "valid_cluster part ?r" using c0 by (auto simp: free_clusters_def valid_cluster_def)
  show ?thesis
  proof (rule that)
    show "?r \<in> free_clusters part d" using v s(1) by (simp add: free_clusters_def)
    show "\<forall>c' \<in> free_clusters part d. ?r \<le> c'" using s(2) by (force simp: free_clusters_def)
    show "get_free_cluster part p n d = (?r, mark_cluster part ?r p n d)"
      using v by (auto simp: get_free_cluster_def Let_def valid_cluster_def)
  qed
qed

lemma get_free_cluster_none:
  assumes l: "layout_ok part" and f: "free_clusters part d = {}"
  shows "get_free_cluster part p n d = (FAT64_CLUSTER_TAG_EOF, d)"
proof -
  let ?r = "free_scan part d 0 (\<lambda>_. 0)"
  have "which_tag 0 = 0" by (simp add: which_tag_def)
  then have "valid_cluster part ?r \<longrightarrow> tag_of part d ?r = free_tag"
    using free_scan_spec [OF l, of 0 "\<lambda>_. 0" d] by auto
  then have "\<not> valid_cluster part ?r" using f by (auto simp: free_clusters_def)
  then show ?thesis by (simp add: get_free_cluster_def Let_def valid_cluster_def not_less)
qed

lemma free_clusters_mark:
  assumes l: "layout_ok part" and v: "valid_cluster part c"
  shows "free_clusters part (mark_cluster part c p n d) =
     (if p = 0 \<and> n = 0 then insert c (free_clusters part d) else free_clusters part d - {c})"
proof (rule set_eqI)
  fix x
  show "x \<in> free_clusters part (mark_cluster part c p n d) \<longleftrightarrow>
      x \<in> (if p = 0 \<and> n = 0 then insert c (free_clusters part d) else free_clusters part d - {c})"
    using v tag_of_mark_other [OF l v, of x] by (cases "x = c") (auto simp: free_clusters_def)
qed

lemma free_clusters_write:
  assumes "layout_ok part" and "data_cluster part c"
  shows "free_clusters part (write_cluster part c b d) = free_clusters part d"
  using tag_of_write [OF assms] by (auto simp: free_clusters_def)

section \<open>Chains\<close>

definition chain :: "fat64_partition_t \<Rightarrow> disk \<Rightarrow> u64 list \<Rightarrow> bool" where
  "chain part d cs \<longleftrightarrow>
     cs \<noteq> [] \<and> distinct cs \<and> (\<forall>c \<in> set cs. data_cluster part c) \<and>
     (\<forall>k < length cs. tag_next (tag_of part d (cs ! k)) =
        (if Suc k < length cs then cs ! Suc k else FAT64_CLUSTER_TAG_EOF))"

lemma chain_data: "chain part d cs \<Longrightarrow> k < length cs \<Longrightarrow> data_cluster part (cs ! k)"
  by (simp add: chain_def)

lemma chain_not_free: "layout_ok part \<Longrightarrow> chain part d cs \<Longrightarrow> c \<in> set cs \<Longrightarrow> c \<notin> free_clusters part d"
proof
  assume l: "layout_ok part" and c: "chain part d cs" "c \<in> set cs" "c \<in> free_clusters part d"
  then obtain k where k: "k < length cs" "c = cs ! k" by (auto simp: in_set_conv_nth)
  have "cs ! Suc k \<noteq> 0" if "Suc k < length cs"
    by (rule data_cluster_not_0) (rule chain_data [OF c(1) that])
  then have "tag_next (tag_of part d c) \<noteq> 0"
    using c(1) k by (simp add: chain_def)
  with c(3) show False by (simp add: free_clusters_def)
qed

lemma chain_cong:
  assumes "chain part d cs" and "\<And>c. c \<in> set cs \<Longrightarrow> tag_of part d' c = tag_of part d c"
  shows "chain part d' cs"
  using assms by (simp add: chain_def)

text \<open>The byte at a position of the file, and the positions of the file.\<close>

definition file_byte :: "fat64_partition_t \<Rightarrow> disk \<Rightarrow> u64 list \<Rightarrow> nat \<Rightarrow> u8" where
  "file_byte part d cs x = cdata part d (cs ! (x div FAT64_CLUSTER_SIZE)) (x mod FAT64_CLUSTER_SIZE)"

definition capacity :: "u64 list \<Rightarrow> nat" where
  "capacity cs = FAT64_CLUSTER_SIZE * length cs"

lemma capacity_div: "x < capacity cs \<Longrightarrow> x div FAT64_CLUSTER_SIZE < length cs"
  by (simp add: capacity_def less_mult_imp_div_less mult.commute)

section \<open>An open file\<close>

text \<open>
  The handle stands on cluster \<open>k\<close> of the chain; \<open>con\<close> are the bytes of the file, those
  of cluster \<open>k\<close> being the ones of the buffer.
\<close>

definition buffered ::
  "fat64_partition_t \<Rightarrow> disk \<Rightarrow> u64 list \<Rightarrow> nat \<Rightarrow> fat64_file_t \<Rightarrow> (nat \<Rightarrow> u8) \<Rightarrow> bool" where
  "buffered part d cs k f con \<longleftrightarrow>
     chain part d cs \<and> k < length cs \<and> f_cluster f = cs ! k \<and> f_tags f = tag_of part d (cs ! k) \<and>
     (\<forall>x < capacity cs. x div FAT64_CLUSTER_SIZE \<noteq> k \<longrightarrow> con x = file_byte part d cs x) \<and>
     (\<forall>i < FAT64_CLUSTER_SIZE. con (FAT64_CLUSTER_SIZE * k + i) = f_buf f i) \<and>
     (\<not> f_dirty f \<longrightarrow> (\<forall>i < FAT64_CLUSTER_SIZE. f_buf f i = cdata part d (cs ! k) i))"

lemma bufferedD:
  assumes "buffered part d cs k f con"
  shows "chain part d cs" "k < length cs" "f_cluster f = cs ! k" "f_tags f = tag_of part d (cs ! k)"
    "x < capacity cs \<Longrightarrow> x div FAT64_CLUSTER_SIZE \<noteq> k \<Longrightarrow> con x = file_byte part d cs x"
    "i < FAT64_CLUSTER_SIZE \<Longrightarrow> con (FAT64_CLUSTER_SIZE * k + i) = f_buf f i"
    "\<not> f_dirty f \<Longrightarrow> i < FAT64_CLUSTER_SIZE \<Longrightarrow> f_buf f i = cdata part d (cs ! k) i"
    "data_cluster part (f_cluster f)"
  using assms chain_data [of part d cs k] by (simp_all add: buffered_def)

lemma buffered_next:
  assumes "buffered part d cs k f con"
  shows "tag_next (f_tags f) = (if Suc k < length cs then cs ! Suc k else FAT64_CLUSTER_TAG_EOF)"
  using assms by (simp add: buffered_def chain_def)

lemma position_split: "x div FAT64_CLUSTER_SIZE = k \<Longrightarrow> x = FAT64_CLUSTER_SIZE * k + x mod FAT64_CLUSTER_SIZE"
  by auto

text \<open>A clean handle shows the bytes on the disk.\<close>

lemma buffered_clean:
  assumes "buffered part d cs k f con" and "\<not> f_dirty f" and "x < capacity cs"
  shows "con x = file_byte part d cs x"
proof (cases "x div FAT64_CLUSTER_SIZE = k")
  case True
  then have "con x = f_buf f (x mod FAT64_CLUSTER_SIZE)"
    using bufferedD(6) [OF assms(1), of "x mod FAT64_CLUSTER_SIZE"] position_split [OF True] by simp
  then show ?thesis using bufferedD(7) [OF assms(1,2)] True by (simp add: file_byte_def)
qed (use bufferedD(5) [OF assms(1,3)] in simp)

lemma open_cluster_simps [simp]:
  "f_cluster (open_cluster part d f) = f_cluster f" "f_dirty (open_cluster part d f) = f_dirty f"
  "f_loc (open_cluster part d f) = f_loc f" "f_abs (open_cluster part d f) = f_abs f"
  "f_entry (open_cluster part d f) = f_entry f" "f_tags (open_cluster part d f) = tag_of part d (f_cluster f)"
  "i < FAT64_CLUSTER_SIZE \<Longrightarrow> f_buf (open_cluster part d f) i = cdata part d (f_cluster f) i"
  by (simp_all add: open_cluster_eq blit_def)

text \<open>Opening a cluster of a chain.\<close>

lemma buffered_open:
  assumes "chain part d cs" and "k < length cs" and "f_cluster f = cs ! k"
    and "\<And>x. x < capacity cs \<Longrightarrow> con x = file_byte part d cs x"
  shows "buffered part d cs k (open_cluster part d f) con"
proof -
  have "con (FAT64_CLUSTER_SIZE * k + i) = cdata part d (cs ! k) i" if "i < FAT64_CLUSTER_SIZE" for i
  proof -
    have "FAT64_CLUSTER_SIZE * k + i < capacity cs"
      using that assms(2) by (simp add: capacity_def)
    then show ?thesis using assms(4) that by (simp add: file_byte_def)
  qed
  then show ?thesis using assms by (simp add: buffered_def)
qed

text \<open>Saving.\<close>

definition untouched :: "fat64_partition_t \<Rightarrow> u64 set \<Rightarrow> disk \<Rightarrow> disk \<Rightarrow> bool" where
  "untouched part X d d' \<longleftrightarrow>
     (\<forall>c. data_cluster part c \<and> c \<notin> X \<longrightarrow> cdata part d' c = cdata part d c \<and> tag_of part d' c = tag_of part d c)"

lemma untouched_refl [simp]: "untouched part X d d"
  by (simp add: untouched_def)

lemma untouched_trans:
  "untouched part X d d' \<Longrightarrow> untouched part Y d' d'' \<Longrightarrow> X \<subseteq> Z \<Longrightarrow> Y \<subseteq> Z \<Longrightarrow> untouched part Z d d''"
  unfolding untouched_def by (metis subsetD)

lemma untouched_write:
  assumes "layout_ok part" and "data_cluster part c" and "c \<in> X"
  shows "untouched part X d (write_cluster part c b d)"
  using assms cdata_write_other [OF assms(1) data_cluster_valid [OF assms(2)] data_cluster_valid]
    tag_of_write [OF assms(1,2) data_cluster_valid]
  by (metis untouched_def)

lemma untouched_mark:
  assumes "layout_ok part" and "valid_cluster part c" and "c \<in> X"
  shows "untouched part X d (mark_cluster part c p n d)"
  using assms cdata_mark [OF assms(1,2)] tag_of_mark_other [OF assms(1,2) data_cluster_valid]
  by (metis untouched_def)

lemma save_buffered:
  assumes l: "layout_ok part" and b: "buffered part d cs k f con"
  obtains f' d' where "save_cluster part f d = (f', d')" and "buffered part d' cs k f' con"
    and "f' = f\<lparr>f_dirty := False\<rparr>" and "\<And>c. valid_cluster part c \<Longrightarrow> tag_of part d' c = tag_of part d c"
    and "\<And>c. valid_cluster part c \<Longrightarrow> c \<noteq> cs ! k \<Longrightarrow> cdata part d' c = cdata part d c"
proof (cases "f_dirty f")
  case False
  then have "f = f\<lparr>f_dirty := False\<rparr>" by (cases f) simp
  show ?thesis
    by (rule that [of f d]) (use False b \<open>f = _\<close> in \<open>simp_all add: save_cluster_eq\<close>)
next
  case True
  let ?d = "write_cluster part (f_cluster f) (f_buf f) d"
  note B = bufferedD [OF b]
  note v = data_cluster_valid [OF B(8)]
  have t: "tag_of part ?d c = tag_of part d c" if "valid_cluster part c" for c
    by (rule tag_of_write [OF l B(8) that])
  have tc: "tag_of part ?d c = tag_of part d c" if "c \<in> set cs" for c
    using t that B(1) by (simp add: chain_def data_cluster_valid)
  have o: "cdata part ?d c = cdata part d c" if "valid_cluster part c" "c \<noteq> cs ! k" for c
    using cdata_write_other [OF l v] that B(3) by simp
  have same: "file_byte part ?d cs x = file_byte part d cs x" if "x < capacity cs" "x div FAT64_CLUSTER_SIZE \<noteq> k" for x
  proof -
    have "cs ! (x div FAT64_CLUSTER_SIZE) \<noteq> cs ! k"
      using that B(1,2) capacity_div [OF that(1)] by (simp add: chain_def nth_eq_iff_index_eq)
    then show ?thesis
      using o data_cluster_valid [OF chain_data [OF B(1) capacity_div [OF that(1)]]] by (simp add: file_byte_def)
  qed
  have "cdata part ?d (cs ! k) i = f_buf f i" if "i < FAT64_CLUSTER_SIZE" for i
    using cdata_write_same [OF l v, of "f_buf f" d] that B(3) by simp
  then have "buffered part ?d cs k (f\<lparr>f_dirty := False\<rparr>) con"
    using B same tc chain_cong [OF B(1) tc] by (simp add: buffered_def)
  then show ?thesis using that [OF _ _ refl t o] True by (simp add: save_cluster_eq)
qed

end
