(* ===== verification/Fat64_Files.thy ===== *)
theory Fat64_Files
  imports Fat64_Chains
begin

text \<open>
  \<^verbatim>\<open>fat64_getc\<close> and \<^verbatim>\<open>fat64_putc\<close> as operations on the bytes of a file: each reads or
  writes the byte at the position of the handle and moves on by one, across the clusters
  of the chain, and \<^verbatim>\<open>fat64_putc\<close> extends the chain when it is full.
\<close>

section \<open>Directory entries\<close>

definition normal_entry :: "fat64_dir_entry_t \<Rightarrow> bool" where
  "normal_entry e \<longleftrightarrow> (\<forall>j \<ge> 256. de_name e j = 0) \<and> (\<forall>j \<ge> 200. de_unused e j = 0)"

lemma get_entry_normal [simp]: "normal_entry (get_entry b a)"
  by (simp add: normal_entry_def get_entry_def)

lemma get_entry_cong:
  assumes "\<And>x. x < 512 \<Longrightarrow> b (a + x) = b' (a' + x)"
  shows "get_entry b a = get_entry b' a'"
proof -
  have "(\<lambda>j. if j < 256 then b (a + j) else 0) = (\<lambda>j. if j < 256 then b' (a' + j) else 0)"
    using assms by (simp add: fun_eq_iff)
  moreover have "(\<lambda>j. if j < 200 then b (a + 312 + j) else 0) = (\<lambda>j. if j < 200 then b' (a' + 312 + j) else 0)"
    using assms [of "312 + _"] by (simp add: fun_eq_iff add.assoc)
  moreover have "get64 b (a + n) = get64 b' (a' + n)" if "n \<le> 500" for n
    by (rule get64_cong) (use that assms [of "n + _"] in \<open>simp add: add.assoc\<close>)
  moreover have "get32 b (a + n) = get32 b' (a' + n)" if "n \<le> 500" for n
    by (rule get32_cong) (use that assms [of "n + _"] in \<open>simp add: add.assoc\<close>)
  ultimately show ?thesis by (simp add: get_entry_def)
qed

lemma get_entry_bytes:
  assumes "normal_entry e"
  shows "get_entry (entry_bytes e) 0 = e"
proof -
  have n: "(\<lambda>j. if j < 256 then entry_bytes e (0 + j) else 0) = de_name e"
    using assms by (auto simp: fun_eq_iff entry_bytes_def put32_other put64_other normal_entry_def)
  have u: "(\<lambda>j. if j < 200 then entry_bytes e (0 + 312 + j) else 0) = de_unused e"
    using assms by (auto simp: fun_eq_iff entry_bytes_def put32_other put64_other normal_entry_def)
  have f: "get64 (entry_bytes e) 256 = de_file e" "get64 (entry_bytes e) 264 = de_parent e"
    "get64 (entry_bytes e) 272 = de_size e" "get64 (entry_bytes e) 280 = de_created e"
    "get64 (entry_bytes e) 288 = de_accessed e" "get64 (entry_bytes e) 296 = de_modified e"
    "get32 (entry_bytes e) 304 = de_flags e" "get32 (entry_bytes e) 308 = de_num e"
    by (simp_all add: entry_bytes_def get_put_other)
  show ?thesis by (simp add: get_entry_def n u f)
qed

lemma get_entry_blit_same: "normal_entry e \<Longrightarrow> get_entry (blit a 512 (entry_bytes e) b) a = e"
  using get_entry_cong [of "blit a 512 (entry_bytes e) b" a "entry_bytes e" 0] get_entry_bytes [of e] by simp

lemma get_entry_blit_other:
  assumes "i \<noteq> j"
  shows "get_entry (blit (512 * i) 512 s b) (512 * j) = get_entry b (512 * j)"
proof (rule get_entry_cong)
  fix x :: nat
  assume "x < 512"
  with assms show "blit (512 * i) 512 s b (512 * j + x) = b (512 * j + x)"
    by (intro blit_out) linarith
qed

text \<open>The handle and the directory agree on the entry of the file.\<close>

definition dir_ok :: "fat64_partition_t \<Rightarrow> disk \<Rightarrow> u64 list \<Rightarrow> fat64_dir_entry_t \<Rightarrow> bool" where
  "dir_ok part d cs e \<longleftrightarrow>
     data_cluster part (de_parent e) \<and> de_parent e \<notin> set cs \<and> de_parent e \<notin> free_clusters part d \<and>
     unat (de_num e) < 8 \<and> normal_entry e \<and>
     get_entry (cdata part d (de_parent e)) (512 * unat (de_num e)) = e"

lemma dir_ok_cong:
  assumes "dir_ok part d cs e" and "cdata part d' (de_parent e) = cdata part d (de_parent e)"
    and "tag_of part d' (de_parent e) = tag_of part d (de_parent e)" and "de_parent e \<notin> set cs'"
  shows "dir_ok part d' cs' e"
  using assms by (simp add: dir_ok_def free_clusters_def)

lemma save_dir_entry_effect:
  assumes l: "layout_ok part" and p: "data_cluster part (de_parent (f_entry f))"
    and n: "unat (de_num (f_entry f)) < 8" and e: "normal_entry (f_entry f)"
  obtains d' where "save_dir_entry part f d = Inr d'"
    and "untouched part {de_parent (f_entry f)} d d'"
    and "\<And>c. valid_cluster part c \<Longrightarrow> tag_of part d' c = tag_of part d c"
    and "get_entry (cdata part d' (de_parent (f_entry f))) (512 * unat (de_num (f_entry f))) = f_entry f"
    and "\<And>j. j < 8 \<Longrightarrow> j \<noteq> unat (de_num (f_entry f)) \<Longrightarrow>
      get_entry (cdata part d' (de_parent (f_entry f))) (512 * j) = get_entry (cdata part d (de_parent (f_entry f))) (512 * j)"
proof -
  let ?p = "de_parent (f_entry f)" and ?n = "unat (de_num (f_entry f))"
  let ?b = "blit (512 * ?n) 512 (entry_bytes (f_entry f)) (f_buf (open_parent part d f))"
  let ?d = "write_cluster part ?p ?b d"
  have s: "save_dir_entry part f d = Inr ?d"
    using n by (simp add: save_dir_entry_def Let_def save_cluster_eq open_parent_def)
  have c: "cdata part ?d ?p = (\<lambda>i. if i < FAT64_CLUSTER_SIZE then ?b i else 0)"
    by (rule cdata_write_same [OF l data_cluster_valid [OF p]])
  have g: "get_entry (cdata part ?d ?p) (512 * j) = get_entry ?b (512 * j)" if "j < 8" for j
    by (rule get_entry_cong) (use that in \<open>simp add: c\<close>)
  have o: "get_entry (f_buf (open_parent part d f)) (512 * j) = get_entry (cdata part d ?p) (512 * j)" if "j < 8" for j
    by (rule get_entry_cong) (use that in \<open>simp add: open_parent_def\<close>)
  show ?thesis
  proof (rule that [OF s])
    show "untouched part {?p} d ?d" by (rule untouched_write [OF l p]) simp
    show "tag_of part ?d c = tag_of part d c" if "valid_cluster part c" for c
      by (rule tag_of_write [OF l p that])
    show "get_entry (cdata part ?d ?p) (512 * ?n) = f_entry f"
      using g [OF n] e by (simp add: get_entry_blit_same)
    show "get_entry (cdata part ?d ?p) (512 * j) = get_entry (cdata part d ?p) (512 * j)" if "j < 8" "j \<noteq> ?n" for j
      using g [OF that(1)] o [OF that(1)] that(2) by (simp add: get_entry_blit_other)
  qed
qed

section \<open>Changes of the handle\<close>

lemma buffered_ext [simp]:
  "buffered part d cs k (f\<lparr>f_entry := e\<rparr>) con = buffered part d cs k f con"
  "buffered part d cs k (f\<lparr>f_loc := l\<rparr>) con = buffered part d cs k f con"
  "buffered part d cs k (f\<lparr>f_abs := a\<rparr>) con = buffered part d cs k f con"
  by (simp_all add: buffered_def)

lemma buffered_store:
  assumes b: "buffered part d cs k f con" and i: "i < FAT64_CLUSTER_SIZE"
  shows "buffered part d cs k (f\<lparr>f_buf := (f_buf f)(i := c), f_dirty := True\<rparr>)
     (con(FAT64_CLUSTER_SIZE * k + i := c))"
  using b i by (auto simp: buffered_def)

lemma buffered_disk:
  assumes b: "buffered part d cs k f con"
    and t: "\<And>c. c \<in> set cs \<Longrightarrow> tag_of part d' c = tag_of part d c \<and> cdata part d' c = cdata part d c"
  shows "buffered part d' cs k f con"
proof -
  have "chain part d' cs" using chain_cong bufferedD(1) [OF b] t by blast
  moreover have "file_byte part d' cs x = file_byte part d cs x" if "x < capacity cs" for x
    using capacity_div [OF that] t by (simp add: file_byte_def)
  moreover have "cs ! k \<in> set cs" using bufferedD(2) [OF b] by simp
  ultimately show ?thesis using b t unfolding buffered_def by simp
qed

text \<open>A new cluster at the end of the chain.\<close>

lemma buffered_extend:
  fixes p :: u64
  assumes l: "layout_ok part" and b: "buffered part d cs k f con" and k: "Suc k = length cs"
    and c: "c \<in> free_clusters part d" "data_cluster part c"
  defines "d' \<equiv> save_cluster_tags part (f\<lparr>f_tags := (f_tags f)\<lparr>tag_next := c\<rparr>\<rparr>)
      (mark_cluster part c p FAT64_CLUSTER_TAG_EOF d)"
  shows "buffered part d' (cs @ [c]) k (f\<lparr>f_tags := (f_tags f)\<lparr>tag_next := c\<rparr>\<rparr>)
      (\<lambda>x. if x < capacity cs then con x else cdata part d c (x - capacity cs))"
    and "c \<notin> set cs" and "free_clusters part d' = free_clusters part d - {c}"
    and "untouched part (insert c (set cs)) d d'"
proof -
  note B = bufferedD [OF b]
  let ?g = "f\<lparr>f_tags := (f_tags f)\<lparr>tag_next := c\<rparr>\<rparr>" and ?m = "mark_cluster part c p FAT64_CLUSTER_TAG_EOF d"
  have v: "valid_cluster part c" by (rule data_cluster_valid [OF c(2)])
  have vk: "valid_cluster part (cs ! k)" using B(3,8) data_cluster_valid by simp
  show nc: "c \<notin> set cs" using chain_not_free [OF l B(1)] c(1) by blast
  then have ck: "c \<noteq> cs ! k" using B(2) by auto
  have d': "d' = mark_cluster part (cs ! k) (tag_prev (f_tags f)) c ?m"
    by (simp add: d'_def save_cluster_tags_eq B(3))
  have tk: "tag_of part d' (cs ! k) = f_tags ?g" by (simp add: d')
  have tc: "tag_of part d' c = \<lparr>tag_prev = p, tag_next = FAT64_CLUSTER_TAG_EOF\<rparr>"
    using tag_of_mark_other [OF l vk v ck] by (simp add: d')
  have to: "tag_of part d' x = tag_of part d x" if "valid_cluster part x" "x \<noteq> c" "x \<noteq> cs ! k" for x
    using tag_of_mark_other [OF l vk that(1,3)] tag_of_mark_other [OF l v that(1,2)] by (simp add: d')
  have cd: "cdata part d' x = cdata part d x" if "data_cluster part x" for x
    using cdata_mark [OF l vk that] cdata_mark [OF l v that] by (simp add: d')
  have "c \<noteq> 0" by (rule data_cluster_not_0 [OF c(2)])
  then show "free_clusters part d' = free_clusters part d - {c}"
    using free_clusters_mark [OF l vk] free_clusters_mark [OF l v] chain_not_free [OF l B(1), of "cs ! k"] B(2)
    by (auto simp: d')
  show "untouched part (insert c (set cs)) d d'"
    unfolding untouched_def
  proof (intro allI impI conjI)
    fix x
    assume x: "data_cluster part x \<and> x \<notin> insert c (set cs)"
    then show "cdata part d' x = cdata part d x" using cd by simp
    have "x \<noteq> cs ! k" using x B(2) by auto
    with x show "tag_of part d' x = tag_of part d x" using to data_cluster_valid by simp
  qed
  have ch: "chain part d' (cs @ [c])"
  proof -
    have "tag_next (tag_of part d' ((cs @ [c]) ! j)) =
        (if Suc j < length (cs @ [c]) then (cs @ [c]) ! Suc j else FAT64_CLUSTER_TAG_EOF)"
      if j: "j < length (cs @ [c])" for j
    proof -
      have "j \<le> length cs" using j by simp
      then consider "j = length cs" | "j = k" | "j < k" using k by linarith
      then show ?thesis
      proof cases
        case 3
        then have jl: "j < length cs" "Suc j < length cs" using k by auto
        then have "cs ! j \<noteq> cs ! k" "cs ! j \<noteq> c"
          using B(1,2) 3 nc by (auto simp: chain_def nth_eq_iff_index_eq)
        then show ?thesis
          using to [OF data_cluster_valid [OF chain_data [OF B(1) jl(1)]]] jl B(1)
          by (simp add: nth_append chain_def)
      qed (use tc tk k in \<open>simp_all add: nth_append\<close>)
    qed
    then show ?thesis using B(1) nc c(2) by (simp add: chain_def)
  qed
  have fb: "file_byte part d' (cs @ [c]) x = (if x < capacity cs then file_byte part d cs x else cdata part d c (x - capacity cs))"
    if "x < capacity (cs @ [c])" for x
  proof (cases "x < capacity cs")
    case True
    then show ?thesis
      using capacity_div [OF True] cd chain_data [OF B(1) capacity_div [OF True]]
      by (simp add: file_byte_def nth_append)
  next
    case False
    with that have "x div FAT64_CLUSTER_SIZE = length cs" by (auto simp: capacity_def div_nat_eqI)
    moreover from this have "x mod FAT64_CLUSTER_SIZE = x - capacity cs"
      by (simp add: capacity_def modulo_nat_def mult.commute)
    ultimately have "x div FAT64_CLUSTER_SIZE = length cs" "x mod FAT64_CLUSTER_SIZE = x - capacity cs" .
    then show ?thesis using False cd [OF c(2)] by (simp add: file_byte_def nth_append)
  qed
  have nk: "(cs @ [c]) ! k = cs ! k" using B(2) by (simp add: nth_append)
  have cap: "FAT64_CLUSTER_SIZE * k + i < capacity cs" if "i < FAT64_CLUSTER_SIZE" for i
    using that k by (simp add: capacity_def flip: k)
  show "buffered part d' (cs @ [c]) k ?g (\<lambda>x. if x < capacity cs then con x else cdata part d c (x - capacity cs))"
    unfolding buffered_def nk
  proof (intro conjI allI impI)
    show "chain part d' (cs @ [c])" by (rule ch)
    show "k < length (cs @ [c])" using B(2) by simp
    show "f_cluster ?g = cs ! k" using B(3) by simp
    show "f_tags ?g = tag_of part d' (cs ! k)" using tk by simp
    show "(if x < capacity cs then con x else cdata part d c (x - capacity cs)) = file_byte part d' (cs @ [c]) x"
      if "x < capacity (cs @ [c])" "x div FAT64_CLUSTER_SIZE \<noteq> k" for x
      using fb [OF that(1)] B(5) [OF _ that(2)] by simp
    show "(if FAT64_CLUSTER_SIZE * k + i < capacity cs then con (FAT64_CLUSTER_SIZE * k + i)
        else cdata part d c (FAT64_CLUSTER_SIZE * k + i - capacity cs)) = f_buf ?g i" if "i < FAT64_CLUSTER_SIZE" for i
      using cap [OF that] B(6) [OF that] by simp
    show "f_buf ?g i = cdata part d' (cs ! k) i" if "\<not> f_dirty ?g" "i < FAT64_CLUSTER_SIZE" for i
      using that B(7) [OF _ that(2)] cd [OF chain_data [OF B(1,2)]] by simp
  qed
qed

end
