(* ===== verification/Fat64_Rw.thy ===== *)
theory Fat64_Rw
  imports Fat64_Files
begin

text \<open>
  Reading and writing a file byte by byte, and the loops of \<^verbatim>\<open>fat64_read\<close> and
  \<^verbatim>\<open>fat64_write\<close>: the file behaves as a sequence of bytes with a position.
\<close>

section \<open>The position of a handle\<close>

lemma capacity_bound:
  assumes "layout_ok part" and "chain part d cs"
  shows "capacity cs < 2 ^ 42"
proof -
  have "inj_on unat (set cs)" by (simp add: inj_on_def word_unat_eq_iff)
  then have "card (set cs) = card (unat ` set cs)" by (simp add: card_image)
  also have "\<dots> \<le> card {..< 2 ^ 29 :: nat}"
    using assms layout_ok_size [OF assms(1)]
    by (intro card_mono) (auto simp: chain_def dest!: data_cluster_valid valid_cluster_less bspec)
  finally have "length cs \<le> 2 ^ 29" using assms(2) by (simp add: chain_def distinct_card)
  then show ?thesis by (simp add: capacity_def)
qed

text \<open>
  The position is the one in the file; at the end of the last cluster the location is
  \<^verbatim>\<open>FAT64_EOF\<close>.
\<close>

definition file_at ::
  "fat64_partition_t \<Rightarrow> disk \<Rightarrow> u64 list \<Rightarrow> fat64_file_t \<Rightarrow> (nat \<Rightarrow> u8) \<Rightarrow> nat \<Rightarrow> bool" where
  "file_at part d cs f con pos \<longleftrightarrow>
     layout_ok part \<and> f_abs f = of_nat pos \<and>
     (\<exists>k. buffered part d cs k f con \<and>
        (f_loc f = FAT64_EOF \<and> Suc k = length cs \<and> pos = capacity cs \<or>
         unat (f_loc f) < FAT64_CLUSTER_SIZE \<and> pos = FAT64_CLUSTER_SIZE * k + unat (f_loc f)))"

lemma file_atE:
  assumes "file_at part d cs f con pos" and "pos < capacity cs"
  obtains k where "layout_ok part" and "buffered part d cs k f con" and "unat (f_loc f) < FAT64_CLUSTER_SIZE"
    and "pos = FAT64_CLUSTER_SIZE * k + unat (f_loc f)" and "f_abs f = of_nat pos" and "f_loc f \<noteq> FAT64_EOF"
proof -
  from assms obtain k where k: "layout_ok part" "f_abs f = of_nat pos" "buffered part d cs k f con"
    "unat (f_loc f) < FAT64_CLUSTER_SIZE" "pos = FAT64_CLUSTER_SIZE * k + unat (f_loc f)"
    by (auto simp: file_at_def)
  moreover have "f_loc f \<noteq> FAT64_EOF" using k(4) by auto
  ultimately show ?thesis using that by blast
qed

lemma file_at_end:
  assumes "file_at part d cs f con pos" and "\<not> pos < capacity cs"
  obtains k where "layout_ok part" and "buffered part d cs k f con" and "f_loc f = FAT64_EOF"
    and "Suc k = length cs" and "pos = capacity cs" and "f_abs f = of_nat pos"
proof -
  from assms(1) obtain k where k: "layout_ok part" "buffered part d cs k f con" "f_abs f = of_nat pos"
    "f_loc f = FAT64_EOF \<and> Suc k = length cs \<and> pos = capacity cs \<or>
     unat (f_loc f) < FAT64_CLUSTER_SIZE \<and> pos = FAT64_CLUSTER_SIZE * k + unat (f_loc f)"
    by (auto simp: file_at_def)
  have "FAT64_CLUSTER_SIZE * k + FAT64_CLUSTER_SIZE \<le> capacity cs"
    using bufferedD(2) [OF k(2)] by (simp add: capacity_def)
  then show ?thesis using that k assms(2) by auto
qed

lemma file_at_le: "file_at part d cs f con pos \<Longrightarrow> pos \<le> capacity cs"
  by (cases "pos < capacity cs") (auto elim: file_at_end)

lemma file_at_chain: "file_at part d cs f con pos \<Longrightarrow> layout_ok part \<and> chain part d cs"
  using bufferedD(1) by (auto simp: file_at_def)

lemma file_at_not_0: "file_at part d cs f con pos \<Longrightarrow> f_cluster f \<noteq> 0"
  unfolding file_at_def by (metis bufferedD(8) data_cluster_not_0)

lemma unat_loc_Suc: "unat (l :: u32) < FAT64_CLUSTER_SIZE \<Longrightarrow> unat (l + 1) = Suc (unat l)"
  by (subst unat_add_low) simp_all

lemma loc_end_iff:
  "unat (l :: u32) < FAT64_CLUSTER_SIZE \<Longrightarrow> l + 1 = of_nat FAT64_CLUSTER_SIZE \<longleftrightarrow> Suc (unat l) = FAT64_CLUSTER_SIZE"
  by (simp add: word_unat_eq_iff unat_loc_Suc)

text \<open>Moving to the next cluster after the last byte of one.\<close>

lemma advance:
  assumes l: "layout_ok part" and b: "buffered part d cs k f con"
  obtains f' d' where "save_cluster part f d = (f', d')" and "f' = f\<lparr>f_dirty := False\<rparr>"
    and "buffered part d' cs k f' con"
    and "Suc k < length cs \<Longrightarrow> tag_next (f_tags f') \<noteq> FAT64_CLUSTER_TAG_EOF"
    and "Suc k < length cs \<Longrightarrow>
      buffered part d' cs (Suc k) ((open_cluster part d' (f'\<lparr>f_cluster := tag_next (f_tags f')\<rparr>))\<lparr>f_loc := 0\<rparr>) con"
    and "\<not> Suc k < length cs \<Longrightarrow> tag_next (f_tags f') = FAT64_CLUSTER_TAG_EOF"
    and "\<And>c. valid_cluster part c \<Longrightarrow> tag_of part d' c = tag_of part d c"
    and "untouched part (set cs) d d'"
proof -
  from save_buffered [OF l b] obtain f' d' where s: "save_cluster part f d = (f', d')"
    "buffered part d' cs k f' con" "f' = f\<lparr>f_dirty := False\<rparr>"
    "\<And>c. valid_cluster part c \<Longrightarrow> tag_of part d' c = tag_of part d c"
    "\<And>c. valid_cluster part c \<Longrightarrow> c \<noteq> cs ! k \<Longrightarrow> cdata part d' c = cdata part d c" by blast
  note B = bufferedD [OF s(2)]
  have n: "tag_next (f_tags f') = (if Suc k < length cs then cs ! Suc k else FAT64_CLUSTER_TAG_EOF)"
    by (rule buffered_next [OF s(2)])
  have c: "con x = file_byte part d' cs x" if "x < capacity cs" for x
    by (rule buffered_clean [OF s(2) _ that]) (simp add: s(3))
  have "cs ! Suc k \<noteq> FAT64_CLUSTER_TAG_EOF" if "Suc k < length cs"
    using valid_cluster_not_EOF [OF l data_cluster_valid [OF chain_data [OF B(1) that]]] .
  moreover have "buffered part d' cs (Suc k) ((open_cluster part d' (f'\<lparr>f_cluster := tag_next (f_tags f')\<rparr>))\<lparr>f_loc := 0\<rparr>) con"
    if "Suc k < length cs"
    using buffered_open [OF B(1) that _ c] n that by simp
  moreover have "untouched part (set cs) d d'"
    using s(4,5) B(2) data_cluster_valid nth_mem unfolding untouched_def by metis
  ultimately show ?thesis using that [OF s(1,3,2)] n s(4) by simp
qed

section \<open>Reading\<close>

lemma getc_step:
  assumes f: "file_at part d cs f con pos" and p: "pos < capacity cs"
  obtains f' d' where "fat64_getc part f d = Inr (E_SUCCESS, Some (con pos), f', d')"
    and "Suc pos < capacity cs \<Longrightarrow> file_at part d' cs f' con (Suc pos)"
    and "Suc pos = capacity cs \<Longrightarrow> f_cluster f' \<noteq> 0 \<and> f_loc f' = of_nat FAT64_CLUSTER_SIZE"
    and "untouched part (set cs) d d'"
proof -
  from file_atE [OF f p] obtain k where k: "layout_ok part" "buffered part d cs k f con"
    "unat (f_loc f) < FAT64_CLUSTER_SIZE" "pos = FAT64_CLUSTER_SIZE * k + unat (f_loc f)" "f_abs f = of_nat pos"
    "f_loc f \<noteq> FAT64_EOF" .
  note B = bufferedD [OF k(2)]
  have ch: "f_buf f (unat (f_loc f)) = con pos" using B(6) [OF k(3)] k(4) by simp
  let ?f1 = "f\<lparr>f_loc := f_loc f + 1, f_abs := f_abs f + 1\<rparr>"
  have b1: "buffered part d cs k ?f1 con" using k(2) by simp
  show ?thesis
  proof (cases "Suc (unat (f_loc f)) = FAT64_CLUSTER_SIZE")
    case False
    then have g: "fat64_getc part f d = Inr (E_SUCCESS, Some (con pos), ?f1, d)"
      using file_at_not_0 [OF f] k(3,6) ch loc_end_iff [OF k(3)]
      by (simp add: fat64_getc_def not_le)
    have "file_at part d cs ?f1 con (Suc pos)"
      unfolding file_at_def using k b1 False unat_loc_Suc [OF k(3)]
      by (auto intro!: exI [of _ k] simp: add.commute)
    moreover have "Suc pos < capacity cs"
      using k(3,4) B(2) False mult_le_mono2 [of "Suc k" "length cs" FAT64_CLUSTER_SIZE]
      by (simp add: capacity_def)
    ultimately show ?thesis using that [OF g] by simp
  next
    case True
    from advance [OF k(1) b1] obtain f2 d2 where a: "save_cluster part ?f1 d = (f2, d2)"
      "f2 = ?f1\<lparr>f_dirty := False\<rparr>" "buffered part d2 cs k f2 con"
      "Suc k < length cs \<Longrightarrow> tag_next (f_tags f2) \<noteq> FAT64_CLUSTER_TAG_EOF"
      "Suc k < length cs \<Longrightarrow>
        buffered part d2 cs (Suc k) ((open_cluster part d2 (f2\<lparr>f_cluster := tag_next (f_tags f2)\<rparr>))\<lparr>f_loc := 0\<rparr>) con"
      "\<not> Suc k < length cs \<Longrightarrow> tag_next (f_tags f2) = FAT64_CLUSTER_TAG_EOF" "untouched part (set cs) d d2" by metis
    have pos: "Suc pos = FAT64_CLUSTER_SIZE * Suc k" using k(4) True by simp
    have e: "f_loc f + 1 = of_nat FAT64_CLUSTER_SIZE" using True loc_end_iff [OF k(3)] by blast
    have g: "fat64_getc part f d =
        (if tag_next (f_tags f2) \<noteq> FAT64_CLUSTER_TAG_EOF then
           Inr (E_SUCCESS, Some (con pos), (open_cluster part d2 (f2\<lparr>f_cluster := tag_next (f_tags f2)\<rparr>))\<lparr>f_loc := 0\<rparr>, d2)
         else Inr (E_SUCCESS, Some (con pos), f2, d2))"
      using file_at_not_0 [OF f] k(3,6) ch e a(1) by (simp add: fat64_getc_def not_le)
    show ?thesis
    proof (cases "Suc k < length cs")
      case s: True
      have "file_at part d2 cs ((open_cluster part d2 (f2\<lparr>f_cluster := tag_next (f_tags f2)\<rparr>))\<lparr>f_loc := 0\<rparr>) con (Suc pos)"
        unfolding file_at_def using k(1,5) a(2) a(5) [OF s] pos
        by (auto intro!: exI [of _ "Suc k"] simp: add.commute)
      moreover have "Suc pos < capacity cs" using pos s by (simp add: capacity_def)
      ultimately show ?thesis using that a(4,7) s g by simp
    next
      case s: False
      then have "Suc pos = capacity cs" using pos B(2) by (simp add: capacity_def)
      moreover have "f_cluster f2 \<noteq> 0" "f_loc f2 = of_nat FAT64_CLUSTER_SIZE"
        using a(2) e file_at_not_0 [OF f] by simp_all
      ultimately show ?thesis using that a(6,7) s g by simp
    qed
  qed
qed

text \<open>A read within the file returns its bytes; one that runs to its end leaves the location behind the buffer.\<close>

lemma read_loop_steps:
  assumes "file_at part d cs f con pos" and "pos + n \<le> capacity cs" and "unat amount < 2 ^ 32"
    and "unat i + n = unat amount"
  shows "\<exists>f' d' buf'. read_loop part amount i buf f d = Some (Inr (E_SUCCESS, buf', f', d')) \<and>
     (\<forall>j. buf' j = (if i \<le> j \<and> unat j < unat i + n then con (pos + (unat j - unat i)) else buf j)) \<and>
     (pos + n < capacity cs \<longrightarrow> file_at part d' cs f' con (pos + n)) \<and>
     (pos + n = capacity cs \<and> 0 < n \<longrightarrow> f_cluster f' \<noteq> 0 \<and> f_loc f' = of_nat FAT64_CLUSTER_SIZE) \<and>
     untouched part (set cs) d d'"
  using assms
proof (induction n arbitrary: pos i buf f d)
  case 0
  then have "\<not> ucast i < amount" by (simp add: word_less_nat_alt unat_ucast_high)
  then have "read_loop part amount i buf f d = Some (Inr (E_SUCCESS, buf, f, d))"
    by (subst read_loop.simps) simp
  moreover have "(i \<le> j \<and> unat j < unat i) = False" for j by (simp add: word_le_nat_alt)
  ultimately show ?case using 0(1) by auto
next
  case (Suc n)
  have lt: "ucast i < amount" using Suc.prems(4) by (simp add: word_less_nat_alt unat_ucast_high)
  have i1: "unat (i + 1) = Suc (unat i)" using Suc.prems(3,4) by (subst unat_add_low) simp_all
  from getc_step [OF Suc.prems(1)] Suc.prems(2) obtain f1 d1 where g:
    "fat64_getc part f d = Inr (E_SUCCESS, Some (con pos), f1, d1)"
    "Suc pos < capacity cs \<Longrightarrow> file_at part d1 cs f1 con (Suc pos)"
    "Suc pos = capacity cs \<Longrightarrow> f_cluster f1 \<noteq> 0 \<and> f_loc f1 = of_nat FAT64_CLUSTER_SIZE"
    "untouched part (set cs) d d1" by auto
  have r: "read_loop part amount i buf f d = read_loop part amount (i + 1) (buf(i := con pos)) f1 d1"
    by (subst read_loop.simps) (simp add: lt g(1) Let_def)
  show ?case
  proof (cases "n = 0")
    case True
    have "\<not> ucast (i + 1) < amount" using Suc.prems(4) True i1 by (simp add: word_less_nat_alt unat_ucast_high)
    then have "read_loop part amount i buf f d = Some (Inr (E_SUCCESS, buf(i := con pos), f1, d1))"
      unfolding r by (subst read_loop.simps) simp
    moreover have "j = i \<longleftrightarrow> i \<le> j \<and> unat j < Suc (unat i)" for j
      by (auto simp: word_le_nat_alt word_unat_eq_iff)
    ultimately show ?thesis using True g Suc.prems(2) by auto
  next
    case False
    have h: "file_at part d1 cs f1 con (Suc pos)" using g(2) Suc.prems(2) False by simp
    have cap: "Suc pos + n \<le> capacity cs" and am: "unat (i + 1) + n = unat amount" using Suc.prems i1 by simp_all
    from Suc.IH [OF h cap Suc.prems(3) am, of "buf(i := con pos)"] obtain f' d' buf' where IH:
      "read_loop part amount (i + 1) (buf(i := con pos)) f1 d1 = Some (Inr (E_SUCCESS, buf', f', d'))"
      "\<forall>j. buf' j = (if i + 1 \<le> j \<and> unat j < unat (i + 1) + n then con (Suc pos + (unat j - unat (i + 1)))
                      else (buf(i := con pos)) j)"
      "Suc pos + n < capacity cs \<longrightarrow> file_at part d' cs f' con (Suc pos + n)"
      "Suc pos + n = capacity cs \<and> 0 < n \<longrightarrow> f_cluster f' \<noteq> 0 \<and> f_loc f' = of_nat FAT64_CLUSTER_SIZE"
      "untouched part (set cs) d1 d'" by blast
    have "buf' j = (if i \<le> j \<and> unat j < unat i + Suc n then con (pos + (unat j - unat i)) else buf j)" for j
    proof (cases "i + 1 \<le> j")
      case True
      then have ij: "unat i < unat j" using i1 by (simp add: word_le_nat_alt)
      have e: "Suc pos + (unat j - unat (i + 1)) = pos + (unat j - unat i)" using ij i1 by simp
      have "buf' j = (if unat j < unat i + Suc n then con (pos + (unat j - unat i)) else (buf(i := con pos)) j)"
        using IH(2) True i1 unfolding e [symmetric] by simp
      then show ?thesis using ij by (auto simp: word_le_nat_alt)
    next
      case False
      then show ?thesis using IH(2) i1 by (auto simp: word_le_nat_alt word_unat_eq_iff)
    qed
    then show ?thesis using IH r False untouched_trans [OF g(4) IH(5) subset_refl subset_refl] by simp
  qed
qed

text \<open>The next read reads behind the buffer.\<close>

lemma getc_behind:
  "f_cluster f \<noteq> 0 \<Longrightarrow> f_loc f = of_nat FAT64_CLUSTER_SIZE \<Longrightarrow>
   fat64_getc part f d = Inl (Fault ''fat64_getc: read outside the buffer'')"
  by (simp add: fat64_getc_def)

end
