(* ===== verification/Fat64_Write.thy ===== *)
theory Fat64_Write
  imports Fat64_Rw
begin

text \<open>
  Writing a byte and writing a buffer: the byte at the position is replaced, the size in
  the directory entry grows with the position, and a full chain is extended by the
  lowest free cluster.  Clusters outside the file and its directory are not touched.
\<close>

section \<open>The part after the end-of-file handling\<close>

definition grown :: "fat64_dir_entry_t \<Rightarrow> nat \<Rightarrow> fat64_dir_entry_t" where
  "grown e pos = e\<lparr>de_size := of_nat (max (unat (de_size e)) (Suc pos))\<rparr>"

lemma grown_simps [simp]:
  "de_parent (grown e pos) = de_parent e" "de_num (grown e pos) = de_num e" "de_file (grown e pos) = de_file e"
  "de_flags (grown e pos) = de_flags e" "normal_entry (grown e pos) = normal_entry e"
  by (simp_all add: grown_def normal_entry_def)

lemma unat_of_nat_u64: "n < 2 ^ 64 \<Longrightarrow> unat (of_nat n :: u64) = n"
  by (simp add: unat_of_nat)

lemma unat_u64_less: "unat (x :: u64) < 2 ^ 64"
  by (rule order_less_le_trans [OF unsigned_less]) simp

lemma grown_size: "Suc pos < 2 ^ 64 \<Longrightarrow> unat (de_size (grown e pos)) = max (unat (de_size e)) (Suc pos)"
proof -
  assume "Suc pos < 2 ^ 64"
  then have "max (unat (de_size e)) (Suc pos) < 2 ^ 64" using unat_u64_less [of "de_size e"] by simp
  moreover have "de_size (grown e pos) = of_nat (max (unat (de_size e)) (Suc pos))" by (simp add: grown_def)
  ultimately show ?thesis by (simp only: unat_of_nat_u64)
qed

lemma grown_same: "Suc pos \<le> unat (de_size e) \<Longrightarrow> grown e pos = e"
  by (simp add: grown_def max_absorb1)

lemma grown_next:
  assumes "unat (de_size e) = pos"
  shows "grown e pos = e\<lparr>de_size := de_size e + 1\<rparr>"
proof -
  have "of_nat (Suc pos) = de_size e + 1" unfolding assms [symmetric] by (simp add: add.commute)
  then show ?thesis using assms by (simp add: grown_def max_absorb2 del: of_nat_Suc)
qed

lemma putc_store_step:
  assumes l: "layout_ok part" and b: "buffered part d cs k f con" and loc: "unat (f_loc f) < FAT64_CLUSTER_SIZE"
    and pos: "pos = FAT64_CLUSTER_SIZE * k + unat (f_loc f)" and abs: "f_abs f = of_nat pos"
    and dir: "dir_ok part d cs (f_entry f)" and sz: "pos \<le> unat (de_size (f_entry f))"
  obtains f' d' where "putc_store part c f d = Inr (E_SUCCESS, f', d')"
    and "file_at part d' cs f' (con(pos := c)) (Suc pos)"
    and "f_entry f' = grown (f_entry f) pos" and "dir_ok part d' cs (f_entry f')"
    and "untouched part (insert (de_parent (f_entry f)) (set cs)) d d'"
    and "\<And>x. valid_cluster part x \<Longrightarrow> tag_of part d' x = tag_of part d x"
proof -
  note B = bufferedD [OF b]
  let ?e = "f_entry f" and ?X = "insert (de_parent (f_entry f)) (set cs)"
  let ?f1 = "f\<lparr>f_buf := (f_buf f)(unat (f_loc f) := c), f_loc := f_loc f + 1,
               f_abs := f_abs f + 1, f_dirty := True\<rparr>"
  let ?f2 = "?f1\<lparr>f_entry := grown ?e pos\<rparr>"
  have "FAT64_CLUSTER_SIZE * Suc k \<le> capacity cs" using B(2) by (simp add: capacity_def)
  then have posc: "Suc pos \<le> capacity cs" using loc pos by simp
  then have p64: "Suc pos < 2 ^ 64" using capacity_bound [OF l B(1)] by simp
  have "f_abs ?f1 = of_nat (Suc pos)" using abs by (simp add: add.commute)
  then have grow: "de_size (f_entry ?f1) < f_abs ?f1 \<longleftrightarrow> unat (de_size ?e) < Suc pos"
    using unat_of_nat_u64 [OF p64] by (simp add: word_less_nat_alt del: of_nat_Suc)
  have f2: "(if de_size (f_entry ?f1) < f_abs ?f1
      then ?f1\<lparr>f_entry := (f_entry ?f1)\<lparr>de_size := de_size (f_entry ?f1) + 1\<rparr>\<rparr> else ?f1) = ?f2"
    unfolding grow using sz grown_next [of ?e pos] grown_same [of pos ?e] by simp
  have b2: "buffered part d cs k ?f2 (con(pos := c))"
    using buffered_store [OF b loc, of c] pos by (simp add: buffered_def)
  obtain d2 where d2: "(if de_size (f_entry ?f1) < f_abs ?f1 then save_dir_entry part ?f2 d else Inr d) = Inr d2"
    "untouched part {de_parent ?e} d d2" "\<And>x. valid_cluster part x \<Longrightarrow> tag_of part d2 x = tag_of part d x"
    "get_entry (cdata part d2 (de_parent ?e)) (512 * unat (de_num ?e)) = grown ?e pos"
  proof (cases "unat (de_size ?e) < Suc pos")
    case True
    have P: "data_cluster part (de_parent (f_entry ?f2))" "unat (de_num (f_entry ?f2)) < 8" "normal_entry (f_entry ?f2)"
      using dir by (simp_all add: dir_ok_def)
    from save_dir_entry_effect [OF l P] obtain d' where "save_dir_entry part ?f2 d = Inr d'"
      "untouched part {de_parent (f_entry ?f2)} d d'" "\<And>x. valid_cluster part x \<Longrightarrow> tag_of part d' x = tag_of part d x"
      "get_entry (cdata part d' (de_parent (f_entry ?f2))) (512 * unat (de_num (f_entry ?f2))) = f_entry ?f2" by metis
    then show ?thesis using that [of d'] True grow by simp
  next
    case False
    then show ?thesis using that [of d] dir grow grown_same [of pos ?e] by (simp add: dir_ok_def)
  qed
  have data: "data_cluster part x" if "x \<in> set cs" for x using that B(1) by (simp add: chain_def)
  have par: "data_cluster part (de_parent ?e)" "de_parent ?e \<notin> set cs" using dir by (simp_all add: dir_ok_def)
  have "tag_of part d2 x = tag_of part d x \<and> cdata part d2 x = cdata part d x" if "x \<in> set cs" for x
    using d2(2) data [OF that] par(2) that unfolding untouched_def by blast
  then have b3: "buffered part d2 cs k ?f2 (con(pos := c))" by (rule buffered_disk [OF b2])
  have dir2: "dir_ok part d2 cs (grown ?e pos)"
    using dir d2(3,4) data_cluster_valid [OF par(1)] by (simp add: dir_ok_def free_clusters_def)
  have in_buf: "\<not> FAT64_CLUSTER_SIZE \<le> unat (f_loc f)" using loc by simp
  have put: "putc_store part c f d =
      (if f_loc ?f2 = of_nat FAT64_CLUSTER_SIZE then
         (case save_cluster part ?f2 d2 of
            (f3, d3) \<Rightarrow>
              if tag_next (f_tags f3) \<noteq> FAT64_CLUSTER_TAG_EOF then
                Inr (E_SUCCESS,
                  (open_cluster part d3 (f3\<lparr>f_cluster := tag_next (f_tags f3)\<rparr>))\<lparr>f_loc := 0\<rparr>, d3)
              else Inr (E_SUCCESS, f3\<lparr>f_loc := FAT64_EOF\<rparr>, d3))
       else Inr (E_SUCCESS, ?f2, d2))"
    unfolding putc_store_def Let_def f2 d2(1) by (simp only: in_buf andThen_Inr if_False)
  have X: "untouched part ?X d d2" using d2(2) by (auto simp: untouched_def)
  show ?thesis
  proof (cases "Suc (unat (f_loc f)) = FAT64_CLUSTER_SIZE")
    case False
    then have "putc_store part c f d = Inr (E_SUCCESS, ?f2, d2)"
      using put loc_end_iff [OF loc] by simp
    moreover have "file_at part d2 cs ?f2 (con(pos := c)) (Suc pos)"
      unfolding file_at_def using l b3 abs False unat_loc_Suc [OF loc] loc pos
      by (intro conjI exI [of _ k] disjI2) (simp_all add: add.commute)
    ultimately show ?thesis using that dir2 X d2(3) by simp
  next
    case True
    from advance [OF l b3] obtain f3 d3 where a: "save_cluster part ?f2 d2 = (f3, d3)"
      "f3 = ?f2\<lparr>f_dirty := False\<rparr>" "buffered part d3 cs k f3 (con(pos := c))"
      "Suc k < length cs \<Longrightarrow> tag_next (f_tags f3) \<noteq> FAT64_CLUSTER_TAG_EOF"
      "Suc k < length cs \<Longrightarrow>
        buffered part d3 cs (Suc k) ((open_cluster part d3 (f3\<lparr>f_cluster := tag_next (f_tags f3)\<rparr>))\<lparr>f_loc := 0\<rparr>) (con(pos := c))"
      "\<not> Suc k < length cs \<Longrightarrow> tag_next (f_tags f3) = FAT64_CLUSTER_TAG_EOF"
      "\<And>x. valid_cluster part x \<Longrightarrow> tag_of part d3 x = tag_of part d2 x" "untouched part (set cs) d2 d3" by metis
    have "cdata part d3 (de_parent ?e) = cdata part d2 (de_parent ?e)" "tag_of part d3 (de_parent ?e) = tag_of part d2 (de_parent ?e)"
      using a(8) par unfolding untouched_def by blast+
    then have dir3: "dir_ok part d3 cs (grown ?e pos)" by (intro dir_ok_cong [OF dir2]) (simp_all add: par(2))
    have X3: "untouched part ?X d d3" by (rule untouched_trans [OF X a(8)]) auto
    have t3: "tag_of part d3 x = tag_of part d x" if "valid_cluster part x" for x
      using a(7) d2(3) that by simp
    have ps: "Suc pos = FAT64_CLUSTER_SIZE * Suc k" using pos True by simp
    have abs3: "f_abs f3 = of_nat (Suc pos)" using a(2) abs by (simp add: add.commute)
    have e: "f_loc ?f2 = of_nat FAT64_CLUSTER_SIZE" using True loc_end_iff [OF loc] by simp
    show ?thesis
    proof (cases "Suc k < length cs")
      case s: True
      let ?f4 = "(open_cluster part d3 (f3\<lparr>f_cluster := tag_next (f_tags f3)\<rparr>))\<lparr>f_loc := 0\<rparr>"
      have "putc_store part c f d = Inr (E_SUCCESS, ?f4, d3)" using put e a(1) a(4) [OF s] by simp
      moreover have "file_at part d3 cs ?f4 (con(pos := c)) (Suc pos)"
        unfolding file_at_def using l a(5) [OF s] abs3 ps
        by (intro conjI exI [of _ "Suc k"] disjI2) simp_all
      ultimately show ?thesis using that dir3 X3 t3 a(2) by simp
    next
      case s: False
      then have "Suc k = length cs" using B(2) by simp
      have "putc_store part c f d = Inr (E_SUCCESS, f3\<lparr>f_loc := FAT64_EOF\<rparr>, d3)" using put e a(1) a(6) [OF s] by simp
      moreover have "file_at part d3 cs (f3\<lparr>f_loc := FAT64_EOF\<rparr>) (con(pos := c)) (Suc pos)"
      proof -
        have "Suc pos = capacity cs" using ps \<open>Suc k = length cs\<close> by (simp only: capacity_def)
        then show ?thesis
          unfolding file_at_def using l a(3) abs3 \<open>Suc k = length cs\<close>
          by (intro conjI exI [of _ k] disjI1) simp_all
      qed
      ultimately show ?thesis using that dir3 X3 t3 a(2) by simp
    qed
  qed
qed

section \<open>A byte at the position\<close>

lemma finite_free [simp]: "finite (free_clusters part d)"
  by simp

lemma free_clusters_cong:
  "(\<And>c. valid_cluster part c \<Longrightarrow> tag_of part d' c = tag_of part d c) \<Longrightarrow> free_clusters part d' = free_clusters part d"
  by (auto simp: free_clusters_def)

text \<open>What a write of \<open>n\<close> bytes from \<open>pos\<close> may change, and what it must establish.\<close>

definition written ::
  "fat64_partition_t \<Rightarrow> disk \<Rightarrow> u64 list \<Rightarrow> fat64_file_t \<Rightarrow> disk \<Rightarrow> u64 list \<Rightarrow> fat64_file_t \<Rightarrow> bool" where
  "written part d cs f d' cs' f' \<longleftrightarrow>
     fs_ok part d' \<and> dir_ok part d' cs' (f_entry f') \<and>
     (\<exists>new. cs' = cs @ new \<and> set new \<subseteq> free_clusters part d) \<and>
     free_clusters part d' \<subseteq> free_clusters part d \<and>
     length cs' + card (free_clusters part d') = length cs + card (free_clusters part d) \<and>
     untouched part (insert (de_parent (f_entry f)) (set cs')) d d' \<and>
     de_parent (f_entry f') = de_parent (f_entry f) \<and> de_flags (f_entry f') = de_flags (f_entry f) \<and>
     de_num (f_entry f') = de_num (f_entry f) \<and> de_file (f_entry f') = de_file (f_entry f)"

lemma written_refl: "fs_ok part d \<Longrightarrow> dir_ok part d cs (f_entry f) \<Longrightarrow> written part d cs f d cs f"
  by (simp add: written_def)

lemma written_trans:
  assumes "written part d cs f d1 cs1 f1" and "written part d1 cs1 f1 d2 cs2 f2"
  shows "written part d cs f d2 cs2 f2"
proof -
  have "untouched part (insert (de_parent (f_entry f)) (set cs1)) d d1"
    "untouched part (insert (de_parent (f_entry f)) (set cs2)) d1 d2" "set cs1 \<subseteq> set cs2"
    using assms by (auto simp: written_def)
  then have "untouched part (insert (de_parent (f_entry f)) (set cs2)) d d2"
    by (rule untouched_trans [OF _ _ insert_mono]) simp_all
  then show ?thesis using assms by (fastforce simp: written_def)
qed

lemma putc_step:
  assumes f: "file_at part d cs f con pos" and ok: "fs_ok part d" and dir: "dir_ok part d cs (f_entry f)"
    and sz: "pos \<le> unat (de_size (f_entry f))" and nd: "de_flags (f_entry f) AND FAT64_DIRECTORY_FLAG = 0"
    and room: "pos < capacity cs \<or> free_clusters part d \<noteq> {}"
  obtains f' d' cs' con' where "fat64_putc part c f d = Inr (E_SUCCESS, f', d')"
    and "file_at part d' cs' f' con' (Suc pos)" and "con' pos = c"
    and "\<And>x. x < capacity cs \<Longrightarrow> x \<noteq> pos \<Longrightarrow> con' x = con x"
    and "f_entry f' = grown (f_entry f) pos" and "written part d cs f d' cs' f'"
proof (cases "pos < capacity cs")
  case True
  from file_atE [OF f True] obtain k where k: "layout_ok part" "buffered part d cs k f con"
    "unat (f_loc f) < FAT64_CLUSTER_SIZE" "pos = FAT64_CLUSTER_SIZE * k + unat (f_loc f)" "f_abs f = of_nat pos"
    "f_loc f \<noteq> FAT64_EOF" .
  from putc_store_step [OF k(1-5) dir sz, of c] obtain f' d' where s: "putc_store part c f d = Inr (E_SUCCESS, f', d')"
    "file_at part d' cs f' (con(pos := c)) (Suc pos)" "f_entry f' = grown (f_entry f) pos"
    "dir_ok part d' cs (f_entry f')" "untouched part (insert (de_parent (f_entry f)) (set cs)) d d'"
    "\<And>x. valid_cluster part x \<Longrightarrow> tag_of part d' x = tag_of part d x" by metis
  have "fat64_putc part c f d = Inr (E_SUCCESS, f', d')"
    using file_at_not_0 [OF f] k(6) s(1) by (simp add: fat64_putc_def)
  moreover have "free_clusters part d' = free_clusters part d" by (rule free_clusters_cong [OF s(6)])
  then have "written part d cs f d' cs f'"
    using ok s by (simp add: written_def fs_ok_def)
  ultimately show ?thesis using that s(2,3) by simp
next
  case False
  from file_at_end [OF f False] obtain k where k: "layout_ok part" "buffered part d cs k f con" "f_loc f = FAT64_EOF"
    "Suc k = length cs" "pos = capacity cs" "f_abs f = of_nat pos" .
  note B = bufferedD [OF k(2)]
  from get_free_cluster_some [OF k(1), of d "f_cluster f" FAT64_CLUSTER_TAG_EOF] room False
  obtain n where n: "n \<in> free_clusters part d"
    "get_free_cluster part (f_cluster f) FAT64_CLUSTER_TAG_EOF d =
       (n, mark_cluster part n (f_cluster f) FAT64_CLUSTER_TAG_EOF d)" by blast
  have nd': "data_cluster part n" using ok n(1) by (simp add: fs_ok_def)
  have ne: "n \<noteq> FAT64_CLUSTER_TAG_EOF" by (rule valid_cluster_not_EOF [OF k(1) data_cluster_valid [OF nd']])
  let ?f1 = "f\<lparr>f_tags := (f_tags f)\<lparr>tag_next := n\<rparr>\<rparr>"
  let ?d2 = "save_cluster_tags part ?f1 (mark_cluster part n (f_cluster f) FAT64_CLUSTER_TAG_EOF d)"
  let ?con = "\<lambda>x. if x < capacity cs then con x else cdata part d n (x - capacity cs)"
  note E1 = buffered_extend(1) [OF k(1,2,4) n(1) nd', of "f_cluster f"]
    and E3 = buffered_extend(3) [OF k(1,2,4) n(1) nd', of "f_cluster f"]
    and E4 = buffered_extend(4) [OF k(1,2,4) n(1) nd', of "f_cluster f"]
  have sk: "Suc k < length (cs @ [n])" using k(4) by simp
  obtain f2 d3 where a: "save_cluster part ?f1 ?d2 = (f2, d3)"
    "f2 = ?f1\<lparr>f_dirty := False\<rparr>"
    "buffered part d3 (cs @ [n]) (Suc k) ((open_cluster part d3 (f2\<lparr>f_cluster := tag_next (f_tags f2)\<rparr>))\<lparr>f_loc := 0\<rparr>) ?con"
    "\<And>x. valid_cluster part x \<Longrightarrow> tag_of part d3 x = tag_of part ?d2 x" "untouched part (set (cs @ [n])) ?d2 d3"
    by (rule advance [OF k(1) E1]) (use sk in blast)
  let ?f4 = "(open_cluster part d3 (f2\<lparr>f_cluster := tag_next (f_tags f2)\<rparr>))\<lparr>f_loc := 0\<rparr>"
  have e4: "f_entry ?f4 = f_entry f" "f_loc ?f4 = 0" "f_abs ?f4 = of_nat pos" using a(2) k(6) by simp_all
  have u3: "untouched part (set (cs @ [n])) d d3" by (rule untouched_trans [OF E4 a(5)]) auto
  have par: "data_cluster part (de_parent (f_entry f))" "de_parent (f_entry f) \<notin> set (cs @ [n])"
    using dir n(1) by (auto simp: dir_ok_def)
  have dir3: "dir_ok part d3 (cs @ [n]) (f_entry ?f4)"
    unfolding e4 by (rule dir_ok_cong [OF dir]) (use u3 par in \<open>simp_all add: untouched_def\<close>)
  have pos4: "pos = FAT64_CLUSTER_SIZE * Suc k + unat (f_loc ?f4)"
    unfolding e4 k(4,5) by (simp add: capacity_def)
  have loc4: "unat (f_loc ?f4) < FAT64_CLUSTER_SIZE" and sz4: "pos \<le> unat (de_size (f_entry ?f4))"
    unfolding e4 using sz by simp_all
  from putc_store_step [OF k(1) a(3) loc4 pos4 e4(3) dir3 sz4, of c, unfolded e4(1)] obtain f' d' where
    s: "putc_store part c ?f4 d3 = Inr (E_SUCCESS, f', d')"
    "file_at part d' (cs @ [n]) f' (?con(pos := c)) (Suc pos)" "f_entry f' = grown (f_entry f) pos"
    "dir_ok part d' (cs @ [n]) (f_entry f')"
    "untouched part (insert (de_parent (f_entry f)) (set (cs @ [n]))) d3 d'"
    "\<And>x. valid_cluster part x \<Longrightarrow> tag_of part d' x = tag_of part d3 x"
    by blast
  have "fat64_putc part c f d = Inr (E_SUCCESS, f', d')"
    using file_at_not_0 [OF f] k(3) nd n(2) ne a(1) s(1) by (simp add: fat64_putc_def Let_def)
  moreover have fr: "free_clusters part d' = free_clusters part d - {n}"
  proof -
    have "free_clusters part d' = free_clusters part ?d2"
      by (rule free_clusters_cong) (simp only: s(6) a(4))
    then show ?thesis unfolding E3 .
  qed
  moreover have "card (free_clusters part d) = Suc (card (free_clusters part d'))"
    unfolding fr by (rule card_Suc_Diff1 [OF finite_free n(1), symmetric])
  moreover have "untouched part (insert (de_parent (f_entry f)) (set (cs @ [n]))) d d'"
    by (rule untouched_trans [OF u3 s(5)]) auto
  ultimately have "written part d cs f d' (cs @ [n]) f'"
    using ok s(3,4) n(1) by (auto simp: written_def fs_ok_def)
  then show ?thesis using that [OF \<open>fat64_putc part c f d = _\<close> s(2)] s(3) k(5) by simp
qed

section \<open>A buffer\<close>

lemma write_loop_steps:
  assumes "file_at part d cs f con pos" and "fs_ok part d" and "dir_ok part d cs (f_entry f)"
    and "pos \<le> unat (de_size (f_entry f))" and "de_flags (f_entry f) AND FAT64_DIRECTORY_FLAG = 0"
    and "pos + n \<le> capacity cs + FAT64_CLUSTER_SIZE * card (free_clusters part d)"
    and "unat amount < 2 ^ 32" and "unat i + n = unat amount"
  shows "\<exists>f' d' cs' con'. write_loop part amount i buf f d = Some (Inr (E_SUCCESS, f', d')) \<and>
     file_at part d' cs' f' con' (pos + n) \<and> written part d cs f d' cs' f' \<and>
     (\<forall>j < n. con' (pos + j) = buf (i + of_nat j)) \<and>
     (\<forall>x < capacity cs. x < pos \<or> pos + n \<le> x \<longrightarrow> con' x = con x) \<and>
     unat (de_size (f_entry f')) = max (unat (de_size (f_entry f))) (pos + n)"
  using assms
proof (induction n arbitrary: cs pos i f d con)
  case 0
  then have "\<not> ucast i < amount" by (simp add: word_less_nat_alt unat_ucast_high)
  then have "write_loop part amount i buf f d = Some (Inr (E_SUCCESS, f, d))"
    by (subst write_loop.simps) simp
  then show ?case using 0 written_refl [OF 0(2,3)]
    by (intro exI [of _ f] exI [of _ d] exI [of _ cs] exI [of _ con]) (simp add: max_absorb1)
next
  case (Suc n)
  have lt: "ucast i < amount" using Suc.prems(8) by (simp add: word_less_nat_alt unat_ucast_high)
  have i1: "unat (i + 1) = Suc (unat i)" using Suc.prems(7,8) by (subst unat_add_low) simp_all
  have room: "pos < capacity cs \<or> free_clusters part d \<noteq> {}" using Suc.prems(6) by (cases "free_clusters part d = {}") auto
  from putc_step [OF Suc.prems(1-5) room, of "buf i"] obtain f1 d1 cs1 con1 where
    p: "fat64_putc part (buf i) f d = Inr (E_SUCCESS, f1, d1)" "file_at part d1 cs1 f1 con1 (Suc pos)" "con1 pos = buf i"
    "\<And>x. x < capacity cs \<Longrightarrow> x \<noteq> pos \<Longrightarrow> con1 x = con x" "f_entry f1 = grown (f_entry f) pos"
    "written part d cs f d1 cs1 f1" by metis
  have r: "write_loop part amount i buf f d = write_loop part amount (i + 1) buf f1 d1"
    by (subst write_loop.simps) (simp add: lt p(1))
  have cap: "capacity cs1 + FAT64_CLUSTER_SIZE * card (free_clusters part d1) =
      capacity cs + FAT64_CLUSTER_SIZE * card (free_clusters part d)"
  proof -
    have "length cs1 + card (free_clusters part d1) = length cs + card (free_clusters part d)"
      using p(6) by (simp add: written_def)
    then show ?thesis unfolding capacity_def by linarith
  qed
  have le: "capacity cs \<le> capacity cs1" using p(6) by (auto simp: written_def capacity_def)
  have "Suc pos < 2 ^ 64"
    using file_at_le [OF p(2)] capacity_bound [of part d1 cs1] file_at_chain [OF p(2)] by simp
  then have size1: "unat (de_size (f_entry f1)) = max (unat (de_size (f_entry f))) (Suc pos)"
    using p(5) grown_size by simp
  have A: "fs_ok part d1" "dir_ok part d1 cs1 (f_entry f1)" "Suc pos \<le> unat (de_size (f_entry f1))"
    "de_flags (f_entry f1) AND FAT64_DIRECTORY_FLAG = 0"
    "Suc pos + n \<le> capacity cs1 + FAT64_CLUSTER_SIZE * card (free_clusters part d1)"
    using p(6) Suc.prems(5,6) size1 cap by (simp_all add: written_def)
  from Suc.IH [OF p(2) A Suc.prems(7), of "i + 1"] Suc.prems(8) i1 obtain f' d' cs' con' where
    IH: "write_loop part amount (i + 1) buf f1 d1 = Some (Inr (E_SUCCESS, f', d'))"
    "file_at part d' cs' f' con' (Suc pos + n)" "written part d1 cs1 f1 d' cs' f'"
    "\<forall>j < n. con' (Suc pos + j) = buf (i + 1 + of_nat j)"
    "\<forall>x < capacity cs1. x < Suc pos \<or> Suc pos + n \<le> x \<longrightarrow> con' x = con1 x"
    "unat (de_size (f_entry f')) = max (unat (de_size (f_entry f1))) (Suc pos + n)" by auto
  have "Suc pos \<le> capacity cs1" by (rule file_at_le [OF p(2)])
  then have new: "con' (pos + j) = buf (i + of_nat j)" if "j < Suc n" for j
    using that IH(4,5) p(3) by (cases j) (auto simp: add.assoc)
  have old: "con' x = con x" if "x < capacity cs" "x < pos \<or> pos + Suc n \<le> x" for x
    using that IH(5) p(4) le by auto
  show ?case
    using r IH(1,2,6) new old size1 written_trans [OF p(6) IH(3)]
    by (intro exI [of _ f'] exI [of _ d'] exI [of _ cs'] exI [of _ con']) simp
qed

end
