(* ===== verification/Fat64_Dirs.thy ===== *)
theory Fat64_Dirs
  imports Fat64_Write
begin

text \<open>
  Directories: opening the file of an entry, creating one, removing one; and a file as
  a whole: what was written and flushed is what a later reader reads.
\<close>

section \<open>Files of a directory\<close>

definition entry_of :: "fat64_partition_t \<Rightarrow> disk \<Rightarrow> u64 \<Rightarrow> nat \<Rightarrow> fat64_dir_entry_t" where
  "entry_of part d p i = get_entry (cdata part d p) (512 * i)"

text \<open>Entry \<open>i\<close> of the directory cluster \<open>p\<close> names a file whose clusters are \<open>cs\<close>.\<close>

definition is_file :: "fat64_partition_t \<Rightarrow> disk \<Rightarrow> u64 \<Rightarrow> nat \<Rightarrow> u64 list \<Rightarrow> bool" where
  "is_file part d p i cs \<longleftrightarrow>
     i < 8 \<and> chain part d cs \<and> hd cs = de_file (entry_of part d p i) \<and>
     de_flags (entry_of part d p i) = FAT64_VALID_FLAG \<and> de_parent (entry_of part d p i) = p \<and>
     unat (de_num (entry_of part d p i)) = i \<and> dir_ok part d cs (entry_of part d p i)"

lemma load_cluster_buf: "i < FAT64_CLUSTER_SIZE \<Longrightarrow> f_buf (load_cluster part d f) i = cdata part d (f_cluster f) i"
  by (simp add: load_cluster_eq blit_def)

lemma load_entry:
  assumes "i < 8"
  shows "get_entry (f_buf (load_cluster part d f)) (512 * i) = entry_of part d (f_cluster f) i"
  unfolding entry_of_def by (rule get_entry_cong) (use assms in \<open>simp add: load_cluster_buf\<close>)

text \<open>The handle that \<^verbatim>\<open>fat64_dir_entry\<close> opens.\<close>

definition opened :: "fat64_partition_t \<Rightarrow> disk \<Rightarrow> fat64_dir_entry_t \<Rightarrow> fat64_file_t" where
  "opened part d e = open_cluster part d (zero_file\<lparr>f_entry := e, f_cluster := de_file e\<rparr>)"

lemma dir_entry_open:
  assumes "i < 8" and "de_flags (entry_of part d (f_cluster dir) i) = FAT64_VALID_FLAG"
  shows "fat64_dir_entry part dir (of_nat i) f d =
     Inr (E_SUCCESS, load_cluster part d dir, opened part d (entry_of part d (f_cluster dir) i))"
proof -
  have "unat (of_nat i :: u64) = i" using assms(1) by (simp add: unat_of_nat)
  then have "\<not> 8 < (of_nat i :: u64)" "(of_nat i :: u64) \<noteq> 8" "unat (of_nat i :: u64) = i"
    using assms(1) by (auto simp: word_less_nat_alt)
  then show ?thesis
    using assms load_entry [OF assms(1), of part d dir] by (simp add: fat64_dir_entry_def opened_def Let_def)
qed

lemma dir_entry_invalid:
  assumes "i < 8" and "de_flags (entry_of part d (f_cluster dir) i) AND FAT64_VALID_FLAG = 0"
  shows "fat64_dir_entry part dir (of_nat i) f d = Inr (FAT64_EOF, load_cluster part d dir, f)"
proof -
  have "unat (of_nat i :: u64) = i" using assms(1) by (simp add: unat_of_nat)
  then have "\<not> 8 < (of_nat i :: u64)" "(of_nat i :: u64) \<noteq> 8" "unat (of_nat i :: u64) = i"
    using assms(1) by (auto simp: word_less_nat_alt)
  then show ?thesis
    using assms load_entry [OF assms(1), of part d dir] by (simp add: fat64_dir_entry_def Let_def)
qed

lemma opened_entry [simp]: "f_entry (opened part d e) = e"
  by (simp add: opened_def)

lemma opened_at:
  assumes l: "layout_ok part" and f: "is_file part d p i cs"
  shows "file_at part d cs (opened part d (entry_of part d p i)) (file_byte part d cs) 0"
proof -
  have c: "chain part d cs" "cs \<noteq> []" "de_file (entry_of part d p i) = cs ! 0"
    using f by (auto simp: is_file_def chain_def hd_conv_nth)
  have "buffered part d cs 0 (opened part d (entry_of part d p i)) (file_byte part d cs)"
    unfolding opened_def by (rule buffered_open) (use c in \<open>simp_all add: zero_file_def\<close>)
  moreover have "f_loc (opened part d (entry_of part d p i)) = 0" "f_abs (opened part d (entry_of part d p i)) = 0"
    by (simp_all add: opened_def zero_file_def)
  ultimately show ?thesis using l by (auto simp: file_at_def intro!: exI [of _ 0])
qed

section \<open>Write, flush, open, read\<close>

lemma flush_file:
  assumes f: "file_at part d cs f con pos" and ok: "fs_ok part d" and dir: "dir_ok part d cs (f_entry f)"
  obtains f' d' where "fat64_flush part f d = (f', d')" and "fs_ok part d'" and "chain part d' cs"
    and "\<And>x. x < capacity cs \<Longrightarrow> file_byte part d' cs x = con x"
    and "dir_ok part d' cs (f_entry f)" and "f_entry f' = f_entry f"
    and "free_clusters part d' = free_clusters part d" and "untouched part (set cs) d d'"
proof -
  from f obtain k where k: "layout_ok part" "buffered part d cs k f con" by (auto simp: file_at_def)
  obtain f' d' where s: "save_cluster part f d = (f', d')" "f' = f\<lparr>f_dirty := False\<rparr>" "buffered part d' cs k f' con"
    "\<And>c. valid_cluster part c \<Longrightarrow> tag_of part d' c = tag_of part d c" "untouched part (set cs) d d'"
    by (rule advance [OF k]) blast
  have fr: "free_clusters part d' = free_clusters part d" by (rule free_clusters_cong [OF s(4)])
  show ?thesis
  proof (rule that)
    show "fat64_flush part f d = (f', d')" using s(1) by (simp add: fat64_flush_def)
    show "fs_ok part d'" using ok fr by (simp add: fs_ok_def)
    show "chain part d' cs" by (rule bufferedD(1) [OF s(3)])
    show "file_byte part d' cs x = con x" if "x < capacity cs" for x
      using buffered_clean [OF s(3) _ that] s(2) by simp
    show "dir_ok part d' cs (f_entry f)"
      by (rule dir_ok_cong [OF dir]) (use dir s(5) in \<open>simp_all add: dir_ok_def untouched_def\<close>)
    show "f_entry f' = f_entry f" using s(2) by simp
  qed (rule fr s(5))+
qed

text \<open>A file after a buffer was written from its start and flushed.\<close>

lemma write_flush:
  assumes ok: "fs_ok part d" and fl: "is_file part d p i cs"
    and n: "unat amount \<le> capacity cs + FAT64_CLUSTER_SIZE * card (free_clusters part d)" "unat amount < 2 ^ 32"
  obtains f1 d1 f2 d2 new where
    "fat64_write part amount buf (opened part d (entry_of part d p i)) d = Some (Inr (E_SUCCESS, f1, d1))"
    and "fat64_flush part f1 d1 = (f2, d2)" and "fs_ok part d2" and "is_file part d2 p i (cs @ new)"
    and "unat amount \<le> capacity (cs @ new)"
    and "\<And>x. x < unat amount \<Longrightarrow> file_byte part d2 (cs @ new) x = buf (of_nat x)"
    and "\<And>x. x < capacity cs \<Longrightarrow> unat amount \<le> x \<Longrightarrow> file_byte part d2 (cs @ new) x = file_byte part d cs x"
    and "unat (de_size (entry_of part d2 p i)) = max (unat (de_size (entry_of part d p i))) (unat amount)"
    and "set new \<subseteq> free_clusters part d" and "untouched part (insert p (set (cs @ new))) d d2"
proof -
  let ?e = "entry_of part d p i" and ?f = "opened part d (entry_of part d p i)"
  have l: "layout_ok part" by (rule fs_ok_layout [OF ok])
  have e: "dir_ok part d cs (f_entry ?f)" "de_flags (f_entry ?f) AND FAT64_DIRECTORY_FLAG = 0"
    using fl by (simp_all add: is_file_def)
  have n0: "0 \<le> unat (de_size (f_entry ?f))" "0 + unat amount \<le> capacity cs + FAT64_CLUSTER_SIZE * card (free_clusters part d)"
    "unat (0 :: u32) + unat amount = unat amount" using n by simp_all
  from write_loop_steps [OF opened_at [OF l fl] ok e(1) n0(1) e(2) n0(2) n(2) n0(3), of buf] obtain f1 d1 cs1 con1 where
    w: "write_loop part amount 0 buf ?f d = Some (Inr (E_SUCCESS, f1, d1))" "file_at part d1 cs1 f1 con1 (0 + unat amount)"
    "written part d cs ?f d1 cs1 f1" "\<forall>j < unat amount. con1 (0 + j) = buf (0 + of_nat j)"
    "\<forall>x < capacity cs. x < 0 \<or> 0 + unat amount \<le> x \<longrightarrow> con1 x = file_byte part d cs x"
    "unat (de_size (f_entry f1)) = max (unat (de_size (f_entry ?f))) (0 + unat amount)" by blast
  have d1: "fs_ok part d1" "dir_ok part d1 cs1 (f_entry f1)" "de_parent (f_entry f1) = p" "de_flags (f_entry f1) = FAT64_VALID_FLAG"
    "unat (de_num (f_entry f1)) = i" "de_file (f_entry f1) = hd cs" "untouched part (insert p (set cs1)) d d1"
    using w(3) fl by (auto simp: written_def is_file_def)
  obtain new where new: "cs1 = cs @ new" "set new \<subseteq> free_clusters part d" using w(3) by (auto simp: written_def)
  from flush_file [OF w(2) d1(1,2)] obtain f2 d2 where
    s: "fat64_flush part f1 d1 = (f2, d2)" "fs_ok part d2" "chain part d2 cs1"
    "\<And>x. x < capacity cs1 \<Longrightarrow> file_byte part d2 cs1 x = con1 x" "dir_ok part d2 cs1 (f_entry f1)"
    "untouched part (set cs1) d1 d2" by metis
  have e2: "entry_of part d2 p i = f_entry f1"
    using s(5) d1(3,5) by (simp add: dir_ok_def entry_of_def)
  have le: "unat amount \<le> capacity cs1" using file_at_le [OF w(2)] by simp
  have cap: "capacity cs \<le> capacity cs1" using new by (simp add: capacity_def)
  have "hd cs1 = hd cs" using new fl by (auto simp: is_file_def chain_def hd_append)
  then have f2: "is_file part d2 p i cs1"
    using fl s(3,5) e2 d1(3-6) by (simp add: is_file_def)
  have u: "untouched part (insert p (set cs1)) d d2" by (rule untouched_trans [OF d1(7) s(6)]) auto
  show ?thesis
    by (rule that [of f1 d1 f2 d2 new])
      (use w s f2 e2 le cap u new in \<open>auto simp: fat64_write_def\<close>)
qed

lemma read_file:
  assumes ok: "fs_ok part d" and fl: "is_file part d p i cs"
    and n: "unat amount \<le> capacity cs" "unat amount < 2 ^ 32"
  obtains f' d' buf' where
    "fat64_read part amount buf (opened part d (entry_of part d p i)) d = Some (Inr (E_SUCCESS, buf', f', d'))"
    and "\<And>j. unat j < unat amount \<Longrightarrow> buf' j = file_byte part d cs (unat j)"
    and "\<And>j. \<not> unat j < unat amount \<Longrightarrow> buf' j = buf j"
proof -
  have l: "layout_ok part" by (rule fs_ok_layout [OF ok])
  from read_loop_steps [OF opened_at [OF l fl], of "unat amount" amount 0 buf] n
  show ?thesis using that by (auto simp: fat64_read_def)
qed

section \<open>Reading past the last cluster\<close>

lemma read_loop_behind:
  assumes "file_at part d cs f con pos" and "pos + n = capacity cs" and "0 < n" and "unat amount < 2 ^ 32"
    and "unat i + n < unat amount"
  shows "read_loop part amount i buf f d = Some (Inl (Fault ''fat64_getc: read outside the buffer''))"
  using assms
proof (induction n arbitrary: pos i buf f d)
  case (Suc n)
  have lt: "ucast i < amount" using Suc.prems(5) by (simp add: word_less_nat_alt unat_ucast_high)
  have i1: "unat (i + 1) = Suc (unat i)" using Suc.prems(4,5) by (subst unat_add_low) simp_all
  have lt_cap: "pos < capacity cs" using Suc.prems(2) by simp
  obtain f1 d1 where g:
    "fat64_getc part f d = Inr (E_SUCCESS, Some (con pos), f1, d1)"
    "Suc pos < capacity cs \<Longrightarrow> file_at part d1 cs f1 con (Suc pos)"
    "Suc pos = capacity cs \<Longrightarrow> f_cluster f1 \<noteq> 0 \<and> f_loc f1 = of_nat FAT64_CLUSTER_SIZE"
    by (rule getc_step [OF Suc.prems(1) lt_cap]) blast
  have r: "read_loop part amount i buf f d = read_loop part amount (i + 1) (buf(i := con pos)) f1 d1"
    by (subst read_loop.simps) (simp add: lt g(1) Let_def)
  show ?case
  proof (cases "n = 0")
    case True
    then have "fat64_getc part f1 d1 = Inl (Fault ''fat64_getc: read outside the buffer'')"
      using g(3) Suc.prems(2) by (intro getc_behind) simp_all
    moreover have "ucast (i + 1) < amount" using Suc.prems(5) i1 by (simp add: word_less_nat_alt unat_ucast_high)
    ultimately show ?thesis unfolding r by (subst read_loop.simps) simp
  next
    case False
    then show ?thesis unfolding r
      by (intro Suc.IH [OF g(2)]) (use Suc.prems i1 in simp_all)
  qed
qed simp

section \<open>Creating a file\<close>

lemma free_entry_scan_spec:
  "free_entry_scan b i n \<le> i + n \<and>
   (\<forall>j. i \<le> j \<and> j < free_entry_scan b i n \<longrightarrow> de_flags (get_entry b (512 * j)) AND FAT64_VALID_FLAG \<noteq> 0) \<and>
   (free_entry_scan b i n < i + n \<longrightarrow>
      de_flags (get_entry b (512 * free_entry_scan b i n)) AND FAT64_VALID_FLAG = 0)"
proof (induction n arbitrary: i)
  case (Suc n)
  note IH = Suc [of "i + 1"]
  show ?case
  proof (cases "de_flags (get_entry b (512 * i)) AND FAT64_VALID_FLAG = 0")
    case False
    have "de_flags (get_entry b (512 * j)) AND FAT64_VALID_FLAG \<noteq> 0"
      if "i \<le> j" "j < free_entry_scan b (i + 1) n" for j
      using IH that False by (cases "j = i") simp_all
    then show ?thesis using IH False by simp
  qed auto
qed auto

lemma free_entry_least:
  assumes "i < 8" and "de_flags (get_entry b (512 * i)) AND FAT64_VALID_FLAG = 0"
    and "\<forall>j < i. de_flags (get_entry b (512 * j)) AND FAT64_VALID_FLAG \<noteq> 0"
  shows "free_entry_scan b 0 8 = i"
  using free_entry_scan_spec [of b 0 8] assms by (metis add_0 le_neq_implies_less linorder_neqE_nat zero_le)

lemma free_entry_full:
  assumes "\<forall>j < 8. de_flags (get_entry b (512 * j)) AND FAT64_VALID_FLAG \<noteq> 0"
  shows "free_entry_scan b 0 8 = 8"
  using free_entry_scan_spec [of b 0 8] assms by (metis add_0 le_neq_implies_less)

text \<open>The handle of a directory whose buffer is up to date.\<close>

definition dir_handle :: "fat64_partition_t \<Rightarrow> disk \<Rightarrow> u64 \<Rightarrow> fat64_file_t \<Rightarrow> bool" where
  "dir_handle part d p dir \<longleftrightarrow>
     f_cluster dir = p \<and> de_file (f_entry dir) = p \<and> data_cluster part p \<and> p \<notin> free_clusters part d \<and>
     (\<forall>x < FAT64_CLUSTER_SIZE. f_buf dir x = cdata part d p x)"

lemma dir_handle_entry:
  "dir_handle part d p dir \<Longrightarrow> i < 8 \<Longrightarrow> get_entry (f_buf dir) (512 * i) = entry_of part d p i"
  unfolding entry_of_def by (rule get_entry_cong) (simp add: dir_handle_def)

lemma touch_file:
  assumes ok: "fs_ok part d" and dir: "dir_handle part d p dir" and name: "length name < 256"
    and i: "i < 8" "de_flags (entry_of part d p i) AND FAT64_VALID_FLAG = 0"
      "\<forall>j < i. de_flags (entry_of part d p j) AND FAT64_VALID_FLAG \<noteq> 0"
    and free: "free_clusters part d \<noteq> {}"
  obtains c d' where "fat64_touch part dir name d = Inr (E_SUCCESS, load_cluster part d dir, d')"
    and "c \<in> free_clusters part d" and "\<forall>c' \<in> free_clusters part d. c \<le> c'"
    and "fs_ok part d'" and "is_file part d' p i [c]" and "free_clusters part d' = free_clusters part d - {c}"
    and "de_size (entry_of part d' p i) = 0"
    and "\<And>j. j < length name \<Longrightarrow> de_name (entry_of part d' p i) j = name ! j"
    and "de_name (entry_of part d' p i) (length name) = 0"
    and "\<And>j. j < 8 \<Longrightarrow> j \<noteq> i \<Longrightarrow> entry_of part d' p j = entry_of part d p j"
    and "untouched part {p, c} d d'"
proof -
  have l: "layout_ok part" by (rule fs_ok_layout [OF ok])
  have p: "data_cluster part p" "p \<notin> free_clusters part d" "f_cluster dir = p" "de_file (f_entry dir) = p"
    using dir by (simp_all add: dir_handle_def)
  have sc: "free_entry_scan (f_buf dir) 0 8 = i"
    by (rule free_entry_least) (use i dir_handle_entry [OF dir] in \<open>simp_all add: less_trans\<close>)
  from get_free_cluster_some [OF l free, of FAT64_CLUSTER_TAG_EOF FAT64_CLUSTER_TAG_EOF] obtain c where
    c: "c \<in> free_clusters part d" "\<forall>c' \<in> free_clusters part d. c \<le> c'"
    "get_free_cluster part FAT64_CLUSTER_TAG_EOF FAT64_CLUSTER_TAG_EOF d =
       (c, mark_cluster part c FAT64_CLUSTER_TAG_EOF FAT64_CLUSTER_TAG_EOF d)" by blast
  have dc: "data_cluster part c" using ok c(1) by (simp add: fs_ok_def)
  note vc = data_cluster_valid [OF dc] and vp = data_cluster_valid [OF p(1)]
  have cp: "c \<noteq> p" using c(1) p(2) by auto
  let ?d1 = "mark_cluster part c FAT64_CLUSTER_TAG_EOF FAT64_CLUSTER_TAG_EOF d"
  let ?n = "\<lambda>j. if j < length name then name ! j else if j = length name then 0 else de_name zero_entry j"
  let ?e = "zero_entry\<lparr>de_name := ?n, de_file := c, de_parent := p, de_size := 0,
    de_flags := FAT64_VALID_FLAG, de_num := ucast (of_nat i :: u64)\<rparr>"
  let ?f = "zero_file\<lparr>f_cluster := c, f_entry := ?e\<rparr>"
  have num: "unat (ucast (of_nat i :: u64) :: u32) = i"
    using i(1) unat_ucast_low [of "of_nat i"] by (simp add: unat_of_nat)
  have ne: "normal_entry ?e" using name by (auto simp: normal_entry_def zero_entry_def)
  have P: "data_cluster part (de_parent (f_entry ?f))" "unat (de_num (f_entry ?f)) < 8" "normal_entry (f_entry ?f)"
    using p(1) num i(1) ne by simp_all
  obtain d2 where s: "save_dir_entry part ?f ?d1 = Inr d2"
    "untouched part {de_parent (f_entry ?f)} ?d1 d2" "\<And>x. valid_cluster part x \<Longrightarrow> tag_of part d2 x = tag_of part ?d1 x"
    "get_entry (cdata part d2 (de_parent (f_entry ?f))) (512 * unat (de_num (f_entry ?f))) = f_entry ?f"
    "\<And>j. j < 8 \<Longrightarrow> j \<noteq> unat (de_num (f_entry ?f)) \<Longrightarrow>
      get_entry (cdata part d2 (de_parent (f_entry ?f))) (512 * j) = get_entry (cdata part ?d1 (de_parent (f_entry ?f))) (512 * j)"
    by (rule save_dir_entry_effect [OF l P, of ?d1]) blast
  have t: "fat64_touch part dir name d = Inr (E_SUCCESS, load_cluster part d dir, d2)"
    using s(1) name p(4)
    by (simp add: fat64_touch_def get_free_dir_entry_def sc set_name_def c(3) load_cluster_eq less_imp_neq [OF i(1)])
  have e2: "entry_of part d2 p i = ?e" using s(4) num by (simp add: entry_of_def)
  have fr: "free_clusters part d2 = free_clusters part d - {c}"
    using free_clusters_cong [of part d2 ?d1, OF s(3)] free_clusters_mark [OF l vc] by simp
  have ch: "chain part d2 [c]" using s(3) [OF vc] dc by (simp add: chain_def)
  have o: "entry_of part d2 p j = entry_of part d p j" if "j < 8" "j \<noteq> i" for j
    using s(5) [OF that(1)] that num cdata_mark [OF l vc p(1)] by (simp add: entry_of_def)
  have u: "untouched part {p, c} d d2"
    by (rule untouched_trans [OF untouched_mark [OF l vc, of "{c}"] s(2)]) auto
  have dk: "dir_ok part d2 [c] ?e"
    using e2 num i(1) ne p(1,2) cp fr by (simp add: dir_ok_def entry_of_def)
  have z: "de_size ?e = 0" "de_name ?e = ?n" by simp_all
  show ?thesis
  proof (rule that [OF t c(1,2) _ _ fr _ _ _ o u])
    show "fs_ok part d2" using ok fr by (simp add: fs_ok_def)
    show "is_file part d2 p i [c]" using ch dk num i(1) unfolding is_file_def e2 by simp
  qed (simp_all add: e2 z)
qed

text \<open>A full directory: the entry number is \<^verbatim>\<open>FAT64_EOF\<close> and the entry is written outside the buffer.\<close>

lemma touch_full:
  assumes dir: "dir_handle part d p dir" and name: "length name < 256"
    and full: "\<forall>j < 8. de_flags (entry_of part d p j) AND FAT64_VALID_FLAG \<noteq> 0"
  shows "fat64_touch part dir name d = Inl (Fault ''save_dir_entry: entry outside the buffer'')"
proof -
  have "free_entry_scan (f_buf dir) 0 8 = 8"
    by (rule free_entry_full) (use full dir_handle_entry [OF dir] in simp)
  then show ?thesis
    using name by (simp add: fat64_touch_def get_free_dir_entry_def set_name_def save_dir_entry_def Let_def split: prod.split)
qed

section \<open>Removing a file\<close>

lemma rm_loop_chain:
  assumes l: "layout_ok part" and k: "k < length cs" and ch: "chain part d cs"
    and d0: "\<And>j. k \<le> j \<Longrightarrow> j < length cs \<Longrightarrow> tag_of part d0 (cs ! j) = tag_of part d (cs ! j)"
    and f: "f_cluster f = cs ! k" "f_tags f = tag_of part d (cs ! k)"
  shows "\<exists>f' d'. rm_loop part f d0 = Some (f', d') \<and>
     free_clusters part d' = free_clusters part d0 \<union> set (drop k cs) \<and> untouched part (set cs) d0 d'"
  using k d0 f
proof (induction "length cs - k" arbitrary: k f d0)
  case (Suc n)
  note dk = chain_data [OF ch Suc.prems(1)]
  note vk = data_cluster_valid [OF dk]
  let ?d1 = "mark_cluster part (cs ! k) FAT64_CLUSTER_TAG_FREE FAT64_CLUSTER_TAG_FREE d0"
  let ?f1 = "load_cluster_tags part ?d1 (f\<lparr>f_cluster := tag_next (f_tags f)\<rparr>)"
  have r: "rm_loop part f d0 = rm_loop part ?f1 ?d1"
    using valid_cluster_not_EOF [OF l vk] Suc.prems(3) by (subst rm_loop.simps) (simp add: Let_def)
  have n: "tag_next (f_tags f) = (if Suc k < length cs then cs ! Suc k else FAT64_CLUSTER_TAG_EOF)"
    using ch Suc.prems(1,4) by (simp add: chain_def)
  have fr: "free_clusters part ?d1 = insert (cs ! k) (free_clusters part d0)"
    using free_clusters_mark [OF l vk] by simp
  have u: "untouched part (set cs) d0 ?d1" by (rule untouched_mark [OF l vk]) (use Suc.prems(1) in simp)
  have dr: "set (drop k cs) = insert (cs ! k) (set (drop (Suc k) cs))"
    using Suc.prems(1) by (simp add: Cons_nth_drop_Suc [symmetric])
  show ?case
  proof (cases "Suc k < length cs")
    case True
    have t: "tag_of part ?d1 (cs ! j) = tag_of part d (cs ! j)" if "Suc k \<le> j" "j < length cs" for j
    proof -
      have "cs ! j \<noteq> cs ! k" using that ch Suc.prems(1) by (simp add: chain_def nth_eq_iff_index_eq)
      then have "tag_of part ?d1 (cs ! j) = tag_of part d0 (cs ! j)"
        by (rule tag_of_mark_other [OF l vk data_cluster_valid [OF chain_data [OF ch that(2)]]])
      then show ?thesis using Suc.prems(2) [of j] that by simp
    qed
    have c1: "f_cluster ?f1 = cs ! Suc k" "f_tags ?f1 = tag_of part d (cs ! Suc k)"
      using n True t [OF order_refl True] by (simp_all add: load_cluster_tags_eq)
    have m: "n = length cs - Suc k" using Suc.hyps(2) by simp
    from Suc.hyps(1) [OF m True t c1] obtain f' d' where
      "rm_loop part ?f1 ?d1 = Some (f', d')" "free_clusters part d' = free_clusters part ?d1 \<union> set (drop (Suc k) cs)"
      "untouched part (set cs) ?d1 d'" by blast
    then show ?thesis using r fr dr untouched_trans [OF u] by auto
  next
    case False
    then have "rm_loop part ?f1 ?d1 = Some (?f1, ?d1)"
      using n by (subst rm_loop.simps) (simp add: load_cluster_tags_eq)
    moreover have "set (drop (Suc k) cs) = {}" using False by simp
    ultimately show ?thesis using r fr dr u by auto
  qed
qed simp

lemma rm_file:
  assumes ok: "fs_ok part d" and fl: "is_file part d p i cs"
  obtains f' d' where
    "fat64_rm part (opened part d (entry_of part d p i)) d = Some (Inr (E_SUCCESS, f', d'))"
    and "free_clusters part d' = free_clusters part d \<union> set cs"
    and "fs_ok part d'" and "de_flags (entry_of part d' p i) = 0"
    and "\<And>j. j < 8 \<Longrightarrow> j \<noteq> i \<Longrightarrow> entry_of part d' p j = entry_of part d p j"
    and "untouched part (insert p (set cs)) d d'"
proof -
  let ?e = "entry_of part d p i" and ?f = "opened part d (entry_of part d p i)"
  let ?f1 = "?f\<lparr>f_entry := ?e\<lparr>de_flags := 0\<rparr>\<rparr>"
  have l: "layout_ok part" by (rule fs_ok_layout [OF ok])
  have ch: "chain part d cs" and F: "i < 8" "hd cs = de_file ?e" "de_parent ?e = p" "unat (de_num ?e) = i" "dir_ok part d cs ?e"
    using fl by (simp_all add: is_file_def)
  have D: "data_cluster part p" "p \<notin> set cs" "normal_entry ?e" using F(3,5) by (simp_all add: dir_ok_def)
  have P: "data_cluster part (de_parent (f_entry ?f1))" "unat (de_num (f_entry ?f1)) < 8" "normal_entry (f_entry ?f1)"
    using D F by (simp_all add: normal_entry_def)
  have e1: "de_parent (f_entry ?f1) = p" "unat (de_num (f_entry ?f1)) = i" using F by simp_all
  obtain d1 where s: "save_dir_entry part ?f1 d = Inr d1"
    "untouched part {p} d d1" "\<And>x. valid_cluster part x \<Longrightarrow> tag_of part d1 x = tag_of part d x"
    "get_entry (cdata part d1 p) (512 * i) = f_entry ?f1"
    "\<And>j. j < 8 \<Longrightarrow> j \<noteq> i \<Longrightarrow> get_entry (cdata part d1 p) (512 * j) = get_entry (cdata part d p) (512 * j)"
    by (rule save_dir_entry_effect [OF l P, of d, unfolded e1]) blast
  have c0: "cs \<noteq> []" "hd cs = cs ! 0" using ch by (auto simp: chain_def hd_conv_nth)
  let ?f2 = "?f1\<lparr>f_cluster := de_file (f_entry ?f1)\<rparr>"
  have "f_cluster ?f2 = cs ! 0" "f_tags ?f2 = tag_of part d (cs ! 0)"
    using c0 F(2) by (simp_all add: opened_def)
  moreover have "tag_of part d1 (cs ! j) = tag_of part d (cs ! j)" if "0 \<le> j" "j < length cs" for j
    by (rule s(3)) (rule data_cluster_valid [OF chain_data [OF ch that(2)]])
  ultimately obtain f' d' where r: "rm_loop part ?f2 d1 = Some (f', d')"
    "free_clusters part d' = free_clusters part d1 \<union> set cs" "untouched part (set cs) d1 d'"
    using rm_loop_chain [OF l _ ch, of 0 d1 ?f2] c0(1) by auto
  have nz: "f_cluster ?f \<noteq> 0" using file_at_not_0 [OF opened_at [OF l fl]] .
  have rm: "fat64_rm part ?f d = Some (Inr (E_SUCCESS, f', d'))"
    using nz s(1) r(1) by (simp add: fat64_rm_def Let_def)
  have fr: "free_clusters part d' = free_clusters part d \<union> set cs"
    using r(2) free_clusters_cong [of part d1 d, OF s(3)] by simp
  have cd: "cdata part d' p = cdata part d1 p" using r(3) D(1,2) by (simp add: untouched_def)
  show ?thesis
  proof (rule that [OF rm fr])
    show "fs_ok part d'" using ok fr ch by (auto simp: fs_ok_def chain_def)
    show "de_flags (entry_of part d' p i) = 0" using s(4) by (simp add: entry_of_def cd)
    show "entry_of part d' p j = entry_of part d p j" if "j < 8" "j \<noteq> i" for j
      using s(5) [OF that] by (simp add: entry_of_def cd)
    show "untouched part (insert p (set cs)) d d'" by (rule untouched_trans [OF s(2) r(3)]) auto
  qed
qed

end
