(* ===== verification/Fat64_Format.thy ===== *)
theory Fat64_Format
  imports Fat64_Write Syscalls
begin

text \<open>
  The kernel side of \<^verbatim>\<open>drivers/fat64/fat64.c\<close>: making a file system on a disk
  (\<^verbatim>\<open>_fat64_mkfs\<close>), finding one at boot (\<^verbatim>\<open>_fat64_init\<close>), and the system call that hands
  the partition to a user process.  A new file system on a blank disk is well formed: the
  tag table and the root directory are in use, all other clusters are free.
\<close>

section \<open>Definitions\<close>

definition SYS_fat64_user_init :: u8 where
  "SYS_fat64_user_init = 0x69"

text \<open>The master boot record, by the fields of its first partition that are used.\<close>

record mbr_t =
  mbr_status :: u8
  mbr_type :: u8
  mbr_first_LBA :: u32
  mbr_num_sectors :: u32
  mbr_signature :: u16

definition get_mbr :: "bytes \<Rightarrow> mbr_t" where
  "get_mbr b =
     \<lparr>mbr_status = b 446, mbr_type = b 450, mbr_first_LBA = get32 b 454, mbr_num_sectors = get32 b 458,
      mbr_signature = ucast (b 510) OR push_bit 8 (ucast (b 511))\<rparr>"

definition mbr_bytes :: "mbr_t \<Rightarrow> bytes" where
  "mbr_bytes m =
     put32 458 (mbr_num_sectors m) (put32 454 (mbr_first_LBA m)
       ((\<lambda>_. 0)(446 := mbr_status m, 450 := mbr_type m, 510 := ucast (mbr_signature m),
         511 := ucast (drop_bit 8 (mbr_signature m)))))"

definition get_partition :: "bytes \<Rightarrow> fat64_partition_t" where
  "get_partition b =
     \<lparr>root_dir = get64 b 0, cluster_tags = get64 b 8, part_size = get64 b 16, cluster_size = get64 b 24,
      partition_location = get64 b 32\<rparr>"

definition partition_bytes :: "fat64_partition_t \<Rightarrow> bytes" where
  "partition_bytes p =
     put64 32 (partition_location p) (put64 24 (cluster_size p) (put64 16 (part_size p)
       (put64 8 (cluster_tags p) (put64 0 (root_dir p) (\<lambda>_. 0)))))"

text \<open>\<^verbatim>\<open>_mark_cluster\<close> is the kernel's own copy of \<^verbatim>\<open>mark_cluster\<close>, calling the driver directly.\<close>

definition kernel_mark_cluster :: "fat64_partition_t \<Rightarrow> u64 \<Rightarrow> u64 \<Rightarrow> u64 \<Rightarrow> disk \<Rightarrow> disk" where
  "kernel_mark_cluster part c prev next d =
     (let buf = ide_read (tag_sector part c) 0 d (\<lambda>_. 0)
      in ide_write (tag_sector part c) 0 (put_tag (which_tag c) \<lparr>tag_prev = prev, tag_next = next\<rparr> buf) d)"

text \<open>The loop that marks the clusters of the tag table; \<open>i\<close> and the two links are 32 bits wide.\<close>

definition mark_table_entry :: "fat64_partition_t \<Rightarrow> u64 \<Rightarrow> u32 \<Rightarrow> disk \<Rightarrow> disk" where
  "mark_table_entry part cluster_tag_size i d =
     (let prev = (if i = 0 then ucast FAT64_CLUSTER_TAG_EOF else i);
          next = (if ucast i = cluster_tag_size - 1 then ucast FAT64_CLUSTER_TAG_EOF else i + 2) :: u32
      in kernel_mark_cluster part (ucast i + cluster_tags part) (ucast prev) (ucast next) d)"

definition fat64_mkfs :: "u64 \<Rightarrow> disk \<Rightarrow> mbr_t \<times> fat64_partition_t \<times> disk" where
  "fat64_mkfs sz d =
     (let start_lba = 8 :: u32;
          number_sectors = ucast (sz div 512) :: u32;
          cluster_tag_size = ucast (16 * ((number_sectors * 512) div 16777216)) :: u64;
          mbr = \<lparr>mbr_status = 0, mbr_type = 0x69, mbr_first_LBA = start_lba,
                 mbr_num_sectors = number_sectors, mbr_signature = 0xAA55\<rparr>;
          d1 = ide_write 0 0 (mbr_bytes mbr) d;
          part = \<lparr>root_dir = cluster_tag_size + 1, cluster_tags = 1, part_size = 262144,
                  cluster_size = of_nat FAT64_CLUSTER_SIZE, partition_location = ucast start_lba\<rparr>;
          d2 = ide_write start_lba 0 (partition_bytes part) d1;
          d3 = kernel_mark_cluster part 0 FAT64_CLUSTER_TAG_EOF FAT64_CLUSTER_TAG_EOF d2;
          d4 = fold (\<lambda>i. mark_table_entry part cluster_tag_size (of_nat i)) [0..<unat cluster_tag_size] d3;
          d5 = kernel_mark_cluster part (root_dir part) FAT64_CLUSTER_TAG_EOF FAT64_CLUSTER_TAG_EOF d4
      in (mbr, part, d5))"

definition FAT64_FS_SIZE :: u64 where
  "FAT64_FS_SIZE = 0x40000000"

text \<open>
  \<open>part\<close> is the global partition before the call; the handler that is installed has the
  number \<open>n\<close> among the installed ones.
\<close>

definition fat64_init ::
  "nat \<Rightarrow> fat64_partition_t \<Rightarrow> disk \<Rightarrow> kernel \<Rightarrow> status_t \<times> fat64_partition_t \<times> disk \<times> kernel" where
  "fat64_init n part d k =
     (let mbr = get_mbr (d 0);
          (mbr1, part1, d1) =
            (if mbr_status mbr \<noteq> 0 \<and> mbr_status mbr \<noteq> 0x80 \<or> mbr_signature mbr \<noteq> 0xAA55
             then fat64_mkfs FAT64_FS_SIZE d else (mbr, part, d))
      in if mbr_type mbr1 \<noteq> 0x69 then (E_ERROR, part1, d1, k)
         else
           let part2 = get_partition (d1 (mbr_first_LBA mbr1))
           in case syscall_install (Sys_installed n) SYS_fat64_user_init k of
                (st, k1) \<Rightarrow>
                  if st \<noteq> 0 then (E_ERROR, part2, d1, k1) else (E_SUCCESS, part2, d1, k1))"

text \<open>
  The system call copies the partition to the address in the second argument, although the
  function that users see, \<^verbatim>\<open>fat64_user_init(partition)\<close>, has one.
\<close>

definition store64 :: "u32 \<Rightarrow> u64 \<Rightarrow> memory \<Rightarrow> memory" where
  "store64 a v m = store32 (a + 4) (ucast (drop_bit 32 v)) (store32 a (ucast v) m)"

definition fat64_user_init :: "fat64_partition_t \<Rightarrow> u32 \<Rightarrow> kernel \<Rightarrow> kernel outcome" where
  "fat64_user_init part context k =
     (let p = ARG k context 2
      in Inr (set_eax context E_SUCCESS (upd_mem (\<lambda>m.
           store64 (p + 32) (partition_location part) (store64 (p + 24) (cluster_size part)
             (store64 (p + 16) (part_size part) (store64 (p + 8) (cluster_tags part)
               (store64 p (root_dir part) m))))) k)))"

section \<open>A new file system\<close>

lemma kernel_mark_cluster_eq: "kernel_mark_cluster = mark_cluster"
  by (simp add: fun_eq_iff kernel_mark_cluster_def mark_cluster_def Let_def)

definition new_partition :: fat64_partition_t where
  "new_partition =
     \<lparr>root_dir = 1025, cluster_tags = 1, part_size = 262144, cluster_size = 4096, partition_location = 8\<rparr>"

lemma new_partition_simps [simp]:
  "root_dir new_partition = 1025" "cluster_tags new_partition = 1" "part_size new_partition = 262144"
  "partition_location new_partition = 8"
  by (simp_all add: new_partition_def)

lemma new_layout: "layout_ok new_partition" "first_data new_partition = 1025"
  by (simp_all add: layout_ok_def first_data_def)

lemma get_mbr_bytes:
  assumes b: "\<And>i. i < 512 \<Longrightarrow> b i = mbr_bytes m i"
  shows "get_mbr b = m"
proof -
  have "get32 b 454 = mbr_first_LBA m" "get32 b 458 = mbr_num_sectors m"
    using get32_cong [of b 454 "mbr_bytes m" 454] get32_cong [of b 458 "mbr_bytes m" 458] b
    by (simp_all add: mbr_bytes_def get_put_other)
  moreover have "b 446 = mbr_status m" "b 450 = mbr_type m"
    "b 510 = ucast (mbr_signature m)" "b 511 = ucast (drop_bit 8 (mbr_signature m))"
    using b by (simp_all add: mbr_bytes_def put32_other)
  moreover have "ucast (ucast s :: u8) OR push_bit 8 (ucast (ucast (drop_bit 8 s) :: u8)) = s" for s :: u16
    by (rule bit_word_eqI) (auto simp: bit_simps)
  ultimately show ?thesis by (simp add: get_mbr_def)
qed

lemma get_partition_bytes:
  assumes b: "\<And>i. i < 512 \<Longrightarrow> b i = partition_bytes p i"
  shows "get_partition b = p"
proof -
  have "get64 b n = get64 (partition_bytes p) n" if "n \<le> 500" for n
    by (rule get64_cong) (use that b in simp)
  then show ?thesis by (simp add: get_partition_def partition_bytes_def get_put_other)
qed

text \<open>The clusters below a bound are marked, with links that are not free.\<close>

definition marked_below :: "nat \<Rightarrow> disk \<Rightarrow> bool" where
  "marked_below n d \<longleftrightarrow>
     (\<forall>c. valid_cluster new_partition c \<longrightarrow>
        (if unat c < n then tag_of new_partition d c \<noteq> free_tag else tag_of new_partition d c = free_tag))"

lemma marked_below_mark:
  assumes "marked_below n d" and "c = of_nat n" and "n < 262144" and "p \<noteq> 0 \<or> q \<noteq> 0"
  shows "marked_below (Suc n) (mark_cluster new_partition c p q d)"
proof -
  have uc: "unat c = n" unfolding assms(2) using assms(3) by (simp add: unat_of_nat)
  then have v: "valid_cluster new_partition c"
    using assms(3) by (simp add: valid_cluster_def word_less_nat_alt)
  show ?thesis
    unfolding marked_below_def
  proof (intro allI impI)
    fix x
    assume x: "valid_cluster new_partition x"
    show "if unat x < Suc n then tag_of new_partition (mark_cluster new_partition c p q d) x \<noteq> free_tag
      else tag_of new_partition (mark_cluster new_partition c p q d) x = free_tag"
    proof (cases "x = c")
      case True
      then show ?thesis using assms(4) uc by auto
    next
      case False
      then have "unat x \<noteq> n" using uc by (metis word_unat_eq_iff)
      then show ?thesis
        using tag_of_mark_other [OF new_layout(1) v x False] assms(1) x
        by (auto simp: marked_below_def less_Suc_eq)
    qed
  qed
qed

lemma mark_table:
  assumes "marked_below 1 d" and "n \<le> 1024"
  shows "marked_below (Suc n) (fold (\<lambda>i. mark_table_entry new_partition 1024 (of_nat i)) [0..<n] d)"
  using assms(2)
proof (induction n)
  case 0
  then show ?case using assms(1) by simp
next
  case (Suc n)
  let ?d = "fold (\<lambda>i. mark_table_entry new_partition 1024 (of_nat i)) [0..<n] d"
  have i: "unat (of_nat n :: u32) = n" using Suc.prems by (simp add: unat_of_nat)
  have "ucast (of_nat n :: u32) = (of_nat n :: u64)"
    using Suc.prems i by (simp add: word_unat_eq_iff unat_ucast_high unat_of_nat)
  then have c: "ucast (of_nat n :: u32) + cluster_tags new_partition = (of_nat (Suc n) :: u64)"
    by (simp add: add.commute)
  have p: "ucast (if (of_nat n :: u32) = 0 then ucast FAT64_CLUSTER_TAG_EOF else (of_nat n :: u32)) \<noteq> (0 :: u64)"
    by (simp add: word_unat_eq_iff unat_ucast_high)
  have "marked_below (Suc (Suc n)) (mark_table_entry new_partition 1024 (of_nat n) D)" if "marked_below (Suc n) D" for D
    unfolding mark_table_entry_def Let_def kernel_mark_cluster_eq
    by (rule marked_below_mark [OF that c]) (use Suc.prems p in simp_all)
  then have "marked_below (Suc (Suc n)) (mark_table_entry new_partition 1024 (of_nat n) ?d)" using Suc by simp
  then show ?case by simp
qed

definition blank_disk :: "disk \<Rightarrow> bool" where
  "blank_disk d \<longleftrightarrow> (\<forall>s x. x < 512 \<longrightarrow> d s x = 0)"

lemma get64_zero: "(\<And>i. i < 8 \<Longrightarrow> b (a + i) = 0) \<Longrightarrow> get64 b a = 0"
  using get64_cong [of b a "\<lambda>_. 0" 0] by (simp add: get64_def get32_def)

lemma get32_zero: "(\<And>i. i < 4 \<Longrightarrow> b (a + i) = 0) \<Longrightarrow> get32 b a = 0"
  using get32_cong [of b a "\<lambda>_. 0" 0] by (simp add: get32_def)

text \<open>Marking valid clusters changes sectors of tags only.\<close>

definition no_tags :: "u32 \<Rightarrow> bool" where
  "no_tags s \<longleftrightarrow> (\<forall>c. valid_cluster new_partition c \<longrightarrow> s \<noteq> tag_sector new_partition c)"

lemma no_tags_low: "unat s < 16 \<Longrightarrow> no_tags s"
  using unat_tag_sector [OF new_layout(1)] by (auto simp: no_tags_def)

lemma no_tags_data: "data_cluster new_partition c \<Longrightarrow> i < 8 \<Longrightarrow> no_tags (cluster_sector new_partition c i)"
  using tag_sector_not_data [OF new_layout(1)] by (metis no_tags_def)

lemma mark_table_sector:
  assumes "no_tags s" and "n \<le> 1024"
  shows "fold (\<lambda>i. mark_table_entry new_partition 1024 (of_nat i)) [0..<n] d s = d s"
  using assms(2)
proof (induction n)
  case (Suc n)
  have "unat (ucast (of_nat n :: u32) + 1 :: u64) = Suc n"
    using Suc.prems by (subst unat_add_low) (simp_all add: unat_ucast_high unat_of_nat)
  then have v: "valid_cluster new_partition (ucast (of_nat n :: u32) + 1)"
    using Suc.prems by (simp add: valid_cluster_def word_less_nat_alt)
  then have "mark_table_entry new_partition 1024 (of_nat n) D s = D s" for D
    unfolding mark_table_entry_def Let_def kernel_mark_cluster_eq
    by (intro mark_cluster_other_sector) (use assms(1) in \<open>simp add: no_tags_def\<close>)
  then show ?case using Suc by simp
qed simp

text \<open>Making a file system on a blank disk.\<close>

lemma mkfs_new:
  assumes blank: "blank_disk d"
  obtains mbr d' where "fat64_mkfs FAT64_FS_SIZE d = (mbr, new_partition, d')"
    and "free_clusters new_partition d' = {c. 1025 < unat c \<and> unat c < 262144}"
    and "fs_ok new_partition d'"
    and "tag_of new_partition d' 1025 = \<lparr>tag_prev = FAT64_CLUSTER_TAG_EOF, tag_next = FAT64_CLUSTER_TAG_EOF\<rparr>"
    and "\<And>c i. data_cluster new_partition c \<Longrightarrow> cdata new_partition d' c i = 0"
    and "\<And>i. i < 512 \<Longrightarrow> d' 0 i = mbr_bytes mbr i"
    and "\<And>i. i < 512 \<Longrightarrow> d' 8 i = partition_bytes new_partition i"
proof -
  let ?mbr = "\<lparr>mbr_status = 0, mbr_type = 0x69, mbr_first_LBA = 8, mbr_num_sectors = 0x200000, mbr_signature = 0xAA55\<rparr>"
  let ?d2 = "ide_write 8 0 (partition_bytes new_partition) (ide_write 0 0 (mbr_bytes ?mbr) d)"
  let ?d3 = "mark_cluster new_partition 0 FAT64_CLUSTER_TAG_EOF FAT64_CLUSTER_TAG_EOF ?d2"
  let ?d4 = "fold (\<lambda>i. mark_table_entry new_partition 1024 (of_nat i)) [0..<1024] ?d3"
  let ?d5 = "mark_cluster new_partition 1025 FAT64_CLUSTER_TAG_EOF FAT64_CLUSTER_TAG_EOF ?d4"
  have eq: "fat64_mkfs FAT64_FS_SIZE d = (?mbr, new_partition, ?d5)"
    by (simp add: fat64_mkfs_def FAT64_FS_SIZE_def Let_def kernel_mark_cluster_eq new_partition_def)
  have valid: "valid_cluster new_partition 0" "valid_cluster new_partition 1025"
    by (simp_all add: valid_cluster_def)
  have s: "?d5 s = ?d2 s" if "no_tags s" for s
    using that valid mark_table_sector [OF that order_refl, of ?d3]
    by (simp add: mark_cluster_other_sector no_tags_def)
  have t2: "tag_of new_partition ?d2 c = free_tag" if "valid_cluster new_partition c" for c
  proof -
    have "no_tags 0" "no_tags 8" by (rule no_tags_low, simp)+
    then have "tag_sector new_partition c \<noteq> 0 \<and> tag_sector new_partition c \<noteq> 8"
      using that by (auto simp: no_tags_def)
    then show ?thesis
      using blank which_tag_less [of c] by (auto simp: tag_of_def get_tag_def blank_disk_def intro!: get64_zero)
  qed
  then have "marked_below 0 ?d2" by (simp add: marked_below_def)
  then have "marked_below (Suc 0) ?d3" by (rule marked_below_mark) simp_all
  then have "marked_below 1 ?d3" by simp
  from mark_table [OF this order_refl] have "marked_below 1025 ?d4" by simp
  then have "marked_below (Suc 1025) ?d5" by (rule marked_below_mark) simp_all
  then have m: "marked_below 1026 ?d5" by simp
  have free: "free_clusters new_partition ?d5 = {c. 1025 < unat c \<and> unat c < 262144}"
    using m by (auto simp: free_clusters_def marked_below_def valid_cluster_def word_less_nat_alt split: if_splits)
  have "fs_ok new_partition ?d5"
    by (auto simp: fs_ok_def free new_layout data_cluster_def word_less_nat_alt)
  moreover have "cdata new_partition ?d5 c i = 0" if c: "data_cluster new_partition c" for c i
  proof (cases "i < FAT64_CLUSTER_SIZE")
    case True
    then have i: "i div 512 < 8" by (simp add: less_mult_imp_div_less)
    have "unat (cluster_sector new_partition c (i div 512)) \<noteq> 0 \<and> unat (cluster_sector new_partition c (i div 512)) \<noteq> 8"
      using unat_cluster_sector [OF new_layout(1) data_cluster_valid [OF c] i] c
      by (simp add: data_cluster_def new_layout)
    then have "cluster_sector new_partition c (i div 512) \<noteq> 0 \<and> cluster_sector new_partition c (i div 512) \<noteq> 8" by auto
    then show ?thesis using s [OF no_tags_data [OF c i]] blank True by (simp add: cdata_def blank_disk_def)
  qed (simp add: cdata_def)
  moreover have "?d5 0 i = mbr_bytes ?mbr i" if "i < 512" for i
    using s [OF no_tags_low, of 0] that by (simp add: ide_write_same SECTOR_SIZE_def)
  moreover have "?d5 8 i = partition_bytes new_partition i" if "i < 512" for i
    using s [OF no_tags_low, of 8] that by (simp add: ide_write_same SECTOR_SIZE_def)
  ultimately show ?thesis using that [OF eq free] by simp
qed

end
