(* ===== verification/File_Properties.thy ===== *)
theory File_Properties
  imports Fat64_Dirs Fat64_Format Kernel_Samples
begin

text \<open>
  The properties of the file system of \<^verbatim>\<open>drivers/fat64/fat64.c\<close>.  The witnesses run on
  the disk that \<^verbatim>\<open>_fat64_mkfs\<close> makes of a blank one.
\<close>

section \<open>A new disk\<close>

lemma blank_zero: "blank_disk (\<lambda>_ _. 0)"
  by (simp add: blank_disk_def)

text \<open>The handle of the root directory.\<close>

lemma open_root_handle:
  assumes "data_cluster part (root_dir part)" and "root_dir part \<notin> free_clusters part d"
  shows "dir_handle part d (root_dir part) (open_root part d)"
  using assms by (simp add: dir_handle_def open_root_def zero_entry_def)

lemma new_root:
  assumes "blank_disk d"
  obtains mbr d' where "fat64_mkfs FAT64_FS_SIZE d = (mbr, new_partition, d')" and "fs_ok new_partition d'"
    and "dir_handle new_partition d' 1025 (open_root new_partition d')"
    and "\<And>i. i < 8 \<Longrightarrow> de_flags (entry_of new_partition d' 1025 i) = 0"
    and "free_clusters new_partition d' = {c. 1025 < unat c \<and> unat c < 262144}"
    and "get_mbr (d' 0) = mbr" and "get_partition (d' 8) = new_partition"
proof -
  obtain mbr d' where m: "fat64_mkfs FAT64_FS_SIZE d = (mbr, new_partition, d')"
    "free_clusters new_partition d' = {c. 1025 < unat c \<and> unat c < 262144}" "fs_ok new_partition d'"
    "\<And>c i. data_cluster new_partition c \<Longrightarrow> cdata new_partition d' c i = 0"
    "\<And>i. i < 512 \<Longrightarrow> d' 0 i = mbr_bytes mbr i" "\<And>i. i < 512 \<Longrightarrow> d' 8 i = partition_bytes new_partition i"
    by (rule mkfs_new [OF assms]) blast
  have root: "data_cluster new_partition 1025" by (simp add: data_cluster_def new_layout)
  have "dir_handle new_partition d' 1025 (open_root new_partition d')"
    using open_root_handle [of new_partition d'] root m(2) by simp
  moreover have "de_flags (entry_of new_partition d' 1025 i) = 0" for i
    using m(4) [OF root] by (simp add: entry_of_def get_entry_def get32_zero)
  moreover have "get_mbr (d' 0) = mbr" by (rule get_mbr_bytes) (rule m(5))
  moreover have "get_partition (d' 8) = new_partition" by (rule get_partition_bytes) (rule m(6))
  ultimately show ?thesis using that m(1-3) by simp
qed

lemma mkfs_mbr:
  "mbr_status (fst (fat64_mkfs n d)) = 0" "mbr_type (fst (fat64_mkfs n d)) = 0x69"
  "mbr_signature (fst (fat64_mkfs n d)) = 0xAA55" "mbr_first_LBA (fst (fat64_mkfs n d)) = 8"
  by (simp_all add: fat64_mkfs_def Let_def)

text \<open>A file on the new disk.\<close>

lemma sample_file:
  obtains mbr d0 d c where "fat64_mkfs FAT64_FS_SIZE (\<lambda>_ _. 0) = (mbr, new_partition, d0)"
    and "fat64_touch new_partition (open_root new_partition d0) [97] d0 =
      Inr (E_SUCCESS, load_cluster new_partition d0 (open_root new_partition d0), d)"
    and "fs_ok new_partition d" and "is_file new_partition d 1025 0 [c]"
    and "f_cluster (open_root new_partition d0) = 1025"
proof -
  obtain mbr d0 where m: "fat64_mkfs FAT64_FS_SIZE (\<lambda>_ _. 0) = (mbr, new_partition, d0)"
    "fs_ok new_partition d0" "dir_handle new_partition d0 1025 (open_root new_partition d0)"
    "\<And>i. i < 8 \<Longrightarrow> de_flags (entry_of new_partition d0 1025 i) = 0"
    "free_clusters new_partition d0 = {c. 1025 < unat c \<and> unat c < 262144}"
    by (rule new_root [OF blank_zero]) blast
  have "1026 \<in> free_clusters new_partition d0" using m(5) by simp
  then have ne: "free_clusters new_partition d0 \<noteq> {}" by blast
  have n: "length [97 :: u8] < 256" and z: "(0::nat) < 8" "de_flags (entry_of new_partition d0 1025 0) AND FAT64_VALID_FLAG = 0"
    "\<forall>j < 0. de_flags (entry_of new_partition d0 1025 j) AND FAT64_VALID_FLAG \<noteq> 0" using m(4) [of 0] by simp_all
  have r: "f_cluster (open_root new_partition d0) = 1025" using m(3) by (simp only: dir_handle_def)
  show ?thesis by (rule touch_file [OF m(2,3) n z ne]) (rule that [OF m(1) _ _ _ r])
qed

section \<open>Properties\<close>

text \<open>C16 On a blank disk, initialization makes a file system, installs the system call and
  succeeds: the table of tags and the root directory are in use, all later clusters are free and
  the root directory is empty; a later initialization finds the same partition and leaves the disk
  as it is.\<close>

theorem format_then_boot:
  assumes "blank_disk d" and "k_syscalls k 0x69 = None" and "k_syscalls k' 0x69 = None"
  shows "\<exists>d1 k1 k2. fat64_init n part d k = (E_SUCCESS, new_partition, d1, k1) \<and>
     k_syscalls k1 0x69 = Some (Sys_installed n) \<and> fs_ok new_partition d1 \<and>
     free_clusters new_partition d1 = {c. 1025 < unat c \<and> unat c < 262144} \<and>
     (\<forall>i < 8. de_flags (entry_of new_partition d1 (root_dir new_partition) i) = 0) \<and>
     fat64_init n' part' d1 k' = (E_SUCCESS, new_partition, d1, k2)"
proof -
  obtain mbr d1 where m: "fat64_mkfs FAT64_FS_SIZE d = (mbr, new_partition, d1)" "fs_ok new_partition d1"
    "\<And>i. i < 8 \<Longrightarrow> de_flags (entry_of new_partition d1 1025 i) = 0"
    "free_clusters new_partition d1 = {c. 1025 < unat c \<and> unat c < 262144}" "get_mbr (d1 0) = mbr"
    "get_partition (d1 8) = new_partition"
    by (rule new_root [OF assms(1)]) blast
  have b: "mbr_status mbr = 0" "mbr_type mbr = 0x69" "mbr_signature mbr = 0xAA55" "mbr_first_LBA mbr = 8"
    using mkfs_mbr [of FAT64_FS_SIZE d] m(1) by simp_all
  have "mbr_signature (get_mbr (d 0)) = 0" using assms(1) by (simp add: get_mbr_def blank_disk_def)
  then have "fat64_init n part d k =
      (E_SUCCESS, new_partition, d1, k\<lparr>k_syscalls := (k_syscalls k)(0x69 := Some (Sys_installed n))\<rparr>)"
    using m(1,6) b assms(2)
    by (simp add: fat64_init_def syscall_install_def SYS_fat64_user_init_def N_SYSCALLS_def)
  moreover have "fat64_init n' part' d1 k' =
      (E_SUCCESS, new_partition, d1, k'\<lparr>k_syscalls := (k_syscalls k')(0x69 := Some (Sys_installed n'))\<rparr>)"
    using m(5,6) b assms(3)
    by (simp add: fat64_init_def syscall_install_def SYS_fat64_user_init_def N_SYSCALLS_def)
  ultimately show ?thesis using m(2-4) by auto
qed

theorem format_then_boot_witness:
  "\<exists>d1 k1. fat64_init 0 new_partition (\<lambda>_ _. 0) (power_on\<lparr>k_syscalls := \<lambda>_. None\<rparr>) =
     (E_SUCCESS, new_partition, d1, k1)"
  using format_then_boot [OF blank_zero, of "power_on\<lparr>k_syscalls := \<lambda>_. None\<rparr>" "power_on\<lparr>k_syscalls := \<lambda>_. None\<rparr>"
      0 new_partition 0 new_partition] by auto



text \<open>C18 Reading a file past its last cluster never reports the end of the file: the location is
  not set to \<^verbatim>\<open>FAT64_EOF\<close>, and the next byte is read behind the buffer of the handle.\<close>

theorem read_past_end_faults:
  assumes "fs_ok part d" and "is_file part d (f_cluster dir) i cs"
    and "FAT64_CLUSTER_SIZE * length cs < unat amount" and "unat amount < 2 ^ 32"
  shows "\<exists>f. fat64_dir_entry part dir (of_nat i) h d = Inr (E_SUCCESS, load_cluster part d dir, f) \<and>
     fat64_read part amount buf f d = Some (Inl (Fault ''fat64_getc: read outside the buffer''))"
proof -
  let ?e = "entry_of part d (f_cluster dir) i"
  have "0 < capacity cs" using assms(2) by (simp add: is_file_def chain_def capacity_def)
  then have "read_loop part amount 0 buf (opened part d ?e) d = Some (Inl (Fault ''fat64_getc: read outside the buffer''))"
    using assms(3,4)
    by (intro read_loop_behind [OF opened_at [OF fs_ok_layout [OF assms(1)] assms(2)]]) (simp_all add: capacity_def)
  moreover have "fat64_dir_entry part dir (of_nat i) h d = Inr (E_SUCCESS, load_cluster part d dir, opened part d ?e)"
    using assms(2) by (auto simp: is_file_def intro!: dir_entry_open)
  ultimately show ?thesis by (simp add: fat64_read_def)
qed

theorem read_past_end_faults_witness:
  "\<exists>d c f. is_file new_partition d 1025 0 [c] \<and>
     fat64_read new_partition 4097 (\<lambda>_. 0) f d = Some (Inl (Fault ''fat64_getc: read outside the buffer''))"
proof -
  obtain d0 d c where s: "fs_ok new_partition d" "is_file new_partition d 1025 0 [c]"
    "f_cluster (open_root new_partition d0) = 1025" by (rule sample_file) blast
  have fl: "is_file new_partition d (f_cluster (open_root new_partition d0)) 0 [c]" unfolding s(3) by (rule s(2))
  have a: "FAT64_CLUSTER_SIZE * length [c] < unat (4097 :: u64)" "unat (4097 :: u64) < 2 ^ 32" by simp_all
  from read_past_end_faults [OF s(1) fl a, of zero_file "\<lambda>_. 0"] obtain f where
    "fat64_read new_partition 4097 (\<lambda>_. 0) f d = Some (Inl (Fault ''fat64_getc: read outside the buffer''))" by blast
  then show ?thesis using s(2) by - (intro exI conjI, assumption+)
qed

text \<open>C19 Creating a file in a directory takes the first unused entry and the lowest free cluster:
  afterwards the entry names an empty file of one cluster with the given name, the other entries and
  clusters are unchanged, and the file system stays well formed.  In a directory whose eight entries
  are in use the entry is written outside the buffer of the directory instead.\<close>

theorem touch_creates_file:
  assumes "fs_ok part d" and "dir_handle part d p dir" and "length name < 256" and "free_clusters part d \<noteq> {}"
  shows "(\<forall>j < 8. de_flags (entry_of part d p j) AND FAT64_VALID_FLAG \<noteq> 0) \<and>
       fat64_touch part dir name d = Inl (Fault ''save_dir_entry: entry outside the buffer'') \<or>
     (\<exists>i c d'. i < 8 \<and> de_flags (entry_of part d p i) AND FAT64_VALID_FLAG = 0 \<and>
       (\<forall>j < i. de_flags (entry_of part d p j) AND FAT64_VALID_FLAG \<noteq> 0) \<and>
       c \<in> free_clusters part d \<and> (\<forall>c' \<in> free_clusters part d. c \<le> c') \<and>
       fat64_touch part dir name d = Inr (E_SUCCESS, load_cluster part d dir, d') \<and>
       fs_ok part d' \<and> is_file part d' p i [c] \<and> de_size (entry_of part d' p i) = 0 \<and>
       (\<forall>j < length name. de_name (entry_of part d' p i) j = name ! j) \<and>
       de_name (entry_of part d' p i) (length name) = 0 \<and>
       (\<forall>j < 8. j \<noteq> i \<longrightarrow> entry_of part d' p j = entry_of part d p j) \<and> untouched part {p, c} d d')"
proof (cases "\<forall>j < 8. de_flags (entry_of part d p j) AND FAT64_VALID_FLAG \<noteq> 0")
  case True
  then show ?thesis using touch_full [OF assms(2,3)] by blast
next
  case False
  let ?P = "\<lambda>j. j < 8 \<and> de_flags (entry_of part d p j) AND FAT64_VALID_FLAG = 0"
  define i where "i = (LEAST j. ?P j)"
  have "\<exists>j. ?P j" using False by blast
  then have i: "?P i" unfolding i_def by (rule LeastI_ex)
  have less: "\<forall>j < i. de_flags (entry_of part d p j) AND FAT64_VALID_FLAG \<noteq> 0"
    using not_less_Least [of _ ?P] i unfolding i_def [symmetric] by (meson less_trans)
  show ?thesis
    by (rule touch_file [OF assms(1-3) conjunct1 [OF i] conjunct2 [OF i] less assms(4)], rule disjI2,
        intro exI [of _ i] exI conjI allI impI ballI) (use i less in \<open>assumption | blast\<close>)+
qed

theorem touch_creates_file_witness:
  "\<exists>d dir c d'. dir_handle new_partition d 1025 dir \<and>
     fat64_touch new_partition dir [104, 105] d = Inr (E_SUCCESS, load_cluster new_partition d dir, d') \<and>
     is_file new_partition d' 1025 0 [c] \<and> de_name (entry_of new_partition d' 1025 0) 1 = 105"
proof -
  obtain d where m: "fs_ok new_partition d" "dir_handle new_partition d 1025 (open_root new_partition d)"
    "\<And>i. i < 8 \<Longrightarrow> de_flags (entry_of new_partition d 1025 i) = 0"
    "free_clusters new_partition d = {c. 1025 < unat c \<and> unat c < 262144}"
    by (rule new_root [OF blank_zero]) blast
  have "1026 \<in> free_clusters new_partition d" using m(4) by simp
  then have ne: "free_clusters new_partition d \<noteq> {}" by blast
  have z: "de_flags (entry_of new_partition d 1025 0) AND FAT64_VALID_FLAG = 0" using m(3) [of 0] by simp
  have n: "length [104, 105 :: u8] < 256" by simp
  from touch_creates_file [OF m(1,2) n ne] z obtain i c d' where t: "i < 8"
    "\<forall>j < i. de_flags (entry_of new_partition d 1025 j) AND FAT64_VALID_FLAG \<noteq> 0"
    "fat64_touch new_partition (open_root new_partition d) [104, 105] d =
       Inr (E_SUCCESS, load_cluster new_partition d (open_root new_partition d), d')"
    "is_file new_partition d' 1025 i [c]"
    "\<forall>j < length [104, 105 :: u8]. de_name (entry_of new_partition d' 1025 i) j = [104, 105] ! j"
    by (metis zero_less_numeral)
  have "i = 0" using t(2) z by (metis gr0I)
  moreover from t(5) have "de_name (entry_of new_partition d' 1025 i) 1 = 105" by auto
  ultimately show ?thesis using m(2) t(3,4) by blast
qed

text \<open>C20 Removing a file, from a handle that was just opened, ends, makes its entry unused and
  frees exactly the clusters of its chain; the other entries of the directory and the clusters
  outside the file and its directory are unchanged.\<close>

theorem rm_frees_chain:
  assumes "fs_ok part d" and "is_file part d (f_cluster dir) i cs"
  shows "\<exists>f f' d'. fat64_dir_entry part dir (of_nat i) h d = Inr (E_SUCCESS, load_cluster part d dir, f) \<and>
     fat64_rm part f d = Some (Inr (E_SUCCESS, f', d')) \<and>
     free_clusters part d' = free_clusters part d \<union> set cs \<and> fs_ok part d' \<and>
     (\<forall>j < 8. j \<noteq> i \<longrightarrow> entry_of part d' (f_cluster dir) j = entry_of part d (f_cluster dir) j) \<and>
     untouched part (insert (f_cluster dir) (set cs)) d d' \<and>
     fat64_dir_entry part dir (of_nat i) h d' = Inr (FAT64_EOF, load_cluster part d' dir, h)"
proof -
  let ?p = "f_cluster dir"
  have i: "i < 8" and v: "de_flags (entry_of part d ?p i) = FAT64_VALID_FLAG" using assms(2) by (simp_all add: is_file_def)
  obtain f' d' where r: "fat64_rm part (opened part d (entry_of part d ?p i)) d = Some (Inr (E_SUCCESS, f', d'))"
    "free_clusters part d' = free_clusters part d \<union> set cs" "fs_ok part d'" "de_flags (entry_of part d' ?p i) = 0"
    "\<And>j. j < 8 \<Longrightarrow> j \<noteq> i \<Longrightarrow> entry_of part d' ?p j = entry_of part d ?p j" "untouched part (insert ?p (set cs)) d d'"
    by (rule rm_file [OF assms]) blast
  have "fat64_dir_entry part dir (of_nat i) h d' = Inr (FAT64_EOF, load_cluster part d' dir, h)"
    by (rule dir_entry_invalid [OF i]) (simp add: r(4))
  then show ?thesis using dir_entry_open [OF i v] r by blast
qed

theorem rm_frees_chain_witness:
  "\<exists>d c f f' d'. is_file new_partition d 1025 0 [c] \<and>
     fat64_rm new_partition f d = Some (Inr (E_SUCCESS, f', d')) \<and> c \<in> free_clusters new_partition d'"
proof -
  obtain d0 d c where s: "fs_ok new_partition d" "is_file new_partition d 1025 0 [c]"
    "f_cluster (open_root new_partition d0) = 1025" by (rule sample_file) blast
  have fl: "is_file new_partition d (f_cluster (open_root new_partition d0)) 0 [c]" unfolding s(3) by (rule s(2))
  from rm_frees_chain [OF s(1) fl, of zero_file] obtain f f' d' where
    "fat64_rm new_partition f d = Some (Inr (E_SUCCESS, f', d'))"
    "free_clusters new_partition d' = free_clusters new_partition d \<union> set [c]" by blast
  moreover from this(2) have "c \<in> free_clusters new_partition d'" by simp
  ultimately show ?thesis using s(2) by - (intro exI conjI, assumption+)
qed

end
