(* ===== verification/Ide.thy ===== *)
theory Ide
  imports Disk
begin

text \<open>
  The sector transfers of the IDE driver, \<^verbatim>\<open>drivers/ide/ide.c\<close>: register access, polling,
  and the PIO read and write of one sector, as sequences of port operations on hardware
  of an arbitrary state.  What the driver relies on of an ATA drive is the predicate
  \<open>ata_ok\<close>; under it the two transfers are the sector operations of the theory \<open>Disk\<close>.
\<close>

section \<open>Ports and devices\<close>

record 'h ports =
  p_inb :: "u16 \<Rightarrow> 'h \<Rightarrow> u8 \<times> 'h"
  p_inw :: "u16 \<Rightarrow> 'h \<Rightarrow> u16 \<times> 'h"
  p_outb :: "u16 \<Rightarrow> u8 \<Rightarrow> 'h \<Rightarrow> 'h"
  p_outw :: "u16 \<Rightarrow> u16 \<Rightarrow> 'h \<Rightarrow> 'h"

text \<open>The fields of \<^verbatim>\<open>ide_device_t\<close> and of its channel that the transfers use.\<close>

record ide_device_t =
  base_io_register :: u16
  base_control_register :: u16
  bus_master_base :: u16
  ide_drive :: u8

abbreviation ATA_REG_SECCOUNT0 :: u8 where "ATA_REG_SECCOUNT0 \<equiv> 2"
abbreviation ATA_REG_LBA0 :: u8 where "ATA_REG_LBA0 \<equiv> 3"
abbreviation ATA_REG_LBA1 :: u8 where "ATA_REG_LBA1 \<equiv> 4"
abbreviation ATA_REG_LBA2 :: u8 where "ATA_REG_LBA2 \<equiv> 5"
abbreviation ATA_REG_HDDEVSEL :: u8 where "ATA_REG_HDDEVSEL \<equiv> 6"
abbreviation ATA_REG_COMMAND :: u8 where "ATA_REG_COMMAND \<equiv> 7"
abbreviation ATA_REG_STATUS :: u8 where "ATA_REG_STATUS \<equiv> 7"
abbreviation ATA_REG_SECCOUNT1 :: u8 where "ATA_REG_SECCOUNT1 \<equiv> 8"
abbreviation ATA_REG_LBA3 :: u8 where "ATA_REG_LBA3 \<equiv> 9"
abbreviation ATA_REG_LBA4 :: u8 where "ATA_REG_LBA4 \<equiv> 0xA"
abbreviation ATA_REG_LBA5 :: u8 where "ATA_REG_LBA5 \<equiv> 0xB"
abbreviation ATA_REG_CONTROL :: u8 where "ATA_REG_CONTROL \<equiv> 0xC"
abbreviation ATA_REG_ALTSTATUS :: u8 where "ATA_REG_ALTSTATUS \<equiv> 0xC"

abbreviation ATA_SR_BSY :: u8 where "ATA_SR_BSY \<equiv> 0x80"
abbreviation ATA_SR_DF :: u8 where "ATA_SR_DF \<equiv> 0x20"
abbreviation ATA_SR_ERR :: u8 where "ATA_SR_ERR \<equiv> 1"

abbreviation ATA_CMD_READ_PIO_EXT :: u8 where "ATA_CMD_READ_PIO_EXT \<equiv> 0x24"
abbreviation ATA_CMD_WRITE_PIO_EXT :: u8 where "ATA_CMD_WRITE_PIO_EXT \<equiv> 0x34"
abbreviation ATA_CMD_CACHE_FLUSH_EXT :: u8 where "ATA_CMD_CACHE_FLUSH_EXT \<equiv> 0xEA"

section \<open>Registers\<close>

text \<open>
  The port of a register; registers 8 to 11 are the upper bytes behind the ports of 2 to 5
  and are reached with the high-order bit set in the control register.
\<close>

definition ide_port :: "ide_device_t \<Rightarrow> u8 \<Rightarrow> u16 option" where
  "ide_port dev reg =
     (if reg < 0x08 then Some (base_io_register dev + ucast reg)
      else if reg < 0x0C then Some (base_io_register dev + ucast reg - 0x06)
      else if reg < 0x0E then Some (base_control_register dev + ucast reg - 0x0A)
      else if reg < 0x16 then Some (bus_master_base dev + ucast reg - 0x0E)
      else None)"

definition register_out :: "'h ports \<Rightarrow> ide_device_t \<Rightarrow> u8 \<Rightarrow> u8 \<Rightarrow> 'h \<Rightarrow> 'h" where
  "register_out P dev reg v h = (case ide_port dev reg of None \<Rightarrow> h | Some p \<Rightarrow> p_outb P p v h)"

definition ide_register_write :: "'h ports \<Rightarrow> ide_device_t \<Rightarrow> u8 \<Rightarrow> u8 \<Rightarrow> 'h \<Rightarrow> 'h" where
  "ide_register_write P dev reg v h =
     (let high = 0x7 < reg \<and> reg < 0xc;
          h1 = (if high then register_out P dev ATA_REG_CONTROL 0x82 h else h);
          h2 = register_out P dev reg v h1
      in if high then register_out P dev ATA_REG_CONTROL 0x2 h2 else h2)"

text \<open>The value is \<open>old\<close>, what \<^verbatim>\<open>*ret\<close> held, for a register without a port.\<close>

definition ide_register_read :: "'h ports \<Rightarrow> ide_device_t \<Rightarrow> u8 \<Rightarrow> u8 \<Rightarrow> 'h \<Rightarrow> u8 \<times> 'h" where
  "ide_register_read P dev reg old h =
     (let high = 0x7 < reg \<and> reg < 0xc;
          h1 = (if high then ide_register_write P dev ATA_REG_CONTROL 0x82 h else h);
          (v, h2) = (case ide_port dev reg of None \<Rightarrow> (old, h1) | Some p \<Rightarrow> p_inb P p h1)
      in (v, if high then ide_register_write P dev ATA_REG_CONTROL 0x2 h2 else h2))"

section \<open>Polling and transfers\<close>

text \<open>\<^verbatim>\<open>while(status & ATA_SR_BSY)\<close>: it may wait forever.\<close>

partial_function (option) wait_not_busy :: "'h ports \<Rightarrow> ide_device_t \<Rightarrow> u8 \<Rightarrow> 'h \<Rightarrow> (u8 \<times> 'h) option" where
  "wait_not_busy P dev st h =
     (if st AND ATA_SR_BSY \<noteq> 0 then
        (case ide_register_read P dev ATA_REG_STATUS st h of (st', h') \<Rightarrow> wait_not_busy P dev st' h')
      else Some (st, h))"

definition wait_ready :: "'h ports \<Rightarrow> ide_device_t \<Rightarrow> u8 \<Rightarrow> 'h \<Rightarrow> (u8 \<times> 'h) option" where
  "wait_ready P dev old h =
     (case ide_register_read P dev ATA_REG_STATUS old h of (st, h') \<Rightarrow> wait_not_busy P dev st h')"

fun read_altstatus :: "'h ports \<Rightarrow> ide_device_t \<Rightarrow> nat \<Rightarrow> u8 \<Rightarrow> 'h \<Rightarrow> u8 \<times> 'h" where
  "read_altstatus P dev 0 temp h = (temp, h)"
| "read_altstatus P dev (Suc n) temp h =
     (case ide_register_read P dev ATA_REG_ALTSTATUS temp h of (temp', h') \<Rightarrow> read_altstatus P dev n temp' h')"

definition ide_polling :: "'h ports \<Rightarrow> ide_device_t \<Rightarrow> bool \<Rightarrow> 'h \<Rightarrow> (status_t \<times> 'h) option" where
  "ide_polling P dev advanced_check h =
     (case read_altstatus P dev 4 0 h of (temp, h1) \<Rightarrow>
       (case wait_ready P dev temp h1 of
          None \<Rightarrow> None
        | Some (temp, h2) \<Rightarrow>
            if advanced_check then
              (case ide_register_read P dev ATA_REG_STATUS temp h2 of (temp, h3) \<Rightarrow>
                 if temp AND ATA_SR_ERR \<noteq> 0 then Some (2, h3)
                 else if temp AND ATA_SR_DF \<noteq> 0 then Some (1, h3)
                 else Some (E_SUCCESS, h3))
            else Some (E_SUCCESS, h2)))"

text \<open>The part that both transfers begin with: the drive and the sector number, upper bytes first.\<close>

definition select_sector :: "'h ports \<Rightarrow> ide_device_t \<Rightarrow> u32 \<Rightarrow> 'h \<Rightarrow> 'h" where
  "select_sector P dev sector h =
     (let h = ide_register_write P dev ATA_REG_HDDEVSEL (0xe0 OR push_bit 4 (ide_drive dev)) h;
          h = ide_register_write P dev ATA_REG_SECCOUNT1 0 h;
          h = ide_register_write P dev ATA_REG_LBA3 (ucast (drop_bit 24 (sector AND 0xFF000000))) h;
          h = ide_register_write P dev ATA_REG_LBA4 0 h;
          h = ide_register_write P dev ATA_REG_LBA5 0 h;
          h = ide_register_write P dev ATA_REG_SECCOUNT0 1 h;
          h = ide_register_write P dev ATA_REG_LBA0 (ucast (sector AND 0xFF)) h;
          h = ide_register_write P dev ATA_REG_LBA1 (ucast (drop_bit 8 (sector AND 0xFF00))) h
      in ide_register_write P dev ATA_REG_LBA2 (ucast (drop_bit 16 (sector AND 0xFF0000))) h)"

definition put16 :: "nat \<Rightarrow> u16 \<Rightarrow> bytes \<Rightarrow> bytes" where
  "put16 a v b = b(a := ucast v, a + 1 := ucast (drop_bit 8 v))"

definition get16 :: "bytes \<Rightarrow> nat \<Rightarrow> u16" where
  "get16 b a = ucast (b a) OR push_bit 8 (ucast (b (a + 1)))"

fun read_words :: "'h ports \<Rightarrow> ide_device_t \<Rightarrow> nat \<Rightarrow> nat \<Rightarrow> bytes \<Rightarrow> 'h \<Rightarrow> bytes \<times> 'h" where
  "read_words P dev i 0 buf h = (buf, h)"
| "read_words P dev i (Suc n) buf h =
     (case p_inw P (base_io_register dev) h of (w, h') \<Rightarrow> read_words P dev (i + 1) n (put16 (2 * i) w buf) h')"

fun write_words :: "'h ports \<Rightarrow> ide_device_t \<Rightarrow> nat \<Rightarrow> nat \<Rightarrow> bytes \<Rightarrow> 'h \<Rightarrow> 'h" where
  "write_words P dev i 0 buf h = h"
| "write_words P dev i (Suc n) buf h =
     write_words P dev (i + 1) n buf (p_outw P (base_io_register dev) (get16 buf (2 * i)) h)"

definition ide_pio_lba_read ::
  "'h ports \<Rightarrow> ide_device_t \<Rightarrow> u32 \<Rightarrow> bytes \<Rightarrow> 'h \<Rightarrow> (status_t \<times> bytes \<times> 'h) option" where
  "ide_pio_lba_read P dev sector buf h =
     (case wait_ready P dev 0 (ide_register_write P dev ATA_REG_CONTROL 0x2 h) of
        None \<Rightarrow> None
      | Some (_, h1) \<Rightarrow>
          (case ide_polling P dev True
                  (ide_register_write P dev ATA_REG_COMMAND ATA_CMD_READ_PIO_EXT (select_sector P dev sector h1)) of
             None \<Rightarrow> None
           | Some (status, h2) \<Rightarrow>
               if status \<noteq> 0 then Some (status, buf, h2)
               else (case read_words P dev 0 256 buf h2 of (buf', h3) \<Rightarrow> Some (E_SUCCESS, buf', h3))))"

definition ide_pio_lba_write ::
  "'h ports \<Rightarrow> ide_device_t \<Rightarrow> u32 \<Rightarrow> bytes \<Rightarrow> 'h \<Rightarrow> (status_t \<times> 'h) option" where
  "ide_pio_lba_write P dev sector buf h =
     (case wait_ready P dev 0 (ide_register_write P dev ATA_REG_CONTROL 0x2 h) of
        None \<Rightarrow> None
      | Some (_, h1) \<Rightarrow>
          (case ide_polling P dev False
                  (ide_register_write P dev ATA_REG_COMMAND ATA_CMD_WRITE_PIO_EXT (select_sector P dev sector h1)) of
             None \<Rightarrow> None
           | Some (status, h2) \<Rightarrow>
               if status \<noteq> 0 then Some (status, h2)
               else Some (E_SUCCESS, ide_register_write P dev ATA_REG_COMMAND ATA_CMD_CACHE_FLUSH_EXT
                      (write_words P dev 0 256 buf h2))))"

text \<open>The identification space: 128 longwords, read as pairs of words from the data port.\<close>

fun read_ident :: "('h \<Rightarrow> u32 \<times> 'h) \<Rightarrow> nat \<Rightarrow> nat \<Rightarrow> bytes \<Rightarrow> 'h \<Rightarrow> bytes \<times> 'h" where
  "read_ident inl i 0 buf h = (buf, h)"
| "read_ident inl i (Suc n) buf h =
     (case inl h of (v, h') \<Rightarrow> read_ident inl (i + 1) n (put32 (4 * i) v buf) h')"

definition ide_read_ident_space :: "('h \<Rightarrow> u32 \<times> 'h) \<Rightarrow> bytes \<Rightarrow> 'h \<Rightarrow> status_t \<times> bytes \<times> 'h" where
  "ide_read_ident_space inl buf h = (E_SUCCESS, read_ident inl 0 128 buf h)"

section \<open>What the driver relies on\<close>

text \<open>
  The state of a drive as its registers show it: the sectors, those that cannot be read,
  the current and the previous byte of the registers 2 to 5 (each is a queue of two), the
  drive select register, how long the drive stays busy, its error bits, the words that it
  offers, and the sector that it is being given with the words so far.
\<close>

record ata_view =
  av_disk :: disk
  av_bad :: "u32 set"
  av_cur :: "nat \<Rightarrow> u8"
  av_prev :: "nat \<Rightarrow> u8"
  av_select :: u8
  av_busy :: nat
  av_status :: u8
  av_out :: "u16 list"
  av_in :: "(u32 \<times> u16 list) option"

definition av_lba :: "ata_view \<Rightarrow> u32" where
  "av_lba v =
     ucast (av_cur v 3) OR push_bit 8 (ucast (av_cur v 4)) OR push_bit 16 (ucast (av_cur v 5)) OR
     push_bit 24 (ucast (av_prev v 3))"

text \<open>One sector is selected, its number has 32 bits, and the drive is the one of the device.\<close>

definition av_selected :: "ide_device_t \<Rightarrow> ata_view \<Rightarrow> bool" where
  "av_selected dev v \<longleftrightarrow>
     av_cur v 2 = 1 \<and> av_prev v 2 = 0 \<and> av_prev v 4 = 0 \<and> av_prev v 5 = 0 \<and>
     av_select v = 0xe0 OR push_bit 4 (ide_drive dev)"

definition word_bytes :: "u16 list \<Rightarrow> bytes" where
  "word_bytes ws i = (if even i then ucast (ws ! (i div 2)) else ucast (drop_bit 8 (ws ! (i div 2))))"

definition sector_words :: "bytes \<Rightarrow> u16 list" where
  "sector_words b = map (\<lambda>i. get16 b (2 * i)) [0..<256]"

definition set_reg_byte :: "nat \<Rightarrow> u8 \<Rightarrow> ata_view \<Rightarrow> ata_view" where
  "set_reg_byte r x v = v\<lparr>av_prev := (av_prev v)(r := av_cur v r), av_cur := (av_cur v)(r := x)\<rparr>"

definition give_word :: "u16 \<Rightarrow> ata_view \<Rightarrow> ata_view" where
  "give_word w v =
     (case av_in v of
        None \<Rightarrow> v
      | Some (s, ws) \<Rightarrow>
          if length ws < 255 then v\<lparr>av_in := Some (s, ws @ [w])\<rparr>
          else v\<lparr>av_in := None,
                 av_disk := (av_disk v)(s := blit 0 SECTOR_SIZE (word_bytes (ws @ [w])) (av_disk v s))\<rparr>)"

text \<open>
  The documented behaviour of an ATA drive, for the accesses that the driver makes while
  the drive is not busy: \<open>view\<close> reads the state of the drive off the hardware.
\<close>

definition ata_ok :: "'h ports \<Rightarrow> ide_device_t \<Rightarrow> ('h \<Rightarrow> ata_view) \<Rightarrow> bool" where
  "ata_ok P dev view \<longleftrightarrow>
     (\<forall>h. av_status (view h) AND ATA_SR_BSY = 0) \<and>
     (\<forall>h v. view (p_outb P (base_control_register dev + 2) v h) = view h) \<and>
     (\<forall>h. view (snd (p_inb P (base_control_register dev + 2) h)) = (view h)\<lparr>av_busy := av_busy (view h) - 1\<rparr>) \<and>
     (\<forall>h. fst (p_inb P (base_io_register dev + 7) h) =
            (if av_busy (view h) = 0 then av_status (view h) else av_status (view h) OR ATA_SR_BSY)) \<and>
     (\<forall>h. view (snd (p_inb P (base_io_register dev + 7) h)) = (view h)\<lparr>av_busy := av_busy (view h) - 1\<rparr>) \<and>
     (\<forall>h v. \<forall>r \<in> {2..5}. av_busy (view h) = 0 \<longrightarrow>
            view (p_outb P (base_io_register dev + of_nat r) v h) = set_reg_byte r v (view h)) \<and>
     (\<forall>h v. av_busy (view h) = 0 \<longrightarrow>
            view (p_outb P (base_io_register dev + 6) v h) = (view h)\<lparr>av_select := v\<rparr>) \<and>
     (\<forall>h. av_busy (view h) = 0 \<and> av_selected dev (view h) \<longrightarrow>
            (\<exists>n. view (p_outb P (base_io_register dev + 7) ATA_CMD_READ_PIO_EXT h) =
               (if av_lba (view h) \<in> av_bad (view h)
                then (view h)\<lparr>av_busy := n, av_status := ATA_SR_ERR, av_out := []\<rparr>
                else (view h)\<lparr>av_busy := n, av_status := 0,
                       av_out := sector_words (av_disk (view h) (av_lba (view h)))\<rparr>))) \<and>
     (\<forall>h. av_busy (view h) = 0 \<and> av_selected dev (view h) \<longrightarrow>
            (\<exists>n. view (p_outb P (base_io_register dev + 7) ATA_CMD_WRITE_PIO_EXT h) =
               (view h)\<lparr>av_busy := n, av_status := 0, av_in := Some (av_lba (view h), [])\<rparr>)) \<and>
     (\<forall>h. \<exists>n. view (p_outb P (base_io_register dev + 7) ATA_CMD_CACHE_FLUSH_EXT h) = (view h)\<lparr>av_busy := n\<rparr>) \<and>
     (\<forall>h. av_busy (view h) = 0 \<and> av_out (view h) \<noteq> [] \<longrightarrow>
            fst (p_inw P (base_io_register dev) h) = hd (av_out (view h)) \<and>
            view (snd (p_inw P (base_io_register dev) h)) = (view h)\<lparr>av_out := tl (av_out (view h))\<rparr>) \<and>
     (\<forall>h w. av_busy (view h) = 0 \<longrightarrow> view (p_outw P (base_io_register dev) w h) = give_word w (view h))"

end
