(* ===== verification/Ide_Disk.thy ===== *)
theory Ide_Disk
  imports Ide
begin

text \<open>
  On a drive that behaves as documented, the PIO transfers of the driver end, and they are
  the sector operations of the theory \<open>Disk\<close>; an error of a read is reported, an error of a
  write is not looked for.
\<close>

section \<open>Registers\<close>

lemma ide_port_simps [simp]:
  "ide_port dev 2 = Some (base_io_register dev + 2)" "ide_port dev 3 = Some (base_io_register dev + 3)"
  "ide_port dev 4 = Some (base_io_register dev + 4)" "ide_port dev 5 = Some (base_io_register dev + 5)"
  "ide_port dev 6 = Some (base_io_register dev + 6)" "ide_port dev 7 = Some (base_io_register dev + 7)"
  "ide_port dev 8 = Some (base_io_register dev + 2)" "ide_port dev 9 = Some (base_io_register dev + 3)"
  "ide_port dev 0xA = Some (base_io_register dev + 4)" "ide_port dev 0xB = Some (base_io_register dev + 5)"
  "ide_port dev 0xC = Some (base_control_register dev + 2)"
  by (simp_all add: ide_port_def)

lemma ata_okD:
  assumes "ata_ok P dev view"
  shows "av_status (view h) AND ATA_SR_BSY = 0"
    and "view (p_outb P (base_control_register dev + 2) x h) = view h"
    and "view (snd (p_inb P (base_control_register dev + 2) h)) = (view h)\<lparr>av_busy := av_busy (view h) - 1\<rparr>"
    and "fst (p_inb P (base_io_register dev + 7) h) =
      (if av_busy (view h) = 0 then av_status (view h) else av_status (view h) OR ATA_SR_BSY)"
    and "view (snd (p_inb P (base_io_register dev + 7) h)) = (view h)\<lparr>av_busy := av_busy (view h) - 1\<rparr>"
    and "av_busy (view h) = 0 \<Longrightarrow> view (p_outb P (base_io_register dev + 2) x h) = set_reg_byte 2 x (view h)"
    and "av_busy (view h) = 0 \<Longrightarrow> view (p_outb P (base_io_register dev + 3) x h) = set_reg_byte 3 x (view h)"
    and "av_busy (view h) = 0 \<Longrightarrow> view (p_outb P (base_io_register dev + 4) x h) = set_reg_byte 4 x (view h)"
    and "av_busy (view h) = 0 \<Longrightarrow> view (p_outb P (base_io_register dev + 5) x h) = set_reg_byte 5 x (view h)"
    and "av_busy (view h) = 0 \<Longrightarrow> view (p_outb P (base_io_register dev + 6) x h) = (view h)\<lparr>av_select := x\<rparr>"
    and "av_busy (view h) = 0 \<Longrightarrow> av_selected dev (view h) \<Longrightarrow>
      \<exists>n. view (p_outb P (base_io_register dev + 7) ATA_CMD_READ_PIO_EXT h) =
        (if av_lba (view h) \<in> av_bad (view h)
         then (view h)\<lparr>av_busy := n, av_status := ATA_SR_ERR, av_out := []\<rparr>
         else (view h)\<lparr>av_busy := n, av_status := 0, av_out := sector_words (av_disk (view h) (av_lba (view h)))\<rparr>)"
    and "av_busy (view h) = 0 \<Longrightarrow> av_selected dev (view h) \<Longrightarrow>
      \<exists>n. view (p_outb P (base_io_register dev + 7) ATA_CMD_WRITE_PIO_EXT h) =
        (view h)\<lparr>av_busy := n, av_status := 0, av_in := Some (av_lba (view h), [])\<rparr>"
    and "\<exists>n. view (p_outb P (base_io_register dev + 7) ATA_CMD_CACHE_FLUSH_EXT h) = (view h)\<lparr>av_busy := n\<rparr>"
    and "av_busy (view h) = 0 \<Longrightarrow> av_out (view h) \<noteq> [] \<Longrightarrow>
      fst (p_inw P (base_io_register dev) h) = hd (av_out (view h)) \<and>
      view (snd (p_inw P (base_io_register dev) h)) = (view h)\<lparr>av_out := tl (av_out (view h))\<rparr>"
    and "av_busy (view h) = 0 \<Longrightarrow> view (p_outw P (base_io_register dev) w h) = give_word w (view h)"
proof -
  note ok = assms [unfolded ata_ok_def]
  have r: "view (p_outb P (base_io_register dev + of_nat n) x h) = set_reg_byte n x (view h)"
    if "av_busy (view h) = 0" "n \<in> {2..5}" for n using ok that by blast
  show "av_busy (view h) = 0 \<Longrightarrow> view (p_outb P (base_io_register dev + 2) x h) = set_reg_byte 2 x (view h)"
    using r [of 2] by simp
  show "av_busy (view h) = 0 \<Longrightarrow> view (p_outb P (base_io_register dev + 3) x h) = set_reg_byte 3 x (view h)"
    using r [of 3] by simp
  show "av_busy (view h) = 0 \<Longrightarrow> view (p_outb P (base_io_register dev + 4) x h) = set_reg_byte 4 x (view h)"
    using r [of 4] by simp
  show "av_busy (view h) = 0 \<Longrightarrow> view (p_outb P (base_io_register dev + 5) x h) = set_reg_byte 5 x (view h)"
    using r [of 5] by simp
qed (use assms [unfolded ata_ok_def] in blast)+

lemma set_reg_byte_simps [simp]:
  "av_busy (set_reg_byte r x v) = av_busy v" "av_disk (set_reg_byte r x v) = av_disk v"
  "av_bad (set_reg_byte r x v) = av_bad v" "av_status (set_reg_byte r x v) = av_status v"
  "av_select (set_reg_byte r x v) = av_select v" "av_out (set_reg_byte r x v) = av_out v"
  "av_in (set_reg_byte r x v) = av_in v"
  "av_cur (set_reg_byte r x v) r' = (if r' = r then x else av_cur v r')"
  "av_prev (set_reg_byte r x v) r' = (if r' = r then av_cur v r else av_prev v r')"
  by (simp_all add: set_reg_byte_def)

lemma view_register_write:
  assumes ok: "ata_ok P dev view"
  shows "view (ide_register_write P dev ATA_REG_CONTROL x h) = view h"
    and "av_busy (view h) = 0 \<Longrightarrow> view (ide_register_write P dev ATA_REG_HDDEVSEL x h) = (view h)\<lparr>av_select := x\<rparr>"
    and "av_busy (view h) = 0 \<Longrightarrow> view (ide_register_write P dev ATA_REG_SECCOUNT0 x h) = set_reg_byte 2 x (view h)"
    and "av_busy (view h) = 0 \<Longrightarrow> view (ide_register_write P dev ATA_REG_LBA0 x h) = set_reg_byte 3 x (view h)"
    and "av_busy (view h) = 0 \<Longrightarrow> view (ide_register_write P dev ATA_REG_LBA1 x h) = set_reg_byte 4 x (view h)"
    and "av_busy (view h) = 0 \<Longrightarrow> view (ide_register_write P dev ATA_REG_LBA2 x h) = set_reg_byte 5 x (view h)"
    and "av_busy (view h) = 0 \<Longrightarrow> view (ide_register_write P dev ATA_REG_SECCOUNT1 x h) = set_reg_byte 2 x (view h)"
    and "av_busy (view h) = 0 \<Longrightarrow> view (ide_register_write P dev ATA_REG_LBA3 x h) = set_reg_byte 3 x (view h)"
    and "av_busy (view h) = 0 \<Longrightarrow> view (ide_register_write P dev ATA_REG_LBA4 x h) = set_reg_byte 4 x (view h)"
    and "av_busy (view h) = 0 \<Longrightarrow> view (ide_register_write P dev ATA_REG_LBA5 x h) = set_reg_byte 5 x (view h)"
  by (simp_all add: ide_register_write_def register_out_def Let_def ata_okD [OF ok])

lemma lba_bytes:
  fixes s :: u32
  shows "ucast (ucast (s AND 0xFF) :: u8) OR push_bit 8 (ucast (ucast (drop_bit 8 (s AND 0xFF00)) :: u8)) OR
     push_bit 16 (ucast (ucast (drop_bit 16 (s AND 0xFF0000)) :: u8)) OR
     push_bit 24 (ucast (ucast (drop_bit 24 (s AND 0xFF000000)) :: u8)) = s"
proof -
  have m: "(0xFF :: u32) = mask 8" "(0xFF00 :: u32) = push_bit 8 (mask 8)"
    "(0xFF0000 :: u32) = push_bit 16 (mask 8)" "(0xFF000000 :: u32) = push_bit 24 (mask 8)"
    by (simp_all add: mask_eq_exp_minus_1 push_bit_eq_mult)
  show ?thesis
    unfolding m
    by (rule bit_word_eqI, rename_tac n, case_tac "n < 16"; case_tac "n < 24"; case_tac "n < 8")
      (auto simp: bit_simps)
qed

lemma select_sector_view:
  fixes sector :: u32
  assumes ok: "ata_ok P dev view" and b: "av_busy (view h) = 0"
  defines "v \<equiv> view (select_sector P dev sector h)"
  shows "av_busy v = 0" "av_selected dev v" "av_lba v = sector" "av_disk v = av_disk (view h)"
    "av_bad v = av_bad (view h)"
  using b lba_bytes [of sector]
  by (simp_all add: v_def select_sector_def Let_def view_register_write [OF ok] av_selected_def av_lba_def)

section \<open>Polling\<close>

lemma ata_busy_same [simp]: "av_busy v = 0 \<Longrightarrow> v\<lparr>av_busy := 0\<rparr> = v"
  by (cases v) simp

lemma status_read:
  assumes ok: "ata_ok P dev view"
  obtains h' where "ide_register_read P dev ATA_REG_STATUS old h =
      ((if av_busy (view h) = 0 then av_status (view h) else av_status (view h) OR ATA_SR_BSY), h')"
    and "view h' = (view h)\<lparr>av_busy := av_busy (view h) - 1\<rparr>"
proof -
  let ?r = "p_inb P (base_io_register dev + 7) h"
  have "ide_register_read P dev ATA_REG_STATUS old h = (fst ?r, snd ?r)"
    by (simp add: ide_register_read_def Let_def split: prod.split)
  then show ?thesis using that ata_okD(4,5) [OF ok] by simp
qed

lemma wait_ready_ends:
  assumes ok: "ata_ok P dev view"
  shows "\<exists>h'. wait_ready P dev old h = Some (av_status (view h), h') \<and> view h' = (view h)\<lparr>av_busy := 0\<rparr>"
proof (induction "av_busy (view h)" arbitrary: old h)
  case 0
  from status_read [OF ok] obtain h' where
    "ide_register_read P dev ATA_REG_STATUS old h =
      ((if av_busy (view h) = 0 then av_status (view h) else av_status (view h) OR ATA_SR_BSY), h')"
    "view h' = (view h)\<lparr>av_busy := av_busy (view h) - 1\<rparr>" .
  then show ?case
    using 0 ata_okD(1) [OF ok, of h] by (simp add: wait_ready_def wait_not_busy.simps [of P dev "av_status (view h)"])
next
  case (Suc n)
  from status_read [OF ok] obtain h' where r:
    "ide_register_read P dev ATA_REG_STATUS old h =
      ((if av_busy (view h) = 0 then av_status (view h) else av_status (view h) OR ATA_SR_BSY), h')"
    "view h' = (view h)\<lparr>av_busy := av_busy (view h) - 1\<rparr>" .
  let ?st = "av_status (view h) OR ATA_SR_BSY"
  have "bit ?st 7" by (simp add: bit_simps)
  then have "bit (?st AND ATA_SR_BSY) 7" by (simp add: bit_simps)
  then have "?st AND ATA_SR_BSY \<noteq> 0" by (metis bit_0_eq bot_apply bot_bool_def)
  then have "wait_ready P dev old h = wait_ready P dev ?st h'"
    using r(1) Suc.hyps(2) by (simp add: wait_ready_def wait_not_busy.simps [of P dev ?st] del: bit_and_iff)
  moreover have "n = av_busy (view h')" using r(2) Suc.hyps(2) by simp
  ultimately show ?case using Suc.hyps(1) [of h' ?st] r(2) by simp
qed

lemma altstatus_view:
  assumes ok: "ata_ok P dev view"
  shows "view (snd (read_altstatus P dev n temp h)) = (view h)\<lparr>av_busy := av_busy (view h) - n\<rparr>"
proof (induction n arbitrary: temp h)
  case 0
  show ?case by (cases "view h") simp
next
  case (Suc n)
  have "ide_register_read P dev ATA_REG_ALTSTATUS temp h =
      (fst (p_inb P (base_control_register dev + 2) h), snd (p_inb P (base_control_register dev + 2) h))"
    by (simp add: ide_register_read_def Let_def split: prod.split)
  then show ?case using Suc ata_okD(3) [OF ok] by (simp add: split_beta)
qed

lemma polling_ends:
  assumes ok: "ata_ok P dev view"
  obtains h' where "view h' = (view h)\<lparr>av_busy := 0\<rparr>"
    and "ide_polling P dev adv h = Some
      (if adv \<and> av_status (view h) AND ATA_SR_ERR \<noteq> 0 then 2
       else if adv \<and> av_status (view h) AND ATA_SR_DF \<noteq> 0 then 1 else E_SUCCESS, h')"
proof -
  obtain temp h1 where a: "read_altstatus P dev 4 0 h = (temp, h1)" by fastforce
  have v1: "view h1 = (view h)\<lparr>av_busy := av_busy (view h) - 4\<rparr>" using altstatus_view [OF ok, of 4 0 h] a by simp
  from wait_ready_ends [OF ok, of temp h1] v1 obtain h2 where
    w: "wait_ready P dev temp h1 = Some (av_status (view h), h2)" "view h2 = (view h)\<lparr>av_busy := 0\<rparr>" by auto
  from status_read [OF ok, of "av_status (view h)" h2] w(2) obtain h3 where
    s: "ide_register_read P dev ATA_REG_STATUS (av_status (view h)) h2 = (av_status (view h), h3)"
    "view h3 = (view h)\<lparr>av_busy := 0\<rparr>" by auto
  show ?thesis
  proof (cases adv)
    case True
    then show ?thesis using that [OF s(2)] a w(1) s(1) by (simp add: ide_polling_def)
  next
    case False
    then show ?thesis using that [OF w(2)] a w(1) by (simp add: ide_polling_def)
  qed
qed

section \<open>Words\<close>

lemma get16_low [simp]: "ucast (get16 b a) = b a"
  unfolding get16_def by (rule bit_word_eqI) (auto simp: bit_simps)

lemma get16_high [simp]: "ucast (drop_bit 8 (get16 b a)) = b (a + 1)"
  unfolding get16_def by (rule bit_word_eqI) (auto simp: bit_simps dest: bit_imp_le_length)

lemma word_bytes_words: "i < 512 \<Longrightarrow> word_bytes (sector_words b) i = b i"
  by (cases "even i") (auto simp: word_bytes_def sector_words_def elim!: evenE oddE)

lemma read_words_view:
  assumes ok: "ata_ok P dev view"
  shows "av_busy (view h) = 0 \<Longrightarrow> length (av_out (view h)) = n \<Longrightarrow>
    \<exists>h'. read_words P dev i n buf h =
        (\<lambda>x. if 2 * i \<le> x \<and> x < 2 * i + 2 * n then word_bytes (av_out (view h)) (x - 2 * i) else buf x, h') \<and>
      view h' = (view h)\<lparr>av_out := []\<rparr>"
proof (induction n arbitrary: i buf h)
  case 0
  then show ?case by (cases "view h") (auto simp: fun_eq_iff)
next
  case (Suc n)
  then obtain w ws where out: "av_out (view h) = w # ws" by (cases "av_out (view h)") auto
  let ?r = "p_inw P (base_io_register dev) h"
  have r: "fst ?r = w" "view (snd ?r) = (view h)\<lparr>av_out := ws\<rparr>"
    using ata_okD(14) [OF ok Suc.prems(1)] out by simp_all
  obtain h1 where h1: "?r = (w, h1)" using r(1) by (cases ?r) simp
  have v1: "av_busy (view h1) = 0" "length (av_out (view h1)) = n" "av_out (view h1) = ws"
    using r(2) h1 Suc.prems out by simp_all
  from Suc.IH [OF v1(1,2), of "i + 1" "put16 (2 * i) w buf"] obtain h' where
    IH: "read_words P dev (i + 1) n (put16 (2 * i) w buf) h1 =
        (\<lambda>x. if 2 * (i + 1) \<le> x \<and> x < 2 * (i + 1) + 2 * n then word_bytes ws (x - 2 * (i + 1))
             else put16 (2 * i) w buf x, h')" "view h' = (view h1)\<lparr>av_out := []\<rparr>" using v1(3) by auto
  have "(\<lambda>x. if 2 * (i + 1) \<le> x \<and> x < 2 * (i + 1) + 2 * n then word_bytes ws (x - 2 * (i + 1)) else put16 (2 * i) w buf x) =
      (\<lambda>x. if 2 * i \<le> x \<and> x < 2 * i + 2 * Suc n then word_bytes (w # ws) (x - 2 * i) else buf x)"
  proof (rule ext)
    fix x
    consider "x < 2 * i" | "x = 2 * i" | "x = 2 * i + 1" | "2 * i + 2 \<le> x" by linarith
    then consider "x < 2 * i" | "x = 2 * i" | "x = 2 * i + 1" | y where "x = 2 * i + 2 + y"
      by cases (auto simp: le_iff_add)
    then show "(if 2 * (i + 1) \<le> x \<and> x < 2 * (i + 1) + 2 * n then word_bytes ws (x - 2 * (i + 1)) else put16 (2 * i) w buf x) =
      (if 2 * i \<le> x \<and> x < 2 * i + 2 * Suc n then word_bytes (w # ws) (x - 2 * i) else buf x)"
      by cases (auto simp: put16_def word_bytes_def)
  qed
  then show ?case unfolding out using IH h1 r(2) by simp
qed

lemma write_words_view:
  assumes ok: "ata_ok P dev view"
  shows "av_busy (view h) = 0 \<Longrightarrow> av_in (view h) = Some (s, map (\<lambda>j. get16 buf (2 * j)) [0..<i]) \<Longrightarrow>
    i + Suc n = 256 \<Longrightarrow>
    view (write_words P dev i (Suc n) buf h) = (view h)\<lparr>av_in := None,
      av_disk := (av_disk (view h))(s := blit 0 SECTOR_SIZE (word_bytes (sector_words buf)) (av_disk (view h) s))\<rparr>"
proof (induction n arbitrary: i h)
  case 0
  then have i: "i = 255" by simp
  have w: "sector_words buf = map (\<lambda>j. get16 buf (2 * j)) [0..<255] @ [get16 buf (2 * 255)]"
  proof -
    have "[0..<256] = [0..<255] @ [255::nat]" using upt_Suc_append [of 0 255] by simp
    then show ?thesis by (simp only: sector_words_def map_append list.map)
  qed
  have "view (write_words P dev i (Suc 0) buf h) = give_word (get16 buf (2 * 255)) (view h)"
    using ata_okD(15) [OF ok 0(1)] i by simp
  then show ?case using 0(2) i by (simp only: give_word_def w option.case prod.case length_map length_upt) (simp add: fun_upd_def)
next
  case (Suc n)
  let ?h = "p_outw P (base_io_register dev) (get16 buf (2 * i)) h"
  have v: "view ?h = (view h)\<lparr>av_in := Some (s, map (\<lambda>j. get16 buf (2 * j)) [0..<Suc i])\<rparr>"
    using Suc.prems ata_okD(15) [OF ok Suc.prems(1)] by (simp add: give_word_def)
  have "view (write_words P dev (Suc i) (Suc n) buf ?h) = (view ?h)\<lparr>av_in := None,
      av_disk := (av_disk (view ?h))(s := blit 0 SECTOR_SIZE (word_bytes (sector_words buf)) (av_disk (view ?h) s))\<rparr>"
    by (rule Suc.IH) (use Suc.prems v in simp_all)
  then show ?case using v by (simp add: fun_upd_def)
qed

section \<open>The transfers\<close>

text \<open>Both transfers begin by selecting the sector on a drive that is no longer busy.\<close>

lemma pio_prefix:
  assumes ok: "ata_ok P dev view"
  obtains st h1 where "wait_ready P dev 0 (ide_register_write P dev ATA_REG_CONTROL 0x2 h) = Some (st, h1)"
    and "view h1 = (view h)\<lparr>av_busy := 0\<rparr>"
  using wait_ready_ends [OF ok, of 0 "ide_register_write P dev ATA_REG_CONTROL 0x2 h"] that
  by (auto simp: view_register_write [OF ok])

lemma command_write: "ide_register_write P dev ATA_REG_COMMAND x h = p_outb P (base_io_register dev + 7) x h"
  by (simp add: ide_register_write_def register_out_def Let_def)

lemma pio_read_sector:
  assumes ok: "ata_ok P dev view"
  obtains h' where "ide_pio_lba_read P dev sector buf h =
      Some (if sector \<in> av_bad (view h) then (2, buf, h') else (E_SUCCESS, ide_read sector 0 (av_disk (view h)) buf, h'))"
    and "av_disk (view h') = av_disk (view h)" and "av_bad (view h') = av_bad (view h)"
proof -
  obtain st h1 where w: "wait_ready P dev 0 (ide_register_write P dev ATA_REG_CONTROL 0x2 h) = Some (st, h1)"
    "view h1 = (view h)\<lparr>av_busy := 0\<rparr>" by (rule pio_prefix [OF ok])
  let ?s = "select_sector P dev sector h1"
  have b1: "av_busy (view h1) = 0" using w(2) by simp
  note S = select_sector_view [OF ok b1, of sector]
  have S': "av_disk (view ?s) = av_disk (view h)" "av_bad (view ?s) = av_bad (view h)" using S(4,5) w(2) by simp_all
  let ?c = "ide_register_write P dev ATA_REG_COMMAND ATA_CMD_READ_PIO_EXT ?s"
  obtain n where c: "view ?c = (if sector \<in> av_bad (view h)
      then (view ?s)\<lparr>av_busy := n, av_status := ATA_SR_ERR, av_out := []\<rparr>
      else (view ?s)\<lparr>av_busy := n, av_status := 0, av_out := sector_words (av_disk (view h) sector)\<rparr>)"
    using ata_okD(11) [OF ok S(1,2)] unfolding S(3) S' command_write by blast
  obtain h2 where p: "view h2 = (view ?c)\<lparr>av_busy := 0\<rparr>" "ide_polling P dev True ?c = Some
      (if True \<and> av_status (view ?c) AND ATA_SR_ERR \<noteq> 0 then 2
       else if True \<and> av_status (view ?c) AND ATA_SR_DF \<noteq> 0 then 1 else E_SUCCESS, h2)"
    by (rule polling_ends [OF ok])
  show ?thesis
  proof (cases "sector \<in> av_bad (view h)")
    case True
    then have "ide_polling P dev True ?c = Some (2, h2)" using p(2) c by simp
    then show ?thesis using that [of h2] True w(1) p(1) c S' by (simp add: ide_pio_lba_read_def)
  next
    case False
    then have "ide_polling P dev True ?c = Some (E_SUCCESS, h2)" using p(2) c by simp
    moreover have v2: "av_busy (view h2) = 0" "av_out (view h2) = sector_words (av_disk (view h) sector)"
      using p(1) c False by simp_all
    moreover have "length (av_out (view h2)) = 256" using v2(2) by (simp add: sector_words_def)
    from read_words_view [OF ok v2(1) this, of 0 buf] obtain h3 where
      r: "read_words P dev 0 256 buf h2 = (\<lambda>x. if 2 * 0 \<le> x \<and> x < 2 * 0 + 2 * 256
          then word_bytes (av_out (view h2)) (x - 2 * 0) else buf x, h3)" "view h3 = (view h2)\<lparr>av_out := []\<rparr>" by blast
    have "(\<lambda>x. if 2 * 0 \<le> x \<and> x < 2 * 0 + 2 * 256 then word_bytes (av_out (view h2)) (x - 2 * 0) else buf x) =
        ide_read sector 0 (av_disk (view h)) buf"
      unfolding v2(2) by (auto simp: fun_eq_iff ide_read_def blit_def SECTOR_SIZE_def word_bytes_words)
    then have "ide_pio_lba_read P dev sector buf h = Some (E_SUCCESS, ide_read sector 0 (av_disk (view h)) buf, h3)"
      using r(1) calculation(1) w(1) by (simp add: ide_pio_lba_read_def)
    then show ?thesis using that [of h3] False r(2) p(1) c S' by simp
  qed
qed

lemma pio_write_sector:
  assumes ok: "ata_ok P dev view"
  obtains h' where "ide_pio_lba_write P dev sector buf h = Some (E_SUCCESS, h')"
    and "av_disk (view h') = ide_write sector 0 buf (av_disk (view h))" and "av_bad (view h') = av_bad (view h)"
proof -
  obtain st h1 where w: "wait_ready P dev 0 (ide_register_write P dev ATA_REG_CONTROL 0x2 h) = Some (st, h1)"
    "view h1 = (view h)\<lparr>av_busy := 0\<rparr>" by (rule pio_prefix [OF ok])
  let ?s = "select_sector P dev sector h1"
  have b1: "av_busy (view h1) = 0" using w(2) by simp
  note S = select_sector_view [OF ok b1, of sector]
  have S': "av_disk (view ?s) = av_disk (view h)" "av_bad (view ?s) = av_bad (view h)" using S(4,5) w(2) by simp_all
  let ?c = "ide_register_write P dev ATA_REG_COMMAND ATA_CMD_WRITE_PIO_EXT ?s"
  obtain n where c: "view ?c = (view ?s)\<lparr>av_busy := n, av_status := 0, av_in := Some (sector, [])\<rparr>"
    using ata_okD(12) [OF ok S(1,2)] S(3) by (auto simp: command_write)
  obtain h2 where p: "view h2 = (view ?c)\<lparr>av_busy := 0\<rparr>" "ide_polling P dev False ?c = Some
      (if False \<and> av_status (view ?c) AND ATA_SR_ERR \<noteq> 0 then 2
       else if False \<and> av_status (view ?c) AND ATA_SR_DF \<noteq> 0 then 1 else E_SUCCESS, h2)"
    by (rule polling_ends [OF ok])
  have v2: "av_busy (view h2) = 0" "av_in (view h2) = Some (sector, map (\<lambda>j. get16 buf (2 * j)) [0..<0])"
    "0 + Suc 255 = 256" using p(1) c by simp_all
  from write_words_view [OF ok v2] have v3: "view (write_words P dev 0 256 buf h2) = (view h2)\<lparr>av_in := None,
      av_disk := (av_disk (view h2))(sector := blit 0 SECTOR_SIZE (word_bytes (sector_words buf)) (av_disk (view h2) sector))\<rparr>"
    by simp
  have d: "blit 0 SECTOR_SIZE (word_bytes (sector_words buf)) b = blit 0 SECTOR_SIZE (\<lambda>i. buf (0 + i)) b" for b
    by (auto simp: fun_eq_iff blit_def SECTOR_SIZE_def word_bytes_words)
  obtain m where f: "view (ide_register_write P dev ATA_REG_COMMAND ATA_CMD_CACHE_FLUSH_EXT (write_words P dev 0 256 buf h2)) =
      (view (write_words P dev 0 256 buf h2))\<lparr>av_busy := m\<rparr>"
    using ata_okD(13) [OF ok] by (auto simp: command_write)
  have "ide_pio_lba_write P dev sector buf h = Some (E_SUCCESS,
      ide_register_write P dev ATA_REG_COMMAND ATA_CMD_CACHE_FLUSH_EXT (write_words P dev 0 256 buf h2))"
    using w(1) p(2) by (simp add: ide_pio_lba_write_def)
  then show ?thesis
    by (rule that) (use f v3 p(1) c S' d in \<open>simp_all add: ide_write_def\<close>)
qed

end
