(* ===== verification/Irqs.thy ===== *)
theory Irqs
  imports Prelude
begin

text \<open>
  The interrupt subsystem: the bump allocator \<^verbatim>\<open>kernel/kalloc.c\<close>, the tables of
  \<^verbatim>\<open>kernel/support.c\<close>, and the chains of handlers of \<^verbatim>\<open>kernel/irqs.c\<close>.  Addresses are
  words, the heap of actions is a function on addresses, null is 0.  A handler is code that
  the subsystem is given: it is a parameter, applied to the address it is registered with.
\<close>

section \<open>State\<close>

record isr_action =
  ia_handler :: u32
  ia_calls :: u32
  ia_next :: u32

record idt_gate =
  gate_offset_15_0 :: u16
  gate_selector :: u16
  gate_flags :: u16
  gate_offset_31_16 :: u16

text \<open>The routines that the table of \<^verbatim>\<open>__install_isr\<close> holds.\<close>

datatype isr_routine =
    Default_unexpected_handler
  | Default_expected_handler
  | Interrupt_global_handler
  | Interrupt_wait_handler
  | Isr_at u32

definition INT_VECTOR_COUNT :: nat where
  "INT_VECTOR_COUNT = 256"

definition KALLOC_BASE_ADDR :: u32 where
  "KALLOC_BASE_ADDR = 0x2000000"

text \<open>
  The processor's interrupt flag and descriptor table and the ports are part of the state;
  \<open>ir_env\<close> is whatever the handlers work on.
\<close>

record 'e irqs =
  kalloc_base :: u32
  ir_heap :: "u32 \<Rightarrow> isr_action"
  isr_vector_table :: "nat \<Rightarrow> u32"
  handling_int :: bool
  terminate_isr :: bool
  handled_int :: u32
  test_handler :: u32
  wait_irq_count :: u32
  ir_if :: bool
  isr_table :: "nat \<Rightarrow> isr_routine"
  ir_idt :: "nat \<Rightarrow> idt_gate"
  ir_out :: "(u16 \<times> u8) list"
  ir_env :: 'e

type_synonym 'e isr_code = "u32 \<Rightarrow> u32 \<Rightarrow> u32 \<Rightarrow> 'e irqs \<Rightarrow> 'e irqs"

definition ir_outb :: "u16 \<Rightarrow> u8 \<Rightarrow> 'e irqs \<Rightarrow> 'e irqs" where
  "ir_outb port v s = s\<lparr>ir_out := ir_out s @ [(port, v)]\<rparr>"

section \<open>The allocator\<close>

text \<open>\<^verbatim>\<open>kfree\<close> does nothing.\<close>

definition kfree :: "u32 \<Rightarrow> 'e irqs \<Rightarrow> 'e irqs" where
  "kfree ptr s = s"

definition kalloc :: "u32 \<Rightarrow> 'e irqs \<Rightarrow> u32 \<times> 'e irqs" where
  "kalloc bytes s = (kalloc_base s, s\<lparr>kalloc_base := kalloc_base s + bytes\<rparr>)"

definition kalloc_round :: "u8 \<Rightarrow> u32 \<Rightarrow> u32" where
  "kalloc_round alignment r =
     (if alignment = 0x02 then if 0x1 AND r \<noteq> 0 then r + 1 else r
      else if alignment = 0x04 then if 0x3 AND r \<noteq> 0 then (r AND NOT 0x3) + 0x04 else r
      else if alignment = 0x08 then if 0x7 AND r \<noteq> 0 then (r AND NOT 0x7) + 0x08 else r
      else if alignment = 0x10 then if 0xf AND r \<noteq> 0 then (r AND NOT 0xf) + 0x10 else r
      else r)"

definition kalloc_aligned :: "u32 \<Rightarrow> u8 \<Rightarrow> 'e irqs \<Rightarrow> u32 \<times> 'e irqs" where
  "kalloc_aligned bytes alignment s =
     (let r = kalloc_round alignment (kalloc_base s) in (r, s\<lparr>kalloc_base := r + bytes\<rparr>))"

definition kalloc_set_base :: "u32 \<Rightarrow> 'e irqs \<Rightarrow> u32 \<times> 'e irqs" where
  "kalloc_set_base base s = (kalloc_base s, s\<lparr>kalloc_base := base\<rparr>)"

abbreviation Align_QWord :: u8 where "Align_QWord \<equiv> 0x08"

abbreviation sizeof_isr_action :: u32 where "sizeof_isr_action \<equiv> 12"

section \<open>Tables\<close>

abbreviation PIC_MASTER_CMD_PORT :: u16 where "PIC_MASTER_CMD_PORT \<equiv> 0x20"
abbreviation PIC_MASTER_IMR_PORT :: u16 where "PIC_MASTER_IMR_PORT \<equiv> 0x21"
abbreviation PIC_SLAVE_CMD_PORT :: u16 where "PIC_SLAVE_CMD_PORT \<equiv> 0xA0"
abbreviation PIC_SLAVE_IMR_PORT :: u16 where "PIC_SLAVE_IMR_PORT \<equiv> 0xA1"
abbreviation PIC_EOI :: u8 where "PIC_EOI \<equiv> 0x20"

definition init_pic :: "'e irqs \<Rightarrow> 'e irqs" where
  "init_pic s = fold (\<lambda>(p, v). ir_outb p v)
     [(PIC_MASTER_CMD_PORT, 0x11), (PIC_SLAVE_CMD_PORT, 0x11),
      (PIC_MASTER_IMR_PORT, 0x20), (PIC_SLAVE_IMR_PORT, 0x28),
      (PIC_MASTER_IMR_PORT, 0x04), (PIC_SLAVE_IMR_PORT, 0x02),
      (PIC_MASTER_IMR_PORT, 0x01), (PIC_SLAVE_IMR_PORT, 0x01),
      (PIC_MASTER_IMR_PORT, 0), (PIC_SLAVE_IMR_PORT, 0)] s"

definition set_idt_entry :: "nat \<Rightarrow> u32 \<Rightarrow> 'e irqs \<Rightarrow> 'e irqs" where
  "set_idt_entry entry handler s =
     s\<lparr>ir_idt := (ir_idt s)(entry :=
        \<lparr>gate_offset_15_0 = ucast (handler AND 0xffff), gate_selector = 0x0010, gate_flags = 0x8e00,
         gate_offset_31_16 = ucast (signed_drop_bit 16 handler AND 0xffff)\<rparr>)\<rparr>"

definition install_isr :: "nat \<Rightarrow> isr_routine \<Rightarrow> 'e irqs \<Rightarrow> isr_routine \<times> 'e irqs" where
  "install_isr vector handler s = (isr_table s vector, s\<lparr>isr_table := (isr_table s)(vector := handler)\<rparr>)"

text \<open>The addresses of the assembler stubs are given by a table.\<close>

definition init_idt :: "(nat \<Rightarrow> u32) \<Rightarrow> 'e irqs \<Rightarrow> 'e irqs" where
  "init_idt stubs s =
     (let s1 = fold (\<lambda>i s. snd (install_isr i Default_unexpected_handler (set_idt_entry i (stubs i) s))) [0..<256] s
      in snd (install_isr 0x20 Default_expected_handler (snd (install_isr 0x21 Default_expected_handler s1))))"

definition init_interrupts :: "(nat \<Rightarrow> u32) \<Rightarrow> 'e irqs \<Rightarrow> 'e irqs" where
  "init_interrupts stubs s = init_pic (init_idt stubs s)"

section \<open>Enabling and clearing\<close>

definition interrupt_is_enabled :: "'e irqs \<Rightarrow> bool" where
  "interrupt_is_enabled s = ir_if s"

definition interrupt_enable :: "bool \<Rightarrow> 'e irqs \<Rightarrow> 'e irqs" where
  "interrupt_enable enable s =
     (if interrupt_is_enabled s = enable then s else s\<lparr>ir_if := enable\<rparr>)"

definition interrupt_swap_idt :: "(nat \<Rightarrow> u32) \<Rightarrow> (nat \<Rightarrow> u32) \<Rightarrow> bool \<Rightarrow> 'e irqs \<Rightarrow> 'e irqs" where
  "interrupt_swap_idt stubs basic_stubs basic s =
     (let state = interrupt_is_enabled s;
          s1 = interrupt_enable False s;
          s2 = fold (\<lambda>i. set_idt_entry i (if basic then basic_stubs i else stubs i)) [0..<256] s1
      in interrupt_enable state s2)"

definition interrupt_clear :: "u32 \<Rightarrow> 'e irqs \<Rightarrow> 'e irqs" where
  "interrupt_clear vector s =
     (if 0x20 \<le> sint vector \<and> sint vector < 0x30 then
        let s1 = ir_outb PIC_MASTER_CMD_PORT PIC_EOI s
        in if 0x28 < sint vector then ir_outb PIC_SLAVE_CMD_PORT PIC_EOI s1 else s1
      else s)"

definition interrupt_terminate :: "'e irqs \<Rightarrow> 'e irqs" where
  "interrupt_terminate s = (if handling_int s then s\<lparr>terminate_isr := True\<rparr> else s)"

section \<open>The default handlers\<close>

definition default_unexpected_handler :: "u32 \<Rightarrow> u32 \<Rightarrow> 'e irqs \<Rightarrow> 'e irqs outcome" where
  "default_unexpected_handler vector code s = Inl (Panic ''Unexpected interrupt'')"

definition default_expected_handler :: "u32 \<Rightarrow> u32 \<Rightarrow> 'e irqs \<Rightarrow> 'e irqs outcome" where
  "default_expected_handler vector code s =
     (if 0x20 \<le> sint vector \<and> sint vector < 0x30 then
        let s1 = ir_outb PIC_MASTER_CMD_PORT PIC_EOI s
        in Inr (if 0x28 < sint vector then ir_outb PIC_SLAVE_CMD_PORT PIC_EOI s1 else s1)
      else Inl (Panic ''Unexpected expected interrupt!''))"

section \<open>Chains of handlers\<close>

definition set_action :: "u32 \<Rightarrow> isr_action \<Rightarrow> 'e irqs \<Rightarrow> 'e irqs" where
  "set_action a x s = s\<lparr>ir_heap := (ir_heap s)(a := x)\<rparr>"

definition init_vector :: "nat \<Rightarrow> 'e irqs \<Rightarrow> 'e irqs" where
  "init_vector i s =
     (case kalloc_aligned sizeof_isr_action Align_QWord s of
        (a, s1) \<Rightarrow> set_action a \<lparr>ia_handler = 0, ia_calls = 0, ia_next = 0\<rparr>
                     (s1\<lparr>isr_vector_table := (isr_vector_table s1)(i := a)\<rparr>))"

definition install_all :: "isr_routine \<Rightarrow> 'e irqs \<Rightarrow> 'e irqs" where
  "install_all r s = fold (\<lambda>i s. snd (install_isr i r s)) [0..<INT_VECTOR_COUNT] s"

definition interrupt_init :: "'e irqs \<Rightarrow> status_t \<times> 'e irqs" where
  "interrupt_init s =
     (let state = interrupt_is_enabled s;
          s1 = interrupt_enable False s;
          s2 = fold init_vector [0..<INT_VECTOR_COUNT] s1;
          s3 = install_all Interrupt_global_handler s2
      in (E_SUCCESS, interrupt_enable state s3))"

definition bad_vector :: "u32 \<Rightarrow> bool" where
  "bad_vector vector \<longleftrightarrow> int INT_VECTOR_COUNT \<le> sint vector \<or> sint vector < 0"

text \<open>The loop \<^verbatim>\<open>while(actionTemp->next != NULL)\<close> to the last action of a chain.\<close>

partial_function (option) isr_last :: "(u32 \<Rightarrow> isr_action) \<Rightarrow> u32 \<Rightarrow> u32 option" where
  "isr_last hp a = (if ia_next (hp a) \<noteq> 0 then isr_last hp (ia_next (hp a)) else Some a)"

definition interrupt_add_isr :: "u32 \<Rightarrow> u32 \<Rightarrow> 'e irqs \<Rightarrow> (status_t \<times> 'e irqs) outcome" where
  "interrupt_add_isr handler vector s =
     (if bad_vector vector then Inr (E_BAD_PARAM, s)
      else case kalloc_aligned sizeof_isr_action Align_QWord s of
        (a, s1) \<Rightarrow>
          if a = 0 then Inr (E_INSUFFICIENT_RESOURCES, s1)
          else
            let s2 = set_action a \<lparr>ia_handler = handler, ia_calls = 0, ia_next = 0\<rparr> s1;
                state = interrupt_is_enabled s2;
                s3 = interrupt_enable False s2;
                first = isr_vector_table s3 (unat vector)
            in if first = 0 then Inl (Fault ''_interrupt_add_isr: null action'')
               else case isr_last (ir_heap s3) first of
                 None \<Rightarrow> Inl Diverges
               | Some l \<Rightarrow>
                   Inr (E_SUCCESS, interrupt_enable state (set_action l ((ir_heap s3 l)\<lparr>ia_next := a\<rparr>) s3)))"

text \<open>The search of \<^verbatim>\<open>_interrupt_del_isr\<close>: the action before the one found, and that one or null.\<close>

partial_function (option) isr_find :: "(u32 \<Rightarrow> isr_action) \<Rightarrow> u32 \<Rightarrow> u32 \<Rightarrow> u32 \<Rightarrow> (u32 \<times> u32) option" where
  "isr_find hp handler previous action =
     (if action \<noteq> 0 then
        if ia_handler (hp action) = handler then Some (previous, action)
        else isr_find hp handler action (ia_next (hp action))
      else Some (previous, 0))"

definition interrupt_del_isr :: "u32 \<Rightarrow> u32 \<Rightarrow> 'e irqs \<Rightarrow> (status_t \<times> 'e irqs) outcome" where
  "interrupt_del_isr handler vector s =
     (if bad_vector vector then Inr (E_BAD_PARAM, s)
      else
        let state = interrupt_is_enabled s;
            s1 = interrupt_enable False s;
            first = isr_vector_table s1 (unat vector)
        in if first = 0 then Inl (Fault ''_interrupt_del_isr: null action'')
           else case isr_find (ir_heap s1) handler first (ia_next (ir_heap s1 first)) of
             None \<Rightarrow> Inl Diverges
           | Some (previous, action) \<Rightarrow>
               if action \<noteq> 0 then
                 let s2 = set_action previous ((ir_heap s1 previous)\<lparr>ia_next := ia_next (ir_heap s1 action)\<rparr>) s1
                 in Inr (E_SUCCESS, (kfree action s2)\<lparr>ir_if := True\<rparr>)
               else Inr (E_NOT_FOUND, interrupt_enable state s1))"

section \<open>Handling an interrupt\<close>

partial_function (option) run_actions ::
  "'e isr_code \<Rightarrow> u32 \<Rightarrow> u32 \<Rightarrow> u32 \<Rightarrow> 'e irqs \<Rightarrow> 'e irqs option" where
  "run_actions H vector code a s =
     (if a \<noteq> 0 \<and> \<not> terminate_isr s then
        let s1 = (if ia_handler (ir_heap s a) \<noteq> 0 then H (ia_handler (ir_heap s a)) vector code s else s);
            s2 = set_action a ((ir_heap s1 a)\<lparr>ia_calls := ia_calls (ir_heap s1 a) + 1\<rparr>) s1
        in run_actions H vector code (ia_next (ir_heap s2 a)) s2
      else Some s)"

definition interrupt_global_handler :: "'e isr_code \<Rightarrow> u32 \<Rightarrow> u32 \<Rightarrow> 'e irqs \<Rightarrow> 'e irqs outcome" where
  "interrupt_global_handler H vector code s =
     (let state = interrupt_is_enabled s;
          s1 = interrupt_enable False s
      in if bad_vector vector then Inl (Panic ''_interrupt_global_handler - Invalid interrupt vector!'')
         else case run_actions H vector code (isr_vector_table s1 (unat vector)) (s1\<lparr>handling_int := True\<rparr>) of
           None \<Rightarrow> Inl Diverges
         | Some s2 \<Rightarrow>
             Inr (interrupt_enable state
               (interrupt_clear vector (s2\<lparr>terminate_isr := False, handling_int := False\<rparr>))))"

definition interrupt_wait_handler :: "'e isr_code \<Rightarrow> u32 \<Rightarrow> u32 \<Rightarrow> 'e irqs \<Rightarrow> 'e irqs" where
  "interrupt_wait_handler H vector code s =
     (let state = interrupt_is_enabled s;
          s1 = interrupt_enable False s;
          s2 = s1\<lparr>wait_irq_count := wait_irq_count s1 + 1, handled_int := vector\<rparr>;
          s3 = (if test_handler s2 \<noteq> 0 then H (test_handler s2) vector code s2 else s2)
      in interrupt_enable state (interrupt_clear vector s3))"

section \<open>Waiting for an interrupt\<close>

text \<open>
  The interrupts that arrive while the processor delays for a millisecond are the effect
  of \<open>delay\<close>; a wait counts its time-out down, so it ends.
\<close>

fun wait_for_calls :: "('e irqs \<Rightarrow> 'e irqs) \<Rightarrow> nat \<Rightarrow> u32 \<Rightarrow> nat \<Rightarrow> 'e irqs \<Rightarrow> nat \<times> 'e irqs" where
  "wait_for_calls delay vector cnt 0 s = (0, s)"
| "wait_for_calls delay vector cnt (Suc t) s =
     (if cnt = ia_calls (ir_heap s (isr_vector_table s vector))
      then wait_for_calls delay vector cnt t (delay s) else (Suc t, s))"

definition interrupt_wait_for_irq :: "('e irqs \<Rightarrow> 'e irqs) \<Rightarrow> u32 \<Rightarrow> u8 \<Rightarrow> 'e irqs \<Rightarrow> status_t \<times> 'e irqs" where
  "interrupt_wait_for_irq delay timeout_ms vector s =
     (let cnt = ia_calls (ir_heap s (isr_vector_table s (unat vector)));
          (t, s') = wait_for_calls delay (unat vector) cnt (unat timeout_ms) s
      in (if 0 < t then E_SUCCESS else E_TIMEOUT, s'))"

fun wait_for_handled :: "('e irqs \<Rightarrow> 'e irqs) \<Rightarrow> nat \<Rightarrow> 'e irqs \<Rightarrow> 'e irqs" where
  "wait_for_handled delay 0 s = s"
| "wait_for_handled delay (Suc t) s =
     (if handled_int s = -1 then wait_for_handled delay t (delay s) else s)"

definition interrupt_wait :: "('e irqs \<Rightarrow> 'e irqs) \<Rightarrow> u32 \<Rightarrow> u32 \<Rightarrow> 'e irqs \<Rightarrow> status_t \<times> 'e irqs" where
  "interrupt_wait delay timeout_ms handler s =
     (let state = interrupt_is_enabled s;
          s1 = (interrupt_enable False s)\<lparr>handled_int := -1, test_handler := handler, wait_irq_count := 0\<rparr>;
          s2 = interrupt_enable True (install_all Interrupt_wait_handler s1);
          s3 = wait_for_handled delay (unat timeout_ms) s2;
          s4 = (interrupt_enable False s3)\<lparr>test_handler := 0\<rparr>;
          s5 = interrupt_enable state (install_all Interrupt_global_handler s4)
      in (if wait_irq_count s5 = 1 then E_SUCCESS
          else if 1 < sint (wait_irq_count s5) then E_ERROR else E_TIMEOUT, s5))"

end
