(* ===== verification/Irq_Chains.thy ===== *)
theory Irq_Chains
  imports Irqs
begin

text \<open>
  The chains of handlers implement lists: the abstraction of a state gives each vector the
  list of the handlers behind its first, empty action; adding appends, deleting removes the
  first occurrence, and an interrupt runs the handlers in order up to one that terminates.
\<close>

section \<open>Segments of the heap of actions\<close>

primrec seg :: "(u32 \<Rightarrow> isr_action) \<Rightarrow> u32 \<Rightarrow> u32 list \<Rightarrow> u32 \<Rightarrow> bool" where
  "seg hp a [] b \<longleftrightarrow> a = b"
| "seg hp a (x # xs) b \<longleftrightarrow> a = x \<and> x \<noteq> 0 \<and> seg hp (ia_next (hp x)) xs b"

lemma seg_append [simp]: "seg hp a (xs @ ys) b \<longleftrightarrow> (\<exists>c. seg hp a xs c \<and> seg hp c ys b)"
  by (induction xs arbitrary: a) auto

lemma seg_cong:
  "(\<And>x. x \<in> set xs \<Longrightarrow> ia_next (hp' x) = ia_next (hp x)) \<Longrightarrow> seg hp' a xs b = seg hp a xs b"
  by (induction xs arbitrary: a) auto

lemma seg_nonnull: "seg hp a xs b \<Longrightarrow> 0 \<notin> set xs"
  by (induction xs arbitrary: a) auto

section \<open>The walks\<close>

lemma isr_last_seg:
  "seg hp a (xs @ [l]) 0 \<Longrightarrow> isr_last hp a = Some l"
proof (induction xs arbitrary: a)
  case Nil
  then show ?case by (subst isr_last.simps) auto
next
  case (Cons x xs)
  then have "ia_next (hp x) \<noteq> 0" by (cases xs) auto
  then show ?case using Cons by (subst isr_last.simps) auto
qed

text \<open>The list before the first action with the handler, and that action with the rest.\<close>

definition before :: "(u32 \<Rightarrow> isr_action) \<Rightarrow> u32 \<Rightarrow> u32 list \<Rightarrow> u32 list" where
  "before hp h xs = takeWhile (\<lambda>x. ia_handler (hp x) \<noteq> h) xs"

definition behind :: "(u32 \<Rightarrow> isr_action) \<Rightarrow> u32 \<Rightarrow> u32 list \<Rightarrow> u32 list" where
  "behind hp h xs = dropWhile (\<lambda>x. ia_handler (hp x) \<noteq> h) xs"

lemma before_behind: "before hp h xs @ behind hp h xs = xs"
  by (simp add: before_def behind_def)

lemma isr_find_seg:
  "seg hp a xs 0 \<Longrightarrow> isr_find hp h p a =
     Some (last (p # before hp h xs), case behind hp h xs of [] \<Rightarrow> 0 | x # _ \<Rightarrow> x)"
proof (induction xs arbitrary: a p)
  case Nil
  then show ?case by (subst isr_find.simps) (simp add: before_def behind_def)
next
  case (Cons x xs)
  show ?case
  proof (cases "ia_handler (hp x) = h")
    case True
    then show ?thesis using Cons.prems by (subst isr_find.simps) (simp add: before_def behind_def)
  next
    case False
    then show ?thesis
      using Cons.prems Cons.IH [of "ia_next (hp x)" x]
      by (subst isr_find.simps) (simp add: before_def behind_def)
  qed
qed

lemma behind_empty: "behind hp h xs = [] \<longleftrightarrow> h \<notin> (\<lambda>x. ia_handler (hp x)) ` set xs"
  by (auto simp: behind_def dropWhile_eq_Nil_conv)

lemma remove1_behind:
  "behind hp h xs = x # ys \<Longrightarrow>
    map (\<lambda>x. ia_handler (hp x)) (before hp h xs @ ys) = remove1 h (map (\<lambda>x. ia_handler (hp x)) xs)"
  by (induction xs) (auto simp: before_def behind_def split: if_splits)

section \<open>The allocator\<close>

lemma and_not_7:
  fixes r :: u32
  shows "unat (r AND NOT 7) = 8 * (unat r div 8)"
proof -
  have "r AND NOT 7 = push_bit 3 (drop_bit 3 r)"
  proof -
    have "r AND NOT (mask 3) = push_bit 3 (drop_bit 3 r)" by (rule bit_word_eqI) (auto simp: bit_simps)
    moreover have "(mask 3 :: u32) = 7" by (simp add: mask_eq_exp_minus_1)
    ultimately show ?thesis by simp
  qed
  also have "\<dots> = drop_bit 3 r * 8" by (simp add: push_bit_eq_mult)
  also have "unat \<dots> = unat r div 8 * 8"
  proof -
    have "unat (drop_bit 3 r) = unat r div 8" by (simp only: unat_drop_bit_eq) (simp add: drop_bit_eq_div)
    moreover have "unat r div 8 * 8 < 2 ^ 32" using unsigned_less [of r, where ?'a = nat] by simp
    ultimately show ?thesis by (simp add: unat_word_ariths)
  qed
  finally show ?thesis by simp
qed

lemma kalloc_round_bounds:
  assumes "unat r + 8 < 2 ^ 32"
  shows "unat r \<le> unat (kalloc_round Align_QWord r)" "unat (kalloc_round Align_QWord r) \<le> unat r + 8"
proof -
  have "unat ((r AND NOT 7) + 8) = 8 * (unat r div 8) + 8"
    unfolding unat_word_ariths and_not_7 using assms by simp
  then show "unat r \<le> unat (kalloc_round Align_QWord r)" "unat (kalloc_round Align_QWord r) \<le> unat r + 8"
    using div_mult_mod_eq [of "unat r" 8] mod_less_divisor [of 8 "unat r"]
    by (simp_all add: kalloc_round_def) linarith
qed

lemma kalloc_action:
  assumes "unat (kalloc_base s) + 20 < 2 ^ 32"
  obtains a b where "kalloc_aligned sizeof_isr_action Align_QWord s = (a, s\<lparr>kalloc_base := b\<rparr>)"
    and "unat (kalloc_base s) \<le> unat a" and "unat a < unat b" and "unat b \<le> unat (kalloc_base s) + 20"
proof -
  let ?a = "kalloc_round Align_QWord (kalloc_base s)"
  have b: "unat (kalloc_base s) \<le> unat ?a" "unat ?a \<le> unat (kalloc_base s) + 8"
    using assms by (simp_all add: kalloc_round_bounds)
  then have "unat (?a + 12) = unat ?a + 12" using assms by (simp add: unat_word_ariths)
  then show ?thesis using that [of ?a "?a + 12"] b by (simp add: kalloc_aligned_def Let_def)
qed

section \<open>The representation\<close>

text \<open>Below \<open>N\<close>, each vector \<open>v\<close> has the chain \<open>P v\<close>; chains do not meet, and lie below the base.\<close>

definition isr_rep :: "nat \<Rightarrow> (nat \<Rightarrow> u32 list) \<Rightarrow> 'e irqs \<Rightarrow> bool" where
  "isr_rep N P s \<longleftrightarrow>
     (\<forall>v < N. seg (ir_heap s) (isr_vector_table s v) (P v) 0 \<and> P v \<noteq> [] \<and> distinct (P v) \<and>
        ia_handler (ir_heap s (hd (P v))) = 0 \<and> (\<forall>p \<in> set (P v). unat p < unat (kalloc_base s))) \<and>
     (\<forall>v < N. \<forall>w < N. v \<noteq> w \<longrightarrow> set (P v) \<inter> set (P w) = {})"

definition isr_handlers :: "(nat \<Rightarrow> u32 list) \<Rightarrow> 'e irqs \<Rightarrow> nat \<Rightarrow> u32 list" where
  "isr_handlers P s v = map (\<lambda>x. ia_handler (ir_heap s x)) (tl (P v))"

text \<open>The handlers that are registered for a vector, as a fact of the state.\<close>

definition isr_registered :: "'e irqs \<Rightarrow> (nat \<Rightarrow> u32 list) \<Rightarrow> bool" where
  "isr_registered s L \<longleftrightarrow>
     (\<exists>P. isr_rep INT_VECTOR_COUNT P s \<and> (\<forall>v < INT_VECTOR_COUNT. isr_handlers P s v = L v))"

lemma isr_rep_cong:
  assumes "isr_rep N P s"
    and "\<And>v p. v < N \<Longrightarrow> p \<in> set (P v) \<Longrightarrow> ia_next (ir_heap s' p) = ia_next (ir_heap s p) \<and>
      ia_handler (ir_heap s' p) = ia_handler (ir_heap s p)"
    and "\<And>v. v < N \<Longrightarrow> isr_vector_table s' v = isr_vector_table s v"
    and "unat (kalloc_base s) \<le> unat (kalloc_base s')"
  shows "isr_rep N P s'" and "v < N \<Longrightarrow> isr_handlers P s' v = isr_handlers P s v"
proof -
  show "isr_rep N P s'"
    unfolding isr_rep_def
  proof (intro conjI allI impI)
    fix v assume v: "v < N"
    have r: "seg (ir_heap s) (isr_vector_table s v) (P v) 0" "P v \<noteq> []" "distinct (P v)"
      "ia_handler (ir_heap s (hd (P v))) = 0" "\<forall>p \<in> set (P v). unat p < unat (kalloc_base s)"
      using assms(1) v by (auto simp: isr_rep_def)
    show "seg (ir_heap s') (isr_vector_table s' v) (P v) 0"
      using r(1) seg_cong [of "P v" "ir_heap s'" "ir_heap s"] assms(2,3) v by auto
    show "P v \<noteq> []" "distinct (P v)" by (fact r)+
    show "ia_handler (ir_heap s' (hd (P v))) = 0" using r(2,4) assms(2) v by simp
    show "\<forall>p \<in> set (P v). unat p < unat (kalloc_base s')" using r(5) assms(4) by (meson less_le_trans)
  next
    fix v w assume "v < N" "w < N" "v \<noteq> w"
    then show "set (P v) \<inter> set (P w) = {}" using assms(1) by (auto simp: isr_rep_def)
  qed
  show "v < N \<Longrightarrow> isr_handlers P s' v = isr_handlers P s v"
    using assms(2) by (cases "P v") (auto simp: isr_handlers_def)
qed

section \<open>Initialisation\<close>

lemma interrupt_enable_frame [simp]:
  "ir_heap (interrupt_enable e s) = ir_heap s" "isr_vector_table (interrupt_enable e s) = isr_vector_table s"
  "kalloc_base (interrupt_enable e s) = kalloc_base s" "ir_if (interrupt_enable e s) = e"
  "terminate_isr (interrupt_enable e s) = terminate_isr s" "ir_env (interrupt_enable e s) = ir_env s"
  "handling_int (interrupt_enable e s) = handling_int s"
  by (simp_all add: interrupt_enable_def interrupt_is_enabled_def)

lemma install_all_frame [simp]:
  "ir_heap (install_all r s) = ir_heap s" "isr_vector_table (install_all r s) = isr_vector_table s"
  "kalloc_base (install_all r s) = kalloc_base s" "ir_if (install_all r s) = ir_if s"
  "terminate_isr (install_all r s) = terminate_isr s" "ir_env (install_all r s) = ir_env s"
proof -
  let ?f = "fold (\<lambda>i s. snd (install_isr i r s))"
  have "ir_heap (?f xs s) = ir_heap s \<and> isr_vector_table (?f xs s) = isr_vector_table s \<and>
      kalloc_base (?f xs s) = kalloc_base s \<and> ir_if (?f xs s) = ir_if s \<and>
      terminate_isr (?f xs s) = terminate_isr s \<and> ir_env (?f xs s) = ir_env s" for xs
    by (induction xs arbitrary: s) (simp_all add: install_isr_def)
  then show "ir_heap (install_all r s) = ir_heap s" "isr_vector_table (install_all r s) = isr_vector_table s"
    "kalloc_base (install_all r s) = kalloc_base s" "ir_if (install_all r s) = ir_if s"
    "terminate_isr (install_all r s) = terminate_isr s" "ir_env (install_all r s) = ir_env s"
    by (simp_all add: install_all_def)
qed

lemma init_vector_frame [simp]:
  "terminate_isr (init_vector i s) = terminate_isr s" "ir_env (init_vector i s) = ir_env s"
  "ir_if (init_vector i s) = ir_if s"
  by (simp_all add: init_vector_def kalloc_aligned_def Let_def set_action_def)

lemma init_vectors_frame [simp]:
  "terminate_isr (fold init_vector xs s) = terminate_isr s" "ir_env (fold init_vector xs s) = ir_env s"
  "ir_if (fold init_vector xs s) = ir_if s"
  by (induction xs arbitrary: s) simp_all

lemma init_vectors_rep:
  assumes "unat (kalloc_base s) = b" and "0 < b" and "b + 20 * n < 2 ^ 32"
  shows "\<exists>P. isr_rep n P (fold init_vector [0..<n] s) \<and> (\<forall>v < n. tl (P v) = [])"
    and "unat (kalloc_base (fold init_vector [0..<n] s)) \<le> b + 20 * n"
    and "b \<le> unat (kalloc_base (fold init_vector [0..<n] s))"
  using assms(3)
proof (induction n)
  case 0
  { case 1 show ?case by (simp add: isr_rep_def) }
  { case 2 show ?case using assms by simp }
  { case 3 show ?case using assms by simp }
next
  case (Suc n)
  let ?s = "fold init_vector [0..<n] s"
  have bd: "unat (kalloc_base ?s) \<le> b + 20 * n" "b \<le> unat (kalloc_base ?s)" "b + 20 * Suc n < 2 ^ 32"
    and ex: "\<exists>P. isr_rep n P ?s \<and> (\<forall>v < n. tl (P v) = [])"
    if "b + 20 * Suc n < 2 ^ 32" using Suc.IH that by simp_all
  have step: "\<exists>a c. init_vector n ?s = set_action a \<lparr>ia_handler = 0, ia_calls = 0, ia_next = 0\<rparr>
        (?s\<lparr>kalloc_base := c, isr_vector_table := (isr_vector_table ?s)(n := a)\<rparr>) \<and>
      unat (kalloc_base ?s) \<le> unat a \<and> unat a < unat c \<and> unat c \<le> unat (kalloc_base ?s) + 20"
    if "b + 20 * Suc n < 2 ^ 32"
  proof -
    have "unat (kalloc_base ?s) + 20 < 2 ^ 32" using bd [OF that] by simp
    then obtain a c where "kalloc_aligned sizeof_isr_action Align_QWord ?s = (a, ?s\<lparr>kalloc_base := c\<rparr>)"
      "unat (kalloc_base ?s) \<le> unat a" "unat a < unat c" "unat c \<le> unat (kalloc_base ?s) + 20"
      by (rule kalloc_action)
    then show ?thesis by (intro exI [of _ a] exI [of _ c]) (simp add: init_vector_def)
  qed
  { case 1
    from step [OF 1] obtain a c where st: "init_vector n ?s = set_action a \<lparr>ia_handler = 0, ia_calls = 0, ia_next = 0\<rparr>
        (?s\<lparr>kalloc_base := c, isr_vector_table := (isr_vector_table ?s)(n := a)\<rparr>)"
      and ac: "unat (kalloc_base ?s) \<le> unat a" "unat a < unat c" by blast
    from ex [OF 1] obtain P where P: "isr_rep n P ?s" "\<forall>v < n. tl (P v) = []" by blast
    have fresh: "a \<notin> set (P v)" if "v < n" for v using P(1) ac(1) that by (fastforce simp: isr_rep_def)
    have "a \<noteq> 0" using ac(1) bd(2) [OF 1] assms(2) by auto
    let ?t = "init_vector n ?s" and ?Q = "P(n := [a])"
    have "isr_rep n P ?t"
      by (rule isr_rep_cong(1) [OF P(1)]) (use fresh ac st in \<open>auto simp: set_action_def\<close>)
    then have "isr_rep (Suc n) ?Q ?t"
      using fresh \<open>a \<noteq> 0\<close> st ac by (auto simp: isr_rep_def set_action_def less_Suc_eq)
    then show ?case using P(2) by (auto simp: less_Suc_eq) }
  { case 2 show ?case using step [OF 2] bd [OF 2] by (auto simp: set_action_def) }
  { case 3 show ?case using step [OF 3] bd [OF 3] by (auto simp: set_action_def) }
qed

lemma interrupt_init_registered:
  assumes "kalloc_base s = KALLOC_BASE_ADDR" and "interrupt_init s = (st, s')"
  shows "st = E_SUCCESS" and "isr_registered s' (\<lambda>_. [])"
    and "unat (kalloc_base s') \<le> 0x2000000 + 5120" and "0 < unat (kalloc_base s')"
    and "terminate_isr s' = terminate_isr s" and "ir_env s' = ir_env s" and "ir_if s' = ir_if s"
proof -
  let ?s1 = "interrupt_enable False s" let ?s2 = "fold init_vector [0..<256] ?s1"
  have b: "unat (kalloc_base ?s1) = 0x2000000" using assms(1) by (simp add: KALLOC_BASE_ADDR_def)
  note I = init_vectors_rep [OF b, of 256, simplified]
  have s': "st = E_SUCCESS" "s' = interrupt_enable (ir_if s) (install_all Interrupt_global_handler ?s2)"
    using assms(2) by (simp_all add: interrupt_init_def Let_def INT_VECTOR_COUNT_def interrupt_is_enabled_def)
  obtain P where P: "isr_rep 256 P ?s2" "\<forall>v < 256. tl (P v) = []" using I(1) by auto
  have "isr_rep 256 P s'" by (rule isr_rep_cong(1) [OF P(1)]) (simp_all add: s'(2))
  then show "isr_registered s' (\<lambda>_. [])"
    using P(2) by (auto simp: isr_registered_def INT_VECTOR_COUNT_def isr_handlers_def)
  show "st = E_SUCCESS" "terminate_isr s' = terminate_isr s" "ir_env s' = ir_env s" "ir_if s' = ir_if s"
    using s' by simp_all
  show "unat (kalloc_base s') \<le> 0x2000000 + 5120" "0 < unat (kalloc_base s')"
    using I(2,3) s'(2) by simp_all
qed

section \<open>Adding and deleting\<close>

lemma vector_ok:
  assumes "\<not> bad_vector v"
  shows "unat v < INT_VECTOR_COUNT"
proof -
  have b: "0 \<le> sint v" "sint v < 256" using assms by (simp_all add: bad_vector_def INT_VECTOR_COUNT_def)
  then have "uint v < 256" using sint_nonneg_uint by simp
  then have "int (unat v) < 256" by (simp only: of_nat_unat)
  then show ?thesis by (simp only: INT_VECTOR_COUNT_def)
qed

lemma isr_repD:
  assumes "isr_rep N P s" and "v < N"
  obtains f rest where "P v = f # rest" and "seg (ir_heap s) (isr_vector_table s v) (f # rest) 0"
    and "distinct (f # rest)" and "ia_handler (ir_heap s f) = 0"
    and "\<And>p. p \<in> set (f # rest) \<Longrightarrow> unat p < unat (kalloc_base s)"
proof -
  obtain f rest where P: "P v = f # rest" using assms by (cases "P v") (auto simp: isr_rep_def)
  then show ?thesis using that [OF P] assms by (auto simp: isr_rep_def)
qed

text \<open>Changing one chain, to elements of its own and fresh ones.\<close>

lemma isr_rep_update:
  assumes rep: "isr_rep N P s" and v: "v < N"
    and base: "unat (kalloc_base s) \<le> unat (kalloc_base s')"
    and tab: "isr_vector_table s' = isr_vector_table s"
    and same: "\<And>p. p \<notin> set (P v) \<Longrightarrow> unat p < unat (kalloc_base s) \<Longrightarrow> ir_heap s' p = ir_heap s p"
    and new: "seg (ir_heap s') (isr_vector_table s v) (f # xs) 0" "distinct (f # xs)" "ia_handler (ir_heap s' f) = 0"
    and own: "\<And>p. p \<in> set (f # xs) \<Longrightarrow>
      (p \<in> set (P v) \<or> unat (kalloc_base s) \<le> unat p) \<and> unat p < unat (kalloc_base s')"
  shows "isr_rep N (P(v := f # xs)) s'"
    and "w < N \<Longrightarrow> isr_handlers (P(v := f # xs)) s' w =
      (if w = v then map (\<lambda>x. ia_handler (ir_heap s' x)) xs else isr_handlers P s w)"
proof -
  have old: "ir_heap s' p = ir_heap s p" "p \<notin> set (f # xs)" "unat p < unat (kalloc_base s)"
    if "p \<in> set (P w)" "w < N" "w \<noteq> v" for p w
  proof -
    show lt: "unat p < unat (kalloc_base s)" using rep that by (auto simp: isr_rep_def)
    have "set (P w) \<inter> set (P v) = {}" using rep that v unfolding isr_rep_def by blast
    then have "p \<notin> set (P v)" using that by blast
    then show "ir_heap s' p = ir_heap s p" "p \<notin> set (f # xs)" using same own lt by (blast, fastforce)
  qed
  show "isr_rep N (P(v := f # xs)) s'"
    unfolding isr_rep_def
  proof (intro conjI allI impI)
    fix w assume w: "w < N"
    have r: "seg (ir_heap s) (isr_vector_table s w) (P w) 0" "P w \<noteq> []" "distinct (P w)"
      "ia_handler (ir_heap s (hd (P w))) = 0" using rep w by (auto simp: isr_rep_def)
    have c: "seg (ir_heap s') (isr_vector_table s w) (P w) 0" if "w \<noteq> v"
      using r(1) seg_cong [of "P w" "ir_heap s'" "ir_heap s"] old(1) [OF _ w that] by auto
    show "seg (ir_heap s') (isr_vector_table s' w) ((P(v := f # xs)) w) 0" using c new(1) tab by simp
    show "(P(v := f # xs)) w \<noteq> []" "distinct ((P(v := f # xs)) w)" using r new(2) by simp_all
    show "ia_handler (ir_heap s' (hd ((P(v := f # xs)) w))) = 0" using r old(1) [OF _ w] new(3) by simp
    show "\<forall>p \<in> set ((P(v := f # xs)) w). unat p < unat (kalloc_base s')"
      using own old(3) [OF _ w] base by (auto dest: less_le_trans)
  next
    fix w u assume "w < N" "u < N" "w \<noteq> u"
    then show "set ((P(v := f # xs)) w) \<inter> set ((P(v := f # xs)) u) = {}"
      using old(2) rep by (auto simp: isr_rep_def)
  qed
  show "w < N \<Longrightarrow> isr_handlers (P(v := f # xs)) s' w =
      (if w = v then map (\<lambda>x. ia_handler (ir_heap s' x)) xs else isr_handlers P s w)"
  proof (cases "w = v")
    case False
    assume "w < N"
    then have "x \<in> set (tl (P w)) \<Longrightarrow> ir_heap s' x = ir_heap s x" for x
      using old(1) [of x w] False by (cases "P w") auto
    then show ?thesis using False by (simp add: isr_handlers_def)
  qed (simp add: isr_handlers_def)
qed


definition isr_room :: "'e irqs \<Rightarrow> bool" where
  "isr_room s \<longleftrightarrow> 0 < unat (kalloc_base s) \<and> unat (kalloc_base s) + 20 < 2 ^ 32"

text \<open>What an operation on the chains leaves alone.\<close>

definition isr_kept :: "'e irqs \<Rightarrow> 'e irqs \<Rightarrow> bool" where
  "isr_kept s s' \<longleftrightarrow>
     terminate_isr s' = terminate_isr s \<and> ir_env s' = ir_env s \<and>
     unat (kalloc_base s) \<le> unat (kalloc_base s') \<and> unat (kalloc_base s') \<le> unat (kalloc_base s) + 20"

lemma isr_last_chain: "seg hp a (f # xs) 0 \<Longrightarrow> isr_last hp a = Some (last (f # xs))"
  by (rule isr_last_seg [of hp a "butlast (f # xs)"]) (simp only: append_butlast_last_id list.distinct not_False_eq_True)

lemma seg_extend:
  assumes "seg hp a (f # xs) 0" and "distinct (f # xs)" and "b \<notin> set (f # xs)" and "b \<noteq> 0"
    and "\<And>x. hp' x = (if x = last (f # xs) then (hp x)\<lparr>ia_next := b\<rparr>
       else if x = b then \<lparr>ia_handler = h, ia_calls = 0, ia_next = 0\<rparr> else hp x)"
  shows "seg hp' a (f # xs @ [b]) 0"
proof -
  define ys where "ys = butlast (f # xs)"
  define l where "l = last (f # xs)"
  have fx: "f # xs = ys @ [l]" by (simp add: ys_def l_def)
  have l: "l \<notin> set ys" "b \<noteq> l" "b \<notin> set ys" "l \<noteq> 0" using assms(1-4) unfolding fx by auto
  have "seg hp a ys l" using assms(1) unfolding fx by auto
  then have "seg hp' a ys l"
    using seg_cong [of ys hp' hp] l assms(5) unfolding l_def [symmetric] by force
  then have "seg hp' a ((ys @ [l]) @ [b]) 0" using l assms(4,5) unfolding l_def [symmetric] by simp
  then show ?thesis unfolding fx [symmetric] by simp
qed

lemma add_isr_registered:
  assumes reg: "isr_registered s L" and v: "\<not> bad_vector v" and room: "isr_room s"
  obtains s' where "interrupt_add_isr h v s = Inr (E_SUCCESS, s')"
    and "isr_registered s' (L(unat v := L (unat v) @ [h]))" and "isr_kept s s'" and "ir_if s' = ir_if s"
proof -
  have vn: "unat v < INT_VECTOR_COUNT" by (rule vector_ok [OF v])
  obtain P where rep: "isr_rep INT_VECTOR_COUNT P s" and L: "\<And>w. w < INT_VECTOR_COUNT \<Longrightarrow> isr_handlers P s w = L w"
    using reg by (auto simp: isr_registered_def)
  from isr_repD [OF rep vn] obtain f rest where P: "P (unat v) = f # rest"
    and sg: "seg (ir_heap s) (isr_vector_table s (unat v)) (f # rest) 0" and d: "distinct (f # rest)"
    and f0: "ia_handler (ir_heap s f) = 0" and below: "\<And>p. p \<in> set (f # rest) \<Longrightarrow> unat p < unat (kalloc_base s)" by blast
  obtain a b where al: "kalloc_aligned sizeof_isr_action Align_QWord s = (a, s\<lparr>kalloc_base := b\<rparr>)"
    and ab: "unat (kalloc_base s) \<le> unat a" "unat a < unat b" "unat b \<le> unat (kalloc_base s) + 20"
    using kalloc_action [of s] room unfolding isr_room_def by blast
  have a: "a \<noteq> 0" "a \<notin> set (f # rest)" using ab(1) room below [of a] by (auto simp: isr_room_def)
  let ?l = "last (f # rest)"
  have l: "?l \<noteq> a" "unat ?l < unat (kalloc_base s)" using a(2) below [of ?l] last_in_set [of "f # rest"] by auto
  let ?new = "\<lparr>ia_handler = h, ia_calls = 0, ia_next = 0\<rparr>"
  let ?s3 = "interrupt_enable False (set_action a ?new (s\<lparr>kalloc_base := b\<rparr>))"
  let ?s' = "interrupt_enable (ir_if s) (set_action ?l ((ir_heap ?s3 ?l)\<lparr>ia_next := a\<rparr>) ?s3)"
  have hp: "ir_heap ?s' x = (if x = ?l then (ir_heap s x)\<lparr>ia_next := a\<rparr> else if x = a then ?new else ir_heap s x)" for x
    using l(1) by (simp add: set_action_def)
  have first: "isr_vector_table s (unat v) = f" "f \<noteq> 0" using sg by auto
  have "seg (ir_heap ?s3) f (f # rest) 0 = seg (ir_heap s) f (f # rest) 0"
    by (rule seg_cong) (use a(2) in \<open>auto simp: set_action_def\<close>)
  then have "seg (ir_heap ?s3) f (f # rest) 0" using sg first(1) by simp
  then have "isr_last (ir_heap ?s3) f = Some ?l" by (rule isr_last_chain)
  then have add: "interrupt_add_isr h v s = Inr (E_SUCCESS, ?s')"
    using v al a(1) first by (simp add: interrupt_add_isr_def Let_def interrupt_is_enabled_def set_action_def)
  have seg': "seg (ir_heap ?s') (isr_vector_table s (unat v)) (f # rest @ [a]) 0"
    by (rule seg_extend [OF sg d a(2,1) hp])
  have up: "isr_rep INT_VECTOR_COUNT (P(unat v := f # rest @ [a])) ?s'"
    "\<And>w. w < INT_VECTOR_COUNT \<Longrightarrow> isr_handlers (P(unat v := f # rest @ [a])) ?s' w =
      (if w = unat v then map (\<lambda>x. ia_handler (ir_heap ?s' x)) (rest @ [a]) else isr_handlers P s w)"
  proof -
    note U = isr_rep_update [where s' = ?s', OF rep vn _ _ _ seg']
    have o: "unat (kalloc_base s) \<le> unat (kalloc_base ?s')" "isr_vector_table ?s' = isr_vector_table s"
      "\<And>p. p \<notin> set (P (unat v)) \<Longrightarrow> unat p < unat (kalloc_base s) \<Longrightarrow> ir_heap ?s' p = ir_heap s p"
      "distinct (f # rest @ [a])" "ia_handler (ir_heap ?s' f) = 0"
      "\<And>p. p \<in> set (f # rest @ [a]) \<Longrightarrow>
        (p \<in> set (P (unat v)) \<or> unat (kalloc_base s) \<le> unat p) \<and> unat p < unat (kalloc_base ?s')"
    proof -
      show "unat (kalloc_base s) \<le> unat (kalloc_base ?s')" "isr_vector_table ?s' = isr_vector_table s"
        using ab by (simp_all add: set_action_def)
      show "ir_heap ?s' p = ir_heap s p" if "p \<notin> set (P (unat v))" "unat p < unat (kalloc_base s)" for p
        unfolding hp using that ab(1) last_in_set [of "f # rest"] P by (auto split: if_splits)
      show "distinct (f # rest @ [a])" using d a(2) by auto
      show "ia_handler (ir_heap ?s' f) = 0" unfolding hp using f0 a(2) by auto
      show "(p \<in> set (P (unat v)) \<or> unat (kalloc_base s) \<le> unat p) \<and> unat p < unat (kalloc_base ?s')"
        if "p \<in> set (f # rest @ [a])" for p
        using that ab below [of p] P by (auto simp: set_action_def)
    qed
    show "isr_rep INT_VECTOR_COUNT (P(unat v := f # rest @ [a])) ?s'" by (rule U(1)) (fact o)+
    show "isr_handlers (P(unat v := f # rest @ [a])) ?s' w =
      (if w = unat v then map (\<lambda>x. ia_handler (ir_heap ?s' x)) (rest @ [a]) else isr_handlers P s w)"
      if "w < INT_VECTOR_COUNT" for w by (rule U(2)) (fact o that)+
  qed
  have same: "ia_handler (ir_heap ?s' x) = (if x = a then h else ia_handler (ir_heap s x))" for x
    unfolding hp using l(1) by simp
  have old: "map (\<lambda>x. if x = a then h else ia_handler (ir_heap s x)) rest = map (\<lambda>x. ia_handler (ir_heap s x)) rest"
    by (rule map_cong [OF refl]) (use a(2) in auto)
  have "map (\<lambda>x. ia_handler (ir_heap s x)) rest = L (unat v)" using L [OF vn] P by (simp add: isr_handlers_def)
  then have "map (\<lambda>x. ia_handler (ir_heap ?s' x)) (rest @ [a]) = L (unat v) @ [h]"
    unfolding same map_append old by simp
  then have "isr_registered ?s' (L(unat v := L (unat v) @ [h]))"
    unfolding isr_registered_def using up L by (intro exI [of _ "P(unat v := f # rest @ [a])"]) auto
  moreover have "isr_kept s ?s'" "ir_if ?s' = ir_if s" using ab by (simp_all add: isr_kept_def set_action_def)
  ultimately show ?thesis using that [OF add] by blast
qed


lemma seg_skip:
  assumes "seg hp a (f # bs @ x # ys) 0" and "distinct (f # bs @ x # ys)"
    and "\<And>y. hp' y = (if y = last (f # bs) then (hp y)\<lparr>ia_next := ia_next (hp x)\<rparr> else hp y)"
  shows "seg hp' a (f # bs @ ys) 0"
proof -
  define zs where "zs = butlast (f # bs)"
  define l where "l = last (f # bs)"
  have fb: "f # bs = zs @ [l]" by (simp add: zs_def l_def)
  then have whole: "f # bs @ x # ys = zs @ [l] @ x # ys" "f # bs @ ys = zs @ [l] @ ys" by (metis append_Cons append_assoc)+
  have d: "l \<notin> set zs" "l \<notin> set ys" "l \<noteq> x" "l \<noteq> 0" using assms(1,2) unfolding whole by auto
  have "seg hp a zs l" "seg hp (ia_next (hp x)) ys 0" using assms(1) unfolding whole by auto
  moreover have hp': "hp' y = (if y = l then (hp y)\<lparr>ia_next := ia_next (hp x)\<rparr> else hp y)" for y
    unfolding l_def by (rule assms(3))
  have "seg hp' a zs l = seg hp a zs l" by (rule seg_cong) (use d(1) in \<open>auto simp: hp'\<close>)
  moreover have "seg hp' (ia_next (hp x)) ys 0 = seg hp (ia_next (hp x)) ys 0"
    by (rule seg_cong) (use d(2) in \<open>auto simp: hp'\<close>)
  ultimately show ?thesis unfolding whole using d(4) by (auto simp: hp')
qed

lemma del_isr_registered:
  assumes reg: "isr_registered s L" and v: "\<not> bad_vector v"
  obtains s' where "interrupt_del_isr h v s =
      Inr (if h \<in> set (L (unat v)) then E_SUCCESS else E_NOT_FOUND, s')"
    and "isr_registered s' (L(unat v := remove1 h (L (unat v))))" and "isr_kept s s'"
    and "ir_if s' = (ir_if s \<or> h \<in> set (L (unat v)))"
proof -
  have vn: "unat v < INT_VECTOR_COUNT" by (rule vector_ok [OF v])
  obtain P where rep: "isr_rep INT_VECTOR_COUNT P s" and L: "\<And>w. w < INT_VECTOR_COUNT \<Longrightarrow> isr_handlers P s w = L w"
    using reg by (auto simp: isr_registered_def)
  from isr_repD [OF rep vn] obtain f rest where P: "P (unat v) = f # rest"
    and sg: "seg (ir_heap s) (isr_vector_table s (unat v)) (f # rest) 0" and d: "distinct (f # rest)"
    and f0: "ia_handler (ir_heap s f) = 0" and below: "\<And>p. p \<in> set (f # rest) \<Longrightarrow> unat p < unat (kalloc_base s)" by blast
  have first: "isr_vector_table s (unat v) = f" "f \<noteq> 0" using sg by auto
  define bs where "bs = before (ir_heap s) h rest"
  have Lv: "L (unat v) = map (\<lambda>x. ia_handler (ir_heap s x)) rest" using L [OF vn] P by (simp add: isr_handlers_def)
  have fnd: "isr_find (ir_heap s) h f (ia_next (ir_heap s f)) =
      Some (last (f # bs), case behind (ir_heap s) h rest of [] \<Rightarrow> 0 | x # _ \<Rightarrow> x)"
    unfolding bs_def by (rule isr_find_seg) (use sg in auto)
  show ?thesis
  proof (cases "behind (ir_heap s) h rest")
    case Nil
    then have no: "h \<notin> set (L (unat v))" using behind_empty [of "ir_heap s" h rest] by (simp add: Lv)
    let ?s' = "interrupt_enable (ir_if s) (interrupt_enable False s)"
    have "interrupt_del_isr h v s = Inr (E_NOT_FOUND, ?s')"
      using v fnd first Nil by (simp add: interrupt_del_isr_def Let_def interrupt_is_enabled_def)
    moreover have "isr_registered ?s' L"
      using isr_rep_cong [OF rep, of ?s'] L unfolding isr_registered_def by (intro exI [of _ P]) auto
    moreover have "isr_kept s ?s'" "ir_if ?s' = ir_if s" by (simp_all add: isr_kept_def)
    ultimately show ?thesis using that [of ?s'] no by (simp add: remove1_idem)
  next
    case (Cons x ys)
    have split: "rest = bs @ x # ys" using before_behind [of "ir_heap s" h rest] Cons by (simp add: bs_def)
    have yes: "h \<in> set (L (unat v))" using behind_empty [of "ir_heap s" h rest] Cons by (auto simp: Lv)
    have "x \<in> set rest" by (simp add: split)
    then have x: "x \<noteq> 0" using seg_nonnull [OF sg] by auto
    let ?l = "last (f # bs)"
    let ?s1 = "interrupt_enable False s"
    let ?s' = "(kfree x (set_action ?l ((ir_heap s ?l)\<lparr>ia_next := ia_next (ir_heap s x)\<rparr>) ?s1))\<lparr>ir_if := True\<rparr>"
    have del: "interrupt_del_isr h v s = Inr (E_SUCCESS, ?s')"
      using v fnd first Cons x by (simp add: interrupt_del_isr_def Let_def interrupt_is_enabled_def)
    have hp: "ir_heap ?s' y = (if y = ?l then (ir_heap s y)\<lparr>ia_next := ia_next (ir_heap s x)\<rparr> else ir_heap s y)" for y
      by (simp add: set_action_def kfree_def)
    have same: "ia_handler (ir_heap ?s' y) = ia_handler (ir_heap s y)" for y unfolding hp by simp
    have "set bs \<subseteq> set rest" by (auto simp: split)
    then have l: "?l \<in> set (f # rest)" using last_in_set [of "f # bs"] by auto
    have sub: "set (f # bs @ ys) \<subseteq> set (f # rest)" "distinct (f # bs @ ys)" using d by (auto simp: split)
    have seg': "seg (ir_heap ?s') (isr_vector_table s (unat v)) (f # bs @ ys) 0"
      by (rule seg_skip [OF _ _ hp]) (use sg d split in auto)
    note U = isr_rep_update [where s' = ?s', OF rep vn _ _ _ seg' sub(2)]
    have o: "unat (kalloc_base s) \<le> unat (kalloc_base ?s')" "isr_vector_table ?s' = isr_vector_table s"
      "\<And>p. p \<notin> set (P (unat v)) \<Longrightarrow> unat p < unat (kalloc_base s) \<Longrightarrow> ir_heap ?s' p = ir_heap s p"
      "ia_handler (ir_heap ?s' f) = 0"
      "\<And>p. p \<in> set (f # bs @ ys) \<Longrightarrow>
        (p \<in> set (P (unat v)) \<or> unat (kalloc_base s) \<le> unat p) \<and> unat p < unat (kalloc_base ?s')"
    proof -
      show "unat (kalloc_base s) \<le> unat (kalloc_base ?s')" "isr_vector_table ?s' = isr_vector_table s"
        by (simp_all add: set_action_def kfree_def)
      show "ir_heap ?s' p = ir_heap s p" if "p \<notin> set (P (unat v))" "unat p < unat (kalloc_base s)" for p
        unfolding hp using that l P by (auto split: if_splits)
      show "ia_handler (ir_heap ?s' f) = 0" unfolding same by (rule f0)
      show "(p \<in> set (P (unat v)) \<or> unat (kalloc_base s) \<le> unat p) \<and> unat p < unat (kalloc_base ?s')"
        if "p \<in> set (f # bs @ ys)" for p
        using that sub(1) below [of p] P by (auto simp: set_action_def kfree_def)
    qed
    have "isr_rep INT_VECTOR_COUNT (P(unat v := f # bs @ ys)) ?s'" by (rule U(1)) (fact o)+
    moreover have "isr_handlers (P(unat v := f # bs @ ys)) ?s' w =
        (if w = unat v then map (\<lambda>x. ia_handler (ir_heap ?s' x)) (bs @ ys) else isr_handlers P s w)"
      if "w < INT_VECTOR_COUNT" for w by (rule U(2)) (fact o that)+
    ultimately have "isr_registered ?s' (L(unat v := remove1 h (L (unat v))))"
      unfolding isr_registered_def using L
      by (intro exI [of _ "P(unat v := f # bs @ ys)"]) (simp only: same remove1_behind [OF Cons, folded bs_def] Lv, simp)
    moreover have "isr_kept s ?s'" "ir_if ?s'" by (simp_all add: isr_kept_def set_action_def kfree_def)
    ultimately show ?thesis using that [of ?s'] del yes by simp
  qed
qed

section \<open>Running the handlers\<close>

text \<open>
  What the subsystem relies on of a handler: it works on its own state only, as \<open>eff\<close> says,
  and may ask for the others not to be run, as \<open>stop\<close> says.
\<close>

definition isr_behaves ::
  "'e isr_code \<Rightarrow> (u32 \<Rightarrow> u32 \<Rightarrow> u32 \<Rightarrow> 'e \<Rightarrow> 'e) \<Rightarrow> (u32 \<Rightarrow> u32 \<Rightarrow> u32 \<Rightarrow> 'e \<Rightarrow> bool) \<Rightarrow> bool" where
  "isr_behaves H eff stop \<longleftrightarrow>
     (\<forall>h v c s. H h v c s =
        (let s1 = s\<lparr>ir_env := eff h v c (ir_env s)\<rparr>
         in if stop h v c (ir_env s) then interrupt_terminate s1 else s1))"

fun run_isr_list ::
  "(u32 \<Rightarrow> u32 \<Rightarrow> u32 \<Rightarrow> 'e \<Rightarrow> 'e) \<Rightarrow> (u32 \<Rightarrow> u32 \<Rightarrow> u32 \<Rightarrow> 'e \<Rightarrow> bool) \<Rightarrow> u32 \<Rightarrow> u32 \<Rightarrow> u32 list \<Rightarrow> 'e \<Rightarrow> 'e" where
  "run_isr_list eff stop v c [] e = e"
| "run_isr_list eff stop v c (h # hs) e =
     (if h = 0 then run_isr_list eff stop v c hs e
      else if stop h v c e then eff h v c e
      else run_isr_list eff stop v c hs (eff h v c e))"

text \<open>The chains as the state has them: all but the counts of calls.\<close>

definition same_chains :: "'e irqs \<Rightarrow> 'e irqs \<Rightarrow> bool" where
  "same_chains s s' \<longleftrightarrow>
     (\<forall>p. ia_next (ir_heap s' p) = ia_next (ir_heap s p) \<and> ia_handler (ir_heap s' p) = ia_handler (ir_heap s p)) \<and>
     isr_vector_table s' = isr_vector_table s \<and> kalloc_base s' = kalloc_base s"

lemma same_chains_refl: "same_chains s s"
  by (simp add: same_chains_def)

lemma same_chains_trans: "same_chains s t \<Longrightarrow> same_chains t u \<Longrightarrow> same_chains s u"
  by (simp add: same_chains_def)

lemma same_chains_registered: "same_chains s s' \<Longrightarrow> isr_registered s L \<Longrightarrow> isr_registered s' L"
proof -
  assume c: "same_chains s s'" and "isr_registered s L"
  then obtain P where P: "isr_rep INT_VECTOR_COUNT P s" "\<And>v. v < INT_VECTOR_COUNT \<Longrightarrow> isr_handlers P s v = L v"
    by (auto simp: isr_registered_def)
  note C = isr_rep_cong [OF P(1), of s']
  have "isr_rep INT_VECTOR_COUNT P s'" "v < INT_VECTOR_COUNT \<Longrightarrow> isr_handlers P s' v = isr_handlers P s v" for v
    by (rule C; use c in \<open>simp add: same_chains_def\<close>)+
  then show "isr_registered s' L" using P(2) by (auto simp: isr_registered_def)
qed

lemma run_actions_list:
  assumes H: "isr_behaves H eff stop"
  shows "seg (ir_heap s) a xs 0 \<Longrightarrow> handling_int s \<Longrightarrow> \<not> terminate_isr s \<Longrightarrow>
    \<exists>s'. run_actions H v c a s = Some s' \<and> same_chains s s' \<and>
      ir_env s' = run_isr_list eff stop v c (map (\<lambda>x. ia_handler (ir_heap s x)) xs) (ir_env s)"
proof (induction xs arbitrary: a s)
  case Nil
  then show ?case by (subst run_actions.simps) (simp add: same_chains_refl)
next
  case (Cons x xs)
  let ?h = "ia_handler (ir_heap s x)"
  define s1 where "s1 = (if ?h \<noteq> 0 then H ?h v c s else s)"
  define s2 where "s2 = set_action x ((ir_heap s1 x)\<lparr>ia_calls := ia_calls (ir_heap s1 x) + 1\<rparr>) s1"
  have ax: "a = x" "x \<noteq> 0" "seg (ir_heap s) (ia_next (ir_heap s x)) xs 0" using Cons.prems(1) by auto
  have step: "run_actions H v c a s = run_actions H v c (ia_next (ir_heap s2 x)) s2"
    using ax(1,2) Cons.prems(3) by (subst run_actions.simps) (simp add: s1_def s2_def Let_def)
  have hp: "ir_heap s1 = ir_heap s" "isr_vector_table s1 = isr_vector_table s" "kalloc_base s1 = kalloc_base s"
    "handling_int s1" "terminate_isr s1 = (?h \<noteq> 0 \<and> stop ?h v c (ir_env s))"
    "ir_env s1 = (if ?h = 0 then ir_env s else eff ?h v c (ir_env s))"
    using H Cons.prems(2,3) by (simp_all add: s1_def isr_behaves_def Let_def interrupt_terminate_def)
  have same: "same_chains s s2" using hp by (simp add: same_chains_def s2_def set_action_def)
  have s2: "handling_int s2" "terminate_isr s2 = terminate_isr s1" "ir_env s2 = ir_env s1"
    using hp(4) by (simp_all add: s2_def set_action_def)
  have sg: "seg (ir_heap s2) (ia_next (ir_heap s2 x)) xs 0"
    using ax(3) seg_cong [of xs "ir_heap s2" "ir_heap s" "ia_next (ir_heap s x)" 0] same by (simp add: same_chains_def)
  have mp: "map (\<lambda>x. ia_handler (ir_heap s2 x)) xs = map (\<lambda>x. ia_handler (ir_heap s x)) xs"
    using same by (simp add: same_chains_def)
  show ?case
  proof (cases "terminate_isr s2")
    case True
    then have "run_actions H v c a s = Some s2" unfolding step by (subst run_actions.simps) simp
    then show ?thesis using same True s2(2,3) hp(5,6) by simp
  next
    case False
    from Cons.IH [OF sg s2(1) False] obtain s' where
      "run_actions H v c (ia_next (ir_heap s2 x)) s2 = Some s'" "same_chains s2 s'"
      "ir_env s' = run_isr_list eff stop v c (map (\<lambda>x. ia_handler (ir_heap s x)) xs) (ir_env s2)"
      unfolding mp by blast
    then show ?thesis using step same_chains_trans [OF same] False s2(2,3) hp(5,6) by auto
  qed
qed

lemma global_handler_runs_list:
  assumes H: "isr_behaves H eff stop" and reg: "isr_registered s L" and v: "\<not> bad_vector v"
    and t: "\<not> terminate_isr s"
  obtains s' where "interrupt_global_handler H v c s = Inr s'" and "isr_registered s' L"
    and "ir_env s' = run_isr_list eff stop v c (L (unat v)) (ir_env s)"
    and "ir_if s' = ir_if s" and "\<not> terminate_isr s'"
proof -
  have vn: "unat v < INT_VECTOR_COUNT" by (rule vector_ok [OF v])
  obtain P where rep: "isr_rep INT_VECTOR_COUNT P s" and L: "isr_handlers P s (unat v) = L (unat v)"
    using reg vn by (auto simp: isr_registered_def)
  from isr_repD [OF rep vn] obtain f rest where P: "P (unat v) = f # rest"
    and sg: "seg (ir_heap s) (isr_vector_table s (unat v)) (f # rest) 0" and f0: "ia_handler (ir_heap s f) = 0" by blast
  let ?s1 = "(interrupt_enable False s)\<lparr>handling_int := True\<rparr>"
  obtain s2 where r: "run_actions H v c (isr_vector_table s (unat v)) ?s1 = Some s2" "same_chains ?s1 s2"
    "ir_env s2 = run_isr_list eff stop v c (map (\<lambda>x. ia_handler (ir_heap s x)) (f # rest)) (ir_env s)"
    using run_actions_list [OF H, of ?s1 _ "f # rest" v c] sg t by auto
  let ?s' = "interrupt_enable (ir_if s) (interrupt_clear v (s2\<lparr>terminate_isr := False, handling_int := False\<rparr>))"
  have g: "interrupt_global_handler H v c s = Inr ?s'"
    using r(1) v by (simp add: interrupt_global_handler_def Let_def interrupt_is_enabled_def)
  have c: "same_chains s ?s'" "ir_env ?s' = ir_env s2" "\<not> terminate_isr ?s'"
    using r(2) by (simp_all add: same_chains_def interrupt_clear_def ir_outb_def Let_def)
  show ?thesis
    by (rule that [OF g same_chains_registered [OF c(1) reg]])
      (use c(2,3) r(3) L P f0 in \<open>simp_all add: isr_handlers_def\<close>)
qed

section \<open>Sequences of operations\<close>

datatype isr_op = Add_isr u32 u32 | Del_isr u32 u32

fun isr_step :: "isr_op \<Rightarrow> 'e irqs \<Rightarrow> (status_t \<times> 'e irqs) outcome" where
  "isr_step (Add_isr h v) s = interrupt_add_isr h v s"
| "isr_step (Del_isr h v) s = interrupt_del_isr h v s"

fun isr_steps :: "isr_op list \<Rightarrow> 'e irqs \<Rightarrow> (status_t list \<times> 'e irqs) outcome" where
  "isr_steps [] s = Inr ([], s)"
| "isr_steps (x # xs) s =
     andThen (isr_step x s) (\<lambda>(st, s'). andThen (isr_steps xs s') (\<lambda>(sts, s''). Inr (st # sts, s'')))"

text \<open>The same operations on lists of handlers.\<close>

fun list_isr_step :: "isr_op \<Rightarrow> (nat \<Rightarrow> u32 list) \<Rightarrow> status_t \<times> (nat \<Rightarrow> u32 list)" where
  "list_isr_step (Add_isr h v) L =
     (if bad_vector v then (E_BAD_PARAM, L) else (E_SUCCESS, L(unat v := L (unat v) @ [h])))"
| "list_isr_step (Del_isr h v) L =
     (if bad_vector v then (E_BAD_PARAM, L)
      else if h \<in> set (L (unat v)) then (E_SUCCESS, L(unat v := remove1 h (L (unat v))))
      else (E_NOT_FOUND, L))"

fun list_isr_steps :: "isr_op list \<Rightarrow> (nat \<Rightarrow> u32 list) \<Rightarrow> status_t list \<times> (nat \<Rightarrow> u32 list)" where
  "list_isr_steps [] L = ([], L)"
| "list_isr_steps (x # xs) L =
     (let (st, L') = list_isr_step x L; (sts, L'') = list_isr_steps xs L' in (st # sts, L''))"

lemma isr_step_lists:
  assumes "isr_registered s L" and "isr_room s"
  shows "\<exists>s'. isr_step x s = Inr (fst (list_isr_step x L), s') \<and>
    isr_registered s' (snd (list_isr_step x L)) \<and> isr_kept s s'"
proof (cases x)
  case (Add_isr h v)
  show ?thesis
  proof (cases "bad_vector v")
    case True
    then show ?thesis using assms(1) Add_isr by (simp add: interrupt_add_isr_def isr_kept_def)
  next
    case False
    then show ?thesis using add_isr_registered [OF assms(1) False assms(2), of h] Add_isr by auto
  qed
next
  case (Del_isr h v)
  show ?thesis
  proof (cases "bad_vector v")
    case True
    then show ?thesis using assms(1) Del_isr by (simp add: interrupt_del_isr_def isr_kept_def)
  next
    case False
    obtain s' where s': "interrupt_del_isr h v s = Inr (if h \<in> set (L (unat v)) then E_SUCCESS else E_NOT_FOUND, s')"
      "isr_registered s' (L(unat v := remove1 h (L (unat v))))" "isr_kept s s'"
      by (rule del_isr_registered [OF assms(1) False])
    then show ?thesis
      using False Del_isr by (cases "h \<in> set (L (unat v))") (simp_all add: remove1_idem)
  qed
qed

lemma isr_steps_lists:
  "isr_registered s L \<Longrightarrow> 0 < unat (kalloc_base s) \<Longrightarrow> unat (kalloc_base s) + 20 * length xs < 2 ^ 32 \<Longrightarrow>
   \<exists>s'. isr_steps xs s = Inr (fst (list_isr_steps xs L), s') \<and> isr_registered s' (snd (list_isr_steps xs L)) \<and>
     terminate_isr s' = terminate_isr s \<and> ir_env s' = ir_env s"
proof (induction xs arbitrary: s L)
  case Nil
  then show ?case by simp
next
  case (Cons x xs)
  obtain st L' where l: "list_isr_step x L = (st, L')" by fastforce
  obtain sts L'' where ls: "list_isr_steps xs L' = (sts, L'')" by fastforce
  have "isr_room s" using Cons.prems(2,3) by (simp add: isr_room_def)
  from isr_step_lists [OF Cons.prems(1) this, of x] obtain s1 where s1:
    "isr_step x s = Inr (st, s1)" "isr_registered s1 L'" "isr_kept s s1" unfolding l by auto
  have "0 < unat (kalloc_base s1)" "unat (kalloc_base s1) + 20 * length xs < 2 ^ 32"
    using s1(3) Cons.prems(2,3) unfolding isr_kept_def by simp_all
  from Cons.IH [OF s1(2) this] obtain s2 where "isr_steps xs s1 = Inr (sts, s2)" "isr_registered s2 L''"
    "terminate_isr s2 = terminate_isr s1" "ir_env s2 = ir_env s1" unfolding ls by auto
  then show ?case using s1(1,3) l ls by (simp add: isr_kept_def)
qed

end
