(* ===== verification/Device_Properties.thy ===== *)
theory Device_Properties
  imports Ide_Disk Irq_Chains
begin

text \<open>
  The properties of the device layer: the IDE driver, over the theories \<open>Ide\<close> and \<open>Ide_Disk\<close>,
  with the drive on which it is exercised, and the chains of interrupt handlers, over the
  theory \<open>Irq_Chains\<close>.
\<close>

section \<open>A drive\<close>

text \<open>
  The drive of the sample is at the ports of the primary channel.  Its state is the view
  itself, its status register shows the error bits only, and each command takes \<open>n\<close> reads
  of the status.
\<close>

definition sample_view :: "ata_view \<Rightarrow> ata_view" where
  "sample_view h = h\<lparr>av_status := av_status h AND 0x21\<rparr>"

definition sample_command :: "nat \<Rightarrow> u8 \<Rightarrow> ata_view \<Rightarrow> ata_view" where
  "sample_command n c h =
     (if c = ATA_CMD_READ_PIO_EXT then
        (if av_lba h \<in> av_bad h then h\<lparr>av_busy := n, av_status := ATA_SR_ERR, av_out := []\<rparr>
         else h\<lparr>av_busy := n, av_status := 0, av_out := sector_words (av_disk h (av_lba h))\<rparr>)
      else if c = ATA_CMD_WRITE_PIO_EXT then
        h\<lparr>av_busy := n, av_status := 0, av_in := Some (av_lba h, [])\<rparr>
      else h\<lparr>av_busy := n\<rparr>)"

definition sample_ports :: "nat \<Rightarrow> ata_view ports" where
  "sample_ports n = \<lparr>
     p_inb = (\<lambda>p h. (if p = 0x1F7 \<and> av_busy h = 0 then av_status h AND 0x21
                     else (av_status h AND 0x21) OR ATA_SR_BSY,
                     h\<lparr>av_busy := av_busy h - 1\<rparr>)),
     p_inw = (\<lambda>p h. (hd (av_out h), h\<lparr>av_out := tl (av_out h)\<rparr>)),
     p_outb = (\<lambda>p v h. if p = 0x3F6 then h
                       else if p = 0x1F6 then h\<lparr>av_select := v\<rparr>
                       else if p = 0x1F7 then sample_command n v h
                       else set_reg_byte (unat (p - 0x1F0)) v h),
     p_outw = (\<lambda>p w h. give_word w h)\<rparr>"

definition sample_device :: ide_device_t where
  "sample_device = \<lparr>base_io_register = 0x1F0, base_control_register = 0x3F4, bus_master_base = 0, ide_drive = 0\<rparr>"

lemma sample_view_simps [simp]:
  "av_disk (sample_view h) = av_disk h" "av_bad (sample_view h) = av_bad h" "av_cur (sample_view h) = av_cur h"
  "av_prev (sample_view h) = av_prev h" "av_select (sample_view h) = av_select h"
  "av_busy (sample_view h) = av_busy h" "av_out (sample_view h) = av_out h" "av_in (sample_view h) = av_in h"
  "av_status (sample_view h) = av_status h AND 0x21" "av_lba (sample_view h) = av_lba h"
  by (simp_all add: sample_view_def av_lba_def)

lemma sample_reg_byte: "sample_view (set_reg_byte r x h) = set_reg_byte r x (sample_view h)"
  by (simp add: sample_view_def set_reg_byte_def)

lemma sample_give_word: "sample_view (give_word w h) = give_word w (sample_view h)"
  by (simp add: sample_view_def give_word_def split: option.splits)

lemma sample_registers: "r \<in> {2..5} \<Longrightarrow> r = 2 \<or> r = 3 \<or> r = 4 \<or> r = (5::nat)" by auto

lemma sample_commands:
  fixes h n defines "v \<equiv> sample_view h" and "cmd c \<equiv> sample_view (p_outb (sample_ports n) (base_io_register sample_device + 7) c h)"
  shows "\<exists>m. cmd ATA_CMD_READ_PIO_EXT = (if av_lba v \<in> av_bad v
      then v\<lparr>av_busy := m, av_status := ATA_SR_ERR, av_out := []\<rparr>
      else v\<lparr>av_busy := m, av_status := 0, av_out := sector_words (av_disk v (av_lba v))\<rparr>)"
    and "\<exists>m. cmd ATA_CMD_WRITE_PIO_EXT = v\<lparr>av_busy := m, av_status := 0, av_in := Some (av_lba v, [])\<rparr>"
    and "\<exists>m. cmd ATA_CMD_CACHE_FLUSH_EXT = v\<lparr>av_busy := m\<rparr>"
  unfolding v_def cmd_def
  by (rule exI [of _ n], auto simp: sample_ports_def sample_device_def sample_command_def sample_view_def av_lba_def)+

lemma sample_reads:
  shows "av_status (sample_view h) AND ATA_SR_BSY = 0"
    and "sample_view (p_outb (sample_ports n) (base_control_register sample_device + 2) x h) = sample_view h"
    and "sample_view (snd (p_inb (sample_ports n) p h)) = (sample_view h)\<lparr>av_busy := av_busy (sample_view h) - 1\<rparr>"
    and "fst (p_inb (sample_ports n) (base_io_register sample_device + 7) h) =
      (if av_busy (sample_view h) = 0 then av_status (sample_view h) else av_status (sample_view h) OR ATA_SR_BSY)"
    and "sample_view (p_outb (sample_ports n) (base_io_register sample_device + 6) x h) = (sample_view h)\<lparr>av_select := x\<rparr>"
    and "fst (p_inw (sample_ports n) p h) = hd (av_out (sample_view h))"
    and "sample_view (snd (p_inw (sample_ports n) p h)) = (sample_view h)\<lparr>av_out := tl (av_out (sample_view h))\<rparr>"
    and "sample_view (p_outw (sample_ports n) p w h) = give_word w (sample_view h)"
  by (simp_all add: sample_ports_def sample_device_def sample_give_word and.assoc)

lemma sample_drive_ok: "ata_ok (sample_ports n) sample_device sample_view"
proof -
  have "sample_view (p_outb (sample_ports n) (base_io_register sample_device + of_nat r) x h) =
      set_reg_byte r x (sample_view h)" if "r \<in> {2..5}" for r x h
    using sample_registers [OF that]
    by (elim disjE) (simp_all add: sample_ports_def sample_device_def sample_reg_byte)
  then show ?thesis
    unfolding ata_ok_def
    by (intro conjI allI ballI impI) (assumption | rule sample_reads sample_commands | blast)+
qed

section \<open>The transfers\<close>


definition sample_drive :: ata_view where
  "sample_drive = \<lparr>av_disk = (\<lambda>s i. if s = 5 \<and> i = 0 then 0x41 else 0), av_bad = {9}, av_cur = (\<lambda>_. 0),
     av_prev = (\<lambda>_. 0), av_select = 0, av_busy = 3, av_status = 0, av_out = [], av_in = None\<rparr>"


section \<open>Interrupt handlers\<close>

text \<open>C22
  After initialization and any sequence of additions and deletions of handlers, each vector has
  the list of handlers that results from appending at the end and removing the first occurrence;
  each operation gives the status that the list calls for, a vector out of range included.  An
  interrupt then runs exactly the handlers of its vector, in that order, up to one that asks for
  the others not to be run, and leaves the lists as they were.
\<close>

theorem isr_chains_are_lists:
  assumes "kalloc_base s0 = KALLOC_BASE_ADDR" and "\<not> terminate_isr s0" and H: "isr_behaves H eff stop"
    and "length ops \<le> 1000000"
  defines "spec \<equiv> list_isr_steps ops (\<lambda>_. [])"
  shows "\<exists>s. isr_steps ops (snd (interrupt_init s0)) = Inr (fst spec, s) \<and> isr_registered s (snd spec) \<and>
     (\<forall>v c. \<not> bad_vector v \<longrightarrow>
        (\<exists>s'. interrupt_global_handler H v c s = Inr s' \<and> isr_registered s' (snd spec) \<and>
           ir_env s' = run_isr_list eff stop v c (snd spec (unat v)) (ir_env s0)))"
proof -
  obtain st s1 where i: "interrupt_init s0 = (st, s1)" by fastforce
  note I = interrupt_init_registered [OF assms(1) i]
  have "unat (kalloc_base s1) + 20 * length ops < 2 ^ 32" using I(3) assms(4) by simp
  from isr_steps_lists [OF I(2,4) this] obtain s where s:
    "isr_steps ops s1 = Inr (fst spec, s)" "isr_registered s (snd spec)" "\<not> terminate_isr s" "ir_env s = ir_env s0"
    using I(5,6) assms(2) spec_def by auto
  have "\<exists>s'. interrupt_global_handler H v c s = Inr s' \<and> isr_registered s' (snd spec) \<and>
      ir_env s' = run_isr_list eff stop v c (snd spec (unat v)) (ir_env s0)" if "\<not> bad_vector v" for v c
    using global_handler_runs_list [OF H s(2) that s(3), of c] s(4) by metis
  then show ?thesis using i s(1,2) by auto
qed

definition sample_irqs :: "u32 list irqs" where
  "sample_irqs = \<lparr>kalloc_base = KALLOC_BASE_ADDR, ir_heap = \<lambda>_. \<lparr>ia_handler = 0, ia_calls = 0, ia_next = 0\<rparr>,
     isr_vector_table = \<lambda>_. 0, handling_int = False, terminate_isr = False, handled_int = 0, test_handler = 0,
     wait_irq_count = 0, ir_if = False, isr_table = \<lambda>_. Default_unexpected_handler,
     ir_idt = \<lambda>_. \<lparr>gate_offset_15_0 = 0, gate_selector = 0, gate_flags = 0, gate_offset_31_16 = 0\<rparr>,
     ir_out = [], ir_env = []\<rparr>"

text \<open>Handlers that note their address; the one at \<^verbatim>\<open>0x300\<close> ends the round.\<close>

definition noting_handlers :: "u32 list isr_code" where
  "noting_handlers h v c s =
     (let s1 = s\<lparr>ir_env := ir_env s @ [h]\<rparr> in if h = 0x300 then interrupt_terminate s1 else s1)"

theorem isr_chains_are_lists_witness:
  "\<exists>s s'. isr_steps [Add_isr 0x100 0x20, Add_isr 0x200 0x20, Add_isr 0x300 0x20, Add_isr 0x400 0x20,
        Del_isr 0x100 0x20, Del_isr 0x100 0x20, Add_isr 0x100 0x100] (snd (interrupt_init sample_irqs)) =
      Inr ([0, 0, 0, 0, 0, E_NOT_FOUND, E_BAD_PARAM], s) \<and>
    interrupt_global_handler noting_handlers 0x20 0 s = Inr s' \<and> ir_env s' = [0x200, 0x300]"
proof -
  let ?ops = "[Add_isr 0x100 0x20, Add_isr 0x200 0x20, Add_isr 0x300 0x20, Add_isr 0x400 0x20,
        Del_isr 0x100 0x20, Del_isr 0x100 0x20, Add_isr 0x100 0x100]"
  have b: "isr_behaves noting_handlers (\<lambda>h v c e. e @ [h]) (\<lambda>h v c e. h = 0x300)"
    by (simp add: isr_behaves_def noting_handlers_def)
  have h: "kalloc_base sample_irqs = KALLOC_BASE_ADDR" "\<not> terminate_isr sample_irqs" "length ?ops \<le> 1000000"
    "ir_env sample_irqs = []" by (simp_all add: sample_irqs_def)
  have v: "\<not> bad_vector 0x20" "bad_vector 0x100" by (simp_all add: bad_vector_def INT_VECTOR_COUNT_def)
  have f: "fst (list_isr_steps ?ops (\<lambda>_. [])) = [0, 0, 0, 0, 0, E_NOT_FOUND, E_BAD_PARAM]"
    "snd (list_isr_steps ?ops (\<lambda>_. [])) 32 = [0x200, 0x300, 0x400]" using v by simp_all
  from isr_chains_are_lists [OF h(1,2) b h(3)] f v(1) h(4) show ?thesis by force
qed

end
