(* ===== verification/Console.thy ===== *)
theory Console
  imports Prelude
begin

text \<open>
  The output side of the console, \<^verbatim>\<open>kernel/c_io.c\<close>, as it is built with the VESA
  display: a text screen of 106 by 64 cells of 16 bits at address \<^verbatim>\<open>0x50000\<close>.  The video
  memory is a function of the address; port writes are a log.  A loop that counts an
  unsigned variable up to a limit does not end when the limit is the largest word.
\<close>

section \<open>State\<close>

abbreviation VIDEO_BASE_ADDR :: u32 where "VIDEO_BASE_ADDR \<equiv> 0x50000"
abbreviation SCREEN_X_SIZE :: u32 where "SCREEN_X_SIZE \<equiv> 106"
abbreviation SCREEN_Y_SIZE :: u32 where "SCREEN_Y_SIZE \<equiv> 64"

record console =
  scroll_min_x :: u32
  scroll_min_y :: u32
  scroll_max_x :: u32
  scroll_max_y :: u32
  curr_x :: u32
  curr_y :: u32
  min_x :: u32
  min_y :: u32
  max_x :: u32
  max_y :: u32
  con_video :: "u32 \<Rightarrow> u16"
  con_out :: "(u16 \<times> u8) list"

definition VIDEO_ADDR :: "u32 \<Rightarrow> u32 \<Rightarrow> u32" where
  "VIDEO_ADDR x y = VIDEO_BASE_ADDR + 2 * (y * SCREEN_X_SIZE + x)"

definition put_cell :: "u32 \<Rightarrow> u16 \<Rightarrow> console \<Rightarrow> console" where
  "put_cell a v con = con\<lparr>con_video := (con_video con)(a := v)\<rparr>"

abbreviation blank_cell :: u16 where "blank_cell \<equiv> 0x0720"

definition con_outb :: "u16 \<Rightarrow> u8 \<Rightarrow> console \<Rightarrow> console" where
  "con_outb p v con = con\<lparr>con_out := con_out con @ [(p, v)]\<rparr>"

section \<open>Support routines\<close>

definition bound :: "u32 \<Rightarrow> u32 \<Rightarrow> u32 \<Rightarrow> u32" where
  "bound mn value mx =
     (let v = (if value < mn then mn else value) in if v > mx then mx else v)"

definition c_setcursor :: "console \<Rightarrow> console" where
  "c_setcursor con =
     (let y = (if curr_y con > scroll_max_y con then scroll_max_y con else curr_y con);
          addr = y * SCREEN_X_SIZE + curr_x con
      in con_outb 0x3d5 (ucast (addr AND 0xff)) (con_outb 0x3d4 0xf
           (con_outb 0x3d5 (ucast (drop_bit 8 addr AND 0xff)) (con_outb 0x3d4 0xe con))))"

definition phys_putchar_at :: "u32 \<Rightarrow> u32 \<Rightarrow> u32 \<Rightarrow> console \<Rightarrow> console" where
  "phys_putchar_at x y c con =
     (if x \<le> max_x con \<and> y \<le> max_y con then
        put_cell (VIDEO_ADDR x y) (if c > 0xff then ucast c else ucast c OR 0x0700) con
      else con)"

definition c_setscroll :: "u32 \<Rightarrow> u32 \<Rightarrow> u32 \<Rightarrow> u32 \<Rightarrow> console \<Rightarrow> console" where
  "c_setscroll s_min_x s_min_y s_max_x s_max_y con =
     (let c1 = con\<lparr>scroll_min_x := bound (min_x con) s_min_x (max_x con)\<rparr>;
          c2 = c1\<lparr>scroll_min_y := bound (min_y c1) s_min_y (max_y c1)\<rparr>;
          c3 = c2\<lparr>scroll_max_x := bound (scroll_min_x c2) s_max_x (max_x c2)\<rparr>;
          c4 = c3\<lparr>scroll_max_y := bound (scroll_min_y c3) s_max_y (max_y c3)\<rparr>
      in c_setcursor (c4\<lparr>curr_x := scroll_min_x c4, curr_y := scroll_min_y c4\<rparr>))"

definition c_moveto :: "u32 \<Rightarrow> u32 \<Rightarrow> console \<Rightarrow> console" where
  "c_moveto x y con =
     c_setcursor (con\<lparr>curr_x := bound (scroll_min_x con) (x + scroll_min_x con) (scroll_max_x con),
                      curr_y := bound (scroll_min_y con) (y + scroll_min_y con) (scroll_max_y con)\<rparr>)"

section \<open>Characters\<close>

text \<open>\<^verbatim>\<open>while( x <= limit ) { __c_putchar_at( x, y, ' ' ); x += 1; }\<close>\<close>

definition fill_line :: "u32 \<Rightarrow> u32 \<Rightarrow> u32 \<Rightarrow> console \<Rightarrow> console outcome" where
  "fill_line x y limit con =
     (if limit = -1 then Inl Diverges
      else Inr (fold (\<lambda>x. phys_putchar_at (of_nat x) y 0x20) [unat x..<unat limit + 1] con))"

definition c_putchar_at :: "u32 \<Rightarrow> u32 \<Rightarrow> u32 \<Rightarrow> console \<Rightarrow> console outcome" where
  "c_putchar_at x y c con =
     (if c AND 0x7f = 0x0A then
        fill_line x y
          (if x > scroll_max_x con then max_x con
           else if x \<ge> scroll_min_x con then scroll_max_x con
           else scroll_min_x con - 1) con
      else Inr (phys_putchar_at x y c con))"

section \<open>Clearing and scrolling\<close>

text \<open>\<open>n\<close> cells from an address on; and the lines from one to another, counted up.\<close>

definition clear_cells :: "u32 \<Rightarrow> nat \<Rightarrow> console \<Rightarrow> console" where
  "clear_cells a n con = fold (\<lambda>i. put_cell (a + 2 * of_nat i) blank_cell) [0..<n] con"

definition copy_cells :: "u32 \<Rightarrow> u32 \<Rightarrow> nat \<Rightarrow> console \<Rightarrow> console" where
  "copy_cells to from n con =
     fold (\<lambda>i con. put_cell (to + 2 * of_nat i) (con_video con (from + 2 * of_nat i)) con) [0..<n] con"

definition scroll_width :: "console \<Rightarrow> u32" where
  "scroll_width con = scroll_max_x con - scroll_min_x con + 1"

definition c_clearscroll :: "console \<Rightarrow> console outcome" where
  "c_clearscroll con =
     (if scroll_max_y con = -1 then Inl Diverges
      else Inr (fold (\<lambda>l. clear_cells (VIDEO_ADDR (scroll_min_x con) (of_nat l)) (unat (scroll_width con)))
                  [unat (scroll_min_y con)..<unat (scroll_max_y con) + 1] con))"

definition c_clearscreen :: "console \<Rightarrow> console" where
  "c_clearscreen con =
     clear_cells (VIDEO_ADDR (min_x con) (min_y con))
       (unat ((max_y con - min_y con + 1) * (max_x con - min_x con + 1))) con"

text \<open>
  The counters of the columns and the lines are signed here: a width that is negative as a
  signed number copies nothing; lines are compared as unsigned numbers.
\<close>

definition c_scroll :: "u32 \<Rightarrow> console \<Rightarrow> console outcome" where
  "c_scroll lines con =
     (let n = nat (sint (scroll_width con)); last = scroll_max_y con - lines
      in if lines > scroll_max_y con - scroll_min_y con then
           andThen (c_clearscroll con) (\<lambda>c1.
             Inr (c_setcursor (c1\<lparr>curr_x := scroll_min_x c1, curr_y := scroll_min_y c1\<rparr>)))
         else if last = -1 \<or> scroll_max_y con = -1 then Inl Diverges
         else
           let c1 = fold (\<lambda>l. copy_cells (VIDEO_ADDR (scroll_min_x con) (of_nat l))
                                 (VIDEO_ADDR (scroll_min_x con) (of_nat l + lines)) n)
                      [unat (scroll_min_y con)..<unat last + 1] con;
               line = max (unat (scroll_min_y con)) (unat last + 1)
           in Inr (fold (\<lambda>l. clear_cells (VIDEO_ADDR (scroll_min_x con) (of_nat l)) n)
                     [line..<unat (scroll_max_y con) + 1] c1))"

section \<open>Characters and strings in the scrolling region\<close>

definition c_putchar :: "u32 \<Rightarrow> console \<Rightarrow> console outcome" where
  "c_putchar c con =
     andThen (if curr_y con > scroll_max_y con then
                andThen (c_scroll (curr_y con - scroll_max_y con) con) (\<lambda>c1. Inr (c1\<lparr>curr_y := scroll_max_y c1\<rparr>))
              else Inr con) (\<lambda>c1.
     andThen (if c AND 0xff = 0x0A then
                andThen (fill_line (curr_x c1) (curr_y c1) (scroll_max_x c1) c1) (\<lambda>c2.
                  Inr (c2\<lparr>curr_x := scroll_min_x c2, curr_y := curr_y c2 + 1\<rparr>))
              else if c AND 0xff = 0x0D then Inr (c1\<lparr>curr_x := scroll_min_x c1\<rparr>)
              else
                let c2 = phys_putchar_at (curr_x c1) (curr_y c1) c c1;
                    c3 = c2\<lparr>curr_x := curr_x c2 + 1\<rparr>
                in Inr (if curr_x c3 > scroll_max_x c3
                        then c3\<lparr>curr_x := scroll_min_x c3, curr_y := curr_y c3 + 1\<rparr> else c3)) (\<lambda>c2.
     Inr (c_setcursor c2)))"

text \<open>
  A C string is the list of its bytes up to the terminator; a byte is signed, and widened
  with its sign.
\<close>

fun c_puts_at :: "u32 \<Rightarrow> u32 \<Rightarrow> u8 list \<Rightarrow> console \<Rightarrow> console outcome" where
  "c_puts_at x y [] con = Inr con"
| "c_puts_at x y (ch # s) con =
     (if x \<le> max_x con then
        andThen (c_putchar_at x y (scast ch) con) (c_puts_at (x + 1) y s)
      else Inr con)"

fun c_puts :: "u8 list \<Rightarrow> console \<Rightarrow> console outcome" where
  "c_puts [] con = Inr con"
| "c_puts (ch # s) con = andThen (c_putchar (scast ch) con) (c_puts s)"

definition c_io_init :: "console \<Rightarrow> console" where
  "c_io_init con =
     c_setcursor (con\<lparr>min_x := 0, min_y := 0, max_x := SCREEN_X_SIZE - 1, max_y := SCREEN_Y_SIZE - 1,
       scroll_min_x := 0, scroll_min_y := 0, scroll_max_x := SCREEN_X_SIZE - 1,
       scroll_max_y := SCREEN_Y_SIZE - 1, curr_y := 0, curr_x := 0\<rparr>)"

section \<open>Numbers as strings\<close>

text \<open>
  The conversions store the digits and a terminator, and return the number of digits: here
  the list of the digits.  The quotient and the remainder of C round towards zero.
\<close>

definition trunc_div :: "u32 \<Rightarrow> int \<Rightarrow> int" where
  "trunc_div v n = sgn (sint v) * (\<bar>sint v\<bar> div n)"

definition trunc_rem :: "u32 \<Rightarrow> int \<Rightarrow> int" where
  "trunc_rem v n = sint v - n * trunc_div v n"

function cvtdec0 :: "u32 \<Rightarrow> u8 list" where
  "cvtdec0 value =
     (let q = trunc_div value 10;
          quotient = (if q < 0 then 214748364 else q);
          value' = (if q < 0 then 8 else value);
          digit = word_of_int (trunc_rem value' 10 + 0x30)
      in if quotient \<noteq> 0 then cvtdec0 (word_of_int quotient) @ [digit] else [digit])"
  by auto

termination
proof (relation "measure (\<lambda>v. if sint v < 0 then 2 ^ 31 else nat (sint v))", simp)
  fix w :: u32 and q quotient
  assume q: "q = trunc_div w 10" "quotient = (if q < 0 then 214748364 else q)" and nz: "quotient \<noteq> 0"
  have lt: "sint w < 2 ^ 31" using sint_lt [of w] by simp
  show "(word_of_int quotient, w) \<in> measure (\<lambda>v. if sint v < 0 then 2 ^ 31 else nat (sint v))"
  proof (cases "sint w < 0")
    case True
    then have "q \<le> 0" by (simp add: q(1) trunc_div_def)
    then have "quotient = 214748364" using q(2) nz by (auto split: if_splits)
    then show ?thesis using True by simp
  next
    case False
    then have "q = sint w div 10" by (auto simp: q(1) trunc_div_def sgn_if)
    then have "quotient = sint w div 10" "0 \<le> quotient" "quotient < sint w"
      using q(2) nz False by (auto split: if_splits)
    moreover from this have "sint (word_of_int quotient :: u32) = quotient"
      using lt by (simp add: sint_word_of_int_small)
    ultimately show ?thesis using False by simp
  qed
qed

declare cvtdec0.simps [simp del]

definition cvtdec :: "u32 \<Rightarrow> u8 list" where
  "cvtdec value = (if sint value < 0 then 0x2D # cvtdec0 (- value) else cvtdec0 value)"

definition hexdigits :: "u8 list" where
  "hexdigits = map of_nat ([0x30..<0x3A] @ [0x41..<0x47])"

text \<open>Eight rounds of \<^verbatim>\<open>cvthex\<close> and eleven of \<^verbatim>\<open>cvtoct\<close>; \<open>stored\<close> is \<^verbatim>\<open>chars_stored\<close>.\<close>

fun cvthex_loop :: "nat \<Rightarrow> bool \<Rightarrow> u32 \<Rightarrow> u8 list" where
  "cvthex_loop 0 stored value = []"
| "cvthex_loop (Suc n) stored value =
     (let val = value AND 0xf0000000
      in if n = 0 \<or> val \<noteq> 0 \<or> stored then
           hexdigits ! unat (signed_drop_bit 28 val AND 0xf) # cvthex_loop n True (push_bit 4 value)
         else cvthex_loop n stored (push_bit 4 value))"

definition cvthex :: "u32 \<Rightarrow> u8 list" where
  "cvthex value = cvthex_loop 8 False value"

fun cvtoct_loop :: "nat \<Rightarrow> bool \<Rightarrow> u32 \<Rightarrow> u32 \<Rightarrow> u8 list" where
  "cvtoct_loop 0 stored val value = []"
| "cvtoct_loop (Suc n) stored val value =
     (let value' = push_bit 3 value; val' = signed_drop_bit 29 (value' AND 0xe0000000)
      in if n = 0 \<or> val \<noteq> 0 \<or> stored then
           hexdigits ! unat (val AND 0x7) # cvtoct_loop n True val' value'
         else cvtoct_loop n stored val' value')"

definition cvtoct :: "u32 \<Rightarrow> u8 list" where
  "cvtoct value = cvtoct_loop 11 False (signed_drop_bit 30 (value AND 0xc0000000)) value"

end
