(* ===== verification/Printf.thy ===== *)
theory Printf
  imports Console
begin

text \<open>
  Formatted output, the printf family of \<^verbatim>\<open>kernel/c_io.c\<close>.  A format is the list of its
  bytes up to the terminator, and the pointer into it is the rest of the list, or \<open>None\<close>
  behind the terminator, where the code must not read.  The arguments are the words that
  follow the format on the stack; an argument of \<^verbatim>\<open>%s\<close> is the address of a string.
\<close>

section \<open>Padding\<close>

text \<open>A place is given for \<^verbatim>\<open>c_printf_at\<close>; \<^verbatim>\<open>c_printf\<close> gives -1 for both coordinates.\<close>

definition placed :: "u32 \<Rightarrow> u32 \<Rightarrow> bool" where
  "placed x y \<longleftrightarrow> x \<noteq> -1 \<or> y \<noteq> -1"

fun pad_loop :: "nat \<Rightarrow> u32 \<Rightarrow> u32 \<Rightarrow> u32 \<Rightarrow> console \<Rightarrow> (u32 \<times> console) outcome" where
  "pad_loop 0 x y padchar con = Inr (x, con)"
| "pad_loop (Suc n) x y padchar con =
     (if placed x y then andThen (c_putchar_at x y padchar con) (pad_loop n (x + 1) y padchar)
      else andThen (c_putchar padchar con) (pad_loop n x y padchar))"

definition pad :: "u32 \<Rightarrow> u32 \<Rightarrow> u32 \<Rightarrow> u32 \<Rightarrow> console \<Rightarrow> (u32 \<times> console) outcome" where
  "pad x y extra padchar con = pad_loop (nat (sint extra)) x y padchar con"

definition padstr ::
  "u32 \<Rightarrow> u32 \<Rightarrow> u8 list \<Rightarrow> u32 \<Rightarrow> u32 \<Rightarrow> bool \<Rightarrow> u32 \<Rightarrow> console \<Rightarrow> (u32 \<times> console) outcome" where
  "padstr x y str len width leftadjust padchar con =
     (let len' = (if sint len < 0 then of_nat (length str) else len);
          extra = width - len'
      in andThen (if 0 < sint extra \<and> \<not> leftadjust then pad x y extra padchar con else Inr (x, con)) (\<lambda>(x1, con1).
         andThen (if placed x1 y then andThen (c_puts_at x1 y str con1) (\<lambda>c. Inr (x1 + len', c))
                  else andThen (c_puts str con1) (\<lambda>c. Inr (x1, c))) (\<lambda>(x2, con2).
         if 0 < sint extra \<and> leftadjust then pad x2 y extra padchar con2 else Inr (x2, con2))))"

section \<open>Reading the format\<close>

type_synonym fmt_ptr = "u8 list option"

fun next_char :: "fmt_ptr \<Rightarrow> (u8 \<times> fmt_ptr) outcome" where
  "next_char None = Inl (Fault ''__c_do_printf: read behind the format'')"
| "next_char (Some []) = Inr (0, None)"
| "next_char (Some (c # cs)) = Inr (c, Some cs)"

text \<open>The loop \<^verbatim>\<open>while( ch >= '0' && ch <= '9' )\<close>, with the character in hand.\<close>

fun fmt_width :: "u32 \<Rightarrow> u8 \<Rightarrow> u8 list \<Rightarrow> u32 \<times> u8 \<times> fmt_ptr" where
  "fmt_width width ch [] =
     (if 0x30 \<le> ch \<and> ch \<le> 0x39 then (width * 10 + (ucast ch - 0x30), 0, None) else (width, ch, Some []))"
| "fmt_width width ch (c # cs) =
     (if 0x30 \<le> ch \<and> ch \<le> 0x39 then fmt_width (width * 10 + (ucast ch - 0x30)) c cs
      else (width, ch, Some (c # cs)))"

definition fmt_number :: "u8 \<Rightarrow> fmt_ptr \<Rightarrow> (u32 \<times> u8 \<times> fmt_ptr) outcome" where
  "fmt_number ch p =
     (case p of
        None \<Rightarrow> if 0x30 \<le> ch \<and> ch \<le> 0x39 then Inl (Fault ''__c_do_printf: read behind the format'')
                else Inr (0, ch, None)
      | Some cs \<Rightarrow> Inr (fmt_width 0 ch cs))"

text \<open>The options of a conversion: adjustment, padding, width, the type and the rest.\<close>

definition fmt_options :: "fmt_ptr \<Rightarrow> (bool \<times> u32 \<times> u32 \<times> u8 \<times> fmt_ptr) outcome" where
  "fmt_options p =
     andThen (next_char p) (\<lambda>(ch, p1).
     andThen (if ch = 0x2D then next_char p1 else Inr (ch, p1)) (\<lambda>(ch1, p2).
     andThen (if ch1 = 0x30 then next_char p2 else Inr (ch1, p2)) (\<lambda>(ch2, p3).
     andThen (fmt_number ch2 p3) (\<lambda>(width, ch3, p4).
       Inr (ch = 0x2D, if ch1 = 0x30 then 0x30 else 0x20, width, ch3, p4)))))"

text \<open>The terminator has no successor in the list, so a read moves the pointer on.\<close>

definition fmt_left :: "fmt_ptr \<Rightarrow> nat" where
  "fmt_left p = (case p of None \<Rightarrow> 0 | Some cs \<Rightarrow> Suc (length cs))"

lemma next_char_left: "next_char p = Inr (c, p') \<Longrightarrow> fmt_left p' < fmt_left p"
  by (cases p rule: next_char.cases) (auto simp: fmt_left_def)

lemma fmt_width_left: "fmt_width w ch cs = (w', ch', p') \<Longrightarrow> fmt_left p' \<le> Suc (length cs)"
  by (induction w ch cs rule: fmt_width.induct) (auto simp: fmt_left_def split: if_splits)

lemma fmt_number_left: "fmt_number ch p = Inr (w, ch', p') \<Longrightarrow> fmt_left p' \<le> fmt_left p"
  using fmt_width_left by (auto simp: fmt_number_def fmt_left_def split: option.splits if_splits) (force simp: fmt_left_def)

lemma fmt_options_left: "fmt_options p = Inr (l, pc, w, ch, p') \<Longrightarrow> fmt_left p' < fmt_left p"
  by (auto simp: fmt_options_def andThen_eq_Inr split: if_splits dest!: next_char_left fmt_number_left)

section \<open>The printf family\<close>

lemma andThen_cong [fundef_cong]:
  "x = y \<Longrightarrow> (\<And>v. y = Inr v \<Longrightarrow> f v = g v) \<Longrightarrow> andThen x f = andThen y g"
  by (cases y) simp_all

text \<open>
  One conversion: the place and the console afterwards, and how many arguments were taken.
  The string of \<^verbatim>\<open>%c\<close> is one byte; a null byte ends it.
\<close>

definition fmt_convert ::
  "(u32 \<Rightarrow> u8 list) \<Rightarrow> u8 \<Rightarrow> u32 \<Rightarrow> bool \<Rightarrow> u32 \<Rightarrow> u32 \<Rightarrow> u32 \<Rightarrow> u32 \<Rightarrow> console \<Rightarrow> (u32 \<times> nat \<times> console) outcome" where
  "fmt_convert strings ch arg left padchar width x y con =
     (let put = (\<lambda>str len. andThen (padstr x y str len width left padchar con) (\<lambda>(x', c). Inr (x', 1, c)))
      in if ch = 0x63 then put (if (ucast arg :: u8) = 0 then [] else [ucast arg]) 1
         else if ch = 0x64 then put (cvtdec arg) (of_nat (length (cvtdec arg)))
         else if ch = 0x73 then put (strings arg) (- 1)
         else if ch = 0x78 then put (cvthex arg) (of_nat (length (cvthex arg)))
         else if ch = 0x6F then put (cvtoct arg) (of_nat (length (cvtoct arg)))
         else Inr (x, 0, con))"

text \<open>A character outside conversions, at a place: the new place.\<close>

definition fmt_literal :: "u8 \<Rightarrow> u32 \<Rightarrow> u32 \<Rightarrow> console \<Rightarrow> (u32 \<times> u32 \<times> console) outcome" where
  "fmt_literal ch x y con =
     (if placed x y then
        andThen (c_putchar_at x y (scast ch) con) (\<lambda>c.
          Inr (if ch = 0x0A then (scroll_min_x c, y + 1, c)
               else if ch = 0x0D then (scroll_min_x c, y, c) else (x + 1, y, c)))
      else andThen (c_putchar (scast ch) con) (\<lambda>c. Inr (x, y, c)))"

function do_printf ::
  "(u32 \<Rightarrow> u8 list) \<Rightarrow> (nat \<Rightarrow> u32) \<Rightarrow> u32 \<Rightarrow> u32 \<Rightarrow> fmt_ptr \<Rightarrow> nat \<Rightarrow> console \<Rightarrow> console outcome" where
  "do_printf strings args x y p ap con =
     andThen (next_char p) (\<lambda>(ch, p1).
       if ch = 0 then Inr con
       else if ch = 0x25 then
         andThen (fmt_options p1) (\<lambda>(left, padchar, width, ty, p2).
           andThen (fmt_convert strings ty (args ap) left padchar width x y con) (\<lambda>(x', n, con').
             do_printf strings args x' y p2 (ap + n) con'))
       else andThen (fmt_literal ch x y con) (\<lambda>(x', y', con').
         do_printf strings args x' y' p1 ap con'))"
  by auto

termination
  by (relation "measure (\<lambda>(_, _, _, _, p, _, _). fmt_left p)")
    (auto dest!: next_char_left fmt_options_left)

declare do_printf.simps [simp del]

definition c_printf_at ::
  "(u32 \<Rightarrow> u8 list) \<Rightarrow> u32 \<Rightarrow> u32 \<Rightarrow> u8 list \<Rightarrow> (nat \<Rightarrow> u32) \<Rightarrow> console \<Rightarrow> console outcome" where
  "c_printf_at strings x y fmt args con = do_printf strings args x y (Some fmt) 0 con"

definition c_printf :: "(u32 \<Rightarrow> u8 list) \<Rightarrow> u8 list \<Rightarrow> (nat \<Rightarrow> u32) \<Rightarrow> console \<Rightarrow> console outcome" where
  "c_printf strings fmt args con = do_printf strings args (- 1) (- 1) (Some fmt) 0 con"

end
