(* ===== verification/Keyboard.thy ===== *)
theory Keyboard
  imports Screens Printf
begin

text \<open>
  The input side of the console, \<^verbatim>\<open>kernel/c_io.c\<close>: scan codes from the keyboard go to the
  ring buffer of the active screen, and a process reads the ring of its own screen.  A
  pointer into a ring is its offset, or \<open>None\<close> for the null pointer of a screen that was
  never opened.
\<close>

section \<open>Scan codes\<close>

definition scan_code :: "u8 list list" where
  "scan_code = [
     [
      0xFF, 0x1B, 0x31, 0x32, 0x33, 0x34, 0x35, 0x36, 0x37, 0x38, 0x39, 0x30, 0x2D, 0x3D, 0x08, 0x09,
      0x71, 0x77, 0x65, 0x72, 0x74, 0x79, 0x75, 0x69, 0x6F, 0x70, 0x5B, 0x5D, 0x0A, 0xFF, 0x61, 0x73,
      0x64, 0x66, 0x67, 0x68, 0x6A, 0x6B, 0x6C, 0x3B, 0x27, 0x60, 0xFF, 0x5C, 0x7A, 0x78, 0x63, 0x76,
      0x62, 0x6E, 0x6D, 0x2C, 0x2E, 0x2F, 0xFF, 0x2A, 0xFF, 0x20, 0xFF, 0xFF, 0xFF, 0xFF, 0xFF, 0xFF,
      0xFF, 0xFF, 0xFF, 0xFF, 0xFF, 0xFF, 0xFF, 0x37, 0x38, 0x39, 0x2D, 0x34, 0x35, 0x36, 0x2B, 0x31,
      0x32, 0x33, 0x30, 0x2E, 0xFF, 0xFF, 0xFF, 0xFF, 0xFF, 0xFF, 0xFF, 0xFF, 0xFF, 0xFF, 0xFF, 0xFF,
      0xFF, 0xFF, 0xFF, 0xFF, 0xFF, 0xFF, 0xFF, 0xFF, 0xFF, 0xFF, 0xFF, 0xFF, 0xFF, 0xFF, 0xFF, 0xFF,
      0xFF, 0xFF, 0xFF, 0xFF, 0xFF, 0xFF, 0xFF, 0xFF, 0xFF, 0xFF, 0xFF, 0xFF, 0xFF, 0xFF, 0xFF, 0xFF],
     [
      0xFF, 0x1B, 0x21, 0x40, 0x23, 0x24, 0x25, 0x5E, 0x26, 0x2A, 0x28, 0x29, 0x5F, 0x2B, 0x08, 0x09,
      0x51, 0x57, 0x45, 0x52, 0x54, 0x59, 0x55, 0x49, 0x4F, 0x50, 0x7B, 0x7D, 0x0A, 0xFF, 0x41, 0x53,
      0x44, 0x46, 0x47, 0x48, 0x4A, 0x4B, 0x4C, 0x3A, 0x22, 0x7E, 0xFF, 0x7C, 0x5A, 0x58, 0x43, 0x56,
      0x42, 0x4E, 0x4D, 0x3C, 0x3E, 0x3F, 0xFF, 0x2A, 0xFF, 0x20, 0xFF, 0xFF, 0xFF, 0xFF, 0xFF, 0xFF,
      0xFF, 0xFF, 0xFF, 0xFF, 0xFF, 0xFF, 0xFF, 0x37, 0x38, 0x39, 0x2D, 0x34, 0x35, 0x36, 0x2B, 0x31,
      0x32, 0x33, 0x30, 0x2E, 0xFF, 0xFF, 0xFF, 0xFF, 0xFF, 0xFF, 0xFF, 0xFF, 0xFF, 0xFF, 0xFF, 0xFF,
      0xFF, 0xFF, 0xFF, 0xFF, 0xFF, 0xFF, 0xFF, 0xFF, 0xFF, 0xFF, 0xFF, 0xFF, 0xFF, 0xFF, 0xFF, 0xFF,
      0xFF, 0xFF, 0xFF, 0xFF, 0xFF, 0xFF, 0xFF, 0xFF, 0xFF, 0xFF, 0xFF, 0xFF, 0xFF, 0xFF, 0xFF, 0xFF]]"

section \<open>State\<close>

definition C_BUFSIZE :: nat where
  "C_BUFSIZE = 200"

text \<open>The static variables \<^verbatim>\<open>shift\<close> and \<^verbatim>\<open>ctrl_mask\<close>, the screens, and the console for the echo.\<close>

record terminal =
  t_shift :: nat
  t_ctrl_mask :: u32
  t_screens :: screens
  t_console :: console

definition kb_buf :: "terminal \<Rightarrow> nat \<Rightarrow> input_buffer" where
  "kb_buf t i = scr_kb (screen_tab (t_screens t) i)"

definition set_kb_buf :: "nat \<Rightarrow> input_buffer \<Rightarrow> terminal \<Rightarrow> terminal" where
  "set_kb_buf i b t =
     t\<lparr>t_screens := (t_screens t)\<lparr>screen_tab :=
        (screen_tab (t_screens t))(i := (screen_tab (t_screens t) i)\<lparr>scr_kb := b\<rparr>)\<rparr>\<rparr>"

section \<open>The interrupt side\<close>

definition c_increment :: "nat \<Rightarrow> nat" where
  "c_increment p = (if C_BUFSIZE \<le> p + 1 then 0 else p + 1)"

text \<open>
  A translated code is stored when there is room.  It is compared with \<^verbatim>\<open>'\377'\<close>, which is
  negative as a character, while the code is not.
\<close>

definition kb_store :: "u8 \<Rightarrow> terminal \<Rightarrow> terminal outcome" where
  "kb_store code t =
     (if (ucast code :: u32) \<noteq> scast (0xFF :: u8) then
        let i = unat (active_screen (t_screens t)); b = kb_buf t i
        in case ib_next_space b of
             None \<Rightarrow> Inl (Fault ''__c_input_scan_code: null buffer'')
           | Some sp \<Rightarrow>
               let next = c_increment sp
               in Inr (if Some next \<noteq> ib_next_char b then
                         set_kb_buf i (b\<lparr>ib_buffer := (ib_buffer b)(sp := ucast (ucast code AND t_ctrl_mask t)),
                                         ib_next_space := Some next\<rparr>) t
                       else t)
      else Inr t)"

definition input_scan_code :: "u32 \<Rightarrow> terminal \<Rightarrow> terminal outcome" where
  "input_scan_code c t =
     (let code = c AND 0xff
      in if code = 0x2a \<or> code = 0x36 then Inr (t\<lparr>t_shift := 1\<rparr>)
         else if code = 0xaa \<or> code = 0xb6 then Inr (t\<lparr>t_shift := 0\<rparr>)
         else if code = 0x1d then Inr (t\<lparr>t_ctrl_mask := 0x1f\<rparr>)
         else if code = 0x9d then Inr (t\<lparr>t_ctrl_mask := 0xff\<rparr>)
         else if code AND 0x80 = 0 then kb_store (scan_code ! t_shift t ! unat code) t
         else Inr t)"

text \<open>The handler reads the code from the keyboard's port and acknowledges the interrupt.\<close>

definition keyboard_isr :: "u8 \<Rightarrow> terminal \<Rightarrow> terminal outcome" where
  "keyboard_isr data t =
     andThen (input_scan_code (ucast data) t) (\<lambda>t1.
       Inr (t1\<lparr>t_console := con_outb 0x20 0x20 (t_console t1)\<rparr>))"

section \<open>The reading side\<close>

text \<open>
  A reader waits for its ring to have a character; the list has the codes of the keyboard
  interrupts that happen while it waits.  When there are none, it waits forever.
\<close>

fun wait_input :: "u8 list \<Rightarrow> nat \<Rightarrow> terminal \<Rightarrow> (u8 list \<times> terminal) outcome" where
  "wait_input codes i t =
     (if ib_next_char (kb_buf t i) \<noteq> ib_next_space (kb_buf t i) then Inr (codes, t)
      else case codes of
        [] \<Rightarrow> Inl Diverges
      | c # cs \<Rightarrow> andThen (keyboard_isr c t) (wait_input cs i))"

abbreviation EOT :: u8 where "EOT \<equiv> 4"

definition c_getchar :: "u8 list \<Rightarrow> nat \<Rightarrow> terminal \<Rightarrow> (u8 \<times> u8 list \<times> terminal) outcome" where
  "c_getchar codes i t =
     andThen (wait_input codes i t) (\<lambda>(codes', t1).
       case ib_next_char (kb_buf t1 i) of
         None \<Rightarrow> Inl (Fault ''c_getchar: null buffer'')
       | Some p \<Rightarrow>
           let c = ib_buffer (kb_buf t1 i) p;
               t2 = set_kb_buf i ((kb_buf t1 i)\<lparr>ib_next_char := Some (c_increment p)\<rparr>) t1
           in if c \<noteq> EOT then
                andThen (c_putchar (scast c) (t_console t2)) (\<lambda>con. Inr (c, codes', t2\<lparr>t_console := con\<rparr>))
              else Inr (c, codes', t2))"

text \<open>The characters that are stored, before the terminator; their number is the result.\<close>

fun gets_loop :: "nat \<Rightarrow> u8 list \<Rightarrow> nat \<Rightarrow> terminal \<Rightarrow> (u8 list \<times> u8 list \<times> terminal) outcome" where
  "gets_loop 0 codes i t = Inr ([], codes, t)"
| "gets_loop (Suc n) codes i t =
     andThen (c_getchar codes i t) (\<lambda>(ch, codes', t').
       if ch = EOT then Inr ([], codes', t')
       else if ch = 0x0A then Inr ([ch], codes', t')
       else andThen (gets_loop n codes' i t') (\<lambda>(s, r). Inr (ch # s, r)))"

definition c_gets :: "u8 list \<Rightarrow> u32 \<Rightarrow> nat \<Rightarrow> terminal \<Rightarrow> (u8 list \<times> u8 list \<times> terminal) outcome" where
  "c_gets codes n i t = gets_loop (unat n - 1) codes i t"

definition c_input_queue :: "nat \<Rightarrow> terminal \<Rightarrow> int outcome" where
  "c_input_queue i t =
     (case (ib_next_space (kb_buf t i), ib_next_char (kb_buf t i)) of
        (Some s, Some c) \<Rightarrow>
          Inr (let n = int s - int c in if n < 0 then n + int C_BUFSIZE else n)
      | (None, None) \<Rightarrow> Inr 0
      | _ \<Rightarrow> Inl (Fault ''c_input_queue: null pointer''))"

end
