(* ===== verification/Mouse.thy ===== *)
theory Mouse
  imports Screens Ide
begin

text \<open>
  The mouse driver, \<^verbatim>\<open>drivers/mouse/mouse.c\<close>: the interrupt handler puts each byte of the
  mouse into the ring buffer of the active screen, a process takes them from the ring of its
  own screen; the decoding of packets; and the conversation with the controller, on hardware
  as in the theory \<open>Ide\<close>.
\<close>

section \<open>The ring\<close>

text \<open>The ports of the interrupt controller are a log beside the screens.\<close>

definition mouse_buf :: "screens \<Rightarrow> nat \<Rightarrow> input_buffer" where
  "mouse_buf s i = scr_mouse (screen_tab s i)"

definition set_mouse_buf :: "nat \<Rightarrow> input_buffer \<Rightarrow> screens \<Rightarrow> screens" where
  "set_mouse_buf i b s = s\<lparr>screen_tab := (screen_tab s)(i := (screen_tab s i)\<lparr>scr_mouse := b\<rparr>)\<rparr>"

text \<open>\<^verbatim>\<open>if( ++p >= buffer + BUFSIZE ) p = buffer\<close>\<close>

definition mouse_next :: "nat \<Rightarrow> nat" where
  "mouse_next p = (if BUFSIZE \<le> p + 1 then 0 else p + 1)"

definition isr_mouse :: "u8 \<Rightarrow> screens \<Rightarrow> (screens \<times> (u16 \<times> u8) list) outcome" where
  "isr_mouse packet s =
     (let i = unat (active_screen s); b = mouse_buf s i
      in case ib_next_space b of
           None \<Rightarrow> Inl (Fault ''_isr_mouse: null buffer'')
         | Some sp \<Rightarrow>
             Inr (set_mouse_buf i (b\<lparr>ib_buffer := (ib_buffer b)(sp := packet), ib_next_space := Some (mouse_next sp)\<rparr>) s,
                  [(0x20, 0x20), (0xA0, 0x20)]))"

text \<open>A reader waits while its ring is empty; the list has the packets that arrive meanwhile.\<close>

fun wait_mouse :: "u8 list \<Rightarrow> nat \<Rightarrow> screens \<Rightarrow> (u8 list \<times> screens) outcome" where
  "wait_mouse packets i s =
     (if ib_next_char (mouse_buf s i) \<noteq> ib_next_space (mouse_buf s i) then Inr (packets, s)
      else case packets of
        [] \<Rightarrow> Inl Diverges
      | p # ps \<Rightarrow> andThen (isr_mouse p s) (\<lambda>(s', _). wait_mouse ps i s'))"

definition get_mouse :: "u8 list \<Rightarrow> nat \<Rightarrow> screens \<Rightarrow> (u8 \<times> u8 list \<times> screens) outcome" where
  "get_mouse packets i s =
     andThen (wait_mouse packets i s) (\<lambda>(packets', s1).
       case ib_next_char (mouse_buf s1 i) of
         None \<Rightarrow> Inl (Fault ''get_mouse: null buffer'')
       | Some p \<Rightarrow>
           Inr (ib_buffer (mouse_buf s1 i) p, packets',
                set_mouse_buf i ((mouse_buf s1 i)\<lparr>ib_next_char := Some (mouse_next p)\<rparr>) s1))"

definition clear_mouse :: "nat \<Rightarrow> screens \<Rightarrow> screens" where
  "clear_mouse i s = set_mouse_buf i ((mouse_buf s i)\<lparr>ib_next_char := ib_next_space (mouse_buf s i)\<rparr>) s"

definition size_mouse :: "nat \<Rightarrow> screens \<Rightarrow> int outcome" where
  "size_mouse i s =
     (case (ib_next_char (mouse_buf s i), ib_next_space (mouse_buf s i)) of
        (Some c, Some sp) \<Rightarrow> Inr (let offset = int c - int sp in if offset \<ge> 0 then offset else int BUFSIZE + offset)
      | (None, None) \<Rightarrow> Inr 0
      | _ \<Rightarrow> Inl (Fault ''size_mouse: null pointer''))"

section \<open>Packets\<close>

definition get_x_offset :: "u8 \<Rightarrow> u8 \<Rightarrow> u32" where
  "get_x_offset packet1 packetpos =
     (if packet1 AND 0x40 = 0 then
        if packet1 AND 0x10 \<noteq> 0 then 0xFFFFFF00 OR ucast packetpos else ucast packetpos
      else 0)"

definition get_y_offset :: "u8 \<Rightarrow> u8 \<Rightarrow> u32" where
  "get_y_offset packet1 packetpos =
     (if packet1 AND 0x80 = 0 then
        if packet1 AND 0x20 \<noteq> 0 then 0xFFFFFF00 OR ucast packetpos else ucast packetpos
      else 0)"

definition get_z_offset :: "u8 \<Rightarrow> u8 \<Rightarrow> u32" where
  "get_z_offset packet1 packetpos =
     (if packetpos = 0xFF then - 1 else if packetpos \<noteq> 0 then 1 else 0)"

section \<open>The controller\<close>

abbreviation MOUSE_CMD_PORT :: u16 where "MOUSE_CMD_PORT \<equiv> 0x60"
abbreviation MOUSE_DATA_PORT :: u16 where "MOUSE_DATA_PORT \<equiv> 0x64"
abbreviation MOUSE_CMD_WRITE_TO_MOUSE :: u8 where "MOUSE_CMD_WRITE_TO_MOUSE \<equiv> 0xD4"

text \<open>The two loops of \<^verbatim>\<open>mouse_wait\<close>; they may wait forever.\<close>

partial_function (option) mouse_wait_read :: "'h ports \<Rightarrow> 'h \<Rightarrow> 'h option" where
  "mouse_wait_read P h =
     (case p_inb P MOUSE_DATA_PORT h of (v, h') \<Rightarrow>
        if v AND 1 \<noteq> 1 then mouse_wait_read P h' else Some h')"

partial_function (option) mouse_wait_write :: "'h ports \<Rightarrow> 'h \<Rightarrow> 'h option" where
  "mouse_wait_write P h =
     (case p_inb P MOUSE_DATA_PORT h of (v, h') \<Rightarrow>
        if v AND 2 \<noteq> 0 then mouse_wait_write P h' else Some h')"

definition mouse_out :: "'h ports \<Rightarrow> u16 \<Rightarrow> u8 \<Rightarrow> 'h \<Rightarrow> 'h option" where
  "mouse_out P port v h = map_option (p_outb P port v) (mouse_wait_write P h)"

definition mouse_read :: "'h ports \<Rightarrow> 'h \<Rightarrow> (u8 \<times> 'h) option" where
  "mouse_read P h = map_option (p_inb P MOUSE_CMD_PORT) (mouse_wait_read P h)"

text \<open>Reading answers until the one that is waited for.\<close>

partial_function (option) mouse_await :: "'h ports \<Rightarrow> u8 \<Rightarrow> 'h \<Rightarrow> 'h option" where
  "mouse_await P answer h =
     (case mouse_wait_read P h of
        None \<Rightarrow> None
      | Some h1 \<Rightarrow> (case p_inb P MOUSE_CMD_PORT h1 of (ch, h2) \<Rightarrow>
          if ch \<noteq> answer then mouse_await P answer h2 else Some h2))"

definition mouse_write :: "'h ports \<Rightarrow> u8 \<Rightarrow> 'h \<Rightarrow> 'h option" where
  "mouse_write P v h =
     Option.bind (mouse_out P MOUSE_DATA_PORT MOUSE_CMD_WRITE_TO_MOUSE h) (\<lambda>h1.
       Option.bind (mouse_out P MOUSE_CMD_PORT v h1) (mouse_await P 0xFA))"

fun mouse_writes :: "'h ports \<Rightarrow> u8 list \<Rightarrow> 'h \<Rightarrow> 'h option" where
  "mouse_writes P [] h = Some h"
| "mouse_writes P (v # vs) h = Option.bind (mouse_write P v h) (mouse_writes P vs)"

text \<open>The handler is installed by \<open>install\<close>.\<close>

definition mouse_init :: "'h ports \<Rightarrow> ('h \<Rightarrow> 'h) \<Rightarrow> 'h \<Rightarrow> 'h option" where
  "mouse_init P install h =
     Option.bind (mouse_out P MOUSE_DATA_PORT 0xA8 (install h)) (\<lambda>h1.
     Option.bind (mouse_out P MOUSE_DATA_PORT MOUSE_CMD_WRITE_TO_MOUSE h1) (\<lambda>h2.
     Option.bind (mouse_out P MOUSE_CMD_PORT 0xFF h2) (\<lambda>h3.
     Option.bind (mouse_await P 0xAA h3) (\<lambda>h4.
     Option.bind (mouse_out P MOUSE_DATA_PORT 0x20 h4) (\<lambda>h5.
     Option.bind (mouse_read P h5) (\<lambda>(status_byte, h6).
     Option.bind (mouse_out P MOUSE_DATA_PORT 0x60 h6) (\<lambda>h7.
     Option.bind (mouse_out P MOUSE_CMD_PORT (status_byte OR 2) h7)
       (mouse_writes P [0xF3, 200, 0xF3, 100, 0xF3, 80, 0xF6, 0xF4]))))))))"

end
