(* ===== verification/Console_Numbers.thy ===== *)
theory Console_Numbers
  imports Console
begin

text \<open>
  What the number conversions of the console produce: the digits are read back by the
  functions below.  The decimal and hexadecimal conversions are right for every word; the
  octal one shifts by three places where two are due after the first digit, and so prints
  twice the number.
\<close>

section \<open>Reading digits\<close>

definition digits_value :: "nat \<Rightarrow> u8 list \<Rightarrow> nat" where
  "digits_value b ds =
     foldl (\<lambda>n d. b * n + (if d < 0x3A then unat d - 0x30 else unat d - 0x37)) 0 ds"

definition decimal_value :: "u8 list \<Rightarrow> int" where
  "decimal_value ds =
     (if ds \<noteq> [] \<and> hd ds = 0x2D then - int (digits_value 10 (tl ds)) else int (digits_value 10 ds))"

lemma digits_value_Nil [simp]: "digits_value b [] = 0"
  by (simp add: digits_value_def)

lemma digits_value_snoc:
  "digits_value b (ds @ [d]) = b * digits_value b ds + (if d < 0x3A then unat d - 0x30 else unat d - 0x37)"
  by (simp add: digits_value_def)

section \<open>Decimal\<close>

lemma decimal_digit:
  assumes "n < 10"
  shows "(of_nat n + 0x30 :: u8) < 0x3A" and "unat (of_nat n + 0x30 :: u8) = n + 0x30"
    and "0x30 \<le> (of_nat n + 0x30 :: u8)"
proof -
  have "unat (of_nat n + 0x30 :: u8) = (n + 0x30) mod 256"
    by (simp add: unat_word_ariths unat_of_nat mod_add_left_eq take_bit_eq_mod)
  then show "unat (of_nat n + 0x30 :: u8) = n + 0x30" using assms by simp
  then show "(of_nat n + 0x30 :: u8) < 0x3A" "0x30 \<le> (of_nat n + 0x30 :: u8)"
    using assms by (simp_all add: word_less_nat_alt word_le_nat_alt)
qed

lemma cvtdec0_nonneg:
  assumes "n < 2 ^ 31"
  shows "cvtdec0 (of_nat n) =
    (if n < 10 then [of_nat n + 0x30] else cvtdec0 (of_nat (n div 10)) @ [of_nat (n mod 10) + 0x30])"
proof -
  have s: "sint (of_nat n :: u32) = int n" by (rule sint_of_nat_small [OF assms])
  have q: "trunc_div (of_nat n) 10 = int (n div 10)"
    by (auto simp: trunc_div_def s sgn_if zdiv_int)
  have r: "trunc_rem (of_nat n) 10 = int (n mod 10)"
    by (simp add: trunc_rem_def s q of_nat_mod of_nat_div minus_mult_div_eq_mod)
  have d: "(word_of_int (int (n mod 10) + 0x30) :: u8) = of_nat (n mod 10) + 0x30" by simp
  have c: "(word_of_int (int (n div 10)) :: u32) = of_nat (n div 10)" by simp
  have nn: "\<not> int (n div 10) < 0" "int (n div 10) \<noteq> 0 \<longleftrightarrow> \<not> n < 10" by (simp_all add: div_eq_0_iff)
  have "cvtdec0 (of_nat n) =
      (if \<not> n < 10 then cvtdec0 (of_nat (n div 10)) @ [of_nat (n mod 10) + 0x30] else [of_nat (n mod 10) + 0x30])"
    by (subst cvtdec0.simps) (simp only: q r nn if_False Let_def d c)
  then show ?thesis by (cases "n < 10") simp_all
qed

lemma cvtdec0_digits:
  "n < 2 ^ 31 \<Longrightarrow> digits_value 10 (cvtdec0 (of_nat n)) = n \<and> cvtdec0 (of_nat n) \<noteq> [] \<and>
     (\<forall>d \<in> set (cvtdec0 (of_nat n)). 0x30 \<le> d \<and> d < 0x3A)"
proof (induction n rule: less_induct)
  case (less n)
  show ?case
  proof (cases "n < 10")
    case True
    then show ?thesis
      using decimal_digit [of n] cvtdec0_nonneg [OF less.prems] digits_value_snoc [of 10 "[]"] by simp
  next
    case False
    then have "n div 10 < n" "n div 10 < 2 ^ 31" using less.prems by simp_all
    note IH = less.IH [OF this]
    have "n mod 10 < 10" by simp
    note D = decimal_digit [OF this]
    show ?thesis
      using IH D cvtdec0_nonneg [OF less.prems] False by (simp add: digits_value_snoc)
  qed
qed

lemma cvtdec0_length: "n < 2 ^ 31 \<Longrightarrow> n < 10 ^ Suc k \<Longrightarrow> length (cvtdec0 (of_nat n)) \<le> Suc k"
proof (induction k arbitrary: n)
  case 0
  then show ?case by (simp add: cvtdec0_nonneg)
next
  case (Suc k)
  show ?case
  proof (cases "n < 10")
    case True
    then show ?thesis using Suc.prems(1) by (simp add: cvtdec0_nonneg)
  next
    case False
    have "n div 10 < 2 ^ 31" "n div 10 < 10 ^ Suc k" using Suc.prems by simp_all
    from Suc.IH [OF this] show ?thesis using Suc.prems(1) False by (simp add: cvtdec0_nonneg)
  qed
qed

text \<open>The smallest word has no positive counterpart; its last digit is set by hand.\<close>

lemma cvtdec0_min: "cvtdec0 0x80000000 = cvtdec0 (of_nat 214748364) @ [0x38]"
  by (subst cvtdec0.simps) (simp add: trunc_div_def trunc_rem_def Let_def)

lemma cvtdec_min: "cvtdec 0x80000000 = 0x2D # cvtdec0 (of_nat 214748364) @ [0x38]"
proof -
  have "- (0x80000000 :: u32) = 0x80000000" by (rule minus_unique) simp
  moreover have "sint (0x80000000 :: u32) < 0" by simp
  ultimately show ?thesis by (simp only: cvtdec_def if_True cvtdec0_min)
qed

lemma sint_cases:
  fixes v :: u32
  obtains n where "v = of_nat n" "n < 2 ^ 31" "sint v = int n"
    | n where "- v = of_nat n" "n < 2 ^ 31" "sint v = - int n" "sint v < 0"
    | "v = 0x80000000" "sint v = - 2147483648"
proof -
  have b: "- (2 ^ 31) \<le> sint v" "sint v < 2 ^ 31" using sint_ge [of v] sint_lt [of v] by simp_all
  have v: "v = word_of_int (sint v)" by simp
  consider "0 \<le> sint v" | "sint v < 0" "- (2 ^ 31) < sint v" | "sint v = - (2 ^ 31)" using b by linarith
  then show ?thesis
  proof cases
    case 1
    then show ?thesis using that(1) [of "nat (sint v)"] b by (simp add: nat_less_iff)
  next
    case 2
    have "- v = word_of_int (- sint v)" by simp
    then have "- v = of_nat (nat (- sint v))" using 2 by (simp del: word_of_int_minus)
    then show ?thesis using that(2) [of "nat (- sint v)"] 2 by (simp add: nat_less_iff)
  next
    case 3
    have "v = word_of_int (- (2 ^ 31))" using v 3 by metis
    then show ?thesis using that(3) 3 by simp
  qed
qed

lemma cvtdec_value: "decimal_value (cvtdec v) = sint v"
proof (cases v rule: sint_cases)
  case (1 n)
  have "cvtdec0 v \<noteq> []" "hd (cvtdec0 v) \<in> set (cvtdec0 v)" using cvtdec0_digits [OF 1(2)] 1(1) by simp_all
  then have "hd (cvtdec0 v) \<noteq> 0x2D" using cvtdec0_digits [OF 1(2)] 1(1) by fastforce
  then show ?thesis using cvtdec0_digits [OF 1(2)] 1 by (simp add: cvtdec_def decimal_value_def)
next
  case (2 n)
  then show ?thesis using cvtdec0_digits [OF 2(2)] by (simp add: cvtdec_def decimal_value_def)
next
  case 3
  then show ?thesis
    using cvtdec0_digits [of 214748364] unfolding 3(1) cvtdec_min decimal_value_def by (simp add: digits_value_snoc)
qed

lemma cvtdec_length: "length (cvtdec v) \<le> 11"
proof (cases v rule: sint_cases)
  case (1 n)
  then show ?thesis using cvtdec0_length [of n 9] by (simp add: cvtdec_def)
next
  case (2 n)
  then show ?thesis using cvtdec0_length [of n 9] by (simp add: cvtdec_def)
next
  case 3
  then show ?thesis using cvtdec0_length [of 214748364 8] unfolding 3(1) cvtdec_min by simp
qed

section \<open>Hexadecimal\<close>

definition digit_value :: "u8 \<Rightarrow> nat" where
  "digit_value d = (if d < 0x3A then unat d - 0x30 else unat d - 0x37)"

definition digits_from :: "nat \<Rightarrow> nat \<Rightarrow> u8 list \<Rightarrow> nat" where
  "digits_from b n ds = foldl (\<lambda>n d. b * n + digit_value d) n ds"

lemma digits_from_simps [simp]:
  "digits_from b n [] = n" "digits_from b n (d # ds) = digits_from b (b * n + digit_value d) ds"
  by (simp_all add: digits_from_def)

lemma digits_value_from: "digits_value b ds = digits_from b 0 ds"
  by (simp add: digits_value_def digits_from_def digit_value_def)

lemma hexdigit_value: "k < 16 \<Longrightarrow> digit_value (hexdigits ! k) = k"
proof -
  have "list_all (\<lambda>k. digit_value (hexdigits ! k) = k) [0..<16]" by code_simp
  then have "\<forall>k < 16. digit_value (hexdigits ! k) = k" by (simp add: list_all_iff)
  then show "k < 16 \<Longrightarrow> digit_value (hexdigits ! k) = k" by blast
qed

text \<open>Taking the upper digits of a number apart, \<open>c\<close> being the base.\<close>

lemma split_digits:
  fixes V A B c :: nat
  assumes "0 < A" and "0 < c"
  shows "V div A = (V div (A * B)) * B + (c * (V mod (A * B))) div (c * A)"
proof -
  have "V div A = (V div (A * B) * B * A + V mod (A * B)) div A"
    using div_mult_mod_eq [of V "A * B"] by (simp add: ac_simps)
  also have "\<dots> = V div (A * B) * B + V mod (A * B) div A" using assms(1) by simp
  finally show ?thesis using assms(2) by simp
qed

lemma top_digit:
  fixes v :: u32
  shows "signed_drop_bit 28 (v AND 0xf0000000) AND 0xf = drop_bit 28 v"
    and "signed_drop_bit 29 (v AND 0xe0000000) AND 0x7 = drop_bit 29 v"
    and "v AND 0xf0000000 = 0 \<longleftrightarrow> drop_bit 28 v = 0"
    and "signed_drop_bit 29 (v AND 0xe0000000) = 0 \<longleftrightarrow> drop_bit 29 v = 0"
proof -
  have m: "(0xf0000000 :: u32) = NOT (mask 28)" "(0xe0000000 :: u32) = NOT (mask 29)"
    "(0xf :: u32) = mask 4" "(0x7 :: u32) = mask 3"
    by (simp_all add: mask_eq_exp_minus_1)
  show "signed_drop_bit 28 (v AND 0xf0000000) AND 0xf = drop_bit 28 v"
    "signed_drop_bit 29 (v AND 0xe0000000) AND 0x7 = drop_bit 29 v"
    unfolding m by (rule bit_word_eqI; auto simp: bit_simps dest: bit_imp_le_length)+
  have "drop_bit 28 (v AND NOT (mask 28)) = drop_bit 28 v" "v AND NOT (mask 28) = push_bit 28 (drop_bit 28 v)"
    by (rule bit_word_eqI; auto simp: bit_simps dest: bit_imp_le_length)+
  then show "v AND 0xf0000000 = 0 \<longleftrightarrow> drop_bit 28 v = 0"
    unfolding m by (metis drop_bit_of_0 push_bit_of_0)
  have "signed_drop_bit 29 (v AND NOT (mask 29)) AND mask 3 = drop_bit 29 v"
    "v AND NOT (mask 29) = push_bit 29 (drop_bit 29 v)"
    by (rule bit_word_eqI; auto simp: bit_simps dest: bit_imp_le_length)+
  then show "signed_drop_bit 29 (v AND 0xe0000000) = 0 \<longleftrightarrow> drop_bit 29 v = 0"
    unfolding m by (metis push_bit_of_0 signed_drop_bit_of_0 and_zero_eq zero_and_eq)
qed

lemma unat_push: "unat (push_bit k v :: u32) = 2 ^ k * unat v mod 2 ^ 32"
  by (simp only: unsigned_push_bit_eq) (simp add: take_bit_eq_mod push_bit_eq_mult mult.commute)

lemma unat_drop: "unat (drop_bit k v :: u32) = unat v div 2 ^ k"
  by (simp only: unat_drop_bit_eq) (simp add: drop_bit_eq_div)

lemma push_mod: "k \<le> 32 \<Longrightarrow> unat (push_bit k v :: u32) = 2 ^ k * (unat v mod 2 ^ (32 - k))"
proof -
  assume k: "k \<le> 32"
  have "2 ^ k * (unat v mod 2 ^ (32 - k)) = 2 ^ k * unat v mod (2 ^ k * 2 ^ (32 - k))" by (rule mult_mod_right)
  moreover have "(2 :: nat) ^ k * 2 ^ (32 - k) = 2 ^ 32" using k by (simp only: power_add [symmetric] le_add_diff_inverse)
  ultimately show ?thesis by (simp only: unat_push)
qed

lemma cvthex_loop_value:
  "n \<le> 8 \<Longrightarrow> stored \<or> acc = 0 \<Longrightarrow>
   digits_from 16 acc (cvthex_loop n stored v) = acc * 16 ^ n + unat v div 2 ^ (32 - 4 * n)"
proof (induction n arbitrary: stored acc v)
  case 0
  have "unat v < 2 ^ 32" using unsigned_less [of v, where ?'a = nat] by simp
  then show ?case by simp
next
  case (Suc n)
  let ?d = "unat (drop_bit 28 v)" and ?w = "push_bit 4 v"
  have d: "?d = unat v div 2 ^ 28" by (rule unat_drop)
  have "unat v < 2 ^ 32" using unsigned_less [of v, where ?'a = nat] by simp
  then have d16: "?d < 16" unfolding d by (simp add: less_mult_imp_div_less)
  define m where "m = 28 - 4 * n"
  have mn: "m + 4 * n = 28" "32 - 4 * n = m + 4" "32 - 4 * Suc n = m" using Suc.prems(1) by (simp_all add: m_def)
  have e: "(2 :: nat) ^ 28 = 2 ^ m * 16 ^ n"
    using mn(1) [symmetric] by (simp only: power_add power_mult) simp
  have "unat v div 2 ^ m = ?d * 16 ^ n + (16 * (unat v mod 2 ^ 28)) div (16 * 2 ^ m)"
    unfolding d e by (rule split_digits) simp_all
  moreover have "unat ?w = 16 * (unat v mod 2 ^ 28)" using push_mod [of 4 v] by simp
  moreover have "(2 :: nat) ^ (m + 4) = 16 * 2 ^ m" by (simp add: power_add)
  ultimately have split: "unat v div 2 ^ m = ?d * 16 ^ n + unat ?w div 2 ^ (m + 4)" by simp
  show ?case
  proof (cases "n = 0 \<or> drop_bit 28 v \<noteq> 0 \<or> stored")
    case True
    have "digits_from 16 acc (cvthex_loop (Suc n) stored v) =
        digits_from 16 (16 * acc + ?d) (cvthex_loop n True ?w)"
      using True d16 by (simp add: Let_def top_digit hexdigit_value)
    also have "\<dots> = (16 * acc + ?d) * 16 ^ n + unat ?w div 2 ^ (32 - 4 * n)"
      using Suc.IH Suc.prems(1) by simp
    finally show ?thesis using split mn by (simp add: algebra_simps)
  next
    case False
    then have "digits_from 16 acc (cvthex_loop (Suc n) stored v) = digits_from 16 acc (cvthex_loop n stored ?w)"
      by (simp add: Let_def top_digit)
    also have "\<dots> = acc * 16 ^ n + unat ?w div 2 ^ (32 - 4 * n)" using Suc by simp
    finally show ?thesis using split mn False Suc.prems(2) by (simp del: cvthex_loop.simps)
  qed
qed

lemma cvthex_value: "digits_value 16 (cvthex v) = unat v"
  using cvthex_loop_value [of 8 False 0 v] by (simp add: digits_value_from cvthex_def)

lemma cvthex_length: "length (cvthex v) \<le> 8"
proof -
  have "length (cvthex_loop n stored v) \<le> n" for n stored v
    by (induction n arbitrary: stored v) (simp_all add: Let_def le_SucI)
  then show ?thesis by (simp add: cvthex_def)
qed

section \<open>Octal\<close>

lemma unat_and_7: "unat (w AND 0x7 :: u32) < 8"
proof -
  have "w AND 0x7 = take_bit 3 w" by (simp add: take_bit_eq_mask mask_eq_exp_minus_1)
  then have "unat (w AND 0x7) = take_bit 3 (unat w)" by (simp only: unsigned_take_bit_eq)
  then show ?thesis by (simp add: take_bit_eq_mod)
qed

lemma cvtoct_loop_value:
  "n \<le> 10 \<Longrightarrow> stored \<or> acc = 0 \<Longrightarrow> val = 0 \<longleftrightarrow> val AND 0x7 = 0 \<Longrightarrow>
   digits_from 8 acc (cvtoct_loop (Suc n) stored val v) =
     (8 * acc + unat (val AND 0x7)) * 8 ^ n + 8 * unat v mod 2 ^ 32 div 2 ^ (32 - 3 * n)"
proof (induction n arbitrary: stored acc val v)
  case 0
  show ?case using unat_and_7 [of val] by (simp add: Let_def hexdigit_value)
next
  case (Suc n)
  let ?w = "push_bit 3 v" and ?t = "unat (val AND 0x7)"
  let ?val = "signed_drop_bit 29 (?w AND 0xe0000000)"
  have t8: "?t < 8" by (rule unat_and_7)
  have V: "unat ?w = 8 * unat v mod 2 ^ 32" using unat_push [of 3 v] by simp
  have val: "?val AND 0x7 = drop_bit 29 ?w" "?val = 0 \<longleftrightarrow> ?val AND 0x7 = 0"
    using top_digit(2,4) [of ?w] by simp_all
  define m where "m = 29 - 3 * n"
  have mn: "m + 3 * n = 29" "32 - 3 * n = m + 3" "32 - 3 * Suc n = m" using Suc.prems(1) by (simp_all add: m_def)
  have e: "(2 :: nat) ^ 29 = 2 ^ m * 8 ^ n" using mn(1) [symmetric] by (simp only: power_add power_mult) simp
  have "unat ?w div 2 ^ m = (unat ?w div 2 ^ 29) * 8 ^ n + (8 * (unat ?w mod 2 ^ 29)) div (8 * 2 ^ m)"
    unfolding e by (rule split_digits) simp_all
  moreover have "8 * (unat ?w mod 2 ^ 29) = 8 * unat ?w mod (8 * 2 ^ 29)" by (rule mult_mod_right)
  moreover have "(2 :: nat) ^ (m + 3) = 8 * 2 ^ m" "(8 :: nat) * 2 ^ 29 = 2 ^ 32" by (simp_all add: power_add)
  ultimately have split:
    "unat ?w div 2 ^ m = unat (?val AND 0x7) * 8 ^ n + 8 * unat ?w mod 2 ^ 32 div 2 ^ (m + 3)"
    unfolding val(1) unat_drop by (simp only:)
  have IH: "digits_from 8 acc' (cvtoct_loop (Suc n) st ?val ?w) =
      8 * acc' * 8 ^ n + unat ?w div 2 ^ m" if "st \<or> acc' = 0" for st acc'
    using Suc.IH [of st acc' ?val ?w] Suc.prems(1) that val(2) split mn by (simp add: algebra_simps)
  show ?case
  proof (cases "val \<noteq> 0 \<or> stored")
    case True
    have "digits_from 8 acc (cvtoct_loop (Suc (Suc n)) stored val v) =
        digits_from 8 (8 * acc + ?t) (cvtoct_loop (Suc n) True ?val ?w)"
      using True t8 hexdigit_value [of ?t] by (subst cvtoct_loop.simps) (simp add: Let_def del: cvtoct_loop.simps)
    then show ?thesis using IH [of True "8 * acc + ?t"] V mn by (simp add: algebra_simps del: cvtoct_loop.simps)
  next
    case False
    then have "digits_from 8 acc (cvtoct_loop (Suc (Suc n)) stored val v) =
        digits_from 8 acc (cvtoct_loop (Suc n) stored ?val ?w)"
      by (subst cvtoct_loop.simps) (simp add: Let_def del: cvtoct_loop.simps)
    then show ?thesis using IH [of stored acc] Suc.prems(2,3) False V mn by (simp del: cvtoct_loop.simps)
  qed
qed

lemma cvtoct_small:
  assumes "unat v < 2 ^ 29"
  shows "digits_value 8 (cvtoct v) = 2 * unat v"
proof -
  have "v AND 0xc0000000 = 0"
  proof -
    have "drop_bit 29 v = 0" using assms unat_drop [of 29 v] by (simp add: unsigned_eq_0_iff)
    then have "\<not> bit v n" if "29 \<le> n" for n 
    proof -
      have "bit v n = bit (drop_bit 29 v) (n - 29)" using that by (simp only: bit_drop_bit_eq comp_apply le_add_diff_inverse)
      then show ?thesis using \<open>drop_bit 29 v = 0\<close> by simp
    qed
    moreover have "(0xc0000000 :: u32) = NOT (mask 30)" by (simp add: mask_eq_exp_minus_1)
    ultimately show ?thesis by (auto simp: bit_eq_iff bit_simps)
  qed
  then have "digits_value 8 (cvtoct v) = digits_from 8 0 (cvtoct_loop (Suc 10) False 0 v)"
    by (simp add: cvtoct_def digits_value_from eval_nat_numeral del: cvtoct_loop.simps)
  also have "\<dots> = 8 * unat v mod 2 ^ 32 div 2 ^ (32 - 3 * 10)"
    by (subst cvtoct_loop_value) simp_all
  finally show ?thesis using assms by simp
qed

end
