(* ===== verification/Console_Screen.thy ===== *)
theory Console_Screen
  imports Printf Console_Numbers
begin

text \<open>
  The console keeps to its screen: the coordinates stay well formed, every operation ends,
  and the video memory changes in the cells of the screen only.
\<close>

section \<open>Drawing\<close>

definition on_screen :: "u32 \<Rightarrow> bool" where
  "on_screen a \<longleftrightarrow> (\<exists>x < 106. \<exists>y < 64. a = VIDEO_ADDR (of_nat x) (of_nat y))"

text \<open>The console differs in cells of the screen only.\<close>

definition draws :: "console \<Rightarrow> console \<Rightarrow> bool" where
  "draws con con' \<longleftrightarrow> (\<exists>v. con' = con\<lparr>con_video := v\<rparr> \<and> (\<forall>a. \<not> on_screen a \<longrightarrow> v a = con_video con a))"

lemma draws_refl [simp]: "draws con con"
  by (auto simp: draws_def intro: exI [of _ "con_video con"])

lemma draws_trans: "draws c1 c2 \<Longrightarrow> draws c2 c3 \<Longrightarrow> draws c1 c3"
  by (auto simp: draws_def)

lemma draws_fold:
  assumes "\<And>x c. x \<in> set xs \<Longrightarrow> draws con c \<Longrightarrow> draws c (f x c)"
  shows "draws con (fold f xs con)"
  using assms
proof (induction xs rule: rev_induct)
  case (snoc x xs)
  then have "draws con (fold f xs con)" by simp
  then show ?case using snoc.prems [of x] by (auto intro: draws_trans)
qed simp

lemma draws_same:
  assumes "draws con c"
  shows "scroll_min_x c = scroll_min_x con" "scroll_min_y c = scroll_min_y con"
    "scroll_max_x c = scroll_max_x con" "scroll_max_y c = scroll_max_y con"
    "curr_x c = curr_x con" "curr_y c = curr_y con" "min_x c = min_x con" "min_y c = min_y con"
    "max_x c = max_x con" "max_y c = max_y con"
  using assms by (auto simp: draws_def)

lemma draws_put_cell: "on_screen a \<Longrightarrow> draws con (put_cell a v con)"
  unfolding draws_def put_cell_def by (rule exI [of _ "(con_video con)(a := v)"]) auto

lemma on_screen_at: "unat x < 106 \<Longrightarrow> unat y < 64 \<Longrightarrow> on_screen (VIDEO_ADDR x y)"
  unfolding on_screen_def by (intro exI [of _ "unat x"] conjI exI [of _ "unat y"]) simp_all

section \<open>Well-formed coordinates\<close>

definition screen_ok :: "console \<Rightarrow> bool" where
  "screen_ok con \<longleftrightarrow>
     min_x con = 0 \<and> min_y con = 0 \<and> max_x con = 105 \<and> max_y con = 63 \<and>
     scroll_min_x con \<le> scroll_max_x con \<and> scroll_max_x con \<le> 105 \<and>
     scroll_min_y con \<le> scroll_max_y con \<and> scroll_max_y con \<le> 63"

definition con_ok :: "console \<Rightarrow> bool" where
  "con_ok con \<longleftrightarrow>
     screen_ok con \<and> scroll_min_x con \<le> curr_x con \<and> curr_x con \<le> scroll_max_x con \<and>
     scroll_min_y con \<le> curr_y con \<and> curr_y con \<le> scroll_max_y con + 1"

lemma draws_con_ok: "draws con c \<Longrightarrow> con_ok c = con_ok con"
  by (simp add: con_ok_def screen_ok_def draws_same)

lemma draws_screen_ok: "draws con c \<Longrightarrow> screen_ok c = screen_ok con"
  by (simp add: screen_ok_def draws_same)

text \<open>A step of the console: it stays well formed and keeps to the screen.\<close>

definition con_step :: "console \<Rightarrow> console \<Rightarrow> bool" where
  "con_step con con' \<longleftrightarrow> con_ok con' \<and> (\<forall>a. \<not> on_screen a \<longrightarrow> con_video con' a = con_video con a)"

lemma con_step_refl: "con_ok con \<Longrightarrow> con_step con con"
  by (simp add: con_step_def)

lemma con_step_trans: "con_step c1 c2 \<Longrightarrow> con_step c2 c3 \<Longrightarrow> con_step c1 c3"
  by (simp add: con_step_def)

lemma con_step_ok: "con_step c1 c2 \<Longrightarrow> con_ok c2"
  by (simp add: con_step_def)

lemma draws_step: "con_ok con \<Longrightarrow> draws con c \<Longrightarrow> con_step con c"
  using draws_con_ok [of con c] by (auto simp: con_step_def draws_def)

lemma setcursor_simps [simp]:
  "con_video (c_setcursor con) = con_video con" "con_ok (c_setcursor con) = con_ok con"
  by (simp_all add: c_setcursor_def con_outb_def Let_def con_ok_def screen_ok_def)

lemma setcursor_step: "con_step con c \<Longrightarrow> con_step con (c_setcursor c)"
  by (simp add: con_step_def)

lemma small_words:
  fixes w :: u32
  shows "unat w < 0x1000 \<Longrightarrow> w \<noteq> - 1" and "unat w < 2 ^ 31 \<Longrightarrow> sint w = int (unat w)"
proof -
  assume "unat w < 0x1000"
  then have "w < 0x1000" by (simp add: word_less_nat_alt)
  then show "w \<noteq> - 1" by auto
qed (use sint_of_nat_small [of "unat w"] in simp)

section \<open>The operations\<close>

lemma putchar_phys_draws: "max_x con = 105 \<Longrightarrow> max_y con = 63 \<Longrightarrow> draws con (phys_putchar_at x y c con)"
  by (auto simp: phys_putchar_at_def word_le_nat_alt intro!: draws_put_cell on_screen_at)

lemma fill_line_draws:
  assumes "max_x con = 105" and "max_y con = 63" and "limit < 0x1000"
  shows "\<exists>c. fill_line x y limit con = Inr c \<and> draws con c"
proof -
  have "limit \<noteq> - 1" using assms(3) by auto
  moreover have "draws con (fold (\<lambda>x. phys_putchar_at (of_nat x) y 0x20) [unat x..<unat limit + 1] con)"
    by (rule draws_fold) (use assms(1,2) in \<open>simp add: putchar_phys_draws draws_same\<close>)
  ultimately show ?thesis by (simp add: fill_line_def)
qed

lemma putchar_at_draws:
  assumes "screen_ok con"
  shows "\<exists>c'. c_putchar_at x y c con = Inr c' \<and> draws con c'"
proof -
  let ?l = "if x > scroll_max_x con then max_x con
     else if x \<ge> scroll_min_x con then scroll_max_x con else scroll_min_x con - 1"
  have "?l < 0x1000"
  proof (cases "x \<le> scroll_max_x con \<and> x < scroll_min_x con")
    case True
    then have "0 < scroll_min_x con" by (metis word_gt_0 not_less_iff_gr_or_eq word_not_simps(1))
    then have "unat (scroll_min_x con - 1) < unat (scroll_min_x con)" by (simp add: unat_minus_one unat_gt_0)
    then show ?thesis using True assms by (auto simp: screen_ok_def word_le_nat_alt word_less_nat_alt)
  next
    case False
    then show ?thesis using assms by (auto simp: screen_ok_def word_le_nat_alt word_less_nat_alt)
  qed
  then show ?thesis
    using assms fill_line_draws [of con ?l x y]
    by (auto simp: c_putchar_at_def screen_ok_def putchar_phys_draws)
qed

text \<open>A run of cells within one line, and the whole screen.\<close>

lemma video_addr_step: "VIDEO_ADDR x y + 2 * of_nat i = VIDEO_ADDR (x + of_nat i) y"
  by (simp add: VIDEO_ADDR_def algebra_simps)

lemma on_screen_run:
  assumes "unat x + i < 106" and "unat y < 64"
  shows "on_screen (VIDEO_ADDR x y + 2 * of_nat i)"
proof -
  have "unat (x + of_nat i) = unat x + i"
    using assms(1) by (simp add: unat_word_ariths unat_of_nat take_bit_nat_eq_self)
  then show ?thesis using assms by (simp only: video_addr_step) (rule on_screen_at, simp_all)
qed

lemma clear_cells_draws:
  "(\<And>i. i < n \<Longrightarrow> on_screen (a + 2 * of_nat i)) \<Longrightarrow> draws con (clear_cells a n con)"
  unfolding clear_cells_def by (rule draws_fold) (simp add: draws_put_cell)

lemma copy_cells_draws:
  "(\<And>i. i < n \<Longrightarrow> on_screen (a + 2 * of_nat i)) \<Longrightarrow> draws con (copy_cells a b n con)"
  unfolding copy_cells_def by (rule draws_fold) (simp add: draws_put_cell)

lemma scroll_width_ok:
  assumes "screen_ok con"
  shows "unat (scroll_width con) = unat (scroll_max_x con) - unat (scroll_min_x con) + 1"
    and "nat (sint (scroll_width con)) = unat (scroll_width con)"
    and "i < unat (scroll_width con) \<Longrightarrow> unat (scroll_min_x con) + i < 106"
proof -
  have b: "unat (scroll_min_x con) \<le> unat (scroll_max_x con)" "unat (scroll_max_x con) \<le> 105"
    using assms by (auto simp: screen_ok_def word_le_nat_alt)
  then have d: "unat (scroll_max_x con - scroll_min_x con) = unat (scroll_max_x con) - unat (scroll_min_x con)"
    by (simp add: unat_sub word_le_nat_alt)
  then show w: "unat (scroll_width con) = unat (scroll_max_x con) - unat (scroll_min_x con) + 1"
    using b by (simp add: scroll_width_def unat_word_ariths)
  have "sint (scroll_width con) = int (unat (scroll_width con))"
    by (rule small_words(2)) (use w b in simp)
  then show "nat (sint (scroll_width con)) = unat (scroll_width con)" by simp
  show "i < unat (scroll_width con) \<Longrightarrow> unat (scroll_min_x con) + i < 106" using w b by simp
qed

lemma line_draws:
  assumes "screen_ok con" and "l < 64"
  shows "draws c (clear_cells (VIDEO_ADDR (scroll_min_x con) (of_nat l)) (unat (scroll_width con)) c)"
    and "draws c (copy_cells (VIDEO_ADDR (scroll_min_x con) (of_nat l)) b (unat (scroll_width con)) c)"
proof -
  have "unat (of_nat l :: u32) < 64" using assms(2) by (simp add: unat_of_nat take_bit_nat_eq_self)
  then have cells: "on_screen (VIDEO_ADDR (scroll_min_x con) (of_nat l) + 2 * of_nat i)"
    if "i < unat (scroll_width con)" for i
    using that scroll_width_ok(3) [OF assms(1)] by (intro on_screen_run) simp_all
  show "draws c (clear_cells (VIDEO_ADDR (scroll_min_x con) (of_nat l)) (unat (scroll_width con)) c)"
    by (rule clear_cells_draws) (rule cells)
  show "draws c (copy_cells (VIDEO_ADDR (scroll_min_x con) (of_nat l)) b (unat (scroll_width con)) c)"
    by (rule copy_cells_draws) (rule cells)
qed

lemma screen_ok_y:
  assumes "screen_ok con"
  shows "scroll_max_y con \<noteq> - 1" and "unat (scroll_max_y con) < 64"
proof -
  show "unat (scroll_max_y con) < 64" using assms by (auto simp: screen_ok_def word_le_nat_alt)
  then show "scroll_max_y con \<noteq> - 1" by (intro small_words(1)) simp
qed

lemma clearscroll_draws:
  assumes "screen_ok con"
  shows "\<exists>c. c_clearscroll con = Inr c \<and> draws con c"
proof -
  have "draws con (fold (\<lambda>l. clear_cells (VIDEO_ADDR (scroll_min_x con) (of_nat l)) (unat (scroll_width con)))
      [unat (scroll_min_y con)..<unat (scroll_max_y con) + 1] con)"
    by (rule draws_fold, rule line_draws) (use assms screen_ok_y [OF assms] in auto)
  then show ?thesis using screen_ok_y [OF assms] by (simp add: c_clearscroll_def)
qed

lemma clearscreen_draws:
  assumes "screen_ok con"
  shows "draws con (c_clearscreen con)"
proof -
  have d: "min_x con = 0" "min_y con = 0" "max_x con = 105" "max_y con = 63"
    using assms by (auto simp: screen_ok_def)
  have "on_screen (VIDEO_ADDR 0 0 + 2 * of_nat i)" if "i < 6784" for i
  proof -
    have "(of_nat i :: u32) = of_nat (i div 106) * 106 + of_nat (i mod 106)"
      by (metis div_mult_mod_eq of_nat_add of_nat_mult of_nat_numeral)
    then have "VIDEO_ADDR 0 0 + 2 * of_nat i = VIDEO_ADDR (of_nat (i mod 106)) (of_nat (i div 106))"
      unfolding VIDEO_ADDR_def by (simp add: algebra_simps)
    then show ?thesis unfolding on_screen_def using that by (intro exI [of _ "i mod 106"] exI [of _ "i div 106"] conjI) auto
  qed
  then show ?thesis by (simp add: c_clearscreen_def d clear_cells_draws)
qed

lemma scroll_region_ok:
  assumes "con_ok con"
  shows "con_ok (con\<lparr>curr_x := scroll_min_x con, curr_y := scroll_min_y con\<rparr>)"
proof -
  have "scroll_min_y con \<le> scroll_max_y con + 1"
    using assms by (auto simp: con_ok_def screen_ok_def word_le_nat_alt unat_word_ariths)
  then show ?thesis using assms by (auto simp: con_ok_def screen_ok_def)
qed

lemma scroll_step:
  assumes "con_ok con"
  shows "\<exists>c. c_scroll lines con = Inr c \<and> con_step con c"
proof -
  have ok: "screen_ok con" using assms by (simp add: con_ok_def)
  show ?thesis
  proof (cases "lines > scroll_max_y con - scroll_min_y con")
    case True
    obtain c where c: "c_clearscroll con = Inr c" "draws con c" using clearscroll_draws [OF ok] by blast
    have "con_ok c" using c(2) assms draws_con_ok by simp
    then have "con_step con (c_setcursor (c\<lparr>curr_x := scroll_min_x c, curr_y := scroll_min_y c\<rparr>))"
      using scroll_region_ok [of c] c(2) by (auto simp: con_step_def draws_def)
    then show ?thesis using True c(1) by (simp add: c_scroll_def Let_def)
  next
    case False
    have y: "unat (scroll_min_y con) \<le> unat (scroll_max_y con)" "unat (scroll_max_y con) < 64"
      using ok screen_ok_y(2) [OF ok] by (auto simp: screen_ok_def word_le_nat_alt)
    let ?last = "scroll_max_y con - lines" and ?w = "unat (scroll_width con)"
    have "unat (scroll_max_y con - scroll_min_y con) = unat (scroll_max_y con) - unat (scroll_min_y con)"
      using y(1) by (simp add: unat_sub word_le_nat_alt)
    then have l: "unat lines \<le> unat (scroll_max_y con) - unat (scroll_min_y con)"
      using False by (simp add: word_le_nat_alt not_less)
    then have last: "unat ?last = unat (scroll_max_y con) - unat lines"
      using y by (simp add: unat_sub word_le_nat_alt)
    then have "unat ?last < 64" using y by simp
    then have n: "?last \<noteq> - 1" by (intro small_words(1)) simp
    let ?f = "\<lambda>l. copy_cells (VIDEO_ADDR (scroll_min_x con) (of_nat l)) (VIDEO_ADDR (scroll_min_x con) (of_nat l + lines)) ?w"
    let ?g = "\<lambda>l. clear_cells (VIDEO_ADDR (scroll_min_x con) (of_nat l)) ?w"
    let ?c1 = "fold ?f [unat (scroll_min_y con)..<unat ?last + 1] con"
    let ?c2 = "fold ?g [max (unat (scroll_min_y con)) (unat ?last + 1)..<unat (scroll_max_y con) + 1] ?c1"
    have "draws con ?c1"
      by (rule draws_fold, rule line_draws) (use ok \<open>unat ?last < 64\<close> in auto)
    moreover have "draws ?c1 ?c2" by (rule draws_fold, rule line_draws) (use ok y(2) in auto)
    ultimately have "draws con ?c2" by (rule draws_trans)
    then have "con_step con ?c2" by (rule draws_step [OF assms])
    then show ?thesis
      using False n screen_ok_y(1) [OF ok] scroll_width_ok(2) [OF ok] by (simp add: c_scroll_def Let_def)
  qed
qed

lemma con_okD:
  assumes "con_ok con"
  shows "screen_ok con" "max_x con = 105" "max_y con = 63" "unat (scroll_max_x con) < 106"
    "unat (scroll_max_y con) < 64" "unat (scroll_min_x con) \<le> unat (curr_x con)"
    "unat (curr_x con) \<le> unat (scroll_max_x con)" "unat (scroll_min_y con) \<le> unat (curr_y con)"
    "unat (curr_y con) \<le> unat (scroll_max_y con) + 1" "unat (scroll_min_x con) \<le> unat (scroll_max_x con)"
    "unat (scroll_min_y con) \<le> unat (scroll_max_y con)"
  using assms by (auto simp: con_ok_def screen_ok_def word_le_nat_alt unat_word_ariths)

lemma con_okI:
  assumes "screen_ok con" and "unat (scroll_min_x con) \<le> unat (curr_x con)"
    and "unat (curr_x con) \<le> unat (scroll_max_x con)" and "unat (scroll_min_y con) \<le> unat (curr_y con)"
    and "unat (curr_y con) \<le> unat (scroll_max_y con) + 1"
  shows "con_ok con"
  using assms by (auto simp: con_ok_def screen_ok_def word_le_nat_alt unat_word_ariths)

lemma unat_suc: "unat (w :: u32) < 0x1000 \<Longrightarrow> unat (w + 1) = unat w + 1"
  by (simp add: unat_word_ariths)

lemma putchar_scrolled:
  assumes "con_ok con"
  shows "\<exists>c. (if curr_y con > scroll_max_y con then
        andThen (c_scroll (curr_y con - scroll_max_y con) con) (\<lambda>c1. Inr (c1\<lparr>curr_y := scroll_max_y c1\<rparr>))
      else Inr con) = Inr c \<and> con_step con c \<and> unat (curr_y c) \<le> unat (scroll_max_y c)"
proof (cases "curr_y con > scroll_max_y con")
  case True
  obtain c where c: "c_scroll (curr_y con - scroll_max_y con) con = Inr c" "con_step con c"
    using scroll_step [OF assms] by blast
  have "con_ok (c\<lparr>curr_y := scroll_max_y c\<rparr>)"
    by (rule con_okI) (use con_okD [OF con_step_ok [OF c(2)]] in \<open>auto simp: screen_ok_def\<close>)
  then have "con_step con (c\<lparr>curr_y := scroll_max_y c\<rparr>)" using c(2) by (simp add: con_step_def)
  then show ?thesis using True c(1) by simp
next
  case False
  then have "unat (curr_y con) \<le> unat (scroll_max_y con)" by (simp add: word_less_nat_alt)
  then show ?thesis using con_step_refl [OF assms] False by simp
qed

lemma putchar_step:
  assumes "con_ok con"
  shows "\<exists>c'. c_putchar ch con = Inr c' \<and> con_step con c'"
proof -
  obtain c1 where c1: "(if curr_y con > scroll_max_y con then
        andThen (c_scroll (curr_y con - scroll_max_y con) con) (\<lambda>c1. Inr (c1\<lparr>curr_y := scroll_max_y c1\<rparr>))
      else Inr con) = Inr c1" "con_step con c1" and y: "unat (curr_y c1) \<le> unat (scroll_max_y c1)"
    using putchar_scrolled [OF assms] by blast
  note ok = con_step_ok [OF c1(2)]
  note D = con_okD [OF ok]
  have sy: "unat (curr_y c1 + 1) = unat (curr_y c1) + 1" "unat (curr_x c1 + 1) = unat (curr_x c1) + 1"
    by (rule unat_suc, use D y in simp)+
  consider "ch AND 0xff = 0x0A" | "ch AND 0xff = 0x0D" "ch AND 0xff \<noteq> 0x0A" | "ch AND 0xff \<noteq> 0x0A" "ch AND 0xff \<noteq> 0x0D" by blast
  then show ?thesis
  proof cases
    case 1
    have "scroll_max_x c1 < 0x1000" using D(4) by (simp add: word_less_nat_alt)
    then obtain c2 where c2: "fill_line (curr_x c1) (curr_y c1) (scroll_max_x c1) c1 = Inr c2" "draws c1 c2"
      using fill_line_draws [OF D(2,3)] by blast
    note E = draws_same [OF c2(2)]
    have "con_ok (c2\<lparr>curr_x := scroll_min_x c2, curr_y := curr_y c2 + 1\<rparr>)"
      by (rule con_okI) (use D y sy draws_screen_ok [OF c2(2)] in \<open>auto simp: E screen_ok_def\<close>)
    then have "con_step con (c_setcursor (c2\<lparr>curr_x := scroll_min_x c2, curr_y := curr_y c2 + 1\<rparr>))"
      using c1(2) c2(2) by (auto simp: con_step_def draws_def)
    then show ?thesis using c1(1) c2(1) 1 by (simp add: c_putchar_def)
  next
    case 2
    have "con_ok (c1\<lparr>curr_x := scroll_min_x c1\<rparr>)" by (rule con_okI) (use D in \<open>auto simp: screen_ok_def\<close>)
    then have "con_step con (c_setcursor (c1\<lparr>curr_x := scroll_min_x c1\<rparr>))" using c1(2) by (simp add: con_step_def)
    then show ?thesis using c1(1) 2 by (simp add: c_putchar_def)
  next
    case 3
    let ?c2 = "phys_putchar_at (curr_x c1) (curr_y c1) ch c1"
    have d: "draws c1 ?c2" using D(2,3) by (rule putchar_phys_draws)
    note E = draws_same [OF d]
    let ?c3 = "?c2\<lparr>curr_x := curr_x ?c2 + 1\<rparr>"
    let ?c4 = "if curr_x ?c3 > scroll_max_x ?c3 then ?c3\<lparr>curr_x := scroll_min_x ?c3, curr_y := curr_y ?c3 + 1\<rparr> else ?c3"
    have "con_ok ?c4"
      by (rule con_okI)
        (use D y sy draws_screen_ok [OF d] in \<open>auto simp: E screen_ok_def word_less_nat_alt\<close>)
    then have "con_step con (c_setcursor ?c4)" using c1(2) d by (auto simp: con_step_def draws_def)
    then show ?thesis using c1(1) 3 by (simp add: c_putchar_def Let_def)
  qed
qed

text \<open>An operation that may give a value together with the console.\<close>

lemma andThen_step:
  assumes "\<exists>c1. x = Inr c1 \<and> con_step con c1"
    and "\<And>c1. con_ok c1 \<Longrightarrow> \<exists>c2. f c1 = Inr c2 \<and> con_step c1 c2"
  shows "\<exists>c2. andThen x f = Inr c2 \<and> con_step con c2"
  using assms con_step_trans con_step_ok by fastforce

lemma putchar_at_step: "con_ok con \<Longrightarrow> \<exists>c'. c_putchar_at x y ch con = Inr c' \<and> con_step con c'"
  using putchar_at_draws [of con x y ch] draws_step by (auto simp: con_ok_def)

lemma puts_step: "con_ok con \<Longrightarrow> \<exists>c'. c_puts str con = Inr c' \<and> con_step con c'"
proof (induction str arbitrary: con)
  case (Cons ch str)
  then show ?case by (simp, intro andThen_step putchar_step) simp_all
qed (simp add: con_step_refl)

lemma puts_at_step: "con_ok con \<Longrightarrow> \<exists>c'. c_puts_at x y str con = Inr c' \<and> con_step con c'"
proof (induction str arbitrary: con x)
  case (Cons ch str)
  show ?case
  proof (cases "x \<le> max_x con")
    case True
    have "\<exists>c2. andThen (c_putchar_at x y (scast ch) con) (c_puts_at (x + 1) y str) = Inr c2 \<and> con_step con c2"
      using putchar_at_step [OF Cons.prems] Cons.IH by (rule andThen_step)
    then show ?thesis using True by simp
  qed (use Cons.prems con_step_refl in simp)
qed (simp add: con_step_refl)

lemma bound_le: "mn \<le> mx \<Longrightarrow> mn \<le> bound mn v mx \<and> bound mn v mx \<le> mx"
  by (auto simp: bound_def Let_def)

lemma moveto_step: "con_ok con \<Longrightarrow> con_step con (c_moveto x y con)"
proof -
  assume ok: "con_ok con"
  note D = con_okD [OF ok]
  let ?c = "con\<lparr>curr_x := bound (scroll_min_x con) (x + scroll_min_x con) (scroll_max_x con),
                curr_y := bound (scroll_min_y con) (y + scroll_min_y con) (scroll_max_y con)\<rparr>"
  have b: "scroll_min_x con \<le> scroll_max_x con" "scroll_min_y con \<le> scroll_max_y con"
    using D(10,11) by (simp_all add: word_le_nat_alt)
  have "con_ok ?c"
    by (rule con_okI)
      (use D(1) bound_le [OF b(1), of "x + scroll_min_x con"] bound_le [OF b(2), of "y + scroll_min_y con"] in
        \<open>auto simp: screen_ok_def word_le_nat_alt\<close>)
  then show ?thesis by (simp add: c_moveto_def con_step_def)
qed

lemma setscroll_step: "con_ok con \<Longrightarrow> con_step con (c_setscroll a b c d con)"
proof -
  assume ok: "con_ok con"
  have m: "min_x con = 0" "min_y con = 0" "max_x con = 105" "max_y con = 63"
    using ok by (auto simp: con_ok_def screen_ok_def)
  let ?x = "bound 0 a 105" and ?y = "bound 0 b 63"
  have x: "?x \<le> bound ?x c 105" "bound ?x c 105 \<le> 105" "?y \<le> bound ?y d 63" "bound ?y d 63 \<le> 63"
    using bound_le by (meson word_zero_le)+
  let ?c = "con\<lparr>scroll_min_x := ?x, scroll_min_y := ?y, scroll_max_x := bound ?x c 105,
                scroll_max_y := bound ?y d 63, curr_x := ?x, curr_y := ?y\<rparr>"
  have "con_ok ?c" by (rule con_okI) (use x m in \<open>auto simp: screen_ok_def word_le_nat_alt\<close>)
  then show ?thesis by (simp add: c_setscroll_def con_step_def Let_def m)
qed

lemma io_init_ok: "con_ok (c_io_init con)" and io_init_video: "con_video (c_io_init con) = con_video con"
proof -
  have "con_ok (con\<lparr>min_x := 0, min_y := 0, max_x := SCREEN_X_SIZE - 1, max_y := SCREEN_Y_SIZE - 1,
       scroll_min_x := 0, scroll_min_y := 0, scroll_max_x := SCREEN_X_SIZE - 1,
       scroll_max_y := SCREEN_Y_SIZE - 1, curr_y := 0, curr_x := 0\<rparr>)"
    by (rule con_okI) (simp_all add: screen_ok_def)
  then show "con_ok (c_io_init con)" "con_video (c_io_init con) = con_video con"
    by (simp_all add: c_io_init_def)
qed

section \<open>Printf\<close>

text \<open>The same for operations that give a value before the console.\<close>

lemma andThen_pair_step:
  assumes "\<exists>a c1. x = Inr (a, c1) \<and> con_step con c1"
    and "\<And>a c1. x = Inr (a, c1) \<Longrightarrow> con_ok c1 \<Longrightarrow> \<exists>b c2. f (a, c1) = Inr (b, c2) \<and> con_step c1 c2"
  shows "\<exists>b c2. andThen x f = Inr (b, c2) \<and> con_step con c2"
  using assms con_step_trans con_step_ok by fastforce

lemma andThen_value_step:
  "\<exists>c1. x = Inr c1 \<and> con_step con c1 \<Longrightarrow> \<exists>a c2. andThen x (\<lambda>c. Inr (g c, c)) = Inr (a, c2) \<and> con_step con c2"
  by auto

lemma pad_loop_step: "con_ok con \<Longrightarrow> \<exists>x' c. pad_loop n x y pc con = Inr (x', c) \<and> con_step con c"
proof (induction n arbitrary: x con)
  case (Suc n)
  obtain c1 where c1: "c_putchar_at x y pc con = Inr c1" "con_step con c1" using putchar_at_step [OF Suc.prems] by blast
  obtain c2 where c2: "c_putchar pc con = Inr c2" "con_step con c2" using putchar_step [OF Suc.prems] by blast
  show ?case
    using Suc.IH [OF con_step_ok [OF c1(2)], of "x + 1"] Suc.IH [OF con_step_ok [OF c2(2)], of x]
      con_step_trans [OF c1(2)] con_step_trans [OF c2(2)] c1(1) c2(1) by auto
qed (simp add: con_step_refl)

lemma padstr_step:
  assumes "con_ok con"
  shows "\<exists>x' c. padstr x y str len width left pc con = Inr (x', c) \<and> con_step con c"
proof -
  have if_pad: "\<exists>x' c'. (if b then pad x y e pc c else Inr (x, c)) = Inr (x', c') \<and> con_step c c'"
    if "con_ok c" for b x e c using pad_loop_step [OF that] con_step_refl [OF that] by (simp add: pad_def)
  have put: "\<exists>x' c'. (if placed x y then andThen (c_puts_at x y str c) (\<lambda>c. Inr (x + l, c))
        else andThen (c_puts str c) (\<lambda>c. Inr (x, c))) = Inr (x', c') \<and> con_step c c'" if "con_ok c" for x l c
    using puts_at_step [OF that, of x y str] puts_step [OF that, of str] by auto
  show ?thesis
    unfolding padstr_def Let_def
    by (intro andThen_pair_step if_pad assms, unfold prod.case, intro andThen_pair_step put, assumption,
        unfold prod.case, rule if_pad)
qed

lemma convert_step:
  assumes "con_ok con"
  shows "\<exists>x' n c. fmt_convert strings ch arg left pc width x y con = Inr (x', n, c) \<and> con_step con c"
proof -
  have "\<exists>x' n c. andThen (padstr x y str len width left pc con) (\<lambda>(x', c). Inr (x', 1, c)) = Inr (x', n :: nat, c) \<and>
      con_step con c" for str len using padstr_step [OF assms, of x y str len width left pc] by auto
  then show ?thesis using con_step_refl [OF assms] by (simp add: fmt_convert_def Let_def)
qed

lemma literal_step:
  assumes "con_ok con"
  shows "\<exists>x' y' c. fmt_literal ch x y con = Inr (x', y', c) \<and> con_step con c"
  using putchar_at_step [OF assms, of x y "scast ch"] putchar_step [OF assms, of "scast ch"]
  by (auto simp: fmt_literal_def)

text \<open>A format is complete when no conversion meets the terminator.\<close>

function fmt_complete :: "fmt_ptr \<Rightarrow> bool" where
  "fmt_complete p =
     (case next_char p of
        Inl e \<Rightarrow> False
      | Inr (ch, p1) \<Rightarrow>
          ch = 0 \<or>
          (if ch = 0x25 then (case fmt_options p1 of Inl e \<Rightarrow> False | Inr (l, pc, w, ty, p2) \<Rightarrow> fmt_complete p2)
           else fmt_complete p1))"
  by auto

termination
  by (relation "measure fmt_left") (auto dest!: next_char_left fmt_options_left)

declare fmt_complete.simps [simp del]

lemma printf_step:
  "fmt_complete p \<Longrightarrow> con_ok con \<Longrightarrow> \<exists>c. do_printf strings args x y p ap con = Inr c \<and> con_step con c"
proof (induction p arbitrary: x y ap con rule: fmt_complete.induct)
  case (1 p)
  obtain ch p1 where n: "next_char p = Inr (ch, p1)"
    using 1(3) by (subst (asm) fmt_complete.simps) (auto split: sum.splits)
  show ?case
  proof (cases "ch = 0")
    case True
    then show ?thesis using n 1(4) by (subst do_printf.simps) (simp add: con_step_refl)
  next
    case nz: False
    show ?thesis
    proof (cases "ch = 0x25")
      case True
      obtain l pc w ty p2 where o: "fmt_options p1 = Inr (l, pc, w, ty, p2)" and f: "fmt_complete p2"
        using 1(3) n nz True by (subst (asm) fmt_complete.simps) (auto split: sum.splits)
      obtain x' m c where c: "fmt_convert strings ty (args ap) l pc w x y con = Inr (x', m, c)" "con_step con c"
        using convert_step [OF 1(4)] by blast
      have "\<exists>c'. do_printf strings args x' y p2 (ap + m) c = Inr c' \<and> con_step c c'"
        by (rule 1(1) [OF n refl True o refl refl refl refl f con_step_ok [OF c(2)]])
      then show ?thesis using n nz True o c con_step_trans by (subst do_printf.simps) auto
    next
      case False
      have f: "fmt_complete p1" using 1(3) n nz False by (subst (asm) fmt_complete.simps) simp
      obtain x' y' c where c: "fmt_literal ch x y con = Inr (x', y', c)" "con_step con c"
        using literal_step [OF 1(4)] by blast
      have "\<exists>c'. do_printf strings args x' y' p1 ap c = Inr c' \<and> con_step c c'"
        by (rule 1(2) [OF n refl False f con_step_ok [OF c(2)]])
      then show ?thesis using n nz False c con_step_trans by (subst do_printf.simps) auto
    qed
  qed
qed

section \<open>Sequences of operations\<close>

datatype con_op =
    Setscroll u32 u32 u32 u32
  | Moveto u32 u32
  | Putchar u32
  | Putchar_at u32 u32 u32
  | Puts "u8 list"
  | Puts_at u32 u32 "u8 list"
  | Clearscroll
  | Clearscreen
  | Scroll u32
  | Printf "u8 list" "nat \<Rightarrow> u32"
  | Printf_at u32 u32 "u8 list" "nat \<Rightarrow> u32"

fun con_run :: "(u32 \<Rightarrow> u8 list) \<Rightarrow> con_op \<Rightarrow> console \<Rightarrow> console outcome" where
  "con_run strings (Setscroll a b c d) con = Inr (c_setscroll a b c d con)"
| "con_run strings (Moveto x y) con = Inr (c_moveto x y con)"
| "con_run strings (Putchar c) con = c_putchar c con"
| "con_run strings (Putchar_at x y c) con = c_putchar_at x y c con"
| "con_run strings (Puts s) con = c_puts s con"
| "con_run strings (Puts_at x y s) con = c_puts_at x y s con"
| "con_run strings Clearscroll con = c_clearscroll con"
| "con_run strings Clearscreen con = Inr (c_clearscreen con)"
| "con_run strings (Scroll n) con = c_scroll n con"
| "con_run strings (Printf fmt args) con = c_printf strings fmt args con"
| "con_run strings (Printf_at x y fmt args) con = c_printf_at strings x y fmt args con"

fun con_runs :: "(u32 \<Rightarrow> u8 list) \<Rightarrow> con_op list \<Rightarrow> console \<Rightarrow> console outcome" where
  "con_runs strings [] con = Inr con"
| "con_runs strings (x # xs) con = andThen (con_run strings x con) (con_runs strings xs)"

definition op_complete :: "con_op \<Rightarrow> bool" where
  "op_complete x =
     (case x of Printf fmt args \<Rightarrow> fmt_complete (Some fmt) | Printf_at a b fmt args \<Rightarrow> fmt_complete (Some fmt) | _ \<Rightarrow> True)"

lemma con_run_step:
  assumes "con_ok con" and "op_complete x"
  shows "\<exists>c. con_run strings x con = Inr c \<and> con_step con c"
proof -
  have ok: "screen_ok con" using assms(1) by (simp add: con_ok_def)
  have "\<exists>c. c_clearscroll con = Inr c \<and> con_step con c" "con_step con (c_clearscreen con)"
    using clearscroll_draws [OF ok] clearscreen_draws [OF ok] draws_step [OF assms(1)] by blast+
  then show ?thesis
    using assms putchar_step putchar_at_step puts_step puts_at_step scroll_step printf_step
    by (cases x) (auto simp: op_complete_def c_printf_def c_printf_at_def setscroll_step moveto_step)
qed

lemma con_runs_step:
  "con_ok con \<Longrightarrow> list_all op_complete xs \<Longrightarrow> \<exists>c. con_runs strings xs con = Inr c \<and> con_step con c"
proof (induction xs arbitrary: con)
  case (Cons x xs)
  then show ?case by (simp, intro andThen_step con_run_step) simp_all
qed (simp add: con_step_refl)

end
