(* ===== verification/Input_Rings.thy ===== *)
theory Input_Rings
  imports Keyboard Mouse Console_Screen
begin

text \<open>
  The ring buffers of the keyboard and the mouse as queues: the characters from the read
  pointer to the write pointer, around the end.  The locale \<open>byte_ring\<close> has what a client
  of a ring relies on; the two rings differ when they are full, where the keyboard drops the
  new character and the mouse overwrites.
\<close>

section \<open>The interface\<close>

locale byte_ring =
  fixes good :: "'b \<Rightarrow> bool" and contents :: "'b \<Rightarrow> u8 list" and store :: "u8 \<Rightarrow> 'b \<Rightarrow> 'b"
    and fetch :: "'b \<Rightarrow> (u8 \<times> 'b) option" and room :: nat
  assumes store_good: "good b \<Longrightarrow> good (store x b)"
    and store_contents: "good b \<Longrightarrow> length (contents b) < room \<Longrightarrow> contents (store x b) = contents b @ [x]"
    and fetch_contents: "good b \<Longrightarrow> contents b = x # xs \<Longrightarrow>
      \<exists>b'. fetch b = Some (x, b') \<and> good b' \<and> contents b' = xs"
    and fetch_empty: "good b \<Longrightarrow> contents b = [] \<Longrightarrow> fetch b = None"
begin

fun fetches :: "nat \<Rightarrow> 'b \<Rightarrow> (u8 list \<times> 'b) option" where
  "fetches 0 b = Some ([], b)"
| "fetches (Suc n) b = Option.bind (fetch b) (\<lambda>(x, b'). map_option (\<lambda>(xs, b''). (x # xs, b'')) (fetches n b'))"

lemma store_all:
  "good b \<Longrightarrow> length (contents b) + length xs \<le> room \<Longrightarrow>
     good (fold store xs b) \<and> contents (fold store xs b) = contents b @ xs"
  by (induction xs arbitrary: b) (simp_all add: store_good store_contents)

lemma fetch_all: "good b \<Longrightarrow> \<exists>b'. fetches (length (contents b)) b = Some (contents b, b') \<and> good b' \<and> contents b' = []"
proof (induction "contents b" arbitrary: b)
  case (Cons x xs)
  obtain b1 where b1: "fetch b = Some (x, b1)" "good b1" "contents b1 = xs"
    using fetch_contents [OF Cons.prems, of x xs] Cons.hyps(2) by auto
  obtain b2 where "fetches (length xs) b1 = Some (xs, b2)" "good b2" "contents b2 = []"
    using Cons.hyps(1) [of b1] b1(2,3) by auto
  then show ?case using b1(1) Cons.hyps(2) [symmetric] by simp
qed (metis fetches.simps(1) list.size(3))

lemma fifo:
  assumes "good b" and "contents b = []" and "length xs \<le> room"
  shows "\<exists>b'. fetches (length xs) (fold store xs b) = Some (xs, b') \<and> good b' \<and> contents b' = []"
  using store_all [OF assms(1), of xs] fetch_all [of "fold store xs b"] assms(2,3) by simp

end

section \<open>The contents of a ring\<close>

definition ring_indices :: "nat \<Rightarrow> nat \<Rightarrow> nat list" where
  "ring_indices c s = (if c \<le> s then [c..<s] else [c..<BUFSIZE] @ [0..<s])"

definition ring_list :: "input_buffer \<Rightarrow> u8 list" where
  "ring_list b =
     (case (ib_next_char b, ib_next_space b) of
        (Some c, Some s) \<Rightarrow> map (ib_buffer b) (ring_indices c s)
      | _ \<Rightarrow> [])"

definition ring_ok :: "input_buffer \<Rightarrow> bool" where
  "ring_ok b \<longleftrightarrow> (\<exists>c s. ib_next_char b = Some c \<and> ib_next_space b = Some s \<and> c < BUFSIZE \<and> s < BUFSIZE)"

lemma mouse_next_less: "p < BUFSIZE \<Longrightarrow> mouse_next p < BUFSIZE"
  by (simp add: mouse_next_def BUFSIZE_def)

lemma c_increment_next: "c_increment = mouse_next"
  by (simp add: fun_eq_iff c_increment_def mouse_next_def C_BUFSIZE_def BUFSIZE_def)

lemma ring_indices_put:
  assumes "c < BUFSIZE" and "s < BUFSIZE" and "mouse_next s \<noteq> c"
  shows "ring_indices c (mouse_next s) = ring_indices c s @ [s]"
proof (cases "s + 1 = BUFSIZE")
  case True
  then have "[c..<BUFSIZE] = [c..<s] @ [s]" using assms(1) upt_Suc_append [of c s] by simp
  then show ?thesis using True assms by (auto simp: ring_indices_def mouse_next_def)
next
  case False
  then show ?thesis using assms by (auto simp: ring_indices_def mouse_next_def)
qed

lemma ring_indices_get:
  assumes "c < BUFSIZE" and "s < BUFSIZE" and "s \<noteq> c"
  shows "ring_indices c s = c # ring_indices (mouse_next c) s"
  using assms by (auto simp: ring_indices_def mouse_next_def upt_conv_Cons)

lemma ring_indices_bounds: "c < BUFSIZE \<Longrightarrow> s < BUFSIZE \<Longrightarrow> s \<notin> set (ring_indices c s)"
  by (auto simp: ring_indices_def)

lemma ring_length:
  assumes "c < BUFSIZE" and "s < BUFSIZE"
  shows "length (ring_indices c s) = (if c \<le> s then s - c else BUFSIZE - c + s)"
    and "mouse_next s = c \<longleftrightarrow> length (ring_indices c s) = BUFSIZE - 1"
  using assms by (auto simp: ring_indices_def mouse_next_def)

section \<open>The two rings\<close>

definition kb_put :: "u8 \<Rightarrow> input_buffer \<Rightarrow> input_buffer" where
  "kb_put x b =
     (case ib_next_space b of None \<Rightarrow> b | Some sp \<Rightarrow>
        if Some (c_increment sp) \<noteq> ib_next_char b
        then b\<lparr>ib_buffer := (ib_buffer b)(sp := x), ib_next_space := Some (c_increment sp)\<rparr> else b)"

definition mouse_put :: "u8 \<Rightarrow> input_buffer \<Rightarrow> input_buffer" where
  "mouse_put x b =
     (case ib_next_space b of None \<Rightarrow> b | Some sp \<Rightarrow>
        b\<lparr>ib_buffer := (ib_buffer b)(sp := x), ib_next_space := Some (mouse_next sp)\<rparr>)"

definition ring_get :: "input_buffer \<Rightarrow> (u8 \<times> input_buffer) option" where
  "ring_get b =
     (if ib_next_char b = ib_next_space b then None
      else case ib_next_char b of None \<Rightarrow> None
      | Some c \<Rightarrow> Some (ib_buffer b c, b\<lparr>ib_next_char := Some (mouse_next c)\<rparr>))"

lemma ring_okE:
  assumes "ring_ok b"
  obtains c s where "ib_next_char b = Some c" "ib_next_space b = Some s" "c < BUFSIZE" "s < BUFSIZE"
    "ring_list b = map (ib_buffer b) (ring_indices c s)"
  using assms by (auto simp: ring_ok_def ring_list_def)

lemma ring_put_facts:
  assumes "ring_ok b"
  shows "ring_ok (mouse_put x b)"
    and "length (ring_list b) < BUFSIZE - 1 \<Longrightarrow> ring_list (mouse_put x b) = ring_list b @ [x]"
    and "length (ring_list b) = BUFSIZE - 1 \<Longrightarrow> ring_list (mouse_put x b) = []"
    and "kb_put x b = (if length (ring_list b) < BUFSIZE - 1 then mouse_put x b else b)"
    and "length (ring_list b) \<le> BUFSIZE - 1"
proof -
  obtain c s where R: "ib_next_char b = Some c" "ib_next_space b = Some s" "c < BUFSIZE" "s < BUFSIZE"
    "ring_list b = map (ib_buffer b) (ring_indices c s)" by (rule ring_okE [OF assms])
  note L = ring_length [OF R(3,4)]
  have ns: "s \<notin> set (ring_indices c s)" by (rule ring_indices_bounds [OF R(3,4)])
  show "length (ring_list b) \<le> BUFSIZE - 1" using L(1) R(3-5) by auto
  show "ring_ok (mouse_put x b)" using R mouse_next_less by (simp add: ring_ok_def mouse_put_def)
  have put: "ring_list (mouse_put x b) = map ((ib_buffer b)(s := x)) (ring_indices c (mouse_next s))"
    using R(1,2) by (simp add: mouse_put_def ring_list_def)
  show "ring_list (mouse_put x b) = ring_list b @ [x]" if "length (ring_list b) < BUFSIZE - 1"
    using that ns R(5) L(2) ring_indices_put [OF R(3,4)] by (simp add: put)
  show "ring_list (mouse_put x b) = []" if "length (ring_list b) = BUFSIZE - 1"
    using that R(5) L(2) by (simp add: put ring_indices_def)
  show "kb_put x b = (if length (ring_list b) < BUFSIZE - 1 then mouse_put x b else b)"
  proof -
    have "length (ring_list b) \<le> BUFSIZE - 1" using L(1) R(3-5) by auto
    then have "mouse_next s = c \<longleftrightarrow> \<not> length (ring_list b) < BUFSIZE - 1" using L(2) R(5) by auto
    then show ?thesis using R(1,2) by (simp add: kb_put_def mouse_put_def c_increment_next)
  qed
qed

lemma ring_get_facts:
  assumes "ring_ok b"
  shows "ring_list b = [] \<longleftrightarrow> ib_next_char b = ib_next_space b"
    and "ring_list b = x # xs \<Longrightarrow> \<exists>b'. ring_get b = Some (x, b') \<and> ring_ok b' \<and> ring_list b' = xs"
proof -
  obtain c s where R: "ib_next_char b = Some c" "ib_next_space b = Some s" "c < BUFSIZE" "s < BUFSIZE"
    "ring_list b = map (ib_buffer b) (ring_indices c s)" by (rule ring_okE [OF assms])
  show e: "ring_list b = [] \<longleftrightarrow> ib_next_char b = ib_next_space b"
    using R ring_indices_get [OF R(3,4)] by (auto simp: ring_indices_def)
  assume x: "ring_list b = x # xs"
  then have sc: "s \<noteq> c" using e R(1,2) by auto
  have "ring_get b = Some (x, b\<lparr>ib_next_char := Some (mouse_next c)\<rparr>)"
    "ring_list (b\<lparr>ib_next_char := Some (mouse_next c)\<rparr>) = xs"
    "ring_ok (b\<lparr>ib_next_char := Some (mouse_next c)\<rparr>)"
    using R sc x ring_indices_get [OF R(3,4) sc] mouse_next_less by (auto simp: ring_get_def ring_list_def ring_ok_def)
  then show "\<exists>b'. ring_get b = Some (x, b') \<and> ring_ok b' \<and> ring_list b' = xs" by blast
qed

interpretation kb_ring: byte_ring ring_ok ring_list kb_put ring_get "BUFSIZE - 1"
proof
  fix b x assume ok: "ring_ok b"
  show "ring_ok (kb_put x b)" using ring_put_facts [OF ok] ok by simp
  show "length (ring_list b) < BUFSIZE - 1 \<Longrightarrow> ring_list (kb_put x b) = ring_list b @ [x]"
    using ring_put_facts [OF ok] by simp
  show "ring_list b = [] \<Longrightarrow> ring_get b = None" using ring_get_facts(1) [OF ok] by (simp add: ring_get_def)
qed (rule ring_get_facts)

interpretation mouse_ring: byte_ring ring_ok ring_list mouse_put ring_get "BUFSIZE - 1"
  by unfold_locales (simp_all add: ring_put_facts ring_get_facts kb_ring.fetch_empty)

section \<open>The mouse\<close>

lemma mouse_buf_set [simp]:
  "mouse_buf (set_mouse_buf i b s) j = (if j = i then b else mouse_buf s j)"
  "active_screen (set_mouse_buf i b s) = active_screen s"
  by (simp_all add: mouse_buf_def set_mouse_buf_def)

fun mouse_isrs :: "u8 list \<Rightarrow> screens \<Rightarrow> screens outcome" where
  "mouse_isrs [] s = Inr s"
| "mouse_isrs (p # ps) s = andThen (isr_mouse p s) (\<lambda>(s', _). mouse_isrs ps s')"

fun mouse_gets :: "nat \<Rightarrow> nat \<Rightarrow> screens \<Rightarrow> (u8 list \<times> screens) outcome" where
  "mouse_gets 0 i s = Inr ([], s)"
| "mouse_gets (Suc n) i s =
     andThen (get_mouse [] i s) (\<lambda>(x, _, s1). andThen (mouse_gets n i s1) (\<lambda>(xs, s2). Inr (x # xs, s2)))"

lemma mouse_isrs_ring:
  "ring_ok (mouse_buf s i) \<Longrightarrow> unat (active_screen s) = i \<Longrightarrow>
   \<exists>s'. mouse_isrs ps s = Inr s' \<and> mouse_buf s' i = fold mouse_put ps (mouse_buf s i) \<and> unat (active_screen s') = i"
proof (induction ps arbitrary: s)
  case (Cons p ps)
  obtain c sp where R: "ib_next_char (mouse_buf s i) = Some c" "ib_next_space (mouse_buf s i) = Some sp"
    using ring_okE [OF Cons.prems(1)] by metis
  let ?s1 = "set_mouse_buf i (mouse_put p (mouse_buf s i)) s"
  have isr: "isr_mouse p s = Inr (?s1, [(0x20, 0x20), (0xA0, 0x20)])"
    using R(2) Cons.prems(2) by (simp add: isr_mouse_def mouse_put_def Let_def)
  have "ring_ok (mouse_buf ?s1 i)" "unat (active_screen ?s1) = i"
    using Cons.prems ring_put_facts(1) by simp_all
  from Cons.IH [OF this] show ?case using isr by simp
qed simp

lemma get_mouse_ring:
  assumes "ring_get (mouse_buf s i) = Some (x, b)"
  shows "get_mouse [] i s = Inr (x, [], set_mouse_buf i b s)"
  using assms by (auto simp: ring_get_def get_mouse_def split: if_splits option.splits)

lemma mouse_gets_ring:
  "mouse_ring.fetches n (mouse_buf s i) = Some (xs, b) \<Longrightarrow>
   \<exists>s'. mouse_gets n i s = Inr (xs, s') \<and> mouse_buf s' i = b"
proof (induction n arbitrary: s xs)
  case (Suc n)
  then obtain x b1 ys where g: "ring_get (mouse_buf s i) = Some (x, b1)" "mouse_ring.fetches n b1 = Some (ys, b)" "xs = x # ys"
    by (auto simp: bind_eq_Some_conv)
  let ?s1 = "set_mouse_buf i b1 s"
  have "mouse_ring.fetches n (mouse_buf ?s1 i) = Some (ys, b)" using g(2) by simp
  from Suc.IH [OF this] show ?case using get_mouse_ring [OF g(1)] g(3) by auto
qed auto

lemma size_mouse_ring:
  assumes "ring_ok (mouse_buf s i)"
  shows "size_mouse i s = Inr (if ring_list (mouse_buf s i) = [] then 0
    else int BUFSIZE - int (length (ring_list (mouse_buf s i))))"
proof -
  obtain c sp where R: "ib_next_char (mouse_buf s i) = Some c" "ib_next_space (mouse_buf s i) = Some sp"
    "c < BUFSIZE" "sp < BUFSIZE" "ring_list (mouse_buf s i) = map (ib_buffer (mouse_buf s i)) (ring_indices c sp)"
    by (rule ring_okE [OF assms])
  have "ring_list (mouse_buf s i) = [] \<longleftrightarrow> c = sp" using ring_get_facts(1) [OF assms] R(1,2) by simp
  then show ?thesis using R ring_length(1) [OF R(3,4)] by (auto simp: size_mouse_def Let_def)
qed

section \<open>The keyboard\<close>

lemma kb_buf_set [simp]:
  "kb_buf (set_kb_buf i b t) j = (if j = i then b else kb_buf t j)"
  "t_console (set_kb_buf i b t) = t_console t" "t_shift (set_kb_buf i b t) = t_shift t"
  "t_ctrl_mask (set_kb_buf i b t) = t_ctrl_mask t"
  "active_screen (t_screens (set_kb_buf i b t)) = active_screen (t_screens t)"
  by (simp_all add: kb_buf_def set_kb_buf_def)

lemma kb_buf_updates [simp]:
  "kb_buf (t\<lparr>t_shift := x\<rparr>) i = kb_buf t i" "kb_buf (t\<lparr>t_ctrl_mask := m\<rparr>) i = kb_buf t i"
  "kb_buf (t\<lparr>t_console := c\<rparr>) i = kb_buf t i"
  by (simp_all add: kb_buf_def)

lemma con_outb_ok [simp]: "con_ok (con_outb p v con) = con_ok con"
  by (simp add: con_outb_def con_ok_def screen_ok_def)

text \<open>The characters that scan codes stand for, from a state of the shift and control keys.\<close>

fun kb_chars :: "nat \<Rightarrow> u32 \<Rightarrow> u8 list \<Rightarrow> u8 list" where
  "kb_chars sh ctrl [] = []"
| "kb_chars sh ctrl (c # cs) =
     (if c = 0x2a \<or> c = 0x36 then kb_chars 1 ctrl cs
      else if c = 0xaa \<or> c = 0xb6 then kb_chars 0 ctrl cs
      else if c = 0x1d then kb_chars sh 0x1f cs
      else if c = 0x9d then kb_chars sh 0xff cs
      else if c AND 0x80 = 0 then ucast (ucast (scan_code ! sh ! unat c) AND ctrl) # kb_chars sh ctrl cs
      else kb_chars sh ctrl cs)"

fun keyboard_isrs :: "u8 list \<Rightarrow> terminal \<Rightarrow> terminal outcome" where
  "keyboard_isrs [] t = Inr t"
| "keyboard_isrs (c # cs) t = andThen (keyboard_isr c t) (keyboard_isrs cs)"

lemma kb_code_compare: "(ucast (x :: u8) :: u32) \<noteq> scast (0xFF :: u8)"
proof
  assume "(ucast x :: u32) = scast (0xFF :: u8)"
  moreover have "\<not> bit (ucast x :: u32) 31" by (auto simp: bit_simps dest: bit_imp_le_length)
  moreover have "bit (scast (0xFF :: u8) :: u32) 31" by simp
  ultimately show False by simp
qed

lemma kb_store_ring:
  assumes "ring_ok (kb_buf t i)" and "unat (active_screen (t_screens t)) = i"
  shows "\<exists>t'. kb_store code t = Inr t' \<and> kb_buf t' i = kb_put (ucast (ucast code AND t_ctrl_mask t)) (kb_buf t i) \<and>
    t_shift t' = t_shift t \<and> t_ctrl_mask t' = t_ctrl_mask t \<and> t_console t' = t_console t \<and>
    active_screen (t_screens t') = active_screen (t_screens t)"
proof -
  obtain c s where R: "ib_next_char (kb_buf t i) = Some c" "ib_next_space (kb_buf t i) = Some s"
    using ring_okE [OF assms(1)] by metis
  then show ?thesis using assms(2) kb_code_compare [of code] by (simp add: kb_store_def kb_put_def Let_def)
qed

lemma scan_code_word:
  fixes c :: u8
  shows "(ucast c :: u32) AND 0xff = ucast c" and "unat (ucast c :: u32) = unat c"
    and "(ucast c :: u32) = 0x2a \<longleftrightarrow> c = 0x2a" and "(ucast c :: u32) = 0x36 \<longleftrightarrow> c = 0x36"
    and "(ucast c :: u32) = 0xaa \<longleftrightarrow> c = 0xaa" and "(ucast c :: u32) = 0xb6 \<longleftrightarrow> c = 0xb6"
    and "(ucast c :: u32) = 0x1d \<longleftrightarrow> c = 0x1d" and "(ucast c :: u32) = 0x9d \<longleftrightarrow> c = 0x9d"
    and "(ucast c :: u32) AND 0x80 = 0 \<longleftrightarrow> c AND 0x80 = 0"
proof -
  show u: "unat (ucast c :: u32) = unat c"
    by (simp add: unsigned_ucast_eq take_bit_nat_eq_self unsigned_less [THEN order_less_le_trans])
  have round: "(ucast (ucast d :: u32) :: u8) = d" for d :: u8
    by (rule bit_word_eqI) (auto simp: bit_simps dest: bit_imp_le_length)
  have inj: "(ucast c :: u32) = ucast d \<longleftrightarrow> c = d" for d :: u8
  proof
    assume "(ucast c :: u32) = ucast d"
    then have "(ucast (ucast c :: u32) :: u8) = ucast (ucast d :: u32)" by simp
    then show "c = d" unfolding round .
  qed simp
  have inj': "(ucast d :: u32) = 0 \<longleftrightarrow> d = 0" for d :: u8
  proof
    assume "(ucast d :: u32) = 0"
    then have "(ucast (ucast d :: u32) :: u8) = ucast (0 :: u32)" by simp
    then show "d = 0" unfolding round by simp
  qed simp
  show "(ucast c :: u32) = 0x2a \<longleftrightarrow> c = 0x2a" using inj [of "0x2a"] by simp
  show "(ucast c :: u32) = 0x36 \<longleftrightarrow> c = 0x36" using inj [of "0x36"] by simp
  show "(ucast c :: u32) = 0xaa \<longleftrightarrow> c = 0xaa" using inj [of "0xaa"] by simp
  show "(ucast c :: u32) = 0xb6 \<longleftrightarrow> c = 0xb6" using inj [of "0xb6"] by simp
  show "(ucast c :: u32) = 0x1d \<longleftrightarrow> c = 0x1d" using inj [of "0x1d"] by simp
  show "(ucast c :: u32) = 0x9d \<longleftrightarrow> c = 0x9d" using inj [of "0x9d"] by simp
  have "(ucast c :: u32) AND mask 8 = ucast c"
    by (rule bit_word_eqI) (auto simp: bit_simps dest: bit_imp_le_length)
  moreover have "(mask 8 :: u32) = 0xff" by (simp add: mask_eq_exp_minus_1)
  ultimately show "(ucast c :: u32) AND 0xff = ucast c" by simp
  have "(ucast c :: u32) AND 0x80 = ucast (c AND 0x80)"
    by (rule bit_word_eqI) (auto simp: bit_simps dest: bit_imp_le_length)
  then show "(ucast c :: u32) AND 0x80 = 0 \<longleftrightarrow> c AND 0x80 = 0" using inj' [of "c AND 0x80"] by simp
qed

lemma keyboard_isr_ring:
  assumes ok: "ring_ok (kb_buf t i)" and i: "unat (active_screen (t_screens t)) = i"
  shows "\<exists>t'. keyboard_isr c t = Inr t' \<and>
    ring_ok (kb_buf t' i) \<and> unat (active_screen (t_screens t')) = i \<and>
    con_ok (t_console t') = con_ok (t_console t) \<and>
    fold kb_put (kb_chars (t_shift t') (t_ctrl_mask t') cs) (kb_buf t' i) =
      fold kb_put (kb_chars (t_shift t) (t_ctrl_mask t) (c # cs)) (kb_buf t i)"
proof -
  obtain t1 where t1: "kb_store (scan_code ! t_shift t ! unat c) t = Inr t1"
    "kb_buf t1 i = kb_put (ucast (ucast (scan_code ! t_shift t ! unat c) AND t_ctrl_mask t)) (kb_buf t i)"
    "t_shift t1 = t_shift t" "t_ctrl_mask t1 = t_ctrl_mask t" "t_console t1 = t_console t"
    "active_screen (t_screens t1) = active_screen (t_screens t)"
    using kb_store_ring [OF assms] by blast
  have "ring_ok (kb_buf t1 i)" using t1(2) ring_put_facts(1,4) ok by simp
  then show ?thesis
    using assms t1 by (simp add: keyboard_isr_def input_scan_code_def Let_def scan_code_word)
qed

lemma keyboard_isrs_ring:
  "ring_ok (kb_buf t i) \<Longrightarrow> unat (active_screen (t_screens t)) = i \<Longrightarrow>
   \<exists>t'. keyboard_isrs cs t = Inr t' \<and>
     kb_buf t' i = fold kb_put (kb_chars (t_shift t) (t_ctrl_mask t) cs) (kb_buf t i) \<and>
     con_ok (t_console t') = con_ok (t_console t)"
proof (induction cs arbitrary: t)
  case (Cons c cs)
  obtain t1 where t1: "keyboard_isr c t = Inr t1" "ring_ok (kb_buf t1 i)" "unat (active_screen (t_screens t1)) = i"
    "con_ok (t_console t1) = con_ok (t_console t)"
    "fold kb_put (kb_chars (t_shift t1) (t_ctrl_mask t1) cs) (kb_buf t1 i) =
      fold kb_put (kb_chars (t_shift t) (t_ctrl_mask t) (c # cs)) (kb_buf t i)"
    using keyboard_isr_ring [OF Cons.prems, of c cs] by blast
  from Cons.IH [OF t1(2,3)] show ?case using t1(1,4,5) by auto
qed simp

text \<open>What does not fit is dropped.\<close>

lemma kb_put_all:
  "ring_ok b \<Longrightarrow> ring_ok (fold kb_put xs b) \<and>
     ring_list (fold kb_put xs b) = ring_list b @ take (BUFSIZE - 1 - length (ring_list b)) xs"
proof (induction xs arbitrary: b)
  case (Cons x xs)
  note F = ring_put_facts [OF Cons.prems]
  show ?case
  proof (cases "length (ring_list b) < BUFSIZE - 1")
    case True
    have "ring_ok (kb_put x b)" "ring_list (kb_put x b) = ring_list b @ [x]" using F True by simp_all
    moreover have "BUFSIZE - 1 - length (ring_list b) = Suc (BUFSIZE - 1 - Suc (length (ring_list b)))" using True by simp
    ultimately show ?thesis using Cons.IH [of "kb_put x b"] by simp
  next
    case False
    then have "kb_put x b = b" using F(4) by simp
    then show ?thesis using Cons.IH [OF Cons.prems] False by simp
  qed
qed simp

text \<open>Reading a line from a queue: what is read and what is left, if the line is complete.\<close>

fun gets_list :: "nat \<Rightarrow> u8 list \<Rightarrow> (u8 list \<times> u8 list) option" where
  "gets_list 0 xs = Some ([], xs)"
| "gets_list (Suc n) [] = None"
| "gets_list (Suc n) (x # xs) =
     (if x = EOT then Some ([], xs) else if x = 0x0A then Some ([x], xs)
      else map_option (\<lambda>(l, r). (x # l, r)) (gets_list n xs))"

lemma getchar_ring:
  assumes ok: "ring_ok (kb_buf t i)" and x: "ring_list (kb_buf t i) = x # xs" and con: "con_ok (t_console t)"
  shows "\<exists>t'. c_getchar [] i t = Inr (x, [], t') \<and> ring_ok (kb_buf t' i) \<and> ring_list (kb_buf t' i) = xs \<and>
    con_ok (t_console t')"
proof -
  obtain b where b: "ring_get (kb_buf t i) = Some (x, b)" "ring_ok b" "ring_list b = xs"
    using ring_get_facts(2) [OF ok x] by blast
  then obtain c where c: "ib_next_char (kb_buf t i) = Some c" "ib_next_char (kb_buf t i) \<noteq> ib_next_space (kb_buf t i)"
    "x = ib_buffer (kb_buf t i) c" "b = (kb_buf t i)\<lparr>ib_next_char := Some (c_increment c)\<rparr>"
    by (auto simp: ring_get_def c_increment_next split: if_splits option.splits)
  obtain con' where "c_putchar (scast x) (t_console t) = Inr con'" "con_ok con'"
    using putchar_step [OF con] con_step_ok by blast
  then show ?thesis using c b(2,3) con by (auto simp: c_getchar_def Let_def)
qed

lemma gets_ring:
  "gets_list n (ring_list (kb_buf t i)) = Some (line, rest) \<Longrightarrow> ring_ok (kb_buf t i) \<Longrightarrow> con_ok (t_console t) \<Longrightarrow>
   \<exists>t'. gets_loop n [] i t = Inr (line, [], t') \<and> ring_list (kb_buf t' i) = rest \<and> con_ok (t_console t')"
proof (induction n arbitrary: t line)
  case (Suc n)
  then obtain x xs where x: "ring_list (kb_buf t i) = x # xs" by (cases "ring_list (kb_buf t i)") auto
  obtain t1 where t1: "c_getchar [] i t = Inr (x, [], t1)" "ring_ok (kb_buf t1 i)" "ring_list (kb_buf t1 i) = xs"
    "con_ok (t_console t1)" using getchar_ring [OF Suc.prems(2) x Suc.prems(3)] by blast
  consider "x = EOT" | "x = 0x0A" | "x \<noteq> EOT" "x \<noteq> 0x0A" by blast
  then show ?case
  proof cases
    case 3
    then obtain l where l: "gets_list n (ring_list (kb_buf t1 i)) = Some (l, rest)" "line = x # l"
      using Suc.prems(1) x t1(3) by auto
    then show ?thesis using Suc.IH [OF l(1) t1(2,4)] t1(1) 3 by auto
  qed (use Suc.prems(1) x t1 in auto)
qed simp

end
