(* ===== verification/Console_Properties.thy ===== *)
theory Console_Properties
  imports Input_Rings
begin

text \<open>
  The properties of the console and of the mouse: the conversions of numbers, the text screen,
  the keyboard and the mouse with their ring buffers, and the sample states of the witnesses.
\<close>

section \<open>Numbers\<close>

text \<open>C23
  The decimal digits that the console prints for a word are read back as that signed number,
  the smallest one included, and fill at most eleven of the twelve bytes of the buffer; the
  hexadecimal digits are read back as the unsigned number and are at most eight.  The octal
  digits of a number below \<^verbatim>\<open>2^29\<close> are those of twice the number.
\<close>

theorem number_conversions:
  "decimal_value (cvtdec v) = sint v \<and> length (cvtdec v) \<le> 11 \<and>
   digits_value 16 (cvthex v) = unat v \<and> length (cvthex v) \<le> 8 \<and>
   (unat v < 2 ^ 29 \<longrightarrow> digits_value 8 (cvtoct v) = 2 * unat v)"
  by (simp add: cvtdec_value cvtdec_length cvthex_value cvthex_length cvtoct_small)

theorem number_conversions_witness:
  "digits_value 8 (cvtoct 8) = 16 \<and> decimal_value (cvtdec 0x80000000) = - 2147483648"
  using number_conversions [of 8] number_conversions [of "0x80000000"] by simp

section \<open>The text screen\<close>

definition console_start :: console where
  "console_start = c_io_init \<lparr>scroll_min_x = 7, scroll_min_y = 7, scroll_max_x = 7, scroll_max_y = 7, curr_x = 7,
     curr_y = 7, min_x = 7, min_y = 7, max_x = 7, max_y = 7, con_video = \<lambda>_. 0, con_out = []\<rparr>"

text \<open>C24
  After the initialization of the console, any sequence of its output operations, with any
  arguments, ends, as long as no format breaks off within a conversion.  The coordinates stay
  well formed, so that the cursor is within the scrolling region or on the line below it, and
  the memory outside the cells of the screen keeps its contents.
\<close>

theorem console_keeps_to_screen:
  assumes "list_all op_complete ops"
  shows "\<exists>con'. con_runs strings ops (c_io_init con) = Inr con' \<and> con_ok con' \<and>
    (\<forall>a. \<not> on_screen a \<longrightarrow> con_video con' a = con_video con a)"
  using con_runs_step [OF io_init_ok assms] by (auto simp: con_step_def io_init_video)

theorem console_keeps_to_screen_witness:
  "\<exists>con'. con_runs (\<lambda>_. [0x41, 0x42])
      [Setscroll 3 60 200 200, Scroll 4, Printf [0x25, 0x35, 0x64, 0x0A, 0x25, 0x73] (\<lambda>n. of_nat n), Putchar_at 200 1 0x0A,
       Clearscroll] console_start = Inr con' \<and> con_ok con' \<and> con_video con' 0x4FFFE = 0"
proof -
  let ?ops = "[Setscroll 3 60 200 200, Scroll 4, Printf [0x25, 0x35, 0x64, 0x0A, 0x25, 0x73] (\<lambda>n. of_nat n),
    Putchar_at 200 1 0x0A, Clearscroll]"
  have c: "list_all op_complete ?ops"
    by (simp add: op_complete_def fmt_complete.simps fmt_options_def fmt_number_def)
  have off: "\<not> on_screen 0x4FFFE"
  proof
    assume "on_screen 0x4FFFE"
    then obtain x y where xy: "x < 106" "y < 64" "(0x4FFFE :: u32) = VIDEO_ADDR (of_nat x) (of_nat y)"
      by (auto simp: on_screen_def)
    define N where "N = 0x50000 + 2 * (y * 106 + x)"
    have "(0x4FFFE :: u32) = of_nat N" unfolding xy(3) by (simp add: VIDEO_ADDR_def N_def)
    then have "unat (0x4FFFE :: u32) = unat (of_nat N :: u32)" by (rule arg_cong)
    moreover have "unat (of_nat N :: u32) = N" by (rule unat_of_nat_u32) (use xy N_def in simp)
    ultimately show False by (simp add: N_def)
  qed
  show ?thesis
    unfolding console_start_def
    using console_keeps_to_screen [OF c, of "\<lambda>_. [0x41, 0x42]"] off by fastforce
qed

section \<open>The keyboard\<close>


definition sample_screens :: screens where
  "sample_screens = \<lparr>
     screen_tab = (\<lambda>_. \<lparr>scr_fb = \<lambda>_. 0, scr_draw_mode = 0, scr_owner = \<lparr>pid_id = 1, pid_host = 0, pid_reserved = 0\<rparr>,
        scr_kb = \<lparr>ib_buffer = \<lambda>_. 0, ib_next_char = Some 198, ib_next_space = Some 198\<rparr>,
        scr_mouse = \<lparr>ib_buffer = \<lambda>_. 0, ib_next_char = Some 0, ib_next_space = Some 0\<rparr>\<rparr>),
     screen_nodes = (\<lambda>_. \<lparr>sqn_handle = 0, sqn_next = None\<rparr>),
     unused_screens = \<lparr>sq_first = None, sq_last = None, sq_length = 0\<rparr>,
     active_screens = \<lparr>sq_first = None, sq_last = None, sq_length = 0\<rparr>, active_screen = 2\<rparr>"

definition sample_terminal :: terminal where
  "sample_terminal = \<lparr>t_shift = 0, t_ctrl_mask = 0xff, t_screens = sample_screens, t_console = console_start\<rparr>"


section \<open>The mouse\<close>

text \<open>C26
  Packets that arrive at an empty ring, up to 199, are read in order, while the size that is
  reported is 200 less their number.  With 200 packets the ring appears empty again: all are
  lost, and a reader waits.
\<close>

theorem mouse_ring_order_and_overrun:
  assumes "ring_ok (mouse_buf s i)" and "ring_list (mouse_buf s i) = []" and "unat (active_screen s) = i"
  shows "\<exists>s'. mouse_isrs ps s = Inr s' \<and>
    (length ps < 200 \<longrightarrow> (\<exists>s''. mouse_gets (length ps) i s' = Inr (ps, s'')) \<and>
       size_mouse i s' = Inr (if ps = [] then 0 else 200 - int (length ps))) \<and>
    (length ps = 200 \<longrightarrow> get_mouse [] i s' = Inl Diverges)"
proof -
  obtain s' where s': "mouse_isrs ps s = Inr s'" "mouse_buf s' i = fold mouse_put ps (mouse_buf s i)"
    using mouse_isrs_ring [OF assms(1,3)] by blast
  have small: "(\<exists>s''. mouse_gets (length ps) i s' = Inr (ps, s'')) \<and>
       size_mouse i s' = Inr (if ps = [] then 0 else 200 - int (length ps))" if "length ps < 200"
  proof -
    have l: "length ps \<le> BUFSIZE - 1" using that by (simp add: BUFSIZE_def)
    have r: "ring_ok (mouse_buf s' i)" "ring_list (mouse_buf s' i) = ps"
      using mouse_ring.store_all [OF assms(1), of ps] l assms(2) s'(2) by simp_all
    then show ?thesis
      using mouse_ring.fifo [OF assms(1,2) l] mouse_gets_ring [of "length ps" s' i] size_mouse_ring [OF r(1)]
      by (auto simp: s'(2) BUFSIZE_def)
  qed
  have "get_mouse [] i s' = Inl Diverges" if "length ps = 200"
  proof -
    have "ps \<noteq> []" using that by auto
    then have p: "ps = butlast ps @ [last ps]" "length (butlast ps) = BUFSIZE - 1" using that by (simp_all add: BUFSIZE_def)
    let ?b = "fold mouse_put (butlast ps) (mouse_buf s i)"
    have b: "ring_ok ?b" "length (ring_list ?b) = BUFSIZE - 1"
      using mouse_ring.store_all [OF assms(1), of "butlast ps"] p(2) assms(2) by simp_all
    have "mouse_buf s' i = mouse_put (last ps) ?b" unfolding s'(2) by (subst p(1)) simp
    then have "ring_ok (mouse_buf s' i)" "ring_list (mouse_buf s' i) = []" using ring_put_facts(1,3) b by simp_all
    then show ?thesis using ring_get_facts(1) by (simp add: get_mouse_def)
  qed
  then show ?thesis using s'(1) small by blast
qed

theorem mouse_ring_order_and_overrun_witness:
  "(\<exists>s' s''. mouse_isrs [9, 8, 7] sample_screens = Inr s' \<and> mouse_gets 3 2 s' = Inr ([9, 8, 7], s'') \<and>
     size_mouse 2 s' = Inr 197) \<and>
   (\<exists>s'. mouse_isrs (replicate 200 5) sample_screens = Inr s' \<and> get_mouse [] 2 s' = Inl Diverges)"
proof -
  have h: "ring_ok (mouse_buf sample_screens 2)" "ring_list (mouse_buf sample_screens 2) = []"
    "unat (active_screen sample_screens) = 2"
    by (simp_all add: sample_screens_def mouse_buf_def ring_ok_def ring_list_def ring_indices_def BUFSIZE_def)
  have "length [9, 8, 7 :: u8] = 3" by simp
  then show ?thesis
    using mouse_ring_order_and_overrun [OF h, of "[9, 8, 7]"] mouse_ring_order_and_overrun [OF h, of "replicate 200 5"]
    by (auto simp: numeral_3_eq_3 simp del: mouse_isrs.simps mouse_gets.simps)
qed

end
