(* ===== verification/Pci.thy ===== *)
theory Pci
  imports Irqs
begin

text \<open>
  The PCI subsystem, \<^verbatim>\<open>drivers/pci/pci.c\<close>: configuration registers behind a pair of ports,
  the configuration header of a device, the scan of the buses, and the list of the devices it
  finds, a doubly linked chain on a heap of structures by address.  The hardware is of an
  arbitrary type; messages that \<^verbatim>\<open>c_printf\<close> prints are recorded with their arguments.
\<close>

section \<open>Data\<close>

record 'h long_ports =
  p_outl :: "u16 \<Rightarrow> u32 \<Rightarrow> 'h \<Rightarrow> 'h"
  p_inl :: "u16 \<Rightarrow> 'h \<Rightarrow> u32 \<times> 'h"

record pci_addr_t =
  pa_bus :: u8
  pa_slot :: u8
  pa_func :: u8
  pa_offset :: u8

text \<open>
  The configuration is filled in as an array of 32 bit words, so it is one: word \<open>i\<close> is the
  register at offset \<open>i\<close>, and the fields of \<^verbatim>\<open>pci_config_t\<close> are parts of words, the lower
  half first.
\<close>

type_synonym pci_config_t = "nat \<Rightarrow> u32"

definition byte_of :: "nat \<Rightarrow> u32 \<Rightarrow> u8" where
  "byte_of i w = ucast (drop_bit (8 * i) w)"

definition half_of :: "nat \<Rightarrow> u32 \<Rightarrow> u16" where
  "half_of i w = ucast (drop_bit (16 * i) w)"

definition vendorId :: "pci_config_t \<Rightarrow> u16" where "vendorId c = half_of 0 (c 0)"
definition deviceId :: "pci_config_t \<Rightarrow> u16" where "deviceId c = half_of 1 (c 0)"
definition pci_command :: "pci_config_t \<Rightarrow> u16" where "pci_command c = half_of 0 (c 1)"
definition pci_status :: "pci_config_t \<Rightarrow> u16" where "pci_status c = half_of 1 (c 1)"
definition revisionId :: "pci_config_t \<Rightarrow> u8" where "revisionId c = byte_of 0 (c 2)"
definition progIF :: "pci_config_t \<Rightarrow> u8" where "progIF c = byte_of 1 (c 2)"
definition subClass :: "pci_config_t \<Rightarrow> u8" where "subClass c = byte_of 2 (c 2)"
definition classCode :: "pci_config_t \<Rightarrow> u8" where "classCode c = byte_of 3 (c 2)"
definition cacheLineSize :: "pci_config_t \<Rightarrow> u8" where "cacheLineSize c = byte_of 0 (c 3)"
definition latencyTimer :: "pci_config_t \<Rightarrow> u8" where "latencyTimer c = byte_of 1 (c 3)"
definition headerType :: "pci_config_t \<Rightarrow> u8" where "headerType c = byte_of 2 (c 3)"
definition pci_bist :: "pci_config_t \<Rightarrow> u8" where "pci_bist c = byte_of 3 (c 3)"
definition type0_bar :: "pci_config_t \<Rightarrow> nat \<Rightarrow> u32" where "type0_bar c i = c (4 + i)"
definition irqLine :: "pci_config_t \<Rightarrow> u8" where "irqLine c = byte_of 0 (c 15)"
definition irqPin :: "pci_config_t \<Rightarrow> u8" where "irqPin c = byte_of 1 (c 15)"

record pci_device_t =
  pd_address :: pci_addr_t
  pd_config :: pci_config_t
  pd_memory_space :: u32
  pd_next :: u32
  pd_prev :: u32

record pci_device_list_t =
  pl_size :: u32
  pl_first :: u32
  pl_last :: u32

text \<open>The structures lie in memory that the kernel's allocator hands out; null is 0.\<close>

record 'h pci =
  pci_hw :: 'h
  pci_mem :: "unit irqs"
  pci_devs :: "u32 \<Rightarrow> pci_device_t"
  pci_lists :: "u32 \<Rightarrow> pci_device_list_t"
  pci_log :: "(string \<times> u32 list) list"

definition ln :: "string \<Rightarrow> string" where
  "ln fmt = fmt @ [CHR 0x0A]"

definition pci_printf :: "string \<Rightarrow> u32 list \<Rightarrow> 'h pci \<Rightarrow> 'h pci" where
  "pci_printf fmt args s = s\<lparr>pci_log := pci_log s @ [(fmt, args)]\<rparr>"

definition set_device :: "u32 \<Rightarrow> pci_device_t \<Rightarrow> 'h pci \<Rightarrow> 'h pci" where
  "set_device a d s = s\<lparr>pci_devs := (pci_devs s)(a := d)\<rparr>"

definition set_device_list :: "u32 \<Rightarrow> pci_device_list_t \<Rightarrow> 'h pci \<Rightarrow> 'h pci" where
  "set_device_list a l s = s\<lparr>pci_lists := (pci_lists s)(a := l)\<rparr>"

abbreviation PCI_CONFIG_ADDRESS :: u16 where "PCI_CONFIG_ADDRESS \<equiv> 0xCF8"
abbreviation PCI_CONFIG_DATA :: u16 where "PCI_CONFIG_DATA \<equiv> 0xCFC"
abbreviation (input) PCI_MAX_BUS_COUNT :: nat where "PCI_MAX_BUS_COUNT \<equiv> 0x100"
abbreviation (input) PCI_MAX_SLOT_COUNT :: nat where "PCI_MAX_SLOT_COUNT \<equiv> 0x20"
abbreviation (input) PCI_MAX_FUNC_COUNT :: nat where "PCI_MAX_FUNC_COUNT \<equiv> 8"
abbreviation (input) PCI_TYPE0_MAX_OFFSET :: nat where "PCI_TYPE0_MAX_OFFSET \<equiv> 0x3c"
abbreviation (input) PCI_TYPE1_MAX_OFFSET :: nat where "PCI_TYPE1_MAX_OFFSET \<equiv> 0x3c"
abbreviation (input) PCI_TYPE2_MAX_OFFSET :: nat where "PCI_TYPE2_MAX_OFFSET \<equiv> 0x44"
abbreviation (input) PCI_HEADER_1_BAR_START :: u8 where "PCI_HEADER_1_BAR_START \<equiv> 4"
abbreviation (input) PCI_HEADER_1_BAR_COUNT :: nat where "PCI_HEADER_1_BAR_COUNT \<equiv> 6"
abbreviation PCI_BAR_ADDR_MASK :: u32 where "PCI_BAR_ADDR_MASK \<equiv> 0xfffffff0"
abbreviation PCI_BAR_IOSPACE_MASK :: u32 where "PCI_BAR_IOSPACE_MASK \<equiv> 0xFFFFFFFC"
abbreviation PCI_CMD_INTERRUPT_DISABLE :: u32 where "PCI_CMD_INTERRUPT_DISABLE \<equiv> 0x400"
abbreviation (input) PCI_COMMAND_REG :: u8 where "PCI_COMMAND_REG \<equiv> 1"
abbreviation sizeof_pci_device :: u32 where "sizeof_pci_device \<equiv> 88"
abbreviation sizeof_pci_device_list :: u32 where "sizeof_pci_device_list \<equiv> 12"

section \<open>Configuration registers\<close>

definition config_word :: "u8 \<Rightarrow> pci_addr_t \<Rightarrow> u32" where
  "config_word configAddr addr =
     push_bit 16 (ucast (pa_bus addr) AND 0xff) OR push_bit 11 (ucast (pa_slot addr) AND 0x1f) OR
     push_bit 8 (ucast (pa_func addr) AND 0x07) OR push_bit 31 (ucast configAddr) OR
     push_bit 2 (ucast (pa_offset addr AND 0x3f))"

text \<open>The place of the value is \<open>None\<close> for the null pointer, and otherwise what it held.\<close>

definition pci_read_long ::
  "'h long_ports \<Rightarrow> u8 \<Rightarrow> pci_addr_t \<Rightarrow> u32 option \<Rightarrow> 'h \<Rightarrow> status_t \<times> u32 option \<times> 'h" where
  "pci_read_long P configAddr addr val h =
     (case val of
        None \<Rightarrow> (E_BAD_PARAM, None, h)
      | Some _ \<Rightarrow>
          (case p_inl P PCI_CONFIG_DATA (p_outl P PCI_CONFIG_ADDRESS (config_word configAddr addr) h) of
             (v, h') \<Rightarrow> (E_SUCCESS, Some v, h')))"

definition pci_read_short ::
  "'h long_ports \<Rightarrow> u8 \<Rightarrow> pci_addr_t \<Rightarrow> u8 \<Rightarrow> u16 \<Rightarrow> 'h \<Rightarrow> status_t \<times> u16 \<times> 'h" where
  "pci_read_short P configAddr addr byte_offset val h =
     (if byte_offset > 2 then (E_BAD_PARAM, val, h)
      else case pci_read_long P configAddr addr (Some 0) h of
             (st, buffer, h') \<Rightarrow>
               (st, if st = E_SUCCESS then ucast (drop_bit (unat byte_offset * 8) (the buffer) AND 0xffff) else val, h'))"

definition pci_read_byte ::
  "'h long_ports \<Rightarrow> u8 \<Rightarrow> pci_addr_t \<Rightarrow> u8 \<Rightarrow> u8 \<Rightarrow> 'h \<Rightarrow> status_t \<times> u8 \<times> 'h" where
  "pci_read_byte P configAddr addr byte_offset val h =
     (if byte_offset > 3 then (E_BAD_PARAM, val, h)
      else case pci_read_long P configAddr addr (Some 0) h of
             (st, buffer, h') \<Rightarrow>
               (st, if st = E_SUCCESS then ucast (drop_bit (unat byte_offset * 8) (the buffer) AND 0xff) else val, h'))"

definition pci_write_long :: "'h long_ports \<Rightarrow> u8 \<Rightarrow> pci_addr_t \<Rightarrow> u32 \<Rightarrow> 'h \<Rightarrow> status_t \<times> 'h" where
  "pci_write_long P configAddr addr val h =
     (E_SUCCESS, p_outl P PCI_CONFIG_DATA val (p_outl P PCI_CONFIG_ADDRESS (config_word configAddr addr) h))"

definition pci_write_short ::
  "'h long_ports \<Rightarrow> u8 \<Rightarrow> pci_addr_t \<Rightarrow> u8 \<Rightarrow> u16 \<Rightarrow> 'h \<Rightarrow> status_t \<times> 'h" where
  "pci_write_short P configAddr addr byte_offset val h =
     (if byte_offset > 2 then (E_BAD_PARAM, h)
      else case pci_read_long P configAddr addr (Some 0) h of
             (st, buffer, h') \<Rightarrow>
               if st \<noteq> E_SUCCESS then (st, h')
               else pci_write_long P configAddr addr
                      (the buffer OR push_bit (unat byte_offset * 8) (ucast val AND 0xffff)) h')"

definition pci_write_byte ::
  "'h long_ports \<Rightarrow> u8 \<Rightarrow> pci_addr_t \<Rightarrow> u8 \<Rightarrow> u8 \<Rightarrow> 'h \<Rightarrow> status_t \<times> 'h" where
  "pci_write_byte P configAddr addr byte_offset val h =
     (if byte_offset > 3 then (E_BAD_PARAM, h)
      else case pci_read_long P configAddr addr (Some 0) h of
             (st, buffer, h') \<Rightarrow>
               if st \<noteq> E_SUCCESS then (st, h')
               else pci_write_long P configAddr addr
                      (the buffer OR push_bit (unat byte_offset * 8) (ucast val AND 0xff)) h')"

definition pci_set_bits :: "'h long_ports \<Rightarrow> u8 \<Rightarrow> pci_addr_t \<Rightarrow> u32 \<Rightarrow> u8 \<Rightarrow> 'h \<Rightarrow> status_t \<times> 'h" where
  "pci_set_bits P configAddr addr m state h =
     (case pci_read_long P configAddr addr (Some 0) h of
        (st, val, h') \<Rightarrow>
          if st \<noteq> E_SUCCESS then (st, h')
          else pci_write_long P configAddr addr
                 (if state = 0 then the val AND NOT m else the val OR m) h')"

section \<open>The configuration header\<close>

text \<open>The loops read consecutive registers, here a given number of them.\<close>

fun read_registers ::
  "'h long_ports \<Rightarrow> nat \<Rightarrow> pci_addr_t \<Rightarrow> nat \<Rightarrow> pci_config_t \<Rightarrow> 'h \<Rightarrow> status_t \<times> pci_addr_t \<times> pci_config_t \<times> 'h" where
  "read_registers P 0 addr i c h = (E_SUCCESS, addr, c, h)"
| "read_registers P (Suc n) addr i c h =
     (case pci_read_long P 1 addr (Some (c i)) h of
        (st, val, h') \<Rightarrow>
          if st \<noteq> E_SUCCESS then (st, addr, c, h')
          else read_registers P n (addr\<lparr>pa_offset := pa_offset addr + 1\<rparr>) (i + 1) (c(i := the val)) h')"

text \<open>The limit of each header type, in bytes; other types have nothing behind the common part.\<close>

definition header_limit :: "u8 \<Rightarrow> nat" where
  "header_limit ht =
     (if ht = 0 then PCI_TYPE0_MAX_OFFSET else if ht = 1 then PCI_TYPE1_MAX_OFFSET
      else if ht = 2 then PCI_TYPE2_MAX_OFFSET else 0x10)"

definition pci_read_config ::
  "'h long_ports \<Rightarrow> pci_addr_t \<Rightarrow> pci_config_t \<Rightarrow> 'h \<Rightarrow> status_t \<times> pci_config_t \<times> 'h" where
  "pci_read_config P addr c h =
     (case read_registers P (0x10 div 4) (addr\<lparr>pa_offset := 0\<rparr>) 0 c h of
        (st, addr1, c1, h1) \<Rightarrow>
          if st \<noteq> E_SUCCESS then (st, c1, h1)
          else case read_registers P (header_limit (headerType c1) div 4 - 4) addr1 4 c1 h1 of
                 (st2, addr2, c2, h2) \<Rightarrow> (st2, c2, h2))"

definition PCI_IS_IOBARR :: "u32 \<Rightarrow> u32" where
  "PCI_IS_IOBARR x = x AND 0x1"

definition PCI_GET_BAR_TYPE :: "u32 \<Rightarrow> u32" where
  "PCI_GET_BAR_TYPE x = drop_bit 1 x AND 0x3"

definition pci_base_addr :: "u32 \<Rightarrow> u32 outcome" where
  "pci_base_addr bar_value =
     (if PCI_IS_IOBARR bar_value = 1 then Inr (bar_value AND PCI_BAR_IOSPACE_MASK)
      else if PCI_GET_BAR_TYPE bar_value = 0 then Inr (bar_value AND PCI_BAR_ADDR_MASK)
      else if PCI_GET_BAR_TYPE bar_value = 2 then Inr (bar_value AND PCI_BAR_ADDR_MASK)
      else Inl (Panic ''NOT_SUPPORTED: _pci_base_addr - Unsupported PCI BAR''))"

text \<open>The place of the size as before; what the register held comes from the first register.\<close>

definition pci_read_bar_size ::
  "'h long_ports \<Rightarrow> u32 \<Rightarrow> u8 \<Rightarrow> u32 option \<Rightarrow> 'h pci \<Rightarrow> status_t \<times> u32 option \<times> 'h pci" where
  "pci_read_bar_size P device bar_index sz s =
     (let d = pci_devs s device; barAddr = pd_address d
      in if sz = None \<or> device = 0 then (E_BAD_PARAM, sz, s)
         else if headerType (pd_config d) \<noteq> 0 then (E_NOT_IMPLEMENTED, sz, s)
         else if PCI_HEADER_1_BAR_COUNT - 1 < unat bar_index then (E_BAD_PARAM, sz, s)
         else let barAddr = barAddr\<lparr>pa_offset := PCI_HEADER_1_BAR_START + bar_index\<rparr>;
                  original_bar = type0_bar (pd_config d) 0;
                  (_, h1) = pci_write_long P 1 barAddr 0xffffffff (pci_hw s);
                  (_, v, h2) = pci_read_long P 1 barAddr sz h1;
                  (st, h3) = pci_write_long P 1 barAddr original_bar h2
              in (st, Some (NOT (the v AND PCI_BAR_ADDR_MASK) + 1), s\<lparr>pci_hw := h3\<rparr>))"

definition pci_mask_inta :: "'h long_ports \<Rightarrow> u32 \<Rightarrow> 'h pci \<Rightarrow> status_t \<times> 'h pci" where
  "pci_mask_inta P device s =
     (case pci_set_bits P 1 ((pd_address (pci_devs s device))\<lparr>pa_offset := PCI_COMMAND_REG\<rparr>)
             PCI_CMD_INTERRUPT_DISABLE 1 (pci_hw s) of
        (st, h) \<Rightarrow> (st, s\<lparr>pci_hw := h\<rparr>))"

section \<open>The list of devices\<close>

definition null_device :: pci_device_t where
  "null_device = \<lparr>pd_address = \<lparr>pa_bus = 0, pa_slot = 0, pa_func = 0, pa_offset = 0\<rparr>, pd_config = (\<lambda>_. 0),
     pd_memory_space = 0, pd_next = 0, pd_prev = 0\<rparr>"

definition pci_alloc_device :: "'h pci \<Rightarrow> u32 \<times> status_t \<times> 'h pci" where
  "pci_alloc_device s =
     (case kalloc sizeof_pci_device (pci_mem s) of
        (a, m) \<Rightarrow> (a, E_SUCCESS, set_device a null_device (s\<lparr>pci_mem := m\<rparr>)))"

definition pci_alloc_device_list :: "'h pci \<Rightarrow> u32 \<times> status_t \<times> 'h pci" where
  "pci_alloc_device_list s =
     (case kalloc sizeof_pci_device_list (pci_mem s) of
        (a, m) \<Rightarrow> (a, E_SUCCESS, set_device_list a \<lparr>pl_size = 0, pl_first = 0, pl_last = 0\<rparr> (s\<lparr>pci_mem := m\<rparr>)))"

definition pci_append_device :: "u32 \<Rightarrow> u32 \<Rightarrow> 'h pci \<Rightarrow> status_t \<times> 'h pci" where
  "pci_append_device list device s =
     (if list = 0 \<or> device = 0 then
        (E_BAD_PARAM, pci_printf (ln ''Passed list=0x%x device=0x%x'') [list, device] s)
      else let l = pci_lists s list;
               (l', s1) =
                 (if pl_last l = 0 then
                    (l\<lparr>pl_last := device, pl_first := device\<rparr>,
                     set_device device ((pci_devs s device)\<lparr>pd_next := 0, pd_prev := 0\<rparr>) s)
                  else let s1 = set_device (pl_last l) ((pci_devs s (pl_last l))\<lparr>pd_next := device\<rparr>) s;
                           s2 = set_device device ((pci_devs s1 device)\<lparr>pd_prev := pl_last l\<rparr>) s1
                       in (l\<lparr>pl_last := device\<rparr>, s2))
           in (E_SUCCESS, set_device_list list (l'\<lparr>pl_size := pl_size l' + 1\<rparr>) s1))"

text \<open>The loops that follow \<^verbatim>\<open>next\<close>; a chain that is not one may never end.\<close>

partial_function (option) find_device :: "(u32 \<Rightarrow> pci_device_t) \<Rightarrow> (pci_device_t \<Rightarrow> bool) \<Rightarrow> u32 \<Rightarrow> u32 option" where
  "find_device devs p a =
     (if a = 0 then Some 0 else if p (devs a) then Some a else find_device devs p (pd_next (devs a)))"

text \<open>The result is \<open>None\<close> for a loop without end; the place of the device as that of a value.\<close>

definition pci_get_device ::
  "u32 \<Rightarrow> u32 option \<Rightarrow> u16 \<Rightarrow> u16 \<Rightarrow> 'h pci \<Rightarrow> (status_t \<times> u32 option) option" where
  "pci_get_device list device vendor_id device_id s =
     (if device = None then Some (E_BAD_PARAM, None)
      else case find_device (pci_devs s)
                  (\<lambda>d. vendorId (pd_config d) = vendor_id \<and> deviceId (pd_config d) = device_id)
                  (pl_first (pci_lists s list)) of
             None \<Rightarrow> None
           | Some a \<Rightarrow> Some (if a = 0 then E_NOT_FOUND else E_SUCCESS, Some a))"

definition pci_get_device_by_address ::
  "u32 \<Rightarrow> u32 option \<Rightarrow> pci_addr_t \<Rightarrow> 'h pci \<Rightarrow> (status_t \<times> u32 option) option" where
  "pci_get_device_by_address list device addr s =
     (if device = None \<or> PCI_MAX_BUS_COUNT \<le> unat (pa_bus addr) \<or> PCI_MAX_SLOT_COUNT \<le> unat (pa_slot addr) \<or>
         PCI_MAX_FUNC_COUNT \<le> unat (pa_func addr) then Some (E_BAD_PARAM, device)
      else case find_device (pci_devs s)
                  (\<lambda>d. pa_bus (pd_address d) = pa_bus addr \<and> pa_slot (pd_address d) = pa_slot addr \<and>
                        pa_func (pd_address d) = pa_func addr)
                  (pl_first (pci_lists s list)) of
             None \<Rightarrow> None
           | Some a \<Rightarrow> Some (if a = 0 then E_NOT_FOUND else E_SUCCESS, Some a))"

section \<open>The scan\<close>

text \<open>A device that answered is put into the list, with the size of its first register.\<close>

definition add_device ::
  "'h long_ports \<Rightarrow> u32 \<Rightarrow> pci_addr_t \<Rightarrow> pci_config_t \<Rightarrow> 'h pci \<Rightarrow> status_t \<times> 'h pci" where
  "add_device P list addr config s =
     (case pci_alloc_device s of
        (device, _, s1) \<Rightarrow>
          let s2 = set_device device ((pci_devs s1 device)\<lparr>pd_address := addr, pd_config := config\<rparr>) s1;
              s3 = (if headerType config = 0 then
                      (case pci_read_bar_size P device 0 (Some (pd_memory_space (pci_devs s2 device))) s2 of
                         (_, sz, s3) \<Rightarrow> set_device device ((pci_devs s3 device)\<lparr>pd_memory_space := the sz\<rparr>) s3)
                    else s2)
          in pci_append_device list device s3)"

text \<open>
  The local variable \<^verbatim>\<open>config\<close> is handed on, as a read fills in a part of it only; the first
  component tells whether the function returned.
\<close>

fun scan_functions ::
  "'h long_ports \<Rightarrow> u32 \<Rightarrow> pci_addr_t \<Rightarrow> nat \<Rightarrow> nat \<Rightarrow> pci_config_t \<Rightarrow> 'h pci \<Rightarrow> bool \<times> status_t \<times> pci_config_t \<times> 'h pci" where
  "scan_functions P list addr func 0 config s = (False, E_SUCCESS, config, s)"
| "scan_functions P list addr func (Suc n) config s =
     (let addr' = addr\<lparr>pa_func := of_nat func\<rparr>;
          (st, config', h) = pci_read_config P addr' config (pci_hw s);
          s1 = s\<lparr>pci_hw := h\<rparr>
      in if st \<noteq> E_SUCCESS then (True, st, config', s1)
         else if deviceId config' \<noteq> 0xffff then
           (case add_device P list addr' config' s1 of
              (st2, s2) \<Rightarrow> if st2 \<noteq> E_SUCCESS then (True, st2, config', s2)
                           else scan_functions P list addr (func + 1) n config' s2)
         else scan_functions P list addr (func + 1) n config' s1)"

fun scan_slots ::
  "'h long_ports \<Rightarrow> u32 \<Rightarrow> pci_addr_t \<Rightarrow> nat \<Rightarrow> nat \<Rightarrow> pci_config_t \<Rightarrow> 'h pci \<Rightarrow> bool \<times> status_t \<times> pci_config_t \<times> 'h pci" where
  "scan_slots P list addr slot 0 config s = (False, E_SUCCESS, config, s)"
| "scan_slots P list addr slot (Suc n) config s =
     (let addr' = addr\<lparr>pa_slot := of_nat slot, pa_func := 0\<rparr>;
          (st, config', h) = pci_read_config P addr' config (pci_hw s);
          s1 = s\<lparr>pci_hw := h\<rparr>
      in if st \<noteq> E_SUCCESS then (False, st, config', s1)
         else if deviceId config' \<noteq> 0xffff then
           (case add_device P list addr' config' s1 of
              (st2, s2) \<Rightarrow>
                if st2 \<noteq> E_SUCCESS then (True, st2, config', s2)
                else if headerType config' AND 0x80 \<noteq> 0 then
                  (case scan_functions P list addr' 1 (PCI_MAX_FUNC_COUNT - 1) config' s2 of
                     (returned, st3, config'', s3) \<Rightarrow>
                       if returned then (True, st3, config'', s3)
                       else scan_slots P list addr (slot + 1) n config'' s3)
                else scan_slots P list addr (slot + 1) n config' s2)
         else scan_slots P list addr (slot + 1) n config' s1)"

fun scan_buses ::
  "'h long_ports \<Rightarrow> u32 \<Rightarrow> nat \<Rightarrow> nat \<Rightarrow> status_t \<Rightarrow> pci_config_t \<Rightarrow> 'h pci \<Rightarrow> status_t \<times> 'h pci" where
  "scan_buses P list bus 0 st config s = (st, s)"
| "scan_buses P list bus (Suc n) st config s =
     (case scan_slots P list \<lparr>pa_bus = of_nat bus, pa_slot = 0, pa_func = 0, pa_offset = 0\<rparr> 0 PCI_MAX_SLOT_COUNT config s of
        (returned, st', config', s') \<Rightarrow>
          if returned then (st', s') else scan_buses P list (bus + 1) n st' config' s')"

text \<open>What the local variable holds at first is an argument.\<close>

definition pci_scan :: "'h long_ports \<Rightarrow> pci_config_t \<Rightarrow> u32 \<Rightarrow> 'h pci \<Rightarrow> status_t \<times> 'h pci" where
  "pci_scan P config list s =
     scan_buses P list 0 PCI_MAX_BUS_COUNT E_SUCCESS config
       (set_device_list list ((pci_lists s list)\<lparr>pl_first := 0, pl_last := 0\<rparr>) s)"

definition pci_init :: "'h long_ports \<Rightarrow> pci_config_t \<Rightarrow> u32 \<Rightarrow> 'h pci \<Rightarrow> status_t \<times> 'h pci" where
  "pci_init P config pci_devices s =
     (case pci_scan P config pci_devices s of
        (st, s1) \<Rightarrow>
          if st \<noteq> E_SUCCESS
          then (st, pci_printf (ln ''PCI bus scan failed with error 0x%x'') [st] s1)
          else (st, pci_printf (ln ''Detected %d PCI devices'') [pl_size (pci_lists s1 pci_devices)] s1))"

section \<open>Printing\<close>

text \<open>
  The registers of a header of type 0; \<^verbatim>\<open>addr\<close> is reused for the size.  The word behind the
  last register is the next one of the header.
\<close>

function print_bars :: "'h long_ports \<Rightarrow> u32 \<Rightarrow> nat \<Rightarrow> 'h pci \<Rightarrow> 'h pci outcome" where
  "print_bars P device i s =
     (if PCI_HEADER_1_BAR_COUNT \<le> i then Inr s
      else let bars = type0_bar (pd_config (pci_devs s device)); bar = bars i
           in if bar = 0 then print_bars P device (i + 1) s
              else andThen (pci_base_addr bar) (\<lambda>addr.
                if PCI_IS_IOBARR bar = 1 then
                  print_bars P device (i + 1) (pci_printf (ln ''    BAR%d: 0x%x iospace'') [of_nat i, addr] s)
                else if PCI_GET_BAR_TYPE bar = 0 then
                  (case pci_read_bar_size P device (of_nat i) (Some addr)
                          (pci_printf (ln ''    BAR%d:      0x%x 32bit'') [of_nat i, addr] s) of
                     (_, sz, s1) \<Rightarrow>
                       print_bars P device (i + 1) (pci_printf (ln ''    BAR%d_Size: %d bytes'') [of_nat i, the sz] s1))
                else if PCI_GET_BAR_TYPE bar = 2 then
                  (case pci_read_bar_size P device (of_nat i) (Some addr)
                          (pci_printf (ln ''    BAR%d:      0x%x%x 64bit'') [of_nat i, bars (i + 1), addr] s) of
                     (_, sz, s1) \<Rightarrow>
                       print_bars P device (i + 2) (pci_printf (ln ''    BAR%d_Size: %d bytes'') [of_nat i, the sz] s1))
                else print_bars P device (i + 1) s))"
  by pat_completeness auto

termination
  by (relation "measure (\<lambda>(P, device, i, s). 6 - i)") auto

declare print_bars.simps [simp del]

definition print_all :: "(string \<times> u32 list) list \<Rightarrow> 'h pci \<Rightarrow> 'h pci" where
  "print_all msgs s = fold (\<lambda>(fmt, args). pci_printf fmt args) msgs s"

definition pci_print_config :: "'h long_ports \<Rightarrow> u32 \<Rightarrow> 'h pci \<Rightarrow> 'h pci outcome" where
  "pci_print_config P device s =
     (let d = pci_devs s device; a = pd_address d; c = pd_config d;
          s1 = print_all
            [(ln ''Bus=%d Slot=%d Func=%d'', [ucast (pa_bus a), ucast (pa_slot a), ucast (pa_func a)]),
             (ln ''    DeviceId:  0x%x'', [ucast (deviceId c)]),
             (ln ''    VendorId:  0x%x'', [ucast (vendorId c)]),
             (''    Status:    0x%x'', [ucast (pci_status c)])] s;
          s2 = (if 0x8 AND pci_status c \<noteq> 0 then pci_printf ''    IRQ Triggered'' [] s1 else s1);
          s3 = print_all
            [(ln [], []),
             (ln ''    Command:   0x%x'', [ucast (pci_command c)]),
             (ln ''    Class:     0x%x'', [ucast (classCode c)]),
             (ln ''    SubClass:  0x%x'', [ucast (subClass c)]),
             (ln ''    ProgIF:    0x%x'', [ucast (progIF c)]),
             (ln ''    Revision:  0x%x'', [ucast (revisionId c)]),
             (ln ''    BIST:      0x%x'', [ucast (pci_bist c)]),
             (ln ''    Header:    0x%x'', [ucast (headerType c)]),
             (ln ''    Latency:   0x%x'', [ucast (latencyTimer c)]),
             (ln ''    CacheSize: 0x%x'', [ucast (cacheLineSize c)]),
             (ln ''    IRQLine:   0x%x'', [ucast (irqLine c)]),
             (ln ''    IRQPin:    0x%x'', [ucast (irqPin c)])] s2
      in if headerType c = 0 then print_bars P device 0 s3 else Inr s3)"

end
