(* ===== verification/Pci_Lemmas.thy ===== *)
theory Pci_Lemmas
  imports Pci
begin

text \<open>
  Lemmas of the PCI subsystem: the effect of the register operations on hardware with the
  documented configuration mechanism, the chain of devices as a list, and the scan as the
  enumeration of the functions that are present.
\<close>

section \<open>The hardware\<close>

text \<open>
  What the code relies on: the first port latches an address, the second one reads or writes
  the register of that address.  A write may leave bits alone, as \<open>wr\<close> says.
\<close>

definition config_mechanism ::
  "'h long_ports \<Rightarrow> ('h \<Rightarrow> u32) \<Rightarrow> ('h \<Rightarrow> u32 \<Rightarrow> u32) \<Rightarrow> (u32 \<Rightarrow> u32 \<Rightarrow> u32 \<Rightarrow> u32) \<Rightarrow> bool" where
  "config_mechanism P latch regs wr \<longleftrightarrow>
     (\<forall>h a. latch (p_outl P PCI_CONFIG_ADDRESS a h) = a \<and> regs (p_outl P PCI_CONFIG_ADDRESS a h) = regs h) \<and>
     (\<forall>h. fst (p_inl P PCI_CONFIG_DATA h) = regs h (latch h) \<and> regs (snd (p_inl P PCI_CONFIG_DATA h)) = regs h) \<and>
     (\<forall>h v. regs (p_outl P PCI_CONFIG_DATA v h) = (regs h)(latch h := wr (latch h) (regs h (latch h)) v))"

text \<open>Writing back what a register held undoes the probe for its size.\<close>

definition probe_undone :: "(u32 \<Rightarrow> u32 \<Rightarrow> u32 \<Rightarrow> u32) \<Rightarrow> (u32 \<Rightarrow> u32) \<Rightarrow> bool" where
  "probe_undone wr R \<longleftrightarrow> (\<forall>a. wr a (wr a (R a) 0xffffffff) (R a) = R a)"

lemma read_long_ok:
  assumes "config_mechanism P latch regs wr"
  obtains h' where "pci_read_long P ca addr (Some x) h = (E_SUCCESS, Some (regs h (config_word ca addr)), h')"
    and "regs h' = regs h"
proof -
  let ?h1 = "p_outl P PCI_CONFIG_ADDRESS (config_word ca addr) h"
  obtain v h' where i: "p_inl P PCI_CONFIG_DATA ?h1 = (v, h')" by fastforce
  then have "v = regs ?h1 (latch ?h1)" "regs h' = regs ?h1"
    using assms by (simp_all add: config_mechanism_def) (metis fst_conv snd_conv)+
  then have "v = regs h (config_word ca addr)" "regs h' = regs h"
    using assms by (simp_all add: config_mechanism_def)
  then show ?thesis using that [of h'] i by (simp add: pci_read_long_def)
qed

lemma write_long_ok:
  assumes "config_mechanism P latch regs wr"
  obtains h' where "pci_write_long P ca addr v h = (E_SUCCESS, h')"
    and "regs h' = (regs h)(config_word ca addr := wr (config_word ca addr) (regs h (config_word ca addr)) v)"
  using that assms by (simp add: pci_write_long_def config_mechanism_def)

section \<open>Addresses of registers\<close>

lemma bit_field:
  fixes x :: u8
  shows "k \<le> 8 \<Longrightarrow> bit (push_bit m (ucast x AND (mask k :: u32))) n \<longleftrightarrow> n < 32 \<and> m \<le> n \<and> n - m < k \<and> bit x (n - m)"
  by (auto simp: bit_push_bit_iff bit_and_iff bit_mask_iff bit_ucast_iff)

lemma bit_top: "bit (push_bit 31 (ucast (x :: u8) :: u32)) n \<longleftrightarrow> n = 31 \<and> bit x 0"
  by (cases "n = 31") (auto simp: bit_push_bit_iff bit_ucast_iff)

lemma config_word_bits:
  "bit (config_word ca a) n \<longleftrightarrow>
     n < 32 \<and> 16 \<le> n \<and> n - 16 < 8 \<and> bit (pa_bus a) (n - 16) \<or>
     n < 32 \<and> 11 \<le> n \<and> n - 11 < 5 \<and> bit (pa_slot a) (n - 11) \<or>
     n < 32 \<and> 8 \<le> n \<and> n - 8 < 3 \<and> bit (pa_func a) (n - 8) \<or>
     n = 31 \<and> bit ca 0 \<or>
     n < 32 \<and> 2 \<le> n \<and> n - 2 < 6 \<and> bit (pa_offset a) (n - 2)"
proof -
  have m: "(0xff :: u32) = mask 8" "(0x1f :: u32) = mask 5" "(7 :: u32) = mask 3"
    "ucast (pa_offset a AND 0x3f) = (ucast (pa_offset a) AND mask 6 :: u32)"
    by (simp_all add: mask_eq_exp_minus_1 unsigned_and_eq)
  show ?thesis unfolding config_word_def m by (simp only: bit_or_iff bit_field bit_top disj_assoc)
qed

text \<open>The fields of an address as the word has them: 8 bits, 5, 3 and 6.\<close>

lemma config_word_fields:
  "ucast (drop_bit 16 (config_word ca a)) = pa_bus a"
  "ucast (drop_bit 11 (config_word ca a)) AND mask 5 = pa_slot a AND mask 5"
  "ucast (drop_bit 8 (config_word ca a)) AND mask 3 = pa_func a AND mask 3"
  "ucast (drop_bit 2 (config_word ca a)) AND mask 6 = pa_offset a AND mask 6"
proof -
  have b: "n < 8 \<Longrightarrow> bit (config_word ca a) (n + 16) = bit (pa_bus a) n" for n
    by (simp add: config_word_bits)
  have c: "n < 5 \<Longrightarrow> bit (config_word ca a) (n + 11) = bit (pa_slot a) n" for n
    by (simp add: config_word_bits)
  have d: "n < 3 \<Longrightarrow> bit (config_word ca a) (n + 8) = bit (pa_func a) n" for n
    by (simp add: config_word_bits)
  have e: "n < 6 \<Longrightarrow> bit (config_word ca a) (Suc (Suc n)) = bit (pa_offset a) n" for n
    by (simp add: config_word_bits)
  show "ucast (drop_bit 16 (config_word ca a)) = pa_bus a"
    by (rule bit_word_eqI) (simp add: bit_ucast_iff bit_drop_bit_eq b add.commute)
  show "ucast (drop_bit 11 (config_word ca a)) AND mask 5 = pa_slot a AND mask 5"
    by (rule bit_word_eqI) (auto simp: bit_ucast_iff bit_drop_bit_eq bit_and_iff bit_mask_iff c add.commute)
  show "ucast (drop_bit 8 (config_word ca a)) AND mask 3 = pa_func a AND mask 3"
    by (rule bit_word_eqI) (auto simp: bit_ucast_iff bit_drop_bit_eq bit_and_iff bit_mask_iff d add.commute)
  show "ucast (drop_bit 2 (config_word ca a)) AND mask 6 = pa_offset a AND mask 6"
    by (rule bit_word_eqI) (auto simp: bit_ucast_iff bit_drop_bit_eq bit_and_iff bit_mask_iff e add.commute)
qed

lemma small_mask:
  fixes x :: u8
  shows "unat x < 2 ^ k \<Longrightarrow> x AND mask k = x"
  by (simp add: take_bit_eq_mask [symmetric] word_unat_eq_iff unsigned_take_bit_eq take_bit_nat_eq_self)

section \<open>Reading a header\<close>

definition reg_of :: "(u32 \<Rightarrow> u32) \<Rightarrow> pci_addr_t \<Rightarrow> nat \<Rightarrow> u32" where
  "reg_of R addr i = R (config_word 1 (addr\<lparr>pa_offset := of_nat i\<rparr>))"

lemma read_registers_ok:
  assumes M: "config_mechanism P latch regs wr"
  shows "regs h = R \<Longrightarrow> pa_offset addr = of_nat i \<Longrightarrow>
    \<exists>h'. read_registers P n addr i c h =
        (E_SUCCESS, addr\<lparr>pa_offset := of_nat (i + n)\<rparr>, (\<lambda>j. if i \<le> j \<and> j < i + n then reg_of R addr j else c j), h') \<and>
      regs h' = R"
proof (induction n arbitrary: addr i c h)
  case 0
  then show ?case by (cases addr) (auto simp: fun_eq_iff)
next
  case (Suc n)
  obtain h1 where h1: "pci_read_long P 1 addr (Some (c i)) h = (E_SUCCESS, Some (regs h (config_word 1 addr)), h1)"
    "regs h1 = regs h" by (rule read_long_ok [OF M])
  have v: "regs h (config_word 1 addr) = reg_of R addr i"
    using Suc.prems by (cases addr) (simp add: reg_of_def)
  let ?a = "addr\<lparr>pa_offset := pa_offset addr + 1\<rparr>"
  have "regs h1 = R" "pa_offset ?a = of_nat (i + 1)" using h1(2) Suc.prems by simp_all
  from Suc.IH [OF this, where c = "c(i := reg_of R addr i)"] obtain h' where h':
    "read_registers P n ?a (i + 1) (c(i := reg_of R addr i)) h1 =
      (E_SUCCESS, ?a\<lparr>pa_offset := of_nat (i + 1 + n)\<rparr>,
       (\<lambda>j. if i + 1 \<le> j \<and> j < i + 1 + n then reg_of R ?a j else (c(i := reg_of R addr i)) j), h')" "regs h' = R"
    by blast
  have "(\<lambda>j. if i + 1 \<le> j \<and> j < i + 1 + n then reg_of R ?a j else (c(i := reg_of R addr i)) j) =
      (\<lambda>j. if i \<le> j \<and> j < i + Suc n then reg_of R addr j else c j)"
    by (auto simp: fun_eq_iff reg_of_def)
  then show ?case using h1(1) h' by (simp add: v add.commute)
qed

text \<open>What a read leaves in the structure: the registers up to the limit, the old words behind.\<close>

definition header_words :: "(u32 \<Rightarrow> u32) \<Rightarrow> pci_addr_t \<Rightarrow> nat" where
  "header_words R addr = header_limit (byte_of 2 (reg_of R addr 3)) div 4"

definition config_read :: "(u32 \<Rightarrow> u32) \<Rightarrow> pci_addr_t \<Rightarrow> pci_config_t \<Rightarrow> pci_config_t" where
  "config_read R addr c = (\<lambda>j. if j < header_words R addr then reg_of R addr j else c j)"

lemma header_words_ge: "4 \<le> header_words R addr"
  by (simp add: header_words_def header_limit_def)

lemma config_read_low: "i < 4 \<Longrightarrow> config_read R addr c i = reg_of R addr i"
  using header_words_ge [of R addr] by (simp add: config_read_def)

lemma config_read_fields [simp]:
  "deviceId (config_read R addr c) = half_of 1 (reg_of R addr 0)"
  "vendorId (config_read R addr c) = half_of 0 (reg_of R addr 0)"
  "headerType (config_read R addr c) = byte_of 2 (reg_of R addr 3)"
  by (simp_all add: deviceId_def vendorId_def headerType_def config_read_low)

lemma read_config_ok:
  assumes M: "config_mechanism P latch regs wr"
  obtains h' where "pci_read_config P addr c h = (E_SUCCESS, config_read (regs h) addr c, h')" and "regs h' = regs h"
proof -
  let ?R = "regs h" and ?a = "addr\<lparr>pa_offset := 0\<rparr>"
  have same: "reg_of ?R (addr\<lparr>pa_offset := x\<rparr>) j = reg_of ?R addr j" for x j by (simp add: reg_of_def)
  let ?c1 = "\<lambda>j. if j < 4 then reg_of ?R addr j else c j"
  from read_registers_ok [OF M, of h ?R ?a 0 4 c] obtain h1 where h1:
    "read_registers P 4 ?a 0 c h = (E_SUCCESS, ?a\<lparr>pa_offset := of_nat 4\<rparr>, ?c1, h1)" "regs h1 = ?R"
    by (auto simp: same cong: if_cong)
  let ?n = "header_limit (headerType ?c1) div 4 - 4"
  have ht: "headerType ?c1 = byte_of 2 (reg_of ?R addr 3)" by (simp add: headerType_def)
  from read_registers_ok [OF M, of h1 ?R "?a\<lparr>pa_offset := of_nat 4\<rparr>" 4 ?n ?c1] h1(2) obtain h2 where h2:
    "read_registers P ?n (?a\<lparr>pa_offset := of_nat 4\<rparr>) 4 ?c1 h1 =
      (E_SUCCESS, ?a\<lparr>pa_offset := of_nat (4 + ?n)\<rparr>,
       (\<lambda>j. if 4 \<le> j \<and> j < 4 + ?n then reg_of ?R addr j else ?c1 j), h2)" "regs h2 = ?R"
    by (auto simp: same cong: if_cong)
  have "(\<lambda>j. if 4 \<le> j \<and> j < 4 + ?n then reg_of ?R addr j else ?c1 j) = config_read ?R addr c"
    using header_words_ge [of ?R addr] unfolding config_read_def header_words_def ht by (auto simp: fun_eq_iff)
  then have "pci_read_config P addr c h = (E_SUCCESS, config_read ?R addr c, h2)"
    using h1(1) h2(1) by (simp add: pci_read_config_def)
  then show ?thesis using that h2(2) by blast
qed

section \<open>The chain of devices as a list\<close>

text \<open>The addresses of the structures, linked both ways.\<close>

definition dev_chain :: "(u32 \<Rightarrow> pci_device_t) \<Rightarrow> pci_device_list_t \<Rightarrow> u32 list \<Rightarrow> bool" where
  "dev_chain devs l ps \<longleftrightarrow>
     distinct ps \<and> 0 \<notin> set ps \<and>
     pl_first l = (if ps = [] then 0 else hd ps) \<and> pl_last l = (if ps = [] then 0 else last ps) \<and>
     (\<forall>i < length ps.
        pd_next (devs (ps ! i)) = (if Suc i < length ps then ps ! Suc i else 0) \<and>
        pd_prev (devs (ps ! i)) = (if i = 0 then 0 else ps ! (i - 1)))"

lemma dev_chain_cong:
  "(\<And>p. p \<in> set ps \<Longrightarrow> pd_next (devs' p) = pd_next (devs p) \<and> pd_prev (devs' p) = pd_prev (devs p)) \<Longrightarrow>
   dev_chain devs l ps \<Longrightarrow> dev_chain devs' l ps"
  by (auto simp: dev_chain_def)

lemma dev_chain_snoc:
  assumes "dev_chain devs l ps" and "a \<notin> set ps" and "a \<noteq> 0" and "ps \<noteq> []"
    and d': "devs' = devs(last ps := (devs (last ps))\<lparr>pd_next := a\<rparr>, a := D)"
    and D: "pd_next D = 0" "pd_prev D = last ps"
  shows "dev_chain devs' (l\<lparr>pl_last := a\<rparr>) (ps @ [a])"
  unfolding dev_chain_def
proof (intro conjI allI impI)
  note c = assms(1) [unfolded dev_chain_def]
  show "distinct (ps @ [a])" "0 \<notin> set (ps @ [a])" using c assms(2,3) by auto
  show "pl_first (l\<lparr>pl_last := a\<rparr>) = (if ps @ [a] = [] then 0 else hd (ps @ [a]))" using c assms(4) by simp
  show "pl_last (l\<lparr>pl_last := a\<rparr>) = (if ps @ [a] = [] then 0 else last (ps @ [a]))" by simp
  fix i assume i: "i < length (ps @ [a])"
  have lst: "last ps = ps ! (length ps - 1)" using assms(4) by (simp add: last_conv_nth)
  have la: "last ps \<noteq> a" using assms(2,4) by auto
  consider (last) "i = length ps" | (prev) "Suc i = length ps" | (rest) "Suc i < length ps" using i by force
  then have "pd_next (devs' ((ps @ [a]) ! i)) = (if Suc i < length (ps @ [a]) then (ps @ [a]) ! Suc i else 0) \<and>
      pd_prev (devs' ((ps @ [a]) ! i)) = (if i = 0 then 0 else (ps @ [a]) ! (i - 1))"
  proof cases
    case last
    then show ?thesis using assms(4) D lst by (simp add: d' nth_append)
  next
    case prev
    then have "ps ! i = last ps" unfolding lst by (metis diff_Suc_1)
    moreover have "pd_prev (devs (ps ! i)) = (if i = 0 then 0 else ps ! (i - 1))" using c prev by simp
    moreover have "i < length ps" "Suc i = length ps" using prev by simp_all
    ultimately show ?thesis using la by (auto simp: d' nth_append)
  next
    case rest
    have "ps ! i \<noteq> a" using assms(2) rest by auto
    moreover have "ps ! i \<noteq> last ps" using rest c lst by (simp add: nth_eq_iff_index_eq)
    ultimately show ?thesis using rest c by (auto simp: d' nth_append)
  qed
  then show "pd_next (devs' ((ps @ [a]) ! i)) = (if Suc i < length (ps @ [a]) then (ps @ [a]) ! Suc i else 0)"
    "pd_prev (devs' ((ps @ [a]) ! i)) = (if i = 0 then 0 else (ps @ [a]) ! (i - 1))" by auto
qed

lemma append_device_chain:
  assumes "dev_chain (pci_devs s) (pci_lists s list) ps" and "a \<notin> set ps" and "a \<noteq> 0" and "list \<noteq> 0"
    and "pd_next (pci_devs s a) = 0" and "pd_prev (pci_devs s a) = 0"
  obtains s' where "pci_append_device list a s = (E_SUCCESS, s')"
    and "dev_chain (pci_devs s') (pci_lists s' list) (ps @ [a])"
    and "pl_size (pci_lists s' list) = pl_size (pci_lists s list) + 1"
    and "pci_hw s' = pci_hw s" and "pci_mem s' = pci_mem s" and "pci_log s' = pci_log s"
    and "\<And>p. pd_address (pci_devs s' p) = pd_address (pci_devs s p) \<and> pd_config (pci_devs s' p) = pd_config (pci_devs s p) \<and>
      pd_memory_space (pci_devs s' p) = pd_memory_space (pci_devs s p)"
proof -
  obtain st s' where e: "pci_append_device list a s = (st, s')" by fastforce
  then have "st = E_SUCCESS"
    using assms(3,4) by (auto simp: pci_append_device_def Let_def split: if_splits)
  with e have s': "pci_append_device list a s = (E_SUCCESS, s')" by simp
  let ?l = "pci_lists s list"
  have rest: "pl_size (pci_lists s' list) = pl_size ?l + 1 \<and> pci_hw s' = pci_hw s \<and> pci_mem s' = pci_mem s \<and>
      pci_log s' = pci_log s"
    "pd_address (pci_devs s' p) = pd_address (pci_devs s p) \<and> pd_config (pci_devs s' p) = pd_config (pci_devs s p) \<and>
      pd_memory_space (pci_devs s' p) = pd_memory_space (pci_devs s p)" for p
    using s' assms(3,4)
    by (auto simp: pci_append_device_def Let_def set_device_def set_device_list_def split: if_splits)
  have "dev_chain (pci_devs s') (pci_lists s' list) (ps @ [a])"
  proof (cases "ps = []")
    case True
    then have "pl_last ?l = 0" using assms(1) by (simp add: dev_chain_def)
    then show ?thesis using s' assms(3,4) True
      by (auto simp: pci_append_device_def Let_def set_device_def set_device_list_def dev_chain_def)
  next
    case False
    have l: "pl_last ?l = last ps" "last ps \<noteq> 0" "last ps \<noteq> a"
      using False assms(1,2) by (auto simp: dev_chain_def) (metis last_in_set)
    let ?D = "(pci_devs s a)\<lparr>pd_prev := last ps\<rparr>"
    have d: "pci_devs s' = (pci_devs s)(last ps := (pci_devs s (last ps))\<lparr>pd_next := a\<rparr>, a := ?D)"
      "pci_lists s' list = ?l\<lparr>pl_last := a, pl_size := pl_size ?l + 1\<rparr>"
      using s' assms(3,4) l
      by (auto simp: pci_append_device_def Let_def set_device_def set_device_list_def)
    have "dev_chain (pci_devs s') (?l\<lparr>pl_last := a\<rparr>) (ps @ [a])"
      using dev_chain_snoc [OF assms(1,2,3) False d(1)] assms(5) by simp
    then show ?thesis unfolding d(2) by (simp add: dev_chain_def)
  qed
  then show ?thesis using that [OF s'] rest by blast
qed

section \<open>The size of a base address register\<close>

definition bar_word :: "pci_addr_t \<Rightarrow> u8 \<Rightarrow> u32" where
  "bar_word a i = config_word 1 (a\<lparr>pa_offset := PCI_HEADER_1_BAR_START + i\<rparr>)"

definition size_of_probe :: "u32 \<Rightarrow> u32" where
  "size_of_probe v = NOT (v AND PCI_BAR_ADDR_MASK) + 1"

text \<open>The register \<open>b\<close> ends with what the structure has for the first register, whatever the index.\<close>

lemma read_bar_size_ok:
  assumes M: "config_mechanism P latch regs wr" and "device \<noteq> 0"
    and "headerType (pd_config (pci_devs s device)) = 0" and "unat i < 6" and b: "b = bar_word (pd_address (pci_devs s device)) i"
  obtains h' where "pci_read_bar_size P device i (Some x) s =
      (E_SUCCESS, Some (size_of_probe (wr b (regs (pci_hw s) b) 0xffffffff)), s\<lparr>pci_hw := h'\<rparr>)"
    and "regs h' = (regs (pci_hw s))(b := wr b (wr b (regs (pci_hw s) b) 0xffffffff) (type0_bar (pd_config (pci_devs s device)) 0))"
proof -
  let ?a = "(pd_address (pci_devs s device))\<lparr>pa_offset := PCI_HEADER_1_BAR_START + i\<rparr>"
  have b': "config_word 1 ?a = b" by (simp add: b bar_word_def)
  obtain h1 where h1: "pci_write_long P 1 ?a 0xffffffff (pci_hw s) = (E_SUCCESS, h1)"
    "regs h1 = (regs (pci_hw s))(b := wr b (regs (pci_hw s) b) 0xffffffff)"
    using write_long_ok [OF M, where ca = 1 and addr = ?a and v = "0xffffffff" and h = "pci_hw s"] unfolding b' by blast
  obtain h2 where h2: "pci_read_long P 1 ?a (Some x) h1 = (E_SUCCESS, Some (regs h1 b), h2)" "regs h2 = regs h1"
    using read_long_ok [OF M, where ca = 1 and addr = ?a and x = x and h = h1] unfolding b' by blast
  obtain h3 where h3: "pci_write_long P 1 ?a (type0_bar (pd_config (pci_devs s device)) 0) h2 = (E_SUCCESS, h3)"
    "regs h3 = (regs h2)(b := wr b (regs h2 b) (type0_bar (pd_config (pci_devs s device)) 0))"
    using write_long_ok [OF M, where ca = 1 and addr = ?a and h = h2] unfolding b' by blast
  have "pci_read_bar_size P device i (Some x) s =
      (E_SUCCESS, Some (size_of_probe (wr b (regs (pci_hw s) b) 0xffffffff)), s\<lparr>pci_hw := h3\<rparr>)"
    using assms(2-4) h1 h2 h3(1)
    by (simp add: pci_read_bar_size_def Let_def size_of_probe_def linorder_not_less)
  then show ?thesis using that h3(2) h2(2) h1(2) by simp
qed

section \<open>The scan\<close>

definition present :: "(u32 \<Rightarrow> u32) \<Rightarrow> pci_addr_t \<Rightarrow> bool" where
  "present R a \<longleftrightarrow> half_of 1 (reg_of R a 0) \<noteq> 0xffff"

definition multi_function :: "(u32 \<Rightarrow> u32) \<Rightarrow> pci_addr_t \<Rightarrow> bool" where
  "multi_function R a \<longleftrightarrow> byte_of 2 (reg_of R a 3) AND 0x80 \<noteq> 0"

definition found_functions :: "(u32 \<Rightarrow> u32) \<Rightarrow> pci_addr_t \<Rightarrow> nat \<Rightarrow> nat \<Rightarrow> pci_addr_t list" where
  "found_functions R a f n = filter (present R) (map (\<lambda>f. a\<lparr>pa_func := of_nat f\<rparr>) [f..<f + n])"

definition found_slot :: "(u32 \<Rightarrow> u32) \<Rightarrow> pci_addr_t \<Rightarrow> pci_addr_t list" where
  "found_slot R a =
     (if present R a then a # (if multi_function R a then found_functions R a 1 7 else []) else [])"

definition found_slots :: "(u32 \<Rightarrow> u32) \<Rightarrow> pci_addr_t \<Rightarrow> nat \<Rightarrow> nat \<Rightarrow> pci_addr_t list" where
  "found_slots R a k n = concat (map (\<lambda>k. found_slot R (a\<lparr>pa_slot := of_nat k, pa_func := 0\<rparr>)) [k..<k + n])"

definition bus_addr :: "nat \<Rightarrow> pci_addr_t" where
  "bus_addr b = \<lparr>pa_bus = of_nat b, pa_slot = 0, pa_func = 0, pa_offset = 0\<rparr>"

definition found_buses :: "(u32 \<Rightarrow> u32) \<Rightarrow> nat \<Rightarrow> nat \<Rightarrow> pci_addr_t list" where
  "found_buses R b n = concat (map (\<lambda>b. found_slots R (bus_addr b) 0 32) [b..<b + n])"

definition found_at :: "(u32 \<Rightarrow> u32) \<Rightarrow> (u32 \<Rightarrow> u32 \<Rightarrow> u32 \<Rightarrow> u32) \<Rightarrow> pci_device_t \<Rightarrow> pci_addr_t \<Rightarrow> bool" where
  "found_at R wr d a \<longleftrightarrow>
     pd_address d = a \<and> (\<forall>i < header_words R a. pd_config d i = reg_of R a i) \<and>
     (byte_of 2 (reg_of R a 3) = 0 \<longrightarrow>
        pd_memory_space d = size_of_probe (wr (bar_word a 0) (R (bar_word a 0)) 0xffffffff))"

definition scan_state ::
  "('h \<Rightarrow> u32 \<Rightarrow> u32) \<Rightarrow> (u32 \<Rightarrow> u32) \<Rightarrow> (u32 \<Rightarrow> u32 \<Rightarrow> u32 \<Rightarrow> u32) \<Rightarrow> u32 \<Rightarrow> nat \<Rightarrow> u32 \<Rightarrow> pci_addr_t list \<Rightarrow> 'h pci \<Rightarrow> bool" where
  "scan_state regs R wr list b0 n0 as s \<longleftrightarrow>
     regs (pci_hw s) = R \<and> unat (kalloc_base (pci_mem s)) = b0 + 88 * length as \<and>
     pl_size (pci_lists s list) = n0 + of_nat (length as) \<and>
     (\<exists>ps. dev_chain (pci_devs s) (pci_lists s list) ps \<and>
        list_all2 (\<lambda>p a. found_at R wr (pci_devs s p) a) ps as \<and>
        (\<forall>p \<in> set ps. unat p < unat (kalloc_base (pci_mem s))))"

lemma add_device_ok:
  assumes M: "config_mechanism P latch regs wr" and U: "probe_undone wr R"
    and S: "scan_state regs R wr list b0 n0 as s" and room: "0 < b0" "b0 + 88 * Suc (length as) < 2 ^ 32" and l: "list \<noteq> 0"
  obtains s' where "add_device P list addr (config_read R addr c) s = (E_SUCCESS, s')"
    and "scan_state regs R wr list b0 n0 (as @ [addr]) s'"
proof -
  define a where "a = kalloc_base (pci_mem s)"
  define m where "m = (pci_mem s)\<lparr>kalloc_base := a + 88\<rparr>"
  let ?c = "config_read R addr c"
  obtain ps where ps: "dev_chain (pci_devs s) (pci_lists s list) ps"
    "list_all2 (\<lambda>p a. found_at R wr (pci_devs s p) a) ps as" "\<forall>p \<in> set ps. unat p < unat a"
    and R: "regs (pci_hw s) = R" and base: "unat a = b0 + 88 * length as"
    and sz: "pl_size (pci_lists s list) = n0 + of_nat (length as)"
    using S unfolding scan_state_def a_def by blast
  have a0: "a \<noteq> 0" using base room(1) by auto
  have a88: "unat (a + 88) = unat a + 88" using base room(2) by (simp add: unat_word_ariths)
  have fresh: "a \<notin> set ps" using ps(3) by auto
  let ?D = "null_device\<lparr>pd_address := addr, pd_config := ?c\<rparr>"
  define s2 where "s2 = set_device a ?D (set_device a null_device (s\<lparr>pci_mem := m\<rparr>))"
  have s2: "pci_devs s2 a = ?D" "\<And>p. p \<noteq> a \<Longrightarrow> pci_devs s2 p = pci_devs s p" "pci_hw s2 = pci_hw s"
    "pci_lists s2 = pci_lists s" "pci_mem s2 = m"
    by (simp_all add: s2_def set_device_def)
  define s3 where "s3 = (if headerType ?c = 0 then
      (case pci_read_bar_size P a 0 (Some (pd_memory_space (pci_devs s2 a))) s2 of
         (_, sz, s3) \<Rightarrow> set_device a ((pci_devs s3 a)\<lparr>pd_memory_space := the sz\<rparr>) s3) else s2)"
  have add: "add_device P list addr ?c s = pci_append_device list a s3"
    by (simp add: add_device_def pci_alloc_device_def kalloc_def s3_def s2_def a_def m_def set_device_def Let_def
        del: config_read_fields)
  have s3: "regs (pci_hw s3) = R \<and> pci_lists s3 = pci_lists s \<and> pci_mem s3 = m \<and>
      (\<forall>p. p \<noteq> a \<longrightarrow> pci_devs s3 p = pci_devs s p) \<and> found_at R wr (pci_devs s3 a) addr \<and>
      pd_next (pci_devs s3 a) = 0 \<and> pd_prev (pci_devs s3 a) = 0"
  proof (cases "headerType ?c = 0")
    case False
    then have "byte_of 2 (reg_of R addr 3) \<noteq> 0" by simp
    then show ?thesis using False s2 R by (simp add: s3_def found_at_def config_read_def null_device_def)
  next
    case True
    let ?b = "bar_word addr 0"
    have ht: "headerType (pd_config (pci_devs s2 a)) = 0" using True s2(1) by simp
    have bar: "?b = bar_word (pd_address (pci_devs s2 a)) 0" using s2(1) by simp
    have "4 < header_words R addr" using True by (simp add: header_words_def header_limit_def)
    then have "type0_bar (pd_config (pci_devs s2 a)) 0 = R ?b"
      using s2(1) by (simp add: type0_bar_def config_read_def reg_of_def bar_word_def)
    moreover obtain h' where h': "pci_read_bar_size P a 0 (Some (pd_memory_space (pci_devs s2 a))) s2 =
        (E_SUCCESS, Some (size_of_probe (wr ?b (R ?b) 0xffffffff)), s2\<lparr>pci_hw := h'\<rparr>)"
      "regs h' = R(?b := wr ?b (wr ?b (R ?b) 0xffffffff) (type0_bar (pd_config (pci_devs s2 a)) 0))"
      using read_bar_size_ok [OF M a0 ht, of 0 ?b, OF _ bar] s2(3) R by auto
    ultimately have "regs h' = R" using U by (simp add: probe_undone_def)
    then show ?thesis using True s2 h'(1)
      by (simp add: s3_def set_device_def found_at_def config_read_def null_device_def)
  qed
  have "dev_chain (pci_devs s3) (pci_lists s3 list) ps"
    using dev_chain_cong [OF _ ps(1), of "pci_devs s3"] s3 fresh by metis
  from append_device_chain [OF this fresh a0 l] s3 obtain s' where
    s': "pci_append_device list a s3 = (E_SUCCESS, s')" "dev_chain (pci_devs s') (pci_lists s' list) (ps @ [a])"
    "pl_size (pci_lists s' list) = pl_size (pci_lists s3 list) + 1" "pci_hw s' = pci_hw s3" "pci_mem s' = pci_mem s3"
    and d: "\<And>p. pd_address (pci_devs s' p) = pd_address (pci_devs s3 p) \<and> pd_config (pci_devs s' p) = pd_config (pci_devs s3 p) \<and>
      pd_memory_space (pci_devs s' p) = pd_memory_space (pci_devs s3 p)" by metis
  have same: "found_at R wr (pci_devs s' p) x = found_at R wr (pci_devs s3 p) x" for p x
    using d [of p] by (simp add: found_at_def)
  have "list_all2 (\<lambda>p a. found_at R wr (pci_devs s' p) a) ps as"
    unfolding same by (rule list.rel_mono_strong [OF ps(2)]) (use s3 fresh in \<open>auto dest: in_set_zipE\<close>)
  moreover have "found_at R wr (pci_devs s' a) addr" using same s3 by simp
  ultimately have "list_all2 (\<lambda>p a. found_at R wr (pci_devs s' p) a) (ps @ [a]) (as @ [addr])"
    by (simp add: list_all2_append list_all2_lengthD)
  then have "scan_state regs R wr list b0 n0 (as @ [addr]) s'"
    unfolding scan_state_def using s'(2-5) s3 base a88 sz ps(3)
    by (intro conjI exI [of _ "ps @ [a]"]) (auto simp: m_def)
  then show ?thesis using that add s'(1) by simp
qed

section \<open>The loops of the scan\<close>

text \<open>The hypotheses of the scan in one predicate: the hardware, and memory for \<open>n\<close> devices.\<close>

definition scan_setting ::
  "'h long_ports \<Rightarrow> ('h \<Rightarrow> u32) \<Rightarrow> ('h \<Rightarrow> u32 \<Rightarrow> u32) \<Rightarrow> (u32 \<Rightarrow> u32 \<Rightarrow> u32 \<Rightarrow> u32) \<Rightarrow> (u32 \<Rightarrow> u32) \<Rightarrow> u32 \<Rightarrow> nat \<Rightarrow> nat \<Rightarrow> bool" where
  "scan_setting P latch regs wr R list b0 n \<longleftrightarrow>
     config_mechanism P latch regs wr \<and> probe_undone wr R \<and> list \<noteq> 0 \<and> 0 < b0 \<and> b0 + 88 * n < 2 ^ 32"

lemma scan_state_hw: "scan_state regs R wr list b0 n0 as s \<Longrightarrow> regs (pci_hw s) = R"
  by (simp add: scan_state_def)

lemma scan_state_new_hw:
  "scan_state regs R wr list b0 n0 as s \<Longrightarrow> regs h = R \<Longrightarrow> scan_state regs R wr list b0 n0 as (s\<lparr>pci_hw := h\<rparr>)"
  by (auto simp: scan_state_def)

text \<open>One function of a device: it is asked for, and added if it is present.\<close>

lemma probe_ok:
  assumes C: "scan_setting P latch regs wr R list b0 (Suc (length as))"
    and S: "scan_state regs R wr list b0 n0 as s"
  obtains h' where "pci_read_config P addr c (pci_hw s) = (E_SUCCESS, config_read R addr c, h')"
    and "present R addr \<Longrightarrow> \<exists>s'. add_device P list addr (config_read R addr c) (s\<lparr>pci_hw := h'\<rparr>) = (E_SUCCESS, s') \<and>
      scan_state regs R wr list b0 n0 (as @ [addr]) s'"
    and "scan_state regs R wr list b0 n0 as (s\<lparr>pci_hw := h'\<rparr>)"
proof -
  have M: "config_mechanism P latch regs wr" using C by (simp add: scan_setting_def)
  obtain h' where h': "pci_read_config P addr c (pci_hw s) = (E_SUCCESS, config_read R addr c, h')" "regs h' = R"
    using read_config_ok [OF M, of addr c "pci_hw s"] scan_state_hw [OF S] by metis
  note S' = scan_state_new_hw [OF S h'(2)]
  have "\<exists>s'. add_device P list addr (config_read R addr c) (s\<lparr>pci_hw := h'\<rparr>) = (E_SUCCESS, s') \<and>
      scan_state regs R wr list b0 n0 (as @ [addr]) s'"
    using add_device_ok [OF M _ S', of addr c] C unfolding scan_setting_def by metis
  then show ?thesis using that [OF h'(1)] S' by blast
qed

lemma scan_setting_less: "scan_setting P latch regs wr R list b0 n \<Longrightarrow> m \<le> n \<Longrightarrow> scan_setting P latch regs wr R list b0 m"
  by (auto simp: scan_setting_def)

lemma found_functions_Suc:
  "found_functions R a f (Suc n) =
     (if present R (a\<lparr>pa_func := of_nat f\<rparr>) then [a\<lparr>pa_func := of_nat f\<rparr>] else []) @ found_functions R a (Suc f) n"
proof -
  have "[f..<f + Suc n] = f # [Suc f..<Suc f + n]" by (simp add: upt_rec)
  then show ?thesis by (simp only: found_functions_def) simp
qed

lemma found_functions_length: "length (found_functions R a f n) \<le> n"
  by (metis found_functions_def length_filter_le length_map length_upt add_diff_cancel_left')

lemma scan_functions_ok:
  "scan_setting P latch regs wr R list b0 (length as + n) \<Longrightarrow> scan_state regs R wr list b0 n0 as s \<Longrightarrow>
   \<exists>c' s'. scan_functions P list addr f n c s = (False, E_SUCCESS, c', s') \<and>
     scan_state regs R wr list b0 n0 (as @ found_functions R addr f n) s'"
proof (induction n arbitrary: f c as s)
  case 0
  then show ?case by (simp add: found_functions_def)
next
  case (Suc n)
  let ?a = "addr\<lparr>pa_func := of_nat f\<rparr>"
  obtain h' where h': "pci_read_config P ?a c (pci_hw s) = (E_SUCCESS, config_read R ?a c, h')"
    and add: "present R ?a \<Longrightarrow> \<exists>s'. add_device P list ?a (config_read R ?a c) (s\<lparr>pci_hw := h'\<rparr>) = (E_SUCCESS, s') \<and>
      scan_state regs R wr list b0 n0 (as @ [?a]) s'"
    and S': "scan_state regs R wr list b0 n0 as (s\<lparr>pci_hw := h'\<rparr>)"
    using probe_ok [OF scan_setting_less [OF Suc.prems(1)] Suc.prems(2), of ?a c] by auto
  show ?case
  proof (cases "present R ?a")
    case True
    with add obtain s1 where s1: "add_device P list ?a (config_read R ?a c) (s\<lparr>pci_hw := h'\<rparr>) = (E_SUCCESS, s1)"
      "scan_state regs R wr list b0 n0 (as @ [?a]) s1" by blast
    then show ?thesis using Suc.IH [of "as @ [?a]" s1 "Suc f" "config_read R ?a c"] Suc.prems(1) h' True
      by (simp add: found_functions_Suc present_def)
  next
    case False
    then show ?thesis using Suc.IH [OF scan_setting_less [OF Suc.prems(1)] S', of "Suc f" "config_read R ?a c"] h'
      by (simp add: found_functions_Suc present_def)
  qed
qed

lemma found_slot_length: "length (found_slot R a) \<le> 8"
  using found_functions_length [of R a 1 7] by (simp add: found_slot_def)

lemma found_slots_Suc:
  "found_slots R a k (Suc n) = found_slot R (a\<lparr>pa_slot := of_nat k, pa_func := 0\<rparr>) @ found_slots R a (Suc k) n"
proof -
  have "[k..<k + Suc n] = k # [Suc k..<Suc k + n]" by (simp add: upt_rec)
  then show ?thesis by (simp only: found_slots_def) simp
qed

lemma concat_length_le: "(\<And>x. length (f x) \<le> k) \<Longrightarrow> length (concat (map f xs)) \<le> length xs * k"
  by (induction xs) (auto intro: add_mono)

lemma found_slots_length: "length (found_slots R a k n) \<le> n * 8"
  using concat_length_le [of "\<lambda>k. found_slot R (a\<lparr>pa_slot := of_nat k, pa_func := 0\<rparr>)" 8 "[k..<k + n]"]
    found_slot_length by (simp add: found_slots_def)

lemma scan_slots_ok:
  "scan_setting P latch regs wr R list b0 (length as + 8 * n) \<Longrightarrow> scan_state regs R wr list b0 n0 as s \<Longrightarrow>
   \<exists>c' s'. scan_slots P list addr k n c s = (False, E_SUCCESS, c', s') \<and>
     scan_state regs R wr list b0 n0 (as @ found_slots R addr k n) s'"
proof (induction n arbitrary: k c as s)
  case 0
  then show ?case by (simp add: found_slots_def)
next
  case (Suc n)
  let ?a = "addr\<lparr>pa_slot := of_nat k, pa_func := 0\<rparr>" let ?c = "config_read R ?a c"
  obtain h' where h': "pci_read_config P ?a c (pci_hw s) = (E_SUCCESS, ?c, h')"
    and add: "present R ?a \<Longrightarrow> \<exists>s'. add_device P list ?a ?c (s\<lparr>pci_hw := h'\<rparr>) = (E_SUCCESS, s') \<and>
      scan_state regs R wr list b0 n0 (as @ [?a]) s'"
    and S': "scan_state regs R wr list b0 n0 as (s\<lparr>pci_hw := h'\<rparr>)"
    using probe_ok [OF scan_setting_less [OF Suc.prems(1)] Suc.prems(2), of ?a c] by auto
  show ?case
  proof (cases "present R ?a")
    case False
    then show ?thesis using Suc.IH [OF scan_setting_less [OF Suc.prems(1)] S', of "Suc k" ?c] h'
      by (simp add: found_slots_Suc found_slot_def present_def)
  next
    case True
    with add obtain s1 where s1: "add_device P list ?a ?c (s\<lparr>pci_hw := h'\<rparr>) = (E_SUCCESS, s1)"
      "scan_state regs R wr list b0 n0 (as @ [?a]) s1" by blast
    show ?thesis
    proof (cases "multi_function R ?a")
      case False
      then show ?thesis
        using Suc.IH [OF scan_setting_less [OF Suc.prems(1)] s1(2), of "Suc k" ?c] h' s1(1) True
        by (simp add: found_slots_Suc found_slot_def present_def multi_function_def)
    next
      case mf: True
      obtain c2 s2 where s2: "scan_functions P list ?a 1 7 ?c s1 = (False, E_SUCCESS, c2, s2)"
        "scan_state regs R wr list b0 n0 ((as @ [?a]) @ found_functions R ?a 1 7) s2"
        using scan_functions_ok [OF scan_setting_less [OF Suc.prems(1)] s1(2), of 7 ?a 1 ?c] by auto
      have "length ((as @ [?a]) @ found_functions R ?a 1 7) + 8 * n \<le> length as + 8 * Suc n"
        using found_functions_length [of R ?a 1 7] by simp
      from Suc.IH [OF scan_setting_less [OF Suc.prems(1) this] s2(2), of "Suc k" c2] show ?thesis
        using h' s1(1) True mf s2(1)
        by (simp add: found_slots_Suc found_slot_def present_def multi_function_def)
    qed
  qed
qed

lemma found_buses_Suc: "found_buses R b (Suc n) = found_slots R (bus_addr b) 0 32 @ found_buses R (Suc b) n"
proof -
  have "[b..<b + Suc n] = b # [Suc b..<Suc b + n]" by (simp add: upt_rec)
  then show ?thesis by (simp only: found_buses_def) simp
qed

lemma scan_buses_ok:
  "scan_setting P latch regs wr R list b0 (length as + 256 * n) \<Longrightarrow> scan_state regs R wr list b0 n0 as s \<Longrightarrow>
   \<exists>s'. scan_buses P list b n E_SUCCESS c s = (E_SUCCESS, s') \<and>
     scan_state regs R wr list b0 n0 (as @ found_buses R b n) s'"
proof (induction n arbitrary: b c as s)
  case 0
  then show ?case by (simp add: found_buses_def)
next
  case (Suc n)
  obtain c1 s1 where s1: "scan_slots P list (bus_addr b) 0 32 c s = (False, E_SUCCESS, c1, s1)"
    "scan_state regs R wr list b0 n0 (as @ found_slots R (bus_addr b) 0 32) s1"
    using scan_slots_ok [OF scan_setting_less [OF Suc.prems(1)] Suc.prems(2), of 32 "bus_addr b" 0 c] by auto
  have "length (as @ found_slots R (bus_addr b) 0 32) + 256 * n \<le> length as + 256 * Suc n"
    using found_slots_length [of R "bus_addr b" 0 32] by simp
  from Suc.IH [OF scan_setting_less [OF Suc.prems(1) this] s1(2), of "Suc b" c1] show ?case
    using s1(1) by (simp add: found_buses_Suc bus_addr_def)
qed

text \<open>All 65536 functions have room behind the base that the allocator starts with.\<close>

lemma pci_scan_ok:
  assumes "scan_setting P latch regs wr (regs (pci_hw s)) list (unat (kalloc_base (pci_mem s))) 65536"
  obtains s' where "pci_scan P c list s = (E_SUCCESS, s')"
    and "scan_state regs (regs (pci_hw s)) wr list (unat (kalloc_base (pci_mem s))) (pl_size (pci_lists s list))
      (found_buses (regs (pci_hw s)) 0 256) s'"
proof -
  let ?s = "set_device_list list ((pci_lists s list)\<lparr>pl_first := 0, pl_last := 0\<rparr>) s"
  let ?R = "regs (pci_hw s)" and ?b = "unat (kalloc_base (pci_mem s))"
  have "scan_state regs ?R wr list ?b (pl_size (pci_lists s list)) [] ?s"
    by (simp add: scan_state_def set_device_list_def dev_chain_def)
  from scan_buses_ok [OF _ this, of P latch 256 0 c] assms obtain s' where
    "pci_scan P c list s = (E_SUCCESS, s')"
    "scan_state regs ?R wr list ?b (pl_size (pci_lists s list)) (found_buses ?R 0 256) s'"
    by (auto simp: pci_scan_def)
  then show ?thesis by (rule that)
qed

section \<open>Looking up\<close>

lemma find_device_chain:
  assumes "dev_chain devs l ps" and "i \<le> length ps"
  shows "find_device devs p (if i < length ps then ps ! i else 0) =
    Some (case find (\<lambda>a. p (devs a)) (drop i ps) of None \<Rightarrow> 0 | Some a \<Rightarrow> a)"
  using assms(2)
proof (induction "length ps - i" arbitrary: i)
  case 0
  then show ?case by (subst find_device.simps) simp
next
  case (Suc n)
  then have i: "i < length ps" by simp
  then have "ps ! i \<noteq> 0" "pd_next (devs (ps ! i)) = (if Suc i < length ps then ps ! Suc i else 0)"
    using assms(1) by (auto simp: dev_chain_def) (metis nth_mem)
  then show ?case using Suc.hyps(1) [of "Suc i"] Suc.hyps(2) i
    by (subst find_device.simps) (simp add: Cons_nth_drop_Suc [symmetric])
qed

lemma find_device_first:
  assumes "dev_chain devs l ps"
  shows "find_device devs p (pl_first l) = Some (case find (\<lambda>a. p (devs a)) ps of None \<Rightarrow> 0 | Some a \<Rightarrow> a)"
  using find_device_chain [OF assms, of 0 p] assms by (cases ps) (simp_all add: dev_chain_def)

end
