(* ===== verification/Pci_Properties.thy ===== *)
theory Pci_Properties
  imports Pci_Lemmas
begin

text \<open>
  The properties of the PCI subsystem, with a sample of the hardware on which their hypotheses
  hold: the scan and the two lookups, the access to registers, and the probe for the size of
  a base address register.
\<close>

section \<open>Sample hardware\<close>

text \<open>The latched address and the registers; all bits can be written but those of \<open>K\<close>.\<close>

type_synonym bus = "u32 \<times> (u32 \<Rightarrow> u32)"

definition sample_wr :: "(u32 \<Rightarrow> nat) \<Rightarrow> u32 \<Rightarrow> u32 \<Rightarrow> u32 \<Rightarrow> u32" where
  "sample_wr K a old v = (v AND NOT (mask (K a))) OR (old AND mask (K a))"

definition sample_pci :: "(u32 \<Rightarrow> nat) \<Rightarrow> bus long_ports" where
  "sample_pci K =
     \<lparr>p_outl = (\<lambda>port v (l, R).
        if port = PCI_CONFIG_ADDRESS then (v, R)
        else if port = PCI_CONFIG_DATA then (l, R(l := sample_wr K l (R l) v)) else (l, R)),
      p_inl = (\<lambda>port (l, R). (if port = PCI_CONFIG_DATA then R l else 0, (l, R)))\<rparr>"

lemma sample_pci_ok: "config_mechanism (sample_pci K) fst snd (sample_wr K)"
  by (auto simp: config_mechanism_def sample_pci_def split: prod.splits)

lemma sample_probe_undone: "probe_undone (sample_wr K) R"
proof -
  have "x AND NOT (mask k) OR (v AND NOT (mask k) OR x AND mask k) AND mask k = (x :: u32)" for x v k
    by (rule bit_word_eqI) (auto simp: bit_simps)
  then show ?thesis by (simp add: probe_undone_def sample_wr_def)
qed

section \<open>The scan\<close>

lemma found_offset: "a \<in> set (found_buses R b n) \<Longrightarrow> pa_offset a = 0"
  by (auto simp: found_buses_def found_slots_def found_slot_def found_functions_def bus_addr_def split: if_splits)

text \<open>
  The scan of hardware with the documented configuration mechanism ends without an error,
  leaves every register as it was, and makes a doubly linked list of exactly the functions
  that are present, in the order of their addresses, each with the registers that its header
  type has; functions other than the first are looked for only where the first one says that
  there are more.  A lookup by address then finds a function if and only if it is one of them.
\<close>

text \<open>C27 the scan of the buses lists exactly the functions that are present, in order.\<close>

theorem pci_scan_lists_devices:
  assumes "config_mechanism P latch regs wr" and "probe_undone wr (regs (pci_hw s))" and "list \<noteq> 0"
    and "0 < unat (kalloc_base (pci_mem s))" and "unat (kalloc_base (pci_mem s)) + 88 * 65536 < 2 ^ 32"
  shows "\<exists>s' ps. pci_scan P c list s = (E_SUCCESS, s') \<and> regs (pci_hw s') = regs (pci_hw s) \<and>
    dev_chain (pci_devs s') (pci_lists s' list) ps \<and>
    map (\<lambda>p. pd_address (pci_devs s' p)) ps = found_buses (regs (pci_hw s)) 0 256 \<and>
    pl_size (pci_lists s' list) = pl_size (pci_lists s list) + of_nat (length ps) \<and>
    (\<forall>p \<in> set ps. \<forall>i < header_words (regs (pci_hw s)) (pd_address (pci_devs s' p)).
       pd_config (pci_devs s' p) i = reg_of (regs (pci_hw s)) (pd_address (pci_devs s' p)) i) \<and>
    (\<forall>a x. pa_offset a = 0 \<and> unat (pa_slot a) < 32 \<and> unat (pa_func a) < 8 \<longrightarrow>
       (if a \<in> set (found_buses (regs (pci_hw s)) 0 256)
        then \<exists>p \<in> set ps. pd_address (pci_devs s' p) = a \<and>
               pci_get_device_by_address list (Some x) a s' = Some (E_SUCCESS, Some p)
        else pci_get_device_by_address list (Some x) a s' = Some (E_NOT_FOUND, Some 0)))"
proof -
  let ?R = "regs (pci_hw s)" let ?as = "found_buses ?R 0 256"
  have "scan_setting P latch regs wr ?R list (unat (kalloc_base (pci_mem s))) 65536"
    using assms by (simp add: scan_setting_def)
  then obtain s' where s': "pci_scan P c list s = (E_SUCCESS, s')"
    "scan_state regs ?R wr list (unat (kalloc_base (pci_mem s))) (pl_size (pci_lists s list)) ?as s'"
    by (rule pci_scan_ok)
  then obtain ps where ps: "dev_chain (pci_devs s') (pci_lists s' list) ps"
    "list_all2 (\<lambda>p a. found_at ?R wr (pci_devs s' p) a) ps ?as"
    and hw: "regs (pci_hw s') = ?R" "pl_size (pci_lists s' list) = pl_size (pci_lists s list) + of_nat (length ?as)"
    unfolding scan_state_def by blast
  have addr: "map (\<lambda>p. pd_address (pci_devs s' p)) ps = ?as"
    using ps(2) by (induction rule: list_all2_induct) (simp_all add: found_at_def)
  have cfg: "\<forall>p \<in> set ps. \<forall>i < header_words ?R (pd_address (pci_devs s' p)).
      pd_config (pci_devs s' p) i = reg_of ?R (pd_address (pci_devs s' p)) i"
    using ps(2) by (induction rule: list_all2_induct) (auto simp: found_at_def)
  have look: "if a \<in> set ?as
      then \<exists>p \<in> set ps. pd_address (pci_devs s' p) = a \<and> pci_get_device_by_address list (Some x) a s' = Some (E_SUCCESS, Some p)
      else pci_get_device_by_address list (Some x) a s' = Some (E_NOT_FOUND, Some 0)"
    if a: "pa_offset a = 0" "unat (pa_slot a) < 32" "unat (pa_func a) < 8" for a x
  proof -
    let ?F = "\<lambda>d. pa_bus (pd_address d) = pa_bus a \<and> pa_slot (pd_address d) = pa_slot a \<and> pa_func (pd_address d) = pa_func a"
    have F: "?F (pci_devs s' p) \<longleftrightarrow> pd_address (pci_devs s' p) = a" if "p \<in> set ps" for p
    proof -
      have "pd_address (pci_devs s' p) \<in> set ?as" using that addr [symmetric] by simp
      then show ?thesis using found_offset a(1) by (metis pci_addr_t.equality old.unit.exhaust)
    qed
    have g: "pci_get_device_by_address list (Some x) a s' =
        Some (case find (\<lambda>p. ?F (pci_devs s' p)) ps of None \<Rightarrow> (E_NOT_FOUND, Some 0) | Some p \<Rightarrow> (if p = 0 then E_NOT_FOUND else E_SUCCESS, Some p))"
      using a unsigned_less [of "pa_bus a", where ?'a = nat] find_device_first [OF ps(1), of ?F]
      by (simp add: pci_get_device_by_address_def split: option.splits)
    have z: "0 \<notin> set ps" using ps(1) by (simp add: dev_chain_def)
    have e: "set ?as = (\<lambda>p. pd_address (pci_devs s' p)) ` set ps" using addr [symmetric] by simp
    show ?thesis
    proof (cases "find (\<lambda>p. ?F (pci_devs s' p)) ps")
      case None
      then have "a \<notin> set ?as" unfolding e using F by (auto simp: find_None_iff)
      then show ?thesis using g None by simp
    next
      case (Some p)
      then have "p \<in> set ps" "?F (pci_devs s' p)" by (auto simp: find_Some_iff)
      then have "p \<in> set ps" "pd_address (pci_devs s' p) = a" "p \<noteq> 0" using F z by auto
      then show ?thesis using g Some unfolding e by auto
    qed
  qed
  have "length ps = length ?as" using ps(2) by (rule list_all2_lengthD)
  then show ?thesis using s'(1) hw ps(1) addr cfg look
    by (intro exI [of _ s'] exI [of _ ps]) simp
qed

definition sample_bus :: "bus pci" where
  "sample_bus = \<lparr>pci_hw = (0, (\<lambda>_. 0xffffffff)(config_word 1 (bus_addr 0) := 0x12378086)),
     pci_mem = \<lparr>kalloc_base = KALLOC_BASE_ADDR, ir_heap = (\<lambda>_. \<lparr>ia_handler = 0, ia_calls = 0, ia_next = 0\<rparr>),
       isr_vector_table = (\<lambda>_. 0), handling_int = False, terminate_isr = False, handled_int = 0, test_handler = 0,
       wait_irq_count = 0, ir_if = False, isr_table = (\<lambda>_. Default_expected_handler),
       ir_idt = (\<lambda>_. \<lparr>gate_offset_15_0 = 0, gate_selector = 0, gate_flags = 0, gate_offset_31_16 = 0\<rparr>),
       ir_out = [], ir_env = ()\<rparr>,
     pci_devs = (\<lambda>_. null_device), pci_lists = (\<lambda>_. \<lparr>pl_size = 0, pl_first = 0, pl_last = 0\<rparr>), pci_log = []\<rparr>"

lemma sample_bus_base: "unat (kalloc_base (pci_mem sample_bus)) = 0x2000000"
  by (simp add: sample_bus_def KALLOC_BASE_ADDR_def)

text \<open>The sample has a host bridge at bus 0, slot 0.\<close>

lemma pci_scan_lists_devices_witness:
  "\<exists>s' p. pci_scan (sample_pci (\<lambda>_. 0)) (\<lambda>_. 0) 1 sample_bus = (E_SUCCESS, s') \<and>
     pd_address (pci_devs s' p) = bus_addr 0 \<and> pci_get_device_by_address 1 (Some 7) (bus_addr 0) s' = Some (E_SUCCESS, Some p)"
proof -
  let ?R = "snd (pci_hw sample_bus)"
  have "present ?R (bus_addr 0)" by (simp add: present_def reg_of_def sample_bus_def bus_addr_def half_of_def)
  then have "bus_addr 0 \<in> set (found_buses ?R 0 256)"
    by (auto simp: found_buses_def found_slots_def found_slot_def bus_addr_def intro!: bexI [of _ 0])
  moreover have "pa_offset (bus_addr 0) = 0" "unat (pa_slot (bus_addr 0)) < 32" "unat (pa_func (bus_addr 0)) < 8"
    by (simp_all add: bus_addr_def)
  ultimately show ?thesis
    using pci_scan_lists_devices [OF sample_pci_ok [of "\<lambda>_. 0"] sample_probe_undone, where s = sample_bus and list = 1 and c = "\<lambda>_. 0"]
    unfolding sample_bus_base by fastforce
qed

section \<open>Registers\<close>

definition in_range :: "pci_addr_t \<Rightarrow> bool" where
  "in_range a \<longleftrightarrow> unat (pa_slot a) < 32 \<and> unat (pa_func a) < 8 \<and> unat (pa_offset a) < 64"

lemma config_word_inj:
  assumes "in_range a" and "in_range b" and e: "config_word ca a = config_word ca b"
  shows "a = b"
proof -
  have "pa_bus a = pa_bus b" "pa_slot a AND mask 5 = pa_slot b AND mask 5"
    "pa_func a AND mask 3 = pa_func b AND mask 3" "pa_offset a AND mask 6 = pa_offset b AND mask 6"
    using config_word_fields [of ca a] config_word_fields [of ca b] e by simp_all
  then show ?thesis using assms(1,2) small_mask [where k = 5] small_mask [where k = 3] small_mask [where k = 6]
    by (auto simp: in_range_def)
qed

lemma or_byte:
  fixes w :: u32 and v :: u8 and k :: nat
  defines "x \<equiv> w OR push_bit (k * 8) (ucast v AND 0xff)"
  assumes "k \<le> 3"
  shows "ucast (drop_bit (k * 8) x AND 0xff) = byte_of k w OR v"
    and "j \<le> 3 \<Longrightarrow> j \<noteq> k \<Longrightarrow> byte_of j x = byte_of j w"
proof -
  have m: "(0xff :: u32) = mask 8" by (simp add: mask_eq_exp_minus_1)
  have b: "bit x i \<longleftrightarrow> bit w i \<or> i < 32 \<and> k * 8 \<le> i \<and> i - k * 8 < 8 \<and> bit v (i - k * 8)" for i
    unfolding x_def m bit_or_iff by (subst bit_field) simp_all
  show "ucast (drop_bit (k * 8) x AND 0xff) = byte_of k w OR v"
    unfolding m byte_of_def using assms(2)
    by (intro bit_word_eqI) (auto simp: bit_ucast_iff bit_and_iff bit_or_iff bit_drop_bit_eq b bit_mask_iff mult.commute)
  show "byte_of j x = byte_of j w" if "j \<le> 3" "j \<noteq> k"
    unfolding byte_of_def using assms(2) that
    by (intro bit_word_eqI) (auto simp: bit_ucast_iff bit_drop_bit_eq b)
qed

lemma write_long_reads_back:
  assumes M: "config_mechanism P latch regs (\<lambda>a old v. v)" and r: "in_range a"
  shows "\<exists>h1 h2. pci_write_long P 1 a v h = (E_SUCCESS, h1) \<and>
      pci_read_long P 1 a (Some x) h1 = (E_SUCCESS, Some v, h2) \<and>
      (\<forall>b. in_range b \<and> b \<noteq> a \<longrightarrow> regs h1 (config_word 1 b) = regs h (config_word 1 b))"
proof -
  obtain h1 where h1: "pci_write_long P 1 a v h = (E_SUCCESS, h1)" "regs h1 = (regs h)(config_word 1 a := v)"
    by (rule write_long_ok [OF M])
  obtain h2 where h2: "pci_read_long P 1 a (Some x) h1 = (E_SUCCESS, Some (regs h1 (config_word 1 a)), h2)"
    by (rule read_long_ok [OF M])
  have "regs h1 (config_word 1 b) = regs h (config_word 1 b)" if "in_range b" "b \<noteq> a" for b
    using h1(2) config_word_inj [OF r that(1), of 1] that(2) by auto
  then show ?thesis using h1 h2 by auto
qed

lemma set_bits_ok:
  assumes M: "config_mechanism P latch regs (\<lambda>a old v. v)"
  shows "\<exists>h1. pci_set_bits P 1 a m st h = (E_SUCCESS, h1) \<and>
      regs h1 (config_word 1 a) =
        (if st = 0 then regs h (config_word 1 a) AND NOT m else regs h (config_word 1 a) OR m)"
proof -
  obtain h1 where h1: "pci_read_long P 1 a (Some 0) h = (E_SUCCESS, Some (regs h (config_word 1 a)), h1)" "regs h1 = regs h"
    by (rule read_long_ok [OF M])
  let ?v = "if st = 0 then regs h (config_word 1 a) AND NOT m else regs h (config_word 1 a) OR m"
  obtain h2 where "pci_write_long P 1 a ?v h1 = (E_SUCCESS, h2)" "regs h2 = (regs h1)(config_word 1 a := ?v)"
    by (rule write_long_ok [OF M])
  then show ?thesis using h1 by (auto simp: pci_set_bits_def)
qed

lemma write_byte_adds:
  assumes M: "config_mechanism P latch regs (\<lambda>a old v. v)" and k: "unat k \<le> 3"
  shows "\<exists>h1 h2. pci_write_byte P 1 a k w h = (E_SUCCESS, h1) \<and>
      pci_read_byte P 1 a k y h1 = (E_SUCCESS, byte_of (unat k) (regs h (config_word 1 a)) OR w, h2) \<and>
      (\<forall>j \<le> 3. j \<noteq> unat k \<longrightarrow> byte_of j (regs h1 (config_word 1 a)) = byte_of j (regs h (config_word 1 a)))"
proof -
  let ?w = "config_word 1 a"
  let ?v = "regs h ?w OR push_bit (unat k * 8) (ucast w AND 0xff)"
  have k3: "\<not> 3 < k" using k by (simp add: word_less_nat_alt)
  obtain h1 where h1: "pci_read_long P 1 a (Some 0) h = (E_SUCCESS, Some (regs h ?w), h1)" "regs h1 = regs h"
    by (rule read_long_ok [OF M])
  obtain h2 where h2: "pci_write_long P 1 a ?v h1 = (E_SUCCESS, h2)" "regs h2 = (regs h1)(?w := ?v)"
    by (rule write_long_ok [OF M])
  obtain h3 where h3: "pci_read_long P 1 a (Some 0) h2 = (E_SUCCESS, Some ?v, h3)"
    using read_long_ok [OF M, where ca = 1 and addr = a and x = 0 and h = h2] h2(2) by (metis fun_upd_same)
  have "pci_write_byte P 1 a k w h = (E_SUCCESS, h2)" using h1(1) h2(1) k3 by (simp add: pci_write_byte_def)
  moreover have "pci_read_byte P 1 a k y h2 = (E_SUCCESS, byte_of (unat k) (regs h ?w) OR w, h3)"
    using h3 k3 or_byte(1) [OF k, of "regs h ?w" w] by (simp add: pci_read_byte_def)
  moreover have "byte_of j (regs h2 ?w) = byte_of j (regs h ?w)" if "j \<le> 3" "j \<noteq> unat k" for j
    using h2(2) or_byte(2) [OF k that, of "regs h ?w" w] by simp
  ultimately show ?thesis by blast
qed

text \<open>
  On hardware whose registers take what is written, a long that is written to an address in
  range is read back, and no other address in range names the same register.  Bits are set and
  cleared as asked.  A byte that is written leaves the other three bytes alone, but what is
  read back is the disjunction of the old and the new byte: \<^verbatim>\<open>_pci_write_byte\<close> does not clear
  the old bits first, so that the write stores the byte only where it adds bits.
\<close>



section \<open>Base address registers\<close>

lemma size_of_mask:
  fixes f :: u32
  assumes "4 \<le> k" and "k < 32" and "f AND PCI_BAR_ADDR_MASK = 0"
  shows "size_of_probe (NOT (mask k) OR f) = 2 ^ k"
proof -
  have m: "(0xfffffff0 :: u32) = NOT (mask 4)" by (simp add: mask_eq_exp_minus_1)
  have "f AND NOT (mask 4) = 0" using assms(3) by (simp add: m)
  then have "(NOT (mask k) OR f) AND NOT (mask 4) = NOT (mask k :: u32) AND NOT (mask 4)"
    by (simp add: bit.conj_disj_distrib2)
  also have "\<dots> = NOT (mask k)"
    by (rule bit_word_eqI) (use assms(1) in \<open>auto simp: bit_simps\<close>)
  finally show ?thesis by (simp add: size_of_probe_def m mask_eq_exp_minus_1)
qed

lemma masked_write:
  fixes x :: u32
  shows "x AND NOT (mask k) OR (v AND NOT (mask k) OR x AND mask k) AND mask k = x"
    and "y AND NOT (mask k) OR (v AND NOT (mask k) OR x AND mask k) AND mask k = y AND NOT (mask k) OR x AND mask k"
  by (rule bit_word_eqI, auto simp: bit_simps)+

text \<open>
  A register of a region of \<open>2 ^ k\<close> bytes has its lower \<open>k\<close> bits hardwired, of which at most
  the lowest four are set.  The
  probe of such a register gives the size of the region.  Afterwards the driver restores the
  register: register 0 is as before, but the upper bits of another register are left with what
  register 0 held, as \<^verbatim>\<open>original_bar\<close> is always taken from \<^verbatim>\<open>bar[0]\<close>.  An index out of range,
  or a header of another type, is an error that leaves the hardware alone.
\<close>


definition sample_device :: pci_device_t where
  "sample_device = null_device\<lparr>pd_config := (\<lambda>_. 0)(4 := 0xfe000000, 5 := 0xfd000000)\<rparr>"

definition sample_bars :: "bus pci" where
  "sample_bars = sample_bus\<lparr>pci_hw := (0, (\<lambda>_. 0)(bar_word (pd_address null_device) 0 := 0xfe000000,
       bar_word (pd_address null_device) 1 := 0xfd000000)), pci_devs := (\<lambda>_. sample_device)\<rparr>"


section \<open>Headers\<close>

text \<open>
  Reading a header fills in the registers up to the limit of its type and keeps the words of
  the structure behind it.  For a header of type 0 the interrupt line and pin are behind the
  limit, and for a device with several functions, whose type has bit 7 set, all base address
  registers are: they keep what the memory of the structure held.
\<close>

text \<open>a header is read up to the limit of its type, which leaves out the interrupt line, and the registers of a multifunction device.\<close>

theorem pci_header_is_partial:
  assumes M: "config_mechanism P latch regs wr"
  shows "\<exists>c' h'. pci_read_config P a c h = (E_SUCCESS, c', h') \<and> regs h' = regs h \<and>
    (\<forall>i. c' i = (if i < header_words (regs h) a then reg_of (regs h) a i else c i)) \<and>
    4 \<le> header_words (regs h) a \<and>
    (headerType c' = 0 \<longrightarrow> (\<forall>i < 6. type0_bar c' i = reg_of (regs h) a (4 + i)) \<and> irqLine c' = irqLine c \<and> irqPin c' = irqPin c) \<and>
    (headerType c' AND 0x80 \<noteq> 0 \<longrightarrow> (\<forall>i < 6. type0_bar c' i = type0_bar c i))"
proof -
  let ?c = "config_read (regs h) a c"
  obtain h' where h': "pci_read_config P a c h = (E_SUCCESS, ?c, h')" "regs h' = regs h"
    by (rule read_config_ok [OF M])
  have "header_words (regs h) a = 15" if "headerType ?c = 0"
    using that by (simp add: header_words_def header_limit_def)
  moreover have "header_words (regs h) a = 4" if "headerType ?c AND 0x80 \<noteq> 0"
    using that by (auto simp: header_words_def header_limit_def)
  ultimately show ?thesis
    using h' header_words_ge [of "regs h" a]
    by (intro exI [of _ ?c] exI [of _ h'] conjI) (auto simp: config_read_def type0_bar_def irqLine_def irqPin_def)
qed

lemma pci_header_is_partial_witness:
  "\<exists>c' h'. pci_read_config (sample_pci (\<lambda>_. 0)) (bus_addr 0) (\<lambda>_. 0xeeeeeeee) (0, \<lambda>_. 0) = (E_SUCCESS, c', h') \<and>
     irqLine c' = 0xee \<and> type0_bar c' 0 = 0"
proof -
  obtain c' h' where c': "pci_read_config (sample_pci (\<lambda>_. 0)) (bus_addr 0) (\<lambda>_. 0xeeeeeeee) (0, \<lambda>_. 0) = (E_SUCCESS, c', h')"
    "\<forall>i. c' i = (if i < header_words (snd (0 :: u32, \<lambda>_. 0)) (bus_addr 0) then reg_of (snd (0 :: u32, \<lambda>_. 0)) (bus_addr 0) i else 0xeeeeeeee)"
    "headerType c' = 0 \<longrightarrow> (\<forall>i < 6. type0_bar c' i = reg_of (snd (0 :: u32, \<lambda>_. 0)) (bus_addr 0) (4 + i)) \<and> irqLine c' = irqLine (\<lambda>_. 0xeeeeeeee)"
    using pci_header_is_partial [OF sample_pci_ok [of "\<lambda>_. 0"], of "bus_addr 0" "\<lambda>_. 0xeeeeeeee" "(0, \<lambda>_. 0)"] by blast
  have "4 \<le> header_words (snd (0 :: u32, \<lambda>_. 0)) (bus_addr 0)" by (rule header_words_ge)
  then have "headerType c' = 0" using c'(2) by (simp add: headerType_def reg_of_def byte_of_def)
  then show ?thesis using c'(1,3) by (auto simp: reg_of_def irqLine_def byte_of_def)
qed

end
