(* ===== verification/Graphics.thy ===== *)
theory Graphics
  imports Console Pids Screens Mouse
begin

text \<open>
  Drawing on frame buffers: \<^verbatim>\<open>kernel/vesa_framebuffer.c\<close>, \<^verbatim>\<open>kernel/gs_io.c\<close> and the drawing
  of \<^verbatim>\<open>kernel/screen_manager.c\<close>.  Memory is by half words, as in the theory \<open>Console\<close>: a pixel
  is the half word at an even address, and addresses wrap at 32 bits.  The font and the
  addresses of the screens' frame buffers are arguments.
\<close>

section \<open>The frame buffer\<close>

type_synonym halves = "u32 \<Rightarrow> u16"

type_synonym pixel_t = u16

record vesa =
  vesa_video_memory :: u32
  vesa_x_resolution :: u32
  vesa_y_resolution :: u32
  vesa_red_mask :: u32
  vesa_red_offset :: u32
  vesa_blue_mask :: u32
  vesa_blue_offset :: u32
  vesa_green_mask :: u32
  vesa_green_offset :: u32

text \<open>
  The fields of \<^verbatim>\<open>vbe_mode_info_t\<close> at their offsets, with the padding before
  \<^verbatim>\<open>physical_base_ptr\<close>.  A shift by more than 31 places, which C leaves undefined, is
  what the processor does: the count is taken modulo 32.
\<close>

definition info16 :: "(nat \<Rightarrow> u8) \<Rightarrow> nat \<Rightarrow> u16" where
  "info16 info i = ucast (info i) OR push_bit 8 (ucast (info (i + 1)))"

definition info32 :: "(nat \<Rightarrow> u8) \<Rightarrow> nat \<Rightarrow> u32" where
  "info32 info i = ucast (info16 info i) OR push_bit 16 (ucast (info16 info (i + 2)))"

definition size_mask :: "u8 \<Rightarrow> u32" where
  "size_mask n = push_bit (unat n mod 32) 1 - 1"

definition vesa_init :: "(nat \<Rightarrow> u8) \<Rightarrow> vesa" where
  "vesa_init info =
     \<lparr>vesa_video_memory = info32 info 40,
      vesa_x_resolution = ucast (info16 info 18),
      vesa_y_resolution = ucast (info16 info 20),
      vesa_red_mask = size_mask (info 30), vesa_red_offset = ucast (info 31),
      vesa_blue_mask = size_mask (info 34), vesa_blue_offset = ucast (info 35),
      vesa_green_mask = size_mask (info 32), vesa_green_offset = ucast (info 33)\<rparr>"

definition EXTRACT_RED :: "u16 \<Rightarrow> u32" where
  "EXTRACT_RED p = drop_bit 11 (ucast p AND 0xF800)"

definition EXTRACT_GREEN :: "u16 \<Rightarrow> u32" where
  "EXTRACT_GREEN p = drop_bit 5 (ucast p AND 0x07E0)"

definition EXTRACT_BLUE :: "u16 \<Rightarrow> u32" where
  "EXTRACT_BLUE p = ucast p AND 0x001F"

definition CREATE_PIXEL :: "u32 \<Rightarrow> u32 \<Rightarrow> u32 \<Rightarrow> pixel_t" where
  "CREATE_PIXEL r g b = ucast (push_bit 11 r OR push_bit 5 g OR push_bit 0 b)"

definition CREATE_DOUBLE_PIXEL :: "pixel_t \<Rightarrow> pixel_t \<Rightarrow> u32" where
  "CREATE_DOUBLE_PIXEL p1 p2 = push_bit 16 (ucast p1) OR ucast p2"

text \<open>Addresses of pixels and of double pixels; the resolution makes the sums unsigned.\<close>

definition GET_PIXEL_BUF :: "vesa \<Rightarrow> u32 \<Rightarrow> u32 \<Rightarrow> u32 \<Rightarrow> u32" where
  "GET_PIXEL_BUF v x y buf = buf + 2 * (y * vesa_x_resolution v + x)"

definition GET_DOUBLE_PIXEL_BUF :: "vesa \<Rightarrow> u32 \<Rightarrow> u32 \<Rightarrow> u32 \<Rightarrow> u32" where
  "GET_DOUBLE_PIXEL_BUF v x y buf = buf + 4 * (y * drop_bit 1 (vesa_x_resolution v) + signed_drop_bit 1 x)"

definition put_double :: "u32 \<Rightarrow> u32 \<Rightarrow> halves \<Rightarrow> halves" where
  "put_double a dp m = m(a := ucast dp, a + 2 := ucast (drop_bit 16 dp))"

definition get_double :: "halves \<Rightarrow> u32 \<Rightarrow> u32" where
  "get_double m a = ucast (m a) OR push_bit 16 (ucast (m (a + 2)))"

text \<open>
  The globals that drawing reads: the screen of the current process, the active screen, and
  where the frame buffers of the screens are.
\<close>

record gs =
  gs_mem :: halves
  gs_vesa :: vesa
  gs_fb :: "handle_t \<Rightarrow> u32"
  gs_current :: handle_t
  gs_active :: handle_t

text \<open>Drawing goes to video memory if the screen of the process is the active one.\<close>

definition gs_target :: "gs \<Rightarrow> u32" where
  "gs_target s = (if gs_current s = gs_active s then vesa_video_memory (gs_vesa s) else gs_fb s (gs_current s))"

section \<open>Pixels\<close>

definition gs_get_pixel_buf :: "u32 \<Rightarrow> u32 \<Rightarrow> u32 \<Rightarrow> gs \<Rightarrow> pixel_t" where
  "gs_get_pixel_buf x y buf s = gs_mem s (GET_PIXEL_BUF (gs_vesa s) x y buf)"

definition gs_get_pixel :: "u32 \<Rightarrow> u32 \<Rightarrow> gs \<Rightarrow> pixel_t" where
  "gs_get_pixel x y s = gs_mem s (GET_PIXEL_BUF (gs_vesa s) x y (gs_target s))"

definition gs_draw_pixel :: "u32 \<Rightarrow> u32 \<Rightarrow> pixel_t \<Rightarrow> gs \<Rightarrow> gs" where
  "gs_draw_pixel x y color s =
     s\<lparr>gs_mem := (gs_mem s)(GET_PIXEL_BUF (gs_vesa s) x y (gs_target s) := color)\<rparr>"

definition gs_draw_double_pixel :: "u32 \<Rightarrow> u32 \<Rightarrow> pixel_t \<Rightarrow> pixel_t \<Rightarrow> gs \<Rightarrow> gs" where
  "gs_draw_double_pixel x y color_l color_r s =
     s\<lparr>gs_mem := put_double (GET_DOUBLE_PIXEL_BUF (gs_vesa s) x y (gs_target s))
                    (CREATE_DOUBLE_PIXEL color_l color_r) (gs_mem s)\<rparr>"

section \<open>Characters\<close>

abbreviation FONT_CHAR_WIDTH :: u32 where "FONT_CHAR_WIDTH \<equiv> 12"
abbreviation FONT_CHAR_HEIGHT :: u32 where "FONT_CHAR_HEIGHT \<equiv> 16"

type_synonym font_t = "nat \<Rightarrow> nat \<Rightarrow> nat \<Rightarrow> u8"

definition draw_mode :: "u32 \<Rightarrow> pixel_t \<Rightarrow> pixel_t \<Rightarrow> pixel_t" where
  "draw_mode dm pix old =
     (if dm AND 3 = 0 then pix else if dm AND 3 = 3 then old XOR pix
      else if dm AND 3 = 1 then old AND pix else old OR pix)"

definition font_pixel :: "font_t \<Rightarrow> u32 \<Rightarrow> nat \<Rightarrow> nat \<Rightarrow> nat \<Rightarrow> pixel_t" where
  "font_pixel font dm c i j =
     (let pix = (if font c i j \<noteq> 0 then -1 else 0) in if dm AND 8 \<noteq> 0 then NOT pix else pix)"

text \<open>A pixel of the font becomes a square of four.\<close>

definition glyph_cell ::
  "vesa \<Rightarrow> font_t \<Rightarrow> u32 \<Rightarrow> u32 \<Rightarrow> nat \<Rightarrow> u32 \<Rightarrow> u32 \<Rightarrow> nat \<times> nat \<Rightarrow> halves \<Rightarrow> halves" where
  "glyph_cell v font x y c buf dm = (\<lambda>(i, j) m.
     let pix = font_pixel font dm c i j; x' = x + push_bit 1 (of_nat j); y' = y + push_bit 1 (of_nat i)
     in fold (\<lambda>a m. m(a := draw_mode dm pix (m a)))
          [GET_PIXEL_BUF v x' y' buf, GET_PIXEL_BUF v x' (y' + 1) buf,
           GET_PIXEL_BUF v (x' + 1) y' buf, GET_PIXEL_BUF v (x' + 1) (y' + 1) buf] m)"

text \<open>
  A character is a signed byte that is converted to an unsigned index: from \<open>0x80\<close> on the
  index is far behind the table of 128 characters.
\<close>

definition gs_putc_at_buf ::
  "font_t \<Rightarrow> u32 \<Rightarrow> u32 \<Rightarrow> u8 \<Rightarrow> u32 \<Rightarrow> u32 \<Rightarrow> gs \<Rightarrow> gs outcome" where
  "gs_putc_at_buf font x y c buf dm s =
     (let i = unat (scast c :: u32)
      in if 128 \<le> i then Inl (Fault ''gs_putc_at_buf: index outside the font'')
         else Inr (s\<lparr>gs_mem := fold (glyph_cell (gs_vesa s) font x y i buf dm)
                      (List.product [0..<8] [0..<6]) (gs_mem s)\<rparr>))"

definition gs_putc_at :: "font_t \<Rightarrow> u32 \<Rightarrow> u32 \<Rightarrow> u8 \<Rightarrow> u32 \<Rightarrow> gs \<Rightarrow> gs outcome" where
  "gs_putc_at font x y c dm s = gs_putc_at_buf font x y c (gs_target s) dm s"

text \<open>The place of a character of a string: the coordinates that are past the edge are reset.\<close>

definition wrap_place :: "vesa \<Rightarrow> u32 \<Rightarrow> u32 \<Rightarrow> u32 \<times> u32" where
  "wrap_place v x y =
     (let (x1, y1) = (if x > vesa_x_resolution v then (0, y + FONT_CHAR_HEIGHT) else (x, y))
      in if y1 > vesa_y_resolution v then (0, 0) else (x1, y1))"

fun gs_puts_at :: "font_t \<Rightarrow> u32 \<Rightarrow> u32 \<Rightarrow> u8 list \<Rightarrow> u32 \<Rightarrow> gs \<Rightarrow> gs outcome" where
  "gs_puts_at font x y [] dm s = Inr s"
| "gs_puts_at font x y (c # cs) dm s =
     (if c = 0x0A then gs_puts_at font 0 (y + FONT_CHAR_HEIGHT) cs dm s
      else if c = 0x0D then gs_puts_at font 0 y cs dm s
      else case wrap_place (gs_vesa s) x y of
             (x', y') \<Rightarrow> andThen (gs_putc_at font x' y' c dm s) (gs_puts_at font (x' + FONT_CHAR_WIDTH) y' cs dm))"

text \<open>This one moves on before it draws.\<close>

fun gs_puts_at_buf :: "font_t \<Rightarrow> u32 \<Rightarrow> u32 \<Rightarrow> u8 list \<Rightarrow> u32 \<Rightarrow> u32 \<Rightarrow> gs \<Rightarrow> gs outcome" where
  "gs_puts_at_buf font x y [] buf dm s = Inr s"
| "gs_puts_at_buf font x y (c # cs) buf dm s =
     (if c = 0x0A then gs_puts_at_buf font 0 (y + FONT_CHAR_HEIGHT) cs buf dm s
      else if c = 0x0D then gs_puts_at_buf font 0 y cs buf dm s
      else case wrap_place (gs_vesa s) x y of
             (x', y') \<Rightarrow> andThen (gs_putc_at_buf font (x' + FONT_CHAR_WIDTH) y' c buf dm s)
                            (gs_puts_at_buf font (x' + FONT_CHAR_WIDTH) y' cs buf dm))"

section \<open>The console\<close>

abbreviation (input) LEGACY_SCREEN_WIDTH :: nat where "LEGACY_SCREEN_WIDTH \<equiv> 106"
abbreviation (input) LEGACY_SCREEN_HEIGHT :: nat where "LEGACY_SCREEN_HEIGHT \<equiv> 64"

definition console_cell :: "font_t \<Rightarrow> nat \<times> nat \<Rightarrow> gs \<Rightarrow> gs outcome" where
  "console_cell font = (\<lambda>(r, c) s.
     gs_putc_at font (of_nat (c * 12)) (of_nat (r * 16))
       (ucast (gs_mem s (VIDEO_BASE_ADDR + 2 * of_nat (r * LEGACY_SCREEN_WIDTH + c)) AND 0xFF)) 0 s)"

fun draw_cells :: "font_t \<Rightarrow> (nat \<times> nat) list \<Rightarrow> gs \<Rightarrow> gs outcome" where
  "draw_cells font [] s = Inr s"
| "draw_cells font (rc # rcs) s = andThen (console_cell font rc s) (draw_cells font rcs)"

definition gs_draw_console :: "font_t \<Rightarrow> gs \<Rightarrow> gs outcome" where
  "gs_draw_console font s = draw_cells font (List.product [0..<LEGACY_SCREEN_HEIGHT] [0..<LEGACY_SCREEN_WIDTH]) s"

section \<open>Whole buffers\<close>

text \<open>The loops count pixels, but each step copies a double pixel.\<close>

fun copy_doubles :: "nat \<Rightarrow> u32 \<Rightarrow> u32 \<Rightarrow> halves \<Rightarrow> halves" where
  "copy_doubles 0 dst src m = m"
| "copy_doubles (Suc n) dst src m = copy_doubles n (dst + 4) (src + 4) (put_double dst (get_double m src) m)"

definition resolution :: "gs \<Rightarrow> nat" where
  "resolution s = unat (vesa_y_resolution (gs_vesa s)) * unat (vesa_x_resolution (gs_vesa s))"

definition gs_draw_buf :: "u32 \<Rightarrow> gs \<Rightarrow> gs" where
  "gs_draw_buf buf s = s\<lparr>gs_mem := copy_doubles (resolution s) (gs_target s) buf (gs_mem s)\<rparr>"

definition gs_save_buf :: "u32 \<Rightarrow> gs \<Rightarrow> gs" where
  "gs_save_buf buf s = s\<lparr>gs_mem := copy_doubles (resolution s) buf (gs_target s) (gs_mem s)\<rparr>"

fun clear_pixels :: "nat \<Rightarrow> u32 \<Rightarrow> halves \<Rightarrow> halves" where
  "clear_pixels 0 p m = m"
| "clear_pixels (Suc n) p m = clear_pixels n (p + 2) (m(p := 0))"

definition gs_clear_buf :: "u32 \<Rightarrow> gs \<Rightarrow> gs" where
  "gs_clear_buf buf s = s\<lparr>gs_mem := clear_pixels (resolution s) buf (gs_mem s)\<rparr>"

definition gs_clear :: "gs \<Rightarrow> gs" where
  "gs_clear s = gs_clear_buf (gs_target s) s"

section \<open>The screen manager\<close>

text \<open>The cursor is a square that is inverted, pixel by pixel.\<close>

definition draw_cursor :: "u32 \<Rightarrow> u32 \<Rightarrow> gs \<Rightarrow> gs" where
  "draw_cursor mouse_x mouse_y s =
     fold (\<lambda>(i, j) s.
        let x = mouse_x + of_nat i; y = mouse_y + of_nat j
        in gs_draw_pixel x y (0xFFFF XOR gs_get_pixel x y s) s) (List.product [0..<6] [0..<6]) s"

definition clip :: "int \<Rightarrow> u32 \<Rightarrow> u32" where
  "clip n z = (if n \<le> sint z then word_of_int (n - 1) else if sint z < 0 then 0 else z)"

text \<open>
  One packet of the mouse: the screen that a click selects, if it does, or the new place of
  the cursor.  The packet bytes are signed; \<open>owned\<close> tells the screens that have an owner.
\<close>

definition cursor_step ::
  "(handle_t \<Rightarrow> bool) \<Rightarrow> handle_t \<Rightarrow> u32 \<Rightarrow> u8 \<Rightarrow> u8 \<Rightarrow> u8 \<Rightarrow> u32 \<Rightarrow> u32 \<Rightarrow> handle_t option \<times> u32 \<times> u32" where
  "cursor_step owned screen prev_pktinfo pktinfo pktx pkty mouse_x mouse_y =
     (if (scast pktinfo :: u32) AND 0xF = 8 \<and> prev_pktinfo AND 0xF = 9 then
        let dst_screen = word_of_int (4 * trunc_div mouse_y 256 + trunc_div mouse_x 320)
        in (if dst_screen \<noteq> screen \<and> owned dst_screen then Some dst_screen else None, mouse_x, mouse_y)
      else (None, clip 1280 (mouse_x + get_x_offset pktinfo pktx), clip 1024 (mouse_y - get_y_offset pktinfo pkty)))"

text \<open>The small picture of a screen: every fourth pixel of every fourth line, of 1280 pixels.\<close>

definition buffer_pixel :: "u32 \<Rightarrow> nat \<Rightarrow> nat \<Rightarrow> gs \<Rightarrow> pixel_t" where
  "buffer_pixel fb y x s = gs_mem s (fb + 2 * of_nat (y * 1280 + x))"

definition draw_small :: "u32 \<Rightarrow> nat \<Rightarrow> nat \<Rightarrow> gs \<Rightarrow> gs" where
  "draw_small fb r c s =
     fold (\<lambda>(x, y) s.
        let p = buffer_pixel fb (4 * y) (4 * x) s
        in gs_draw_pixel (of_nat (c * 320 + x)) (of_nat (r * 256 + y))
             (CREATE_PIXEL (EXTRACT_RED p) (EXTRACT_GREEN p) (EXTRACT_BLUE p)) s)
       (List.product [0..<320] [0..<256]) s"

definition draw_screens :: "pid_t \<Rightarrow> (nat \<Rightarrow> pid_t) \<Rightarrow> gs \<Rightarrow> gs" where
  "draw_screens zero owner s =
     fold (\<lambda>(r, c) s. if pid_cmp zero (owner (4 * r + c)) \<noteq> 0
        then draw_small (gs_fb s (of_nat (4 * r + c))) r c s else s) (List.product [0..<4] [0..<4]) s"

end
