(* ===== verification/Graphics_Lemmas.thy ===== *)
theory Graphics_Lemmas
  imports Graphics
begin

text \<open>
  Lemmas of the drawing routines: pixels of a frame buffer have different addresses, a loop
  that changes each of a list of pixels once, and what the characters, the console, and the
  copies of whole buffers leave in memory.
\<close>

section \<open>Addresses of pixels\<close>

lemma gs_mem_frame [simp]:
  "gs_target (s\<lparr>gs_mem := m\<rparr>) = gs_target s" "resolution (s\<lparr>gs_mem := m\<rparr>) = resolution s"
  by (simp_all add: gs_target_def resolution_def)

definition adr :: "u32 \<Rightarrow> nat \<Rightarrow> u32" where
  "adr buf n = buf + 2 * of_nat n"

lemma adr_eq_iff:
  assumes "n < 2 ^ 31" and "k < 2 ^ 31"
  shows "adr buf n = adr buf k \<longleftrightarrow> n = k"
proof
  assume "adr buf n = adr buf k"
  then have "(of_nat (2 * n) :: u32) = of_nat (2 * k)" by (simp add: adr_def)
  then have "unat (of_nat (2 * n) :: u32) = unat (of_nat (2 * k) :: u32)" by simp
  then show "n = k" using assms by (subst (asm) (1 2) unat_of_nat_u32) simp_all
qed simp

lemma pixel_adr:
  assumes "vesa_x_resolution v = of_nat W"
  shows "GET_PIXEL_BUF v (of_nat x) (of_nat y) buf = adr buf (y * W + x)"
  by (simp add: GET_PIXEL_BUF_def adr_def assms)

lemma grid_eq_iff:
  fixes W :: nat
  assumes "x < W" and "x' < W"
  shows "y * W + x = y' * W + x' \<longleftrightarrow> x = x' \<and> y = y'"
proof
  assume e: "y * W + x = y' * W + x'"
  have "(y * W + x) mod W = x" "(y' * W + x') mod W = x'" "(y * W + x) div W = y" "(y' * W + x') div W = y'"
    using assms by simp_all
  then show "x = x' \<and> y = y'" using e by metis
qed simp

lemma grid_less:
  fixes W :: nat
  assumes "x < W" and "y < H"
  shows "y * W + x < H * W"
proof -
  have "y * W + x < Suc y * W" using assms(1) by simp
  also have "\<dots> \<le> H * W" using assms(2) by (intro mult_right_mono) simp_all
  finally show ?thesis .
qed

section \<open>Loops that change each place once\<close>

lemma fold_touch_other:
  "a \<notin> key ` set ks \<Longrightarrow> fold (\<lambda>k m. m(key k := f k (m (key k)))) ks m a = m a"
  by (induction ks arbitrary: m) simp_all

lemma fold_touch:
  "distinct (map key ks) \<Longrightarrow> k \<in> set ks \<Longrightarrow>
   fold (\<lambda>k m. m(key k := f k (m (key k)))) ks m (key k) = f k (m (key k))"
proof (induction ks arbitrary: m)
  case (Cons x ks)
  show ?case
  proof (cases "k = x")
    case True
    then have "key x \<notin> key ` set ks" using Cons.prems(1) by simp
    from fold_touch_other [OF this] have "fold (\<lambda>k m. m(key k := f k (m (key k)))) ks (m(key x := f x (m (key x)))) (key x) = f x (m (key x))"
      by (rule trans) (rule fun_upd_same)
    then show ?thesis by (simp only: True fold_simps)
  next
    case False
    then have "k \<in> set ks" "key k \<noteq> key x" using Cons.prems by (auto simp: image_iff)
    then show ?thesis using Cons.IH Cons.prems(1) by simp
  qed
qed simp

lemma fold_concat_map: "fold f (concat (map g xs)) = fold (\<lambda>x. fold f (g x)) xs"
  by (induction xs) auto

section \<open>Characters\<close>

text \<open>The places of the pixels of a character, in the order in which they are written.\<close>

definition glyph_places :: "(nat \<times> nat) list" where
  "glyph_places =
     concat (map (\<lambda>(i, j). [(2 * j, 2 * i), (2 * j, 2 * i + 1), (2 * j + 1, 2 * i), (2 * j + 1, 2 * i + 1)])
       (List.product [0..<8] [0..<6]))"

lemma glyph_places_set: "set glyph_places = {0..<12} \<times> {0..<16}"
proof -
  have "(p, q) \<in> set glyph_places" if "p < 12" "q < 16" for p q
  proof -
    have "(q div 2, p div 2) \<in> set (List.product [0..<8] [0..<6])" using that by auto
    moreover have "p = 2 * (p div 2) \<or> p = 2 * (p div 2) + 1" "q = 2 * (q div 2) \<or> q = 2 * (q div 2) + 1" by linarith+
    then have "(p, q) \<in> set (case (q div 2, p div 2) of (i, j) \<Rightarrow>
        [(2 * j, 2 * i), (2 * j, 2 * i + 1), (2 * j + 1, 2 * i), (2 * j + 1, 2 * i + 1)])" by auto
    ultimately show ?thesis unfolding glyph_places_def set_concat set_map by blast
  qed
  moreover have "set glyph_places \<subseteq> {0..<12} \<times> {0..<16}" unfolding glyph_places_def by auto
  ultimately show ?thesis by auto
qed

lemma glyph_places_distinct: "distinct glyph_places"
proof (rule card_distinct)
  have "length glyph_places = 192" by (simp add: glyph_places_def length_concat comp_def case_prod_beta sum_list_triv)
  then show "card (set glyph_places) = length glyph_places" by (simp add: glyph_places_set card_cartesian_product)
qed

lemma glyph_as_places:
  assumes W: "vesa_x_resolution v = of_nat W"
  shows "fold (glyph_cell v font (of_nat X) (of_nat Y) c buf dm) (List.product [0..<8] [0..<6]) m =
    fold (\<lambda>(p, q) m. m(adr buf ((Y + q) * W + (X + p)) :=
        draw_mode dm (font_pixel font dm c (q div 2) (p div 2)) (m (adr buf ((Y + q) * W + (X + p)))))) glyph_places m"
proof -
  have e: "GET_PIXEL_BUF v (of_nat X + of_nat p) (of_nat Y + of_nat q) buf = adr buf ((Y + q) * W + (X + p))" for p q
    using pixel_adr [OF W, of "X + p" "Y + q" buf] by simp
  have e1: "GET_PIXEL_BUF v (of_nat X + of_nat p + 1) (of_nat Y + of_nat q) buf = adr buf ((Y + q) * W + (X + Suc p))" for p q
    using e [of "Suc p" q] by (simp add: ac_simps)
  have e2: "GET_PIXEL_BUF v (of_nat X + of_nat p) (of_nat Y + of_nat q + 1) buf = adr buf ((Y + Suc q) * W + (X + p))" for p q
    using e [of p "Suc q"] by (simp add: ac_simps)
  have e3: "GET_PIXEL_BUF v (of_nat X + of_nat p + 1) (of_nat Y + of_nat q + 1) buf = adr buf ((Y + Suc q) * W + (X + Suc p))" for p q
    using e [of "Suc p" "Suc q"] by (simp add: ac_simps)
  have d: "push_bit 1 (of_nat k :: u32) = of_nat (2 * k)" for k by (simp add: push_bit_eq_mult)
  have "glyph_cell v font (of_nat X) (of_nat Y) c buf dm (i, j) m =
      fold (\<lambda>(p, q) m. m(adr buf ((Y + q) * W + (X + p)) :=
        draw_mode dm (font_pixel font dm c (q div 2) (p div 2)) (m (adr buf ((Y + q) * W + (X + p))))))
        [(2 * j, 2 * i), (2 * j, 2 * i + 1), (2 * j + 1, 2 * i), (2 * j + 1, 2 * i + 1)] m" for i j m
    unfolding glyph_cell_def d by (simp add: e e1 e2 e3 Let_def del: of_nat_mult)
  then show ?thesis unfolding glyph_places_def fold_concat_map
    by (intro fold_cong) (auto simp: fun_eq_iff simp del: fold_simps)
qed

definition glyph_adr :: "nat \<Rightarrow> u32 \<Rightarrow> nat \<Rightarrow> nat \<Rightarrow> nat \<times> nat \<Rightarrow> u32" where
  "glyph_adr W buf X Y = (\<lambda>(p, q). adr buf ((Y + q) * W + (X + p)))"

definition on_screen :: "vesa \<Rightarrow> nat \<Rightarrow> nat \<Rightarrow> bool" where
  "on_screen v W H \<longleftrightarrow> vesa_x_resolution v = of_nat W \<and> W * H \<le> 2 ^ 31 \<and> W < 2 ^ 31 \<and> H < 2 ^ 31"

lemma glyph_adr_inj:
  assumes "on_screen v W H" and "X + 12 \<le> W" and "Y + 16 \<le> H"
  shows "inj_on (glyph_adr W buf X Y) ({0..<12} \<times> {0..<16})"
proof (intro inj_onI)
  fix a b assume ab: "a \<in> {0..<12} \<times> {0..<16}" "b \<in> {0..<12} \<times> {0..<16}" "glyph_adr W buf X Y a = glyph_adr W buf X Y b"
  obtain p q p' q' where e: "a = (p, q)" "b = (p', q')" by (cases a, cases b) blast
  have lt: "(Y + q) * W + (X + p) < 2 ^ 31" if "p < 12" "q < 16" for p q
    using grid_less [of "X + p" W "Y + q" H] that assms by (simp add: on_screen_def mult.commute)
  then show "a = b"
    using ab assms(2) by (auto simp: e glyph_adr_def adr_eq_iff grid_eq_iff)
qed

text \<open>What drawing a character that is inside the frame buffer does to memory.\<close>

lemma glyph_pixels:
  assumes S: "on_screen v W H" "X + 12 \<le> W" "Y + 16 \<le> H"
    and m': "m' = fold (glyph_cell v font (of_nat X) (of_nat Y) c buf dm) (List.product [0..<8] [0..<6]) m"
  shows "p < 12 \<Longrightarrow> q < 16 \<Longrightarrow> m' (glyph_adr W buf X Y (p, q)) =
      draw_mode dm (font_pixel font dm c (q div 2) (p div 2)) (m (glyph_adr W buf X Y (p, q)))"
    and "a \<notin> glyph_adr W buf X Y ` ({0..<12} \<times> {0..<16}) \<Longrightarrow> m' a = m a"
proof -
  have W: "vesa_x_resolution v = of_nat W" using S(1) by (simp add: on_screen_def)
  let ?f = "\<lambda>(p, q). draw_mode dm (font_pixel font dm c (q div 2) (p div 2))"
  have m2: "m' = fold (\<lambda>k m. m(glyph_adr W buf X Y k := ?f k (m (glyph_adr W buf X Y k)))) glyph_places m"
    unfolding m' glyph_as_places [OF W] by (intro fold_cong) (auto simp: glyph_adr_def fun_eq_iff)
  have d: "distinct (map (glyph_adr W buf X Y) glyph_places)"
    using glyph_adr_inj [OF S] glyph_places_distinct by (simp add: distinct_map glyph_places_set)
  show "p < 12 \<Longrightarrow> q < 16 \<Longrightarrow> m' (glyph_adr W buf X Y (p, q)) =
      draw_mode dm (font_pixel font dm c (q div 2) (p div 2)) (m (glyph_adr W buf X Y (p, q)))"
    unfolding m2 using fold_touch [OF d, of "(p, q)" ?f m] by (simp add: glyph_places_set)
  show "a \<notin> glyph_adr W buf X Y ` ({0..<12} \<times> {0..<16}) \<Longrightarrow> m' a = m a"
    unfolding m2 using fold_touch_other [of a "glyph_adr W buf X Y" glyph_places ?f m] by (simp add: glyph_places_set)
qed

lemma scast_char_small:
  fixes c :: u8
  assumes "unat c < 128"
  shows "unat (scast c :: u32) = unat c"
proof -
  have e: "int (unat c) = uint c" by simp
  have u: "- 128 \<le> uint c" "uint c < 128" using assms e by linarith+
  have "sint c = uint c"
    unfolding sint_uint using u by (intro signed_take_bit_int_eq_self) simp_all
  then have "(scast c :: u32) = of_nat (unat c)" by (simp add: scast_eq)
  then show ?thesis using assms by (simp add: unsigned_ucast_eq take_bit_nat_eq_self)
qed

lemma scast_char_ge:
  fixes c :: u8
  shows "unat c \<le> unat (scast c :: u32)"
proof -
  have "take_bit 8 (scast c :: u32) = ucast c"
  proof (rule bit_word_eqI)
    fix n assume "n < LENGTH(32)"
    have "n < 8 \<Longrightarrow> min 7 n = n" by simp
    then show "bit (take_bit 8 (scast c :: u32)) n = bit (ucast c :: u32) n"
      using bit_imp_le_length [of c n] by (auto simp: bit_take_bit_iff bit_signed_iff bit_ucast_iff)
  qed
  then have "take_bit 8 (unat (scast c :: u32)) = unat (ucast c :: u32)"
    by (simp only: unsigned_take_bit_eq [symmetric])
  also have "\<dots> = unat c" using unsigned_less [of c, where ?'a = nat] by (simp add: unsigned_ucast_eq take_bit_nat_eq_self)
  finally show ?thesis using take_bit_nat_less_eq_self [of 8 "unat (scast c :: u32)"] by linarith
qed
lemma putc_ok:
  assumes "unat c < 128"
  shows "gs_putc_at_buf font x y c buf dm s =
    Inr (s\<lparr>gs_mem := fold (glyph_cell (gs_vesa s) font x y (unat c) buf dm) (List.product [0..<8] [0..<6]) (gs_mem s)\<rparr>)"
  using scast_char_small [OF assms] assms by (simp add: gs_putc_at_buf_def)

lemma putc_outside:
  assumes "128 \<le> unat c"
  shows "gs_putc_at_buf font x y c buf dm s = Inl (Fault ''gs_putc_at_buf: index outside the font'')"
  using scast_char_ge [of c] assms by (simp add: gs_putc_at_buf_def)

section \<open>The console\<close>

text \<open>The pixels of the cell at row \<open>r\<close> and column \<open>c\<close>.\<close>

definition cell_adrs :: "nat \<Rightarrow> u32 \<Rightarrow> nat \<times> nat \<Rightarrow> u32 set" where
  "cell_adrs W buf = (\<lambda>(r, c). glyph_adr W buf (c * 12) (r * 16) ` ({0..<12} \<times> {0..<16}))"

definition console_place :: "nat \<times> nat \<Rightarrow> bool" where
  "console_place = (\<lambda>(r, c). r < 64 \<and> c < 106)"

lemma cell_adrs_disjoint:
  assumes S: "on_screen v W H" "1272 \<le> W" "1024 \<le> H" and "console_place rc" "console_place rc'" "rc \<noteq> rc'"
  shows "cell_adrs W buf rc \<inter> cell_adrs W buf rc' = {}"
proof -
  obtain r c r' c' where e: "rc = (r, c)" "rc' = (r', c')" by (cases rc, cases rc') blast
  have lt: "r < 64" "c < 106" "r' < 64" "c' < 106" using assms(4,5) by (simp_all add: e console_place_def)
  have "glyph_adr W buf (c * 12) (r * 16) (p, q) \<noteq> glyph_adr W buf (c' * 12) (r' * 16) (p', q')"
    if "p < 12" "q < 16" "p' < 12" "q' < 16" for p q p' q'
  proof
    assume eq: "glyph_adr W buf (c * 12) (r * 16) (p, q) = glyph_adr W buf (c' * 12) (r' * 16) (p', q')"
    have x: "c * 12 + p < W" "c' * 12 + p' < W" using lt that S(2) by simp_all
    have "(r * 16 + q) * W + (c * 12 + p) < H * W" "(r' * 16 + q') * W + (c' * 12 + p') < H * W"
      by (rule grid_less; use lt that S in simp)+
    then have "(r * 16 + q) * W + (c * 12 + p) < 2 ^ 31" "(r' * 16 + q') * W + (c' * 12 + p') < 2 ^ 31"
      using S(1) by (simp_all add: on_screen_def mult.commute)
    then have "c * 12 + p = c' * 12 + p'" "r * 16 + q = r' * 16 + q'"
      using eq x by (simp_all add: glyph_adr_def adr_eq_iff grid_eq_iff)
    then have "(c * 12 + p) div 12 = (c' * 12 + p') div 12" "(r * 16 + q) div 16 = (r' * 16 + q') div 16" by simp_all
    then show False using that assms(6) by (simp add: e)
  qed
  then show ?thesis by (auto simp: e cell_adrs_def)
qed

text \<open>The character that the console has in a cell.\<close>

definition text_char :: "halves \<Rightarrow> nat \<times> nat \<Rightarrow> u8" where
  "text_char m = (\<lambda>(r, c). ucast (m (VIDEO_BASE_ADDR + 2 * of_nat (r * 106 + c)) AND 0xFF))"

definition text_adr :: "nat \<times> nat \<Rightarrow> u32" where
  "text_adr = (\<lambda>(r, c). VIDEO_BASE_ADDR + 2 * of_nat (r * 106 + c))"

text \<open>Memory in which the cells of a list have been drawn.\<close>

definition cells_drawn :: "nat \<Rightarrow> u32 \<Rightarrow> font_t \<Rightarrow> (nat \<times> nat) list \<Rightarrow> halves \<Rightarrow> halves \<Rightarrow> bool" where
  "cells_drawn W buf font rcs m m' \<longleftrightarrow>
     (\<forall>(r, c) \<in> set rcs. \<forall>p < 12. \<forall>q < 16. m' (glyph_adr W buf (c * 12) (r * 16) (p, q)) =
        font_pixel font 0 (unat (text_char m (r, c))) (q div 2) (p div 2)) \<and>
     (\<forall>a. a \<notin> (\<Union>rc \<in> set rcs. cell_adrs W buf rc) \<longrightarrow> m' a = m a)"

lemma console_cell_ok:
  assumes S: "on_screen (gs_vesa s) W H" "1272 \<le> W" "1024 \<le> H" and "console_place rc"
    and "unat (text_char (gs_mem s) rc) < 128"
  obtains m' where "console_cell font rc s = Inr (s\<lparr>gs_mem := m'\<rparr>)" and "cells_drawn W (gs_target s) font [rc] (gs_mem s) m'"
proof -
  obtain r c where rc: "rc = (r, c)" "r < 64" "c < 106" using assms(4) by (auto simp: console_place_def)
  let ?ch = "text_char (gs_mem s) rc" and ?b = "gs_target s"
  define m' where "m' = fold (glyph_cell (gs_vesa s) font (of_nat (c * 12)) (of_nat (r * 16)) (unat ?ch) ?b 0)
    (List.product [0..<8] [0..<6]) (gs_mem s)"
  have "console_cell font rc s = gs_putc_at_buf font (of_nat (c * 12)) (of_nat (r * 16)) ?ch ?b 0 s"
    by (simp add: console_cell_def gs_putc_at_def text_char_def rc(1))
  then have cell: "console_cell font rc s = Inr (s\<lparr>gs_mem := m'\<rparr>)" using putc_ok [OF assms(5)] by (simp add: m'_def)
  have lt: "c * 12 + 12 \<le> W" "r * 16 + 16 \<le> H" using rc S by simp_all
  note G = glyph_pixels [OF S(1) lt m'_def]
  have "cells_drawn W ?b font [rc] (gs_mem s) m'"
    using G by (auto simp: cells_drawn_def rc(1) cell_adrs_def draw_mode_def)
  with cell show ?thesis by (rule that)
qed

lemma draw_cells_ok:
  "on_screen (gs_vesa s) W H \<Longrightarrow> 1272 \<le> W \<Longrightarrow> 1024 \<le> H \<Longrightarrow> distinct rcs \<Longrightarrow> \<forall>rc \<in> set rcs. console_place rc \<Longrightarrow>
   \<forall>rc \<in> set rcs. unat (text_char (gs_mem s) rc) < 128 \<Longrightarrow>
   \<forall>rc rc'. console_place rc \<and> console_place rc' \<longrightarrow> text_adr rc \<notin> cell_adrs W (gs_target s) rc' \<Longrightarrow>
   \<exists>m'. draw_cells font rcs s = Inr (s\<lparr>gs_mem := m'\<rparr>) \<and> cells_drawn W (gs_target s) font rcs (gs_mem s) m'"
proof (induction rcs arbitrary: s)
  case Nil
  then show ?case by (intro exI [of _ "gs_mem s"]) (simp add: cells_drawn_def)
next
  case (Cons rc rcs)
  obtain m1 where m1: "console_cell font rc s = Inr (s\<lparr>gs_mem := m1\<rparr>)" "cells_drawn W (gs_target s) font [rc] (gs_mem s) m1"
    using console_cell_ok [OF Cons.prems(1-3), of rc font] Cons.prems(5,6) by auto
  let ?s = "s\<lparr>gs_mem := m1\<rparr>"
  have t: "gs_target ?s = gs_target s" by simp
  have same: "m1 a = gs_mem s a" if "a \<notin> cell_adrs W (gs_target s) rc" for a
    using m1(2) that by (simp add: cells_drawn_def)
  have chr: "text_char m1 rc' = text_char (gs_mem s) rc'" if "console_place rc'" for rc'
  proof -
    have "console_place rc" using Cons.prems(5) by simp
    then have "m1 (text_adr rc') = gs_mem s (text_adr rc')" using same Cons.prems(7) that by blast
    then show ?thesis by (cases rc') (simp add: text_char_def text_adr_def)
  qed
  have "\<exists>m'. draw_cells font rcs ?s = Inr (?s\<lparr>gs_mem := m'\<rparr>) \<and> cells_drawn W (gs_target ?s) font rcs (gs_mem ?s) m'"
    using Cons.prems chr by (intro Cons.IH) (auto simp: t)
  then obtain m2 where m2: "draw_cells font rcs ?s = Inr (s\<lparr>gs_mem := m2\<rparr>)" "cells_drawn W (gs_target s) font rcs m1 m2"
    unfolding t by auto
  have dj: "cell_adrs W (gs_target s) rc \<inter> cell_adrs W (gs_target s) rc' = {}" if "rc' \<in> set rcs" for rc'
    using cell_adrs_disjoint [OF Cons.prems(1-3), of rc rc'] Cons.prems(4,5) that by auto
  have "cells_drawn W (gs_target s) font (rc # rcs) (gs_mem s) m2"
    unfolding cells_drawn_def
  proof (intro conjI ballI allI impI)
    fix x assume x: "x \<in> set (rc # rcs)"
    obtain r c where rc: "x = (r, c)" by (cases x)
    have "m2 (glyph_adr W (gs_target s) (c * 12) (r * 16) (p, q)) =
        font_pixel font 0 (unat (text_char (gs_mem s) (r, c))) (q div 2) (p div 2)" if "p < 12" "q < 16" for p q
    proof (cases "x = rc")
      case True
      have "glyph_adr W (gs_target s) (c * 12) (r * 16) (p, q) \<in> cell_adrs W (gs_target s) x"
        using that by (auto simp: cell_adrs_def rc)
      then have "m2 (glyph_adr W (gs_target s) (c * 12) (r * 16) (p, q)) = m1 (glyph_adr W (gs_target s) (c * 12) (r * 16) (p, q))"
        using m2(2) dj True unfolding cells_drawn_def by blast
      moreover have "rc = (r, c)" using True rc by simp
      ultimately show ?thesis using m1(2) that by (simp add: cells_drawn_def)
    next
      case False
      then have "x \<in> set rcs" using x by simp
      then show ?thesis using m2(2) that chr [of x] Cons.prems(5) rc by (auto simp: cells_drawn_def)
    qed
    then show "case x of (r, c) \<Rightarrow> \<forall>p < 12. \<forall>q < 16. m2 (glyph_adr W (gs_target s) (c * 12) (r * 16) (p, q)) =
        font_pixel font 0 (unat (text_char (gs_mem s) (r, c))) (q div 2) (p div 2)" by (simp add: rc)
  next
    fix a assume "a \<notin> (\<Union>rc \<in> set (rc # rcs). cell_adrs W (gs_target s) rc)"
    then show "m2 a = gs_mem s a" using m2(2) same by (auto simp: cells_drawn_def)
  qed
  then show ?case using m1(1) m2(1) by (intro exI [of _ m2]) simp
qed

section \<open>Whole buffers\<close>

lemma put_get_double: "put_double dst (get_double m src) m = m(dst := m src, dst + 2 := m (src + 2))"
proof -
  have "ucast (get_double m src) = m src"
    unfolding get_double_def by (rule bit_word_eqI) (auto simp: bit_simps)
  moreover have "ucast (drop_bit 16 (get_double m src)) = m (src + 2)"
    unfolding get_double_def by (rule bit_word_eqI) (auto simp: bit_simps dest: bit_imp_le_length)
  ultimately show ?thesis by (simp add: put_double_def)
qed

text \<open>Pixels \<open>0\<close> to \<open>n\<close> at two addresses, none in both.\<close>

definition apart :: "nat \<Rightarrow> u32 \<Rightarrow> u32 \<Rightarrow> bool" where
  "apart n a b \<longleftrightarrow> (\<forall>i < n. \<forall>j < n. adr a i \<noteq> adr b j)"

lemma apart_sym: "apart n a b \<Longrightarrow> apart n b a"
  unfolding apart_def by metis

lemma adr_shift: "adr (a + 4) k = adr a (k + 2)"
  by (simp add: adr_def algebra_simps)

lemma adr_0: "adr a 0 = a" "adr a (Suc 0) = a + 2"
  by (simp_all add: adr_def)

lemma copy_doubles_ok:
  "2 * n \<le> 2 ^ 31 \<Longrightarrow> apart (2 * n) dst src \<Longrightarrow>
   (\<forall>k < 2 * n. copy_doubles n dst src m (adr dst k) = m (adr src k)) \<and>
   (\<forall>a. (\<forall>k < 2 * n. a \<noteq> adr dst k) \<longrightarrow> copy_doubles n dst src m a = m a)"
proof (induction n arbitrary: dst src m)
  case 0
  then show ?case by simp
next
  case (Suc n)
  let ?m = "m(dst := m src, dst + 2 := m (src + 2))"
  have ap: "apart (2 * n) (dst + 4) (src + 4)"
    using Suc.prems(2) unfolding apart_def adr_shift by simp
  have n: "2 * n \<le> 2 ^ 31" using Suc.prems(1) by simp
  have step: "copy_doubles (Suc n) dst src m = copy_doubles n (dst + 4) (src + 4) ?m"
    by (simp only: copy_doubles.simps put_get_double)
  note IH = Suc.IH [OF n ap, of ?m]
  have new: "adr dst k \<noteq> adr dst l" if "k < 2" "2 \<le> l" "l < 2 * Suc n" for k l
    using adr_eq_iff [of k l dst] that Suc.prems(1) by simp
  have s0: "?m (adr src k) = m (adr src k)" if "2 \<le> k" "k < 2 * Suc n" for k
  proof -
    have "adr dst 0 \<noteq> adr src k" "adr dst (Suc 0) \<noteq> adr src k" using Suc.prems(2) that unfolding apart_def by simp_all
    then show ?thesis by (simp add: adr_0)
  qed
  have "copy_doubles (Suc n) dst src m (adr dst k) = m (adr src k)" if "k < 2 * Suc n" for k
  proof (cases "k < 2")
    case True
    have "\<forall>l < 2 * n. adr dst k \<noteq> adr (dst + 4) l" unfolding adr_shift using new [OF True] by simp
    then have "copy_doubles (Suc n) dst src m (adr dst k) = ?m (adr dst k)" unfolding step using IH by blast
    then show ?thesis using True new less_2_cases [OF True] by (auto simp: adr_0)
  next
    case False
    then have k2: "k - 2 + 2 = k" "k - 2 < 2 * n" using that by simp_all
    then have "adr dst k = adr (dst + 4) (k - 2)" "adr src k = adr (src + 4) (k - 2)" "k - 2 < 2 * n"
      by (simp_all only: adr_shift)
    then have "copy_doubles (Suc n) dst src m (adr dst k) = ?m (adr src k)" unfolding step using IH by metis
    then show ?thesis using s0 False that by simp
  qed
  moreover have "copy_doubles (Suc n) dst src m a = m a" if a: "\<forall>k. k < 2 * Suc n \<longrightarrow> a \<noteq> adr dst k" for a
  proof -
    have "\<forall>k < 2 * n. a \<noteq> adr (dst + 4) k" unfolding adr_shift using a by simp
    moreover have "a \<noteq> dst" "a \<noteq> dst + 2" using spec [OF a, of 0] spec [OF a, of "Suc 0"] by (simp_all add: adr_0)
    ultimately have "copy_doubles n (dst + 4) (src + 4) ?m a = ?m a" "?m a = m a" using IH by (blast, simp)
    then show ?thesis unfolding step by (rule trans)
  qed
  ultimately show ?case by blast
qed

lemma clear_pixels_ok:
  "n \<le> 2 ^ 31 \<Longrightarrow>
   clear_pixels n p m a = (if \<exists>k < n. a = adr p k then 0 else m a)"
proof (induction n arbitrary: p m)
  case 0
  then show ?case by simp
next
  case (Suc n)
  have sh: "adr (p + 2) k = adr p (Suc k)" for k by (simp add: adr_def algebra_simps)
  have "(\<exists>k < Suc n. a = adr p k) \<longleftrightarrow> a = p \<or> (\<exists>k < n. a = adr p (Suc k))"
    by (auto simp: less_Suc_eq_0_disj adr_0)
  moreover have "clear_pixels n (p + 2) (m(p := 0)) a = (if \<exists>k < n. a = adr p (Suc k) then 0 else (m(p := 0)) a)"
    using Suc.IH [of "p + 2" "m(p := 0)"] Suc.prems unfolding sh by (meson Suc_leD)
  ultimately show ?case by (simp only: clear_pixels.simps) auto
qed

section \<open>The cursor\<close>

definition cursor_adr :: "nat \<Rightarrow> u32 \<Rightarrow> u32 \<Rightarrow> u32 \<Rightarrow> nat \<times> nat \<Rightarrow> u32" where
  "cursor_adr W buf x y = (\<lambda>(i, j). buf + 2 * ((y + of_nat j) * of_nat W + (x + of_nat i)))"

lemma cursor_adr_inj:
  assumes "6 \<le> W" and "W < 2 ^ 28"
  shows "inj_on (cursor_adr W buf x y) ({0..<6} \<times> {0..<6})"
proof (intro inj_onI)
  fix a b assume ab: "a \<in> {0..<6} \<times> {0..<6}" "b \<in> {0..<6} \<times> {0..<6}" "cursor_adr W buf x y a = cursor_adr W buf x y b"
  obtain i j i' j' where e: "a = (i, j)" "b = (i', j')" by (cases a, cases b) blast
  have c: "cursor_adr W buf x y (i, j) = adr (buf + 2 * (y * of_nat W + x)) (j * W + i)" for i j
    by (simp add: cursor_adr_def adr_def algebra_simps)
  have lt: "j * W + i < 2 ^ 31" if "i < 6" "j < 6" for i j
  proof -
    have "j * W \<le> 5 * W" using that by (intro mult_right_mono) simp_all
    then have "j * W + i \<le> 5 * W + 5" using that by linarith
    also have "\<dots> < 2 ^ 31" using assms(2) by simp
    finally show ?thesis .
  qed
  have "j * W + i = j' * W + i'" using ab lt by (simp add: e c adr_eq_iff)
  then show "a = b" using ab assms(1) by (simp add: e grid_eq_iff)
qed

lemma draw_cursor_mem:
  assumes W: "vesa_x_resolution (gs_vesa s) = of_nat W"
  shows "draw_cursor x y s = s\<lparr>gs_mem := fold (\<lambda>k m. m(cursor_adr W (gs_target s) x y k := NOT (m (cursor_adr W (gs_target s) x y k))))
    (List.product [0..<6] [0..<6]) (gs_mem s)\<rparr>"
proof -
  have "(0xFFFF :: u16) = -1" by simp
  moreover have "-1 XOR p = NOT p" for p :: u16 by (rule bit_word_eqI) (auto simp: bit_simps)
  ultimately have x: "0xFFFF XOR p = NOT p" for p :: u16 by (simp only:)
  have f: "fold (\<lambda>(i, j) s. let x' = x + of_nat i; y' = y + of_nat j
        in gs_draw_pixel x' y' (0xFFFF XOR gs_get_pixel x' y' s) s) ks t =
      t\<lparr>gs_mem := fold (\<lambda>k m. m(cursor_adr W (gs_target s) x y k := NOT (m (cursor_adr W (gs_target s) x y k)))) ks (gs_mem t)\<rparr>"
    if "gs_vesa t = gs_vesa s" "gs_target t = gs_target s" for ks t
    using that
  proof (induction ks arbitrary: t)
    case (Cons k ks)
    obtain i j where k: "k = (i, j)" by (cases k)
    let ?t = "t\<lparr>gs_mem := (gs_mem t)(cursor_adr W (gs_target s) x y k := NOT (gs_mem t (cursor_adr W (gs_target s) x y k)))\<rparr>"
    have "gs_draw_pixel (x + of_nat i) (y + of_nat j) (0xFFFF XOR gs_get_pixel (x + of_nat i) (y + of_nat j) t) t = ?t"
      using Cons.prems by (simp add: gs_draw_pixel_def gs_get_pixel_def GET_PIXEL_BUF_def W k cursor_adr_def x)
    moreover have "gs_target ?t = gs_target t" by (simp add: gs_target_def)
    then have "gs_vesa ?t = gs_vesa s" "gs_target ?t = gs_target s" using Cons.prems by simp_all
    ultimately show ?case using Cons.IH [of ?t] by (simp add: k Let_def)
  qed simp
  show ?thesis unfolding draw_cursor_def by (rule f) simp_all
qed

end
