(* ===== verification/Graphics_Properties.thy ===== *)
theory Graphics_Properties
  imports Graphics_Lemmas
begin

text \<open>
  The properties of drawing: a character, the picture of the console, saving and restoring a
  frame buffer, the cursor of the screen manager.
\<close>

section \<open>Characters\<close>

lemma get_pixel_glyph:
  assumes "vesa_x_resolution (gs_vesa s) = of_nat W"
  shows "GET_PIXEL_BUF (gs_vesa s) (of_nat (X + p)) (of_nat (Y + q)) buf = glyph_adr W buf X Y (p, q)"
  unfolding glyph_adr_def using pixel_adr [OF assms, of "X + p" "Y + q" buf] by simp

lemma xor_mode_twice: "dm AND 3 = 3 \<Longrightarrow> draw_mode dm p (draw_mode dm p x) = x"
  by (simp add: draw_mode_def xor.assoc)

text \<open>
  A character that fits into the frame buffer is drawn with each pixel of the font as a
  square of four, combined with the old pixels as the mode says; the rest of memory is as it
  was.  Drawing it again in the XOR mode restores memory.  A character from \<open>0x80\<close> on is
  outside the font: the signed character is converted to an unsigned index.
\<close>

text \<open>C30 Drawing a character changes exactly its 12 by 16 pixels as font and mode say; XOR drawing is undone by repeating it.\<close>

theorem gs_putc_draws_glyph:
  assumes S: "on_screen (gs_vesa s) W H" "X + 12 \<le> W" "Y + 16 \<le> H"
  shows "if unat c < 128 then
      \<exists>s'. gs_putc_at_buf font (of_nat X) (of_nat Y) c buf dm s = Inr s' \<and>
        (\<forall>p < 12. \<forall>q < 16. gs_get_pixel_buf (of_nat (X + p)) (of_nat (Y + q)) buf s' =
           draw_mode dm (font_pixel font dm (unat c) (q div 2) (p div 2))
             (gs_get_pixel_buf (of_nat (X + p)) (of_nat (Y + q)) buf s)) \<and>
        (\<forall>a. (\<forall>p < 12. \<forall>q < 16. a \<noteq> GET_PIXEL_BUF (gs_vesa s) (of_nat (X + p)) (of_nat (Y + q)) buf) \<longrightarrow>
           gs_mem s' a = gs_mem s a) \<and>
        (dm AND 3 = 3 \<longrightarrow> gs_putc_at_buf font (of_nat X) (of_nat Y) c buf dm s' = Inr s)
    else gs_putc_at_buf font (of_nat X) (of_nat Y) c buf dm s = Inl (Fault ''gs_putc_at_buf: index outside the font'')"
proof (cases "unat c < 128")
  case False
  then show ?thesis using putc_outside [of c] by simp
next
  case True
  let ?draw = "\<lambda>m. fold (glyph_cell (gs_vesa s) font (of_nat X) (of_nat Y) (unat c) buf dm) (List.product [0..<8] [0..<6]) m"
  let ?m = "?draw (gs_mem s)" let ?s = "s\<lparr>gs_mem := ?m\<rparr>"
  have W: "vesa_x_resolution (gs_vesa s) = of_nat W" using S(1) by (simp add: on_screen_def)
  note G = glyph_pixels [OF S refl]
  have a: "gs_putc_at_buf font (of_nat X) (of_nat Y) c buf dm s = Inr ?s" by (rule putc_ok [OF True])
  have b: "\<forall>p < 12. \<forall>q < 16. gs_get_pixel_buf (of_nat (X + p)) (of_nat (Y + q)) buf ?s =
      draw_mode dm (font_pixel font dm (unat c) (q div 2) (p div 2)) (gs_get_pixel_buf (of_nat (X + p)) (of_nat (Y + q)) buf s)"
  proof -
    have gp: "gs_get_pixel_buf (of_nat (X + p)) (of_nat (Y + q)) buf t = gs_mem t (glyph_adr W buf X Y (p, q))"
      if "gs_vesa t = gs_vesa s" for t p q
      unfolding gs_get_pixel_buf_def that get_pixel_glyph [OF W] ..
    have "gs_vesa ?s = gs_vesa s" "gs_mem ?s = ?m" by simp_all
    then show ?thesis using G(1) by (simp only: gp) blast
  qed
  have c: "\<forall>a. (\<forall>p < 12. \<forall>q < 16. a \<noteq> GET_PIXEL_BUF (gs_vesa s) (of_nat (X + p)) (of_nat (Y + q)) buf) \<longrightarrow> ?m a = gs_mem s a"
  proof (intro allI impI)
    fix a assume "\<forall>p < 12. \<forall>q < 16. a \<noteq> GET_PIXEL_BUF (gs_vesa s) (of_nat (X + p)) (of_nat (Y + q)) buf"
    then have "\<forall>p < 12. \<forall>q < 16. a \<noteq> glyph_adr W buf X Y (p, q)" unfolding get_pixel_glyph [OF W] .
    then have "a \<notin> glyph_adr W buf X Y ` ({0..<12} \<times> {0..<16})" by (fastforce simp del: mult_Suc)
    then show "?m a = gs_mem s a" by (rule G(2))
  qed
  have d: "?draw ?m = gs_mem s" if "dm AND 3 = 3"
  proof
    fix a
    show "?draw ?m a = gs_mem s a"
    proof (cases "a \<in> glyph_adr W buf X Y ` ({0..<12} \<times> {0..<16})")
      case True
      then obtain p q where pq: "a = glyph_adr W buf X Y (p, q)" "p < 12" "q < 16" by auto
      show ?thesis unfolding pq(1) G(1) [OF pq(2,3)] by (rule xor_mode_twice [OF that])
    next
      case False
      show ?thesis unfolding G(2) [OF False] ..
    qed
  qed
  have "gs_putc_at_buf font (of_nat X) (of_nat Y) c buf dm ?s = Inr s" if "dm AND 3 = 3"
    using putc_ok [OF True, of font "of_nat X" "of_nat Y" buf dm ?s] d [OF that] by simp
  then have "\<exists>s'. gs_putc_at_buf font (of_nat X) (of_nat Y) c buf dm s = Inr s' \<and>
        (\<forall>p < 12. \<forall>q < 16. gs_get_pixel_buf (of_nat (X + p)) (of_nat (Y + q)) buf s' =
           draw_mode dm (font_pixel font dm (unat c) (q div 2) (p div 2))
             (gs_get_pixel_buf (of_nat (X + p)) (of_nat (Y + q)) buf s)) \<and>
        (\<forall>a. (\<forall>p < 12. \<forall>q < 16. a \<noteq> GET_PIXEL_BUF (gs_vesa s) (of_nat (X + p)) (of_nat (Y + q)) buf) \<longrightarrow>
           gs_mem s' a = gs_mem s a) \<and>
        (dm AND 3 = 3 \<longrightarrow> gs_putc_at_buf font (of_nat X) (of_nat Y) c buf dm s' = Inr s)"
    using a b c by (intro exI [of _ ?s]) simp
  then show ?thesis using True by (simp only: if_True)
qed

definition sample_vesa :: "nat \<Rightarrow> nat \<Rightarrow> vesa" where
  "sample_vesa W H = \<lparr>vesa_video_memory = 0xE0000000, vesa_x_resolution = of_nat W, vesa_y_resolution = of_nat H,
     vesa_red_mask = 31, vesa_red_offset = 11, vesa_blue_mask = 31, vesa_blue_offset = 0,
     vesa_green_mask = 63, vesa_green_offset = 5\<rparr>"

definition sample_gs :: "nat \<Rightarrow> nat \<Rightarrow> gs" where
  "sample_gs W H = \<lparr>gs_mem = (\<lambda>_. 0x0741), gs_vesa = sample_vesa W H, gs_fb = (\<lambda>_. 0x400000), gs_current = 0, gs_active = 0\<rparr>"

lemma sample_on_screen: "W * H \<le> 2 ^ 31 \<Longrightarrow> W < 2 ^ 31 \<Longrightarrow> H < 2 ^ 31 \<Longrightarrow> on_screen (gs_vesa (sample_gs W H)) W H"
  by (simp add: on_screen_def sample_gs_def sample_vesa_def)

text \<open>Every pixel of the sample font is set.\<close>

lemma gs_putc_draws_glyph_witness:
  "\<exists>s'. gs_putc_at_buf (\<lambda>_ _ _. 0xff) (of_nat 20) (of_nat 10) 0x41 0x1000 0 (sample_gs 40 30) = Inr s' \<and>
     gs_get_pixel_buf (of_nat (20 + 3)) (of_nat (10 + 5)) 0x1000 s' = 0xffff"
proof -
  have c: "unat (0x41 :: u8) < 128" by simp
  have S: "on_screen (gs_vesa (sample_gs 40 30)) 40 30" by (rule sample_on_screen) simp_all
  have l: "20 + 12 \<le> (40 :: nat)" "10 + 16 \<le> (30 :: nat)" by simp_all
  from gs_putc_draws_glyph [OF S l, where c = "0x41", unfolded if_P [OF c]] obtain s' where
    s': "gs_putc_at_buf (\<lambda>_ _ _. 0xff) (of_nat 20) (of_nat 10) 0x41 0x1000 0 (sample_gs 40 30) = Inr s'"
    "\<forall>p < 12. \<forall>q < 16. gs_get_pixel_buf (of_nat (20 + p)) (of_nat (10 + q)) 0x1000 s' =
      draw_mode 0 (font_pixel (\<lambda>_ _ _. 0xff) 0 (unat (0x41 :: u8)) (q div 2) (p div 2))
        (gs_get_pixel_buf (of_nat (20 + p)) (of_nat (10 + q)) 0x1000 (sample_gs 40 30))" by meson
  have "(3 :: nat) < 12" "(5 :: nat) < 16" by simp_all
  with s'(2) have "gs_get_pixel_buf (of_nat (20 + 3)) (of_nat (10 + 5)) 0x1000 s' =
      draw_mode 0 (font_pixel (\<lambda>_ _ _. 0xff) 0 (unat (0x41 :: u8)) (5 div 2) (3 div 2))
        (gs_get_pixel_buf (of_nat (20 + 3)) (of_nat (10 + 5)) 0x1000 (sample_gs 40 30))" by blast
  also have "\<dots> = 0xffff" by (simp add: draw_mode_def font_pixel_def)
  finally show ?thesis using s'(1) by blast
qed

section \<open>The console\<close>

text \<open>
  The console has 106 by 64 cells of 12 by 16 pixels, which fit into a frame buffer of at
  least 1272 by 1024 pixels.  If its cells are not in the frame buffer and have characters of
  the font, the whole picture is what the console has: pixel \<open>(x, y)\<close> is that of the
  character in column \<open>x div 12\<close> and row \<open>y div 16\<close>, and the rest of memory is as it was.
\<close>

text \<open>C31 Drawing the console gives a picture of it, pixel by pixel.\<close>

theorem gs_draw_console_shows_text:
  assumes S: "on_screen (gs_vesa s) W H" "1272 \<le> W" "1024 \<le> H"
    and sep: "\<forall>rc rc'. console_place rc \<and> console_place rc' \<longrightarrow> text_adr rc \<notin> cell_adrs W (gs_target s) rc'"
    and chars: "\<forall>rc. console_place rc \<longrightarrow> unat (text_char (gs_mem s) rc) < 128"
  shows "\<exists>s'. gs_draw_console font s = Inr s' \<and>
    (\<forall>x < 1272. \<forall>y < 1024. gs_get_pixel (of_nat x) (of_nat y) s' =
       font_pixel font 0 (unat (text_char (gs_mem s) (y div 16, x div 12))) (y mod 16 div 2) (x mod 12 div 2)) \<and>
    (\<forall>a. (\<forall>x < 1272. \<forall>y < 1024. a \<noteq> GET_PIXEL_BUF (gs_vesa s) (of_nat x) (of_nat y) (gs_target s)) \<longrightarrow>
       gs_mem s' a = gs_mem s a)"
proof -
  let ?rcs = "List.product [0..<64] [0..<106]" and ?b = "gs_target s"
  have W: "vesa_x_resolution (gs_vesa s) = of_nat W" using S(1) by (simp add: on_screen_def)
  have place: "rc \<in> set ?rcs \<longleftrightarrow> console_place rc" for rc by (cases rc) (auto simp: console_place_def)
  obtain m' where m': "gs_draw_console font s = Inr (s\<lparr>gs_mem := m'\<rparr>)" "cells_drawn W ?b font ?rcs (gs_mem s) m'"
  proof -
    have "distinct ?rcs" by (simp add: distinct_product)
    moreover have "\<forall>rc \<in> set ?rcs. console_place rc" "\<forall>rc \<in> set ?rcs. unat (text_char (gs_mem s) rc) < 128"
      using place chars by blast+
    ultimately show ?thesis using draw_cells_ok [OF S _ _ _ sep, of ?rcs font] that by (auto simp: gs_draw_console_def)
  qed
  have t: "gs_target (s\<lparr>gs_mem := m'\<rparr>) = ?b" by simp
  have adr: "GET_PIXEL_BUF (gs_vesa s) (of_nat x) (of_nat y) ?b =
      glyph_adr W ?b (x div 12 * 12) (y div 16 * 16) (x mod 12, y mod 16)" for x y
    using pixel_adr [OF W, of x y ?b] by (simp add: glyph_adr_def div_mult_mod_eq)
  have "gs_get_pixel (of_nat x) (of_nat y) (s\<lparr>gs_mem := m'\<rparr>) =
      font_pixel font 0 (unat (text_char (gs_mem s) (y div 16, x div 12))) (y mod 16 div 2) (x mod 12 div 2)"
    if "x < 1272" "y < 1024" for x y
  proof -
    have "(y div 16, x div 12) \<in> set ?rcs" using that by (simp add: place console_place_def less_mult_imp_div_less)
    moreover have "x mod 12 < 12" "y mod 16 < 16" by simp_all
    ultimately have "m' (glyph_adr W ?b (x div 12 * 12) (y div 16 * 16) (x mod 12, y mod 16)) =
        font_pixel font 0 (unat (text_char (gs_mem s) (y div 16, x div 12))) (y mod 16 div 2) (x mod 12 div 2)"
      using m'(2) unfolding cells_drawn_def by blast
    then show ?thesis by (simp only: gs_get_pixel_def t) (simp add: adr)
  qed
  moreover have "m' a = gs_mem s a"
    if a: "\<forall>x < 1272. \<forall>y < 1024. a \<noteq> GET_PIXEL_BUF (gs_vesa s) (of_nat x) (of_nat y) ?b" for a
  proof -
    have "a \<notin> cell_adrs W ?b (r, c)" if "r < 64" "c < 106" for r c
    proof
      assume "a \<in> cell_adrs W ?b (r, c)"
      then obtain p q where pq: "p < 12" "q < 16" "a = glyph_adr W ?b (c * 12) (r * 16) (p, q)"
        by (auto simp: cell_adrs_def)
      then have "a = GET_PIXEL_BUF (gs_vesa s) (of_nat (c * 12 + p)) (of_nat (r * 16 + q)) ?b"
        unfolding adr by simp
      moreover have "c * 12 + p < 1272" "r * 16 + q < 1024" using pq(1,2) that by simp_all
      ultimately show False using a by blast
    qed
    then show ?thesis using m'(2) by (auto simp: cells_drawn_def)
  qed
  ultimately show ?thesis using m'(1) by (intro exI [of _ "s\<lparr>gs_mem := m'\<rparr>"]) simp
qed

lemma sample_text_apart:
  assumes "console_place rc" and "console_place rc'"
  shows "text_adr rc \<notin> cell_adrs 1280 0xE0000000 rc'"
proof
  obtain r c r' c' where e: "rc = (r, c)" "rc' = (r', c')" by (cases rc, cases rc') blast
  have lt: "r < 64" "c < 106" "r' < 64" "c' < 106" using assms by (simp_all add: e console_place_def)
  assume "text_adr rc \<in> cell_adrs 1280 0xE0000000 rc'"
  then obtain p q where pq: "p < 12" "q < 16"
    "text_adr rc = adr 0xE0000000 ((r' * 16 + q) * 1280 + (c' * 12 + p))"
    by (auto simp: cell_adrs_def glyph_adr_def e)
  let ?t = "0x50000 + 2 * (r * 106 + c)" and ?n = "0xE0000000 + 2 * ((r' * 16 + q) * 1280 + (c' * 12 + p))"
  have "(r' * 16 + q) * 1280 + (c' * 12 + p) < 1024 * 1280" by (rule grid_less) (use lt pq in simp_all)
  then have n: "?n < 2 ^ 32" by simp
  have "(of_nat ?t :: u32) = of_nat ?n" using pq(3) by (simp add: text_adr_def e adr_def)
  moreover have "?t < 2 ^ 32" using lt by simp
  ultimately have "?t = ?n" using n by (metis unat_of_nat_u32)
  then show False using lt by simp
qed

lemma gs_draw_console_shows_text_witness:
  "\<exists>s'. gs_draw_console (\<lambda>_ _ _. 0xff) (sample_gs 1280 1024) = Inr s' \<and>
     gs_get_pixel (of_nat 700) (of_nat 500) s' = 0xffff"
proof -
  have S: "on_screen (gs_vesa (sample_gs 1280 1024)) 1280 1024" by (rule sample_on_screen) simp_all
  have l: "1272 \<le> (1280 :: nat)" "1024 \<le> (1024 :: nat)" by simp_all
  have t: "gs_target (sample_gs 1280 1024) = 0xE0000000"
    by (simp add: gs_target_def sample_gs_def sample_vesa_def)
  have sep: "\<forall>rc rc'. console_place rc \<and> console_place rc' \<longrightarrow>
      text_adr rc \<notin> cell_adrs 1280 (gs_target (sample_gs 1280 1024)) rc'"
    unfolding t using sample_text_apart by blast
  have ch: "text_char (gs_mem (sample_gs 1280 1024)) rc = 0x41" for rc
    by (cases rc) (simp add: text_char_def sample_gs_def)
  have chars: "\<forall>rc. console_place rc \<longrightarrow> unat (text_char (gs_mem (sample_gs 1280 1024)) rc) < 128"
    unfolding ch by simp
  obtain s' where s': "gs_draw_console (\<lambda>_ _ _. 0xff) (sample_gs 1280 1024) = Inr s'"
    "\<forall>x < 1272. \<forall>y < 1024. gs_get_pixel (of_nat x) (of_nat y) s' =
       font_pixel (\<lambda>_ _ _. 0xff) 0 (unat (text_char (gs_mem (sample_gs 1280 1024)) (y div 16, x div 12))) (y mod 16 div 2) (x mod 12 div 2)"
    using gs_draw_console_shows_text [OF S l sep chars, of "\<lambda>_ _ _. 0xff"] by blast
  have "(700 :: nat) < 1272" "(500 :: nat) < 1024" by simp_all
  with s'(2) have "gs_get_pixel (of_nat 700) (of_nat 500) s' =
       font_pixel (\<lambda>_ _ _. 0xff) 0 (unat (text_char (gs_mem (sample_gs 1280 1024)) (500 div 16, 700 div 12))) (500 mod 16 div 2) (700 mod 12 div 2)"
    by blast
  also have "\<dots> = 0xffff" by (simp add: font_pixel_def)
  finally show ?thesis using s'(1) by blast
qed

section \<open>Saving and restoring\<close>

text \<open>
  The loops of \<^verbatim>\<open>gs_save_buf\<close> and \<^verbatim>\<open>gs_draw_buf\<close> run once for each pixel, but a step copies a
  double pixel: for \<open>W * H\<close> pixels they copy \<open>2 * W * H\<close>, twice the frame buffer, so that the
  second half of what is written is behind the buffer.  If the two ranges of that size do not
  overlap, a saved picture is restored by drawing it, whatever \<^verbatim>\<open>gs_clear\<close> did in between.
\<close>

text \<open>Saving a screen copies twice its pixels; clearing the screen and drawing the copy restores it.\<close>

theorem gs_save_and_restore:
  assumes W: "unat (vesa_x_resolution (gs_vesa s)) = W" and H: "unat (vesa_y_resolution (gs_vesa s)) = H"
    and room: "2 * (H * W) \<le> 2 ^ 31" and ap: "apart (2 * (H * W)) buf (gs_target s)"
  shows "(\<forall>k < 2 * (H * W). gs_mem (gs_save_buf buf s) (adr buf k) = gs_mem s (adr (gs_target s) k)) \<and>
    (\<forall>a. (\<forall>k < 2 * (H * W). a \<noteq> adr buf k) \<longrightarrow> gs_mem (gs_save_buf buf s) a = gs_mem s a) \<and>
    (\<forall>k < H * W. gs_mem (gs_clear (gs_save_buf buf s)) (adr (gs_target s) k) = 0) \<and>
    gs_draw_buf buf (gs_clear (gs_save_buf buf s)) = gs_save_buf buf s"
proof -
  let ?t = "gs_target s" and ?s1 = "gs_save_buf buf s"
  have r: "resolution s = H * W" by (simp add: resolution_def W H)
  have s1: "gs_target ?s1 = ?t" "resolution ?s1 = H * W" "gs_mem ?s1 = copy_doubles (H * W) buf ?t (gs_mem s)"
    using r by (simp_all add: gs_save_buf_def)
  note C = copy_doubles_ok [OF room ap, of "gs_mem s", folded s1(3)]
  let ?s2 = "gs_clear ?s1"
  have s2: "?s2 = ?s1\<lparr>gs_mem := clear_pixels (H * W) ?t (gs_mem ?s1)\<rparr>"
    by (simp add: gs_clear_def gs_clear_buf_def s1(1,2))
  have hw: "H * W \<le> 2 ^ 31" using room by simp
  have clr: "gs_mem ?s2 a = (if \<exists>k < H * W. a = adr ?t k then 0 else gs_mem ?s1 a)" for a
    unfolding s2 using clear_pixels_ok [OF hw, of ?t "gs_mem ?s1" a] by simp
  have s2': "gs_target ?s2 = ?t" "resolution ?s2 = H * W"
    using s1(1,2) by (simp_all add: s2)
  define m3 where "m3 = copy_doubles (H * W) ?t buf (gs_mem ?s2)"
  note CD = copy_doubles_ok [OF room apart_sym [OF ap], of "gs_mem ?s2"]
  note D = conjunct1 [OF CD, folded m3_def] conjunct2 [OF CD, folded m3_def]
  have "m3 a = gs_mem ?s1 a" for a
  proof (cases "\<exists>k < 2 * (H * W). a = adr ?t k")
    case True
    then obtain k where k: "k < 2 * (H * W)" "a = adr ?t k" by blast
    have "\<not> (\<exists>l < H * W. adr buf k = adr ?t l)" using ap k(1) unfolding apart_def by (metis le_less_trans mult_2 not_le trans_less_add1)
    then have "gs_mem ?s2 (adr buf k) = gs_mem ?s1 (adr buf k)" unfolding clr by (rule if_not_P)
    moreover have "m3 a = gs_mem ?s2 (adr buf k)" using D(1) k by simp
    ultimately have "m3 a = gs_mem ?s1 (adr buf k)" by (rule trans [rotated])
    also have "\<dots> = gs_mem s (adr ?t k)" using C k(1) by blast
    also have "\<dots> = gs_mem ?s1 (adr ?t k)" using C ap k(1) unfolding apart_def by metis
    finally show ?thesis by (simp only: k(2))
  next
    case False
    then have "m3 a = gs_mem ?s2 a" using D(2) by blast
    moreover have "\<not> (\<exists>k < H * W. a = adr ?t k)" using False by auto
    ultimately show ?thesis using clr by simp
  qed
  then have "m3 = gs_mem ?s1" by (rule ext)
  then have "gs_draw_buf buf ?s2 = ?s1"
    by (simp only: gs_draw_buf_def s2' m3_def [symmetric]) (simp add: s2)
  then show ?thesis using C clr by auto
qed

lemma gs_save_and_restore_witness:
  "gs_draw_buf 0x400000 (gs_clear (gs_save_buf 0x400000 (sample_gs 2 3))) = gs_save_buf 0x400000 (sample_gs 2 3) \<and>
   gs_mem (gs_save_buf 0x400000 (sample_gs 2 3)) (adr 0x400000 11) = 0x0741"
proof -
  have W: "unat (vesa_x_resolution (gs_vesa (sample_gs 2 3))) = 2" "unat (vesa_y_resolution (gs_vesa (sample_gs 2 3))) = 3"
    by (simp_all add: sample_gs_def sample_vesa_def)
  have t: "gs_target (sample_gs 2 3) = 0xE0000000" by (simp add: gs_target_def sample_gs_def sample_vesa_def)
  have "adr 0x400000 i \<noteq> adr 0xE0000000 j" if "i < 12" "j < 12" for i j
  proof
    assume "adr 0x400000 i = adr 0xE0000000 j"
    then have "(of_nat (0x400000 + 2 * i) :: u32) = of_nat (0xE0000000 + 2 * j)" by (simp add: adr_def)
    moreover have "0x400000 + 2 * i < 2 ^ 32" "0xE0000000 + 2 * j < 2 ^ 32" using that by simp_all
    ultimately have "0x400000 + 2 * i = 0xE0000000 + 2 * j" by (metis unat_of_nat_u32)
    then show False using that by simp
  qed
  then have ap: "apart (2 * (3 * 2)) 0x400000 (gs_target (sample_gs 2 3))" by (simp add: apart_def t)
  have "(11 :: nat) < 2 * (3 * 2)" by simp
  moreover have "gs_mem (sample_gs 2 3) a = 0x0741" for a by (simp add: sample_gs_def)
  ultimately show ?thesis using gs_save_and_restore [OF W _ ap] by simp
qed

section \<open>The cursor\<close>

text \<open>
  The cursor is drawn by inverting a square of pixels and taken away by inverting them again,
  also where the square reaches over the right edge or the bottom.  A packet of the mouse
  keeps the cursor on the screen of 1280 by 1024 pixels, or selects one of the sixteen
  screens: another one than the present, with an owner.
\<close>

text \<open>Drawing the cursor twice restores memory; a packet keeps it on the screen or selects one of the sixteen screens.\<close>

theorem cursor_stays_on_screen:
  assumes "vesa_x_resolution (gs_vesa s) = of_nat W" and "6 \<le> W" and "W < 2 ^ 28"
    and x: "unat x < 1280" and y: "unat y < 1024"
  shows "draw_cursor x y (draw_cursor x y s) = s \<and>
    (case cursor_step owned screen prev_pktinfo pktinfo pktx pkty x y of (sel, x', y') \<Rightarrow>
       unat x' < 1280 \<and> unat y' < 1024 \<and>
       (\<forall>h. sel = Some h \<longrightarrow> unat h < 16 \<and> h \<noteq> screen \<and> owned h))"
proof
  let ?k = "cursor_adr W (gs_target s) x y" and ?ks = "List.product [0..<6] [0..<6] :: (nat \<times> nat) list"
  let ?f = "fold (\<lambda>k m. m(?k k := NOT (m (?k k)))) ?ks"
  have d: "distinct (map ?k ?ks)"
    using cursor_adr_inj [OF assms(2,3), of "gs_target s" x y] by (simp add: distinct_map distinct_product)
  have "?f (?f m) a = m a" for m a
  proof (cases "a \<in> ?k ` set ?ks")
    case True
    then obtain k where k: "k \<in> set ?ks" "a = ?k k" by auto
    have T: "?f m (?k k) = NOT (m (?k k))" for m by (rule fold_touch [OF d k(1), of "\<lambda>k. NOT"])
    show ?thesis unfolding k(2) T by simp
  next
    case False
    have T: "?f m a = m a" for m by (rule fold_touch_other [OF False])
    show ?thesis unfolding T ..
  qed
  then have ff: "?f (?f m) = m" for m :: halves by (rule ext)
  define F :: "halves \<Rightarrow> halves" where "F = ?f"
  have "draw_cursor x y t = t\<lparr>gs_mem := F (gs_mem t)\<rparr>"
    if "gs_target t = gs_target s" "gs_vesa t = gs_vesa s" for t
    using draw_cursor_mem [of t W x y] that assms(1) by (simp only: F_def)
  then show "draw_cursor x y (draw_cursor x y s) = s" using ff by (simp add: F_def [symmetric])
next
  have sx: "sint x = int (unat x)" "sint y = int (unat y)"
    using sint_of_nat_small [of "unat x"] sint_of_nat_small [of "unat y"] x y by simp_all
  have clip: "unat (clip n z) < nat n" if "0 < n" "n < 2 ^ 31" for n z
  proof -
    have "unat z < nat n" if "0 \<le> sint z" "sint z < n"
      using sint_nonneg_uint [OF that(1)] that by (metis nat_less_iff nat_mono_iff order.strict_trans1 unat_eq_nat_uint)
    moreover have "unat (word_of_int (n - 1) :: u32) < nat n"
    proof -
      have "(word_of_int (n - 1) :: u32) = of_nat (nat (n - 1))" using that by simp
      then show ?thesis using that unat_of_nat_u32 [of "nat (n - 1)"] by (simp add: nat_less_iff)
    qed
    ultimately show ?thesis using that by (auto simp: clip_def)
  qed
  have div: "trunc_div y 256 = int (unat y div 256)" "trunc_div x 320 = int (unat x div 320)"
    by (simp_all add: trunc_div_def sx zdiv_int sgn_if)
  let ?h = "4 * (unat y div 256) + unat x div 320"
  have "unat y div 256 \<le> 3" "unat x div 320 \<le> 3" using x y by (simp_all add: less_mult_imp_div_less less_Suc_eq_le [symmetric])
  then have h: "?h < 16" by simp
  have "unat (word_of_int (4 * trunc_div y 256 + trunc_div x 320) :: u32) < 16"
  proof -
    have "4 * trunc_div y 256 + trunc_div x 320 = int ?h" by (simp add: div)
    then show ?thesis using h unat_of_nat_u32 [of ?h] by (simp del: of_nat_add of_nat_mult)
  qed
  then show "case cursor_step owned screen prev_pktinfo pktinfo pktx pkty x y of (sel, x', y') \<Rightarrow>
       unat x' < 1280 \<and> unat y' < 1024 \<and> (\<forall>h. sel = Some h \<longrightarrow> unat h < 16 \<and> h \<noteq> screen \<and> owned h)"
    using x y clip [of 1280] clip [of 1024] by (auto simp: cursor_step_def Let_def)
qed

lemma cursor_stays_on_screen_witness:
  "draw_cursor 1279 1023 (draw_cursor 1279 1023 (sample_gs 1280 1024)) = sample_gs 1280 1024 \<and>
   cursor_step (\<lambda>_. True) 0 9 8 0 0 1279 1023 = (Some 15, 1279, 1023)"
proof -
  have "vesa_x_resolution (gs_vesa (sample_gs 1280 1024)) = of_nat 1280" by (simp add: sample_gs_def sample_vesa_def)
  from cursor_stays_on_screen [OF this, of 1279 1023] have "draw_cursor 1279 1023 (draw_cursor 1279 1023 (sample_gs 1280 1024)) = sample_gs 1280 1024"
    by simp
  moreover have "cursor_step (\<lambda>_. True) 0 9 8 0 0 1279 1023 = (Some 15, 1279, 1023)"
    by (simp add: cursor_step_def trunc_div_def)
  ultimately show ?thesis ..
qed

section \<open>Double pixels\<close>

text \<open>
  On a frame buffer of even width the double pixel at an even column covers that column and
  the next; the colour meant for the left pixel is stored in the right one, as the lower half
  of a word is at the lower address.
\<close>

lemma double_pixel_adr:
  assumes W: "vesa_x_resolution v = of_nat (2 * w)" and "w < 2 ^ 31" and "x < 2 ^ 30"
  shows "GET_DOUBLE_PIXEL_BUF v (of_nat (2 * x)) (of_nat y) b = adr b (y * (2 * w) + 2 * x)"
proof -
  have "unat (of_nat (2 * w) :: u32) = 2 * w" "unat (of_nat w :: u32) = w"
    by (rule unat_of_nat_u32; use assms(2) in simp)+
  then have "drop_bit 1 (of_nat (2 * w) :: u32) = of_nat w"
    by (simp add: word_unat_eq_iff unat_drop_bit_eq drop_bit_eq_div unat_div del: of_nat_mult)
  moreover have "sint (of_nat (2 * x) :: u32) = int (2 * x)" "sint (of_nat x :: u32) = int x"
    by (rule sint_of_nat_small; use assms(3) in simp)+
  then have "sint (signed_drop_bit 1 (of_nat (2 * x) :: u32)) = sint (of_nat x :: u32)"
    by (simp only: sint_signed_drop_bit_eq) (simp add: drop_bit_eq_div)
  then have "signed_drop_bit 1 (of_nat (2 * x) :: u32) = of_nat x" by (rule iffD2 [OF word_eq_iff_signed])
  ultimately show ?thesis by (simp add: GET_DOUBLE_PIXEL_BUF_def adr_def W algebra_simps del: of_nat_mult) (simp add: algebra_simps)
qed

lemma double_pixel_swapped:
  fixes s :: gs
  assumes W: "vesa_x_resolution (gs_vesa s) = of_nat (2 * w)" and "w < 2 ^ 31" and "x < 2 ^ 30"
    and s': "s' = gs_draw_double_pixel (of_nat (2 * x)) (of_nat y) color_l color_r s"
  shows "gs_get_pixel (of_nat (2 * x)) (of_nat y) s' = color_r"
    and "gs_get_pixel (of_nat (2 * x + 1)) (of_nat y) s' = color_l"
proof -
  let ?a = "adr (gs_target s) (y * (2 * w) + 2 * x)"
  have m: "gs_mem s' = (gs_mem s)(?a := color_r, ?a + 2 := color_l)" "gs_target s' = gs_target s" "gs_vesa s' = gs_vesa s"
  proof -
    have "ucast (CREATE_DOUBLE_PIXEL color_l color_r) = color_r"
      unfolding CREATE_DOUBLE_PIXEL_def by (rule bit_word_eqI) (auto simp: bit_simps)
    moreover have "ucast (drop_bit 16 (CREATE_DOUBLE_PIXEL color_l color_r)) = color_l"
      unfolding CREATE_DOUBLE_PIXEL_def by (rule bit_word_eqI) (auto simp: bit_simps dest: bit_imp_le_length)
    ultimately show "gs_mem s' = (gs_mem s)(?a := color_r, ?a + 2 := color_l)" "gs_target s' = gs_target s" "gs_vesa s' = gs_vesa s"
      using double_pixel_adr [OF assms(1-3)] by (simp_all add: s' gs_draw_double_pixel_def put_double_def del: of_nat_mult)
  qed
  have "GET_PIXEL_BUF (gs_vesa s) (of_nat (2 * x)) (of_nat y) (gs_target s) = ?a"
    "GET_PIXEL_BUF (gs_vesa s) (of_nat (2 * x + 1)) (of_nat y) (gs_target s) = ?a + 2"
    using pixel_adr [OF W, of "2 * x" y "gs_target s"] pixel_adr [OF W, of "2 * x + 1" y "gs_target s"]
    by (simp_all add: adr_def algebra_simps)
  then show "gs_get_pixel (of_nat (2 * x)) (of_nat y) s' = color_r" "gs_get_pixel (of_nat (2 * x + 1)) (of_nat y) s' = color_l"
    by (simp_all add: gs_get_pixel_def m del: of_nat_mult of_nat_add of_nat_Suc)
qed

end
