(* ===== verification/Font.thy ===== *)
theory Font
  imports Graphics
begin

text \<open>
  The font of \<^verbatim>\<open>kernel/gs_font.c\<close>: 128 characters of 8 rows of 6 bytes, in parts of sixteen
  characters, and the drawing of the console with it.
\<close>

definition font_part0 :: "u8 list list list" where
  "font_part0 = [
   [[0, 0, 0, 0, 0, 0],
    [0, 0, 0, 0, 0, 0],
    [0, 0, 0, 0, 0, 0],
    [0, 0, 0, 0, 0, 0],
    [0, 0, 0, 0, 0, 0],
    [0, 0, 0, 0, 0, 0],
    [0, 0, 0, 0, 0, 0],
    [0, 0, 0, 0, 0, 0]],
   [[0, 0, 0, 0, 0, 0],
    [0, 0, 0, 0, 0, 0],
    [0, 0, 0, 0, 0, 0],
    [0, 0, 0, 0, 0, 0],
    [0, 0, 0, 0, 0, 0],
    [0, 0, 0, 0, 0, 0],
    [0, 0, 0, 0, 0, 0],
    [0, 0, 0, 0, 0, 0]],
   [[0, 0, 0, 0, 0, 0],
    [0, 0, 0, 0, 0, 0],
    [0, 0, 0, 0, 0, 0],
    [0, 0, 0, 0, 0, 0],
    [0, 0, 0, 0, 0, 0],
    [0, 0, 0, 0, 0, 0],
    [0, 0, 0, 0, 0, 0],
    [0, 0, 0, 0, 0, 0]],
   [[255, 0, 0, 0, 0, 0],
    [255, 255, 0, 0, 0, 0],
    [255, 255, 255, 0, 0, 0],
    [255, 255, 255, 255, 0, 0],
    [255, 255, 255, 255, 255, 0],
    [0, 0, 255, 255, 0, 0],
    [0, 0, 0, 255, 255, 0],
    [0, 0, 0, 0, 0, 0]],
   [[0, 0, 0, 0, 0, 0],
    [0, 0, 0, 0, 0, 0],
    [0, 0, 0, 0, 0, 0],
    [0, 0, 0, 0, 0, 0],
    [0, 0, 0, 0, 0, 0],
    [0, 0, 0, 0, 0, 0],
    [0, 0, 0, 0, 0, 0],
    [0, 0, 0, 0, 0, 0]],
   [[0, 0, 0, 0, 0, 0],
    [0, 0, 0, 0, 0, 0],
    [0, 0, 0, 0, 0, 0],
    [0, 0, 0, 0, 0, 0],
    [0, 0, 0, 0, 0, 0],
    [0, 0, 0, 0, 0, 0],
    [0, 0, 0, 0, 0, 0],
    [0, 0, 0, 0, 0, 0]],
   [[0, 0, 0, 0, 0, 0],
    [0, 0, 0, 0, 0, 0],
    [0, 0, 0, 0, 0, 0],
    [0, 0, 0, 0, 0, 0],
    [0, 0, 0, 0, 0, 0],
    [0, 0, 0, 0, 0, 0],
    [0, 0, 0, 0, 0, 0],
    [0, 0, 0, 0, 0, 0]],
   [[0, 0, 0, 0, 0, 0],
    [0, 0, 0, 0, 0, 0],
    [0, 0, 0, 0, 0, 0],
    [0, 0, 0, 0, 0, 0],
    [0, 0, 0, 0, 0, 0],
    [0, 0, 0, 0, 0, 0],
    [0, 0, 0, 0, 0, 0],
    [0, 0, 0, 0, 0, 0]],
   [[0, 0, 0, 0, 0, 0],
    [0, 0, 0, 0, 0, 0],
    [0, 0, 0, 0, 0, 0],
    [0, 0, 0, 0, 0, 0],
    [0, 0, 0, 0, 0, 0],
    [0, 0, 0, 0, 0, 0],
    [0, 0, 0, 0, 0, 0],
    [0, 0, 0, 0, 0, 0]],
   [[0, 0, 0, 0, 0, 0],
    [0, 0, 0, 0, 0, 0],
    [0, 0, 0, 0, 0, 0],
    [0, 0, 0, 0, 0, 0],
    [0, 0, 0, 0, 0, 0],
    [0, 0, 0, 0, 0, 0],
    [0, 0, 0, 0, 0, 0],
    [0, 0, 0, 0, 0, 0]],
   [[0, 0, 0, 0, 0, 0],
    [0, 0, 0, 0, 0, 0],
    [0, 0, 0, 0, 0, 0],
    [0, 0, 0, 0, 0, 0],
    [0, 0, 0, 0, 0, 0],
    [0, 0, 0, 0, 0, 0],
    [0, 0, 0, 0, 0, 0],
    [0, 0, 0, 0, 0, 0]],
   [[0, 0, 0, 0, 0, 0],
    [0, 0, 0, 0, 0, 0],
    [0, 0, 0, 0, 0, 0],
    [0, 0, 0, 0, 0, 0],
    [0, 0, 0, 0, 0, 0],
    [0, 0, 0, 0, 0, 0],
    [0, 0, 0, 0, 0, 0],
    [0, 0, 0, 0, 0, 0]],
   [[0, 0, 0, 0, 0, 0],
    [0, 0, 0, 0, 0, 0],
    [0, 0, 0, 0, 0, 0],
    [0, 0, 0, 0, 0, 0],
    [0, 0, 0, 0, 0, 0],
    [0, 0, 0, 0, 0, 0],
    [0, 0, 0, 0, 0, 0],
    [0, 0, 0, 0, 0, 0]],
   [[0, 0, 0, 0, 0, 0],
    [0, 0, 0, 0, 0, 0],
    [0, 0, 0, 0, 0, 0],
    [0, 0, 0, 0, 0, 0],
    [0, 0, 0, 0, 0, 0],
    [0, 0, 0, 0, 0, 0],
    [0, 0, 0, 0, 0, 0],
    [0, 0, 0, 0, 0, 0]],
   [[0, 0, 0, 0, 0, 0],
    [0, 0, 0, 0, 0, 0],
    [0, 0, 0, 0, 0, 0],
    [0, 0, 0, 0, 0, 0],
    [0, 0, 0, 0, 0, 0],
    [0, 0, 0, 0, 0, 0],
    [0, 0, 0, 0, 0, 0],
    [0, 0, 0, 0, 0, 0]],
   [[0, 0, 0, 0, 0, 0],
    [0, 0, 0, 0, 0, 0],
    [0, 0, 0, 0, 0, 0],
    [0, 0, 0, 0, 0, 0],
    [0, 0, 0, 0, 0, 0],
    [0, 0, 0, 0, 0, 0],
    [0, 0, 0, 0, 0, 0],
    [0, 0, 0, 0, 0, 0]]]"

definition font_part1 :: "u8 list list list" where
  "font_part1 = [
   [[0, 0, 0, 0, 0, 0],
    [0, 0, 0, 0, 0, 0],
    [0, 0, 0, 0, 0, 0],
    [0, 0, 0, 0, 0, 0],
    [0, 0, 0, 0, 0, 0],
    [0, 0, 0, 0, 0, 0],
    [0, 0, 0, 0, 0, 0],
    [0, 0, 0, 0, 0, 0]],
   [[0, 0, 0, 0, 0, 0],
    [0, 0, 0, 0, 0, 0],
    [0, 0, 0, 0, 0, 0],
    [0, 0, 0, 0, 0, 0],
    [0, 0, 0, 0, 0, 0],
    [0, 0, 0, 0, 0, 0],
    [0, 0, 0, 0, 0, 0],
    [0, 0, 0, 0, 0, 0]],
   [[0, 0, 0, 0, 0, 0],
    [0, 0, 0, 0, 0, 0],
    [0, 0, 0, 0, 0, 0],
    [0, 0, 0, 0, 0, 0],
    [0, 0, 0, 0, 0, 0],
    [0, 0, 0, 0, 0, 0],
    [0, 0, 0, 0, 0, 0],
    [0, 0, 0, 0, 0, 0]],
   [[0, 0, 0, 0, 0, 0],
    [0, 0, 0, 0, 0, 0],
    [0, 0, 0, 0, 0, 0],
    [0, 0, 0, 0, 0, 0],
    [0, 0, 0, 0, 0, 0],
    [0, 0, 0, 0, 0, 0],
    [0, 0, 0, 0, 0, 0],
    [0, 0, 0, 0, 0, 0]],
   [[0, 0, 0, 0, 0, 0],
    [0, 0, 0, 0, 0, 0],
    [0, 0, 0, 0, 0, 0],
    [0, 0, 0, 0, 0, 0],
    [0, 0, 0, 0, 0, 0],
    [0, 0, 0, 0, 0, 0],
    [0, 0, 0, 0, 0, 0],
    [0, 0, 0, 0, 0, 0]],
   [[0, 0, 0, 0, 0, 0],
    [0, 0, 0, 0, 0, 0],
    [0, 0, 0, 0, 0, 0],
    [0, 0, 0, 0, 0, 0],
    [0, 0, 0, 0, 0, 0],
    [0, 0, 0, 0, 0, 0],
    [0, 0, 0, 0, 0, 0],
    [0, 0, 0, 0, 0, 0]],
   [[0, 0, 0, 0, 0, 0],
    [0, 0, 0, 0, 0, 0],
    [0, 0, 0, 0, 0, 0],
    [0, 0, 0, 0, 0, 0],
    [0, 0, 0, 0, 0, 0],
    [0, 0, 0, 0, 0, 0],
    [0, 0, 0, 0, 0, 0],
    [0, 0, 0, 0, 0, 0]],
   [[0, 0, 0, 0, 0, 0],
    [0, 0, 0, 0, 0, 0],
    [0, 0, 0, 0, 0, 0],
    [0, 0, 0, 0, 0, 0],
    [0, 0, 0, 0, 0, 0],
    [0, 0, 0, 0, 0, 0],
    [0, 0, 0, 0, 0, 0],
    [0, 0, 0, 0, 0, 0]],
   [[0, 0, 0, 0, 0, 0],
    [0, 0, 0, 0, 0, 0],
    [0, 0, 0, 0, 0, 0],
    [0, 0, 0, 0, 0, 0],
    [0, 0, 0, 0, 0, 0],
    [0, 0, 0, 0, 0, 0],
    [0, 0, 0, 0, 0, 0],
    [0, 0, 0, 0, 0, 0]],
   [[0, 0, 0, 0, 0, 0],
    [0, 0, 0, 0, 0, 0],
    [0, 0, 0, 0, 0, 0],
    [0, 0, 0, 0, 0, 0],
    [0, 0, 0, 0, 0, 0],
    [0, 0, 0, 0, 0, 0],
    [0, 0, 0, 0, 0, 0],
    [0, 0, 0, 0, 0, 0]],
   [[0, 0, 0, 0, 0, 0],
    [0, 0, 0, 0, 0, 0],
    [0, 0, 0, 0, 0, 0],
    [0, 0, 0, 0, 0, 0],
    [0, 0, 0, 0, 0, 0],
    [0, 0, 0, 0, 0, 0],
    [0, 0, 0, 0, 0, 0],
    [0, 0, 0, 0, 0, 0]],
   [[0, 0, 0, 0, 0, 0],
    [0, 0, 0, 0, 0, 0],
    [0, 0, 0, 0, 0, 0],
    [0, 0, 0, 0, 0, 0],
    [0, 0, 0, 0, 0, 0],
    [0, 0, 0, 0, 0, 0],
    [0, 0, 0, 0, 0, 0],
    [0, 0, 0, 0, 0, 0]],
   [[0, 0, 0, 0, 0, 0],
    [0, 0, 0, 0, 0, 0],
    [0, 0, 0, 0, 0, 0],
    [0, 0, 0, 0, 0, 0],
    [0, 0, 0, 0, 0, 0],
    [0, 0, 0, 0, 0, 0],
    [0, 0, 0, 0, 0, 0],
    [0, 0, 0, 0, 0, 0]],
   [[0, 0, 0, 0, 0, 0],
    [0, 0, 0, 0, 0, 0],
    [0, 0, 0, 0, 0, 0],
    [0, 0, 0, 0, 0, 0],
    [0, 0, 0, 0, 0, 0],
    [0, 0, 0, 0, 0, 0],
    [0, 0, 0, 0, 0, 0],
    [0, 0, 0, 0, 0, 0]],
   [[0, 0, 0, 0, 0, 0],
    [0, 0, 0, 0, 0, 0],
    [0, 0, 0, 0, 0, 0],
    [0, 0, 0, 0, 0, 0],
    [0, 0, 0, 0, 0, 0],
    [0, 0, 0, 0, 0, 0],
    [0, 0, 0, 0, 0, 0],
    [0, 0, 0, 0, 0, 0]],
   [[0, 0, 0, 0, 0, 0],
    [0, 0, 0, 0, 0, 0],
    [0, 0, 0, 0, 0, 0],
    [0, 0, 0, 0, 0, 0],
    [0, 0, 0, 0, 0, 0],
    [0, 0, 0, 0, 0, 0],
    [0, 0, 0, 0, 0, 0],
    [0, 0, 0, 0, 0, 0]]]"

definition font_part2 :: "u8 list list list" where
  "font_part2 = [
   [[0, 0, 0, 0, 0, 0],
    [0, 0, 0, 0, 0, 0],
    [0, 0, 0, 0, 0, 0],
    [0, 0, 0, 0, 0, 0],
    [0, 0, 0, 0, 0, 0],
    [0, 0, 0, 0, 0, 0],
    [0, 0, 0, 0, 0, 0],
    [0, 0, 0, 0, 0, 0]],
   [[0, 0, 255, 0, 0, 0],
    [0, 0, 255, 0, 0, 0],
    [0, 0, 255, 0, 0, 0],
    [0, 0, 255, 0, 0, 0],
    [0, 0, 255, 0, 0, 0],
    [0, 0, 0, 0, 0, 0],
    [0, 0, 255, 0, 0, 0],
    [0, 0, 0, 0, 0, 0]],
   [[255, 255, 0, 255, 255, 0],
    [0, 255, 0, 0, 255, 0],
    [255, 0, 0, 255, 0, 0],
    [0, 0, 0, 0, 0, 0],
    [0, 0, 0, 0, 0, 0],
    [0, 0, 0, 0, 0, 0],
    [0, 0, 0, 0, 0, 0],
    [0, 0, 0, 0, 0, 0]],
   [[0, 255, 0, 255, 0, 0],
    [0, 255, 0, 255, 0, 0],
    [255, 255, 255, 255, 255, 0],
    [0, 255, 0, 255, 0, 0],
    [255, 255, 255, 255, 255, 0],
    [0, 255, 0, 255, 0, 0],
    [0, 255, 0, 255, 0, 0],
    [0, 0, 0, 0, 0, 0]],
   [[0, 0, 255, 0, 0, 0],
    [0, 255, 255, 255, 0, 0],
    [255, 0, 255, 0, 255, 0],
    [0, 0, 255, 255, 0, 0],
    [255, 0, 255, 0, 255, 0],
    [0, 255, 255, 255, 0, 0],
    [0, 0, 255, 0, 0, 0],
    [0, 0, 0, 0, 0, 0]],
   [[255, 255, 0, 0, 255, 0],
    [255, 255, 0, 255, 0, 0],
    [0, 0, 0, 255, 0, 0],
    [0, 0, 255, 0, 0, 0],
    [0, 255, 0, 0, 0, 0],
    [0, 255, 0, 255, 255, 0],
    [255, 0, 0, 255, 255, 0],
    [0, 0, 0, 0, 0, 0]],
   [[0, 0, 0, 0, 0, 0],
    [0, 0, 255, 255, 0, 0],
    [0, 255, 0, 0, 0, 0],
    [0, 255, 0, 0, 0, 0],
    [255, 0, 255, 0, 255, 0],
    [255, 0, 0, 255, 0, 0],
    [0, 255, 255, 0, 255, 0],
    [0, 0, 0, 0, 0, 0]],
   [[0, 0, 255, 0, 0, 0],
    [0, 0, 255, 0, 0, 0],
    [0, 0, 255, 0, 0, 0],
    [0, 0, 0, 0, 0, 0],
    [0, 0, 0, 0, 0, 0],
    [0, 0, 0, 0, 0, 0],
    [0, 0, 0, 0, 0, 0],
    [0, 0, 0, 0, 0, 0]],
   [[0, 0, 0, 0, 255, 0],
    [0, 0, 0, 255, 0, 0],
    [0, 0, 255, 0, 0, 0],
    [0, 0, 255, 0, 0, 0],
    [0, 0, 255, 0, 0, 0],
    [0, 0, 0, 255, 0, 0],
    [0, 0, 0, 0, 255, 0],
    [0, 0, 0, 0, 0, 0]],
   [[0, 255, 0, 0, 0, 0],
    [0, 0, 255, 0, 0, 0],
    [0, 0, 0, 255, 0, 0],
    [0, 0, 0, 255, 0, 0],
    [0, 0, 0, 255, 0, 0],
    [0, 0, 255, 0, 0, 0],
    [0, 255, 0, 0, 0, 0],
    [0, 0, 0, 0, 0, 0]],
   [[0, 0, 255, 0, 0, 0],
    [255, 255, 255, 255, 255, 0],
    [0, 0, 255, 0, 0, 0],
    [0, 255, 0, 255, 0, 0],
    [0, 255, 0, 255, 0, 0],
    [0, 0, 0, 0, 0, 0],
    [0, 0, 0, 0, 0, 0],
    [0, 0, 0, 0, 0, 0]],
   [[0, 0, 0, 0, 0, 0],
    [0, 0, 255, 0, 0, 0],
    [0, 0, 255, 0, 0, 0],
    [255, 255, 255, 255, 255, 0],
    [0, 0, 255, 0, 0, 0],
    [0, 0, 255, 0, 0, 0],
    [0, 0, 0, 0, 0, 0],
    [0, 0, 0, 0, 0, 0]],
   [[0, 0, 0, 0, 0, 0],
    [0, 0, 0, 0, 0, 0],
    [0, 0, 0, 0, 0, 0],
    [0, 0, 0, 0, 0, 0],
    [0, 0, 255, 255, 0, 0],
    [0, 0, 0, 255, 0, 0],
    [0, 0, 255, 0, 0, 0],
    [0, 0, 0, 0, 0, 0]],
   [[0, 0, 0, 0, 0, 0],
    [0, 0, 0, 0, 0, 0],
    [0, 0, 0, 0, 0, 0],
    [255, 255, 255, 255, 255, 0],
    [0, 0, 0, 0, 0, 0],
    [0, 0, 0, 0, 0, 0],
    [0, 0, 0, 0, 0, 0],
    [0, 0, 0, 0, 0, 0]],
   [[0, 0, 0, 0, 0, 0],
    [0, 0, 0, 0, 0, 0],
    [0, 0, 0, 0, 0, 0],
    [0, 0, 0, 0, 0, 0],
    [0, 0, 0, 0, 0, 0],
    [0, 0, 255, 255, 0, 0],
    [0, 0, 255, 255, 0, 0],
    [0, 0, 0, 0, 0, 0]],
   [[0, 0, 0, 0, 255, 0],
    [0, 0, 0, 0, 255, 0],
    [0, 0, 0, 255, 0, 0],
    [0, 0, 0, 255, 0, 0],
    [0, 0, 255, 0, 0, 0],
    [0, 0, 255, 0, 0, 0],
    [0, 255, 0, 0, 0, 0],
    [0, 0, 0, 0, 0, 0]]]"

definition font_part3 :: "u8 list list list" where
  "font_part3 = [
   [[0, 255, 255, 255, 0, 0],
    [255, 0, 0, 0, 255, 0],
    [255, 0, 0, 255, 255, 0],
    [255, 0, 255, 0, 255, 0],
    [255, 255, 0, 0, 255, 0],
    [255, 0, 0, 0, 255, 0],
    [0, 255, 255, 255, 0, 0],
    [0, 0, 0, 0, 0, 0]],
   [[0, 0, 255, 0, 0, 0],
    [0, 255, 255, 0, 0, 0],
    [0, 0, 255, 0, 0, 0],
    [0, 0, 255, 0, 0, 0],
    [0, 0, 255, 0, 0, 0],
    [0, 0, 255, 0, 0, 0],
    [0, 255, 255, 255, 0, 0],
    [0, 0, 0, 0, 0, 0]],
   [[0, 255, 255, 255, 0, 0],
    [255, 0, 0, 0, 255, 0],
    [0, 0, 0, 0, 255, 0],
    [0, 0, 0, 255, 0, 0],
    [0, 0, 255, 0, 0, 0],
    [0, 255, 0, 0, 0, 0],
    [255, 255, 255, 255, 255, 0],
    [0, 0, 0, 0, 0, 0]],
   [[255, 255, 255, 255, 255, 0],
    [0, 0, 0, 255, 0, 0],
    [0, 0, 255, 0, 0, 0],
    [0, 0, 0, 255, 0, 0],
    [0, 0, 0, 0, 255, 0],
    [255, 0, 0, 0, 255, 0],
    [0, 255, 255, 255, 0, 0],
    [0, 0, 0, 0, 0, 0]],
   [[0, 0, 0, 255, 0, 0],
    [0, 0, 255, 255, 0, 0],
    [0, 255, 0, 255, 0, 0],
    [255, 0, 0, 255, 0, 0],
    [255, 255, 255, 255, 255, 0],
    [0, 0, 0, 255, 0, 0],
    [0, 0, 0, 255, 0, 0],
    [0, 0, 0, 0, 0, 0]],
   [[255, 255, 255, 255, 255, 0],
    [255, 0, 0, 0, 0, 0],
    [255, 255, 255, 255, 0, 0],
    [0, 0, 0, 0, 255, 0],
    [0, 0, 0, 0, 255, 0],
    [255, 0, 0, 0, 255, 0],
    [0, 255, 255, 255, 0, 0],
    [0, 0, 0, 0, 0, 0]],
   [[0, 0, 255, 255, 0, 0],
    [0, 255, 0, 0, 0, 0],
    [255, 0, 0, 0, 0, 0],
    [255, 255, 255, 255, 0, 0],
    [255, 0, 0, 0, 255, 0],
    [255, 0, 0, 0, 255, 0],
    [0, 255, 255, 255, 0, 0],
    [0, 0, 0, 0, 0, 0]],
   [[255, 255, 255, 255, 255, 0],
    [0, 0, 0, 0, 255, 0],
    [0, 0, 0, 255, 0, 0],
    [0, 0, 255, 0, 0, 0],
    [0, 255, 0, 0, 0, 0],
    [0, 255, 0, 0, 0, 0],
    [0, 255, 0, 0, 0, 0],
    [0, 0, 0, 0, 0, 0]],
   [[0, 255, 255, 255, 0, 0],
    [255, 0, 0, 0, 255, 0],
    [255, 0, 0, 0, 255, 0],
    [0, 255, 255, 255, 0, 0],
    [255, 0, 0, 0, 255, 0],
    [255, 0, 0, 0, 255, 0],
    [0, 255, 255, 255, 0, 0],
    [0, 0, 0, 0, 0, 0]],
   [[0, 255, 255, 255, 0, 0],
    [255, 0, 0, 0, 255, 0],
    [255, 0, 0, 0, 255, 0],
    [0, 255, 255, 255, 255, 0],
    [0, 0, 0, 0, 255, 0],
    [0, 0, 0, 255, 0, 0],
    [0, 255, 255, 0, 0, 0],
    [0, 0, 0, 0, 0, 0]],
   [[0, 0, 0, 0, 0, 0],
    [0, 0, 255, 255, 0, 0],
    [0, 0, 255, 255, 0, 0],
    [0, 0, 0, 0, 0, 0],
    [0, 0, 255, 255, 0, 0],
    [0, 0, 255, 255, 0, 0],
    [0, 0, 0, 0, 0, 0],
    [0, 0, 0, 0, 0, 0]],
   [[0, 0, 0, 0, 0, 0],
    [0, 0, 255, 255, 0, 0],
    [0, 0, 255, 255, 0, 0],
    [0, 0, 0, 0, 0, 0],
    [0, 0, 255, 255, 0, 0],
    [0, 0, 0, 255, 0, 0],
    [0, 0, 255, 0, 0, 0],
    [0, 0, 0, 0, 0, 0]],
   [[0, 0, 0, 255, 0, 0],
    [0, 0, 255, 0, 0, 0],
    [0, 255, 0, 0, 0, 0],
    [255, 0, 0, 0, 0, 0],
    [0, 255, 0, 0, 0, 0],
    [0, 0, 255, 0, 0, 0],
    [0, 0, 0, 255, 0, 0],
    [0, 0, 0, 0, 0, 0]],
   [[0, 0, 0, 0, 0, 0],
    [0, 0, 0, 0, 0, 0],
    [0, 255, 255, 255, 255, 0],
    [0, 0, 0, 0, 0, 0],
    [0, 255, 255, 255, 255, 0],
    [0, 0, 0, 0, 0, 0],
    [0, 0, 0, 0, 0, 0],
    [0, 0, 0, 0, 0, 0]],
   [[255, 0, 0, 0, 0, 0],
    [0, 255, 0, 0, 0, 0],
    [0, 0, 255, 0, 0, 0],
    [0, 0, 0, 255, 0, 0],
    [0, 0, 255, 0, 0, 0],
    [0, 255, 0, 0, 0, 0],
    [255, 0, 0, 0, 0, 0],
    [0, 0, 0, 0, 0, 0]],
   [[0, 255, 255, 255, 0, 0],
    [255, 0, 0, 0, 255, 0],
    [0, 0, 0, 0, 255, 0],
    [0, 0, 0, 255, 0, 0],
    [0, 0, 255, 0, 0, 0],
    [0, 0, 0, 0, 0, 0],
    [0, 0, 255, 0, 0, 0],
    [0, 0, 0, 0, 0, 0]]]"

definition font_part4 :: "u8 list list list" where
  "font_part4 = [
   [[0, 255, 255, 255, 0, 0],
    [255, 0, 0, 0, 255, 0],
    [0, 0, 0, 0, 255, 0],
    [0, 255, 255, 0, 255, 0],
    [255, 0, 255, 0, 255, 0],
    [255, 0, 255, 0, 255, 0],
    [0, 255, 255, 255, 0, 0],
    [0, 0, 0, 0, 0, 0]],
   [[0, 255, 255, 255, 0, 0],
    [255, 0, 0, 0, 255, 0],
    [255, 0, 0, 0, 255, 0],
    [255, 0, 0, 0, 255, 0],
    [255, 255, 255, 255, 255, 0],
    [255, 0, 0, 0, 255, 0],
    [255, 0, 0, 0, 255, 0],
    [0, 0, 0, 0, 0, 0]],
   [[255, 255, 255, 255, 0, 0],
    [255, 0, 0, 0, 255, 0],
    [255, 0, 0, 0, 255, 0],
    [255, 255, 255, 255, 0, 0],
    [255, 0, 0, 0, 255, 0],
    [255, 0, 0, 0, 255, 0],
    [255, 255, 255, 255, 0, 0],
    [0, 0, 0, 0, 0, 0]],
   [[0, 255, 255, 255, 0, 0],
    [255, 0, 0, 0, 255, 0],
    [255, 0, 0, 0, 0, 0],
    [255, 0, 0, 0, 0, 0],
    [255, 0, 0, 0, 0, 0],
    [255, 0, 0, 0, 255, 0],
    [0, 255, 255, 255, 0, 0],
    [0, 0, 0, 0, 0, 0]],
   [[255, 255, 255, 0, 0, 0],
    [255, 0, 0, 255, 0, 0],
    [255, 0, 0, 0, 255, 0],
    [255, 0, 0, 0, 255, 0],
    [255, 0, 0, 0, 255, 0],
    [255, 0, 0, 255, 0, 0],
    [255, 255, 255, 0, 0, 0],
    [0, 0, 0, 0, 0, 0]],
   [[255, 255, 255, 255, 255, 0],
    [255, 0, 0, 0, 0, 0],
    [255, 0, 0, 0, 0, 0],
    [255, 255, 255, 255, 255, 0],
    [255, 0, 0, 0, 0, 0],
    [255, 0, 0, 0, 0, 0],
    [255, 255, 255, 255, 255, 0],
    [0, 0, 0, 0, 0, 0]],
   [[255, 255, 255, 255, 255, 0],
    [255, 0, 0, 0, 0, 0],
    [255, 0, 0, 0, 0, 0],
    [255, 255, 255, 0, 0, 0],
    [255, 0, 0, 0, 0, 0],
    [255, 0, 0, 0, 0, 0],
    [255, 0, 0, 0, 0, 0],
    [0, 0, 0, 0, 0, 0]],
   [[0, 255, 255, 255, 0, 0],
    [255, 0, 0, 0, 255, 0],
    [255, 0, 0, 0, 0, 0],
    [255, 0, 0, 0, 0, 0],
    [255, 0, 0, 255, 255, 0],
    [255, 0, 0, 0, 255, 0],
    [0, 255, 255, 255, 0, 0],
    [0, 0, 0, 0, 0, 0]],
   [[255, 0, 0, 0, 255, 0],
    [255, 0, 0, 0, 255, 0],
    [255, 0, 0, 0, 255, 0],
    [255, 255, 255, 255, 255, 0],
    [255, 0, 0, 0, 255, 0],
    [255, 0, 0, 0, 255, 0],
    [255, 0, 0, 0, 255, 0],
    [0, 0, 0, 0, 0, 0]],
   [[0, 255, 255, 255, 0, 0],
    [0, 0, 255, 0, 0, 0],
    [0, 0, 255, 0, 0, 0],
    [0, 0, 255, 0, 0, 0],
    [0, 0, 255, 0, 0, 0],
    [0, 0, 255, 0, 0, 0],
    [0, 255, 255, 255, 0, 0],
    [0, 0, 0, 0, 0, 0]],
   [[0, 0, 255, 255, 255, 0],
    [0, 0, 0, 255, 0, 0],
    [0, 0, 0, 255, 0, 0],
    [0, 0, 0, 255, 0, 0],
    [0, 0, 0, 255, 0, 0],
    [255, 0, 0, 255, 0, 0],
    [0, 255, 255, 0, 0, 0],
    [0, 0, 0, 0, 0, 0]],
   [[255, 0, 0, 0, 255, 0],
    [255, 0, 0, 255, 0, 0],
    [255, 0, 255, 0, 0, 0],
    [255, 255, 0, 0, 0, 0],
    [255, 0, 255, 0, 0, 0],
    [255, 0, 0, 255, 0, 0],
    [255, 0, 0, 0, 255, 0],
    [0, 0, 0, 0, 0, 0]],
   [[255, 0, 0, 0, 0, 0],
    [255, 0, 0, 0, 0, 0],
    [255, 0, 0, 0, 0, 0],
    [255, 0, 0, 0, 0, 0],
    [255, 0, 0, 0, 0, 0],
    [255, 0, 0, 0, 0, 0],
    [255, 255, 255, 255, 255, 0],
    [0, 0, 0, 0, 0, 0]],
   [[255, 0, 0, 0, 255, 0],
    [255, 255, 0, 255, 255, 0],
    [255, 0, 255, 0, 255, 0],
    [255, 0, 0, 0, 255, 0],
    [255, 0, 0, 0, 255, 0],
    [255, 0, 0, 0, 255, 0],
    [255, 0, 0, 0, 255, 0],
    [0, 0, 0, 0, 0, 0]],
   [[255, 0, 0, 0, 255, 0],
    [255, 0, 0, 0, 255, 0],
    [255, 255, 0, 0, 255, 0],
    [255, 0, 255, 0, 255, 0],
    [255, 0, 0, 255, 255, 0],
    [255, 0, 0, 0, 255, 0],
    [255, 0, 0, 0, 255, 0],
    [0, 0, 0, 0, 0, 0]],
   [[0, 255, 255, 255, 0, 0],
    [255, 0, 0, 0, 255, 0],
    [255, 0, 0, 0, 255, 0],
    [255, 0, 0, 0, 255, 0],
    [255, 0, 0, 0, 255, 0],
    [255, 0, 0, 0, 255, 0],
    [0, 255, 255, 255, 0, 0],
    [0, 0, 0, 0, 0, 0]]]"

definition font_part5 :: "u8 list list list" where
  "font_part5 = [
   [[255, 255, 255, 255, 0, 0],
    [255, 0, 0, 0, 255, 0],
    [255, 0, 0, 0, 255, 0],
    [255, 255, 255, 255, 0, 0],
    [255, 0, 0, 0, 0, 0],
    [255, 0, 0, 0, 0, 0],
    [255, 0, 0, 0, 0, 0],
    [0, 0, 0, 0, 0, 0]],
   [[0, 255, 255, 255, 0, 0],
    [255, 0, 0, 0, 255, 0],
    [255, 0, 0, 0, 255, 0],
    [255, 0, 0, 0, 255, 0],
    [255, 0, 255, 0, 255, 0],
    [255, 0, 0, 255, 0, 0],
    [0, 255, 255, 0, 255, 0],
    [0, 0, 0, 0, 0, 0]],
   [[255, 255, 255, 255, 0, 0],
    [255, 0, 0, 0, 255, 0],
    [255, 0, 0, 0, 255, 0],
    [255, 255, 255, 255, 0, 0],
    [255, 0, 255, 0, 0, 0],
    [255, 0, 0, 255, 0, 0],
    [255, 0, 0, 0, 255, 0],
    [0, 0, 0, 0, 0, 0]],
   [[0, 255, 255, 255, 255, 0],
    [255, 0, 0, 0, 0, 0],
    [255, 0, 0, 0, 0, 0],
    [0, 255, 255, 255, 0, 0],
    [0, 0, 0, 0, 255, 0],
    [0, 0, 0, 0, 255, 0],
    [255, 255, 255, 255, 0, 0],
    [0, 0, 0, 0, 0, 0]],
   [[255, 255, 255, 255, 255, 0],
    [0, 0, 255, 0, 0, 0],
    [0, 0, 255, 0, 0, 0],
    [0, 0, 255, 0, 0, 0],
    [0, 0, 255, 0, 0, 0],
    [0, 0, 255, 0, 0, 0],
    [0, 0, 255, 0, 0, 0],
    [0, 0, 0, 0, 0, 0]],
   [[255, 0, 0, 0, 255, 0],
    [255, 0, 0, 0, 255, 0],
    [255, 0, 0, 0, 255, 0],
    [255, 0, 0, 0, 255, 0],
    [255, 0, 0, 0, 255, 0],
    [255, 0, 0, 0, 255, 0],
    [0, 255, 255, 255, 0, 0],
    [0, 0, 0, 0, 0, 0]],
   [[255, 0, 0, 0, 255, 0],
    [255, 0, 0, 0, 255, 0],
    [255, 0, 0, 0, 255, 0],
    [255, 0, 0, 0, 255, 0],
    [255, 0, 0, 0, 255, 0],
    [0, 255, 0, 255, 0, 0],
    [0, 0, 255, 0, 0, 0],
    [0, 0, 0, 0, 0, 0]],
   [[255, 0, 0, 0, 255, 0],
    [255, 0, 0, 0, 255, 0],
    [255, 0, 0, 0, 255, 0],
    [255, 0, 255, 0, 255, 0],
    [255, 0, 255, 0, 255, 0],
    [255, 255, 0, 255, 255, 0],
    [255, 0, 0, 0, 255, 0],
    [0, 0, 0, 0, 0, 0]],
   [[255, 0, 0, 0, 255, 0],
    [255, 0, 0, 0, 255, 0],
    [0, 255, 0, 255, 0, 0],
    [0, 0, 255, 0, 0, 0],
    [0, 255, 0, 255, 0, 0],
    [255, 0, 0, 0, 255, 0],
    [255, 0, 0, 0, 255, 0],
    [0, 0, 0, 0, 0, 0]],
   [[255, 0, 0, 0, 255, 0],
    [255, 0, 0, 0, 255, 0],
    [0, 255, 0, 255, 0, 0],
    [0, 0, 255, 0, 0, 0],
    [0, 0, 255, 0, 0, 0],
    [0, 0, 255, 0, 0, 0],
    [0, 0, 255, 0, 0, 0],
    [0, 0, 0, 0, 0, 0]],
   [[255, 255, 255, 255, 255, 0],
    [0, 0, 0, 0, 255, 0],
    [0, 0, 0, 255, 0, 0],
    [0, 0, 255, 0, 0, 0],
    [0, 255, 0, 0, 0, 0],
    [255, 0, 0, 0, 0, 0],
    [255, 255, 255, 255, 255, 0],
    [0, 0, 0, 0, 0, 0]],
   [[0, 0, 0, 0, 0, 0],
    [0, 0, 0, 0, 0, 0],
    [0, 0, 0, 0, 0, 0],
    [0, 0, 0, 0, 0, 0],
    [0, 0, 0, 0, 0, 0],
    [0, 0, 0, 0, 0, 0],
    [0, 0, 0, 0, 0, 0],
    [0, 0, 0, 0, 0, 0]],
   [[0, 0, 0, 0, 0, 0],
    [0, 0, 0, 0, 0, 0],
    [0, 0, 0, 0, 0, 0],
    [0, 0, 0, 0, 0, 0],
    [0, 0, 0, 0, 0, 0],
    [0, 0, 0, 0, 0, 0],
    [0, 0, 0, 0, 0, 0],
    [0, 0, 0, 0, 0, 0]],
   [[0, 0, 0, 0, 0, 0],
    [0, 0, 0, 0, 0, 0],
    [0, 0, 0, 0, 0, 0],
    [0, 0, 0, 0, 0, 0],
    [0, 0, 0, 0, 0, 0],
    [0, 0, 0, 0, 0, 0],
    [0, 0, 0, 0, 0, 0],
    [0, 0, 0, 0, 0, 0]],
   [[0, 0, 0, 0, 0, 0],
    [0, 0, 0, 0, 0, 0],
    [0, 0, 0, 0, 0, 0],
    [0, 0, 0, 0, 0, 0],
    [0, 0, 0, 0, 0, 0],
    [0, 0, 0, 0, 0, 0],
    [0, 0, 0, 0, 0, 0],
    [0, 0, 0, 0, 0, 0]],
   [[0, 0, 0, 0, 0, 0],
    [0, 0, 0, 0, 0, 0],
    [0, 0, 0, 0, 0, 0],
    [0, 0, 0, 0, 0, 0],
    [0, 0, 0, 0, 0, 0],
    [0, 0, 0, 0, 0, 0],
    [0, 0, 0, 0, 0, 0],
    [0, 0, 0, 0, 0, 0]]]"

definition font_part6 :: "u8 list list list" where
  "font_part6 = [
   [[0, 0, 0, 0, 0, 0],
    [0, 0, 0, 0, 0, 0],
    [0, 0, 0, 0, 0, 0],
    [0, 0, 0, 0, 0, 0],
    [0, 0, 0, 0, 0, 0],
    [0, 0, 0, 0, 0, 0],
    [0, 0, 0, 0, 0, 0],
    [0, 0, 0, 0, 0, 0]],
   [[0, 0, 0, 0, 0, 0],
    [0, 0, 0, 0, 0, 0],
    [0, 255, 255, 255, 0, 0],
    [0, 0, 0, 0, 255, 0],
    [0, 255, 255, 255, 255, 0],
    [255, 0, 0, 0, 255, 0],
    [0, 255, 255, 255, 255, 0],
    [0, 0, 0, 0, 0, 0]],
   [[255, 0, 0, 0, 0, 0],
    [255, 0, 0, 0, 0, 0],
    [255, 0, 255, 255, 0, 0],
    [255, 255, 0, 0, 255, 0],
    [255, 0, 0, 0, 255, 0],
    [255, 0, 0, 0, 255, 0],
    [255, 255, 255, 255, 0, 0],
    [0, 0, 0, 0, 0, 0]],
   [[0, 0, 0, 0, 0, 0],
    [0, 0, 0, 0, 0, 0],
    [0, 255, 255, 255, 0, 0],
    [255, 0, 0, 0, 0, 0],
    [255, 0, 0, 0, 0, 0],
    [255, 0, 0, 0, 255, 0],
    [0, 255, 255, 255, 0, 0],
    [0, 0, 0, 0, 0, 0]],
   [[0, 0, 0, 0, 255, 0],
    [0, 0, 0, 0, 255, 0],
    [0, 255, 255, 0, 255, 0],
    [255, 0, 0, 255, 255, 0],
    [255, 0, 0, 0, 255, 0],
    [255, 0, 0, 0, 255, 0],
    [0, 255, 255, 255, 255, 0],
    [0, 0, 0, 0, 0, 0]],
   [[0, 0, 0, 0, 0, 0],
    [0, 0, 0, 0, 0, 0],
    [0, 255, 255, 255, 0, 0],
    [255, 0, 0, 0, 255, 0],
    [255, 255, 255, 255, 255, 0],
    [255, 0, 0, 0, 0, 0],
    [0, 255, 255, 255, 0, 0],
    [0, 0, 0, 0, 0, 0]],
   [[0, 0, 255, 255, 0, 0],
    [0, 255, 0, 0, 255, 0],
    [0, 255, 0, 0, 0, 0],
    [255, 255, 255, 0, 0, 0],
    [0, 255, 0, 0, 0, 0],
    [0, 255, 0, 0, 0, 0],
    [0, 255, 0, 0, 0, 0],
    [0, 0, 0, 0, 0, 0]],
   [[0, 0, 0, 0, 0, 0],
    [0, 0, 0, 0, 0, 0],
    [0, 255, 255, 255, 255, 0],
    [255, 0, 0, 0, 255, 0],
    [0, 255, 255, 255, 255, 0],
    [0, 0, 0, 0, 255, 0],
    [0, 0, 255, 255, 0, 0],
    [0, 0, 0, 0, 0, 0]],
   [[255, 0, 0, 0, 0, 0],
    [255, 0, 0, 0, 0, 0],
    [255, 0, 255, 255, 0, 0],
    [255, 255, 0, 0, 255, 0],
    [255, 0, 0, 0, 255, 0],
    [255, 0, 0, 0, 255, 0],
    [255, 0, 0, 0, 255, 0],
    [0, 0, 0, 0, 0, 0]],
   [[0, 0, 255, 0, 0, 0],
    [0, 0, 0, 0, 0, 0],
    [0, 255, 255, 0, 0, 0],
    [0, 0, 255, 0, 0, 0],
    [0, 0, 255, 0, 0, 0],
    [0, 0, 255, 0, 0, 0],
    [0, 255, 255, 255, 0, 0],
    [0, 0, 0, 0, 0, 0]],
   [[0, 0, 0, 255, 0, 0],
    [0, 0, 0, 0, 0, 0],
    [0, 0, 255, 255, 0, 0],
    [0, 0, 0, 255, 0, 0],
    [0, 0, 0, 255, 0, 0],
    [255, 0, 0, 255, 0, 0],
    [0, 255, 255, 0, 0, 0],
    [0, 0, 0, 0, 0, 0]],
   [[255, 0, 0, 0, 0, 0],
    [255, 0, 0, 0, 0, 0],
    [255, 0, 0, 255, 0, 0],
    [255, 0, 255, 0, 0, 0],
    [255, 255, 0, 0, 0, 0],
    [255, 0, 255, 0, 0, 0],
    [255, 0, 0, 255, 0, 0],
    [0, 0, 0, 0, 0, 0]],
   [[0, 255, 255, 0, 0, 0],
    [0, 0, 255, 0, 0, 0],
    [0, 0, 255, 0, 0, 0],
    [0, 0, 255, 0, 0, 0],
    [0, 0, 255, 0, 0, 0],
    [0, 0, 255, 0, 0, 0],
    [0, 255, 255, 255, 0, 0],
    [0, 0, 0, 0, 0, 0]],
   [[0, 0, 0, 0, 0, 0],
    [0, 0, 0, 0, 0, 0],
    [255, 255, 0, 255, 0, 0],
    [255, 0, 255, 0, 255, 0],
    [255, 0, 255, 0, 255, 0],
    [255, 0, 0, 0, 255, 0],
    [255, 0, 0, 0, 255, 0],
    [0, 0, 0, 0, 0, 0]],
   [[0, 0, 0, 0, 0, 0],
    [0, 0, 0, 0, 0, 0],
    [255, 0, 255, 255, 0, 0],
    [255, 255, 0, 0, 255, 0],
    [255, 0, 0, 0, 255, 0],
    [255, 0, 0, 0, 255, 0],
    [255, 0, 0, 0, 255, 0],
    [0, 0, 0, 0, 0, 0]],
   [[0, 0, 0, 0, 0, 0],
    [0, 0, 0, 0, 0, 0],
    [0, 255, 255, 255, 0, 0],
    [255, 0, 0, 0, 255, 0],
    [255, 0, 0, 0, 255, 0],
    [255, 0, 0, 0, 255, 0],
    [0, 255, 255, 255, 0, 0],
    [0, 0, 0, 0, 0, 0]]]"

definition font_part7 :: "u8 list list list" where
  "font_part7 = [
   [[0, 0, 0, 0, 0, 0],
    [0, 0, 0, 0, 0, 0],
    [255, 255, 255, 255, 0, 0],
    [255, 0, 0, 0, 255, 0],
    [255, 255, 255, 255, 0, 0],
    [255, 0, 0, 0, 0, 0],
    [255, 0, 0, 0, 0, 0],
    [0, 0, 0, 0, 0, 0]],
   [[0, 0, 0, 0, 0, 0],
    [0, 0, 0, 0, 0, 0],
    [0, 255, 255, 0, 255, 0],
    [255, 0, 0, 255, 255, 0],
    [0, 255, 255, 255, 255, 0],
    [0, 0, 0, 0, 255, 0],
    [0, 0, 0, 0, 255, 0],
    [0, 0, 0, 0, 0, 0]],
   [[0, 0, 0, 0, 0, 0],
    [0, 0, 0, 0, 0, 0],
    [255, 0, 255, 255, 0, 0],
    [255, 255, 0, 0, 255, 0],
    [255, 0, 0, 0, 0, 0],
    [255, 0, 0, 0, 0, 0],
    [255, 0, 0, 0, 0, 0],
    [0, 0, 0, 0, 0, 0]],
   [[0, 0, 0, 0, 0, 0],
    [0, 0, 0, 0, 0, 0],
    [0, 255, 255, 255, 0, 0],
    [255, 0, 0, 0, 0, 0],
    [0, 255, 255, 255, 0, 0],
    [0, 0, 0, 0, 255, 0],
    [255, 255, 255, 255, 0, 0],
    [0, 0, 0, 0, 0, 0]],
   [[0, 255, 0, 0, 0, 0],
    [0, 255, 0, 0, 0, 0],
    [255, 255, 255, 0, 0, 0],
    [0, 255, 0, 0, 0, 0],
    [0, 255, 0, 0, 0, 0],
    [0, 255, 0, 0, 255, 0],
    [0, 0, 255, 255, 0, 0],
    [0, 0, 0, 0, 0, 0]],
   [[0, 0, 0, 0, 0, 0],
    [0, 0, 0, 0, 0, 0],
    [255, 0, 0, 0, 255, 0],
    [255, 0, 0, 0, 255, 0],
    [255, 0, 0, 0, 255, 0],
    [255, 0, 0, 255, 255, 0],
    [0, 255, 255, 0, 255, 0],
    [0, 0, 0, 0, 0, 0]],
   [[0, 0, 0, 0, 0, 0],
    [0, 0, 0, 0, 0, 0],
    [255, 0, 0, 0, 255, 0],
    [255, 0, 0, 0, 255, 0],
    [255, 0, 0, 0, 255, 0],
    [0, 255, 0, 255, 0, 0],
    [0, 0, 255, 0, 0, 0],
    [0, 0, 0, 0, 0, 0]],
   [[0, 0, 0, 0, 0, 0],
    [0, 0, 0, 0, 0, 0],
    [255, 0, 0, 0, 255, 0],
    [255, 0, 0, 0, 255, 0],
    [255, 0, 255, 0, 255, 0],
    [255, 0, 255, 0, 255, 0],
    [0, 255, 0, 255, 0, 0],
    [0, 0, 0, 0, 0, 0]],
   [[0, 0, 0, 0, 0, 0],
    [0, 0, 0, 0, 0, 0],
    [255, 0, 0, 0, 255, 0],
    [0, 255, 0, 255, 0, 0],
    [0, 0, 255, 0, 0, 0],
    [0, 255, 0, 255, 0, 0],
    [255, 0, 0, 0, 255, 0],
    [0, 0, 0, 0, 0, 0]],
   [[0, 0, 0, 0, 0, 0],
    [0, 0, 0, 0, 0, 0],
    [255, 0, 0, 0, 255, 0],
    [255, 0, 0, 0, 255, 0],
    [0, 255, 255, 255, 255, 0],
    [0, 0, 0, 0, 255, 0],
    [0, 255, 255, 255, 0, 0],
    [0, 0, 0, 0, 0, 0]],
   [[0, 0, 0, 0, 0, 0],
    [0, 0, 0, 0, 0, 0],
    [255, 255, 255, 255, 255, 0],
    [0, 0, 0, 255, 0, 0],
    [0, 0, 255, 0, 0, 0],
    [0, 255, 0, 0, 0, 0],
    [255, 255, 255, 255, 255, 0],
    [0, 0, 0, 0, 0, 0]],
   [[0, 0, 0, 0, 0, 0],
    [0, 0, 0, 0, 0, 0],
    [0, 0, 0, 0, 0, 0],
    [0, 0, 0, 0, 0, 0],
    [0, 0, 0, 0, 0, 0],
    [0, 0, 0, 0, 0, 0],
    [0, 0, 0, 0, 0, 0],
    [0, 0, 0, 0, 0, 0]],
   [[0, 0, 0, 0, 0, 0],
    [0, 0, 0, 0, 0, 0],
    [0, 0, 0, 0, 0, 0],
    [0, 0, 0, 0, 0, 0],
    [0, 0, 0, 0, 0, 0],
    [0, 0, 0, 0, 0, 0],
    [0, 0, 0, 0, 0, 0],
    [0, 0, 0, 0, 0, 0]],
   [[0, 0, 0, 0, 0, 0],
    [0, 0, 0, 0, 0, 0],
    [0, 0, 0, 0, 0, 0],
    [0, 0, 0, 0, 0, 0],
    [0, 0, 0, 0, 0, 0],
    [0, 0, 0, 0, 0, 0],
    [0, 0, 0, 0, 0, 0],
    [0, 0, 0, 0, 0, 0]],
   [[0, 0, 0, 0, 0, 0],
    [0, 0, 0, 0, 0, 0],
    [0, 0, 0, 0, 0, 0],
    [0, 0, 0, 0, 0, 0],
    [0, 0, 0, 0, 0, 0],
    [0, 0, 0, 0, 0, 0],
    [0, 0, 0, 0, 0, 0],
    [0, 0, 0, 0, 0, 0]],
   [[0, 0, 0, 0, 0, 0],
    [0, 0, 0, 0, 0, 0],
    [0, 0, 0, 0, 0, 0],
    [0, 0, 0, 0, 0, 0],
    [0, 0, 0, 0, 0, 0],
    [0, 0, 0, 0, 0, 0],
    [0, 0, 0, 0, 0, 0],
    [0, 0, 0, 0, 0, 0]]]"

definition font_table :: "u8 list list list" where
  "font_table = font_part0 @ font_part1 @ font_part2 @ font_part3 @ font_part4 @ font_part5 @ font_part6 @ font_part7"

definition font :: font_t where
  "font c i j = font_table ! c ! i ! j"

section \<open>Shape\<close>

definition glyph_shape :: "u8 list list \<Rightarrow> bool" where
  "glyph_shape g \<longleftrightarrow> length g = 8 \<and> list_all (\<lambda>r. length r = 6 \<and> list_all (\<lambda>b. b = 0 \<or> b = 255) r) g"

lemma font_parts:
  "length font_part0 = 16 \<and> list_all glyph_shape font_part0" "length font_part1 = 16 \<and> list_all glyph_shape font_part1"
  "length font_part2 = 16 \<and> list_all glyph_shape font_part2" "length font_part3 = 16 \<and> list_all glyph_shape font_part3"
  "length font_part4 = 16 \<and> list_all glyph_shape font_part4" "length font_part5 = 16 \<and> list_all glyph_shape font_part5"
  "length font_part6 = 16 \<and> list_all glyph_shape font_part6" "length font_part7 = 16 \<and> list_all glyph_shape font_part7"
  by (simp_all add: font_part0_def font_part1_def font_part2_def font_part3_def font_part4_def font_part5_def
    font_part6_def font_part7_def glyph_shape_def)

text \<open>Each of the 128 characters has its 8 by 6 entries, all of them 0 or 255.\<close>

lemma font_shape: "length font_table = 128 \<and> list_all glyph_shape font_table"
  using font_parts by (simp add: font_table_def)

text \<open>The font has no pictures for brackets, braces and other signs: they are drawn like a blank.\<close>

lemma font_blank: "list_all (\<lambda>c. font_table ! c = font_table ! 32) [91, 92, 93, 94, 95, 96, 123, 124, 125, 126]"
  by (simp add: font_table_def font_part2_def font_part5_def font_part6_def font_part7_def nth_append font_parts)

end
