(* ===== verification/Knet.thy ===== *)
theory Knet
  imports Pids Ide
begin

text \<open>
  The network subsystem, \<^verbatim>\<open>kernel/knet.c\<close>, with the layouts of \<^verbatim>\<open>kernel/ethernet.h\<close> and
  \<^verbatim>\<open>kernel/process.h\<close>: Ethernet frames and messages between processes as buffers of bytes,
  and the table of messages received.  What is printed is recorded with its arguments.
\<close>

section \<open>Frames and messages\<close>

abbreviation (input) ETH_ALEN :: nat where "ETH_ALEN \<equiv> 6"
abbreviation (input) ETH_HLEN :: nat where "ETH_HLEN \<equiv> 14"
abbreviation (input) ETH_DATA_LEN :: nat where "ETH_DATA_LEN \<equiv> 1500"
abbreviation PROTO_CTP :: u16 where "PROTO_CTP \<equiv> 0x0C79"
abbreviation CTP_IPC :: u32 where "CTP_IPC \<equiv> 0x1f1f"
abbreviation (input) NUM_MESSAGES :: nat where "NUM_MESSAGES \<equiv> 20"
abbreviation (input) MAX_MESSAGE_LEN :: nat where "MAX_MESSAGE_LEN \<equiv> 1024"
abbreviation (input) MESSAGE_HDR_LEN :: nat where "MESSAGE_HDR_LEN \<equiv> 26"
abbreviation (input) sizeof_message :: nat where "sizeof_message \<equiv> 1050"
abbreviation (input) sizeof_ctp_header :: nat where "sizeof_ctp_header \<equiv> 14"
abbreviation (input) sizeof_ethframe :: nat where "sizeof_ethframe \<equiv> 1514"

definition get48 :: "bytes \<Rightarrow> nat \<Rightarrow> mac_address_t" where
  "get48 b a = ucast (get32 b a) OR push_bit 32 (ucast (get16 b (a + 4)))"

definition put48 :: "nat \<Rightarrow> mac_address_t \<Rightarrow> bytes \<Rightarrow> bytes" where
  "put48 a v b = put16 (a + 4) (ucast (drop_bit 32 v)) (put32 a (ucast v) b)"

definition get_pid :: "bytes \<Rightarrow> nat \<Rightarrow> pid_t" where
  "get_pid b a = \<lparr>pid_id = get32 b a, pid_host = get48 b (a + 4), pid_reserved = get16 b (a + 10)\<rparr>"

definition put_pid :: "nat \<Rightarrow> pid_t \<Rightarrow> bytes \<Rightarrow> bytes" where
  "put_pid a p b = put16 (a + 10) (pid_reserved p) (put48 (a + 4) (pid_host p) (put32 a (pid_id p) b))"

text \<open>The fields of a frame, \<^verbatim>\<open>ethframe_t\<close>, of the header in it, and of \<^verbatim>\<open>message_t\<close>.\<close>

definition eth_dest :: "bytes \<Rightarrow> mac_address_t" where "eth_dest f = get48 f 0"
definition eth_source :: "bytes \<Rightarrow> mac_address_t" where "eth_source f = get48 f 6"
definition eth_proto :: "bytes \<Rightarrow> u16" where "eth_proto f = get16 f 12"
definition eth_data :: "bytes \<Rightarrow> bytes" where "eth_data f = (\<lambda>i. f (14 + i))"
definition ctp_length :: "bytes \<Rightarrow> u16" where "ctp_length d = get16 d 0"
definition ctp_type :: "bytes \<Rightarrow> u32" where "ctp_type d = get32 d 2"
definition msg_sender :: "bytes \<Rightarrow> pid_t" where "msg_sender m = get_pid m 0"
definition msg_dest :: "bytes \<Rightarrow> pid_t" where "msg_dest m = get_pid m 12"
definition msg_length :: "bytes \<Rightarrow> u16" where "msg_length m = get16 m 24"

text \<open>\<^verbatim>\<open>LITTLE_ENDIAN\<close> is not defined in the build, so that the conversions do nothing.\<close>

definition htonl :: "u32 \<Rightarrow> u32" where "htonl hostlong = hostlong"
definition htons :: "u16 \<Rightarrow> u16" where "htons hostshort = hostshort"
definition ntohl :: "u32 \<Rightarrow> u32" where "ntohl netlong = netlong"
definition ntohs :: "u16 \<Rightarrow> u16" where "ntohs netshort = netshort"

section \<open>State\<close>

datatype print_arg =
    Num u32
  | Str "string option"
  | Buf bytes

record message_table_t =
  mt_avail :: bool
  mt_mesg :: bytes

record knet =
  kn_messages :: "message_table_t list"
  next_message_idx :: nat
  kn_local_mac :: mac_address_t
  kn_log :: "(string \<times> print_arg list) list"

definition net_printf :: "string \<Rightarrow> print_arg list \<Rightarrow> knet \<Rightarrow> knet" where
  "net_printf fmt args s = s\<lparr>kn_log := kn_log s @ [(fmt, args)]\<rparr>"

definition nl :: "string \<Rightarrow> string" where
  "nl fmt = fmt @ [CHR 0x0A]"

definition knet_init :: "knet \<Rightarrow> status_t \<times> knet" where
  "knet_init s = (E_SUCCESS, s\<lparr>kn_messages := map (mt_avail_update (\<lambda>_. True)) (kn_messages s)\<rparr>)"

section \<open>The table of messages\<close>

text \<open>The \<^verbatim>\<open>do ... while\<close> of \<^verbatim>\<open>_knet_get_avail_msg\<close>, from index \<open>idx\<close>: it may not end.\<close>

partial_function (option) avail_scan ::
  "message_table_t list \<Rightarrow> nat \<Rightarrow> nat \<Rightarrow> nat option option" where
  "avail_scan ms start idx =
     (let idx = (if NUM_MESSAGES \<le> idx then 0 else idx)
      in if mt_avail (ms ! idx) then Some (Some idx)
         else if idx + 1 \<noteq> start then avail_scan ms start (idx + 1)
         else Some None)"

text \<open>The result is the index of the message claimed, or \<open>None\<close> for the null pointer.\<close>

definition knet_get_avail_msg :: "knet \<Rightarrow> (nat option \<times> knet) option" where
  "knet_get_avail_msg s =
     (case avail_scan (kn_messages s) (next_message_idx s) (next_message_idx s) of
        None \<Rightarrow> None
      | Some None \<Rightarrow> Some (None, s)
      | Some (Some i) \<Rightarrow>
          Some (Some i, s\<lparr>kn_messages := (kn_messages s)[i := (kn_messages s ! i)\<lparr>mt_avail := False\<rparr>]\<rparr>))"

section \<open>Receiving\<close>

text \<open>What is done with a message that is addressed to this host, and with any other.\<close>

definition knet_deliver :: "bytes \<Rightarrow> knet \<Rightarrow> knet option" where
  "knet_deliver temp s =
     (let host = pid_host (msg_dest temp)
      in if u_memcmp (mac_byte host) (mac_byte (kn_local_mac s)) 6 = 0 then
           (case knet_get_avail_msg (net_printf (nl ''DEBUG: knet - MINE'') [] s) of
              None \<Rightarrow> None
            | Some (None, s1) \<Rightarrow> Some (net_printf (nl ''WARNING: knet - Packet dropped, buffers full'') [] s1)
            | Some (Some i, s1) \<Rightarrow>
                Some (s1\<lparr>kn_messages := (kn_messages s1)[i :=
                  (kn_messages s1 ! i)\<lparr>mt_mesg := blit 0 sizeof_message temp (mt_mesg (kn_messages s1 ! i))\<rparr>]\<rparr>))
         else Some (net_printf (nl ''DEBUG: knet - NOT MINE'') [] s))"

definition print_sender :: "mac_address_t \<Rightarrow> knet \<Rightarrow> knet" where
  "print_sender mac s =
     (case hosts_get_hostname mac of
        Some name \<Rightarrow> net_printf (nl ''DEBUG: knet - Got eth frame from host: %s'') [Str (Some name)] s
      | None \<Rightarrow>
          net_printf (nl []) []
            (fold (\<lambda>i. net_printf ''%x '' [Num (ucast (mac_byte mac i))]) [0..<6]
              (net_printf ''DEBUG: knet - Received eth frame from mac: 0x'' [] s)))"

definition knet_process_frame :: "bytes \<Rightarrow> knet \<Rightarrow> (status_t \<times> knet) option" where
  "knet_process_frame frame s =
     (let ctp_hdr = eth_data frame; temp = (\<lambda>i. eth_data frame (sizeof_ctp_header + i));
          r = (if eth_proto frame = PROTO_CTP \<and> ctp_type ctp_hdr = CTP_IPC \<and> MESSAGE_HDR_LEN \<le> unat (ctp_length ctp_hdr)
               then knet_deliver temp
                      (case hosts_get_hostname (pid_host (msg_sender temp)) of
                         Some name \<Rightarrow> net_printf (nl ''DEBUG: knet - Got CTP packet from host: %s'') [Str (Some name)] s
                       | None \<Rightarrow> net_printf (nl ''DEBUG: knet - Received CTP packet'') [] s)
               else Some s)
      in map_option (\<lambda>s1. (E_SUCCESS, print_sender (eth_source frame) s1)) r)"

section \<open>Sending\<close>

text \<open>
  The frame of a message.  It is a local variable: \<open>junk\<close> is what the stack held, and
  stays in the fields that the code does not set, which are the length and the two
  handles of the header and the bytes behind the message.
\<close>

definition message_frame :: "mac_address_t \<Rightarrow> bytes \<Rightarrow> bytes \<Rightarrow> bytes" where
  "message_frame local_mac msg junk =
     blit 28 sizeof_message msg
       (put32 16 CTP_IPC
         (put16 12 PROTO_CTP
           (put48 0 (pid_host (msg_dest msg))
             (put48 6 local_mac junk))))"

end
