(* ===== verification/Nic.thy ===== *)
theory Nic
  imports Knet Pci
begin

text \<open>
  The driver of the network interface, \<^verbatim>\<open>drivers/net/i8255x_ethernet.c\<close>.  The registers of the
  device are memory on a bus of an arbitrary state, the buffers that it shares with the
  driver are structures by address.  What the device and the interrupts do while the driver
  delays is an argument of the routines that delay.
\<close>

section \<open>State\<close>

text \<open>The status, command and general pointer registers of \<^verbatim>\<open>intel_csr_t\<close> are at offsets 0, 2 and 4.\<close>

record 'h mmio =
  m_read16 :: "u32 \<Rightarrow> 'h \<Rightarrow> u16 \<times> 'h"
  m_write16 :: "u32 \<Rightarrow> u16 \<Rightarrow> 'h \<Rightarrow> 'h"
  m_write32 :: "u32 \<Rightarrow> u32 \<Rightarrow> 'h \<Rightarrow> 'h"

record intel_action_hdr_t =
  ah_status :: u16
  ah_command :: u16
  ah_link_addr :: u32

record intel_rx_buffer_t =
  rx_header :: intel_action_hdr_t
  rx_reserved :: u32
  rx_actual_count :: u16
  rx_size :: u16
  rx_frame :: bytes

text \<open>A transmit buffer with the bytes behind it, where the frame goes.\<close>

record intel_tx_buffer_t =
  tx_header :: intel_action_hdr_t
  tbd_addr :: u32
  tcb_byte_count :: u16
  tx_threshold :: u8
  tbd_num :: u8
  tx_data :: bytes

record intel_action_dump_t =
  dump_header :: intel_action_hdr_t
  dump_offset :: u32
  dump_buffer :: bytes

record 'h nic =
  n_hw :: 'h
  n_rxm :: "u32 \<Rightarrow> intel_rx_buffer_t"
  n_txm :: "u32 \<Rightarrow> intel_tx_buffer_t"
  n_dump :: intel_action_dump_t
  n_pci :: u32
  csr_bar :: u32
  irq_vector :: u32
  wrong_irq :: bool
  mac_addr :: mac_address_t
  cu_transition :: bool
  ru_transition :: bool
  rx_buffer_base :: u32
  rx_buffer_ptr :: u32
  rx_buffer_end :: u32
  tx_buffer_base :: u32
  rx_count :: u32
  n_knet :: knet

definition nic_printf :: "string \<Rightarrow> print_arg list \<Rightarrow> 'h nic \<Rightarrow> 'h nic" where
  "nic_printf fmt args s = s\<lparr>n_knet := net_printf fmt args (n_knet s)\<rparr>"

definition action_hdr_clear :: intel_action_hdr_t where
  "action_hdr_clear = \<lparr>ah_status = 0, ah_command = 0, ah_link_addr = 0\<rparr>"

abbreviation Align_DWord :: u8 where "Align_DWord \<equiv> 0x04"
abbreviation sizeof_rx_buffer :: u32 where "sizeof_rx_buffer \<equiv> 1530"
abbreviation sizeof_tx_buffer :: u32 where "sizeof_tx_buffer \<equiv> 16"
abbreviation (input) I8255X_RX_BUFFER_COUNT :: nat where "I8255X_RX_BUFFER_COUNT \<equiv> 5"
abbreviation I8255X_DEFAULT_IRQ :: u32 where "I8255X_DEFAULT_IRQ \<equiv> 0x2b"
abbreviation INTEL_ETH_SCB_STATUS_ACK_MASK :: u16 where "INTEL_ETH_SCB_STATUS_ACK_MASK \<equiv> 0xff00"
abbreviation INTEL_ETH_SCB_STATUS_FCP :: u16 where "INTEL_ETH_SCB_STATUS_FCP \<equiv> 0x100"
abbreviation INTEL_ETH_SCB_STATUS_SWI :: u16 where "INTEL_ETH_SCB_STATUS_SWI \<equiv> 0x400"
abbreviation INTEL_ETH_SCB_STATUS_MDI :: u16 where "INTEL_ETH_SCB_STATUS_MDI \<equiv> 0x800"
abbreviation INTEL_ETH_SCB_STATUS_RNR :: u16 where "INTEL_ETH_SCB_STATUS_RNR \<equiv> 0x1000"
abbreviation INTEL_ETH_SCB_STATUS_CNA :: u16 where "INTEL_ETH_SCB_STATUS_CNA \<equiv> 0x2000"
abbreviation INTEL_ETH_SCB_STATUS_FR :: u16 where "INTEL_ETH_SCB_STATUS_FR \<equiv> 0x4000"
abbreviation INTEL_ETH_SCB_STATUS_CX :: u16 where "INTEL_ETH_SCB_STATUS_CX \<equiv> 0x8000"
abbreviation INTEL_ETH_SCB_CMD_RUC_MASK :: u16 where "INTEL_ETH_SCB_CMD_RUC_MASK \<equiv> 7"
abbreviation INTEL_ETH_SCB_CMD_CUC_MASK :: u16 where "INTEL_ETH_SCB_CMD_CUC_MASK \<equiv> 0xf0"
abbreviation INTEL_ETH_SCB_CMD_TRIGGER_SI :: u16 where "INTEL_ETH_SCB_CMD_TRIGGER_SI \<equiv> 0x200"
abbreviation SCB_CMD_RUC_START :: u8 where "SCB_CMD_RUC_START \<equiv> 1"
abbreviation SCB_CMD_RUC_LD_RU_BASE :: u8 where "SCB_CMD_RUC_LD_RU_BASE \<equiv> 6"
abbreviation SCB_CMD_CUC_START :: u8 where "SCB_CMD_CUC_START \<equiv> 1"
abbreviation SCB_CMD_CUC_LD_CU_BASE :: u8 where "SCB_CMD_CUC_LD_CU_BASE \<equiv> 6"
abbreviation ACTION_HDR_STATUS_OK :: u16 where "ACTION_HDR_STATUS_OK \<equiv> 0x2000"
abbreviation ACTION_HDR_STATUS_C :: u16 where "ACTION_HDR_STATUS_C \<equiv> 0x8000"
abbreviation ACTION_HDR_CMD_I :: u16 where "ACTION_HDR_CMD_I \<equiv> 0x2000"
abbreviation ACTION_HDR_CMD_S :: u16 where "ACTION_HDR_CMD_S \<equiv> 0x4000"
abbreviation ACTION_HDR_CMD_EL :: u16 where "ACTION_HDR_CMD_EL \<equiv> 0x8000"
abbreviation CU_ACTION_TRANSMIT :: u16 where "CU_ACTION_TRANSMIT \<equiv> 4"
abbreviation CU_ACTION_DUMP :: u16 where "CU_ACTION_DUMP \<equiv> 6"

section \<open>Registers and commands\<close>

definition read_csr :: "'h mmio \<Rightarrow> u32 \<Rightarrow> 'h nic \<Rightarrow> u16 \<times> 'h nic" where
  "read_csr M reg s = (case m_read16 M (csr_bar s + reg) (n_hw s) of (v, h) \<Rightarrow> (v, s\<lparr>n_hw := h\<rparr>))"

definition write_csr :: "'h mmio \<Rightarrow> u32 \<Rightarrow> u16 \<Rightarrow> 'h nic \<Rightarrow> 'h nic" where
  "write_csr M reg v s = s\<lparr>n_hw := m_write16 M (csr_bar s + reg) v (n_hw s)\<rparr>"

definition or_csr :: "'h mmio \<Rightarrow> u32 \<Rightarrow> u16 \<Rightarrow> 'h nic \<Rightarrow> 'h nic" where
  "or_csr M reg bits s = (case read_csr M reg s of (v, s') \<Rightarrow> write_csr M reg (v OR bits) s')"

text \<open>\<^verbatim>\<open>while((csr_bar->command & mask) != 0x0)\<close>: it waits for as long as the device does.\<close>

partial_function (option) accept_wait :: "'h mmio \<Rightarrow> u16 \<Rightarrow> 'h nic \<Rightarrow> 'h nic option" where
  "accept_wait M msk s =
     (case read_csr M 2 s of (v, s') \<Rightarrow> if v AND msk \<noteq> 0 then accept_wait M msk s' else Some s')"

definition i8255x_write_ru_cmd :: "'h mmio \<Rightarrow> u8 \<Rightarrow> u32 \<Rightarrow> 'h nic \<Rightarrow> 'h nic option" where
  "i8255x_write_ru_cmd M cmd general_ptr s =
     accept_wait M INTEL_ETH_SCB_CMD_RUC_MASK
       (or_csr M 2 (INTEL_ETH_SCB_CMD_RUC_MASK AND ucast cmd)
         (s\<lparr>n_hw := m_write32 M (csr_bar s + 4) general_ptr (n_hw s)\<rparr>))"

definition i8255x_write_cu_cmd :: "'h mmio \<Rightarrow> u8 \<Rightarrow> u32 \<Rightarrow> 'h nic \<Rightarrow> 'h nic option" where
  "i8255x_write_cu_cmd M cmd general_ptr s =
     accept_wait M INTEL_ETH_SCB_CMD_CUC_MASK
       (or_csr M 2 (INTEL_ETH_SCB_CMD_CUC_MASK AND push_bit 4 (ucast cmd))
         (s\<lparr>n_hw := m_write32 M (csr_bar s + 4) general_ptr (n_hw s)\<rparr>))"

section \<open>Transmission\<close>

text \<open>The frame is copied behind the buffer, and the buffer cleared and filled in.\<close>

definition tx_filled :: "bytes \<Rightarrow> u16 \<Rightarrow> intel_tx_buffer_t \<Rightarrow> intel_tx_buffer_t" where
  "tx_filled frame sz b =
     \<lparr>tx_header = \<lparr>ah_status = 0,
        ah_command = ACTION_HDR_CMD_EL OR ACTION_HDR_CMD_I OR ACTION_HDR_CMD_S OR CU_ACTION_TRANSMIT,
        ah_link_addr = 0\<rparr>,
      tbd_addr = 0, tcb_byte_count = sz, tx_threshold = 0, tbd_num = 0,
      tx_data = blit 0 (unat sz) frame (tx_data b)\<rparr>"

definition i8255x_driver_transmit ::
  "'h mmio \<Rightarrow> bytes \<Rightarrow> u16 \<Rightarrow> bool \<Rightarrow> 'h nic \<Rightarrow> (status_t \<times> 'h nic) option" where
  "i8255x_driver_transmit M frame sz blocking s =
     map_option (\<lambda>s'. (E_SUCCESS, s'))
       (i8255x_write_cu_cmd M SCB_CMD_CUC_START (tx_buffer_base s)
         (s\<lparr>n_txm := (n_txm s)(tx_buffer_base s := tx_filled frame sz (n_txm s (tx_buffer_base s)))\<rparr>))"

text \<open>\<^verbatim>\<open>_knet_send_msg\<close> and its system call; the message is \<open>None\<close> for the null pointer.\<close>

definition knet_send_msg ::
  "'h mmio \<Rightarrow> bytes option \<Rightarrow> bytes \<Rightarrow> 'h nic \<Rightarrow> (status_t \<times> 'h nic) option" where
  "knet_send_msg M msg junk s =
     (case msg of
        None \<Rightarrow> Some (E_BAD_PARAM, nic_printf (nl ''WARNING: sendmsg - Invalid message pointer, passed NULL!'') [] s)
      | Some m \<Rightarrow>
          i8255x_driver_transmit M (message_frame (kn_local_mac (n_knet s)) m junk) (of_nat sizeof_ethframe) True
            (nic_printf (nl ''INFO: sendmsg - Sending message size=%d to host=%s'')
              [Num (ucast (msg_length m)), Str (hosts_get_hostname (pid_host (msg_dest m)))] s))"

text \<open>
  The system call writes the sender into the message of the caller before anything looks at
  the pointer.  The results are the message as it is left and the status for the caller.
\<close>

definition knet_syscall_sendmsg ::
  "'h mmio \<Rightarrow> pid_t \<Rightarrow> bytes option \<Rightarrow> bytes \<Rightarrow> 'h nic \<Rightarrow> (bytes \<times> status_t \<times> 'h nic) outcome" where
  "knet_syscall_sendmsg M current_pid msg junk s =
     (case msg of
        None \<Rightarrow> Inl (Fault ''_knet_syscall_sendmsg: null message'')
      | Some m \<Rightarrow>
          let m' = put_pid 0 current_pid m
          in (case knet_send_msg M (Some m') junk (nic_printf (nl ''INFO: _knet_syscall_sendmsg - Enter'') [] s) of
                None \<Rightarrow> Inl Diverges
              | Some (st, s') \<Rightarrow> Inr (m', st, s')))"

section \<open>Receive buffers\<close>

definition set_rx :: "u32 \<Rightarrow> intel_rx_buffer_t \<Rightarrow> 'h nic \<Rightarrow> 'h nic" where
  "set_rx a b s = s\<lparr>n_rxm := (n_rxm s)(a := b)\<rparr>"

definition i8255x_init_rxb :: "u32 \<Rightarrow> 'h nic \<Rightarrow> 'h nic" where
  "i8255x_init_rxb rx_buf s =
     (let b = n_rxm s rx_buf
      in set_rx rx_buf (b\<lparr>rx_header := (rx_header b)\<lparr>ah_status := 0,
           ah_command := ACTION_HDR_CMD_EL OR ACTION_HDR_CMD_S\<rparr>, rx_size := of_nat ETH_DATA_LEN\<rparr>) s)"

definition rx_clear :: intel_rx_buffer_t where
  "rx_clear = \<lparr>rx_header = action_hdr_clear, rx_reserved = 0, rx_actual_count = 0, rx_size = 0, rx_frame = (\<lambda>_. 0)\<rparr>"

definition set_link :: "u32 \<Rightarrow> u32 \<Rightarrow> 'h nic \<Rightarrow> 'h nic" where
  "set_link a l s = (let b = n_rxm s a in set_rx a (b\<lparr>rx_header := (rx_header b)\<lparr>ah_link_addr := l\<rparr>\<rparr>) s)"

text \<open>The loop of \<^verbatim>\<open>i8255x_setup_rfa\<close>: \<open>n\<close> buffers more, behind \<open>prev\<close> if that is not null.\<close>

fun rfa_loop :: "nat \<Rightarrow> u32 \<Rightarrow> u32 \<Rightarrow> 'h nic irqs \<Rightarrow> u32 \<times> u32 \<times> 'h nic irqs" where
  "rfa_loop 0 first prev s = (first, prev, s)"
| "rfa_loop (Suc n) first prev s =
     (case kalloc_aligned sizeof_rx_buffer Align_DWord s of
        (rx_buf, s1) \<Rightarrow>
          let e = set_rx rx_buf (rx_clear\<lparr>rx_size := of_nat ETH_DATA_LEN\<rparr>) (ir_env s1);
              e = (if prev \<noteq> 0 then set_link prev rx_buf e else e)
          in rfa_loop n (if first = 0 then rx_buf else first) rx_buf (s1\<lparr>ir_env := e\<rparr>))"

definition i8255x_setup_rfa :: "'h nic irqs \<Rightarrow> 'h nic irqs" where
  "i8255x_setup_rfa s =
     (case rfa_loop I8255X_RX_BUFFER_COUNT 0 0 s of
        (first_buf, prev_buf, s1) \<Rightarrow>
          let e = set_link prev_buf first_buf (ir_env s1);
              b = n_rxm e prev_buf;
              e = set_rx prev_buf (b\<lparr>rx_header := (rx_header b)\<lparr>ah_command := ACTION_HDR_CMD_EL OR ACTION_HDR_CMD_S\<rparr>\<rparr>) e;
              e = e\<lparr>rx_buffer_base := first_buf, rx_buffer_ptr := first_buf, rx_buffer_end := prev_buf\<rparr>
          in s1\<lparr>ir_env := nic_printf (nl ''i8255x_setup_rfa - Allocated %d RFDs totalling %d bytes'')
                 [Num (of_nat I8255X_RX_BUFFER_COUNT), Num (sizeof_rx_buffer * of_nat I8255X_RX_BUFFER_COUNT)] e\<rparr>)"

section \<open>Interrupts\<close>

definition status_bit :: "'h mmio \<Rightarrow> u16 \<Rightarrow> 'h nic \<Rightarrow> bool \<times> 'h nic" where
  "status_bit M bits s = (case read_csr M 0 s of (v, s') \<Rightarrow> (v AND bits \<noteq> 0, s'))"

text \<open>One received buffer: its frame goes to the network subsystem, and it is counted.\<close>

definition rx_note :: "bytes \<Rightarrow> 'h nic \<Rightarrow> 'h nic" where
  "rx_note frame s = (if eth_proto frame = htons 0xcafe then nic_printf (nl ''MSG: %s'') [Buf (eth_data frame)] s else s)"

definition rx_deliver :: "u32 \<Rightarrow> 'h nic \<Rightarrow> 'h nic option" where
  "rx_deliver rx_buf s =
     (let frame = rx_frame (n_rxm s rx_buf)
      in map_option (\<lambda>(st, k). rx_note frame (s\<lparr>rx_count := rx_count s + 1, n_knet := k\<rparr>))
           (knet_process_frame frame (n_knet s)))"

definition rx_waiting :: "(u32 \<Rightarrow> intel_rx_buffer_t) \<Rightarrow> u32 set" where
  "rx_waiting R = {a. ah_status (rx_header (R a)) \<noteq> 0}"

lemma rx_note_rxm [simp]: "n_rxm (rx_note f s) = n_rxm s"
  by (simp add: rx_note_def nic_printf_def)

lemma rx_deliver_frame: "rx_deliver a s = Some s' \<Longrightarrow> n_rxm s' = n_rxm s"
  by (auto simp: rx_deliver_def Let_def)

lemma init_rxb_waiting:
  assumes "ah_status (rx_header (n_rxm s a)) \<noteq> 0"
  shows "card (rx_waiting (n_rxm (i8255x_init_rxb a s))) < card (rx_waiting (n_rxm s))"
proof (rule psubset_card_mono)
  have "rx_waiting (n_rxm (i8255x_init_rxb a s)) = rx_waiting (n_rxm s) - {a}"
    by (auto simp: rx_waiting_def i8255x_init_rxb_def set_rx_def Let_def)
  then show "rx_waiting (n_rxm (i8255x_init_rxb a s)) \<subset> rx_waiting (n_rxm s)"
    using assms by (auto simp: rx_waiting_def)
qed simp

text \<open>
  The loop over the ring from \<^verbatim>\<open>rx_buffer_ptr\<close>, which is \<open>start\<close>; the result is the buffer that
  it stops at.  It ends for any links, since each round empties a buffer.
\<close>

function rx_loop :: "u32 \<Rightarrow> u32 \<Rightarrow> 'h nic \<Rightarrow> (u32 \<times> 'h nic) option" where
  "rx_loop start a s =
     (let hdr = rx_header (n_rxm s a)
      in if ah_status hdr = 0 \<or> ah_link_addr hdr = start then Some (a, s)
         else case rx_deliver a s of
             None \<Rightarrow> None
           | Some s1 \<Rightarrow>
               if ah_command hdr AND ACTION_HDR_CMD_EL \<noteq> 0 then Some (ah_link_addr hdr, i8255x_init_rxb a s1)
               else rx_loop start (ah_link_addr hdr) (i8255x_init_rxb a s1))"
  by pat_completeness auto
termination
proof (relation "measure (\<lambda>(start, a, s). card (rx_waiting (n_rxm s)))", goal_cases)
  case (2 start a s hdr s1)
  then show ?case using init_rxb_waiting [of s1 a] rx_deliver_frame [of a s s1] by simp
qed simp

declare rx_loop.simps [simp del]

definition isr_swi :: "'h mmio \<Rightarrow> u32 \<Rightarrow> 'h nic \<Rightarrow> 'h nic" where
  "isr_swi M vector s =
     (case status_bit M INTEL_ETH_SCB_STATUS_SWI s of
        (b, s1) \<Rightarrow>
          if b then
            let s2 = nic_printf (nl ''INFO: _i8255x_driver_isr - SWI'') [] s1
            in if irq_vector s2 = -1 then s2\<lparr>irq_vector := vector\<rparr> else s2
          else s1)"

text \<open>A command unit that has finished, or is not active, has made its transition.\<close>

definition isr_cu :: "'h mmio \<Rightarrow> u16 \<Rightarrow> 'h nic \<Rightarrow> 'h nic" where
  "isr_cu M bits s = (case status_bit M bits s of (b, s1) \<Rightarrow> if b then s1\<lparr>cu_transition := True\<rparr> else s1)"

definition isr_fr :: "'h mmio \<Rightarrow> 'h nic \<Rightarrow> 'h nic option" where
  "isr_fr M s =
     (case status_bit M INTEL_ETH_SCB_STATUS_FR s of
        (b, s1) \<Rightarrow>
          if b then
            let s2 = nic_printf (nl ''INFO: _i8255x_driver_isr - FR'') [] s1;
                rx_buf = rx_buffer_ptr s2;
                s3 = (if ah_status (rx_header (n_rxm s2 rx_buf)) = 0
                      then nic_printf (nl ''INFO: _i8255x_driver_isr - FR Nothing to do'') [] s2 else s2)
            in map_option (\<lambda>(a, s4). s4\<lparr>rx_buffer_ptr := a\<rparr>) (rx_loop rx_buf rx_buf s3)
          else Some s1)"

definition isr_rnr :: "'h mmio \<Rightarrow> 'h nic \<Rightarrow> 'h nic option" where
  "isr_rnr M s =
     (case status_bit M INTEL_ETH_SCB_STATUS_RNR s of
        (b, s1) \<Rightarrow>
          if b then
            let s2 = (nic_printf (nl ''INFO: _i8255x_driver_isr - RNR'') [] s1)\<lparr>ru_transition := True\<rparr>;
                base = ah_link_addr (rx_header (n_rxm s2 (rx_buffer_base s2)))
            in i8255x_write_ru_cmd M SCB_CMD_RUC_START base (s2\<lparr>rx_buffer_base := base\<rparr>)
          else Some s1)"

definition isr_note :: "'h mmio \<Rightarrow> u16 \<Rightarrow> string \<Rightarrow> 'h nic \<Rightarrow> 'h nic" where
  "isr_note M bits msg s = (case status_bit M bits s of (b, s1) \<Rightarrow> if b then nic_printf (nl msg) [] s1 else s1)"

definition i8255x_driver_isr :: "'h mmio \<Rightarrow> u32 \<Rightarrow> 'h nic \<Rightarrow> 'h nic option" where
  "i8255x_driver_isr M vector s =
     (case read_csr M 0 s of
        (st, s0) \<Rightarrow>
          if st = 0 then
            Some ((nic_printf (nl ''ERROR: _i8255x_driver_isr - WRONG IRQ, expected %x got %x!'')
                    [Num (irq_vector s0), Num vector] s0)\<lparr>wrong_irq := True\<rparr>)
          else
            Option.bind (isr_fr M (isr_cu M INTEL_ETH_SCB_STATUS_CX (isr_swi M vector s0))) (\<lambda>s1.
            Option.bind (isr_rnr M (isr_cu M INTEL_ETH_SCB_STATUS_CNA s1)) (\<lambda>s2.
              Some (or_csr M 0 INTEL_ETH_SCB_STATUS_ACK_MASK
                (isr_note M INTEL_ETH_SCB_STATUS_FCP ''INFO: _i8255x_driver_isr - FCP''
                  (isr_note M INTEL_ETH_SCB_STATUS_MDI ''INFO: _i8255x_driver_isr - MDI'' s2))))))"

section \<open>Finding the interrupt\<close>

text \<open>
  \<open>delay\<close> is the effect of a millisecond in which the processor only waits: the interrupts
  that arrive, and the accesses of the device to memory.  \<open>isr\<close> is the address of
  \<^verbatim>\<open>i8255x_driver_isr\<close>.
\<close>

definition on_nic :: "('h nic \<Rightarrow> 'h nic) \<Rightarrow> 'h nic irqs \<Rightarrow> 'h nic irqs" where
  "on_nic f s = s\<lparr>ir_env := f (ir_env s)\<rparr>"

definition delay_ms :: "('s \<Rightarrow> 's) \<Rightarrow> nat \<Rightarrow> 's \<Rightarrow> 's" where
  "delay_ms delay n = delay ^^ n"

definition read_status :: "'h mmio \<Rightarrow> 'h nic irqs \<Rightarrow> u16 \<times> 'h nic irqs" where
  "read_status M s = (case read_csr M 0 (ir_env s) of (v, e) \<Rightarrow> (v, s\<lparr>ir_env := e\<rparr>))"

text \<open>The test of the routine: a software interrupt must be acknowledged in 10 milliseconds.\<close>

definition test_isr :: "'h mmio \<Rightarrow> ('h nic irqs \<Rightarrow> 'h nic irqs) \<Rightarrow> 'h nic irqs \<Rightarrow> bool \<times> 'h nic irqs" where
  "test_isr M delay s =
     (case read_status M (delay_ms delay 10 (on_nic (or_csr M 2 INTEL_ETH_SCB_CMD_TRIGGER_SI) (interrupt_enable True s))) of
        (v, s1) \<Rightarrow> (v = 0, s1))"

definition add_isr_or_panic :: "u32 \<Rightarrow> u32 \<Rightarrow> 'h nic irqs \<Rightarrow> 'h nic irqs outcome" where
  "add_isr_or_panic isr vector s =
     andThen (interrupt_add_isr isr vector s) (\<lambda>(st, s1). if st \<noteq> 0 then Inl (Panic ''CRITICAL'') else Inr s1)"

text \<open>One try; the result tells whether the routine returns with success.\<close>

definition irq_try ::
  "'h mmio \<Rightarrow> ('h nic irqs \<Rightarrow> 'h nic irqs) \<Rightarrow> u32 \<Rightarrow> nat \<Rightarrow> 'h nic irqs \<Rightarrow> (bool \<times> 'h nic irqs) outcome" where
  "irq_try M delay isr i s =
     (let s1 = on_nic (\<lambda>e. (nic_printf (nl ''INFO: i8255x_driver_setup_irq - Try %d'') [Num (of_nat i)] e)
                  \<lparr>irq_vector := -1, wrong_irq := False\<rparr>) s;
          s2 = interrupt_enable False s1;
          s3 = on_nic (\<lambda>e. or_csr M 2 INTEL_ETH_SCB_CMD_TRIGGER_SI
                  (nic_printf (nl ''DEBUG: i8255x_driver_setup_irq - Triggering interrupt'') []
                    (or_csr M 0 INTEL_ETH_SCB_STATUS_ACK_MASK e))) s2;
          (st, s4) = interrupt_wait delay 1000 isr s3
      in if st \<noteq> 0 then
           Inr (False, on_nic (nic_printf (nl ''ERROR: i8255x_driver_setup_irq - Wait was inconclusive'') []) s4)
         else
           (case read_status M s4 of
              (v, s5) \<Rightarrow>
                andThen (add_isr_or_panic isr (irq_vector (ir_env s5))
                          (on_nic (nic_printf (nl ''Initial Status:  0x%x'') [Num (ucast v)]) s5)) (\<lambda>s6.
                  case interrupt_wait_for_irq delay 1000 (ucast (irq_vector (ir_env s6))) (delay_ms delay 100 s6) of
                    (st, s7) \<Rightarrow>
                      if wrong_irq (ir_env s7) \<or> st \<noteq> E_TIMEOUT then
                        andThen (interrupt_del_isr isr (irq_vector (ir_env s7)) s7) (\<lambda>(st, s8).
                          if st \<noteq> 0 then Inl (Panic ''ERROR: i8255x_driver_setup_irq - Failed to remove ISR'')
                          else Inr (False, on_nic (nic_printf (nl ''Unexpected during wait'') []) s8))
                      else
                        (case test_isr M delay (on_nic (nic_printf (nl ''Made it HERE'') []) s7) of
                           (ok, s8) \<Rightarrow> Inr (ok, if ok then interrupt_enable False s8 else s8)))))"

fun irq_tries ::
  "'h mmio \<Rightarrow> ('h nic irqs \<Rightarrow> 'h nic irqs) \<Rightarrow> u32 \<Rightarrow> nat \<Rightarrow> nat \<Rightarrow> 'h nic irqs \<Rightarrow> (bool \<times> 'h nic irqs) outcome" where
  "irq_tries M delay isr i 0 s = Inr (False, s)"
| "irq_tries M delay isr i (Suc n) s =
     andThen (irq_try M delay isr i s) (\<lambda>(ok, s1).
       if ok then Inr (True, s1) else irq_tries M delay isr (i + 1) n s1)"

abbreviation (input) MAX_IRQ_FIND_TRIES :: nat where "MAX_IRQ_FIND_TRIES \<equiv> 3"

definition i8255x_driver_setup_irq ::
  "'h mmio \<Rightarrow> ('h nic irqs \<Rightarrow> 'h nic irqs) \<Rightarrow> u32 \<Rightarrow> 'h nic irqs \<Rightarrow> (status_t \<times> 'h nic irqs) outcome" where
  "i8255x_driver_setup_irq M delay isr s =
     andThen (irq_tries M delay isr 0 MAX_IRQ_FIND_TRIES s) (\<lambda>(ok, s1).
       if ok then Inr (E_SUCCESS, s1)
       else
         andThen (add_isr_or_panic isr I8255X_DEFAULT_IRQ (on_nic (irq_vector_update (\<lambda>_. I8255X_DEFAULT_IRQ)) s1)) (\<lambda>s2.
           case test_isr M delay s2 of
             (True, s3) \<Rightarrow>
               Inr (E_SUCCESS, interrupt_enable False
                 (on_nic (nic_printf (nl ''INFO: i8255x_driver_setup_irq -  Using default IRQ'') []) s3))
           | (False, s3) \<Rightarrow>
               andThen (interrupt_del_isr isr I8255X_DEFAULT_IRQ s3) (\<lambda>(_, s4).
                 Inr (E_TOO_MANY_TRIES, interrupt_enable False s4))))"

section \<open>Initialization\<close>

text \<open>The wait for the end of the dump command, half a second at a time: it says whether there is time left.\<close>

fun cu_wait :: "('h nic irqs \<Rightarrow> 'h nic irqs) \<Rightarrow> nat \<Rightarrow> 'h nic irqs \<Rightarrow> bool \<times> 'h nic irqs" where
  "cu_wait delay 0 s = (False, s)"
| "cu_wait delay (Suc n) s =
     (if cu_transition (ir_env s)
      then (True, on_nic (nic_printf ([CHR 0x0A] @ nl ''CU Transitioned'') []) s)
      else cu_wait delay n (delay_ms delay 500 s))"

text \<open>The dump command is a local variable at \<open>dump_at\<close>, its buffer 12 bytes behind.\<close>

definition dump_command :: "u32 \<Rightarrow> 'h nic \<Rightarrow> 'h nic" where
  "dump_command dump_at s =
     s\<lparr>n_dump := (n_dump s)\<lparr>dump_header := \<lparr>ah_status = 0,
          ah_command = CU_ACTION_DUMP OR ACTION_HDR_CMD_EL OR ACTION_HDR_CMD_I, ah_link_addr = 0\<rparr>,
        dump_offset := dump_at + 12\<rparr>\<rparr>"

definition lift_nic :: "('h nic \<Rightarrow> 'h nic option) \<Rightarrow> 'h nic irqs \<Rightarrow> 'h nic irqs outcome" where
  "lift_nic f s = (case f (ir_env s) of None \<Rightarrow> Inl Diverges | Some e \<Rightarrow> Inr (s\<lparr>ir_env := e\<rparr>))"

definition print_regs :: "'h mmio \<Rightarrow> 'h nic \<Rightarrow> 'h nic" where
  "print_regs M s =
     (case read_csr M 2 s of
        (c, s1) \<Rightarrow>
          (case read_csr M 0 (nic_printf (nl ''Command: 0x%x'') [Num (ucast c)] s1) of
             (v, s2) \<Rightarrow> nic_printf (nl ''Status:  0x%x'') [Num (ucast v)] s2))"

definition print_mac :: "'h nic \<Rightarrow> 'h nic" where
  "print_mac s =
     (let byte = (\<lambda>j. [Num (ucast (mac_byte (mac_addr s) j))])
      in nic_printf (nl ''%x'') (byte 5)
           (fold (\<lambda>j. nic_printf ''%x:'' (byte j)) [0..<5] (nic_printf ''MAC Address = '' [] s)))"

text \<open>What is made of the dump: the hardware address, or an error.\<close>

definition dump_result :: "bool \<Rightarrow> 'h nic irqs \<Rightarrow> status_t \<times> 'h nic irqs" where
  "dump_result in_time s =
     (let st = ah_status (dump_header (n_dump (ir_env s)))
      in if in_time then
           if st AND ACTION_HDR_STATUS_C \<noteq> 0 then
             let s1 = on_nic (nic_printf ([CHR 0x0A] @ nl ''Command completed'') []) s
             in if st AND ACTION_HDR_STATUS_OK \<noteq> 0 then
                  (E_SUCCESS, on_nic (\<lambda>e. e\<lparr>mac_addr := get48 (dump_buffer (n_dump e)) 39\<rparr>) s1)
                else (E_ERROR, interrupt_enable False (on_nic (nic_printf (nl ''ERROR: Failed to dump data!'') []) s1))
           else (E_ERROR, interrupt_enable False
                  (on_nic (nic_printf (nl ''ERROR: Dump command failed to complete!'') []) s))
         else (E_TIMEOUT, interrupt_enable False
                (on_nic (nic_printf (nl ''ERROR: Waited too long for command to complete!'') []) s)))"

text \<open>The rest, once the address is known: the buffers, and the start of the reception.\<close>

definition start_reception ::
  "'h mmio \<Rightarrow> ('h nic irqs \<Rightarrow> 'h nic irqs) \<Rightarrow> ('h nic irqs \<Rightarrow> 'h nic irqs) \<Rightarrow> 'h nic irqs \<Rightarrow> (status_t \<times> 'h nic irqs) outcome" where
  "start_reception M delay pause s =
     (let s1 = on_nic (print_regs M) (i8255x_setup_rfa s);
          s2 = on_nic (\<lambda>e. nic_printf (nl ''Receiving frames now... '') [] (print_mac e)) (delay_ms delay 150 s1)
      in case kalloc_aligned (sizeof_tx_buffer + of_nat (ETH_DATA_LEN + ETH_HLEN)) Align_DWord (pause s2) of
           (a, s3) \<Rightarrow>
             andThen (lift_nic (\<lambda>e. i8255x_write_ru_cmd M SCB_CMD_RUC_START (rx_buffer_base e) e)
                        (on_nic (tx_buffer_base_update (\<lambda>_. a)) s3)) (\<lambda>s4.
               Inr (E_SUCCESS, interrupt_enable False s4)))"

definition bring_up ::
  "'h mmio \<Rightarrow> ('h nic irqs \<Rightarrow> 'h nic irqs) \<Rightarrow> ('h nic irqs \<Rightarrow> 'h nic irqs) \<Rightarrow> u32 \<Rightarrow> u32 \<Rightarrow> 'h nic irqs \<Rightarrow>
   (status_t \<times> 'h nic irqs) outcome" where
  "bring_up M delay pause isr dump_at s =
     andThen (i8255x_driver_setup_irq M delay isr s) (\<lambda>(st, s1).
       if st \<noteq> 0 then
         Inr (E_NOT_FOUND, on_nic (nic_printf (nl ''ERROR: i8255x_driver_init - Failed to auto determine IRQ'') []) s1)
       else
         let s2 = on_nic (\<lambda>e. print_regs M (nic_printf (nl ''IRQ: 0x%x'') [Num (irq_vector e)] e)) s1;
             s3 = interrupt_enable True s2
         in andThen (lift_nic (i8255x_write_cu_cmd M SCB_CMD_CUC_LD_CU_BASE 0) s3) (\<lambda>s4.
            andThen (lift_nic (i8255x_write_ru_cmd M SCB_CMD_RUC_LD_RU_BASE 0) s4) (\<lambda>s5.
            andThen (lift_nic (i8255x_write_cu_cmd M SCB_CMD_CUC_START dump_at) (on_nic (dump_command dump_at) s5)) (\<lambda>s6.
              case cu_wait delay 30 s6 of
                (in_time, s7) \<Rightarrow>
                  (case dump_result in_time s7 of
                     (st, s8) \<Rightarrow> if st \<noteq> 0 then Inr (st, s8) else start_reception M delay pause s8)))))"

text \<open>\<^verbatim>\<open>_i8255x_driver_init\<close> on the list of PCI devices at \<open>list\<close>.\<close>

definition i8255x_driver_init ::
  "'p long_ports \<Rightarrow> 'h mmio \<Rightarrow> ('h nic irqs \<Rightarrow> 'h nic irqs) \<Rightarrow> ('h nic irqs \<Rightarrow> 'h nic irqs) \<Rightarrow> u32 \<Rightarrow> u32 \<Rightarrow> u32 \<Rightarrow>
   'p pci \<Rightarrow> 'h nic irqs \<Rightarrow> (status_t \<times> 'p pci \<times> 'h nic irqs) outcome" where
  "i8255x_driver_init P M delay pause isr dump_at list p s =
     (case pci_get_device list (Some (n_pci (ir_env s))) 0x8086 0x1229 p of
        None \<Rightarrow> Inl Diverges
      | Some (st, dev) \<Rightarrow>
          let d = the dev; s1 = on_nic (n_pci_update (\<lambda>_. d)) s
          in if st = E_BAD_PARAM then
               Inr (st, p, on_nic (nic_printf (nl ''ERROR: i8255x_driver_init failed with E_BAD_PARAM!'') []) s1)
             else if st = E_NOT_FOUND then
               Inr (st, p, on_nic (nic_printf (nl ''ERROR: i8255x_driver_init failed with E_NOT_FOUND!'') []) s1)
             else if d = 0 then
               Inr (E_NOT_FOUND, p, on_nic (nic_printf (nl ''ERROR: i8255x_driver_init got a null device pointer!'') []) s1)
             else
               andThen (pci_base_addr (type0_bar (pd_config (pci_devs p d)) 0)) (\<lambda>bar.
               andThen (pci_print_config P d p) (\<lambda>p1.
               andThen (bring_up M delay pause isr dump_at (on_nic (csr_bar_update (\<lambda>_. bar)) s1)) (\<lambda>(st, s2).
                 Inr (st, p1, s2)))))"

end
