(* ===== verification/Net_Lemmas.thy ===== *)
theory Net_Lemmas
  imports Nic
begin

text \<open>
  Lemmas on the network: the search for a free message, what a frame does to the table of
  messages, the layout of a frame, and the ring of receive buffers as a list.
\<close>

section \<open>The table of messages\<close>

text \<open>The table has its size, and the index that the search starts from is never moved.\<close>

definition knet_ok :: "knet \<Rightarrow> bool" where
  "knet_ok s \<longleftrightarrow> length (kn_messages s) = NUM_MESSAGES \<and> next_message_idx s = 0"

text \<open>The first \<open>n\<close> messages are taken, the others free.\<close>

definition taken :: "nat \<Rightarrow> knet \<Rightarrow> bool" where
  "taken n s \<longleftrightarrow> knet_ok s \<and> (\<forall>i < NUM_MESSAGES. mt_avail (kn_messages s ! i) \<longleftrightarrow> n \<le> i)"

lemma avail_scan_step:
  "k < 20 \<Longrightarrow> \<not> mt_avail (ms ! k) \<Longrightarrow> avail_scan ms 0 k = avail_scan ms 0 (Suc k)"
  by (subst avail_scan.simps) (simp add: Let_def)

lemma avail_scan_hit:
  "k < 20 \<Longrightarrow> mt_avail (ms ! k) \<Longrightarrow> avail_scan ms 0 k = Some (Some k)"
  by (subst avail_scan.simps) (simp add: Let_def)

lemma avail_scan_first:
  assumes "i < 20" and "mt_avail (ms ! i)" and "\<And>j. j < i \<Longrightarrow> \<not> mt_avail (ms ! j)" and "k \<le> i"
  shows "avail_scan ms 0 k = Some (Some i)"
  using assms(4)
proof (induction k rule: inc_induct)
  case base
  then show ?case using assms(1,2) by (rule avail_scan_hit)
next
  case (step k)
  then show ?case using assms(1,3) avail_scan_step [of k ms] by simp
qed

text \<open>With every message taken the search goes round for ever.\<close>

lemma avail_scan_full:
  assumes "\<And>i. i < 20 \<Longrightarrow> \<not> mt_avail (ms ! i)"
  shows "avail_scan ms 0 k = None"
proof -
  have "ms' = ms \<and> start = 0 \<longrightarrow> False" if "avail_scan ms' start idx = Some y" for ms' start idx y
    using that
    by (rule avail_scan.raw_induct [of "\<lambda>ms' start idx r. ms' = ms \<and> start = 0 \<longrightarrow> False", rotated])
      (use assms in \<open>auto simp: Let_def split: if_splits\<close>)
  then show ?thesis by (cases "avail_scan ms 0 k") auto
qed

lemma get_avail_msg_taken:
  assumes "taken n s" and "n < 20"
  shows "knet_get_avail_msg s =
    Some (Some n, s\<lparr>kn_messages := (kn_messages s)[n := (kn_messages s ! n)\<lparr>mt_avail := False\<rparr>]\<rparr>)"
proof -
  have "avail_scan (kn_messages s) 0 0 = Some (Some n)"
    using assms by (intro avail_scan_first) (auto simp: taken_def)
  then show ?thesis using assms(1) by (simp add: knet_get_avail_msg_def taken_def knet_ok_def)
qed

lemma get_avail_msg_full: "taken 20 s \<Longrightarrow> knet_get_avail_msg s = None"
  using avail_scan_full [of "kn_messages s" 0] by (simp add: knet_get_avail_msg_def taken_def knet_ok_def)

section \<open>What a frame does\<close>

lemma net_printf_simps [simp]:
  "kn_messages (net_printf f a s) = kn_messages s"
  "next_message_idx (net_printf f a s) = next_message_idx s"
  "kn_local_mac (net_printf f a s) = kn_local_mac s"
  by (simp_all add: net_printf_def)

lemma taken_printf [simp]: "taken n (net_printf f a s) = taken n s"
  by (simp add: taken_def knet_ok_def)

definition same_table :: "knet \<Rightarrow> knet \<Rightarrow> bool" where
  "same_table s s' \<longleftrightarrow>
     kn_messages s' = kn_messages s \<and> next_message_idx s' = next_message_idx s \<and> kn_local_mac s' = kn_local_mac s"

lemma same_table_refl [simp]: "same_table s s"
  by (simp add: same_table_def)

lemma same_table_printf [simp]: "same_table s (net_printf f a s') = same_table s s'"
  by (simp add: same_table_def)

lemma same_table_fold [simp]: "same_table s (fold (\<lambda>i. net_printf f (a i)) xs s') = same_table s s'"
  by (induction xs arbitrary: s') simp_all

lemma same_table_sender [simp]: "same_table s (print_sender mac s') = same_table s s'"
  by (simp add: print_sender_def split: option.split)

lemma print_sender_simps [simp]:
  "kn_messages (print_sender mac s) = kn_messages s"
  "next_message_idx (print_sender mac s) = next_message_idx s"
  "kn_local_mac (print_sender mac s) = kn_local_mac s"
  using same_table_sender [of s mac s] by (simp_all add: same_table_def del: same_table_sender)

lemma taken_same: "same_table s s' \<Longrightarrow> taken n s' = taken n s"
  by (simp add: same_table_def taken_def knet_ok_def)

text \<open>The frame carries a message for the host \<open>mac\<close>.\<close>

definition carries :: "mac_address_t \<Rightarrow> bytes \<Rightarrow> bool" where
  "carries mac f \<longleftrightarrow>
     eth_proto f = PROTO_CTP \<and> ctp_type (eth_data f) = CTP_IPC \<and>
     MESSAGE_HDR_LEN \<le> unat (ctp_length (eth_data f)) \<and> pid_host (msg_dest (\<lambda>i. f (28 + i))) = mac"

text \<open>The message behind the headers of a frame.\<close>

abbreviation frame_message :: "bytes \<Rightarrow> bytes" where
  "frame_message f \<equiv> (\<lambda>i. f (28 + i))"

lemma eth_data_message [simp]: "(\<lambda>i. eth_data f (14 + i)) = frame_message f"
  by (simp add: eth_data_def fun_eq_iff)

text \<open>The table after message \<open>i\<close> has been stored.\<close>

definition store_message :: "nat \<Rightarrow> bytes \<Rightarrow> knet \<Rightarrow> message_table_t list" where
  "store_message i m s =
     (kn_messages s)[i := (kn_messages s ! i)\<lparr>mt_avail := False,
       mt_mesg := blit 0 1050 m (mt_mesg (kn_messages s ! i))\<rparr>]"

lemma deliver_mine:
  assumes "taken n s" and "n < 20" and "pid_host (msg_dest m) = kn_local_mac s"
  obtains s' where "knet_deliver m s = Some s'" and "kn_messages s' = store_message n m s"
    and "next_message_idx s' = next_message_idx s" and "kn_local_mac s' = kn_local_mac s"
proof -
  have l: "n < length (kn_messages s)" using assms(1,2) by (simp add: taken_def knet_ok_def)
  have "taken n (net_printf (nl ''DEBUG: knet - MINE'') [] s)" using assms(1) by simp
  from get_avail_msg_taken [OF this assms(2)] show ?thesis
    using that assms(3) l by (simp add: knet_deliver_def memcmp_zero store_message_def)
qed

lemma deliver_full:
  assumes "taken 20 s" and "pid_host (msg_dest m) = kn_local_mac s"
  shows "knet_deliver m s = None"
  using assms by (simp add: knet_deliver_def memcmp_zero get_avail_msg_full)

lemma deliver_other:
  assumes "pid_host (msg_dest m) \<noteq> kn_local_mac s"
  obtains s' where "knet_deliver m s = Some s'" and "same_table s s'"
proof -
  have "u_memcmp (mac_byte (pid_host (msg_dest m))) (mac_byte (kn_local_mac s)) 6 \<noteq> 0"
    using assms mac_bytes_eq [of "pid_host (msg_dest m)" "kn_local_mac s"] by (simp add: memcmp_zero)
  then have "knet_deliver m s = Some (net_printf (nl ''DEBUG: knet - NOT MINE'') [] s)"
    by (simp add: knet_deliver_def)
  then show ?thesis using that by simp
qed

text \<open>The state in which a message is delivered: the same table, with its arrival printed.\<close>

definition announced :: "bytes \<Rightarrow> knet \<Rightarrow> knet" where
  "announced f s =
     (case hosts_get_hostname (pid_host (msg_sender (frame_message f))) of
        Some name \<Rightarrow> net_printf (nl ''DEBUG: knet - Got CTP packet from host: %s'') [Str (Some name)] s
      | None \<Rightarrow> net_printf (nl ''DEBUG: knet - Received CTP packet'') [] s)"

lemma same_table_announced [simp]: "same_table s (announced f s') = same_table s s'"
  by (simp add: announced_def split: option.split)

lemma announced_simps [simp]:
  "kn_messages (announced f s) = kn_messages s"
  "next_message_idx (announced f s) = next_message_idx s"
  "kn_local_mac (announced f s) = kn_local_mac s"
  using same_table_announced [of s f s] by (simp_all add: same_table_def del: same_table_announced)

abbreviation is_message :: "bytes \<Rightarrow> bool" where
  "is_message f \<equiv> eth_proto f = PROTO_CTP \<and> ctp_type (eth_data f) = CTP_IPC \<and> 26 \<le> unat (ctp_length (eth_data f))"

lemma process_frame_eq:
  "knet_process_frame f s =
     map_option (\<lambda>s1. (E_SUCCESS, print_sender (eth_source f) s1))
       (if is_message f then knet_deliver (frame_message f) (announced f s) else Some s)"
  unfolding knet_process_frame_def Let_def announced_def eth_data_message by (rule refl)

text \<open>A frame that carries nothing for this host leaves the table alone.\<close>

lemma process_frame_ignored:
  assumes "\<not> carries (kn_local_mac s) f"
  obtains s' where "knet_process_frame f s = Some (E_SUCCESS, s')" and "same_table s s'"
proof (cases "is_message f")
  case False
  then have "knet_process_frame f s = Some (E_SUCCESS, print_sender (eth_source f) s)"
    unfolding process_frame_eq by (simp only: if_False) simp
  then show ?thesis using that by simp
next
  case True
  have "pid_host (msg_dest (frame_message f)) \<noteq> kn_local_mac (announced f s)"
    using assms True by (simp add: carries_def)
  then obtain s2 where s2: "knet_deliver (frame_message f) (announced f s) = Some s2" "same_table (announced f s) s2"
    by (rule deliver_other)
  then have "knet_process_frame f s = Some (E_SUCCESS, print_sender (eth_source f) s2)"
    using True by (simp add: process_frame_eq)
  moreover have "same_table s (print_sender (eth_source f) s2)"
    using s2(2) by (simp add: same_table_def)
  ultimately show ?thesis using that by simp
qed

text \<open>One that carries a message for this host stores it in the first free place, or never returns.\<close>

lemma process_frame_stored:
  assumes "carries (kn_local_mac s) f" and "taken n s" and "n < 20"
  obtains s' where "knet_process_frame f s = Some (E_SUCCESS, s')"
    and "kn_messages s' = store_message n (frame_message f) s" and "taken (Suc n) s'"
    and "kn_local_mac s' = kn_local_mac s"
proof -
  let ?a = "announced f s"
  have a: "same_table s ?a" by simp
  have "taken n ?a" "pid_host (msg_dest (frame_message f)) = kn_local_mac ?a"
    using assms taken_same [OF a] a by (simp_all add: carries_def same_table_def)
  then obtain s2 where s2: "knet_deliver (frame_message f) ?a = Some s2"
      "kn_messages s2 = store_message n (frame_message f) ?a" "next_message_idx s2 = next_message_idx ?a"
      "kn_local_mac s2 = kn_local_mac ?a"
    using deliver_mine assms(3) by metis
  let ?s = "print_sender (eth_source f) s2"
  have m: "kn_messages ?s = store_message n (frame_message f) s"
    using s2(2) by (simp add: store_message_def)
  moreover have "taken (Suc n) ?s"
  proof -
    have "length (kn_messages s) = 20" using assms(2) by (simp add: taken_def knet_ok_def)
    then have "mt_avail (kn_messages ?s ! i) \<longleftrightarrow> Suc n \<le> i" if "i < 20" for i
      using assms(2,3) that unfolding m store_message_def taken_def by (cases "i = n") auto
    then show ?thesis
      using assms(2) s2(3) arg_cong [OF m, of length]
      by (simp add: taken_def knet_ok_def store_message_def)
  qed
  moreover have "knet_process_frame f s = Some (E_SUCCESS, ?s)"
    using s2(1) assms(1) by (simp add: process_frame_eq carries_def)
  ultimately show ?thesis using that [of ?s] s2(4) by simp
qed

lemma process_frame_hangs:
  assumes "carries (kn_local_mac s) f" and "taken 20 s"
  shows "knet_process_frame f s = None"
proof -
  have a: "same_table s (announced f s)" by simp
  have "taken 20 (announced f s)" "pid_host (msg_dest (frame_message f)) = kn_local_mac (announced f s)"
    using assms taken_same [OF a] a by (simp_all add: carries_def same_table_def)
  then have "knet_deliver (frame_message f) (announced f s) = None" by (rule deliver_full)
  then show ?thesis using assms(1) by (simp add: process_frame_eq carries_def)
qed

section \<open>The layout of a frame\<close>

lemma get16_cong: "(\<And>i. i < 2 \<Longrightarrow> b (a + i) = b' (a' + i)) \<Longrightarrow> get16 b a = get16 b' a'"
proof -
  assume *: "\<And>i. i < 2 \<Longrightarrow> b (a + i) = b' (a' + i)"
  show ?thesis using * [of 0] * [of 1] by (simp add: get16_def)
qed

lemma get48_cong: "(\<And>i. i < 6 \<Longrightarrow> b (a + i) = b' (a' + i)) \<Longrightarrow> get48 b a = get48 b' a'"
proof -
  assume *: "\<And>i. i < 6 \<Longrightarrow> b (a + i) = b' (a' + i)"
  have "get32 b a = get32 b' a'" by (rule get32_cong) (simp add: *)
  moreover have "get16 b (a + 4) = get16 b' (a' + 4)"
    by (rule get16_cong) (use * in \<open>simp add: add.assoc\<close>)
  ultimately show ?thesis by (simp add: get48_def)
qed

lemma get_pid_cong: "(\<And>i. i < 12 \<Longrightarrow> b (a + i) = b' (a' + i)) \<Longrightarrow> get_pid b a = get_pid b' a'"
proof -
  assume *: "\<And>i. i < 12 \<Longrightarrow> b (a + i) = b' (a' + i)"
  have "get32 b a = get32 b' a'" by (rule get32_cong) (simp add: *)
  moreover have "get48 b (a + 4) = get48 b' (a' + 4)"
    by (rule get48_cong) (use * in \<open>simp add: add.assoc\<close>)
  moreover have "get16 b (a + 10) = get16 b' (a' + 10)"
    by (rule get16_cong) (use * in \<open>simp add: add.assoc\<close>)
  ultimately show ?thesis by (simp add: get_pid_def)
qed

lemma get16_put16 [simp]: "get16 (put16 a v b) a = v"
  unfolding get16_def put16_def
  by (rule bit_word_eqI, rename_tac n, case_tac "n < 8") (auto simp: bit_simps)

lemma put16_other: "x < a \<or> a + 2 \<le> x \<Longrightarrow> put16 a v b x = b x"
  by (auto simp: put16_def)

lemma put48_other: "x < a \<or> a + 6 \<le> x \<Longrightarrow> put48 a v b x = b x"
  by (auto simp: put48_def put16_other put32_other)

lemma get48_put48 [simp]: "get48 (put48 a v b) a = v"
proof -
  have "get32 (put48 a v b) a = get32 (put32 a (ucast v) b) a"
    by (rule get32_cong) (simp add: put48_def put16_other)
  moreover have "get16 (put48 a v b) (a + 4) = ucast (drop_bit 32 v)" by (simp add: put48_def)
  ultimately show ?thesis
    unfolding get48_def by (simp, intro bit_word_eqI) (auto simp: bit_simps)
qed

lemma message_frame_fields:
  "eth_dest (message_frame mac msg junk) = pid_host (msg_dest msg)"
  "eth_source (message_frame mac msg junk) = mac"
  "eth_proto (message_frame mac msg junk) = PROTO_CTP"
  "ctp_type (eth_data (message_frame mac msg junk)) = CTP_IPC"
  "ctp_length (eth_data (message_frame mac msg junk)) = get16 junk 14"
  "i < 1050 \<Longrightarrow> frame_message (message_frame mac msg junk) i = msg i"
proof -
  let ?f = "message_frame mac msg junk"
  have "get48 ?f 0 = get48 (put48 0 (pid_host (msg_dest msg)) (put48 6 mac junk)) 0"
    by (rule get48_cong) (simp add: message_frame_def blit_def put32_other put16_other)
  then show "eth_dest ?f = pid_host (msg_dest msg)" by (simp add: eth_dest_def)
  have "get48 ?f 6 = get48 (put48 6 mac junk) 6"
    by (rule get48_cong) (simp add: message_frame_def blit_def put32_other put16_other put48_other)
  then show "eth_source ?f = mac" by (simp add: eth_source_def)
  have "get16 ?f 12 = get16 (put16 12 PROTO_CTP (\<lambda>_. 0)) 12"
    by (rule get16_cong) (simp add: message_frame_def blit_def put32_other put16_def)
  then show "eth_proto ?f = PROTO_CTP" by (simp add: eth_proto_def)
  have "get32 (eth_data ?f) 2 = get32 (put32 16 CTP_IPC (\<lambda>_. 0)) 16"
    by (rule get32_cong) (simp add: message_frame_def eth_data_def blit_def put32_def)
  then show "ctp_type (eth_data ?f) = CTP_IPC" by (simp add: ctp_type_def)
  have "get16 (eth_data ?f) 0 = get16 junk 14"
    by (rule get16_cong) (simp add: message_frame_def eth_data_def blit_def put32_other put16_other put48_other)
  then show "ctp_length (eth_data ?f) = get16 junk 14" by (simp add: ctp_length_def)
  show "frame_message ?f i = msg i" if "i < 1050" using that by (simp add: message_frame_def)
qed

lemma message_frame_dest: "msg_dest (frame_message (message_frame mac msg junk)) = msg_dest msg"
  unfolding msg_dest_def
proof (rule get_pid_cong)
  fix i :: nat
  assume "i < 12"
  then show "frame_message (message_frame mac msg junk) (12 + i) = msg (12 + i)"
    by (intro message_frame_fields(6)) simp
qed

lemma carries_message_frame:
  "carries mac' (message_frame mac msg junk) \<longleftrightarrow>
     26 \<le> unat (get16 junk 14) \<and> pid_host (msg_dest msg) = mac'"
  by (simp add: carries_def message_frame_fields message_frame_dest)

section \<open>The ring of receive buffers\<close>

text \<open>
  The buffers \<open>ps\<close>, each linked to the next and the last to the first.  \<open>rx_take\<close> gives those that
  one interrupt delivers: from the first up to an empty one, up to and with one at which the
  receive unit stops, and never the last.
\<close>

definition rx_link :: "(u32 \<Rightarrow> intel_rx_buffer_t) \<Rightarrow> u32 \<Rightarrow> u32" where
  "rx_link R a = ah_link_addr (rx_header (R a))"

definition rx_ring :: "(u32 \<Rightarrow> intel_rx_buffer_t) \<Rightarrow> u32 list \<Rightarrow> bool" where
  "rx_ring R ps \<longleftrightarrow> ps \<noteq> [] \<and> distinct ps \<and> map (rx_link R) ps = rotate1 ps"

fun rx_take :: "(u32 \<Rightarrow> intel_rx_buffer_t) \<Rightarrow> u32 list \<Rightarrow> u32 list" where
  "rx_take R (a # b # ps) =
     (if ah_status (rx_header (R a)) = 0 then []
      else if ah_command (rx_header (R a)) AND ACTION_HDR_CMD_EL \<noteq> 0 then [a]
      else a # rx_take R (b # ps))"
| "rx_take R ps = []"

lemma rx_take_prefix: "\<exists>ys. ps = rx_take R ps @ ys \<and> (ps \<noteq> [] \<longrightarrow> ys \<noteq> [])"
  by (induction R ps rule: rx_take.induct) (auto split: if_splits)

text \<open>The frames of the buffers, one after the other, to the network subsystem.\<close>

definition rx_deliver_all :: "u32 list \<Rightarrow> 'h nic \<Rightarrow> 'h nic option" where
  "rx_deliver_all as s =
     fold (\<lambda>a r. Option.bind r (\<lambda>s. map_option (i8255x_init_rxb a) (rx_deliver a s))) as (Some s)"

lemma fold_bind_None [simp]: "fold (\<lambda>a r. Option.bind r (f a)) as None = None"
  by (induction as) simp_all

lemma rx_deliver_all_Nil [simp]: "rx_deliver_all [] s = Some s"
  by (simp add: rx_deliver_all_def)

lemma rx_deliver_all_Cons:
  "rx_deliver_all (a # as) s =
     (case rx_deliver a s of None \<Rightarrow> None | Some s1 \<Rightarrow> rx_deliver_all as (i8255x_init_rxb a s1))"
  by (simp add: rx_deliver_all_def split: option.split)

lemma init_rxb_other: "b \<noteq> a \<Longrightarrow> n_rxm (i8255x_init_rxb a s) b = n_rxm s b"
  by (simp add: i8255x_init_rxb_def set_rx_def Let_def)

lemma rx_take_cong:
  "(\<And>a. a \<in> set ps \<Longrightarrow> R' a = R a) \<Longrightarrow> rx_take R' ps = rx_take R ps"
  by (induction R ps rule: rx_take.induct) auto

text \<open>
  The loop on the segment \<open>a # ps\<close> of a ring whose last buffer is linked to \<open>start\<close>: it delivers
  what \<open>rx_take\<close> says and stops at the buffer behind.
\<close>

lemma rx_loop_segment:
  "map (rx_link (n_rxm s)) (a # ps) = ps @ [start] \<Longrightarrow> distinct (a # ps) \<Longrightarrow> start \<notin> set ps \<Longrightarrow>
   rx_loop start a s =
     map_option (\<lambda>s'. ((a # ps) ! length (rx_take (n_rxm s) (a # ps)), s'))
       (rx_deliver_all (rx_take (n_rxm s) (a # ps)) s)"
proof (induction ps arbitrary: a s)
  case Nil
  then show ?case by (subst rx_loop.simps) (simp add: rx_link_def)
next
  case (Cons b ps)
  let ?h = "rx_header (n_rxm s a)"
  have l: "ah_link_addr ?h = b" "b \<noteq> start" using Cons.prems by (auto simp: rx_link_def)
  show ?case
  proof (cases "ah_status ?h = 0 \<or> ah_command ?h AND ACTION_HDR_CMD_EL \<noteq> 0")
    case True
    then show ?thesis
      by (subst rx_loop.simps) (auto simp: l rx_deliver_all_Cons split: option.split)
  next
    case False
    show ?thesis
    proof (cases "rx_deliver a s")
      case None
      then show ?thesis using False by (subst rx_loop.simps) (simp add: l rx_deliver_all_Cons)
    next
      case (Some s1)
      let ?s = "i8255x_init_rxb a s1"
      have r: "n_rxm ?s c = n_rxm s c" if "c \<in> set (b # ps)" for c
      proof -
        have "c \<noteq> a" using that Cons.prems(2) by auto
        then show ?thesis by (simp add: init_rxb_other rx_deliver_frame [OF Some])
      qed
      have t: "rx_take (n_rxm ?s) (b # ps) = rx_take (n_rxm s) (b # ps)" by (rule rx_take_cong) (rule r)
      have "map (rx_link (n_rxm ?s)) (b # ps) = map (rx_link (n_rxm s)) (b # ps)"
        by (rule map_cong [OF refl]) (simp only: rx_link_def r)
      then have "rx_loop start b ?s =
          map_option (\<lambda>s'. ((b # ps) ! length (rx_take (n_rxm s) (b # ps)), s'))
            (rx_deliver_all (rx_take (n_rxm s) (b # ps)) ?s)"
      proof -
        have "map (rx_link (n_rxm ?s)) (b # ps) = ps @ [start]"
          using \<open>map (rx_link (n_rxm ?s)) (b # ps) = _\<close> Cons.prems(1) by (simp only: list.map append_Cons list.inject)
        moreover have "distinct (b # ps)" "start \<notin> set ps" using Cons.prems(2,3) by simp_all
        ultimately show ?thesis using Cons.IH [of ?s b] unfolding t by blast
      qed
      then show ?thesis
        using False Some by (subst rx_loop.simps) (simp add: l rx_deliver_all_Cons)
    qed
  qed
qed

lemma rx_ring_Cons: "rx_ring R (p # ps) \<longleftrightarrow> distinct (p # ps) \<and> map (rx_link R) (p # ps) = ps @ [p]"
  by (auto simp: rx_ring_def)

lemma rx_loop_ring:
  assumes "rx_ring (n_rxm s) (p # ps)"
  shows "rx_loop p p s =
    map_option (\<lambda>s'. ((p # ps) ! length (rx_take (n_rxm s) (p # ps)), s'))
      (rx_deliver_all (rx_take (n_rxm s) (p # ps)) s)"
  using assms by (intro rx_loop_segment) (auto simp: rx_ring_Cons)

text \<open>What remains of the buffers delivered: empty, with the receive unit to stop there.\<close>

definition rx_recycled :: "intel_rx_buffer_t \<Rightarrow> intel_rx_buffer_t" where
  "rx_recycled b = b\<lparr>rx_header := (rx_header b)\<lparr>ah_status := 0,
     ah_command := ACTION_HDR_CMD_EL OR ACTION_HDR_CMD_S\<rparr>, rx_size := 1500\<rparr>"

lemma init_rxb_rxm: "n_rxm (i8255x_init_rxb a s) = (n_rxm s)(a := rx_recycled (n_rxm s a))"
  by (simp add: i8255x_init_rxb_def set_rx_def rx_recycled_def Let_def)

lemma rx_deliver_all_rxm:
  "rx_deliver_all as s = Some s' \<Longrightarrow> distinct as \<Longrightarrow>
   n_rxm s' = (\<lambda>a. if a \<in> set as then rx_recycled (n_rxm s a) else n_rxm s a)"
proof (induction as arbitrary: s)
  case (Cons a as)
  obtain s1 where s1: "rx_deliver a s = Some s1" "rx_deliver_all as (i8255x_init_rxb a s1) = Some s'"
    using Cons.prems(1) by (auto simp: rx_deliver_all_Cons split: option.splits)
  have "n_rxm s' = (\<lambda>b. if b \<in> set as then rx_recycled (n_rxm (i8255x_init_rxb a s1) b) else n_rxm (i8255x_init_rxb a s1) b)"
    using Cons.IH [OF s1(2)] Cons.prems(2) by simp
  then show ?case
    using Cons.prems(2) rx_deliver_frame [OF s1(1)] by (auto simp: init_rxb_rxm fun_eq_iff)
qed simp

lemma rx_link_recycled [simp]: "rx_link (\<lambda>a. if P a then rx_recycled (R a) else R a) = rx_link R"
  by (auto simp: rx_link_def rx_recycled_def)

section \<open>What an interrupt does to the table\<close>

text \<open>
  The messages \<open>ms\<close> have come behind the first \<open>n\<close>, which are as they were.
\<close>

definition came :: "nat \<Rightarrow> bytes list \<Rightarrow> knet \<Rightarrow> knet \<Rightarrow> bool" where
  "came n ms s s' \<longleftrightarrow>
     taken (n + length ms) s' \<and> kn_local_mac s' = kn_local_mac s \<and>
     (\<forall>j < n. kn_messages s' ! j = kn_messages s ! j) \<and>
     (\<forall>j < length ms. \<forall>i < 1050. mt_mesg (kn_messages s' ! (n + j)) i = (ms ! j) i)"

lemma came_same:
  "same_table s1 s1' \<Longrightarrow> same_table s2 s2' \<Longrightarrow> came n ms s1' s2' = came n ms s1 s2"
  by (simp add: came_def taken_same) (simp add: same_table_def)

lemma came_Nil: "taken n s \<Longrightarrow> same_table s s' \<Longrightarrow> came n [] s s'"
  by (simp add: came_def taken_same) (simp add: same_table_def)

lemma came_one:
  assumes "taken n s" and "n < 20" and "kn_messages s' = store_message n m s" and "taken (Suc n) s'"
    and "kn_local_mac s' = kn_local_mac s"
  shows "came n [m] s s'"
proof -
  have "length (kn_messages s) = 20" using assms(1) by (simp add: taken_def knet_ok_def)
  then show ?thesis using assms by (simp add: came_def store_message_def blit_def)
qed

lemma came_append:
  assumes "came n ms s s'" and "came (n + length ms) ms' s' s''"
  shows "came n (ms @ ms') s s''"
proof -
  have "mt_mesg (kn_messages s'' ! (n + j)) i = ((ms @ ms') ! j) i"
    if "j < length (ms @ ms')" "i < 1050" for j i
  proof (cases "j < length ms")
    case True
    then show ?thesis using assms that by (simp add: came_def nth_append)
  next
    case False
    then have "j - length ms < length ms'" "n + j = n + length ms + (j - length ms)" using that by auto
    then show ?thesis using assms(2) that False by (simp only: came_def nth_append) simp
  qed
  then show ?thesis using assms by (simp add: came_def add.assoc)
qed

lemma process_frame_came:
  assumes "taken n s" and "carries (kn_local_mac s) f \<Longrightarrow> n < 20"
  obtains s' where "knet_process_frame f s = Some (E_SUCCESS, s')"
    and "came n (map frame_message (filter (carries (kn_local_mac s)) [f])) s s'"
proof (cases "carries (kn_local_mac s) f")
  case True
  show ?thesis
    by (rule process_frame_stored [OF True assms(1) assms(2) [OF True]])
      (use True that came_one [OF assms(1) assms(2) [OF True]] in simp)
next
  case False
  show ?thesis by (rule process_frame_ignored [OF False]) (use False that came_Nil [OF assms(1)] in simp)
qed

lemma same_table_note [simp]: "same_table k (n_knet (rx_note f s)) = same_table k (n_knet s)"
  by (simp add: rx_note_def nic_printf_def)

lemma rx_deliver_came:
  assumes "taken n (n_knet s)" and "carries (kn_local_mac (n_knet s)) (rx_frame (n_rxm s a)) \<Longrightarrow> n < 20"
  obtains s' where "rx_deliver a s = Some s'" and "rx_count s' = rx_count s + 1"
    and "came n (map frame_message (filter (carries (kn_local_mac (n_knet s))) [rx_frame (n_rxm s a)])) (n_knet s) (n_knet s')"
proof -
  let ?f = "rx_frame (n_rxm s a)"
  obtain k where k: "knet_process_frame ?f (n_knet s) = Some (E_SUCCESS, k)"
    "came n (map frame_message (filter (carries (kn_local_mac (n_knet s))) [?f])) (n_knet s) k"
    using process_frame_came [OF assms] by blast
  let ?s = "rx_note ?f (s\<lparr>rx_count := rx_count s + 1, n_knet := k\<rparr>)"
  have "rx_deliver a s = Some ?s" using k(1) by (simp add: rx_deliver_def)
  moreover have "same_table k (n_knet ?s)" by simp
  then have "came n (map frame_message (filter (carries (kn_local_mac (n_knet s))) [?f])) (n_knet s) (n_knet ?s)"
    using k(2) came_same [OF same_table_refl] by blast
  moreover have "rx_count ?s = rx_count s + 1" by (simp add: rx_note_def nic_printf_def)
  ultimately show ?thesis using that by blast
qed

lemma rx_deliver_hangs:
  "carries (kn_local_mac (n_knet s)) (rx_frame (n_rxm s a)) \<Longrightarrow> taken 20 (n_knet s) \<Longrightarrow> rx_deliver a s = None"
  by (simp add: rx_deliver_def process_frame_hangs)

lemma init_rxb_simps [simp]:
  "n_knet (i8255x_init_rxb a s) = n_knet s" "rx_count (i8255x_init_rxb a s) = rx_count s"
  by (simp_all add: i8255x_init_rxb_def set_rx_def Let_def)

text \<open>The messages that the buffers \<open>as\<close> have for this host.\<close>

definition rx_messages :: "u32 list \<Rightarrow> 'h nic \<Rightarrow> bytes list" where
  "rx_messages as s =
     map frame_message (filter (carries (kn_local_mac (n_knet s))) (map (\<lambda>a. rx_frame (n_rxm s a)) as))"

lemma rx_messages_step:
  assumes "rx_deliver a s = Some s1" and "kn_local_mac (n_knet s1) = kn_local_mac (n_knet s)" and "distinct (a # as)"
  shows "rx_messages as (i8255x_init_rxb a s1) = rx_messages as s"
proof -
  have "map (\<lambda>b. rx_frame (n_rxm (i8255x_init_rxb a s1) b)) as = map (\<lambda>b. rx_frame (n_rxm s b)) as"
    using assms(3) rx_deliver_frame [OF assms(1)] by (intro map_cong) (auto simp: init_rxb_rxm)
  then show ?thesis using assms(2) by (simp only: rx_messages_def init_rxb_simps)
qed

lemma rx_messages_Cons: "rx_messages (a # as) s = rx_messages [a] s @ rx_messages as s"
  by (simp add: rx_messages_def)

lemma rx_deliver_all_came:
  "distinct as \<Longrightarrow> taken n (n_knet s) \<Longrightarrow> n + length (rx_messages as s) \<le> 20 \<Longrightarrow>
   \<exists>s'. rx_deliver_all as s = Some s' \<and> came n (rx_messages as s) (n_knet s) (n_knet s') \<and>
     rx_count s' = rx_count s + of_nat (length as)"
proof (induction as arbitrary: s n)
  case Nil
  then show ?case by (simp add: rx_messages_def came_Nil)
next
  case (Cons a as)
  have l: "n + length (rx_messages [a] s) + length (rx_messages as s) \<le> 20"
    using Cons.prems(3) by (simp add: rx_messages_Cons [of a as])
  obtain s1 where s1: "rx_deliver a s = Some s1" "rx_count s1 = rx_count s + 1"
    "came n (rx_messages [a] s) (n_knet s) (n_knet s1)"
    using rx_deliver_came [OF Cons.prems(2), of a] l by (auto simp: rx_messages_def split: if_splits)
  let ?s = "i8255x_init_rxb a s1"
  have m: "rx_messages as ?s = rx_messages as s"
    using rx_messages_step [OF s1(1) _ Cons.prems(1)] s1(3) by (simp add: came_def)
  have "taken (n + length (rx_messages [a] s)) (n_knet ?s)" using s1(3) by (simp add: came_def)
  then obtain s' where s': "rx_deliver_all as ?s = Some s'"
    "came (n + length (rx_messages [a] s)) (rx_messages as s) (n_knet s1) (n_knet s')"
    "rx_count s' = rx_count ?s + of_nat (length as)"
    using Cons.IH [of "n + length (rx_messages [a] s)" ?s] Cons.prems(1) l m by auto
  then have "came n (rx_messages (a # as) s) (n_knet s) (n_knet s')"
    unfolding rx_messages_Cons [of a as] using came_append [OF s1(3)] by simp
  then show ?case using s1 s' by (simp add: rx_deliver_all_Cons)
qed

lemma rx_deliver_all_hangs:
  "distinct as \<Longrightarrow> taken n (n_knet s) \<Longrightarrow> n \<le> 20 \<Longrightarrow> 20 < n + length (rx_messages as s) \<Longrightarrow>
   rx_deliver_all as s = None"
proof (induction as arbitrary: s n)
  case Nil
  then show ?case by (simp add: rx_messages_def)
next
  case (Cons a as)
  show ?case
  proof (cases "n = 20 \<and> carries (kn_local_mac (n_knet s)) (rx_frame (n_rxm s a))")
    case True
    then show ?thesis using Cons.prems(2) by (simp add: rx_deliver_all_Cons rx_deliver_hangs)
  next
    case False
    then have c: "carries (kn_local_mac (n_knet s)) (rx_frame (n_rxm s a)) \<Longrightarrow> n < 20"
      using Cons.prems(3) by auto
    obtain s1 where s1: "rx_deliver a s = Some s1" "came n (rx_messages [a] s) (n_knet s) (n_knet s1)"
      using rx_deliver_came [OF Cons.prems(2) c] by (auto simp: rx_messages_def)
    let ?s = "i8255x_init_rxb a s1"
    have m: "rx_messages as ?s = rx_messages as s"
      using rx_messages_step [OF s1(1) _ Cons.prems(1)] s1(2) by (simp add: came_def)
    have "n + length (rx_messages [a] s) \<le> 20"
      using c Cons.prems(3) by (cases "n = 20") (auto simp: rx_messages_def)
    then have "rx_deliver_all as ?s = None"
      using Cons.IH [of "n + length (rx_messages [a] s)" ?s] Cons.prems s1(2) m
      by (simp add: came_def rx_messages_Cons [of a as])
    then show ?thesis using s1 by (simp add: rx_deliver_all_Cons)
  qed
qed

end
