(* ===== verification/Ioports.thy ===== *)
theory Ioports
  imports Prelude
begin

text \<open>
  The allocator of I/O ports, \<^verbatim>\<open>kernel/ioports.c\<close>: the next free port goes up from \<open>0x1000\<close>
  to \<open>0xF000\<close>, in 16 bit arithmetic.  The last section shows what a sequence of requests gets.
\<close>

section \<open>The allocator\<close>

definition last_port :: u16 where
  "last_port = 0xF000"

definition ioports_init :: u16 where
  "ioports_init = 0x1000"

text \<open>
  The state is \<^verbatim>\<open>current_port\<close>.  The operands of the remainder and of the comparisons are
  promoted to \<^verbatim>\<open>int\<close>, but lie in the range of the type; a remainder by 0 is a fault.
\<close>

definition allocate_ports_align :: "u16 \<Rightarrow> u16 \<Rightarrow> u16 \<Rightarrow> (u16 \<times> u16) outcome" where
  "allocate_ports_align amount alignment current_port =
     (if alignment = 0 then Inl (Fault ''allocate_ports_align: division by zero'')
      else
        let new_current_port = current_port + amount;
            align_offset = alignment - new_current_port mod alignment;
            align_offset = (if align_offset = alignment then 0 else align_offset);
            new_current_port = new_current_port + align_offset
        in Inr (if new_current_port \<le> last_port then (current_port + align_offset, new_current_port)
                else (0, current_port)))"

definition allocate_ports :: "u16 \<Rightarrow> u16 \<Rightarrow> (u16 \<times> u16) outcome" where
  "allocate_ports amount current_port = allocate_ports_align amount 1 current_port"

section \<open>Requests\<close>

text \<open>The requests \<open>(amount, alignment)\<close> one after the other: the answers and the final state.\<close>

fun allocate_all :: "(u16 \<times> u16) list \<Rightarrow> u16 \<Rightarrow> (u16 list \<times> u16) outcome" where
  "allocate_all [] p = Inr ([], p)"
| "allocate_all ((n, a) # rs) p =
     andThen (allocate_ports_align n a p) (\<lambda>(r, p').
       andThen (allocate_all rs p') (\<lambda>(xs, q). Inr (r # xs, q)))"

lemma of_unat_u16: "unat (x :: u16) = k \<Longrightarrow> x = of_nat k"
  by auto

lemma unat_of_nat_u16: "k < 0x10000 \<Longrightarrow> unat (of_nat k :: u16) = k"
  by (simp only: unat_of_nat take_bit_nat_eq_self) simp

lemma allocate_step:
  assumes "a \<noteq> 0" and "unat p + unat n + unat a \<le> 0x10000"
  defines "e \<equiv> unat p + unat n"
  defines "d \<equiv> (unat a - e mod unat a) mod unat a"
  shows "allocate_ports_align n a p =
    Inr (if e + d \<le> 0xF000 then (of_nat (unat p + d), of_nat (e + d)) else (0, p))"
proof -
  have a: "0 < unat a" using assms(1) by (simp add: unat_gt_0)
  have lt: "e mod unat a < unat a" using a by simp
  have d: "d = (if e mod unat a = 0 then 0 else unat a - e mod unat a)" using a by (auto simp: d_def)
  have ed: "e + d < 0x10000"
  proof (cases "e mod unat a = 0")
    case True
    then show ?thesis using assms(2) a by (simp add: d e_def)
  next
    case False
    then have "0 < e mod unat a" by simp
    then show ?thesis using assms(2) lt False unfolding d e_def [symmetric] by simp
  qed
  have e16: "unat (p + n) = e" using ed unfolding e_def by (simp add: unat_word_ariths)
  have m: "unat ((p + n) mod a) = e mod unat a" by (simp add: unat_mod_distrib e16)
  have o: "unat (a - (p + n) mod a) = unat a - e mod unat a"
    using lt m by (simp add: unat_sub word_le_nat_alt)
  have off: "(a - (p + n) mod a = a) = (e mod unat a = 0)"
    using lt o by (auto simp: word_unat_eq_iff)
  define x where "x = (if a - (p + n) mod a = a then 0 else a - (p + n) mod a)"
  have x: "unat x = d" by (simp add: x_def off d o)
  have "unat (p + n + x) = e + d" using ed by (simp add: unat_word_ariths(1) [of "p + n"] e16 x)
  then have s: "p + n + x = of_nat (e + d)" by (rule of_unat_u16)
  have "unat (p + x) = unat p + d" using ed x by (simp add: unat_word_ariths e_def)
  then have r: "p + x = of_nat (unat p + d)" by (rule of_unat_u16)
  have "allocate_ports_align n a p = Inr (if p + n + x \<le> last_port then (p + x, p + n + x) else (0, p))"
    unfolding x_def using assms(1) by (simp add: allocate_ports_align_def Let_def)
  moreover have "p + n + x \<le> last_port \<longleftrightarrow> e + d \<le> 0xF000"
    using \<open>unat (p + n + x) = e + d\<close> by (simp add: last_port_def word_le_nat_alt)
  ultimately show ?thesis by (simp only: s r)
qed

text \<open>The answers lie in the range, each at or above where the one before ends.\<close>

definition ports_served :: "nat \<Rightarrow> (u16 \<times> u16) list \<Rightarrow> u16 list \<Rightarrow> bool" where
  "ports_served low rs xs \<longleftrightarrow>
     length xs = length rs \<and>
     (\<forall>i < length rs. xs ! i \<noteq> 0 \<longrightarrow>
        low \<le> unat (xs ! i) \<and> unat (xs ! i) + unat (fst (rs ! i)) \<le> 0xF000 \<and>
        (unat (snd (rs ! i)) dvd unat (fst (rs ! i)) \<longrightarrow> unat (snd (rs ! i)) dvd unat (xs ! i))) \<and>
     (\<forall>i j. i < j \<and> j < length rs \<and> xs ! i \<noteq> 0 \<and> xs ! j \<noteq> 0 \<longrightarrow>
        unat (xs ! i) + unat (fst (rs ! i)) \<le> unat (xs ! j))"

lemma ports_served_Nil [simp]: "ports_served low [] []"
  by (simp add: ports_served_def)

lemma ports_served_Cons:
  assumes "ports_served low' rs xs" and "low \<le> low'"
    and "r \<noteq> 0 \<Longrightarrow> low \<le> unat r \<and> unat r + unat n \<le> low' \<and> unat r + unat n \<le> 0xF000 \<and>
      (unat a dvd unat n \<longrightarrow> unat a dvd unat r)"
  shows "ports_served low ((n, a) # rs) (r # xs)"
proof -
  have "\<forall>i < Suc (length rs). (r # xs) ! i \<noteq> 0 \<longrightarrow>
      low \<le> unat ((r # xs) ! i) \<and> unat ((r # xs) ! i) + unat (fst (((n, a) # rs) ! i)) \<le> 0xF000 \<and>
      (unat (snd (((n, a) # rs) ! i)) dvd unat (fst (((n, a) # rs) ! i)) \<longrightarrow>
        unat (snd (((n, a) # rs) ! i)) dvd unat ((r # xs) ! i))"
    using assms by (auto simp: ports_served_def nth_Cons split: nat.splits)
  moreover have "unat ((r # xs) ! i) + unat (fst (((n, a) # rs) ! i)) \<le> unat ((r # xs) ! j)"
    if "i < j" "j < Suc (length rs)" "(r # xs) ! i \<noteq> 0" "(r # xs) ! j \<noteq> 0" for i j
  proof -
    from that(1) obtain j' where j: "j = Suc j'" by (cases j) simp_all
    show ?thesis
    proof (cases i)
      case 0
      then have "unat r + unat n \<le> low'" using that assms(3) by simp
      moreover have "low' \<le> unat (xs ! j')" using assms(1) that by (simp add: ports_served_def j)
      ultimately show ?thesis using 0 by (simp add: j)
    next
      case (Suc i')
      then show ?thesis using assms(1) that by (simp add: ports_served_def j)
    qed
  qed
  moreover have "length xs = length rs" using assms(1) by (simp add: ports_served_def)
  ultimately show ?thesis unfolding ports_served_def length_Cons by (intro conjI) (simp, assumption, blast)
qed

lemma allocate_all_served:
  "unat p \<le> 0xF000 \<Longrightarrow> \<forall>(n, a) \<in> set rs. a \<noteq> 0 \<and> unat n + unat a \<le> 0x1000 \<Longrightarrow>
   \<exists>xs q. allocate_all rs p = Inr (xs, q) \<and> ports_served (unat p) rs xs \<and> unat q \<le> 0xF000"
proof (induction rs arbitrary: p)
  case Nil
  then show ?case by simp
next
  case (Cons na rs)
  obtain n a where na: "na = (n, a)" by (cases na)
  have a: "a \<noteq> 0" "unat n + unat a \<le> 0x1000" using Cons.prems(2) na by auto
  define d where "d = (unat a - (unat p + unat n) mod unat a) mod unat a"
  have step: "allocate_ports_align n a p =
    Inr (if unat p + unat n + d \<le> 0xF000 then (of_nat (unat p + d), of_nat (unat p + unat n + d)) else (0, p))"
    using allocate_step [of a p n] a Cons.prems(1) by (simp add: d_def)
  have al: "unat a dvd unat p + unat n + d"
  proof (cases "(unat p + unat n) mod unat a = 0")
    case True
    then show ?thesis by (simp add: d_def mod_eq_0_iff_dvd)
  next
    case False
    have "(unat p + unat n) mod unat a < unat a" using a(1) by (simp add: unat_gt_0)
    then have "d = unat a - (unat p + unat n) mod unat a" using False by (simp add: d_def)
    then have "unat p + unat n + d = (unat p + unat n) div unat a * unat a + unat a"
      using div_mult_mod_eq [of "unat p + unat n" "unat a"] \<open>_ < unat a\<close> by linarith
    then show ?thesis by simp
  qed
  show ?case
  proof (cases "unat p + unat n + d \<le> 0xF000")
    case False
    obtain xs q where "allocate_all rs p = Inr (xs, q)" "ports_served (unat p) rs xs" "unat q \<le> 0xF000"
      using Cons.IH [of p] Cons.prems by auto
    then show ?thesis using step False by (auto simp: na intro!: ports_served_Cons)
  next
    case True
    let ?q = "of_nat (unat p + unat n + d) :: u16" and ?r = "of_nat (unat p + d) :: u16"
    have u: "unat ?q = unat p + unat n + d" "unat ?r = unat p + d"
      using True by (simp_all only: unat_of_nat_u16)
    obtain xs q where x: "allocate_all rs ?q = Inr (xs, q)" "ports_served (unat ?q) rs xs" "unat q \<le> 0xF000"
      using Cons.IH [of ?q] Cons.prems True u by auto
    have "ports_served (unat p) ((n, a) # rs) (?r # xs)"
    proof (rule ports_served_Cons [OF x(2)])
      have "unat a dvd unat n \<Longrightarrow> unat a dvd unat p + d"
        using al by (metis add.assoc add.commute dvd_add_right_iff)
      then show "unat p \<le> unat ?r \<and> unat ?r + unat n \<le> unat ?q \<and> unat ?r + unat n \<le> 0xF000 \<and>
          (unat a dvd unat n \<longrightarrow> unat a dvd unat ?r)"
        using True by (simp only: u) simp
    qed (simp only: u)
    then show ?thesis using step True x by (simp add: na)
  qed
qed

end
