(* ===== verification/Net_Properties.thy ===== *)
theory Net_Properties
  imports Net_Lemmas Ioports
begin

text \<open>
  Properties of the network and of the port allocator: what an interrupt does with the frames
  in the ring, what becomes of a message that is sent, the ring that initialization builds,
  and the port ranges that are handed out.
\<close>

section \<open>Samples\<close>

text \<open>A bus that shows the status of a received frame, a table of messages that are all free, a
  frame with a message for the host 0, and a device with a ring of two buffers, the first full.\<close>

definition net_bus :: "unit mmio" where
  "net_bus = \<lparr>m_read16 = (\<lambda>a h. (0x4000, h)), m_write16 = (\<lambda>a v h. h), m_write32 = (\<lambda>a v h. h)\<rparr>"

definition sample_knet :: knet where
  "sample_knet = \<lparr>kn_messages = replicate 20 \<lparr>mt_avail = True, mt_mesg = (\<lambda>_. 0)\<rparr>,
     next_message_idx = 0, kn_local_mac = 0, kn_log = []\<rparr>"

definition sample_frame :: bytes where
  "sample_frame = put16 12 PROTO_CTP (put16 14 26 (put32 16 CTP_IPC (\<lambda>_. 0)))"

definition sample_nic :: "unit nic" where
  "sample_nic =
     \<lparr>n_hw = (),
      n_rxm = (\<lambda>_. rx_clear)(0x10 := rx_clear\<lparr>rx_header := \<lparr>ah_status = 0xA000, ah_command = 0, ah_link_addr = 0x20\<rparr>,
                                             rx_frame := sample_frame\<rparr>,
                            0x20 := rx_clear\<lparr>rx_header := \<lparr>ah_status = 0, ah_command = 0, ah_link_addr = 0x10\<rparr>\<rparr>),
      n_txm = (\<lambda>_. tx_filled (\<lambda>_. 0) 0 undefined), n_dump = \<lparr>dump_header = action_hdr_clear, dump_offset = 0, dump_buffer = (\<lambda>_. 0)\<rparr>,
      n_pci = 0, csr_bar = 0, irq_vector = 0x2b, wrong_irq = False, mac_addr = 0, cu_transition = False,
      ru_transition = False, rx_buffer_base = 0x10, rx_buffer_ptr = 0x10, rx_buffer_end = 0x20,
      tx_buffer_base = 0x30, rx_count = 0, n_knet = sample_knet\<rparr>"

definition nic_irqs :: "'e \<Rightarrow> 'e irqs" where
  "nic_irqs e =
     \<lparr>kalloc_base = KALLOC_BASE_ADDR, ir_heap = (\<lambda>_. \<lparr>ia_handler = 0, ia_calls = 0, ia_next = 0\<rparr>),
      isr_vector_table = (\<lambda>_. 0), handling_int = False, terminate_isr = False, handled_int = 0, test_handler = 0,
      wait_irq_count = 0, ir_if = False, isr_table = (\<lambda>_. Default_unexpected_handler),
      ir_idt = (\<lambda>_. \<lparr>gate_offset_15_0 = 0, gate_selector = 0, gate_flags = 0, gate_offset_31_16 = 0\<rparr>),
      ir_out = [], ir_env = e\<rparr>"

lemma sample_taken: "taken 0 sample_knet"
  by (simp add: taken_def knet_ok_def sample_knet_def)

lemma sample_carries: "carries 0 sample_frame"
  by (simp add: carries_def sample_frame_def eth_proto_def ctp_type_def ctp_length_def eth_data_def msg_dest_def
      get_pid_def get48_def get16_def get32_def put16_def put32_def)

lemma net_bus_accepts: "accept_wait net_bus INTEL_ETH_SCB_CMD_CUC_MASK s = Some s"
  by (cases s, subst accept_wait.simps) (simp add: read_csr_def net_bus_def)

section \<open>Reception\<close>

lemma status_bit_eq:
  "m_read16 M (csr_bar s) (n_hw s) = (v, h) \<Longrightarrow> status_bit M bits s = (v AND bits \<noteq> 0, s\<lparr>n_hw := h\<rparr>)"
  by (simp add: status_bit_def read_csr_def)

lemma rotate_ring:
  "rx_ring R ps \<Longrightarrow> rx_ring R (rotate k ps)"
proof (induction k)
  case (Suc k)
  then have r: "rx_ring R (rotate k ps)" by blast
  have "map (rx_link R) (rotate1 (rotate k ps)) = rotate1 (rotate1 (rotate k ps))"
    using r by (simp add: rx_ring_def flip: rotate1_map)
  then show ?case using r by (simp add: rx_ring_def)
qed simp

lemma rx_take_short: "length (rx_take R (p # ps)) < length (p # ps)"
proof -
  obtain ys where "p # ps = rx_take R (p # ps) @ ys" "ys \<noteq> []" using rx_take_prefix [of "p # ps" R] by auto
  from arg_cong [OF this(1), of length] this(2) show ?thesis by (cases ys) auto
qed

lemma rx_take_distinct: "distinct ps \<Longrightarrow> distinct (rx_take R ps)"
  using rx_take_prefix [of ps R] by (metis distinct_append)

lemma rx_take_printf [simp]: "n_rxm (nic_printf f a s) = n_rxm s" "rx_count (nic_printf f a s) = rx_count s"
  "same_table (n_knet s) (n_knet (nic_printf f a s))"
  by (simp_all add: nic_printf_def)

lemma rx_messages_cong:
  "n_rxm s' = n_rxm s \<Longrightarrow> same_table (n_knet s) (n_knet s') \<Longrightarrow> rx_messages as s' = rx_messages as s"
  by (simp add: rx_messages_def same_table_def)

text \<open>C33 The receive interrupt empties the ring as the list function \<open>rx_take\<close> says: the frames
  of the buffers from the current one on, in the order of the ring, up to the first empty buffer,
  up to and with the first at which the receive unit stops, and short of the last buffer.  Messages for this host go to
  the next free places of the table, the buffers are recycled, the ring is whole, and its next
  buffer is the current one; but when the table of 20 messages has no room the interrupt never
  returns.\<close>

theorem frames_received_in_ring_order:
  fixes s :: "'h nic"
  assumes "m_read16 M (csr_bar s) (n_hw s) = (v, h)" and "v AND INTEL_ETH_SCB_STATUS_FR \<noteq> 0"
    and "rx_ring (n_rxm s) (p # ps)" and "rx_buffer_ptr s = p" and "taken n (n_knet s)" and "n \<le> NUM_MESSAGES"
  defines "ds \<equiv> rx_take (n_rxm s) (p # ps)"
  shows "if n + length (rx_messages ds s) \<le> NUM_MESSAGES
    then \<exists>s'. isr_fr M s = Some s' \<and> came n (rx_messages ds s) (n_knet s) (n_knet s') \<and>
      n_rxm s' = (\<lambda>a. if a \<in> set ds then rx_recycled (n_rxm s a) else n_rxm s a) \<and>
      rx_ring (n_rxm s') (rotate (length ds) (p # ps)) \<and> rx_buffer_ptr s' = hd (rotate (length ds) (p # ps)) \<and>
      rx_count s' = rx_count s + of_nat (length ds)
    else isr_fr M s = None"
proof -
  define s2 where "s2 = nic_printf (nl ''INFO: _i8255x_driver_isr - FR'') [] (s\<lparr>n_hw := h\<rparr>)"
  define s3 where "s3 = (if ah_status (rx_header (n_rxm s2 p)) = 0
    then nic_printf (nl ''INFO: _i8255x_driver_isr - FR Nothing to do'') [] s2 else s2)"
  have s3: "n_rxm s3 = n_rxm s" "rx_count s3 = rx_count s" "same_table (n_knet s) (n_knet s3)"
    by (simp_all add: s3_def s2_def) (simp_all add: nic_printf_def)
  have m: "rx_messages ds s3 = rx_messages ds s" using s3(1,3) by (rule rx_messages_cong)
  have t: "taken n (n_knet s3)" using assms(5) taken_same [OF s3(3)] by simp
  have d: "distinct ds" using assms(3) by (auto simp: ds_def rx_ring_def intro!: rx_take_distinct)
  have p: "rx_buffer_ptr s2 = p" using assms(4) by (simp add: s2_def nic_printf_def)
  have isr: "isr_fr M s = map_option (\<lambda>(a, s4). s4\<lparr>rx_buffer_ptr := a\<rparr>) (rx_loop p p s3)"
    unfolding isr_fr_def status_bit_eq [OF assms(1)] Let_def prod.case
    by (simp only: assms(2) simp_thms if_True flip: s2_def) (simp only: p flip: s3_def)
  have loop: "rx_loop p p s3 = map_option (\<lambda>s'. ((p # ps) ! length ds, s')) (rx_deliver_all ds s3)"
    using rx_loop_ring [of s3 p ps] assms(3) by (simp add: s3(1) ds_def)
  show ?thesis
  proof (cases "n + length (rx_messages ds s) \<le> 20")
    case False
    then show ?thesis using rx_deliver_all_hangs [OF d t assms(6)] m by (simp add: isr loop)
  next
    case True
    then obtain s' where s': "rx_deliver_all ds s3 = Some s'" "came n (rx_messages ds s) (n_knet s3) (n_knet s')"
      "rx_count s' = rx_count s + of_nat (length ds)"
      using rx_deliver_all_came [OF d t] m s3(2) by auto
    let ?s = "s'\<lparr>rx_buffer_ptr := (p # ps) ! length ds\<rparr>"
    have r: "n_rxm ?s = (\<lambda>a. if a \<in> set ds then rx_recycled (n_rxm s a) else n_rxm s a)"
      using rx_deliver_all_rxm [OF s'(1) d] unfolding s3(1) by simp
    have "rx_link (n_rxm ?s) = rx_link (n_rxm s)" unfolding r by simp
    then have "rx_ring (n_rxm ?s) (rotate (length ds) (p # ps))"
      using rotate_ring [OF assms(3), of "length ds"] by (simp only: rx_ring_def simp_thms)
    moreover have "came n (rx_messages ds s) (n_knet s) (n_knet s')"
      using s'(2) came_same [OF s3(3) same_table_refl] by blast
    moreover have "hd (rotate (length ds) (p # ps)) = (p # ps) ! length ds"
      using rx_take_short [of "n_rxm s" p ps] by (simp add: hd_rotate_conv_nth ds_def)
    ultimately show ?thesis using True r s'(1,3) by (simp add: isr loop)
  qed
qed

theorem frames_received_in_ring_order_witness:
  "\<exists>s'. isr_fr net_bus sample_nic = Some s' \<and> rx_buffer_ptr s' = 0x20 \<and> rx_count s' = 1 \<and> taken 1 (n_knet s')"
proof -
  have r: "rx_take (n_rxm sample_nic) [0x10, 0x20] = [0x10]" by (simp add: sample_nic_def)
  have m: "rx_messages [0x10] sample_nic = [frame_message sample_frame]"
    using sample_carries by (simp add: rx_messages_def sample_nic_def sample_knet_def)
  have c: "rx_count sample_nic = 0" by (simp add: sample_nic_def)
  have "rx_ring (n_rxm sample_nic) [0x10, 0x20]" by (simp add: rx_ring_def rx_link_def sample_nic_def)
  moreover have "m_read16 net_bus (csr_bar sample_nic) (n_hw sample_nic) = (0x4000, ())" "rx_buffer_ptr sample_nic = 0x10"
    "taken 0 (n_knet sample_nic)"
    using sample_taken by (simp_all add: net_bus_def sample_nic_def)
  ultimately show ?thesis
    using frames_received_in_ring_order
      [where M = net_bus and s = sample_nic and v = "0x4000" and h = "()" and p = "0x10" and ps = "[0x20]" and n = 0]
    unfolding r m by (auto simp: c came_def)
qed

section \<open>Messages between hosts\<close>

lemma accept_wait_same:
  "accept_wait M msk s = Some s' \<Longrightarrow> n_txm s' = n_txm s \<and> tx_buffer_base s' = tx_buffer_base s"
  by (rule accept_wait.raw_induct [of "\<lambda>M msk s s'. n_txm s' = n_txm s \<and> tx_buffer_base s' = tx_buffer_base s", rotated])
    (auto simp: read_csr_def split: prod.splits if_splits)

lemma or_csr_same [simp]:
  "n_txm (or_csr M r b s) = n_txm s" "tx_buffer_base (or_csr M r b s) = tx_buffer_base s"
  by (simp_all add: or_csr_def read_csr_def write_csr_def split: prod.split)

lemma transmit_frame:
  assumes "i8255x_driver_transmit M frame sz blocking s = Some (st, s')"
  shows "st = E_SUCCESS \<and> tx_buffer_base s' = tx_buffer_base s \<and>
    n_txm s' (tx_buffer_base s') = tx_filled frame sz (n_txm s (tx_buffer_base s))"
  using assms by (auto simp: i8255x_driver_transmit_def i8255x_write_cu_cmd_def dest!: accept_wait_same)

text \<open>C34 A message that a process sends, with its process identifier in it, is in the transmit buffer as a frame of 1514
  bytes.  When a host with a free place receives these bytes, it stores exactly the message if it
  is the one addressed and the length field of the header has at least the size of a message header, and else drops it;
  but the sender never sets this field: it is what the stack happened to hold.\<close>

theorem message_reaches_destination:
  assumes "knet_syscall_sendmsg M pid (Some msg) junk s = Inr (msg', st, s')"
    and "taken n r" and "n < NUM_MESSAGES"
    and "\<And>i. i < sizeof_ethframe \<Longrightarrow> f i = tx_data (n_txm s' (tx_buffer_base s')) i"
  shows "st = E_SUCCESS \<and> msg' = put_pid 0 pid msg \<and> tcb_byte_count (n_txm s' (tx_buffer_base s')) = 1514 \<and>
    (\<exists>r'. knet_process_frame f r = Some (E_SUCCESS, r') \<and>
       (if MESSAGE_HDR_LEN \<le> unat (get16 junk 14) \<and> pid_host (msg_dest msg') = kn_local_mac r
        then came n [frame_message f] r r' \<and> (\<forall>i < sizeof_message. mt_mesg (kn_messages r' ! n) i = msg' i)
        else same_table r r'))"
proof -
  let ?m = "message_frame (kn_local_mac (n_knet s)) msg' junk"
  let ?s1 = "nic_printf (nl ''INFO: _knet_syscall_sendmsg - Enter'') [] s"
  have s1: "knet_send_msg M (Some (put_pid 0 pid msg)) junk ?s1 = Some (st, s') \<and> msg' = put_pid 0 pid msg"
    using assms(1)
    by (cases "knet_send_msg M (Some (put_pid 0 pid msg)) junk ?s1") (auto simp: knet_syscall_sendmsg_def)
  have "kn_local_mac (n_knet ?s1) = kn_local_mac (n_knet s)" by (simp add: nic_printf_def)
  then have "i8255x_driver_transmit M ?m 1514 True
      (nic_printf (nl ''INFO: sendmsg - Sending message size=%d to host=%s'')
        [Num (ucast (msg_length msg')), Str (hosts_get_hostname (pid_host (msg_dest msg')))] ?s1) = Some (st, s')"
    using s1 by (simp add: knet_send_msg_def)
  note t = transmit_frame [OF this]
  then have st: "st = E_SUCCESS" by blast
  note b = t [THEN conjunct2, THEN conjunct2]
  have sz: "tcb_byte_count (n_txm s' (tx_buffer_base s')) = 1514" unfolding b by (simp add: tx_filled_def)
  have "tx_data (n_txm s' (tx_buffer_base s')) i = ?m i" if "i < 1514" for i
    unfolding b using that by (simp add: tx_filled_def blit_def)
  then have f: "f i = ?m i" if "i < 1514" for i using assms(4) that by simp
  have e: "get16 f 12 = get16 ?m 12" "get32 (eth_data f) 2 = get32 (eth_data ?m) 2"
    "get16 (eth_data f) 0 = get16 (eth_data ?m) 0" "get_pid (frame_message f) 12 = get_pid (frame_message ?m) 12"
    by (rule get16_cong get32_cong get_pid_cong, simp add: f eth_data_def)+
  have c: "carries mac f \<longleftrightarrow> carries mac ?m" for mac
    unfolding carries_def eth_proto_def ctp_type_def ctp_length_def msg_dest_def e ..
  obtain r' where r': "knet_process_frame f r = Some (E_SUCCESS, r')"
    "if carries (kn_local_mac r) f then came n [frame_message f] r r' else same_table r r'"
  proof (cases "carries (kn_local_mac r) f")
    case True
    then show ?thesis using process_frame_came [OF assms(2), of f] assms(3) that by auto
  next
    case False
    show ?thesis by (rule process_frame_ignored [OF False]) (use False that in simp)
  qed
  have "mt_mesg (kn_messages r' ! n) i = msg' i" if "came n [frame_message f] r r'" "i < 1050" for i
    using that f [of "28 + i"] message_frame_fields(6) [of i "kn_local_mac (n_knet s)" msg' junk] by (simp add: came_def)
  then show ?thesis
    using r' s1 st sz by (auto simp: c carries_message_frame split: if_splits)
qed

theorem message_reaches_destination_witness:
  "\<exists>s'. knet_syscall_sendmsg net_bus (get_pid (\<lambda>_. 0) 0) (Some (\<lambda>_. 0)) sample_frame sample_nic =
      Inr (put_pid 0 (get_pid (\<lambda>_. 0) 0) (\<lambda>_. 0), 0, s') \<and>
    (\<exists>r'. knet_process_frame (tx_data (n_txm s' 0x30)) sample_knet = Some (0, r') \<and> taken 1 r')"
proof -
  let ?m = "put_pid 0 (get_pid (\<lambda>_. 0) 0) (\<lambda>_. 0)"
  obtain s' where s': "knet_syscall_sendmsg net_bus (get_pid (\<lambda>_. 0) 0) (Some (\<lambda>_. 0)) sample_frame sample_nic =
      Inr (?m, 0, s')" "tx_buffer_base s' = 0x30"
    by (simp add: knet_syscall_sendmsg_def knet_send_msg_def i8255x_driver_transmit_def i8255x_write_cu_cmd_def
        net_bus_accepts Let_def or_csr_def read_csr_def write_csr_def nic_printf_def sample_nic_def split: prod.split)
  moreover have "26 \<le> unat (get16 sample_frame 14)" by (simp add: sample_frame_def get16_def put16_def)
  moreover have "pid_host (msg_dest ?m) = kn_local_mac sample_knet"
    by (simp add: msg_dest_def get_pid_def get48_def get16_def get32_def put_pid_def put48_def put16_def put32_def sample_knet_def)
  ultimately show ?thesis
    using message_reaches_destination [OF s'(1) sample_taken, of "tx_data (n_txm s' 0x30)"] by (auto simp: came_def)
qed

section \<open>The ring that initialization builds\<close>

lemma unat_low: "unat (take_bit 2 (r :: u32)) = unat r mod 4"
  by (simp only: unsigned_take_bit_eq take_bit_nat_def) simp

lemma unat_low_add: "unat (take_bit 2 (a + b :: u32)) = (unat a + unat b) mod 4"
  unfolding unat_low unat_word_ariths(1) by (simp add: mod_mod_cancel)

lemma and_3: "r AND (3 :: u32) = take_bit 2 r" "3 AND r = take_bit 2 r"
  by (simp_all add: take_bit_eq_mask mask_eq_exp_minus_1 and.commute)

lemma and_not_mask: "(r :: u32) AND NOT (mask n) = push_bit n (drop_bit n r)"
  by (rule bit_word_eqI) (auto simp: bit_simps)

lemma and_not_3: "r AND - (4 :: u32) = r - take_bit 2 r"
  using and_not_mask [of r 2] bits_ident [of 2 r] by (simp add: eq_diff_eq mask_eq_exp_minus_1)

lemma low_zero: "take_bit 2 (r :: u32) = 0 \<longleftrightarrow> unat r mod 4 = 0"
  by (metis unat_low unat_eq_zero)

lemma round_4: "unat (kalloc_round Align_DWord r) mod 4 = 0"
proof (cases "take_bit 2 r = 0")
  case True
  then show ?thesis by (simp add: kalloc_round_def and_3 low_zero)
next
  case False
  let ?d = "r - take_bit 2 r"
  have "unat ?d = unat r - unat r mod 4"
    by (simp add: unat_sub word_le_nat_alt unat_low)
  then have "unat ?d mod 4 = 0" by (simp add: minus_mod_eq_mult_div)
  then have "unat (?d + 4) mod 4 = 0" using unat_low_add [of ?d 4] by (simp add: unat_low)
  then show ?thesis using False by (simp add: kalloc_round_def and_3 and_not_3)
qed

lemma round_next:
  assumes "unat r mod 4 = 0"
  shows "kalloc_round Align_DWord (r + 1530) = r + 1532"
proof -
  have "unat (take_bit 2 (r + 1530)) = 2"
    unfolding unat_low_add using mod_add_left_eq [of "unat r" 4 1530] assms by simp
  then have "take_bit 2 (r + 1530) = 2" by (simp add: word_unat_eq_iff)
  then show ?thesis by (simp add: kalloc_round_def and_3 and_not_3)
qed

text \<open>The five buffers from \<open>a\<close> on: 1530 bytes each, and two bytes that the alignment leaves free.\<close>

abbreviation rfa_ring :: "u32 \<Rightarrow> u32 list" where
  "rfa_ring a \<equiv> [a, a + 1532, a + 3064, a + 4596, a + 6128]"

text \<open>A fresh buffer, linked to \<open>l\<close>, with the command \<open>c\<close>.\<close>

definition rx_fresh :: "u32 \<Rightarrow> u16 \<Rightarrow> intel_rx_buffer_t" where
  "rx_fresh l c = rx_clear\<lparr>rx_header := \<lparr>ah_status = 0, ah_command = c, ah_link_addr = l\<rparr>, rx_size := 1500\<rparr>"

lemma round_4_bounds:
  assumes "unat r + 4 < 2 ^ 32"
  shows "unat r \<le> unat (kalloc_round Align_DWord r)" "unat (kalloc_round Align_DWord r) \<le> unat r + 3"
proof -
  let ?d = "r - take_bit 2 r"
  have d: "unat ?d = unat r - unat r mod 4" by (simp add: unat_sub word_le_nat_alt unat_low)
  have "unat r mod 4 < 4" by simp
  then have "unat (?d + 4) = unat r - unat r mod 4 + 4"
    using assms d by (simp add: unat_word_ariths(1) [of ?d 4])
  moreover have "0 < unat r mod 4" if "take_bit 2 r \<noteq> 0" using that low_zero [of r] by simp
  ultimately show "unat r \<le> unat (kalloc_round Align_DWord r)" "unat (kalloc_round Align_DWord r) \<le> unat r + 3"
    using \<open>unat r mod 4 < 4\<close> mod_less_eq_dividend [of "unat r" 4]
    by (auto simp: kalloc_round_def and_3 and_not_3)
qed

lemma rfa_step:
  assumes "unat r mod 4 = 0"
  shows "kalloc_aligned sizeof_rx_buffer Align_DWord (s\<lparr>kalloc_base := r + 1530, ir_env := e\<rparr>) =
    (r + 1532, s\<lparr>kalloc_base := r + 3062, ir_env := e\<rparr>)"
  using round_next [OF assms] by (simp add: kalloc_aligned_def Let_def)

lemma mod4_add: "unat (a :: u32) mod 4 = 0 \<Longrightarrow> unat (k :: u32) mod 4 = 0 \<Longrightarrow> unat (a + k) mod 4 = 0"
  using unat_low_add [of a k] mod_add_eq [of "unat a" 4 "unat k"] by (simp add: unat_low)

lemma setup_rfa_ring:
  assumes "unat (kalloc_base s) + 7668 < 2 ^ 32" and "0 < unat (kalloc_base s)"
  defines "a \<equiv> kalloc_round Align_DWord (kalloc_base s)"
  defines "s' \<equiv> i8255x_setup_rfa s"
  shows "kalloc_base s' = a + 7658"
    and "n_rxm (ir_env s') = (n_rxm (ir_env s))(a := rx_fresh (a + 1532) 0, a + 1532 := rx_fresh (a + 3064) 0,
      a + 3064 := rx_fresh (a + 4596) 0, a + 4596 := rx_fresh (a + 6128) 0,
      a + 6128 := rx_fresh a (ACTION_HDR_CMD_EL OR ACTION_HDR_CMD_S))"
    and "rx_buffer_base (ir_env s') = a" and "rx_buffer_ptr (ir_env s') = a" and "rx_buffer_end (ir_env s') = a + 6128"
proof -
  have m: "unat a mod 4 = 0" unfolding a_def by (rule round_4)
  have b: "unat (kalloc_base s) \<le> unat a" "unat a \<le> unat (kalloc_base s) + 3"
    unfolding a_def using round_4_bounds [of "kalloc_base s"] assms(1) by simp_all
  have nz: "a \<noteq> 0" "a + 1532 \<noteq> 0" "a + 3064 \<noteq> 0" "a + 4596 \<noteq> 0"
    using b assms(1,2) by (auto simp: word_unat_eq_iff unat_word_ariths)
  have m1: "unat (a + 1532) mod 4 = 0" "unat (a + 3064) mod 4 = 0" "unat (a + 4596) mod 4 = 0"
    by (rule mod4_add [OF m], simp)+
  have k: "kalloc_aligned sizeof_rx_buffer Align_DWord s = (a, s\<lparr>kalloc_base := a + 1530\<rparr>)"
    by (simp add: kalloc_aligned_def a_def Let_def)
  have k1: "kalloc_aligned sizeof_rx_buffer Align_DWord (s\<lparr>kalloc_base := a + 3062, ir_env := e\<rparr>) =
      (a + 3064, s\<lparr>kalloc_base := a + 4594, ir_env := e\<rparr>)" for e
    using rfa_step [OF m1(1), of e s] by (simp add: add.assoc)
  have k2: "kalloc_aligned sizeof_rx_buffer Align_DWord (s\<lparr>kalloc_base := a + 4594, ir_env := e\<rparr>) =
      (a + 4596, s\<lparr>kalloc_base := a + 6126, ir_env := e\<rparr>)" for e
    using rfa_step [OF m1(2), of e s] by (simp add: add.assoc)
  have k3: "kalloc_aligned sizeof_rx_buffer Align_DWord (s\<lparr>kalloc_base := a + 6126, ir_env := e\<rparr>) =
      (a + 6128, s\<lparr>kalloc_base := a + 7658, ir_env := e\<rparr>)" for e
    using rfa_step [OF m1(3), of e s] by (simp add: add.assoc)
  note st = k rfa_step [OF m] k1 k2 k3
  have five: "rfa_loop 5 0 0 s = (a, a + 6128, s\<lparr>kalloc_base := a + 7658, ir_env :=
    set_link (a + 4596) (a + 6128) (set_rx (a + 6128) (rx_fresh 0 0)
    (set_link (a + 3064) (a + 4596) (set_rx (a + 4596) (rx_fresh 0 0)
    (set_link (a + 1532) (a + 3064) (set_rx (a + 3064) (rx_fresh 0 0)
    (set_link a (a + 1532) (set_rx (a + 1532) (rx_fresh 0 0)
    (set_rx a (rx_fresh 0 0) (ir_env s)))))))))\<rparr>)"
    using nz by (simp add: eval_nat_numeral st rx_fresh_def rx_clear_def action_hdr_clear_def)
  note un = s'_def i8255x_setup_rfa_def five Let_def prod.case
  show "kalloc_base s' = a + 7658" by (simp add: un)
  show "rx_buffer_base (ir_env s') = a" "rx_buffer_ptr (ir_env s') = a" "rx_buffer_end (ir_env s') = a + 6128"
    by (simp_all add: un nic_printf_def)
  show "n_rxm (ir_env s') = (n_rxm (ir_env s))(a := rx_fresh (a + 1532) 0, a + 1532 := rx_fresh (a + 3064) 0,
      a + 3064 := rx_fresh (a + 4596) 0, a + 4596 := rx_fresh (a + 6128) 0,
      a + 6128 := rx_fresh a (ACTION_HDR_CMD_EL OR ACTION_HDR_CMD_S))"
    by (rule ext) (auto simp: un nic_printf_def set_link_def set_rx_def rx_fresh_def)
qed

text \<open>C35 Initialization gives the receive unit a ring of five empty buffers of 1500 bytes: they lie
  in fresh memory one behind the other, aligned to four bytes and not overlapping, each linked to
  the next and the last to the first; the receive unit stops at the last only; base and current
  buffer are the first.\<close>

theorem receive_ring_built:
  assumes "unat (kalloc_base s) + 7668 < 2 ^ 32" and "0 < unat (kalloc_base s)"
  defines "s' \<equiv> i8255x_setup_rfa s"
  defines "e \<equiv> ir_env s'"
  shows "\<exists>ps. length ps = I8255X_RX_BUFFER_COUNT \<and> rx_ring (n_rxm e) ps \<and>
    rx_buffer_base e = hd ps \<and> rx_buffer_ptr e = hd ps \<and> rx_buffer_end e = last ps \<and>
    (\<forall>p. if p \<in> set ps
      then ah_status (rx_header (n_rxm e p)) = 0 \<and> rx_size (n_rxm e p) = 1500 \<and> unat p mod 4 = 0 \<and>
        ah_command (rx_header (n_rxm e p)) = (if p = last ps then ACTION_HDR_CMD_EL OR ACTION_HDR_CMD_S else 0)
      else n_rxm e p = n_rxm (ir_env s) p) \<and>
    unat (kalloc_base s) \<le> unat (hd ps) \<and> unat (last ps) + 1530 = unat (kalloc_base s') \<and>
    (\<forall>i < 4. unat (ps ! i) + 1530 \<le> unat (ps ! Suc i))"
proof -
  define a where "a = kalloc_round Align_DWord (kalloc_base s)"
  have m: "unat a mod 4 = 0" unfolding a_def by (rule round_4)
  have b: "unat (kalloc_base s) \<le> unat a" "unat a \<le> unat (kalloc_base s) + 3"
    unfolding a_def using round_4_bounds [of "kalloc_base s"] assms(1) by simp_all
  have u: "unat (a + k) = unat a + unat k" if "unat k \<le> 7658" for k
    using b(2) assms(1) that by (simp add: unat_word_ariths(1) [of a k])
  note r = setup_rfa_ring [OF assms(1,2), folded a_def s'_def, folded e_def]
  have ring: "rx_ring (n_rxm e) (rfa_ring a)"
    by (simp add: rx_ring_def rx_link_def r(2) rx_fresh_def)
  have al: "unat p mod 4 = 0" if "p \<in> set (rfa_ring a)" for p
    using that m by (auto intro!: mod4_add)
  have "if p \<in> set (rfa_ring a)
      then ah_status (rx_header (n_rxm e p)) = 0 \<and> rx_size (n_rxm e p) = 1500 \<and> unat p mod 4 = 0 \<and>
        ah_command (rx_header (n_rxm e p)) = (if p = last (rfa_ring a) then ACTION_HDR_CMD_EL OR ACTION_HDR_CMD_S else 0)
      else n_rxm e p = n_rxm (ir_env s) p" for p
    using al [of p] by (auto simp: r(2) rx_fresh_def)
  moreover have "unat (rfa_ring a ! i) + 1530 \<le> unat (rfa_ring a ! Suc i)" if "i < 4" for i
  proof -
    have "i = 0 \<or> i = 1 \<or> i = 2 \<or> i = 3" using that by auto
    then show ?thesis by (auto simp: u)
  qed
  moreover have "length (rfa_ring a) = 5" "rx_buffer_base e = hd (rfa_ring a)" "rx_buffer_ptr e = hd (rfa_ring a)"
    "rx_buffer_end e = last (rfa_ring a)" "unat (kalloc_base s) \<le> unat (hd (rfa_ring a))"
    "unat (last (rfa_ring a)) + 1530 = unat (kalloc_base s')"
    using b(1) by (simp_all add: r u)
  ultimately show ?thesis using ring by blast
qed

theorem receive_ring_built_witness:
  "\<exists>ps. length ps = 5 \<and> rx_ring (n_rxm (ir_env (i8255x_setup_rfa (nic_irqs sample_nic)))) ps"
proof -
  have "kalloc_base (nic_irqs sample_nic) = 0x2000000" by (simp add: nic_irqs_def KALLOC_BASE_ADDR_def)
  then show ?thesis using receive_ring_built [of "nic_irqs sample_nic"] by auto
qed

section \<open>Ports\<close>

text \<open>Port ranges that are handed out lie between 0x1000 and 0xF000, come in ascending order
  and do not overlap; a range is aligned if its length is a multiple of the alignment, as in every
  call of the driver, and otherwise only its end is; a refused request gets 0 and takes nothing.\<close>

theorem port_ranges_apart:
  assumes "\<And>n a. (n, a) \<in> set rs \<Longrightarrow> a \<noteq> 0 \<and> unat n + unat a \<le> 0x1000"
  shows "(\<exists>xs q. allocate_all rs ioports_init = Inr (xs, q) \<and> ports_served 0x1000 rs xs \<and> unat q \<le> 0xF000) \<and>
    allocate_ports_align 4 8 ioports_init = Inr (0x1004, 0x1008)"
proof -
  have "unat ioports_init = 0x1000" by (simp add: ioports_init_def)
  then have "\<exists>xs q. allocate_all rs ioports_init = Inr (xs, q) \<and> ports_served 0x1000 rs xs \<and> unat q \<le> 0xF000"
    using allocate_all_served [of ioports_init rs] assms by fastforce
  then show ?thesis by (simp add: allocate_ports_align_def ioports_init_def last_port_def)
qed

theorem port_ranges_apart_witness:
  "\<exists>xs q. allocate_all [(16, 16), (8, 8), (4, 4)] ioports_init = Inr (xs, q) \<and> length xs = 3 \<and> unat q \<le> 0xF000"
  using port_ranges_apart [of "[(16, 16), (8, 8), (4, 4)]"] by (fastforce simp: ports_served_def)

section \<open>The search for the interrupt\<close>

lemma interrupt_enable_if [simp]: "ir_if (interrupt_enable b s) = b"
  by (simp add: interrupt_enable_def interrupt_is_enabled_def)

lemma irq_try_off:
  assumes "irq_try M delay isr i s = Inr (True, s')"
  shows "\<not> ir_if s'"
  using assms
  by (auto simp: irq_try_def Let_def andThen_eq_Inr split_beta split: if_splits)

lemma irq_tries_off: "irq_tries M delay isr i n s = Inr (True, s') \<Longrightarrow> \<not> ir_if s'"
  by (induction n arbitrary: i s) (auto simp: andThen_eq_Inr irq_try_off split: if_splits)

text \<open>Whatever the device and the interrupts do meanwhile, the search for the interrupt line makes at most
  four tries of bounded length: when it returns it has succeeded or gives up with too many
  tries, and interrupts are off.\<close>

theorem irq_search_outcome:
  assumes "i8255x_driver_setup_irq M delay isr s = Inr (st, s')"
  shows "(st = E_SUCCESS \<or> st = E_TOO_MANY_TRIES) \<and> \<not> ir_if s'"
proof -
  obtain ok s1 where t: "irq_tries M delay isr 0 3 s = Inr (ok, s1)"
    using assms by (auto simp: i8255x_driver_setup_irq_def andThen_eq_Inr)
  show ?thesis
  proof (cases ok)
    case True
    then show ?thesis using assms t irq_tries_off [of M delay isr 0 3 s s1] by (simp add: i8255x_driver_setup_irq_def)
  next
    case False
    obtain s2 where "add_isr_or_panic isr I8255X_DEFAULT_IRQ (on_nic (irq_vector_update (\<lambda>_. I8255X_DEFAULT_IRQ)) s1) = Inr s2"
      using assms t False by (auto simp: i8255x_driver_setup_irq_def andThen_eq_Inr)
    then show ?thesis using assms t False
      by (cases "test_isr M delay s2"; cases "fst (test_isr M delay s2)")
        (auto simp: i8255x_driver_setup_irq_def andThen_eq_Inr)
  qed
qed

end
