(* ===== verification/Ide_Init.thy ===== *)
theory Ide_Init
  imports Ide Pci Ioports
begin

text \<open>
  The search for drives of the IDE driver, \<^verbatim>\<open>_ide_init\<close> of \<^verbatim>\<open>drivers/ide/ide.c\<close>, over the list of
  PCI devices; its system calls; and its interrupt routine.  The three static arrays are
  functions of the index, an index outside an array is a fault.  Pointers to a channel are its
  index.  The delays and the printing of what was found are left out.
\<close>

section \<open>Controllers, channels and drives\<close>

abbreviation (input) ATA_MAX_IDE_CONTROLLERS :: nat where "ATA_MAX_IDE_CONTROLLERS \<equiv> 4"
abbreviation (input) ATA_MAX_IDE_CHANNELS :: nat where "ATA_MAX_IDE_CHANNELS \<equiv> 8"
abbreviation (input) ATA_MAX_IDE_DEVICES :: nat where "ATA_MAX_IDE_DEVICES \<equiv> 16"
abbreviation ATA_SR_DRQ :: u8 where "ATA_SR_DRQ \<equiv> 8"
abbreviation ATA_REG_ERROR :: u8 where "ATA_REG_ERROR \<equiv> 1"
abbreviation ATA_CMD_IDENTIFY :: u8 where "ATA_CMD_IDENTIFY \<equiv> 0xEC"
abbreviation (input) ATA_IDENT_DEVICETYPE :: nat where "ATA_IDENT_DEVICETYPE \<equiv> 0"
abbreviation (input) ATA_IDENT_MODEL :: nat where "ATA_IDENT_MODEL \<equiv> 54"
abbreviation (input) ATA_IDENT_CAPABILITIES :: nat where "ATA_IDENT_CAPABILITIES \<equiv> 98"
abbreviation (input) ATA_IDENT_MAX_LBA :: nat where "ATA_IDENT_MAX_LBA \<equiv> 120"
abbreviation (input) ATA_IDENT_COMMANDSETS :: nat where "ATA_IDENT_COMMANDSETS \<equiv> 164"
abbreviation (input) ATA_IDENT_MAX_LBA_EXT :: nat where "ATA_IDENT_MAX_LBA_EXT \<equiv> 200"

text \<open>The fields of a controller that the driver sets; those behind \<^verbatim>\<open>INTR_PN\<close> are never used.\<close>

record ide_controller_t =
  ct_VID :: u16
  ct_DID :: u16
  ct_PCICMD :: u16
  ct_PCISTS :: u16
  ct_RID :: u8
  ct_PI :: u8
  ct_SCC :: u8
  ct_BCC :: u8
  ct_CLS :: u8
  ct_PMLT :: u8
  ct_PCMD_BAR :: u32
  ct_PCNL_BAR :: u32
  ct_SCMD_BAR :: u32
  ct_SCNL_BAR :: u32
  ct_BM_BASE :: u32
  ct_IDE_SVID :: u16
  ct_IDE_SID :: u16
  ct_INTR_LN :: u8
  ct_INTR_PN :: u8

record ide_channel_t =
  ch_io :: u16
  ch_control :: u16
  ch_bus_master :: u16
  ch_primary :: u8

record ide_drive_t =
  id_channel :: nat
  id_valid :: u8
  id_drive :: u8
  id_type :: u16
  id_signature :: u16
  id_capabilities :: u16
  id_command_sets :: u32
  id_size :: u32
  id_model :: "u8 list"

datatype ide_call =
    Pio_lba_read
  | Pio_lba_write

record 'h ide =
  ide_pci :: "'h pci"
  ide_current_port :: u16
  ide_num_devices :: nat
  ide_num_channels :: nat
  ide_num_controllers :: nat
  ide_controllers :: "nat \<Rightarrow> ide_controller_t"
  ide_channels :: "nat \<Rightarrow> ide_channel_t"
  ide_devices :: "nat \<Rightarrow> ide_drive_t"
  ide_calls :: "u32 \<Rightarrow> ide_call option"

text \<open>What the register routines use of a drive: its channel's ports and its number.\<close>

definition device_view :: "'h ide \<Rightarrow> nat \<Rightarrow> ide_device_t" where
  "device_view s d =
     (let c = ide_channels s (id_channel (ide_devices s d))
      in \<lparr>base_io_register = ch_io c, base_control_register = ch_control c,
          bus_master_base = ch_bus_master c, ide_drive = id_drive (ide_devices s d)\<rparr>)"

definition set_hw :: "'h \<Rightarrow> 'h ide \<Rightarrow> 'h ide" where
  "set_hw h s = s\<lparr>ide_pci := (ide_pci s)\<lparr>pci_hw := h\<rparr>\<rparr>"

definition get_hw :: "'h ide \<Rightarrow> 'h" where
  "get_hw s = pci_hw (ide_pci s)"

definition set_drive :: "nat \<Rightarrow> (ide_drive_t \<Rightarrow> ide_drive_t) \<Rightarrow> 'h ide \<Rightarrow> 'h ide" where
  "set_drive d f s = s\<lparr>ide_devices := (ide_devices s)(d := f (ide_devices s d))\<rparr>"

definition set_channel :: "nat \<Rightarrow> (ide_channel_t \<Rightarrow> ide_channel_t) \<Rightarrow> 'h ide \<Rightarrow> 'h ide" where
  "set_channel c f s = s\<lparr>ide_channels := (ide_channels s)(c := f (ide_channels s c))\<rparr>"

definition set_controller :: "nat \<Rightarrow> (ide_controller_t \<Rightarrow> ide_controller_t) \<Rightarrow> 'h ide \<Rightarrow> 'h ide" where
  "set_controller c f s = s\<lparr>ide_controllers := (ide_controllers s)(c := f (ide_controllers s c))\<rparr>"

section \<open>Base registers\<close>

definition type0_systemVendorId :: "pci_config_t \<Rightarrow> u16" where "type0_systemVendorId c = half_of 0 (c 11)"
definition type0_systemId :: "pci_config_t \<Rightarrow> u16" where "type0_systemId c = half_of 1 (c 11)"

definition copy_device_to_controller :: "pci_device_t \<Rightarrow> ide_controller_t" where
  "copy_device_to_controller device =
     (let c = pd_config device
      in \<lparr>ct_VID = vendorId c, ct_DID = deviceId c, ct_PCICMD = pci_command c, ct_PCISTS = pci_status c,
          ct_RID = revisionId c, ct_PI = progIF c, ct_SCC = subClass c, ct_BCC = classCode c,
          ct_CLS = cacheLineSize c, ct_PMLT = latencyTimer c, ct_PCMD_BAR = type0_bar c 0,
          ct_PCNL_BAR = type0_bar c 1, ct_SCMD_BAR = type0_bar c 2, ct_SCNL_BAR = type0_bar c 3,
          ct_BM_BASE = type0_bar c 4, ct_IDE_SVID = type0_systemVendorId c, ct_IDE_SID = type0_systemId c,
          ct_INTR_LN = irqLine c, ct_INTR_PN = irqPin c\<rparr>)"

text \<open>
  A register of the configuration space of the device at \<open>a\<close> is written, and the port is
  noted as base register \<open>bar\<close> in the copy of the configuration.
\<close>

definition write_base :: "'h long_ports \<Rightarrow> u32 \<Rightarrow> u8 \<Rightarrow> nat \<Rightarrow> u16 \<Rightarrow> 'h ide \<Rightarrow> 'h ide" where
  "write_base L a offset bar base_port s =
     (let d = pci_devs (ide_pci s) a;
          s1 = set_hw (snd (pci_write_long L 1 ((pd_address d)\<lparr>pa_offset := offset\<rparr>) (ucast base_port) (get_hw s))) s
      in s1\<lparr>ide_pci := set_device a (d\<lparr>pd_config := (pd_config d)(4 + bar := ucast base_port)\<rparr>) (ide_pci s1)\<rparr>)"

definition set_base_io_register :: "'h long_ports \<Rightarrow> u32 \<Rightarrow> nat \<Rightarrow> u16 \<Rightarrow> 'h ide \<Rightarrow> 'h ide" where
  "set_base_io_register L a channel base_port s =
     write_base L a (4 + 2 * of_nat channel) (2 * channel) base_port s"

text \<open>This one notes the port in the register of the routine above.\<close>

definition set_base_control_register :: "'h long_ports \<Rightarrow> u32 \<Rightarrow> nat \<Rightarrow> u16 \<Rightarrow> 'h ide \<Rightarrow> 'h ide" where
  "set_base_control_register L a channel base_port s =
     write_base L a (5 + 2 * of_nat channel) (2 * channel) base_port s"

definition set_bus_master_base :: "'h long_ports \<Rightarrow> u32 \<Rightarrow> u16 \<Rightarrow> 'h ide \<Rightarrow> 'h ide" where
  "set_bus_master_base L a base_port s = write_base L a 8 4 base_port s"

definition take_ports :: "u16 \<Rightarrow> u16 \<Rightarrow> 'h ide \<Rightarrow> (u16 \<times> 'h ide) outcome" where
  "take_ports amount alignment s =
     andThen (allocate_ports_align amount alignment (ide_current_port s)) (\<lambda>(p, q).
       Inr (p, s\<lparr>ide_current_port := q\<rparr>))"

section \<open>Probing for a drive\<close>

text \<open>\<^verbatim>\<open>while(register_read)\<close>: with a drive that neither errs nor gets ready it does not end.\<close>

partial_function (option) probe_wait :: "'h ports \<Rightarrow> ide_device_t \<Rightarrow> u8 \<Rightarrow> 'h \<Rightarrow> (u8 \<times> 'h) option" where
  "probe_wait P dev register_read h =
     (if register_read \<noteq> 0 then
        (case ide_register_read P dev ATA_REG_STATUS register_read h of
           (v, h') \<Rightarrow>
             if v AND ATA_SR_ERR \<noteq> 0 then Some (0xff, h')
             else if v AND ATA_SR_BSY = 0 \<and> v AND ATA_SR_DRQ \<noteq> 0 then Some (v, h')
             else probe_wait P dev v h')
      else Some (register_read, h))"

text \<open>The fields of the identification space; its text has the two bytes of each word exchanged.\<close>

definition ident_fields :: "bytes \<Rightarrow> ide_drive_t \<Rightarrow> ide_drive_t" where
  "ident_fields buf d =
     d\<lparr>id_valid := 1, id_type := 0, id_signature := get16 buf ATA_IDENT_DEVICETYPE,
       id_capabilities := get16 buf ATA_IDENT_CAPABILITIES, id_command_sets := get32 buf ATA_IDENT_COMMANDSETS,
       id_size := (if bit (get32 buf ATA_IDENT_COMMANDSETS) 26 then get32 buf ATA_IDENT_MAX_LBA_EXT
                   else get32 buf ATA_IDENT_MAX_LBA),
       id_model := map (\<lambda>k. buf (ATA_IDENT_MODEL + 2 * (k div 2) + 1 - k mod 2)) [0..<40] @ [0]\<rparr>"

text \<open>Drive \<open>j\<close> of channel \<open>c\<close>.  The buffer is that of \<^verbatim>\<open>_ide_init\<close>, used for every drive.\<close>

definition probe_drive ::
  "'h ports \<Rightarrow> 'h long_ports \<Rightarrow> nat \<Rightarrow> nat \<Rightarrow> bytes \<times> 'h ide \<Rightarrow> (bytes \<times> 'h ide) outcome" where
  "probe_drive P L c j bs =
     (case bs of
        (buf, s) \<Rightarrow>
          let n = ide_num_devices s
          in if ATA_MAX_IDE_DEVICES \<le> n then Inl (Fault ''_ide_init: too many drives'')
             else
               let s1 = set_drive n (\<lambda>d. d\<lparr>id_channel := c, id_drive := of_nat j\<rparr>) s;
                   dev = device_view s1 n;
                   h = ide_register_write P dev ATA_REG_HDDEVSEL (0xa0 OR push_bit 4 (of_nat j)) (get_hw s1);
                   h = ide_register_write P dev ATA_REG_CONTROL 2 h;
                   h = ide_register_write P dev ATA_REG_COMMAND ATA_CMD_IDENTIFY h
               in case probe_wait P dev 1 h of
                    None \<Rightarrow> Inl Diverges
                  | Some (v, h) \<Rightarrow>
                      if v = 0 \<or> v = 0xff \<or> v = 0x6c then Inr (buf, set_hw h s1)
                      else
                        (case ide_read_ident_space (p_inl L (base_io_register dev)) buf h of
                           (_, buf', h) \<Rightarrow>
                             Inr (buf', (set_drive n (ident_fields buf') (set_hw h s1))\<lparr>ide_num_devices := n + 1\<rparr>)))"

section \<open>Channels and controllers\<close>

text \<open>The ports of channel \<open>i\<close> of the device at \<open>a\<close>: given out anew, or the fixed ones of old controllers.\<close>

definition native_ports :: "'h long_ports \<Rightarrow> u32 \<Rightarrow> nat \<Rightarrow> nat \<Rightarrow> nat \<Rightarrow> 'h ide \<Rightarrow> 'h ide outcome" where
  "native_ports L a k c i s =
     andThen (take_ports 8 8 s) (\<lambda>(p, s1).
       let s2 = set_base_io_register L a i p (set_channel c (ch_io_update (\<lambda>_. p)) s1);
           s3 = set_controller k (if i = 0 then ct_PCMD_BAR_update (\<lambda>_. ucast p) else ct_SCMD_BAR_update (\<lambda>_. ucast p)) s2
       in andThen (take_ports 4 4 s3) (\<lambda>(q, s4).
            let s5 = set_base_control_register L a i q (set_channel c (ch_control_update (\<lambda>_. q)) s4)
            in Inr (set_controller k (if i = 0 then ct_PCNL_BAR_update (\<lambda>_. ucast q) else ct_SCNL_BAR_update (\<lambda>_. ucast q)) s5)))"

definition channel_ports ::
  "'h long_ports \<Rightarrow> u32 \<Rightarrow> nat \<Rightarrow> nat \<Rightarrow> bool \<times> 'h ide \<Rightarrow> (bool \<times> 'h ide) outcome" where
  "channel_ports L a k i ts =
     (case ts of
        (ide_type, s) \<Rightarrow>
          let c = ide_num_channels s; bars = type0_bar (pd_config (pci_devs (ide_pci s) a))
          in if ATA_MAX_IDE_CHANNELS \<le> c then Inl (Fault ''_ide_init: too many channels'')
             else
               let s1 = set_channel c (\<lambda>ch. ch\<lparr>ch_primary := of_nat i, ch_bus_master := ucast (bars 4 + of_nat i * 8)\<rparr>) s;
                   s2 = (if ide_type then s1
                         else set_channel c (\<lambda>ch. ch\<lparr>ch_io := ucast (bars (2 * i)), ch_control := ucast (bars (2 * i + 1))\<rparr>) s1);
                   io = ch_io (ide_channels s2 c);
                   now = (ide_type \<or> io = 0 \<or> io = 1);
                   legacy = (\<lambda>ch. ch\<lparr>ch_io := 0x1f0 - of_nat i * 0x80, ch_control := 0x3f4 - of_nat i * 0x80\<rparr>)
               in if now then Inr (True, set_channel c legacy s2)
                  else andThen (native_ports L a k c i s2) (\<lambda>s3. Inr (False, s3)))"

text \<open>One round of the loop over the two channels.  The last number says whether a channel was added.\<close>

definition probe_channel ::
  "'h ports \<Rightarrow> 'h long_ports \<Rightarrow> u32 \<Rightarrow> nat \<Rightarrow> nat \<Rightarrow> bool \<times> bool \<times> bytes \<times> 'h ide \<Rightarrow>
   (bool \<times> bool \<times> bytes \<times> 'h ide) outcome" where
  "probe_channel P L a k i st =
     (case st of
        (ide_type, channel_added, buf, s) \<Rightarrow>
          andThen (channel_ports L a k i (ide_type, s)) (\<lambda>(ide_type, s1).
            let c = ide_num_channels s1; n = ide_num_devices s1
            in andThen (probe_drive P L c 0 (buf, s1)) (\<lambda>bs.
               andThen (probe_drive P L c 1 bs) (\<lambda>(buf, s2).
                 if n < ide_num_devices s2 then Inr (ide_type, True, buf, s2\<lparr>ide_num_channels := c + 1\<rparr>)
                 else Inr (ide_type, channel_added, buf, s2)))))"

definition probe_controller ::
  "'h ports \<Rightarrow> 'h long_ports \<Rightarrow> u32 \<Rightarrow> bytes \<times> 'h ide \<Rightarrow> (bytes \<times> 'h ide) outcome" where
  "probe_controller P L a bs =
     (case bs of
        (buf, s) \<Rightarrow>
          let k = ide_num_controllers s
          in if ATA_MAX_IDE_CONTROLLERS \<le> k then Inl (Fault ''_ide_init: too many controllers'')
             else
               andThen (if type0_bar (pd_config (pci_devs (ide_pci s) a)) 4 AND 1 \<noteq> 0
                        then andThen (take_ports 16 16 s) (\<lambda>(p, s1). Inr (set_bus_master_base L a p s1))
                        else Inr s) (\<lambda>s1.
               andThen (probe_channel P L a k 0
                         (False, False, buf,
                          set_controller k (\<lambda>_. copy_device_to_controller (pci_devs (ide_pci s1) a)) s1)) (\<lambda>st.
               andThen (probe_channel P L a k 1 st) (\<lambda>(_, channel_added, buf, s2).
                 Inr (buf, if channel_added then s2\<lparr>ide_num_controllers := k + 1\<rparr> else s2)))))"

definition is_ide :: "pci_device_t \<Rightarrow> bool" where
  "is_ide d \<longleftrightarrow> classCode (pd_config d) = 1 \<and> subClass (pd_config d) = 1"

text \<open>The walk over the list of devices, from the device at \<open>a\<close>.\<close>

partial_function (option) ide_scan ::
  "'h ports \<Rightarrow> 'h long_ports \<Rightarrow> u32 \<Rightarrow> bytes \<times> 'h ide \<Rightarrow> (bytes \<times> 'h ide) outcome option" where
  "ide_scan P L a bs =
     (if a \<noteq> 0 then
        (case (if is_ide (pci_devs (ide_pci (snd bs)) a) then probe_controller P L a bs else Inr bs) of
           Inl e \<Rightarrow> Some (Inl e)
         | Inr bs' \<Rightarrow> ide_scan P L (pd_next (pci_devs (ide_pci (snd bs')) a)) bs')
      else Some (Inr bs))"

abbreviation IDE_SYSCALL_READ :: u32 where "IDE_SYSCALL_READ \<equiv> 0x70"
abbreviation IDE_SYSCALL_WRITE :: u32 where "IDE_SYSCALL_WRITE \<equiv> 0x71"

definition ide_init :: "'h ports \<Rightarrow> 'h long_ports \<Rightarrow> u32 \<Rightarrow> 'h ide \<Rightarrow> (status_t \<times> 'h ide) outcome" where
  "ide_init P L list s =
     (if list = 0 then Inr (E_SUCCESS, s)
      else
        let s1 = s\<lparr>ide_num_devices := 0, ide_num_channels := 0, ide_num_controllers := 0\<rparr>
        in case ide_scan P L (pl_first (pci_lists (ide_pci s) list)) ((\<lambda>_. 0), s1) of
             None \<Rightarrow> Inl Diverges
           | Some r \<Rightarrow> andThen r (\<lambda>(_, s2).
               Inr (E_SUCCESS, s2\<lparr>ide_calls := (ide_calls s2)(IDE_SYSCALL_READ \<mapsto> Pio_lba_read, IDE_SYSCALL_WRITE \<mapsto> Pio_lba_write)\<rparr>)))"

section \<open>System calls and interrupts\<close>

text \<open>
  Both system calls work on the second drive that was found, and give the caller success whatever
  the transfer did.  The results are the status, the buffer of the caller, and the state.
\<close>

definition ide_sys_read :: "'h ports \<Rightarrow> u32 \<Rightarrow> bytes \<Rightarrow> 'h ide \<Rightarrow> (status_t \<times> bytes \<times> 'h ide) option" where
  "ide_sys_read P sector buf s =
     map_option (\<lambda>(_, buf', h). (E_SUCCESS, buf', set_hw h s))
       (ide_pio_lba_read P (device_view s 1) sector buf (get_hw s))"

definition ide_sys_write :: "'h ports \<Rightarrow> u32 \<Rightarrow> bytes \<Rightarrow> 'h ide \<Rightarrow> (status_t \<times> 'h ide) option" where
  "ide_sys_write P sector buf s =
     map_option (\<lambda>(_, h). (E_SUCCESS, set_hw h s))
       (ide_pio_lba_write P (device_view s 1) sector buf (get_hw s))"

definition isr_drive :: "'h ports \<Rightarrow> nat \<Rightarrow> u8 \<times> 'h ide \<Rightarrow> u8 \<times> 'h ide" where
  "isr_drive P i rs =
     (case rs of
        (ret, s) \<Rightarrow>
          let dev = device_view s i; (ret, h) = ide_register_read P dev ATA_REG_STATUS ret (get_hw s);
              (ret, h) = (if ret AND ATA_SR_ERR \<noteq> 0 then ide_register_read P dev ATA_REG_ERROR ret h else (ret, h))
          in (ret, set_hw h s))"

definition ide_isr :: "'h ports \<Rightarrow> 'h ide \<Rightarrow> 'h ide" where
  "ide_isr P s = snd (fold (isr_drive P) [0..<ide_num_devices s] (0, s))"

end
