(* ===== verification/Ide_Properties.thy ===== *)
theory Ide_Properties
  imports Ide_Init Device_Properties
begin

text \<open>
  Properties of the search for IDE drives, whatever the hardware answers, and of the system
  calls of the driver on drives that behave as ATA documents.
\<close>

section \<open>The table of drives\<close>

definition found :: "'h ide \<Rightarrow> (nat \<times> u8) list" where
  "found s = map (\<lambda>d. (id_channel (ide_devices s d), id_drive (ide_devices s d))) [0..<ide_num_devices s]"

text \<open>A drive that was identified: its text has 40 characters and ends in a zero.\<close>

definition identified :: "ide_drive_t \<Rightarrow> bool" where
  "identified d \<longleftrightarrow> id_valid d = 1 \<and> id_type d = 0 \<and> length (id_model d) = 41 \<and> id_model d ! 40 = 0"

abbreviation drives_choice :: "u8 list set" where
  "drives_choice \<equiv> {[0], [1], [0, 1]}"

text \<open>The drives by channel: those of channel 0, of channel 1, and so on, each with one or two.\<close>

definition table_ok :: "'h ide \<Rightarrow> bool" where
  "table_ok s \<longleftrightarrow>
     (\<forall>d < ide_num_devices s. identified (ide_devices s d)) \<and>
     (\<exists>f. (\<forall>c < ide_num_channels s. f c \<in> drives_choice) \<and>
        found s = concat (map (\<lambda>c. map (Pair c) (f c)) [0..<ide_num_channels s]))"

definition same_drives :: "'h ide \<Rightarrow> 'h ide \<Rightarrow> bool" where
  "same_drives s s' \<longleftrightarrow>
     ide_devices s' = ide_devices s \<and> ide_num_devices s' = ide_num_devices s \<and>
     ide_num_channels s' = ide_num_channels s \<and> ide_num_controllers s' = ide_num_controllers s"

lemma same_drives_refl [simp]: "same_drives s s"
  by (simp add: same_drives_def)

lemma same_drives_steps [simp]:
  "same_drives s (set_hw h s') = same_drives s s'"
  "same_drives s (set_channel c f s') = same_drives s s'"
  "same_drives s (set_controller c g s') = same_drives s s'"
  "same_drives s (write_base L a off b p s') = same_drives s s'"
  by (simp_all add: same_drives_def set_hw_def set_channel_def set_controller_def write_base_def Let_def)

lemma same_drives_bases [simp]:
  "same_drives s (set_base_io_register L a i p s') = same_drives s s'"
  "same_drives s (set_base_control_register L a i p s') = same_drives s s'"
  "same_drives s (set_bus_master_base L a p s') = same_drives s s'"
  by (simp_all add: set_base_io_register_def set_base_control_register_def set_bus_master_base_def)

lemma same_drives_ports: "take_ports n al s' = Inr (p, s'') \<Longrightarrow> same_drives s s'' = same_drives s s'"
  by (auto simp: take_ports_def andThen_eq_Inr same_drives_def)

lemma native_ports_same: "native_ports L a k c i s = Inr s' \<Longrightarrow> same_drives s s'"
  by (auto simp: native_ports_def andThen_eq_Inr Let_def same_drives_ports)

lemma channel_ports_same: "channel_ports L a k i (t, s) = Inr (t', s') \<Longrightarrow> same_drives s s'"
  by (auto simp: channel_ports_def Let_def andThen_eq_Inr same_drives_def set_channel_def
      dest!: native_ports_same split: if_splits)

lemma found_same: "same_drives s s' \<Longrightarrow> found s' = found s"
  by (simp add: same_drives_def found_def)

lemma probe_drive_found:
  assumes "probe_drive P L c j (buf, s) = Inr (buf', s')"
  shows "ide_num_channels s' = ide_num_channels s \<and> ide_num_controllers s' = ide_num_controllers s \<and>
    ((ide_num_devices s' = ide_num_devices s \<and> found s' = found s) \<or>
     (ide_num_devices s' = ide_num_devices s + 1 \<and> found s' = found s @ [(c, of_nat j)])) \<and>
    ((\<forall>d < ide_num_devices s. identified (ide_devices s d)) \<longrightarrow>
     (\<forall>d < ide_num_devices s'. identified (ide_devices s' d)))"
  using assms
  by (auto simp: probe_drive_def Let_def found_def set_drive_def set_hw_def ident_fields_def identified_def
        less_Suc_eq nth_append split: if_splits option.splits prod.splits)

text \<open>What a round over a channel, a controller, or the whole list adds to the table.\<close>

definition all_identified :: "'h ide \<Rightarrow> bool" where
  "all_identified s \<longleftrightarrow> (\<forall>d < ide_num_devices s. identified (ide_devices s d))"

lemma table_ok_same: "same_drives s s' \<Longrightarrow> table_ok s' = table_ok s"
  using found_same [of s s'] by (simp add: table_ok_def same_drives_def)

lemma probe_channel_found:
  assumes "probe_channel P L a k i (t, added, buf, s) = Inr (t', added', buf', s')"
  shows "ide_num_controllers s' = ide_num_controllers s \<and>
    (all_identified s \<longrightarrow> all_identified s') \<and>
    ((ide_num_channels s' = ide_num_channels s \<and> found s' = found s \<and> added' = added) \<or>
     (ide_num_channels s' = ide_num_channels s + 1 \<and> added' \<and>
      (\<exists>ds \<in> drives_choice. found s' = found s @ map (Pair (ide_num_channels s)) ds)))"
proof -
  obtain t1 s1 where s1: "channel_ports L a k i (t, s) = Inr (t1, s1)"
    using assms by (auto simp: probe_channel_def andThen_eq_Inr)
  let ?c = "ide_num_channels s1"
  obtain b2 s2 where s2: "probe_drive P L ?c 0 (buf, s1) = Inr (b2, s2)"
    using assms s1 by (auto simp: probe_channel_def andThen_eq_Inr Let_def)
  obtain b3 s3 where s3: "probe_drive P L ?c 1 (b2, s2) = Inr (b3, s3)"
    using assms s1 s2 by (auto simp: probe_channel_def andThen_eq_Inr Let_def)
  have r: "(added', s') = (if ide_num_devices s1 < ide_num_devices s3
      then (True, s3\<lparr>ide_num_channels := ?c + 1\<rparr>) else (added, s3))"
    using assms s1 s2 s3 by (auto simp: probe_channel_def andThen_eq_Inr Let_def split: if_splits)
  note same = channel_ports_same [OF s1]
  note d0 = probe_drive_found [OF s2] and d1 = probe_drive_found [OF s3]
  have f: "found (s3\<lparr>ide_num_channels := n\<rparr>) = found s3" for n by (simp add: found_def)
  have n: "length (found x) = ide_num_devices x" for x by (simp add: found_def)
  have id: "all_identified s \<longrightarrow> all_identified s3"
    using same d0 d1 by (simp add: all_identified_def same_drives_def)
  show ?thesis
    using r same found_same [OF same] d0 d1 id f
    by (auto simp: same_drives_def all_identified_def split: if_splits)
qed

lemma table_ok_next:
  assumes "table_ok s" and "all_identified s'" and "ds \<in> drives_choice"
    and "ide_num_channels s' = ide_num_channels s + 1" and "found s' = found s @ map (Pair (ide_num_channels s)) ds"
  shows "table_ok s'"
proof -
  let ?n = "ide_num_channels s"
  obtain f where f: "\<And>c. c < ?n \<Longrightarrow> f c \<in> drives_choice"
    "found s = concat (map (\<lambda>c. map (Pair c) (f c)) [0..<?n])"
    using assms(1) by (auto simp: table_ok_def)
  define g where "g = f(?n := ds)"
  have g: "g ?n = ds" "\<And>c. c < ?n \<Longrightarrow> g c = f c" by (simp_all add: g_def)
  have m: "map (\<lambda>c. map (Pair c) (g c)) [0..<?n] = map (\<lambda>c. map (Pair c) (f c)) [0..<?n]"
    by (rule map_cong [OF refl]) (simp add: g(2))
  have "concat (map (\<lambda>c. map (Pair c) (g c)) [0..<?n + 1]) =
      concat (map (\<lambda>c. map (Pair c) (g c)) [0..<?n]) @ map (Pair ?n) ds"
    by (simp add: g(1))
  then have "found s' = concat (map (\<lambda>c. map (Pair c) (g c)) [0..<?n + 1])"
    unfolding m assms(5) f(2) by (rule sym)
  moreover have "\<forall>c < ?n + 1. g c \<in> drives_choice" using f(1) assms(3) g by (simp only: less_Suc_eq Suc_eq_plus1 [symmetric]) auto
  ultimately show ?thesis using assms(2,4) unfolding table_ok_def all_identified_def by auto
qed

lemma table_ok_identified: "table_ok s \<Longrightarrow> all_identified s"
  by (simp add: table_ok_def all_identified_def)

lemma probe_channel_table:
  assumes "probe_channel P L a k i (t, added, buf, s) = Inr (t', added', buf', s')" and "table_ok s"
  shows "table_ok s' \<and> ide_num_controllers s' = ide_num_controllers s \<and>
    ((ide_num_channels s' = ide_num_channels s \<and> added' = added) \<or> (ide_num_channels s' = ide_num_channels s + 1 \<and> added'))"
proof -
  note p = probe_channel_found [OF assms(1)] and id = table_ok_identified [OF assms(2)]
  show ?thesis
  proof (cases "ide_num_channels s' = ide_num_channels s")
    case True
    then have "found s' = found s" using p by auto
    then have "table_ok s'" using assms(2) p id True by (simp add: table_ok_def all_identified_def)
    then show ?thesis using p True by auto
  next
    case False
    then show ?thesis using p id table_ok_next [OF assms(2)] by metis
  qed
qed

text \<open>The whole table: besides, there are at most four controllers with at most two channels each.\<close>

definition ide_ok :: "'h ide \<Rightarrow> bool" where
  "ide_ok s \<longleftrightarrow> table_ok s \<and> ide_num_controllers s \<le> 4 \<and> ide_num_channels s \<le> 2 * ide_num_controllers s"

lemma probe_controller_ok:
  assumes "probe_controller P L a (buf, s) = Inr (buf', s')" and "ide_ok s"
  shows "ide_ok s'"
proof -
  let ?k = "ide_num_controllers s"
  have k: "?k < 4" using assms(1) by (auto simp: probe_controller_def Let_def split: if_splits)
  obtain s1 where s1: "(if type0_bar (pd_config (pci_devs (ide_pci s) a)) 4 AND 1 \<noteq> 0
      then andThen (take_ports 16 16 s) (\<lambda>(p, s1). Inr (set_bus_master_base L a p s1)) else Inr s) = Inr s1"
    using assms(1) k by (auto simp: probe_controller_def Let_def andThen_eq_Inr)
  let ?s = "set_controller ?k (\<lambda>_. copy_device_to_controller (pci_devs (ide_pci s1) a)) s1"
  have same: "same_drives s ?s"
    using s1 by (auto simp: andThen_eq_Inr same_drives_ports split: if_splits)
  obtain t2 a2 b2 s2 where s2: "probe_channel P L a ?k 0 (False, False, buf, ?s) = Inr (t2, a2, b2, s2)"
    using assms(1) k s1 by (auto simp: probe_controller_def Let_def andThen_eq_Inr)
  obtain t3 a3 s3 where s3: "probe_channel P L a ?k 1 (t2, a2, b2, s2) = Inr (t3, a3, buf', s3)"
      "s' = (if a3 then s3\<lparr>ide_num_controllers := ?k + 1\<rparr> else s3)"
    using assms(1) k s1 s2 by (auto simp: probe_controller_def Let_def andThen_eq_Inr)
  have t: "table_ok ?s" using assms(2) table_ok_same [OF same] by (simp add: ide_ok_def)
  note c2 = probe_channel_table [OF s2 t]
  note c3 = probe_channel_table [OF s3(1) c2 [THEN conjunct1]]
  have "table_ok (s3\<lparr>ide_num_controllers := n\<rparr>) = table_ok s3" for n by (simp add: table_ok_def found_def)
  then show ?thesis
    using c2 c3 same assms(2) k by (auto simp: ide_ok_def same_drives_def s3(2))
qed

lemma ide_scan_ok:
  fixes P :: "'a ports"
  assumes "ide_scan P L a bs = Some (Inr bs')" and "ide_ok (snd bs)"
  shows "ide_ok (snd bs')"
proof -
  define Q where "Q = (\<lambda>(x :: ('a ports \<times> 'a long_ports) \<times> u32, bs :: bytes \<times> 'a ide) r :: (bytes \<times> 'a ide) outcome.
    ide_ok (snd bs) \<longrightarrow> (\<forall>bs'. r = Inr bs' \<longrightarrow> ide_ok (snd bs')))"
  have "Q (((P, L), a), bs) (Inr bs')"
    using assms(1)
  proof (rule ide_scan.raw_induct [of Q, rotated], goal_cases)
    case (1 scan P L a bs r)
    have step: "ide_ok (snd bs1)" if "probe_controller P L a bs = Inr bs1" "ide_ok (snd bs)" for bs1
      using that probe_controller_ok [of P L a "fst bs" "snd bs" "fst bs1" "snd bs1"] by simp
    show ?case
      unfolding Q_def prod.case
    proof (intro impI allI)
      fix bs1
      assume ok: "ide_ok (snd bs)" and r: "r = Inr bs1"
      show "ide_ok (snd bs1)"
      proof (cases "a = 0")
        case True
        then show ?thesis using 1(2) ok r by simp
      next
        case False
        obtain bs2 where bs2: "(if is_ide (pci_devs (ide_pci (snd bs)) a) then probe_controller P L a bs else Inr bs) = Inr bs2"
          "scan P L (pd_next (pci_devs (ide_pci (snd bs2)) a)) bs2 = Some r"
          using 1(2) False r by (simp split: sum.splits)
        have "ide_ok (snd bs2)" using bs2(1) step [of bs2] ok by (simp split: if_splits)
        then show ?thesis using 1(1) [OF bs2(2)] r by (cases bs1) (simp add: Q_def)
      qed
    qed
  qed
  then show ?thesis using assms(2) by (cases bs') (simp add: Q_def)
qed


text \<open>A machine with one controller of the old kind: every status read says that data is ready.\<close>

definition ready_ports :: "unit ports" where
  "ready_ports = \<lparr>p_inb = (\<lambda>p h. (0x48, h)), p_inw = (\<lambda>p h. (0, h)), p_outb = (\<lambda>p v h. h), p_outw = (\<lambda>p w h. h)\<rparr>"

definition ready_longs :: "unit long_ports" where
  "ready_longs = \<lparr>p_outl = (\<lambda>p v h. h), p_inl = (\<lambda>p h. (0x20202020, h))\<rparr>"

definition one_controller :: pci_device_t where
  "one_controller = \<lparr>pd_address = \<lparr>pa_bus = 0, pa_slot = 1, pa_func = 1, pa_offset = 0\<rparr>,
     pd_config = (\<lambda>i. if i = 2 then 0x01010000 else 0), pd_memory_space = 0, pd_next = 0, pd_prev = 0\<rparr>"

definition old_machine :: "unit pci \<Rightarrow> unit ide" where
  "old_machine p =
     \<lparr>ide_pci = p\<lparr>pci_devs := (\<lambda>_. one_controller), pci_lists := (\<lambda>_. \<lparr>pl_size = 1, pl_first = 0x100, pl_last = 0x100\<rparr>)\<rparr>,
      ide_current_port = ioports_init, ide_num_devices = 7, ide_num_channels = 7, ide_num_controllers = 7,
      ide_controllers = (\<lambda>_. copy_device_to_controller one_controller),
      ide_channels = (\<lambda>_. \<lparr>ch_io = 0x1F0, ch_control = 0x3F4, ch_bus_master = 0, ch_primary = 0\<rparr>),
      ide_devices = (\<lambda>_. \<lparr>id_channel = 0, id_valid = 0, id_drive = 0, id_type = 0, id_signature = 0,
         id_capabilities = 0, id_command_sets = 0, id_size = 0, id_model = []\<rparr>),
      ide_calls = (\<lambda>_. None)\<rparr>"

lemma ready_read: "fst (ide_register_read ready_ports dev ATA_REG_STATUS v h) = 0x48"
  by (simp add: ide_register_read_def ide_port_def ready_ports_def)

lemma ready_wait: "probe_wait ready_ports dev 1 h = Some (0x48, ())"
proof -
  have "ide_register_read ready_ports dev ATA_REG_STATUS 1 h = (0x48, ())"
    using ready_read [of dev 1 h] by (simp add: prod_eq_iff)
  then show ?thesis by (subst probe_wait.simps) simp
qed

lemma ready_drive:
  assumes "ide_num_devices s < 16"
  shows "\<exists>b' s'. probe_drive ready_ports ready_longs c j (b, s) = Inr (b', s') \<and>
    ide_num_devices s' = ide_num_devices s + 1 \<and> ide_num_channels s' = ide_num_channels s \<and>
    ide_num_controllers s' = ide_num_controllers s \<and> ide_pci s' = ide_pci s"
  using assms
  by (simp add: probe_drive_def Let_def ready_wait ide_read_ident_space_def set_drive_def set_hw_def split: prod.split)

lemma ready_channel:
  assumes "ide_num_devices s + 1 < 16" and "ide_num_channels s < 8" and "i < 2" and "pci_devs (ide_pci s) a = one_controller"
  shows "\<exists>b' s'. probe_channel ready_ports ready_longs a k i (t, x, b, s) = Inr (True, True, b', s') \<and>
    ide_num_devices s' = ide_num_devices s + 2 \<and> ide_num_channels s' = ide_num_channels s + 1 \<and>
    ide_num_controllers s' = ide_num_controllers s \<and> ide_pci s' = ide_pci s"
proof -
  have bar: "type0_bar (pd_config one_controller) n = 0" for n by (simp add: type0_bar_def one_controller_def)
  have "\<exists>s1. channel_ports ready_longs a k i (t, s) = Inr (True, s1) \<and> ide_pci s1 = ide_pci s \<and>
    ide_num_devices s1 = ide_num_devices s \<and> ide_num_channels s1 = ide_num_channels s \<and>
    ide_num_controllers s1 = ide_num_controllers s"
    using assms(2,4) by (cases t) (simp_all add: channel_ports_def Let_def set_channel_def bar)
  then obtain s1 where s1: "channel_ports ready_longs a k i (t, s) = Inr (True, s1)" "ide_pci s1 = ide_pci s"
    "ide_num_devices s1 = ide_num_devices s" "ide_num_channels s1 = ide_num_channels s"
    "ide_num_controllers s1 = ide_num_controllers s"
    by blast
  obtain b2 s2 where s2: "probe_drive ready_ports ready_longs (ide_num_channels s1) 0 (b, s1) = Inr (b2, s2)"
    "ide_num_devices s2 = ide_num_devices s1 + 1" "ide_num_channels s2 = ide_num_channels s1"
    "ide_num_controllers s2 = ide_num_controllers s1" "ide_pci s2 = ide_pci s1"
    using ready_drive [of s1 "ide_num_channels s1" 0 b] assms(1) s1(3) by auto
  obtain b3 s3 where s3: "probe_drive ready_ports ready_longs (ide_num_channels s1) 1 (b2, s2) = Inr (b3, s3)"
    "ide_num_devices s3 = ide_num_devices s2 + 1" "ide_num_channels s3 = ide_num_channels s2"
    "ide_num_controllers s3 = ide_num_controllers s2" "ide_pci s3 = ide_pci s2"
    using ready_drive [of s2 "ide_num_channels s1" 1 b2] assms(1) s1(3) s2(2) by auto
  show ?thesis using s1 s2 s3 by (simp add: probe_channel_def Let_def)
qed

lemma ready_search:
  "\<exists>s'. ide_init ready_ports ready_longs 1 (old_machine p) = Inr (0, s') \<and>
     ide_num_devices s' = 4 \<and> ide_num_channels s' = 2 \<and> ide_num_controllers s' = 1"
proof -
  let ?s = "(old_machine p)\<lparr>ide_num_devices := 0, ide_num_channels := 0, ide_num_controllers := 0\<rparr>"
  let ?s1 = "set_controller 0 (\<lambda>_. copy_device_to_controller one_controller) ?s"
  have d: "pci_devs (ide_pci ?s1) a = one_controller" "ide_pci ?s1 = ide_pci ?s" for a
    by (simp_all add: set_controller_def old_machine_def)
  obtain b2 s2 where s2: "probe_channel ready_ports ready_longs 0x100 0 0 (False, False, (\<lambda>_. 0), ?s1) = Inr (True, True, b2, s2)"
    "ide_num_devices s2 = 2" "ide_num_channels s2 = 1" "ide_num_controllers s2 = 0" "ide_pci s2 = ide_pci ?s1"
    using ready_channel [where s = ?s1 and i = 0 and a = "0x100" and k = 0 and t = False and x = False and b = "\<lambda>_. 0"] d by (auto simp: set_controller_def)
  obtain b3 s3 where s3: "probe_channel ready_ports ready_longs 0x100 0 1 (True, True, b2, s2) = Inr (True, True, b3, s3)"
    "ide_num_devices s3 = 4" "ide_num_channels s3 = 2" "ide_num_controllers s3 = 0" "ide_pci s3 = ide_pci ?s1"
    using ready_channel [where s = s2 and i = 1 and a = "0x100" and k = 0 and t = True and x = True and b = b2] s2 d by (auto simp: numeral_2_eq_2)
  have c: "is_ide one_controller" "type0_bar (pd_config one_controller) 4 = 0" "pd_next one_controller = 0"
    by (simp_all add: is_ide_def classCode_def subClass_def byte_of_def type0_bar_def one_controller_def)
  have "probe_controller ready_ports ready_longs 0x100 ((\<lambda>_. 0), ?s) = Inr (b3, s3\<lparr>ide_num_controllers := 1\<rparr>)"
    using s2 s3 c d by (simp add: probe_controller_def Let_def)
  then have "ide_scan ready_ports ready_longs 0x100 ((\<lambda>_. 0), ?s) = Some (Inr (b3, s3\<lparr>ide_num_controllers := 1\<rparr>))"
    using s3 c d by (subst ide_scan.simps, simp) (subst ide_scan.simps, simp)
  then show ?thesis using s3 d by (simp add: ide_init_def old_machine_def)
qed


section \<open>The system calls\<close>

text \<open>The system calls of the driver, when the second drive that was found behaves as ATA
  documents: a write changes the sector and a read gets it; but for a sector that the drive cannot
  read the caller is told success too, with its buffer as it was.\<close>

theorem ide_calls_hide_errors:
  assumes "ata_ok P (device_view s 1) view"
  shows "(\<exists>s'. ide_sys_write P sector buf s = Some (E_SUCCESS, s') \<and>
        av_disk (view (get_hw s')) = ide_write sector 0 buf (av_disk (view (get_hw s)))) \<and>
     (\<exists>s'. ide_sys_read P sector buf s =
        Some (E_SUCCESS, if sector \<in> av_bad (view (get_hw s)) then buf
                         else ide_read sector 0 (av_disk (view (get_hw s))) buf, s') \<and>
        av_disk (view (get_hw s')) = av_disk (view (get_hw s)))"
proof -
  have h [simp]: "get_hw (set_hw h s) = h" for h by (simp add: get_hw_def set_hw_def)
  obtain h1 where "ide_pio_lba_write P (device_view s 1) sector buf (get_hw s) = Some (E_SUCCESS, h1)"
    "av_disk (view h1) = ide_write sector 0 buf (av_disk (view (get_hw s)))"
    by (rule pio_write_sector [OF assms]) blast
  moreover obtain h2 where "ide_pio_lba_read P (device_view s 1) sector buf (get_hw s) =
      Some (if sector \<in> av_bad (view (get_hw s)) then (2, buf, h2)
            else (E_SUCCESS, ide_read sector 0 (av_disk (view (get_hw s))) buf, h2))"
    "av_disk (view h2) = av_disk (view (get_hw s))"
    by (rule pio_read_sector [OF assms]) blast
  ultimately show ?thesis by (simp add: ide_sys_write_def ide_sys_read_def)
qed

definition sample_ide :: "ata_view ide" where
  "sample_ide =
     \<lparr>ide_pci = \<lparr>pci_hw = sample_drive, pci_mem = undefined, pci_devs = (\<lambda>_. one_controller), pci_lists = undefined, pci_log = []\<rparr>,
      ide_current_port = ioports_init, ide_num_devices = 2, ide_num_channels = 1, ide_num_controllers = 1,
      ide_controllers = (\<lambda>_. copy_device_to_controller one_controller),
      ide_channels = (\<lambda>_. \<lparr>ch_io = 0x1F0, ch_control = 0x3F4, ch_bus_master = 0, ch_primary = 0\<rparr>),
      ide_devices = (\<lambda>_. \<lparr>id_channel = 0, id_valid = 1, id_drive = 0, id_type = 0, id_signature = 0,
         id_capabilities = 0, id_command_sets = 0, id_size = 0, id_model = []\<rparr>),
      ide_calls = (\<lambda>_. None)\<rparr>"

theorem ide_calls_hide_errors_witness:
  "(\<exists>s' b. ide_sys_read (sample_ports 7) 5 (\<lambda>_. 0x42) sample_ide = Some (0, b, s') \<and> b 0 = 0x41) \<and>
   (\<exists>s'. ide_sys_read (sample_ports 7) 9 (\<lambda>_. 0x42) sample_ide = Some (0, \<lambda>_. 0x42, s'))"
proof -
  have ok: "ata_ok (sample_ports 7) (device_view sample_ide 1) sample_view"
    using sample_drive_ok [of 7] by (simp add: device_view_def sample_ide_def sample_device_def)
  have d: "av_bad (get_hw sample_ide) = {9}" "av_disk (get_hw sample_ide) 5 0 = 0x41"
    by (simp_all add: get_hw_def sample_ide_def sample_drive_def)
  show ?thesis
    using ide_calls_hide_errors [OF ok, of 5 "\<lambda>_. 0x42"] ide_calls_hide_errors [OF ok, of 9 "\<lambda>_. 0x42"] d
    by (auto simp: ide_read_def blit_def SECTOR_SIZE_def)
qed

end
