(* ===== verification/Kheap.thy ===== *)
theory Kheap
  imports Prelude
begin

text \<open>
  The heap with a free list, \<^verbatim>\<open>kernel/kheap.c\<close>.  Memory is a function from the addresses of
  words to words; a block has its length in words at its address and, while it is free, the
  address of the next free block in the word behind, which is the first word of its memory otherwise.
\<close>

section \<open>Memory and blocks\<close>

record kheap =
  kh_mem :: "u32 \<Rightarrow> u32"
  kh_freelist :: u32

definition block_length :: "(u32 \<Rightarrow> u32) \<Rightarrow> u32 \<Rightarrow> u32" where
  "block_length m b = m b"

definition block_next :: "(u32 \<Rightarrow> u32) \<Rightarrow> u32 \<Rightarrow> u32" where
  "block_next m b = m (b + 4)"

definition set_length :: "u32 \<Rightarrow> u32 \<Rightarrow> kheap \<Rightarrow> kheap" where
  "set_length b n s = s\<lparr>kh_mem := (kh_mem s)(b := n)\<rparr>"

text \<open>The cell of a pointer to a block: that of the block before, or of the list when that is null.\<close>

definition set_next :: "u32 \<Rightarrow> u32 \<Rightarrow> kheap \<Rightarrow> kheap" where
  "set_next previous b s =
     (if previous = 0 then s\<lparr>kh_freelist := b\<rparr> else s\<lparr>kh_mem := (kh_mem s)(previous + 4 := b)\<rparr>)"

definition adjacent :: "(u32 \<Rightarrow> u32) \<Rightarrow> u32 \<Rightarrow> u32 \<Rightarrow> bool" where
  "adjacent m first second \<longleftrightarrow> first + 4 + 4 * block_length m first = second"

definition length_of :: "(u32 \<Rightarrow> u32) \<Rightarrow> u32 \<Rightarrow> u32" where
  "length_of m b = block_length m b + 1"

section \<open>Allocation\<close>

text \<open>The first block that is large enough, with the block before it.\<close>

partial_function (option) find_fit :: "(u32 \<Rightarrow> u32) \<Rightarrow> u32 \<Rightarrow> u32 \<Rightarrow> u32 \<Rightarrow> (u32 \<times> u32) option" where
  "find_fit m desired_length previous block =
     (if block \<noteq> 0 \<and> block_length m block < desired_length
      then find_fit m desired_length block (block_next m block)
      else Some (previous, block))"

definition to_words :: "u32 \<Rightarrow> u32" where
  "to_words n = drop_bit 2 (n + 3)"

definition kheap_alloc :: "u32 \<Rightarrow> kheap \<Rightarrow> (u32 \<times> kheap) option" where
  "kheap_alloc desired_length s =
     (let desired_length = to_words desired_length
      in case find_fit (kh_mem s) desired_length 0 (kh_freelist s) of
           None \<Rightarrow> None
         | Some (previous, block) \<Rightarrow>
             if block = 0 then Some (0, s)
             else if block_length (kh_mem s) block > desired_length + 2 then
               let fragment_size = 1 + desired_length;
                   fragment = block + 4 + 4 * (block_length (kh_mem s) block - fragment_size);
                   s1 = set_length fragment desired_length s;
                   s2 = set_length block (block_length (kh_mem s1) block - fragment_size) s1
               in Some (fragment + 4, s2)
             else Some (block + 4, set_next previous (block_next (kh_mem s) block) s))"

section \<open>Release\<close>

text \<open>The free blocks between which the block at \<open>used\<close> lies.\<close>

partial_function (option) find_place :: "(u32 \<Rightarrow> u32) \<Rightarrow> u32 \<Rightarrow> u32 \<Rightarrow> u32 \<Rightarrow> (u32 \<times> u32) option" where
  "find_place m used previous block =
     (if block \<noteq> 0 \<and> block < used then find_place m used block (block_next m block)
      else Some (previous, block))"

definition kheap_free :: "u32 \<Rightarrow> kheap \<Rightarrow> kheap option" where
  "kheap_free address s =
     (if address = 0 then Some s
      else
        let used = address - 4
        in case find_place (kh_mem s) used 0 (kh_freelist s) of
             None \<Rightarrow> None
           | Some (previous, block) \<Rightarrow>
               let (used, s1) =
                     (if previous \<noteq> 0 then
                        if adjacent (kh_mem s) previous used then
                          (previous, set_length previous (block_length (kh_mem s) previous + length_of (kh_mem s) used) s)
                        else (used, set_next previous used (set_next used (block_next (kh_mem s) previous) s))
                      else (used, s\<lparr>kh_mem := (kh_mem s)(used + 4 := kh_freelist s), kh_freelist := used\<rparr>))
               in Some (if block \<noteq> 0 \<and> adjacent (kh_mem s1) used block then
                          let s2 = set_next used (block_next (kh_mem s1) block) s1
                          in set_length used (block_length (kh_mem s2) used + length_of (kh_mem s2) block) s2
                        else s1))"

section \<open>Finding memory\<close>

text \<open>
  \<^verbatim>\<open>_kalloc_init\<close> probes addresses by writing and reading back; the word is restored, so that the
  probe only shows whether there is memory.  The loop at \<open>addr\<close>, with the step in words, whether
  the last address was present, the start of the present chunk, and the last block of the list.
\<close>

abbreviation KHEAP_TOP :: u32 where "KHEAP_TOP \<equiv> 0xf0000000"
abbreviation FAST_SEARCH_INCREMENT :: u32 where "FAST_SEARCH_INCREMENT \<equiv> 4096"

text \<open>
  The difference of two pointers to integers is signed.  The address \<open>video\<close> of the video memory is
  a constant of a header that is not part of the kernel's sources.
\<close>

definition add_chunk :: "u32 \<Rightarrow> u32 \<Rightarrow> u32 \<Rightarrow> u32 \<Rightarrow> kheap \<Rightarrow> u32 \<times> kheap" where
  "add_chunk video firstaddr addr tail_block s =
     (if firstaddr = video then (tail_block, s)
      else (firstaddr, set_next tail_block firstaddr
              (s\<lparr>kh_mem := (kh_mem s)
                   (firstaddr := signed_drop_bit 2 (addr - (firstaddr + 4)), firstaddr + 4 := 0)\<rparr>)))"

partial_function (option) probe_memory ::
  "(u32 \<Rightarrow> bool) \<Rightarrow> u32 \<Rightarrow> u32 \<Rightarrow> u32 \<Rightarrow> bool \<Rightarrow> u32 \<Rightarrow> u32 \<Rightarrow> kheap \<Rightarrow> kheap option" where
  "probe_memory has_memory video addr increment last_present firstaddr tail_block s =
     (if KHEAP_TOP < addr then Some s
      else if has_memory addr = last_present then
        probe_memory has_memory video (addr + 4 * increment) increment last_present firstaddr tail_block s
      else if increment \<noteq> 1 then
        probe_memory has_memory video (addr - 4 * increment + 4) 1 last_present firstaddr tail_block s
      else if has_memory addr then
        probe_memory has_memory video (addr + 4 * FAST_SEARCH_INCREMENT) FAST_SEARCH_INCREMENT True addr tail_block s
      else
        (case add_chunk video firstaddr addr tail_block s of
           (tail_block, s') \<Rightarrow>
             probe_memory has_memory video (addr + 4 * FAST_SEARCH_INCREMENT) FAST_SEARCH_INCREMENT False
               firstaddr tail_block s'))"

definition kheap_init :: "(u32 \<Rightarrow> bool) \<Rightarrow> u32 \<Rightarrow> u32 \<Rightarrow> kheap \<Rightarrow> kheap option" where
  "kheap_init has_memory video kernel_end s = probe_memory has_memory video kernel_end 1 False 0 0 s"

end
