(* ===== verification/Kheap_Lemmas.thy ===== *)
theory Kheap_Lemmas
  imports Kheap
begin

text \<open>
  The free list as a list of blocks: a block is the address and the number of words behind its length.
  \<open>path\<close> follows the links in memory; \<open>spaced\<close> says that the blocks are ordered, do not touch
  and lie in the address space.  The lists \<open>take_block\<close> and \<open>give_block\<close> are what allocation and
  release do to the free list.
\<close>

section \<open>Blocks and paths\<close>

type_synonym block = "nat \<times> nat"

definition span :: "block \<Rightarrow> nat set" where
  "span x = {fst x ..< fst x + 4 + 4 * snd x}"

definition spans :: "block list \<Rightarrow> nat set" where
  "spans bs = (\<Union>x\<in>set bs. span x)"

definition block_ok :: "block \<Rightarrow> bool" where
  "block_ok x \<longleftrightarrow> 0 < fst x \<and> 4 dvd fst x \<and> 0 < snd x \<and> fst x + 4 + 4 * snd x < 2 ^ 32"

definition before :: "block \<Rightarrow> block \<Rightarrow> bool" where
  "before x y \<longleftrightarrow> fst x + 4 + 4 * snd x < fst y"

definition ordered :: "block list \<Rightarrow> bool" where
  "ordered bs \<longleftrightarrow> sorted_wrt (\<lambda>x y. fst x + 4 + 4 * snd x \<le> fst y) bs \<and> (\<forall>x\<in>set bs. block_ok x)"

definition spaced :: "block list \<Rightarrow> bool" where
  "spaced bs \<longleftrightarrow> sorted_wrt before bs \<and> (\<forall>x\<in>set bs. block_ok x)"

fun path :: "(u32 \<Rightarrow> u32) \<Rightarrow> u32 \<Rightarrow> block list \<Rightarrow> u32 \<Rightarrow> bool" where
  "path m p [] r \<longleftrightarrow> p = r"
| "path m p ((b, n) # bs) r \<longleftrightarrow> p = of_nat b \<and> m p = of_nat n \<and> path m (m (p + 4)) bs r"

definition free_blocks :: "kheap \<Rightarrow> block list \<Rightarrow> bool" where
  "free_blocks s bs \<longleftrightarrow> path (kh_mem s) (kh_freelist s) bs 0 \<and> spaced bs"

lemma spans_simps [simp]:
  "spans [] = {}" "spans (x # bs) = span x \<union> spans bs" "spans (xs @ ys) = spans xs \<union> spans ys"
  by (auto simp: spans_def)

lemma spaced_Nil [simp]: "spaced []"
  by (simp add: spaced_def)

lemma spaced_Cons: "spaced (x # bs) \<longleftrightarrow> block_ok x \<and> (\<forall>y\<in>set bs. before x y) \<and> spaced bs"
  by (auto simp: spaced_def)

lemma spaced_append:
  "spaced (xs @ ys) \<longleftrightarrow> spaced xs \<and> spaced ys \<and> (\<forall>x\<in>set xs. \<forall>y\<in>set ys. before x y)"
  by (auto simp: spaced_def sorted_wrt_append)

lemma ordered_Nil [simp]: "ordered []"
  by (simp add: ordered_def)

lemma ordered_Cons:
  "ordered (x # bs) \<longleftrightarrow> block_ok x \<and> (\<forall>y\<in>set bs. fst x + 4 + 4 * snd x \<le> fst y) \<and> ordered bs"
  by (auto simp: ordered_def)

lemma ordered_append:
  "ordered (xs @ ys) \<longleftrightarrow>
   ordered xs \<and> ordered ys \<and> (\<forall>x\<in>set xs. \<forall>y\<in>set ys. fst x + 4 + 4 * snd x \<le> fst y)"
  by (auto simp: ordered_def sorted_wrt_append)

lemma spaced_ordered: "spaced bs \<Longrightarrow> ordered bs"
  by (induction bs) (auto simp: spaced_Cons ordered_Cons before_def less_imp_le)

lemma path_append: "path m p (xs @ ys) r \<longleftrightarrow> (\<exists>q. path m p xs q \<and> path m q ys r)"
  by (induction m p xs r rule: path.induct) auto

lemma of_nat_u32_eq: "a < 2 ^ 32 \<Longrightarrow> b < 2 ^ 32 \<Longrightarrow> (of_nat a = (of_nat b :: u32)) = (a = b)"
  by (metis unat_of_nat_u32)

lemma unat_add_u32: "unat (p :: u32) + k < 2 ^ 32 \<Longrightarrow> unat (p + of_nat k) = unat p + k"
  using unat_of_nat_u32 [of "unat p + k"] by simp

lemma block_words:
  assumes "block_ok (b, n)"
  shows "unat (of_nat b :: u32) = b" "unat (of_nat b + 4 :: u32) = b + 4"
    "b \<in> span (b, n)" "b + 4 \<in> span (b, n)"
  using assms unat_of_nat_u32 [of b] unat_add_u32 [of "of_nat b" 4]
  by (simp_all add: block_ok_def span_def)

text \<open>Words outside the blocks do not matter.\<close>

lemma path_frame:
  "\<forall>x\<in>set bs. block_ok x \<Longrightarrow> (\<And>a. unat a \<in> spans bs \<Longrightarrow> m' a = m a) \<Longrightarrow> path m' p bs r = path m p bs r"
proof (induction bs arbitrary: p)
  case (Cons x bs)
  obtain b n where x: "x = (b, n)" by fastforce
  have ok: "block_ok (b, n)" using Cons.prems(1) by (simp add: x)
  have "m' (of_nat b) = m (of_nat b)" "m' (of_nat b + 4) = m (of_nat b + 4)"
    using block_words [OF ok] Cons.prems(2) [of "of_nat b"] Cons.prems(2) [of "of_nat b + 4"]
    by (simp_all add: x)
  moreover have "path m' q bs r = path m q bs r" for q
    by (rule Cons.IH) (use Cons.prems in auto)
  ultimately show ?case by (cases "p = of_nat b") (simp_all add: x)
qed simp

lemma path_upd:
  "\<forall>x\<in>set bs. block_ok x \<Longrightarrow> unat a \<notin> spans bs \<Longrightarrow> path (m(a := v)) p bs r = path m p bs r"
  by (rule path_frame) auto

fun last_ptr :: "u32 \<Rightarrow> block list \<Rightarrow> u32" where
  "last_ptr q [] = q"
| "last_ptr q ((b, n) # xs) = last_ptr (of_nat b) xs"

lemma last_ptr_snoc [simp]: "last_ptr q (xs @ [(b, n)]) = of_nat b"
  by (induction q xs rule: last_ptr.induct) auto

fun head_ptr :: "block list \<Rightarrow> u32" where
  "head_ptr [] = 0"
| "head_ptr ((b, n) # xs) = of_nat b"

lemma of_nat_pos_u32: "0 < b \<Longrightarrow> b < 2 ^ 32 \<Longrightarrow> (of_nat b :: u32) \<noteq> 0"
  using of_nat_u32_eq [of b 0] by simp

lemma find_fit_path:
  "path m p bs 0 \<Longrightarrow> \<forall>x\<in>set bs. block_ok x \<Longrightarrow>
   find_fit m w q p = Some (last_ptr q (takeWhile (\<lambda>x. snd x < unat w) bs),
                            head_ptr (dropWhile (\<lambda>x. snd x < unat w) bs))"
proof (induction bs arbitrary: p q)
  case Nil
  then show ?case by (subst find_fit.simps) simp
next
  case (Cons x bs)
  obtain b n where x: "x = (b, n)" by fastforce
  have "0 < b" "b < 2 ^ 32" "n < 2 ^ 32" using Cons.prems(2) by (auto simp: x block_ok_def)
  then have "p \<noteq> 0" "p = of_nat b" "(block_length m p < w) = (n < unat w)"
    using Cons.prems(1)
    by (auto simp: x of_nat_pos_u32 block_length_def word_less_nat_alt unat_of_nat_u32)
  moreover have "path m (block_next m p) bs 0" using Cons.prems(1) by (simp add: x block_next_def) metis
  ultimately show ?case
    using Cons.IH [of "block_next m p" p] Cons.prems(2) by (subst find_fit.simps) (auto simp: x)
qed

lemma find_place_path:
  "path m p bs 0 \<Longrightarrow> \<forall>x\<in>set bs. block_ok x \<Longrightarrow>
   find_place m u q p = Some (last_ptr q (takeWhile (\<lambda>x. fst x < unat u) bs),
                              head_ptr (dropWhile (\<lambda>x. fst x < unat u) bs))"
proof (induction bs arbitrary: p q)
  case Nil
  then show ?case by (subst find_place.simps) simp
next
  case (Cons x bs)
  obtain b n where x: "x = (b, n)" by fastforce
  have "0 < b" "b < 2 ^ 32" using Cons.prems(2) by (auto simp: x block_ok_def)
  then have "p \<noteq> 0" "p = of_nat b" "(p < u) = (b < unat u)"
    using Cons.prems(1) by (auto simp: x of_nat_pos_u32 word_less_nat_alt unat_of_nat_u32)
  moreover have "path m (block_next m p) bs 0" using Cons.prems(1) by (simp add: x block_next_def) metis
  ultimately show ?case
    using Cons.IH [of "block_next m p" p] Cons.prems(2) by (subst find_place.simps) (auto simp: x)
qed

section \<open>Links\<close>

lemma ordered_mid:
  assumes "ordered (xs @ x # zs)"
  shows "ordered xs" "ordered zs" "block_ok x" "\<forall>y\<in>set xs. block_ok y" "\<forall>y\<in>set zs. block_ok y"
    "span x \<inter> spans xs = {}" "span x \<inter> spans zs = {}" "spans xs \<inter> spans zs = {}"
proof -
  have sp: "ordered xs" "ordered zs" "block_ok x" "\<forall>z\<in>set zs. fst x + 4 + 4 * snd x \<le> fst z"
    "\<forall>y\<in>set xs. fst y + 4 + 4 * snd y \<le> fst x"
    "\<forall>y\<in>set xs. \<forall>z\<in>set zs. fst y + 4 + 4 * snd y \<le> fst z"
    using assms by (simp_all add: ordered_append ordered_Cons)
  then show "ordered xs" "ordered zs" "block_ok x" "\<forall>y\<in>set xs. block_ok y" "\<forall>y\<in>set zs. block_ok y"
    by (simp_all add: ordered_def)
  show "span x \<inter> spans zs = {}" using sp(4) by (fastforce simp: spans_def span_def)
  show "span x \<inter> spans xs = {}" using sp(5) by (fastforce simp: spans_def span_def)
  show "spans xs \<inter> spans zs = {}" using sp(6) by (fastforce simp: spans_def span_def)
qed

lemma set_next_path:
  assumes "path (kh_mem s) (kh_freelist s) xs q" "ordered xs"
  shows "path (kh_mem (set_next (last_ptr 0 xs) v s)) (kh_freelist (set_next (last_ptr 0 xs) v s)) xs v"
proof (cases xs rule: rev_cases)
  case Nil
  then show ?thesis by (simp add: set_next_def)
next
  case (snoc zs x)
  obtain b n where x: "x = (b, n)" by fastforce
  have "ordered (zs @ (b, n) # [])" using assms(2) by (simp add: snoc x)
  note mid = ordered_mid [OF this]
  note zs = mid(4) and ok = mid(3)
  have "(of_nat b :: u32) \<noteq> 0" using ok by (simp add: block_ok_def of_nat_pos_u32)
  moreover have "b + 4 \<notin> spans zs" using mid(6) block_words(4) [OF ok] by blast
  then have "unat (of_nat b + 4 :: u32) \<notin> spans zs" using block_words(2) [OF ok] by simp
  then have "path ((kh_mem s)(of_nat b + 4 := v)) p zs r = path (kh_mem s) p zs r" for p r
    by (rule path_upd [OF zs])
  ultimately show ?thesis using assms(1) by (auto simp: snoc x set_next_def path_append)
qed

lemma set_next_frame:
  assumes "ordered xs" "unat a \<notin> spans xs"
  shows "kh_mem (set_next (last_ptr 0 xs) v s) a = kh_mem s a"
proof (cases xs rule: rev_cases)
  case Nil
  then show ?thesis by (simp add: set_next_def)
next
  case (snoc zs x)
  obtain b n where x: "x = (b, n)" by fastforce
  have ok: "block_ok (b, n)" using assms(1) by (simp add: snoc x ordered_def)
  then have "a \<noteq> of_nat b + 4" using assms(2) block_words [OF ok] by (auto simp: snoc x)
  then show ?thesis using ok by (simp add: snoc x set_next_def)
qed

section \<open>Allocation on lists\<close>

fun take_block :: "nat \<Rightarrow> block list \<Rightarrow> (block \<times> block list) option" where
  "take_block w [] = None"
| "take_block w ((b, n) # bs) =
     (if n < w then map_option (\<lambda>(x, bs'). (x, (b, n) # bs')) (take_block w bs)
      else if w + 2 < n then Some ((b + 4 + 4 * (n - (1 + w)), w), (b, n - (1 + w)) # bs)
      else Some ((b, n), bs))"

lemma take_block_skip:
  "take_block w bs = map_option (\<lambda>(x, ys). (x, takeWhile (\<lambda>x. snd x < w) bs @ ys))
     (take_block w (dropWhile (\<lambda>x. snd x < w) bs))"
  by (induction w bs rule: take_block.induct) (auto simp: option.map_comp comp_def split_beta)

lemma take_block_enough: "take_block w bs = Some (x, bs') \<Longrightarrow> w \<le> snd x"
  by (induction w bs arbitrary: bs' rule: take_block.induct) (auto split: if_splits)

lemma take_block_None: "take_block w bs = None \<longleftrightarrow> (\<forall>x\<in>set bs. snd x < w)"
  by (induction w bs rule: take_block.induct) auto

lemma take_block_addresses: "take_block w bs = Some (x, bs') \<Longrightarrow> fst ` set bs' \<subseteq> fst ` set bs"
  by (induction w bs arbitrary: bs' rule: take_block.induct) (auto split: if_splits, force)

lemma before_spans: "\<forall>y\<in>set bs. before x y \<Longrightarrow> span x \<inter> spans bs = {}"
  by (fastforce simp: before_def span_def spans_def)

lemma take_block_spans:
  "take_block w bs = Some (x, bs') \<Longrightarrow> spaced bs \<Longrightarrow>
   span x \<union> spans bs' = spans bs \<and> span x \<inter> spans bs' = {} \<and> (0 < w \<longrightarrow> block_ok x) \<and> spaced bs'"
proof (induction w bs arbitrary: bs' rule: take_block.induct)
  case (2 w b n bs)
  have ok: "block_ok (b, n)" "spaced bs" and after: "\<forall>y\<in>set bs. before (b, n) y"
    using "2.prems"(2) by (simp_all add: spaced_Cons)
  have apart: "span (b, n) \<inter> spans bs = {}" by (rule before_spans [OF after])
  consider (skip) "n < w" | (split) "w + 2 < n" | (whole) "\<not> n < w" "\<not> w + 2 < n" by linarith
  then show ?case
  proof cases
    case skip
    then obtain bs1 where t: "take_block w bs = Some (x, bs1)" "bs' = (b, n) # bs1"
      using "2.prems"(1) by auto
    have IH: "span x \<union> spans bs1 = spans bs" "span x \<inter> spans bs1 = {}" "0 < w \<longrightarrow> block_ok x" "spaced bs1"
      using "2.IH" [OF skip t(1) ok(2)] by auto
    have "\<forall>y\<in>set bs1. before (b, n) y"
      using after take_block_addresses [OF t(1)] by (force simp: before_def)
    then have "spaced bs'" using ok IH(4) by (simp add: t spaced_Cons)
    moreover have "span x \<inter> span (b, n) = {}" using apart IH(1) by blast
    ultimately show ?thesis using IH by (auto simp: t)
  next
    case split
    then have x: "x = (b + 4 + 4 * (n - (1 + w)), w)" "bs' = (b, n - (1 + w)) # bs"
      using "2.prems"(1) by auto
    have "span x \<union> span (b, n - (1 + w)) = span (b, n)" "span x \<inter> span (b, n - (1 + w)) = {}"
      using split by (auto simp: x span_def)
    moreover have "0 < w \<longrightarrow> block_ok x" using ok(1) split by (auto simp: x block_ok_def)
    moreover have "spaced bs'"
      using ok after split by (force simp: x spaced_Cons block_ok_def before_def)
    ultimately show ?thesis using apart by (auto simp: x)
  next
    case whole
    then show ?thesis using ok apart "2.prems"(1) by auto
  qed
qed simp

lemma to_words_unat: "unat (to_words d) = unat (d + 3) div 4"
  by (simp add: to_words_def unat_drop_bit_eq drop_bit_nat_def)

lemma to_words_bound: "unat (to_words d) < 2 ^ 30"
  using unsigned_less [of "d + 3", where 'a = nat] by (simp add: to_words_unat)

lemma of_nat_minus_Suc: "n < 2 ^ 32 \<Longrightarrow> unat w < n \<Longrightarrow> (of_nat n :: u32) - (1 + w) = of_nat (n - (1 + unat w))"
  by (simp add: of_nat_diff)

text \<open>A change inside one block leaves the ways to it and from it as they are.\<close>

lemma block_update:
  assumes "ordered (xs @ (b, n) # zs)" "path m p (xs @ (b, n) # zs) 0"
    "unat a \<in> span (b, n)" "a \<noteq> of_nat b + 4"
  shows "path (m(a := v, of_nat b := of_nat k)) p (xs @ (b, k) # zs) 0"
proof -
  note mid = ordered_mid [OF assms(1)]
  have "unat a \<notin> spans xs" "unat a \<notin> spans zs" "unat (of_nat b :: u32) \<notin> spans xs"
    "unat (of_nat b :: u32) \<notin> spans zs"
    using mid(6,7) assms(3) block_words [OF mid(3)] by auto
  then have "path (m(a := v, of_nat b := u)) q xs r = path m q xs r"
    "path (m(a := v, of_nat b := u)) q zs r = path m q zs r" for q r u
    using mid(4,5) by (simp_all add: path_upd)
  moreover have "(of_nat b :: u32) + 4 \<noteq> of_nat b" by simp
  ultimately show ?thesis using assms(2,4) by (auto simp: path_append)
qed

lemma unlink_block:
  assumes "ordered (xs @ (b, n) # zs)" "path (kh_mem s) (kh_freelist s) (xs @ (b, n) # zs) 0"
  shows "path (kh_mem (set_next (last_ptr 0 xs) (block_next (kh_mem s) (of_nat b)) s))
     (kh_freelist (set_next (last_ptr 0 xs) (block_next (kh_mem s) (of_nat b)) s)) (xs @ zs) 0"
proof -
  let ?s = "set_next (last_ptr 0 xs) (block_next (kh_mem s) (of_nat b)) s"
  note mid = ordered_mid [OF assms(1)]
  have p: "path (kh_mem s) (kh_freelist s) xs (of_nat b)"
    and q: "path (kh_mem s) (block_next (kh_mem s) (of_nat b)) zs 0"
    using assms(2) by (auto simp: path_append block_next_def)
  have "kh_mem ?s a = kh_mem s a" if "unat a \<in> spans zs" for a
    by (rule set_next_frame [OF mid(1)]) (use that mid(8) in auto)
  then have "path (kh_mem ?s) q zs 0 = path (kh_mem s) q zs 0" for q
    by (rule path_frame [OF mid(5)])
  then show ?thesis using set_next_path [OF p mid(1)] q by (auto simp: path_append)
qed

lemma kheap_alloc_blocks:
  assumes "free_blocks s bs"
  shows "case take_block (unat (to_words d)) bs of
           None \<Rightarrow> kheap_alloc d s = Some (0, s)
         | Some ((b, n), bs') \<Rightarrow> \<exists>s'. kheap_alloc d s = Some (of_nat b + 4, s')
             \<and> path (kh_mem s') (kh_freelist s') bs' 0 \<and> kh_mem s' (of_nat b) = of_nat n
             \<and> (\<forall>a. unat a \<notin> spans bs \<longrightarrow> kh_mem s' a = kh_mem s a)"
proof -
  define w where "w = to_words d"
  define xs ys where "xs = takeWhile (\<lambda>x. snd x < unat w) bs" and "ys = dropWhile (\<lambda>x. snd x < unat w) bs"
  have bs: "bs = xs @ ys" by (simp add: xs_def ys_def)
  have sp: "spaced xs" "spaced ys" "\<forall>x\<in>set xs. \<forall>y\<in>set ys. before x y" "\<forall>x\<in>set bs. block_ok x"
    and p: "path (kh_mem s) (kh_freelist s) bs 0"
    using assms by (auto simp: free_blocks_def bs spaced_append) (auto simp: spaced_def)
  have fit: "find_fit (kh_mem s) w 0 (kh_freelist s) = Some (last_ptr 0 xs, head_ptr ys)"
    unfolding xs_def ys_def by (rule find_fit_path [OF p sp(4)])
  have skip: "take_block (unat w) bs = map_option (\<lambda>(x, zs). (x, xs @ zs)) (take_block (unat w) ys)"
    unfolding xs_def ys_def by (rule take_block_skip)
  show ?thesis
  proof (cases ys)
    case Nil
    then show ?thesis using fit skip by (simp add: kheap_alloc_def w_def [symmetric])
  next
    case (Cons y zs)
    obtain b n where y: "y = (b, n)" by fastforce
    have ok: "block_ok (b, n)" and "spaced zs" "\<forall>z\<in>set zs. before (b, n) z"
      using sp(2) by (simp_all add: Cons y spaced_Cons)
    have n: "\<not> n < unat w" using dropWhile_eq_Cons_conv [of "\<lambda>x. snd x < unat w" bs "(b, n)" zs] Cons by (simp add: ys_def y)
    have b: "block_length (kh_mem s) (of_nat b) = of_nat n" "unat (of_nat n :: u32) = n"
      "of_nat b \<noteq> (0 :: u32)"
      using p ok by (auto simp: bs Cons y path_append block_length_def unat_of_nat_u32 block_ok_def
        of_nat_pos_u32)
    have w2: "unat (w + 2) = unat w + 2"
      using unat_add_u32 [of w 2] to_words_bound [of d] by (simp add: w_def)
    show ?thesis
    proof (cases "unat w + 2 < n")
      case True
      define k where "k = n - (1 + unat w)"
      define s' where "s' = s\<lparr>kh_mem := (kh_mem s)(of_nat (b + 4 + 4 * k) := w, of_nat b := of_nat k)\<rparr>"
      have lt: "n < 2 ^ 32" "b + 4 + 4 * k < 2 ^ 32" using ok True unfolding block_ok_def k_def fst_conv snd_conv by linarith+
      have f: "unat (of_nat (b + 4 + 4 * k) :: u32) = b + 4 + 4 * k" by (rule unat_of_nat_u32 [OF lt(2)])
      then have ne: "(of_nat (b + 4 + 4 * k) :: u32) \<noteq> of_nat b"
        "(of_nat (b + 4 + 4 * k) :: u32) \<noteq> of_nat b + 4"
        using block_words [OF ok] True by (auto simp: k_def simp del: of_nat_add of_nat_mult)
      have frag: "block_length (kh_mem s) (of_nat b) - (1 + w) = of_nat k"
        "(of_nat b :: u32) + 4 + 4 * of_nat k = of_nat (b + 4 + 4 * k)"
        using of_nat_minus_Suc [OF lt(1), of w] True unfolding b(1) k_def by simp_all
      have "w + 2 < block_length (kh_mem s) (of_nat b)"
        using True w2 b by (simp add: word_less_nat_alt)
      moreover have "block_length (kh_mem (set_length (of_nat (b + 4 + 4 * k)) w s)) (of_nat b) =
          block_length (kh_mem s) (of_nat b)"
        using ne(1) by (simp add: set_length_def block_length_def)
      moreover have "set_length (of_nat b) (of_nat k) (set_length (of_nat (b + 4 + 4 * k)) w s) = s'"
        by (simp add: set_length_def s'_def)
      ultimately have "kheap_alloc d s = Some (of_nat (b + 4 + 4 * k) + 4, s')"
        using fit b(3)
        by (simp only: kheap_alloc_def Let_def w_def [symmetric] Cons y head_ptr.simps option.case
            prod.case if_False if_True frag refl)
      moreover have "path (kh_mem s') (kh_freelist s') (xs @ (b, k) # zs) 0"
        using block_update [of xs b n zs "kh_mem s" "kh_freelist s" "of_nat (b + 4 + 4 * k)" w k]
          assms p ne(2) f True
        by (simp add: s'_def free_blocks_def bs Cons y span_def k_def spaced_ordered)
      moreover have "kh_mem s' (of_nat (b + 4 + 4 * k)) = of_nat (unat w)"
        using ne by (simp add: s'_def)
      moreover have "kh_mem s' a = kh_mem s a" if "unat a \<notin> spans bs" for a
        using that f block_words [OF ok] True by (auto simp: s'_def bs Cons y span_def k_def)
      moreover have "take_block (unat w) bs = Some ((b + 4 + 4 * k, unat w), xs @ (b, k) # zs)"
        using skip True n by (simp add: Cons y k_def)
      ultimately show ?thesis by (simp add: w_def [symmetric])
    next
      case False
      have "kheap_alloc d s =
          Some (of_nat b + 4, set_next (last_ptr 0 xs) (block_next (kh_mem s) (of_nat b)) s)" (is "_ = Some (_, ?s)")
        using fit False b w2 by (simp add: kheap_alloc_def w_def [symmetric] Cons y Let_def word_less_nat_alt)
      moreover have "path (kh_mem ?s) (kh_freelist ?s) (xs @ zs) 0"
        by (rule unlink_block [where n = n]) (use assms p in \<open>simp_all add: free_blocks_def bs Cons y spaced_ordered\<close>)
      moreover have "kh_mem ?s a = kh_mem s a" if "unat a \<notin> spans xs" for a
        by (rule set_next_frame [OF spaced_ordered [OF sp(1)] that])
      moreover have "unat (of_nat b :: u32) \<notin> spans xs"
        using sp(3) block_words [OF ok] by (fastforce simp: Cons y spans_def span_def before_def)
      ultimately show ?thesis using skip False n b
        by (auto simp: Cons y w_def [symmetric] bs block_length_def)
    qed
  qed
qed

section \<open>Release on lists\<close>

text \<open>A block in front of a list, merged with the first one when they touch.\<close>

fun join :: "block \<Rightarrow> block list \<Rightarrow> block list" where
  "join (u, k) [] = [(u, k)]"
| "join (u, k) ((b, n) # bs) = (if u + 4 + 4 * k = b then (u, k + n + 1) # bs else (u, k) # (b, n) # bs)"

fun give_block :: "block \<Rightarrow> block list \<Rightarrow> block list" where
  "give_block (u, k) [] = [(u, k)]"
| "give_block (u, k) ((b, n) # bs) =
     (if b < u then
        if b + 4 + 4 * n = u then join (b, n + k + 1) bs else (b, n) # give_block (u, k) bs
      else join (u, k) ((b, n) # bs))"

lemma give_block_skip:
  "\<forall>x\<in>set zs. fst x < fst x' \<and> fst x + 4 + 4 * snd x \<noteq> fst x' \<Longrightarrow> give_block x' (zs @ bs) = zs @ give_block x' bs"
  by (cases x'; induction zs) auto

lemma join_addresses: "fst ` set (join x bs) \<subseteq> insert (fst x) (fst ` set bs)"
  by (induction x bs rule: join.induct) auto

lemma give_block_addresses: "fst ` set (give_block x bs) \<subseteq> insert (fst x) (fst ` set bs)"
proof (induction x bs rule: give_block.induct)
  case (2 u k b n bs)
  then show ?case using join_addresses [of "(b, n + k + 1)" bs] join_addresses [of "(u, k)" "(b, n) # bs"] by auto
qed simp

lemma join_spans: "spans (join x bs) = span x \<union> spans bs"
  by (induction x bs rule: join.induct) (auto simp: span_def)

lemma give_block_spans: "spans (give_block x bs) = span x \<union> spans bs"
  by (induction x bs rule: give_block.induct) (auto simp: join_spans span_def)

lemma join_spaced:
  "ordered (x # bs) \<Longrightarrow> spaced bs \<Longrightarrow> spaced (join x bs)"
proof (induction x bs rule: join.induct)
  case (2 u k b n bs)
  then show ?case
    by (auto simp: ordered_Cons spaced_Cons before_def block_ok_def le_less)
qed (simp add: ordered_def spaced_def)

lemma give_block_spaced:
  "spaced bs \<Longrightarrow> block_ok x \<Longrightarrow> span x \<inter> spans bs = {} \<Longrightarrow> spaced (give_block x bs)"
proof (induction x bs rule: give_block.induct)
  case (2 u k b n bs)
  have sp: "block_ok (b, n)" "\<forall>y\<in>set bs. b + 4 + 4 * n < fst y" "spaced bs" "block_ok (u, k)"
    using "2.prems" by (auto simp: spaced_Cons before_def)
  have u: "u \<notin> span (b, n)" and b: "b \<notin> span (u, k)" and rest: "span (u, k) \<inter> spans bs = {}"
    using "2.prems"(3) block_words(3) [OF sp(1)] block_words(3) [OF sp(4)] by auto
  consider (merge) "b < u" "b + 4 + 4 * n = u" | (skip) "b < u" "b + 4 + 4 * n \<noteq> u" | (here) "u \<le> b"
    by linarith
  then show ?case
  proof cases
    case merge
    have "b + 4 + 4 * (n + k + 1) \<le> c" if c: "(c, j) \<in> set bs" for c j
    proof -
      have "c \<notin> span (u, k)" using rest c by (force simp: spans_def span_def)
      then show ?thesis using sp(2) c merge by (force simp: span_def)
    qed
    then have "ordered ((b, n + k + 1) # bs)"
      using sp spaced_ordered [OF sp(3)] merge by (auto simp: ordered_Cons block_ok_def)
    then show ?thesis using merge sp(3) by (simp add: join_spaced)
  next
    case skip
    then have "b + 4 + 4 * n < u" using u by (auto simp: span_def)
    moreover have "\<forall>y\<in>set (give_block (u, k) bs). fst y = u \<or> fst y \<in> fst ` set bs"
      using give_block_addresses [of "(u, k)" bs] by auto
    ultimately have "\<forall>y\<in>set (give_block (u, k) bs). before (b, n) y"
      using sp(2) by (force simp: before_def)
    then show ?thesis using skip "2.IH" [OF _ _ sp(3,4) rest] sp(1) by (simp add: spaced_Cons)
  next
    case here
    then have "u + 4 + 4 * k \<le> b" using b by (auto simp: span_def)
    then have "ordered ((u, k) # (b, n) # bs)"
      using sp spaced_ordered [OF sp(3)] by (fastforce simp: ordered_Cons)
    then show ?thesis using here "2.prems"(1) by (simp add: join_spaced del: join.simps)
  qed
qed (simp add: spaced_Cons)

section \<open>Release\<close>

lemma join_update:
  assumes "ordered (ws @ (c, l) # (b, n) # zs)" "path m p (ws @ (c, l) # (b, n) # zs) 0"
  shows "path (m(of_nat c + 4 := m (of_nat b + 4), of_nat c := of_nat j)) p (ws @ (c, j) # zs) 0"
proof -
  note mid = ordered_mid [OF assms(1)]
  have out: "unat (of_nat c :: u32) \<notin> spans ws" "unat (of_nat c + 4 :: u32) \<notin> spans ws"
    "unat (of_nat c :: u32) \<notin> spans zs" "unat (of_nat c + 4 :: u32) \<notin> spans zs"
    using mid(6,7) block_words [OF mid(3)] by auto
  have "\<forall>y\<in>set zs. block_ok y" using mid(5) by simp
  then have "path (m(of_nat c + 4 := v, of_nat c := u)) q ws r = path m q ws r"
    "path (m(of_nat c + 4 := v, of_nat c := u)) q zs r = path m q zs r" for q r u v
    using mid(4) out by (simp_all add: path_upd)
  moreover have "(of_nat c :: u32) + 4 \<noteq> of_nat c" by simp
  ultimately show ?thesis using assms(2) by (auto simp: path_append)
qed

lemma insert_block:
  assumes "ordered (xs @ (u, k) # ys)" "path (kh_mem s) (kh_freelist s) xs q" "path (kh_mem s) q ys 0"
    "kh_mem s (of_nat u) = of_nat k"
  defines "s' \<equiv> set_next (last_ptr 0 xs) (of_nat u) (s\<lparr>kh_mem := (kh_mem s)(of_nat u + 4 := q)\<rparr>)"
  shows "path (kh_mem s') (kh_freelist s') (xs @ (u, k) # ys) 0"
proof -
  note mid = ordered_mid [OF assms(1)]
  note w = block_words [OF mid(3)]
  let ?s = "s\<lparr>kh_mem := (kh_mem s)(of_nat u + 4 := q)\<rparr>"
  have out: "unat (of_nat u + 4 :: u32) \<notin> spans xs" "unat (of_nat u :: u32) \<notin> spans xs"
    "unat (of_nat u + 4 :: u32) \<notin> spans ys"
    using mid(6,7) w by auto
  have "path (kh_mem ?s) (kh_freelist ?s) xs q"
    using assms(2) path_upd [OF mid(4) out(1)] by simp
  then have "path (kh_mem s') (kh_freelist s') xs (of_nat u)"
    unfolding s'_def by (rule set_next_path [OF _ mid(1)])
  moreover have frame: "kh_mem s' a = kh_mem ?s a" if "unat a \<notin> spans xs" for a
    unfolding s'_def by (rule set_next_frame [OF mid(1) that])
  have "path (kh_mem s') q ys 0"
  proof -
    have "kh_mem s' a = kh_mem s a" if "unat a \<in> spans ys" for a
      using that frame [of a] mid(8) out(3) by (cases "a = of_nat u + 4") auto
    then have "path (kh_mem s') q ys 0 = path (kh_mem s) q ys 0" by (rule path_frame [OF mid(5)])
    then show ?thesis using assms(3) by simp
  qed
  moreover have "kh_mem s' (of_nat u) = of_nat k" "kh_mem s' (of_nat u + 4) = q"
    using frame [OF out(1)] frame [OF out(2)] assms(4) by simp_all
  ultimately show ?thesis by (auto simp: path_append)
qed

text \<open>The first half of a release, up to the block before; \<open>c\<close> is then the block that holds the memory.\<close>

definition join_previous :: "u32 \<Rightarrow> u32 \<Rightarrow> kheap \<Rightarrow> u32 \<times> kheap" where
  "join_previous previous used s =
     (if previous \<noteq> 0 then
        if adjacent (kh_mem s) previous used then
          (previous, set_length previous (block_length (kh_mem s) previous + length_of (kh_mem s) used) s)
        else (used, set_next previous used (set_next used (block_next (kh_mem s) previous) s))
      else (used, s\<lparr>kh_mem := (kh_mem s)(used + 4 := kh_freelist s), kh_freelist := used\<rparr>))"

definition join_next :: "u32 \<Rightarrow> u32 \<Rightarrow> kheap \<Rightarrow> kheap" where
  "join_next used block s =
     (if block \<noteq> 0 \<and> adjacent (kh_mem s) used block then
        let s2 = set_next used (block_next (kh_mem s) block) s
        in set_length used (block_length (kh_mem s2) used + length_of (kh_mem s2) block) s2
      else s)"

lemma kheap_free_parts:
  "address \<noteq> 0 \<Longrightarrow> find_place (kh_mem s) (address - 4) 0 (kh_freelist s) = Some (previous, block) \<Longrightarrow>
   kheap_free address s =
     (case join_previous previous (address - 4) s of (c, s1) \<Rightarrow> Some (join_next c block s1))"
  by (simp add: kheap_free_def join_previous_def join_next_def Let_def split_beta)

lemma adjacent_blocks:
  assumes "m (of_nat b) = of_nat n" "block_ok (b, n)" "u < 2 ^ 32"
  shows "adjacent m (of_nat b) (of_nat u) \<longleftrightarrow> b + 4 + 4 * n = u"
proof -
  have "(of_nat b :: u32) + 4 + 4 * of_nat n = of_nat (b + 4 + 4 * n)" by simp
  then show ?thesis
    using assms of_nat_u32_eq [of "b + 4 + 4 * n" u]
    by (simp only: adjacent_def block_length_def) (simp add: block_ok_def)
qed

lemma join_next_path:
  assumes "ordered (ws @ (c, l) # ys)" "path (kh_mem s) (kh_freelist s) (ws @ (c, l) # ys) 0"
  defines "s' \<equiv> join_next (of_nat c) (head_ptr ys) s"
  shows "path (kh_mem s') (kh_freelist s') (ws @ join (c, l) ys) 0"
    "unat a \<notin> span (c, l) \<Longrightarrow> kh_mem s' a = kh_mem s a"
proof -
  note mid = ordered_mid [OF assms(1)]
  note w = block_words [OF mid(3)]
  have c: "kh_mem s (of_nat c) = of_nat l" "(of_nat c :: u32) \<noteq> 0"
    using assms(2) mid(3) by (auto simp: path_append block_ok_def of_nat_pos_u32)
  have join: "ys = [] \<or> (\<exists>b n zs. ys = (b, n) # zs)" by (metis list.exhaust surj_pair)
  have *: "path (kh_mem s') (kh_freelist s') (ws @ join (c, l) ys) 0
      \<and> (unat a \<notin> span (c, l) \<longrightarrow> kh_mem s' a = kh_mem s a)"
    using join
  proof (elim disjE exE)
    assume "ys = []"
    then show ?thesis using assms(2) by (simp add: s'_def join_next_def)
  next
    fix b n zs
    assume ys: "ys = (b, n) # zs"
    have b: "block_ok (b, n)" "kh_mem s (of_nat b) = of_nat n"
      using mid(5) assms(2) by (auto simp: ys path_append)
    have b0: "(of_nat b :: u32) \<noteq> 0" "b < 2 ^ 32" using b(1) by (auto simp: block_ok_def of_nat_pos_u32)
    note adj = adjacent_blocks [where m = "kh_mem s", OF c(1) mid(3) b0(2)]
    show ?thesis
    proof (cases "c + 4 + 4 * l = b")
      case False
      then show ?thesis using adj assms(2) by (simp add: s'_def join_next_def ys)
    next
      case True
      have "c + 4 \<noteq> b" using mid(3) True by (simp add: block_ok_def)
      then have "of_nat c + 4 \<noteq> (of_nat b :: u32)" by (metis w(2) block_words(1) [OF b(1)])
      then have s': "s' = s\<lparr>kh_mem := (kh_mem s)(of_nat c + 4 := kh_mem s (of_nat b + 4),
          of_nat c := of_nat l + (of_nat n + 1))\<rparr>"
        using adj True b0 b(2) c
        by (simp add: s'_def join_next_def ys set_next_def set_length_def block_length_def length_of_def
            block_next_def)
      have sum: "(of_nat (l + n + 1) :: u32) = of_nat l + (of_nat n + 1)" by simp
      show ?thesis
        using join_update [of ws c l b n zs "kh_mem s" "kh_freelist s" "l + n + 1", unfolded sum] assms(1,2) True w
        by (auto simp: s' ys)
    qed
  qed
  then show "path (kh_mem s') (kh_freelist s') (ws @ join (c, l) ys) 0"
    "unat a \<notin> span (c, l) \<Longrightarrow> kh_mem s' a = kh_mem s a" by auto
qed

lemma give_block_here: "\<forall>x\<in>set ys. fst (u, k) \<le> fst x \<Longrightarrow> give_block (u, k) ys = join (u, k) ys"
  by (cases ys) auto

lemma ex4I: "P a b c d \<Longrightarrow> \<exists>a b c d. P a b c d"
  by blast

lemma join_previous_path:
  assumes o: "ordered (xs @ (u, k) # ys)" and sp: "spaced xs"
    and p: "path (kh_mem s) (kh_freelist s) (xs @ ys) 0" and k: "kh_mem s (of_nat u) = of_nat k"
  shows "\<exists>ws c l s1. join_previous (last_ptr 0 xs) (of_nat u) s = (of_nat c, s1)
    \<and> path (kh_mem s1) (kh_freelist s1) (ws @ (c, l) # ys) 0 \<and> ordered (ws @ (c, l) # ys)
    \<and> give_block (u, k) (xs @ ys) = ws @ join (c, l) ys
    \<and> (\<forall>a. unat a \<notin> spans xs \<union> span (u, k) \<longrightarrow> unat a \<notin> span (c, l) \<and> kh_mem s1 a = kh_mem s a)"
proof -
  note mid = ordered_mid [OF o]
  note w = block_words [OF mid(3)]
  have after: "\<forall>x\<in>set ys. fst (u, k) \<le> fst x" using o by (auto simp: ordered_append ordered_Cons)
  have u0: "u < 2 ^ 32" using mid(3) by (simp add: block_ok_def)
  obtain q where q: "path (kh_mem s) (kh_freelist s) xs q" "path (kh_mem s) q ys 0"
    using p by (auto simp: path_append)
  let ?s1 = "set_next (last_ptr 0 xs) (of_nat u) (s\<lparr>kh_mem := (kh_mem s)(of_nat u + 4 := q)\<rparr>)"
  have ins: "path (kh_mem ?s1) (kh_freelist ?s1) (xs @ (u, k) # ys) 0"
    by (rule insert_block [OF o q k])
  have frame: "kh_mem ?s1 a = kh_mem s a" if "unat a \<notin> spans xs \<union> span (u, k)" for a
    using that set_next_frame [OF mid(1), of a] w by auto
  show ?thesis
  proof (cases xs rule: rev_cases)
    case Nil
    then have J: "join_previous (last_ptr 0 xs) (of_nat u) s = (of_nat u, ?s1)"
      using q(1) by (simp add: join_previous_def set_next_def)
    show ?thesis
      by (rule ex4I [of _ "[]" u k ?s1])
         (use J ins o frame after Nil in \<open>auto simp: give_block_here\<close>)
  next
    case (snoc zs x)
    obtain b n where x: "x = (b, n)" by fastforce
    have xs: "block_ok (b, n)" "b + 4 + 4 * n \<le> u" "\<forall>z\<in>set zs. before z (b, n)"
      using o sp by (simp_all add: snoc x ordered_append spaced_append ordered_Cons)
    have b: "kh_mem s (of_nat b) = of_nat n" "(of_nat b :: u32) \<noteq> 0" "kh_mem s (of_nat b + 4) = q"
      using q(1) xs(1) by (auto simp: snoc x path_append block_ok_def of_nat_pos_u32)
    note adj = adjacent_blocks [where m = "kh_mem s", OF b(1) xs(1) u0]
    have zs: "\<forall>z\<in>set zs. fst z < fst (u, k) \<and> fst z + 4 + 4 * snd z \<noteq> fst (u, k)"
      using xs by (force simp: before_def)
    have give: "give_block (u, k) (xs @ ys) = zs @ give_block (u, k) ((b, n) # ys)"
      using give_block_skip [OF zs, of "(b, n) # ys"] by (simp add: snoc x)
    have u_ne: "(of_nat u :: u32) \<noteq> 0" using mid(3) by (simp add: block_ok_def of_nat_pos_u32)
    show ?thesis
    proof (cases "b + 4 + 4 * n = u")
      case False
      then have J: "join_previous (last_ptr 0 xs) (of_nat u) s = (of_nat u, ?s1)"
        using adj b u_ne by (simp add: snoc x join_previous_def set_next_def block_next_def)
      have "give_block (u, k) (xs @ ys) = xs @ join (u, k) ys"
        using give False xs(2) after by (simp add: give_block_here snoc x)
      then show ?thesis
        by - (rule ex4I [of _ xs u k ?s1], use J ins o frame in simp)
    next
      case True
      define s1 where "s1 = s\<lparr>kh_mem := (kh_mem s)(of_nat b := of_nat (n + k + 1))\<rparr>"
      have "join_previous (last_ptr 0 xs) (of_nat u) s = (of_nat b, s1)"
        using adj b True k
        by (simp add: s1_def snoc x join_previous_def set_length_def block_length_def length_of_def add_ac)
      moreover have o2: "ordered (zs @ (b, n) # ys)" "ordered (zs @ (b, n + k + 1) # ys)"
        using o True by (auto simp: snoc x ordered_append ordered_Cons block_ok_def)
      moreover have "path (kh_mem s1) (kh_freelist s1) (zs @ (b, n + k + 1) # ys) 0"
        using block_update [OF o2(1), of "kh_mem s" "kh_freelist s" "of_nat b" "of_nat n" "n + k + 1"] p
          block_words [OF xs(1)]
        by (simp add: s1_def snoc x)
      moreover have "give_block (u, k) (xs @ ys) = zs @ join (b, n + k + 1) ys"
        using give True by simp
      moreover have "unat a \<notin> span (b, n + k + 1) \<and> kh_mem s1 a = kh_mem s a"
        if "unat a \<notin> spans xs \<union> span (u, k)" for a
        using that True block_words [OF xs(1)] by (auto simp: s1_def snoc x span_def)
      ultimately show ?thesis
        by - (rule ex4I [of _ zs b "n + k + 1" s1], blast)
    qed
  qed
qed

lemma kheap_free_blocks:
  assumes s: "free_blocks s bs" and u: "block_ok (u, k)" "span (u, k) \<inter> spans bs = {}"
    and k: "kh_mem s (of_nat u) = of_nat k"
  shows "\<exists>s'. kheap_free (of_nat u + 4) s = Some s' \<and> free_blocks s' (give_block (u, k) bs)
    \<and> (\<forall>a. unat a \<notin> span (u, k) \<union> spans bs \<longrightarrow> kh_mem s' a = kh_mem s a)"
proof -
  define xs ys where "xs = takeWhile (\<lambda>x. fst x < u) bs" and "ys = dropWhile (\<lambda>x. fst x < u) bs"
  have bs: "bs = xs @ ys" by (simp add: xs_def ys_def)
  have sp: "spaced xs" "spaced ys" "\<forall>x\<in>set xs. \<forall>y\<in>set ys. before x y" "\<forall>x\<in>set bs. block_ok x"
    and p: "path (kh_mem s) (kh_freelist s) bs 0" and spaced: "spaced bs"
    using s by (auto simp: free_blocks_def bs spaced_append) (auto simp: spaced_def)
  have w: "unat (of_nat u :: u32) = u" "(of_nat u :: u32) + 4 \<noteq> 0"
    using block_words [OF u(1)] by auto
  have place: "find_place (kh_mem s) (of_nat u) 0 (kh_freelist s) = Some (last_ptr 0 xs, head_ptr ys)"
    using find_place_path [OF p sp(4), of "of_nat u" 0] by (simp add: w xs_def ys_def)
  have disjoint: "\<forall>x\<in>set bs. fst x \<notin> span (u, k) \<and> u \<notin> span x"
    using u(2) sp(4) block_words(3) [OF u(1)] by (fastforce simp: spans_def span_def)
  have below: "\<forall>x\<in>set xs. fst x + 4 + 4 * snd x \<le> u"
    using set_takeWhileD [of _ "\<lambda>x. fst x < u" bs] disjoint by (force simp: xs_def span_def)
  have "\<forall>y\<in>set ys. u \<le> fst y"
  proof (cases ys)
    case (Cons y zs)
    then have "u \<le> fst y" using dropWhile_eq_Cons_conv [of "\<lambda>x. fst x < u" bs y zs] by (simp add: ys_def)
    then show ?thesis using sp(2) by (auto simp: Cons spaced_Cons before_def)
  qed simp
  then have above: "\<forall>y\<in>set ys. u + 4 + 4 * k \<le> fst y" using disjoint by (force simp: bs span_def)
  have o: "ordered (xs @ (u, k) # ys)"
    using sp below above u(1) by (auto simp: ordered_append ordered_Cons spaced_ordered before_def less_imp_le)
  obtain ws c l s1 where s1: "join_previous (last_ptr 0 xs) (of_nat u) s = (of_nat c, s1)"
    "path (kh_mem s1) (kh_freelist s1) (ws @ (c, l) # ys) 0" "ordered (ws @ (c, l) # ys)"
    "give_block (u, k) (xs @ ys) = ws @ join (c, l) ys"
    "\<forall>a. unat a \<notin> spans xs \<union> span (u, k) \<longrightarrow> unat a \<notin> span (c, l) \<and> kh_mem s1 a = kh_mem s a"
    using join_previous_path [OF o sp(1) p [unfolded bs] k] by blast
  let ?s = "join_next (of_nat c) (head_ptr ys) s1"
  have "kheap_free (of_nat u + 4) s = Some ?s"
    using kheap_free_parts [OF w(2), of s "last_ptr 0 xs" "head_ptr ys"] place s1(1) by simp
  moreover have "free_blocks ?s (give_block (u, k) bs)"
    using join_next_path(1) [OF s1(3,2)] s1(4) give_block_spaced [OF spaced u]
    by (simp add: free_blocks_def bs)
  moreover have "kh_mem ?s a = kh_mem s a" if "unat a \<notin> span (u, k) \<union> spans bs" for a
    using that join_next_path(2) [OF s1(3,2)] s1(5) by (simp add: bs)
  ultimately show ?thesis by blast
qed

end
