(* ===== verification/Kheap_Clients.thy ===== *)
theory Kheap_Clients
  imports Kheap_Lemmas
begin

text \<open>
  The heap and those who use it: requests, releases of memory that was handed out, and stores into
  it, in any order.  The invariant says that the free blocks and the blocks in use share nothing and
  together are the memory at the beginning.
\<close>

section \<open>Free lists are determined by the memory they cover\<close>

lemma spaced_least: "spaced ((b, n) # bs) \<Longrightarrow> b \<in> spans ((b, n) # bs) \<and> (\<forall>a\<in>spans ((b, n) # bs). b \<le> a)"
  by (fastforce simp: spans_def span_def spaced_Cons before_def)

lemma spaced_gap: "spaced ((b, n) # bs) \<Longrightarrow> b + 4 + 4 * n \<notin> spans ((b, n) # bs)"
  by (fastforce simp: spans_def span_def spaced_Cons before_def)

lemma spaced_determined: "spaced bs \<Longrightarrow> spaced cs \<Longrightarrow> spans bs = spans cs \<Longrightarrow> bs = cs"
proof (induction bs arbitrary: cs)
  case Nil
  then show ?case using spaced_least by (cases cs) (fastforce, metis empty_iff spans_simps(1) surj_pair)
next
  case (Cons x bs)
  obtain b n where x: "x = (b, n)" by fastforce
  obtain c k cs' where cs: "cs = (c, k) # cs'"
    using Cons.prems spaced_least [of b n bs] by (cases cs) (auto simp: x)
  have "b = c"
    using spaced_least [of b n bs] spaced_least [of c k cs'] Cons.prems by (auto simp: x cs intro: antisym)
  moreover have "n = k"
  proof (rule ccontr)
    assume "n \<noteq> k"
    then have "b + 4 + 4 * n \<in> spans cs \<or> b + 4 + 4 * k \<in> spans (x # bs)"
      using \<open>b = c\<close> by (auto simp: cs x span_def)
    then show False
      using spaced_gap [of b n bs] spaced_gap [of c k cs'] Cons.prems \<open>b = c\<close>
      unfolding x cs by blast
  qed
  moreover have "spans bs = spans cs'"
  proof -
    have "span x \<inter> spans bs = {}" "span (c, k) \<inter> spans cs' = {}"
      using Cons.prems(1,2) by (auto simp: cs spaced_Cons intro!: before_spans)
    then show ?thesis using Cons.prems(3) \<open>b = c\<close> \<open>n = k\<close> by (auto simp: x cs)
  qed
  ultimately show ?case using Cons.IH [of cs'] Cons.prems(1,2) by (simp add: x cs spaced_Cons)
qed

section \<open>Requests, releases and stores\<close>

text \<open>What is in use: an address that was handed out and the number of bytes that were asked for.\<close>

type_synonym grant = "u32 \<times> u32"

abbreviation MAX_REQUEST :: u32 where "MAX_REQUEST \<equiv> 0xFFFFFFFC"

inductive client_step :: "kheap \<times> grant list \<Rightarrow> kheap \<times> grant list \<Rightarrow> bool" where
  take: "kheap_alloc d s = Some (a, s') \<Longrightarrow> 0 < d \<Longrightarrow> d \<le> MAX_REQUEST \<Longrightarrow> a \<noteq> 0 \<Longrightarrow>
    client_step (s, ls) (s', (a, d) # ls)"
| refused: "kheap_alloc d s = Some (0, s') \<Longrightarrow> 0 < d \<Longrightarrow> d \<le> MAX_REQUEST \<Longrightarrow> client_step (s, ls) (s', ls)"
| give: "kheap_free a s = Some s' \<Longrightarrow> client_step (s, xs @ (a, d) # ys) (s', xs @ ys)"
| give_null: "kheap_free 0 s = Some s' \<Longrightarrow> client_step (s, ls) (s', ls)"
| store: "(a, d) \<in> set ls \<Longrightarrow> unat a \<le> unat p \<Longrightarrow> unat p < unat a + unat d \<Longrightarrow>
    client_step (s, ls) (s\<lparr>kh_mem := (kh_mem s)(p := v)\<rparr>, ls)"


definition held :: "(u32 \<Rightarrow> u32) \<Rightarrow> grant \<Rightarrow> block" where
  "held m g = (unat (fst g) - 4, unat (m (fst g - 4)))"

definition grant_ok :: "(u32 \<Rightarrow> u32) \<Rightarrow> grant \<Rightarrow> bool" where
  "grant_ok m g \<longleftrightarrow> 4 < unat (fst g) \<and> block_ok (held m g) \<and> unat (snd g) \<le> 4 * snd (held m g)"

definition blocks_inv :: "nat set \<Rightarrow> block list \<Rightarrow> block list \<Rightarrow> bool" where
  "blocks_inv M bs us \<longleftrightarrow> sorted_wrt (\<lambda>x y. span x \<inter> span y = {}) us
     \<and> spans us \<inter> spans bs = {} \<and> spans us \<union> spans bs = M"

definition heap_inv :: "nat set \<Rightarrow> kheap \<times> grant list \<Rightarrow> bool" where
  "heap_inv M = (\<lambda>(s, ls). \<exists>bs. free_blocks s bs \<and> (\<forall>g\<in>set ls. grant_ok (kh_mem s) g)
     \<and> blocks_inv M bs (map (held (kh_mem s)) ls))"

lemma blocks_inv_take:
  "blocks_inv M bs us \<Longrightarrow> span x \<union> spans bs' = spans bs \<Longrightarrow> span x \<inter> spans bs' = {} \<Longrightarrow> blocks_inv M bs' (x # us)"
  by (fastforce simp: blocks_inv_def spans_def)

lemma blocks_inv_split:
  "blocks_inv M bs (xs @ x # ys) \<Longrightarrow>
   span x \<inter> spans bs = {} \<and> span x \<inter> spans (xs @ ys) = {} \<and> spans (xs @ ys) \<inter> spans bs = {}"
  by (auto simp: blocks_inv_def sorted_wrt_append spans_def)

lemma blocks_inv_give:
  "blocks_inv M bs (xs @ x # ys) \<Longrightarrow> spans bs' = span x \<union> spans bs \<Longrightarrow> blocks_inv M bs' (xs @ ys)"
  using blocks_inv_split [of M bs xs x ys] by (auto simp: blocks_inv_def sorted_wrt_append)

lemma grant_address:
  assumes "grant_ok m g"
  shows "unat (fst g - 4) = unat (fst g) - 4" "of_nat (unat (fst g) - 4) + 4 = fst g"
    "of_nat (unat (fst g) - 4) = fst g - 4"
  using assms by (simp_all add: grant_ok_def unat_sub word_le_nat_alt of_nat_diff)

lemma held_frame:
  assumes "\<forall>g\<in>set ls. grant_ok m g" "\<And>a. unat a \<in> spans (map (held m) ls) \<Longrightarrow> m' a = m a"
  shows "map (held m') ls = map (held m) ls" "\<forall>g\<in>set ls. grant_ok m' g"
proof -
  have "held m' g = held m g" if g: "g \<in> set ls" for g
  proof -
    have "unat (fst g - 4) \<in> span (held m g)"
      using grant_address(1) [of m g] assms(1) g by (simp add: held_def span_def)
    then have "m' (fst g - 4) = m (fst g - 4)" using assms(2) g by (auto simp: spans_def)
    then show ?thesis by (simp add: held_def)
  qed
  then show "map (held m') ls = map (held m) ls" "\<forall>g\<in>set ls. grant_ok m' g"
    using assms(1) by (auto simp: grant_ok_def)
qed

lemma free_blocks_mem: "free_blocks s bs \<Longrightarrow> spaced bs"
  by (simp add: free_blocks_def)

lemma to_words_of_request: "0 < d \<Longrightarrow> d \<le> MAX_REQUEST \<Longrightarrow> unat (to_words d) = (unat d + 3) div 4 \<and> 0 < unat (to_words d)"
  using unat_add_u32 [of d 3] by (simp add: to_words_unat word_le_nat_alt word_less_nat_alt)

text \<open>An allocation in terms of the blocks.\<close>

lemma kheap_alloc_cases:
  assumes "free_blocks s bs" "0 < unat (to_words d)"
  obtains (none) "\<forall>x\<in>set bs. snd x < unat (to_words d)" "kheap_alloc d s = Some (0, s)"
  | (some) b n bs' s' where "take_block (unat (to_words d)) bs = Some ((b, n), bs')"
      "kheap_alloc d s = Some (of_nat b + 4, s')" "free_blocks s' bs'" "block_ok (b, n)"
      "unat (to_words d) \<le> n" "kh_mem s' (of_nat b) = of_nat n"
      "\<And>a. unat a \<notin> spans bs \<Longrightarrow> kh_mem s' a = kh_mem s a"
      "span (b, n) \<union> spans bs' = spans bs" "span (b, n) \<inter> spans bs' = {}"
proof (cases "take_block (unat (to_words d)) bs")
  case None
  then show ?thesis
    using kheap_alloc_blocks [OF assms(1), of d] None by (intro none) (simp_all add: take_block_None)
next
  case (Some r)
  obtain b n bs' where r: "r = ((b, n), bs')" by (metis surj_pair)
  obtain s' where "kheap_alloc d s = Some (of_nat b + 4, s')"
    "path (kh_mem s') (kh_freelist s') bs' 0" "kh_mem s' (of_nat b) = of_nat n"
    "\<forall>a. unat a \<notin> spans bs \<longrightarrow> kh_mem s' a = kh_mem s a"
    using kheap_alloc_blocks [OF assms(1), of d] by (auto simp: Some r)
  then show ?thesis
    using take_block_spans [OF Some [unfolded r] free_blocks_mem [OF assms(1)]]
      take_block_enough [OF Some [unfolded r]] assms(2)
    by (intro some [OF Some [unfolded r], of s']) (auto simp: free_blocks_def)
qed

section \<open>The invariant\<close>

lemma heap_inv_alloc:
  assumes inv: "heap_inv M (s, ls)" and d: "0 < d" "d \<le> MAX_REQUEST"
    and alloc: "kheap_alloc d s = Some (a, s')" and a: "a \<noteq> 0"
  shows "heap_inv M (s', (a, d) # ls)"
proof -
  obtain bs where bs: "free_blocks s bs" "\<forall>g\<in>set ls. grant_ok (kh_mem s) g"
    "blocks_inv M bs (map (held (kh_mem s)) ls)"
    using inv by (auto simp: heap_inv_def)
  note w = to_words_of_request [OF d]
  show ?thesis
  proof (cases rule: kheap_alloc_cases [OF bs(1) conjunct2 [OF w]])
    case 1
    then show ?thesis using alloc a by simp
  next
    case (2 b n bs' s'')
    then have s': "s'' = s'" "a = of_nat b + 4" using alloc by auto
    note bw = block_words [OF 2(4)]
    have b: "0 < b" "n < 2 ^ 32" using 2(4) by (auto simp: block_ok_def)
    have g: "held (kh_mem s') (a, d) = (b, n)"
      using bw 2(6) b by (simp add: held_def s' unat_of_nat_u32)
    then have ok: "grant_ok (kh_mem s') (a, d)"
      using 2(4,5) b w bw by (auto simp: grant_ok_def s')
    have "kh_mem s' p = kh_mem s p" if "unat p \<in> spans (map (held (kh_mem s)) ls)" for p
      using 2(7) that bs(3) by (auto simp: s' blocks_inv_def)
    note f = held_frame [OF bs(2) this]
    have "blocks_inv M bs' (map (held (kh_mem s')) ((a, d) # ls))"
      using blocks_inv_take [OF bs(3) 2(8,9)] f(1) g by (simp only: list.map s')
    then show ?thesis using 2(3) s' f(2) ok by (auto simp: heap_inv_def)
  qed
qed

lemma heap_inv_free:
  assumes "heap_inv M (s, xs @ (a, d) # ys)"
  shows "\<exists>s'. kheap_free a s = Some s' \<and> heap_inv M (s', xs @ ys)"
proof -
  let ?h = "held (kh_mem s)"
  obtain bs where bs: "free_blocks s bs" "grant_ok (kh_mem s) (a, d)"
    "\<forall>g\<in>set (xs @ ys). grant_ok (kh_mem s) g" "blocks_inv M bs (map ?h xs @ ?h (a, d) # map ?h ys)"
    using assms by (auto simp: heap_inv_def)
  note apart = blocks_inv_split [OF bs(4)]
  obtain u k where h: "?h (a, d) = (u, k)" by (metis surj_pair)
  have u: "block_ok (u, k)" "of_nat u + 4 = a" "kh_mem s (of_nat u) = of_nat k"
    using bs(2) grant_address [OF bs(2)] h by (auto simp: grant_ok_def held_def)
  obtain s' where s': "kheap_free a s = Some s'" "free_blocks s' (give_block (u, k) bs)"
    "\<And>p. unat p \<notin> span (u, k) \<union> spans bs \<Longrightarrow> kh_mem s' p = kh_mem s p"
    using kheap_free_blocks [OF bs(1) u(1) _ u(3)] apart u(2) by (auto simp: h)
  have "kh_mem s' p = kh_mem s p" if "unat p \<in> spans (map ?h (xs @ ys))" for p
    by (rule s'(3)) (use that apart in \<open>auto simp: h\<close>)
  note f = held_frame [OF bs(3) this]
  have "blocks_inv M (give_block (u, k) bs) (map ?h xs @ map ?h ys)"
    using bs(4) by (rule blocks_inv_give) (simp add: h give_block_spans)
  then have "blocks_inv M (give_block (u, k) bs) (map (held (kh_mem s')) (xs @ ys))"
    using f(1) by (simp only: map_append)
  then show ?thesis using s'(1,2) f(2) by (auto simp: heap_inv_def)
qed

lemma heap_inv_store:
  assumes inv: "heap_inv M (s, ls)" and g: "(a, d) \<in> set ls"
    and p: "unat a \<le> unat p" "unat p < unat a + unat d"
  shows "heap_inv M (s\<lparr>kh_mem := (kh_mem s)(p := v)\<rparr>, ls)"
proof -
  let ?h = "held (kh_mem s)" and ?m = "(kh_mem s)(p := v)"
  obtain xs ys where ls: "ls = xs @ (a, d) # ys" using split_list [OF g] by blast
  obtain bs where bs: "free_blocks s bs" "\<forall>g\<in>set ls. grant_ok (kh_mem s) g" "blocks_inv M bs (map ?h ls)"
    using inv by (auto simp: heap_inv_def)
  then have apart: "span (?h (a, d)) \<inter> spans bs = {}" "span (?h (a, d)) \<inter> spans (map ?h (xs @ ys)) = {}"
    using blocks_inv_split [of M bs "map ?h xs" "?h (a, d)" "map ?h ys"] by (auto simp: ls)
  have ok: "grant_ok (kh_mem s) (a, d)" using bs(2) g by blast
  have inside: "unat p \<in> span (?h (a, d))"
    using p ok by (auto simp: grant_ok_def held_def span_def)
  have "p \<noteq> fst g - 4" if gin: "g \<in> set ls" for g
  proof (cases "g = (a, d)")
    case True
    then show ?thesis using p grant_address(1) [OF ok] ok by (auto simp: grant_ok_def)
  next
    case False
    then have g: "g \<in> set (xs @ ys)" using gin by (auto simp: ls)
    have "unat (fst g - 4) \<in> span (?h g)"
      using grant_address(1) [of "kh_mem s" g] bs(2) gin by (simp add: held_def span_def)
    then have "unat (fst g - 4) \<in> spans (map ?h (xs @ ys))" using g by (auto simp: spans_def)
    then show ?thesis using inside apart(2) by auto
  qed
  then have h: "held ?m g = ?h g" if "g \<in> set ls" for g using that by (fastforce simp: held_def)
  then have "map (held ?m) ls = map ?h ls" by simp
  moreover have "\<forall>g\<in>set ls. grant_ok ?m g" using bs(2) h by (simp add: grant_ok_def)
  moreover have "free_blocks (s\<lparr>kh_mem := ?m\<rparr>) bs"
    using bs(1) inside apart(1) path_upd [of bs p "kh_mem s" v "kh_freelist s" 0]
    by (auto simp: free_blocks_def spaced_def)
  ultimately show ?thesis using bs(3) by (auto simp: heap_inv_def simp del: map_eq_conv)
qed

lemma heap_inv_total:
  assumes "heap_inv M (s, ls)" "0 < d" "d \<le> MAX_REQUEST"
  shows "\<exists>a s'. kheap_alloc d s = Some (a, s') \<and> (a = 0 \<longrightarrow> s' = s)"
proof -
  obtain bs where bs: "free_blocks s bs" using assms(1) by (auto simp: heap_inv_def)
  show ?thesis
  proof (cases rule: kheap_alloc_cases [OF bs conjunct2 [OF to_words_of_request [OF assms(2,3)]]])
    case (2 b n bs' s')
    then show ?thesis using block_words(2) [OF 2(4)] by auto
  qed simp
qed

lemma client_step_inv: "client_step x y \<Longrightarrow> heap_inv M x \<Longrightarrow> heap_inv M y"
proof (induction rule: client_step.induct)
  case (take d s a s' ls)
  then show ?case by (intro heap_inv_alloc)
next
  case (refused d s s' ls)
  then show ?case using heap_inv_total [of M s ls d] by auto
next
  case (give a s s' xs d ys)
  then show ?case using heap_inv_free [of M s xs a d ys] by auto
next
  case (give_null s s' ls)
  then show ?case by (simp add: kheap_free_def)
next
  case (store a d ls p s v)
  then show ?case by (intro heap_inv_store)
qed

lemma clients_inv: "client_step\<^sup>*\<^sup>* x y \<Longrightarrow> heap_inv M x \<Longrightarrow> heap_inv M y"
  by (induction rule: rtranclp_induct) (auto intro: client_step_inv)

definition grant_bytes :: "grant \<Rightarrow> nat set" where
  "grant_bytes g = {unat (fst g) ..< unat (fst g) + unat (snd g)}"

lemma grant_bytes_held: "grant_ok m g \<Longrightarrow> grant_bytes g \<subseteq> span (held m g)"
  by (auto simp: grant_ok_def grant_bytes_def span_def held_def)

lemma heap_inv_start: "free_blocks s bs \<Longrightarrow> heap_inv (spans bs) (s, [])"
  by (auto simp: heap_inv_def blocks_inv_def)

lemma heap_inv_end: "heap_inv (spans bs) (s, []) \<Longrightarrow> spaced bs \<Longrightarrow> free_blocks s bs"
  using spaced_determined by (auto simp: heap_inv_def blocks_inv_def free_blocks_def)

lemma heap_inv_grants:
  assumes "heap_inv M (s, ls)"
  shows "sorted_wrt (\<lambda>g h. grant_bytes g \<inter> grant_bytes h = {}) ls" "\<forall>g\<in>set ls. grant_bytes g \<subseteq> M"
proof -
  obtain bs where bs: "\<forall>g\<in>set ls. grant_ok (kh_mem s) g" "blocks_inv M bs (map (held (kh_mem s)) ls)"
    using assms by (auto simp: heap_inv_def)
  then have "sorted_wrt (\<lambda>g h. span (held (kh_mem s) g) \<inter> span (held (kh_mem s) h) = {}) ls"
    by (simp add: blocks_inv_def sorted_wrt_map)
  then show "sorted_wrt (\<lambda>g h. grant_bytes g \<inter> grant_bytes h = {}) ls"
    by (rule sorted_wrt_mono_rel [rotated]) (use bs(1) grant_bytes_held in blast)
  show "\<forall>g\<in>set ls. grant_bytes g \<subseteq> M"
    using bs grant_bytes_held by (fastforce simp: blocks_inv_def spans_def)
qed

end
