(* ===== verification/Kheap_Init.thy ===== *)
theory Kheap_Init
  imports Kheap_Lemmas
begin

text \<open>
  The search for memory: the fast steps and the steps back find the ends of every region, provided
  that regions and gaps are at least as long as a fast step.
\<close>

section \<open>Stretches without a change\<close>

lemma of_nat_u32_less: "a < 2 ^ 32 \<Longrightarrow> b < 2 ^ 32 \<Longrightarrow> ((of_nat a :: u32) < of_nat b) = (a < b)"
  by (simp add: word_less_nat_alt unat_of_nat_u32)

lemma top_less: "a < 2 ^ 32 \<Longrightarrow> (KHEAP_TOP < of_nat a) = (0xf0000000 < a)"
  using of_nat_u32_less [of "0xf0000000" a] by simp

lemma probe_slow:
  assumes "a \<le> e" "4 dvd e - a" "e \<le> 0xf0000000" "\<And>x. a \<le> x \<Longrightarrow> x < e \<Longrightarrow> has_memory (of_nat x) = v"
  shows "probe_memory has_memory video (of_nat a) 1 v f t s = probe_memory has_memory video (of_nat e) 1 v f t s"
  using assms
proof (induction "e - a" arbitrary: a rule: less_induct)
  case less
  show ?case
  proof (cases "a = e")
    case False
    then have lt: "a < e" "a + 4 \<le> e" using less.prems(1,2) dvd_imp_le [of 4 "e - a"] by auto
    have "has_memory (of_nat a) = v" using less.prems(4) lt(1) by simp
    moreover have "\<not> KHEAP_TOP < (of_nat a :: u32)" using top_less [of a] less.prems(3) lt by simp
    ultimately have "probe_memory has_memory video (of_nat a) 1 v f t s =
        probe_memory has_memory video (of_nat (a + 4)) 1 v f t s"
      by (subst probe_memory.simps) simp
    also have "\<dots> = probe_memory has_memory video (of_nat e) 1 v f t s"
    proof (rule less.hyps)
      show "e - (a + 4) < e - a" "a + 4 \<le> e" using lt by auto
      show "4 dvd e - (a + 4)" using less.prems(2) lt by (metis diff_diff_left dvd_diff_nat dvd_refl)
    qed (use less.prems(3,4) in auto)
    finally show ?thesis .
  qed simp
qed

lemma probe_fast:
  assumes "l + 16384 \<le> a" "a < e + 16384" "4 dvd e - l" "4 dvd a - l" "l \<le> e" "e + 16384 \<le> 0xf0000000"
    "\<And>x. l \<le> x \<Longrightarrow> x < e \<Longrightarrow> has_memory (of_nat x) = v"
    "\<And>x. e \<le> x \<Longrightarrow> x < e + 16384 \<Longrightarrow> has_memory (of_nat x) = (\<not> v)"
  shows "probe_memory has_memory video (of_nat a) FAST_SEARCH_INCREMENT v f t s =
    probe_memory has_memory video (of_nat e) 1 v f t s"
  using assms
proof (induction "e + 16384 - a" arbitrary: a rule: less_induct)
  case less
  note p = less.prems
  have top: "\<not> KHEAP_TOP < (of_nat a :: u32)" using top_less [of a] p(2,6) by simp
  show ?case
  proof (cases "a < e")
    case True
    then have "has_memory (of_nat a) = v" using p(1,7) by simp
    then have "probe_memory has_memory video (of_nat a) FAST_SEARCH_INCREMENT v f t s =
        probe_memory has_memory video (of_nat (a + 16384)) FAST_SEARCH_INCREMENT v f t s"
      using top by (subst probe_memory.simps) simp
    also have "\<dots> = probe_memory has_memory video (of_nat e) 1 v f t s"
    proof (rule less.hyps)
      show "4 dvd a + 16384 - l"
        using p(1,4) dvd_add [of 4 "a - l" 16384] by simp
    qed (use p True in auto)
    finally show ?thesis .
  next
    case False
    have rewind: "(of_nat a :: u32) - 4 * FAST_SEARCH_INCREMENT + 4 = of_nat (a - 16384 + 4)"
      using p(1) by (simp add: of_nat_diff)
    obtain i j where ij: "e = l + 4 * i" "a = l + 4 * j"
      using p(1,3,4,5) by (metis dvdE le_add_diff_inverse add_leD1)
    have "has_memory (of_nat a) = (\<not> v)" using p(2,8) False by simp
    then have "probe_memory has_memory video (of_nat a) FAST_SEARCH_INCREMENT v f t s =
        probe_memory has_memory video (of_nat (a - 16384 + 4)) 1 v f t s"
      using top rewind by (subst probe_memory.simps) (simp del: of_nat_add)
    also have "\<dots> = probe_memory has_memory video (of_nat e) 1 v f t s"
    proof (rule probe_slow)
      have j: "4096 \<le> j" "j < i + 4096" using p(1,2) by (simp_all add: ij)
      then have "e - (a - 16384 + 4) = 4 * (i - (j - 4096 + 1))" by (simp add: ij)
      then show "4 dvd e - (a - 16384 + 4)" by simp
      show "a - 16384 + 4 \<le> e" using j by (simp add: ij)
    qed (use p in auto)
    finally show ?thesis .
  qed
qed

lemma probe_end:
  assumes "a < 0xf0000000 + 16385" "\<And>x. a \<le> x \<Longrightarrow> x \<le> 0xf0000000 \<Longrightarrow> \<not> has_memory (of_nat x)"
  shows "probe_memory has_memory video (of_nat a) FAST_SEARCH_INCREMENT False f t s = Some s"
  using assms
proof (induction "0xf0000000 + 16385 - a" arbitrary: a rule: less_induct)
  case less
  note top = top_less [of a]
  show ?case
  proof (cases "0xf0000000 < a")
    case True
    then show ?thesis using top less.prems(1) by (subst probe_memory.simps) simp
  next
    case False
    then have "probe_memory has_memory video (of_nat a) FAST_SEARCH_INCREMENT False f t s =
        probe_memory has_memory video (of_nat (a + 16384)) FAST_SEARCH_INCREMENT False f t s"
      using top less.prems by (subst probe_memory.simps) simp
    also have "\<dots> = Some s" by (rule less.hyps) (use False less.prems in auto)
    finally show ?thesis .
  qed
qed

section \<open>The chunks\<close>

definition chunk :: "nat \<times> nat \<Rightarrow> block" where
  "chunk r = (fst r, (snd r - fst r - 4) div 4)"

definition chunks :: "u32 \<Rightarrow> (nat \<times> nat) list \<Rightarrow> block list" where
  "chunks video rs = map chunk (filter (\<lambda>r. of_nat (fst r) \<noteq> video) rs)"

lemma chunks_Cons: "chunks video (r # rs) = chunks video [r] @ chunks video rs"
  by (simp add: chunks_def)

definition region_ok :: "nat \<times> nat \<Rightarrow> bool" where
  "region_ok r \<longleftrightarrow> 4 dvd fst r \<and> 4 dvd snd r \<and> fst r + 16384 \<le> snd r \<and> snd r \<le> fst r + 2 ^ 31
     \<and> snd r + 16384 \<le> 0xf0000000"

fun regions_from :: "nat \<Rightarrow> (nat \<times> nat) list \<Rightarrow> bool" where
  "regions_from l [] \<longleftrightarrow> True"
| "regions_from l (r # rs) \<longleftrightarrow> l + 16384 \<le> fst r \<and> region_ok r \<and> regions_from (snd r) rs"

definition in_regions :: "(nat \<times> nat) list \<Rightarrow> nat \<Rightarrow> bool" where
  "in_regions rs x \<longleftrightarrow> (\<exists>r\<in>set rs. fst r \<le> x \<and> x < snd r)"

lemma regions_above: "regions_from l rs \<Longrightarrow> r \<in> set rs \<Longrightarrow> l + 16384 \<le> fst r"
  by (induction l rs rule: regions_from.induct) (auto simp: region_ok_def)

lemma sint_of_nat_u32: "m < 2 ^ 31 \<Longrightarrow> sint (of_nat m :: u32) = int m"
  by (simp add: signed_of_nat signed_take_bit_int_eq_self)

lemma signed_drop_bit_of_nat:
  assumes "m < 2 ^ 31"
  shows "signed_drop_bit 2 (of_nat m :: u32) = of_nat (m div 4)"
proof -
  from assms have "sint (signed_drop_bit 2 (of_nat m :: u32)) = sint (of_nat (m div 4) :: u32)"
    by (simp only: sint_signed_drop_bit_eq sint_of_nat_u32) (simp add: sint_of_nat_u32 drop_bit_eq_div zdiv_int)
  then show ?thesis by (rule signed_word_eqI)
qed

lemma chunk_words:
  assumes "region_ok r" "0 < fst r"
  shows "signed_drop_bit 2 (of_nat (snd r) - (of_nat (fst r) + 4) :: u32) = of_nat (snd (chunk r))"
    "block_ok (chunk r)" "fst r + 4 + 4 * snd (chunk r) = snd r"
proof -
  obtain i j where ij: "fst r = 4 * i" "snd r = 4 * j" using assms by (auto simp: region_ok_def elim!: dvdE)
  show "fst r + 4 + 4 * snd (chunk r) = snd r" "block_ok (chunk r)"
    using assms ij by (auto simp: chunk_def region_ok_def block_ok_def)
  show "signed_drop_bit 2 (of_nat (snd r) - (of_nat (fst r) + 4) :: u32) = of_nat (snd (chunk r))"
  proof -
    have "(of_nat (snd r) :: u32) - (of_nat (fst r) + 4) = of_nat (snd r - fst r - 4)"
      using assms by (simp add: region_ok_def of_nat_diff)
    moreover have "snd r - fst r - 4 < 2 ^ 31" using assms by (auto simp: region_ok_def)
    ultimately show ?thesis by (simp only: signed_drop_bit_of_nat chunk_def snd_conv)
  qed
qed

lemma add_chunk_blocks:
  assumes s: "free_blocks s xs" and r: "region_ok r" "0 < fst r"
    and above: "\<forall>x\<in>set xs. fst x + 4 + 4 * snd x < fst r"
  obtains s' where
    "add_chunk video (of_nat (fst r)) (of_nat (snd r)) (last_ptr 0 xs) s = (last_ptr 0 (xs @ chunks video [r]), s')"
    "free_blocks s' (xs @ chunks video [r])"
proof (cases "of_nat (fst r) = video")
  case True
  then show ?thesis using s by (intro that [of s]) (simp_all add: add_chunk_def chunks_def)
next
  case False
  obtain lo n where lo: "fst r = lo" "chunk r = (lo, n)" by (simp add: chunk_def)
  note cw = chunk_words [OF r]
  have sp: "spaced (xs @ [(lo, n)])"
    using s above cw(2) by (auto simp: free_blocks_def spaced_append spaced_Cons before_def lo)
  let ?s = "s\<lparr>kh_mem := (kh_mem s)(of_nat lo := of_nat n)\<rparr>"
  have "ordered (xs @ (lo, n) # [])" using spaced_ordered [OF sp] .
  note mid = ordered_mid [OF this]
  have out: "unat (of_nat lo :: u32) \<notin> spans xs"
    using mid(6) block_words [OF mid(3)] by auto
  have "path (kh_mem ?s) (kh_freelist ?s) xs 0"
    using s path_upd [OF mid(4) out] by (simp add: free_blocks_def)
  then have "path (kh_mem (set_next (last_ptr 0 xs) (of_nat lo) (?s\<lparr>kh_mem := (kh_mem ?s)(of_nat lo + 4 := 0)\<rparr>)))
      (kh_freelist (set_next (last_ptr 0 xs) (of_nat lo) (?s\<lparr>kh_mem := (kh_mem ?s)(of_nat lo + 4 := 0)\<rparr>)))
      (xs @ [(lo, n)]) 0"
    by (intro insert_block [OF \<open>ordered (xs @ (lo, n) # [])\<close>]) simp_all
  then show ?thesis
    using False cw(1) sp lo
    by (intro that) (auto simp: add_chunk_def chunks_def free_blocks_def)
qed

lemma probe_regions:
  assumes "regions_from l rs" "4 dvd l" "l + 16384 \<le> 0xf0000000" "0 < l"
    "\<And>x. l \<le> x \<Longrightarrow> x < 2 ^ 32 \<Longrightarrow> has_memory (of_nat x) = in_regions rs x"
    "free_blocks s xs" "\<forall>x\<in>set xs. fst x + 4 + 4 * snd x \<le> l"
  shows "\<exists>s'. probe_memory has_memory video (of_nat (l + 16384)) FAST_SEARCH_INCREMENT False f (last_ptr 0 xs) s = Some s'
    \<and> free_blocks s' (xs @ chunks video rs)"
  using assms
proof (induction rs arbitrary: l xs s f)
  case Nil
  then have "probe_memory has_memory video (of_nat (l + 16384)) FAST_SEARCH_INCREMENT False f (last_ptr 0 xs) s = Some s"
    by (intro probe_end) (auto simp: in_regions_def)
  then show ?case using Nil.prems(6) by (simp add: chunks_def)
next
  case (Cons r rs)
  obtain lo hi where r: "r = (lo, hi)" by fastforce
  note p = Cons.prems
  have reg: "l + 16384 \<le> lo" "region_ok r" "regions_from hi rs" "4 dvd lo" "4 dvd hi"
    "lo + 16384 \<le> hi" "hi + 16384 \<le> 0xf0000000"
    using p(1) by (auto simp: r region_ok_def)
  have low: "\<not> in_regions rs x" if "x < hi + 16384" for x
    using regions_above [OF reg(3)] that by (fastforce simp: in_regions_def)
  have mem: "has_memory (of_nat x) = (lo \<le> x \<and> x < hi \<or> in_regions rs x)" if "l \<le> x" "x < 2 ^ 32" for x
    using p(5) [OF that] by (auto simp: in_regions_def r)
  have a: "probe_memory has_memory video (of_nat (l + 16384)) FAST_SEARCH_INCREMENT False f (last_ptr 0 xs) s =
      probe_memory has_memory video (of_nat lo) 1 False f (last_ptr 0 xs) s"
    by (rule probe_fast [of l]) (use reg p(2) mem low in \<open>auto intro: dvd_diff_nat\<close>)
  have b: "\<dots> = probe_memory has_memory video (of_nat (lo + 16384)) FAST_SEARCH_INCREMENT True (of_nat lo) (last_ptr 0 xs) s"
    using mem [of lo] reg top_less [of lo] by (subst probe_memory.simps) simp
  have c: "\<dots> = probe_memory has_memory video (of_nat hi) 1 True (of_nat lo) (last_ptr 0 xs) s"
    by (rule probe_fast [of lo]) (use reg mem low in \<open>auto intro: dvd_diff_nat\<close>)
  have pos: "0 < fst r" and above: "\<forall>x\<in>set xs. fst x + 4 + 4 * snd x < fst r"
    using p(4,7) reg(1) by (auto simp: r)
  obtain s' where s': "add_chunk video (of_nat lo) (of_nat hi) (last_ptr 0 xs) s =
      (last_ptr 0 (xs @ chunks video [r]), s')" "free_blocks s' (xs @ chunks video [r])"
    using add_chunk_blocks [OF p(6) reg(2) pos above, of video] unfolding r fst_conv snd_conv by blast
  have d: "probe_memory has_memory video (of_nat hi) 1 True (of_nat lo) (last_ptr 0 xs) s =
      probe_memory has_memory video (of_nat (hi + 16384)) FAST_SEARCH_INCREMENT False (of_nat lo)
        (last_ptr 0 (xs @ chunks video [r])) s'"
    using mem [of hi] low [of hi] reg top_less [of hi] s'(1) by (subst probe_memory.simps) simp
  have "\<exists>s''. probe_memory has_memory video (of_nat (hi + 16384)) FAST_SEARCH_INCREMENT False (of_nat lo)
        (last_ptr 0 (xs @ chunks video [r])) s' = Some s''
      \<and> free_blocks s'' ((xs @ chunks video [r]) @ chunks video rs)"
  proof (rule Cons.IH)
    have "fst (chunk r) + 4 + 4 * snd (chunk r) \<le> hi"
      using chunk_words(3) [OF reg(2) pos] by (simp add: chunk_def r)
    moreover have "fst x + 4 + 4 * snd x \<le> hi" if "x \<in> set xs" for x
      using p(7) that reg(1,6) by force
    ultimately show "\<forall>x\<in>set (xs @ chunks video [r]). fst x + 4 + 4 * snd x \<le> hi"
      by (auto simp: chunks_def)
    show "has_memory (of_nat x) = in_regions rs x" if "hi \<le> x" "x < 2 ^ 32" for x
      using mem [of x] reg(1,6) that by simp
    show "0 < hi" using reg(6) by simp
  qed (fact reg s'(2))+
  then show ?case by (simp only: a b c d chunks_Cons [of video r rs] append_assoc)
qed

text \<open>The first region may begin anywhere behind the kernel, since the search starts with steps of a word.\<close>

lemma kheap_init_blocks:
  assumes "regions_from (snd r) rs" "region_ok r" "k \<le> fst r" "4 dvd k" "0 < k"
    "\<And>x. k \<le> x \<Longrightarrow> x < 2 ^ 32 \<Longrightarrow> has_memory (of_nat x) = in_regions (r # rs) x" "kh_freelist s = 0"
  shows "\<exists>s'. kheap_init has_memory video (of_nat k) s = Some s' \<and> free_blocks s' (chunks video (r # rs))"
proof -
  obtain lo hi where r: "r = (lo, hi)" by fastforce
  have reg: "4 dvd lo" "4 dvd hi" "lo + 16384 \<le> hi" "hi + 16384 \<le> 0xf0000000" "k \<le> lo" "regions_from hi rs"
    using assms(1-3) by (auto simp: r region_ok_def)
  have low: "\<not> in_regions rs x" if "x < hi + 16384" for x
    using regions_above [OF reg(6)] that by (fastforce simp: in_regions_def)
  have mem: "has_memory (of_nat x) = (lo \<le> x \<and> x < hi \<or> in_regions rs x)" if "k \<le> x" "x < 2 ^ 32" for x
    using assms(6) [OF that] by (auto simp: in_regions_def r)
  have a: "probe_memory has_memory video (of_nat k) 1 False 0 0 s = probe_memory has_memory video (of_nat lo) 1 False 0 0 s"
    by (rule probe_slow) (use reg assms(4) mem low in \<open>auto intro: dvd_diff_nat\<close>)
  have b: "\<dots> = probe_memory has_memory video (of_nat (lo + 16384)) FAST_SEARCH_INCREMENT True (of_nat lo) 0 s"
    using mem [of lo] reg top_less [of lo] by (subst probe_memory.simps) simp
  have c: "\<dots> = probe_memory has_memory video (of_nat hi) 1 True (of_nat lo) 0 s"
    by (rule probe_fast [of lo]) (use reg mem low in \<open>auto intro: dvd_diff_nat\<close>)
  have start: "free_blocks s []" "last_ptr 0 [] = 0" "0 < fst r" "\<forall>x\<in>set []. fst x + 4 + 4 * snd x < fst r"
    using assms(3,5,7) by (simp_all add: free_blocks_def)
  obtain s' where s': "add_chunk video (of_nat lo) (of_nat hi) 0 s = (last_ptr 0 (chunks video [r]), s')"
    "free_blocks s' (chunks video [r])"
    using add_chunk_blocks [OF start(1) assms(2) start(3,4), of video]
    unfolding r fst_conv snd_conv start(2) append_Nil by blast
  have d: "probe_memory has_memory video (of_nat hi) 1 True (of_nat lo) 0 s =
      probe_memory has_memory video (of_nat (hi + 16384)) FAST_SEARCH_INCREMENT False (of_nat lo)
        (last_ptr 0 (chunks video [r])) s'"
    using mem [of hi] low [of hi] reg top_less [of hi] s'(1) by (subst probe_memory.simps) simp
  have "\<exists>s''. probe_memory has_memory video (of_nat (hi + 16384)) FAST_SEARCH_INCREMENT False (of_nat lo)
        (last_ptr 0 (chunks video [r])) s' = Some s''
      \<and> free_blocks s'' (chunks video [r] @ chunks video rs)"
  proof (rule probe_regions)
    have "fst (chunk r) + 4 + 4 * snd (chunk r) \<le> hi"
      using chunk_words(3) [OF assms(2) start(3)] by (simp add: chunk_def r)
    then show "\<forall>x\<in>set (chunks video [r]). fst x + 4 + 4 * snd x \<le> hi" by (auto simp: chunks_def)
    show "has_memory (of_nat x) = in_regions rs x" if "hi \<le> x" "x < 2 ^ 32" for x
      using mem [of x] reg(3,5) that by simp
    show "0 < hi" using reg(3) by simp
  qed (fact reg s'(2))+
  then show ?thesis by (simp only: kheap_init_def a b c d chunks_Cons [of video r rs])
qed

lemma regions_ok: "regions_from l rs \<Longrightarrow> q \<in> set rs \<Longrightarrow> region_ok q"
  by (induction l rs rule: regions_from.induct) auto

end
