(* ===== verification/Kheap_Properties.thy ===== *)
theory Kheap_Properties
  imports Kheap_Clients Kheap_Init
begin

text \<open>The properties of the heap with a free list.\<close>

definition sample_heap :: kheap where
  "sample_heap = \<lparr>kh_mem = (\<lambda>_. 0)(0x1000 := 10), kh_freelist = 0x1000\<rparr>"

lemma sample_heap_blocks: "free_blocks sample_heap [(0x1000, 10)]"
  by (simp add: sample_heap_def free_blocks_def spaced_Cons block_ok_def)

section \<open>Clients\<close>

text \<open>C36 Starting from a free list, clients that request memory (of at most 2^32 - 4 bytes), release
  what they were given and store only into it, in any order, never share a byte and stay in the
  memory of the free list; every request and every release returns; and when everything has been
  released the free list covers the same blocks as at the beginning.\<close>

theorem heap_clients_apart:
  assumes "free_blocks s0 bs" "client_step\<^sup>*\<^sup>* (s0, []) (s, ls)"
  shows "sorted_wrt (\<lambda>g h. grant_bytes g \<inter> grant_bytes h = {}) ls \<and>
    (\<forall>g\<in>set ls. grant_bytes g \<subseteq> spans bs) \<and>
    (\<forall>d. 0 < d \<and> d \<le> MAX_REQUEST \<longrightarrow> kheap_alloc d s \<noteq> None) \<and>
    (\<forall>g\<in>set ls. kheap_free (fst g) s \<noteq> None) \<and>
    (ls = [] \<longrightarrow> free_blocks s bs)"
proof (intro conjI)
  have inv: "heap_inv (spans bs) (s, ls)"
    by (rule clients_inv [OF assms(2) heap_inv_start [OF assms(1)]])
  show "sorted_wrt (\<lambda>g h. grant_bytes g \<inter> grant_bytes h = {}) ls" "\<forall>g\<in>set ls. grant_bytes g \<subseteq> spans bs"
    by (rule heap_inv_grants [OF inv])+
  show "\<forall>d. 0 < d \<and> d \<le> MAX_REQUEST \<longrightarrow> kheap_alloc d s \<noteq> None"
    using heap_inv_total [OF inv] by fastforce
  show "ls = [] \<longrightarrow> free_blocks s bs"
    using heap_inv_end inv assms(1) by (auto simp: free_blocks_def)
  show "\<forall>g\<in>set ls. kheap_free (fst g) s \<noteq> None"
    using inv heap_inv_free [of "spans bs" s] by (fastforce dest!: split_list)
qed

lemma sample_heap_take:
  "kheap_alloc 4 sample_heap =
     Some (0x1028, sample_heap\<lparr>kh_mem := (\<lambda>_. 0)(0x1024 := 1, 0x1000 := 8)\<rparr>)"
  by (simp add: kheap_alloc_def sample_heap_def to_words_def find_fit.simps [of _ 1] set_length_def
      block_length_def fun_upd_twist)

theorem heap_clients_apart_witness:
  "\<exists>s. client_step\<^sup>*\<^sup>* (sample_heap, []) (s, [(0x1028, 4)]) \<and> grant_bytes (0x1028, 4) \<subseteq> spans [(0x1000, 10)]
     \<and> kheap_free 0x1028 s \<noteq> None"
proof -
  let ?s = "sample_heap\<lparr>kh_mem := (\<lambda>_. 0)(0x1024 := 1, 0x1000 := 8)\<rparr>"
  have "client_step (sample_heap, []) (?s, [(0x1028, 4)])"
    by (rule client_step.take [OF sample_heap_take]) simp_all
  then have run: "client_step\<^sup>*\<^sup>* (sample_heap, []) (?s, [(0x1028, 4)])" by blast
  show ?thesis
    using run heap_clients_apart [OF sample_heap_blocks run] by fastforce
qed

section \<open>The list of free blocks\<close>

text \<open>C37 Allocation and release implement two functions on the list of free blocks: the first block that
  is large enough is split at its end or taken whole, and nothing is allocated only if no block is
  large enough; a released block is put back in its place and merged with its neighbours.\<close>

theorem kheap_implements_lists:
  assumes "free_blocks s bs"
  shows "(0 < d \<and> d \<le> MAX_REQUEST \<longrightarrow>
      (case take_block ((unat d + 3) div 4) bs of
         None \<Rightarrow> kheap_alloc d s = Some (0, s) \<and> (\<forall>x\<in>set bs. 4 * snd x < unat d)
       | Some ((b, n), bs') \<Rightarrow> \<exists>s'. kheap_alloc d s = Some (of_nat b + 4, s') \<and> free_blocks s' bs'
           \<and> unat d \<le> 4 * n \<and> kh_mem s' (of_nat b) = of_nat n
           \<and> span (b, n) \<union> spans bs' = spans bs \<and> span (b, n) \<inter> spans bs' = {})) \<and>
    (block_ok (u, k) \<and> span (u, k) \<inter> spans bs = {} \<and> kh_mem s (of_nat u) = of_nat k \<longrightarrow>
      (\<exists>s'. kheap_free (of_nat u + 4) s = Some s' \<and> free_blocks s' (give_block (u, k) bs)))"
proof (intro conjI impI, elim conjE)
  assume d: "0 < d" "d \<le> MAX_REQUEST"
  note w = to_words_of_request [OF d]
  show "case take_block ((unat d + 3) div 4) bs of
         None \<Rightarrow> kheap_alloc d s = Some (0, s) \<and> (\<forall>x\<in>set bs. 4 * snd x < unat d)
       | Some ((b, n), bs') \<Rightarrow> \<exists>s'. kheap_alloc d s = Some (of_nat b + 4, s') \<and> free_blocks s' bs'
           \<and> unat d \<le> 4 * n \<and> kh_mem s' (of_nat b) = of_nat n
           \<and> span (b, n) \<union> spans bs' = spans bs \<and> span (b, n) \<inter> spans bs' = {}"
  proof (cases rule: kheap_alloc_cases [OF assms conjunct2 [OF w]])
    case 1
    then have "\<forall>x\<in>set bs. 4 * snd x < unat d" using w by fastforce
    moreover have "take_block ((unat d + 3) div 4) bs = None" using 1(1) w by (simp add: take_block_None)
    ultimately show ?thesis using 1(2) by simp
  next
    case (2 b n bs' s')
    then show ?thesis using w by auto
  qed
next
  assume "block_ok (u, k) \<and> span (u, k) \<inter> spans bs = {} \<and> kh_mem s (of_nat u) = of_nat k"
  then show "\<exists>s'. kheap_free (of_nat u + 4) s = Some s' \<and> free_blocks s' (give_block (u, k) bs)"
    using kheap_free_blocks [OF assms] by blast
qed

theorem kheap_implements_lists_witness:
  "(\<exists>s'. kheap_alloc 4 sample_heap = Some (0x1028, s') \<and> free_blocks s' [(0x1000, 8)])
   \<and> (\<exists>s'. kheap_free 0x2004 (sample_heap\<lparr>kh_mem := (\<lambda>_. 0)(0x1000 := 10, 0x2000 := 3)\<rparr>) = Some s'
        \<and> free_blocks s' [(0x1000, 10), (0x2000, 3)])"
proof
  show "\<exists>s'. kheap_alloc 4 sample_heap = Some (0x1028, s') \<and> free_blocks s' [(0x1000, 8)]"
    using kheap_implements_lists [OF sample_heap_blocks, of 4] by (simp, blast)
  have "free_blocks (sample_heap\<lparr>kh_mem := (\<lambda>_. 0)(0x1000 := 10, 0x2000 := 3)\<rparr>) [(0x1000, 10)]"
    by (simp add: sample_heap_def free_blocks_def spaced_Cons block_ok_def)
  then show "\<exists>s'. kheap_free 0x2004 (sample_heap\<lparr>kh_mem := (\<lambda>_. 0)(0x1000 := 10, 0x2000 := 3)\<rparr>) = Some s'
      \<and> free_blocks s' [(0x1000, 10), (0x2000, 3)]"
    using kheap_implements_lists [of _ "[(0x1000, 10)]" _ "0x2000" 3] by (force simp: block_ok_def span_def)
qed

section \<open>Finding memory\<close>

text \<open>C38 When the regions of memory and the gaps between them are at least 16 KiB long, the search
  ends with one free block for every region but that of the video memory, covering it exactly.\<close>

theorem kheap_init_finds_regions:
  assumes "regions_from (snd r) rs" "region_ok r" "k \<le> fst r" "4 dvd k" "0 < k"
    "\<forall>x. k \<le> x \<and> x < 2 ^ 32 \<longrightarrow> has_memory (of_nat x) = in_regions (r # rs) x" "kh_freelist s = 0"
  shows "(\<exists>s'. kheap_init has_memory video (of_nat k) s = Some s' \<and> free_blocks s' (chunks video (r # rs))) \<and>
    spans (chunks video (r # rs)) =
      {x. \<exists>q\<in>set (r # rs). of_nat (fst q) \<noteq> video \<and> fst q \<le> x \<and> x < snd q}"
proof
  show "\<exists>s'. kheap_init has_memory video (of_nat k) s = Some s' \<and> free_blocks s' (chunks video (r # rs))"
    by (rule kheap_init_blocks) (use assms in auto)
  have "region_ok q \<and> 0 < fst q" if "q \<in> set (r # rs)" for q
    using that assms(2,3,5) regions_above [OF assms(1), of q] regions_ok [OF assms(1), of q] by auto
  then have span: "span (chunk q) = {fst q ..< snd q}" if "q \<in> set (r # rs)" for q
    using chunk_words(3) [of q] that by (simp add: span_def chunk_def)
  have "set (chunks video (r # rs)) = chunk ` {q \<in> set (r # rs). of_nat (fst q) \<noteq> video}"
    unfolding chunks_def by auto
  then show "spans (chunks video (r # rs)) =
      {x. \<exists>q\<in>set (r # rs). of_nat (fst q) \<noteq> video \<and> fst q \<le> x \<and> x < snd q}"
    using span by (auto simp: spans_def simp del: set_simps)
qed

definition sample_regions :: "(nat \<times> nat) list" where
  "sample_regions = [(0x10000, 0x9C000), (0xB8000, 0xC0000), (0x100000, 0x1000000)]"

theorem kheap_init_finds_regions_witness:
  "\<exists>s'. kheap_init (\<lambda>a. in_regions sample_regions (unat a)) 0xB8000 (of_nat 0x10000)
       \<lparr>kh_mem = \<lambda>_. 0, kh_freelist = 0\<rparr> = Some s'
     \<and> free_blocks s' [(0x10000, 0x22FFF), (0x100000, 0x3BFFFF)]"
proof -
  have c: "chunks 0xB8000 ((0x10000, 0x9C000) # [(0xB8000, 0xC0000), (0x100000, 0x1000000)]) =
      [(0x10000, 0x22FFF), (0x100000, 0x3BFFFF)]"
    by (simp add: chunks_def chunk_def)
  show ?thesis
    unfolding sample_regions_def c [symmetric]
    by (rule kheap_init_finds_regions [THEN conjunct1]) (simp_all add: region_ok_def unat_of_nat_u32)
qed

section \<open>Requests that wrap\<close>

text \<open>
  A request of no bytes, or of more than \<^verbatim>\<open>0xFFFFFFFC\<close>, counts as one of no words: it is granted, and
  the address that is returned is that of the word behind the free block, where the length
  of another block may be.
\<close>

theorem wrapped_request_granted:
  assumes "free_blocks s ((b, n) # bs)" "2 < n" "d = 0 \<or> MAX_REQUEST < d"
  shows "\<exists>s'. kheap_alloc d s = Some (of_nat (b + 4 + 4 * n), s') \<and> kh_mem s' (of_nat (b + 4 * n)) = 0"
proof -
  have "unat (to_words d) = 0"
  proof (cases "d = 0")
    case False
    then have "4294967292 < unat d" using assms(3) by (simp add: word_less_nat_alt)
    moreover have "unat (d + 3) = (unat d + 3) mod 4294967296" by (simp add: unat_word_ariths)
    moreover have "unat d < 4294967296" using unsigned_less [of d, where 'a = nat] by simp
    ultimately have "unat (d + 3) < 4" by (simp add: le_mod_geq)
    then show ?thesis by (simp add: to_words_unat)
  qed (simp add: to_words_unat)
  then show ?thesis
    using kheap_alloc_blocks [OF assms(1), of d] assms(2)
    by (auto simp: algebra_simps)
qed

end
