(* ===== verification/Shell.thy ===== *)
theory Shell
  imports Fat64 Graphics Pids
begin

text \<open>
  The shell, \<^verbatim>\<open>userland/shell.c\<close>, on the components that it uses: characters come from the keyboard,
  text goes to the screen of the process, and the commands call the file system and the table of hosts.
  The characters that \<^verbatim>\<open>c_getchar\<close> is going to return are a list in the state.
  Other processes are reached by system calls, which are recorded in order; what they return is
  an argument.
\<close>

section \<open>State\<close>

datatype shell_call =
    Setscreen handle_t
  | Switchscreen handle_t
  | Fork
  | Sendmsg mac_address_t u16 "u8 list" u16

record shell =
  sh_x :: u32
  sh_y :: u32
  sh_input :: "u8 list"
  sh_gs :: gs
  sh_cd :: fat64_file_t
  sh_disk :: disk
  sh_calls :: "shell_call list"

text \<open>
  A routine may never come back: it waits for a character that nobody types, loops, or has become
  another program.  That is \<open>None\<close>.
\<close>

type_synonym 'a shell_result = "'a outcome option"

definition goes_on :: "'a shell_result \<Rightarrow> ('a \<Rightarrow> 'b shell_result) \<Rightarrow> 'b shell_result" where
  "goes_on r f = (case r of None \<Rightarrow> None | Some (Inl e) \<Rightarrow> Some (Inl e) | Some (Inr v) \<Rightarrow> f v)"

lemma goes_on_simps [simp]:
  "goes_on None f = None" "goes_on (Some (Inl e)) f = Some (Inl e)" "goes_on (Some (Inr v)) f = f v"
  by (simp_all add: goes_on_def)

definition call :: "shell_call \<Rightarrow> shell \<Rightarrow> shell" where
  "call c s = s\<lparr>sh_calls := sh_calls s @ [c]\<rparr>"

section \<open>Strings\<close>

definition text_of :: "string \<Rightarrow> u8 list" where
  "text_of = map (\<lambda>c. of_nat (of_char c))"

text \<open>The string in an array, up to the zero byte; without one the reader goes on behind the array.\<close>

definition c_str :: "u8 list \<Rightarrow> u8 list outcome" where
  "c_str buf = (if 0 \<in> set buf then Inr (takeWhile (\<lambda>c. c \<noteq> 0) buf) else Inl (Fault ''string without end''))"

text \<open>\<^verbatim>\<open>strcmp\<close> finds no difference to a constant string.\<close>

definition same_text :: "u8 list \<Rightarrow> string \<Rightarrow> bool" where
  "same_text buf t \<longleftrightarrow> take (length t + 1) buf = text_of t @ [0]"

section \<open>Output and input\<close>

abbreviation GS_DRAW_MODE_FLAT :: u32 where "GS_DRAW_MODE_FLAT \<equiv> 0"

definition put_text :: "font_t \<Rightarrow> u8 list \<Rightarrow> shell \<Rightarrow> shell outcome" where
  "put_text font t s =
     andThen (gs_puts_at font (FONT_CHAR_WIDTH * sh_x s) (FONT_CHAR_HEIGHT * sh_y s) t GS_DRAW_MODE_FLAT (sh_gs s))
       (\<lambda>g. Inr (s\<lparr>sh_gs := g\<rparr>))"

definition put_char :: "font_t \<Rightarrow> u8 \<Rightarrow> shell \<Rightarrow> shell outcome" where
  "put_char font c s =
     andThen (gs_putc_at font (FONT_CHAR_WIDTH * sh_x s) (FONT_CHAR_HEIGHT * sh_y s) c GS_DRAW_MODE_FLAT (sh_gs s))
       (\<lambda>g. Inr (s\<lparr>sh_gs := g\<rparr>))"

definition new_line :: "shell \<Rightarrow> shell" where
  "new_line s =
     (let s1 = s\<lparr>sh_y := sh_y s + 1\<rparr>;
          s2 = (if sh_y s1 = of_nat LEGACY_SCREEN_HEIGHT then s1\<lparr>sh_y := 0, sh_gs := gs_clear (sh_gs s1)\<rparr> else s1)
      in s2\<lparr>sh_x := 0\<rparr>)"

text \<open>The loop over the characters; a character behind the end of the array is a fault.\<close>

fun input_loop :: "font_t \<Rightarrow> u8 list \<Rightarrow> u8 list \<Rightarrow> u32 \<Rightarrow> shell \<Rightarrow> (u8 list \<times> shell) shell_result" where
  "input_loop font [] buf loc s = None"
| "input_loop font (c # cs) buf loc s =
     (if c = 0x8 then
        if loc = 0 then input_loop font cs buf loc s
        else
          let loc = loc - 1; s1 = s\<lparr>sh_x := sh_x s - 1\<rparr>
          in goes_on (Some (put_char font 0 s1)) (input_loop font cs (buf[unat loc := 0]) loc)
      else if c = 0xD \<or> c = 0xA then Some (Inr (buf, s\<lparr>sh_input := cs\<rparr>))
      else if length buf \<le> unat loc then Some (Inl (Fault ''get_input: character behind the buffer''))
      else
        goes_on (Some (put_char font c s))
          (\<lambda>s1. input_loop font cs (buf[unat loc := c]) (loc + 1) (s1\<lparr>sh_x := sh_x s1 + 1\<rparr>)))"

definition get_input :: "font_t \<Rightarrow> u8 list \<Rightarrow> shell \<Rightarrow> (u8 list \<times> shell) shell_result" where
  "get_input font buf s =
     goes_on (input_loop font (sh_input s) buf 0 s) (\<lambda>(buf, s). Some (Inr (buf, new_line s)))"

section \<open>Commands\<close>

text \<open>A prompt, and the answer in an array.\<close>

definition ask :: "font_t \<Rightarrow> string \<Rightarrow> u32 \<Rightarrow> u8 list \<Rightarrow> shell \<Rightarrow> (u8 list \<times> shell) shell_result" where
  "ask font prompt x buf s =
     goes_on (Some (put_text font (text_of prompt) s)) (\<lambda>s. get_input font buf (s\<lparr>sh_x := x\<rparr>))"

text \<open>The name of an entry is a string in an array of 256 bytes.\<close>

definition entry_name :: "fat64_file_t \<Rightarrow> u8 list" where
  "entry_name f = map (de_name (f_entry f)) [0..<256]"

fun ls_loop :: "fat64_partition_t \<Rightarrow> font_t \<Rightarrow> nat list \<Rightarrow> shell \<Rightarrow> shell outcome" where
  "ls_loop part font [] s = Inr s"
| "ls_loop part font (i # is) s =
     andThen (fat64_dir_entry part (sh_cd s) (of_nat i) zero_file (sh_disk s)) (\<lambda>(stat, cd, f).
       let s1 = s\<lparr>sh_cd := cd\<rparr>
       in if stat = 0 then
            andThen (put_text font [0x30 + ucast (de_num (f_entry f)), 0x3A, 0x20] s1) (\<lambda>s2.
            andThen (c_str (entry_name f)) (\<lambda>name.
            andThen (put_text font name (s2\<lparr>sh_x := sh_x s2 + 3\<rparr>)) (\<lambda>s3.
              ls_loop part font is (new_line s3))))
          else ls_loop part font is s1)"

definition cmd_ls :: "fat64_partition_t \<Rightarrow> font_t \<Rightarrow> shell \<Rightarrow> shell shell_result" where
  "cmd_ls part font s =
     Some (ls_loop part font [0..<8] (s\<lparr>sh_cd := fat64_reopen part (sh_disk s) (sh_cd s)\<rparr>))"

definition cmd_touch :: "fat64_partition_t \<Rightarrow> font_t \<Rightarrow> shell \<Rightarrow> shell shell_result" where
  "cmd_touch part font s =
     goes_on (ask font ''Filename: '' 10 (replicate 255 0) s) (\<lambda>(file_name, s).
       let s1 = s\<lparr>sh_cd := fat64_reopen part (sh_disk s) (sh_cd s)\<rparr>
       in Some (andThen (c_str file_name) (\<lambda>name.
            andThen (fat64_touch part (sh_cd s1) name (sh_disk s1)) (\<lambda>(stat, cd, d).
              case fat64_flush part cd d of (cd', d') \<Rightarrow> Inr (s1\<lparr>sh_cd := cd', sh_disk := d'\<rparr>)))))"

text \<open>A digit as a number; a \<^verbatim>\<open>char\<close> is signed.\<close>

definition digit_of :: "u8 list \<Rightarrow> u64" where
  "digit_of entry = scast (hd entry) - 0x30"

definition open_entry :: "fat64_partition_t \<Rightarrow> u64 \<Rightarrow> shell \<Rightarrow> (status_t \<times> fat64_file_t \<times> shell) outcome" where
  "open_entry part n s =
     andThen (fat64_dir_entry part (sh_cd s) n zero_file (sh_disk s)) (\<lambda>(stat, cd, f).
       Inr (stat, f, s\<lparr>sh_cd := cd\<rparr>))"

definition cmd_rm :: "fat64_partition_t \<Rightarrow> font_t \<Rightarrow> shell \<Rightarrow> shell shell_result" where
  "cmd_rm part font s =
     goes_on (ask font ''Entry: '' 7 (replicate 255 0) s) (\<lambda>(entry, s).
       goes_on (Some (open_entry part (digit_of entry) s)) (\<lambda>(stat, f, s).
         if stat = 0 then
           goes_on (fat64_rm part f (sh_disk s)) (\<lambda>(stat, f, d).
             case fat64_flush part (sh_cd s) d of (cd, d') \<Rightarrow> Some (Inr (s\<lparr>sh_cd := cd, sh_disk := d'\<rparr>)))
         else Some (Inr s)))"

definition cmd_write :: "fat64_partition_t \<Rightarrow> font_t \<Rightarrow> shell \<Rightarrow> shell shell_result" where
  "cmd_write part font s =
     goes_on (ask font ''Entry: '' 7 (replicate 255 0) s) (\<lambda>(entry, s).
       goes_on (Some (open_entry part (digit_of entry) s)) (\<lambda>(stat, f, s).
         if stat = 0 then
           goes_on (ask font ''Data: '' 6 entry (new_line s)) (\<lambda>(entry, s).
             goes_on (fat64_write part 128 (\<lambda>i. entry ! unat i) f (sh_disk s)) (\<lambda>(stat, f, d).
               Some (Inr (s\<lparr>sh_disk := snd (fat64_flush part f d)\<rparr>))))
         else Some (Inr s)))"

definition cmd_cat :: "fat64_partition_t \<Rightarrow> font_t \<Rightarrow> shell \<Rightarrow> shell shell_result" where
  "cmd_cat part font s =
     goes_on (ask font ''Entry: '' 7 (replicate 255 0) s) (\<lambda>(entry, s).
       goes_on (Some (open_entry part (digit_of entry) s)) (\<lambda>(stat, f, s).
         if stat = 0 then
           goes_on (fat64_read part 128 (\<lambda>i. entry ! unat i) f (sh_disk s)) (\<lambda>(stat, buf, f, d).
             Some (andThen (c_str (map (\<lambda>i. buf (of_nat i)) [0..<255])) (\<lambda>t.
               put_text font t (new_line (s\<lparr>sh_disk := d\<rparr>)))))
         else Some (Inr s)))"

text \<open>
  The message is a local variable: its data are what the stack held, \<open>stack\<close>, as far as no
  character is stored; \<open>pid\<close> is what \<^verbatim>\<open>getpid\<close> returns.
\<close>

definition cmd_send :: "font_t \<Rightarrow> u8 list \<Rightarrow> u16 \<Rightarrow> shell \<Rightarrow> shell shell_result" where
  "cmd_send font stack pid s =
     goes_on (ask font ''Host: '' 7 (replicate 255 0) s) (\<lambda>(desthost, s).
       goes_on (Some (c_str desthost)) (\<lambda>name.
         case hosts_get_address (map (\<lambda>c. char_of (unat c)) name) of
           None \<Rightarrow> Some (andThen (put_text font (text_of ''ERROR: Unknown host'') s) (\<lambda>s. Inr (new_line s)))
         | Some addr \<Rightarrow>
             goes_on (ask font ''Message: '' 10 stack s) (\<lambda>(data, s).
               Some (andThen (c_str data) (\<lambda>t.
                 Inr (call (Sendmsg addr pid data (of_nat (length t))) (call (Switchscreen 0) s)))))))"

section \<open>The shell\<close>

text \<open>What the environment answers: the result of \<^verbatim>\<open>fork\<close>, that of \<^verbatim>\<open>getpid\<close>, and the stack.\<close>

record shell_env =
  env_fork :: u32
  env_pid :: u16
  env_stack :: "u8 list"

text \<open>A program that is executed in place of the shell does not come back.\<close>

definition cmd_manager :: "shell_env \<Rightarrow> shell \<Rightarrow> shell shell_result" where
  "cmd_manager env s = (if env_fork env = 0 then None else Some (Inr (call Fork s)))"

definition run_command :: "fat64_partition_t \<Rightarrow> font_t \<Rightarrow> shell_env \<Rightarrow> u8 list \<Rightarrow> shell \<Rightarrow> shell shell_result" where
  "run_command part font env buf s =
     (if same_text buf ''ls'' then cmd_ls part font s
      else if same_text buf ''touch'' then cmd_touch part font s
      else if same_text buf ''rm'' then cmd_rm part font s
      else if same_text buf ''write'' then cmd_write part font s
      else if same_text buf ''cat'' then cmd_cat part font s
      else if same_text buf ''send'' then cmd_send font (env_stack env) (env_pid env) s
      else if same_text buf ''home'' then Some (Inr (call (Switchscreen 0) s))
      else if same_text buf ''clear'' then Some (Inr (s\<lparr>sh_x := 0, sh_y := 0, sh_gs := gs_clear (sh_gs s)\<rparr>))
      else if same_text buf ''manager'' then cmd_manager env s
      else Some (put_text font (text_of '' - Command not found'') s))"

definition shell_step :: "fat64_partition_t \<Rightarrow> font_t \<Rightarrow> shell_env \<Rightarrow> shell \<Rightarrow> shell shell_result" where
  "shell_step part font env s =
     goes_on (ask font '' >'' 2 (replicate 1024 0) s) (\<lambda>(buf, s).
       goes_on (run_command part font env buf s) (\<lambda>s. Some (Inr (new_line s))))"

text \<open>The first commands; the loop itself has no end.\<close>

fun shell_steps :: "fat64_partition_t \<Rightarrow> font_t \<Rightarrow> shell_env \<Rightarrow> nat \<Rightarrow> shell \<Rightarrow> shell shell_result" where
  "shell_steps part font env 0 s = Some (Inr s)"
| "shell_steps part font env (Suc n) s = goes_on (shell_step part font env s) (shell_steps part font env n)"

text \<open>The beginning; without a screen the process ends.\<close>

definition shell_start :: "fat64_partition_t \<Rightarrow> handle_t \<Rightarrow> shell \<Rightarrow> shell option" where
  "shell_start part scr s =
     (if scr AND 0x80000000 \<noteq> 0 then None
      else
        let s1 = call (Switchscreen scr) (call (Setscreen scr) (s\<lparr>sh_cd := snd (fat64_open part (sh_disk s))\<rparr>))
        in Some (s1\<lparr>sh_gs := gs_clear (sh_gs s1)\<rparr>))"

end
