(* ===== verification/Shell_Lemmas.thy ===== *)
theory Shell_Lemmas
  imports Shell Graphics_Lemmas Fat64_Dirs
begin

text \<open>
  The input of the shell as the editing of a line: what is typed and the rest of the array are two
  lists, between which the characters move.
\<close>

section \<open>Output does not fail\<close>

definition ascii :: "u8 list \<Rightarrow> bool" where
  "ascii t \<longleftrightarrow> (\<forall>c\<in>set t. unat c < 128)"

lemma gs_puts_at_ok: "ascii t \<Longrightarrow> \<exists>g'. gs_puts_at font x y t dm g = Inr g'"
proof (induction font x y t dm g rule: gs_puts_at.induct)
  case (2 font x y c cs dm g)
  then have "ascii cs" "unat c < 128" by (simp_all add: ascii_def)
  then show ?case using "2.IH" by (auto simp: gs_putc_at_def putc_ok split: prod.splits)
qed simp

lemma put_text_ok: "ascii t \<Longrightarrow> \<exists>g. put_text font t s = Inr (s\<lparr>sh_gs := g\<rparr>)"
  using gs_puts_at_ok [of t font "FONT_CHAR_WIDTH * sh_x s" "FONT_CHAR_HEIGHT * sh_y s" GS_DRAW_MODE_FLAT "sh_gs s"]
  by (auto simp: put_text_def)

lemma put_char_ok: "unat c < 128 \<Longrightarrow> \<exists>g. put_char font c s = Inr (s\<lparr>sh_gs := g\<rparr>)"
  by (auto simp: put_char_def gs_putc_at_def putc_ok)

lemma new_line_frame:
  "sh_x (new_line s) = 0" "sh_input (new_line s) = sh_input s" "sh_cd (new_line s) = sh_cd s"
  "sh_disk (new_line s) = sh_disk s" "sh_calls (new_line s) = sh_calls s"
  by (simp_all add: new_line_def Let_def)

lemma text_of_ascii: "list_all (\<lambda>c. of_char c < (128 :: nat)) t \<Longrightarrow> ascii (text_of t)"
  by (induction t) (auto simp: ascii_def text_of_def unat_of_nat take_bit_nat_eq_self)

section \<open>Editing a line\<close>

fun edit :: "u8 list \<times> u8 list \<Rightarrow> u8 list \<Rightarrow> (u8 list \<times> u8 list) option" where
  "edit (typed, free) [] = Some (typed, free)"
| "edit (typed, free) (c # cs) =
     (if c = 0x8 then edit (if typed = [] then (typed, free) else (butlast typed, 0 # free)) cs
      else case free of [] \<Rightarrow> None | f # fs \<Rightarrow> edit (typed @ [c], fs) cs)"

definition line_chars :: "u8 list \<Rightarrow> bool" where
  "line_chars cs \<longleftrightarrow> ascii cs \<and> 0xA \<notin> set cs \<and> 0xD \<notin> set cs"

lemma line_chars_Cons:
  "line_chars (c # cs) \<longleftrightarrow> unat c < 128 \<and> c \<noteq> 0xA \<and> c \<noteq> 0xD \<and> line_chars cs"
  by (auto simp: line_chars_def ascii_def)

definition same_rest :: "shell \<Rightarrow> shell \<Rightarrow> bool" where
  "same_rest s s' \<longleftrightarrow> sh_cd s' = sh_cd s \<and> sh_disk s' = sh_disk s \<and> sh_calls s' = sh_calls s \<and> sh_y s' = sh_y s"

lemma butlast_update: "typed \<noteq> [] \<Longrightarrow> (typed @ free)[length typed - 1 := a] = butlast typed @ a # free"
  by (cases typed rule: rev_cases) (auto simp: list_update_append)

lemma input_loop_edit:
  assumes "line_chars cs" "e = 0xA \<or> e = 0xD" "length typed + length free < 2 ^ 32"
  shows "case edit (typed, free) cs of
      None \<Rightarrow> input_loop font (cs @ e # rest) (typed @ free) (of_nat (length typed)) s =
        Some (Inl (Fault ''get_input: character behind the buffer''))
    | Some (typed', free') \<Rightarrow> \<exists>s'. input_loop font (cs @ e # rest) (typed @ free) (of_nat (length typed)) s =
        Some (Inr (typed' @ free', s')) \<and> sh_input s' = rest \<and> same_rest s s'"
  using assms(1,3)
proof (induction cs arbitrary: typed free s)
  case Nil
  then show ?case using assms(2) by (auto simp: same_rest_def)
next
  case (Cons c cs)
  have c: "unat c < 128" "c \<noteq> 0xA" "c \<noteq> 0xD" "line_chars cs" using Cons.prems(1) by (simp_all add: line_chars_Cons)
  have len: "unat (of_nat (length typed) :: u32) = length typed" using Cons.prems(2) by (simp add: unat_of_nat_u32)
  consider (nothing) "c = 0x8" "typed = []" | (erase) "c = 0x8" "typed \<noteq> []" | (full) "c \<noteq> 0x8" "free = []"
    | (store) f fs where "c \<noteq> 0x8" "free = f # fs"
    by (cases free) auto
  then show ?case
  proof cases
    case nothing
    then have "input_loop font ((c # cs) @ e # rest) (typed @ free) (of_nat (length typed)) s =
        input_loop font (cs @ e # rest) ([] @ free) (of_nat (length [])) s"
      "edit (typed, free) (c # cs) = edit ([], free) cs" by simp_all
    then show ?thesis using Cons.IH [OF c(4), of "[]" free s] nothing Cons.prems(2) by (simp only: list.size)
  next
    case erase
    let ?s = "s\<lparr>sh_x := sh_x s - 1\<rparr>"
    obtain g where g: "put_char font 0 ?s = Inr (?s\<lparr>sh_gs := g\<rparr>)" using put_char_ok [of 0 font ?s] by auto
    obtain k where k: "length typed = Suc k" using erase by (cases typed) auto
    have n: "(of_nat (length typed) :: u32) - 1 = of_nat (length (butlast typed))"
      by (simp add: k)
    have "(of_nat (length typed) :: u32) \<noteq> 0" using len k by (metis nat.distinct(1) unat_0)
    moreover have "unat (of_nat (length (butlast typed)) :: u32) = length typed - 1"
      using Cons.prems(2) k by (simp add: unat_of_nat_u32)
    note n = n this calculation
    have "input_loop font ((c # cs) @ e # rest) (typed @ free) (of_nat (length typed)) s =
        input_loop font (cs @ e # rest) (butlast typed @ 0 # free) (of_nat (length (butlast typed))) (?s\<lparr>sh_gs := g\<rparr>)"
      using erase n g butlast_update [of typed free 0] by (simp add: Let_def)
    moreover have "edit (typed, free) (c # cs) = edit (butlast typed, 0 # free) cs" using erase by simp
    moreover have "length (butlast typed) + length (0 # free) < 2 ^ 32" using erase Cons.prems(2) by (cases typed) auto
    ultimately show ?thesis
      using Cons.IH [OF c(4), of "butlast typed" "0 # free" "?s\<lparr>sh_gs := g\<rparr>"]
      by (simp only:) (auto simp: same_rest_def split: option.splits)
  next
    case full
    then show ?thesis using c len by simp
  next
    case (store f fs)
    obtain g where g: "put_char font c s = Inr (s\<lparr>sh_gs := g\<rparr>)" using put_char_ok [OF c(1)] by blast
    have "input_loop font ((c # cs) @ e # rest) (typed @ free) (of_nat (length typed)) s =
        input_loop font (cs @ e # rest) ((typed @ [c]) @ fs) (of_nat (length (typed @ [c])))
          (s\<lparr>sh_gs := g, sh_x := sh_x s + 1\<rparr>)"
      using store c len g by (simp add: list_update_append add.commute)
    moreover have "edit (typed, free) (c # cs) = edit (typed @ [c], fs) cs" using store by simp
    moreover have "length (typed @ [c]) + length fs < 2 ^ 32" using store Cons.prems(2) by simp
    ultimately show ?thesis
      using Cons.IH [OF c(4), of "typed @ [c]" fs "s\<lparr>sh_gs := g, sh_x := sh_x s + 1\<rparr>"]
      by (simp only:) (auto simp: same_rest_def split: option.splits)
  qed
qed

lemma get_input_edit:
  assumes "line_chars cs" "e = 0xA \<or> e = 0xD" "length buf < 2 ^ 32" "sh_input s = cs @ e # rest"
  shows "case edit ([], buf) cs of
      None \<Rightarrow> get_input font buf s = Some (Inl (Fault ''get_input: character behind the buffer''))
    | Some (typed, free) \<Rightarrow> \<exists>s'. get_input font buf s = Some (Inr (typed @ free, new_line s'))
        \<and> sh_input s' = rest \<and> same_rest s s'"
  using input_loop_edit [OF assms(1,2), of "[]" buf font rest s] assms(3,4)
  by (auto simp: get_input_def split: option.splits)

text \<open>Without a backspace the characters go into the array one after the other.\<close>

lemma edit_plain:
  "0x8 \<notin> set cs \<Longrightarrow> length cs \<le> length free \<Longrightarrow> edit (typed, free) cs = Some (typed @ cs, drop (length cs) free)"
proof (induction cs arbitrary: typed free)
  case (Cons c cs)
  then show ?case by (cases free) auto
qed simp

lemma ask_plain:
  assumes "line_chars cs" "0x8 \<notin> set cs" "length cs \<le> length buf" "length buf < 2 ^ 32"
    "sh_input s = cs @ 0xD # rest" "list_all (\<lambda>c. of_char c < (128 :: nat)) prompt"
  obtains s' where "ask font prompt x buf s = Some (Inr (cs @ drop (length cs) buf, s'))"
    "sh_input s' = rest" "sh_cd s' = sh_cd s" "sh_disk s' = sh_disk s" "sh_calls s' = sh_calls s"
proof -
  obtain g where g: "put_text font (text_of prompt) s = Inr (s\<lparr>sh_gs := g\<rparr>)"
    using put_text_ok [OF text_of_ascii [OF assms(6)]] by blast
  have "\<exists>s'. get_input font buf (s\<lparr>sh_gs := g, sh_x := x\<rparr>) = Some (Inr (cs @ drop (length cs) buf, new_line s'))
      \<and> sh_input s' = rest \<and> same_rest (s\<lparr>sh_gs := g, sh_x := x\<rparr>) s'"
    using get_input_edit [OF assms(1), of "0xD" buf "s\<lparr>sh_gs := g, sh_x := x\<rparr>" rest font]
      edit_plain [OF assms(2,3), of "[]"] assms(4,5) by simp
  then obtain s' where s': "get_input font buf (s\<lparr>sh_gs := g, sh_x := x\<rparr>) = Some (Inr (cs @ drop (length cs) buf, new_line s'))"
    "sh_input s' = rest" "same_rest (s\<lparr>sh_gs := g, sh_x := x\<rparr>) s'" by blast
  show ?thesis
    by (rule that [of "new_line s'"]) (use g s' in \<open>simp_all add: ask_def new_line_frame same_rest_def\<close>)
qed

end
