(* ===== verification/Shell_Properties.thy ===== *)
theory Shell_Properties
  imports Shell_Lemmas File_Properties Graphics_Properties
begin

text \<open>The properties of the shell.\<close>

definition sample_shell :: "fat64_file_t \<Rightarrow> disk \<Rightarrow> u8 list \<Rightarrow> shell" where
  "sample_shell cd d input =
     \<lparr>sh_x = 0, sh_y = 0, sh_input = input, sh_gs = sample_gs 40 30, sh_cd = cd, sh_disk = d, sh_calls = []\<rparr>"

definition sample_font :: font_t where
  "sample_font = (\<lambda>_ _ _. 0xff)"

definition sample_env :: shell_env where
  "sample_env = \<lparr>env_fork = 1, env_pid = 1, env_stack = replicate 1024 0\<rparr>"

section \<open>Lines\<close>

text \<open>C39 Reading a line is editing: characters are appended, a backspace takes back the last one, and
  nothing happens at the beginning of the line; the array holds what is left, followed by what it
  held before where nothing was typed and zero where something was taken back.  The line ends at a
  line feed or a carriage return; the file system, the calls and the rest of the input are as before.
  A character behind the end of the array is stored all the same.\<close>

theorem shell_line_editing:
  assumes "line_chars cs" "e = 0xA \<or> e = 0xD" "length buf < 2 ^ 32" "sh_input s = cs @ e # rest"
  shows "case edit ([], buf) cs of
      None \<Rightarrow> get_input font buf s = Some (Inl (Fault ''get_input: character behind the buffer''))
    | Some (typed, free) \<Rightarrow> \<exists>s'. get_input font buf s = Some (Inr (typed @ free, s'))
        \<and> sh_input s' = rest \<and> sh_x s' = 0 \<and> sh_cd s' = sh_cd s \<and> sh_disk s' = sh_disk s \<and> sh_calls s' = sh_calls s
        \<and> sh_y s' = (if sh_y s + 1 = 64 then 0 else sh_y s + 1)"
proof -
  have "sh_y (new_line s') = (if sh_y s + 1 = 64 then 0 else sh_y s + 1)" if "same_rest s s'" for s'
    using that by (simp add: new_line_def same_rest_def Let_def)
  then show ?thesis
    using get_input_edit [OF assms, of font] new_line_frame by (fastforce simp: same_rest_def split: option.splits)
qed

theorem shell_line_editing_witness:
  "(\<exists>s'. get_input sample_font [0, 0, 0] (sample_shell zero_file (\<lambda>_ _. 0) [0x6C, 0x78, 0x8, 0x73, 0xD, 0x41]) =
      Some (Inr ([0x6C, 0x73, 0], s')) \<and> sh_input s' = [0x41])
   \<and> get_input sample_font [0] (sample_shell zero_file (\<lambda>_ _. 0) [0x6C, 0x73, 0xD]) =
      Some (Inl (Fault ''get_input: character behind the buffer''))"
  using shell_line_editing [of "[0x6C, 0x78, 0x8, 0x73]" "0xD" "[0, 0, 0]"
        "sample_shell zero_file (\<lambda>_ _. 0) [0x6C, 0x78, 0x8, 0x73, 0xD, 0x41]" "[0x41]" sample_font]
    shell_line_editing [of "[0x6C, 0x73]" "0xD" "[0]" "sample_shell zero_file (\<lambda>_ _. 0) [0x6C, 0x73, 0xD]" "[]" sample_font]
  by (auto simp: line_chars_def ascii_def sample_shell_def)

section \<open>Commands\<close>

lemma text_of_simps: "text_of [] = []" "text_of (c # cs) = of_nat (of_char c) # text_of cs"
  by (simp_all add: text_of_def)

lemma same_text_typed:
  "same_text (text_of w @ drop (length w) (replicate 1024 0)) t \<longleftrightarrow>
   take (length t + 1) (text_of w @ replicate (1024 - length w) 0) = text_of t @ [0]"
  by (simp add: same_text_def)

lemma run_write: "run_command part font env (text_of ''write'' @ drop 5 (replicate 1024 0)) = cmd_write part font"
  by (simp add: run_command_def fun_eq_iff same_text_def text_of_simps)

lemma run_cat: "run_command part font env (text_of ''cat'' @ drop 3 (replicate 1024 0)) = cmd_cat part font"
  by (simp add: run_command_def fun_eq_iff same_text_def text_of_simps)

lemma digit_char:
  assumes "i < 8"
  shows "digit_of ((0x30 + of_nat i) # xs) = of_nat i" "line_chars [0x30 + of_nat i]" "(0x30 + of_nat i :: u8) \<noteq> 0x8"
proof -
  have "i \<in> {0, 1, 2, 3, 4, 5, 6, 7}" using assms by auto
  then show "digit_of ((0x30 + of_nat i) # xs) = of_nat i" "line_chars [0x30 + of_nat i]" "(0x30 + of_nat i :: u8) \<noteq> 0x8"
    by (auto simp: digit_of_def line_chars_def ascii_def)
qed

lemma prompt_ok: "list_all (\<lambda>c. of_char c < (128 :: nat)) ''Entry: ''" "list_all (\<lambda>c. of_char c < (128 :: nat)) ''Data: ''"
  "list_all (\<lambda>c. of_char c < (128 :: nat)) '' >''"
  by simp_all

lemma load_cluster_same: "f_cluster (load_cluster part d f) = f_cluster f"
  by (simp add: load_cluster_eq)

lemma ask_entry:
  assumes "i < 8" "sh_input s = (0x30 + of_nat i) # 0xD # rest"
    "is_file part (sh_disk s) (f_cluster (sh_cd s)) i cs"
  obtains s' where
    "ask font ''Entry: '' 7 (replicate 255 0) s = Some (Inr ((0x30 + of_nat i) # replicate 254 0, s'))"
    "open_entry part (digit_of ((0x30 + of_nat i) # replicate 254 0)) s' =
       Inr (E_SUCCESS, opened part (sh_disk s) (entry_of part (sh_disk s) (f_cluster (sh_cd s)) i),
         s'\<lparr>sh_cd := load_cluster part (sh_disk s) (sh_cd s)\<rparr>)"
    "sh_input s' = rest" "sh_cd s' = sh_cd s" "sh_disk s' = sh_disk s"
proof -
  obtain s' where s': "ask font ''Entry: '' 7 (replicate 255 0) s =
      Some (Inr ([0x30 + of_nat i] @ drop (length [0x30 + of_nat i :: u8]) (replicate 255 0), s'))"
    "sh_input s' = rest" "sh_cd s' = sh_cd s" "sh_disk s' = sh_disk s"
    by (rule ask_plain [of "[0x30 + of_nat i]" "replicate 255 0" s rest "''Entry: ''" font 7])
       (use assms digit_char [OF assms(1)] in auto)
  have "replicate 255 0 = (0 :: u8) # replicate 254 0" by (simp flip: replicate_Suc)
  then have a: "[0x30 + of_nat i] @ drop (length [0x30 + of_nat i :: u8]) (replicate 255 0) = (0x30 + of_nat i) # replicate 254 0"
    by simp
  show ?thesis
    by (rule that [OF _ _ s'(2-4)])
       (use s' a assms(1,3) digit_char(1) [OF assms(1)] dir_entry_open [of i part "sh_disk s" "sh_cd s" zero_file]
         in \<open>simp_all add: open_entry_def is_file_def\<close>)
qed

definition padded :: "u8 list \<Rightarrow> u8 list" where
  "padded data = data @ replicate (255 - length data) 0"

lemma cmd_write_effect:
  assumes "i < 8" "sh_input s = (0x30 + of_nat i) # 0xD # data @ 0xD # rest"
    and fs: "fs_ok part (sh_disk s)" "is_file part (sh_disk s) (f_cluster (sh_cd s)) i cs"
    and data: "line_chars data" "0x8 \<notin> set data" "data \<noteq> []" "length data \<le> 255"
  obtains s' new where "cmd_write part font s = Some (Inr s')" "sh_input s' = rest"
    "f_cluster (sh_cd s') = f_cluster (sh_cd s)" "fs_ok part (sh_disk s')"
    "is_file part (sh_disk s') (f_cluster (sh_cd s)) i (cs @ new)" "128 \<le> capacity (cs @ new)"
    "\<And>x. x < 128 \<Longrightarrow> file_byte part (sh_disk s') (cs @ new) x = padded data ! x"
proof -
  obtain s1 where s1:
    "ask font ''Entry: '' 7 (replicate 255 0) s = Some (Inr ((0x30 + of_nat i) # replicate 254 0, s1))"
    "open_entry part (digit_of ((0x30 + of_nat i) # replicate 254 0)) s1 =
       Inr (E_SUCCESS, opened part (sh_disk s) (entry_of part (sh_disk s) (f_cluster (sh_cd s)) i),
         s1\<lparr>sh_cd := load_cluster part (sh_disk s) (sh_cd s)\<rparr>)"
    "sh_input s1 = data @ 0xD # rest" "sh_cd s1 = sh_cd s" "sh_disk s1 = sh_disk s"
    by (rule ask_entry [OF assms(1,2) fs(2)])
  let ?s2 = "new_line (s1\<lparr>sh_cd := load_cluster part (sh_disk s) (sh_cd s)\<rparr>)"
  let ?buf = "(0x30 + of_nat i) # replicate 254 0 :: u8 list"
  have "drop (length data) ?buf = replicate (255 - length data) 0" using data(3) by (cases data) auto
  then have buf: "data @ drop (length data) ?buf = padded data" by (simp add: padded_def)
  obtain s3 where s3: "ask font ''Data: '' 6 ?buf ?s2 = Some (Inr (padded data, s3))"
    "sh_input s3 = rest" "sh_cd s3 = sh_cd ?s2" "sh_disk s3 = sh_disk ?s2"
    by (rule ask_plain [of data ?buf ?s2 rest "''Data: ''" font 6, unfolded buf])
       (use data s1(3) in \<open>simp_all add: new_line_frame\<close>)
  have cap: "unat (128 :: u64) \<le> capacity cs + FAT64_CLUSTER_SIZE * card (free_clusters part (sh_disk s))"
    using fs(2) by (cases cs) (simp_all add: is_file_def chain_def capacity_def)
  obtain f1 d1 f2 d2 new where w:
    "fat64_write part 128 (\<lambda>i. padded data ! unat i)
       (opened part (sh_disk s) (entry_of part (sh_disk s) (f_cluster (sh_cd s)) i)) (sh_disk s) = Some (Inr (E_SUCCESS, f1, d1))"
    "fat64_flush part f1 d1 = (f2, d2)" "fs_ok part d2" "is_file part d2 (f_cluster (sh_cd s)) i (cs @ new)"
    "unat (128 :: u64) \<le> capacity (cs @ new)"
    "\<And>x. x < unat (128 :: u64) \<Longrightarrow> file_byte part d2 (cs @ new) x = padded data ! unat (of_nat x :: u32)"
    by (rule write_flush [OF fs cap, where buf = "\<lambda>i. padded data ! unat i"]) (simp, blast)
  have disk: "sh_disk s3 = sh_disk s" using s3(4) s1(5) by (simp add: new_line_frame)
  show ?thesis
  proof (rule that [of "s3\<lparr>sh_disk := d2\<rparr>" new])
    show "cmd_write part font s = Some (Inr (s3\<lparr>sh_disk := d2\<rparr>))"
      using s1(1,2) s3(1) w(1,2) disk by (simp add: cmd_write_def)
    show "f_cluster (sh_cd (s3\<lparr>sh_disk := d2\<rparr>)) = f_cluster (sh_cd s)"
      using s3(3) by (simp add: new_line_frame load_cluster_same)
    show "file_byte part (sh_disk (s3\<lparr>sh_disk := d2\<rparr>)) (cs @ new) x = padded data ! x" if "x < 128" for x
      using w(6) [of x] that by (simp add: unat_of_nat_u32)
  qed (use s3(2) w(3-5) in simp_all)
qed

lemma cmd_cat_effect:
  assumes "i < 8" "sh_input s = (0x30 + of_nat i) # 0xD # rest"
    and fs: "fs_ok part (sh_disk s)" "is_file part (sh_disk s) (f_cluster (sh_cd s)) i cs" "128 \<le> capacity cs"
    and data: "ascii data" "0 \<notin> set data" "length data \<le> 255"
    and bytes: "\<And>x. x < 128 \<Longrightarrow> file_byte part (sh_disk s) cs x = padded data ! x"
  obtains s1 s' where "put_text font (take 128 data) s1 = Inr s'" "cmd_cat part font s = Some (Inr s')"
    "sh_input s' = rest" "sh_x s1 = 0"
proof -
  obtain s1 where s1:
    "ask font ''Entry: '' 7 (replicate 255 0) s = Some (Inr ((0x30 + of_nat i) # replicate 254 0, s1))"
    "open_entry part (digit_of ((0x30 + of_nat i) # replicate 254 0)) s1 =
       Inr (E_SUCCESS, opened part (sh_disk s) (entry_of part (sh_disk s) (f_cluster (sh_cd s)) i),
         s1\<lparr>sh_cd := load_cluster part (sh_disk s) (sh_cd s)\<rparr>)"
    "sh_input s1 = rest" "sh_cd s1 = sh_cd s" "sh_disk s1 = sh_disk s"
    by (rule ask_entry [OF assms(1,2) fs(2)])
  let ?e = "(0x30 + of_nat i) # replicate 254 0 :: u8 list"
  have cap: "unat (128 :: u64) \<le> capacity cs" "unat (128 :: u64) < 2 ^ 32" using fs(3) by simp_all
  obtain f' d' buf' where r:
    "fat64_read part 128 (\<lambda>i. ?e ! unat i)
       (opened part (sh_disk s) (entry_of part (sh_disk s) (f_cluster (sh_cd s)) i)) (sh_disk s) = Some (Inr (E_SUCCESS, buf', f', d'))"
    "\<And>j. unat j < unat (128 :: u64) \<Longrightarrow> buf' j = file_byte part (sh_disk s) cs (unat j)"
    "\<And>j. \<not> unat j < unat (128 :: u64) \<Longrightarrow> buf' j = ?e ! unat j"
    by (rule read_file [OF fs(1,2) cap, where buf = "\<lambda>i. ?e ! unat i"]) blast
  have b: "map (\<lambda>i. buf' (of_nat i)) [0..<255] = take 128 data @ replicate (255 - length (take 128 data)) 0"
  proof (rule nth_equalityI)
    fix j assume "j < length (map (\<lambda>i. buf' (of_nat i)) [0..<255])"
    then have j: "j < 255" "unat (of_nat j :: u32) = j" by (simp_all add: unat_of_nat_u32)
    show "map (\<lambda>i. buf' (of_nat i)) [0..<255] ! j = (take 128 data @ replicate (255 - length (take 128 data)) 0) ! j"
      using j r(2,3) [of "of_nat j"] bytes [of j] data(3)
      by (cases "j < 128") (auto simp: padded_def nth_append nth_Cons' )
  qed simp
  have n0: "\<forall>c\<in>set (take 128 data). c \<noteq> 0" using data(2) set_take_subset by fastforce
  have c: "c_str (map (\<lambda>i. buf' (of_nat i)) [0..<255]) = Inr (take 128 data)"
    unfolding b using n0 by (simp add: c_str_def takeWhile_append)
  let ?s = "new_line (s1\<lparr>sh_cd := load_cluster part (sh_disk s) (sh_cd s), sh_disk := d'\<rparr>)"
  have "ascii (take 128 data)" using data(1) set_take_subset by (fastforce simp: ascii_def)
  then obtain g where g: "put_text font (take 128 data) ?s = Inr (?s\<lparr>sh_gs := g\<rparr>)" using put_text_ok by blast
  show ?thesis
  proof (rule that [OF g])
    show "cmd_cat part font s = Some (Inr (?s\<lparr>sh_gs := g\<rparr>))"
      using s1 r(1) c g by (simp add: cmd_cat_def)
  qed (use s1(3) in \<open>simp_all add: new_line_frame\<close>)
qed

lemma shell_step_command:
  assumes "sh_input s = text_of w @ 0xD # rest" "line_chars (text_of w)" "0x8 \<notin> set (text_of w)" "length w \<le> 100"
  obtains s1 where "sh_input s1 = rest" "sh_cd s1 = sh_cd s" "sh_disk s1 = sh_disk s"
    "shell_step part font env s =
       goes_on (run_command part font env (text_of w @ drop (length w) (replicate 1024 0)) s1) (\<lambda>s. Some (Inr (new_line s)))"
proof -
  have len: "length (text_of w) = length w" by (simp add: text_of_def)
  obtain s1 where s1: "ask font '' >'' 2 (replicate 1024 0) s =
      Some (Inr (text_of w @ drop (length (text_of w)) (replicate 1024 0), s1))"
    "sh_input s1 = rest" "sh_cd s1 = sh_cd s" "sh_disk s1 = sh_disk s"
    by (rule ask_plain [of "text_of w" "replicate 1024 0" s rest "'' >''" font 2]) (use assms len in auto)
  then show ?thesis by (intro that [of s1]) (simp_all add: shell_step_def len)
qed

text \<open>C40 A session: the command \<^verbatim>\<open>write\<close> with the number of an entry and a line, then the command
  \<^verbatim>\<open>cat\<close> with the same number.  Both come back; the file has its first 128 bytes from the line and zeros, the
  file system stays well formed, and what is drawn is the line, up to its first 128 characters.\<close>

theorem shell_writes_and_shows:
  assumes "fs_ok part (sh_disk s)" "is_file part (sh_disk s) (f_cluster (sh_cd s)) i cs"
    and "line_chars data" "0x8 \<notin> set data" "0 \<notin> set data" "data \<noteq> []" "length data \<le> 255"
    and "sh_input s = text_of ''write'' @ [0xD, 0x30 + of_nat i, 0xD] @ data @ [0xD] @
       text_of ''cat'' @ [0xD, 0x30 + of_nat i, 0xD] @ rest"
  shows "\<exists>m new s1 s2. shell_steps part font env 1 s = Some (Inr m) \<and> fs_ok part (sh_disk m) \<and>
     is_file part (sh_disk m) (f_cluster (sh_cd s)) i (cs @ new) \<and>
     (\<forall>x<128. file_byte part (sh_disk m) (cs @ new) x = (if x < length data then data ! x else 0)) \<and>
     shell_steps part font env 2 s = Some (Inr (new_line s2)) \<and>
     put_text font (take 128 data) s1 = Inr s2 \<and> sh_x s1 = 0 \<and> sh_input s2 = rest"
proof -
  have i: "i < 8" using assms(2) by (simp add: is_file_def)
  have words: "line_chars (text_of ''write'')" "0x8 \<notin> set (text_of ''write'')"
    "line_chars (text_of ''cat'')" "0x8 \<notin> set (text_of ''cat'')"
    by (simp_all add: line_chars_def ascii_def text_of_simps)
  let ?r = "text_of ''cat'' @ 0xD # (0x30 + of_nat i) # 0xD # rest"
  obtain a where a: "sh_input a = (0x30 + of_nat i) # 0xD # data @ 0xD # ?r" "sh_cd a = sh_cd s" "sh_disk a = sh_disk s"
    "shell_step part font env s = goes_on (cmd_write part font a) (\<lambda>s. Some (Inr (new_line s)))"
    by (rule shell_step_command [of s "''write''" "(0x30 + of_nat i) # 0xD # data @ 0xD # ?r" part font env])
       (use assms(8) words(1,2) run_write [of part font env] in auto)
  obtain b new where b: "cmd_write part font a = Some (Inr b)" "sh_input b = ?r"
    "f_cluster (sh_cd b) = f_cluster (sh_cd s)" "fs_ok part (sh_disk b)"
    "is_file part (sh_disk b) (f_cluster (sh_cd s)) i (cs @ new)" "128 \<le> capacity (cs @ new)"
    "\<And>x. x < 128 \<Longrightarrow> file_byte part (sh_disk b) (cs @ new) x = padded data ! x"
    by (rule cmd_write_effect [OF i a(1), of part cs font]) (use assms a(2,3) in auto)
  let ?m = "new_line b"
  obtain c where c: "sh_input c = (0x30 + of_nat i) # 0xD # rest" "sh_cd c = sh_cd ?m" "sh_disk c = sh_disk ?m"
    "shell_step part font env ?m = goes_on (cmd_cat part font c) (\<lambda>s. Some (Inr (new_line s)))"
    by (rule shell_step_command [of ?m "''cat''" "(0x30 + of_nat i) # 0xD # rest" part font env])
       (use b(2) words(3,4) run_cat [of part font env] in \<open>auto simp: new_line_frame\<close>)
  obtain s1 s2 where s2: "put_text font (take 128 data) s1 = Inr s2" "cmd_cat part font c = Some (Inr s2)"
    "sh_input s2 = rest" "sh_x s1 = 0"
    by (rule cmd_cat_effect [OF i c(1), of part "cs @ new" data font])
       (use assms(3,5,7) b(3-7) c(2,3) in \<open>auto simp: new_line_frame line_chars_def\<close>)
  have "shell_steps part font env 1 s = Some (Inr ?m)" using a(4) b(1) by simp
  moreover have "shell_steps part font env 2 s = Some (Inr (new_line s2))"
    using a(4) b(1) c(4) s2(2) by (simp add: numeral_2_eq_2)
  moreover have "file_byte part (sh_disk ?m) (cs @ new) x = (if x < length data then data ! x else 0)" if "x < 128" for x
    using b(7) [OF that] that by (auto simp: new_line_frame padded_def nth_append)
  ultimately show ?thesis
    by - (rule exI [of _ ?m], rule exI [of _ new], rule exI [of _ s1], rule exI [of _ s2],
      use b(4,5) s2 in \<open>simp add: new_line_frame\<close>)
qed

theorem shell_writes_and_shows_witness:
  "\<exists>d cd s1 s2. shell_steps new_partition sample_font sample_env 2 (sample_shell cd d
       (text_of ''write'' @ [0xD, 0x30, 0xD, 0x48, 0x69, 0xD] @ text_of ''cat'' @ [0xD, 0x30, 0xD])) = Some (Inr (new_line s2))
     \<and> put_text sample_font [0x48, 0x69] s1 = Inr s2 \<and> sh_input s2 = []"
proof -
  obtain d0 d c where s: "fs_ok new_partition d" "is_file new_partition d 1025 0 [c]"
    "f_cluster (open_root new_partition d0) = 1025" by (rule sample_file) blast
  let ?s = "sample_shell (open_root new_partition d0) d
      (text_of ''write'' @ [0xD, 0x30, 0xD, 0x48, 0x69, 0xD] @ text_of ''cat'' @ [0xD, 0x30, 0xD])"
  have "is_file new_partition (sh_disk ?s) (f_cluster (sh_cd ?s)) 0 [c]" "fs_ok new_partition (sh_disk ?s)"
    using s by (simp_all add: sample_shell_def)
  from shell_writes_and_shows [OF this(2,1), of "[0x48, 0x69]" "[]" sample_font sample_env]
  obtain s1 s2 where "shell_steps new_partition sample_font sample_env 2 ?s = Some (Inr (new_line s2))"
    "put_text sample_font [0x48, 0x69] s1 = Inr s2" "sh_input s2 = []"
    by (auto simp: line_chars_def ascii_def sample_shell_def)
  then show ?thesis by blast
qed

section \<open>Messages\<close>

text \<open>
  The data of a message to a known host are what was typed, followed by what the stack held; the length is
  that of the string, which goes on behind the typed characters up to the first zero byte.
\<close>

theorem send_takes_stack:
  assumes "sh_input s = text_of host @ 0xD # data @ 0xD # rest" "hosts_get_address host = Some addr"
    and "line_chars (text_of host)" "0x8 \<notin> set (text_of host)" "0 \<notin> set (text_of host)" "length host < 255"
    and "line_chars data" "0x8 \<notin> set data" "0 \<notin> set data" "length data \<le> length stack" "length stack < 2 ^ 32"
    and "0 \<in> set (drop (length data) stack)"
  shows "\<exists>s'. cmd_send font stack pid s = Some (Inr s') \<and> sh_input s' = rest \<and>
     sh_calls s' = sh_calls s @ [Switchscreen 0,
       Sendmsg addr pid (data @ drop (length data) stack)
         (of_nat (length data + length (takeWhile (\<lambda>c. c \<noteq> 0) (drop (length data) stack))))]"
proof -
  have chars: "map (\<lambda>c. char_of (unat c)) (text_of host) = host"
    by (induction host) (auto simp: text_of_def unat_of_nat take_bit_nat_eq_self)
  have n0: "\<forall>c\<in>set (text_of host). c \<noteq> 0" "\<forall>c\<in>set data. c \<noteq> 0" using assms(5,9) by auto
  have len: "length (text_of host) = length host" by (simp add: text_of_def)
  obtain s1 where s1: "ask font ''Host: '' 7 (replicate 255 0) s =
      Some (Inr (text_of host @ drop (length (text_of host)) (replicate 255 0), s1))"
    "sh_input s1 = data @ 0xD # rest" "sh_calls s1 = sh_calls s"
    by (rule ask_plain [of "text_of host" "replicate 255 0" s "data @ 0xD # rest" "''Host: ''" font 7])
       (use assms len in auto)
  obtain k where k: "255 - length host = Suc k" using assms(6) by (cases "255 - length host") auto
  have c: "c_str (text_of host @ drop (length (text_of host)) (replicate 255 0)) = Inr (text_of host)"
    using n0(1) by (simp add: c_str_def takeWhile_append len k)
  obtain s2 where s2: "ask font ''Message: '' 10 stack s1 = Some (Inr (data @ drop (length data) stack, s2))"
    "sh_input s2 = rest" "sh_calls s2 = sh_calls s1"
    by (rule ask_plain [of data stack s1 rest "''Message: ''" font 10]) (use assms s1(2) in auto)
  have d: "c_str (data @ drop (length data) stack) =
      Inr (data @ takeWhile (\<lambda>c. c \<noteq> 0) (drop (length data) stack))"
    using n0(2) assms(12) by (simp add: c_str_def)
  show ?thesis
    using s1 s2 c d assms(2) chars by (simp add: cmd_send_def call_def)
qed

end
