(* ===== verification/Mutex.thy ===== *)
theory Mutex
  imports Prelude
begin

text \<open>
  The binary lock of \<^verbatim>\<open>kernel/mutex.c\<close> on the atomic operations of \<^verbatim>\<open>atomic.c\<close>.  Each atomic
  operation is one instruction, so that processes interleave at these operations.
  \<^verbatim>\<open>_atomic_cmpxchg\<close> ends without a return statement; the model returns the register \<^verbatim>\<open>eax\<close>, into which the
  instruction puts what it found, and where the caller looks for the result.
\<close>

section \<open>Operations\<close>

definition atomic_increment :: "u32 \<Rightarrow> u32" where
  "atomic_increment operand = operand + 1"

definition atomic_decrement :: "u32 \<Rightarrow> u32" where
  "atomic_decrement operand = operand - 1"

definition atomic_cmpxchg :: "u32 \<Rightarrow> u32 \<Rightarrow> u32 \<Rightarrow> u32 \<times> u32" where
  "atomic_cmpxchg operand old new = (operand, if operand = old then new else operand)"

definition lock_nonblock :: "u32 \<Rightarrow> bool \<times> u32" where
  "lock_nonblock l = (case atomic_cmpxchg l 0 1 of (r, l') \<Rightarrow> (r = 0, l'))"

definition unlock :: "u32 \<Rightarrow> u32" where
  "unlock l = snd (atomic_cmpxchg l 1 0)"

text \<open>The loop of \<^verbatim>\<open>lock\<close>; the others act between the rounds: the values that they leave are the list.\<close>

fun lock_loop :: "u32 list \<Rightarrow> u32 option" where
  "lock_loop [] = None"
| "lock_loop (l # ls) = (case atomic_cmpxchg l 0 1 of (r, l') \<Rightarrow> if r = 0 then Some l' else lock_loop ls)"

section \<open>Processes that share a lock\<close>

text \<open>The lock and the processes that have obtained it and not given it back.\<close>

inductive mutex_step :: "u32 \<times> nat set \<Rightarrow> u32 \<times> nat set \<Rightarrow> bool" where
  obtained: "lock_nonblock l = (True, l') \<Longrightarrow> mutex_step (l, H) (l', insert p H)"
| refused: "lock_nonblock l = (False, l') \<Longrightarrow> mutex_step (l, H) (l', H)"
| released: "p \<in> H \<Longrightarrow> mutex_step (l, H) (unlock l, H - {p})"

definition mutex_inv :: "u32 \<times> nat set \<Rightarrow> bool" where
  "mutex_inv = (\<lambda>(l, H). (l = 0 \<and> H = {}) \<or> (l = 1 \<and> (\<exists>p. H = {p})))"

lemma mutex_step_inv: "mutex_step x y \<Longrightarrow> mutex_inv x \<Longrightarrow> mutex_inv y"
  by (induction rule: mutex_step.induct)
     (auto simp: mutex_inv_def lock_nonblock_def unlock_def atomic_cmpxchg_def)

lemma mutex_reach_inv: "mutex_step\<^sup>*\<^sup>* x y \<Longrightarrow> mutex_inv x \<Longrightarrow> mutex_inv y"
  by (induction rule: rtranclp_induct) (blast intro: mutex_step_inv)+

text \<open>At most one process holds the lock, and a free lock is obtained at the next try.\<close>

theorem mutual_exclusion:
  assumes "mutex_step\<^sup>*\<^sup>* (0, {}) (l, H)"
  shows "(p \<in> H \<and> q \<in> H \<longrightarrow> p = q) \<and> (H = {} \<longrightarrow> fst (lock_nonblock l)) \<and> (H \<noteq> {} \<longrightarrow> \<not> fst (lock_nonblock l))"
  using mutex_reach_inv [OF assms] by (auto simp: mutex_inv_def lock_nonblock_def atomic_cmpxchg_def)

theorem mutual_exclusion_witness:
  "(0 :: nat) \<in> {0} \<and> \<not> fst (lock_nonblock 1)"
proof -
  have "mutex_step (0, {}) (1, {0})"
    by (rule mutex_step.obtained) (simp add: lock_nonblock_def atomic_cmpxchg_def)
  then have "mutex_step\<^sup>*\<^sup>* (0, {}) (1, {0 :: nat})" by blast
  from mutual_exclusion [OF this] show ?thesis by blast
qed

text \<open>The blocking call comes back at the first round that finds the lock free, and holds it.\<close>

lemma lock_loop_first_free: "lock_loop ls = (if 0 \<in> set ls then Some 1 else None)"
  by (induction ls) (auto simp: atomic_cmpxchg_def)

end
