(* ===== verification/Spec2Isabelle.thy ===== *)
theory Spec2Isabelle
  imports Kernel_Samples Sio_Lemmas Module_Properties File_Properties Device_Properties Console_Properties Pci_Properties Graphics_Properties Font Net_Properties Ide_Properties
    Kheap_Properties Shell_Properties Mutex
begin

text \<open>
  A verification development for the Cumulonimbus operating system: a small multi-tasking
  kernel for 32-bit x86 machines with priorities, fork and exec, a serial line, a text
  console and a graphical one, a pool of screens, a PS/2 mouse, PCI, an IDE driver, a file system, and messages
  between processes over Ethernet.  The sources are
  under \<^verbatim>\<open>src/src\<close>; the kernel is \<^verbatim>\<open>kernel/\<close>, the drivers are \<^verbatim>\<open>drivers/\<close>.

  \<^bold>\<open>How C is modelled.\<close>  Machine integers are words of their width, so arithmetic wraps as in
  C; a signed reading is \<open>sint\<close>.  Structures are records.  A panic, a dereference of null or
  outside every object, and a loop that does not end are errors of the type \<open>kerr\<close> of the
  theory \<open>Prelude\<close>, so that every early return and every failure is a branch of a definition;
  \<open>andThen\<close> sequences such outcomes.  Static variables are fields of a state record that is
  passed and returned.  A pointer into a fixed array is its index, \<open>None\<close> being null; the heaps of
  interrupt actions, PCI devices and receive buffers, the memory of processes and the video
  memory are functions of addresses.  Hardware is an arbitrary state with operations for ports or registers;
  what a driver relies on of it is a hypothesis of the theorem, with an instance in its
  witness.  What interrupts and devices do while the code delays is an argument.
  A loop is a recursive function; where its end is not evident it is a partial function, or
  carries fuel, and the lemmas prove that it ends: the queue walks carry \<open>N_QNODES\<close> steps, more
  than a queue can have nodes, and \<open>dispatch\<close> and the wake-up loop of the clock \<open>N_QNODES + 1\<close>,
  which \<open>dispatch_terminates\<close> and \<open>clock_wakes_sleepers\<close> show to be enough.  The loop of the
  network interrupt over its buffers ends for any links, since each round empties a buffer.

  \<^bold>\<open>The kernel.\<close>
  \<^item> \<open>Queue\<close> is \<^verbatim>\<open>queue.c\<close> on its linked nodes.  \<open>Queue_Lists\<close> states the contract of the module on
    lists, \<open>Queue_Heap\<close> and \<open>Queue_Refinement\<close> prove that the pointer code implements it,
    and \<open>Queue_Interface\<close> states the contract as the locale \<open>queue_module\<close>, interpreted on the
    model.  The kernel uses the queues through the contract.
  \<^item> \<open>Memory\<close> and \<open>Klib\<close> are the byte and string routines of \<^verbatim>\<open>klibc.c\<close> and \<^verbatim>\<open>utils.c\<close>, \<open>Pids\<close> the
    process identifiers and the table of hosts, \<open>Sio\<close> and \<open>Sio_Lemmas\<close> the serial line of \<^verbatim>\<open>sio.c\<close> with its two buffers,
    \<open>Screens\<close> the pool of screens of \<^verbatim>\<open>screen.c\<close>.
  \<^item> \<open>Kernel_State\<close> has the state record of the kernel; \<open>Process\<close> is \<^verbatim>\<open>process.c\<close>, \<^verbatim>\<open>stack.c\<close> and
    \<^verbatim>\<open>_setup_stack\<close>; \<open>Scheduler\<close> is \<^verbatim>\<open>scheduler.c\<close> with \<^verbatim>\<open>_zombify\<close> of \<^verbatim>\<open>system.c\<close>; \<open>Syscalls\<close> has one
    definition for each handler of \<^verbatim>\<open>syscall.c\<close>; \<open>Interrupts\<close> is the clock of \<^verbatim>\<open>clock.c\<close> and the serial
    interrupt; \<open>Kernel_Boot\<close> is \<^verbatim>\<open>_init\<close>.
  \<^item> \<open>Kernel_Invariant\<close> states the invariant, \<open>Kernel_Safety\<close> and \<open>Kernel_Handlers\<close> prove that every
    handler keeps it or stops for a listed reason, and \<open>Kernel_Steps\<close> composes them to a state
    machine in which user code may change memory in any way.  \<open>Kernel_Scheduling\<close>,
    \<open>Kernel_Fork\<close>, \<open>Kernel_Processes\<close> and \<open>Kernel_Calls\<close> prove what the single calls do;
    \<open>Kernel_Samples\<close> has the states at which the theorems are applied.

  \<^bold>\<open>Interrupt chains.\<close>  \<open>Irqs\<close> is the allocator \<^verbatim>\<open>kalloc.c\<close>, the tables and the controller set-up
  of \<^verbatim>\<open>support.c\<close>, and the chains of handlers of \<^verbatim>\<open>irqs.c\<close>; a handler is a parameter.  \<open>Irq_Chains\<close>
  proves that the chains implement lists, over any sequence of operations.

  \<^bold>\<open>Heap.\<close>  \<open>Kheap\<close> is \<^verbatim>\<open>kheap.c\<close>, an allocator with a free list that the build leaves out in
  favour of \<^verbatim>\<open>kalloc.c\<close>.  \<open>Kheap_Lemmas\<close> sees the links in memory as a list of blocks, \<open>Kheap_Clients\<close> adds
  those who use it (\<open>client_step\<close>) with the invariant \<open>heap_inv\<close>, and \<open>Kheap_Init\<close> is the search for memory.

  \<^bold>\<open>Console, keyboard and mouse.\<close>  \<open>Console\<close> and \<open>Printf\<close> are the output side of \<^verbatim>\<open>c_io.c\<close> as built
  with VESA, \<open>Keyboard\<close> its input side, \<open>Mouse\<close> is \<^verbatim>\<open>drivers/mouse/mouse.c\<close>.  \<open>Console_Numbers\<close> reads
  the printed numbers back, \<open>Console_Screen\<close> shows that output keeps to the screen, and
  \<open>Input_Rings\<close> states the locale \<open>byte_ring\<close> of a ring buffer, interpreted on both rings.

  \<^bold>\<open>Graphics.\<close>  \<open>Graphics\<close> is \<^verbatim>\<open>gs_io.c\<close>, \<^verbatim>\<open>vesa_framebuffer.c\<close> and the drawing parts of
  \<^verbatim>\<open>screen_manager.c\<close> on a memory of half words, \<open>Font\<close> the table of \<^verbatim>\<open>gs_font.c\<close>; \<open>Graphics_Lemmas\<close>
  computes the picture pixel by pixel.

  \<^bold>\<open>PCI.\<close>  \<open>Pci\<close> is \<^verbatim>\<open>drivers/pci/pci.c\<close>: the configuration registers behind their two ports, the scan, and
  the list of devices.  \<open>Pci_Lemmas\<close> states the configuration mechanism as a hypothesis on the
  hardware and the list as a chain.

  \<^bold>\<open>File system and disk.\<close>  \<open>Disk\<close> has sectors and the locale \<open>sector_store\<close>.  \<open>Fat64\<close> is the user side
  of \<^verbatim>\<open>drivers/fat64/fat64.c\<close> and \<open>Fat64_Format\<close> the kernel side.  \<open>Fat64_Layout\<close> sees a disk as tags and
  clusters, \<open>Fat64_Chains\<close> the clusters of a file as a chain; \<open>Fat64_Files\<close>, \<open>Fat64_Rw\<close> and
  \<open>Fat64_Write\<close> are reading and writing, \<open>Fat64_Dirs\<close> directories.  \<open>Ide\<close> is the transfer part of
  \<^verbatim>\<open>drivers/ide/ide.c\<close>, with the documented behaviour of a drive
  as the hypothesis \<open>ata_ok\<close>; \<open>Ide_Disk\<close> proves that a transfer is a sector operation.  \<open>Ide_Init\<close>
  is the rest of it: the search for controllers and drives over the PCI list, with ports from the
  allocator of \<^verbatim>\<open>ioports.c\<close> (\<open>Ioports\<close>), the system calls and the interrupt routine.

  \<^bold>\<open>Network.\<close>  \<open>Knet\<close> is \<^verbatim>\<open>knet.c\<close> with the layouts of \<^verbatim>\<open>ethernet.h\<close>: frames and messages as
  buffers of bytes and the table of received messages.  \<open>Nic\<close> is
  \<^verbatim>\<open>drivers/net/i8255x_ethernet.c\<close>: registers, the search for the interrupt line, the ring
  of receive buffers, transmission and the interrupt routine.  \<open>Net_Lemmas\<close> sees the ring as a list
  and the table as a sequence of messages.

  \<^bold>\<open>Locks.\<close>  \<open>Mutex\<close> is \<^verbatim>\<open>mutex.c\<close> on the instructions of \<^verbatim>\<open>atomic.c\<close>, with \<open>mutual_exclusion\<close> for any
  interleaving of processes that give back only what they hold.

  \<^bold>\<open>Shell.\<close>  \<open>Shell\<close> is \<^verbatim>\<open>userland/shell.c\<close> on the file system, the graphics and the table of hosts:
  the characters to come are a list, the system calls a record.  \<open>Shell_Lemmas\<close> sees the reading of a line as
  editing on two lists.

  \<^bold>\<open>Properties.\<close>  The properties of the kernel follow in this theory; those of the modules are
  in \<open>Module_Properties\<close>, \<open>File_Properties\<close>, \<open>Device_Properties\<close>, \<open>Console_Properties\<close>,
  \<open>Pci_Properties\<close>, \<open>Graphics_Properties\<close>, \<open>Ide_Properties\<close>, \<open>Net_Properties\<close>,
  \<open>Kheap_Properties\<close> and \<open>Shell_Properties\<close>.  Most say
  what the code is meant to do.  Some state what it does instead: a process that yields is lost
  (\<open>yield_loses_caller\<close>), an exit status may not be stored (\<open>exit_status_not_stored\<close>), a wait
  without child never returns (\<open>wait_without_child\<close>), a process cannot kill itself
  (\<open>kill_self_survives\<close>), the serial input runs past its buffer (\<open>serial_input_overrun\<close>), a
  screen is given away twice (\<open>open_screen_hijack\<close>), reading past the end of a file is not noticed
  (\<open>read_past_end_faults\<close>), octal numbers are doubled (\<open>number_conversions\<close>), a full mouse ring
  looks empty (\<open>mouse_ring_order_and_overrun\<close>), a screen is saved twice over
  (\<open>gs_save_and_restore\<close>), a disk error is reported as success (\<open>ide_calls_hide_errors\<close>), the
  21st message hangs the network interrupt (\<open>frames_received_in_ring_order\<close>), a request for no
  memory gets the length of another block (\<open>wrapped_request_granted\<close>), a long line runs past its
  array (\<open>shell_line_editing\<close>), a message carries what the stack held (\<open>send_takes_stack\<close>), and a message
  arrives only by the luck of an unset field (\<open>message_reaches_destination\<close>).

  \<^bold>\<open>Not modelled.\<close>  Assembler (\<^verbatim>\<open>startup.S\<close>, \<^verbatim>\<open>isr_stubs.S\<close>, \<^verbatim>\<open>bootstrap.S\<close> and the library stubs) and
  the routines that consist of it (\<^verbatim>\<open>fpu.c\<close>), since the development models C; the
  printing of the mode information (\<^verbatim>\<open>vbe_info.c\<close>) and the demonstrations that compute with
  floating point numbers (\<^verbatim>\<open>vesa_demo.c\<close>); the endless loops of the screen manager; the
  programs of \<^verbatim>\<open>user.c\<close>, which only make system calls and print; the build
  tools, and the copies under \<^verbatim>\<open>scratch/\<close>.  Printing for debugging is left out of the modelled
  routines of the kernel, and delays out of the drivers unless their effect matters.
\<close>

section \<open>The kernel as a whole\<close>

text \<open>C1 Every state that the kernel reaches from boot by system calls, clock and serial
  interrupts and user code satisfies the kernel's invariant: queues, blocks, stacks, states and
  screens agree.\<close>

theorem reachable_invariant:
  assumes "drivers_ok drv" and "kreach drv entry k"
  shows "kernel_inv k"
  by (rule kreach_inv [OF assms(2,1)])

theorem reachable_invariant_witness:
  "\<exists>k k'. boot 0x20000 power_on = Inr k \<and> kreach idle_driver 0x20000 k' \<and>
     k' = upd_mem (\<lambda>m. m(7 := 1)) k \<and> kernel_inv k'"
proof -
  obtain k where k: "boot 0x20000 power_on = Inr k" using boot_inv [OF power_on_nodes] by blast
  have "kreach idle_driver 0x20000 k" by (rule kreach.start [OF power_on_nodes k])
  then have r: "kreach idle_driver 0x20000 (upd_mem (\<lambda>m. m(7 := 1)) k)" by (rule kreach.step) (rule kstep.user)
  then show ?thesis using k reachable_invariant [OF idle_driver_ok r] by blast
qed

text \<open>C2 From a reachable state, a system call, a clock tick or a serial interrupt either ends
  in a state that is reachable again, or stops for one of the listed reasons: the two panics (no
  process is ready; the parent of an ending process is gone), a null table entry, a missing
  context, an unknown device status, or an access outside a serial buffer.\<close>

theorem reachable_steps_safe:
  assumes "drivers_ok drv" and "kreach drv entry k" and "kstep drv k x"
  shows "case x of Inl e \<Rightarrow> expected_panic e \<or> expected_fault e | Inr k' \<Rightarrow> kreach drv entry k'"
  using kstep_inv [OF assms(1) kreach_inv [OF assms(2,1)] assms(3)] kreach.step [OF assms(2)] assms(3)
  by (cases x) simp_all

theorem reachable_steps_safe_witness:
  "\<exists>k. kreach idle_driver 0x20000 k \<and>
     (case isr_clock k of Inl e \<Rightarrow> expected_panic e \<or> expected_fault e | Inr k' \<Rightarrow> kreach idle_driver 0x20000 k')"
proof -
  obtain k where k: "boot 0x20000 power_on = Inr k" using boot_inv [OF power_on_nodes] by blast
  then have r: "kreach idle_driver 0x20000 k" by (rule kreach.start [OF power_on_nodes])
  show ?thesis using r reachable_steps_safe [OF idle_driver_ok r kstep.clock] by blast
qed







section \<open>Scheduling\<close>

text \<open>C6 The dispatcher always comes to an end, although it loops over killed processes: from a
  state that satisfies the invariant it makes one process current, takes it out of the queues and
  marks it as running, or panics because no process is ready or a parent is missing.\<close>

theorem dispatch_terminates:
  assumes "kernel_inv k"
  shows "case dispatch k of
     Inl e \<Rightarrow> e = Panic ''_dispatch: all queues empty'' \<or> e = Panic ''_zombify: no process parent''
   | Inr k' \<Rightarrow> \<exists>c < N_PCBS. k_current k' = Some c \<and> p_state (k_pcbs k' c) = RUNNING \<and>
       kelems k = add_mset c (kelems k')"
proof -
  have "kinvk {} {} k" using assms by (simp add: kernel_inv_def kernel_ok_def)
  from dispatch_ok [OF this] show ?thesis
    by (cases "dispatch k") (auto simp: dispatched_def expected_panic_def)
qed

theorem dispatch_terminates_witness:
  "case dispatch alone of
     Inl e \<Rightarrow> e = Panic ''_dispatch: all queues empty'' \<or> e = Panic ''_zombify: no process parent''
   | Inr k' \<Rightarrow> \<exists>c < N_PCBS. k_current k' = Some c \<and> p_state (k_pcbs k' c) = RUNNING \<and>
       kelems alone = add_mset c (kelems k')"
  by (rule dispatch_terminates [OF alone_inv])

text \<open>C7 The dispatcher runs the process that has waited longest among those of the highest
  priority (the lowest number), and changes nothing else.\<close>

theorem dispatch_priority_fifo:
  assumes "i < N_PRIORITIES" and "\<And>j. j < i \<Longrightarrow> ql_items (k_q k) (Q_READY j) = []"
    and "ql_items (k_q k) (Q_READY i) = (key, p) # xs" and "p_state (k_pcbs k p) = READY"
  shows "\<exists>k'. dispatch k = Inr k' \<and> k_current k' = Some p \<and>
     k_pcbs k' = (k_pcbs k)(p := (k_pcbs k p)\<lparr>p_state := RUNNING\<rparr>) \<and>
     ql_items (k_q k') = (ql_items (k_q k))(Q_READY i := xs) \<and> ql_free (k_q k') = ql_free (k_q k) + 1 \<and>
     k_mem k' = k_mem k"
  using dispatch_first [OF assms] by simp

theorem dispatch_priority_fifo_witness:
  "\<exists>k'. dispatch (pair_state READY [] [] [] [] [1] (\<lambda>_. 0)) = Inr k' \<and> k_current k' = Some 1"
proof -
  let ?k = "pair_state READY [] [] [] [] [1] (\<lambda>_. 0)"
  have "ql_items (k_q ?k) (Q_READY 1) = (0, 1) # []" "\<And>j. j < 1 \<Longrightarrow> ql_items (k_q ?k) (Q_READY j) = []"
    "p_state (k_pcbs ?k 1) = READY" "(1::nat) < N_PRIORITIES"
    by (simp_all add: pair_state_def sample_queues_def N_PRIORITIES_def)
  from dispatch_priority_fifo [OF this(4,2,1,3)] show ?thesis by blast
qed

text \<open>A killed process that comes to the head of its queue does not run: it becomes a zombie in
  the zombie queue and the dispatcher goes on with the remaining processes.\<close>

theorem dispatch_skips_killed:
  assumes "kernel_inv k"
    and "i < N_PRIORITIES" and "\<And>j. j < i \<Longrightarrow> ql_items (k_q k) (Q_READY j) = []"
    and "ql_items (k_q k) (Q_READY i) = (key, p) # xs" and "p_state (k_pcbs k p) = KILLED"
    and "pcb_find (p_ppid (k_pcbs k p)) k = Some parent" and "p_state (k_pcbs k parent) \<noteq> WAITING"
  shows "\<exists>k'. dispatch k = dispatch k' \<and> p_state (k_pcbs k' p) = ZOMBIE \<and>
     (pid_id (p_pid (k_pcbs k p)), p) \<in> set (ql_items (k_q k') Q_ZOMBIE) \<and>
     ql_items (k_q k') (Q_READY i) = xs \<and> (\<forall>q. q \<noteq> p \<longrightarrow> k_pcbs k' q = k_pcbs k q)"
proof -
  let ?k1 = "(set_q (set_items (Q_READY i) xs (ql_free (k_q k) + 1) (k_q k)) k)\<lparr>k_current := Some p\<rparr>"
  have inv: "kinvk {} {} k" using assms(1) by (simp add: kernel_inv_def kernel_ok_def)
  have "dispatch k = dispatch (parked p ?k1)"
    using assms(3) by (rule dispatch_killed [OF inv assms(2) _ assms(4-7) refl])
  then show ?thesis
    using parked_frame(5) [of ?k1 p] by (intro exI [of _ "parked p ?k1"]) simp
qed

theorem dispatch_skips_killed_witness:
  "\<exists>k'. dispatch (pair_state KILLED [] [] [] [] [1] (\<lambda>_. 0)) = dispatch k' \<and> p_state (k_pcbs k' 1) = ZOMBIE"
proof -
  let ?k = "pair_state KILLED [] [] [] [] [1] (\<lambda>_. 0)"
  have 1: "kernel_inv ?k"
    unfolding pair_state_def by (rule sample_kernel_inv) (auto simp: N_PCBS_large)
  have 2: "ql_items (k_q ?k) (Q_READY 1) = (0, 1) # []" "\<And>j. j < 1 \<Longrightarrow> ql_items (k_q ?k) (Q_READY j) = []"
    "p_state (k_pcbs ?k 1) = KILLED" "(1::nat) < N_PRIORITIES"
    by (simp_all add: pair_state_def sample_queues_def N_PRIORITIES_def)
  have "[0..<N_PCBS] = 0 # [1..<N_PCBS]" by (simp add: upt_rec N_PCBS_def)
  then have 3: "pcb_find (p_ppid (k_pcbs ?k 1)) ?k = Some 0" "p_state (k_pcbs ?k 0) \<noteq> WAITING"
    by (simp_all add: pair_state_def pcb_find_def pid_clear_def)
  show ?thesis using dispatch_skips_killed [OF 1 2(4) 2(2) 2(1) 2(3) 3] by blast
qed



text \<open>C9 Processes of one priority take turns: when nobody has to be woken up and no higher
  priority is ready, a tick makes the first process of the queue of the interrupted process
  current, and puts the interrupted process at its end.\<close>

theorem clock_round_robin:
  assumes "kernel_inv k" and "k_current k = Some c" and "due (tick k) = []"
    and "i = clamp_prio (p_prio (k_pcbs k c))"
    and "\<And>j. j < i \<Longrightarrow> ql_items (k_q k) (Q_READY j) = []"
    and "ql_items (k_q k) (Q_READY i) = (key, p) # xs" and "p_state (k_pcbs k p) = READY"
  shows "\<exists>k'. isr_clock k = Inr k' \<and> k_current k' = Some p \<and> p_state (k_pcbs k' p) = RUNNING \<and>
     p_state (k_pcbs k' c) = READY \<and> ql_items (k_q k') (Q_READY i) = xs @ [(0, c)]"
  by (rule isr_clock_round_robin [OF assms])

theorem clock_round_robin_witness:
  "\<exists>k'. isr_clock (pair_state READY [] [] [] [] [1] (\<lambda>_. 0)) = Inr k' \<and> k_current k' = Some 1 \<and>
     ql_items (k_q k') (Q_READY 1) = [(0, 0)]"
proof -
  let ?k = "pair_state READY [] [] [] [] [1] (\<lambda>_. 0)"
  have "k_current ?k = Some 0" "due (tick ?k) = []" "1 = clamp_prio (p_prio (k_pcbs ?k 0))"
    "\<And>j. j < 1 \<Longrightarrow> ql_items (k_q ?k) (Q_READY j) = []" "ql_items (k_q ?k) (Q_READY 1) = (0, 1) # []"
    "p_state (k_pcbs ?k 1) = READY"
    by (simp_all add: pair_state_def sample_queues_def N_PRIORITIES_def due_def tick_def Let_def clamp_prio_def)
  from clock_round_robin [OF pair_ready_inv this] show ?thesis by auto
qed

text \<open>A process that goes to sleep is put into the sleep queue, in front of the first process that
  wakes up later and behind those that wake up at the same time.\<close>

theorem sleep_inserts_in_order:
  assumes "kernel_inv k" and "k_current k = Some c" and "sys_sleep ctx k = Inr k'"
    and "sorted (map fst (ql_items (k_q k) Q_SLEEP))"
  shows "sorted (map fst (ql_items (k_q k') Q_SLEEP)) \<and>
     mset (ql_items (k_q k') Q_SLEEP) = add_mset (k_time k + ARG k ctx 1, c) (mset (ql_items (k_q k) Q_SLEEP)) \<and>
     filter (\<lambda>x. fst x = k_time k + ARG k ctx 1) (ql_items (k_q k') Q_SLEEP) =
       filter (\<lambda>x. fst x = k_time k + ARG k ctx 1) (ql_items (k_q k) Q_SLEEP) @ [(k_time k + ARG k ctx 1, c)]"
  unfolding sys_sleep_effect(1) [OF assms(1-3)]
  using insert_item_sorted [OF assms(4)] insert_item_stable [OF assms(4)] by simp

theorem sleep_inserts_in_order_witness:
  "case sys_sleep 0x1000 (pair_state READY [] [] [] [] [1] (\<lambda>_. 0)) of
     Inl e \<Rightarrow> expected_panic e \<or> expected_fault e
   | Inr k' \<Rightarrow> mset (ql_items (k_q k') Q_SLEEP) = {#(0, 0)#}"
proof (cases "sys_sleep 0x1000 (pair_state READY [] [] [] [] [1] (\<lambda>_. 0))")
  case (Inl e)
  then show ?thesis
    using sys_sleep_keeps [of "pair_state READY [] [] [] [] [1] (\<lambda>_. 0)" "0x1000"] pair_ready_inv
    by (simp add: kernel_inv_def)
next
  case (Inr k')
  let ?k = "pair_state READY [] [] [] [] [1] (\<lambda>_. 0)"
  have "k_current ?k = Some 0" "sorted (map fst (ql_items (k_q ?k) Q_SLEEP))" "k_time ?k + ARG ?k 0x1000 1 = 0"
    "ql_items (k_q ?k) Q_SLEEP = []"
    by (simp_all add: pair_state_def sample_queues_def ARG_def load32_def)
  then show ?thesis
    using sleep_inserts_in_order [OF pair_ready_inv _ Inr] Inr by simp
qed

text \<open>A process that yields is dropped: it is not current any more and in no queue, since
  \<^verbatim>\<open>_sys_yield\<close> dispatches without scheduling the caller.\<close>

theorem yield_loses_caller:
  assumes "kernel_inv k" and "k_current k = Some c" and "sys_yield ctx k = Inr k'"
  shows "k_current k' \<noteq> Some c \<and> (\<forall>q \<in> set PQ. c \<notin> qset (k_q k') q)"
  by (rule sys_yield_drops [OF assms])

theorem yield_loses_caller_witness:
  "\<exists>k'. sys_yield 0 (pair_state READY [] [] [] [] [1] (\<lambda>_. 0)) = Inr k' \<and> k_current k' = Some 1 \<and>
     (\<forall>q \<in> set PQ. 0 \<notin> qset (k_q k') q)"
proof -
  let ?k = "pair_state READY [] [] [] [] [1] (\<lambda>_. 0)"
  have "ql_items (k_q ?k) (Q_READY 1) = (0, 1) # []" "\<And>j. j < 1 \<Longrightarrow> ql_items (k_q ?k) (Q_READY j) = []"
    "p_state (k_pcbs ?k 1) = READY" "(1::nat) < N_PRIORITIES" and cur: "k_current ?k = Some 0"
    by (simp_all add: pair_state_def sample_queues_def N_PRIORITIES_def)
  from dispatch_first [OF this(4,2,1,3)] have d: "sys_yield 0 ?k = Inr (running 1 1 [] ?k)"
    by (simp only: sys_yield_def)
  show ?thesis using d yield_loses_caller [OF pair_ready_inv cur d] by auto
qed

section \<open>Processes\<close>



text \<open>\<^verbatim>\<open>exec\<close>: the initial stack holds a context that starts at the entry point with
  interrupts enabled, the kernel's code and data segments and zeroed general registers; the
  return address above it is the routine \<^verbatim>\<open>exit\<close>; nothing else of the kernel state changes.\<close>

theorem initial_stack_layout:
  assumes "setup_stack stack entry k = (ctx, k')"
  shows "ctx = stack_ptr k stack + STACK_BYTES - 216 \<and>
     get_reg ctx CTX_EIP k' = entry \<and> get_reg ctx CTX_EFLAGS k' = 0x202 \<and>
     get_reg ctx CTX_CS k' = 0x10 \<and> get_reg ctx CTX_DS k' = 0x18 \<and> get_reg ctx CTX_EAX k' = 0 \<and>
     load32 (k_mem k') (ctx + CONTEXT_SIZE) = mc_exit (k_machine k) \<and>
     k_pcbs k' = k_pcbs k \<and> k_q k' = k_q k \<and> k_current k' = k_current k"
  using setup_stack_effect [OF assms] by blast

theorem initial_stack_layout_witness:
  "\<exists>ctx k'. setup_stack (Some 3) 0x12345 power_on = (ctx, k') \<and> get_reg ctx CTX_EIP k' = 0x12345"
proof -
  obtain ctx k' where "setup_stack (Some 3) 0x12345 power_on = (ctx, k')" by fastforce
  with initial_stack_layout [OF this] show ?thesis by blast
qed

text \<open>C11 A process that exits while its parent waits for it: the parent gets the identifier of the
  child and the status it passed, and is ready at the highest priority; the block and the stack
  of the child are free again.\<close>

theorem exit_wakes_waiting_parent:
  assumes "kernel_inv k" and "k_current k = Some c"
    and "pid_cmp (p_ppid (k_pcbs k c)) (p_pid (k_pcbs k c)) \<noteq> 0"
    and "pcb_find (p_ppid (k_pcbs k c)) k = Some parent" and "p_state (k_pcbs k parent) = WAITING"
    and "info = ARG k (p_context (k_pcbs k parent)) 1"
    and "pid_id (load_pid (k_mem k) info) = 0 \<or> pid_cmp (load_pid (k_mem k) info) (p_pid (k_pcbs k c)) = 0"
    and "\<And>x. x \<in> set (ql_items (k_q k) Q_WAITING) \<Longrightarrow> fst x = pid_id (p_pid (k_pcbs k parent)) \<Longrightarrow> snd x = parent"
    and "stacks_fit k"
    and "p_context (k_pcbs k c) = stack_ptr k (p_stack (k_pcbs k c)) + off"
    and "unat off + unat CONTEXT_SIZE + 8 \<le> unat STACK_BYTES"
    and "info = stack_ptr k (p_stack (k_pcbs k parent)) + off'" and "unat off' + 16 \<le> unat STACK_BYTES"
  shows "\<exists>k' s. sys_exit context k = dispatch k' \<and> p_stack (k_pcbs k c) = Some s \<and>
     load_pid (k_mem k') info = p_pid (k_pcbs k c) \<and>
     load32 (k_mem k') (info + 12) = ARG k (p_context (k_pcbs k c)) 1 \<and>
     k_pcbs k' c = pcb_clear \<and> p_state (k_pcbs k' parent) = READY \<and>
     ql_items (k_q k') Q_PCB_AVAIL = ql_items (k_q k) Q_PCB_AVAIL @ [(0, c)] \<and>
     ql_items (k_q k') Q_STACK_AVAIL = ql_items (k_q k) Q_STACK_AVAIL @ [(0, s)] \<and>
     ql_items (k_q k') (Q_READY 0) = ql_items (k_q k) (Q_READY 0) @ [(0, parent)]"
  by (rule sys_exit_wakes_parent [OF assms(1-8) assms(9-13)])

theorem exit_wakes_waiting_parent_witness:
  "\<exists>k'. sys_exit 0 (child_state WAITING [(1, 0)] []
      (store32 (stack_ptr power_on (Some 0) + 0x1000 + CONTEXT_SIZE + 4) (stack_ptr power_on (Some 0) + 0x2000) (\<lambda>_. 0))) =
     dispatch k' \<and> p_state (k_pcbs k' 0) = READY \<and> k_pcbs k' 1 = pcb_clear \<and>
     pid_id (load_pid (k_mem k') (stack_ptr power_on (Some 0) + 0x2000)) = 2"
proof -
  let ?m = "store32 (stack_ptr power_on (Some 0) + 0x1000 + CONTEXT_SIZE + 4) (stack_ptr power_on (Some 0) + 0x2000) (\<lambda>_. 0)"
  let ?k = "child_state WAITING [(1, 0)] [] ?m"
  have 1: "k_current ?k = Some 1" "pid_cmp (p_ppid (k_pcbs ?k 1)) (p_pid (k_pcbs ?k 1)) \<noteq> 0"
    "p_state (k_pcbs ?k 0) = WAITING"
    by (simp_all add: child_state_def)
  have "[0..<N_PCBS] = 0 # [1..<N_PCBS]" by (simp add: upt_rec N_PCBS_def)
  then have 2: "pcb_find (p_ppid (k_pcbs ?k 1)) ?k = Some 0"
    by (simp add: child_state_def pcb_find_def)
  have sp: "stack_ptr ?k x = stack_ptr power_on x" for x
    by (simp add: stack_ptr_def child_state_def split: option.split)
  have mem: "k_mem ?k = ?m" and fit: "stacks_fit ?k" by (simp_all add: child_state_def sample_fit)
  have 3: "stack_ptr power_on (Some 0) + 0x2000 = ARG ?k (p_context (k_pcbs ?k 0)) 1"
    by (simp add: ARG_def arg_addr_def mem child_state_def add.assoc)
  have "load32 ?m (stack_ptr power_on (Some 0) + 0x2000) = 0"
    by (simp add: stack_ptr_def power_on_def CONTEXT_SIZE_def load32_def store32_def)
  then have 4: "pid_id (load_pid (k_mem ?k) (stack_ptr power_on (Some 0) + 0x2000)) = 0 \<or>
      pid_cmp (load_pid (k_mem ?k) (stack_ptr power_on (Some 0) + 0x2000)) (p_pid (k_pcbs ?k 1)) = 0"
    unfolding mem by (simp add: load_pid_def)
  have 5: "\<And>x. x \<in> set (ql_items (k_q ?k) Q_WAITING) \<Longrightarrow> fst x = pid_id (p_pid (k_pcbs ?k 0)) \<Longrightarrow> snd x = 0"
    by (simp add: child_state_def sample_queues_def)
  have 6: "p_context (k_pcbs ?k 1) = stack_ptr ?k (p_stack (k_pcbs ?k 1)) + 0x1000"
    "unat (0x1000 :: u32) + unat CONTEXT_SIZE + 8 \<le> unat STACK_BYTES"
    "stack_ptr power_on (Some 0) + 0x2000 = stack_ptr ?k (p_stack (k_pcbs ?k 0)) + 0x2000"
    "unat (0x2000 :: u32) + 16 \<le> unat STACK_BYTES"
    unfolding sp by (simp_all add: child_state_def CONTEXT_SIZE_def STACK_BYTES_def)
  have pid: "pid_id (p_pid (k_pcbs ?k 1)) = 2" by (simp add: child_state_def)
  from exit_wakes_waiting_parent [OF child_waiting_inv 1(1,2) 2 1(3) 3 4 5 fit 6]
  obtain k' where "sys_exit 0 ?k = dispatch k'" "p_state (k_pcbs k' 0) = READY" "k_pcbs k' 1 = pcb_clear"
    "load_pid (k_mem k') (stack_ptr power_on (Some 0) + 0x2000) = p_pid (k_pcbs ?k 1)" by blast
  then show ?thesis using pid by metis
qed



text \<open>A process that exits while its parent does not wait becomes a zombie; the status that it
  passed is not kept: the block has the status it had before.\<close>

theorem exit_status_not_stored:
  assumes "kernel_inv k" and "k_current k = Some c"
    and "pid_cmp (p_ppid (k_pcbs k c)) (p_pid (k_pcbs k c)) \<noteq> 0"
    and "pcb_find (p_ppid (k_pcbs k c)) k = Some parent" and "p_state (k_pcbs k parent) \<noteq> WAITING"
  shows "\<exists>k'. sys_exit ctx k = dispatch k' \<and> p_state (k_pcbs k' c) = ZOMBIE \<and>
     p_status (k_pcbs k' c) = p_status (k_pcbs k c) \<and>
     (pid_id (p_pid (k_pcbs k c)), c) \<in> set (ql_items (k_q k') Q_ZOMBIE)"
  by (rule sys_exit_parks [OF assms])

theorem exit_status_not_stored_witness:
  "\<exists>k'. sys_exit 0x1000 (child_state READY [] [0] (store32 (0x1000 + CONTEXT_SIZE + 4) 42 (\<lambda>_. 0))) = dispatch k' \<and>
     p_state (k_pcbs k' 1) = ZOMBIE \<and> p_status (k_pcbs k' 1) = 0"
proof -
  let ?k = "child_state READY [] [0] (store32 (0x1000 + CONTEXT_SIZE + 4) 42 (\<lambda>_. 0))"
  have 1: "k_current ?k = Some 1" "pid_cmp (p_ppid (k_pcbs ?k 1)) (p_pid (k_pcbs ?k 1)) \<noteq> 0"
    "p_state (k_pcbs ?k 0) \<noteq> WAITING" and z: "p_status (k_pcbs ?k 1) = 0"
    by (simp_all add: child_state_def sample_pcb_def pcb_clear_def)
  have "[0..<N_PCBS] = 0 # [1..<N_PCBS]" by (simp add: upt_rec N_PCBS_def)
  then have 2: "pcb_find (p_ppid (k_pcbs ?k 1)) ?k = Some 0" by (simp add: child_state_def pcb_find_def)
  show ?thesis using exit_status_not_stored [OF child_ready_inv 1(1,2) 2 1(3)] z by metis
qed

text \<open>A process that has no child and waits for any child is not told so: the call takes the last
  block of the table for its child, and blocks the caller unless that block happens to be a zombie.\<close>

theorem wait_without_child:
  assumes "k_current k = Some c" and "ARG k ctx 1 \<noteq> 0"
    and "pid_id (load_pid (k_mem k) (ARG k ctx 1)) = 0"
    and "\<And>p. p < N_PCBS \<Longrightarrow> pid_cmp (p_ppid (k_pcbs k p)) (p_pid (k_pcbs k c)) \<noteq> 0"
  shows "sys_wait ctx k =
     (if p_state (k_pcbs k (N_PCBS - 1)) = ZOMBIE then wait_reap (N_PCBS - 1) (ARG k ctx 1) k else wait_block c k)"
  using sys_wait_no_child [OF assms] by (simp add: wait_for_def)

theorem wait_without_child_witness:
  "sys_wait 0 (child_state READY [] [0] (\<lambda>_. 1)\<lparr>k_mem := \<lambda>x. if x < 196 + 8 then 1 else 0\<rparr>) =
     wait_block 1 (child_state READY [] [0] (\<lambda>_. 1)\<lparr>k_mem := \<lambda>x. if x < 196 + 8 then 1 else 0\<rparr>)"
proof -
  let ?k = "child_state READY [] [0] (\<lambda>_. 1)\<lparr>k_mem := \<lambda>x. if x < 196 + 8 then 1 else 0\<rparr>"
  have A: "ARG ?k 0 1 = 0x01010101" by (simp add: ARG_def arg_addr_def CONTEXT_SIZE_def load32_def)
  have 1: "k_current ?k = Some 1" "ARG ?k 0 1 \<noteq> 0" "pid_id (load_pid (k_mem ?k) (ARG ?k 0 1)) = 0"
    unfolding A by (simp_all add: child_state_def load_pid_def load32_def)
  have 2: "\<And>p. p < N_PCBS \<Longrightarrow> pid_cmp (p_ppid (k_pcbs ?k p)) (p_pid (k_pcbs ?k 1)) \<noteq> 0"
    by (simp add: child_state_def pcb_clear_def pid_clear_def)
  have "p_state (k_pcbs ?k (N_PCBS - 1)) \<noteq> ZOMBIE" by (simp add: child_state_def N_PCBS_def)
  then show ?thesis using wait_without_child [OF 1 2] by simp
qed

text \<open>A process that kills itself survives: the mark \<^verbatim>\<open>KILLED\<close> is overwritten when the process is
  scheduled, so the call does what a time slice end does.\<close>

theorem kill_self_survives:
  assumes "kernel_inv k" and "pcb_find (load_pid (k_mem k) (arg_addr ctx 1)) k = Some c" and "k_current k = Some c"
  shows "sys_kill ctx k = andThen (schedule (Some c) (p_prio (k_pcbs k c)) k) dispatch"
proof -
  have "0 < ql_free (k_q k)" using assms(1) by (auto simp: kernel_inv_def kernel_ok_def dest: kinv_free)
  then show ?thesis using sys_kill_self [OF assms] by (simp add: schedule_free)
qed

theorem kill_self_survives_witness:
  "\<exists>k'. sys_kill 0 (alone\<lparr>k_mem := store32 200 1 (\<lambda>_. 0)\<rparr>) = Inr k' \<and> k_current k' = Some 0 \<and>
     p_state (k_pcbs k' 0) = RUNNING"
proof -
  let ?k = "alone\<lparr>k_mem := store32 200 1 (\<lambda>_. 0)\<rparr>"
  have inv: "kernel_inv ?k" using alone_inv by (simp add: kernel_inv_def kernel_ok_def)
  have "load_pid (store32 200 1 (\<lambda>_. 0)) 200 = \<lparr>pid_id = 1, pid_host = 0, pid_reserved = 0\<rparr>"
    by (simp add: load_pid_def load48_def load32_def load16_def store32_def)
  then have m: "load_pid (k_mem ?k) (arg_addr 0 1) = \<lparr>pid_id = 1, pid_host = 0, pid_reserved = 0\<rparr>"
    by (simp add: arg_addr_def CONTEXT_SIZE_def)
  have "[0..<N_PCBS] = 0 # [1..<N_PCBS]" by (simp add: upt_rec N_PCBS_def)
  then have f: "pcb_find (load_pid (k_mem ?k) (arg_addr 0 1)) ?k = Some 0"
    unfolding m by (simp add: pcb_find_def alone_def pid_clear_def)
  have cur: "k_current ?k = Some 0" and prio: "clamp_prio (p_prio (k_pcbs ?k 0)) = 0"
    and free: "0 < ql_free (k_q ?k)" and ready: "ql_items (k_q ?k) (Q_READY 0) = []"
    using alone_inv by (auto simp: alone_def clamp_prio_def sample_queues_def N_PRIORITIES_def kernel_inv_def
        kernel_ok_def N_QNODES_def N_PCBS_def dest: kinv_free)
  let ?s = "scheduled 0 (p_prio (k_pcbs ?k 0)) ?k"
  have "ql_items (k_q ?s) (Q_READY 0) = [(0, 0)]" using ready prio by (simp add: scheduled_def Let_def)
  then have "dispatch ?s = Inr (running 0 0 [] ?s)"
    by (intro dispatch_first [where key = 0]) (simp_all add: N_PRIORITIES_def)
  then have "sys_kill 0 ?k = Inr (running 0 0 [] ?s)"
    using kill_self_survives [OF inv f cur] schedule_free [OF free] by simp
  then show ?thesis by simp
qed

section \<open>Input and the system call table\<close>

text \<open>A read without input puts the caller into the queue of readers; the state of the process
  is left as it was, because the handler writes \<^verbatim>\<open>BLOCKED\<close> to the field \<^verbatim>\<open>status\<close>.\<close>

theorem read_blocks_caller:
  assumes "kernel_inv k" and "k_current k = Some c" and "sio_readc (k_sio k) = Inr (None, s)"
  shows "\<exists>k'. sys_readc ctx k = dispatch k' \<and> (pid_id (p_pid (k_pcbs k c)), c) \<in> set (ql_items (k_q k') Q_READING) \<and>
     p_status (k_pcbs k' c) = BLOCKED \<and> p_state (k_pcbs k' c) = p_state (k_pcbs k c)"
  by (rule sys_readc_blocks [OF assms])

theorem read_blocks_caller_witness:
  "\<exists>k'. sys_readc 0 alone = dispatch k' \<and> p_state (k_pcbs k' 0) = RUNNING"
proof -
  have "k_current alone = Some 0" "sio_readc (k_sio alone) = Inr (None, sio_init sio_blank)"
    and "p_state (k_pcbs alone 0) = RUNNING"
    by (simp_all add: alone_def sio_readc_def sio_init_def sio_outb_def)
  then show ?thesis using read_blocks_caller [OF alone_inv] by metis
qed

text \<open>A character that arrives while a process waits for input is the result of that process's
  call (a carriage return is read as a newline); the process is ready again, and the character
  is not buffered.\<close>

theorem character_wakes_reader:
  assumes "kernel_inv k" and "ql_items (k_q k) Q_READING = (key, p) # xs"
  shows "\<exists>k'. sio_receive rxd k = Inr k' \<and> kernel_inv k' \<and>
     get_reg (p_context (k_pcbs k p)) CTX_EAX k' = ucast (if rxd = 13 then 10 else rxd :: u8) \<and>
     p_state (k_pcbs k' p) = READY \<and> ql_items (k_q k') Q_READING = xs \<and>
     ql_items (k_q k') (Q_READY (clamp_prio (p_prio (k_pcbs k p)))) =
       ql_items (k_q k) (Q_READY (clamp_prio (p_prio (k_pcbs k p)))) @ [(0, p)] \<and> k_sio k' = k_sio k"
  using sio_receive_reader [OF assms, of rxd] sio_receive_inv [OF assms(1), of rxd] by auto

theorem character_wakes_reader_witness:
  "\<exists>k'. sio_receive 13 (pair_state RUNNING [] [(2, 1)] [] [] [] (\<lambda>_. 0)) = Inr k' \<and>
     get_reg (stack_ptr power_on (Some 1) + 0x1000) CTX_EAX k' = 10 \<and> p_state (k_pcbs k' 1) = READY"
proof -
  let ?k = "pair_state RUNNING [] [(2, 1)] [] [] [] (\<lambda>_. 0)"
  have "ql_items (k_q ?k) Q_READING = (2, 1) # []" and c: "p_context (k_pcbs ?k 1) = stack_ptr power_on (Some 1) + 0x1000"
    by (simp_all add: pair_state_def sample_queues_def)
  from character_wakes_reader [OF pair_reading_inv this(1), of 13]
  show ?thesis unfolding c by auto
qed

text \<open>A system call whose number is negative or too large for the table is the call \<^verbatim>\<open>exit\<close>.\<close>

theorem bad_call_number_exits:
  assumes "k_current k = Some c" and "p_context (k_pcbs k c) \<noteq> 0"
    and "sint (get_reg (p_context (k_pcbs k c)) CTX_EAX k) < 0 \<or>
         int N_SYSCALLS \<le> sint (get_reg (p_context (k_pcbs k c)) CTX_EAX k)"
    and "k_syscalls k 0 = Some Sys_exit"
  shows "isr_syscall drv k = andThen (sys_exit (p_context (k_pcbs k c)) k) (\<lambda>k1. Inr (k_outb 0x20 0x20 k1))"
  by (rule isr_syscall_out_of_range [OF assms])

theorem bad_call_number_exits_witness:
  "isr_syscall idle_driver (set_eax (p_context (k_pcbs alone 0)) 256 alone) =
     andThen (sys_exit (p_context (k_pcbs alone 0)) (set_eax (p_context (k_pcbs alone 0)) 256 alone))
       (\<lambda>k1. Inr (k_outb 0x20 0x20 k1))"
proof -
  let ?k = "set_eax (p_context (k_pcbs alone 0)) 256 alone"
  have ctx: "p_context (k_pcbs ?k 0) = p_context (k_pcbs alone 0)" by simp
  have "k_current ?k = Some 0" "p_context (k_pcbs ?k 0) \<noteq> 0" "k_syscalls ?k 0 = Some Sys_exit"
    by (simp_all add: alone_def stack_ptr_def power_on_def syscall_init_def)
  moreover have "sint (get_reg (p_context (k_pcbs ?k 0)) CTX_EAX ?k) < 0 \<or>
      int N_SYSCALLS \<le> sint (get_reg (p_context (k_pcbs ?k 0)) CTX_EAX ?k)"
    unfolding ctx by (simp add: N_SYSCALLS_def)
  ultimately show ?thesis using bad_call_number_exits [of ?k 0 idle_driver] unfolding ctx by blast
qed

end
